(* ===== verification/Prelude.thy ===== *)
theory Prelude
  imports Main "HOL-Library.Word"
begin

text \<open>
  Shared base of the development: the fixed-width integer types of the C sources, the model of
  the environment (allocator, timers, clock, callbacks), and generic lemmas on lists, options and
  words that the component theories use.
\<close>

unbundle bit_operations_syntax

named_theorems buff_simps \<open>equations of the buffer operations\<close>
named_theorems seq_simps \<open>arithmetic of 14-bit frame sequence numbers\<close>
named_theorems frame_simps \<open>equations of the frame operations\<close>

section \<open>Integer types\<close>

type_synonym u8 = "8 word"
type_synonym u16 = "16 word"
type_synonym u32 = "32 word"
type_synonym u64 = "64 word"
type_synonym bytes = "u8 list"

text \<open>
  Lengths and offsets are natural numbers; where the C code narrows one to \<open>uint8_t\<close> or
  \<open>uint16_t\<close> the model applies the corresponding truncation.
\<close>

definition to_u8 :: "nat \<Rightarrow> nat" where
  "to_u8 n = n mod 256"

definition to_u16 :: "nat \<Rightarrow> nat" where
  "to_u16 n = n mod 65536"

lemma to_u8_less [simp]: "to_u8 n < 256"
  by (simp add: to_u8_def)

lemma to_u16_less [simp]: "to_u16 n < 65536"
  by (simp add: to_u16_def)

lemma to_u8_id [simp]: "n < 256 \<Longrightarrow> to_u8 n = n"
  by (simp add: to_u8_def)

lemma to_u16_id [simp]: "n < 65536 \<Longrightarrow> to_u16 n = n"
  by (simp add: to_u16_def)

lemma to_u16_le [simp]: "to_u16 n \<le> n"
  by (simp add: to_u16_def)

section \<open>The environment\<close>

text \<open>
  Every call to the allocator, the timer service, the clock, the data link or an upper-layer
  callback is answered by the environment. An answer is looked up under the dynamic call path:
  a function passes \<^term>\<open>sub e k\<close> to the \<open>k\<close>-th call it makes, so two different
  dynamic calls never share an answer, and a theorem that quantifies over the environment
  quantifies over every combination of answers.
\<close>

record 'r env =
  env_path :: "nat list"
  env_alloc :: "nat list \<Rightarrow> nat option"
  env_timer :: "nat list \<Rightarrow> int option"
  env_time :: "nat list \<Rightarrow> nat"
  env_recv :: "nat list \<Rightarrow> 'r"
  env_dli :: "nat list \<Rightarrow> bool"

definition sub :: "'r env \<Rightarrow> nat \<Rightarrow> 'r env" where
  "sub e k = e\<lparr>env_path := k # env_path e\<rparr>"

text \<open>\<open>SDF_MemZalloc\<close> and \<open>SDF_MemAlloc\<close>: the address of the new object, or \<open>None\<close> for NULL.\<close>

definition SDF_MemZalloc :: "'r env \<Rightarrow> nat option" where
  "SDF_MemZalloc e = env_alloc e (env_path e)"

definition CP_TimerAdd :: "'r env \<Rightarrow> int option" where
  "CP_TimerAdd e = env_timer e (env_path e)"

definition DP_GetMonoTimeMs :: "'r env \<Rightarrow> nat" where
  "DP_GetMonoTimeMs e = env_time e (env_path e)"

definition call_recv :: "'r env \<Rightarrow> 'r" where
  "call_recv e = env_recv e (env_path e)"

definition call_dli :: "'r env \<Rightarrow> bool" where
  "call_dli e = env_dli e (env_path e)"

text \<open>An environment in which no allocation fails.\<close>

definition alloc_ok :: "'r env \<Rightarrow> bool" where
  "alloc_ok e \<longleftrightarrow> (\<forall>p. env_alloc e p \<noteq> None)"

lemma alloc_ok_sub [simp]: "alloc_ok (sub e k) = alloc_ok e"
  by (simp add: alloc_ok_def sub_def)

lemma alloc_okD [elim]: "alloc_ok e \<Longrightarrow> \<exists>a. SDF_MemZalloc e = Some a"
  by (auto simp: alloc_ok_def SDF_MemZalloc_def)

lemma alloc_ok_iff [simp]: "alloc_ok e \<Longrightarrow> SDF_MemZalloc e \<noteq> None"
  by (auto simp: alloc_ok_def SDF_MemZalloc_def)

text \<open>
  A concrete environment that grants every request: allocation number \<open>p\<close> returns an address that
  encodes the call path, every timer starts, the clock stands still and every callback answers \<open>r\<close>.
\<close>

definition granting_env :: "'r \<Rightarrow> 'r env" where
  "granting_env r = \<lparr>env_path = [], env_alloc = (\<lambda>p. Some (foldr (\<lambda>k a. 1 + k + 64 * a) p 1)),
     env_timer = (\<lambda>p. Some 1), env_time = (\<lambda>p. 0), env_recv = (\<lambda>p. r), env_dli = (\<lambda>p. True)\<rparr>"

lemma alloc_ok_granting [simp]: "alloc_ok (granting_env r)"
  by (simp add: alloc_ok_def granting_env_def)

lemma granting_env_simps [simp]:
  "env_recv (granting_env r) p = r" "env_dli (granting_env r) p" "env_timer (granting_env r) p = Some 1"
  by (simp_all add: granting_env_def)

lemma sub_simps [simp]:
  "env_recv (sub e k) = env_recv e" "env_dli (sub e k) = env_dli e" "env_timer (sub e k) = env_timer e"
  "env_alloc (sub e k) = env_alloc e" "env_time (sub e k) = env_time e"
  by (simp_all add: sub_def)

section \<open>Lists\<close>

lemma take_drop_append_mid:
  "i + n \<le> length xs \<Longrightarrow> take i xs @ take n (drop i xs) @ drop (i + n) xs = xs"
  by (metis add.commute append_take_drop_id drop_drop)

lemma sum_list_pos_ge_1: "\<forall>x \<in> set xs. (1::nat) \<le> x \<Longrightarrow> length xs \<le> sum_list xs"
  by (induction xs) auto

lemma drop_takeWhile_length: "drop (length (takeWhile P xs)) xs = dropWhile P xs"
  by (induction xs) auto

end
