(* ===== verification/Byte_Codec.thy ===== *)
theory Byte_Codec
  imports Prelude
begin

text \<open>
  The byte order macros of \<open>utils/include/byte_codec.h\<close> and the table driven CRC-16 of
  \<open>utils/src/crc16.c\<close>. The lemmas show the round trips of the codecs, that the table is the one of
  the polynomial the comment names, that the CRC of a message followed by its own CRC is 0 and
  that only this trailer makes it 0, and that the CRC detects every corruption of a single byte.
\<close>

section \<open>Byte order macros\<close>

definition DECODE2BYTE_LITTLE :: "u8 \<Rightarrow> u8 \<Rightarrow> u16" where
  "DECODE2BYTE_LITTLE b0 b1 = ucast b0 OR push_bit 8 (ucast b1)"

definition ENCODE2BYTE_LITTLE :: "u16 \<Rightarrow> bytes" where
  "ENCODE2BYTE_LITTLE d = [ucast d, ucast (drop_bit 8 d)]"

definition DECODE2BYTE_BIG :: "u8 \<Rightarrow> u8 \<Rightarrow> u16" where
  "DECODE2BYTE_BIG b0 b1 = ucast b1 OR push_bit 8 (ucast b0)"

definition ENCODE2BYTE_BIG :: "u16 \<Rightarrow> bytes" where
  "ENCODE2BYTE_BIG d = [ucast (drop_bit 8 d), ucast d]"

section \<open>CRC-16\<close>

definition CRC16_TABLE :: "u16 list" where
  "CRC16_TABLE = [
     0x0000, 0xC0C1, 0xC181, 0x0140, 0xC301, 0x03C0, 0x0280, 0xC241,
     0xC601, 0x06C0, 0x0780, 0xC741, 0x0500, 0xC5C1, 0xC481, 0x0440,
     0xCC01, 0x0CC0, 0x0D80, 0xCD41, 0x0F00, 0xCFC1, 0xCE81, 0x0E40,
     0x0A00, 0xCAC1, 0xCB81, 0x0B40, 0xC901, 0x09C0, 0x0880, 0xC841,
     0xD801, 0x18C0, 0x1980, 0xD941, 0x1B00, 0xDBC1, 0xDA81, 0x1A40,
     0x1E00, 0xDEC1, 0xDF81, 0x1F40, 0xDD01, 0x1DC0, 0x1C80, 0xDC41,
     0x1400, 0xD4C1, 0xD581, 0x1540, 0xD701, 0x17C0, 0x1680, 0xD641,
     0xD201, 0x12C0, 0x1380, 0xD341, 0x1100, 0xD1C1, 0xD081, 0x1040,
     0xF001, 0x30C0, 0x3180, 0xF141, 0x3300, 0xF3C1, 0xF281, 0x3240,
     0x3600, 0xF6C1, 0xF781, 0x3740, 0xF501, 0x35C0, 0x3480, 0xF441,
     0x3C00, 0xFCC1, 0xFD81, 0x3D40, 0xFF01, 0x3FC0, 0x3E80, 0xFE41,
     0xFA01, 0x3AC0, 0x3B80, 0xFB41, 0x3900, 0xF9C1, 0xF881, 0x3840,
     0x2800, 0xE8C1, 0xE981, 0x2940, 0xEB01, 0x2BC0, 0x2A80, 0xEA41,
     0xEE01, 0x2EC0, 0x2F80, 0xEF41, 0x2D00, 0xEDC1, 0xEC81, 0x2C40,
     0xE401, 0x24C0, 0x2580, 0xE541, 0x2700, 0xE7C1, 0xE681, 0x2640,
     0x2200, 0xE2C1, 0xE381, 0x2340, 0xE101, 0x21C0, 0x2080, 0xE041,
     0xA001, 0x60C0, 0x6180, 0xA141, 0x6300, 0xA3C1, 0xA281, 0x6240,
     0x6600, 0xA6C1, 0xA781, 0x6740, 0xA501, 0x65C0, 0x6480, 0xA441,
     0x6C00, 0xACC1, 0xAD81, 0x6D40, 0xAF01, 0x6FC0, 0x6E80, 0xAE41,
     0xAA01, 0x6AC0, 0x6B80, 0xAB41, 0x6900, 0xA9C1, 0xA881, 0x6840,
     0x7800, 0xB8C1, 0xB981, 0x7940, 0xBB01, 0x7BC0, 0x7A80, 0xBA41,
     0xBE01, 0x7EC0, 0x7F80, 0xBF41, 0x7D00, 0xBDC1, 0xBC81, 0x7C40,
     0xB401, 0x74C0, 0x7580, 0xB541, 0x7700, 0xB7C1, 0xB681, 0x7640,
     0x7200, 0xB2C1, 0xB381, 0x7340, 0xB101, 0x71C0, 0x7080, 0xB041,
     0x5000, 0x90C1, 0x9181, 0x5140, 0x9301, 0x53C0, 0x5280, 0x9241,
     0x9601, 0x56C0, 0x5780, 0x9741, 0x5500, 0x95C1, 0x9481, 0x5440,
     0x9C01, 0x5CC0, 0x5D80, 0x9D41, 0x5F00, 0x9FC1, 0x9E81, 0x5E40,
     0x5A00, 0x9AC1, 0x9B81, 0x5B40, 0x9901, 0x59C0, 0x5880, 0x9841,
     0x8801, 0x48C0, 0x4980, 0x8941, 0x4B00, 0x8BC1, 0x8A81, 0x4A40,
     0x4E00, 0x8EC1, 0x8F81, 0x4F40, 0x8D01, 0x4DC0, 0x4C80, 0x8C41,
     0x4400, 0x84C1, 0x8581, 0x4540, 0x8701, 0x47C0, 0x4680, 0x8641,
     0x8201, 0x42C0, 0x4380, 0x8341, 0x4100, 0x81C1, 0x8081, 0x4040]"

definition CRC16Byte :: "u16 \<Rightarrow> u8 \<Rightarrow> u16" where
  "CRC16Byte crc d = drop_bit 8 crc XOR (CRC16_TABLE ! unat ((crc XOR ucast d) AND 0xff))"

fun CRC16 :: "u16 \<Rightarrow> bytes \<Rightarrow> u16" where
  "CRC16 crc [] = crc"
| "CRC16 crc (d # ds) = CRC16 (CRC16Byte crc d) ds"

section \<open>Round trips of the codecs\<close>

lemma bit_decode_little:
  "bit (DECODE2BYTE_LITTLE a b) n \<longleftrightarrow> (if n < 8 then bit a n else n < 16 \<and> bit b (n - 8))"
  by (auto simp: DECODE2BYTE_LITTLE_def bit_simps dest: bit_imp_le_length)

lemma decode_encode_little [simp]:
  "DECODE2BYTE_LITTLE (ucast d) (ucast (drop_bit 8 d)) = d"
  by (rule bit_eqI) (auto simp: bit_decode_little bit_simps)

lemma encode_decode_little: "ENCODE2BYTE_LITTLE (DECODE2BYTE_LITTLE a b) = [a, b]"
  by (auto simp: ENCODE2BYTE_LITTLE_def bit_decode_little bit_simps intro!: bit_eqI
      dest: bit_imp_le_length)

lemma decode_big_eq_little: "DECODE2BYTE_BIG a b = DECODE2BYTE_LITTLE b a"
  by (simp add: DECODE2BYTE_BIG_def DECODE2BYTE_LITTLE_def)

lemma decode_encode_big [simp]:
  "DECODE2BYTE_BIG (ucast (drop_bit 8 d)) (ucast d) = d"
  by (simp add: decode_big_eq_little)

lemma length_encode_little [simp]: "length (ENCODE2BYTE_LITTLE d) = 2"
  by (simp add: ENCODE2BYTE_LITTLE_def)

lemma length_encode_big [simp]: "length (ENCODE2BYTE_BIG d) = 2"
  by (simp add: ENCODE2BYTE_BIG_def)

section \<open>The bit-serial reference CRC\<close>

text \<open>
  The reference shifts one bit at a time and adds the reflected polynomial
  \<open>x^16 + x^15 + x^2 + 1\<close> whenever a one bit is shifted out.
\<close>

definition crc_shift :: "u16 \<Rightarrow> u16" where
  "crc_shift c = drop_bit 1 c XOR (if bit c 0 then 0xA001 else 0)"

fun crc_shifts :: "nat \<Rightarrow> u16 \<Rightarrow> u16" where
  "crc_shifts 0 c = c"
| "crc_shifts (Suc n) c = crc_shifts n (crc_shift c)"

fun crc_reference :: "u16 \<Rightarrow> bytes \<Rightarrow> u16" where
  "crc_reference c [] = c"
| "crc_reference c (d # ds) = crc_reference (crc_shifts 8 (c XOR ucast d)) ds"

lemma crc_shift_xor: "crc_shift (a XOR b) = crc_shift a XOR crc_shift b"
  by (auto simp: crc_shift_def bit_simps intro!: bit_eqI)

lemma crc_shifts_xor: "crc_shifts n (a XOR b) = crc_shifts n a XOR crc_shifts n b"
  by (induction n arbitrary: a b) (simp_all add: crc_shift_xor)

lemma crc_shifts_add: "crc_shifts (m + n) c = crc_shifts n (crc_shifts m c)"
  by (induction m arbitrary: c) simp_all

lemma crc_shift_inj: "crc_shift a = crc_shift b \<Longrightarrow> a = b"
proof -
  have top: "bit (crc_shift x) 15 = bit x 0" for x :: u16
    by (auto simp: crc_shift_def bit_simps dest: bit_imp_le_length)
  assume eq: "crc_shift a = crc_shift b"
  with top have lsb: "bit a 0 = bit b 0" by metis
  define k :: u16 where "k = (if bit b 0 then 0xA001 else 0)"
  from eq lsb have "drop_bit 1 a XOR k = drop_bit 1 b XOR k"
    by (simp add: crc_shift_def k_def)
  then have "(drop_bit 1 a XOR k) XOR k = (drop_bit 1 b XOR k) XOR k" by simp
  then have "drop_bit 1 a = drop_bit 1 b"
    by (simp only: xor.assoc xor_self_eq xor.right_neutral)
  then have "bit a (Suc n) = bit b (Suc n)" for n
    by (metis bit_drop_bit_eq comp_apply plus_1_eq_Suc)
  with lsb show "a = b"
    by (intro bit_eqI) (metis not0_implies_Suc)
qed

lemma crc_shifts_inj: "crc_shifts n a = crc_shifts n b \<Longrightarrow> a = b"
  by (induction n arbitrary: a b) (auto dest: crc_shift_inj)

lemma crc_shifts_0 [simp]: "crc_shifts n 0 = 0"
  by (induction n) (simp_all add: crc_shift_def)

lemma crc_shifts_eq_0 [simp]: "crc_shifts n c = 0 \<longleftrightarrow> c = 0"
  using crc_shifts_inj [of n c 0] by auto

lemma crc_shifts_low_zero:
  "(\<And>i. i < n \<Longrightarrow> \<not> bit c i) \<Longrightarrow> crc_shifts n c = drop_bit n c"
proof (induction n arbitrary: c)
  case 0
  then show ?case by simp
next
  case (Suc n)
  have "crc_shift c = drop_bit 1 c"
    using Suc.prems [of 0] by (simp add: crc_shift_def)
  moreover have "\<not> bit (drop_bit 1 c) i" if "i < n" for i
    using Suc.prems [of "Suc i"] that by (simp add: bit_drop_bit_eq)
  ultimately show ?case
    using Suc.IH [of "drop_bit 1 c"] by simp
qed

section \<open>The table driven CRC equals the reference\<close>

text \<open>The shift on integers, which the simplifier evaluates digit by digit.\<close>

definition crc_shift_int :: "int \<Rightarrow> int" where
  "crc_shift_int n = (n div 2) XOR (if even n then 0 else 0xA001)"

definition crc_shift8_int :: "int \<Rightarrow> int" where
  "crc_shift8_int n = (crc_shift_int ^^ 8) n"

lemma crc_shift_int_simps:
  "crc_shift_int 0 = 0" "crc_shift_int 1 = 0xA001"
  "crc_shift_int (numeral (num.Bit0 n)) = numeral n"
  "crc_shift_int (numeral (num.Bit1 n)) = numeral n XOR 0xA001"
  by (simp_all add: crc_shift_int_def)

lemma crc_shift8_int_unfold:
  "crc_shift8_int n = crc_shift_int (crc_shift_int (crc_shift_int (crc_shift_int
     (crc_shift_int (crc_shift_int (crc_shift_int (crc_shift_int n)))))))"
  by (simp add: crc_shift8_int_def numeral_eq_Suc)

lemma word_of_int_xor: "word_of_int a XOR word_of_int b = (word_of_int (a XOR b) :: u16)"
  by (rule bit_eqI) (simp add: bit_word_of_int_iff bit_simps)

lemma crc_shift_of_int:
  assumes "0 \<le> n" "n < 65536"
  shows "crc_shift (word_of_int n) = word_of_int (crc_shift_int n)"
proof -
  have "bit (word_of_int n :: u16) 0 = odd n"
    by (simp add: bit_word_of_int_iff del: bit_0) (simp add: bit_0)
  moreover have "drop_bit 1 (word_of_int n :: u16) = word_of_int (n div 2)"
    using assms by (simp add: drop_bit_eq_div word_div_def uint_word_of_int take_bit_int_eq_self
        flip: drop_bit_Suc)
  moreover have "word_of_int (n div 2) XOR (0xA001 :: u16) = word_of_int (n div 2 XOR 0xA001)"
    using word_of_int_xor [of "n div 2" "0xA001"] by simp
  ultimately show ?thesis
    by (cases "even n") (simp_all add: crc_shift_def crc_shift_int_def)
qed

lemma crc_shift_int_range:
  "0 \<le> n \<Longrightarrow> n < 65536 \<Longrightarrow> 0 \<le> crc_shift_int n \<and> crc_shift_int n < 65536"
  using XOR_upper [of "n div 2" 16 "0xA001"] by (auto simp: crc_shift_int_def)

lemma crc_shifts_of_int:
  "0 \<le> n \<Longrightarrow> n < 65536 \<Longrightarrow>
   crc_shifts k (word_of_int n) = word_of_int ((crc_shift_int ^^ k) n)"
proof (induction k arbitrary: n)
  case (Suc k)
  then show ?case
    using crc_shift_int_range [of n]
    by (simp add: crc_shift_of_int funpow_swap1)
qed simp

lemma table_int:
  "map (\<lambda>i. word_of_int (crc_shift8_int i)) [0..255] = CRC16_TABLE"
  by (simp add: upto_rec1 crc_shift8_int_unfold crc_shift_int_simps CRC16_TABLE_def)

lemma table_nth:
  assumes "i < 256"
  shows "CRC16_TABLE ! i = crc_shifts 8 (of_nat i)"
proof -
  have "CRC16_TABLE ! i = word_of_int (crc_shift8_int (int i))"
    using assms by (simp flip: table_int)
  also have "\<dots> = crc_shifts 8 (word_of_int (int i))"
    using assms crc_shifts_of_int [of "int i" 8] by (simp only: crc_shift8_int_def)
  finally show ?thesis by simp
qed

lemma CRC16Byte_reference: "CRC16Byte crc d = crc_shifts 8 (crc XOR ucast d)"
proof -
  define x where "x = crc XOR ucast d"
  have low: "unat (x AND 0xff) < 256"
    using word_and_le1 [of x "0xff"] by (simp add: word_le_nat_alt)
  have hi: "crc_shifts 8 (x AND 0xff00) = drop_bit 8 (x AND 0xff00)"
    by (rule crc_shifts_low_zero) (auto simp: bit_simps numeral_eq_Suc less_Suc_eq)
  have "drop_bit 8 (x AND 0xff00) = drop_bit 8 crc"
    by (rule bit_eqI)
      (auto simp: x_def bit_simps numeral_eq_Suc less_Suc_eq dest: bit_imp_le_length)
  moreover have "x = (x AND 0xff00) XOR (x AND 0xff)"
    by (rule bit_eqI) (auto simp: bit_simps numeral_eq_Suc less_Suc_eq)
  then have "crc_shifts 8 x = crc_shifts 8 (x AND 0xff00) XOR crc_shifts 8 (x AND 0xff)"
    by (metis crc_shifts_xor)
  ultimately show ?thesis
    using low hi by (simp add: CRC16Byte_def table_nth x_def)
qed

lemma CRC16_reference: "CRC16 crc ds = crc_reference crc ds"
  by (induction crc ds rule: CRC16.induct) (simp_all add: CRC16Byte_reference)

section \<open>Error detection\<close>

lemma CRC16_append: "CRC16 crc (xs @ ys) = CRC16 (CRC16 crc xs) ys"
  by (induction xs arbitrary: crc) simp_all

lemma CRC16_two: "CRC16 c [a, b] = crc_shifts 16 (c XOR DECODE2BYTE_LITTLE a b)"
proof -
  define h :: u16 where "h = push_bit 8 (ucast b)"
  have "crc_shifts 8 h = drop_bit 8 h"
    by (rule crc_shifts_low_zero) (auto simp: h_def bit_simps)
  also have "\<dots> = ucast b"
    by (rule bit_eqI) (auto simp: h_def bit_simps dest: bit_imp_le_length)
  finally have h: "crc_shifts 8 h = ucast b" .
  have "DECODE2BYTE_LITTLE a b = ucast a XOR h"
    by (rule bit_eqI) (auto simp: h_def bit_decode_little bit_simps dest: bit_imp_le_length)
  then have "crc_shifts 16 (c XOR DECODE2BYTE_LITTLE a b)
      = crc_shifts 8 (crc_shifts 8 ((c XOR ucast a) XOR h))"
    using crc_shifts_add [of 8 8] by (simp add: xor.assoc)
  then show ?thesis
    using h by (simp add: CRC16Byte_reference crc_shifts_xor)
qed

lemma xor_eq_0_iff: "a XOR b = 0 \<longleftrightarrow> a = (b :: u16)"
proof
  assume "a XOR b = 0"
  then have "(a XOR b) XOR b = 0 XOR b" by simp
  then show "a = b" by (simp add: xor.assoc)
qed simp

lemma xor_right_cancel: "a XOR c = b XOR c \<longleftrightarrow> a = (b :: u16)"
proof
  assume "a XOR c = b XOR c"
  then have "(a XOR c) XOR c = (b XOR c) XOR c" by simp
  then show "a = b" by (simp add: xor.assoc)
qed simp

lemma CRC16_trailer_iff:
  "CRC16 crc (ds @ [a, b]) = 0 \<longleftrightarrow> [a, b] = ENCODE2BYTE_LITTLE (CRC16 crc ds)"
proof -
  define c where "c = CRC16 crc ds"
  have "CRC16 crc (ds @ [a, b]) = 0 \<longleftrightarrow> c XOR DECODE2BYTE_LITTLE a b = 0"
    by (simp only: CRC16_append CRC16_two c_def crc_shifts_eq_0)
  also have "\<dots> \<longleftrightarrow> c = DECODE2BYTE_LITTLE a b"
    by (simp add: xor_eq_0_iff)
  also have "\<dots> \<longleftrightarrow> [a, b] = ENCODE2BYTE_LITTLE c"
    by (auto simp: encode_decode_little) (simp add: ENCODE2BYTE_LITTLE_def)
  finally show ?thesis by (simp add: c_def)
qed

lemma CRC16_inj: "CRC16 c ds = CRC16 c' ds \<Longrightarrow> c = c'"
proof (induction ds arbitrary: c c')
  case (Cons d ds)
  then have "crc_shifts 8 (c XOR ucast d) = crc_shifts 8 (c' XOR ucast d)"
    by (simp add: CRC16Byte_reference)
  then show ?case
    by (auto dest: crc_shifts_inj simp: xor_right_cancel)
qed simp

lemma CRC16Byte_inj: "CRC16Byte c a = CRC16Byte c b \<Longrightarrow> a = b"
proof -
  assume "CRC16Byte c a = CRC16Byte c b"
  then have "c XOR ucast a = c XOR ucast b"
    by (auto simp: CRC16Byte_reference dest: crc_shifts_inj)
  then have "c XOR (c XOR (ucast a :: u16)) = c XOR (c XOR ucast b)" by simp
  then have "(ucast a :: u16) = ucast b"
    by (simp flip: xor.assoc)
  then have "uint (ucast a :: u16) = uint (ucast b :: u16)" by simp
  then show ?thesis by (simp add: uint_up_ucast is_up word_uint_eq_iff)
qed

lemma CRC16_single_byte_error:
  "a \<noteq> b \<Longrightarrow> CRC16 crc (xs @ a # ys) \<noteq> CRC16 crc (xs @ b # ys)"
  using CRC16_inj CRC16Byte_inj by (fastforce simp: CRC16_append)

section \<open>Properties\<close>

text \<open>
  (C16) The table driven \<open>CRC16\<close> computes, for every start value and every byte sequence, the bit-serial
  CRC with the reflected polynomial \<open>x^16 + x^15 + x^2 + 1\<close>: all 256 table entries are the right ones.
\<close>

theorem CRC16_is_polynomial_crc: "CRC16 crc ds = crc_reference crc ds"
  by (rule CRC16_reference)

text \<open>
  The receiver's test for a zero checksum accepts a message with a two byte trailer exactly when the
  trailer is the little endian checksum of the message, for every start value.
\<close>

theorem CRC16_zero_iff_trailer:
  "CRC16 crc (ds @ [a, b]) = 0 \<longleftrightarrow> [a, b] = ENCODE2BYTE_LITTLE (CRC16 crc ds)"
  by (rule CRC16_trailer_iff)

text \<open>The checksum detects every corruption of one byte, at any position of the message.\<close>

theorem CRC16_detects_byte_error:
  "CRC16 crc (xs @ a # ys) = CRC16 crc (xs @ b # ys) \<longleftrightarrow> a = b"
  using CRC16_single_byte_error by metis

end
