(* ===== verification/SDF_Buff.thy ===== *)
theory SDF_Buff
  imports Byte_Codec
begin

text \<open>
  The data buffer of \<open>sdf/src/.../sdf_buff.c\<close>: a storage area with a window \<open>[dataOff, dataOff + dataLen)\<close>
  that grows at both ends into the reserved headroom and tailroom. A buffer carries the address its
  allocation returned, so that a pointer into it is a pair of that address and an offset. Reads and
  writes outside the storage have no result (\<^term>\<open>None\<close>): an operation that is proved to return
  \<^term>\<open>Some\<close> accesses only memory of the buffer.
\<close>

section \<open>Data and operations\<close>

record SDF_Buff =
  buff_addr :: nat
  dataOff :: nat
  dataLen :: nat
  buffLen :: nat
  buff :: bytes

type_synonym ptr = "nat \<times> nat"

abbreviation (input) SDF_BUFF_MAX_HEADROOM_SIZE :: nat where
  "SDF_BUFF_MAX_HEADROOM_SIZE \<equiv> 14"

abbreviation (input) SDF_BUFF_MAX_TAILROOM_SIZE :: nat where
  "SDF_BUFF_MAX_TAILROOM_SIZE \<equiv> 2"

abbreviation (input) SDF_BUFF_MAX_RESERVED_SIZE :: nat where
  "SDF_BUFF_MAX_RESERVED_SIZE \<equiv> SDF_BUFF_MAX_HEADROOM_SIZE + SDF_BUFF_MAX_TAILROOM_SIZE"

definition SDF_BuffHeadRoom :: "SDF_Buff \<Rightarrow> nat" where
  "SDF_BuffHeadRoom b = dataOff b"

definition SDF_BuffTailRoom :: "SDF_Buff \<Rightarrow> nat" where
  "SDF_BuffTailRoom b = buffLen b - dataOff b - dataLen b"

definition SDF_DataOffset :: "SDF_Buff \<Rightarrow> ptr" where
  "SDF_DataOffset b = (buff_addr b, dataOff b)"

definition new_buff :: "nat \<Rightarrow> nat \<Rightarrow> nat \<Rightarrow> SDF_Buff" where
  "new_buff a off len =
     \<lparr>buff_addr = a, dataOff = off, dataLen = 0, buffLen = len, buff = replicate len 0\<rparr>"

definition SDF_BuffNew :: "'r env \<Rightarrow> nat \<Rightarrow> SDF_Buff option" where
  "SDF_BuffNew e sz =
     (case SDF_MemZalloc e of None \<Rightarrow> None | Some a \<Rightarrow> Some (new_buff a 0 sz))"

definition SDF_BuffNewWithReserve :: "'r env \<Rightarrow> nat \<Rightarrow> SDF_Buff option" where
  "SDF_BuffNewWithReserve e sz =
     (case SDF_MemZalloc e of
        None \<Rightarrow> None
      | Some a \<Rightarrow> Some (new_buff a SDF_BUFF_MAX_HEADROOM_SIZE (SDF_BUFF_MAX_RESERVED_SIZE + sz)))"

definition SDF_BuffNewWithExtraReserve :: "'r env \<Rightarrow> nat \<Rightarrow> nat \<Rightarrow> SDF_Buff option" where
  "SDF_BuffNewWithExtraReserve e sz extraSize =
     (case SDF_MemZalloc e of
        None \<Rightarrow> None
      | Some a \<Rightarrow> Some (new_buff a (SDF_BUFF_MAX_HEADROOM_SIZE + extraSize)
                           (SDF_BUFF_MAX_RESERVED_SIZE + sz + extraSize)))"

text \<open>
  The operations return the offset of the pointer the C function returns together with the updated
  buffer, and \<^term>\<open>None\<close> where it returns NULL (or -1) and leaves the buffer as it is.
\<close>

fun SDF_BuffAppend :: "SDF_Buff option \<Rightarrow> nat \<Rightarrow> (nat \<times> SDF_Buff) option" where
  "SDF_BuffAppend None sz = None"
| "SDF_BuffAppend (Some b) sz =
     (if sz > SDF_BuffTailRoom b then None
      else Some (dataOff b + dataLen b, b\<lparr>dataLen := dataLen b + sz\<rparr>))"

fun SDF_BuffPrepend :: "SDF_Buff option \<Rightarrow> nat \<Rightarrow> (nat \<times> SDF_Buff) option" where
  "SDF_BuffPrepend None sz = None"
| "SDF_BuffPrepend (Some b) sz =
     (if sz > SDF_BuffHeadRoom b then None
      else Some (dataOff b - sz, b\<lparr>dataOff := dataOff b - sz, dataLen := dataLen b + sz\<rparr>))"

fun SDF_BuffTrimPrefix :: "SDF_Buff option \<Rightarrow> nat \<Rightarrow> (nat \<times> SDF_Buff) option" where
  "SDF_BuffTrimPrefix None sz = None"
| "SDF_BuffTrimPrefix (Some b) sz =
     (if sz > dataLen b then None
      else Some (dataOff b + sz, b\<lparr>dataLen := dataLen b - sz, dataOff := dataOff b + sz\<rparr>))"

fun SDF_BuffTrimSuffix :: "SDF_Buff option \<Rightarrow> nat \<Rightarrow> SDF_Buff option" where
  "SDF_BuffTrimSuffix None sz = None"
| "SDF_BuffTrimSuffix (Some b) sz =
     (if sz > dataLen b then None else Some (b\<lparr>dataLen := dataLen b - sz\<rparr>))"

text \<open>
  The copy includes the three length fields and the storage; its address is a new one. The test
  against \<open>UINT64_MAX - sizeof(SDF_Buff_S)\<close> excludes lengths no allocation can have.
\<close>

fun SDF_BuffCopy :: "'r env \<Rightarrow> SDF_Buff option \<Rightarrow> SDF_Buff option" where
  "SDF_BuffCopy e None = None"
| "SDF_BuffCopy e (Some b) =
     (if buffLen b > 2 ^ 64 - 1 - 24 then None
      else (case SDF_MemZalloc e of None \<Rightarrow> None | Some a \<Rightarrow> Some (b\<lparr>buff_addr := a\<rparr>)))"

section \<open>Memory accesses\<close>

definition mem_read :: "SDF_Buff \<Rightarrow> nat \<Rightarrow> nat \<Rightarrow> bytes option" where
  "mem_read b off n =
     (if off + n \<le> length (buff b) then Some (take n (drop off (buff b))) else None)"

definition mem_write :: "SDF_Buff \<Rightarrow> nat \<Rightarrow> bytes \<Rightarrow> SDF_Buff option" where
  "mem_write b off bs =
     (if off + length bs \<le> length (buff b)
      then Some (b\<lparr>buff := take off (buff b) @ bs @ drop (off + length bs) (buff b)\<rparr>) else None)"

text \<open>The bytes of the window, i.e. what the data link transmits.\<close>

definition buff_data :: "SDF_Buff \<Rightarrow> bytes" where
  "buff_data b = take (dataLen b) (drop (dataOff b) (buff b))"

section \<open>Invariant\<close>

definition buff_ok :: "SDF_Buff \<Rightarrow> bool" where
  "buff_ok b \<longleftrightarrow> buffLen b = length (buff b) \<and> dataOff b + dataLen b \<le> buffLen b"

lemma length_buff_data [simp]: "buff_ok b \<Longrightarrow> length (buff_data b) = dataLen b"
  by (auto simp: buff_ok_def buff_data_def)

lemma new_buff_ok [simp]: "off \<le> len \<Longrightarrow> buff_ok (new_buff a off len)"
  by (simp add: buff_ok_def new_buff_def)

lemma new_buff_simps [simp]:
  "buff_addr (new_buff a off len) = a" "dataOff (new_buff a off len) = off"
  "dataLen (new_buff a off len) = 0" "buffLen (new_buff a off len) = len"
  "buff (new_buff a off len) = replicate len 0" "buff_data (new_buff a off len) = []"
  by (simp_all add: new_buff_def buff_data_def)

lemma SDF_BuffNew_SomeD:
  "SDF_BuffNew e n = Some b \<Longrightarrow> buff_ok b \<and> buff_data b = [] \<and> dataLen b = 0
     \<and> SDF_BuffTailRoom b = n \<and> buffLen b = n"
  by (auto simp: SDF_BuffNew_def SDF_BuffTailRoom_def split: option.splits)

lemma SDF_BuffNewWithReserve_SomeD:
  "SDF_BuffNewWithReserve e n = Some b \<Longrightarrow> buff_ok b \<and> buff_data b = [] \<and> dataLen b = 0 \<and> dataOff b = 14
     \<and> SDF_BuffHeadRoom b = 14 \<and> SDF_BuffTailRoom b = n + 2 \<and> buffLen b = n + 16"
  by (auto simp: SDF_BuffNewWithReserve_def SDF_BuffTailRoom_def SDF_BuffHeadRoom_def
      split: option.splits)

lemma SDF_BuffNewWithExtraReserve_SomeD:
  "SDF_BuffNewWithExtraReserve e n x = Some b \<Longrightarrow> buff_ok b \<and> buff_data b = []
     \<and> SDF_BuffHeadRoom b = 14 + x \<and> SDF_BuffTailRoom b = n + 2"
  by (auto simp: SDF_BuffNewWithExtraReserve_def SDF_BuffTailRoom_def SDF_BuffHeadRoom_def
      split: option.splits)

section \<open>Growing and shrinking the window\<close>

text \<open>Appending \<open>length bs\<close> bytes and filling them in, as every caller of \<open>SDF_BuffAppend\<close> does.\<close>

definition append_bytes :: "SDF_Buff \<Rightarrow> bytes \<Rightarrow> SDF_Buff option" where
  "append_bytes b bs =
     (case SDF_BuffAppend (Some b) (length bs) of
        None \<Rightarrow> None | Some (tail, b') \<Rightarrow> mem_write b' tail bs)"

definition prepend_bytes :: "SDF_Buff \<Rightarrow> bytes \<Rightarrow> SDF_Buff option" where
  "prepend_bytes b bs =
     (case SDF_BuffPrepend (Some b) (length bs) of
        None \<Rightarrow> None | Some (off, b') \<Rightarrow> mem_write b' off bs)"

lemma append_bytes_Some:
  assumes "buff_ok b" "length bs \<le> SDF_BuffTailRoom b"
  obtains b' where "append_bytes b bs = Some b'" "buff_ok b'" "buff_data b' = buff_data b @ bs"
    "dataOff b' = dataOff b" "dataLen b' = dataLen b + length bs" "buff_addr b' = buff_addr b"
    "SDF_BuffTailRoom b' = SDF_BuffTailRoom b - length bs" "buffLen b' = buffLen b"
proof -
  let ?t = "dataOff b + dataLen b"
  let ?b' = "b\<lparr>dataLen := dataLen b + length bs,
               buff := take ?t (buff b) @ bs @ drop (?t + length bs) (buff b)\<rparr>"
  have le: "?t + length bs \<le> length (buff b)"
    using assms by (auto simp: buff_ok_def SDF_BuffTailRoom_def)
  then have "append_bytes b bs = Some ?b'"
    using assms by (simp add: append_bytes_def mem_write_def)
  moreover have "buff_data ?b' = buff_data b @ bs"
    using le by (cases bs) (auto simp: buff_data_def take_drop min_def add.commute)
  moreover have "buff_ok ?b'"
    using le assms by (auto simp: buff_ok_def)
  ultimately show thesis
    using that by (simp add: SDF_BuffTailRoom_def)
qed

lemma prepend_bytes_Some:
  assumes "buff_ok b" "length bs \<le> SDF_BuffHeadRoom b"
  obtains b' where "prepend_bytes b bs = Some b'" "buff_ok b'" "buff_data b' = bs @ buff_data b"
    "dataOff b' = dataOff b - length bs" "dataLen b' = dataLen b + length bs"
    "buff_addr b' = buff_addr b" "SDF_BuffTailRoom b' = SDF_BuffTailRoom b" "buffLen b' = buffLen b"
proof -
  let ?h = "dataOff b - length bs"
  let ?b' = "b\<lparr>dataOff := ?h, dataLen := dataLen b + length bs,
               buff := take ?h (buff b) @ bs @ drop (dataOff b) (buff b)\<rparr>"
  have le: "length bs \<le> dataOff b" "dataOff b + dataLen b \<le> length (buff b)"
    using assms by (auto simp: buff_ok_def SDF_BuffHeadRoom_def)
  then have "prepend_bytes b bs = Some ?b'"
    using assms by (simp add: prepend_bytes_def mem_write_def)
  moreover have "buff_data ?b' = bs @ buff_data b"
    using le by (simp add: buff_data_def)
  moreover have "buff_ok ?b'"
    using le assms by (auto simp: buff_ok_def)
  ultimately show thesis
    using that le by (simp add: SDF_BuffTailRoom_def)
qed

lemma SDF_BuffTrimPrefix_Some:
  assumes "SDF_BuffTrimPrefix (Some b) n = Some (off, b')" "buff_ok b"
  shows "buff_ok b'" "buff_data b' = drop n (buff_data b)" "off = dataOff b'"
    "dataLen b' = dataLen b - n" "n \<le> dataLen b" "buff_addr b' = buff_addr b"
    "dataOff b' = dataOff b + n" "buffLen b' = buffLen b" "buff b' = buff b"
  using assms by (auto simp: buff_ok_def buff_data_def drop_take add.commute split: if_splits)

lemma SDF_BuffTrimSuffix_Some:
  assumes "SDF_BuffTrimSuffix (Some b) n = Some b'" "buff_ok b"
  shows "buff_ok b'" "buff_data b' = take (dataLen b - n) (buff_data b)"
    "dataLen b' = dataLen b - n" "n \<le> dataLen b" "buff_addr b' = buff_addr b"
    "dataOff b' = dataOff b" "buffLen b' = buffLen b" "buff b' = buff b"
  using assms by (auto simp: buff_ok_def buff_data_def split: if_splits)

lemma SDF_BuffCopy_Some:
  assumes "SDF_BuffCopy e (Some b) = Some b'"
  shows "buff_data b' = buff_data b" "buff_ok b' = buff_ok b" "dataLen b' = dataLen b"
    "dataOff b' = dataOff b" "buff b' = buff b" "SDF_MemZalloc e = Some (buff_addr b')"
  using assms by (auto simp: buff_ok_def buff_data_def split: if_splits option.splits)

lemma mem_read_data:
  "buff_ok b \<Longrightarrow> i + n \<le> dataLen b \<Longrightarrow>
   mem_read b (dataOff b + i) n = Some (take n (drop i (buff_data b)))"
  by (auto simp: mem_read_def buff_ok_def buff_data_def drop_take add.commute min_def)

lemma mem_write_data:
  assumes "buff_ok b" "i + length bs \<le> dataLen b"
  obtains b' where "mem_write b (dataOff b + i) bs = Some b'" "buff_ok b'"
    "buff_data b' = take i (buff_data b) @ bs @ drop (i + length bs) (buff_data b)"
    "dataOff b' = dataOff b" "dataLen b' = dataLen b" "buff_addr b' = buff_addr b"
    "buffLen b' = buffLen b"
proof -
  let ?o = "dataOff b + i"
  let ?b' = "b\<lparr>buff := take ?o (buff b) @ bs @ drop (?o + length bs) (buff b)\<rparr>"
  have le: "?o + length bs \<le> length (buff b)" "dataOff b + dataLen b \<le> length (buff b)"
    using assms by (auto simp: buff_ok_def)
  then have w: "mem_write b ?o bs = Some ?b'" by (simp add: mem_write_def)
  define pre mid post where "pre = take (dataOff b) (buff b)" and "mid = buff_data b"
    and "post = drop (dataOff b + dataLen b) (buff b)"
  have "buff b = pre @ mid @ post" "length pre = dataOff b" "length mid = dataLen b"
    using le take_drop_append_mid [of "dataOff b" "dataLen b" "buff b"]
    by (simp_all add: pre_def mid_def post_def buff_data_def)
  then have "buff_data ?b' = take i mid @ bs @ drop (i + length bs) mid"
    using assms(2) by (simp add: buff_data_def)
  then show thesis
    using that w le assms by (simp add: buff_ok_def mid_def)
qed

section \<open>The buffer interface the framing code relies on\<close>

text \<open>
  A window buffer: what the framing code needs of the buffer component. A header pushed in front
  and a trailer pushed behind, both popped again, give back the payload, and a push succeeds exactly
  when the reserve is large enough.
\<close>

locale window_buffer =
  fixes ok :: "'b \<Rightarrow> bool" and data :: "'b \<Rightarrow> 'a list"
    and headroom tailroom :: "'b \<Rightarrow> nat"
    and push_front push_back :: "'b \<Rightarrow> 'a list \<Rightarrow> 'b option"
    and pop_front pop_back :: "'b \<Rightarrow> nat \<Rightarrow> 'b option"
  assumes push_front: "ok b \<Longrightarrow> length xs \<le> headroom b \<Longrightarrow>
      \<exists>b'. push_front b xs = Some b' \<and> ok b' \<and> data b' = xs @ data b \<and> tailroom b' = tailroom b"
    and push_front_None: "ok b \<Longrightarrow> headroom b < length xs \<Longrightarrow> push_front b xs = None"
    and push_back: "ok b \<Longrightarrow> length xs \<le> tailroom b \<Longrightarrow>
      \<exists>b'. push_back b xs = Some b' \<and> ok b' \<and> data b' = data b @ xs \<and> headroom b' = headroom b"
    and push_back_None: "ok b \<Longrightarrow> tailroom b < length xs \<Longrightarrow> push_back b xs = None"
    and pop_front: "ok b \<Longrightarrow> n \<le> length (data b) \<Longrightarrow>
      \<exists>b'. pop_front b n = Some b' \<and> ok b' \<and> data b' = drop n (data b)"
    and pop_back: "ok b \<Longrightarrow> n \<le> length (data b) \<Longrightarrow>
      \<exists>b'. pop_back b n = Some b' \<and> ok b' \<and> data b' = take (length (data b) - n) (data b)"
begin

definition wrap :: "'b \<Rightarrow> 'a list \<Rightarrow> 'a list \<Rightarrow> 'b option" where
  "wrap b hdr trl = Option.bind (push_front b hdr) (\<lambda>b'. push_back b' trl)"

definition unwrap :: "'b \<Rightarrow> nat \<Rightarrow> nat \<Rightarrow> 'b option" where
  "unwrap b n m = Option.bind (pop_front b n) (\<lambda>b'. pop_back b' m)"

lemma wrap_Some:
  "ok b \<Longrightarrow> length hdr \<le> headroom b \<Longrightarrow> length trl \<le> tailroom b \<Longrightarrow>
   \<exists>b'. wrap b hdr trl = Some b' \<and> ok b' \<and> data b' = hdr @ data b @ trl"
proof -
  assume b: "ok b" and h: "length hdr \<le> headroom b" and t: "length trl \<le> tailroom b"
  obtain b1 where b1: "push_front b hdr = Some b1" "ok b1" "data b1 = hdr @ data b"
      "tailroom b1 = tailroom b"
    using push_front [OF b h] by auto
  with push_back [of b1 trl] t show ?thesis by (auto simp: wrap_def)
qed

lemma unwrap_Some:
  "ok b \<Longrightarrow> data b = hdr @ d @ trl \<Longrightarrow>
   \<exists>b'. unwrap b (length hdr) (length trl) = Some b' \<and> ok b' \<and> data b' = d"
proof -
  assume b: "ok b" and d: "data b = hdr @ d @ trl"
  obtain b1 where b1: "pop_front b (length hdr) = Some b1" "ok b1" "data b1 = d @ trl"
    using pop_front [of b "length hdr"] b d by auto
  with pop_back [of b1 "length trl"] show ?thesis by (auto simp: unwrap_def)
qed

theorem wrap_unwrap:
  assumes "ok b" "length hdr \<le> headroom b" "length trl \<le> tailroom b"
  shows "\<exists>b' b''. wrap b hdr trl = Some b' \<and> data b' = hdr @ data b @ trl
    \<and> unwrap b' (length hdr) (length trl) = Some b'' \<and> ok b'' \<and> data b'' = data b"
  using wrap_Some [OF assms] unwrap_Some by blast

end

interpretation sdf_buff: window_buffer buff_ok buff_data SDF_BuffHeadRoom SDF_BuffTailRoom
  prepend_bytes append_bytes
  "\<lambda>b n. map_option snd (SDF_BuffTrimPrefix (Some b) n)" "\<lambda>b n. SDF_BuffTrimSuffix (Some b) n"
proof (unfold_locales, goal_cases)
  case (1 b xs)
  then show ?case by (metis prepend_bytes_Some)
next
  case (2 b xs)
  then show ?case by (simp add: prepend_bytes_def)
next
  case (3 b xs)
  then show ?case by (metis append_bytes_Some SDF_BuffHeadRoom_def)
next
  case (4 b xs)
  then show ?case by (simp add: append_bytes_def)
next
  case (5 b n)
  then have "SDF_BuffTrimPrefix (Some b) n =
      Some (dataOff b + n, b\<lparr>dataLen := dataLen b - n, dataOff := dataOff b + n\<rparr>)" by simp
  with 5 SDF_BuffTrimPrefix_Some [OF this] show ?case by auto
next
  case (6 b n)
  then have "SDF_BuffTrimSuffix (Some b) n = Some (b\<lparr>dataLen := dataLen b - n\<rparr>)" by simp
  with 6 SDF_BuffTrimSuffix_Some [OF this] show ?case by auto
qed

end
