(* ===== verification/Dtap_Types.thy ===== *)
theory Dtap_Types
  imports SDF_Buff "HOL-Library.Monad_Syntax"
begin

text \<open>
  Error codes, frame kinds and constants of the DTAP module (\<open>dtap_errno.h\<close>, \<open>dtap.h\<close>,
  \<open>dtap_tcid.h\<close>, \<open>dtap_frame.h\<close>), pointers into live buffers, and bit fields.
\<close>

section \<open>Error codes\<close>

datatype DTAP_errno =
    DTAP_SUCCESS
  | DTAP_REGISTER_RECV_CB_ALLOC_ERR | DTAP_REGISTER_RECV_CB_INVALID_PI
  | DTAP_REGISTER_RECV_CB_NULL_ERR | DTAP_UNREGISTER_RECV_CB_TCID_NOT_EXIST
  | DTAP_TRANS_CHANNEL_CREATE_LINK_MAP_ERR
  | DTAP_TRANS_INVALID_DATA | DTAP_TRANS_FIND_CHANNEL_ERR | DTAP_TRANS_EXCEED_MTU_ERR
  | DTAP_TRANS_INVALID_MODULE_TYPE | DTAP_TRANS_MALLOC_ERR | DTAP_TRANS_UNSUPPORTED
  | DTAP_TRANS_EXCEED_MAX_ERR | DTAP_TRANS_INVALID_PARAM_ERR | DTAP_TRANS_CP_POST_ERR
  | DTAP_TRANS_INIT_ERR | DTAP_TRANS_ASSIGN_ERR
  | DTAP_TRANS_BASIC_SEND_EXCEED_MPS | DTAP_TRANS_BASIC_SEND_PREPEND_ERR
  | DTAP_TRANS_BASIC_RECV_TRIM_PRE_ERR | DTAP_TRANS_BASIC_SEND_GET_CTX_ERR
  | DTAP_TRANS_BASIC_CACHE_OVERFLOW_ERR | DTAP_TRANS_BASIC_CREATE_FRAME_ERR
  | DTAP_TRANS_TRANSPARENT_PACK_EXCEED_MPS
  | DTAP_TRANS_STREAM_PACK_HEADER_ERR | DTAP_TRANS_STREAM_PACK_CRC_ERR
  | DTAP_TRANS_STREAM_RECV_TRIM_PRE_ERR | DTAP_TRANS_STREAM_RECV_TRIM_SUF_ERR
  | DTAP_TRANS_STREAM_RECV_CRC_ERR | DTAP_TRANS_STREAM_RECV_DUPLICATED_ERR
  | DTAP_TRANS_STREAM_RX_FULL
  | DTAP_TRANS_RELIABLE_GET_CTX_ERR | DTAP_TRANS_RELIABLE_COPY_BUFF_ERR
  | DTAP_TRANS_RELIABLE_FIND_FRAME_ERR | DTAP_TRANS_RELIABLE_REACH_MAX_RE_TX_CNT_ERR
  | DTAP_TRANS_RELIABLE_COPY_FRAME_ERR | DTAP_TRANS_RELIABLE_INVALID_MPS
  | DTAP_TRANS_RELIABLE_FRAGMENT_ERR | DTAP_TRANS_RELIABLE_TX_WINDOW_FULL
  | DTAP_TRANS_RELIABLE_TRANS_CHANNEL_FULL | DTAP_TRANS_RELIABLE_INVALID_FRAME_NUM
  | DTAP_MODULE_DUP_INITED_ERR | DTAP_MODULE_NOT_INITED_ERR
  | DTAP_FRAME_INVALID_FRAME_TYPE | DTAP_FRAME_SEND_DLI_SEND_ERR | DTAP_FRAME_NULL_PTR_ERR
  | DTAP_FRAME_INVALID_BUFF_LEN | DTAP_FRAME_INVALID_EXT_HDR_LEN | DTAP_FRAME_INVALID_EXT_LEN
  | DTAP_FRAME_INVALID_EXT_NUM
  | DTAP_BASIC_FRAME_INVALID_PI_LEN
  | DTAP_ENHANCED_FRAME_HDR_LEN_TOO_SHORT | DTAP_ENHANCED_FRAME_LENGTH_TOO_SHORT
  | DTAP_ENHANCED_FRAME_SDU_HDR_LEN_TOO_SHORT | DTAP_ENHANCED_FRAME_SDU_LEN_TOO_SHORT
  | DTAP_ENHANCED_FRAME_NOT_SUPPORT_ERR | DTAP_ENHANCED_FRAME_PREPEND_ERR
  | DTAP_ENHANCED_FRAME_APPEND_ERR | DTAP_ENHANCED_FRAME_BUFF_NEW_ERR | DTAP_ENHANCED_FRAME_NULL
  | DTAP_ENHANCED_FRAME_TRIM_PREFIX_ERR | DTAP_ENHANCED_FRAME_TRIM_SUFFIX_ERR
  | DTAP_ENHANCED_FRAME_DUP_FIRST_FRAG_FRAME | DTAP_ENHANCED_FRAME_NO_FIRST_FRAG_FRAME
  | DTAP_ENHANCED_FRAME_FRAGMENT_FRAME_LEN_ERR | DTAP_ENHANCED_FRAME_UPDATE_FRAG_FRAME_ERR

section \<open>Constants\<close>

abbreviation (input) DTAP_FRAME_BASIC :: nat where "DTAP_FRAME_BASIC \<equiv> 0"
abbreviation (input) DTAP_FRAME_SIMPLEX_AGGR :: nat where "DTAP_FRAME_SIMPLEX_AGGR \<equiv> 1"
abbreviation (input) DTAP_FRAME_SIMPLEX_FRAG :: nat where "DTAP_FRAME_SIMPLEX_FRAG \<equiv> 2"
abbreviation (input) DTAP_FRAME_DUPLEX_AGGR :: nat where "DTAP_FRAME_DUPLEX_AGGR \<equiv> 3"
abbreviation (input) DTAP_FRAME_DUPLEX_FRAG :: nat where "DTAP_FRAME_DUPLEX_FRAG \<equiv> 4"
abbreviation (input) DTAP_FRAME_ACK :: nat where "DTAP_FRAME_ACK \<equiv> 5"
abbreviation (input) DTAP_FRAME_MAX :: nat where "DTAP_FRAME_MAX \<equiv> 8"

abbreviation (input) DTAP_SAR_UNSEG :: u8 where "DTAP_SAR_UNSEG \<equiv> 0"
abbreviation (input) DTAP_SAR_FIRST :: u8 where "DTAP_SAR_FIRST \<equiv> 1"
abbreviation (input) DTAP_SAR_MID :: u8 where "DTAP_SAR_MID \<equiv> 2"
abbreviation (input) DTAP_SAR_LAST :: u8 where "DTAP_SAR_LAST \<equiv> 3"

abbreviation (input) DTAP_MAX_FRAGMENT_NUM :: nat where "DTAP_MAX_FRAGMENT_NUM \<equiv> 128"

abbreviation (input) DTAP_FRAME_O_BIT :: u8 where "DTAP_FRAME_O_BIT \<equiv> 1"
abbreviation (input) DTAP_FRAME_C_BIT :: u8 where "DTAP_FRAME_C_BIT \<equiv> 2"
abbreviation (input) DTAP_FRAME_P_BIT :: u8 where "DTAP_FRAME_P_BIT \<equiv> 4"
abbreviation (input) DTAP_FRAME_F_BIT :: u8 where "DTAP_FRAME_F_BIT \<equiv> 8"

abbreviation (input) DTAP_FRAME_SEQ_INIT :: u16 where "DTAP_FRAME_SEQ_INIT \<equiv> 0xFFFF"
abbreviation (input) DTAP_FRAME_SEQ_MAX :: u16 where "DTAP_FRAME_SEQ_MAX \<equiv> 0x3FFF"
abbreviation (input) DTAP_FRAME_SEQ_SIGN_MASK :: u16 where "DTAP_FRAME_SEQ_SIGN_MASK \<equiv> 0x2000"

abbreviation (input) DTAP_CRC_LEN :: nat where "DTAP_CRC_LEN \<equiv> 2"
abbreviation (input) DTAP_BASIC_HEADER_LEN :: nat where "DTAP_BASIC_HEADER_LEN \<equiv> 4"
abbreviation (input) DTAP_SIMPLEX_FRAG_FRAME_HEADER_LEN :: nat where
  "DTAP_SIMPLEX_FRAG_FRAME_HEADER_LEN \<equiv> 7"
abbreviation (input) DTAP_SIMPLEX_AGGR_FRAME_HEADER_LEN :: nat where
  "DTAP_SIMPLEX_AGGR_FRAME_HEADER_LEN \<equiv> 7"
abbreviation (input) DTAP_DUPLEX_FRAG_FRAME_HEADER_LEN :: nat where
  "DTAP_DUPLEX_FRAG_FRAME_HEADER_LEN \<equiv> 9"
abbreviation (input) DTAP_DUPLEX_AGGR_FRAME_HEADER_LEN :: nat where
  "DTAP_DUPLEX_AGGR_FRAME_HEADER_LEN \<equiv> 9"
abbreviation (input) DTAP_ACK_FRAME_HEADER_LEN :: nat where "DTAP_ACK_FRAME_HEADER_LEN \<equiv> 6"

abbreviation (input) DTAP_PI_NONE :: u8 where "DTAP_PI_NONE \<equiv> 0"
abbreviation (input) DTAP_PI_MAX :: nat where "DTAP_PI_MAX \<equiv> 7"
abbreviation (input) TCID_FTC_RFU_END :: u8 where "TCID_FTC_RFU_END \<equiv> 0x1D"

section \<open>Pointers into live buffers\<close>

text \<open>
  A read through a pointer succeeds when the buffer the pointer was taken from is still allocated
  (it is among the live buffers of the caller) and the bytes are inside its storage.
\<close>

fun deref :: "SDF_Buff list \<Rightarrow> ptr \<Rightarrow> nat \<Rightarrow> bytes option" where
  "deref [] p n = None"
| "deref (b # bs) p n = (if buff_addr b = fst p then mem_read b (snd p) n else deref bs p n)"

definition ptr_add :: "ptr \<Rightarrow> nat \<Rightarrow> ptr" where
  "ptr_add p n = (fst p, snd p + n)"

definition read_u8 :: "SDF_Buff list \<Rightarrow> ptr \<Rightarrow> nat \<Rightarrow> u8 option" where
  "read_u8 live p i = do { bs \<leftarrow> deref live (ptr_add p i) 1; Some (bs ! 0) }"

definition read_u16 :: "SDF_Buff list \<Rightarrow> ptr \<Rightarrow> nat \<Rightarrow> u16 option" where
  "read_u16 live p i =
     do { bs \<leftarrow> deref live (ptr_add p i) 2; Some (DECODE2BYTE_LITTLE (bs ! 0) (bs ! 1)) }"

text \<open>Subtraction of two \<open>uint64_t\<close> narrowed to \<open>uint16_t\<close>, wrapping around below zero.\<close>

definition sub_u16 :: "nat \<Rightarrow> nat \<Rightarrow> nat" where
  "sub_u16 a b = nat ((int a - int b) mod 65536)"

lemma sub_u16_eq: "b \<le> a \<Longrightarrow> a - b < 65536 \<Longrightarrow> sub_u16 a b = a - b"
proof -
  assume "b \<le> a" "a - b < 65536"
  then have "int a - int b = int (a - b)" "int (a - b) < 65536" by simp_all
  then show ?thesis by (simp only: sub_u16_def mod_pos_pos_trivial of_nat_0_le_iff nat_int)
qed

lemma read_u8_data:
  "buff_ok b \<Longrightarrow> i < dataLen b \<Longrightarrow> read_u8 (b # bs) (SDF_DataOffset b) i = Some (buff_data b ! i)"
  by (simp add: read_u8_def ptr_add_def SDF_DataOffset_def mem_read_data)

lemma read_u16_data:
  "buff_ok b \<Longrightarrow> Suc i < dataLen b \<Longrightarrow> read_u16 (b # bs) (SDF_DataOffset b) i
     = Some (DECODE2BYTE_LITTLE (buff_data b ! i) (buff_data b ! Suc i))"
  by (simp add: read_u16_def ptr_add_def SDF_DataOffset_def mem_read_data)

section \<open>Bit fields\<close>

definition get_field :: "nat \<Rightarrow> nat \<Rightarrow> 'a::len word \<Rightarrow> 'a word" where
  "get_field pos n w = take_bit n (drop_bit pos w)"

definition set_field :: "nat \<Rightarrow> nat \<Rightarrow> 'a::len word \<Rightarrow> 'a word \<Rightarrow> 'a word" where
  "set_field pos n v w = (w AND NOT (push_bit pos (mask n))) OR push_bit pos (take_bit n v)"

lemma bit_set_field:
  "bit (set_field pos n v (w :: 'a::len word)) i \<longleftrightarrow>
     i < LENGTH('a) \<and> (if pos \<le> i \<and> i < pos + n then bit v (i - pos) else bit w i)"
  by (auto simp: set_field_def bit_simps dest: bit_imp_le_length)

lemma bit_get_field:
  "bit (get_field pos n (w :: 'a::len word)) i \<longleftrightarrow> i < n \<and> bit w (pos + i)"
  by (auto simp: get_field_def bit_simps dest: bit_imp_le_length)

lemma get_set_field_same:
  "pos + n \<le> LENGTH('a) \<Longrightarrow> get_field pos n (set_field pos n v (w :: 'a::len word)) = take_bit n v"
  by (rule bit_eqI) (auto simp: bit_get_field bit_set_field bit_simps)

lemma get_set_field_other:
  "pos + n \<le> pos' \<or> pos' + n' \<le> pos \<Longrightarrow>
   get_field pos n (set_field pos' n' v (w :: 'a::len word)) = get_field pos n w"
  by (rule bit_eqI) (auto simp: bit_get_field bit_set_field dest: bit_imp_le_length)

end
