(* ===== verification/Dtap_Frame.thy ===== *)
theory Dtap_Frame
  imports Dtap_Types
begin

text \<open>
  Frames of the DTAP module: the frame record, the table of frame contexts, and the parser, header
  check and builder of every frame kind (\<open>dtap_frame.c\<close>, \<open>dtap_frame_basic.c\<close> and the second half of
  \<open>dtap_frame_enhance.c\<close>). A struct of function pointers is modelled by a constructor that names it,
  and a call through it by a case distinction. A function that reads or writes through a pointer
  returns \<^term>\<open>None\<close> when the access is outside a live buffer.
\<close>

section \<open>The frame record and the context table\<close>

datatype DTAP_FrameCtx =
    g_dtapFrameBasicCtx | SimplexAggrFrameCtx | SimplexFragFrameCtx | DuplexAggrFrameCtx
  | DuplexFragFrameCtx | AckFrameCtx

record DTAP_Frame =
  f_buff :: "SDF_Buff option"
  f_header :: "ptr option"
  f_extension :: "ptr option"
  f_payload :: "ptr option"
  f_bits :: u8
  f_pi :: u8
  ack_reqSeq :: u16
  ack_sBit :: bool
  reTxCnt :: nat
  sar :: u8
  txSeq :: u16
  reqSeq :: u16
  headerLen :: nat
  extensionLen :: nat
  payloadLen :: nat
  f_ctx :: DTAP_FrameCtx

text \<open>A frame structure initialised with zeroes.\<close>

definition zero_frame :: DTAP_Frame where
  "zero_frame = \<lparr>f_buff = None, f_header = None, f_extension = None, f_payload = None, f_bits = 0,
     f_pi = 0, ack_reqSeq = 0, ack_sBit = False, reTxCnt = 0, sar = 0, txSeq = 0, reqSeq = 0,
     headerLen = 0, extensionLen = 0, payloadLen = 0, f_ctx = g_dtapFrameBasicCtx\<rparr>"

fun getFrameType :: "DTAP_FrameCtx \<Rightarrow> nat" where
  "getFrameType g_dtapFrameBasicCtx = DTAP_FRAME_BASIC"
| "getFrameType SimplexAggrFrameCtx = DTAP_FRAME_SIMPLEX_AGGR"
| "getFrameType SimplexFragFrameCtx = DTAP_FRAME_SIMPLEX_FRAG"
| "getFrameType DuplexAggrFrameCtx = DTAP_FRAME_DUPLEX_AGGR"
| "getFrameType DuplexFragFrameCtx = DTAP_FRAME_DUPLEX_FRAG"
| "getFrameType AckFrameCtx = DTAP_FRAME_ACK"

fun getHeaderLen :: "DTAP_FrameCtx \<Rightarrow> nat" where
  "getHeaderLen g_dtapFrameBasicCtx = DTAP_BASIC_HEADER_LEN"
| "getHeaderLen SimplexAggrFrameCtx = DTAP_SIMPLEX_AGGR_FRAME_HEADER_LEN"
| "getHeaderLen SimplexFragFrameCtx = DTAP_SIMPLEX_FRAG_FRAME_HEADER_LEN"
| "getHeaderLen DuplexAggrFrameCtx = DTAP_DUPLEX_AGGR_FRAME_HEADER_LEN"
| "getHeaderLen DuplexFragFrameCtx = DTAP_DUPLEX_FRAG_FRAME_HEADER_LEN"
| "getHeaderLen AckFrameCtx = DTAP_ACK_FRAME_HEADER_LEN"

type_synonym frame_ctx_table = "DTAP_FrameCtx option list"

definition DTAP_RegisterFrameCtx :: "frame_ctx_table \<Rightarrow> DTAP_FrameCtx option \<Rightarrow> frame_ctx_table" where
  "DTAP_RegisterFrameCtx tab ctx =
     (case ctx of
        None \<Rightarrow> tab
      | Some c \<Rightarrow> if getFrameType c < DTAP_FRAME_MAX then tab[getFrameType c := Some c] else tab)"

definition DTAP_RegisterBasicFrameCtx :: "frame_ctx_table \<Rightarrow> frame_ctx_table" where
  "DTAP_RegisterBasicFrameCtx tab = DTAP_RegisterFrameCtx tab (Some g_dtapFrameBasicCtx)"

definition g_dtapEnhanceFrameCtx :: "DTAP_FrameCtx list" where
  "g_dtapEnhanceFrameCtx =
     [SimplexAggrFrameCtx, SimplexFragFrameCtx, DuplexAggrFrameCtx, DuplexFragFrameCtx, AckFrameCtx]"

definition DTAP_RegisterEnhanceFrameCtx :: "frame_ctx_table \<Rightarrow> frame_ctx_table" where
  "DTAP_RegisterEnhanceFrameCtx tab =
     fold (\<lambda>c tab. DTAP_RegisterFrameCtx tab (Some c)) g_dtapEnhanceFrameCtx tab"

text \<open>The table as \<open>DTAP_Init\<close> leaves it; nothing else writes to it.\<close>

definition g_dtapFrameCtx :: frame_ctx_table where
  "g_dtapFrameCtx =
     DTAP_RegisterEnhanceFrameCtx (DTAP_RegisterBasicFrameCtx (replicate DTAP_FRAME_MAX None))"

definition DTAP_GetFrameCtx :: "nat \<Rightarrow> DTAP_FrameCtx option" where
  "DTAP_GetFrameCtx frameType =
     (if frameType \<ge> DTAP_FRAME_MAX then None else g_dtapFrameCtx ! frameType)"

section \<open>The header fields\<close>

text \<open>
  The second header byte holds the frame type in its low four bits and the O, C, P and F bits above;
  the two-byte fields hold a 14-bit sequence number and two more bits above it (little endian
  layout of the packed bit fields).
\<close>

definition hdr_frameType :: "u8 \<Rightarrow> nat" where
  "hdr_frameType typeBits = unat (get_field 0 4 typeBits)"

definition set_typeBits :: "u8 \<Rightarrow> nat \<Rightarrow> bool \<Rightarrow> bool \<Rightarrow> bool \<Rightarrow> bool \<Rightarrow> u8" where
  "set_typeBits old frameType optionBit crcBit pBit fBit =
     set_field 7 1 (of_bool fBit) (set_field 6 1 (of_bool pBit) (set_field 5 1 (of_bool crcBit)
       (set_field 4 1 (of_bool optionBit) (set_field 0 4 (of_nat frameType) old))))"

definition DTAP_CheckFrameBit :: "u8 \<Rightarrow> u8 \<Rightarrow> bool" where
  "DTAP_CheckFrameBit bits b \<longleftrightarrow> bits AND b \<noteq> 0"

definition DTAP_SetFrameBit :: "u8 \<Rightarrow> u8 \<Rightarrow> u8" where
  "DTAP_SetFrameBit typeBits bits =
     set_field 7 1 (of_bool (DTAP_CheckFrameBit bits DTAP_FRAME_F_BIT))
       (set_field 6 1 (of_bool (DTAP_CheckFrameBit bits DTAP_FRAME_P_BIT))
         (set_field 5 1 (of_bool (DTAP_CheckFrameBit bits DTAP_FRAME_C_BIT))
           (set_field 4 1 (of_bool (DTAP_CheckFrameBit bits DTAP_FRAME_O_BIT)) typeBits)))"

section \<open>Parsing\<close>

definition DTAP_ParseBasicFrame :: "DTAP_Frame \<Rightarrow> (DTAP_errno \<times> DTAP_Frame) option" where
  "DTAP_ParseBasicFrame fr = do {
     b \<leftarrow> f_buff fr;
     h \<leftarrow> f_header fr;
     tcid \<leftarrow> read_u8 [b] h 0;
     if tcid \<le> TCID_FTC_RFU_END then
       Some (DTAP_SUCCESS, fr\<lparr>f_pi := DTAP_PI_NONE, headerLen := DTAP_BASIC_HEADER_LEN,
                              payloadLen := sub_u16 (dataLen b) DTAP_BASIC_HEADER_LEN\<rparr>)
     else if dataLen b < DTAP_BASIC_HEADER_LEN + 1 then Some (DTAP_BASIC_FRAME_INVALID_PI_LEN, fr)
     else do {
       pi \<leftarrow> read_u8 [b] h 4;
       Some (DTAP_SUCCESS, fr\<lparr>f_pi := pi, headerLen := DTAP_BASIC_HEADER_LEN + 1,
                              payloadLen := sub_u16 (dataLen b) (DTAP_BASIC_HEADER_LEN + 1)\<rparr>)
     }
   }"

text \<open>
  The loop over the extension fields: \<open>n\<close> fields remain, \<open>len\<close> bytes of the extension have been
  consumed, \<open>off\<close> is the offset of the current field from the start of the extension. The result is
  the total length, or the error.
\<close>

fun ext_loop :: "SDF_Buff \<Rightarrow> ptr \<Rightarrow> nat \<Rightarrow> nat \<Rightarrow> nat \<Rightarrow> nat \<Rightarrow> (DTAP_errno + nat) option" where
  "ext_loop b p dlen 0 len off = Some (Inr len)"
| "ext_loop b p dlen (Suc n) len off =
     (if dlen < len \<or> dlen - len < 2 then Some (Inl DTAP_FRAME_INVALID_EXT_LEN)
      else do {
        l \<leftarrow> read_u8 [b] p (off + 1);
        let len' = to_u16 (len + 2);
        if dlen < len' \<or> dlen - len' < unat l then Some (Inl DTAP_FRAME_INVALID_EXT_LEN)
        else ext_loop b p dlen n (to_u16 (len' + unat l)) (off + 2 + unat l)
      })"

abbreviation (input) DTAP_EXTENSIONS_MAX_NUM :: nat where "DTAP_EXTENSIONS_MAX_NUM \<equiv> 16"

definition DTAP_ParseExtension :: "DTAP_Frame \<Rightarrow> (DTAP_errno \<times> DTAP_Frame) option" where
  "DTAP_ParseExtension fr =
     (case (f_buff fr, f_header fr) of
        (Some b, Some h) \<Rightarrow>
          if dataLen b < headerLen fr then Some (DTAP_FRAME_INVALID_BUFF_LEN, fr)
          else let dlen = to_u16 (dataLen b - headerLen fr) in
            if dlen < 1 then Some (DTAP_FRAME_INVALID_EXT_HDR_LEN, fr)
            else let p = ptr_add h (headerLen fr); fr' = fr\<lparr>f_extension := Some p\<rparr> in do {
              num \<leftarrow> read_u8 [b] p 0;
              if unat num > DTAP_EXTENSIONS_MAX_NUM then Some (DTAP_FRAME_INVALID_EXT_NUM, fr')
              else do {
                r \<leftarrow> ext_loop b p dlen (unat num) 1 1;
                (case r of
                   Inl err \<Rightarrow> Some (err, fr')
                 | Inr len \<Rightarrow> Some (DTAP_SUCCESS, fr'\<lparr>extensionLen := len\<rparr>))
              }
            }
      | _ \<Rightarrow> Some (DTAP_FRAME_NULL_PTR_ERR, fr))"

text \<open>The second part of \<open>DTAP_ParseEnhanceFrame\<close>: the payload behind the extension.\<close>

definition ParseEnhance_payload :: "DTAP_Frame \<Rightarrow> SDF_Buff \<Rightarrow> ptr \<Rightarrow> DTAP_errno \<times> DTAP_Frame" where
  "ParseEnhance_payload fr b h =
     (let plen = sub_u16 (dataLen b) (headerLen fr + extensionLen fr);
          fr' = fr\<lparr>f_payload := Some (ptr_add h (headerLen fr + extensionLen fr)), payloadLen := plen\<rparr>
      in if plen < DTAP_CRC_LEN then (DTAP_ENHANCED_FRAME_LENGTH_TOO_SHORT, fr')
         else (DTAP_SUCCESS, fr'\<lparr>payloadLen := plen - DTAP_CRC_LEN\<rparr>))"

definition DTAP_ParseEnhanceFrame :: "DTAP_Frame \<Rightarrow> (DTAP_errno \<times> DTAP_Frame) option" where
  "DTAP_ParseEnhanceFrame fr = do {
     b \<leftarrow> f_buff fr;
     h \<leftarrow> f_header fr;
     let hlen = getHeaderLen (f_ctx fr);
     if dataLen b < hlen then Some (DTAP_ENHANCED_FRAME_HDR_LEN_TOO_SHORT, fr)
     else do {
       typeBits \<leftarrow> read_u8 [b] h 1;
       pi \<leftarrow> read_u8 [b] h 4;
       let fr1 = fr\<lparr>f_bits := drop_bit 4 typeBits, f_pi := pi, headerLen := hlen\<rparr>;
       if get_field 4 1 typeBits \<noteq> 0 then do {
         (ret, fr2) \<leftarrow> DTAP_ParseExtension fr1;
         if ret \<noteq> DTAP_SUCCESS then Some (ret, fr2) else Some (ParseEnhance_payload fr2 b h)
       }
       else Some (ParseEnhance_payload fr1 b h)
     }
   }"

definition read_header_u16 :: "DTAP_Frame \<Rightarrow> nat \<Rightarrow> u16 option" where
  "read_header_u16 fr i = do { b \<leftarrow> f_buff fr; h \<leftarrow> f_header fr; read_u16 [b] h i }"

definition DTAP_ParseSimplexAggrFrame :: "DTAP_Frame \<Rightarrow> (DTAP_errno \<times> DTAP_Frame) option" where
  "DTAP_ParseSimplexAggrFrame fr = do {
     (ret, fr') \<leftarrow> DTAP_ParseEnhanceFrame fr;
     if ret \<noteq> DTAP_SUCCESS then Some (ret, fr')
     else do {
       w \<leftarrow> read_header_u16 fr' 5;
       Some (DTAP_SUCCESS, fr'\<lparr>txSeq := get_field 0 14 w, reqSeq := DTAP_FRAME_SEQ_INIT\<rparr>)
     }
   }"

definition DTAP_ParseSimplexFragFrame :: "DTAP_Frame \<Rightarrow> (DTAP_errno \<times> DTAP_Frame) option" where
  "DTAP_ParseSimplexFragFrame fr = do {
     (ret, fr') \<leftarrow> DTAP_ParseEnhanceFrame fr;
     if ret \<noteq> DTAP_SUCCESS then Some (ret, fr')
     else do {
       w \<leftarrow> read_header_u16 fr' 5;
       Some (DTAP_SUCCESS, fr'\<lparr>sar := ucast (get_field 14 2 w), txSeq := get_field 0 14 w,
                               reqSeq := DTAP_FRAME_SEQ_INIT\<rparr>)
     }
   }"

definition DTAP_ParseDuplexAggrFrame :: "DTAP_Frame \<Rightarrow> (DTAP_errno \<times> DTAP_Frame) option" where
  "DTAP_ParseDuplexAggrFrame fr = do {
     (ret, fr') \<leftarrow> DTAP_ParseEnhanceFrame fr;
     if ret \<noteq> DTAP_SUCCESS then Some (ret, fr')
     else do {
       w \<leftarrow> read_header_u16 fr' 5;
       v \<leftarrow> read_header_u16 fr' 7;
       Some (DTAP_SUCCESS, fr'\<lparr>txSeq := get_field 0 14 w, reqSeq := get_field 0 14 v\<rparr>)
     }
   }"

definition DTAP_ParseDuplexFragFrame :: "DTAP_Frame \<Rightarrow> (DTAP_errno \<times> DTAP_Frame) option" where
  "DTAP_ParseDuplexFragFrame fr = do {
     (ret, fr') \<leftarrow> DTAP_ParseEnhanceFrame fr;
     if ret \<noteq> DTAP_SUCCESS then Some (ret, fr')
     else do {
       w \<leftarrow> read_header_u16 fr' 5;
       v \<leftarrow> read_header_u16 fr' 7;
       Some (DTAP_SUCCESS, fr'\<lparr>sar := ucast (get_field 14 2 w), txSeq := get_field 0 14 w,
                               reqSeq := get_field 0 14 v\<rparr>)
     }
   }"

definition DTAP_ParseAckFrame :: "DTAP_Frame \<Rightarrow> (DTAP_errno \<times> DTAP_Frame) option" where
  "DTAP_ParseAckFrame fr = do {
     (ret, fr') \<leftarrow> DTAP_ParseEnhanceFrame fr;
     if ret \<noteq> DTAP_SUCCESS then Some (ret, fr')
     else do {
       w \<leftarrow> read_header_u16 fr' 4;
       Some (DTAP_SUCCESS, fr'\<lparr>ack_reqSeq := get_field 0 14 w, ack_sBit := get_field 14 1 w \<noteq> 0\<rparr>)
     }
   }"

fun parseFrame :: "DTAP_FrameCtx \<Rightarrow> DTAP_Frame \<Rightarrow> (DTAP_errno \<times> DTAP_Frame) option" where
  "parseFrame g_dtapFrameBasicCtx fr = DTAP_ParseBasicFrame fr"
| "parseFrame SimplexAggrFrameCtx fr = DTAP_ParseSimplexAggrFrame fr"
| "parseFrame SimplexFragFrameCtx fr = DTAP_ParseSimplexFragFrame fr"
| "parseFrame DuplexAggrFrameCtx fr = DTAP_ParseDuplexAggrFrame fr"
| "parseFrame DuplexFragFrameCtx fr = DTAP_ParseDuplexFragFrame fr"
| "parseFrame AckFrameCtx fr = DTAP_ParseAckFrame fr"

definition DTAP_ParseFrame ::
  "nat \<Rightarrow> SDF_Buff \<Rightarrow> DTAP_Frame \<Rightarrow> (DTAP_errno \<times> DTAP_Frame) option" where
  "DTAP_ParseFrame frameType b fr =
     (case DTAP_GetFrameCtx frameType of
        None \<Rightarrow> Some (DTAP_FRAME_INVALID_FRAME_TYPE, fr)
      | Some c \<Rightarrow> parseFrame c (fr\<lparr>f_buff := Some b, f_header := Some (SDF_DataOffset b), f_ctx := c\<rparr>))"

section \<open>Header checks\<close>

definition DTAP_CheckBasicFrameHeader :: "DTAP_Frame \<Rightarrow> bool option" where
  "DTAP_CheckBasicFrameHeader fr = do {
     b \<leftarrow> f_buff fr;
     h \<leftarrow> f_header fr;
     t \<leftarrow> read_u8 [b] h 1;
     Some (get_field 4 1 t = 0 \<and> get_field 5 1 t = 0 \<and> get_field 6 1 t = 0 \<and> get_field 7 1 t = 0)
   }"

definition DTAP_CheckEnhanceFrameHeader :: "DTAP_Frame \<Rightarrow> bool option" where
  "DTAP_CheckEnhanceFrameHeader fr = do {
     b \<leftarrow> f_buff fr;
     h \<leftarrow> f_header fr;
     t \<leftarrow> read_u8 [b] h 1;
     Some (get_field 5 1 t \<noteq> 0)
   }"

fun checkFrameHeader :: "DTAP_FrameCtx \<Rightarrow> DTAP_Frame \<Rightarrow> bool option" where
  "checkFrameHeader g_dtapFrameBasicCtx fr = DTAP_CheckBasicFrameHeader fr"
| "checkFrameHeader _ fr = DTAP_CheckEnhanceFrameHeader fr"

section \<open>Building\<close>

text \<open>
  The stores into the header of the frame just prepended, as one write of the bytes they leave
  behind: the old bytes \<open>old\<close> are read first because a store to a bit field keeps the other bits.
\<close>

definition BasicHeader_bytes :: "u8 \<Rightarrow> u8 \<Rightarrow> u16 \<Rightarrow> bytes" where
  "BasicHeader_bytes tcid typeBits len = [tcid, typeBits] @ ENCODE2BYTE_LITTLE len"

definition DTAP_BuildBasicFrame :: "DTAP_Frame \<Rightarrow> u8 \<Rightarrow> (DTAP_errno \<times> DTAP_Frame) option" where
  "DTAP_BuildBasicFrame fr tcid =
     (let hlen = (if tcid > TCID_FTC_RFU_END then DTAP_BASIC_HEADER_LEN + 1 else DTAP_BASIC_HEADER_LEN)
      in case SDF_BuffPrepend (f_buff fr) hlen of
           None \<Rightarrow> Some (DTAP_TRANS_BASIC_SEND_PREPEND_ERR, fr)
         | Some (off, b) \<Rightarrow> do {
             old \<leftarrow> mem_read b off hlen;
             b' \<leftarrow> mem_write b off
               (BasicHeader_bytes tcid (set_typeBits (old ! 1) DTAP_FRAME_BASIC False False False False)
                  (of_nat (dataLen b - DTAP_BASIC_HEADER_LEN))
                @ (if tcid > TCID_FTC_RFU_END then [f_pi fr] else []));
             Some (DTAP_SUCCESS, fr\<lparr>f_buff := Some b'\<rparr>)
           })"

text \<open>The checksum over the whole frame, appended behind it.\<close>

definition append_crc :: "SDF_Buff \<Rightarrow> u16 \<Rightarrow> DTAP_Frame \<Rightarrow> (DTAP_errno \<times> DTAP_Frame) option" where
  "append_crc b crcInit fr =
     (let crcValue = CRC16 crcInit (buff_data b)
      in case SDF_BuffAppend (Some b) DTAP_CRC_LEN of
           None \<Rightarrow> Some (DTAP_ENHANCED_FRAME_APPEND_ERR, fr\<lparr>f_buff := Some b\<rparr>)
         | Some (tail, b') \<Rightarrow> do {
             b'' \<leftarrow> mem_write b' tail (ENCODE2BYTE_LITTLE crcValue);
             Some (DTAP_SUCCESS, fr\<lparr>f_buff := Some b''\<rparr>)
           })"

definition DTAP_BuildSimplexFragFrame ::
  "DTAP_Frame \<Rightarrow> u8 \<Rightarrow> u16 \<Rightarrow> (DTAP_errno \<times> DTAP_Frame) option" where
  "DTAP_BuildSimplexFragFrame fr tcid crcInit =
     (case SDF_BuffPrepend (f_buff fr) DTAP_SIMPLEX_FRAG_FRAME_HEADER_LEN of
        None \<Rightarrow> Some (DTAP_ENHANCED_FRAME_PREPEND_ERR, fr)
      | Some (off, b) \<Rightarrow> do {
          old \<leftarrow> mem_read b off DTAP_SIMPLEX_FRAG_FRAME_HEADER_LEN;
          b' \<leftarrow> mem_write b off
            (BasicHeader_bytes tcid
               (set_typeBits (old ! 1) DTAP_FRAME_SIMPLEX_FRAG False True
                  (DTAP_CheckFrameBit (f_bits fr) DTAP_FRAME_P_BIT) False)
               (of_nat (dataLen b - DTAP_BASIC_HEADER_LEN + DTAP_CRC_LEN))
             @ [f_pi fr]
             @ ENCODE2BYTE_LITTLE (set_field 14 2 (ucast (sar fr)) (set_field 0 14 (txSeq fr)
                 (DECODE2BYTE_LITTLE (old ! 5) (old ! 6)))));
          append_crc b' crcInit fr
        })"

definition DTAP_BuildDuplexFragFrame ::
  "DTAP_Frame \<Rightarrow> u8 \<Rightarrow> u16 \<Rightarrow> (DTAP_errno \<times> DTAP_Frame) option" where
  "DTAP_BuildDuplexFragFrame fr tcid crcInit =
     (case SDF_BuffPrepend (f_buff fr) DTAP_DUPLEX_FRAG_FRAME_HEADER_LEN of
        None \<Rightarrow> Some (DTAP_ENHANCED_FRAME_PREPEND_ERR, fr)
      | Some (off, b) \<Rightarrow> do {
          old \<leftarrow> mem_read b off DTAP_DUPLEX_FRAG_FRAME_HEADER_LEN;
          b' \<leftarrow> mem_write b off
            (BasicHeader_bytes tcid
               (set_typeBits (old ! 1) DTAP_FRAME_DUPLEX_FRAG False True
                  (DTAP_CheckFrameBit (f_bits fr) DTAP_FRAME_P_BIT)
                  (DTAP_CheckFrameBit (f_bits fr) DTAP_FRAME_F_BIT))
               (of_nat (dataLen b - DTAP_BASIC_HEADER_LEN + DTAP_CRC_LEN))
             @ [f_pi fr]
             @ ENCODE2BYTE_LITTLE (set_field 14 2 (ucast (sar fr)) (set_field 0 14 (txSeq fr)
                 (DECODE2BYTE_LITTLE (old ! 5) (old ! 6))))
             @ ENCODE2BYTE_LITTLE (set_field 0 14 (reqSeq fr)
                 (DECODE2BYTE_LITTLE (old ! 7) (old ! 8))));
          append_crc b' crcInit fr
        })"

definition DTAP_BuildAckFrame ::
  "'r env \<Rightarrow> DTAP_Frame \<Rightarrow> u8 \<Rightarrow> u16 \<Rightarrow> (DTAP_errno \<times> DTAP_Frame) option" where
  "DTAP_BuildAckFrame e fr tcid crcInit =
     (case SDF_BuffNewWithReserve e 0 of
        None \<Rightarrow> Some (DTAP_ENHANCED_FRAME_BUFF_NEW_ERR, fr)
      | Some b0 \<Rightarrow>
          (case SDF_BuffPrepend (Some b0) DTAP_ACK_FRAME_HEADER_LEN of
             None \<Rightarrow> Some (DTAP_ENHANCED_FRAME_PREPEND_ERR, fr)
           | Some (off, b) \<Rightarrow> do {
               old \<leftarrow> mem_read b off DTAP_ACK_FRAME_HEADER_LEN;
               b' \<leftarrow> mem_write b off
                 (BasicHeader_bytes tcid
                    (set_typeBits (old ! 1) DTAP_FRAME_ACK False True False
                       (f_bits fr AND DTAP_FRAME_F_BIT \<noteq> 0))
                    (of_nat (dataLen b - DTAP_BASIC_HEADER_LEN + DTAP_CRC_LEN))
                  @ ENCODE2BYTE_LITTLE (set_field 14 1 (of_bool (ack_sBit fr))
                      (set_field 0 14 (ack_reqSeq fr) (DECODE2BYTE_LITTLE (old ! 4) (old ! 5)))));
               (ret, fr') \<leftarrow> append_crc b' crcInit fr;
               Some (ret, if ret = DTAP_SUCCESS then fr' else fr)
             }))"

fun buildFrame :: "'r env \<Rightarrow> DTAP_FrameCtx \<Rightarrow> DTAP_Frame \<Rightarrow> u8 \<Rightarrow> u16
    \<Rightarrow> (DTAP_errno \<times> DTAP_Frame) option" where
  "buildFrame e g_dtapFrameBasicCtx fr tcid crcInit = DTAP_BuildBasicFrame fr tcid"
| "buildFrame e SimplexAggrFrameCtx fr tcid crcInit = Some (DTAP_ENHANCED_FRAME_NOT_SUPPORT_ERR, fr)"
| "buildFrame e SimplexFragFrameCtx fr tcid crcInit = DTAP_BuildSimplexFragFrame fr tcid crcInit"
| "buildFrame e DuplexAggrFrameCtx fr tcid crcInit = Some (DTAP_ENHANCED_FRAME_NOT_SUPPORT_ERR, fr)"
| "buildFrame e DuplexFragFrameCtx fr tcid crcInit = DTAP_BuildDuplexFragFrame fr tcid crcInit"
| "buildFrame e AckFrameCtx fr tcid crcInit = DTAP_BuildAckFrame e fr tcid crcInit"

section \<open>Creating, copying and patching frames\<close>

definition DTAP_CreateFrame :: "'r env \<Rightarrow> nat \<Rightarrow> DTAP_Frame option" where
  "DTAP_CreateFrame e frameType =
     (case DTAP_GetFrameCtx frameType of
        None \<Rightarrow> None
      | Some c \<Rightarrow> (case SDF_MemZalloc e of None \<Rightarrow> None | Some _ \<Rightarrow> Some (zero_frame\<lparr>f_ctx := c\<rparr>)))"

text \<open>
  The copy of a frame shares no buffer with its source, but its header, extension and payload
  pointers are copied as they are and still point into the buffer of the source.
\<close>

definition DTAP_CopyFrame :: "'r env \<Rightarrow> DTAP_Frame \<Rightarrow> DTAP_Frame option" where
  "DTAP_CopyFrame e fr =
     (case SDF_MemZalloc (sub e 0) of
        None \<Rightarrow> None
      | Some _ \<Rightarrow>
          (case f_buff fr of
             None \<Rightarrow> Some fr
           | Some b \<Rightarrow>
               (case SDF_BuffCopy (sub e 1) (Some b) of
                  None \<Rightarrow> None
                | Some b' \<Rightarrow> Some (fr\<lparr>f_buff := Some b'\<rparr>))))"

definition DTAP_ReCalculateCrcValue :: "u16 \<Rightarrow> DTAP_Frame \<Rightarrow> (DTAP_errno \<times> DTAP_Frame) option" where
  "DTAP_ReCalculateCrcValue crcInit fr =
     (case f_buff fr of
        None \<Rightarrow> Some (DTAP_FRAME_NULL_PTR_ERR, fr)
      | Some b \<Rightarrow>
          if dataLen b < DTAP_CRC_LEN then Some (DTAP_FRAME_INVALID_BUFF_LEN, fr)
          else let realDataLen = dataLen b - DTAP_CRC_LEN in do {
            b1 \<leftarrow> mem_write b (dataOff b + realDataLen) [0, 0];
            b2 \<leftarrow> mem_write b1 (dataOff b + realDataLen)
              (ENCODE2BYTE_LITTLE (CRC16 crcInit (take realDataLen (buff_data b1))));
            Some (DTAP_SUCCESS, fr\<lparr>f_buff := Some b2\<rparr>)
          })"

section \<open>Lemmas on the header fields\<close>

lemma less_8_cases: "(i::nat) < 8 \<longleftrightarrow> i = 0 \<or> i = 1 \<or> i = 2 \<or> i = 3 \<or> i = 4 \<or> i = 5 \<or> i = 6 \<or> i = 7"
  by auto

lemma drop_bit_set_typeBits:
  "drop_bit 4 (set_typeBits old ft optionBit crcBit pBit fBit) =
     of_bool optionBit OR (of_bool crcBit * 2) OR (of_bool pBit * 4) OR (of_bool fBit * 8)"
  by (cases optionBit; cases crcBit; cases pBit; cases fBit)
    (auto simp: set_typeBits_def bit_set_field bit_simps less_8_cases intro!: bit_eqI)

lemma get_field_set_typeBits [frame_simps]:
  "get_field 4 (Suc 0) (set_typeBits old ft optionBit crcBit pBit fBit) = of_bool optionBit"
  "get_field 5 (Suc 0) (set_typeBits old ft optionBit crcBit pBit fBit) = of_bool crcBit"
  "get_field 6 (Suc 0) (set_typeBits old ft optionBit crcBit pBit fBit) = of_bool pBit"
  "get_field 7 (Suc 0) (set_typeBits old ft optionBit crcBit pBit fBit) = of_bool fBit"
  by (auto simp: set_typeBits_def bit_set_field bit_get_field bit_simps intro!: bit_eqI)

lemma hdr_frameType_set_typeBits [frame_simps]:
  "ft < 16 \<Longrightarrow> hdr_frameType (set_typeBits old ft optionBit crcBit pBit fBit) = ft"
proof -
  assume ft: "ft < 16"
  have "get_field 0 4 (set_typeBits old ft optionBit crcBit pBit fBit) = take_bit 4 (of_nat ft)"
    by (simp add: set_typeBits_def get_set_field_other get_set_field_same)
  also have "unat (take_bit 4 (of_nat ft :: u8)) = ft"
    using ft by (simp add: unsigned_take_bit_eq unsigned_of_nat take_bit_nat_eq_self)
  finally show ?thesis by (simp add: hdr_frameType_def)
qed

lemma g_dtapFrameCtx_eq:
  "g_dtapFrameCtx = [Some g_dtapFrameBasicCtx, Some SimplexAggrFrameCtx, Some SimplexFragFrameCtx,
     Some DuplexAggrFrameCtx, Some DuplexFragFrameCtx, Some AckFrameCtx, None, None]"
  by (simp add: g_dtapFrameCtx_def DTAP_RegisterEnhanceFrameCtx_def g_dtapEnhanceFrameCtx_def
      DTAP_RegisterBasicFrameCtx_def DTAP_RegisterFrameCtx_def numeral_eq_Suc)

lemma DTAP_GetFrameCtx_getFrameType [simp]: "DTAP_GetFrameCtx (getFrameType c) = Some c"
  by (cases c) (simp_all add: DTAP_GetFrameCtx_def g_dtapFrameCtx_eq)

lemma DTAP_GetFrameCtx_SomeD: "DTAP_GetFrameCtx t = Some c \<Longrightarrow> getFrameType c = t"
  by (auto simp: DTAP_GetFrameCtx_def g_dtapFrameCtx_eq less_8_cases nth_Cons' split: if_splits)

section \<open>Memory safety of the parsers\<close>

lemma ext_loop_safe:
  assumes "buff_ok b" "fst p = buff_addr b" "snd p + dlen \<le> dataOff b + dataLen b"
    and "len \<le> dlen" "dlen < 65536"
  shows "\<exists>r. ext_loop b p dlen n len len = Some r \<and> (\<forall>l. r = Inr l \<longrightarrow> len \<le> l \<and> l \<le> dlen) \<and> r \<noteq> Inl DTAP_SUCCESS"
  using assms(4)
proof (induction n arbitrary: len)
  case 0
  then show ?case by simp
next
  case (Suc n)
  show ?case
  proof (cases "dlen - len < 2")
    case True
    then show ?thesis by simp
  next
    case False
    have "snd p + Suc len + 1 \<le> length (buff b)"
      using False assms Suc.prems unfolding buff_ok_def by linarith
    then obtain l where l: "read_u8 [b] p (Suc len) = Some l"
      using assms by (auto simp: read_u8_def ptr_add_def mem_read_def)
    have eq: "to_u16 (Suc (Suc len)) = len + 2"
      using False assms Suc.prems by (simp add: to_u16_def)
    show ?thesis
    proof (cases "dlen - (len + 2) < unat l")
      case True
      then show ?thesis using False Suc.prems l eq by simp
    next
      case f2: False
      then have le: "len + 2 + unat l \<le> dlen" using False by linarith
      then have eq2: "to_u16 (len + 2 + unat l) = len + 2 + unat l" 
        using assms by (simp add: to_u16_def)
      obtain r where r: "ext_loop b p dlen n (len + 2 + unat l) (len + 2 + unat l) = Some r"
          "\<forall>l'. r = Inr l' \<longrightarrow> len + 2 + unat l \<le> l' \<and> l' \<le> dlen" "r \<noteq> Inl DTAP_SUCCESS"
        using Suc.IH [OF le] by blast
      from r have "ext_loop b p dlen (Suc n) len len = Some r"
        using False f2 Suc.prems l le eq eq2 by simp
      with r(2,3) show ?thesis by auto
    qed
  qed
qed

text \<open>A frame whose buffer is well formed and whose header pointer is the start of its window.\<close>

definition frame_at :: "DTAP_Frame \<Rightarrow> SDF_Buff \<Rightarrow> bool" where
  "frame_at fr b \<longleftrightarrow> buff_ok b \<and> f_buff fr = Some b \<and> f_header fr = Some (SDF_DataOffset b)"

definition same_frame :: "DTAP_Frame \<Rightarrow> DTAP_Frame \<Rightarrow> bool" where
  "same_frame fr fr' \<longleftrightarrow> f_buff fr' = f_buff fr \<and> f_header fr' = f_header fr \<and> f_ctx fr' = f_ctx fr"

lemma frame_at_same: "frame_at fr b \<Longrightarrow> same_frame fr fr' \<Longrightarrow> frame_at fr' b"
  by (simp add: frame_at_def same_frame_def)

lemma DTAP_ParseExtension_safe:
  assumes "frame_at fr b" "dataLen b - headerLen fr < 65536"
  shows "\<exists>ret fr'. DTAP_ParseExtension fr = Some (ret, fr') \<and> same_frame fr fr'
    \<and> headerLen fr' = headerLen fr
    \<and> (ret = DTAP_SUCCESS \<longrightarrow> 1 \<le> extensionLen fr' \<and> headerLen fr + extensionLen fr' \<le> dataLen b)"
proof (cases "dataLen b \<le> headerLen fr")
  case True
  then show ?thesis
    using assms by (auto simp: DTAP_ParseExtension_def frame_at_def same_frame_def)
next
  case False
  let ?p = "ptr_add (SDF_DataOffset b) (headerLen fr)"
  let ?d = "dataLen b - headerLen fr"
  have d: "to_u16 ?d = ?d" "1 \<le> ?d" "?d < 65536" using False assms by simp_all
  have "read_u8 [b] ?p 0 = read_u8 [b] (SDF_DataOffset b) (headerLen fr)"
    by (simp add: read_u8_def ptr_add_def)
  then have num: "read_u8 [b] ?p 0 = Some (buff_data b ! headerLen fr)"
    using assms False by (simp add: frame_at_def read_u8_data)
  obtain r where r: "ext_loop b ?p ?d (unat (buff_data b ! headerLen fr)) 1 1 = Some r"
      "\<forall>l. r = Inr l \<longrightarrow> 1 \<le> l \<and> l \<le> ?d" "r \<noteq> Inl DTAP_SUCCESS"
    using ext_loop_safe [of b ?p ?d 1 "unat (buff_data b ! headerLen fr)"] assms False d
    by (simp add: ptr_add_def SDF_DataOffset_def frame_at_def) blast
  then show ?thesis
    using False num assms d
    by (cases r) (auto simp: DTAP_ParseExtension_def frame_at_def same_frame_def Let_def)
qed

lemma DTAP_ParseEnhanceFrame_safe:
  assumes "frame_at fr b" "dataLen b \<le> 65539" "extensionLen fr = 0" "f_ctx fr \<noteq> g_dtapFrameBasicCtx"
  shows "\<exists>ret fr'. DTAP_ParseEnhanceFrame fr = Some (ret, fr') \<and> same_frame fr fr'
    \<and> (ret = DTAP_SUCCESS \<longrightarrow> headerLen fr' = getHeaderLen (f_ctx fr)
        \<and> f_payload fr' = Some (ptr_add (SDF_DataOffset b) (headerLen fr' + extensionLen fr'))
        \<and> headerLen fr' + extensionLen fr' + payloadLen fr' + DTAP_CRC_LEN = dataLen b)"
proof (cases "dataLen b < getHeaderLen (f_ctx fr)")
  case True
  then show ?thesis
    using assms by (auto simp: DTAP_ParseEnhanceFrame_def frame_at_def same_frame_def)
next
  case False
  have len: "6 \<le> getHeaderLen (f_ctx fr)" using assms(4) by (cases "f_ctx fr") simp_all
  define fr1 where "fr1 = fr\<lparr>f_bits := drop_bit 4 (buff_data b ! 1), f_pi := buff_data b ! 4,
      headerLen := getHeaderLen (f_ctx fr)\<rparr>"
  have at: "frame_at fr1 b" and s1: "same_frame fr fr1"
    using assms(1) by (simp_all add: fr1_def frame_at_def same_frame_def)
  have rd: "read_u8 [b] (SDF_DataOffset b) 1 = Some (buff_data b ! 1)"
      "read_u8 [b] (SDF_DataOffset b) 4 = Some (buff_data b ! 4)"
    using False len assms(1) by (simp_all add: frame_at_def read_u8_data)
  have pl: "\<exists>ret fr'. ParseEnhance_payload fr2 b (SDF_DataOffset b) = (ret, fr') \<and> same_frame fr fr'
    \<and> (ret = DTAP_SUCCESS \<longrightarrow> headerLen fr' = getHeaderLen (f_ctx fr)
        \<and> f_payload fr' = Some (ptr_add (SDF_DataOffset b) (headerLen fr' + extensionLen fr'))
        \<and> headerLen fr' + extensionLen fr' + payloadLen fr' + DTAP_CRC_LEN = dataLen b)"
    if "same_frame fr1 fr2" "headerLen fr2 = headerLen fr1" "headerLen fr2 + extensionLen fr2 \<le> dataLen b"
    for fr2
    using that assms(2) s1 len
    by (auto simp: ParseEnhance_payload_def same_frame_def fr1_def Let_def sub_u16_eq)
  show ?thesis
  proof (cases "get_field 4 1 (buff_data b ! 1) = 0")
    case True
    then have "DTAP_ParseEnhanceFrame fr = Some (ParseEnhance_payload fr1 b (SDF_DataOffset b))"
      using False assms(1) rd by (simp add: DTAP_ParseEnhanceFrame_def frame_at_def fr1_def)
    with pl [of fr1] False assms(3) show ?thesis
      by (auto simp: same_frame_def fr1_def)
  next
    case f2: False
    have "dataLen b - headerLen fr1 < 65536" using assms(2) len by (simp add: fr1_def)
    then obtain ret fr2 where e: "DTAP_ParseExtension fr1 = Some (ret, fr2)" "same_frame fr1 fr2"
        "headerLen fr2 = headerLen fr1"
        "ret = DTAP_SUCCESS \<longrightarrow> headerLen fr1 + extensionLen fr2 \<le> dataLen b"
      using DTAP_ParseExtension_safe [OF at] by blast
    have "DTAP_ParseEnhanceFrame fr = (if ret \<noteq> DTAP_SUCCESS then Some (ret, fr2)
        else Some (ParseEnhance_payload fr2 b (SDF_DataOffset b)))"
      using False assms(1) rd f2 e(1)
      by (simp add: DTAP_ParseEnhanceFrame_def frame_at_def fr1_def)
    with pl [of fr2] e s1 show ?thesis
      by (auto simp: same_frame_def)
  qed
qed

lemma read_header_u16_Some:
  "frame_at fr b \<Longrightarrow> Suc i < dataLen b \<Longrightarrow> read_header_u16 fr i
     = Some (DECODE2BYTE_LITTLE (buff_data b ! i) (buff_data b ! Suc i))"
  by (simp add: read_header_u16_def frame_at_def read_u16_data)

text \<open>The parts of an accepted frame: header, extension, payload and checksum tile the buffer.\<close>

definition frame_tiles :: "DTAP_Frame \<Rightarrow> SDF_Buff \<Rightarrow> bool" where
  "frame_tiles fr b \<longleftrightarrow>
     (if f_ctx fr = g_dtapFrameBasicCtx then headerLen fr + payloadLen fr = dataLen b
      else headerLen fr = getHeaderLen (f_ctx fr)
        \<and> f_payload fr = Some (ptr_add (SDF_DataOffset b) (headerLen fr + extensionLen fr))
        \<and> headerLen fr + extensionLen fr + payloadLen fr + DTAP_CRC_LEN = dataLen b)"

lemma DTAP_ParseBasicFrame_safe:
  assumes "frame_at fr b" "4 \<le> dataLen b" "dataLen b \<le> 65539" "f_ctx fr = g_dtapFrameBasicCtx"
  shows "\<exists>ret fr'. DTAP_ParseBasicFrame fr = Some (ret, fr') \<and> same_frame fr fr'
    \<and> (ret = DTAP_SUCCESS \<longrightarrow> frame_tiles fr' b)"
proof -
  have "read_u8 [b] (SDF_DataOffset b) 0 = Some (buff_data b ! 0)"
      "5 \<le> dataLen b \<Longrightarrow> read_u8 [b] (SDF_DataOffset b) 4 = Some (buff_data b ! 4)"
    using assms by (simp_all add: frame_at_def read_u8_data)
  then show ?thesis
    using assms
    by (auto simp: DTAP_ParseBasicFrame_def frame_at_def same_frame_def frame_tiles_def sub_u16_eq)
qed

lemma parseFrame_safe:
  assumes "frame_at fr b" "4 \<le> dataLen b" "dataLen b \<le> 65539" "extensionLen fr = 0"
  shows "\<exists>ret fr'. parseFrame (f_ctx fr) fr = Some (ret, fr') \<and> same_frame fr fr'
    \<and> (ret = DTAP_SUCCESS \<longrightarrow> frame_tiles fr' b)"
proof (cases "f_ctx fr = g_dtapFrameBasicCtx")
  case True
  with DTAP_ParseBasicFrame_safe assms show ?thesis by simp
next
  case False
  obtain ret fr' where p: "DTAP_ParseEnhanceFrame fr = Some (ret, fr')" "same_frame fr fr'"
     "ret = DTAP_SUCCESS \<longrightarrow> frame_tiles fr' b"
    using DTAP_ParseEnhanceFrame_safe [OF assms(1,3,4) False] False
    by (auto simp: frame_tiles_def same_frame_def)
  then have at: "frame_at fr' b" using assms(1) frame_at_same by blast
  have rd: "i + 1 < getHeaderLen (f_ctx fr) \<Longrightarrow> ret = DTAP_SUCCESS \<Longrightarrow> read_header_u16 fr' i
     = Some (DECODE2BYTE_LITTLE (buff_data b ! i) (buff_data b ! Suc i))" for i
    using read_header_u16_Some [OF at, of i] p False by (auto simp: frame_tiles_def same_frame_def)
  show ?thesis
    using False p rd [of 4] rd [of 5] rd [of 7]
    by (cases "f_ctx fr"; cases "ret = DTAP_SUCCESS")
      (auto simp: DTAP_ParseSimplexAggrFrame_def DTAP_ParseSimplexFragFrame_def
        DTAP_ParseDuplexAggrFrame_def DTAP_ParseDuplexFragFrame_def DTAP_ParseAckFrame_def
        same_frame_def frame_tiles_def)
qed

lemma DTAP_ParseFrame_safe:
  assumes "buff_ok b" "4 \<le> dataLen b" "dataLen b \<le> 65539"
  shows "\<exists>ret fr. DTAP_ParseFrame t b zero_frame = Some (ret, fr)
    \<and> (ret = DTAP_SUCCESS \<longrightarrow> frame_at fr b \<and> getFrameType (f_ctx fr) = t \<and> frame_tiles fr b)"
proof (cases "DTAP_GetFrameCtx t")
  case None
  then show ?thesis by (simp add: DTAP_ParseFrame_def)
next
  case (Some c)
  let ?fr = "zero_frame\<lparr>f_buff := Some b, f_header := Some (SDF_DataOffset b), f_ctx := c\<rparr>"
  have "frame_at ?fr b" using assms by (simp add: frame_at_def)
  with parseFrame_safe [of ?fr b] assms Some show ?thesis
    by (fastforce simp: DTAP_ParseFrame_def zero_frame_def same_frame_def frame_at_def
        dest: DTAP_GetFrameCtx_SomeD)
qed

section \<open>Building\<close>

lemma prepend_obtain:
  assumes "buff_ok b" "n \<le> SDF_BuffHeadRoom b"
  obtains off b1 old where "SDF_BuffPrepend (Some b) n = Some (off, b1)"
    "mem_read b1 off n = Some old" "length old = n" "dataLen b1 = dataLen b + n"
    "\<And>hdr. length hdr = n \<Longrightarrow> mem_write b1 off hdr = prepend_bytes b hdr"
proof
  let ?b1 = "b\<lparr>dataOff := dataOff b - n, dataLen := dataLen b + n\<rparr>"
  show p: "SDF_BuffPrepend (Some b) n = Some (dataOff b - n, ?b1)"
    using assms by simp
  have "dataOff b - n + n \<le> length (buff b)" using assms by (auto simp: buff_ok_def SDF_BuffHeadRoom_def)
  then show "mem_read ?b1 (dataOff b - n) n = Some (take n (drop (dataOff b - n) (buff b)))"
     "length (take n (drop (dataOff b - n) (buff b))) = n"
    by (simp_all add: mem_read_def)
  show "dataLen ?b1 = dataLen b + n" by simp
  show "mem_write ?b1 (dataOff b - n) hdr = prepend_bytes b hdr" if "length hdr = n" for hdr
    using that assms by (simp add: prepend_bytes_def)
qed

text \<open>What a builder with checksum leaves in the buffer: header, payload and checksum.\<close>

lemma append_crc_Some:
  assumes "buff_ok b" "2 \<le> SDF_BuffTailRoom b"
  obtains b' where "append_crc b crcInit fr = Some (DTAP_SUCCESS, fr\<lparr>f_buff := Some b'\<rparr>)"
    "buff_ok b'" "buff_data b' = buff_data b @ ENCODE2BYTE_LITTLE (CRC16 crcInit (buff_data b))"
    "dataLen b' = dataLen b + 2" "buff_addr b' = buff_addr b" "buffLen b' = buffLen b"
proof -
  let ?crc = "ENCODE2BYTE_LITTLE (CRC16 crcInit (buff_data b))"
  obtain b' where b': "append_bytes b ?crc = Some b'" "buff_ok b'" "buff_data b' = buff_data b @ ?crc"
      "dataLen b' = dataLen b + 2" "buff_addr b' = buff_addr b" "buffLen b' = buffLen b"
    using append_bytes_Some [OF assms(1), of ?crc] assms(2) by auto
  then have "append_crc b crcInit fr = Some (DTAP_SUCCESS, fr\<lparr>f_buff := Some b'\<rparr>)"
    using assms by (auto simp: append_crc_def append_bytes_def Let_def split: option.splits prod.splits)
  with b' that show thesis by blast
qed

lemma take_bit_14 [simp]: "x \<le> 0x3FFF \<Longrightarrow> take_bit 14 x = (x :: u16)"
  by (simp add: word_unat_eq_iff unsigned_take_bit_eq take_bit_nat_eq_self word_le_nat_alt)

lemma take_bit_2 [simp]: "x \<le> 3 \<Longrightarrow> ucast (take_bit 2 (ucast x :: u16)) = (x :: u8)"
proof -
  assume "x \<le> 3"
  then have x: "take_bit 2 x = x"
    by (simp add: word_unat_eq_iff unsigned_take_bit_eq take_bit_nat_eq_self word_le_nat_alt)
  have "ucast (take_bit 2 (ucast x :: u16)) = take_bit 2 x"
    by (rule bit_eqI) (auto simp: bit_simps)
  with x show ?thesis by simp
qed

lemma get_field_seq_sar [frame_simps]:
  "get_field 0 14 (set_field 14 n s (w :: u16)) = get_field 0 14 w"
  "get_field 0 14 (set_field 0 14 t (w :: u16)) = take_bit 14 t"
  "get_field 14 2 (set_field 14 2 t (w :: u16)) = take_bit 2 t"
  "get_field 14 (Suc 0) (set_field 14 (Suc 0) t (w :: u16)) = take_bit (Suc 0) t"
  by (simp_all add: get_set_field_same get_set_field_other)

text \<open>The image of a frame in the buffer: header bytes \<open>hdr\<close>, payload \<open>d\<close> and the checksum of both.\<close>

definition frame_image :: "u16 \<Rightarrow> bytes \<Rightarrow> bytes \<Rightarrow> bytes" where
  "frame_image crcInit hdr d = hdr @ d @ ENCODE2BYTE_LITTLE (CRC16 crcInit (hdr @ d))"

lemma frame_image_crc [simp]: "CRC16 crcInit (frame_image crcInit hdr d) = 0"
  using CRC16_trailer_iff [of crcInit "hdr @ d"]
  by (auto simp: frame_image_def ENCODE2BYTE_LITTLE_def)

lemma prepend_append_crc:
  assumes "buff_ok b" "length hdr \<le> SDF_BuffHeadRoom b" "2 \<le> SDF_BuffTailRoom b"
  obtains b1 b' where "prepend_bytes b hdr = Some b1"
    "append_crc b1 crcInit fr = Some (DTAP_SUCCESS, fr\<lparr>f_buff := Some b'\<rparr>)"
    "buff_ok b'" "buff_data b' = frame_image crcInit hdr (buff_data b)"
    "dataLen b' = length hdr + dataLen b + 2" "buff_addr b' = buff_addr b" "buffLen b' = buffLen b"
proof -
  obtain b1 where b1: "prepend_bytes b hdr = Some b1" "buff_ok b1" "buff_data b1 = hdr @ buff_data b"
      "dataLen b1 = dataLen b + length hdr" "SDF_BuffTailRoom b1 = SDF_BuffTailRoom b"
      "buff_addr b1 = buff_addr b" "buffLen b1 = buffLen b"
    using prepend_bytes_Some [OF assms(1,2)] by metis
  obtain b' where "append_crc b1 crcInit fr = Some (DTAP_SUCCESS, fr\<lparr>f_buff := Some b'\<rparr>)"
      "buff_ok b'" "buff_data b' = buff_data b1 @ ENCODE2BYTE_LITTLE (CRC16 crcInit (buff_data b1))"
      "dataLen b' = dataLen b1 + 2" "buff_addr b' = buff_addr b1" "buffLen b' = buffLen b1"
    using append_crc_Some [OF b1(2)] assms(3) b1(5) by metis
  with b1 show thesis
    by (intro that [OF b1(1), of b']) (simp_all add: frame_image_def)
qed

definition DuplexFragHeader :: "DTAP_Frame \<Rightarrow> u8 \<Rightarrow> nat \<Rightarrow> bytes \<Rightarrow> bytes" where
  "DuplexFragHeader fr tcid n old =
     BasicHeader_bytes tcid
       (set_typeBits (old ! 1) DTAP_FRAME_DUPLEX_FRAG False True
          (DTAP_CheckFrameBit (f_bits fr) DTAP_FRAME_P_BIT)
          (DTAP_CheckFrameBit (f_bits fr) DTAP_FRAME_F_BIT)) (of_nat (n + 9 - DTAP_BASIC_HEADER_LEN + DTAP_CRC_LEN))
     @ [f_pi fr]
     @ ENCODE2BYTE_LITTLE (set_field 14 2 (ucast (sar fr)) (set_field 0 14 (txSeq fr)
         (DECODE2BYTE_LITTLE (old ! 5) (old ! 6))))
     @ ENCODE2BYTE_LITTLE (set_field 0 14 (reqSeq fr) (DECODE2BYTE_LITTLE (old ! 7) (old ! 8)))"

lemma DTAP_BuildDuplexFragFrame_Some:
  assumes "f_buff fr = Some b" "buff_ok b" "9 \<le> SDF_BuffHeadRoom b" "2 \<le> SDF_BuffTailRoom b"
  obtains b' old where
    "DTAP_BuildDuplexFragFrame fr tcid crcInit = Some (DTAP_SUCCESS, fr\<lparr>f_buff := Some b'\<rparr>)"
    "buff_ok b'" "dataLen b' = dataLen b + 11" "buff_addr b' = buff_addr b" "buffLen b' = buffLen b"
    "buff_data b' = frame_image crcInit (DuplexFragHeader fr tcid (dataLen b) old) (buff_data b)"
proof -
  obtain off b0 old where p: "SDF_BuffPrepend (Some b) 9 = Some (off, b0)"
    "mem_read b0 off 9 = Some old" "dataLen b0 = dataLen b + 9"
    "\<And>hdr. length hdr = 9 \<Longrightarrow> mem_write b0 off hdr = prepend_bytes b hdr"
    using prepend_obtain [OF assms(2,3)] by metis
  let ?hdr = "DuplexFragHeader fr tcid (dataLen b) old"
  have len: "length ?hdr = 9" by (simp add: DuplexFragHeader_def BasicHeader_bytes_def)
  then obtain b1 b' where b: "prepend_bytes b ?hdr = Some b1"
      "append_crc b1 crcInit fr = Some (DTAP_SUCCESS, fr\<lparr>f_buff := Some b'\<rparr>)"
      "buff_ok b'" "buff_data b' = frame_image crcInit ?hdr (buff_data b)"
      "dataLen b' = 9 + dataLen b + 2" "buff_addr b' = buff_addr b" "buffLen b' = buffLen b"
    using prepend_append_crc [of b ?hdr crcInit fr] assms by metis
  have "DTAP_BuildDuplexFragFrame fr tcid crcInit =
     do { b' \<leftarrow> mem_write b0 off ?hdr; append_crc b' crcInit fr }"
    using p(1-3) assms(1) by (simp add: DTAP_BuildDuplexFragFrame_def DuplexFragHeader_def)
  then have "DTAP_BuildDuplexFragFrame fr tcid crcInit = Some (DTAP_SUCCESS, fr\<lparr>f_buff := Some b'\<rparr>)"
    using p(4) [OF len] b(1,2) by simp
  with b that show thesis by simp
qed

definition SimplexFragHeader :: "DTAP_Frame \<Rightarrow> u8 \<Rightarrow> nat \<Rightarrow> bytes \<Rightarrow> bytes" where
  "SimplexFragHeader fr tcid n old =
     BasicHeader_bytes tcid
       (set_typeBits (old ! 1) DTAP_FRAME_SIMPLEX_FRAG False True
          (DTAP_CheckFrameBit (f_bits fr) DTAP_FRAME_P_BIT) False)
       (of_nat (n + 7 - DTAP_BASIC_HEADER_LEN + DTAP_CRC_LEN))
     @ [f_pi fr]
     @ ENCODE2BYTE_LITTLE (set_field 14 2 (ucast (sar fr)) (set_field 0 14 (txSeq fr)
         (DECODE2BYTE_LITTLE (old ! 5) (old ! 6))))"

lemma DTAP_BuildSimplexFragFrame_Some:
  assumes "f_buff fr = Some b" "buff_ok b" "7 \<le> SDF_BuffHeadRoom b" "2 \<le> SDF_BuffTailRoom b"
  obtains b' old where
    "DTAP_BuildSimplexFragFrame fr tcid crcInit = Some (DTAP_SUCCESS, fr\<lparr>f_buff := Some b'\<rparr>)"
    "buff_ok b'" "dataLen b' = dataLen b + 9" "buff_addr b' = buff_addr b" "buffLen b' = buffLen b"
    "buff_data b' = frame_image crcInit (SimplexFragHeader fr tcid (dataLen b) old) (buff_data b)"
proof -
  obtain off b0 old where p: "SDF_BuffPrepend (Some b) 7 = Some (off, b0)"
    "mem_read b0 off 7 = Some old" "dataLen b0 = dataLen b + 7"
    "\<And>hdr. length hdr = 7 \<Longrightarrow> mem_write b0 off hdr = prepend_bytes b hdr"
    using prepend_obtain [OF assms(2,3)] by metis
  let ?hdr = "SimplexFragHeader fr tcid (dataLen b) old"
  have len: "length ?hdr = 7" by (simp add: SimplexFragHeader_def BasicHeader_bytes_def)
  then obtain b1 b' where b: "prepend_bytes b ?hdr = Some b1"
      "append_crc b1 crcInit fr = Some (DTAP_SUCCESS, fr\<lparr>f_buff := Some b'\<rparr>)"
      "buff_ok b'" "buff_data b' = frame_image crcInit ?hdr (buff_data b)"
      "dataLen b' = 7 + dataLen b + 2" "buff_addr b' = buff_addr b" "buffLen b' = buffLen b"
    using prepend_append_crc [of b ?hdr crcInit fr] assms by metis
  have "DTAP_BuildSimplexFragFrame fr tcid crcInit =
     do { b' \<leftarrow> mem_write b0 off ?hdr; append_crc b' crcInit fr }"
    using p(1-3) assms(1) by (simp add: DTAP_BuildSimplexFragFrame_def SimplexFragHeader_def)
  then have "DTAP_BuildSimplexFragFrame fr tcid crcInit = Some (DTAP_SUCCESS, fr\<lparr>f_buff := Some b'\<rparr>)"
    using p(4) [OF len] b(1,2) by simp
  with b that show thesis by simp
qed

section \<open>Parsing without extension\<close>

lemma DTAP_ParseEnhanceFrame_plain:
  assumes "frame_at fr b" "f_ctx fr \<noteq> g_dtapFrameBasicCtx" "extensionLen fr = 0"
    and "getHeaderLen (f_ctx fr) + 2 \<le> dataLen b" "dataLen b \<le> 65539"
    and "get_field 4 1 (buff_data b ! 1) = 0"
  shows "DTAP_ParseEnhanceFrame fr = Some (DTAP_SUCCESS,
    fr\<lparr>f_bits := drop_bit 4 (buff_data b ! 1), f_pi := buff_data b ! 4,
       headerLen := getHeaderLen (f_ctx fr),
       f_payload := Some (ptr_add (SDF_DataOffset b) (getHeaderLen (f_ctx fr))),
       payloadLen := dataLen b - getHeaderLen (f_ctx fr) - 2\<rparr>)"
proof -
  have len: "6 \<le> getHeaderLen (f_ctx fr)" using assms(2) by (cases "f_ctx fr") simp_all
  then have rd: "read_u8 [b] (SDF_DataOffset b) 1 = Some (buff_data b ! 1)"
      "read_u8 [b] (SDF_DataOffset b) 4 = Some (buff_data b ! 4)"
    using assms by (simp_all add: frame_at_def read_u8_data)
  have "sub_u16 (dataLen b) (getHeaderLen (f_ctx fr)) = dataLen b - getHeaderLen (f_ctx fr)"
    using assms len by (simp add: sub_u16_eq)
  with assms rd show ?thesis
    by (simp add: DTAP_ParseEnhanceFrame_def frame_at_def ParseEnhance_payload_def Let_def)
qed

lemma deref_payload:
  assumes "buff_ok b" "buff_data b = hdr @ d @ trl"
  shows "deref [b] (ptr_add (SDF_DataOffset b) (length hdr)) (length d) = Some d"
proof -
  have "length hdr + length d \<le> dataLen b"
    using assms by (metis length_buff_data le_add2 length_append add.assoc nat_add_left_cancel_le
        le_add1)
  then show ?thesis
    using mem_read_data [OF assms(1), of "length hdr" "length d"] assms(2)
    by (simp add: ptr_add_def SDF_DataOffset_def)
qed

text \<open>What the receiver of a frame finds in it.\<close>

definition received_as ::
  "SDF_Buff \<Rightarrow> u16 \<Rightarrow> DTAP_FrameCtx \<Rightarrow> bytes \<Rightarrow> DTAP_Frame \<Rightarrow> bool" where
  "received_as b crcInit c d fr \<longleftrightarrow>
     buff_ok b \<and> 4 \<le> dataLen b
     \<and> unat (DECODE2BYTE_LITTLE (buff_data b ! 2) (buff_data b ! 3)) + 4 = dataLen b
     \<and> CRC16 crcInit (buff_data b) = 0
     \<and> DTAP_ParseFrame (hdr_frameType (buff_data b ! 1)) b zero_frame = Some (DTAP_SUCCESS, fr)
     \<and> f_ctx fr = c \<and> checkFrameHeader c fr = Some True
     \<and> payloadLen fr = length d
     \<and> (\<exists>p. f_payload fr = Some p \<and> deref [b] p (length d) = Some d)"

lemma DTAP_CheckFrameBit_typeBits:
  "DTAP_CheckFrameBit (drop_bit 4 (set_typeBits old ft optionBit crcBit pBit fBit)) 4 = pBit"
  "DTAP_CheckFrameBit (drop_bit 4 (set_typeBits old ft optionBit crcBit pBit fBit)) 8 = fBit"
  by (cases optionBit; cases crcBit; cases pBit; cases fBit;
      simp add: DTAP_CheckFrameBit_def drop_bit_set_typeBits)+

lemma unat_of_nat_u16: "n < 65536 \<Longrightarrow> unat (of_nat n :: u16) = n"
  by (simp add: unsigned_of_nat take_bit_nat_eq_self)

lemma image_received:
  assumes b: "buff_ok b" "buff_data b = frame_image crcInit hdr d"
    and c: "c \<noteq> g_dtapFrameBasicCtx" "length hdr = getHeaderLen c"
    and tb: "hdr_frameType (hdr ! 1) = getFrameType c" "get_field 4 1 (hdr ! 1) = 0"
      "get_field 5 1 (hdr ! 1) \<noteq> 0"
    and lenf: "unat (DECODE2BYTE_LITTLE (hdr ! 2) (hdr ! 3)) = length d + length hdr - 2"
    and len: "length hdr + length d \<le> 65537"
  defines "w \<equiv> \<lambda>i. DECODE2BYTE_LITTLE (hdr ! i) (hdr ! Suc i)"
  shows "\<exists>fr. received_as b crcInit c d fr \<and> f_bits fr = drop_bit 4 (hdr ! 1) \<and> f_pi fr = hdr ! 4
    \<and> (c = AckFrameCtx \<longrightarrow> ack_reqSeq fr = get_field 0 14 (w 4) \<and> ack_sBit fr = (get_field 14 1 (w 4) \<noteq> 0))
    \<and> (c \<noteq> AckFrameCtx \<longrightarrow> txSeq fr = get_field 0 14 (w 5))
    \<and> (c \<in> {SimplexFragFrameCtx, DuplexFragFrameCtx} \<longrightarrow> sar fr = ucast (get_field 14 2 (w 5)))
    \<and> (c \<in> {DuplexAggrFrameCtx, DuplexFragFrameCtx} \<longrightarrow> reqSeq fr = get_field 0 14 (w 7))"
proof -
  have hl: "6 \<le> length hdr" using c by (cases c) simp_all
  have dl: "dataLen b = length hdr + length d + 2"
    using length_buff_data [OF b(1)] b(2) by (simp add: frame_image_def)
  have nth: "i < length hdr \<Longrightarrow> buff_data b ! i = hdr ! i" for i
    using b(2) by (simp add: frame_image_def nth_append)
  let ?fr = "zero_frame\<lparr>f_buff := Some b, f_header := Some (SDF_DataOffset b), f_ctx := c\<rparr>"
  define fr1 where "fr1 = ?fr\<lparr>f_bits := drop_bit 4 (hdr ! 1), f_pi := hdr ! 4,
    headerLen := length hdr, f_payload := Some (ptr_add (SDF_DataOffset b) (length hdr)),
    payloadLen := length d\<rparr>"
  have "frame_at ?fr b" using b by (simp add: frame_at_def)
  then have pe: "DTAP_ParseEnhanceFrame ?fr = Some (DTAP_SUCCESS, fr1)"
    using DTAP_ParseEnhanceFrame_plain [of ?fr b] c dl len tb(2) nth [of 1] nth [of 4] hl
    by (simp add: zero_frame_def fr1_def)
  have at: "frame_at fr1 b" using b by (simp add: frame_at_def fr1_def)
  have rd: "read_header_u16 fr1 i = Some (w i)" if "Suc i < length hdr" for i
    using read_header_u16_Some [OF at, of i] dl that nth [of i] nth [of "Suc i"] by (simp add: w_def)
  obtain fr where pf: "parseFrame c ?fr = Some (DTAP_SUCCESS, fr)" "same_frame fr1 fr"
      "payloadLen fr = length d" "f_payload fr = f_payload fr1" "f_bits fr = f_bits fr1"
      "f_pi fr = f_pi fr1"
      "c = AckFrameCtx \<longrightarrow> ack_reqSeq fr = get_field 0 14 (w 4) \<and> ack_sBit fr = (get_field 14 1 (w 4) \<noteq> 0)"
      "c \<noteq> AckFrameCtx \<longrightarrow> txSeq fr = get_field 0 14 (w 5)"
      "c \<in> {SimplexFragFrameCtx, DuplexFragFrameCtx} \<longrightarrow> sar fr = ucast (get_field 14 2 (w 5))"
      "c \<in> {DuplexAggrFrameCtx, DuplexFragFrameCtx} \<longrightarrow> reqSeq fr = get_field 0 14 (w 7)"
    using c pe rd [of 4] rd [of 5] rd [of 7]
    by (cases c)
      (auto simp: DTAP_ParseSimplexAggrFrame_def DTAP_ParseSimplexFragFrame_def
        DTAP_ParseDuplexAggrFrame_def DTAP_ParseDuplexFragFrame_def DTAP_ParseAckFrame_def
        same_frame_def fr1_def)
  have "DTAP_ParseFrame (hdr_frameType (buff_data b ! 1)) b zero_frame = Some (DTAP_SUCCESS, fr)"
    using pf(1) nth [of 1] hl tb(1) by (simp add: DTAP_ParseFrame_def)
  moreover have "checkFrameHeader c fr = Some True"
  proof -
    have "frame_at fr b" using at pf(2) by (rule frame_at_same)
    then have "DTAP_CheckEnhanceFrameHeader fr = Some True"
      using dl nth [of 1] hl tb(3)
      by (simp add: DTAP_CheckEnhanceFrameHeader_def frame_at_def read_u8_data)
    with c show ?thesis by (cases c) simp_all
  qed
  moreover have "deref [b] (ptr_add (SDF_DataOffset b) (length hdr)) (length d) = Some d"
    using deref_payload [OF b(1)] b(2) by (simp add: frame_image_def)
  moreover have "CRC16 crcInit (buff_data b) = 0" using b(2) by simp
  moreover have "unat (DECODE2BYTE_LITTLE (buff_data b ! 2) (buff_data b ! 3)) + 4 = dataLen b"
    using lenf dl nth [of 2] nth [of 3] hl by simp
  ultimately have "received_as b crcInit c d fr"
    using b(1) dl hl pf(2-4) by (simp add: received_as_def fr1_def same_frame_def)
  with pf show ?thesis by (intro exI [of _ fr]) (simp add: fr1_def)
qed

lemma duplex_image_received:
  assumes "buff_ok b" "buff_data b = frame_image crcInit (DuplexFragHeader fr tcid (length d) old) d"
    and "length d + 11 \<le> 65539"
    and "txSeq fr \<le> DTAP_FRAME_SEQ_MAX" "reqSeq fr \<le> DTAP_FRAME_SEQ_MAX" "sar fr \<le> 3"
  shows "\<exists>fr'. received_as b crcInit DuplexFragFrameCtx d fr' \<and> txSeq fr' = txSeq fr
    \<and> reqSeq fr' = reqSeq fr \<and> sar fr' = sar fr \<and> f_pi fr' = f_pi fr
    \<and> DTAP_CheckFrameBit (f_bits fr') 4 = DTAP_CheckFrameBit (f_bits fr) 4
    \<and> DTAP_CheckFrameBit (f_bits fr') 8 = DTAP_CheckFrameBit (f_bits fr) 8"
proof -
  let ?h = "DuplexFragHeader fr tcid (length d) old"
  note hd = DuplexFragHeader_def BasicHeader_bytes_def ENCODE2BYTE_LITTLE_def
  have "unat (of_nat (length d + 7) :: u16) = length d + 7"
    using assms(3) by (intro unat_of_nat_u16) simp
  then show ?thesis
    using image_received [OF assms(1,2), of DuplexFragFrameCtx] assms(3-6)
    by (simp add: hd get_field_set_typeBits hdr_frameType_set_typeBits get_field_seq_sar
        DTAP_CheckFrameBit_typeBits add.commute) (metis DTAP_CheckFrameBit_typeBits)
qed

lemma simplex_image_received:
  assumes "buff_ok b" "buff_data b = frame_image crcInit (SimplexFragHeader fr tcid (length d) old) d"
    and "length d + 9 \<le> 65539"
    and "txSeq fr \<le> DTAP_FRAME_SEQ_MAX" "sar fr \<le> 3"
  shows "\<exists>fr'. received_as b crcInit SimplexFragFrameCtx d fr' \<and> txSeq fr' = txSeq fr
    \<and> sar fr' = sar fr \<and> f_pi fr' = f_pi fr
    \<and> DTAP_CheckFrameBit (f_bits fr') 4 = DTAP_CheckFrameBit (f_bits fr) 4"
proof -
  let ?h = "SimplexFragHeader fr tcid (length d) old"
  note hd = SimplexFragHeader_def BasicHeader_bytes_def ENCODE2BYTE_LITTLE_def
  have "unat (of_nat (length d + 5) :: u16) = length d + 5"
    using assms(3) by (intro unat_of_nat_u16) simp
  then show ?thesis
    using image_received [OF assms(1,2), of SimplexFragFrameCtx] assms(3-5)
    by (simp add: hd get_field_set_typeBits hdr_frameType_set_typeBits get_field_seq_sar
        DTAP_CheckFrameBit_typeBits add.commute) (metis DTAP_CheckFrameBit_typeBits)
qed

definition AckHeader :: "DTAP_Frame \<Rightarrow> u8 \<Rightarrow> bytes \<Rightarrow> bytes" where
  "AckHeader fr tcid old =
     BasicHeader_bytes tcid
       (set_typeBits (old ! 1) DTAP_FRAME_ACK False True False (f_bits fr AND DTAP_FRAME_F_BIT \<noteq> 0)) 4
     @ ENCODE2BYTE_LITTLE (set_field 14 1 (of_bool (ack_sBit fr))
         (set_field 0 14 (ack_reqSeq fr) (DECODE2BYTE_LITTLE (old ! 4) (old ! 5))))"

lemma DTAP_BuildAckFrame_Some:
  assumes "SDF_MemZalloc e = Some a"
  obtains b' old where
    "DTAP_BuildAckFrame e fr tcid crcInit = Some (DTAP_SUCCESS, fr\<lparr>f_buff := Some b'\<rparr>)"
    "buff_ok b'" "buff_data b' = frame_image crcInit (AckHeader fr tcid old) []"
proof -
  obtain b where new: "SDF_BuffNewWithReserve e 0 = Some b"
    using assms by (simp add: SDF_BuffNewWithReserve_def)
  then have b: "buff_ok b" "buff_data b = []" "dataLen b = 0" "SDF_BuffHeadRoom b = 14"
      "SDF_BuffTailRoom b = 2"
    using SDF_BuffNewWithReserve_SomeD [OF new] by simp_all
  have hr: "6 \<le> SDF_BuffHeadRoom b" using b(4) by simp
  obtain off b0 old where p: "SDF_BuffPrepend (Some b) 6 = Some (off, b0)"
    "mem_read b0 off 6 = Some old" "dataLen b0 = dataLen b + 6"
    "\<And>hdr. length hdr = 6 \<Longrightarrow> mem_write b0 off hdr = prepend_bytes b hdr"
    using prepend_obtain [OF b(1), of 6] hr by metis
  let ?hdr = "AckHeader fr tcid old"
  have len: "length ?hdr = 6" by (simp add: AckHeader_def BasicHeader_bytes_def)
  then obtain b1 b' where b': "prepend_bytes b ?hdr = Some b1"
      "append_crc b1 crcInit fr = Some (DTAP_SUCCESS, fr\<lparr>f_buff := Some b'\<rparr>)"
      "buff_ok b'" "buff_data b' = frame_image crcInit ?hdr (buff_data b)"
    using prepend_append_crc [OF b(1), of ?hdr crcInit fr] hr b(5) by (metis order_refl)
  have "DTAP_BuildAckFrame e fr tcid crcInit =
     do { b' \<leftarrow> mem_write b0 off ?hdr; (ret, fr') \<leftarrow> append_crc b' crcInit fr;
          Some (ret, if ret = DTAP_SUCCESS then fr' else fr) }"
    using p(1-3) new b(3) by (simp add: DTAP_BuildAckFrame_def AckHeader_def)
  then have "DTAP_BuildAckFrame e fr tcid crcInit = Some (DTAP_SUCCESS, fr\<lparr>f_buff := Some b'\<rparr>)"
    using p(4) [OF len] b' by simp
  with b' b(2) that show thesis by simp
qed

lemma ack_image_received:
  assumes "buff_ok b" "buff_data b = frame_image crcInit (AckHeader fr tcid old) []"
    and "ack_reqSeq fr \<le> DTAP_FRAME_SEQ_MAX"
  shows "\<exists>fr'. received_as b crcInit AckFrameCtx [] fr' \<and> ack_reqSeq fr' = ack_reqSeq fr
    \<and> ack_sBit fr' = ack_sBit fr
    \<and> DTAP_CheckFrameBit (f_bits fr') 8 = DTAP_CheckFrameBit (f_bits fr) 8"
proof -
  note hd = AckHeader_def BasicHeader_bytes_def ENCODE2BYTE_LITTLE_def
  have s: "(of_bool x :: u16) mod 2 = 1 \<longleftrightarrow> x" for x by (cases x) simp_all
  have l: "unat (DECODE2BYTE_LITTLE 4 0) = Suc (Suc (Suc (Suc 0)))"
    by (simp add: DECODE2BYTE_LITTLE_def)
  obtain fr' where "received_as b crcInit AckFrameCtx [] fr'" "ack_reqSeq fr' = ack_reqSeq fr"
      "ack_sBit fr' = ack_sBit fr" "f_bits fr' = drop_bit 4 (AckHeader fr tcid old ! 1)"
    using image_received [OF assms(1,2), of AckFrameCtx] assms(3) l
    by (auto simp: hd get_field_set_typeBits hdr_frameType_set_typeBits get_field_seq_sar s)
  then show ?thesis
    by (intro exI [of _ fr']) (simp add: hd DTAP_CheckFrameBit_typeBits DTAP_CheckFrameBit_def [of "f_bits fr"])
qed

section \<open>Basic frames\<close>

definition BasicFrameHeader :: "DTAP_Frame \<Rightarrow> u8 \<Rightarrow> nat \<Rightarrow> bytes \<Rightarrow> bytes" where
  "BasicFrameHeader fr tcid n old =
     BasicHeader_bytes tcid (set_typeBits (old ! 1) DTAP_FRAME_BASIC False False False False)
       (of_nat (if tcid > TCID_FTC_RFU_END then n + 1 else n))
     @ (if tcid > TCID_FTC_RFU_END then [f_pi fr] else [])"

lemma DTAP_BuildBasicFrame_Some:
  assumes "f_buff fr = Some b" "buff_ok b" "5 \<le> SDF_BuffHeadRoom b"
  obtains b' old where
    "DTAP_BuildBasicFrame fr tcid = Some (DTAP_SUCCESS, fr\<lparr>f_buff := Some b'\<rparr>)"
    "buff_ok b'" "buff_data b' = BasicFrameHeader fr tcid (dataLen b) old @ buff_data b"
    "buff_addr b' = buff_addr b"
proof -
  let ?n = "if tcid > TCID_FTC_RFU_END then 5 else 4 :: nat"
  have hr: "?n \<le> SDF_BuffHeadRoom b" using assms(3) by simp
  obtain off b0 old where p: "SDF_BuffPrepend (Some b) ?n = Some (off, b0)"
    "mem_read b0 off ?n = Some old" "dataLen b0 = dataLen b + ?n"
    "\<And>hdr. length hdr = ?n \<Longrightarrow> mem_write b0 off hdr = prepend_bytes b hdr"
    using prepend_obtain [OF assms(2) hr] by metis
  let ?hdr = "BasicFrameHeader fr tcid (dataLen b) old"
  have len: "length ?hdr = ?n" by (simp add: BasicFrameHeader_def BasicHeader_bytes_def)
  then have hr': "length ?hdr \<le> SDF_BuffHeadRoom b" using hr by simp
  obtain b' where b': "prepend_bytes b ?hdr = Some b'" "buff_ok b'"
      "buff_data b' = ?hdr @ buff_data b" "buff_addr b' = buff_addr b"
    using prepend_bytes_Some [OF assms(2) hr'] by blast
  have "DTAP_BuildBasicFrame fr tcid =
     do { b' \<leftarrow> mem_write b0 off ?hdr; Some (DTAP_SUCCESS, fr\<lparr>f_buff := Some b'\<rparr>) }"
    using p(1-3) assms(1)
    by (cases "tcid > TCID_FTC_RFU_END") (simp_all add: DTAP_BuildBasicFrame_def BasicFrameHeader_def Let_def)
  then have "DTAP_BuildBasicFrame fr tcid = Some (DTAP_SUCCESS, fr\<lparr>f_buff := Some b'\<rparr>)"
    using p(4) [OF len] b' by simp
  with b' that show thesis by blast
qed

lemma basic_image_received:
  assumes "buff_ok b" "buff_data b = BasicFrameHeader fr tcid (length d) old @ d" "length d \<le> 65534"
  shows "\<exists>fr'. DTAP_ParseFrame (hdr_frameType (buff_data b ! 1)) b zero_frame = Some (DTAP_SUCCESS, fr')
    \<and> f_ctx fr' = g_dtapFrameBasicCtx \<and> checkFrameHeader (f_ctx fr') fr' = Some True
    \<and> f_pi fr' = (if tcid \<le> TCID_FTC_RFU_END then DTAP_PI_NONE else f_pi fr)
    \<and> payloadLen fr' = length d \<and> drop (headerLen fr') (buff_data b) = d
    \<and> unat (DECODE2BYTE_LITTLE (buff_data b ! 2) (buff_data b ! 3)) + 4 = dataLen b"
proof -
  let ?n = "if tcid > TCID_FTC_RFU_END then 1 else 0 :: nat"
  note hd = assms(2) [unfolded BasicFrameHeader_def BasicHeader_bytes_def ENCODE2BYTE_LITTLE_def]
  have dl: "dataLen b = length d + 4 + ?n"
    using length_buff_data [OF assms(1)] by (auto simp: hd)
  have l: "unat (of_nat (length d + ?n) :: u16) = length d + ?n"
    using assms(3) by (intro unat_of_nat_u16) simp
  have rd: "read_u8 [b] (SDF_DataOffset b) 0 = Some (buff_data b ! 0)"
      "read_u8 [b] (SDF_DataOffset b) 1 = Some (buff_data b ! 1)"
      "?n = 1 \<Longrightarrow> read_u8 [b] (SDF_DataOffset b) 4 = Some (buff_data b ! 4)"
    using assms(1) dl by (simp_all add: read_u8_data)
  have ft: "hdr_frameType (buff_data b ! 1) = getFrameType g_dtapFrameBasicCtx"
    by (simp add: hd hdr_frameType_set_typeBits)
  let ?fr = "zero_frame\<lparr>f_buff := Some b, f_header := Some (SDF_DataOffset b)\<rparr>"
  have pf: "DTAP_ParseFrame (hdr_frameType (buff_data b ! 1)) b zero_frame = DTAP_ParseBasicFrame ?fr"
    unfolding ft DTAP_ParseFrame_def DTAP_GetFrameCtx_getFrameType by (simp add: zero_frame_def)
  define fr' where "fr' = ?fr\<lparr>f_pi := if tcid \<le> TCID_FTC_RFU_END then DTAP_PI_NONE else f_pi fr,
      headerLen := 4 + ?n, payloadLen := length d\<rparr>"
  have "DTAP_ParseBasicFrame ?fr = Some (DTAP_SUCCESS, fr')"
    using rd dl assms(3)
    by (cases "tcid \<le> TCID_FTC_RFU_END")
      (simp_all add: DTAP_ParseBasicFrame_def sub_u16_eq not_le hd fr'_def)
  moreover have "DTAP_CheckBasicFrameHeader fr' = Some True"
    using rd(2) by (simp add: DTAP_CheckBasicFrameHeader_def fr'_def)
      (simp add: hd get_field_set_typeBits)
  moreover have "drop (headerLen fr') (buff_data b) = d"
    by (simp add: fr'_def hd)
  moreover have "unat (DECODE2BYTE_LITTLE (buff_data b ! 2) (buff_data b ! 3)) + 4 = dataLen b"
    using l dl by (cases "tcid > TCID_FTC_RFU_END") (simp_all add: hd add.commute)
  ultimately show ?thesis
    using pf by (intro exI [of _ fr']) (simp add: fr'_def zero_frame_def)
qed

section \<open>Recalculating the checksum\<close>

lemma mem_write_tail:
  assumes "buff_ok b" "2 \<le> dataLen b" "length bs = 2"
  shows "\<exists>b'. mem_write b (dataOff b + (dataLen b - 2)) bs = Some b' \<and> buff_ok b'
    \<and> buff_data b' = take (dataLen b - 2) (buff_data b) @ bs \<and> dataOff b' = dataOff b
    \<and> dataLen b' = dataLen b \<and> buff_addr b' = buff_addr b"
proof (rule mem_write_data [OF assms(1), of "dataLen b - 2" bs])
  show "dataLen b - 2 + length bs \<le> dataLen b" using assms by simp
qed (use assms in \<open>auto simp: mem_write_def\<close>)

lemma DTAP_ReCalculateCrcValue_Some:
  assumes "f_buff fr = Some b" "buff_ok b" "2 \<le> dataLen b"
  obtains b' where "DTAP_ReCalculateCrcValue crcInit fr = Some (DTAP_SUCCESS, fr\<lparr>f_buff := Some b'\<rparr>)"
    "buff_ok b'" "buff_addr b' = buff_addr b" "dataLen b' = dataLen b" "dataOff b' = dataOff b"
    "buff_data b' = frame_image crcInit [] (take (dataLen b - 2) (buff_data b))"
proof -
  let ?n = "dataLen b - 2"
  obtain b1 where b1: "mem_write b (dataOff b + ?n) [0, 0] = Some b1" "buff_ok b1"
      "buff_data b1 = take ?n (buff_data b) @ [0, 0]" "dataOff b1 = dataOff b"
      "dataLen b1 = dataLen b" "buff_addr b1 = buff_addr b"
    using mem_write_tail [OF assms(2,3), of "[0, 0]"] by auto
  let ?crc = "ENCODE2BYTE_LITTLE (CRC16 crcInit (take ?n (buff_data b1)))"
  have t: "take ?n (buff_data b1) = take ?n (buff_data b)" using b1(3) assms(2) by simp
  obtain b2 where b2: "mem_write b1 (dataOff b1 + ?n) ?crc = Some b2" "buff_ok b2"
      "buff_data b2 = take ?n (buff_data b1) @ ?crc" "dataOff b2 = dataOff b1"
      "dataLen b2 = dataLen b1" "buff_addr b2 = buff_addr b1"
    using mem_write_tail [OF b1(2), of ?crc] b1(5) assms(3) by auto
  from b1 b2 assms have "DTAP_ReCalculateCrcValue crcInit fr = Some (DTAP_SUCCESS, fr\<lparr>f_buff := Some b2\<rparr>)"
    by (simp add: DTAP_ReCalculateCrcValue_def Let_def)
  with b1 b2 t that show thesis by (simp add: frame_image_def)
qed

lemma frame_image_Nil [simp]: "frame_image crcInit [] (hdr @ d) = frame_image crcInit hdr d"
  by (simp add: frame_image_def)

section \<open>Extension fields\<close>

text \<open>The wire format of an extension: the number of fields, then type, length and value of each.\<close>

fun tlv_bytes :: "(u8 \<times> bytes) list \<Rightarrow> bytes" where
  "tlv_bytes [] = []"
| "tlv_bytes ((t, v) # xs) = t # of_nat (length v) # v @ tlv_bytes xs"

definition extension_bytes :: "(u8 \<times> bytes) list \<Rightarrow> bytes" where
  "extension_bytes xs = of_nat (length xs) # tlv_bytes xs"

lemma ext_loop_tlv:
  assumes "length bs = dlen" "dlen < 65536"
    and rd: "\<And>i. i < dlen \<Longrightarrow> read_u8 [b] p i = Some (bs ! i)"
    and "drop len bs = tlv_bytes xs @ rest" "len \<le> dlen" "\<forall>x \<in> set xs. length (snd x) < 256"
  shows "ext_loop b p dlen (length xs) len len = Some (Inr (len + length (tlv_bytes xs)))"
  using assms(4-6)
proof (induction xs arbitrary: len)
  case Nil
  then show ?case by simp
next
  case (Cons x xs)
  obtain t v where x: "x = (t, v)" by fastforce
  have dlen: "dlen - len = 2 + length v + length (tlv_bytes xs) + length rest"
    using arg_cong [OF Cons.prems(1), of length] assms(1) by (simp add: x)
  have "bs ! (len + 1) = drop len bs ! 1"
    using Cons.prems(2) assms(1) by simp
  then have b1: "bs ! Suc len = of_nat (length v)" using Cons.prems(1) by (simp add: x)
  have v: "unat (of_nat (length v) :: u8) = length v"
    using Cons.prems(3) by (simp add: x unsigned_of_nat take_bit_nat_eq_self)
  have l: "read_u8 [b] p (Suc len) = Some (of_nat (length v))"
    using rd [of "Suc len"] dlen b1 by simp
  have u: "to_u16 (Suc (Suc len)) = Suc (Suc len)" "to_u16 (Suc (Suc (len + length v))) = Suc (Suc (len + length v))"
    using dlen assms(2) Cons.prems(2) by simp_all
  have "drop (2 + length v) (drop len bs) = tlv_bytes xs @ rest"
    unfolding Cons.prems(1) by (simp add: x)
  then have "drop (len + 2 + length v) bs = tlv_bytes xs @ rest" by (simp add: add_ac)
  then have "ext_loop b p dlen (length xs) (len + 2 + length v) (len + 2 + length v)
      = Some (Inr (len + 2 + length v + length (tlv_bytes xs)))"
    using Cons.IH [of "len + 2 + length v"] Cons.prems dlen by simp
  moreover have "\<not> dlen < Suc (Suc len)" "\<not> dlen - Suc (Suc len) < length v"
    using dlen by linarith+
  ultimately show ?case
    using dlen u l v by (simp add: x)
qed

lemma DTAP_ParseExtension_encoded:
  assumes at: "frame_at fr b" and d: "buff_data b = hdr @ extension_bytes xs @ rest"
    and h: "headerLen fr = length hdr" and n: "length xs \<le> DTAP_EXTENSIONS_MAX_NUM"
    and v: "\<forall>x \<in> set xs. length (snd x) < 256" and len: "dataLen b - headerLen fr < 65536"
  shows "DTAP_ParseExtension fr = Some (DTAP_SUCCESS,
    fr\<lparr>f_extension := Some (ptr_add (SDF_DataOffset b) (length hdr)),
       extensionLen := length (extension_bytes xs)\<rparr>)"
proof -
  let ?p = "ptr_add (SDF_DataOffset b) (length hdr)"
  let ?bs = "drop (length hdr) (buff_data b)"
  have ok: "buff_ok b" using at by (simp add: frame_at_def)
  have dl: "dataLen b = length hdr + length (extension_bytes xs) + length rest"
    using length_buff_data [OF ok] d by simp
  have rd: "read_u8 [b] ?p i = Some (?bs ! i)" if "i < dataLen b - length hdr" for i
    using read_u8_data [OF ok, of "length hdr + i" "[]"] that ok
    by (simp add: read_u8_def ptr_add_def add.assoc)
  have num: "read_u8 [b] ?p 0 = Some (of_nat (length xs))"
    using rd [of 0] dl d by (simp add: extension_bytes_def)
  have un: "unat (of_nat (length xs) :: u8) = length xs"
    using n by (simp add: unsigned_of_nat take_bit_nat_eq_self)
  have "ext_loop b ?p (dataLen b - length hdr) (length xs) 1 1 = Some (Inr (1 + length (tlv_bytes xs)))"
  proof (rule ext_loop_tlv [of ?bs _ b ?p 1 xs rest])
    show "drop 1 ?bs = tlv_bytes xs @ rest" by (simp add: d extension_bytes_def)
    show "1 \<le> dataLen b - length hdr" using dl by (simp add: extension_bytes_def)
  qed (use rd ok len v h in auto)
  then show ?thesis
    using at dl n num un len h
    by (simp add: DTAP_ParseExtension_def frame_at_def Let_def extension_bytes_def)
qed

section \<open>Properties\<close>

text \<open>
  (C5) The parser of every frame kind reads only inside the received buffer, whatever the bytes are
  (extension fields included): with a well formed buffer that holds at least the four bytes of the
  basic header and at most what the 16-bit length field can announce, \<open>DTAP_ParseFrame\<close> returns, and
  when it accepts the frame, header, extension, payload and checksum tile the buffer exactly.
\<close>

theorem ParseFrame_memory_safe:
  assumes "buff_ok b" "4 \<le> dataLen b" "dataLen b \<le> 65539"
  shows "\<exists>ret fr. DTAP_ParseFrame t b zero_frame = Some (ret, fr)
    \<and> (ret = DTAP_SUCCESS \<longrightarrow> frame_at fr b \<and> getFrameType (f_ctx fr) = t \<and> frame_tiles fr b)"
  using assms by (rule DTAP_ParseFrame_safe)

theorem ParseFrame_memory_safe_witness:
  "\<exists>ret fr. DTAP_ParseFrame 4 (new_buff 1 0 4\<lparr>dataLen := 4\<rparr>) zero_frame = Some (ret, fr)
    \<and> (ret = DTAP_SUCCESS \<longrightarrow> frame_at fr (new_buff 1 0 4\<lparr>dataLen := 4\<rparr>)
        \<and> getFrameType (f_ctx fr) = 4 \<and> frame_tiles fr (new_buff 1 0 4\<lparr>dataLen := 4\<rparr>))"
  by (rule ParseFrame_memory_safe) (simp_all add: buff_ok_def)

text \<open>
  (C15) Fragment frames survive the trip: what \<open>buildFrame\<close> writes for a simplex or duplex fragment
  frame is accepted by the receiver's length test, checksum test, parser and header check, and the
  parsed frame has the sender's sequence number, fragment state, protocol identifier, P bit and
  payload, for a duplex frame also its acknowledgement number and F bit.
\<close>

theorem fragment_frame_roundtrip:
  assumes "f_ctx fr \<in> {SimplexFragFrameCtx, DuplexFragFrameCtx}" "f_buff fr = Some b" "buff_ok b"
    and "9 \<le> SDF_BuffHeadRoom b" "2 \<le> SDF_BuffTailRoom b" "dataLen b \<le> 65528"
    and "txSeq fr \<le> DTAP_FRAME_SEQ_MAX" "reqSeq fr \<le> DTAP_FRAME_SEQ_MAX" "sar fr \<le> 3"
  shows "\<exists>b' fr'. buildFrame e (f_ctx fr) fr tcid crcInit = Some (DTAP_SUCCESS, fr\<lparr>f_buff := Some b'\<rparr>)
    \<and> received_as b' crcInit (f_ctx fr) (buff_data b) fr'
    \<and> txSeq fr' = txSeq fr \<and> sar fr' = sar fr \<and> f_pi fr' = f_pi fr
    \<and> DTAP_CheckFrameBit (f_bits fr') DTAP_FRAME_P_BIT = DTAP_CheckFrameBit (f_bits fr) DTAP_FRAME_P_BIT
    \<and> (f_ctx fr = DuplexFragFrameCtx \<longrightarrow> reqSeq fr' = reqSeq fr
        \<and> DTAP_CheckFrameBit (f_bits fr') DTAP_FRAME_F_BIT = DTAP_CheckFrameBit (f_bits fr) DTAP_FRAME_F_BIT)"
proof (cases "f_ctx fr = DuplexFragFrameCtx")
  case True
  obtain b' old where b': "DTAP_BuildDuplexFragFrame fr tcid crcInit = Some (DTAP_SUCCESS, fr\<lparr>f_buff := Some b'\<rparr>)"
    "buff_ok b'" "buff_data b' = frame_image crcInit (DuplexFragHeader fr tcid (dataLen b) old) (buff_data b)"
    using DTAP_BuildDuplexFragFrame_Some [OF assms(2-5)] by metis
  with duplex_image_received [of b' crcInit fr tcid "buff_data b" old] assms True
  show ?thesis by auto
next
  case False
  then have c: "f_ctx fr = SimplexFragFrameCtx" using assms(1) by simp
  have "7 \<le> SDF_BuffHeadRoom b" using assms(4) by simp
  then obtain b' old where b': "DTAP_BuildSimplexFragFrame fr tcid crcInit = Some (DTAP_SUCCESS, fr\<lparr>f_buff := Some b'\<rparr>)"
    "buff_ok b'" "buff_data b' = frame_image crcInit (SimplexFragHeader fr tcid (dataLen b) old) (buff_data b)"
    using DTAP_BuildSimplexFragFrame_Some [OF assms(2,3) _ assms(5)] by metis
  with simplex_image_received [of b' crcInit fr tcid "buff_data b" old] assms c
  show ?thesis by auto
qed

theorem fragment_frame_roundtrip_witness:
  "\<exists>b' fr'. buildFrame (granting_env DTAP_SUCCESS) DuplexFragFrameCtx
      (zero_frame\<lparr>f_ctx := DuplexFragFrameCtx, f_buff := Some (new_buff 7 14 19), txSeq := 0x3FFF,
         reqSeq := 1, sar := 2\<rparr>) 0x80 0xBEEF
      = Some (DTAP_SUCCESS, zero_frame\<lparr>f_ctx := DuplexFragFrameCtx, txSeq := 0x3FFF, reqSeq := 1,
         sar := 2, f_buff := Some b'\<rparr>)
    \<and> received_as b' 0xBEEF DuplexFragFrameCtx [] fr' \<and> txSeq fr' = 0x3FFF \<and> reqSeq fr' = 1"
  using fragment_frame_roundtrip [of "zero_frame\<lparr>f_ctx := DuplexFragFrameCtx,
      f_buff := Some (new_buff 7 14 19), txSeq := 0x3FFF, reqSeq := 1, sar := 2\<rparr>" "new_buff 7 14 19"
      "granting_env DTAP_SUCCESS" "0x80" "0xBEEF"]
  by (auto simp: SDF_BuffHeadRoom_def SDF_BuffTailRoom_def)

text \<open>
  Acknowledgement frames survive the trip: the frame \<open>DTAP_BuildAckFrame\<close> builds is accepted by the
  receiver's tests and parser, and its acknowledgement number, S bit and F bit are the sender's.
\<close>

theorem ack_frame_roundtrip:
  assumes "SDF_MemZalloc e = Some a" "ack_reqSeq fr \<le> DTAP_FRAME_SEQ_MAX"
  shows "\<exists>b' fr'. buildFrame e AckFrameCtx fr tcid crcInit = Some (DTAP_SUCCESS, fr\<lparr>f_buff := Some b'\<rparr>)
    \<and> received_as b' crcInit AckFrameCtx [] fr' \<and> ack_reqSeq fr' = ack_reqSeq fr
    \<and> ack_sBit fr' = ack_sBit fr
    \<and> DTAP_CheckFrameBit (f_bits fr') DTAP_FRAME_F_BIT = DTAP_CheckFrameBit (f_bits fr) DTAP_FRAME_F_BIT"
proof -
  obtain b' old where
    "DTAP_BuildAckFrame e fr tcid crcInit = Some (DTAP_SUCCESS, fr\<lparr>f_buff := Some b'\<rparr>)"
    "buff_ok b'" "buff_data b' = frame_image crcInit (AckHeader fr tcid old) []"
    using DTAP_BuildAckFrame_Some [OF assms(1)] by metis
  with ack_image_received [of b' crcInit fr tcid old] assms(2) show ?thesis by auto
qed

theorem ack_frame_roundtrip_witness:
  "\<exists>b' fr'. buildFrame (granting_env DTAP_SUCCESS) AckFrameCtx
       (zero_frame\<lparr>ack_reqSeq := 9, ack_sBit := True\<rparr>) 0x80 0x1234
      = Some (DTAP_SUCCESS, zero_frame\<lparr>ack_reqSeq := 9, ack_sBit := True, f_buff := Some b'\<rparr>)
    \<and> received_as b' 0x1234 AckFrameCtx [] fr' \<and> ack_reqSeq fr' = 9 \<and> ack_sBit fr'"
  using ack_frame_roundtrip [of "granting_env DTAP_SUCCESS" _
      "zero_frame\<lparr>ack_reqSeq := 9, ack_sBit := True\<rparr>" "0x80" "0x1234"]
  by (auto simp: SDF_MemZalloc_def granting_env_def)

text \<open>
  Basic frames survive the trip: the receiver of what \<open>DTAP_BuildBasicFrame\<close> builds finds the announced
  length, an accepted header and, behind the header, the payload; the protocol identifier is the
  sender's on a channel that carries one and \<open>DTAP_PI_NONE\<close> on a fixed channel, which omits it.
\<close>

theorem basic_frame_roundtrip:
  assumes "f_buff fr = Some b" "buff_ok b" "5 \<le> SDF_BuffHeadRoom b" "dataLen b \<le> 65534"
  shows "\<exists>b' fr'. buildFrame e g_dtapFrameBasicCtx fr tcid crcInit = Some (DTAP_SUCCESS, fr\<lparr>f_buff := Some b'\<rparr>)
    \<and> unat (DECODE2BYTE_LITTLE (buff_data b' ! 2) (buff_data b' ! 3)) + 4 = dataLen b'
    \<and> DTAP_ParseFrame (hdr_frameType (buff_data b' ! 1)) b' zero_frame = Some (DTAP_SUCCESS, fr')
    \<and> checkFrameHeader (f_ctx fr') fr' = Some True
    \<and> f_pi fr' = (if tcid \<le> TCID_FTC_RFU_END then DTAP_PI_NONE else f_pi fr)
    \<and> payloadLen fr' = dataLen b \<and> drop (headerLen fr') (buff_data b') = buff_data b"
proof -
  obtain b' old where
    "DTAP_BuildBasicFrame fr tcid = Some (DTAP_SUCCESS, fr\<lparr>f_buff := Some b'\<rparr>)"
    "buff_ok b'" "buff_data b' = BasicFrameHeader fr tcid (dataLen b) old @ buff_data b"
    using DTAP_BuildBasicFrame_Some [OF assms(1-3)] by metis
  with basic_image_received [of b' fr tcid "buff_data b" old] assms(2,4) show ?thesis by auto
qed

theorem basic_frame_roundtrip_witness:
  "\<exists>b' fr'. buildFrame (granting_env DTAP_SUCCESS) g_dtapFrameBasicCtx
       (zero_frame\<lparr>f_pi := 3, f_buff := Some (new_buff 7 14 19)\<rparr>) 0x1F 0
      = Some (DTAP_SUCCESS, zero_frame\<lparr>f_pi := 3, f_buff := Some b'\<rparr>)
    \<and> DTAP_ParseFrame (hdr_frameType (buff_data b' ! 1)) b' zero_frame = Some (DTAP_SUCCESS, fr')
    \<and> f_pi fr' = 3 \<and> payloadLen fr' = 0"
  using basic_frame_roundtrip [of "zero_frame\<lparr>f_pi := 3, f_buff := Some (new_buff 7 14 19)\<rparr>"
      "new_buff 7 14 19" "granting_env DTAP_SUCCESS" "0x1F" "0"]
  by (auto simp: SDF_BuffHeadRoom_def)

text \<open>
  The extension parser accepts every well formed extension: up to sixteen type-length-value fields
  behind the frame header are consumed completely, and \<open>extensionLen\<close> is the number of bytes they and
  their count occupy.
\<close>

theorem extension_parse_encoded:
  assumes "frame_at fr b" "buff_data b = hdr @ extension_bytes xs @ rest"
    and "headerLen fr = length hdr" "length xs \<le> DTAP_EXTENSIONS_MAX_NUM"
    and "\<forall>x \<in> set xs. length (snd x) < 256" "dataLen b - headerLen fr < 65536"
  shows "DTAP_ParseExtension fr = Some (DTAP_SUCCESS,
    fr\<lparr>f_extension := Some (ptr_add (SDF_DataOffset b) (length hdr)),
       extensionLen := length (extension_bytes xs)\<rparr>)"
  using assms by (rule DTAP_ParseExtension_encoded)

theorem extension_parse_encoded_witness:
  "DTAP_ParseExtension (zero_frame\<lparr>headerLen := 1, f_header := Some (3, 0),
      f_buff := Some \<lparr>buff_addr = 3, dataOff = 0, dataLen = 6, buffLen = 6, buff = [0xAA, 1, 5, 1, 9, 7]\<rparr>\<rparr>)
    = Some (DTAP_SUCCESS, zero_frame\<lparr>headerLen := 1, f_header := Some (3, 0),
      f_buff := Some \<lparr>buff_addr = 3, dataOff = 0, dataLen = 6, buffLen = 6, buff = [0xAA, 1, 5, 1, 9, 7]\<rparr>,
      f_extension := Some (3, 1), extensionLen := 4\<rparr>)"
  using extension_parse_encoded [of "zero_frame\<lparr>headerLen := 1, f_header := Some (3, 0),
      f_buff := Some \<lparr>buff_addr = 3, dataOff = 0, dataLen = 6, buffLen = 6, buff = [0xAA, 1, 5, 1, 9, 7]\<rparr>\<rparr>"
      "\<lparr>buff_addr = 3, dataOff = 0, dataLen = 6, buffLen = 6, buff = [0xAA, 1, 5, 1, 9, 7]\<rparr>"
      "[0xAA]" "[(5, [9])]" "[7]"]
  by (simp add: frame_at_def buff_ok_def buff_data_def SDF_DataOffset_def extension_bytes_def ptr_add_def)

end
