(* ===== verification/Dtap_Frag.thy ===== *)
theory Dtap_Frag
  imports Dtap_Frame
begin

text \<open>
  Aggregation and fragmentation (the first half of \<open>dtap_frame_enhance.c\<close>): taking the SDUs out of an
  aggregate frame, collecting the fragments of an SDU, and cutting an SDU into fragment frames.
  A call of the upper layer's receive callback is recorded with the result the environment gives it.
\<close>

section \<open>Deliveries\<close>

record DTAP_Data_Info =
  info_pi :: u8
  info_lcid :: u16
  info_tcid :: u8

text \<open>A callback is known by its registration number; an upcall is the callback, its arguments and its result.\<close>

record upcall =
  up_cb :: nat
  up_info :: DTAP_Data_Info
  up_data :: bytes
  up_result :: DTAP_errno

abbreviation accepted :: "upcall \<Rightarrow> bool" where
  "accepted u \<equiv> up_result u \<noteq> DTAP_TRANS_RELIABLE_TRANS_CHANNEL_FULL"

type_synonym dtap_env = "DTAP_errno env"

section \<open>Aggregate frames\<close>

text \<open>
  The loop over the SDUs. \<open>p\<close> points to the current SDU header and \<open>tot\<close> is \<open>sduTotalLen\<close>; the second
  component of the result is the position to store into the frame when the upper layer is full.
\<close>

function agg_loop :: "dtap_env \<Rightarrow> nat \<Rightarrow> SDF_Buff list \<Rightarrow> nat \<Rightarrow> DTAP_Data_Info \<Rightarrow> ptr \<Rightarrow> nat
    \<Rightarrow> (DTAP_errno \<times> (ptr \<times> nat) option \<times> upcall list) option" where
  "agg_loop e k live cb info p tot =
     (if tot < 2 then Some (DTAP_ENHANCED_FRAME_SDU_HDR_LEN_TOO_SHORT, None, [])
      else do {
        w \<leftarrow> read_u16 live p 0;
        let sduLen = unat w;
        let rest = tot - 2;
        if sduLen = 0 \<or> rest < sduLen then Some (DTAP_ENHANCED_FRAME_SDU_LEN_TOO_SHORT, None, [])
        else (case SDF_BuffNew (sub (sub e k) 0) sduLen of
          None \<Rightarrow> Some (DTAP_ENHANCED_FRAME_BUFF_NEW_ERR, None, [])
        | Some b0 \<Rightarrow> (case SDF_BuffAppend (Some b0) sduLen of
            None \<Rightarrow> Some (DTAP_ENHANCED_FRAME_APPEND_ERR, None, [])
          | Some (off, b1) \<Rightarrow> do {
              bs \<leftarrow> deref live (ptr_add p 2) sduLen;
              b2 \<leftarrow> mem_write b1 off bs;
              let result = call_recv (sub (sub e k) 1);
              let up = \<lparr>up_cb = cb, up_info = info, up_data = buff_data b2, up_result = result\<rparr>;
              if result = DTAP_TRANS_RELIABLE_TRANS_CHANNEL_FULL
              then Some (DTAP_TRANS_RELIABLE_TRANS_CHANNEL_FULL, Some (p, rest), [up])
              else if rest - sduLen > 0 then do {
                (ret, pos, ups) \<leftarrow> agg_loop e (Suc k) live cb info (ptr_add p (2 + sduLen)) (rest - sduLen);
                Some (ret, pos, up # ups)
              }
              else Some (DTAP_SUCCESS, None, [up])
            }))
      })"
  by pat_completeness auto

termination
  by (relation "measure (\<lambda>(e, k, live, cb, info, p, tot). tot)") auto

declare agg_loop.simps [simp del]

definition DTAP_RecvAggregateFrame ::
  "dtap_env \<Rightarrow> SDF_Buff list \<Rightarrow> DTAP_Frame \<Rightarrow> DTAP_Data_Info \<Rightarrow> nat option
    \<Rightarrow> (DTAP_errno \<times> DTAP_Frame \<times> upcall list) option" where
  "DTAP_RecvAggregateFrame e live fr info recvCb =
     (case f_payload fr of
        None \<Rightarrow> Some (DTAP_ENHANCED_FRAME_NULL, fr, [])
      | Some p \<Rightarrow>
          (case recvCb of
             None \<Rightarrow> Some (DTAP_SUCCESS, fr, [])
           | Some cb \<Rightarrow>
               if payloadLen fr = 0 then Some (DTAP_SUCCESS, fr, [])
               else do {
                 (ret, pos, ups) \<leftarrow> agg_loop e 0 live cb info p (payloadLen fr);
                 Some (ret, (case pos of
                     None \<Rightarrow> fr
                   | Some (p', n) \<Rightarrow> fr\<lparr>f_payload := Some p', payloadLen := n\<rparr>), ups)
               }))"

section \<open>Fragment frames: receiving\<close>

abbreviation (input) DTAP_MAX_FRAG_TOTAL_LEN :: nat where "DTAP_MAX_FRAG_TOTAL_LEN \<equiv> 65535"

definition DTAP_UpdateFragmentFrame ::
  "dtap_env \<Rightarrow> SDF_Buff \<Rightarrow> SDF_Buff \<Rightarrow> (DTAP_errno \<times> SDF_Buff option) option" where
  "DTAP_UpdateFragmentFrame e buffs b =
     (let tot = dataLen buffs + dataLen b in
      if tot > DTAP_MAX_FRAG_TOTAL_LEN then Some (DTAP_ENHANCED_FRAME_FRAGMENT_FRAME_LEN_ERR, None)
      else (case SDF_BuffNewWithReserve e tot of
        None \<Rightarrow> Some (DTAP_ENHANCED_FRAME_UPDATE_FRAG_FRAME_ERR, None)
      | Some n0 \<Rightarrow> (case SDF_BuffAppend (Some n0) (dataLen buffs) of
          None \<Rightarrow> Some (DTAP_ENHANCED_FRAME_UPDATE_FRAG_FRAME_ERR, None)
        | Some (o1, n1) \<Rightarrow> do {
            d1 \<leftarrow> mem_read buffs (dataOff buffs) (dataLen buffs);
            n2 \<leftarrow> mem_write n1 o1 d1;
            (case SDF_BuffAppend (Some n2) (dataLen b) of
               None \<Rightarrow> Some (DTAP_ENHANCED_FRAME_UPDATE_FRAG_FRAME_ERR, None)
             | Some (o2, n3) \<Rightarrow> do {
                 d2 \<leftarrow> mem_read b (dataOff b) (dataLen b);
                 n4 \<leftarrow> mem_write n3 o2 d2;
                 Some (DTAP_SUCCESS, Some n4)
               })
          })))"

text \<open>
  The fragments collected so far are the first component of the state; the frame comes back with its
  buffer trimmed, which the C code does through the \<open>const\<close> frame.
\<close>

definition call_cb :: "dtap_env \<Rightarrow> nat option \<Rightarrow> DTAP_Data_Info \<Rightarrow> SDF_Buff \<Rightarrow> DTAP_errno \<times> upcall list" where
  "call_cb e recvCb info b =
     (case recvCb of
        None \<Rightarrow> (DTAP_SUCCESS, [])
      | Some cb \<Rightarrow> (call_recv e,
          [\<lparr>up_cb = cb, up_info = info, up_data = buff_data b, up_result = call_recv e\<rparr>]))"

definition frag_result :: "DTAP_errno \<Rightarrow> DTAP_errno \<Rightarrow> DTAP_errno" where
  "frag_result ret result =
     (if result = DTAP_TRANS_RELIABLE_TRANS_CHANNEL_FULL then DTAP_TRANS_RELIABLE_TRANS_CHANNEL_FULL
      else ret)"

definition DTAP_RecvFragmentFrame ::
  "dtap_env \<Rightarrow> SDF_Buff option \<Rightarrow> DTAP_Frame \<Rightarrow> DTAP_Data_Info \<Rightarrow> nat option
    \<Rightarrow> (DTAP_errno \<times> SDF_Buff option \<times> DTAP_Frame \<times> upcall list) option" where
  "DTAP_RecvFragmentFrame e buffs fr info recvCb =
     (case SDF_BuffTrimPrefix (f_buff fr) (headerLen fr + extensionLen fr) of
        None \<Rightarrow> Some (DTAP_ENHANCED_FRAME_TRIM_PREFIX_ERR, buffs, fr, [])
      | Some (_, b1) \<Rightarrow>
          (case SDF_BuffTrimSuffix (Some b1) DTAP_CRC_LEN of
             None \<Rightarrow> Some (DTAP_ENHANCED_FRAME_TRIM_SUFFIX_ERR, buffs, fr\<lparr>f_buff := Some b1\<rparr>, [])
           | Some b \<Rightarrow>
               let fr' = fr\<lparr>f_buff := Some b\<rparr> in
               if sar fr = DTAP_SAR_UNSEG then
                 (let (result, ups) = call_cb (sub e 0) recvCb info b
                  in Some (frag_result DTAP_SUCCESS result, buffs, fr', ups))
               else if sar fr = DTAP_SAR_FIRST then
                 Some (if buffs = None then DTAP_SUCCESS else DTAP_ENHANCED_FRAME_DUP_FIRST_FRAG_FRAME,
                       SDF_BuffCopy (sub e 0) (Some b), fr', [])
               else if sar fr = DTAP_SAR_MID \<or> sar fr = DTAP_SAR_LAST then
                 (case buffs of
                    None \<Rightarrow> Some (DTAP_ENHANCED_FRAME_NO_FIRST_FRAG_FRAME, buffs, fr', [])
                  | Some c \<Rightarrow> do {
                      (ret, buffs') \<leftarrow> DTAP_UpdateFragmentFrame (sub e 0) c b;
                      (case buffs' of
                         Some c' \<Rightarrow>
                           if sar fr = DTAP_SAR_LAST then
                             (let (result, ups) = call_cb (sub e 1) recvCb info c'
                              in Some (frag_result ret result, None, fr', ups))
                           else Some (ret, buffs', fr', [])
                       | None \<Rightarrow> Some (ret, None, fr', []))
                    })
               else Some (DTAP_SUCCESS, buffs, fr', [])))"

section \<open>Fragment frames: sending\<close>

definition DTAP_GetFragmentFramesNum :: "nat \<Rightarrow> nat \<Rightarrow> nat" where
  "DTAP_GetFragmentFramesNum len mps =
     (if mps = 0 then 1 else to_u16 ((to_u16 len + mps - 1) div mps))"

definition DTAP_GetFragFrameSar :: "nat \<Rightarrow> nat \<Rightarrow> u8" where
  "DTAP_GetFragFrameSar fragCnt curFragCnt =
     (if fragCnt = 1 then DTAP_SAR_UNSEG
      else if curFragCnt = 1 then DTAP_SAR_FIRST
      else if curFragCnt < fragCnt then DTAP_SAR_MID
      else DTAP_SAR_LAST)"

text \<open>
  The loop of \<open>DTAP_FragmentFrame\<close>: \<open>d\<close> holds the bytes not cut yet and \<open>i\<close> counts the frames made.
  A store behind the end of \<open>outFrames\<close> has no result; \<^term>\<open>Some None\<close> is the error exit, which
  destroys the frames made so far.
\<close>

function frag_loop :: "dtap_env \<Rightarrow> nat \<Rightarrow> nat \<Rightarrow> nat \<Rightarrow> nat \<Rightarrow> bytes \<Rightarrow> DTAP_Frame list option option" where
  "frag_loop e frameType mps cnt i d =
     (if d = [] then Some (Some [])
      else (case DTAP_CreateFrame (sub (sub e i) 0) frameType of
        None \<Rightarrow> Some None
      | Some fr \<Rightarrow>
          let n = (if mps = 0 then length d else if length d < mps then length d else mps) in
          (case SDF_BuffNewWithReserve (sub (sub e i) 1) n of
             None \<Rightarrow> Some None
           | Some b0 \<Rightarrow> (case SDF_BuffAppend (Some b0) n of
               None \<Rightarrow> Some None
             | Some (off, b1) \<Rightarrow> do {
                 b2 \<leftarrow> mem_write b1 off (take n d);
                 if i \<ge> DTAP_MAX_FRAGMENT_NUM then None
                 else do {
                   r \<leftarrow> frag_loop e frameType mps cnt (Suc i) (drop n d);
                   Some (map_option (\<lambda>fs. fr\<lparr>f_buff := Some b2,
                     sar := DTAP_GetFragFrameSar cnt (Suc i)\<rparr> # fs) r)
                 }
               }))))"
  by pat_completeness auto

termination
  by (relation "measure (\<lambda>(e, frameType, mps, cnt, i, d). length d)") auto

declare frag_loop.simps [simp del]

definition DTAP_FragmentFrame ::
  "dtap_env \<Rightarrow> SDF_Buff option \<Rightarrow> nat \<Rightarrow> nat \<Rightarrow> (DTAP_Frame list \<times> nat) option" where
  "DTAP_FragmentFrame e buf mps frameType =
     (case buf of
        None \<Rightarrow> Some ([], 0)
      | Some b \<Rightarrow>
          if dataLen b = 0 then Some ([], 0)
          else if frameType \<noteq> DTAP_FRAME_SIMPLEX_FRAG \<and> frameType \<noteq> DTAP_FRAME_DUPLEX_FRAG then Some ([], 0)
          else let cnt = DTAP_GetFragmentFramesNum (dataLen b) mps in
            if cnt > DTAP_MAX_FRAGMENT_NUM then Some ([], 0)
            else do {
              r \<leftarrow> frag_loop e frameType mps cnt 0 (buff_data b);
              Some (case r of None \<Rightarrow> ([], 0) | Some fs \<Rightarrow> (fs, cnt))
            })"

section \<open>Helpers on buffers\<close>

lemma append_obtain:
  assumes "n \<le> SDF_BuffTailRoom b"
  obtains off b1 where "SDF_BuffAppend (Some b) n = Some (off, b1)"
    "\<And>bs. length bs = n \<Longrightarrow> mem_write b1 off bs = append_bytes b bs"
proof
  show "SDF_BuffAppend (Some b) n = Some (dataOff b + dataLen b, b\<lparr>dataLen := dataLen b + n\<rparr>)"
    using assms by simp
  then show "mem_write (b\<lparr>dataLen := dataLen b + n\<rparr>) (dataOff b + dataLen b) bs = append_bytes b bs"
    if "length bs = n" for bs
    using that by (simp add: append_bytes_def)
qed

lemma append_bytes_ex:
  assumes "buff_ok b" "length bs \<le> SDF_BuffTailRoom b"
  shows "\<exists>b'. append_bytes b bs = Some b' \<and> buff_ok b' \<and> buff_data b' = buff_data b @ bs
    \<and> dataOff b' = dataOff b \<and> SDF_BuffTailRoom b' = SDF_BuffTailRoom b - length bs"
  using append_bytes_Some [OF assms] by metis

lemma mem_read_window: "buff_ok b \<Longrightarrow> mem_read b (dataOff b) (dataLen b) = Some (buff_data b)"
  using mem_read_data [of b 0 "dataLen b"] by simp

lemma SDF_BuffNew_ok: "alloc_ok e \<Longrightarrow> \<exists>b. SDF_BuffNew e n = Some b"
  by (auto simp: SDF_BuffNew_def split: option.splits)

lemma SDF_BuffNewWithReserve_ok: "alloc_ok e \<Longrightarrow> \<exists>b. SDF_BuffNewWithReserve e n = Some b"
  by (auto simp: SDF_BuffNewWithReserve_def split: option.splits)

lemma SDF_BuffCopy_ok: "alloc_ok e \<Longrightarrow> buffLen b < 2 ^ 32 \<Longrightarrow> \<exists>c. SDF_BuffCopy e (Some b) = Some c"
  using alloc_okD [of e] by auto

section \<open>Collecting fragments\<close>

lemma DTAP_UpdateFragmentFrame_ok:
  assumes "buff_ok c" "buff_ok b" "dataLen c + dataLen b \<le> 65535" "alloc_ok e"
  shows "\<exists>n. DTAP_UpdateFragmentFrame e c b = Some (DTAP_SUCCESS, Some n) \<and> buff_ok n
    \<and> buff_data n = buff_data c @ buff_data b"
proof -
  obtain n0 where n0: "SDF_BuffNewWithReserve e (dataLen c + dataLen b) = Some n0"
    using SDF_BuffNewWithReserve_ok [OF assms(4)] by blast
  note i0 = SDF_BuffNewWithReserve_SomeD [OF n0]
  obtain o1 n1 where a1: "SDF_BuffAppend (Some n0) (dataLen c) = Some (o1, n1)"
      "\<And>bs. length bs = dataLen c \<Longrightarrow> mem_write n1 o1 bs = append_bytes n0 bs"
    using append_obtain [of "dataLen c" n0] i0 by auto
  obtain n2 where n2: "append_bytes n0 (buff_data c) = Some n2" "buff_ok n2"
      "buff_data n2 = buff_data c" "SDF_BuffTailRoom n2 = dataLen b + 2"
    using append_bytes_ex [of n0 "buff_data c"] i0 assms(1) by auto
  obtain o2 n3 where a2: "SDF_BuffAppend (Some n2) (dataLen b) = Some (o2, n3)"
      "\<And>bs. length bs = dataLen b \<Longrightarrow> mem_write n3 o2 bs = append_bytes n2 bs"
    using append_obtain [of "dataLen b" n2] n2 by auto
  obtain n4 where n4: "append_bytes n2 (buff_data b) = Some n4" "buff_ok n4"
      "buff_data n4 = buff_data c @ buff_data b"
    using append_bytes_ex [of n2 "buff_data b"] n2 assms(2) by auto
  have "DTAP_UpdateFragmentFrame e c b = Some (DTAP_SUCCESS, Some n4)"
    using assms n0 a1 n2 a2 n4
    by (simp add: DTAP_UpdateFragmentFrame_def Let_def mem_read_window)
  with n4 show ?thesis by blast
qed

text \<open>
  A received fragment: header, payload \<open>d\<close> and checksum are in the frame's buffer and the lengths the
  parser stored match them.
\<close>

definition carries :: "DTAP_Frame \<Rightarrow> u8 \<Rightarrow> bytes \<Rightarrow> bool" where
  "carries fr s d \<longleftrightarrow> sar fr = s \<and>
     (\<exists>b hdr crc. f_buff fr = Some b \<and> buff_ok b \<and> buff_data b = hdr @ d @ crc \<and> length crc = 2
        \<and> length hdr = headerLen fr + extensionLen fr \<and> buffLen b < 2 ^ 32)"

lemma carries_trim:
  assumes "carries fr s d"
  obtains off b1 b where "SDF_BuffTrimPrefix (f_buff fr) (headerLen fr + extensionLen fr) = Some (off, b1)"
    "SDF_BuffTrimSuffix (Some b1) 2 = Some b" "buff_ok b" "buff_data b = d" "buffLen b < 2 ^ 32"
proof -
  obtain b0 hdr crc where b0: "f_buff fr = Some b0" "buff_ok b0" "buff_data b0 = hdr @ d @ crc"
      "length crc = 2" "length hdr = headerLen fr + extensionLen fr" "buffLen b0 < 2 ^ 32"
    using assms by (auto simp: carries_def)
  have dl: "dataLen b0 = length hdr + length d + 2"
    using length_buff_data [OF b0(2)] b0(3,4) by simp
  obtain off b1 where b1: "SDF_BuffTrimPrefix (Some b0) (length hdr) = Some (off, b1)"
    using dl by simp
  note t1 = SDF_BuffTrimPrefix_Some [OF b1 b0(2)]
  obtain b where b: "SDF_BuffTrimSuffix (Some b1) 2 = Some b"
    using t1(4) dl by simp
  note t2 = SDF_BuffTrimSuffix_Some [OF b t1(1)]
  have "buff_data b = d" using t1(2,4) t2(2) b0(3,4) dl by simp
  then show thesis
    using that [OF _ b t2(1)] b1 b0 t1 t2 by simp
qed

lemma recv_unseg:
  assumes "carries fr DTAP_SAR_UNSEG d"
  shows "\<exists>b. DTAP_RecvFragmentFrame e buffs fr info (Some cb) =
    Some (frag_result DTAP_SUCCESS (call_recv (sub e 0)), buffs, fr\<lparr>f_buff := Some b\<rparr>,
      [\<lparr>up_cb = cb, up_info = info, up_data = d, up_result = call_recv (sub e 0)\<rparr>])"
proof -
  obtain off b1 b where t: "SDF_BuffTrimPrefix (f_buff fr) (headerLen fr + extensionLen fr) = Some (off, b1)"
    "SDF_BuffTrimSuffix (Some b1) 2 = Some b" "buff_data b = d"
    using carries_trim [OF assms] by metis
  then show ?thesis using assms
    by (intro exI [of _ b]) (simp add: DTAP_RecvFragmentFrame_def carries_def call_cb_def Let_def)
qed

lemma recv_first:
  assumes "carries fr DTAP_SAR_FIRST d" "alloc_ok e"
  shows "\<exists>b c. DTAP_RecvFragmentFrame e None fr info recvCb =
    Some (DTAP_SUCCESS, Some c, fr\<lparr>f_buff := Some b\<rparr>, []) \<and> buff_ok c \<and> buff_data c = d"
proof -
  obtain off b1 b where t: "SDF_BuffTrimPrefix (f_buff fr) (headerLen fr + extensionLen fr) = Some (off, b1)"
    "SDF_BuffTrimSuffix (Some b1) 2 = Some b" "buff_ok b" "buff_data b = d" "buffLen b < 2 ^ 32"
    using carries_trim [OF assms(1)] by metis
  obtain c where c: "SDF_BuffCopy (sub e 0) (Some b) = Some c"
    using SDF_BuffCopy_ok [of "sub e 0" b] assms(2) t(5) by auto
  note cc = SDF_BuffCopy_Some [OF c]
  have "DTAP_RecvFragmentFrame e None fr info recvCb =
    Some (DTAP_SUCCESS, Some c, fr\<lparr>f_buff := Some b\<rparr>, [])"
    using t c assms(1) by (simp add: DTAP_RecvFragmentFrame_def carries_def Let_def)
  with cc t show ?thesis by auto
qed

lemma recv_next:
  assumes "carries fr s d" "s = DTAP_SAR_MID \<or> s = DTAP_SAR_LAST" "alloc_ok e" "buff_ok c"
    and "dataLen c + length d \<le> 65535"
  shows "\<exists>b c'. buff_ok c' \<and> buff_data c' = buff_data c @ d \<and>
    DTAP_RecvFragmentFrame e (Some c) fr info (Some cb) =
     (if s = DTAP_SAR_MID then Some (DTAP_SUCCESS, Some c', fr\<lparr>f_buff := Some b\<rparr>, [])
      else Some (frag_result DTAP_SUCCESS (call_recv (sub e 1)), None, fr\<lparr>f_buff := Some b\<rparr>,
        [\<lparr>up_cb = cb, up_info = info, up_data = buff_data c @ d, up_result = call_recv (sub e 1)\<rparr>]))"
proof -
  obtain off b1 b where t: "SDF_BuffTrimPrefix (f_buff fr) (headerLen fr + extensionLen fr) = Some (off, b1)"
    "SDF_BuffTrimSuffix (Some b1) 2 = Some b" "buff_ok b" "buff_data b = d"
    using carries_trim [OF assms(1)] by metis
  then have "dataLen b = length d" using length_buff_data by fastforce
  then obtain n where n: "DTAP_UpdateFragmentFrame (sub e 0) c b = Some (DTAP_SUCCESS, Some n)"
      "buff_ok n" "buff_data n = buff_data c @ d"
    using DTAP_UpdateFragmentFrame_ok [of c b "sub e 0"] assms t by auto
  then show ?thesis
    using t assms(1,2)
    by (intro exI [of _ b] exI [of _ n])
      (auto simp: DTAP_RecvFragmentFrame_def carries_def call_cb_def Let_def)
qed

text \<open>Feeding a sequence of frames to the reassembly, as the in-order delivery loop does.\<close>

fun recv_fragments :: "dtap_env \<Rightarrow> nat \<Rightarrow> SDF_Buff option \<Rightarrow> DTAP_Frame list \<Rightarrow> DTAP_Data_Info
    \<Rightarrow> nat option \<Rightarrow> (DTAP_errno list \<times> SDF_Buff option \<times> upcall list) option" where
  "recv_fragments e k buffs [] info recvCb = Some ([], buffs, [])"
| "recv_fragments e k buffs (fr # frs) info recvCb = do {
     (ret, buffs', _, ups) \<leftarrow> DTAP_RecvFragmentFrame (sub e k) buffs fr info recvCb;
     (rets, buffs'', ups') \<leftarrow> recv_fragments e (Suc k) buffs' frs info recvCb;
     Some (ret # rets, buffs'', ups @ ups')
   }"

text \<open>The fragment states of the pieces \<open>i + 1, i + 2, ...\<close> of an SDU cut into \<open>n\<close> pieces.\<close>

definition sar_pattern :: "nat \<Rightarrow> nat \<Rightarrow> u8" where
  "sar_pattern n i = (if n = 1 then DTAP_SAR_UNSEG else if i = 0 then DTAP_SAR_FIRST
     else if i + 1 = n then DTAP_SAR_LAST else DTAP_SAR_MID)"

lemma recv_fragments_tail:
  assumes "length frs = length ds" "ds \<noteq> []" "alloc_ok e" "buff_ok c"
    and "\<forall>i < length ds. carries (frs ! i) (if i + 1 = length ds then DTAP_SAR_LAST else DTAP_SAR_MID) (ds ! i)"
    and "dataLen c + length (concat ds) \<le> 65535"
    and "\<And>p. env_recv e p \<noteq> DTAP_TRANS_RELIABLE_TRANS_CHANNEL_FULL"
  shows "\<exists>r. recv_fragments e k (Some c) frs info (Some cb) =
    Some (replicate (length frs) DTAP_SUCCESS, None,
      [\<lparr>up_cb = cb, up_info = info, up_data = buff_data c @ concat ds, up_result = r\<rparr>])
    \<and> r \<noteq> DTAP_TRANS_RELIABLE_TRANS_CHANNEL_FULL"
  using assms(1,2,4-6)
proof (induction ds arbitrary: frs c k)
  case Nil
  then show ?case by simp
next
  case (Cons d ds)
  obtain fr frs' where frs: "frs = fr # frs'" using Cons.prems(1) by (cases frs) auto
  let ?e = "sub e k"
  let ?s = "if ds = [] then DTAP_SAR_LAST else DTAP_SAR_MID"
  have fr: "carries fr ?s d" using Cons.prems(4) frs by auto
  have nf: "call_recv (sub ?e 1) \<noteq> DTAP_TRANS_RELIABLE_TRANS_CHANNEL_FULL"
    using assms(7) by (simp add: call_recv_def sub_def)
  obtain b c' where c': "buff_ok c'" "buff_data c' = buff_data c @ d"
      "DTAP_RecvFragmentFrame ?e (Some c) fr info (Some cb) =
     (if ?s = DTAP_SAR_MID then Some (DTAP_SUCCESS, Some c', fr\<lparr>f_buff := Some b\<rparr>, [])
      else Some (frag_result DTAP_SUCCESS (call_recv (sub ?e 1)), None, fr\<lparr>f_buff := Some b\<rparr>,
        [\<lparr>up_cb = cb, up_info = info, up_data = buff_data c @ d, up_result = call_recv (sub ?e 1)\<rparr>]))"
  proof -
    have "?s = DTAP_SAR_MID \<or> ?s = DTAP_SAR_LAST" by simp
    from recv_next [OF fr this, of ?e c info cb] Cons.prems(3,5) assms(3) that
    show thesis by auto
  qed
  show ?case
  proof (cases "ds = []")
    case True
    then show ?thesis using c'(3) nf Cons.prems(1) frs by (simp add: frag_result_def)
  next
    case False
    have "dataLen c' = dataLen c + length d"
      using c' Cons.prems(3) by (metis length_append length_buff_data)
    moreover have "\<forall>i < length ds. carries (frs' ! i) (if i + 1 = length ds then DTAP_SAR_LAST else DTAP_SAR_MID) (ds ! i)"
    proof (intro allI impI)
      fix i assume "i < length ds"
      then show "carries (frs' ! i) (if i + 1 = length ds then DTAP_SAR_LAST else DTAP_SAR_MID) (ds ! i)"
        using Cons.prems(4) [rule_format, of "Suc i"] frs by simp
    qed
    ultimately obtain r where "recv_fragments e (Suc k) (Some c') frs' info (Some cb) =
      Some (replicate (length frs') DTAP_SUCCESS, None,
        [\<lparr>up_cb = cb, up_info = info, up_data = buff_data c' @ concat ds, up_result = r\<rparr>])"
      "r \<noteq> DTAP_TRANS_RELIABLE_TRANS_CHANNEL_FULL"
      using Cons.IH [of frs' c' "Suc k"] False Cons.prems(1,5) c'(1) frs by auto
    then show ?thesis
      using c'(2,3) False frs by simp
  qed
qed

lemma recv_fragments_all:
  assumes "length frs = length ds" "ds \<noteq> []" "alloc_ok e"
    and "\<forall>i < length ds. carries (frs ! i) (sar_pattern (length ds) i) (ds ! i)"
    and "length (concat ds) \<le> 65535"
    and nf: "\<And>p. env_recv e p \<noteq> DTAP_TRANS_RELIABLE_TRANS_CHANNEL_FULL"
  shows "\<exists>r. recv_fragments e k None frs info (Some cb) =
    Some (replicate (length frs) DTAP_SUCCESS, None,
      [\<lparr>up_cb = cb, up_info = info, up_data = concat ds, up_result = r\<rparr>])
    \<and> r \<noteq> DTAP_TRANS_RELIABLE_TRANS_CHANNEL_FULL"
proof -
  obtain d ds' where ds: "ds = d # ds'" using assms(2) by (cases ds) auto
  obtain fr frs' where frs: "frs = fr # frs'" using assms(1) ds by (cases frs) auto
  have c0: "carries fr (sar_pattern (length ds) 0) d" using assms(4) ds frs by force
  show ?thesis
  proof (cases "ds' = []")
    case True
    have "call_recv (sub (sub e k) 0) \<noteq> DTAP_TRANS_RELIABLE_TRANS_CHANNEL_FULL"
      using nf by (simp add: call_recv_def sub_def)
    with c0 recv_unseg [of fr d "sub e k" None info cb] True assms(1) show ?thesis
      by (auto simp: ds frs sar_pattern_def frag_result_def)
  next
    case False
    have "carries fr DTAP_SAR_FIRST d" using c0 False ds by (simp add: sar_pattern_def)
    then obtain b c where c: "DTAP_RecvFragmentFrame (sub e k) None fr info (Some cb) =
        Some (DTAP_SUCCESS, Some c, fr\<lparr>f_buff := Some b\<rparr>, [])" "buff_ok c" "buff_data c = d"
      using recv_first [of fr d "sub e k" info "Some cb"] assms(3) by auto
    have "dataLen c = length d" using c length_buff_data by fastforce
    moreover have "\<forall>i < length ds'. carries (frs' ! i)
        (if i + 1 = length ds' then DTAP_SAR_LAST else DTAP_SAR_MID) (ds' ! i)"
    proof (intro allI impI)
      fix i assume "i < length ds'"
      then show "carries (frs' ! i) (if i + 1 = length ds' then DTAP_SAR_LAST else DTAP_SAR_MID) (ds' ! i)"
        using assms(4) [rule_format, of "Suc i"] False by (simp add: ds frs sar_pattern_def)
    qed
    ultimately obtain r where "recv_fragments e (Suc k) (Some c) frs' info (Some cb) =
      Some (replicate (length frs') DTAP_SUCCESS, None,
        [\<lparr>up_cb = cb, up_info = info, up_data = buff_data c @ concat ds', up_result = r\<rparr>])"
      "r \<noteq> DTAP_TRANS_RELIABLE_TRANS_CHANNEL_FULL"
      using recv_fragments_tail [of frs' ds' e c "Suc k" info cb] assms(1,3,5) False c nf ds frs
      by auto
    then show ?thesis using c ds frs by simp
  qed
qed

section \<open>Cutting an SDU\<close>

text \<open>The pieces of an SDU: all but the last have \<open>mps\<close> bytes.\<close>

function chunks :: "nat \<Rightarrow> bytes \<Rightarrow> bytes list" where
  "chunks mps d = (if d = [] then [] else if mps = 0 then [d] else take mps d # chunks mps (drop mps d))"
  by pat_completeness auto

termination
  by (relation "measure (\<lambda>(mps, d). length d)") auto

declare chunks.simps [simp del]

lemma chunks_Nil [simp]: "chunks mps [] = []"
  by (simp add: chunks.simps)

lemma chunks_0 [simp]: "d \<noteq> [] \<Longrightarrow> chunks 0 d = [d]"
  by (simp add: chunks.simps)

lemma chunks_unfold:
  "d \<noteq> [] \<Longrightarrow> chunks mps d = (let n = (if mps = 0 then length d else if length d < mps then length d else mps)
     in take n d # chunks mps (drop n d))"
  by (auto simp: chunks.simps [of mps d] Let_def)

lemma concat_chunks: "concat (chunks mps d) = d"
proof (induction mps d rule: chunks.induct)
  case (1 mps d)
  then show ?case by (cases "d = []"; cases "mps = 0") (simp_all add: chunks.simps [of mps d])
qed

lemma length_chunks: "mps > 0 \<Longrightarrow> length (chunks mps d) = (length d + mps - 1) div mps"
proof (induction mps d rule: chunks.induct)
  case (1 mps d)
  show ?case
  proof (cases "d = []")
    case False
    then have "length (chunks mps d) = Suc ((length (drop mps d) + mps - 1) div mps)"
      using 1 by (simp add: chunks.simps [of mps d])
    also have "\<dots> = (length d + mps - 1) div mps"
    proof (cases "length d \<le> mps")
      case True
      then have "length d + mps - 1 = (length d - 1) + mps" "length d - 1 < mps"
        using False by (cases d; simp)+
      then have "(length d + mps - 1) div mps = (length d - 1) div mps + 1"
        using 1(2) by (simp only: div_add_self2)
      then show ?thesis using True 1(2) by simp
    next
      case f2: False
      then have eq: "length d + mps - 1 = (length (drop mps d) + mps - 1) + mps" by simp
      have "mps \<noteq> 0" using 1(2) by simp
      from div_add_self2 [OF this, of "length (drop mps d) + mps - 1"]
      show ?thesis unfolding eq by (simp only: Suc_eq_plus1)
    qed
    finally show ?thesis .
  qed (use 1 in simp)
qed

lemma chunks_mem: "c \<in> set (chunks mps d) \<Longrightarrow> c \<noteq> [] \<and> length c \<le> length d \<and> (mps > 0 \<longrightarrow> length c \<le> mps)"
proof (induction mps d rule: chunks.induct)
  case (1 mps d)
  then show ?case
    by (cases "d = []"; cases "mps = 0") (auto simp: chunks.simps [of mps d])
qed

text \<open>What \<open>DTAP_FragmentFrame\<close> makes of one piece.\<close>

definition fragment_of :: "DTAP_FrameCtx \<Rightarrow> u8 \<Rightarrow> bytes \<Rightarrow> DTAP_Frame \<Rightarrow> bool" where
  "fragment_of c s d fr \<longleftrightarrow> (\<exists>b. fr = zero_frame\<lparr>f_ctx := c, f_buff := Some b, sar := s\<rparr> \<and> buff_ok b
     \<and> buff_data b = d \<and> SDF_BuffHeadRoom b = 14 \<and> SDF_BuffTailRoom b = 2 \<and> buffLen b = length d + 16)"

lemma frag_loop_ok:
  assumes "alloc_ok e" "DTAP_GetFrameCtx ft = Some c" "i + length (chunks mps d) \<le> 128"
  shows "\<exists>fs. frag_loop e ft mps cnt i d = Some (Some fs) \<and> length fs = length (chunks mps d)
    \<and> (\<forall>j < length fs. fragment_of c (DTAP_GetFragFrameSar cnt (i + j + 1)) (chunks mps d ! j) (fs ! j))"
  using assms(3)
proof (induction "length d" arbitrary: d i rule: less_induct)
  case less
  show ?case
  proof (cases "d = []")
    case True
    then show ?thesis by (simp add: frag_loop.simps)
  next
    case False
    define n where "n = (if mps = 0 then length d else if length d < mps then length d else mps)"
    have n: "0 < n" "n \<le> length d" using False by (auto simp: n_def)
    have ch: "chunks mps d = take n d # chunks mps (drop n d)"
      using chunks_unfold [OF False, of mps] by (simp add: n_def Let_def)
    obtain a where a: "SDF_MemZalloc (sub (sub e i) 0) = Some a" using assms(1) alloc_okD by fastforce
    have fr: "DTAP_CreateFrame (sub (sub e i) 0) ft = Some (zero_frame\<lparr>f_ctx := c\<rparr>)"
      using a assms(2) by (simp add: DTAP_CreateFrame_def)
    obtain b0 where b0: "SDF_BuffNewWithReserve (sub (sub e i) 1) n = Some b0"
      using SDF_BuffNewWithReserve_ok [of "sub (sub e i) 1" n] assms(1) by auto
    note i0 = SDF_BuffNewWithReserve_SomeD [OF b0]
    obtain off b1 where ap: "SDF_BuffAppend (Some b0) n = Some (off, b1)"
        "\<And>bs. length bs = n \<Longrightarrow> mem_write b1 off bs = append_bytes b0 bs"
      using append_obtain [of n b0] i0 by auto
    have tr: "length (take n d) \<le> SDF_BuffTailRoom b0" using i0 n by simp
    obtain b2 where b2: "append_bytes b0 (take n d) = Some b2" "buff_ok b2" "buff_data b2 = take n d"
        "dataOff b2 = 14" "SDF_BuffTailRoom b2 = 2" "buffLen b2 = n + 16"
      using append_bytes_Some [OF _ tr] i0 n by (metis add_diff_cancel_left' append_Nil length_take min.absorb2)
    have "length (drop n d) < length d" using n by simp
    from less.hyps [OF this, of "Suc i"] less.prems ch
    obtain fs where fs: "frag_loop e ft mps cnt (Suc i) (drop n d) = Some (Some fs)"
        "length fs = length (chunks mps (drop n d))"
        "\<forall>j < length fs. fragment_of c (DTAP_GetFragFrameSar cnt (Suc i + j + 1)) (chunks mps (drop n d) ! j) (fs ! j)"
      by auto
    let ?fr = "zero_frame\<lparr>f_ctx := c, f_buff := Some b2, sar := DTAP_GetFragFrameSar cnt (Suc i)\<rparr>"
    have i: "i < 128" using less.prems ch by simp
    have "frag_loop e ft mps cnt i d = Some (Some (?fr # fs))"
      using False fr b0 ap b2(1) fs(1) i n
      by (simp add: frag_loop.simps [of e ft mps cnt i d] flip: n_def)
    moreover have "fragment_of c (DTAP_GetFragFrameSar cnt (Suc i)) (take n d) ?fr"
      unfolding fragment_of_def using b2 n by (intro exI [of _ b2]) (simp add: SDF_BuffHeadRoom_def)
    ultimately show ?thesis
      using fs(2,3) ch by (auto simp: nth_Cons split: nat.splits)
  qed
qed

lemma sar_pattern_eq: "i < n \<Longrightarrow> DTAP_GetFragFrameSar n (i + 1) = sar_pattern n i"
  by (auto simp: DTAP_GetFragFrameSar_def sar_pattern_def)

lemma DTAP_GetFragmentFramesNum_chunks:
  assumes "buff_ok b" "0 < dataLen b" "dataLen b \<le> 65535"
  shows "DTAP_GetFragmentFramesNum (dataLen b) mps = length (chunks mps (buff_data b))"
proof (cases "mps = 0")
  case True
  have "buff_data b \<noteq> []" using assms by (metis length_buff_data length_greater_0_conv)
  then show ?thesis using True by (simp add: DTAP_GetFragmentFramesNum_def)
next
  case False
  have "(dataLen b + mps - 1) div mps \<le> dataLen b"
  proof -
    have "dataLen b + mps - 1 < (dataLen b + 1) * mps"
      using False by (cases mps) auto
    then have "(dataLen b + mps - 1) div mps < dataLen b + 1"
      by (simp add: less_mult_imp_div_less)
    then show ?thesis by simp
  qed
  then show ?thesis
    using False assms by (simp add: DTAP_GetFragmentFramesNum_def length_chunks)
qed

lemma DTAP_FragmentFrame_ok:
  assumes "alloc_ok e" "buff_ok b" "0 < dataLen b" "dataLen b \<le> 65535"
    and "DTAP_GetFragmentFramesNum (dataLen b) mps \<le> DTAP_MAX_FRAGMENT_NUM"
    and "c \<in> {SimplexFragFrameCtx, DuplexFragFrameCtx}"
  shows "\<exists>fs. DTAP_FragmentFrame e (Some b) mps (getFrameType c) = Some (fs, length fs)
    \<and> length fs = length (chunks mps (buff_data b))
    \<and> (\<forall>j < length fs. fragment_of c (sar_pattern (length fs) j) (chunks mps (buff_data b) ! j) (fs ! j))"
proof -
  let ?n = "DTAP_GetFragmentFramesNum (dataLen b) mps"
  have n: "?n = length (chunks mps (buff_data b))"
    using DTAP_GetFragmentFramesNum_chunks assms by blast
  then obtain fs where fs: "frag_loop e (getFrameType c) mps ?n 0 (buff_data b) = Some (Some fs)"
     "length fs = ?n"
     "\<forall>j < length fs. fragment_of c (DTAP_GetFragFrameSar ?n (0 + j + 1)) (chunks mps (buff_data b) ! j) (fs ! j)"
    using frag_loop_ok [OF assms(1), of "getFrameType c" c 0 mps "buff_data b" ?n] assms(5) by auto
  then have "\<forall>j < length fs. fragment_of c (sar_pattern (length fs) j) (chunks mps (buff_data b) ! j) (fs ! j)"
    using sar_pattern_eq by auto
  moreover have "DTAP_FragmentFrame e (Some b) mps (getFrameType c) = Some (fs, length fs)"
    using fs(1,2) assms(3,5,6) by (auto simp: DTAP_FragmentFrame_def Let_def)
  ultimately show ?thesis using n fs(2) by metis
qed

section \<open>Properties\<close>

text \<open> Fragmentation is complete and bounded: an SDU of 1 to 65535 bytes that needs at most 128
  fragments is cut into exactly the announced number of frames; in order they carry the whole SDU,
  each at most \<open>mps\<close> bytes, each with the fragment state its position demands and with room for the
  frame header and the checksum.
\<close>

theorem fragmentation_complete:
  assumes "alloc_ok e" "buff_ok b" "0 < dataLen b" "dataLen b \<le> 65535" "0 < mps"
    and "DTAP_GetFragmentFramesNum (dataLen b) mps \<le> DTAP_MAX_FRAGMENT_NUM"
    and "c \<in> {SimplexFragFrameCtx, DuplexFragFrameCtx}"
  shows "\<exists>fs. DTAP_FragmentFrame e (Some b) mps (getFrameType c) = Some (fs, length fs)
    \<and> length fs = DTAP_GetFragmentFramesNum (dataLen b) mps
    \<and> concat (map (\<lambda>fr. buff_data (the (f_buff fr))) fs) = buff_data b
    \<and> (\<forall>j < length fs. sar (fs ! j) = sar_pattern (length fs) j \<and> f_ctx (fs ! j) = c
        \<and> dataLen (the (f_buff (fs ! j))) \<in> {1..mps}
        \<and> SDF_BuffHeadRoom (the (f_buff (fs ! j))) = 14 \<and> SDF_BuffTailRoom (the (f_buff (fs ! j))) = 2)"
proof -
  obtain fs where fs: "DTAP_FragmentFrame e (Some b) mps (getFrameType c) = Some (fs, length fs)"
    "length fs = length (chunks mps (buff_data b))"
    "\<forall>j < length fs. fragment_of c (sar_pattern (length fs) j) (chunks mps (buff_data b) ! j) (fs ! j)"
    using DTAP_FragmentFrame_ok [OF assms(1-4,6,7)] by auto
  have "map (\<lambda>fr. buff_data (the (f_buff fr))) fs = chunks mps (buff_data b)"
    using fs(2,3) by (intro nth_equalityI) (auto simp: fragment_of_def)
  then have "concat (map (\<lambda>fr. buff_data (the (f_buff fr))) fs) = buff_data b"
    by (simp add: concat_chunks)
  moreover have "length fs = DTAP_GetFragmentFramesNum (dataLen b) mps"
    using fs(2) DTAP_GetFragmentFramesNum_chunks assms by metis
  moreover have "dataLen (the (f_buff (fs ! j))) \<in> {1..mps}" if j: "j < length fs" for j
  proof -
    obtain bj where bj: "fs ! j = zero_frame\<lparr>f_ctx := c, f_buff := Some bj, sar := sar_pattern (length fs) j\<rparr>"
        "buff_ok bj" "buff_data bj = chunks mps (buff_data b) ! j"
      using fs(3) j by (auto simp: fragment_of_def)
    have "chunks mps (buff_data b) ! j \<in> set (chunks mps (buff_data b))"
      using fs(2) j by (metis nth_mem)
    from chunks_mem [OF this] bj show ?thesis
      using assms(5) length_buff_data [OF bj(2)] by (simp add: Suc_le_eq flip: length_greater_0_conv)
  qed
  ultimately show ?thesis
    using fs(1,3) by (intro exI [of _ fs]) (fastforce simp: fragment_of_def)
qed

theorem fragmentation_complete_witness:
  "\<exists>fs. DTAP_FragmentFrame (granting_env DTAP_SUCCESS) (Some (new_buff 1 0 10\<lparr>dataLen := 10\<rparr>)) 4 DTAP_FRAME_DUPLEX_FRAG
     = Some (fs, length fs) \<and> length fs = 3"
  using fragmentation_complete [of "granting_env DTAP_SUCCESS" "new_buff 1 0 10\<lparr>dataLen := 10\<rparr>" 4 DuplexFragFrameCtx]
  by (auto simp: buff_ok_def DTAP_GetFragmentFramesNum_def)

text \<open>A frame on its way: built by the sender, taken out of the link's buffer by the receiver's parser.\<close>

definition transmit :: "dtap_env \<Rightarrow> u8 \<Rightarrow> u16 \<Rightarrow> DTAP_Frame \<Rightarrow> DTAP_Frame option" where
  "transmit e tcid crcInit fr = do {
     (ret, g) \<leftarrow> buildFrame e (f_ctx fr) fr tcid crcInit;
     b \<leftarrow> f_buff g;
     (ret', rx) \<leftarrow> DTAP_ParseFrame (hdr_frameType (buff_data b ! 1)) b zero_frame;
     if ret = DTAP_SUCCESS \<and> ret' = DTAP_SUCCESS \<and> CRC16 crcInit (buff_data b) = 0 then Some rx else None
   }"

lemma transmit_fragment:
  fixes pid :: u8
  assumes "fragment_of c s d fr0" "c \<in> {SimplexFragFrameCtx, DuplexFragFrameCtx}" "s \<le> 3"
    and "length d \<le> 65528" "sq \<le> DTAP_FRAME_SEQ_MAX" "rq \<le> DTAP_FRAME_SEQ_MAX"
  defines "fr \<equiv> fr0\<lparr>f_bits := DTAP_FRAME_C_BIT, f_pi := pid, txSeq := sq, reqSeq := rq\<rparr>"
  shows "\<exists>rx. transmit e tcid crcInit fr = Some rx \<and> carries rx s d \<and> txSeq rx = sq \<and> f_pi rx = pid"
proof -
  obtain b where b: "f_buff fr = Some b" "f_ctx fr = c" "sar fr = s" "txSeq fr = sq" "reqSeq fr = rq"
      "f_pi fr = pid" "buff_ok b" "buff_data b = d" "9 \<le> SDF_BuffHeadRoom b" "7 \<le> SDF_BuffHeadRoom b"
      "2 \<le> SDF_BuffTailRoom b" "buffLen b = length d + 16"
    using assms(1) by (auto simp: fragment_of_def fr_def)
  have dl: "dataLen b = length d" using b(7,8) length_buff_data by fastforce
  obtain b' hdr rx where r: "buildFrame e c fr tcid crcInit = Some (DTAP_SUCCESS, fr\<lparr>f_buff := Some b'\<rparr>)"
      "buff_ok b'" "buff_data b' = frame_image crcInit hdr d" "buffLen b' = buffLen b"
      "received_as b' crcInit c d rx" "txSeq rx = sq" "sar rx = s" "f_pi rx = pid"
  proof (cases "c = DuplexFragFrameCtx")
    case True
    obtain b' old where b': "DTAP_BuildDuplexFragFrame fr tcid crcInit = Some (DTAP_SUCCESS, fr\<lparr>f_buff := Some b'\<rparr>)"
      "buff_ok b'" "buff_data b' = frame_image crcInit (DuplexFragHeader fr tcid (dataLen b) old) (buff_data b)"
      "buffLen b' = buffLen b"
      using DTAP_BuildDuplexFragFrame_Some [OF b(1,7,9,11)] by metis
    with duplex_image_received [of b' crcInit fr tcid d old] assms(3-6) True b dl that
    show thesis by auto
  next
    case False
    obtain b' old where b': "DTAP_BuildSimplexFragFrame fr tcid crcInit = Some (DTAP_SUCCESS, fr\<lparr>f_buff := Some b'\<rparr>)"
      "buff_ok b'" "buff_data b' = frame_image crcInit (SimplexFragHeader fr tcid (dataLen b) old) (buff_data b)"
      "buffLen b' = buffLen b"
      using DTAP_BuildSimplexFragFrame_Some [OF b(1,7,10,11)] by metis
    with simplex_image_received [of b' crcInit fr tcid d old] assms(2-6) False b dl that
    show thesis by auto
  qed
  have p: "DTAP_ParseFrame (hdr_frameType (buff_data b' ! 1)) b' zero_frame = Some (DTAP_SUCCESS, rx)"
      "f_ctx rx = c" "payloadLen rx = length d" "4 \<le> dataLen b'"
    using r(5) by (auto simp: received_as_def)
  have dl': "dataLen b' = length hdr + length d + 2"
    using length_buff_data [OF r(2)] r(3) by (simp add: frame_image_def)
  have "unat (DECODE2BYTE_LITTLE (buff_data b' ! 2) (buff_data b' ! 3)) < 2 ^ LENGTH(16)"
    by (rule unsigned_less)
  moreover have "unat (DECODE2BYTE_LITTLE (buff_data b' ! 2) (buff_data b' ! 3)) + 4 = dataLen b'"
    using r(5) by (simp add: received_as_def)
  ultimately have le: "dataLen b' \<le> 65539" by simp
  from DTAP_ParseFrame_safe [OF r(2) p(4) le, of "hdr_frameType (buff_data b' ! 1)"] p(1)
  have "frame_at rx b'" "frame_tiles rx b'" by auto
  then have "f_buff rx = Some b'" "length hdr = headerLen rx + extensionLen rx"
    using p assms(2) dl' by (auto simp: frame_at_def frame_tiles_def)
  then have "carries rx s d"
    unfolding carries_def using r(2-4,7) b(12) assms(4)
    by (intro conjI exI [of _ b'] exI [of _ hdr] exI [of _ "ENCODE2BYTE_LITTLE (CRC16 crcInit (hdr @ d))"])
      (simp_all add: frame_image_def)
  moreover have "transmit e tcid crcInit fr = Some rx"
    using r(1,3) p(1) b(2) by (simp add: transmit_def)
  ultimately show ?thesis using r(6,8) by blast
qed

text \<open>
  (C7) Fragmentation, transmission and reassembly compose to the identity: cut into frames, built,
  parsed and handed to \<open>DTAP_RecvFragmentFrame\<close> in order, an SDU reaches the upper layer exactly once and
  unchanged, every step succeeds, and the reassembly buffer is empty again.
\<close>

theorem fragment_transport_reassemble:
  assumes "alloc_ok e" "buff_ok b" "0 < dataLen b" "dataLen b \<le> 65535" "0 < mps" "mps \<le> 65528"
    and "DTAP_GetFragmentFramesNum (dataLen b) mps \<le> DTAP_MAX_FRAGMENT_NUM"
    and "c \<in> {SimplexFragFrameCtx, DuplexFragFrameCtx}"
    and "\<And>j. sq j \<le> DTAP_FRAME_SEQ_MAX" "rq \<le> DTAP_FRAME_SEQ_MAX"
    and "\<And>p. env_recv e p \<noteq> DTAP_TRANS_RELIABLE_TRANS_CHANNEL_FULL"
  shows "\<exists>fs rs r. DTAP_FragmentFrame e (Some b) mps (getFrameType c) = Some (fs, length fs)
    \<and> length rs = length fs
    \<and> (\<forall>j < length fs. transmit e tcid crcInit
          ((fs ! j)\<lparr>f_bits := DTAP_FRAME_C_BIT, f_pi := pid, txSeq := sq j, reqSeq := rq\<rparr>) = Some (rs ! j))
    \<and> recv_fragments e 0 None rs info (Some cb) = Some (replicate (length fs) DTAP_SUCCESS, None,
        [\<lparr>up_cb = cb, up_info = info, up_data = buff_data b, up_result = r\<rparr>])"
proof -
  let ?ch = "chunks mps (buff_data b)"
  obtain fs where fs: "DTAP_FragmentFrame e (Some b) mps (getFrameType c) = Some (fs, length fs)"
    "length fs = length ?ch"
    "\<forall>j < length fs. fragment_of c (sar_pattern (length fs) j) (?ch ! j) (fs ! j)"
    using DTAP_FragmentFrame_ok [OF assms(1-4,7,8)] by auto
  define tr where "tr = (\<lambda>j. transmit e tcid crcInit
    ((fs ! j)\<lparr>f_bits := DTAP_FRAME_C_BIT, f_pi := pid, txSeq := sq j, reqSeq := rq\<rparr>))"
  have tr: "\<exists>rx. tr j = Some rx \<and> carries rx (sar_pattern (length fs) j) (?ch ! j)" if j: "j < length fs" for j
  proof -
    have "?ch ! j \<in> set ?ch" using j fs(2) by simp
    then have "length (?ch ! j) \<le> 65528" using chunks_mem assms(5,6) by fastforce
    moreover have "sar_pattern (length fs) j \<le> 3" by (simp add: sar_pattern_def)
    ultimately show ?thesis
      using transmit_fragment [OF fs(3) [rule_format, OF j] assms(8), of "sq j" rq e tcid crcInit pid]
        assms(9,10) by (auto simp: tr_def)
  qed
  define rs where "rs = map (\<lambda>j. the (tr j)) [0..<length fs]"
  have rs: "length rs = length fs"
      "\<forall>j < length fs. tr j = Some (rs ! j) \<and> carries (rs ! j) (sar_pattern (length fs) j) (?ch ! j)"
    using tr by (force simp: rs_def)+
  have "buff_data b \<noteq> []" using assms(2,3) by (metis length_buff_data length_greater_0_conv)
  then have ne: "?ch \<noteq> []" using chunks_unfold by (metis list.discI)
  have "length (concat ?ch) \<le> 65535" using assms(2,4) by (simp add: concat_chunks)
  with recv_fragments_all [of rs ?ch e 0 info cb] rs fs(2) ne assms(1,11)
  obtain r where "recv_fragments e 0 None rs info (Some cb) =
    Some (replicate (length rs) DTAP_SUCCESS, None,
      [\<lparr>up_cb = cb, up_info = info, up_data = concat ?ch, up_result = r\<rparr>])" by auto
  then show ?thesis
    using fs(1) rs by (auto simp: concat_chunks tr_def)
qed

theorem fragment_transport_reassemble_witness:
  "\<exists>fs rs r. DTAP_FragmentFrame (granting_env DTAP_SUCCESS) (Some (new_buff 1 0 10\<lparr>dataLen := 10\<rparr>)) 4 DTAP_FRAME_DUPLEX_FRAG
      = Some (fs, length fs) \<and> length rs = length fs
    \<and> recv_fragments (granting_env DTAP_SUCCESS) 0 None rs \<lparr>info_pi = 1, info_lcid = 2, info_tcid = 3\<rparr> (Some 4)
      = Some (replicate (length fs) DTAP_SUCCESS, None,
        [\<lparr>up_cb = 4, up_info = \<lparr>info_pi = 1, info_lcid = 2, info_tcid = 3\<rparr>,
          up_data = replicate 10 0, up_result = r\<rparr>])"
proof -
  have d: "buff_data (new_buff 1 0 10\<lparr>dataLen := 10\<rparr>) = replicate 10 0" by (simp add: buff_data_def)
  show ?thesis
    using fragment_transport_reassemble [of "granting_env DTAP_SUCCESS" "new_buff 1 0 10\<lparr>dataLen := 10\<rparr>" 4
        DuplexFragFrameCtx "\<lambda>_. 0" 0 0 0 1 "\<lparr>info_pi = 1, info_lcid = 2, info_tcid = 3\<rparr>" 4]
    unfolding d by (auto simp: buff_ok_def DTAP_GetFragmentFramesNum_def)
qed

section \<open>Aggregate frames: lemmas\<close>

text \<open>The payload of an aggregate frame: every SDU behind its 16-bit length.\<close>

fun agg_bytes :: "bytes list \<Rightarrow> bytes" where
  "agg_bytes [] = []"
| "agg_bytes (d # ds) = ENCODE2BYTE_LITTLE (of_nat (length d)) @ d @ agg_bytes ds"

definition holds_at :: "SDF_Buff list \<Rightarrow> ptr \<Rightarrow> bytes \<Rightarrow> bool" where
  "holds_at live p xs \<longleftrightarrow>
     (\<forall>i n. i + n \<le> length xs \<longrightarrow> deref live (ptr_add p i) n = Some (take n (drop i xs)))"

lemma holds_at_drop: "holds_at live p (xs @ ys) \<Longrightarrow> holds_at live (ptr_add p (length xs)) ys"
  unfolding holds_at_def
proof (intro allI impI)
  fix i n
  assume h: "\<forall>i n. i + n \<le> length (xs @ ys) \<longrightarrow> deref live (ptr_add p i) n = Some (take n (drop i (xs @ ys)))"
    and le: "i + n \<le> length ys"
  have "ptr_add (ptr_add p (length xs)) i = ptr_add p (length xs + i)" by (simp add: ptr_add_def add.assoc)
  then show "deref live (ptr_add (ptr_add p (length xs)) i) n = Some (take n (drop i ys))"
    using h [rule_format, of "length xs + i" n] le by simp
qed

definition sdu_ok :: "bytes \<Rightarrow> bool" where
  "sdu_ok d \<longleftrightarrow> 0 < length d \<and> length d < 65536"

text \<open>One round of the loop at a well formed SDU of which the loop sees \<open>tot\<close> bytes.\<close>

lemma agg_loop_step:
  fixes k cb :: nat and info :: DTAP_Data_Info
  assumes h: "holds_at live p (agg_bytes (d # ds))" and d: "sdu_ok d" and e: "alloc_ok e"
    and tot: "2 + length d \<le> tot"
  defines "r \<equiv> call_recv (sub (sub e k) 1)"
  defines "up \<equiv> \<lparr>up_cb = cb, up_info = info, up_data = d, up_result = r\<rparr>"
  shows "agg_loop e k live cb info p tot =
    (if r = DTAP_TRANS_RELIABLE_TRANS_CHANNEL_FULL
     then Some (DTAP_TRANS_RELIABLE_TRANS_CHANNEL_FULL, Some (p, tot - 2), [up])
     else if tot - 2 - length d > 0 then do {
       (ret, pos, ups) \<leftarrow> agg_loop e (Suc k) live cb info (ptr_add p (2 + length d)) (tot - 2 - length d);
       Some (ret, pos, up # ups)
     }
     else Some (DTAP_SUCCESS, None, [up]))"
proof -
  have "deref live (ptr_add p 0) 2 = Some (ENCODE2BYTE_LITTLE (of_nat (length d)))"
    using h unfolding holds_at_def by (simp add: ENCODE2BYTE_LITTLE_def numeral_2_eq_2)
  then have w: "read_u16 live p 0 = Some (of_nat (length d))"
    by (simp add: read_u16_def) (simp add: ENCODE2BYTE_LITTLE_def)
  have n: "unat (of_nat (length d) :: u16) = length d"
    using d by (intro unat_of_nat_u16) (simp add: sdu_ok_def)
  obtain b0 where b0: "SDF_BuffNew (sub (sub e k) 0) (length d) = Some b0"
    using SDF_BuffNew_ok [of "sub (sub e k) 0" "length d"] e by auto
  note i0 = SDF_BuffNew_SomeD [OF b0]
  obtain off b1 where ap: "SDF_BuffAppend (Some b0) (length d) = Some (off, b1)"
      "\<And>bs. length bs = length d \<Longrightarrow> mem_write b1 off bs = append_bytes b0 bs"
    using append_obtain [of "length d" b0] i0 by auto
  obtain b2 where b2: "append_bytes b0 d = Some b2" "buff_data b2 = d"
    using append_bytes_ex [of b0 d] i0 by auto
  have dd: "deref live (ptr_add p 2) (length d) = Some d"
    using h unfolding holds_at_def by (simp add: ENCODE2BYTE_LITTLE_def)
  have "\<not> tot - 2 < length d" using tot by linarith
  then show ?thesis
    using w n b0 ap b2 dd d tot
    by (simp add: agg_loop.simps [of e k live cb info p tot] Let_def sdu_ok_def up_def r_def)
qed

lemma agg_loop_all:
  assumes "holds_at live p (agg_bytes ds)" "ds \<noteq> []" "\<forall>d \<in> set ds. sdu_ok d" "alloc_ok e"
    and nf: "\<And>q. env_recv e q \<noteq> DTAP_TRANS_RELIABLE_TRANS_CHANNEL_FULL"
  shows "\<exists>ups. agg_loop e k live cb info p (length (agg_bytes ds)) = Some (DTAP_SUCCESS, None, ups)
    \<and> map up_data ups = ds \<and> (\<forall>u \<in> set ups. up_cb u = cb \<and> up_info u = info \<and> accepted u)"
  using assms(1-3)
proof (induction ds arbitrary: p k)
  case (Cons d ds)
  have r: "call_recv (sub (sub e k) 1) \<noteq> DTAP_TRANS_RELIABLE_TRANS_CHANNEL_FULL"
    using nf by (simp add: call_recv_def)
  have ok: "sdu_ok d" using Cons.prems by simp
  have hd: "holds_at live (ptr_add p (2 + length d)) (agg_bytes ds)"
    using holds_at_drop [of live p "ENCODE2BYTE_LITTLE (of_nat (length d)) @ d" "agg_bytes ds"]
      Cons.prems(1) by simp
  note st = agg_loop_step [OF Cons.prems(1) ok assms(4), of "length (agg_bytes (d # ds))" k cb info]
  show ?case
  proof (cases "ds = []")
    case True
    then show ?thesis using st r by simp
  next
    case False
    then obtain d' ds' where "ds = d' # ds'" by (cases ds) auto
    then have pos: "0 < length (agg_bytes ds)" by simp
    obtain ups where "agg_loop e (Suc k) live cb info (ptr_add p (2 + length d)) (length (agg_bytes ds))
        = Some (DTAP_SUCCESS, None, ups)" "map up_data ups = ds"
        "\<forall>u \<in> set ups. up_cb u = cb \<and> up_info u = info \<and> accepted u"
      using Cons.IH [OF hd False] Cons.prems(3) by auto
    with st r pos show ?thesis by simp
  qed
qed simp

text \<open>The loop when the last two bytes of the payload are hidden from it.\<close>

lemma agg_loop_short:
  assumes "holds_at live p (agg_bytes ds)" "ds \<noteq> []" "\<forall>d \<in> set ds. sdu_ok d" "alloc_ok e"
    and nf: "\<And>q. env_recv e q \<noteq> DTAP_TRANS_RELIABLE_TRANS_CHANNEL_FULL"
  shows "\<exists>ret ups. agg_loop e k live cb info p (length (agg_bytes ds) - 2) = Some (ret, None, ups)
    \<and> ret \<in> {DTAP_ENHANCED_FRAME_SDU_HDR_LEN_TOO_SHORT, DTAP_ENHANCED_FRAME_SDU_LEN_TOO_SHORT}
    \<and> map up_data ups = butlast ds"
  using assms(1-3)
proof (induction ds arbitrary: p k)
  case (Cons d ds)
  have r: "call_recv (sub (sub e k) 1) \<noteq> DTAP_TRANS_RELIABLE_TRANS_CHANNEL_FULL"
    using nf by (simp add: call_recv_def)
  have ok: "sdu_ok d" using Cons.prems by simp
  have hd: "holds_at live (ptr_add p (2 + length d)) (agg_bytes ds)"
    using holds_at_drop [of live p "ENCODE2BYTE_LITTLE (of_nat (length d)) @ d" "agg_bytes ds"]
      Cons.prems(1) by simp
  show ?case
  proof (cases "ds = []")
    case True
    have "deref live (ptr_add p 0) 2 = Some (ENCODE2BYTE_LITTLE (of_nat (length d)))"
      using Cons.prems(1) unfolding holds_at_def by (simp add: ENCODE2BYTE_LITTLE_def numeral_2_eq_2)
    then have w: "read_u16 live p 0 = Some (of_nat (length d))"
      by (simp add: read_u16_def) (simp add: ENCODE2BYTE_LITTLE_def)
    have n: "unat (of_nat (length d) :: u16) = length d"
      using ok by (intro unat_of_nat_u16) (simp add: sdu_ok_def)
    show ?thesis
      using True w n ok by (simp add: agg_loop.simps [of e k live cb info p] Let_def sdu_ok_def)
  next
    case False
    then obtain d' ds' where ds: "ds = d' # ds'" by (cases ds) auto
    then have pos: "2 < length (agg_bytes ds)" using Cons.prems(3) by (simp add: sdu_ok_def)
    note st = agg_loop_step [OF Cons.prems(1) ok assms(4), of "length (agg_bytes (d # ds)) - 2" k cb info]
    obtain ret ups where "agg_loop e (Suc k) live cb info (ptr_add p (2 + length d)) (length (agg_bytes ds) - 2)
        = Some (ret, None, ups)" "map up_data ups = butlast ds"
        "ret \<in> {DTAP_ENHANCED_FRAME_SDU_HDR_LEN_TOO_SHORT, DTAP_ENHANCED_FRAME_SDU_LEN_TOO_SHORT}"
      using Cons.IH [OF hd False, of "Suc k"] Cons.prems(3) by auto
    moreover have "length (agg_bytes (d # ds)) - 2 - 2 - length d = length (agg_bytes ds) - 2" by simp
    ultimately show ?thesis using st r pos False by simp
  qed
qed simp

text \<open> An aggregate frame delivers its SDUs: when the payload holds the SDUs \<open>ds\<close>, each behind its
  length, and the upper layer accepts them, \<open>DTAP_RecvAggregateFrame\<close> hands every SDU to the callback,
  unchanged, exactly once and in order, and succeeds.
\<close>

theorem aggregate_delivers_all:
  assumes "f_payload fr = Some p" "holds_at live p (agg_bytes ds)" "payloadLen fr = length (agg_bytes ds)"
    and "ds \<noteq> []" "\<forall>d \<in> set ds. sdu_ok d" "alloc_ok e"
    and "\<And>q. env_recv e q \<noteq> DTAP_TRANS_RELIABLE_TRANS_CHANNEL_FULL"
  shows "\<exists>ups. DTAP_RecvAggregateFrame e live fr info (Some cb) = Some (DTAP_SUCCESS, fr, ups)
    \<and> map up_data ups = ds \<and> (\<forall>u \<in> set ups. up_cb u = cb \<and> up_info u = info \<and> accepted u)"
proof -
  obtain ups where "agg_loop e 0 live cb info p (length (agg_bytes ds)) = Some (DTAP_SUCCESS, None, ups)"
    "map up_data ups = ds" "\<forall>u \<in> set ups. up_cb u = cb \<and> up_info u = info \<and> accepted u"
    using agg_loop_all [OF assms(2,4-7)] by metis
  moreover have "length (agg_bytes ds) \<noteq> 0" using assms(4) by (cases ds) auto
  ultimately show ?thesis using assms(1,3) by (simp add: DTAP_RecvAggregateFrame_def)
qed

theorem aggregate_delivers_all_witness:
  "\<exists>ups. DTAP_RecvAggregateFrame (granting_env DTAP_SUCCESS)
      [\<lparr>buff_addr = 1, dataOff = 0, dataLen = 7, buffLen = 7, buff = [2, 0, 7, 8, 1, 0, 9]\<rparr>]
      (zero_frame\<lparr>f_payload := Some (1, 0), payloadLen := 7\<rparr>)
      \<lparr>info_pi = 1, info_lcid = 2, info_tcid = 3\<rparr> (Some 4)
    = Some (DTAP_SUCCESS, zero_frame\<lparr>f_payload := Some (1, 0), payloadLen := 7\<rparr>, ups)
    \<and> map up_data ups = [[7, 8], [9]]"
proof -
  let ?b = "\<lparr>buff_addr = 1, dataOff = 0, dataLen = 7, buffLen = 7, buff = [2, 0, 7, 8, 1, 0, 9]\<rparr>"
  have bs: "agg_bytes [[7, 8], [9]] = [2, 0, 7, 8, 1, 0, 9]" by (simp add: ENCODE2BYTE_LITTLE_def)
  have "holds_at [?b] (1, 0) (agg_bytes [[7, 8], [9]])"
    unfolding bs by (simp add: holds_at_def ptr_add_def mem_read_def)
  then show ?thesis
    using aggregate_delivers_all [of "zero_frame\<lparr>f_payload := Some (1, 0), payloadLen := 7\<rparr>" "(1, 0)" "[?b]"
        "[[7, 8], [9]]" "granting_env DTAP_SUCCESS" "\<lparr>info_pi = 1, info_lcid = 2, info_tcid = 3\<rparr>" 4]
    unfolding bs by (auto simp: sdu_ok_def)
qed

text \<open>
  (C32) A full upper layer costs an SDU: when the callback refuses the first of the SDUs that are left, the frame
  keeps its place but \<open>payloadLen\<close> is two bytes short of the payload that is left, so the next call
  over the SDUs that are left delivers all but the last of them and reports a length error.
\<close>

theorem aggregate_retry_drops_last:
  assumes "f_payload fr = Some p" "holds_at live p (agg_bytes ds)" "payloadLen fr = length (agg_bytes ds)"
    and "ds \<noteq> []" "\<forall>d \<in> set ds. sdu_ok d" "alloc_ok e" "alloc_ok e'"
    and "env_recv e (1 # 0 # env_path e) = DTAP_TRANS_RELIABLE_TRANS_CHANNEL_FULL"
    and "\<And>q. env_recv e' q \<noteq> DTAP_TRANS_RELIABLE_TRANS_CHANNEL_FULL"
    and "length (agg_bytes ds) < 65536"
  shows "\<exists>fr' up ret ups.
    DTAP_RecvAggregateFrame e live fr info (Some cb) = Some (DTAP_TRANS_RELIABLE_TRANS_CHANNEL_FULL, fr', [up])
    \<and> up_data up = hd ds
    \<and> DTAP_RecvAggregateFrame e' live fr' info (Some cb) = Some (ret, fr', ups)
    \<and> ret \<noteq> DTAP_SUCCESS \<and> map up_data ups = butlast ds"
proof -
  obtain d ds' where ds: "ds = d # ds'" using assms(4) by (cases ds) auto
  have ok: "sdu_ok d" using assms(5) ds by simp
  let ?fr = "fr\<lparr>f_payload := Some p, payloadLen := length (agg_bytes ds) - 2\<rparr>"
  have r: "call_recv (sub (sub e 0) 1) = DTAP_TRANS_RELIABLE_TRANS_CHANNEL_FULL"
    using assms(8) by (simp add: call_recv_def sub_def)
  have "DTAP_RecvAggregateFrame e live fr info (Some cb) = Some (DTAP_TRANS_RELIABLE_TRANS_CHANNEL_FULL, ?fr,
      [\<lparr>up_cb = cb, up_info = info, up_data = d, up_result = DTAP_TRANS_RELIABLE_TRANS_CHANNEL_FULL\<rparr>])"
    using agg_loop_step [of live p d ds' e "payloadLen fr" 0 cb info] assms(1-3,6) r ok ds
    by (simp add: DTAP_RecvAggregateFrame_def)
  moreover obtain ret ups where "agg_loop e' 0 live cb info p (length (agg_bytes ds) - 2) = Some (ret, None, ups)"
    "ret \<noteq> DTAP_SUCCESS" "map up_data ups = butlast ds"
    using agg_loop_short [OF assms(2,4,5,7,9), of 0 cb info] by auto
  moreover have "length (agg_bytes ds) - 2 \<noteq> 0" using ok ds by (simp add: sdu_ok_def)
  ultimately show ?thesis
    using ds by (simp add: DTAP_RecvAggregateFrame_def)
qed

theorem aggregate_retry_drops_last_witness:
  "\<exists>fr' up ret ups.
    DTAP_RecvAggregateFrame (granting_env DTAP_TRANS_RELIABLE_TRANS_CHANNEL_FULL)
      [\<lparr>buff_addr = 1, dataOff = 0, dataLen = 7, buffLen = 7, buff = [2, 0, 7, 8, 1, 0, 9]\<rparr>]
      (zero_frame\<lparr>f_payload := Some (1, 0), payloadLen := 7\<rparr>)
      \<lparr>info_pi = 1, info_lcid = 2, info_tcid = 3\<rparr> (Some 4)
      = Some (DTAP_TRANS_RELIABLE_TRANS_CHANNEL_FULL, fr', [up])
    \<and> DTAP_RecvAggregateFrame (granting_env DTAP_SUCCESS)
      [\<lparr>buff_addr = 1, dataOff = 0, dataLen = 7, buffLen = 7, buff = [2, 0, 7, 8, 1, 0, 9]\<rparr>]
      fr' \<lparr>info_pi = 1, info_lcid = 2, info_tcid = 3\<rparr> (Some 4) = Some (ret, fr', ups)
    \<and> map up_data ups = [[7, 8]]"
proof -
  let ?b = "\<lparr>buff_addr = 1, dataOff = 0, dataLen = 7, buffLen = 7, buff = [2, 0, 7, 8, 1, 0, 9]\<rparr>"
  have bs: "agg_bytes [[7, 8], [9]] = [2, 0, 7, 8, 1, 0, 9]" by (simp add: ENCODE2BYTE_LITTLE_def)
  have "holds_at [?b] (1, 0) (agg_bytes [[7, 8], [9]])"
    unfolding bs by (simp add: holds_at_def ptr_add_def mem_read_def)
  then show ?thesis
    using aggregate_retry_drops_last [of "zero_frame\<lparr>f_payload := Some (1, 0), payloadLen := 7\<rparr>" "(1, 0)" "[?b]"
        "[[7, 8], [9]]" "granting_env DTAP_TRANS_RELIABLE_TRANS_CHANNEL_FULL" "granting_env DTAP_SUCCESS"
        "\<lparr>info_pi = 1, info_lcid = 2, info_tcid = 3\<rparr>" 4]
    unfolding bs by (auto simp: sdu_ok_def)
qed

text \<open> A refused fragment frame is trimmed twice: \<open>DTAP_RecvFragmentFrame\<close> removes header and checksum from
  the frame's own buffer before it calls the upper layer, so when the upper layer is full and the same
  frame is handed in again, the SDU delivered then has lost another header length at its front and two
  more bytes at its end.
\<close>

theorem fragment_retry_truncates:
  assumes "carries fr DTAP_SAR_UNSEG d" "headerLen fr + extensionLen fr + 2 \<le> length d"
    and "env_recv e (0 # env_path e) = DTAP_TRANS_RELIABLE_TRANS_CHANNEL_FULL"
  shows "\<exists>fr' up ret fr'' up'.
    DTAP_RecvFragmentFrame e buffs fr info (Some cb)
      = Some (DTAP_TRANS_RELIABLE_TRANS_CHANNEL_FULL, buffs, fr', [up]) \<and> up_data up = d
    \<and> DTAP_RecvFragmentFrame e' buffs fr' info (Some cb) = Some (ret, buffs, fr'', [up'])
    \<and> up_data up' = take (length d - (headerLen fr + extensionLen fr) - 2) (drop (headerLen fr + extensionLen fr) d)"
proof -
  let ?h = "headerLen fr + extensionLen fr"
  obtain off b1 b where t: "SDF_BuffTrimPrefix (f_buff fr) ?h = Some (off, b1)"
    "SDF_BuffTrimSuffix (Some b1) 2 = Some b" "buff_ok b" "buff_data b = d"
    using carries_trim [OF assms(1)] by metis
  have dl: "dataLen b = length d" using t(3,4) length_buff_data by fastforce
  obtain off' b2 where b2: "SDF_BuffTrimPrefix (Some b) ?h = Some (off', b2)"
    using dl assms(2) by simp
  note t2 = SDF_BuffTrimPrefix_Some [OF b2 t(3)]
  have "\<not> dataLen b2 < 2" using t2(4) dl assms(2) by linarith
  then obtain b3 where b3: "SDF_BuffTrimSuffix (Some b2) 2 = Some b3" by simp
  note t3 = SDF_BuffTrimSuffix_Some [OF b3 t2(1)]
  have d3: "buff_data b3 = take (length d - ?h - 2) (drop ?h d)"
    using t2(2,4) t3(2) t(4) dl by simp
  have s: "sar fr = DTAP_SAR_UNSEG" using assms(1) by (simp add: carries_def)
  have r: "call_recv (sub e 0) = DTAP_TRANS_RELIABLE_TRANS_CHANNEL_FULL"
    using assms(3) by (simp add: call_recv_def sub_def)
  have "DTAP_RecvFragmentFrame e buffs fr info (Some cb) =
      Some (DTAP_TRANS_RELIABLE_TRANS_CHANNEL_FULL, buffs, fr\<lparr>f_buff := Some b\<rparr>,
        [\<lparr>up_cb = cb, up_info = info, up_data = d, up_result = DTAP_TRANS_RELIABLE_TRANS_CHANNEL_FULL\<rparr>])"
    using t s r by (simp add: DTAP_RecvFragmentFrame_def call_cb_def frag_result_def Let_def)
  moreover have "DTAP_RecvFragmentFrame e' buffs (fr\<lparr>f_buff := Some b\<rparr>) info (Some cb) =
      Some (frag_result DTAP_SUCCESS (call_recv (sub e' 0)), buffs, fr\<lparr>f_buff := Some b3\<rparr>,
        [\<lparr>up_cb = cb, up_info = info, up_data = buff_data b3, up_result = call_recv (sub e' 0)\<rparr>])"
    using b2 b3 s by (simp add: DTAP_RecvFragmentFrame_def call_cb_def Let_def)
  ultimately show ?thesis using d3 by auto
qed

theorem fragment_retry_truncates_witness:
  "\<exists>fr' up ret fr'' up'.
    DTAP_RecvFragmentFrame (granting_env DTAP_TRANS_RELIABLE_TRANS_CHANNEL_FULL) None
      (zero_frame\<lparr>headerLen := 1, f_buff := Some \<lparr>buff_addr = 1, dataOff = 0, dataLen = 7, buffLen = 7,
         buff = [0xF0, 1, 2, 3, 4, 0xC0, 0xC1]\<rparr>\<rparr>) \<lparr>info_pi = 1, info_lcid = 2, info_tcid = 3\<rparr> (Some 4)
      = Some (DTAP_TRANS_RELIABLE_TRANS_CHANNEL_FULL, None, fr', [up]) \<and> up_data up = [1, 2, 3, 4]
    \<and> DTAP_RecvFragmentFrame (granting_env DTAP_SUCCESS) None fr' \<lparr>info_pi = 1, info_lcid = 2, info_tcid = 3\<rparr> (Some 4)
      = Some (ret, None, fr'', [up']) \<and> up_data up' = [2]"
proof -
  let ?b = "\<lparr>buff_addr = 1, dataOff = 0, dataLen = 7, buffLen = 7, buff = [0xF0, 1, 2, 3, 4, 0xC0, 0xC1]\<rparr>"
  let ?fr = "zero_frame\<lparr>headerLen := 1, f_buff := Some ?b\<rparr>"
  have "carries ?fr DTAP_SAR_UNSEG [1, 2, 3, 4]"
    unfolding carries_def
    by (intro conjI exI [of _ ?b] exI [of _ "[0xF0]"] exI [of _ "[0xC0, 0xC1]"])
      (simp_all add: zero_frame_def buff_ok_def buff_data_def)
  then show ?thesis
    using fragment_retry_truncates [of ?fr "[1, 2, 3, 4]" "granting_env DTAP_TRANS_RELIABLE_TRANS_CHANNEL_FULL"
        None "\<lparr>info_pi = 1, info_lcid = 2, info_tcid = 3\<rparr>" 4 "granting_env DTAP_SUCCESS"]
    by (auto simp: zero_frame_def)
qed

text \<open> A copied aggregate frame dangles: \<open>DTAP_CopyFrame\<close> gives the copy its own buffer but keeps the payload
  pointer into the buffer of the source, so once that buffer is freed (only the copy's own buffer is
  live) taking the SDUs out of the copy reads freed memory.
\<close>

theorem copied_aggregate_dangles:
  assumes "DTAP_CopyFrame e fr = Some fr'" "f_buff fr = Some b" "f_payload fr = Some p"
    and "fst p = buff_addr b" "env_alloc e (1 # env_path e) \<noteq> Some (buff_addr b)" "2 \<le> payloadLen fr"
  shows "\<exists>b'. f_buff fr' = Some b' \<and> buff_data b' = buff_data b
    \<and> DTAP_RecvAggregateFrame e' [b'] fr' info (Some cb) = None"
proof -
  obtain b' where b': "SDF_BuffCopy (sub e 1) (Some b) = Some b'" "fr' = fr\<lparr>f_buff := Some b'\<rparr>"
    using assms(1,2) by (auto simp: DTAP_CopyFrame_def split: option.splits)
  note c = SDF_BuffCopy_Some [OF b'(1)]
  have "buff_addr b' \<noteq> fst p"
    using c(6) assms(4,5) by (auto simp: SDF_MemZalloc_def sub_def)
  then have "read_u16 [b'] p 0 = None" by (simp add: read_u16_def ptr_add_def)
  then have "agg_loop e' 0 [b'] cb info p (payloadLen fr) = None"
    using assms(6) by (simp add: agg_loop.simps [of e' 0 "[b']"])
  then show ?thesis
    using b' c(1) assms(3,6) by (simp add: DTAP_RecvAggregateFrame_def)
qed

theorem copied_aggregate_dangles_witness:
  "\<exists>fr' b'. DTAP_CopyFrame (granting_env DTAP_SUCCESS)
      (zero_frame\<lparr>f_payload := Some (7, 0), payloadLen := 3,
         f_buff := Some \<lparr>buff_addr = 7, dataOff = 0, dataLen = 3, buffLen = 3, buff = [1, 0, 9]\<rparr>\<rparr>) = Some fr'
    \<and> f_buff fr' = Some b' \<and> buff_data b' = [1, 0, 9]
    \<and> DTAP_RecvAggregateFrame (granting_env DTAP_SUCCESS) [b'] fr' \<lparr>info_pi = 1, info_lcid = 2, info_tcid = 3\<rparr> (Some 4) = None"
proof -
  let ?b = "\<lparr>buff_addr = 7, dataOff = 0, dataLen = 3, buffLen = 3, buff = [1, 0, 9]\<rparr>"
  let ?fr = "zero_frame\<lparr>f_payload := Some (7, 0), payloadLen := 3, f_buff := Some ?b\<rparr>"
  obtain fr' where "DTAP_CopyFrame (granting_env DTAP_SUCCESS) ?fr = Some fr'"
    by (simp add: DTAP_CopyFrame_def SDF_MemZalloc_def granting_env_def sub_def)
  with copied_aggregate_dangles [of "granting_env DTAP_SUCCESS" ?fr fr' ?b "(7, 0)" "granting_env DTAP_SUCCESS"
      "\<lparr>info_pi = 1, info_lcid = 2, info_tcid = 3\<rparr>" 4]
  show ?thesis by (auto simp: granting_env_def buff_data_def)
qed

end
