(* ===== verification/Dli_Layer.thy ===== *)
theory Dli_Layer
  imports Dtap_Frag
begin

text \<open>
  The data path of the data link interface layer (\<open>dli_layer.c\<close>, \<open>dli_layer_utils.c\<close>,
  \<open>dli_layer_config.c\<close>, \<open>dli_layer_callback.c\<close>): splitting an outgoing packet into controller sized
  fragments with in-place headers, and collecting received fragments per logical channel.
  The layer's whole state is one record; the command queue in it is used by the theory \<open>Dli_Cmd\<close>.
\<close>

section \<open>State\<close>

abbreviation (input) DLI_HEADER :: nat where "DLI_HEADER \<equiv> 5"
abbreviation (input) DLI_HEADER_WITHOUT_TYPE_SIZE :: nat where "DLI_HEADER_WITHOUT_TYPE_SIZE \<equiv> 4"
abbreviation (input) DLI_MAX_TXRX_DATA_LEN :: nat where "DLI_MAX_TXRX_DATA_LEN \<equiv> 102400"
abbreviation (input) DLI_MAX_FRAGMEN_NUM :: nat where "DLI_MAX_FRAGMEN_NUM \<equiv> 128"
abbreviation (input) DLI_DATA_MAX_CNT :: nat where "DLI_DATA_MAX_CNT \<equiv> 10000"
abbreviation (input) DLI_TRY_SEND_CNT :: nat where "DLI_TRY_SEND_CNT \<equiv> 3"
abbreviation (input) DLI_DEFAULT_CMD_NUM :: nat where "DLI_DEFAULT_CMD_NUM \<equiv> 1"

abbreviation (input) DLI_FULL_FRAGMENT :: u8 where "DLI_FULL_FRAGMENT \<equiv> 0"
abbreviation (input) DLI_FIRST_FRAGMENT :: u8 where "DLI_FIRST_FRAGMENT \<equiv> 1"
abbreviation (input) DLI_MIDDLE_FRAGMENT :: u8 where "DLI_MIDDLE_FRAGMENT \<equiv> 2"
abbreviation (input) DLI_LAST_FRAGMENT :: u8 where "DLI_LAST_FRAGMENT \<equiv> 3"

datatype DLI_errno =
    DLI_SUCCESS | DLI_STACK_INITED_ERRNO | DLI_STACK_PARAMS_ERRNO | DLI_STACK_MEM_ERRNO
  | DLI_POST_ERRNO

record DLI_DataStru =
  data_lcid :: u16
  data_type :: u8
  data_ts :: u8
  data_prio :: u8
  data_buf :: "SDF_Buff option"

record DLI_RecvDataNode =
  rn_lcid :: u16
  rn_pb :: u8
  rn_buf :: SDF_Buff

text \<open>
  A command: its parameter area starts with the five header bytes. The context pointer is a number,
  and \<open>timeoutCallback\<close> records whether one is set.
\<close>

record DLI_CmdStru =
  needErase :: bool
  ci_cmd :: u16
  ci_event :: u16
  parLen :: nat
  ci_context :: "nat option"
  timeoutCallback :: bool
  ci_par :: bytes

record DLI_CmdTxNode =
  cn_id :: nat
  isSent :: bool
  isRecvStatusEvt :: bool
  cn_handle :: int
  cn_info :: DLI_CmdStru

text \<open>
  \<open>g_info\<close>, \<open>g_txDataConfig\<close>, \<open>g_cmdNum\<close> and the registered callback, followed by what the layer has
  handed out: the data and the commands given to the driver, the packets given to the upper layer, and the
  data tasks posted to its own thread.
\<close>

record DLI_State =
  cmdTx :: "DLI_CmdTxNode list"
  dataRx :: "DLI_RecvDataNode list"
  pdFlag :: u8
  dli_inited :: bool
  acbLen :: nat
  acbNum :: nat
  icbLen :: nat
  icbNum :: nat
  g_cmdNum :: nat
  recvAcbHandler :: bool
  sapi_out :: "bytes list"
  cmd_out :: "bytes list"
  acb_up :: "(u16 \<times> bytes) list"
  dli_tasks :: "DLI_DataStru list"

definition DLI_CmdNumSet :: "nat \<Rightarrow> DLI_State \<Rightarrow> DLI_State" where
  "DLI_CmdNumSet num s = s\<lparr>g_cmdNum := to_u8 num\<rparr>"

definition DLI_LayerInfoInit :: "DLI_State \<Rightarrow> DLI_errno \<times> DLI_State" where
  "DLI_LayerInfoInit s =
     (if dli_inited s then (DLI_STACK_INITED_ERRNO, s)
      else (DLI_SUCCESS, (DLI_CmdNumSet DLI_DEFAULT_CMD_NUM
              (s\<lparr>cmdTx := [], dataRx := [], pdFlag := 255\<rparr>))\<lparr>dli_inited := True\<rparr>))"

definition DLI_LayerInfoDeInit :: "DLI_State \<Rightarrow> DLI_State" where
  "DLI_LayerInfoDeInit s =
     (if \<not> dli_inited s then s
      else (DLI_CmdNumSet DLI_DEFAULT_CMD_NUM s)\<lparr>cmdTx := [], dataRx := [], pdFlag := 255, dli_inited := False\<rparr>)"

definition DLI_AllDataSet :: "nat \<Rightarrow> nat \<Rightarrow> nat \<Rightarrow> nat \<Rightarrow> DLI_State \<Rightarrow> DLI_State" where
  "DLI_AllDataSet al an il inum s =
     s\<lparr>acbLen := to_u16 al, acbNum := to_u16 an, icbLen := to_u16 il, icbNum := to_u16 inum\<rparr>"

section \<open>Splitting a packet\<close>

definition DLI_PdFlagGet :: "nat \<Rightarrow> nat \<Rightarrow> DLI_State \<Rightarrow> u8 \<times> DLI_State" where
  "DLI_PdFlagGet remainLen oneSendLen s =
     (let flag =
        (if pdFlag s = DLI_FIRST_FRAGMENT \<or> pdFlag s = DLI_MIDDLE_FRAGMENT
         then (if remainLen > oneSendLen then DLI_MIDDLE_FRAGMENT else DLI_LAST_FRAGMENT)
         else if pdFlag s = DLI_LAST_FRAGMENT \<or> pdFlag s = DLI_FULL_FRAGMENT \<or> pdFlag s = 255
         then (if remainLen > oneSendLen then DLI_FIRST_FRAGMENT else DLI_FULL_FRAGMENT)
         else DLI_FIRST_FRAGMENT)
      in (flag, s\<lparr>pdFlag := flag\<rparr>))"

text \<open>A null buffer yields the error number itself, \<open>perr\<close>, as a count.\<close>

definition DLI_GetDataFragmentNums :: "nat \<Rightarrow> DLI_State \<Rightarrow> SDF_Buff option \<Rightarrow> nat" where
  "DLI_GetDataFragmentNums perr s buf =
     (case buf of None \<Rightarrow> perr
      | Some b \<Rightarrow> if acbLen s = 0 then 0 else (dataLen b + acbLen s - 1) mod 2 ^ 32 div acbLen s)"

definition DLI_GetFragmentMaxLen :: "DLI_State \<Rightarrow> nat" where
  "DLI_GetFragmentMaxLen s = acbLen s + DLI_HEADER"

text \<open>The second and third header byte: handle, fragment flag, time stamp flag and priority.\<close>

definition dli_handle :: "DLI_DataStru \<Rightarrow> u8 \<Rightarrow> u16" where
  "dli_handle d flag = data_lcid d OR push_bit 12 (ucast flag) OR push_bit 14 (ucast (data_ts d))
     OR push_bit 15 (ucast (data_prio d))"

text \<open>
  One round per fragment buffer. The header is written into the packet's own storage in front of the
  bytes to send, over bytes that were sent already (or the reserved room); \<open>None\<close> is an access outside
  the storage.
\<close>

fun split_loop :: "DLI_State \<Rightarrow> DLI_DataStru \<Rightarrow> SDF_Buff \<Rightarrow> nat \<Rightarrow> SDF_Buff option list
    \<Rightarrow> (DLI_errno \<times> DLI_State \<times> SDF_Buff \<times> SDF_Buff option list) option" where
  "split_loop s d b dataOffset [] = Some (DLI_SUCCESS, s, b, [])"
| "split_loop s d b dataOffset (f # fs) =
     (let bufferLen = acbLen s;
          remainLen = dataLen b - dataOffset;
          (flag, s1) = DLI_PdFlagGet remainLen bufferLen s;
          sendLen = (if remainLen > bufferLen then bufferLen else remainLen);
          hdr = data_type d # ENCODE2BYTE_LITTLE (dli_handle d flag) @ ENCODE2BYTE_LITTLE (of_nat sendLen);
          fragmentLen = to_u16 (sendLen + DLI_HEADER)
      in if dataOff b + dataOffset < DLI_HEADER then None
         else do {
           let p = dataOff b + dataOffset - DLI_HEADER;
           b1 \<leftarrow> mem_write b p hdr;
           (case SDF_BuffAppend f fragmentLen of
              None \<Rightarrow> Some (DLI_STACK_MEM_ERRNO, s1, b1, f # fs)
            | Some (off, f1) \<Rightarrow>
                if fragmentLen = 0 then Some (DLI_STACK_MEM_ERRNO, s1, b1, Some f1 # fs)
                else do {
                  bs \<leftarrow> mem_read b1 p fragmentLen;
                  f2 \<leftarrow> mem_write f1 off bs;
                  (ret, s2, b2, fs2) \<leftarrow> split_loop s1 d b1 (dataOffset + sendLen) fs;
                  Some (ret, s2, b2, Some f2 # fs2)
                })
         })"

definition DLI_SplitData :: "DLI_State \<Rightarrow> DLI_DataStru \<Rightarrow> SDF_Buff option list \<Rightarrow> nat
    \<Rightarrow> (DLI_errno \<times> DLI_State \<times> DLI_DataStru \<times> SDF_Buff option list) option" where
  "DLI_SplitData s d fragmentBuf fragmentCnt =
     (case data_buf d of
        None \<Rightarrow> Some (DLI_STACK_PARAMS_ERRNO, s, d, fragmentBuf)
      | Some b \<Rightarrow>
          if \<not> (0 < fragmentCnt \<and> fragmentCnt \<le> DLI_MAX_FRAGMEN_NUM)
          then Some (DLI_STACK_PARAMS_ERRNO, s, d, fragmentBuf)
          else if length fragmentBuf < fragmentCnt then None
          else do {
            (ret, s1, b1, fs) \<leftarrow> split_loop s d b 0 (take fragmentCnt fragmentBuf);
            Some (ret, s1, d\<lparr>data_buf := Some b1\<rparr>, fs @ drop fragmentCnt fragmentBuf)
          })"

section \<open>Handing a fragment to the driver\<close>

definition isDataParamValid :: "DLI_DataStru \<Rightarrow> bool" where
  "isDataParamValid d = (case data_buf d of None \<Rightarrow> False | Some b \<Rightarrow> dataLen b \<le> DLI_MAX_TXRX_DATA_LEN)"

definition DLI_DataSend :: "'r env \<Rightarrow> DLI_DataStru \<Rightarrow> DLI_State \<Rightarrow> DLI_errno \<times> DLI_State" where
  "DLI_DataSend e d s =
     (if \<not> isDataParamValid d then (DLI_STACK_PARAMS_ERRNO, s)
      else if call_dli e then (DLI_SUCCESS, s\<lparr>dli_tasks := dli_tasks s @ [d]\<rparr>)
      else (DLI_POST_ERRNO, s))"

fun try_send :: "'r env \<Rightarrow> nat \<Rightarrow> bytes \<Rightarrow> DLI_State \<Rightarrow> bool \<times> DLI_State" where
  "try_send e 0 bs s = (False, s)"
| "try_send e (Suc n) bs s =
     (if call_dli (sub e n) then (True, s\<lparr>sapi_out := sapi_out s @ [bs]\<rparr>) else try_send e n bs s)"

definition DLI_TrySend :: "'r env \<Rightarrow> bytes \<Rightarrow> DLI_State \<Rightarrow> bool \<times> DLI_State" where
  "DLI_TrySend e bs s = try_send e DLI_TRY_SEND_CNT bs s"

text \<open>The posted task; the first task of the queue runs.\<close>

definition DLI_DataSendInner :: "'r env \<Rightarrow> DLI_State \<Rightarrow> DLI_State" where
  "DLI_DataSendInner e s =
     (case dli_tasks s of
        [] \<Rightarrow> s
      | d # ds \<Rightarrow>
          (case data_buf d of
             None \<Rightarrow> s\<lparr>dli_tasks := ds\<rparr>
           | Some b \<Rightarrow> if dli_inited s then snd (DLI_TrySend e (buff_data b) (s\<lparr>dli_tasks := ds\<rparr>))
                       else s\<lparr>dli_tasks := ds\<rparr>))"

section \<open>Collecting received fragments\<close>

definition DLI_IsFirstPb :: "u8 \<Rightarrow> bool" where
  "DLI_IsFirstPb pb \<longleftrightarrow> pb = DLI_FIRST_FRAGMENT \<or> pb = DLI_FULL_FRAGMENT"

definition DLI_CheckPb :: "u8 \<Rightarrow> u8 \<Rightarrow> bool" where
  "DLI_CheckPb prePb curPb \<longleftrightarrow>
     \<not> ((prePb \<noteq> DLI_MIDDLE_FRAGMENT \<and> prePb = curPb) \<or> prePb > curPb)"

definition DLI_DataNodeFind :: "DLI_RecvDataNode list \<Rightarrow> u16 \<Rightarrow> DLI_RecvDataNode option" where
  "DLI_DataNodeFind ns lcid = find (\<lambda>n. rn_lcid n = lcid) ns"

text \<open>The node that \<open>DLI_DataNodeFind\<close> returned is replaced or unlinked in place.\<close>

fun node_put :: "u16 \<Rightarrow> DLI_RecvDataNode \<Rightarrow> DLI_RecvDataNode list \<Rightarrow> DLI_RecvDataNode list" where
  "node_put lcid m [] = []"
| "node_put lcid m (n # ns) = (if rn_lcid n = lcid then m # ns else n # node_put lcid m ns)"

fun node_del :: "u16 \<Rightarrow> DLI_RecvDataNode list \<Rightarrow> DLI_RecvDataNode list" where
  "node_del lcid [] = []"
| "node_del lcid (n # ns) = (if rn_lcid n = lcid then ns else n # node_del lcid ns)"

text \<open>
  The C function returns 1 when the buffer has no room, -1 when \<open>memcpy_s\<close> refuses (its bound is the
  tail room before the append, and a bound of zero is refused), 0 otherwise.
\<close>

definition DLI_ReciveBufUpdate :: "SDF_Buff \<Rightarrow> SDF_Buff \<Rightarrow> (int \<times> SDF_Buff) option" where
  "DLI_ReciveBufUpdate b new =
     (let remainLen = SDF_BuffTailRoom b in
      case SDF_BuffAppend (Some b) (dataLen new) of
        None \<Rightarrow> Some (1, b)
      | Some (off, b1) \<Rightarrow>
          if remainLen = 0 then Some (-1, b1)
          else do {
            bs \<leftarrow> mem_read new (dataOff new) (dataLen new);
            b2 \<leftarrow> mem_write b1 off bs;
            Some (0, b2)
          })"

definition DLI_ReciveDataUpdate :: "'r env \<Rightarrow> DLI_RecvDataNode \<Rightarrow> u16 \<Rightarrow> u8 \<Rightarrow> SDF_Buff
    \<Rightarrow> (bool \<times> DLI_RecvDataNode) option" where
  "DLI_ReciveDataUpdate e n lcid pb b = do {
     (ret, nb) \<leftarrow> DLI_ReciveBufUpdate (rn_buf n) b;
     if ret \<noteq> 1 then Some (ret = 0, n\<lparr>rn_buf := nb\<rparr>)
     else (let sz = (if pb = DLI_MIDDLE_FRAGMENT then 2 * dataLen b else dataLen b) + dataLen (rn_buf n) in
       if sz > DLI_MAX_TXRX_DATA_LEN then Some (False, n)
       else (case SDF_BuffNew e sz of
         None \<Rightarrow> Some (False, n)
       | Some new0 \<Rightarrow> do {
           (ret1, new1) \<leftarrow> DLI_ReciveBufUpdate new0 (rn_buf n);
           if ret1 \<noteq> 0 then Some (False, n)
           else do {
             (ret2, new2) \<leftarrow> DLI_ReciveBufUpdate new1 b;
             if ret2 \<noteq> 0 then Some (False, n)
             else Some (True, n\<lparr>rn_lcid := lcid, rn_pb := pb, rn_buf := new2\<rparr>)
           }
         }))
   }"

text \<open>The result is the node that holds the data, or \<open>None\<close> inside for the NULL result.\<close>

definition DLI_ReceiveDataNodeUpdate :: "'r env \<Rightarrow> SDF_Buff \<Rightarrow> u16 \<Rightarrow> u8 \<Rightarrow> DLI_State
    \<Rightarrow> (DLI_RecvDataNode option \<times> DLI_State) option" where
  "DLI_ReceiveDataNodeUpdate e b lcid pb s =
     (case DLI_DataNodeFind (dataRx s) lcid of
        None \<Rightarrow>
          if \<not> DLI_IsFirstPb pb then Some (None, s)
          else (case SDF_MemZalloc (sub e 0) of
            None \<Rightarrow> Some (None, s)
          | Some a \<Rightarrow>
              if length (dataRx s) \<ge> DLI_DATA_MAX_CNT then Some (None, s)
              else (let n = \<lparr>rn_lcid = lcid, rn_pb = pb, rn_buf = b\<rparr>
                    in Some (Some n, s\<lparr>dataRx := dataRx s @ [n]\<rparr>)))
      | Some n \<Rightarrow>
          if \<not> DLI_CheckPb (rn_pb n) pb then
            (if DLI_IsFirstPb pb
             then (let m = n\<lparr>rn_pb := pb, rn_buf := b\<rparr>
                   in Some (Some m, s\<lparr>dataRx := node_put lcid m (dataRx s)\<rparr>))
             else Some (None, s\<lparr>dataRx := node_del lcid (dataRx s)\<rparr>))
          else do {
            (ok, m) \<leftarrow> DLI_ReciveDataUpdate (sub e 1) n lcid pb b;
            if ok then Some (Some m, s\<lparr>dataRx := node_put lcid m (dataRx s)\<rparr>)
            else Some (None, s\<lparr>dataRx := node_del lcid (dataRx s)\<rparr>)
          })"

definition DLI_AcbRecvHander :: "u16 \<Rightarrow> SDF_Buff \<Rightarrow> DLI_State \<Rightarrow> DLI_State" where
  "DLI_AcbRecvHander lcid b s =
     (if recvAcbHandler s then s\<lparr>acb_up := acb_up s @ [(lcid, buff_data b)]\<rparr> else s)"

text \<open>\<open>DLI_DECODE2BYTE\<close> at an offset of the storage.\<close>

definition u16_at :: "SDF_Buff \<Rightarrow> nat \<Rightarrow> u16 option" where
  "u16_at b off = map_option (\<lambda>bs. DECODE2BYTE_LITTLE (bs ! 0) (bs ! 1)) (mem_read b off 2)"

definition DLI_AcbPacketReceived :: "'r env \<Rightarrow> SDF_Buff \<Rightarrow> DLI_State \<Rightarrow> DLI_State option" where
  "DLI_AcbPacketReceived e b s = do {
     len \<leftarrow> u16_at b (dataOff b + 2);
     if dataLen b < DLI_HEADER_WITHOUT_TYPE_SIZE \<or> unat len \<noteq> dataLen b - DLI_HEADER_WITHOUT_TYPE_SIZE then Some s
     else do {
       h \<leftarrow> u16_at b (dataOff b);
       let pb = (ucast (drop_bit 12 h AND 3) :: u8);
       let lcid = h AND 0xFFF;
       let b1 = (case SDF_BuffTrimPrefix (Some b) DLI_HEADER_WITHOUT_TYPE_SIZE of None \<Rightarrow> b | Some (off, c) \<Rightarrow> c);
       if pb = DLI_FULL_FRAGMENT then Some (DLI_AcbRecvHander lcid b1 s)
       else if pb = DLI_FIRST_FRAGMENT \<or> pb = DLI_MIDDLE_FRAGMENT
       then map_option snd (DLI_ReceiveDataNodeUpdate e b1 lcid pb s)
       else if pb = DLI_LAST_FRAGMENT then do {
         (r, s1) \<leftarrow> DLI_ReceiveDataNodeUpdate e b1 lcid pb s;
         (case r of
            None \<Rightarrow> Some s1
          | Some n \<Rightarrow> Some (DLI_AcbRecvHander lcid (rn_buf n) (s1\<lparr>dataRx := node_del lcid (dataRx s1)\<rparr>)))
       }
       else Some s
     }
   }"

text \<open>The driver's receive callback: it copies the packet and posts it to the thread that handles its type.\<close>

datatype rx_dispatch = Rx_Killed | Rx_Dropped | Rx_PostAcb SDF_Buff | Rx_PostEvent SDF_Buff

definition DLI_CreateRxBuff :: "'r env \<Rightarrow> bytes \<Rightarrow> SDF_Buff option option" where
  "DLI_CreateRxBuff e packet =
     (case SDF_BuffNew e (length packet) of
        None \<Rightarrow> Some None
      | Some b \<Rightarrow> (case SDF_BuffAppend (Some b) (length packet) of
          None \<Rightarrow> Some None
        | Some (off, b1) \<Rightarrow> map_option Some (mem_write b1 off packet)))"

definition DLI_PacketReceived :: "'r env \<Rightarrow> nat \<Rightarrow> bytes option \<Rightarrow> rx_dispatch option" where
  "DLI_PacketReceived e type packet =
     (case packet of
        None \<Rightarrow> Some Rx_Dropped
      | Some bs \<Rightarrow>
          if \<not> (DLI_HEADER_WITHOUT_TYPE_SIZE \<le> length bs \<and> length bs \<le> 65535) then Some Rx_Dropped
          else if type = 0xA2 \<and> bs = [0xff, 0xff, 0x01, 0x00, 0xc7] then Some Rx_Killed
          else do {
            ob \<leftarrow> DLI_CreateRxBuff (sub e 0) bs;
            (case ob of
               None \<Rightarrow> Some Rx_Dropped
             | Some b \<Rightarrow>
                 if type = 0xA3 then Some (if call_dli (sub e 1) then Rx_PostAcb b else Rx_Dropped)
                 else if type = 0xA2 then Some (if call_dli (sub e 1) then Rx_PostEvent b else Rx_Dropped)
                 else Some Rx_Dropped)
          })"

section \<open>Correctness of splitting\<close>

lemma header_write:
  assumes "buff_ok b" "off \<le> dataLen b" "length hdr = 5" "5 \<le> dataOff b + off"
  shows "\<exists>b1. mem_write b (dataOff b + off - 5) hdr = Some b1 \<and> buff_ok b1 \<and> dataOff b1 = dataOff b
    \<and> dataLen b1 = dataLen b \<and> drop off (buff_data b1) = drop off (buff_data b)
    \<and> (\<forall>n \<le> dataLen b - off. mem_read b1 (dataOff b + off - 5) (5 + n)
         = Some (hdr @ take n (drop off (buff_data b))))"
proof -
  let ?p = "dataOff b + off - 5" and ?m = "buff b"
  let ?q = "dataOff b + off"
  let ?b1 = "b\<lparr>buff := take ?p ?m @ hdr @ drop ?q ?m\<rparr>"
  have le: "?q \<le> length ?m" "dataOff b + dataLen b \<le> length ?m" "?p + 5 = ?q"
    using assms by (auto simp: buff_ok_def)
  have w: "mem_write b ?p hdr = Some ?b1" using le assms by (simp add: mem_write_def)
  have d: "drop off (buff_data b) = take (dataLen b - off) (drop ?q ?m)"
    by (simp add: buff_data_def drop_take add.commute)
  have d1: "drop ?q (buff ?b1) = drop ?q ?m" using le assms(3) by simp
  then have "drop off (buff_data ?b1) = drop off (buff_data b)"
    unfolding d by (simp add: buff_data_def drop_take add.commute del: drop_append)
  moreover have "mem_read ?b1 ?p (5 + n) = Some (hdr @ take n (drop off (buff_data b)))"
    if n: "n \<le> dataLen b - off" for n
    using n le assms(2,3) unfolding d by (simp add: mem_read_def min_def)
  moreover have "buff_ok ?b1" using le assms by (auto simp: buff_ok_def min_def)
  ultimately show ?thesis using w by (intro exI [of _ ?b1]) simp
qed

text \<open>What one fragment looks like on the wire, and the fragment flags of a packet of \<open>n\<close> pieces.\<close>

definition dli_fragment :: "DLI_DataStru \<Rightarrow> u8 \<Rightarrow> bytes \<Rightarrow> bytes" where
  "dli_fragment d flag c = data_type d # ENCODE2BYTE_LITTLE (dli_handle d flag)
     @ ENCODE2BYTE_LITTLE (of_nat (length c)) @ c"

definition next_flag :: "u8 \<Rightarrow> bool \<Rightarrow> u8" where
  "next_flag prev mr =
     (if prev = DLI_FIRST_FRAGMENT \<or> prev = DLI_MIDDLE_FRAGMENT
      then (if mr then DLI_MIDDLE_FRAGMENT else DLI_LAST_FRAGMENT)
      else (if mr then DLI_FIRST_FRAGMENT else DLI_FULL_FRAGMENT))"

fun flags_from :: "u8 \<Rightarrow> nat \<Rightarrow> u8 list" where
  "flags_from prev 0 = []"
| "flags_from prev (Suc n) = next_flag prev (0 < n) # flags_from (next_flag prev (0 < n)) n"

definition flag_ok :: "u8 \<Rightarrow> bool" where
  "flag_ok f \<longleftrightarrow> f \<in> {0, 1, 2, 3, 255}"

lemma length_flags_from [simp]: "length (flags_from p n) = n"
  by (induction n arbitrary: p) auto

lemma flag_ok_next [simp]: "flag_ok (next_flag p m)"
  by (simp add: flag_ok_def next_flag_def)

lemma DLI_PdFlagGet_next:
  "flag_ok (pdFlag s) \<Longrightarrow> DLI_PdFlagGet r l s = (next_flag (pdFlag s) (l < r), s\<lparr>pdFlag := next_flag (pdFlag s) (l < r)\<rparr>)"
  by (auto simp: DLI_PdFlagGet_def next_flag_def flag_ok_def Let_def)

lemma chunks_more: "0 < mps \<Longrightarrow> d \<noteq> [] \<Longrightarrow> (0 < length (chunks mps (drop mps d))) = (mps < length d)"
  by (auto simp: chunks.simps [of mps "drop mps d"])

text \<open>A fragment buffer as the scheduler allocates it.\<close>

definition frag_buf_ok :: "nat \<Rightarrow> SDF_Buff option \<Rightarrow> bool" where
  "frag_buf_ok n f \<longleftrightarrow> (\<exists>b. f = Some b \<and> buff_ok b \<and> buff_data b = [] \<and> n \<le> SDF_BuffTailRoom b)"

lemma split_loop_ok:
  assumes "buff_ok b" "off \<le> dataLen b" "5 \<le> dataOff b + off" "0 < acbLen s" "acbLen s \<le> 65530"
    and "flag_ok (pdFlag s)" "\<forall>f \<in> set fs. frag_buf_ok (acbLen s + 5) f"
    and "length fs = length (chunks (acbLen s) (drop off (buff_data b)))"
  shows "\<exists>b' gs fl. split_loop s d b off fs = Some (DLI_SUCCESS, s\<lparr>pdFlag := fl\<rparr>, b', map Some gs)
    \<and> fl = last (pdFlag s # flags_from (pdFlag s) (length fs))
    \<and> (\<forall>g \<in> set gs. buff_ok g)
    \<and> map buff_data gs = map2 (dli_fragment d) (flags_from (pdFlag s) (length fs))
         (chunks (acbLen s) (drop off (buff_data b)))"
  using assms
proof (induction fs arbitrary: s b off)
  case Nil
  then show ?case by simp
next
  case (Cons f fs)
  let ?L = "acbLen s" and ?d = "drop off (buff_data b)"
  let ?r = "dataLen b - off"
  let ?c = "take ?L ?d"
  let ?fl = "next_flag (pdFlag s) (?L < ?r)"
  define m where "m = (if ?r > ?L then ?L else ?r)"
  define hdr where "hdr = data_type d # ENCODE2BYTE_LITTLE (dli_handle d ?fl) @ ENCODE2BYTE_LITTLE (of_nat m)"
  have lend: "length ?d = ?r" using Cons.prems(1) by simp
  have dne: "?d \<noteq> []" using Cons.prems(8) by auto
  have ch: "chunks ?L ?d = ?c # chunks ?L (drop ?L ?d)"
    using dne Cons.prems(4) by (subst chunks.simps) simp
  have lenc: "length ?c = m" using lend by (simp add: min_def m_def)
  have m_le: "m \<le> ?r" "m \<le> ?L" by (simp_all add: m_def)
  have more: "(0 < length fs) = (?L < ?r)"
    using Cons.prems(8) chunks_more [OF Cons.prems(4) dne] lend unfolding ch by simp
  obtain g where g: "f = Some g" "buff_ok g" "buff_data g = []" "?L + 5 \<le> SDF_BuffTailRoom g"
    using Cons.prems(7) by (auto simp: frag_buf_ok_def)
  have lenh: "length hdr = 5" by (simp add: hdr_def)
  from header_write [OF Cons.prems(1,2) lenh Cons.prems(3)]
  obtain b1 where b1: "mem_write b (dataOff b + off - 5) hdr = Some b1" "buff_ok b1" "dataOff b1 = dataOff b"
    "dataLen b1 = dataLen b" "drop off (buff_data b1) = ?d"
    "\<forall>n \<le> ?r. mem_read b1 (dataOff b + off - 5) (5 + n) = Some (hdr @ take n ?d)" by blast
  have rd: "mem_read b1 (dataOff b + off - 5) (5 + m) = Some (hdr @ ?c)"
    using b1(6) [rule_format, of m] lend m_le by (simp add: m_def split: if_splits)
  have fl5: "to_u16 (m + 5) = 5 + m" using Cons.prems(5) m_le by simp
  obtain o1 g1 where ap: "SDF_BuffAppend (Some g) (5 + m) = Some (o1, g1)"
    "\<And>bs. length bs = 5 + m \<Longrightarrow> mem_write g1 o1 bs = append_bytes g bs"
    by (rule append_obtain [of "5 + m" g]) (use g m_le in auto)
  obtain g2 where g2: "append_bytes g (hdr @ ?c) = Some g2" "buff_ok g2" "buff_data g2 = hdr @ ?c"
    using append_bytes_ex [OF g(2), of "hdr @ ?c"] g lenc lenh m_le by auto
  have wr: "mem_write g1 o1 (hdr @ ?c) = Some g2" using ap(2) [of "hdr @ ?c"] g2 lenc lenh by simp
  let ?s1 = "s\<lparr>pdFlag := ?fl\<rparr>"
  have dr: "drop (off + m) (buff_data b1) = drop ?L ?d"
  proof -
    have "drop (off + m) (buff_data b1) = drop m ?d" using b1(5) by (metis add.commute drop_drop)
    also have "\<dots> = drop ?L ?d" using lend by (auto simp: m_def)
    finally show ?thesis .
  qed
  have IH: "\<exists>b' gs fl. split_loop ?s1 d b1 (off + m) fs = Some (DLI_SUCCESS, ?s1\<lparr>pdFlag := fl\<rparr>, b', map Some gs)
    \<and> fl = last (?fl # flags_from ?fl (length fs)) \<and> (\<forall>g \<in> set gs. buff_ok g)
    \<and> map buff_data gs = map2 (dli_fragment d) (flags_from ?fl (length fs)) (chunks ?L (drop ?L ?d))"
    using Cons.IH [of b1 "off + m" ?s1] Cons.prems b1 dr ch m_le by simp
  then obtain b' gs fl where r: "split_loop ?s1 d b1 (off + m) fs = Some (DLI_SUCCESS, ?s1\<lparr>pdFlag := fl\<rparr>, b', map Some gs)"
    "fl = last (?fl # flags_from ?fl (length fs))" "\<forall>g \<in> set gs. buff_ok g"
    "map buff_data gs = map2 (dli_fragment d) (flags_from ?fl (length fs)) (chunks ?L (drop ?L ?d))" by blast
  have main: "split_loop s d b off (f # fs) = Some (DLI_SUCCESS, s\<lparr>pdFlag := fl\<rparr>, b', map Some (g2 # gs))"
    using b1(1) ap(1) rd wr r(1) Cons.prems(3) fl5
    by (simp add: DLI_PdFlagGet_next [OF Cons.prems(6)] Let_def g(1) del: SDF_BuffAppend.simps flip: m_def hdr_def)
  have "dli_fragment d ?fl ?c = hdr @ ?c" using lenc by (simp add: dli_fragment_def hdr_def)
  then show ?case
    using main r(2-4) g2 more ch by (intro exI [of _ b'] exI [of _ "g2 # gs"] exI [of _ fl]) simp
qed

section \<open>Correctness of collecting\<close>

lemma bit_dli_handle:
  "bit (dli_handle d f) n \<longleftrightarrow> bit (data_lcid d) n \<or> (12 \<le> n \<and> n < 16 \<and> bit f (n - 12))
     \<or> (14 \<le> n \<and> n < 16 \<and> bit (data_ts d) (n - 14)) \<or> (15 = n \<and> bit (data_prio d) 0)"
proof -
  have *: "n < 16 \<longleftrightarrow> n < LENGTH(16)" by simp
  have "15 \<le> n \<and> n < 16 \<longleftrightarrow> n = 15" by auto
  then show ?thesis
    by (auto simp: dli_handle_def bit_or_iff bit_push_bit_iff bit_ucast_iff dest: bit_imp_le_length)
qed

lemma high_bit_0:
  fixes w :: "'a::len word"
  assumes "unat w < 2 ^ k" "k \<le> n"
  shows "\<not> bit w n"
proof -
  have "unat w < 2 ^ n" using assms by (meson less_le_trans one_le_numeral power_increasing)
  then have "\<not> bit (unat w) n" by (simp add: bit_iff_odd)
  then show ?thesis by (simp add: bit_unsigned_iff possible_bit_def)
qed

lemma lcid_high_bits: "w < (4096 :: u16) \<Longrightarrow> bit w n \<Longrightarrow> n < 12"
  using high_bit_0 [of w 12 n] by (auto simp: word_less_nat_alt not_le [symmetric])

lemma flag_high_bits: "f \<le> (3 :: u8) \<Longrightarrow> bit f n \<Longrightarrow> n < 2"
  using high_bit_0 [of f 2 n] by (auto simp: word_le_nat_alt not_le [symmetric])

lemma handle_lcid: "data_lcid d < 4096 \<Longrightarrow> dli_handle d f AND 0xFFF = data_lcid d"
proof (rule bit_eqI)
  fix n assume l: "data_lcid d < 4096"
  have m: "(0xFFF :: u16) = mask 12" by (simp add: mask_eq_exp_minus_1)
  show "bit (dli_handle d f AND 0xFFF) n = bit (data_lcid d) n"
    using lcid_high_bits [OF l, of n] unfolding m
    by (auto simp: bit_and_iff bit_mask_iff bit_dli_handle not_less dest: bit_imp_le_length)
qed

lemma handle_flag:
  assumes "data_lcid d < 4096" "f \<le> 3"
  shows "ucast (drop_bit 12 (dli_handle d f) AND (3 :: u16)) = f"
proof (rule bit_eqI)
  fix n
  have m: "(3 :: u16) = mask 2" by (simp add: mask_eq_exp_minus_1)
  show "bit (ucast (drop_bit 12 (dli_handle d f) AND 3) :: u8) n = bit f n"
    using lcid_high_bits [OF assms(1), of "n + 12"] flag_high_bits [OF assms(2), of n] unfolding m
    by (auto simp: bit_ucast_iff bit_and_iff bit_mask_iff bit_drop_bit_eq bit_dli_handle add.commute dest: bit_imp_le_length)
qed

lemma encode_little_nth [simp]:
  "DECODE2BYTE_LITTLE (ENCODE2BYTE_LITTLE h ! 0) (ENCODE2BYTE_LITTLE h ! Suc 0) = h"
  by (simp add: ENCODE2BYTE_LITTLE_def)

lemma u16_at_data:
  assumes "buff_ok b" "buff_data b = xs @ ENCODE2BYTE_LITTLE h @ ys"
  shows "u16_at b (dataOff b + length xs) = Some h"
proof -
  have "length (buff_data b) = length xs + 2 + length ys" using assms(2) by simp
  then have "length xs + 2 \<le> dataLen b" using assms(1) by simp
  from mem_read_data [OF assms(1) this] assms(2)
  have "mem_read b (dataOff b + length xs) 2 = Some (ENCODE2BYTE_LITTLE h)" by simp
  then show ?thesis by (simp add: u16_at_def)
qed

text \<open>A received packet (the type byte is stripped by the driver) and its decoding.\<close>

definition dli_packet :: "u16 \<Rightarrow> bytes \<Rightarrow> bytes" where
  "dli_packet h c = ENCODE2BYTE_LITTLE h @ ENCODE2BYTE_LITTLE (of_nat (length c)) @ c"

lemma length_dli_packet [simp]: "length (dli_packet h c) = 4 + length c"
  by (simp add: dli_packet_def)

lemma DLI_AcbPacketReceived_packet:
  assumes "buff_ok b" "buff_data b = dli_packet h c" "length c \<le> 65531"
  obtains b1 where "buff_ok b1" "buff_data b1 = c" "SDF_BuffTailRoom b1 = SDF_BuffTailRoom b"
    "buffLen b1 = buffLen b"
    "DLI_AcbPacketReceived e b s =
      (let pb = (ucast (drop_bit 12 h AND 3) :: u8); lcid = h AND 0xFFF
       in if pb = DLI_FULL_FRAGMENT then Some (DLI_AcbRecvHander lcid b1 s)
       else if pb = DLI_FIRST_FRAGMENT \<or> pb = DLI_MIDDLE_FRAGMENT
       then map_option snd (DLI_ReceiveDataNodeUpdate e b1 lcid pb s)
       else if pb = DLI_LAST_FRAGMENT then do {
         (r, s1) \<leftarrow> DLI_ReceiveDataNodeUpdate e b1 lcid pb s;
         (case r of
            None \<Rightarrow> Some s1
          | Some n \<Rightarrow> Some (DLI_AcbRecvHander lcid (rn_buf n) (s1\<lparr>dataRx := node_del lcid (dataRx s1)\<rparr>)))
       }
       else Some s)"
proof -
  have len: "dataLen b = 4 + length c" using arg_cong [OF assms(2), of length] assms(1) by simp
  obtain b1 where trim: "SDF_BuffTrimPrefix (Some b) 4 = Some (dataOff b + 4, b1)" using len by simp
  note tr = SDF_BuffTrimPrefix_Some [OF trim assms(1)]
  have h: "u16_at b (dataOff b) = Some h"
    using u16_at_data [OF assms(1), of "[]"] assms(2) by (simp add: dli_packet_def)
  have l: "u16_at b (dataOff b + 2) = Some (of_nat (length c))"
    using u16_at_data [OF assms(1), of "ENCODE2BYTE_LITTLE h"] assms(2) by (simp add: dli_packet_def)
  have n: "unat (of_nat (length c) :: u16) = length c"
    using assms(3) by (simp add: unsigned_of_nat take_bit_nat_eq_self)
  have d: "buff_data b1 = c"
    using tr(2) assms(2)
    by (simp add: dli_packet_def ENCODE2BYTE_LITTLE_def)
  show thesis
    by (rule that [of b1])
      (use tr d len h l n trim
        in \<open>simp_all add: SDF_BuffTailRoom_def DLI_AcbPacketReceived_def Let_def del: SDF_BuffTrimPrefix.simps\<close>)
qed

lemma DLI_CreateRxBuff_ok:
  assumes "alloc_ok e"
  shows "\<exists>b. DLI_CreateRxBuff e bs = Some (Some b) \<and> buff_ok b \<and> buff_data b = bs \<and> SDF_BuffTailRoom b = 0
    \<and> buffLen b = length bs"
proof -
  obtain a where a: "SDF_BuffNew e (length bs) = Some (new_buff a 0 (length bs))"
    using alloc_okD [OF assms] by (auto simp: SDF_BuffNew_def)
  let ?n = "new_buff a 0 (length bs)"
  have t: "SDF_BuffTailRoom ?n = length bs" by (simp add: SDF_BuffTailRoom_def)
  obtain o1 b1 where ap: "SDF_BuffAppend (Some ?n) (length bs) = Some (o1, b1)"
    "\<And>cs. length cs = length bs \<Longrightarrow> mem_write b1 o1 cs = append_bytes ?n cs"
    by (rule append_obtain [of "length bs" ?n]) (use t in auto)
  have ok: "buff_ok ?n" "length bs \<le> SDF_BuffTailRoom ?n" using t by simp_all
  obtain b where "append_bytes ?n bs = Some b" "buff_ok b" "buff_data b = buff_data ?n @ bs"
    "SDF_BuffTailRoom b = SDF_BuffTailRoom ?n - length bs" "buffLen b = buffLen ?n"
    by (rule append_bytes_Some [OF ok])
  then show ?thesis
    using a ap t by (simp add: DLI_CreateRxBuff_def buff_data_def del: SDF_BuffAppend.simps)
qed

lemma DLI_ReciveBufUpdate_full: "SDF_BuffTailRoom b < dataLen new \<Longrightarrow> DLI_ReciveBufUpdate b new = Some (1, b)"
  by (simp add: DLI_ReciveBufUpdate_def)

lemma DLI_ReciveBufUpdate_ok:
  assumes "buff_ok b" "buff_ok new" "dataLen new \<le> SDF_BuffTailRoom b" "0 < SDF_BuffTailRoom b"
  shows "\<exists>b'. DLI_ReciveBufUpdate b new = Some (0, b') \<and> buff_ok b' \<and> buff_data b' = buff_data b @ buff_data new
    \<and> SDF_BuffTailRoom b' = SDF_BuffTailRoom b - dataLen new \<and> buffLen b' = buffLen b"
proof -
  obtain o1 b1 where ap: "SDF_BuffAppend (Some b) (dataLen new) = Some (o1, b1)"
    "\<And>cs. length cs = dataLen new \<Longrightarrow> mem_write b1 o1 cs = append_bytes b cs"
    by (rule append_obtain [OF assms(3)]) auto
  have len: "length (buff_data new) \<le> SDF_BuffTailRoom b" using assms by simp
  obtain b' where "append_bytes b (buff_data new) = Some b'" "buff_ok b'" "buff_data b' = buff_data b @ buff_data new"
    "SDF_BuffTailRoom b' = SDF_BuffTailRoom b - length (buff_data new)" "buffLen b' = buffLen b"
    by (rule append_bytes_Some [OF assms(1) len])
  then show ?thesis
    using ap(1) ap(2) [of "buff_data new"] assms mem_read_window [OF assms(2)]
    by (simp add: DLI_ReciveBufUpdate_def Let_def del: SDF_BuffAppend.simps)
qed

lemma DLI_ReciveDataUpdate_ok:
  assumes "buff_ok (rn_buf n)" "buff_ok b" "0 < dataLen b" "dataLen (rn_buf n) + 2 * dataLen b \<le> 102400" "alloc_ok e"
    and "rn_lcid n = lcid"
  shows "\<exists>m. DLI_ReciveDataUpdate e n lcid pb b = Some (True, m) \<and> buff_ok (rn_buf m) \<and> rn_lcid m = lcid
    \<and> buff_data (rn_buf m) = buff_data (rn_buf n) @ buff_data b \<and> rn_pb m \<in> {rn_pb n, pb}"
proof (cases "dataLen b \<le> SDF_BuffTailRoom (rn_buf n)")
  case True
  then have "0 < SDF_BuffTailRoom (rn_buf n)" using assms(3) by simp
  from DLI_ReciveBufUpdate_ok [OF assms(1,2) True this]
  show ?thesis using assms(6) by (auto simp: DLI_ReciveDataUpdate_def)
next
  case False
  define sz where "sz = (if pb = DLI_MIDDLE_FRAGMENT then 2 * dataLen b else dataLen b) + dataLen (rn_buf n)"
  have sz: "dataLen (rn_buf n) + dataLen b \<le> sz" "sz \<le> 102400" "0 < sz" using assms by (auto simp: sz_def)
  obtain n0 where n0: "SDF_BuffNew e sz = Some n0" using SDF_BuffNew_ok [OF assms(5)] by blast
  note n0' = SDF_BuffNew_SomeD [OF n0]
  obtain n1 where n1: "DLI_ReciveBufUpdate n0 (rn_buf n) = Some (0, n1)" "buff_ok n1" "buff_data n1 = buff_data (rn_buf n)"
    "SDF_BuffTailRoom n1 = sz - dataLen (rn_buf n)"
    using DLI_ReciveBufUpdate_ok [of n0 "rn_buf n"] n0' assms(1) sz by auto
  have t: "dataLen b \<le> SDF_BuffTailRoom n1" "0 < SDF_BuffTailRoom n1" using n1(4) sz assms(3) by linarith+
  obtain n2 where n2: "DLI_ReciveBufUpdate n1 b = Some (0, n2)" "buff_ok n2"
    "buff_data n2 = buff_data (rn_buf n) @ buff_data b"
    using DLI_ReciveBufUpdate_ok [OF n1(2) assms(2) t] n1(3) by auto
  show ?thesis
    using False n0 n1(1) n2 sz(2) DLI_ReciveBufUpdate_full [of "rn_buf n" b]
    by (auto simp: DLI_ReciveDataUpdate_def Let_def simp flip: sz_def)
qed

text \<open>The driver delivers packets one by one; each is handled before the next arrives.\<close>

fun rx_all :: "'r env \<Rightarrow> nat \<Rightarrow> bytes list \<Rightarrow> DLI_State \<Rightarrow> DLI_State option" where
  "rx_all e k [] s = Some s"
| "rx_all e k (p # ps) s = do {
     r \<leftarrow> DLI_PacketReceived (sub (sub e k) 0) 0xA3 (Some p);
     s1 \<leftarrow> (case r of Rx_PostAcb b \<Rightarrow> DLI_AcbPacketReceived (sub (sub e k) 1) b s | _ \<Rightarrow> Some s);
     rx_all e (Suc k) ps s1
   }"

definition posts_ok :: "'r env \<Rightarrow> bool" where
  "posts_ok e \<longleftrightarrow> (\<forall>p. env_dli e p)"

lemma posts_ok_sub [simp]: "posts_ok (sub e k) = posts_ok e"
  by (simp add: posts_ok_def)

lemma posts_ok_granting [simp]: "posts_ok (granting_env r)"
  by (simp add: posts_ok_def)

lemma posts_okD [simp]: "posts_ok e \<Longrightarrow> call_dli e"
  by (simp add: posts_ok_def call_dli_def)

lemma PacketReceived_acb:
  assumes "alloc_ok e" "posts_ok e" "4 \<le> length p" "length p \<le> 65535"
  shows "\<exists>b. DLI_PacketReceived e 0xA3 (Some p) = Some (Rx_PostAcb b) \<and> buff_ok b \<and> buff_data b = p
    \<and> SDF_BuffTailRoom b = 0 \<and> buffLen b = length p"
  using DLI_CreateRxBuff_ok [of "sub e 0" p] assms by (auto simp: DLI_PacketReceived_def)

definition no_node :: "u16 \<Rightarrow> DLI_RecvDataNode list \<Rightarrow> bool" where
  "no_node lcid ns \<longleftrightarrow> (\<forall>n \<in> set ns. rn_lcid n \<noteq> lcid)"

lemma node_find_last [simp]:
  "no_node (rn_lcid n) ns \<Longrightarrow> DLI_DataNodeFind (ns @ [n]) (rn_lcid n) = Some n"
  "no_node lcid ns \<Longrightarrow> DLI_DataNodeFind ns lcid = None"
  "no_node (rn_lcid n) ns \<Longrightarrow> node_put (rn_lcid n) m (ns @ [n]) = ns @ [m]"
  "no_node (rn_lcid n) ns \<Longrightarrow> node_del (rn_lcid n) (ns @ [n]) = ns"
  by (induction ns) (auto simp: no_node_def DLI_DataNodeFind_def)

lemma node_find_None: "DLI_DataNodeFind ns lcid = None \<longleftrightarrow> no_node lcid ns"
  by (auto simp: DLI_DataNodeFind_def no_node_def find_None_iff)

lemma rx_first:
  assumes "alloc_ok e" "posts_ok e" "data_lcid d < 4096" "length c \<le> 65531"
    and "no_node (data_lcid d) (dataRx s)" "length (dataRx s) < 10000"
  shows "\<exists>n. rx_all e k (dli_packet (dli_handle d DLI_FIRST_FRAGMENT) c # ps) s
       = rx_all e (Suc k) ps (s\<lparr>dataRx := dataRx s @ [n]\<rparr>)
    \<and> rn_lcid n = data_lcid d \<and> rn_pb n = DLI_FIRST_FRAGMENT \<and> buff_ok (rn_buf n) \<and> buff_data (rn_buf n) = c"
proof -
  let ?e = "sub (sub e k) 0" and ?e1 = "sub (sub e k) 1" and ?p = "dli_packet (dli_handle d DLI_FIRST_FRAGMENT) c"
  obtain b where b: "DLI_PacketReceived ?e 0xA3 (Some ?p) = Some (Rx_PostAcb b)" "buff_ok b" "buff_data b = ?p"
    using PacketReceived_acb [of ?e ?p] assms by auto
  obtain a where a: "SDF_MemZalloc (sub ?e1 0) = Some a" using alloc_okD [of "sub ?e1 0"] assms(1) by auto
  show ?thesis
    by (rule DLI_AcbPacketReceived_packet [OF b(2,3) assms(4), of ?e1 s])
      (use b(1) a assms in \<open>auto simp: handle_lcid handle_flag DLI_ReceiveDataNodeUpdate_def DLI_IsFirstPb_def Let_def\<close>)
qed

lemma rx_next:
  assumes "alloc_ok e" "posts_ok e" "data_lcid d < 4096" "length c \<le> 65531" "0 < length c"
    and "dataRx s = ns @ [n]" "no_node (data_lcid d) ns" "rn_lcid n = data_lcid d"
    and "buff_ok (rn_buf n)" "dataLen (rn_buf n) + 2 * length c \<le> 102400" "rn_pb n \<in> {1, 2}"
    and "f = DLI_MIDDLE_FRAGMENT \<or> f = DLI_LAST_FRAGMENT" "recvAcbHandler s"
  shows "\<exists>m. rx_all e k (dli_packet (dli_handle d f) c # ps) s
       = rx_all e (Suc k) ps (if f = DLI_MIDDLE_FRAGMENT then s\<lparr>dataRx := ns @ [m]\<rparr>
           else s\<lparr>dataRx := ns, acb_up := acb_up s @ [(data_lcid d, buff_data (rn_buf n) @ c)]\<rparr>)
    \<and> rn_lcid m = data_lcid d \<and> rn_pb m \<in> {rn_pb n, f} \<and> buff_ok (rn_buf m)
    \<and> buff_data (rn_buf m) = buff_data (rn_buf n) @ c"
proof -
  let ?e = "sub (sub e k) 0" and ?e1 = "sub (sub e k) 1" and ?p = "dli_packet (dli_handle d f) c"
  obtain b where b: "DLI_PacketReceived ?e 0xA3 (Some ?p) = Some (Rx_PostAcb b)" "buff_ok b" "buff_data b = ?p"
    using PacketReceived_acb [of ?e ?p] assms by auto
  have chk: "DLI_CheckPb (rn_pb n) f" using assms(11,12) by (auto simp: DLI_CheckPb_def)
  have f3: "f \<le> 3" using assms(12) by auto
  show ?thesis
  proof (rule DLI_AcbPacketReceived_packet [OF b(2,3) assms(4), of ?e1 s], goal_cases)
    case (1 b1)
    have len: "dataLen b1 = length c" using length_buff_data [OF 1(1)] 1(2) by simp
    obtain m where m: "DLI_ReciveDataUpdate (sub ?e1 1) n (data_lcid d) f b1 = Some (True, m)"
      "buff_ok (rn_buf m)" "rn_lcid m = data_lcid d" "buff_data (rn_buf m) = buff_data (rn_buf n) @ c"
      "rn_pb m \<in> {rn_pb n, f}"
      using DLI_ReciveDataUpdate_ok [of n b1 "sub ?e1 1" "data_lcid d" f] assms 1(1,2) len by auto
    have find: "DLI_DataNodeFind (dataRx s) (data_lcid d) = Some n"
      using node_find_last(1) [of n ns] assms by simp
    have put: "node_put (data_lcid d) m (dataRx s) = ns @ [m]" 
      using node_find_last(3) [of n ns m] assms by simp
    have del: "node_del (data_lcid d) (ns @ [m]) = ns" 
      using node_find_last(4) [of m ns] m(3) assms by simp
    have upd: "DLI_ReceiveDataNodeUpdate ?e1 b1 (data_lcid d) f s = Some (Some m, s\<lparr>dataRx := ns @ [m]\<rparr>)"
      using find chk m(1) put by (simp add: DLI_ReceiveDataNodeUpdate_def)
    show ?case
      using b(1) 1(5) upd del m assms(12,13) f3
      by (intro exI [of _ m]) (auto simp: handle_lcid [OF assms(3)] handle_flag [OF assms(3)] DLI_AcbRecvHander_def Let_def)
  qed
qed

lemma rx_rest:
  assumes "alloc_ok e" "posts_ok e" "data_lcid d < 4096" "cs \<noteq> []"
    and "\<forall>c \<in> set cs. 0 < length c \<and> length c \<le> L" "L \<le> 65531"
    and "dataRx s = ns @ [n]" "no_node (data_lcid d) ns" "rn_lcid n = data_lcid d"
    and "buff_ok (rn_buf n)" "dataLen (rn_buf n) + length (concat cs) + L \<le> 102400" "rn_pb n \<in> {1, 2}"
    and "fl \<in> {1, 2}" "recvAcbHandler s"
  shows "rx_all e k (map2 (\<lambda>f c. dli_packet (dli_handle d f) c) (flags_from fl (length cs)) cs) s
    = Some (s\<lparr>dataRx := ns, acb_up := acb_up s @ [(data_lcid d, buff_data (rn_buf n) @ concat cs)]\<rparr>)"
  using assms
proof (induction cs arbitrary: k s n fl)
  case Nil
  then show ?case by simp
next
  case (Cons c cs)
  let ?f = "next_flag fl (0 < length cs)"
  have c: "0 < length c" "length c \<le> L" "length c \<le> 65531" using Cons.prems by auto
  have f: "?f = DLI_MIDDLE_FRAGMENT \<or> ?f = DLI_LAST_FRAGMENT" "?f = DLI_MIDDLE_FRAGMENT \<longleftrightarrow> cs \<noteq> []"
    using Cons.prems(13) by (auto simp: next_flag_def)
  have sz: "dataLen (rn_buf n) + 2 * length c \<le> 102400" using Cons.prems(11) c by simp
  from rx_next [OF Cons.prems(1-3) c(3,1) Cons.prems(7-10) sz Cons.prems(12) f(1) Cons.prems(14), of k
      "map2 (\<lambda>f c. dli_packet (dli_handle d f) c) (flags_from ?f (length cs)) cs"]
  obtain m where m: "rx_all e k (dli_packet (dli_handle d ?f) c # map2 (\<lambda>f c. dli_packet (dli_handle d f) c) (flags_from ?f (length cs)) cs) s
       = rx_all e (Suc k) (map2 (\<lambda>f c. dli_packet (dli_handle d f) c) (flags_from ?f (length cs)) cs)
         (if ?f = DLI_MIDDLE_FRAGMENT then s\<lparr>dataRx := ns @ [m]\<rparr>
           else s\<lparr>dataRx := ns, acb_up := acb_up s @ [(data_lcid d, buff_data (rn_buf n) @ c)]\<rparr>)"
    "rn_lcid m = data_lcid d" "rn_pb m \<in> {rn_pb n, ?f}" "buff_ok (rn_buf m)"
    "buff_data (rn_buf m) = buff_data (rn_buf n) @ c" by blast
  show ?case
  proof (cases "cs = []")
    case True
    then show ?thesis using m(1) f(2) by (simp del: rx_all.simps(2))
  next
    case False
    then have f2: "?f = DLI_MIDDLE_FRAGMENT" using f(2) by simp
    have pm: "rn_pb m \<in> {1, 2}" using m(3) Cons.prems(12) f2 by auto
    have dl: "dataLen (rn_buf m) = dataLen (rn_buf n) + length c"
      using length_buff_data [OF m(4)] length_buff_data [OF Cons.prems(10)] m(5) by simp
    have "rx_all e (Suc k) (map2 (\<lambda>f c. dli_packet (dli_handle d f) c) (flags_from ?f (length cs)) cs)
         (s\<lparr>dataRx := ns @ [m]\<rparr>) = Some (s\<lparr>dataRx := ns @ [m], dataRx := ns, acb_up := acb_up s @ [(data_lcid d, buff_data (rn_buf m) @ concat cs)]\<rparr>)"
      using Cons.IH [of "s\<lparr>dataRx := ns @ [m]\<rparr>" m ?f "Suc k"] Cons.prems False m(2,4) pm dl f2 by simp
    then show ?thesis using m(1,5) f2 by (simp del: rx_all.simps(2))
  qed
qed
section \<open>The data path end to end\<close>

lemma tl_dli_fragment [simp]: "tl (dli_fragment d f c) = dli_packet (dli_handle d f) c"
  by (simp add: dli_fragment_def dli_packet_def)

lemma rx_split:
  assumes "alloc_ok e" "posts_ok e" "data_lcid d < 4096" "cs \<noteq> []"
    and "\<forall>c \<in> set cs. 0 < length c \<and> length c \<le> L" "L \<le> 65531"
    and "no_node (data_lcid d) (dataRx s)" "length (dataRx s) < 10000"
    and "length (concat cs) + L \<le> 102400" "fl \<in> {0, 3, 255}" "recvAcbHandler s"
  shows "rx_all e k (map2 (\<lambda>f c. dli_packet (dli_handle d f) c) (flags_from fl (length cs)) cs) s
    = Some (s\<lparr>acb_up := acb_up s @ [(data_lcid d, concat cs)]\<rparr>)"
proof (cases cs)
  case Nil
  then show ?thesis using assms(4) by simp
next
  case (Cons c cs')
  have c: "length c \<le> 65531" "0 < length c" using assms(5,6) Cons by auto
  show ?thesis
  proof (cases "cs' = []")
    case True
    let ?e = "sub (sub e k) 0" and ?p = "dli_packet (dli_handle d DLI_FULL_FRAGMENT) c"
    obtain b where b: "DLI_PacketReceived ?e 0xA3 (Some ?p) = Some (Rx_PostAcb b)" "buff_ok b" "buff_data b = ?p"
      using PacketReceived_acb [of ?e ?p] assms c by auto
    have fl: "next_flag fl False = DLI_FULL_FRAGMENT" using assms(10) by (auto simp: next_flag_def)
    show ?thesis
      by (rule DLI_AcbPacketReceived_packet [OF b(2,3) c(1), of "sub (sub e k) 1" s])
        (use True Cons b(1) fl assms(11) in
          \<open>simp add: handle_lcid [OF assms(3)] handle_flag [OF assms(3)] DLI_AcbRecvHander_def Let_def\<close>)
  next
    case False
    have fl: "next_flag fl True = DLI_FIRST_FRAGMENT" using assms(10) by (auto simp: next_flag_def)
    let ?ps = "map2 (\<lambda>f c. dli_packet (dli_handle d f) c) (flags_from DLI_FIRST_FRAGMENT (length cs')) cs'"
    obtain n where n: "rx_all e k (dli_packet (dli_handle d DLI_FIRST_FRAGMENT) c # ?ps) s
       = rx_all e (Suc k) ?ps (s\<lparr>dataRx := dataRx s @ [n]\<rparr>)"
      "rn_lcid n = data_lcid d" "rn_pb n = DLI_FIRST_FRAGMENT" "buff_ok (rn_buf n)" "buff_data (rn_buf n) = c"
      using rx_first [OF assms(1-3) c(1) assms(7,8), of k ?ps] by blast
    have dl: "dataLen (rn_buf n) = length c" using length_buff_data [OF n(4)] n(5) by simp
    have "rx_all e (Suc k) ?ps (s\<lparr>dataRx := dataRx s @ [n]\<rparr>) =
      Some (s\<lparr>dataRx := dataRx s @ [n], dataRx := dataRx s, acb_up := acb_up s @ [(data_lcid d, buff_data (rn_buf n) @ concat cs')]\<rparr>)"
      using rx_rest [of e d cs' L "s\<lparr>dataRx := dataRx s @ [n]\<rparr>" "dataRx s" n DLI_FIRST_FRAGMENT "Suc k"]
        assms n dl False Cons by simp
    then show ?thesis
      using n(1,5) Cons False fl by (simp del: rx_all.simps(2))
  qed
qed

lemma flags_from_Nil_iff [simp]: "flags_from p n = [] \<longleftrightarrow> n = 0"
  by (cases n) auto

lemma last_flags: "fl \<in> {0, 3, 255} \<Longrightarrow> 0 < n \<Longrightarrow> last (flags_from fl n) \<in> {0, 3}"
proof -
  have *: "last (flags_from p n) = 3" if "p \<in> {1, 2}" "0 < n" for p n
    using that by (induction n arbitrary: p) (auto simp: next_flag_def)
  show "fl \<in> {0, 3, 255} \<Longrightarrow> 0 < n \<Longrightarrow> last (flags_from fl n) \<in> {0, 3}"
    using * [of "next_flag fl True" "n - 1"] by (cases n; cases "n - 1") (auto simp: next_flag_def)
qed

lemma DLI_GetDataFragmentNums_chunks:
  assumes "buff_ok b" "0 < acbLen s" "dataLen b + acbLen s \<le> 102400"
  shows "DLI_GetDataFragmentNums perr s (Some b) = length (chunks (acbLen s) (buff_data b))"
  using assms by (simp add: DLI_GetDataFragmentNums_def length_chunks)

text \<open>
  (C11) The data link carries a packet unchanged: when a packet with five bytes of head room is split into
  the number of fragments \<open>DLI_GetDataFragmentNums\<close> computes, every fragment buffer is filled, no
  header written in place damages bytes that are still to be sent, the fragment flag returns to
  its idle values, and a receiver that gets the fragments in order delivers exactly this packet
  once, on the right channel, and keeps no partial data of it.
\<close>

theorem dli_split_receive_roundtrip:
  assumes "alloc_ok e" "posts_ok e" "data_buf d = Some b" "buff_ok b" "0 < dataLen b" "5 \<le> SDF_BuffHeadRoom b"
    and "0 < acbLen s" "acbLen s \<le> 65530" "dataLen b + acbLen s \<le> 102400" "pdFlag s \<in> {0, 3, 255}"
    and "length fs = DLI_GetDataFragmentNums perr s (Some b)" "length fs \<le> DLI_MAX_FRAGMEN_NUM"
    and "\<forall>f \<in> set fs. frag_buf_ok (DLI_GetFragmentMaxLen s) f"
    and "data_lcid d < 4096" "no_node (data_lcid d) (dataRx r)" "length (dataRx r) < 10000" "recvAcbHandler r"
  shows "\<exists>fl d' gs. DLI_SplitData s d fs (length fs) = Some (DLI_SUCCESS, s\<lparr>pdFlag := fl\<rparr>, d', map Some gs)
    \<and> fl \<in> {0, 3} \<and> length gs = length fs \<and> (\<forall>g \<in> set gs. buff_ok g)
    \<and> rx_all e 0 (map (tl \<circ> buff_data) gs) r = Some (r\<lparr>acb_up := acb_up r @ [(data_lcid d, buff_data b)]\<rparr>)"
proof -
  let ?L = "acbLen s" and ?cs = "chunks (acbLen s) (buff_data b)"
  have n: "length fs = length ?cs" using assms DLI_GetDataFragmentNums_chunks [of b s perr] by simp
  have "buff_data b \<noteq> []" using assms(4,5) length_buff_data by fastforce
  then have ne: "?cs \<noteq> []" by (simp add: chunks.simps [of ?L])
  have pre: "0 \<le> dataLen b" "5 \<le> dataOff b + 0" "flag_ok (pdFlag s)" "\<forall>f \<in> set fs. frag_buf_ok (?L + 5) f"
    "length fs = length (chunks ?L (drop 0 (buff_data b)))"
    using assms n by (auto simp: SDF_BuffHeadRoom_def flag_ok_def DLI_GetFragmentMaxLen_def)
  from split_loop_ok [OF assms(4) pre(1,2) assms(7,8) pre(3-5), of d]
  obtain b' gs fl where r: "split_loop s d b 0 fs = Some (DLI_SUCCESS, s\<lparr>pdFlag := fl\<rparr>, b', map Some gs)"
    "fl = last (pdFlag s # flags_from (pdFlag s) (length fs))" "\<forall>g \<in> set gs. buff_ok g"
    "map buff_data gs = map2 (dli_fragment d) (flags_from (pdFlag s) (length fs)) ?cs" by auto
  have fl: "fl \<in> {0, 3}" using r(2) last_flags [OF assms(10), of "length fs"] n ne by simp
  have pk: "map (tl \<circ> buff_data) gs = map2 (\<lambda>f c. dli_packet (dli_handle d f) c) (flags_from (pdFlag s) (length ?cs)) ?cs"
    using arg_cong [OF r(4), of "map tl"] n by (simp add: case_prod_beta comp_def)
  have cs: "\<forall>c \<in> set ?cs. 0 < length c \<and> length c \<le> ?L" using chunks_mem assms(7) by auto
  have L: "?L \<le> 65531" using assms(8) by simp
  have tot: "length (concat ?cs) + ?L \<le> 102400" using assms(4,9) by (simp add: concat_chunks)
  have "rx_all e 0 (map (tl \<circ> buff_data) gs) r = Some (r\<lparr>acb_up := acb_up r @ [(data_lcid d, buff_data b)]\<rparr>)"
    unfolding pk using rx_split [OF assms(1,2,14) ne cs L assms(15,16) tot assms(10,17), of 0] by (simp add: concat_chunks)
  moreover have "DLI_SplitData s d fs (length fs) = Some (DLI_SUCCESS, s\<lparr>pdFlag := fl\<rparr>, d\<lparr>data_buf := Some b'\<rparr>, map Some gs)"
    using r(1) assms(3,12) n ne by (simp add: DLI_SplitData_def)
  moreover have "length gs = length fs" using arg_cong [OF r(4), of length] n by simp
  ultimately show ?thesis using fl r(3) by blast
qed

definition dli_start :: "nat \<Rightarrow> DLI_State" where
  "dli_start l = snd (DLI_LayerInfoInit \<lparr>cmdTx = [], dataRx = [], pdFlag = 0, dli_inited = False, acbLen = l,
     acbNum = 4, icbLen = 0, icbNum = 0, g_cmdNum = 0, recvAcbHandler = True, sapi_out = [], cmd_out = [], acb_up = [], dli_tasks = []\<rparr>)"

theorem dli_split_receive_roundtrip_witness:
  "\<exists>fl d' gs. DLI_SplitData (dli_start 4) \<lparr>data_lcid = 7, data_type = 0xA3, data_ts = 0, data_prio = 1,
       data_buf = Some \<lparr>buff_addr = 1, dataOff = 5, dataLen = 6, buffLen = 11, buff = [0, 0, 0, 0, 0, 1, 2, 3, 4, 5, 6]\<rparr>\<rparr>
       (replicate 2 (Some (new_buff 2 0 9))) 2 = Some (DLI_SUCCESS, (dli_start 4)\<lparr>pdFlag := fl\<rparr>, d', map Some gs)
     \<and> rx_all (granting_env DTAP_SUCCESS) 0 (map (tl \<circ> buff_data) gs) (dli_start 9)
       = Some ((dli_start 9)\<lparr>acb_up := [(7, [1, 2, 3, 4, 5, 6])]\<rparr>)"
proof -
  let ?b = "\<lparr>buff_addr = 1, dataOff = 5, dataLen = 6, buffLen = 11, buff = [0, 0, 0, 0, 0, 1, 2, 3, 4, 5, 6]\<rparr>"
  let ?d = "\<lparr>data_lcid = 7, data_type = 0xA3, data_ts = 0, data_prio = 1, data_buf = Some ?b\<rparr>"
  have fb: "\<forall>f \<in> set (replicate 2 (Some (new_buff 2 0 9))). frag_buf_ok (DLI_GetFragmentMaxLen (dli_start 4)) f"
    by (simp add: frag_buf_ok_def buff_data_def SDF_BuffTailRoom_def DLI_GetFragmentMaxLen_def dli_start_def
        DLI_LayerInfoInit_def DLI_CmdNumSet_def)
  have n: "length (replicate 2 (Some (new_buff 2 0 9))) = DLI_GetDataFragmentNums 1 (dli_start 4) (Some ?b)"
    by (simp add: DLI_GetDataFragmentNums_def dli_start_def DLI_LayerInfoInit_def DLI_CmdNumSet_def)
  have *: "\<exists>fl d' gs. DLI_SplitData (dli_start 4) ?d (replicate 2 (Some (new_buff 2 0 9))) 2
      = Some (DLI_SUCCESS, (dli_start 4)\<lparr>pdFlag := fl\<rparr>, d', map Some gs)
    \<and> rx_all (granting_env DTAP_SUCCESS) 0 (map (tl \<circ> buff_data) gs) (dli_start 9)
       = Some ((dli_start 9)\<lparr>acb_up := [(7, [1, 2, 3, 4, 5, 6])]\<rparr>)"
    using dli_split_receive_roundtrip [OF alloc_ok_granting [of DTAP_SUCCESS] posts_ok_granting, of ?d ?b "dli_start 4"
        "replicate 2 (Some (new_buff 2 0 9))" 1 "dli_start 9"] fb n
    by (auto simp: dli_start_def DLI_LayerInfoInit_def DLI_CmdNumSet_def buff_ok_def buff_data_def no_node_def
        SDF_BuffHeadRoom_def)
  show ?thesis by (rule *)
qed

section \<open>Robustness of the receiver\<close>

text \<open>
  The collector's invariant: one node per channel, a bounded number of nodes, every node holds a
  well formed buffer of bounded size and waits for a middle or last fragment.
\<close>

definition rx_inv :: "DLI_State \<Rightarrow> bool" where
  "rx_inv s \<longleftrightarrow> distinct (map rn_lcid (dataRx s)) \<and> length (dataRx s) \<le> DLI_DATA_MAX_CNT
     \<and> (\<forall>n \<in> set (dataRx s). buff_ok (rn_buf n) \<and> buffLen (rn_buf n) \<le> DLI_MAX_TXRX_DATA_LEN
          \<and> rn_pb n \<in> {DLI_FIRST_FRAGMENT, DLI_MIDDLE_FRAGMENT})"

lemma node_del_subset: "set (node_del l ns) \<subseteq> set ns"
  by (induction ns) auto

lemma node_del_map: "distinct (map rn_lcid ns) \<Longrightarrow> distinct (map rn_lcid (node_del l ns))"
  using node_del_subset by (induction ns) (auto 4 4)

lemma length_node_del: "length (node_del l ns) \<le> length ns"
  by (induction ns) auto

lemma node_put_lcids: "rn_lcid m = l \<Longrightarrow> map rn_lcid (node_put l m ns) = map rn_lcid ns"
  by (induction ns) auto

lemma length_node_put [simp]: "length (node_put l m ns) = length ns"
  by (induction ns) auto

lemma node_put_subset: "set (node_put l m ns) \<subseteq> insert m (set ns)"
  by (induction ns) auto

lemma node_del_put: "rn_lcid m = l \<Longrightarrow> node_del l (node_put l m ns) = node_del l ns"
  by (induction ns) auto

lemma rx_inv_del: "rx_inv s \<Longrightarrow> rx_inv (s\<lparr>dataRx := node_del l (dataRx s)\<rparr>)"
  using node_del_subset [of l "dataRx s"] length_node_del [of l "dataRx s"]
  by (auto simp: rx_inv_def node_del_map)

definition node_fine :: "DLI_RecvDataNode \<Rightarrow> bool" where
  "node_fine n \<longleftrightarrow> buff_ok (rn_buf n) \<and> buffLen (rn_buf n) \<le> DLI_MAX_TXRX_DATA_LEN"

lemma rx_inv_put:
  "rx_inv s \<Longrightarrow> node_fine m \<Longrightarrow> rn_pb m \<in> {1, 2} \<Longrightarrow> rn_lcid m = l \<Longrightarrow> rx_inv (s\<lparr>dataRx := node_put l m (dataRx s)\<rparr>)"
  using node_put_subset [of l m "dataRx s"]
  by (auto simp: rx_inv_def node_put_lcids node_fine_def)

lemma DLI_ReciveBufUpdate_safe:
  assumes "buff_ok b" "buff_ok new"
  shows "\<exists>r b'. DLI_ReciveBufUpdate b new = Some (r, b') \<and> (r = 0 \<longrightarrow> buff_ok b') \<and> buffLen b' = buffLen b
    \<and> (r = 1 \<longrightarrow> b' = b)"
proof (cases "dataLen new \<le> SDF_BuffTailRoom b \<and> 0 < SDF_BuffTailRoom b")
  case True
  then show ?thesis using DLI_ReciveBufUpdate_ok [OF assms] by auto
next
  case False
  then show ?thesis by (auto simp: DLI_ReciveBufUpdate_def Let_def)
qed

lemma DLI_ReciveDataUpdate_safe:
  assumes "node_fine n" "buff_ok b" "rn_lcid n = l"
  shows "\<exists>r m. DLI_ReciveDataUpdate e n l pb b = Some (r, m)
    \<and> (r \<longrightarrow> node_fine m \<and> rn_lcid m = l \<and> rn_pb m \<in> {rn_pb n, pb})"
proof -
  have n: "buff_ok (rn_buf n)" using assms by (simp add: node_fine_def)
  obtain r nb where 1: "DLI_ReciveBufUpdate (rn_buf n) b = Some (r, nb)" "r = 0 \<longrightarrow> buff_ok nb"
    "buffLen nb = buffLen (rn_buf n)" using DLI_ReciveBufUpdate_safe [OF n assms(2)] by blast
  show ?thesis
  proof (cases "r = 1")
    case False
    then show ?thesis using 1 assms by (simp add: DLI_ReciveDataUpdate_def node_fine_def)
  next
    case True
    define sz where "sz = (if pb = DLI_MIDDLE_FRAGMENT then 2 * dataLen b else dataLen b) + dataLen (rn_buf n)"
    show ?thesis
    proof (cases "sz \<le> 102400 \<and> SDF_BuffNew e sz \<noteq> None")
      case False
      then show ?thesis using True 1(1) by (auto simp: DLI_ReciveDataUpdate_def Let_def simp flip: sz_def split: option.splits)
    next
      case f: True
      then obtain n0 where n0: "SDF_BuffNew e sz = Some n0" "sz \<le> 102400" by blast
      note n0' = SDF_BuffNew_SomeD [OF n0(1)]
      obtain r1 n1 where 2: "DLI_ReciveBufUpdate n0 (rn_buf n) = Some (r1, n1)" "r1 = 0 \<longrightarrow> buff_ok n1"
        "buffLen n1 = sz" using DLI_ReciveBufUpdate_safe [of n0, OF _ n] n0' by auto
      show ?thesis
      proof (cases "r1 = 0")
        case False
        then show ?thesis using True 1(1) n0 2 by (auto simp: DLI_ReciveDataUpdate_def Let_def simp flip: sz_def)
      next
        case t: True
        obtain r2 n2 where "DLI_ReciveBufUpdate n1 b = Some (r2, n2)" "r2 = 0 \<longrightarrow> buff_ok n2" "buffLen n2 = sz"
          using DLI_ReciveBufUpdate_safe [of n1 b] 2 t assms(2) by auto
        then show ?thesis
          using True t 1(1) n0 2 by (auto simp: DLI_ReciveDataUpdate_def node_fine_def Let_def simp flip: sz_def)
      qed
    qed
  qed
qed

lemma DLI_ReceiveDataNodeUpdate_safe:
  assumes "rx_inv s" "buff_ok b" "buffLen b \<le> 102400"
  shows "\<exists>r s1. DLI_ReceiveDataNodeUpdate e b l pb s = Some (r, s1)
    \<and> (pb \<in> {1, 2} \<longrightarrow> rx_inv s1) \<and> rx_inv (s1\<lparr>dataRx := node_del l (dataRx s1)\<rparr>) \<and> (r = None \<longrightarrow> rx_inv s1)
    \<and> acb_up s1 = acb_up s"
proof (cases "DLI_DataNodeFind (dataRx s) l")
  case None
  then have nn: "no_node l (dataRx s)" by (simp add: node_find_None)
  have "rx_inv (s\<lparr>dataRx := node_del l (dataRx s)\<rparr>)" using rx_inv_del assms(1) by blast
  moreover have "rx_inv (s\<lparr>dataRx := dataRx s @ [\<lparr>rn_lcid = l, rn_pb = pb, rn_buf = b\<rparr>]\<rparr>)"
    if "length (dataRx s) < 10000" "pb \<in> {1, 2}"
    using assms that nn by (auto simp: rx_inv_def no_node_def)
  moreover have "node_del l (dataRx s @ [\<lparr>rn_lcid = l, rn_pb = pb, rn_buf = b\<rparr>]) = dataRx s"
    using nn node_find_last(4) [of "\<lparr>rn_lcid = l, rn_pb = pb, rn_buf = b\<rparr>"] by simp
  ultimately show ?thesis
    using None assms(1)
    by (auto simp: DLI_ReceiveDataNodeUpdate_def Let_def DLI_IsFirstPb_def split: option.splits)
next
  case (Some n)
  then have n: "n \<in> set (dataRx s)" "rn_lcid n = l"
    by (auto simp: DLI_DataNodeFind_def find_Some_iff)
  then have nf: "node_fine n" "rn_pb n \<in> {1, 2}" using assms(1) by (auto simp: rx_inv_def node_fine_def)
  note del = rx_inv_del [OF assms(1), of l]
  note del2 = rx_inv_del [OF del, of l]
  let ?m = "n\<lparr>rn_pb := pb, rn_buf := b\<rparr>"
  show ?thesis
  proof (cases "DLI_CheckPb (rn_pb n) pb")
    case False
    then show ?thesis
      using Some del del2 n(2) assms rx_inv_put [OF assms(1), of ?m l] 
      by (auto simp: DLI_ReceiveDataNodeUpdate_def Let_def node_del_put node_fine_def)
  next
    case True
    obtain r m where m: "DLI_ReciveDataUpdate (sub e 1) n l pb b = Some (r, m)"
      "r \<longrightarrow> node_fine m \<and> rn_lcid m = l \<and> rn_pb m \<in> {rn_pb n, pb}"
      using DLI_ReciveDataUpdate_safe [OF nf(1) assms(2) n(2)] by blast
    show ?thesis
      using Some True del del2 m nf(2) rx_inv_put [OF assms(1), of m l]
      by (cases r) (auto simp: DLI_ReceiveDataNodeUpdate_def node_del_put)
  qed
qed

text \<open>
  (C30) No received packet harms the collector: for every packet content and every allocation failure,
  \<open>DLI_AcbPacketReceived\<close> stays inside its buffers, keeps one bounded node per channel, and hands at
  most one packet to the upper layer.
\<close>

theorem dli_receive_safe:
  assumes "rx_inv s" "buff_ok b" "4 \<le> dataLen b" "buffLen b \<le> 102400"
  shows "\<exists>s'. DLI_AcbPacketReceived e b s = Some s' \<and> rx_inv s'
    \<and> (acb_up s' = acb_up s \<or> (\<exists>x. acb_up s' = acb_up s @ [x]))"
proof -
  have rd: "\<exists>w. u16_at b (dataOff b + i) = Some w" if "i + 2 \<le> dataLen b" for i
    using mem_read_data [OF assms(2) that] by (auto simp: u16_at_def)
  obtain h l where hl: "u16_at b (dataOff b) = Some h" "u16_at b (dataOff b + 2) = Some l"
    using rd [of 0] rd [of 2] assms(3) by auto
  obtain b1 where tr: "SDF_BuffTrimPrefix (Some b) 4 = Some (dataOff b + 4, b1)" using assms(3) by auto
  note b1 = SDF_BuffTrimPrefix_Some [OF tr assms(2)]
  let ?pb = "ucast (drop_bit 12 h AND 3) :: u8" and ?lc = "h AND 0xFFF"
  obtain r s1 where u: "DLI_ReceiveDataNodeUpdate e b1 ?lc ?pb s = Some (r, s1)" "?pb \<in> {1, 2} \<longrightarrow> rx_inv s1"
    "rx_inv (s1\<lparr>dataRx := node_del ?lc (dataRx s1)\<rparr>)" "r = None \<longrightarrow> rx_inv s1" "acb_up s1 = acb_up s"
    using DLI_ReceiveDataNodeUpdate_safe [OF assms(1) b1(1), of e ?lc ?pb] b1(8) assms(4) by auto
  have up: "rx_inv (DLI_AcbRecvHander x c t) = rx_inv t" "acb_up (DLI_AcbRecvHander x c t) = acb_up t
     \<or> (\<exists>y. acb_up (DLI_AcbRecvHander x c t) = acb_up t @ [y])" for x c t
    by (auto simp: rx_inv_def DLI_AcbRecvHander_def)
  show ?thesis
  proof (cases "dataLen b < 4 \<or> unat l \<noteq> dataLen b - 4")
    case True
    then show ?thesis using hl assms(1) by (simp add: DLI_AcbPacketReceived_def)
  next
    case False
    have "\<exists>s'. DLI_AcbPacketReceived e b s = Some s' \<and>
      (s' = s \<or> s' = DLI_AcbRecvHander ?lc b1 s \<or> s' = s1 \<and> (r = None \<or> ?pb \<in> {1, 2})
        \<or> (case r of None \<Rightarrow> False | Some n \<Rightarrow> s' = DLI_AcbRecvHander ?lc (rn_buf n) (s1\<lparr>dataRx := node_del ?lc (dataRx s1)\<rparr>)))"
      using hl False u(1) tr
      by (cases r) (auto simp: DLI_AcbPacketReceived_def Let_def simp del: SDF_BuffTrimPrefix.simps)
    then obtain s' where "DLI_AcbPacketReceived e b s = Some s'" and s': "s' = s \<or> s' = DLI_AcbRecvHander ?lc b1 s 
        \<or> s' = s1 \<and> (r = None \<or> ?pb \<in> {1, 2})
        \<or> (case r of None \<Rightarrow> False | Some n \<Rightarrow> s' = DLI_AcbRecvHander ?lc (rn_buf n) (s1\<lparr>dataRx := node_del ?lc (dataRx s1)\<rparr>))" by blast
    moreover have "rx_inv s'" using s' u assms(1) up(1) by (auto split: option.splits)
    moreover have "acb_up s' = acb_up s \<or> (\<exists>x. acb_up s' = acb_up s @ [x])"
      using s' u(5) up(2) [of ?lc b1 s] up(2) [of ?lc _ "s1\<lparr>dataRx := node_del ?lc (dataRx s1)\<rparr>"]
      by (auto split: option.splits)
    ultimately show ?thesis by blast
  qed
qed

theorem dli_receive_safe_witness:
  "\<exists>s'. DLI_AcbPacketReceived (granting_env DTAP_SUCCESS)
      \<lparr>buff_addr = 1, dataOff = 0, dataLen = 5, buffLen = 5, buff = [7, 0x30, 1, 0, 9]\<rparr> (dli_start 4) = Some s' \<and> rx_inv s'"
  using dli_receive_safe [of "dli_start 4" "\<lparr>buff_addr = 1, dataOff = 0, dataLen = 5, buffLen = 5, buff = [7, 0x30, 1, 0, 9]\<rparr>"
      "granting_env DTAP_SUCCESS"]
  by (auto simp: rx_inv_def buff_ok_def dli_start_def DLI_LayerInfoInit_def DLI_CmdNumSet_def)

end
