(* ===== verification/Dli_Cmd.thy ===== *)
theory Dli_Cmd
  imports Dli_Layer
begin

text \<open>
  The command queue of the data link interface layer: commands wait in \<open>cmdTx\<close> until the controller
  grants a credit, are matched with the events that answer them, and time out. Two threads take part:
  the layer's own thread sends and matches, the control plane thread runs the event and timeout
  callbacks, which set the credit and ask for the next command. The list belongs to the layer's thread;
  the two threads share the credit \<open>g_cmdNum\<close>, read and written by single atomic operations. The send
  loop is therefore given twice: as the function \<open>cmd_send_loop\<close>, what it does undisturbed, and as a
  step relation that stops before every access to the credit, so that the control plane can run between
  the test of the credit and its payment.
\<close>

section \<open>Credits and sending\<close>

definition DLI_IsCmdAllow :: "DLI_State \<Rightarrow> bool" where
  "DLI_IsCmdAllow s \<longleftrightarrow> g_cmdNum s > 0"

definition DLI_CmdNumSubOne :: "DLI_State \<Rightarrow> DLI_State" where
  "DLI_CmdNumSubOne s = s\<lparr>g_cmdNum := (g_cmdNum s + 65536 - DLI_DEFAULT_CMD_NUM) mod 65536\<rparr>"

definition DLI_DefaultCmdStruCreate :: "nat \<Rightarrow> 'r env \<Rightarrow> u16 \<Rightarrow> u16 \<Rightarrow> bytes \<Rightarrow> DLI_CmdStru option" where
  "DLI_DefaultCmdStruCreate szCmdStru e cmd event par =
     (if \<not> length par \<le> 65535 - DLI_HEADER - szCmdStru then None
      else (case SDF_MemZalloc e of
        None \<Rightarrow> None
      | Some a \<Rightarrow> Some \<lparr>needErase = False, ci_cmd = cmd, ci_event = event, parLen = length par, ci_context = None,
          timeoutCallback = False, ci_par = replicate DLI_HEADER 0 @ par\<rparr>))"

definition DLI_CmdNodeCreate :: "'r env \<Rightarrow> DLI_CmdStru \<Rightarrow> DLI_CmdTxNode option" where
  "DLI_CmdNodeCreate e cmd =
     (case SDF_MemZalloc e of
        None \<Rightarrow> None
      | Some a \<Rightarrow> Some \<lparr>cn_id = a, isSent = False, isRecvStatusEvt = False, cn_handle = -1, cn_info = cmd\<rparr>)"

text \<open>The bytes the driver gets: the header is written over the first five bytes of the parameter area.\<close>

definition DLI_CmdListSendInner :: "'r env \<Rightarrow> DLI_CmdStru \<Rightarrow> bool \<times> DLI_CmdStru \<times> bytes" where
  "DLI_CmdListSendInner e info =
     (let par = 0xA1 # ENCODE2BYTE_LITTLE (ci_cmd info) @ ENCODE2BYTE_LITTLE (of_nat (parLen info)) @ drop DLI_HEADER (ci_par info)
      in (call_dli e, info\<lparr>ci_par := par\<rparr>, take (parLen info + DLI_HEADER) par))"

fun cmd_send_loop :: "'r env \<Rightarrow> nat \<Rightarrow> DLI_CmdTxNode list \<Rightarrow> DLI_State \<Rightarrow> DLI_CmdTxNode list \<times> DLI_State" where
  "cmd_send_loop e k [] s = ([], s)"
| "cmd_send_loop e k (n # ns) s =
     (if \<not> DLI_IsCmdAllow s then (n # ns, s)
      else if isSent n then (case cmd_send_loop e (Suc k) ns s of (ms, s') \<Rightarrow> (n # ms, s'))
      else (case DLI_CmdListSendInner (sub (sub e k) 0) (cn_info n) of
        (ok, info, bs) \<Rightarrow>
          if \<not> ok then (n\<lparr>cn_info := info\<rparr> # ns, s)
          else (let m = n\<lparr>isSent := True, cn_info := info,
                       cn_handle := (case CP_TimerAdd (sub (sub e k) 1) of None \<Rightarrow> cn_handle n | Some h \<Rightarrow> h)\<rparr>
                in case cmd_send_loop e (Suc k) ns (DLI_CmdNumSubOne (s\<lparr>cmd_out := cmd_out s @ [bs]\<rparr>)) of
                     (ms, s') \<Rightarrow> (m # ms, s'))))"

definition DLI_CmdListSend :: "'r env \<Rightarrow> DLI_State \<Rightarrow> DLI_State" where
  "DLI_CmdListSend e s = (case cmd_send_loop e 0 (cmdTx s) s of (ms, s') \<Rightarrow> s'\<lparr>cmdTx := ms\<rparr>)"

definition DLI_CmdAddToList :: "DLI_CmdTxNode \<Rightarrow> DLI_State \<Rightarrow> DLI_errno \<times> DLI_State" where
  "DLI_CmdAddToList n s =
     (if \<not> length (cmdTx s) \<le> DLI_DATA_MAX_CNT then (DLI_STACK_MEM_ERRNO, s)
      else (DLI_SUCCESS, s\<lparr>cmdTx := cmdTx s @ [n]\<rparr>))"

definition DLI_CmdSendInner :: "'r env \<Rightarrow> DLI_CmdTxNode \<Rightarrow> DLI_State \<Rightarrow> DLI_State" where
  "DLI_CmdSendInner e n s =
     (if \<not> dli_inited s then s
      else (case DLI_CmdAddToList n s of
        (ret, s1) \<Rightarrow> (let s2 = DLI_CmdListSend e s1 in
          if ret = DLI_SUCCESS then s2 else snd (DLI_CmdAddToList n s2))))"

text \<open>\<open>DLI_CmdSend\<close> posts \<open>DLI_CmdSendInner\<close> with the new node; the node is the second result.\<close>

definition DLI_CmdSend :: "'r env \<Rightarrow> DLI_CmdStru option \<Rightarrow> DLI_errno \<times> DLI_CmdTxNode option" where
  "DLI_CmdSend e cmd =
     (case cmd of
        None \<Rightarrow> (DLI_STACK_PARAMS_ERRNO, None)
      | Some c \<Rightarrow> (case DLI_CmdNodeCreate (sub e 0) c of
          None \<Rightarrow> (DLI_STACK_MEM_ERRNO, None)
        | Some n \<Rightarrow> if call_dli (sub e 1) then (DLI_SUCCESS, Some n) else (DLI_POST_ERRNO, None)))"

section \<open>Matching events with commands\<close>

abbreviation (input) DLI_STATUS_EVENT :: u16 where "DLI_STATUS_EVENT \<equiv> 1"
abbreviation (input) DLI_COMPLETE_EVENT :: u16 where "DLI_COMPLETE_EVENT \<equiv> 2"
abbreviation (input) DLI_UNKNOWN_COMMAND :: u8 where "DLI_UNKNOWN_COMMAND \<equiv> 1"

definition DLI_CmdNodeFind :: "DLI_CmdTxNode list \<Rightarrow> u16 \<Rightarrow> u16 \<Rightarrow> DLI_CmdTxNode option" where
  "DLI_CmdNodeFind ns event opcode =
     find (\<lambda>n. (opcode = 0 \<or> ci_cmd (cn_info n) = opcode) \<and> ci_event (cn_info n) = event) ns"

definition DLI_CmdNodeFindByOpcode :: "DLI_CmdTxNode list \<Rightarrow> u16 \<Rightarrow> DLI_CmdTxNode option" where
  "DLI_CmdNodeFindByOpcode ns opcode = find (\<lambda>n. opcode = 0 \<or> ci_cmd (cn_info n) = opcode) ns"

definition DLI_CmdNodeFindNotRecvStatus :: "DLI_CmdTxNode list \<Rightarrow> u16 \<Rightarrow> DLI_CmdTxNode option" where
  "DLI_CmdNodeFindNotRecvStatus ns opcode =
     find (\<lambda>n. (opcode = 0 \<or> ci_cmd (cn_info n) = opcode) \<and> \<not> isRecvStatusEvt n) ns"

text \<open>A node found in the list is addressed by its identity when it is marked or unlinked.\<close>

definition cmd_put :: "DLI_CmdTxNode \<Rightarrow> DLI_CmdTxNode list \<Rightarrow> DLI_CmdTxNode list" where
  "cmd_put m ns = map (\<lambda>n. if cn_id n = cn_id m then m else n) ns"

definition cmd_del :: "nat \<Rightarrow> DLI_CmdTxNode list \<Rightarrow> DLI_CmdTxNode list" where
  "cmd_del i ns = filter (\<lambda>n. cn_id n \<noteq> i) ns"

definition cmd_unlink :: "DLI_CmdTxNode option \<Rightarrow> DLI_State \<Rightarrow> DLI_CmdTxNode option \<times> DLI_State" where
  "cmd_unlink r s =
     (case r of
        None \<Rightarrow> (None, s)
      | Some n \<Rightarrow> if \<not> isSent n then (None, s)
                  else (Some (n\<lparr>cn_handle := -1\<rparr>), s\<lparr>cmdTx := cmd_del (cn_id n) (cmdTx s)\<rparr>))"

definition DLI_CmdNodeRemove :: "u16 \<Rightarrow> u16 \<Rightarrow> u8 \<Rightarrow> DLI_State \<Rightarrow> DLI_CmdTxNode option \<times> DLI_State" where
  "DLI_CmdNodeRemove event opcode status s =
     (if status = 0 then
        (if event = DLI_STATUS_EVENT then
           (case DLI_CmdNodeFindNotRecvStatus (cmdTx s) opcode of
              None \<Rightarrow> (None, s)
            | Some n \<Rightarrow> (None, s\<lparr>cmdTx := cmd_put (n\<lparr>isRecvStatusEvt := True\<rparr>) (cmdTx s)\<rparr>))
         else if event = DLI_COMPLETE_EVENT then cmd_unlink (DLI_CmdNodeFind (cmdTx s) event opcode) s
         else (case DLI_CmdNodeFind (cmdTx s) event opcode of
             None \<Rightarrow> (None, s)
           | Some n \<Rightarrow> if \<not> isRecvStatusEvt n then (None, s) else cmd_unlink (Some n) s))
      else
        (if event = DLI_STATUS_EVENT then cmd_unlink (DLI_CmdNodeFindNotRecvStatus (cmdTx s) opcode) s
         else cmd_unlink (DLI_CmdNodeFindByOpcode (cmdTx s) opcode) s))"

text \<open>Both event bodies are packed: opcode (2), credit (1), then the status byte.\<close>

definition DLI_EventGetStatus :: "SDF_Buff \<Rightarrow> u16 \<Rightarrow> u8 option" where
  "DLI_EventGetStatus b event =
     (if event = DLI_STATUS_EVENT \<or> event = DLI_COMPLETE_EVENT then
        (if dataLen b \<ge> 4 then map_option (\<lambda>bs. bs ! 0) (mem_read b (dataOff b + 3) 1)
         else Some DLI_UNKNOWN_COMMAND)
      else Some 0)"

text \<open>Tasks for the control plane thread.\<close>

datatype cp_task = CpEvent u16 "DLI_CmdTxNode option" SDF_Buff | CpTimeout DLI_CmdTxNode

definition DLI_EventPacketReceived :: "'r env \<Rightarrow> SDF_Buff \<Rightarrow> DLI_State \<Rightarrow> (DLI_State \<times> cp_task list) option" where
  "DLI_EventPacketReceived e b s = do {
     event \<leftarrow> u16_at b (dataOff b);
     opcode \<leftarrow> (if (event = DLI_STATUS_EVENT \<or> event = DLI_COMPLETE_EVENT) \<and> dataLen b \<ge> DLI_HEADER_WITHOUT_TYPE_SIZE + 2
                then u16_at b (dataOff b + DLI_HEADER_WITHOUT_TYPE_SIZE) else Some 0);
     let b1 = (case SDF_BuffTrimPrefix (Some b) DLI_HEADER_WITHOUT_TYPE_SIZE of None \<Rightarrow> b | Some (off, c) \<Rightarrow> c);
     status \<leftarrow> DLI_EventGetStatus b1 event;
     let (node, s1) = DLI_CmdNodeRemove event opcode status s;
     Some (s1, if SDF_MemZalloc (sub e 0) \<noteq> None \<and> call_dli (sub e 1) then [CpEvent event node b1] else [])
   }"

text \<open>
  The timer of a sent command fires: the node leaves the list, its timeout callback is posted, and the
  layer is asked to send the next command (the boolean).
\<close>

definition DLI_CmdTimerCallback :: "'r env \<Rightarrow> DLI_CmdTxNode \<Rightarrow> DLI_State \<Rightarrow> DLI_State \<times> cp_task list \<times> bool" where
  "DLI_CmdTimerCallback e n s =
     (s\<lparr>cmdTx := cmd_del (cn_id n) (cmdTx s)\<rparr>,
      if timeoutCallback (cn_info n) \<and> call_dli (sub e 0) then [CpTimeout n] else [],
      dli_inited s \<and> call_dli (sub e 1))"

section \<open>The control plane's side\<close>

text \<open>
  \<open>RecvEventHandler\<close> sets the credit from a completion event, runs the registered callback (for a status
  event \<open>DLI_CommandStatusCbk\<close>, which sets the credit too), and asks for the next command.
\<close>

definition DLI_CommandStatusCbk :: "bytes \<Rightarrow> DLI_State \<Rightarrow> DLI_State" where
  "DLI_CommandStatusCbk d s = (if length d \<ge> 4 then DLI_CmdNumSet (unat (d ! 2)) s else s)"

definition RecvEventHandler :: "'r env \<Rightarrow> u16 \<Rightarrow> nat option \<Rightarrow> bytes \<Rightarrow> DLI_State \<Rightarrow> DLI_State \<times> bool" where
  "RecvEventHandler e event ctx d s =
     (if (event = DLI_COMPLETE_EVENT \<and> ctx = None) \<or> d = [] then (s, False)
      else (let s1 = (if event = DLI_COMPLETE_EVENT \<and> length d \<ge> 3 then DLI_CmdNumSet (unat (d ! 2)) s else s);
                s2 = (if event = DLI_STATUS_EVENT then DLI_CommandStatusCbk d s1 else s1)
            in (s2, dli_inited s \<and> call_dli e)))"

definition DLI_EventTask :: "'r env \<Rightarrow> u16 \<Rightarrow> DLI_CmdTxNode option \<Rightarrow> SDF_Buff \<Rightarrow> DLI_State \<Rightarrow> DLI_State \<times> bool" where
  "DLI_EventTask e event node b s =
     RecvEventHandler e event (case node of None \<Rightarrow> None | Some n \<Rightarrow> ci_context (cn_info n)) (buff_data b) s"

definition TimeoutCallback :: "'r env \<Rightarrow> DLI_CmdTxNode \<Rightarrow> DLI_State \<Rightarrow> DLI_State \<times> bool" where
  "TimeoutCallback e n s =
     (let s1 = (if ci_event (cn_info n) = DLI_COMPLETE_EVENT \<or> \<not> isRecvStatusEvt n
                then DLI_CmdNumSet DLI_DEFAULT_CMD_NUM s else s)
      in RecvEventHandler e 0xEE (ci_context (cn_info n))
           (ENCODE2BYTE_LITTLE 0x0D @ ENCODE2BYTE_LITTLE (ci_cmd (cn_info n)) @ ENCODE2BYTE_LITTLE (ci_event (cn_info n)) @ [0]) s1)"

fun run_cp_task :: "'r env \<Rightarrow> cp_task \<Rightarrow> DLI_State \<Rightarrow> DLI_State \<times> bool" where
  "run_cp_task e (CpEvent event node b) s = DLI_EventTask e event node b s"
| "run_cp_task e (CpTimeout n) s = TimeoutCallback e n s"


section \<open>The two threads as a transition system\<close>

definition cmd_image :: "DLI_CmdStru \<Rightarrow> bytes" where
  "cmd_image info = take (parLen info + DLI_HEADER)
     (0xA1 # ENCODE2BYTE_LITTLE (ci_cmd info) @ ENCODE2BYTE_LITTLE (of_nat (parLen info)) @ drop DLI_HEADER (ci_par info))"

text \<open>
  Where the layer's thread stands: between two tasks, before the test of the credit for the \<open>i\<close>-th node,
  before the node is given to the driver, or before the credit is paid for it. The three kinds of steps
  of one round of the loop in \<open>DLI_CmdListSend\<close>: the test of the credit and of \<open>isSent\<close>; the call of
  the driver with the mark and the timer of the node; the atomic decrement.
\<close>

datatype loop_pc = Idle | Test nat | Send nat | Pay nat

definition loop_test :: "nat \<Rightarrow> DLI_State \<Rightarrow> loop_pc" where
  "loop_test i s =
     (if i \<ge> length (cmdTx s) then Idle
      else if \<not> DLI_IsCmdAllow s then Idle
      else if isSent (cmdTx s ! i) then Test (Suc i)
      else Send i)"

definition loop_send :: "'r env \<Rightarrow> nat \<Rightarrow> DLI_State \<Rightarrow> loop_pc \<times> DLI_State" where
  "loop_send e i s =
     (let n = cmdTx s ! i in
      case DLI_CmdListSendInner (sub e 0) (cn_info n) of (ok, info, bs) \<Rightarrow>
        if \<not> ok then (Idle, s\<lparr>cmdTx := (cmdTx s)[i := n\<lparr>cn_info := info\<rparr>]\<rparr>)
        else (Pay i, s\<lparr>cmd_out := cmd_out s @ [bs],
              cmdTx := (cmdTx s)[i := n\<lparr>isSent := True, cn_info := info,
                cn_handle := (case CP_TimerAdd (sub e 1) of None \<Rightarrow> cn_handle n | Some h \<Rightarrow> h)\<rparr>]\<rparr>))"

definition loop_pay :: "nat \<Rightarrow> DLI_State \<Rightarrow> loop_pc \<times> DLI_State" where
  "loop_pay i s = (Test (Suc i), DLI_CmdNumSubOne s)"

inductive loop_step :: "loop_pc \<times> DLI_State \<Rightarrow> loop_pc \<times> DLI_State \<Rightarrow> bool" where
  test: "loop_step (Test i, s) (loop_test i s, s)"
| send: "loop_step (Send i, s) (loop_send (e :: dtap_env) i s)"
| pay: "loop_step (Pay i, s) (loop_pay i s)"

inductive_cases loop_stepE: "loop_step (p, s) q"

text \<open>
  The layer, the place of its thread in the send loop, the command that found the list full and is to
  be offered again after the loop, the tasks waiting in the control plane thread, the number of posted
  send requests, and the history of the commands the queue accepted. The handlers of the layer's thread
  start only when it is at rest; the callbacks of the control plane run at any moment.
\<close>

record cmd_sys =
  sys :: DLI_State
  loop_pos :: loop_pc
  retry :: "DLI_CmdTxNode option"
  cp_queue :: "cp_task list"
  send_requests :: nat
  submitted :: "bytes list"

definition at_rest :: "cmd_sys \<Rightarrow> bool" where
  "at_rest c \<longleftrightarrow> loop_pos c = Idle \<and> retry c = None"

text \<open>\<open>DLI_CmdAddToList\<close> on the composed state, with the history of what it accepted.\<close>

definition cmd_enqueue :: "DLI_CmdTxNode \<Rightarrow> cmd_sys \<Rightarrow> DLI_errno \<times> cmd_sys" where
  "cmd_enqueue n c =
     (case DLI_CmdAddToList n (sys c) of (ret, s) \<Rightarrow>
        (ret, c\<lparr>sys := s, submitted := submitted c @ (if ret = DLI_SUCCESS then [cmd_image (cn_info n)] else [])\<rparr>))"

inductive cmd_step :: "cmd_sys \<Rightarrow> cmd_sys \<Rightarrow> bool" where
  refuse: "\<lbrakk>at_rest c; \<not> dli_inited (sys c)\<rbrakk> \<Longrightarrow> cmd_step c c"
| submit: "\<lbrakk>at_rest c; dli_inited (sys c); \<not> isSent n; cn_id n \<notin> cn_id ` set (cmdTx (sys c)); cmd_enqueue n c = (ret, c')\<rbrakk> \<Longrightarrow>
     cmd_step c (c'\<lparr>loop_pos := Test 0, retry := if ret = DLI_SUCCESS then None else Some n\<rparr>)"
| loop: "loop_step (loop_pos c, sys c) (p, s) \<Longrightarrow> cmd_step c (c\<lparr>loop_pos := p, sys := s\<rparr>)"
| again: "\<lbrakk>loop_pos c = Idle; retry c = Some n; cmd_enqueue n c = (ret, c')\<rbrakk> \<Longrightarrow> cmd_step c (c'\<lparr>retry := None\<rparr>)"
| event: "\<lbrakk>at_rest c; DLI_EventPacketReceived (e :: dtap_env) b (sys c) = Some (s', ts)\<rbrakk> \<Longrightarrow>
     cmd_step c (c\<lparr>sys := s', cp_queue := cp_queue c @ ts\<rparr>)"
| timer: "\<lbrakk>at_rest c; n \<in> set (cmdTx (sys c)); isSent n; DLI_CmdTimerCallback (e :: dtap_env) n (sys c) = (s', ts, w)\<rbrakk> \<Longrightarrow>
     cmd_step c (c\<lparr>sys := s', cp_queue := cp_queue c @ ts, send_requests := send_requests c + of_bool w\<rparr>)"
| request: "\<lbrakk>at_rest c; send_requests c = Suc k\<rbrakk> \<Longrightarrow> cmd_step c (c\<lparr>loop_pos := Test 0, send_requests := k\<rparr>)"
| callback: "\<lbrakk>cp_queue c = t # ts; run_cp_task (e :: dtap_env) t (sys c) = (s', w)\<rbrakk> \<Longrightarrow>
     cmd_step c (c\<lparr>sys := s', cp_queue := ts, send_requests := send_requests c + of_bool w\<rparr>)"

inductive_cases cmd_stepE: "cmd_step c c'"

definition unsent :: "DLI_CmdTxNode list \<Rightarrow> bytes list" where
  "unsent ns = map (cmd_image \<circ> cn_info) (filter (\<lambda>n. \<not> isSent n) ns)"

definition sent_first :: "DLI_CmdTxNode list \<Rightarrow> bool" where
  "sent_first ns \<longleftrightarrow> (\<forall>n \<in> set (dropWhile isSent ns). \<not> isSent n)"

text \<open>
  The nodes the loop has passed are sent, the node it is about to send is not, and a command waiting for
  its second attempt is new to the list.
\<close>

fun pc_ok :: "loop_pc \<Rightarrow> DLI_CmdTxNode list \<Rightarrow> bool" where
  "pc_ok Idle ns \<longleftrightarrow> True"
| "pc_ok (Test i) ns \<longleftrightarrow> (\<forall>n \<in> set (take i ns). isSent n)"
| "pc_ok (Send i) ns \<longleftrightarrow> i < length ns \<and> (\<forall>n \<in> set (take i ns). isSent n) \<and> \<not> isSent (ns ! i)"
| "pc_ok (Pay i) ns \<longleftrightarrow> i < length ns \<and> (\<forall>n \<in> set (take (Suc i) ns). isSent n)"

definition queue_ok :: "DLI_State \<Rightarrow> bytes list \<Rightarrow> bool" where
  "queue_ok s h \<longleftrightarrow> distinct (map cn_id (cmdTx s)) \<and> sent_first (cmdTx s) \<and> cmd_out s @ unsent (cmdTx s) = h"

definition cmd_inv :: "cmd_sys \<Rightarrow> bool" where
  "cmd_inv c \<longleftrightarrow> queue_ok (sys c) (submitted c) \<and> pc_ok (loop_pos c) (cmdTx (sys c))
     \<and> (\<forall>n. retry c = Some n \<longrightarrow> \<not> isSent n \<and> cn_id n \<notin> cn_id ` set (cmdTx (sys c)))"

subsection \<open>The send loop\<close>

lemma unsent_simps [simp]:
  "unsent [] = []" "isSent n \<Longrightarrow> unsent (n # ns) = unsent ns"
  "\<not> isSent n \<Longrightarrow> unsent (n # ns) = cmd_image (cn_info n) # unsent ns" "unsent (ms @ ns) = unsent ms @ unsent ns"
  by (simp_all add: unsent_def)

lemma cmd_image_reheader [simp]:
  "cmd_image (info\<lparr>ci_par := 0xA1 # ENCODE2BYTE_LITTLE x @ ENCODE2BYTE_LITTLE y @ drop 5 (ci_par info)\<rparr>) = cmd_image info"
  by (simp add: cmd_image_def ENCODE2BYTE_LITTLE_def)

lemma CmdListSendInner_eq:
  "DLI_CmdListSendInner e info = (call_dli e, info\<lparr>ci_par := 0xA1 # ENCODE2BYTE_LITTLE (ci_cmd info)
      @ ENCODE2BYTE_LITTLE (of_nat (parLen info)) @ drop 5 (ci_par info)\<rparr>, cmd_image info)"
  by (simp add: DLI_CmdListSendInner_def cmd_image_def Let_def)

text \<open>Whatever fails, the loop sends a prefix of the waiting commands and pays one credit for each.\<close>

lemma cmd_send_loop_prefix:
  assumes "cmd_send_loop e k ns s = (ms, s')" "g_cmdNum s < 65536"
  shows "\<exists>j \<le> g_cmdNum s. cmd_out s' = cmd_out s @ take j (unsent ns) \<and> unsent ms = drop j (unsent ns)
    \<and> j \<le> length (unsent ns) \<and> g_cmdNum s' = g_cmdNum s - j \<and> map cn_id ms = map cn_id ns
    \<and> s' = s\<lparr>cmd_out := cmd_out s', g_cmdNum := g_cmdNum s'\<rparr>
    \<and> (posts_ok e \<longrightarrow> j = min (g_cmdNum s) (length (unsent ns)))"
  using assms
proof (induction e k ns s arbitrary: ms s' rule: cmd_send_loop.induct)
  case (1 e k s)
  then show ?case by auto
next
  case (2 e k n ns s)
  show ?case
  proof (cases "g_cmdNum s = 0")
    case True
    then show ?thesis using 2(3) by (auto simp: DLI_IsCmdAllow_def)
  next
    case pos: False
    show ?thesis
    proof (cases "isSent n")
      case True
      then obtain ms' where m: "cmd_send_loop e (Suc k) ns s = (ms', s')" "ms = n # ms'"
        using 2(3) pos by (auto simp: DLI_IsCmdAllow_def split: prod.splits)
      from 2(1) [OF _ True m(1) 2(4)] pos True m(2) show ?thesis by (simp add: DLI_IsCmdAllow_def)
    next
      case f: False
      define s1 where "s1 = DLI_CmdNumSubOne (s\<lparr>cmd_out := cmd_out s @ [cmd_image (cn_info n)]\<rparr>)"
      have s1: "g_cmdNum s1 = g_cmdNum s - 1" "cmd_out s1 = cmd_out s @ [cmd_image (cn_info n)]"
        "s1 = s\<lparr>cmd_out := cmd_out s1, g_cmdNum := g_cmdNum s1\<rparr>"
        using pos 2(4) by (simp_all add: s1_def DLI_CmdNumSubOne_def mod_if)
      show ?thesis
      proof (cases "call_dli (sub (sub e k) 0)")
        case False
        then have "ms = n\<lparr>cn_info := (cn_info n)\<lparr>ci_par := 0xA1 # ENCODE2BYTE_LITTLE (ci_cmd (cn_info n))
            @ ENCODE2BYTE_LITTLE (of_nat (parLen (cn_info n))) @ drop 5 (ci_par (cn_info n))\<rparr>\<rparr> # ns" "s' = s" "\<not> posts_ok e"
          using 2(3) pos f posts_okD [of "sub (sub e k) 0"] by (auto simp: DLI_IsCmdAllow_def CmdListSendInner_eq)
        then show ?thesis using f by (intro exI [of _ 0]) simp
      next
        case True
        obtain ms' m where m: "cmd_send_loop e (Suc k) ns s1 = (ms', s')" "ms = m # ms'" "isSent m" "cn_id m = cn_id n"
          using 2(3) pos f True
          by (auto simp: DLI_IsCmdAllow_def CmdListSendInner_eq Let_def s1_def split: prod.splits)
        have "\<exists>j \<le> g_cmdNum s1. cmd_out s' = cmd_out s1 @ take j (unsent ns) \<and> unsent ms' = drop j (unsent ns)
          \<and> j \<le> length (unsent ns) \<and> g_cmdNum s' = g_cmdNum s1 - j \<and> map cn_id ms' = map cn_id ns
          \<and> s' = s1\<lparr>cmd_out := cmd_out s', g_cmdNum := g_cmdNum s'\<rparr>
          \<and> (posts_ok e \<longrightarrow> j = min (g_cmdNum s1) (length (unsent ns)))"
          using 2(2) [OF _ f CmdListSendInner_eq [symmetric] refl _ refl, folded s1_def, OF _ _ m(1)] True pos s1(1) 2(4)
          by (simp add: DLI_IsCmdAllow_def)
        then obtain j where j: "j \<le> g_cmdNum s - 1" "cmd_out s' = cmd_out s1 @ take j (unsent ns)" "unsent ms' = drop j (unsent ns)"
          "j \<le> length (unsent ns)" "g_cmdNum s' = g_cmdNum s - 1 - j" "map cn_id ms' = map cn_id ns"
          "s' = s1\<lparr>cmd_out := cmd_out s', g_cmdNum := g_cmdNum s'\<rparr>"
          "posts_ok e \<longrightarrow> j = min (g_cmdNum s - 1) (length (unsent ns))" unfolding s1(1) by blast
        have "s' = s\<lparr>cmd_out := cmd_out s', g_cmdNum := g_cmdNum s'\<rparr>"
          by (subst j(7), subst s1(3)) simp
        then show ?thesis
          using j(1-6,8) s1(2) f m(2-4) pos by (intro exI [of _ "Suc j"]) auto
      qed
    qed
  qed
qed

lemma sent_first_Cons [simp]:
  "sent_first []"
  "sent_first (n # ns) = (if isSent n then sent_first ns else (\<forall>m \<in> set ns. \<not> isSent m))"
  by (auto simp: sent_first_def)

lemma sent_first_unsent: "\<forall>m \<in> set ns. \<not> isSent m \<Longrightarrow> sent_first ns"
  by (cases ns) auto

lemma sent_first_filter: "sent_first ns \<Longrightarrow> sent_first (filter P ns)"
  by (induction ns) (auto intro: sent_first_unsent split: if_splits)

lemma sent_first_snoc: "sent_first ns \<Longrightarrow> \<not> isSent n \<Longrightarrow> sent_first (ns @ [n])"
  by (induction ns) (auto split: if_splits)

lemma cmd_del_props:
  "sent_first ns \<Longrightarrow> sent_first (cmd_del i ns)" "distinct (map cn_id ns) \<Longrightarrow> distinct (map cn_id (cmd_del i ns))"
  by (auto simp: cmd_del_def sent_first_filter distinct_map_filter)

lemma cmd_del_unsent:
  assumes "n \<in> set ns" "isSent n" "distinct (map cn_id ns)"
  shows "unsent (cmd_del (cn_id n) ns) = unsent ns"
  using assms
proof (induction ns)
  case (Cons m ns)
  show ?case
  proof (cases "m = n")
    case True
    then have "cmd_del (cn_id n) ns = ns" using Cons.prems(3) by (auto simp: cmd_del_def filter_id_conv image_iff)
    then show ?thesis using True Cons.prems(2) by (simp add: cmd_del_def)
  next
    case False
    then have "n \<in> set ns" "cn_id m \<noteq> cn_id n" using Cons.prems by auto
    then show ?thesis using Cons by (cases "isSent m") (simp_all add: cmd_del_def)
  qed
qed simp

lemma cmd_put_mark:
  assumes "n \<in> set ns" "distinct (map cn_id ns)"
  shows "map cn_id (cmd_put (n\<lparr>isRecvStatusEvt := True\<rparr>) ns) = map cn_id ns"
    and "map isSent (cmd_put (n\<lparr>isRecvStatusEvt := True\<rparr>) ns) = map isSent ns"
    and "map cn_info (cmd_put (n\<lparr>isRecvStatusEvt := True\<rparr>) ns) = map cn_info ns"
proof -
  have "cn_id x = cn_id n \<Longrightarrow> x \<in> set ns \<Longrightarrow> x = n" for x
    using assms by (auto simp: distinct_map inj_on_def)
  then show "map cn_id (cmd_put (n\<lparr>isRecvStatusEvt := True\<rparr>) ns) = map cn_id ns"
    "map isSent (cmd_put (n\<lparr>isRecvStatusEvt := True\<rparr>) ns) = map isSent ns"
    "map cn_info (cmd_put (n\<lparr>isRecvStatusEvt := True\<rparr>) ns) = map cn_info ns"
    by (auto simp: cmd_put_def)
qed

lemma sent_first_cong: "map isSent ms = map isSent ns \<Longrightarrow> sent_first ms = sent_first ns"
proof (induction ms arbitrary: ns)
  case (Cons m ms)
  then obtain n ns' where "ns = n # ns'" "isSent n = isSent m" "map isSent ms = map isSent ns'" by (cases ns) auto
  moreover have "(\<forall>m \<in> set ms. \<not> isSent m) = (\<forall>m \<in> set ns'. \<not> isSent m)"
    using arg_cong [OF \<open>map isSent ms = map isSent ns'\<close>, of set] by (auto simp: image_def set_eq_iff)
  ultimately show ?case using Cons.IH by simp
qed simp

lemma unsent_cong: "map isSent ms = map isSent ns \<Longrightarrow> map cn_info ms = map cn_info ns \<Longrightarrow> unsent ms = unsent ns"
proof (induction ms arbitrary: ns)
  case (Cons m ms)
  then obtain n ns' where "ns = n # ns'" "isSent n = isSent m" "map isSent ms = map isSent ns'"
    "cn_info n = cn_info m" "map cn_info ms = map cn_info ns'" by (cases ns) auto
  then show ?case using Cons.IH by (cases "isSent m") auto
qed simp

text \<open>What every handler other than a submission keeps.\<close>

definition queue_kept :: "DLI_State \<Rightarrow> DLI_State \<Rightarrow> bool" where
  "queue_kept s s' \<longleftrightarrow> (distinct (map cn_id (cmdTx s)) \<longrightarrow> sent_first (cmdTx s) \<longrightarrow>
     distinct (map cn_id (cmdTx s')) \<and> sent_first (cmdTx s') \<and>
     cmd_out s' @ unsent (cmdTx s') = cmd_out s @ unsent (cmdTx s))"

lemma queue_kept_refl [simp]: "queue_kept s s"
  by (simp add: queue_kept_def)

lemma queue_kept_unlink: "\<forall>n. r = Some n \<longrightarrow> n \<in> set (cmdTx s) \<Longrightarrow> queue_kept s (snd (cmd_unlink r s))"
  by (auto simp: queue_kept_def cmd_unlink_def cmd_del_props cmd_del_unsent split: option.splits)

lemma find_in_set: "find P xs = Some x \<Longrightarrow> x \<in> set xs"
  by (auto simp: find_Some_iff)

lemma queue_kept_remove: "queue_kept s (snd (DLI_CmdNodeRemove event opcode status s))"
proof -
  have 1: "queue_kept s (s\<lparr>cmdTx := cmd_put (n\<lparr>isRecvStatusEvt := True\<rparr>) (cmdTx s)\<rparr>)" if "n \<in> set (cmdTx s)" for n
    unfolding queue_kept_def
    using cmd_put_mark [OF that] sent_first_cong [OF cmd_put_mark(2) [OF that]]
      unsent_cong [OF cmd_put_mark(2) [OF that] cmd_put_mark(3) [OF that]] by simp
  have 2: "queue_kept s (snd (cmd_unlink (find P (cmdTx s)) s))" for P
    by (rule queue_kept_unlink) (auto dest: find_in_set)
  have 3: "queue_kept s (snd (cmd_unlink (Some n) s))" if "find P (cmdTx s) = Some n" for n P
    using 2 [of P] that by simp
  note defs = DLI_CmdNodeRemove_def DLI_CmdNodeFind_def DLI_CmdNodeFindByOpcode_def DLI_CmdNodeFindNotRecvStatus_def
  show ?thesis
    unfolding defs using 2 by (simp split: option.splits) (blast intro: 1 3 find_in_set)
qed

lemma run_cp_task_keeps:
  "cmdTx (fst (run_cp_task e t s)) = cmdTx s" "cmd_out (fst (run_cp_task e t s)) = cmd_out s"
  "g_cmdNum s \<le> 255 \<Longrightarrow> g_cmdNum (fst (run_cp_task e t s)) \<le> 255"
  using to_u8_less
  by (cases t; auto simp: DLI_EventTask_def TimeoutCallback_def RecvEventHandler_def DLI_CommandStatusCbk_def
      DLI_CmdNumSet_def Let_def less_Suc_eq_le [symmetric])+

lemma remove_cmdNum: "g_cmdNum (snd (DLI_CmdNodeRemove event opcode status s)) = g_cmdNum s"
  by (auto simp: DLI_CmdNodeRemove_def cmd_unlink_def split: option.splits)

lemma EventPacketReceived_kept:
  assumes "DLI_EventPacketReceived e b s = Some (s', ts)"
  shows "queue_kept s s'" "g_cmdNum s' = g_cmdNum s"
proof -
  from assms have "\<exists>event opcode status. s' = snd (DLI_CmdNodeRemove event opcode status s)"
    by (auto simp: DLI_EventPacketReceived_def Let_def case_prod_beta split: bind_splits)
  then obtain event opcode status where "s' = snd (DLI_CmdNodeRemove event opcode status s)" by blast
  then show "queue_kept s s'" "g_cmdNum s' = g_cmdNum s" by (simp_all add: queue_kept_remove remove_cmdNum)
qed

lemma sent_first_append:
  "\<forall>n \<in> set ms. isSent n \<Longrightarrow> sent_first (ms @ ns) \<longleftrightarrow> sent_first ns"
  by (induction ms) auto

lemma queue_ok_update:
  assumes "queue_ok s h" "i < length (cmdTx s)" "\<forall>n \<in> set (take i (cmdTx s)). isSent n" "\<not> isSent (cmdTx s ! i)"
    and "cn_id m = cn_id (cmdTx s ! i)" "cmd_image (cn_info m) = cmd_image (cn_info (cmdTx s ! i))"
    and "cmdTx s' = (cmdTx s)[i := m]" "cmd_out s' = cmd_out s @ (if isSent m then [cmd_image (cn_info m)] else [])"
  shows "queue_ok s' h"
proof -
  have l: "cmdTx s = take i (cmdTx s) @ cmdTx s ! i # drop (Suc i) (cmdTx s)" "(cmdTx s)[i := m] = take i (cmdTx s) @ m # drop (Suc i) (cmdTx s)"
    using assms(2) by (simp_all add: id_take_nth_drop upd_conv_take_nth_drop)
  have "sent_first (cmdTx s ! i # drop (Suc i) (cmdTx s))"
    using assms(1,3) l(1) sent_first_append by (metis queue_ok_def)
  then have "\<forall>n \<in> set (drop (Suc i) (cmdTx s)). \<not> isSent n" using assms(4) by simp
  then have "sent_first ((cmdTx s)[i := m])"
    using assms(3) sent_first_append [of "take i (cmdTx s)"] sent_first_unsent [of "drop (Suc i) (cmdTx s)"] by (simp add: l(2))
  moreover have "map cn_id ((cmdTx s)[i := m]) = map cn_id (cmdTx s)"
    using assms(2,5) by (simp add: map_update list_update_same_conv)
  moreover have "unsent (take i (cmdTx s)) = []" using assms(3) by (auto simp: unsent_def filter_empty_conv)
  then have "unsent (take i (cmdTx s) @ cmdTx s ! i # drop (Suc i) (cmdTx s)) = cmd_image (cn_info (cmdTx s ! i)) # unsent (drop (Suc i) (cmdTx s))"
    "unsent ((cmdTx s)[i := m]) = (if isSent m then [] else [cmd_image (cn_info m)]) @ unsent (drop (Suc i) (cmdTx s))"
    using assms(4) by (simp_all add: l(2))
  moreover note l(1) [symmetric]
  ultimately show ?thesis using assms(1,6-8) by (auto simp: queue_ok_def)
qed

lemma loop_step_inv:
  assumes "loop_step (p, s) (q, s')" "queue_ok s h" "pc_ok p (cmdTx s)"
  shows "queue_ok s' h" "pc_ok q (cmdTx s')" "map cn_id (cmdTx s') = map cn_id (cmdTx s)"
proof -
  have *: "queue_ok s' h \<and> pc_ok q (cmdTx s') \<and> map cn_id (cmdTx s') = map cn_id (cmdTx s)"
    using assms(1)
  proof (cases rule: loop_step.cases)
    case (test i)
    then show ?thesis using assms(2,3) by (auto simp: loop_test_def take_Suc_conv_app_nth)
  next
    case (send i e)
    have p: "i < length (cmdTx s)" "\<forall>n \<in> set (take i (cmdTx s)). isSent n" "\<not> isSent (cmdTx s ! i)"
      using assms(3) send(1) by auto
    show ?thesis
    proof (cases "call_dli (sub e 0)")
      case True
      define m where "m = (cmdTx s ! i)\<lparr>isSent := True, cn_info := fst (snd (DLI_CmdListSendInner (sub e 0) (cn_info (cmdTx s ! i)))),
        cn_handle := (case CP_TimerAdd (sub e 1) of None \<Rightarrow> cn_handle (cmdTx s ! i) | Some h \<Rightarrow> h)\<rparr>"
      have m: "isSent m" "cn_id m = cn_id (cmdTx s ! i)" "cmd_image (cn_info m) = cmd_image (cn_info (cmdTx s ! i))"
        by (simp_all add: m_def CmdListSendInner_eq)
      have q: "q = Pay i" "s' = s\<lparr>cmd_out := cmd_out s @ [cmd_image (cn_info (cmdTx s ! i))], cmdTx := (cmdTx s)[i := m]\<rparr>"
        using send(2) True by (simp_all add: loop_send_def CmdListSendInner_eq Let_def m_def)
      show ?thesis
        using queue_ok_update [OF assms(2) p m(2,3), of s'] p m q
        by (auto simp: take_Suc_conv_app_nth map_update list_update_same_conv)
    next
      case False
      then show ?thesis
        using send(2) p queue_ok_update [OF assms(2) p, of _ s']
        by (auto simp: loop_send_def CmdListSendInner_eq Let_def map_update list_update_same_conv)
    qed
  next
    case (pay i)
    then show ?thesis using assms(2,3) by (auto simp: loop_pay_def DLI_CmdNumSubOne_def queue_ok_def)
  qed
  then show "queue_ok s' h" "pc_ok q (cmdTx s')" "map cn_id (cmdTx s') = map cn_id (cmdTx s)" by blast+
qed

lemma cmd_enqueue_inv:
  assumes "cmd_enqueue n c = (ret, c')" "queue_ok (sys c) (submitted c)" "\<not> isSent n" "cn_id n \<notin> cn_id ` set (cmdTx (sys c))"
  shows "queue_ok (sys c') (submitted c')" "ret \<noteq> DLI_SUCCESS \<Longrightarrow> cmdTx (sys c') = cmdTx (sys c)"
  using assms by (auto simp: cmd_enqueue_def DLI_CmdAddToList_def queue_ok_def sent_first_snoc split: if_splits)

lemma cmd_inv_step: "cmd_step c c' \<Longrightarrow> cmd_inv c \<Longrightarrow> cmd_inv c'"
proof (induction rule: cmd_step.induct)
  case (submit c n ret c')
  then show ?case using cmd_enqueue_inv [OF submit(5)] by (auto simp: cmd_inv_def)
next
  case (loop c p s)
  then show ?case using loop_step_inv [OF loop(1)] by (auto simp: cmd_inv_def simp flip: set_map)
next
  case (again c n ret c')
  then show ?case using cmd_enqueue_inv [OF again(3)] by (auto simp: cmd_inv_def cmd_enqueue_def split: prod.splits)
next
  case (event c e b s' ts)
  then show ?case using EventPacketReceived_kept [OF event(2)] by (simp add: cmd_inv_def queue_ok_def queue_kept_def at_rest_def)
next
  case (timer c n e s' ts w)
  then show ?case
    by (auto simp: cmd_inv_def queue_ok_def DLI_CmdTimerCallback_def cmd_del_props cmd_del_unsent at_rest_def)
next
  case (callback c t ts e s' w)
  then show ?case using run_cp_task_keeps [where e = e and t = t and s = "sys c"] by (simp add: cmd_inv_def queue_ok_def)
qed (auto simp: cmd_inv_def at_rest_def)

text \<open>
  (C17) Commands reach the controller in order and exactly once: from a state with an empty queue and the
  layer's thread at rest, under every interleaving of submissions, controller events, timeouts, send
  requests and single steps of the send loop with the callbacks of the control plane, which run also
  between two steps of the loop, the commands given to the driver so far, followed by those still
  waiting, are exactly the accepted commands in submission order, and the commands that were sent stay
  in front of the waiting ones.
\<close>

theorem cmd_queue_fifo:
  assumes "cmd_step\<^sup>*\<^sup>* c0 c" "at_rest c0" "cmdTx (sys c0) = []" "cmd_out (sys c0) = []" "submitted c0 = []"
  shows "cmd_out (sys c) @ unsent (cmdTx (sys c)) = submitted c \<and> sent_first (cmdTx (sys c))"
proof -
  have "cmd_inv c0" using assms(2-5) by (simp add: cmd_inv_def queue_ok_def at_rest_def)
  with assms(1) have "cmd_inv c" by (induction rule: rtranclp_induct) (auto intro: cmd_inv_step)
  then show ?thesis by (simp add: cmd_inv_def queue_ok_def)
qed

definition cmd_of :: "nat \<Rightarrow> u16 \<Rightarrow> DLI_CmdTxNode" where
  "cmd_of i c = \<lparr>cn_id = i, isSent = False, isRecvStatusEvt = False, cn_handle = -1,
     cn_info = \<lparr>needErase = False, ci_cmd = c, ci_event = 2, parLen = 1, ci_context = Some 1, timeoutCallback = True,
       ci_par = [0, 0, 0, 0, 0, 9]\<rparr>\<rparr>"

definition cmd_start :: "cmd_sys" where
  "cmd_start = \<lparr>sys = dli_start 4, loop_pos = Idle, retry = None, cp_queue = [], send_requests = 0, submitted = []\<rparr>"

theorem cmd_queue_fifo_witness:
  "\<exists>c. cmd_step\<^sup>*\<^sup>* cmd_start c
     \<and> cmd_out (sys c) = [cmd_image (cn_info (cmd_of 1 5))] \<and> submitted c = [cmd_image (cn_info (cmd_of 1 5))]
     \<and> cmd_out (sys c) @ unsent (cmdTx (sys c)) = submitted c"
proof -
  let ?n = "cmd_of 1 5"
  let ?s1 = "(dli_start 4)\<lparr>cmdTx := [?n]\<rparr>"
  let ?c1 = "cmd_start\<lparr>sys := ?s1, submitted := [cmd_image (cn_info ?n)], loop_pos := Test 0\<rparr>"
  let ?c2 = "?c1\<lparr>loop_pos := Send 0\<rparr>"
  let ?r = "loop_send (granting_env DTAP_SUCCESS) 0 ?s1"
  let ?c3 = "?c2\<lparr>loop_pos := fst ?r, sys := snd ?r\<rparr>"
  have s: "cmdTx (dli_start 4) = []" "dli_inited (dli_start 4)" "cmd_out (dli_start 4) = []" "g_cmdNum (dli_start 4) = 1"
    by (simp_all add: dli_start_def DLI_LayerInfoInit_def DLI_CmdNumSet_def)
  have r: "cmd_out (snd ?r) = [cmd_image (cn_info ?n)]"
    by (simp add: loop_send_def CmdListSendInner_eq Let_def s)
  have "cmd_step cmd_start ?c1"
    using cmd_step.submit [of cmd_start ?n DLI_SUCCESS "cmd_start\<lparr>sys := ?s1, submitted := [cmd_image (cn_info ?n)]\<rparr>"] s
    by (simp add: cmd_start_def cmd_of_def at_rest_def cmd_enqueue_def DLI_CmdAddToList_def)
  moreover have "cmd_step ?c1 ?c2"
    using cmd_step.loop [of ?c1 "Send 0" ?s1] loop_step.test [of 0 ?s1] s
    by (simp add: cmd_start_def loop_test_def DLI_IsCmdAllow_def cmd_of_def)
  moreover have "cmd_step ?c2 ?c3"
    using cmd_step.loop [of ?c2 "fst ?r" "snd ?r"] loop_step.send [of 0 ?s1 "granting_env DTAP_SUCCESS"]
    by (simp add: cmd_start_def)
  ultimately have st: "cmd_step\<^sup>*\<^sup>* cmd_start ?c3"
    by (meson converse_rtranclp_into_rtranclp rtranclp.rtrancl_refl)
  show ?thesis
    using cmd_queue_fifo [OF st] s st r by (intro exI [of _ ?c3]) (simp add: cmd_start_def at_rest_def)
qed

text \<open>Without a callback in between, the steps of the loop do what \<open>DLI_CmdListSend\<close> computes.\<close>

lemma pay_commutes: "DLI_CmdNumSubOne (s\<lparr>cmdTx := ns\<rparr>) = (DLI_CmdNumSubOne s)\<lparr>cmdTx := ns\<rparr>"
  by (cases s) (simp add: DLI_CmdNumSubOne_def)

lemma loop_undisturbed:
  assumes "cmd_send_loop (e :: dtap_env) k ns s = (ms, s')"
  shows "loop_step\<^sup>*\<^sup>* (Test (length pre), s\<lparr>cmdTx := pre @ ns\<rparr>) (Idle, s'\<lparr>cmdTx := pre @ ms\<rparr>)"
  using assms
proof (induction e k ns s arbitrary: ms s' pre rule: cmd_send_loop.induct)
  case (1 e k s)
  then show ?case using loop_step.test [of "length pre" "s\<lparr>cmdTx := pre\<rparr>"] by (auto simp: loop_test_def)
next
  case (2 e k n ns s)
  let ?i = "length pre" and ?s = "s\<lparr>cmdTx := pre @ n # ns\<rparr>"
  note test = loop_step.test [of ?i ?s] and send = loop_step.send [of ?i ?s "sub e k"]
  show ?case
  proof (cases "DLI_IsCmdAllow s \<and> \<not> isSent n")
    case False
    then show ?thesis
    proof (cases "DLI_IsCmdAllow s")
      case True
      with False have f: "isSent n" by simp
      obtain ms' where m: "cmd_send_loop e (Suc k) ns s = (ms', s')" "ms = n # ms'"
        using 2(3) True f by (auto split: prod.splits)
      have "loop_step (Test ?i, ?s) (Test (Suc ?i), ?s)" using test True f by (simp add: loop_test_def DLI_IsCmdAllow_def)
      then show ?thesis using 2(1) [OF _ f m(1), of "pre @ [n]"] m(2) True by (simp add: converse_rtranclp_into_rtranclp)
    qed (use 2(3) test in \<open>auto simp: loop_test_def DLI_IsCmdAllow_def\<close>)
  next
    case True
    then have t: "loop_step (Test ?i, ?s) (Send ?i, ?s)" using test by (simp add: loop_test_def DLI_IsCmdAllow_def)
    show ?thesis
    proof (cases "call_dli (sub (sub e k) 0)")
      case False
      then have "loop_step (Send ?i, ?s) (Idle, s'\<lparr>cmdTx := pre @ ms\<rparr>)"
        using send 2(3) True by (auto simp: loop_send_def CmdListSendInner_eq list_update_append)
      then show ?thesis using t by (meson converse_rtranclp_into_rtranclp r_into_rtranclp)
    next
      case c: True
      define m where "m = n\<lparr>isSent := True, cn_info := fst (snd (DLI_CmdListSendInner (sub (sub e k) 0) (cn_info n))),
        cn_handle := (case CP_TimerAdd (sub (sub e k) 1) of None \<Rightarrow> cn_handle n | Some h \<Rightarrow> h)\<rparr>"
      define s0 where "s0 = s\<lparr>cmd_out := cmd_out s @ [cmd_image (cn_info n)]\<rparr>"
      obtain ms' where m': "cmd_send_loop e (Suc k) ns (DLI_CmdNumSubOne s0) = (ms', s')" "ms = m # ms'"
        using 2(3) True c by (auto simp: CmdListSendInner_eq Let_def s0_def m_def split: prod.splits)
      have "loop_step (Send ?i, ?s) (Pay ?i, s0\<lparr>cmdTx := pre @ m # ns\<rparr>)"
        using send c by (simp add: loop_send_def CmdListSendInner_eq list_update_append s0_def m_def)
      moreover have "loop_step (Pay ?i, s0\<lparr>cmdTx := pre @ m # ns\<rparr>) (Test (Suc ?i), (DLI_CmdNumSubOne s0)\<lparr>cmdTx := pre @ m # ns\<rparr>)"
        using loop_step.pay [of ?i "s0\<lparr>cmdTx := pre @ m # ns\<rparr>"] by (simp add: loop_pay_def pay_commutes)
      moreover have "loop_step\<^sup>*\<^sup>* (Test (Suc ?i), (DLI_CmdNumSubOne s0)\<lparr>cmdTx := pre @ m # ns\<rparr>) (Idle, s'\<lparr>cmdTx := pre @ ms\<rparr>)"
        using 2(2) [OF _ _ CmdListSendInner_eq [symmetric] refl _ refl, of ms' s' "pre @ [m]"] m' True c by (simp add: s0_def)
      ultimately show ?thesis using t by (meson converse_rtranclp_into_rtranclp)
    qed
  qed
qed

lemma DLI_CmdListSend_steps: "loop_step\<^sup>*\<^sup>* (Test 0, s) (Idle, DLI_CmdListSend (e :: dtap_env) s)"
proof -
  obtain ms t where "cmd_send_loop e 0 (cmdTx s) s = (ms, t)" by fastforce
  then show ?thesis using loop_undisturbed [of e 0 "cmdTx s" s ms t "[]"] by (simp add: DLI_CmdListSend_def)
qed

lemma CmdListSend_exact:
  assumes "posts_ok e" "g_cmdNum s < 65536"
  shows "cmd_out (DLI_CmdListSend e s) = cmd_out s @ take (g_cmdNum s) (unsent (cmdTx s))
    \<and> g_cmdNum (DLI_CmdListSend e s) = g_cmdNum s - length (unsent (cmdTx s))
    \<and> unsent (cmdTx (DLI_CmdListSend e s)) = drop (g_cmdNum s) (unsent (cmdTx s))"
proof -
  obtain ms t where l: "cmd_send_loop e 0 (cmdTx s) s = (ms, t)" by fastforce
  obtain j where j: "cmd_out t = cmd_out s @ take j (unsent (cmdTx s))" "unsent ms = drop j (unsent (cmdTx s))"
    "g_cmdNum t = g_cmdNum s - j" "j = min (g_cmdNum s) (length (unsent (cmdTx s)))"
    using cmd_send_loop_prefix [OF l assms(2)] assms(1) by blast
  then show ?thesis using l by (simp add: DLI_CmdListSend_def min_def)
qed

text \<open>
  Flow control is exact: when the driver takes what it is given, \<open>DLI_CmdListSend\<close> sends as many of
  the waiting commands as there are credits, oldest first, and pays exactly one credit for each.
\<close>

theorem cmd_list_send_exact:
  assumes "posts_ok e" "g_cmdNum s < 65536"
  shows "cmd_out (DLI_CmdListSend e s) = cmd_out s @ take (g_cmdNum s) (unsent (cmdTx s))
    \<and> g_cmdNum (DLI_CmdListSend e s) = g_cmdNum s - length (unsent (cmdTx s))
    \<and> unsent (cmdTx (DLI_CmdListSend e s)) = drop (g_cmdNum s) (unsent (cmdTx s))"
  using CmdListSend_exact [OF assms] .

theorem cmd_list_send_exact_witness:
  "let s = (dli_start 4)\<lparr>cmdTx := [cmd_of 1 5, cmd_of 2 6]\<rparr>
   in cmd_out (DLI_CmdListSend (granting_env DTAP_SUCCESS) s) = [cmd_image (cn_info (cmd_of 1 5))]"
  using cmd_list_send_exact [of "granting_env DTAP_SUCCESS" "(dli_start 4)\<lparr>cmdTx := [cmd_of 1 5, cmd_of 2 6]\<rparr>"]
  by (simp add: dli_start_def DLI_LayerInfoInit_def DLI_CmdNumSet_def cmd_of_def)

lemma loop_in_system:
  assumes "loop_step\<^sup>*\<^sup>* (loop_pos c, sys c) (q, s')"
  shows "cmd_step\<^sup>*\<^sup>* c (c\<lparr>loop_pos := q, sys := s'\<rparr>)"
  using assms
proof (induction rule: rtranclp_induct2)
  case (step q s q' s')
  then show ?case
    using cmd_step.loop [of "c\<lparr>loop_pos := q, sys := s\<rparr>" q' s'] by (simp add: rtranclp.rtrancl_into_rtrancl)
qed simp

text \<open>
  An undisturbed submission is \<open>DLI_CmdSendInner\<close>: the first attempt to queue the command, the loop, and
  the second attempt when the list was full.
\<close>

lemma DLI_CmdSendInner_steps:
  assumes "at_rest c" "\<not> isSent n" "cn_id n \<notin> cn_id ` set (cmdTx (sys c))"
  shows "\<exists>c'. cmd_step\<^sup>*\<^sup>* c c' \<and> sys c' = DLI_CmdSendInner (e :: dtap_env) n (sys c) \<and> at_rest c'"
proof (cases "dli_inited (sys c)")
  case True
  obtain ret c1 where q: "cmd_enqueue n c = (ret, c1)" by fastforce
  have s1: "DLI_CmdAddToList n (sys c) = (ret, sys c1)" using q by (auto simp: cmd_enqueue_def split: prod.splits)
  let ?c2 = "c1\<lparr>loop_pos := Test 0, retry := if ret = DLI_SUCCESS then None else Some n\<rparr>"
  let ?c3 = "?c2\<lparr>loop_pos := Idle, sys := DLI_CmdListSend e (sys c1)\<rparr>"
  have st: "cmd_step\<^sup>*\<^sup>* c ?c3"
    using cmd_step.submit [OF assms(1) True assms(2,3) q] loop_in_system [of ?c2 Idle] DLI_CmdListSend_steps [of "sys c1" e]
    by (simp add: converse_rtranclp_into_rtranclp)
  obtain r4 c4 where q4: "cmd_enqueue n ?c3 = (r4, c4)" by fastforce
  show ?thesis
  proof (cases "ret = DLI_SUCCESS")
    case True
    then show ?thesis using st s1 \<open>dli_inited (sys c)\<close> by (intro exI [of _ ?c3]) (simp add: DLI_CmdSendInner_def at_rest_def)
  next
    case False
    have c4: "sys c4 = snd (DLI_CmdAddToList n (DLI_CmdListSend e (sys c1)))" "loop_pos c4 = Idle"
      using q4 by (auto simp: cmd_enqueue_def split: prod.splits)
    have "cmd_step ?c3 (c4\<lparr>retry := None\<rparr>)" using cmd_step.again [OF _ _ q4] False by simp
    then have "cmd_step\<^sup>*\<^sup>* c (c4\<lparr>retry := None\<rparr>)" using st by (rule rtranclp.rtrancl_into_rtrancl [rotated])
    then show ?thesis
      using s1 c4 False \<open>dli_inited (sys c)\<close> by (intro exI [of _ "c4\<lparr>retry := None\<rparr>"]) (simp add: DLI_CmdSendInner_def at_rest_def)
  qed
qed (use assms(1) in \<open>auto simp: DLI_CmdSendInner_def\<close>)

text \<open>
  (C33) The test of the credit and its payment are not one operation, and a callback in between breaks the
  flow control: when the layer's thread has found a credit for a waiting command, and before it pays, the
  control plane handles a completion event in which the controller grants no further command, then the
  payment takes the counter from 0 to 65535, and all commands still waiting are handed to the controller
  at once although it granted none.
\<close>

theorem credit_race_wraps:
  assumes "cmd_inv c" "loop_pos c = Send i" "cp_queue c = CpEvent DLI_COMPLETE_EVENT (Some n) b # ts"
    and "ci_context (cn_info n) \<noteq> None" "length (buff_data b) \<ge> 3" "buff_data b ! 2 = 0"
    and "length (unsent (cmdTx (sys c))) \<le> 65535"
  shows "\<exists>c1 c2 c3. cmd_step c c1 \<and> g_cmdNum (sys c1) = 0
    \<and> cmd_step\<^sup>*\<^sup>* c1 c2 \<and> g_cmdNum (sys c2) = 65535 \<and> cmd_step\<^sup>*\<^sup>* c2 c3
    \<and> cmd_out (sys c3) = cmd_out (sys c) @ unsent (cmdTx (sys c)) \<and> unsent (cmdTx (sys c3)) = []"
proof -
  let ?e = "granting_env DTAP_SUCCESS :: dtap_env"
  let ?s = "DLI_CmdNumSet 0 (sys c)"
  obtain w where w: "run_cp_task ?e (CpEvent DLI_COMPLETE_EVENT (Some n) b) (sys c) = (?s, w)"
    using assms(4-6) by (cases "buff_data b = []") (auto simp: DLI_EventTask_def RecvEventHandler_def Let_def)
  define c1 where "c1 = c\<lparr>sys := ?s, cp_queue := ts, send_requests := send_requests c + of_bool w\<rparr>"
  have 1: "cmd_step c c1" using cmd_step.callback [OF assms(3) w] by (simp add: c1_def)
  let ?s1 = "snd (loop_send ?e i ?s)"
  let ?s2 = "DLI_CmdNumSubOne ?s1"
  have p: "loop_send ?e i ?s = (Pay i, ?s1)" by (simp add: loop_send_def CmdListSendInner_eq Let_def)
  have q: "queue_ok ?s (submitted c)" "pc_ok (Send i) (cmdTx ?s)"
    using assms(1,2) by (simp_all add: cmd_inv_def queue_ok_def DLI_CmdNumSet_def)
  have l: "loop_step (Send i, ?s) (Pay i, ?s1)" using loop_step.send [of i ?s ?e] p by simp
  note inv = loop_step_inv [OF l q]
  have g: "g_cmdNum ?s2 = 65535" "cmdTx ?s2 = cmdTx ?s1" "cmd_out ?s2 = cmd_out (sys c) @ [cmd_image (cn_info (cmdTx (sys c) ! i))]"
    by (simp_all add: DLI_CmdNumSubOne_def loop_send_def CmdListSendInner_eq Let_def DLI_CmdNumSet_def)
  have h: "cmd_out ?s2 @ unsent (cmdTx ?s2) = cmd_out (sys c) @ unsent (cmdTx (sys c))"
    using inv(1) assms(1) by (simp add: queue_ok_def cmd_inv_def DLI_CmdNumSubOne_def)
  obtain ms t where m: "cmd_send_loop ?e 0 (drop (Suc i) (cmdTx ?s2)) ?s2 = (ms, t)" by fastforce
  have pre: "unsent (take (Suc i) (cmdTx ?s2)) = []" "length (take (Suc i) (cmdTx ?s2)) = Suc i"
    using inv(2) g(2) by (auto simp: unsent_def filter_empty_conv)
  then have u: "unsent (cmdTx ?s2) = unsent (drop (Suc i) (cmdTx ?s2))"
    by (metis append_take_drop_id append_Nil unsent_simps(4))
  have "length (unsent (cmdTx ?s2)) \<le> 65535" using arg_cong [OF h, of length] g(3) assms(7) by simp
  then have end_state: "cmd_out t = cmd_out ?s2 @ unsent (cmdTx ?s2)" "unsent ms = []"
    using cmd_send_loop_prefix [OF m] g(1) u posts_ok_granting by auto
  define c2 where "c2 = c1\<lparr>loop_pos := Test (Suc i), sys := ?s2\<rparr>"
  define c3 where "c3 = c2\<lparr>loop_pos := Idle, sys := t\<lparr>cmdTx := take (Suc i) (cmdTx ?s2) @ ms\<rparr>\<rparr>"
  have "loop_step (Pay i, ?s1) (Test (Suc i), ?s2)" using loop_step.pay [of i ?s1] by (simp add: loop_pay_def)
  with l have "loop_step\<^sup>*\<^sup>* (Send i, ?s) (Test (Suc i), ?s2)" by (meson converse_rtranclp_into_rtranclp r_into_rtranclp)
  then have 2: "cmd_step\<^sup>*\<^sup>* c1 c2" using loop_in_system [of c1 "Test (Suc i)" ?s2] assms(2) by (simp add: c1_def c2_def)
  have "?s2\<lparr>cmdTx := cmdTx ?s2\<rparr> = ?s2" by simp
  then have 3: "cmd_step\<^sup>*\<^sup>* c2 c3"
    using loop_in_system [of c2 Idle] loop_undisturbed [OF m, of "take (Suc i) (cmdTx ?s2)"] pre(2) by (simp add: c2_def c3_def)
  show ?thesis
    using 1 2 3 g(1) end_state pre(1) h
    by (intro exI [of _ c1] exI [of _ c2] exI [of _ c3]) (simp add: c1_def c2_def c3_def DLI_CmdNumSet_def)
qed

definition race_state :: cmd_sys where
  "race_state = cmd_start\<lparr>sys := (dli_start 4)\<lparr>cmdTx := [cmd_of 1 5, cmd_of 2 6]\<rparr>, loop_pos := Send 0,
     cp_queue := [CpEvent 2 (Some (cmd_of 9 4)) \<lparr>buff_addr = 1, dataOff = 0, dataLen = 4, buffLen = 4, buff = [4, 0, 0, 0]\<rparr>],
     submitted := [cmd_image (cn_info (cmd_of 1 5)), cmd_image (cn_info (cmd_of 2 6))]\<rparr>"

theorem credit_race_wraps_witness:
  "\<exists>c1 c2 c3. cmd_step race_state c1 \<and> g_cmdNum (sys c1) = 0 \<and> cmd_step\<^sup>*\<^sup>* c1 c2 \<and> g_cmdNum (sys c2) = 65535 \<and> cmd_step\<^sup>*\<^sup>* c2 c3
     \<and> cmd_out (sys c3) = [cmd_image (cn_info (cmd_of 1 5)), cmd_image (cn_info (cmd_of 2 6))] \<and> unsent (cmdTx (sys c3)) = []"
proof -
  have "cmd_inv race_state"
    by (simp add: race_state_def cmd_start_def dli_start_def DLI_LayerInfoInit_def DLI_CmdNumSet_def cmd_inv_def queue_ok_def cmd_of_def)
  then show ?thesis
    using credit_race_wraps [of race_state 0 "cmd_of 9 4" "\<lparr>buff_addr = 1, dataOff = 0, dataLen = 4, buffLen = 4, buff = [4, 0, 0, 0]\<rparr>" "[]"]
    by (simp add: race_state_def cmd_start_def dli_start_def DLI_LayerInfoInit_def DLI_CmdNumSet_def cmd_of_def buff_data_def)
qed

text \<open> A timeout does not stall the queue: when the answer to a command never comes, its timer removes
  it, the posted timeout callback gives the credit back and asks for the next command, and the send
  request then hands the oldest waiting command to the driver.
\<close>

theorem cmd_timeout_resumes:
  assumes "posts_ok e" "posts_ok e1" "posts_ok e2" "dli_inited s" "n \<in> set (cmdTx s)" "isSent n"
    and "distinct (map cn_id (cmdTx s))" "timeoutCallback (cn_info n)"
    and "ci_event (cn_info n) = DLI_COMPLETE_EVENT \<or> \<not> isRecvStatusEvt n" "unsent (cmdTx s) = c # cs"
  shows "\<exists>s1 s2. DLI_CmdTimerCallback e n s = (s1, [CpTimeout n], True) \<and> run_cp_task e1 (CpTimeout n) s1 = (s2, True)
    \<and> cmd_out (DLI_CmdListSend e2 s2) = cmd_out s @ [c]"
proof -
  let ?s1 = "s\<lparr>cmdTx := cmd_del (cn_id n) (cmdTx s)\<rparr>"
  let ?s2 = "DLI_CmdNumSet 1 ?s1"
  have u: "unsent (cmdTx ?s2) = c # cs"
    using cmd_del_unsent [OF assms(5,6,7)] assms(10) by (simp add: DLI_CmdNumSet_def)
  have "run_cp_task e1 (CpTimeout n) ?s1 = (?s2, True)"
    using assms by (auto simp: TimeoutCallback_def RecvEventHandler_def Let_def DLI_CmdNumSet_def)
  moreover have "DLI_CmdTimerCallback e n s = (?s1, [CpTimeout n], True)"
    using assms by (simp add: DLI_CmdTimerCallback_def)
  moreover have "cmd_out (DLI_CmdListSend e2 ?s2) = cmd_out s @ [c]"
    using CmdListSend_exact [OF assms(3), of ?s2] u by (simp add: DLI_CmdNumSet_def)
  ultimately show ?thesis by blast
qed

theorem cmd_timeout_resumes_witness:
  "\<exists>s1 s2. DLI_CmdTimerCallback (granting_env DTAP_SUCCESS) ((cmd_of 1 5)\<lparr>isSent := True\<rparr>)
       ((dli_start 4)\<lparr>cmdTx := [(cmd_of 1 5)\<lparr>isSent := True\<rparr>, cmd_of 2 6], g_cmdNum := 0\<rparr>)
         = (s1, [CpTimeout ((cmd_of 1 5)\<lparr>isSent := True\<rparr>)], True)
     \<and> run_cp_task (granting_env DTAP_SUCCESS) (CpTimeout ((cmd_of 1 5)\<lparr>isSent := True\<rparr>)) s1 = (s2, True)
     \<and> cmd_out (DLI_CmdListSend (granting_env DTAP_SUCCESS) s2) = [cmd_image (cn_info (cmd_of 2 6))]"
  using cmd_timeout_resumes [of "granting_env DTAP_SUCCESS" "granting_env DTAP_SUCCESS" "granting_env DTAP_SUCCESS"
      "(dli_start 4)\<lparr>cmdTx := [(cmd_of 1 5)\<lparr>isSent := True\<rparr>, cmd_of 2 6], g_cmdNum := 0\<rparr>" "(cmd_of 1 5)\<lparr>isSent := True\<rparr>"
      "cmd_image (cn_info (cmd_of 2 6))" "[]"]
  by (simp add: dli_start_def DLI_LayerInfoInit_def DLI_CmdNumSet_def cmd_of_def)

end
