(* ===== verification/Dtap_Quota.thy ===== *)
theory Dtap_Quota
  imports Dli_Layer
begin

text \<open>
  The per-link buffer quotas of \<open>dtap_scheduler.c\<close>: the list of links with their counters, and the
  distribution of the controller's buffers over the links in proportion to their queued packets
  (one buffer each, the rest by the largest remainder method).
\<close>

section \<open>Links\<close>

record DTAP_LcidBufferNode =
  bn_lcid :: u16
  quota :: nat
  lastQuota :: nat
  sendNotAckPktCnt :: nat
  queuedPktCnt :: nat
  windowBytes :: nat
  lastRateCalcTime :: nat

abbreviation (input) DTAP_MIN_BUFFER_NUM :: nat where "DTAP_MIN_BUFFER_NUM \<equiv> 1"
abbreviation (input) DTAP_RATE_CALC_INTERVAL_MS :: nat where "DTAP_RATE_CALC_INTERVAL_MS \<equiv> 10000"

text \<open>\<open>DTAP_SCHED_SUB\<close> is subtraction that stops at zero, as on \<^typ>\<open>nat\<close>.\<close>

definition DTAP_SCHED_SUB :: "nat \<Rightarrow> nat \<Rightarrow> nat" where
  "DTAP_SCHED_SUB x y = (if x > y then x - y else 0)"

lemma DTAP_SCHED_SUB_eq [simp]: "DTAP_SCHED_SUB x y = x - y"
  by (simp add: DTAP_SCHED_SUB_def)

definition DTAP_GetLcidBufferNode :: "DTAP_LcidBufferNode list \<Rightarrow> u16 \<Rightarrow> DTAP_LcidBufferNode option" where
  "DTAP_GetLcidBufferNode ns l = find (\<lambda>n. bn_lcid n = l) ns"

definition DTAP_AddLcidBufferNode :: "'r env \<Rightarrow> u16 \<Rightarrow> DTAP_LcidBufferNode list \<Rightarrow> bool \<times> DTAP_LcidBufferNode list" where
  "DTAP_AddLcidBufferNode e connHandle ns =
     (if \<exists>n \<in> set ns. bn_lcid n = connHandle then (False, ns)
      else (case SDF_MemZalloc e of
        None \<Rightarrow> (False, ns)
      | Some a \<Rightarrow> (True, ns @ [\<lparr>bn_lcid = connHandle, quota = 0, lastQuota = 0, sendNotAckPktCnt = 0,
          queuedPktCnt = 0, windowBytes = 0, lastRateCalcTime = 0\<rparr>])))"

fun DTAP_DeleteLcidBufferNode :: "u16 \<Rightarrow> DTAP_LcidBufferNode list \<Rightarrow> bool \<times> DTAP_LcidBufferNode list" where
  "DTAP_DeleteLcidBufferNode connHandle [] = (False, [])"
| "DTAP_DeleteLcidBufferNode connHandle (n # ns) =
     (if bn_lcid n \<noteq> connHandle
      then (case DTAP_DeleteLcidBufferNode connHandle ns of (r, ns') \<Rightarrow> (r, n # ns'))
      else (True, ns))"

text \<open>A store through a pointer that \<open>DTAP_GetLcidBufferNode\<close> returned: the first node of the link changes.\<close>

fun bn_upd :: "u16 \<Rightarrow> (DTAP_LcidBufferNode \<Rightarrow> DTAP_LcidBufferNode) \<Rightarrow> DTAP_LcidBufferNode list \<Rightarrow> DTAP_LcidBufferNode list" where
  "bn_upd l f [] = []"
| "bn_upd l f (n # ns) = (if bn_lcid n = l then f n # ns else n # bn_upd l f ns)"

definition DTAP_DecLcidQueuedPktCnt :: "u16 \<Rightarrow> nat \<Rightarrow> DTAP_LcidBufferNode list \<Rightarrow> DTAP_LcidBufferNode list" where
  "DTAP_DecLcidQueuedPktCnt l cnt ns = bn_upd l (\<lambda>n. n\<lparr>queuedPktCnt := DTAP_SCHED_SUB (queuedPktCnt n) cnt\<rparr>) ns"

text \<open>The transmit rate is only logged; the window is reset every ten seconds.\<close>

definition DTAP_CalcLcidSendRate :: "'r env \<Rightarrow> nat \<Rightarrow> DTAP_LcidBufferNode \<Rightarrow> DTAP_LcidBufferNode" where
  "DTAP_CalcLcidSendRate e pktBytes n =
     (let w = windowBytes n + pktBytes; now = DP_GetMonoTimeMs e in
      if lastRateCalcTime n = 0 then n\<lparr>windowBytes := w, lastRateCalcTime := now\<rparr>
      else if DTAP_SCHED_SUB now (lastRateCalcTime n) < DTAP_RATE_CALC_INTERVAL_MS then n\<lparr>windowBytes := w\<rparr>
      else n\<lparr>windowBytes := 0, lastRateCalcTime := now\<rparr>)"

section \<open>Quotas\<close>

definition DTAP_CalcTotalQueuedPktCnt :: "DTAP_LcidBufferNode list \<Rightarrow> nat" where
  "DTAP_CalcTotalQueuedPktCnt ns = sum_list (map queuedPktCnt ns)"

definition floor_bonus :: "nat \<Rightarrow> nat \<Rightarrow> DTAP_LcidBufferNode \<Rightarrow> nat" where
  "floor_bonus bonusPool tot n = to_u8 (bonusPool * queuedPktCnt n div tot)"

text \<open>The inner loop: the position of the not yet raised node with the largest remainder.\<close>

fun max_node :: "nat \<Rightarrow> nat \<Rightarrow> nat \<Rightarrow> DTAP_LcidBufferNode list \<Rightarrow> nat \<Rightarrow> nat option \<Rightarrow> nat option" where
  "max_node bonusPool tot i [] maxFrac maxNode = maxNode"
| "max_node bonusPool tot i (n # ns) maxFrac maxNode =
     (if quota n > floor_bonus bonusPool tot n + DTAP_MIN_BUFFER_NUM
      then max_node bonusPool tot (Suc i) ns maxFrac maxNode
      else (let frac = bonusPool * queuedPktCnt n mod tot in
        if frac > maxFrac then max_node bonusPool tot (Suc i) ns frac (Some i)
        else max_node bonusPool tot (Suc i) ns maxFrac maxNode))"

fun fill_up :: "nat \<Rightarrow> nat \<Rightarrow> nat \<Rightarrow> DTAP_LcidBufferNode list \<Rightarrow> DTAP_LcidBufferNode list" where
  "fill_up bonusPool tot 0 ns = ns"
| "fill_up bonusPool tot (Suc rem) ns =
     fill_up bonusPool tot rem
       (case max_node bonusPool tot 0 ns 0 None of
          None \<Rightarrow> ns
        | Some i \<Rightarrow> ns[i := (ns ! i)\<lparr>quota := to_u8 (quota (ns ! i) + 1)\<rparr>])"

definition bonus_pool :: "nat \<Rightarrow> nat \<Rightarrow> nat" where
  "bonus_pool apBufferNum lcidNums =
     (if apBufferNum > lcidNums * DTAP_MIN_BUFFER_NUM then to_u8 (apBufferNum - lcidNums * DTAP_MIN_BUFFER_NUM) else 0)"

definition DTAP_AllocLcidQuota :: "nat \<Rightarrow> nat \<Rightarrow> DTAP_LcidBufferNode list \<Rightarrow> DTAP_LcidBufferNode list" where
  "DTAP_AllocLcidQuota apBufferNum tot ns =
     (let bonusPool = bonus_pool apBufferNum (length ns);
          ns1 = map (\<lambda>n. n\<lparr>quota := to_u8 (DTAP_MIN_BUFFER_NUM + floor_bonus bonusPool tot n)\<rparr>) ns;
          sumBonus = to_u8 (sum_list (map (floor_bonus bonusPool tot) ns))
      in fill_up bonusPool tot (to_u8 (bonusPool + 256 - sumBonus)) ns1)"

definition DTAP_RecalcLcidQuota :: "nat \<Rightarrow> DTAP_LcidBufferNode list \<Rightarrow> DTAP_LcidBufferNode list" where
  "DTAP_RecalcLcidQuota apBufferNum ns =
     (let tot = DTAP_CalcTotalQueuedPktCnt ns in
      if tot \<noteq> 0 then map (\<lambda>n. n\<lparr>lastQuota := quota n\<rparr>) (DTAP_AllocLcidQuota apBufferNum tot ns)
      else map (\<lambda>n. n\<lparr>quota := DTAP_MIN_BUFFER_NUM, lastQuota := DTAP_MIN_BUFFER_NUM\<rparr>) ns)"

section \<open>The largest remainder method hands out the whole pool\<close>

definition frac_of :: "nat \<Rightarrow> nat \<Rightarrow> DTAP_LcidBufferNode \<Rightarrow> nat" where
  "frac_of pool tot n = pool * queuedPktCnt n mod tot"

definition eligible :: "nat \<Rightarrow> nat \<Rightarrow> DTAP_LcidBufferNode \<Rightarrow> bool" where
  "eligible pool tot n \<longleftrightarrow> \<not> quota n > floor_bonus pool tot n + 1"

lemma max_node_cases:
  "max_node pool tot i ns mf mn = mn \<and> (\<forall>n \<in> set ns. eligible pool tot n \<longrightarrow> frac_of pool tot n \<le> mf)
   \<or> (\<exists>j < length ns. max_node pool tot i ns mf mn = Some (i + j) \<and> eligible pool tot (ns ! j) \<and> frac_of pool tot (ns ! j) > mf)"
proof (induction ns arbitrary: i mf mn)
  case (Cons n ns)
  consider "\<not> eligible pool tot n \<or> \<not> frac_of pool tot n > mf" | "eligible pool tot n" "frac_of pool tot n > mf" by blast
  then show ?case
  proof cases
    case 1
    then have "max_node pool tot i (n # ns) mf mn = max_node pool tot (Suc i) ns mf mn"
      by (auto simp: eligible_def frac_of_def Let_def)
    with 1 Cons.IH [of "Suc i" mf mn] show ?thesis by (fastforce simp: nth_Cons')
  next
    case 2
    then have eq: "max_node pool tot i (n # ns) mf mn = max_node pool tot (Suc i) ns (frac_of pool tot n) (Some i)"
      by (auto simp: eligible_def frac_of_def Let_def)
    from Cons.IH [of "Suc i" "frac_of pool tot n" "Some i"] show ?thesis
    proof
      assume "max_node pool tot (Suc i) ns (frac_of pool tot n) (Some i) = Some i
        \<and> (\<forall>n' \<in> set ns. eligible pool tot n' \<longrightarrow> frac_of pool tot n' \<le> frac_of pool tot n)"
      then show ?thesis using 2 eq by (intro disjI2 exI [of _ 0]) simp
    next
      assume "\<exists>j < length ns. max_node pool tot (Suc i) ns (frac_of pool tot n) (Some i) = Some (Suc i + j)
        \<and> eligible pool tot (ns ! j) \<and> frac_of pool tot (ns ! j) > frac_of pool tot n"
      then obtain j where "j < length ns" "max_node pool tot (Suc i) ns (frac_of pool tot n) (Some i) = Some (Suc i + j)"
        "eligible pool tot (ns ! j)" "frac_of pool tot (ns ! j) > frac_of pool tot n" by blast
      then show ?thesis using 2 eq by (intro disjI2 exI [of _ "Suc j"]) simp
    qed
  qed
qed simp

lemma filter_update_length:
  assumes "j < length xs" "\<not> P (xs ! j)" "P y"
  shows "length (filter P (xs[j := y])) = Suc (length (filter P xs))"
  using assms by (subst (2) id_take_nth_drop [OF assms(1)]) (simp add: upd_conv_take_nth_drop)

text \<open>The state of the second loop after \<open>k\<close> rounds, with the links unchanged but for their quotas.\<close>

definition raised :: "nat \<Rightarrow> nat \<Rightarrow> DTAP_LcidBufferNode \<Rightarrow> bool" where
  "raised pool tot n \<longleftrightarrow> quota n = floor_bonus pool tot n + 2"

definition fill_inv :: "nat \<Rightarrow> nat \<Rightarrow> nat \<Rightarrow> DTAP_LcidBufferNode list \<Rightarrow> bool" where
  "fill_inv pool tot k ns \<longleftrightarrow> length (filter (raised pool tot) ns) = k
     \<and> (\<forall>n \<in> set ns. quota n = floor_bonus pool tot n + 1 \<or> (raised pool tot n \<and> 0 < frac_of pool tot n))"

lemma frac_sum_bound:
  assumes "\<forall>n \<in> set ns. 0 < frac_of pool tot n \<longrightarrow> raised pool tot n" "0 < tot"
  shows "sum_list (map (frac_of pool tot) ns) \<le> length (filter (raised pool tot) ns) * (tot - 1)"
  using assms
proof (induction ns)
  case (Cons n ns)
  have "frac_of pool tot n \<le> tot - 1" using Cons.prems(2) by (simp add: frac_of_def less_Suc_eq_le [symmetric])
  moreover have "\<not> raised pool tot n \<Longrightarrow> frac_of pool tot n = 0" using Cons.prems(1) by auto
  ultimately show ?case using Cons by auto
qed simp

lemma floor_frac:
  assumes "0 < tot" "queuedPktCnt n \<le> tot" "pool < 256"
  shows "pool * queuedPktCnt n = floor_bonus pool tot n * tot + frac_of pool tot n" "floor_bonus pool tot n \<le> pool"
proof -
  have "pool * queuedPktCnt n div tot \<le> pool * tot div tot" using assms(2) by (intro div_le_mono mult_le_mono2)
  then have le: "pool * queuedPktCnt n div tot \<le> pool" using assms(1) by simp
  then have "floor_bonus pool tot n = pool * queuedPktCnt n div tot" using assms(3) by (simp add: floor_bonus_def)
  then show "pool * queuedPktCnt n = floor_bonus pool tot n * tot + frac_of pool tot n" "floor_bonus pool tot n \<le> pool"
    using le by (simp_all add: frac_of_def)
qed

lemma floor_frac_sum:
  assumes "0 < tot" "\<forall>n \<in> set ns. queuedPktCnt n \<le> tot" "pool < 256"
  shows "pool * sum_list (map queuedPktCnt ns)
    = sum_list (map (floor_bonus pool tot) ns) * tot + sum_list (map (frac_of pool tot) ns)"
  using assms by (induction ns) (auto simp: algebra_simps floor_frac(1))

lemma fill_up_inv:
  assumes "fill_inv pool tot k ns" "0 < tot" "pool < 255" "k + r \<le> R" "sum_list (map (frac_of pool tot) ns) = R * tot"
    and "\<forall>n \<in> set ns. queuedPktCnt n \<le> tot"
  shows "fill_inv pool tot (k + r) (fill_up pool tot r ns)
    \<and> map (\<lambda>n. n\<lparr>quota := 0\<rparr>) (fill_up pool tot r ns) = map (\<lambda>n. n\<lparr>quota := 0\<rparr>) ns"
  using assms
proof (induction r arbitrary: k ns)
  case (Suc r)
  have "\<exists>n \<in> set ns. eligible pool tot n \<and> 0 < frac_of pool tot n"
  proof (rule ccontr)
    assume "\<not> ?thesis"
    then have "\<forall>n \<in> set ns. 0 < frac_of pool tot n \<longrightarrow> raised pool tot n"
      using Suc.prems(1) unfolding fill_inv_def eligible_def by (metis less_irrefl not_gr_zero)
    from frac_sum_bound [OF this Suc.prems(2)]
    have "R * tot \<le> k * (tot - 1)" using Suc.prems(1,5) by (simp add: fill_inv_def)
    moreover have "k * (tot - 1) \<le> k * tot" by simp
    moreover have "k * tot < R * tot" using Suc.prems(2,4) by simp
    ultimately show False by linarith
  qed
  then obtain j where j: "j < length ns" "max_node pool tot 0 ns 0 None = Some j" "eligible pool tot (ns ! j)"
    "0 < frac_of pool tot (ns ! j)"
    using max_node_cases [of pool tot 0 ns 0 None] by auto
  let ?n = "ns ! j"
  have in_set: "?n \<in> set ns" using j(1) by simp
  have fl: "floor_bonus pool tot ?n < pool"
  proof -
    have q: "queuedPktCnt ?n \<le> tot" "pool < 256" using Suc.prems(3,6) in_set by auto
    have "floor_bonus pool tot ?n * tot < pool * tot"
      using floor_frac(1) [OF Suc.prems(2) q] j(4) mult_le_mono2 [OF q(1), of pool] by linarith
    then show ?thesis by simp
  qed
  have q: "quota ?n = floor_bonus pool tot ?n + 1"
    using Suc.prems(1) j(3) in_set by (auto simp: fill_inv_def eligible_def raised_def)
  define m where "m = ?n\<lparr>quota := to_u8 (quota ?n + 1)\<rparr>"
  have m: "m = ?n\<lparr>quota := floor_bonus pool tot ?n + 2\<rparr>" using q fl Suc.prems(3) by (simp add: m_def)
  have fb: "floor_bonus pool tot m = floor_bonus pool tot ?n" "frac_of pool tot m = frac_of pool tot ?n"
    "m\<lparr>quota := 0\<rparr> = ?n\<lparr>quota := 0\<rparr>" "queuedPktCnt m = queuedPktCnt ?n"
    by (simp_all add: m_def floor_bonus_def frac_of_def)
  have r: "raised pool tot m" "\<not> raised pool tot ?n" using q m by (simp_all add: raised_def fb(1)) (simp add: floor_bonus_def)
  let ?ns = "ns[j := m]"
  have same: "map (\<lambda>n. n\<lparr>quota := 0\<rparr>) ?ns = map (\<lambda>n. n\<lparr>quota := 0\<rparr>) ns"
    using fb(3) j(1) by (simp add: map_update list_update_same_conv)
  have fr: "map (frac_of pool tot) ?ns = map (frac_of pool tot) ns"
    using fb(2) j(1) by (simp add: map_update list_update_same_conv)
  have inv: "fill_inv pool tot (Suc k) ?ns"
    unfolding fill_inv_def
  proof
    show "length (filter (raised pool tot) ?ns) = Suc k"
      using filter_update_length [of j ns "raised pool tot" m] j(1) r Suc.prems(1) by (simp add: fill_inv_def)
    show "\<forall>n \<in> set ?ns. quota n = floor_bonus pool tot n + 1 \<or> (raised pool tot n \<and> 0 < frac_of pool tot n)"
      using Suc.prems(1) set_update_subset_insert [of ns j m] r(1) fb(2) j(4) by (auto simp: fill_inv_def)
  qed
  have qs: "\<forall>n \<in> set ?ns. queuedPktCnt n \<le> tot"
    using Suc.prems(6) set_update_subset_insert [of ns j m] fb(4) in_set by auto
  have "fill_inv pool tot (Suc k + r) (fill_up pool tot r ?ns)
    \<and> map (\<lambda>n. n\<lparr>quota := 0\<rparr>) (fill_up pool tot r ?ns) = map (\<lambda>n. n\<lparr>quota := 0\<rparr>) ?ns"
    using Suc.IH [OF inv Suc.prems(2,3) _ _ qs] Suc.prems(4,5) fr by simp
  then show ?case using j(2) same by (simp add: m_def)
qed simp

lemma fill_inv_sum:
  "fill_inv pool tot k ns \<Longrightarrow> sum_list (map quota ns) = sum_list (map (floor_bonus pool tot) ns) + length ns + k"
proof (induction ns arbitrary: k)
  case (Cons n ns)
  show ?case
  proof (cases "raised pool tot n")
    case True
    then have "fill_inv pool tot (k - 1) ns" "0 < k" using Cons.prems by (auto simp: fill_inv_def)
    then show ?thesis using Cons.IH True by (simp add: raised_def)
  next
    case False
    then have "fill_inv pool tot k ns" "quota n = floor_bonus pool tot n + 1" using Cons.prems by (auto simp: fill_inv_def)
    then show ?thesis using Cons.IH by simp
  qed
qed (simp add: fill_inv_def)

lemma map_quota_indep:
  assumes "map (\<lambda>n. n\<lparr>quota := 0\<rparr>) ms = map (\<lambda>n. n\<lparr>quota := 0\<rparr>) ns" "\<And>n. f (n\<lparr>quota := 0\<rparr>) = f n"
  shows "map f ms = map f ns"
  using arg_cong [OF assms(1), of "map f"] by (simp add: comp_def assms(2))

lemma AllocLcidQuota_props:
  assumes "tot = DTAP_CalcTotalQueuedPktCnt ns" "0 < tot" "ap < 256"
  shows "map (\<lambda>n. n\<lparr>quota := 0\<rparr>) (DTAP_AllocLcidQuota ap tot ns) = map (\<lambda>n. n\<lparr>quota := 0\<rparr>) ns"
    and "sum_list (map quota (DTAP_AllocLcidQuota ap tot ns)) = max ap (length ns)"
    and "\<exists>k. fill_inv (bonus_pool ap (length ns)) tot k (DTAP_AllocLcidQuota ap tot ns)"
    and "bonus_pool ap (length ns) < 255"
proof -
  let ?p = "bonus_pool ap (length ns)"
  have "ns \<noteq> []" using assms(1,2) by (auto simp: DTAP_CalcTotalQueuedPktCnt_def)
  then have p: "?p < 255" "?p = ap - length ns" using assms(3) by (cases ns; auto simp: bonus_pool_def)+
  have q: "\<forall>n \<in> set ns. queuedPktCnt n \<le> tot"
    using assms(1) by (auto simp: DTAP_CalcTotalQueuedPktCnt_def intro: member_le_sum_list)
  define ns1 where "ns1 = map (\<lambda>n. n\<lparr>quota := to_u8 (1 + floor_bonus ?p tot n)\<rparr>) ns"
  have u8: "to_u8 (1 + floor_bonus ?p tot n) = 1 + floor_bonus ?p tot n" if "n \<in> set ns" for n
    using floor_frac(2) [of tot n ?p] p(1) q assms(2) that by auto
  have [simp]: "floor_bonus ?p tot (n\<lparr>quota := x\<rparr>) = floor_bonus ?p tot n" "frac_of ?p tot (n\<lparr>quota := x\<rparr>) = frac_of ?p tot n" for n x
    by (simp_all add: floor_bonus_def frac_of_def)
  have f0: "fill_inv ?p tot 0 ns1"
    using u8 by (auto simp: fill_inv_def ns1_def raised_def filter_empty_conv)
  define S where "S = sum_list (map (floor_bonus ?p tot) ns)"
  have eq: "?p * tot = S * tot + sum_list (map (frac_of ?p tot) ns)"
    using floor_frac_sum [OF assms(2) q, of ?p] p(1) assms(1) by (simp add: DTAP_CalcTotalQueuedPktCnt_def S_def)
  then have "S * tot \<le> ?p * tot" by linarith
  then have S: "S \<le> ?p" using assms(2) by simp
  have fr: "sum_list (map (frac_of ?p tot) ns1) = (?p - S) * tot"
    using eq by (simp add: ns1_def comp_def diff_mult_distrib)
  have rem: "to_u8 (?p + 256 - to_u8 S) = ?p - S"
  proof -
    have "to_u8 S = S" "?p + 256 - S = ?p - S + 256" using S p(1) by auto
    then have "to_u8 (?p + 256 - to_u8 S) = to_u8 (?p - S + 256)" by (simp only:)
    also have "\<dots> = ?p - S" using p(1) by (simp add: to_u8_def)
    finally show ?thesis .
  qed
  have al: "DTAP_AllocLcidQuota ap tot ns = fill_up ?p tot (?p - S) ns1"
    using rem by (simp add: DTAP_AllocLcidQuota_def Let_def ns1_def S_def)
  have fi: "fill_inv ?p tot (0 + (?p - S)) (fill_up ?p tot (?p - S) ns1)
    \<and> map (\<lambda>n. n\<lparr>quota := 0\<rparr>) (fill_up ?p tot (?p - S) ns1) = map (\<lambda>n. n\<lparr>quota := 0\<rparr>) ns1"
    by (rule fill_up_inv [OF f0 assms(2) p(1) _ fr]) (use q in \<open>auto simp: ns1_def\<close>)
  show 1: "map (\<lambda>n. n\<lparr>quota := 0\<rparr>) (DTAP_AllocLcidQuota ap tot ns) = map (\<lambda>n. n\<lparr>quota := 0\<rparr>) ns"
    using fi by (simp add: al ns1_def)
  show "\<exists>k. fill_inv ?p tot k (DTAP_AllocLcidQuota ap tot ns)" using fi al by auto
  have "map (floor_bonus ?p tot) (DTAP_AllocLcidQuota ap tot ns) = map (floor_bonus ?p tot) ns"
    by (rule map_quota_indep [OF 1]) simp
  moreover have "length (DTAP_AllocLcidQuota ap tot ns) = length ns" using arg_cong [OF 1, of length] by simp
  ultimately have "sum_list (map quota (DTAP_AllocLcidQuota ap tot ns)) = S + length ns + (?p - S)"
    using fill_inv_sum [of ?p tot "?p - S" "DTAP_AllocLcidQuota ap tot ns"] fi al by (simp add: S_def)
  then show "sum_list (map quota (DTAP_AllocLcidQuota ap tot ns)) = max ap (length ns)" using S p(2) by simp
  show "?p < 255" by (rule p(1))
qed

lemma quota_0_nth: "map (\<lambda>n. n\<lparr>quota := 0\<rparr>) ms = map (\<lambda>n. n\<lparr>quota := 0\<rparr>) ns \<Longrightarrow> i < length ns \<Longrightarrow>
  (ms ! i)\<lparr>quota := 0\<rparr> = (ns ! i)\<lparr>quota := 0\<rparr>"
  by (metis (no_types, lifting) length_map nth_map)

lemma quota_0_eq: "m\<lparr>quota := 0\<rparr> = n\<lparr>quota := 0\<rparr> \<Longrightarrow> bn_lcid m = bn_lcid n \<and> queuedPktCnt m = queuedPktCnt n
  \<and> sendNotAckPktCnt m = sendNotAckPktCnt n"
  by (cases m; cases n) simp

text \<open>
  (C24) The quotas hand out exactly the controller's buffers: with packets queued, the quotas of all links
  add up to the number of buffers (or one per link when there are fewer buffers than links), every
  link gets one buffer plus its proportional share rounded down or up, and a link with nothing queued
  gets exactly one; no 8-bit quota wraps.
\<close>

theorem quota_distribution:
  assumes "0 < DTAP_CalcTotalQueuedPktCnt ns" "ap < 256"
  shows "sum_list (map quota (DTAP_RecalcLcidQuota ap ns)) = max ap (length ns)
    \<and> (\<forall>i < length ns. let n = ns ! i; m = DTAP_RecalcLcidQuota ap ns ! i;
          share = (ap - length ns) * queuedPktCnt n div DTAP_CalcTotalQueuedPktCnt ns
        in bn_lcid m = bn_lcid n \<and> queuedPktCnt m = queuedPktCnt n \<and> sendNotAckPktCnt m = sendNotAckPktCnt n
          \<and> (quota m = 1 + share \<or> quota m = 2 + share) \<and> (queuedPktCnt n = 0 \<longrightarrow> quota m = 1))"
proof -
  let ?tot = "DTAP_CalcTotalQueuedPktCnt ns" and ?p = "bonus_pool ap (length ns)"
  let ?al = "DTAP_AllocLcidQuota ap ?tot ns"
  note al = AllocLcidQuota_props [OF refl assms]
  have rc: "DTAP_RecalcLcidQuota ap ns = map (\<lambda>n. n\<lparr>lastQuota := quota n\<rparr>) ?al"
    using assms(1) by (simp add: DTAP_RecalcLcidQuota_def)
  have len: "length ?al = length ns" using arg_cong [OF al(1), of length] by simp
  have "ns \<noteq> []" using assms(1) by (auto simp: DTAP_CalcTotalQueuedPktCnt_def)
  then have p: "?p = ap - length ns" using assms(2) by (auto simp: bonus_pool_def)
  have each: "bn_lcid m = bn_lcid n \<and> queuedPktCnt m = queuedPktCnt n \<and> sendNotAckPktCnt m = sendNotAckPktCnt n
      \<and> (quota m = 1 + s \<or> quota m = 2 + s) \<and> (queuedPktCnt n = 0 \<longrightarrow> quota m = 1)"
    if i: "i < length ns" and m: "m = ?al ! i" and n: "n = ns ! i" and s: "s = ?p * queuedPktCnt n div ?tot" for i m n s
  proof -
    have e: "bn_lcid m = bn_lcid n \<and> queuedPktCnt m = queuedPktCnt n \<and> sendNotAckPktCnt m = sendNotAckPktCnt n"
      using quota_0_eq [OF quota_0_nth [OF al(1) i]] m n by simp
    have le: "queuedPktCnt n \<le> ?tot"
      unfolding DTAP_CalcTotalQueuedPktCnt_def using i n by (auto intro: member_le_sum_list)
    have "s * ?tot \<le> ?p * ?tot"
      unfolding s by (rule le_trans [OF div_times_less_eq_dividend mult_le_mono2 [OF le]])
    then have "s \<le> ?p" using assms(1) by simp
    then have fl: "floor_bonus ?p ?tot m = s" using al(4) e s by (simp add: floor_bonus_def)
    have "m \<in> set ?al" using i m len by simp
    then have "quota m = s + 1 \<or> (quota m = s + 2 \<and> 0 < frac_of ?p ?tot m)"
      using al(3) fl by (auto simp: fill_inv_def raised_def)
    moreover have "queuedPktCnt n = 0 \<Longrightarrow> s = 0 \<and> frac_of ?p ?tot m = 0" using e s by (simp add: frac_of_def)
    ultimately show ?thesis using e by auto
  qed
  have "sum_list (map quota (DTAP_RecalcLcidQuota ap ns)) = max ap (length ns)"
    using al(2) by (simp add: rc comp_def)
  moreover have "\<forall>i < length ns. let n = ns ! i; m = DTAP_RecalcLcidQuota ap ns ! i;
          share = (ap - length ns) * queuedPktCnt n div ?tot
        in bn_lcid m = bn_lcid n \<and> queuedPktCnt m = queuedPktCnt n \<and> sendNotAckPktCnt m = sendNotAckPktCnt n
          \<and> (quota m = 1 + share \<or> quota m = 2 + share) \<and> (queuedPktCnt n = 0 \<longrightarrow> quota m = 1)"
  proof (intro allI impI)
    fix i assume i: "i < length ns"
    have nth: "DTAP_RecalcLcidQuota ap ns ! i = (?al ! i)\<lparr>lastQuota := quota (?al ! i)\<rparr>"
      using len i by (simp add: rc)
    show "let n = ns ! i; m = DTAP_RecalcLcidQuota ap ns ! i;
          share = (ap - length ns) * queuedPktCnt n div ?tot
        in bn_lcid m = bn_lcid n \<and> queuedPktCnt m = queuedPktCnt n \<and> sendNotAckPktCnt m = sendNotAckPktCnt n
          \<and> (quota m = 1 + share \<or> quota m = 2 + share) \<and> (queuedPktCnt n = 0 \<longrightarrow> quota m = 1)"
      using each [OF i refl refl refl] unfolding Let_def nth p by simp
  qed
  ultimately show ?thesis by blast
qed

definition link_of :: "u16 \<Rightarrow> nat \<Rightarrow> DTAP_LcidBufferNode" where
  "link_of l q = \<lparr>bn_lcid = l, quota = 0, lastQuota = 0, sendNotAckPktCnt = 0, queuedPktCnt = q, windowBytes = 0, lastRateCalcTime = 0\<rparr>"

theorem quota_distribution_witness:
  "sum_list (map quota (DTAP_RecalcLcidQuota 10 [link_of 1 5, link_of 2 0, link_of 3 2])) = 10
   \<and> quota (DTAP_RecalcLcidQuota 10 [link_of 1 5, link_of 2 0, link_of 3 2] ! 1) = 1"
proof -
  let ?ns = "[link_of 1 5, link_of 2 0, link_of 3 2]"
  have pos: "0 < DTAP_CalcTotalQueuedPktCnt ?ns" by (simp add: DTAP_CalcTotalQueuedPktCnt_def link_of_def)
  have "queuedPktCnt (?ns ! 1) = 0" "1 < length ?ns" by (simp_all add: link_of_def)
  then show ?thesis using quota_distribution [OF pos, of 10] by (auto simp: Let_def)
qed

end
