(* ===== verification/Dtap_Scheduler.thy ===== *)
theory Dtap_Scheduler
  imports Dtap_Quota
begin

text \<open>
  The packet scheduler (\<open>dtap_scheduler.c\<close>): four priority queues of links, each link a list of
  channels, each channel a list of pending packets; packets are cut into link fragments and handed to
  the data link as long as the controller and the link's quota have room. Channels are heap objects,
  addressed by number, because the scheduler and the channel module share them by pointer.
\<close>

section \<open>State\<close>

record DTAP_PendingPacket =
  pkt_buff :: SDF_Buff
  pkt_seq :: nat
  isSplited :: bool

text \<open>\<open>'a\<close> is the type of the mode specific attributes behind \<open>attr\<close>.\<close>

record 'a DTAP_Channel =
  pktList :: "DTAP_PendingPacket list"
  priority :: nat
  ch_type :: u8
  lcid :: u16
  srcTcid :: u8
  dstTcid :: u8
  mode :: nat
  mtu :: nat
  mps :: nat
  castMode :: nat
  attr :: "'a option"

record DTAP_LcidNode =
  channelList :: "nat list"
  hasScheduled :: bool
  ln_lcid :: u16
  ln_priority :: nat
  ln_pktCnt :: nat

record DTAP_PriorityQueue =
  lcidList :: "DTAP_LcidNode list"
  q_priority :: nat
  q_pktCnt :: nat

abbreviation (input) DTAP_PRIORITY_FRAGMENT :: nat where "DTAP_PRIORITY_FRAGMENT \<equiv> 0"
abbreviation (input) DTAP_PRIORITY_CMD :: nat where "DTAP_PRIORITY_CMD \<equiv> 1"
abbreviation (input) DTAP_PRIORITY_HIGH :: nat where "DTAP_PRIORITY_HIGH \<equiv> 2"
abbreviation (input) DTAP_PRIORITY_NORMAL :: nat where "DTAP_PRIORITY_NORMAL \<equiv> 3"
abbreviation (input) DTAP_PRIORITY_MAX :: nat where "DTAP_PRIORITY_MAX \<equiv> 4"
abbreviation (input) DTAP_FRAGMENT_TCID :: u8 where "DTAP_FRAGMENT_TCID \<equiv> 0xFF"
abbreviation (input) DTAP_PACKET_MAX_SIZE :: nat where "DTAP_PACKET_MAX_SIZE \<equiv> 10000"
abbreviation (input) DLI_DATATYPE_ACB :: u8 where "DLI_DATATYPE_ACB \<equiv> 0xA3"

text \<open>
  The channel heap (with the next fresh address), the scheduler's globals and the data link below.
\<close>

record 'a dp_state =
  chan_heap :: "nat \<rightharpoonup> 'a DTAP_Channel"
  chan_next :: nat
  g_dtapScheduler :: "DTAP_PriorityQueue list"
  g_lcidBufferList :: "DTAP_LcidBufferNode list"
  g_sendNotAckPktCnt :: u8
  g_isInited :: bool
  g_pktSeq :: nat
  g_apBufferNum :: u8
  dli :: DLI_State

definition chan_upd :: "nat \<Rightarrow> ('a DTAP_Channel \<Rightarrow> 'a DTAP_Channel) \<Rightarrow> 'a dp_state \<Rightarrow> 'a dp_state" where
  "chan_upd a f s = s\<lparr>chan_heap := (chan_heap s)(a := map_option f (chan_heap s a))\<rparr>"

definition q_upd :: "nat \<Rightarrow> (DTAP_PriorityQueue \<Rightarrow> DTAP_PriorityQueue) \<Rightarrow> 'a dp_state \<Rightarrow> 'a dp_state" where
  "q_upd i f s = s\<lparr>g_dtapScheduler := (g_dtapScheduler s)[i := f (g_dtapScheduler s ! i)]\<rparr>"

fun ln_upd :: "u16 \<Rightarrow> (DTAP_LcidNode \<Rightarrow> DTAP_LcidNode) \<Rightarrow> DTAP_LcidNode list \<Rightarrow> DTAP_LcidNode list" where
  "ln_upd l f [] = []"
| "ln_upd l f (n # ns) = (if ln_lcid n = l then f n # ns else n # ln_upd l f ns)"

definition node_upd :: "nat \<Rightarrow> u16 \<Rightarrow> (DTAP_LcidNode \<Rightarrow> DTAP_LcidNode) \<Rightarrow> 'a dp_state \<Rightarrow> 'a dp_state" where
  "node_upd i l f s = q_upd i (\<lambda>q. q\<lparr>lcidList := ln_upd l f (lcidList q)\<rparr>) s"

definition link_upd :: "u16 \<Rightarrow> (DTAP_LcidBufferNode \<Rightarrow> DTAP_LcidBufferNode) \<Rightarrow> 'a dp_state \<Rightarrow> 'a dp_state" where
  "link_upd l f s = s\<lparr>g_lcidBufferList := bn_upd l f (g_lcidBufferList s)\<rparr>"

text \<open>
  The first channel of a list that has a property. A channel that is no longer in the heap is a
  dangling pointer, and visiting it gives \<open>None\<close>; the inner option is the result of the search.
\<close>

fun find_chan :: "(nat \<rightharpoonup> 'a DTAP_Channel) \<Rightarrow> ('a DTAP_Channel \<Rightarrow> bool) \<Rightarrow> nat list \<Rightarrow> nat option option" where
  "find_chan h P [] = Some None"
| "find_chan h P (a # as) =
     (case h a of None \<Rightarrow> None | Some c \<Rightarrow> if P c then Some (Some a) else find_chan h P as)"

section \<open>Queues\<close>

definition DTAP_CreatePacket :: "'r env \<Rightarrow> SDF_Buff \<Rightarrow> 'a dp_state \<Rightarrow> DTAP_PendingPacket option \<times> 'a dp_state" where
  "DTAP_CreatePacket e b s =
     (case SDF_MemZalloc e of
        None \<Rightarrow> (None, s)
      | Some a \<Rightarrow> (Some \<lparr>pkt_buff = b, pkt_seq = g_pktSeq s, isSplited = False\<rparr>,
                   s\<lparr>g_pktSeq := (g_pktSeq s + 1) mod 2 ^ 32\<rparr>))"

definition DTAP_CreateLcidNode :: "'r env \<Rightarrow> u16 \<Rightarrow> nat \<Rightarrow> DTAP_LcidNode option" where
  "DTAP_CreateLcidNode e l prio =
     (case SDF_MemZalloc e of
        None \<Rightarrow> None
      | Some a \<Rightarrow> Some \<lparr>channelList = [], hasScheduled = False, ln_lcid = l, ln_priority = prio, ln_pktCnt = 0\<rparr>)"

definition DTAP_GetLcidNode :: "DTAP_PriorityQueue \<Rightarrow> u16 \<Rightarrow> DTAP_LcidNode option" where
  "DTAP_GetLcidNode q l = find (\<lambda>n. ln_lcid n = l) (lcidList q)"

definition DTAP_InsertChannelToLcidNode :: "nat \<Rightarrow> u16 \<Rightarrow> nat \<Rightarrow> 'a dp_state \<Rightarrow> 'a dp_state option" where
  "DTAP_InsertChannelToLcidNode i l a s = do {
     c \<leftarrow> chan_heap s a;
     n \<leftarrow> DTAP_GetLcidNode (g_dtapScheduler s ! i) l;
     r \<leftarrow> find_chan (chan_heap s) (\<lambda>d. lcid d = lcid c \<and> srcTcid d = srcTcid c) (channelList n);
     (case r of
        Some d \<Rightarrow> Some s
      | None \<Rightarrow> Some (node_upd i l (\<lambda>m. m\<lparr>channelList := channelList m @ [a]\<rparr>) s))
   }"

definition DTAP_PriorityQueuePush :: "'r env \<Rightarrow> nat \<Rightarrow> nat \<Rightarrow> nat \<Rightarrow> 'a dp_state \<Rightarrow> (DTAP_errno \<times> 'a dp_state) option" where
  "DTAP_PriorityQueuePush e i a cnt s = do {
     c \<leftarrow> chan_heap s a;
     let l = lcid c;
     let q = g_dtapScheduler s ! i;
     let created = (case DTAP_GetLcidNode q l of
         Some n \<Rightarrow> Some s
       | None \<Rightarrow> (case DTAP_CreateLcidNode e l (q_priority q) of
           None \<Rightarrow> None
         | Some n \<Rightarrow> Some (q_upd i (\<lambda>q. q\<lparr>lcidList := lcidList q @ [n]\<rparr>) s)));
     (case created of
        None \<Rightarrow> Some (DTAP_TRANS_MALLOC_ERR, s)
      | Some s1 \<Rightarrow> do {
          s2 \<leftarrow> DTAP_InsertChannelToLcidNode i l a s1;
          let s3 = node_upd i l (\<lambda>m. m\<lparr>ln_pktCnt := ln_pktCnt m + cnt\<rparr>) s2;
          let s4 = q_upd i (\<lambda>q. q\<lparr>q_pktCnt := q_pktCnt q + cnt\<rparr>) s3;
          Some (DTAP_SUCCESS, link_upd l (\<lambda>b. b\<lparr>queuedPktCnt := queuedPktCnt b + cnt\<rparr>) s4)
        })
   }"

definition DTAP_PriorityQueuePeek :: "nat \<Rightarrow> u16 \<Rightarrow> 'a dp_state \<Rightarrow> nat option option" where
  "DTAP_PriorityQueuePeek i l s =
     (case DTAP_GetLcidNode (g_dtapScheduler s ! i) l of
        None \<Rightarrow> Some None
      | Some n \<Rightarrow> if ln_pktCnt n = 0 then Some None
                  else find_chan (chan_heap s) (\<lambda>c. pktList c \<noteq> []) (channelList n))"

text \<open>The packet that is popped is always the first one of the channel.\<close>

definition DTAP_PriorityQueuePop :: "nat \<Rightarrow> u16 \<Rightarrow> nat \<Rightarrow> 'a dp_state \<Rightarrow> 'a dp_state" where
  "DTAP_PriorityQueuePop i l a s =
     (let s1 = chan_upd a (\<lambda>c. c\<lparr>pktList := tl (pktList c)\<rparr>) s;
          s2 = node_upd i l (\<lambda>n. n\<lparr>ln_pktCnt := DTAP_SCHED_SUB (ln_pktCnt n) 1\<rparr>) s1;
          s3 = q_upd i (\<lambda>q. q\<lparr>q_pktCnt := DTAP_SCHED_SUB (q_pktCnt q) 1\<rparr>) s2;
          s4 = link_upd l (\<lambda>b. b\<lparr>queuedPktCnt := DTAP_SCHED_SUB (queuedPktCnt b) 1\<rparr>) s3
      in case chan_heap s4 a of
           None \<Rightarrow> s4
         | Some c \<Rightarrow> if pktList c = [] then s4
                     else node_upd i l (\<lambda>n. n\<lparr>channelList := remove1 a (channelList n) @ [a]\<rparr>) s4)"

section \<open>Sending\<close>

definition DTAP_CanSend :: "u16 \<Rightarrow> 'a dp_state \<Rightarrow> bool" where
  "DTAP_CanSend l s =
     (case DTAP_GetLcidBufferNode (g_lcidBufferList s) l of
        None \<Rightarrow> False
      | Some n \<Rightarrow> if g_sendNotAckPktCnt s \<ge> g_apBufferNum s then False else sendNotAckPktCnt n < quota n)"

fun new_frag_bufs :: "'r env \<Rightarrow> nat \<Rightarrow> nat \<Rightarrow> SDF_Buff option list option" where
  "new_frag_bufs e len 0 = Some []"
| "new_frag_bufs e len (Suc n) =
     (case SDF_BuffNew (sub e n) len of
        None \<Rightarrow> None
      | Some b \<Rightarrow> map_option ((#) (Some b)) (new_frag_bufs e len n))"

text \<open>
  The fragments, or \<open>None\<close> when no buffer is available or \<open>DLI_SplitData\<close> refuses; the packet's buffer
  comes back because headers are written into it.
\<close>

definition DTAP_SplitData :: "'r env \<Rightarrow> u16 \<Rightarrow> SDF_Buff \<Rightarrow> nat \<Rightarrow> 'a dp_state
    \<Rightarrow> (SDF_Buff list option \<times> SDF_Buff \<times> 'a dp_state) option" where
  "DTAP_SplitData e l b fragmentCnt s =
     (case new_frag_bufs e (DLI_GetFragmentMaxLen (dli s)) fragmentCnt of
        None \<Rightarrow> Some (None, b, s)
      | Some fs \<Rightarrow> do {
          (ret, dl, d, gs) \<leftarrow> DLI_SplitData (dli s)
             \<lparr>data_lcid = l, data_type = DLI_DATATYPE_ACB, data_ts = 0, data_prio = 0, data_buf = Some b\<rparr> fs fragmentCnt;
          b1 \<leftarrow> data_buf d;
          if ret \<noteq> DLI_SUCCESS then Some (None, b1, s\<lparr>dli := dl\<rparr>)
          else do { hs \<leftarrow> those gs; Some (Some hs, b1, s\<lparr>dli := dl\<rparr>) }
        })"

definition DTAP_CreateDataStru :: "'r env \<Rightarrow> u16 \<Rightarrow> u8 \<Rightarrow> u8 \<Rightarrow> u8 \<Rightarrow> SDF_Buff \<Rightarrow> DLI_DataStru option" where
  "DTAP_CreateDataStru e l type ts prio b =
     (case SDF_MemZalloc e of
        None \<Rightarrow> None
      | Some a \<Rightarrow> Some \<lparr>data_lcid = l, data_type = type, data_ts = ts, data_prio = prio, data_buf = Some b\<rparr>)"

definition DTAP_SendData :: "'r env \<Rightarrow> u16 \<Rightarrow> SDF_Buff \<Rightarrow> 'a dp_state \<Rightarrow> bool \<times> 'a dp_state" where
  "DTAP_SendData e l b s =
     (case DTAP_CreateDataStru (sub e 0) l DLI_DATATYPE_ACB 0 0 b of
        None \<Rightarrow> (False, s)
      | Some d \<Rightarrow> (case DLI_DataSend (sub e 1) d (dli s) of
          (ret, dl) \<Rightarrow> (ret = DLI_SUCCESS, s\<lparr>dli := dl\<rparr>)))"

text \<open>The bookkeeping after a fragment was handed over.\<close>

definition count_sent :: "'r env \<Rightarrow> u16 \<Rightarrow> nat \<Rightarrow> 'a dp_state \<Rightarrow> 'a dp_state" where
  "count_sent e l len s =
     (link_upd l (\<lambda>n. (DTAP_CalcLcidSendRate e len n)\<lparr>sendNotAckPktCnt := sendNotAckPktCnt n + 1\<rparr>) s)
       \<lparr>g_sendNotAckPktCnt := g_sendNotAckPktCnt s + 1\<rparr>"

text \<open>The send loop over the fragments of one packet; the result is what is left unsent.\<close>

fun send_frags :: "'r env \<Rightarrow> nat \<Rightarrow> u16 \<Rightarrow> u16 \<Rightarrow> SDF_Buff list \<Rightarrow> 'a dp_state \<Rightarrow> SDF_Buff list \<times> 'a dp_state" where
  "send_frags e k l cl [] s = ([], s)"
| "send_frags e k l cl (f # fs) s =
     (if \<not> DTAP_CanSend l s then (f # fs, s)
      else (case DTAP_SendData (sub (sub e k) 0) cl f s of
        (ok, s1) \<Rightarrow> if \<not> ok then (f # fs, s1)
                     else send_frags e (Suc k) l cl fs (count_sent (sub (sub e k) 1) l (dataLen f) s1)))"

definition DTAP_GetOrCreateFragmentChannel :: "'r env \<Rightarrow> u16 \<Rightarrow> 'a dp_state \<Rightarrow> (nat option \<times> 'a dp_state) option" where
  "DTAP_GetOrCreateFragmentChannel e l s = do {
     r \<leftarrow> (case DTAP_GetLcidNode (g_dtapScheduler s ! DTAP_PRIORITY_FRAGMENT) l of
            None \<Rightarrow> Some None
          | Some n \<Rightarrow> find_chan (chan_heap s) (\<lambda>c. \<not> (lcid c \<noteq> l \<or> srcTcid c \<noteq> DTAP_FRAGMENT_TCID)) (channelList n));
     (case r of
        Some a \<Rightarrow> Some (Some a, s)
      | None \<Rightarrow> (case SDF_MemZalloc e of
          None \<Rightarrow> Some (None, s)
        | Some x \<Rightarrow> Some (Some (chan_next s), s\<lparr>chan_heap := (chan_heap s)(chan_next s \<mapsto>
             \<lparr>pktList = [], priority = DTAP_PRIORITY_FRAGMENT, ch_type = 0, lcid = l, srcTcid = DTAP_FRAGMENT_TCID,
              dstTcid = DTAP_FRAGMENT_TCID, mode = 0, mtu = 0, mps = 0, castMode = 0, attr = None\<rparr>), chan_next := chan_next s + 1\<rparr>)))
   }"

fun split_packets :: "'r env \<Rightarrow> nat \<Rightarrow> SDF_Buff list \<Rightarrow> 'a dp_state \<Rightarrow> DTAP_PendingPacket list option \<times> 'a dp_state" where
  "split_packets e k [] s = (Some [], s)"
| "split_packets e k (b # bs) s =
     (case DTAP_CreatePacket (sub e k) b s of
        (None, s1) \<Rightarrow> (None, s1)
      | (Some p, s1) \<Rightarrow> (case split_packets e (Suc k) bs s1 of
          (None, s2) \<Rightarrow> (None, s2)
        | (Some ps, s2) \<Rightarrow> (Some (p\<lparr>isSplited := True\<rparr> # ps), s2)))"

definition DTAP_SaveFragmentData :: "'r env \<Rightarrow> u16 \<Rightarrow> SDF_Buff list \<Rightarrow> 'a dp_state \<Rightarrow> (bool \<times> 'a dp_state) option" where
  "DTAP_SaveFragmentData e l bs s =
     (case split_packets (sub e 0) 0 bs s of
        (None, s1) \<Rightarrow> Some (False, s1)
      | (Some ps, s1) \<Rightarrow> do {
          (ch, s2) \<leftarrow> DTAP_GetOrCreateFragmentChannel (sub e 1) l s1;
          (case ch of
             None \<Rightarrow> Some (False, s2)
           | Some a \<Rightarrow> do {
               let s3 = chan_upd a (\<lambda>c. c\<lparr>pktList := pktList c @ ps\<rparr>) s2;
               c \<leftarrow> chan_heap s3 a;
               (ret, s4) \<leftarrow> DTAP_PriorityQueuePush (sub e 2) (priority c) a (length bs) s3;
               if ret \<noteq> DTAP_SUCCESS then Some (False, s4\<lparr>chan_heap := (chan_heap s4)(a := None)\<rparr>)
               else Some (True, s4)
             })
        })"

section \<open>Scheduling\<close>

text \<open>One round of the loop in \<open>DTAP_ScheduleLcid\<close> for the channel that was peeked.\<close>

datatype 'a round = Return bool "'a dp_state" | Continue "'a dp_state"

definition schedule_round :: "'r env \<Rightarrow> nat \<Rightarrow> u16 \<Rightarrow> nat \<Rightarrow> 'a dp_state \<Rightarrow> 'a round option" where
  "schedule_round e i l a s = do {
     c \<leftarrow> chan_heap s a;
     (case pktList c of
        [] \<Rightarrow> None
      | pkt # rest \<Rightarrow>
          if isSplited pkt then
            (case DTAP_SendData (sub e 0) (lcid c) (pkt_buff pkt) s of
               (ok, s1) \<Rightarrow> if \<not> ok then Some (Return False s1)
                  else Some (Continue (count_sent (sub e 1) l (dataLen (pkt_buff pkt)) (DTAP_PriorityQueuePop i l a s1))))
          else do {
            let cnt = DLI_GetDataFragmentNums 0 (dli s) (Some (pkt_buff pkt));
            (frags, b1, s1) \<leftarrow> DTAP_SplitData (sub e 0) (lcid c) (pkt_buff pkt) cnt s;
            (case frags of
               None \<Rightarrow> Some (Return False (chan_upd a (\<lambda>d. d\<lparr>pktList := pkt\<lparr>pkt_buff := b1\<rparr> # tl (pktList d)\<rparr>) s1))
             | Some fs \<Rightarrow> (case send_frags (sub e 1) 0 l (lcid c) fs s1 of
                 (left, s2) \<Rightarrow> (let s3 = DTAP_PriorityQueuePop i l a s2 in
                   if left = [] then Some (Continue s3)
                   else do {
                     (ok, s4) \<leftarrow> DTAP_SaveFragmentData (sub e 2) (lcid c) left s3;
                     Some (Return ok s4)
                   })))
          })
   }"

definition next_channel :: "nat \<Rightarrow> u16 \<Rightarrow> 'a dp_state \<Rightarrow> nat option option" where
  "next_channel i l s = (if DTAP_CanSend l s then DTAP_PriorityQueuePeek i l s else Some None)"


section \<open>Frame lemmas\<close>

text \<open>
  What flow control is about: the counters, the buffers of the controller, the links with quota and
  outstanding count, and the fragments handed to the data link.
\<close>

definition link_view :: "DTAP_LcidBufferNode \<Rightarrow> u16 \<times> nat \<times> nat" where
  "link_view n = (bn_lcid n, quota n, sendNotAckPktCnt n)"

record flow =
  f_unacked :: u8
  f_bufs :: u8
  f_links :: "(u16 \<times> nat \<times> nat) list"
  f_tasks :: "DLI_DataStru list"

definition flow_of :: "'a dp_state \<Rightarrow> flow" where
  "flow_of s = \<lparr>f_unacked = g_sendNotAckPktCnt s, f_bufs = g_apBufferNum s,
     f_links = map link_view (g_lcidBufferList s), f_tasks = dli_tasks (dli s)\<rparr>"

lemma bn_upd_view: "(\<And>n. link_view (f n) = link_view n) \<Longrightarrow> map link_view (bn_upd l f ns) = map link_view ns"
  by (induction ns) auto

lemma flow_upds [simp]:
  "flow_of (chan_upd a f s) = flow_of s" "flow_of (q_upd i g s) = flow_of s" "flow_of (node_upd i l h s) = flow_of s"
  "flow_of (s\<lparr>chan_heap := x\<rparr>) = flow_of s" "flow_of (s\<lparr>chan_next := y\<rparr>) = flow_of s" "flow_of (s\<lparr>g_pktSeq := z\<rparr>) = flow_of s"
  by (simp_all add: flow_of_def chan_upd_def q_upd_def node_upd_def)

lemma flow_link_upd: "(\<And>n. link_view (f n) = link_view n) \<Longrightarrow> flow_of (link_upd l f s) = flow_of s"
  by (simp add: flow_of_def link_upd_def bn_upd_view)

lemma flow_pop [simp]: "flow_of (DTAP_PriorityQueuePop i l a s) = flow_of s"
  by (simp add: DTAP_PriorityQueuePop_def Let_def flow_link_upd link_view_def split: option.splits)

lemma flow_create_packet [simp]: "flow_of (snd (DTAP_CreatePacket e b s)) = flow_of s"
  by (simp add: DTAP_CreatePacket_def split: option.splits)

lemma flow_split_packets [simp]: "flow_of (snd (split_packets e k bs s)) = flow_of s"
proof (induction bs arbitrary: k s)
  case (Cons b bs)
  obtain r s1 where c: "DTAP_CreatePacket (sub e k) b s = (r, s1)" by fastforce
  then have "flow_of s1 = flow_of s" using flow_create_packet [of "sub e k" b s] by simp
  then show ?case
    using c Cons [of "Suc k" s1] by (auto split: option.splits prod.splits)
qed simp

lemma flow_insert: "DTAP_InsertChannelToLcidNode i l a s = Some s' \<Longrightarrow> flow_of s' = flow_of s"
  by (auto simp: DTAP_InsertChannelToLcidNode_def split: bind_splits option.splits)

lemma flow_push: "DTAP_PriorityQueuePush e i a cnt s = Some (r, s') \<Longrightarrow> flow_of s' = flow_of s"
  by (auto simp: DTAP_PriorityQueuePush_def Let_def flow_link_upd link_view_def
      split: bind_splits option.splits dest!: flow_insert)

lemma flow_fragment_channel: "DTAP_GetOrCreateFragmentChannel e l s = Some (r, s') \<Longrightarrow> flow_of s' = flow_of s"
  by (auto simp: DTAP_GetOrCreateFragmentChannel_def split: bind_splits option.splits)

lemma flow_split_packetsD: "split_packets e k bs s = (r, s') \<Longrightarrow> flow_of s' = flow_of s"
  by (metis flow_split_packets snd_conv)

lemma flow_save: "DTAP_SaveFragmentData e l bs s = Some (r, s') \<Longrightarrow> flow_of s' = flow_of s"
  by (auto simp: DTAP_SaveFragmentData_def Let_def split: bind_splits option.splits prod.splits if_splits
      dest!: flow_push flow_fragment_channel flow_split_packetsD)

lemma DLI_PdFlagGet_keeps: "snd (DLI_PdFlagGet x y s) = s\<lparr>pdFlag := fst (DLI_PdFlagGet x y s)\<rparr>"
  by (simp add: DLI_PdFlagGet_def Let_def)

lemma split_loop_keeps:
  "split_loop s d b off fs = Some (r, s', b', gs) \<Longrightarrow>
   (\<exists>fl. s' = s\<lparr>pdFlag := fl\<rparr>) \<and> (r = DLI_SUCCESS \<longrightarrow> length gs = length fs)"
proof (induction fs arbitrary: s b off r s' b' gs)
  case Nil
  then show ?case by (intro conjI exI [of _ "pdFlag s"]) simp_all
next
  case (Cons f fs)
  let ?g = "DLI_PdFlagGet (dataLen b - off) (acbLen s) s"
  let ?s1 = "snd ?g"
  have s1: "?s1 = s\<lparr>pdFlag := fst ?g\<rparr>" by (rule DLI_PdFlagGet_keeps)
  have "s' = ?s1 \<and> r \<noteq> DLI_SUCCESS \<or>
    (\<exists>b1 off1 f2 fs2. split_loop ?s1 d b1 off1 fs = Some (r, s', b', fs2) \<and> gs = Some f2 # fs2)"
    using Cons.prems
    by (auto simp: Let_def case_prod_beta simp del: SDF_BuffAppend.simps split: if_splits bind_splits option.splits)
  then show ?case
  proof
    assume "s' = ?s1 \<and> r \<noteq> DLI_SUCCESS"
    then show ?thesis using s1 by auto
  next
    assume "\<exists>b1 off1 f2 fs2. split_loop ?s1 d b1 off1 fs = Some (r, s', b', fs2) \<and> gs = Some f2 # fs2"
    then obtain b1 off1 f2 fs2 where "split_loop ?s1 d b1 off1 fs = Some (r, s', b', fs2)" "gs = Some f2 # fs2" by blast
    with Cons.IH [of ?s1 b1 off1 r s' b' fs2] s1 show ?thesis by auto
  qed
qed


lemma DLI_SplitData_keeps:
  assumes "DLI_SplitData s d fs n = Some (r, s', d', gs)"
  shows "\<exists>fl. s' = s\<lparr>pdFlag := fl\<rparr>" "r = DLI_SUCCESS \<longrightarrow> gs \<noteq> []"
proof -
  have refl: "\<exists>fl. s = s\<lparr>pdFlag := fl\<rparr>" by (intro exI [of _ "pdFlag s"]) simp
  show "\<exists>fl. s' = s\<lparr>pdFlag := fl\<rparr>"
    using assms refl by (auto simp: DLI_SplitData_def split: option.splits if_splits bind_splits dest!: split_loop_keeps)
  show "r = DLI_SUCCESS \<longrightarrow> gs \<noteq> []"
    using assms by (fastforce simp: DLI_SplitData_def split: option.splits if_splits bind_splits dest!: split_loop_keeps)
qed

lemma those_length: "those xs = Some ys \<Longrightarrow> length ys = length xs"
  by (induction xs arbitrary: ys) (auto split: option.splits)

lemma flow_split_data:
  assumes "DTAP_SplitData e l b n s = Some (fr, b1, s1)"
  shows "flow_of s1 = flow_of s" "fr = Some fs \<Longrightarrow> fs \<noteq> []"
proof -
  have fl: "\<exists>f. dl = d\<lparr>pdFlag := f\<rparr> \<Longrightarrow> dli_tasks dl = dli_tasks d" for dl d by auto
  show "flow_of s1 = flow_of s"
    using assms by (auto simp: DTAP_SplitData_def flow_of_def split: option.splits bind_splits if_splits
      dest!: DLI_SplitData_keeps(1) fl)
  show "fr = Some fs \<Longrightarrow> fs \<noteq> []"
    using assms by (auto simp: DTAP_SplitData_def split: option.splits bind_splits if_splits
      dest!: DLI_SplitData_keeps(2) those_length)
qed

section \<open>The abstract sender\<close>

text \<open>
  What flow control promises: a fragment is handed over only while the controller has a free buffer and
  the link is below its quota, and each one is counted globally and on a link.
\<close>

fun link_count :: "u16 \<Rightarrow> (u16 \<times> nat \<times> nat) list \<Rightarrow> (u16 \<times> nat \<times> nat) list" where
  "link_count l [] = []"
| "link_count l ((m, q, c) # ns) = (if m = l then (m, q, c + 1) # ns else (m, q, c) # link_count l ns)"

fun link_room :: "u16 \<Rightarrow> (u16 \<times> nat \<times> nat) list \<Rightarrow> bool" where
  "link_room l [] = False"
| "link_room l ((m, q, c) # ns) = (if m = l then c < q else link_room l ns)"

inductive flow_step :: "flow \<Rightarrow> flow \<Rightarrow> bool" where
  "\<lbrakk>f_unacked f < f_bufs f; link_room l (f_links f)\<rbrakk> \<Longrightarrow>
   flow_step f (f\<lparr>f_unacked := f_unacked f + 1, f_links := link_count l (f_links f), f_tasks := f_tasks f @ [d]\<rparr>)"

lemma CanSend_flow: "DTAP_CanSend l s \<longleftrightarrow> f_unacked (flow_of s) < f_bufs (flow_of s) \<and> link_room l (f_links (flow_of s))"
proof -
  have "link_room l (map link_view ns) = (case DTAP_GetLcidBufferNode ns l of None \<Rightarrow> False | Some n \<Rightarrow> sendNotAckPktCnt n < quota n)" for ns
    by (induction ns) (auto simp: link_view_def DTAP_GetLcidBufferNode_def)
  then show ?thesis
    by (auto simp: DTAP_CanSend_def flow_of_def not_le split: option.splits)
qed

lemma link_count_view:
  "map link_view (bn_upd l (\<lambda>n. (DTAP_CalcLcidSendRate e len n)\<lparr>sendNotAckPktCnt := sendNotAckPktCnt n + 1\<rparr>) ns)
   = link_count l (map link_view ns)"
  by (induction ns) (auto simp: link_view_def DTAP_CalcLcidSendRate_def Let_def)

lemma flow_count_sent:
  "flow_of (count_sent e l len s) = (flow_of s)\<lparr>f_unacked := f_unacked (flow_of s) + 1, f_links := link_count l (f_links (flow_of s))\<rparr>"
  using link_count_view [of l e len "g_lcidBufferList s"] by (simp add: count_sent_def link_upd_def flow_of_def)

lemma flow_send_data:
  assumes "DTAP_SendData e l b s = (ok, s1)"
  shows "\<not> ok \<Longrightarrow> flow_of s1 = flow_of s"
    and "ok \<Longrightarrow> \<exists>d. flow_of s1 = (flow_of s)\<lparr>f_tasks := f_tasks (flow_of s) @ [d]\<rparr> \<and> data_lcid d = l \<and> data_buf d = Some b"
  using assms
  by (auto simp: DTAP_SendData_def DLI_DataSend_def DTAP_CreateDataStru_def flow_of_def
      split: option.splits if_splits prod.splits)

lemma flow_sent:
  assumes "DTAP_CanSend l s" "DTAP_SendData e cl b s = (True, s1)" "flow_of s2 = flow_of s1"
  shows "flow_step (flow_of s) (flow_of (count_sent e' l len s2))"
proof -
  obtain d where d: "flow_of s1 = (flow_of s)\<lparr>f_tasks := f_tasks (flow_of s) @ [d]\<rparr>"
    using flow_send_data(2) [OF assms(2)] by auto
  have *: "flow_of (count_sent e' l len s2) = (flow_of s)\<lparr>f_unacked := f_unacked (flow_of s) + 1,
      f_links := link_count l (f_links (flow_of s)), f_tasks := f_tasks (flow_of s) @ [d]\<rparr>"
    unfolding flow_count_sent assms(3) d by simp
  show ?thesis unfolding * using assms(1) by (intro flow_step.intros) (simp_all add: CanSend_flow)
qed

lemma flow_send_frags:
  "send_frags e k l cl fs s = (left, s') \<Longrightarrow> flow_step\<^sup>*\<^sup>* (flow_of s) (flow_of s') \<and>
    (left = [] \<longrightarrow> fs \<noteq> [] \<longrightarrow> flow_step\<^sup>+\<^sup>+ (flow_of s) (flow_of s'))"
proof (induction fs arbitrary: k s)
  case (Cons f fs)
  show ?case
  proof (cases "DTAP_CanSend l s")
    case False
    then show ?thesis using Cons.prems by auto
  next
    case can: True
    obtain ok s1 where sd: "DTAP_SendData (sub (sub e k) 0) cl f s = (ok, s1)" by fastforce
    show ?thesis
    proof (cases ok)
      case False
      then show ?thesis using Cons.prems can sd flow_send_data(1) [OF sd] by auto
    next
      case True
      let ?s2 = "count_sent (sub (sub e k) 1) l (dataLen f) s1"
      have st: "flow_step (flow_of s) (flow_of ?s2)" using flow_sent [OF can _ refl] sd True by simp
      moreover have "flow_step\<^sup>*\<^sup>* (flow_of ?s2) (flow_of s')"
        using Cons.IH [of "Suc k" ?s2] Cons.prems can sd True by simp
      ultimately show ?thesis by (simp add: converse_rtranclp_into_rtranclp rtranclp_into_tranclp2)
    qed
  qed
qed auto

lemma flow_round:
  assumes "schedule_round e i l a s = Some r" "DTAP_CanSend l s"
  shows "case r of Return b s' \<Rightarrow> flow_step\<^sup>*\<^sup>* (flow_of s) (flow_of s') | Continue s' \<Rightarrow> flow_step\<^sup>+\<^sup>+ (flow_of s) (flow_of s')"
proof -
  from assms(1) obtain c pkt rest where c: "chan_heap s a = Some c" "pktList c = pkt # rest"
    by (auto simp: schedule_round_def split: bind_splits list.splits)
  show ?thesis
  proof (cases "isSplited pkt")
    case True
    obtain ok s1 where sd: "DTAP_SendData (sub e 0) (lcid c) (pkt_buff pkt) s = (ok, s1)" by fastforce
    show ?thesis
    proof (cases ok)
      case False
      then have "r = Return False s1" using assms(1) c True sd by (simp add: schedule_round_def)
      then show ?thesis using flow_send_data(1) [OF sd False] by simp
    next
      case ok: True
      then have "r = Continue (count_sent (sub e 1) l (dataLen (pkt_buff pkt)) (DTAP_PriorityQueuePop i l a s1))"
        using assms(1) c True sd by (simp add: schedule_round_def)
      moreover have "flow_step (flow_of s) (flow_of (count_sent (sub e 1) l (dataLen (pkt_buff pkt)) (DTAP_PriorityQueuePop i l a s1)))"
        by (rule flow_sent [OF assms(2)]) (use sd ok in auto)
      ultimately show ?thesis by (simp add: tranclp.r_into_trancl)
    qed
  next
    case False
    obtain fr b1 s1 where sp: "DTAP_SplitData (sub e 0) (lcid c) (pkt_buff pkt)
        (DLI_GetDataFragmentNums 0 (dli s) (Some (pkt_buff pkt))) s = Some (fr, b1, s1)"
      using assms(1) c False by (auto simp: schedule_round_def split: bind_splits)
    note f1 = flow_split_data [OF sp]
    show ?thesis
    proof (cases fr)
      case None
      then show ?thesis using assms(1) c False sp f1(1) by (auto simp: schedule_round_def)
    next
      case (Some fs)
      obtain left s2 where sf: "send_frags (sub e 1) 0 l (lcid c) fs s1 = (left, s2)" by fastforce
      note f2 = flow_send_frags [OF sf]
      show ?thesis
      proof (cases "left = []")
        case True
        then have "r = Continue (DTAP_PriorityQueuePop i l a s2)"
          using assms(1) c False sp Some sf by (simp add: schedule_round_def)
        then show ?thesis using f2 f1 Some True by simp
      next
        case ne: False
        then obtain ok s4 where "DTAP_SaveFragmentData (sub e 2) (lcid c) left (DTAP_PriorityQueuePop i l a s2) = Some (ok, s4)"
          "r = Return ok s4"
          using assms(1) c False sp Some sf by (auto simp: schedule_round_def Let_def split: bind_splits)
        then show ?thesis using flow_save f2 f1(1) by fastforce
      qed
    qed
  qed
qed

lemma flow_step_counts:
  "flow_step f g \<Longrightarrow> f_bufs g = f_bufs f \<and> unat (f_unacked g) = unat (f_unacked f) + 1 \<and> f_unacked g \<le> f_bufs g
    \<and> length (f_tasks g) = length (f_tasks f) + 1"
proof (induction rule: flow_step.induct)
  case (1 f l d)
  have "1 + f_unacked f \<noteq> 0" using 1(1) by (auto simp: add_eq_0_iff)
  then have "unat (f_unacked f + 1) = unat (f_unacked f) + 1" using unatSuc [of "f_unacked f"] by (simp add: add.commute)
  with 1 show ?case by (simp add: word_less_nat_alt word_le_nat_alt)
qed

lemma flow_steps_counts:
  "flow_step\<^sup>*\<^sup>* f g \<Longrightarrow> f_bufs g = f_bufs f \<and> unat (f_unacked f) \<le> unat (f_unacked g)
    \<and> (f_unacked g = f_unacked f \<or> f_unacked g \<le> f_bufs g)"
  by (induction rule: rtranclp_induct) (auto dest!: flow_step_counts)

lemma flow_plus_counts:
  "flow_step\<^sup>+\<^sup>+ f g \<Longrightarrow> f_bufs g = f_bufs f \<and> unat (f_unacked f) < unat (f_unacked g) \<and> f_unacked g \<le> f_bufs g"
  by (induction rule: tranclp_induct) (auto dest!: flow_step_counts)

section \<open>The scheduling loops\<close>

text \<open>
  The \<open>while\<close> loop of \<open>DTAP_ScheduleLcid\<close>. Every round that continues has handed over at least one
  fragment, so the free buffers of the controller bound the number of rounds.
\<close>

function DTAP_ScheduleLcid :: "'r env \<Rightarrow> nat \<Rightarrow> nat \<Rightarrow> u16 \<Rightarrow> 'a dp_state \<Rightarrow> (bool \<times> 'a dp_state) option" where
  "DTAP_ScheduleLcid e k i l s =
     (case next_channel i l s of
        None \<Rightarrow> None
      | Some None \<Rightarrow> Some (True, s)
      | Some (Some a) \<Rightarrow> (case schedule_round (sub e k) i l a s of
          None \<Rightarrow> None
        | Some (Return b s') \<Rightarrow> Some (b, s')
        | Some (Continue s') \<Rightarrow> DTAP_ScheduleLcid e (Suc k) i l s'))"
  by pat_completeness auto

termination
proof (relation "measure (\<lambda>(e, k, i, l, s). unat (g_apBufferNum s) - unat (g_sendNotAckPktCnt s))", goal_cases)
  case (2 e k i l s x2 a r s')
  have can: "DTAP_CanSend l s" using 2(1,2) by (auto simp: next_channel_def split: if_splits)
  have "flow_step\<^sup>+\<^sup>+ (flow_of s) (flow_of s')" using flow_round [OF _ can] 2 by fastforce
  from flow_plus_counts [OF this] show ?case by (auto simp: flow_of_def word_le_nat_alt)
qed simp

declare DTAP_ScheduleLcid.simps [simp del]

fun schedule_links :: "'r env \<Rightarrow> nat \<Rightarrow> nat \<Rightarrow> u16 list \<Rightarrow> 'a dp_state \<Rightarrow> (bool \<times> 'a dp_state) option" where
  "schedule_links e k i [] s = Some (True, s)"
| "schedule_links e k i (l # ls) s =
     (if \<not> DTAP_CanSend l s then schedule_links e (Suc k) i ls s
      else do {
        (ok, s1) \<leftarrow> DTAP_ScheduleLcid (sub e k) 0 i l (node_upd i l (\<lambda>n. n\<lparr>hasScheduled := True\<rparr>) s);
        if ok then schedule_links e (Suc k) i ls s1 else Some (False, s1)
      })"

text \<open>
  Links that were served move to the end of the list, in order; their flag is cleared. The C loop does
  this node by node with a saved successor, so a node it has moved is met again with a cleared flag.
\<close>

definition rotate_links :: "DTAP_LcidNode list \<Rightarrow> DTAP_LcidNode list" where
  "rotate_links ns = filter (\<lambda>n. \<not> hasScheduled n) ns @ map (\<lambda>n. n\<lparr>hasScheduled := False\<rparr>) (filter hasScheduled ns)"

definition DTAP_SchedulePriority :: "'r env \<Rightarrow> nat \<Rightarrow> 'a dp_state \<Rightarrow> (bool \<times> 'a dp_state) option" where
  "DTAP_SchedulePriority e i s = do {
     (ret, s1) \<leftarrow> schedule_links e 0 i (map ln_lcid (lcidList (g_dtapScheduler s ! i))) s;
     Some (ret, q_upd i (\<lambda>q. q\<lparr>lcidList := rotate_links (lcidList q)\<rparr>) s1)
   }"

fun run_queues :: "'r env \<Rightarrow> nat list \<Rightarrow> 'a dp_state \<Rightarrow> 'a dp_state option" where
  "run_queues e [] s = Some s"
| "run_queues e (i # is) s =
     (if g_sendNotAckPktCnt s \<ge> g_apBufferNum s then Some s
      else if q_pktCnt (g_dtapScheduler s ! i) = 0 then run_queues e is s
      else do {
        (ok, s1) \<leftarrow> DTAP_SchedulePriority (sub e i) i s;
        if ok then run_queues e is s1 else Some s1
      })"

definition DTAP_SchedulerRun :: "'r env \<Rightarrow> 'a dp_state \<Rightarrow> 'a dp_state option" where
  "DTAP_SchedulerRun e s = run_queues e [0 ..< DTAP_PRIORITY_MAX] s"

section \<open>Entry points\<close>

definition recalc :: "'a dp_state \<Rightarrow> 'a dp_state" where
  "recalc s = s\<lparr>g_lcidBufferList := DTAP_RecalcLcidQuota (unat (g_apBufferNum s)) (g_lcidBufferList s)\<rparr>"

definition DTAP_DataSendWithPriority :: "'r env \<Rightarrow> nat option \<Rightarrow> SDF_Buff option \<Rightarrow> 'a dp_state \<Rightarrow> (DTAP_errno \<times> 'a dp_state) option" where
  "DTAP_DataSendWithPriority e ch buf s =
     (if \<not> g_isInited s then Some (DTAP_TRANS_INIT_ERR, s)
      else (case (ch, buf) of
        (Some a, Some b) \<Rightarrow> do {
          c \<leftarrow> chan_heap s a;
          if priority c \<ge> DTAP_PRIORITY_MAX then Some (DTAP_TRANS_INVALID_MODULE_TYPE, s)
          else if q_pktCnt (g_dtapScheduler s ! priority c) \<ge> DTAP_PACKET_MAX_SIZE then Some (DTAP_TRANS_EXCEED_MAX_ERR, s)
          else (case DTAP_CreatePacket (sub e 0) b s of
            (None, s1) \<Rightarrow> Some (DTAP_TRANS_MALLOC_ERR, s1)
          | (Some p, s1) \<Rightarrow> do {
              (ret, s2) \<leftarrow> DTAP_PriorityQueuePush (sub e 1) (priority c) a 1 s1;
              if ret \<noteq> DTAP_SUCCESS then Some (ret, s2)
              else do {
                let s3 = chan_upd a (\<lambda>d. d\<lparr>pktList := pktList d @ [p]\<rparr>) s2;
                let s4 = (case DTAP_GetLcidBufferNode (g_lcidBufferList s3) (lcid c) of
                    None \<Rightarrow> s3
                  | Some n \<Rightarrow> if sendNotAckPktCnt n \<ge> quota n \<and> g_sendNotAckPktCnt s3 < g_apBufferNum s3 then recalc s3 else s3);
                s5 \<leftarrow> DTAP_SchedulerRun (sub e 2) s4;
                Some (DTAP_SUCCESS, s5)
              }
            })
        }
      | _ \<Rightarrow> Some (DTAP_TRANS_INVALID_PARAM_ERR, s)))"

text \<open>\<open>COLLAB_ContinueAssignTransBuffer\<close> informs an external plug-in and leaves this state alone.\<close>

definition DTAP_SendCompleteCbk :: "'r env \<Rightarrow> u16 \<Rightarrow> u8 \<Rightarrow> 'a dp_state \<Rightarrow> 'a dp_state option" where
  "DTAP_SendCompleteCbk e connHandle num s =
     (case DTAP_GetLcidBufferNode (g_lcidBufferList s) connHandle of
        None \<Rightarrow> Some s
      | Some n \<Rightarrow>
          DTAP_SchedulerRun e (recalc (link_upd connHandle
            (\<lambda>m. m\<lparr>sendNotAckPktCnt := DTAP_SCHED_SUB (sendNotAckPktCnt m) (unat num)\<rparr>)
            (s\<lparr>g_sendNotAckPktCnt := (if g_sendNotAckPktCnt s > num then g_sendNotAckPktCnt s - num else 0)\<rparr>))))"

definition DTAP_SetApBufferNum :: "u8 \<Rightarrow> 'a dp_state \<Rightarrow> 'a dp_state" where
  "DTAP_SetApBufferNum n s = recalc (s\<lparr>g_apBufferNum := n\<rparr>)"

text \<open>The controller reports a 16-bit number, of which \<open>DTAP_SetApBufferNum\<close> takes the low byte.\<close>

definition DTAP_DLIDataNumChangecbk :: "bool \<Rightarrow> u16 \<Rightarrow> 'a dp_state \<Rightarrow> 'a dp_state" where
  "DTAP_DLIDataNumChangecbk isAcb num s = (if isAcb then DTAP_SetApBufferNum (ucast num) s else s)"

definition DTAP_DLIConnectCbk :: "'r env \<Rightarrow> nat \<Rightarrow> u16 option \<Rightarrow> 'a dp_state \<Rightarrow> 'a dp_state" where
  "DTAP_DLIConnectCbk e status param s =
     (if status \<noteq> 0 then s
      else (case param of
        None \<Rightarrow> s
      | Some h \<Rightarrow> (case DTAP_AddLcidBufferNode e h (g_lcidBufferList s) of
          (ok, ns) \<Rightarrow> if ok then recalc (s\<lparr>g_lcidBufferList := ns\<rparr>) else s\<lparr>g_lcidBufferList := ns\<rparr>)))"

definition DTAP_DLIDisconnectCbk :: "u16 option \<Rightarrow> 'a dp_state \<Rightarrow> 'a dp_state" where
  "DTAP_DLIDisconnectCbk param s =
     (case param of
        None \<Rightarrow> s
      | Some h \<Rightarrow>
          (let s1 = (case DTAP_GetLcidBufferNode (g_lcidBufferList s) h of
                None \<Rightarrow> s
              | Some n \<Rightarrow> s\<lparr>g_sendNotAckPktCnt := of_nat (DTAP_SCHED_SUB (unat (g_sendNotAckPktCnt s)) (sendNotAckPktCnt n))\<rparr>)
           in case DTAP_DeleteLcidBufferNode h (g_lcidBufferList s1) of
                (ok, ns) \<Rightarrow> if ok then recalc (s1\<lparr>g_lcidBufferList := ns\<rparr>) else s1))"

text \<open>Taking a channel out of the queues: its packets are destroyed; fragment channels are freed.\<close>

fun ln_del :: "u16 \<Rightarrow> DTAP_LcidNode list \<Rightarrow> DTAP_LcidNode list" where
  "ln_del l [] = []"
| "ln_del l (n # ns) = (if ln_lcid n = l then ns else n # ln_del l ns)"

definition DTAP_ChannelDownProc :: "nat \<Rightarrow> u16 \<Rightarrow> u8 \<Rightarrow> 'a dp_state \<Rightarrow> 'a dp_state option" where
  "DTAP_ChannelDownProc i l tcid s =
     (case DTAP_GetLcidNode (g_dtapScheduler s ! i) l of
        None \<Rightarrow> Some s
      | Some n \<Rightarrow> do {
          r \<leftarrow> find_chan (chan_heap s) (\<lambda>c. \<not> (lcid c \<noteq> l \<or> srcTcid c \<noteq> tcid)) (channelList n);
          let s1 = (case r of
              None \<Rightarrow> s
            | Some a \<Rightarrow>
                (let cnt = (case chan_heap s a of None \<Rightarrow> 0 | Some c \<Rightarrow> length (pktList c));
                     t1 = s\<lparr>g_lcidBufferList := DTAP_DecLcidQueuedPktCnt l cnt (g_lcidBufferList s)\<rparr>;
                     t2 = node_upd i l (\<lambda>n. n\<lparr>channelList := remove1 a (channelList n),
                            ln_pktCnt := DTAP_SCHED_SUB (ln_pktCnt n) cnt\<rparr>) t1;
                     t3 = q_upd i (\<lambda>q. q\<lparr>q_pktCnt := DTAP_SCHED_SUB (q_pktCnt q) cnt\<rparr>) t2
                 in if q_priority (g_dtapScheduler s ! i) = DTAP_PRIORITY_FRAGMENT
                    then t3\<lparr>chan_heap := (chan_heap t3)(a := None)\<rparr>
                    else chan_upd a (\<lambda>c. c\<lparr>pktList := []\<rparr>) t3));
          n1 \<leftarrow> DTAP_GetLcidNode (g_dtapScheduler s1 ! i) l;
          Some (if channelList n1 = []
                then q_upd i (\<lambda>q. q\<lparr>lcidList := ln_del l (lcidList q)\<rparr>) s1
                else s1)
        })"

definition DTAP_ChannelDown :: "u16 \<Rightarrow> u8 \<Rightarrow> 'a dp_state \<Rightarrow> 'a dp_state option" where
  "DTAP_ChannelDown l tcid s = do {
     s0 \<leftarrow> DTAP_ChannelDownProc DTAP_PRIORITY_FRAGMENT l DTAP_FRAGMENT_TCID s;
     s1 \<leftarrow> DTAP_ChannelDownProc DTAP_PRIORITY_CMD l tcid s0;
     s2 \<leftarrow> DTAP_ChannelDownProc DTAP_PRIORITY_HIGH l tcid s1;
     DTAP_ChannelDownProc DTAP_PRIORITY_NORMAL l tcid s2
   }"

definition empty_queue :: "nat \<Rightarrow> DTAP_PriorityQueue" where
  "empty_queue i = \<lparr>lcidList = [], q_priority = i, q_pktCnt = 0\<rparr>"

definition DTAP_SchedulerInitInner :: "'a dp_state \<Rightarrow> 'a dp_state" where
  "DTAP_SchedulerInitInner s =
     (if g_isInited s then s
      else s\<lparr>g_dtapScheduler := map empty_queue [0 ..< DTAP_PRIORITY_MAX], g_lcidBufferList := [],
              g_sendNotAckPktCnt := 0, g_isInited := True\<rparr>)"

text \<open>Destroying a link node empties its channels and frees the fragment channels among them.\<close>

definition destroy_channels :: "nat list \<Rightarrow> 'a dp_state \<Rightarrow> 'a dp_state" where
  "destroy_channels as s = fold (\<lambda>a s. s\<lparr>chan_heap := (chan_heap s)(a :=
     (case chan_heap s a of
        None \<Rightarrow> None
      | Some c \<Rightarrow> if priority c = DTAP_PRIORITY_FRAGMENT then None else Some (c\<lparr>pktList := []\<rparr>)))\<rparr>) as s"

definition DTAP_SchedulerDeinitInner :: "'a dp_state \<Rightarrow> 'a dp_state" where
  "DTAP_SchedulerDeinitInner s =
     (if \<not> g_isInited s then s
      else (destroy_channels (concat (map (\<lambda>q. concat (map channelList (lcidList q))) (g_dtapScheduler s))) s)
        \<lparr>g_lcidBufferList := [], g_isInited := False,
         g_dtapScheduler := map (\<lambda>q. q\<lparr>lcidList := [], q_pktCnt := 0\<rparr>) (g_dtapScheduler s)\<rparr>)"

end
