(* ===== verification/Dtap_Sched_Inv.thy ===== *)
theory Dtap_Sched_Inv
  imports Dtap_Scheduler
begin

text \<open>
  Well-formedness of the scheduler: the counters agree with the packets, channels are where their
  fields say, no pointer dangles. The lemmas show that every scheduling step keeps it and is free of
  invalid accesses, and that scheduling leaves everything but the packet lists of the channels alone.
\<close>

section \<open>Well-formedness\<close>

text \<open>A pending packet that can be sent: a whole packet has room for the link header in front.\<close>

definition pkt_ok :: "nat \<Rightarrow> DTAP_PendingPacket \<Rightarrow> bool" where
  "pkt_ok i p \<longleftrightarrow> isSplited p = (i = DTAP_PRIORITY_FRAGMENT) \<and> buff_ok (pkt_buff p)
     \<and> (i \<noteq> DTAP_PRIORITY_FRAGMENT \<longrightarrow> DLI_HEADER \<le> SDF_BuffHeadRoom (pkt_buff p))"

definition pkts :: "(nat \<rightharpoonup> 'a DTAP_Channel) \<Rightarrow> nat \<Rightarrow> DTAP_PendingPacket list" where
  "pkts h a = (case h a of None \<Rightarrow> [] | Some c \<Rightarrow> pktList c)"

definition chan_ok :: "(nat \<rightharpoonup> 'a DTAP_Channel) \<Rightarrow> nat \<Rightarrow> u16 \<Rightarrow> nat \<Rightarrow> bool" where
  "chan_ok h i l a \<longleftrightarrow> (\<exists>c. h a = Some c \<and> priority c = i \<and> lcid c = l \<and> (\<forall>p \<in> set (pktList c). pkt_ok i p)
     \<and> (i = DTAP_PRIORITY_FRAGMENT \<longrightarrow> srcTcid c = DTAP_FRAGMENT_TCID))"

definition node_ok :: "(nat \<rightharpoonup> 'a DTAP_Channel) \<Rightarrow> nat \<Rightarrow> DTAP_LcidNode \<Rightarrow> bool" where
  "node_ok h i n \<longleftrightarrow> distinct (channelList n) \<and> (\<forall>a \<in> set (channelList n). chan_ok h i (ln_lcid n) a)
     \<and> ln_pktCnt n = sum_list (map (\<lambda>a. length (pkts h a)) (channelList n))"

definition queue_ok :: "(nat \<rightharpoonup> 'a DTAP_Channel) \<Rightarrow> nat \<Rightarrow> DTAP_PriorityQueue \<Rightarrow> bool" where
  "queue_ok h i q \<longleftrightarrow> q_priority q = i \<and> distinct (map ln_lcid (lcidList q))
     \<and> q_pktCnt q = sum_list (map ln_pktCnt (lcidList q)) \<and> (\<forall>n \<in> set (lcidList q). node_ok h i n)"

text \<open>
  Two channels of one priority never share link and tcid (the fragment channels, which only the
  scheduler knows, are found through the queue), addresses are fresh above \<open>chan_next\<close>, and a
  channel that has packets is in the list of its link, so no packet is forgotten.
\<close>

definition heap_ok :: "'a dp_state \<Rightarrow> bool" where
  "heap_ok s \<longleftrightarrow> (\<forall>a. chan_heap s a \<noteq> None \<longrightarrow> a < chan_next s)
     \<and> (\<forall>a b c d. chan_heap s a = Some c \<longrightarrow> chan_heap s b = Some d \<longrightarrow>
          priority c = priority d \<longrightarrow> priority c \<noteq> DTAP_PRIORITY_FRAGMENT \<longrightarrow> lcid c = lcid d \<longrightarrow> srcTcid c = srcTcid d \<longrightarrow> a = b)
     \<and> (\<forall>a c. chan_heap s a = Some c \<longrightarrow> priority c < DTAP_PRIORITY_MAX \<and> (pktList c \<noteq> [] \<longrightarrow>
          (\<exists>n \<in> set (lcidList (g_dtapScheduler s ! priority c)). ln_lcid n = lcid c \<and> a \<in> set (channelList n))))"

definition sched_ok :: "'a dp_state \<Rightarrow> bool" where
  "sched_ok s \<longleftrightarrow> length (g_dtapScheduler s) = DTAP_PRIORITY_MAX \<and> heap_ok s
     \<and> (\<forall>i < DTAP_PRIORITY_MAX. queue_ok (chan_heap s) i (g_dtapScheduler s ! i))"

subsection \<open>Lists of links\<close>

lemma ln_upd_lcids: "(\<And>n. ln_lcid (f n) = ln_lcid n) \<Longrightarrow> map ln_lcid (ln_upd l f ns) = map ln_lcid ns"
  by (induction ns) auto

lemma ln_upd_set:
  "distinct (map ln_lcid ns) \<Longrightarrow> m \<in> set (ln_upd l f ns) \<Longrightarrow>
   (m \<in> set ns \<and> ln_lcid m \<noteq> l) \<or> (\<exists>n \<in> set ns. ln_lcid n = l \<and> m = f n)"
  by (induction ns) (auto simp: image_iff split: if_splits)

lemma ln_upd_mem: "n \<in> set ns \<Longrightarrow> distinct (map ln_lcid ns) \<Longrightarrow>
  (if ln_lcid n = l then f n else n) \<in> set (ln_upd l f ns)"
  by (induction ns) (auto simp: image_iff)

lemma ln_upd_cong: "\<lbrakk>n \<in> set ns; ln_lcid n = l; distinct (map ln_lcid ns); f n = g n\<rbrakk> \<Longrightarrow> ln_upd l f ns = ln_upd l g ns"
  by (induction ns) auto

lemma ln_upd_cnt:
  assumes "n \<in> set ns" "ln_lcid n = l" "distinct (map ln_lcid ns)"
  shows "sum_list (map ln_pktCnt (ln_upd l f ns)) + ln_pktCnt n = sum_list (map ln_pktCnt ns) + ln_pktCnt (f n)"
  using assms by (induction ns) auto

lemma GetLcidNode_iff: "distinct (map ln_lcid (lcidList q)) \<Longrightarrow>
  DTAP_GetLcidNode q l = Some n \<longleftrightarrow> n \<in> set (lcidList q) \<and> ln_lcid n = l"
proof -
  have "distinct (map ln_lcid ns) \<Longrightarrow> find (\<lambda>n. ln_lcid n = l) ns = Some n \<longleftrightarrow> n \<in> set ns \<and> ln_lcid n = l" for ns
    by (induction ns) (auto simp: image_iff)
  then show "distinct (map ln_lcid (lcidList q)) \<Longrightarrow> DTAP_GetLcidNode q l = Some n \<longleftrightarrow> n \<in> set (lcidList q) \<and> ln_lcid n = l"
    by (simp add: DTAP_GetLcidNode_def)
qed

lemma GetLcidNode_None: "DTAP_GetLcidNode q l = None \<longleftrightarrow> (\<forall>n \<in> set (lcidList q). ln_lcid n \<noteq> l)"
  by (auto simp: DTAP_GetLcidNode_def find_None_iff)

lemma find_chan_safe:
  assumes "\<forall>a \<in> set as. h a \<noteq> None"
  shows "(find_chan h P as = Some None \<and> (\<forall>a \<in> set as. \<forall>c. h a = Some c \<longrightarrow> \<not> P c))
    \<or> (\<exists>a c. find_chan h P as = Some (Some a) \<and> a \<in> set as \<and> h a = Some c \<and> P c)"
  using assms by (induction as) (auto split: option.splits)

subsection \<open>Changing the packets of one channel\<close>

lemma pkt_sum_other:
  "a \<notin> set as \<Longrightarrow> sum_list (map (\<lambda>b. length (pkts (h(a \<mapsto> c)) b)) as) = sum_list (map (\<lambda>b. length (pkts h b)) as)"
  by (induction as) (auto simp: pkts_def)

lemma pkt_sum_one:
  assumes "distinct as" "a \<in> set as" "h a = Some c"
  shows "sum_list (map (\<lambda>b. length (pkts (h(a \<mapsto> c')) b)) as) + length (pktList c)
    = sum_list (map (\<lambda>b. length (pkts h b)) as) + length (pktList c')"
  using assms
proof (induction as)
  case (Cons b as)
  show ?case
  proof (cases "a = b")
    case True
    then have "a \<notin> set as" using Cons.prems(1) by auto
    then show ?thesis using True Cons.prems(3) pkt_sum_other [of a as h c'] by (simp add: pkts_def)
  next
    case False
    then have "pkts (h(a \<mapsto> c')) b = pkts h b" by (simp add: pkts_def)
    then show ?thesis using Cons False by (simp del: fun_upd_apply)
  qed
qed simp

lemma node_ok_other:
  assumes "node_ok h i n" "h a = Some c" "a \<notin> set (channelList n)"
  shows "node_ok (h(a \<mapsto> c')) i n"
  using assms pkt_sum_other [of a "channelList n" h c'] by (auto simp: node_ok_def chan_ok_def)

lemma node_ok_upd:
  assumes "node_ok h i n" "a \<in> set (channelList n)" "h a = Some c"
    and "priority c' = priority c" "lcid c' = lcid c" "srcTcid c' = srcTcid c" "\<forall>p \<in> set (pktList c'). pkt_ok i p"
    and "set (channelList m) = set (channelList n)" "distinct (channelList m)" "ln_lcid m = ln_lcid n"
    and "ln_pktCnt m + length (pktList c) = ln_pktCnt n + length (pktList c')"
  shows "node_ok (h(a \<mapsto> c')) i m"
proof -
  have perm: "sum_list (map f (channelList m)) = sum_list (map f (channelList n))" for f :: "nat \<Rightarrow> nat"
    using assms(1,8,9) by (simp add: node_ok_def sum_list_distinct_conv_sum_set)
  have "sum_list (map (\<lambda>b. length (pkts (h(a \<mapsto> c')) b)) (channelList n)) + length (pktList c)
    = ln_pktCnt n + length (pktList c')"
    using pkt_sum_one [of "channelList n" a h c c'] assms(1-3) by (simp add: node_ok_def)
  then have "ln_pktCnt m = sum_list (map (\<lambda>b. length (pkts (h(a \<mapsto> c')) b)) (channelList m))"
    using assms(11) perm by simp
  moreover have "\<forall>b \<in> set (channelList m). chan_ok (h(a \<mapsto> c')) i (ln_lcid m) b"
    using assms(1-8,10) by (auto simp: node_ok_def chan_ok_def)
  ultimately show ?thesis using assms(9) by (simp add: node_ok_def)
qed

lemma sched_ok_change:
  assumes ok: "sched_ok s" and i: "i < 4" and n: "n \<in> set (lcidList (g_dtapScheduler s ! i))" "ln_lcid n = l"
    and a: "a \<in> set (channelList n)" "chan_heap s a = Some c"
    and c': "priority c' = priority c" "lcid c' = lcid c" "srcTcid c' = srcTcid c" "\<forall>p \<in> set (pktList c'). pkt_ok i p"
    and m: "set (channelList m) = set (channelList n)" "distinct (channelList m)" "ln_lcid m = l"
      "ln_pktCnt m + length (pktList c) = ln_pktCnt n + length (pktList c')"
    and s': "chan_heap s' = (chan_heap s)(a \<mapsto> c')" "chan_next s' = chan_next s"
      "g_dtapScheduler s' = (g_dtapScheduler s)[i := q']"
    and q': "q_priority q' = i" "lcidList q' = ln_upd l (\<lambda>_. m) (lcidList (g_dtapScheduler s ! i))"
      "q_pktCnt q' + length (pktList c) = q_pktCnt (g_dtapScheduler s ! i) + length (pktList c')"
  shows "sched_ok s'"
proof -
  let ?q = "g_dtapScheduler s ! i"
  have qi: "queue_ok (chan_heap s) i ?q" and len: "length (g_dtapScheduler s) = 4" and h: "heap_ok s"
    using ok i by (auto simp: sched_ok_def)
  have nok: "node_ok (chan_heap s) i n" using qi n by (auto simp: queue_ok_def)
  have pc: "priority c = i" "lcid c = l" using nok a n by (auto simp: node_ok_def chan_ok_def)
  have d: "distinct (map ln_lcid (lcidList ?q))" using qi by (simp add: queue_ok_def)
  have other: "a \<notin> set (channelList n')" if "j < 4" "n' \<in> set (lcidList (g_dtapScheduler s ! j))" "j \<noteq> i \<or> ln_lcid n' \<noteq> l" for j n'
  proof -
    have "queue_ok (chan_heap s) j (g_dtapScheduler s ! j)" using ok that(1) by (simp add: sched_ok_def)
    then have "node_ok (chan_heap s) j n'" using that(2) by (auto simp: queue_ok_def)
    then show ?thesis using a(2) pc that(3) by (auto simp: node_ok_def chan_ok_def)
  qed
  have no: "node_ok (chan_heap s') j n'" if "node_ok (chan_heap s) j n'" "a \<notin> set (channelList n')" for j n'
    unfolding s' by (rule node_ok_other [OF that(1) a(2) that(2)])
  have "queue_ok (chan_heap s') j (g_dtapScheduler s' ! j)" if j: "j < 4" for j
  proof (cases "j = i")
    case False
    have "queue_ok (chan_heap s) j (g_dtapScheduler s ! j)" using ok j by (simp add: sched_ok_def)
    then show ?thesis using False other [OF j] no by (auto simp: queue_ok_def s'(3))
  next
    case True
    have lc: "map ln_lcid (lcidList q') = map ln_lcid (lcidList ?q)"
    proof -
      have "map ln_lcid (ln_upd l (\<lambda>_. m) ns) = map ln_lcid ns" for ns using m(3) by (induction ns) auto
      then show ?thesis by (simp add: q')
    qed
    have cnt: "q_pktCnt q' = sum_list (map ln_pktCnt (lcidList q'))"
      using ln_upd_cnt [OF n d, of "\<lambda>_. m"] qi q'(3) m(4) by (simp add: queue_ok_def q'(2))
    have "node_ok (chan_heap s') i k" if k: "k \<in> set (lcidList q')" for k
    proof -
      from ln_upd_set [OF d] k consider "k \<in> set (lcidList ?q)" "ln_lcid k \<noteq> l" | "k = m"
        unfolding q'(2) by blast
      then show ?thesis
      proof cases
        case 1
        then show ?thesis using other [OF i] no qi by (auto simp: queue_ok_def)
      next
        case 2
        then show ?thesis unfolding s' using node_ok_upd [OF nok a c'] m n(2) by simp
      qed
    qed
    then show ?thesis using True i len lc cnt d q'(1) by (simp add: queue_ok_def s'(3))
  qed
  moreover have "heap_ok s'"
  proof -
    have mem: "\<exists>n \<in> set (lcidList (g_dtapScheduler s' ! priority d)). ln_lcid n = lcid d \<and> b \<in> set (channelList n)"
      if "\<exists>n \<in> set (lcidList (g_dtapScheduler s ! priority d)). ln_lcid n = lcid d \<and> b \<in> set (channelList n)" "priority d < 4" for b and d :: "'a DTAP_Channel"
    proof -
      from that(1) obtain k where k: "k \<in> set (lcidList (g_dtapScheduler s ! priority d))" "ln_lcid k = lcid d" "b \<in> set (channelList k)" by blast
      show ?thesis
      proof (cases "priority d = i")
        case False
        then show ?thesis using k by (auto simp: s'(3))
      next
        case True
        have "(if ln_lcid k = l then m else k) \<in> set (lcidList q')"
          unfolding q'(2) using ln_upd_mem [of k "lcidList ?q" l "\<lambda>_. m"] k(1) True d by simp
        moreover have "ln_lcid k = l \<Longrightarrow> k = n" using k(1) True n d by (auto simp: distinct_map inj_on_def)
        ultimately show ?thesis using k True i len m n(2) by (auto simp: s'(3) split: if_splits)
      qed
    qed
    have na: "\<exists>k \<in> set (lcidList (g_dtapScheduler s ! priority c)). ln_lcid k = lcid c \<and> a \<in> set (channelList k)"
      using n a unfolding pc by blast
    show ?thesis
      unfolding heap_ok_def
    proof (intro conjI allI impI)
      fix b assume "chan_heap s' b \<noteq> None"
      then show "b < chan_next s'" using h a(2) by (auto simp: heap_ok_def s' split: if_splits)
    next
      fix b1 b2 c1 c2
      assume *: "chan_heap s' b1 = Some c1" "chan_heap s' b2 = Some c2" "priority c1 = priority c2" "priority c1 \<noteq> 0" "lcid c1 = lcid c2" "srcTcid c1 = srcTcid c2"
      have "\<exists>d. chan_heap s b = Some d \<and> priority d = priority x \<and> lcid d = lcid x \<and> srcTcid d = srcTcid x"
        if "chan_heap s' b = Some x" for b x using that a(2) c' by (auto simp: s' split: if_splits)
      from this [OF *(1)] this [OF *(2)] show "b1 = b2" using h *(3-6) unfolding heap_ok_def by metis
    next
      fix b x assume b: "chan_heap s' b = Some x"
      show "priority x < 4" using b h a(2) c'(1) by (auto simp: heap_ok_def s' split: if_splits)
      assume ne: "pktList x \<noteq> []"
      show "\<exists>n \<in> set (lcidList (g_dtapScheduler s' ! priority x)). ln_lcid n = lcid x \<and> b \<in> set (channelList n)"
      proof (cases "b = a")
        case True
        then have "x = c'" using b by (simp add: s')
        then show ?thesis using mem [OF na] True c' pc i by simp
      next
        case False
        then have "chan_heap s b = Some x" using b by (simp add: s')
        then show ?thesis using mem h ne by (auto simp: heap_ok_def)
      qed
    qed
  qed
  ultimately show ?thesis using len by (simp add: sched_ok_def s')
qed

subsection \<open>Pop\<close>

lemma q_upd_comp: "i < length (g_dtapScheduler s) \<Longrightarrow> q_upd i f (q_upd i g s) = q_upd i (f \<circ> g) s"
  by (simp add: q_upd_def)

lemma upd_fields [simp]:
  "chan_heap (q_upd i f s) = chan_heap s" "chan_next (q_upd i f s) = chan_next s"
  "chan_heap (node_upd i l g s) = chan_heap s" "chan_next (node_upd i l g s) = chan_next s"
  "chan_heap (link_upd l h s) = chan_heap s" "chan_next (link_upd l h s) = chan_next s"
  "g_dtapScheduler (link_upd l h s) = g_dtapScheduler s" "g_dtapScheduler (chan_upd a k s) = g_dtapScheduler s"
  "chan_next (chan_upd a k s) = chan_next s"
  "g_dtapScheduler (q_upd i f s) = (g_dtapScheduler s)[i := f (g_dtapScheduler s ! i)]"
  "g_dtapScheduler (node_upd i l g s) = (g_dtapScheduler s)[i := (g_dtapScheduler s ! i)\<lparr>lcidList := ln_upd l g (lcidList (g_dtapScheduler s ! i))\<rparr>]"
  by (simp_all add: q_upd_def node_upd_def link_upd_def chan_upd_def)

lemma ln_upd_comp: "(\<And>n. ln_lcid (g n) = ln_lcid n) \<Longrightarrow> ln_upd l f (ln_upd l g ns) = ln_upd l (f \<circ> g) ns"
  by (induction ns) auto

lemma sched_ok_nodeD:
  assumes "sched_ok s" "i < 4" "n \<in> set (lcidList (g_dtapScheduler s ! i))"
  shows "node_ok (chan_heap s) i n" "distinct (map ln_lcid (lcidList (g_dtapScheduler s ! i)))"
    "q_priority (g_dtapScheduler s ! i) = i" "ln_pktCnt n \<le> q_pktCnt (g_dtapScheduler s ! i)"
  using assms by (auto simp: sched_ok_def queue_ok_def intro: member_le_sum_list)

lemma node_ok_cnt_le: "node_ok h i n \<Longrightarrow> a \<in> set (channelList n) \<Longrightarrow> length (pkts h a) \<le> ln_pktCnt n"
  by (auto simp: node_ok_def intro: member_le_sum_list)

lemma pop_ok:
  assumes ok: "sched_ok s" and i: "i < 4" and n: "n \<in> set (lcidList (g_dtapScheduler s ! i))" "ln_lcid n = l"
    and a: "a \<in> set (channelList n)" "chan_heap s a = Some c" "pktList c \<noteq> []"
  shows "sched_ok (DTAP_PriorityQueuePop i l a s)"
    and "chan_heap (DTAP_PriorityQueuePop i l a s) = (chan_heap s)(a \<mapsto> c\<lparr>pktList := tl (pktList c)\<rparr>)"
    and "chan_next (DTAP_PriorityQueuePop i l a s) = chan_next s"
proof -
  note nd = sched_ok_nodeD [OF ok i n(1)]
  let ?c' = "c\<lparr>pktList := tl (pktList c)\<rparr>" and ?q = "g_dtapScheduler s ! i"
  have len: "i < length (g_dtapScheduler s)" using ok i by (simp add: sched_ok_def)
  define m where "m = n\<lparr>ln_pktCnt := ln_pktCnt n - 1, channelList := (if tl (pktList c) = [] then channelList n else remove1 a (channelList n) @ [a])\<rparr>"
  have cnt: "length (pktList c) \<le> ln_pktCnt n" "0 < length (pktList c)"
    using node_ok_cnt_le [OF nd(1) a(1)] a by (auto simp: pkts_def)
  have ar: "ln_pktCnt n - 1 + length (pktList c) = ln_pktCnt n + (length (pktList c) - 1)"
    "q_pktCnt ?q - 1 + length (pktList c) = q_pktCnt ?q + (length (pktList c) - 1)"
    using cnt nd(4) by linarith+
  have dn: "distinct (channelList n)" using nd(1) by (simp add: node_ok_def)
  show h: "chan_heap (DTAP_PriorityQueuePop i l a s) = (chan_heap s)(a \<mapsto> ?c')"
    using a(2) by (simp add: DTAP_PriorityQueuePop_def Let_def chan_upd_def)
  show nx: "chan_next (DTAP_PriorityQueuePop i l a s) = chan_next s"
    using a(2) by (simp add: DTAP_PriorityQueuePop_def Let_def chan_upd_def)
  define q' where "q' = ?q\<lparr>lcidList := ln_upd l (\<lambda>_. m) (lcidList ?q), q_pktCnt := q_pktCnt ?q - 1\<rparr>"
  have g: "g_dtapScheduler (DTAP_PriorityQueuePop i l a s) = (g_dtapScheduler s)[i := q']"
  proof (cases "tl (pktList c) = []")
    case True
    have "ln_upd l (\<lambda>n. n\<lparr>ln_pktCnt := ln_pktCnt n - 1\<rparr>) (lcidList ?q) = ln_upd l (\<lambda>_. m) (lcidList ?q)"
      by (rule ln_upd_cong [OF n nd(2)]) (simp add: m_def True)
    then show ?thesis using True a(2) len by (simp add: DTAP_PriorityQueuePop_def Let_def chan_upd_def q'_def)
  next
    case False
    have "ln_upd l (\<lambda>n. n\<lparr>channelList := remove1 a (channelList n) @ [a]\<rparr>) (ln_upd l (\<lambda>n. n\<lparr>ln_pktCnt := ln_pktCnt n - 1\<rparr>) (lcidList ?q))
      = ln_upd l (\<lambda>_. m) (lcidList ?q)"
      by (rule trans [OF ln_upd_comp ln_upd_cong [OF n nd(2)]]) (simp_all add: m_def False)
    then have "g_dtapScheduler (DTAP_PriorityQueuePop i l a s) = (g_dtapScheduler s)[i := ?q\<lparr>q_pktCnt := q_pktCnt ?q - 1, lcidList := ln_upd l (\<lambda>_. m) (lcidList ?q)\<rparr>]"
      using False a(2) len by (simp add: DTAP_PriorityQueuePop_def Let_def chan_upd_def)
    moreover have "?q\<lparr>q_pktCnt := x, lcidList := y\<rparr> = ?q\<lparr>lcidList := y, q_pktCnt := x\<rparr>" for x y by (cases ?q) simp
    ultimately show ?thesis unfolding q'_def by (simp only:)
  qed
  have "\<forall>p \<in> set (pktList ?c'). pkt_ok i p"
    using nd(1) a list.set_sel(2) [of "pktList c"] unfolding node_ok_def chan_ok_def by fastforce
  then show "sched_ok (DTAP_PriorityQueuePop i l a s)"
    using nd(3) a n(2) ar dn
    by (intro sched_ok_change [OF ok i n a(1,2), of ?c' m _ q'] h nx g)
      (auto simp: m_def q'_def)
qed

subsection \<open>Push\<close>

lemma heap_ok_mono:
  assumes "heap_ok s" "chan_heap s' = chan_heap s" "chan_next s' = chan_next s"
    and "\<And>j k. j < 4 \<Longrightarrow> k \<in> set (lcidList (g_dtapScheduler s ! j)) \<Longrightarrow>
      \<exists>k' \<in> set (lcidList (g_dtapScheduler s' ! j)). ln_lcid k' = ln_lcid k \<and> set (channelList k) \<subseteq> set (channelList k')"
  shows "heap_ok s'"
proof -
  have "\<exists>n \<in> set (lcidList (g_dtapScheduler s' ! priority c)). ln_lcid n = lcid c \<and> a \<in> set (channelList n)"
    if c: "chan_heap s a = Some c" "pktList c \<noteq> []" for a c
  proof -
    have "priority c < 4 \<and> (\<exists>k \<in> set (lcidList (g_dtapScheduler s ! priority c)). ln_lcid k = lcid c \<and> a \<in> set (channelList k))"
      using assms(1) c unfolding heap_ok_def by blast
    then obtain k where "priority c < 4" "k \<in> set (lcidList (g_dtapScheduler s ! priority c))" "ln_lcid k = lcid c" "a \<in> set (channelList k)"
      by blast
    then show ?thesis using assms(4) [of "priority c" k] by fastforce
  qed
  then show ?thesis using assms(1) unfolding heap_ok_def assms(2,3) by simp
qed

text \<open>A new link without channels, and a channel without packets put into its link.\<close>

lemma sched_ok_new_link:
  assumes "sched_ok s" "i < 4" "DTAP_GetLcidNode (g_dtapScheduler s ! i) l = None" "ln_lcid m = l" "channelList m = []" "ln_pktCnt m = 0"
  shows "sched_ok (q_upd i (\<lambda>q. q\<lparr>lcidList := lcidList q @ [m]\<rparr>) s)"
proof -
  have nq: "node_ok h i m" for h :: "nat \<rightharpoonup> 'a DTAP_Channel" using assms(5,6) by (simp add: node_ok_def)
  have "queue_ok (chan_heap s) j (g_dtapScheduler (q_upd i (\<lambda>q. q\<lparr>lcidList := lcidList q @ [m]\<rparr>) s) ! j)" if "j < 4" for j
    using assms that nq by (cases "j = i") (auto simp: sched_ok_def queue_ok_def GetLcidNode_None)
  moreover have "heap_ok (q_upd i (\<lambda>q. q\<lparr>lcidList := lcidList q @ [m]\<rparr>) s)"
  proof -
    have sub: "set (lcidList (g_dtapScheduler s ! j)) \<subseteq> set (lcidList (g_dtapScheduler (q_upd i (\<lambda>q. q\<lparr>lcidList := lcidList q @ [m]\<rparr>) s) ! j))" if "j < 4" for j
      using assms(1) that by (cases "j = i") (auto simp: sched_ok_def)
    have h: "heap_ok s" using assms(1) by (simp add: sched_ok_def)
    show ?thesis
    proof (rule heap_ok_mono [OF h upd_fields(1,2)])
      fix j k assume "j < 4" "k \<in> set (lcidList (g_dtapScheduler s ! j))"
      then show "\<exists>k' \<in> set (lcidList (g_dtapScheduler (q_upd i (\<lambda>q. q\<lparr>lcidList := lcidList q @ [m]\<rparr>) s) ! j)).
          ln_lcid k' = ln_lcid k \<and> set (channelList k) \<subseteq> set (channelList k')"
        using sub by blast
    qed
  qed
  ultimately show ?thesis using assms(1) by (simp add: sched_ok_def)
qed

lemma sched_ok_add_channel:
  assumes ok: "sched_ok s" and i: "i < 4" and n: "n \<in> set (lcidList (g_dtapScheduler s ! i))" "ln_lcid n = lcid c"
    and c: "chan_heap s a = Some c" "priority c = i" "pktList c = []" "a \<notin> set (channelList n)"
      "i = 0 \<longrightarrow> srcTcid c = DTAP_FRAGMENT_TCID"
  shows "sched_ok (node_upd i (lcid c) (\<lambda>m. m\<lparr>channelList := channelList m @ [a]\<rparr>) s)"
proof -
  let ?f = "\<lambda>m. m\<lparr>channelList := channelList m @ [a]\<rparr>" and ?q = "g_dtapScheduler s ! i"
  let ?s = "node_upd i (lcid c) ?f s"
  note nd = sched_ok_nodeD [OF ok i n(1)]
  have len: "length (g_dtapScheduler s) = 4" using ok by (simp add: sched_ok_def)
  have nf: "node_ok (chan_heap s) i (?f n)"
    using nd(1) c n(2) by (auto simp: node_ok_def chan_ok_def pkts_def)
  have "queue_ok (chan_heap s) j (g_dtapScheduler ?s ! j)" if j: "j < 4" for j
  proof (cases "j = i")
    case False
    then show ?thesis using ok j by (simp add: sched_ok_def)
  next
    case True
    have "map ln_lcid (ln_upd (lcid c) ?f (lcidList ?q)) = map ln_lcid (lcidList ?q)" by (rule ln_upd_lcids) simp
    moreover have "sum_list (map ln_pktCnt (ln_upd (lcid c) ?f (lcidList ?q))) = sum_list (map ln_pktCnt (lcidList ?q))"
      using ln_upd_cnt [OF n nd(2), of ?f] by simp
    moreover have "node_ok (chan_heap s) i k" if "k \<in> set (ln_upd (lcid c) ?f (lcidList ?q))" for k
    proof -
      from ln_upd_set [OF nd(2) that] show ?thesis
      proof
        assume "\<exists>n' \<in> set (lcidList ?q). ln_lcid n' = lcid c \<and> k = ?f n'"
        then have "k = ?f n" using nd(2) n by (auto simp: distinct_map inj_on_def)
        then show ?thesis using nf by simp
      qed (use ok i in \<open>auto simp: sched_ok_def queue_ok_def\<close>)
    qed
    ultimately show ?thesis using True ok i len by (simp add: sched_ok_def queue_ok_def)
  qed
  moreover have "heap_ok ?s"
  proof -
    have "\<exists>k' \<in> set (lcidList (g_dtapScheduler ?s ! j)). ln_lcid k' = ln_lcid k \<and> set (channelList k) \<subseteq> set (channelList k')"
      if "j < 4" "k \<in> set (lcidList (g_dtapScheduler s ! j))" for j k
    proof (cases "j = i")
      case False
      then show ?thesis using that by auto
    next
      case True
      have "(if ln_lcid k = lcid c then ?f k else k) \<in> set (ln_upd (lcid c) ?f (lcidList ?q))"
        using ln_upd_mem [of k "lcidList ?q" "lcid c" ?f] that True nd(2) by simp
      then show ?thesis using True len i by (intro bexI [of _ "if ln_lcid k = lcid c then ?f k else k"]) auto
    qed
    then show ?thesis using heap_ok_mono [of s ?s, OF _ upd_fields(3,4)] ok by (simp only: sched_ok_def)
  qed
  ultimately show ?thesis using len by (simp add: sched_ok_def)
qed

lemma sched_ok_cong:
  "chan_heap s' = chan_heap s \<Longrightarrow> chan_next s' = chan_next s \<Longrightarrow> g_dtapScheduler s' = g_dtapScheduler s \<Longrightarrow> sched_ok s' = sched_ok s"
  by (simp add: sched_ok_def heap_ok_def)

text \<open>A search for the link and tcid of \<open>c\<close> among the channels of a link finds only the address \<open>a\<close>.\<close>

definition only_chan :: "'a dp_state \<Rightarrow> DTAP_LcidNode \<Rightarrow> 'a DTAP_Channel \<Rightarrow> nat \<Rightarrow> bool" where
  "only_chan s n c a \<longleftrightarrow> (\<forall>b. find_chan (chan_heap s) (\<lambda>d. lcid d = lcid c \<and> srcTcid d = srcTcid c) (channelList n) = Some (Some b)
     \<longrightarrow> b = a)"

lemma find_chan_SomeD: "find_chan h P as = Some (Some b) \<Longrightarrow> b \<in> set as \<and> (\<exists>d. h b = Some d \<and> P d)"
  by (induction as) (auto split: option.splits if_splits)

lemma only_chan_data:
  assumes "sched_ok s" "i < 4" "i \<noteq> 0" "n \<in> set (lcidList (g_dtapScheduler s ! i))" "chan_heap s a = Some c" "priority c = i"
  shows "only_chan s n c a"
  unfolding only_chan_def
proof (intro allI impI)
  fix b assume "find_chan (chan_heap s) (\<lambda>d. lcid d = lcid c \<and> srcTcid d = srcTcid c) (channelList n) = Some (Some b)"
  then obtain d where b: "b \<in> set (channelList n)" "chan_heap s b = Some d" "lcid d = lcid c" "srcTcid d = srcTcid c"
    using find_chan_SomeD by blast
  have "priority d = i" using sched_ok_nodeD(1) [OF assms(1,2,4)] b by (auto simp: node_ok_def chan_ok_def)
  moreover have "\<forall>x y u v. chan_heap s x = Some u \<longrightarrow> chan_heap s y = Some v \<longrightarrow> priority u = priority v \<longrightarrow> priority u \<noteq> 0 \<longrightarrow> lcid u = lcid v
      \<longrightarrow> srcTcid u = srcTcid v \<longrightarrow> x = y" using assms(1) unfolding sched_ok_def heap_ok_def by (elim conjE)
  ultimately show "b = a" using b assms(3,5,6) by simp
qed

lemma insert_ok:
  assumes ok: "sched_ok s" and i: "i < 4" and n: "n \<in> set (lcidList (g_dtapScheduler s ! i))" "ln_lcid n = lcid c"
    and c: "chan_heap s a = Some c" "priority c = i" "i = 0 \<longrightarrow> srcTcid c = DTAP_FRAGMENT_TCID"
    and u: "only_chan s n c a"
  shows "\<exists>s' m. DTAP_InsertChannelToLcidNode i (lcid c) a s = Some s' \<and> sched_ok s' \<and> chan_heap s' = chan_heap s
    \<and> chan_next s' = chan_next s \<and> m \<in> set (lcidList (g_dtapScheduler s' ! i)) \<and> ln_lcid m = lcid c \<and> a \<in> set (channelList m)"
proof -
  note nd = sched_ok_nodeD [OF ok i n(1)]
  have get: "DTAP_GetLcidNode (g_dtapScheduler s ! i) (lcid c) = Some n" using GetLcidNode_iff [OF nd(2)] n by simp
  have hp: "heap_ok s" and len: "length (g_dtapScheduler s) = 4" using ok by (simp_all add: sched_ok_def)
  let ?P = "\<lambda>d. lcid d = lcid c \<and> srcTcid d = srcTcid c"
  have "\<forall>b \<in> set (channelList n). chan_heap s b \<noteq> None" using nd(1) by (auto simp: node_ok_def chan_ok_def)
  from find_chan_safe [OF this, of ?P] show ?thesis
  proof
    assume "find_chan (chan_heap s) ?P (channelList n) = Some None \<and> (\<forall>b \<in> set (channelList n). \<forall>d. chan_heap s b = Some d \<longrightarrow> \<not> ?P d)"
    then have fc: "find_chan (chan_heap s) ?P (channelList n) = Some None" and na: "a \<notin> set (channelList n)" using c(1) by auto
    have "pktList c = []"
    proof (rule ccontr)
      assume "pktList c \<noteq> []"
      then obtain k where "k \<in> set (lcidList (g_dtapScheduler s ! i))" "ln_lcid k = lcid c" "a \<in> set (channelList k)"
        using hp c unfolding heap_ok_def by blast
      then show False using na nd(2) n by (auto simp: distinct_map inj_on_def)
    qed
    from sched_ok_add_channel [OF ok i n c(1,2) this na c(3)]
    show ?thesis
      using fc get c(1) n ln_upd_mem [OF n(1) nd(2), of "lcid c" "\<lambda>m. m\<lparr>channelList := channelList m @ [a]\<rparr>"] i len
      by (intro exI [of _ "node_upd i (lcid c) (\<lambda>m. m\<lparr>channelList := channelList m @ [a]\<rparr>) s"]
          exI [of _ "n\<lparr>channelList := channelList n @ [a]\<rparr>"]) (simp add: DTAP_InsertChannelToLcidNode_def)
  next
    assume "\<exists>b d. find_chan (chan_heap s) ?P (channelList n) = Some (Some b) \<and> b \<in> set (channelList n) \<and> chan_heap s b = Some d \<and> ?P d"
    then obtain b d where b: "find_chan (chan_heap s) ?P (channelList n) = Some (Some b)" "b \<in> set (channelList n)" "chan_heap s b = Some d" "?P d" by blast
    then have "b = a" using u by (auto simp: only_chan_def)
    then show ?thesis using b get c(1) ok n
      by (intro exI [of _ s] exI [of _ n]) (simp add: DTAP_InsertChannelToLcidNode_def)
  qed
qed

lemma push_ok:
  assumes ok: "sched_ok s" and i: "i < 4"
    and c: "chan_heap s a = Some c" "priority c = i" "i = 0 \<longrightarrow> srcTcid c = DTAP_FRAGMENT_TCID"
    and ps: "length ps = cnt" "\<forall>p \<in> set ps. pkt_ok i p"
    and u: "\<And>n. n \<in> set (lcidList (g_dtapScheduler s ! i)) \<Longrightarrow> ln_lcid n = lcid c \<Longrightarrow> only_chan s n c a"
  shows "DTAP_PriorityQueuePush e i a cnt s = Some (DTAP_TRANS_MALLOC_ERR, s)
      \<and> DTAP_GetLcidNode (g_dtapScheduler s ! i) (lcid c) = None
    \<or> (\<exists>s'. DTAP_PriorityQueuePush e i a cnt s = Some (DTAP_SUCCESS, s') \<and> chan_heap s' = chan_heap s \<and> chan_next s' = chan_next s
        \<and> sched_ok (chan_upd a (\<lambda>d. d\<lparr>pktList := pktList d @ ps\<rparr>) s'))"
proof -
  let ?q = "g_dtapScheduler s ! i"
  have dq: "distinct (map ln_lcid (lcidList ?q))" using ok i by (simp add: sched_ok_def queue_ok_def)
  have len: "length (g_dtapScheduler s) = 4" using ok by (simp add: sched_ok_def)
  define created where "created = (case DTAP_GetLcidNode ?q (lcid c) of
         Some n \<Rightarrow> Some s
       | None \<Rightarrow> (case DTAP_CreateLcidNode e (lcid c) (q_priority ?q) of
           None \<Rightarrow> None
         | Some n \<Rightarrow> Some (q_upd i (\<lambda>q. q\<lparr>lcidList := lcidList q @ [n]\<rparr>) s)))"
  show ?thesis
  proof (cases created)
    case None
    then have "DTAP_GetLcidNode ?q (lcid c) = None" "DTAP_CreateLcidNode e (lcid c) (q_priority ?q) = None"
      by (auto simp: created_def split: option.splits)
    then show ?thesis using c(1) by (simp add: DTAP_PriorityQueuePush_def)
  next
    case (Some s1)
    have s1: "sched_ok s1 \<and> chan_heap s1 = chan_heap s \<and> chan_next s1 = chan_next s
      \<and> (\<exists>n. n \<in> set (lcidList (g_dtapScheduler s1 ! i)) \<and> ln_lcid n = lcid c \<and> only_chan s1 n c a)"
    proof (cases "DTAP_GetLcidNode ?q (lcid c)")
      case None
      then obtain m where m: "s1 = q_upd i (\<lambda>q. q\<lparr>lcidList := lcidList q @ [m]\<rparr>) s" "ln_lcid m = lcid c" "channelList m = []" "ln_pktCnt m = 0"
        using Some by (auto simp: created_def DTAP_CreateLcidNode_def split: option.splits)
      then show ?thesis using sched_ok_new_link [OF ok i None m(2-4)] i len by (auto simp: only_chan_def)
    next
      case (Some n)
      have "s1 = s" using \<open>created = Some s1\<close> Some by (simp add: created_def)
      then show ?thesis using ok GetLcidNode_iff [OF dq, of "lcid c" n] Some u by auto
    qed
    then obtain n where n: "n \<in> set (lcidList (g_dtapScheduler s1 ! i))" "ln_lcid n = lcid c" "only_chan s1 n c a" by blast
    obtain s2 m where s2: "DTAP_InsertChannelToLcidNode i (lcid c) a s1 = Some s2" "sched_ok s2" "chan_heap s2 = chan_heap s"
      "chan_next s2 = chan_next s" "m \<in> set (lcidList (g_dtapScheduler s2 ! i))" "ln_lcid m = lcid c" "a \<in> set (channelList m)"
      using insert_ok [of s1 i n c a] s1 n c i by auto
    note nd = sched_ok_nodeD [OF s2(2) i s2(5)]
    have len2: "length (g_dtapScheduler s2) = 4" using s2(2) by (simp add: sched_ok_def)
    define s' where "s' = link_upd (lcid c) (\<lambda>b. b\<lparr>queuedPktCnt := queuedPktCnt b + cnt\<rparr>)
      (q_upd i (\<lambda>q. q\<lparr>q_pktCnt := q_pktCnt q + cnt\<rparr>) (node_upd i (lcid c) (\<lambda>m. m\<lparr>ln_pktCnt := ln_pktCnt m + cnt\<rparr>) s2))"
    have push: "DTAP_PriorityQueuePush e i a cnt s = Some (DTAP_SUCCESS, s')"
      using Some s2(1) c(1) by (simp add: DTAP_PriorityQueuePush_def Let_def s'_def flip: created_def)
    let ?c' = "c\<lparr>pktList := pktList c @ ps\<rparr>" and ?m = "m\<lparr>ln_pktCnt := ln_pktCnt m + cnt\<rparr>"
    let ?q2 = "g_dtapScheduler s2 ! i"
    let ?q' = "?q2\<lparr>lcidList := ln_upd (lcid c) (\<lambda>_. ?m) (lcidList ?q2), q_pktCnt := q_pktCnt ?q2 + cnt\<rparr>"
    have ca: "chan_heap s2 a = Some c" using c(1) s2(3) by simp
    have "ln_upd (lcid c) (\<lambda>m. m\<lparr>ln_pktCnt := ln_pktCnt m + cnt\<rparr>) (lcidList ?q2) = ln_upd (lcid c) (\<lambda>_. ?m) (lcidList ?q2)"
      by (rule ln_upd_cong [OF s2(5,6) nd(2)]) simp
    then have g: "g_dtapScheduler (chan_upd a (\<lambda>d. d\<lparr>pktList := pktList d @ ps\<rparr>) s') = (g_dtapScheduler s2)[i := ?q']"
      using i len2 by (simp add: s'_def)
    have h: "chan_heap (chan_upd a (\<lambda>d. d\<lparr>pktList := pktList d @ ps\<rparr>) s') = (chan_heap s2)(a \<mapsto> ?c')"
      using ca by (simp add: s'_def chan_upd_def)
    have nx: "chan_next (chan_upd a (\<lambda>d. d\<lparr>pktList := pktList d @ ps\<rparr>) s') = chan_next s2" by (simp add: s'_def)
    have pk: "\<forall>p \<in> set (pktList ?c'). pkt_ok i p"
      using ps(2) nd(1) s2(7) ca unfolding node_ok_def chan_ok_def by fastforce
    have "sched_ok (chan_upd a (\<lambda>d. d\<lparr>pktList := pktList d @ ps\<rparr>) s')"
      using nd(1,3) s2(6) ps(1) pk
      by (intro sched_ok_change [OF s2(2) i s2(5,6,7) ca, of ?c' ?m _ ?q'] h nx g) (auto simp: node_ok_def)
    then show ?thesis using push s2 by (simp add: s'_def)
  qed
qed

section \<open>Scheduling keeps the well-formedness\<close>

text \<open>The channels of the upper layers without their packet lists: what scheduling never changes.\<close>

definition data_chans :: "'a dp_state \<Rightarrow> nat \<Rightarrow> 'a DTAP_Channel option" where
  "data_chans s a =
     (case chan_heap s a of
        None \<Rightarrow> None
      | Some c \<Rightarrow> if priority c = DTAP_PRIORITY_FRAGMENT then None else Some (c\<lparr>pktList := []\<rparr>))"

lemma data_chans_cong: "chan_heap s' = chan_heap s \<Longrightarrow> data_chans s' = data_chans s"
  by (auto simp: data_chans_def)

lemma data_chans_upd: "data_chans (chan_upd a (\<lambda>c. c\<lparr>pktList := f c\<rparr>) s) = data_chans s"
  by (rule ext) (auto simp: data_chans_def chan_upd_def split: option.splits)

lemma data_chans_put:
  "chan_heap s a = Some c \<Longrightarrow> chan_heap s' = (chan_heap s)(a \<mapsto> c\<lparr>pktList := ps\<rparr>) \<Longrightarrow> data_chans s' = data_chans s"
  by (rule ext) (auto simp: data_chans_def split: option.splits)

lemma split_packets_cases:
  "split_packets e k bs s = (r, s') \<Longrightarrow> chan_heap s' = chan_heap s \<and> chan_next s' = chan_next s
     \<and> g_dtapScheduler s' = g_dtapScheduler s
     \<and> (\<forall>ps. r = Some ps \<longrightarrow> map pkt_buff ps = bs \<and> (\<forall>p \<in> set ps. isSplited p))"
proof (induction bs arbitrary: k s r s')
  case (Cons b bs)
  obtain r1 s1 where c: "DTAP_CreatePacket (sub e k) b s = (r1, s1)" by fastforce
  have s1: "chan_heap s1 = chan_heap s" "chan_next s1 = chan_next s" "g_dtapScheduler s1 = g_dtapScheduler s"
    "\<forall>p. r1 = Some p \<longrightarrow> pkt_buff p = b"
    using c by (auto simp: DTAP_CreatePacket_def split: option.splits)
  obtain r2 s2 where d: "split_packets e (Suc k) bs s1 = (r2, s2)" by fastforce
  show ?case using Cons.prems c d s1 Cons.IH [OF d] by (auto split: option.splits)
qed simp

lemma pkt_ok_split:
  "map pkt_buff ps = bs \<Longrightarrow> \<forall>b \<in> set bs. buff_ok b \<Longrightarrow> \<forall>p \<in> set ps. isSplited p \<Longrightarrow> \<forall>p \<in> set ps. pkt_ok 0 p"
  by (auto simp: pkt_ok_def)

definition frag_chan :: "u16 \<Rightarrow> 'a DTAP_Channel" where
  "frag_chan l = \<lparr>pktList = [], priority = DTAP_PRIORITY_FRAGMENT, ch_type = 0, lcid = l, srcTcid = DTAP_FRAGMENT_TCID,
     dstTcid = DTAP_FRAGMENT_TCID, mode = 0, mtu = 0, mps = 0, castMode = 0, attr = None\<rparr>"

lemma sched_ok_new_frag:
  assumes "sched_ok s"
  shows "sched_ok (s\<lparr>chan_heap := (chan_heap s)(chan_next s \<mapsto> frag_chan l), chan_next := chan_next s + 1\<rparr>)"
    and "data_chans (s\<lparr>chan_heap := (chan_heap s)(chan_next s \<mapsto> frag_chan l), chan_next := chan_next s + 1\<rparr>) = data_chans s"
    and "sched_ok (s\<lparr>chan_next := chan_next s + 1, chan_heap := (chan_heap s)(chan_next s := None)\<rparr>)"
proof -
  have fresh: "chan_heap s (chan_next s) = None" and lt: "\<And>a. chan_heap s a \<noteq> None \<Longrightarrow> a < chan_next s"
    using assms unfolding sched_ok_def heap_ok_def by blast+
  let ?s = "s\<lparr>chan_heap := (chan_heap s)(chan_next s \<mapsto> frag_chan l), chan_next := chan_next s + 1\<rparr>"
  have nin: "chan_next s \<notin> set (channelList n)" if "node_ok (chan_heap s) j n" for j n
    using that fresh by (auto simp: node_ok_def chan_ok_def)
  have "node_ok (chan_heap ?s) j n" if "node_ok (chan_heap s) j n" for j n
    using that nin [OF that] pkt_sum_other [of "chan_next s" "channelList n" "chan_heap s" "frag_chan l"]
    by (auto simp: node_ok_def chan_ok_def simp del: fun_upd_apply) (auto)
  then have "queue_ok (chan_heap ?s) j (g_dtapScheduler s ! j)" if "queue_ok (chan_heap s) j (g_dtapScheduler s ! j)" for j
    using that by (auto simp: queue_ok_def)
  moreover have "heap_ok ?s"
    unfolding heap_ok_def
  proof (intro conjI allI impI)
    fix a assume "chan_heap ?s a \<noteq> None"
    then show "a < chan_next ?s" using lt [of a] by (auto split: if_splits)
  next
    fix a b c d
    assume *: "chan_heap ?s a = Some c" "chan_heap ?s b = Some d" "priority c = priority d" "priority c \<noteq> 0" "lcid c = lcid d" "srcTcid c = srcTcid d"
    have "chan_heap s a = Some c" "chan_heap s b = Some d" using * by (auto simp: frag_chan_def split: if_splits)
    then show "a = b" using assms *(3-6) unfolding sched_ok_def heap_ok_def by blast
  next
    fix a c assume a: "chan_heap ?s a = Some c"
    show "priority c < 4" using a assms by (auto simp: frag_chan_def sched_ok_def heap_ok_def split: if_splits)
    assume "pktList c \<noteq> []"
    then have "chan_heap s a = Some c" using a by (auto simp: frag_chan_def split: if_splits)
    then show "\<exists>n \<in> set (lcidList (g_dtapScheduler ?s ! priority c)). ln_lcid n = lcid c \<and> a \<in> set (channelList n)"
      using assms \<open>pktList c \<noteq> []\<close> unfolding sched_ok_def heap_ok_def by simp
  qed
  ultimately show "sched_ok ?s" using assms by (simp add: sched_ok_def)
  show "data_chans ?s = data_chans s"
    by (rule ext) (use fresh in \<open>auto simp: data_chans_def frag_chan_def\<close>)
  have "(chan_heap s)(chan_next s := None) = chan_heap s" using fresh by auto
  then show "sched_ok (s\<lparr>chan_next := chan_next s + 1, chan_heap := (chan_heap s)(chan_next s := None)\<rparr>)"
    using assms lt by (auto simp: sched_ok_def heap_ok_def less_SucI simp del: fun_upd_apply)
qed

lemma push_chan_upd:
  fixes s :: "'a dp_state"
  assumes "chan_heap s a = Some c" "\<And>d. lcid (f d) = lcid d" "\<And>d. srcTcid (f d) = srcTcid d"
  shows "DTAP_PriorityQueuePush e i a cnt (chan_upd a f s) = map_option (\<lambda>(r, t). (r, chan_upd a f t)) (DTAP_PriorityQueuePush e i a cnt s)"
proof -
  have fc: "find_chan (chan_heap (chan_upd a f t)) (\<lambda>d. lcid d = x \<and> srcTcid d = y) as
     = find_chan (chan_heap t) (\<lambda>d. lcid d = x \<and> srcTcid d = y) as" for t x y as
    by (induction as) (auto simp: chan_upd_def assms(2,3) split: option.splits)
  have q: "q_upd i g (chan_upd a f t) = chan_upd a f (q_upd i g t)" "node_upd i l h (chan_upd a f t) = chan_upd a f (node_upd i l h t)"
    "link_upd l k (chan_upd a f t) = chan_upd a f (link_upd l k t)" for g h k l t
    by (simp_all add: q_upd_def node_upd_def link_upd_def chan_upd_def)
  have ins: "DTAP_InsertChannelToLcidNode i l a (chan_upd a f t) = map_option (chan_upd a f) (DTAP_InsertChannelToLcidNode i l a t)"
    if "chan_heap t a = Some c" for t l
  proof -
    have "chan_heap (chan_upd a f t) a = Some (f c)" using that by (simp add: chan_upd_def)
    then show ?thesis using that
      by (auto simp: DTAP_InsertChannelToLcidNode_def fc assms(2,3) q split: bind_splits option.splits)
  qed
  have c1: "chan_heap (chan_upd a f s) a = Some (f c)" using assms(1) by (simp add: chan_upd_def)
  define rest :: "'a dp_state \<Rightarrow> (DTAP_errno \<times> 'a dp_state) option" where "rest = (\<lambda>t. DTAP_InsertChannelToLcidNode i (lcid c) a t \<bind> (\<lambda>s2. Some (DTAP_SUCCESS,
      link_upd (lcid c) (\<lambda>b. b\<lparr>queuedPktCnt := queuedPktCnt b + cnt\<rparr>) (q_upd i (\<lambda>q. q\<lparr>q_pktCnt := q_pktCnt q + cnt\<rparr>)
        (node_upd i (lcid c) (\<lambda>m. m\<lparr>ln_pktCnt := ln_pktCnt m + cnt\<rparr>) s2)))))"
  have rest: "rest (chan_upd a f t) = map_option (\<lambda>(r, t). (r, chan_upd a f t)) (rest t)" if "chan_heap t a = Some c" for t
    unfolding rest_def ins [OF that] by (cases "DTAP_InsertChannelToLcidNode i (lcid c) a t") (simp_all add: q)
  let ?q = "g_dtapScheduler s ! i"
  show ?thesis
  proof (cases "DTAP_GetLcidNode ?q (lcid c)")
    case (Some n)
    then show ?thesis using rest [OF assms(1)] assms(1) c1 by (simp add: DTAP_PriorityQueuePush_def Let_def assms(2) rest_def)
  next
    case None
    show ?thesis
    proof (cases "DTAP_CreateLcidNode e (lcid c) (q_priority ?q)")
      case n2: None
      then show ?thesis using None assms(1) c1 by (simp add: DTAP_PriorityQueuePush_def Let_def assms(2))
    next
      case (Some n)
      have "chan_heap (q_upd i (\<lambda>q. q\<lparr>lcidList := lcidList q @ [n]\<rparr>) s) a = Some c" using assms(1) by simp
      then show ?thesis using None Some assms(1) c1 rest
        by (simp add: DTAP_PriorityQueuePush_def Let_def assms(2) rest_def q(1))
    qed
  qed
qed

lemma save_ok:
  assumes ok: "sched_ok s" and bs: "\<forall>b \<in> set bs. buff_ok b"
  shows "\<exists>r s'. DTAP_SaveFragmentData e l bs s = Some (r, s') \<and> sched_ok s' \<and> data_chans s' = data_chans s"
proof -
  obtain r1 s1 where sp: "split_packets (sub e 0) 0 bs s = (r1, s1)" by fastforce
  note sp' = split_packets_cases [OF sp]
  have ok1: "sched_ok s1" and d1: "data_chans s1 = data_chans s" using ok sp' sched_ok_cong data_chans_cong by blast+
  show ?thesis
  proof (cases r1)
    case None
    then show ?thesis using sp ok1 d1 by (auto simp: DTAP_SaveFragmentData_def)
  next
    case (Some ps)
    have ps: "length ps = length bs" "\<forall>p \<in> set ps. pkt_ok 0 p"
      using sp' Some bs pkt_ok_split [of ps bs] by (auto simp flip: length_map)
    let ?P = "\<lambda>c. \<not> (lcid c \<noteq> l \<or> srcTcid c \<noteq> DTAP_FRAGMENT_TCID)"
    let ?q = "g_dtapScheduler s1 ! 0"
    have q0: "distinct (map ln_lcid (lcidList ?q))" using ok1 by (simp add: sched_ok_def queue_ok_def)
    define res where "res = (case DTAP_GetLcidNode ?q l of None \<Rightarrow> Some None | Some n \<Rightarrow> find_chan (chan_heap s1) ?P (channelList n))"
    have res: "\<exists>r. res = Some r"
    proof (cases "DTAP_GetLcidNode ?q l")
      case (Some n)
      then have "node_ok (chan_heap s1) 0 n" using GetLcidNode_iff [OF q0] sched_ok_nodeD(1) [OF ok1, of 0 n] by simp
      then have "\<forall>a \<in> set (channelList n). chan_heap s1 a \<noteq> None" by (auto simp: node_ok_def chan_ok_def)
      from find_chan_safe [OF this, of ?P] show ?thesis using Some by (auto simp: res_def)
    qed (simp add: res_def)
    have push: "\<exists>r s'. DTAP_SaveFragmentData e l bs s = Some (r, s') \<and> sched_ok s' \<and> data_chans s' = data_chans s2"
      if get: "DTAP_GetOrCreateFragmentChannel (sub e 1) l s1 = Some (Some a, s2)" and ok2: "sched_ok s2"
        and c: "chan_heap s2 a = Some c" "priority c = 0" "srcTcid c = DTAP_FRAGMENT_TCID"
        and u: "\<And>n. n \<in> set (lcidList (g_dtapScheduler s2 ! 0)) \<Longrightarrow> ln_lcid n = lcid c \<Longrightarrow> only_chan s2 n c a"
        and fresh: "DTAP_GetLcidNode (g_dtapScheduler s2 ! 0) (lcid c) = None \<Longrightarrow> sched_ok (s2\<lparr>chan_heap := (chan_heap s2)(a := None)\<rparr>)"
      for a s2 c
    proof -
      let ?f = "\<lambda>c. c\<lparr>pktList := pktList c @ ps\<rparr>"
      have pc: "DTAP_PriorityQueuePush (sub e 2) 0 a (length bs) (chan_upd a ?f s2)
        = map_option (\<lambda>(r, t). (r, chan_upd a ?f t)) (DTAP_PriorityQueuePush (sub e 2) 0 a (length bs) s2)"
        by (rule push_chan_upd [OF c(1)]) simp_all
      have c3: "chan_heap (chan_upd a ?f s2) a = Some (?f c)" using c(1) by (simp add: chan_upd_def)
      have pri: "priority (?f c) = 0" using c(2) by simp
      have i0: "(0::nat) < 4" by simp
      have t0: "0 = (0::nat) \<longrightarrow> srcTcid c = DTAP_FRAGMENT_TCID" using c(3) by simp
      from push_ok [OF ok2 i0 c(1,2) t0 ps, of "sub e 2"] u
      have "DTAP_PriorityQueuePush (sub e 2) 0 a (length bs) s2 = Some (DTAP_TRANS_MALLOC_ERR, s2)
          \<and> DTAP_GetLcidNode (g_dtapScheduler s2 ! 0) (lcid c) = None
        \<or> (\<exists>s'. DTAP_PriorityQueuePush (sub e 2) 0 a (length bs) s2 = Some (DTAP_SUCCESS, s') \<and> chan_heap s' = chan_heap s2
          \<and> chan_next s' = chan_next s2 \<and> sched_ok (chan_upd a ?f s'))" by blast
      then show ?thesis
      proof (elim disjE conjE exE)
        assume p: "DTAP_PriorityQueuePush (sub e 2) 0 a (length bs) s2 = Some (DTAP_TRANS_MALLOC_ERR, s2)"
          "DTAP_GetLcidNode (g_dtapScheduler s2 ! 0) (lcid c) = None"
        let ?s = "(chan_upd a ?f s2)\<lparr>chan_heap := (chan_heap (chan_upd a ?f s2))(a := None)\<rparr>"
        have eq: "?s = s2\<lparr>chan_heap := (chan_heap s2)(a := None)\<rparr>" by (simp add: chan_upd_def)
        have "DTAP_SaveFragmentData e l bs s = Some (False, ?s)"
          using sp Some get pc p(1) c3 pri by (simp add: DTAP_SaveFragmentData_def Let_def)
        moreover have "data_chans (s2\<lparr>chan_heap := (chan_heap s2)(a := None)\<rparr>) = data_chans s2"
          by (rule ext) (use c in \<open>auto simp: data_chans_def\<close>)
        ultimately show ?thesis using fresh [OF p(2)] eq by auto
      next
        fix s' assume p: "DTAP_PriorityQueuePush (sub e 2) 0 a (length bs) s2 = Some (DTAP_SUCCESS, s')"
          "chan_heap s' = chan_heap s2" "sched_ok (chan_upd a ?f s')"
        have "DTAP_SaveFragmentData e l bs s = Some (True, chan_upd a ?f s')"
          using sp Some get pc p(1) c3 pri by (simp add: DTAP_SaveFragmentData_def Let_def)
        moreover have "data_chans (chan_upd a ?f s') = data_chans s2"
          using data_chans_upd data_chans_cong [OF p(2)] by metis
        ultimately show ?thesis using p(3) by blast
      qed
    qed
    show ?thesis
    proof (cases "res = Some None")
      case True
      show ?thesis
      proof (cases "SDF_MemZalloc (sub e 1)")
        case None
        then have "DTAP_GetOrCreateFragmentChannel (sub e 1) l s1 = Some (None, s1)"
          using True by (simp add: DTAP_GetOrCreateFragmentChannel_def flip: res_def)
        then show ?thesis using sp Some ok1 d1 by (auto simp: DTAP_SaveFragmentData_def)
      next
        case (Some x)
        let ?s2 = "s1\<lparr>chan_heap := (chan_heap s1)(chan_next s1 \<mapsto> frag_chan l), chan_next := chan_next s1 + 1\<rparr>"
        have g: "DTAP_GetOrCreateFragmentChannel (sub e 1) l s1 = Some (Some (chan_next s1), ?s2)"
          using True Some by (simp add: DTAP_GetOrCreateFragmentChannel_def frag_chan_def flip: res_def)
        have u: "only_chan ?s2 n (frag_chan l) (chan_next s1)" if "n \<in> set (lcidList (g_dtapScheduler ?s2 ! 0))" "ln_lcid n = l" for n
        proof -
          have n: "n \<in> set (lcidList ?q)" using that(1) by simp
          then have "find_chan (chan_heap s1) ?P (channelList n) = Some None"
            using True that(2) GetLcidNode_iff [OF q0, of l n] by (simp add: res_def)
          moreover have nok: "node_ok (chan_heap s1) 0 n" using sched_ok_nodeD(1) [OF ok1 _ n] by simp
          then have "\<forall>a \<in> set (channelList n). chan_heap s1 a \<noteq> None" by (auto simp: node_ok_def chan_ok_def)
          ultimately have no: "\<forall>a \<in> set (channelList n). \<forall>c. chan_heap s1 a = Some c \<longrightarrow> \<not> ?P c"
            using find_chan_safe [of "channelList n" "chan_heap s1" ?P] by auto
          have emp: "channelList n = []"
          proof (rule ccontr)
            assume "channelList n \<noteq> []"
            then obtain b where "b \<in> set (channelList n)" by fastforce
            then show False using no nok that(2) by (auto simp: node_ok_def chan_ok_def)
          qed
          then show ?thesis by (simp add: only_chan_def)
        qed
        have "sched_ok (?s2\<lparr>chan_heap := (chan_heap ?s2)(chan_next s1 := None)\<rparr>)"
          using sched_ok_new_frag(3) [OF ok1] by simp
        then show ?thesis
          using push [OF g sched_ok_new_frag(1) [OF ok1], of "frag_chan l"] u sched_ok_new_frag(2) [OF ok1, of l] d1
          by (simp add: frag_chan_def)
      qed
    next
      case False
      then obtain a n where f: "res = Some (Some a)" "DTAP_GetLcidNode ?q l = Some n" "find_chan (chan_heap s1) ?P (channelList n) = Some (Some a)"
        using res by (auto simp: res_def split: option.splits)
      have g: "DTAP_GetOrCreateFragmentChannel (sub e 1) l s1 = Some (Some a, s1)"
        using f(1) by (simp add: DTAP_GetOrCreateFragmentChannel_def flip: res_def)
      obtain c where c: "a \<in> set (channelList n)" "chan_heap s1 a = Some c" "lcid c = l" "srcTcid c = DTAP_FRAGMENT_TCID"
        using find_chan_SomeD [OF f(3)] by auto
      have n: "n \<in> set (lcidList ?q)" "ln_lcid n = l" using f(2) GetLcidNode_iff [OF q0] by auto
      have "priority c = 0" using sched_ok_nodeD(1) [OF ok1 _ n(1)] c by (auto simp: node_ok_def chan_ok_def)
      moreover have "only_chan s1 m c a" if "m \<in> set (lcidList ?q)" "ln_lcid m = lcid c" for m
      proof -
        have "m = n" using that n q0 c(3) by (auto simp: distinct_map inj_on_def)
        then show ?thesis using f(3) c(3,4) by (simp add: only_chan_def)
      qed
      ultimately show ?thesis using push [OF g ok1 c(2) _ c(4)] f(2) c(3) d1 by simp
    qed
  qed
qed

section \<open>Splitting is safe\<close>

lemma mem_read_Some: "off + n \<le> length (buff b) \<Longrightarrow> \<exists>bs. mem_read b off n = Some bs \<and> length bs = n"
  by (simp add: mem_read_def)

lemma append_write_ok:
  assumes "buff_ok f" "SDF_BuffAppend (Some f) n = Some (off, f1)" "length bs = n"
  shows "\<exists>f2. mem_write f1 off bs = Some f2 \<and> buff_ok f2"
proof -
  have le: "n \<le> SDF_BuffTailRoom f" using assms(2) by (auto split: if_splits)
  obtain off' f1' where *: "SDF_BuffAppend (Some f) n = Some (off', f1')"
    "\<And>bs. length bs = n \<Longrightarrow> mem_write f1' off' bs = append_bytes f bs" by (rule append_obtain [OF le]) auto
  have "length bs \<le> SDF_BuffTailRoom f" using le assms(3) by simp
  from append_bytes_Some [OF assms(1) this] obtain f2 where "append_bytes f bs = Some f2" "buff_ok f2" by blast
  then show ?thesis using * assms by auto
qed

lemma split_loop_safe:
  assumes "buff_ok b" "off \<le> dataLen b" "5 \<le> dataOff b + off" "\<forall>f \<in> set fs. \<forall>g. f = Some g \<longrightarrow> buff_ok g"
  shows "\<exists>r s' b' gs. split_loop s d b off fs = Some (r, s', b', gs) \<and> buff_ok b' \<and> dataOff b' = dataOff b
    \<and> (\<forall>f \<in> set gs. \<forall>g. f = Some g \<longrightarrow> buff_ok g) \<and> (r = DLI_SUCCESS \<longrightarrow> (\<forall>f \<in> set gs. f \<noteq> None))"
  using assms
proof (induction fs arbitrary: s b off)
  case (Cons f fs)
  obtain flag s1 where pf: "DLI_PdFlagGet (dataLen b - off) (acbLen s) s = (flag, s1)" by fastforce
  define m where "m = (if dataLen b - off > acbLen s then acbLen s else dataLen b - off)"
  define hdr where "hdr = data_type d # ENCODE2BYTE_LITTLE (dli_handle d flag) @ ENCODE2BYTE_LITTLE (of_nat m)"
  have m: "m \<le> dataLen b - off" by (simp add: m_def)
  have lh: "length hdr = 5" by (simp add: hdr_def)
  obtain b1 where b1: "mem_write b (dataOff b + off - 5) hdr = Some b1" "buff_ok b1" "dataOff b1 = dataOff b" "dataLen b1 = dataLen b"
    using header_write [OF Cons.prems(1,2) lh Cons.prems(3)] by blast
  define n where "n = to_u16 (m + 5)"
  have n: "n \<le> m + 5" unfolding n_def by (rule to_u16_le)
  obtain bs where bs: "mem_read b1 (dataOff b + off - 5) n = Some bs" "length bs = n"
  proof -
    have "dataOff b + off - 5 + n \<le> length (buff b1)"
      using n m Cons.prems(2,3) b1(2-4) unfolding buff_ok_def by linarith
    then show thesis using mem_read_Some that by blast
  qed
  show ?case
  proof (cases "SDF_BuffAppend f n")
    case None
    then show ?thesis
      using Cons.prems pf b1 by (simp add: Let_def del: SDF_BuffAppend.simps flip: m_def hdr_def n_def)
  next
    case (Some of1)
    obtain o1 f1 where of1: "of1 = (o1, f1)" by fastforce
    obtain g where g: "f = Some g" "buff_ok g" using Some Cons.prems(4) by (cases f) auto
    have f1ok: "buff_ok f1" using Some of1 g by (auto simp: buff_ok_def SDF_BuffTailRoom_def split: if_splits)
    show ?thesis
    proof (cases "n = 0")
      case True
      then show ?thesis
        using Cons.prems pf b1 Some of1 f1ok by (auto simp add: Let_def simp del: SDF_BuffAppend.simps simp flip: m_def hdr_def n_def)
    next
      case False
      obtain f2 where f2: "mem_write f1 o1 bs = Some f2" "buff_ok f2"
        using append_write_ok [of g n o1 f1 bs] g Some of1 bs(2) by auto
      have pre: "off + m \<le> dataLen b1" "5 \<le> dataOff b1 + (off + m)" "\<forall>f \<in> set fs. \<forall>g. f = Some g \<longrightarrow> buff_ok g"
        using m Cons.prems b1 by auto
      from Cons.IH [OF b1(2) pre, of s1] obtain r s' b' gs where
        "split_loop s1 d b1 (off + m) fs = Some (r, s', b', gs)" "buff_ok b'" "dataOff b' = dataOff b1"
        "\<forall>f \<in> set gs. \<forall>g. f = Some g \<longrightarrow> buff_ok g" "r = DLI_SUCCESS \<longrightarrow> (\<forall>f \<in> set gs. f \<noteq> None)" by blast
      then show ?thesis
        using Cons.prems pf b1 Some of1 False f2 bs(1)
        by (auto simp add: Let_def simp del: SDF_BuffAppend.simps simp flip: m_def hdr_def n_def)
    qed
  qed
qed simp

lemma new_frag_bufs_ok: "new_frag_bufs e len n = Some fs \<Longrightarrow> length fs = n \<and> (\<forall>f \<in> set fs. \<forall>g. f = Some g \<longrightarrow> buff_ok g)"
  by (induction n arbitrary: fs) (auto split: option.splits dest: SDF_BuffNew_SomeD)

lemma those_Some: "\<forall>f \<in> set gs. f \<noteq> None \<Longrightarrow> \<exists>hs. those gs = Some hs \<and> map Some hs = gs"
  by (induction gs) auto

lemma DTAP_SplitData_safe:
  assumes "buff_ok b" "5 \<le> SDF_BuffHeadRoom b"
  shows "\<exists>fr b1 s1. DTAP_SplitData e l b n s = Some (fr, b1, s1) \<and> buff_ok b1 \<and> SDF_BuffHeadRoom b1 = SDF_BuffHeadRoom b
    \<and> (\<forall>fs. fr = Some fs \<longrightarrow> (\<forall>f \<in> set fs. buff_ok f)) \<and> (\<exists>dl. s1 = s\<lparr>dli := dl\<rparr>)"
proof (cases "new_frag_bufs e (DLI_GetFragmentMaxLen (dli s)) n")
  case None
  then show ?thesis using assms by (intro exI [of _ None] exI [of _ b] exI [of _ s]) (auto simp: DTAP_SplitData_def intro: exI [of _ "dli s"])
next
  case (Some fs)
  let ?d = "\<lparr>data_lcid = l, data_type = DLI_DATATYPE_ACB, data_ts = 0, data_prio = 0, data_buf = Some b\<rparr>"
  note fs = new_frag_bufs_ok [OF Some]
  have h: "5 \<le> dataOff b + 0" using assms(2) by (simp add: SDF_BuffHeadRoom_def)
  have t: "take n fs = fs" "drop n fs = []" using fs by auto
  obtain r dl b' gs where sl: "split_loop (dli s) ?d b 0 fs = Some (r, dl, b', gs)" "buff_ok b'" "dataOff b' = dataOff b"
    "\<forall>f \<in> set gs. \<forall>g. f = Some g \<longrightarrow> buff_ok g" "r = DLI_SUCCESS \<longrightarrow> (\<forall>f \<in> set gs. f \<noteq> None)"
    using split_loop_safe [OF assms(1) _ h, of fs "dli s" ?d] fs by auto
  show ?thesis
  proof (cases "0 < n \<and> n \<le> 128")
    case False
    then have "DTAP_SplitData e l b n s = Some (None, b, s)"
      using Some by (auto simp: DTAP_SplitData_def DLI_SplitData_def)
    then show ?thesis using assms by (intro exI [of _ None] exI [of _ b] exI [of _ s]) (auto intro: exI [of _ "dli s"])
  next
    case True
    have sd: "DLI_SplitData (dli s) ?d fs n = Some (r, dl, ?d\<lparr>data_buf := Some b'\<rparr>, gs)"
      using True fs sl(1) t by (simp add: DLI_SplitData_def)
    show ?thesis
    proof (cases "r = DLI_SUCCESS")
      case False
      then show ?thesis using Some sd sl assms
        by (intro exI [of _ None] exI [of _ b'] exI [of _ "s\<lparr>dli := dl\<rparr>"]) (auto simp: DTAP_SplitData_def SDF_BuffHeadRoom_def)
    next
      case True
      then obtain hs where hs: "those gs = Some hs" "map Some hs = gs" using sl(5) those_Some by blast
      then have "\<forall>f \<in> set hs. buff_ok f" using sl(4) by auto
      then show ?thesis using Some sd sl assms True hs
        by (intro exI [of _ "Some hs"] exI [of _ b'] exI [of _ "s\<lparr>dli := dl\<rparr>"]) (auto simp: DTAP_SplitData_def SDF_BuffHeadRoom_def)
    qed
  qed
qed

section \<open>Rounds and runs\<close>

text \<open>Steps that touch only counters, links and the data link.\<close>

definition same_queues :: "'a dp_state \<Rightarrow> 'a dp_state \<Rightarrow> bool" where
  "same_queues s s' \<longleftrightarrow> chan_heap s' = chan_heap s \<and> chan_next s' = chan_next s \<and> g_dtapScheduler s' = g_dtapScheduler s"

lemma same_queues_simps [simp]:
  "same_queues s (s\<lparr>dli := d\<rparr>)" "same_queues s (count_sent e l n s)" "same_queues s s" "same_queues s (link_upd l f s)" "same_queues s (recalc s)"
  by (simp_all add: same_queues_def count_sent_def link_upd_def recalc_def)

lemma same_queues_trans [trans]: "same_queues s t \<Longrightarrow> same_queues t u \<Longrightarrow> same_queues s u"
  by (simp add: same_queues_def)

lemma same_queues_ok: "same_queues s s' \<Longrightarrow> sched_ok s' = sched_ok s" "same_queues s s' \<Longrightarrow> data_chans s' = data_chans s"
  using sched_ok_cong data_chans_cong by (auto simp: same_queues_def)

lemma same_queues_send: "DTAP_SendData e l b s = (ok, s') \<Longrightarrow> same_queues s s'"
  by (auto simp: DTAP_SendData_def split: option.splits prod.splits)

lemma same_queues_frags: "send_frags e k l cl fs s = (left, s') \<Longrightarrow> same_queues s s' \<and> set left \<subseteq> set fs"
proof (induction fs arbitrary: k s)
  case (Cons f fs)
  obtain ok s1 where sd: "DTAP_SendData (sub (sub e k) 0) cl f s = (ok, s1)" by fastforce
  note s1 = same_queues_send [OF sd]
  show ?case
  proof (cases "DTAP_CanSend l s \<and> ok")
    case False
    then show ?thesis using Cons.prems sd s1 by (auto split: if_splits)
  next
    case True
    let ?s2 = "count_sent (sub (sub e k) 1) l (dataLen f) s1"
    have "same_queues ?s2 s'" "set left \<subseteq> set fs" using Cons.IH [of "Suc k" ?s2] Cons.prems True sd by auto
    then show ?thesis using s1 same_queues_simps(2) same_queues_trans by (metis list.set_intros(2) subset_iff)
  qed
qed simp

definition good_end :: "'a dp_state \<Rightarrow> 'a dp_state \<Rightarrow> bool" where
  "good_end s s' \<longleftrightarrow> sched_ok s' \<and> data_chans s' = data_chans s"

lemma round_ok:
  assumes ok: "sched_ok s" and i: "i < 4" and n: "n \<in> set (lcidList (g_dtapScheduler s ! i))" "ln_lcid n = l"
    and a: "a \<in> set (channelList n)" "chan_heap s a = Some c" "pktList c \<noteq> []"
  shows "\<exists>r. schedule_round e i l a s = Some r \<and> (case r of Return b s' \<Rightarrow> good_end s s' | Continue s' \<Rightarrow> good_end s s')"
proof -
  obtain pkt rest where pk: "pktList c = pkt # rest" using a(3) by (cases "pktList c") auto
  have po: "pkt_ok i pkt" and pr: "\<forall>p \<in> set rest. pkt_ok i p"
    using sched_ok_nodeD(1) [OF ok i n(1)] a pk unfolding node_ok_def chan_ok_def by fastforce+
  have pop: "good_end s (DTAP_PriorityQueuePop i l a t)" if "same_queues s t" for t
  proof -
    have t: "sched_ok t" "n \<in> set (lcidList (g_dtapScheduler t ! i))" "chan_heap t a = Some c" "data_chans t = data_chans s"
      using that ok n a same_queues_ok [OF that] by (auto simp: same_queues_def)
    from pop_ok [OF t(1) i t(2) n(2) a(1) t(3) a(3)] data_chans_put [OF t(3)] t(4)
    show ?thesis by (metis good_end_def)
  qed
  show ?thesis
  proof (cases "isSplited pkt")
    case True
    obtain k s1 where sd: "DTAP_SendData (sub e 0) (lcid c) (pkt_buff pkt) s = (k, s1)" by fastforce
    note s1 = same_queues_send [OF sd]
    have "good_end s s1" using s1 ok by (simp add: good_end_def same_queues_ok)
    moreover have "good_end s (count_sent (sub e 1) l m (DTAP_PriorityQueuePop i l a s1))" for m
      using pop [OF s1] same_queues_ok [OF same_queues_simps(2)] unfolding good_end_def by metis
    ultimately show ?thesis using a pk True sd by (simp add: schedule_round_def)
  next
    case False
    have b: "buff_ok (pkt_buff pkt)" "5 \<le> SDF_BuffHeadRoom (pkt_buff pkt)" using po False by (auto simp: pkt_ok_def)
    let ?cnt = "DLI_GetDataFragmentNums 0 (dli s) (Some (pkt_buff pkt))"
    obtain fr b1 dl where sp: "DTAP_SplitData (sub e 0) (lcid c) (pkt_buff pkt) ?cnt s = Some (fr, b1, s\<lparr>dli := dl\<rparr>)"
      "buff_ok b1" "SDF_BuffHeadRoom b1 = SDF_BuffHeadRoom (pkt_buff pkt)" "\<forall>fs. fr = Some fs \<longrightarrow> (\<forall>f \<in> set fs. buff_ok f)"
      using DTAP_SplitData_safe [OF b, of "sub e 0" "lcid c" ?cnt s] by blast
    show ?thesis
    proof (cases fr)
      case None
      let ?c' = "c\<lparr>pktList := pkt\<lparr>pkt_buff := b1\<rparr> # rest\<rparr>"
      let ?s = "chan_upd a (\<lambda>d. d\<lparr>pktList := pkt\<lparr>pkt_buff := b1\<rparr> # tl (pktList d)\<rparr>) (s\<lparr>dli := dl\<rparr>)"
      have h: "chan_heap ?s = (chan_heap s)(a \<mapsto> ?c')" using a(2) pk by (simp add: chan_upd_def)
      have p': "\<forall>p \<in> set (pktList ?c'). pkt_ok i p" using po pr sp(2,3) by (auto simp: pkt_ok_def)
      have same: "ln_upd l (\<lambda>_. n) (lcidList (g_dtapScheduler s ! i)) = lcidList (g_dtapScheduler s ! i)"
      proof -
        have "ln_upd l (\<lambda>_. n) ns = ns" if "n \<in> set ns" "distinct (map ln_lcid ns)" for ns
          using that n(2) by (induction ns) (auto simp: image_iff)
        then show ?thesis using n sched_ok_nodeD(2) [OF ok i n(1)] by blast
      qed
      have "sched_ok ?s"
        using sched_ok_nodeD(1,3) [OF ok i n(1)] n(2) p' pk same i ok
        by (intro sched_ok_change [OF ok i n a(1,2), of ?c' n ?s "g_dtapScheduler s ! i"] h)
          (auto simp: node_ok_def sched_ok_def)
      moreover have "data_chans ?s = data_chans s" by (rule data_chans_put [OF a(2) h])
      ultimately show ?thesis using a pk False sp(1) None by (simp add: schedule_round_def good_end_def)
    next
      case (Some fs)
      obtain left s2 where sf: "send_frags (sub e 1) 0 l (lcid c) fs (s\<lparr>dli := dl\<rparr>) = (left, s2)" by fastforce
      note f = same_queues_frags [OF sf]
      have sq: "same_queues s s2" using f same_queues_simps(1) same_queues_trans by blast
      note p3 = pop [OF sq]
      show ?thesis
      proof (cases "left = []")
        case True
        then show ?thesis using a pk False sp(1) Some sf p3 by (simp add: schedule_round_def)
      next
        case ne: False
        have "\<forall>b \<in> set left. buff_ok b" using f sp(4) Some by auto
        from save_ok [OF _ this] p3 obtain r s4 where
          "DTAP_SaveFragmentData (sub e 2) (lcid c) left (DTAP_PriorityQueuePop i l a s2) = Some (r, s4)" "good_end s s4"
          by (metis good_end_def)
        then show ?thesis using a pk False sp(1) Some sf ne by (simp add: schedule_round_def Let_def)
      qed
    qed
  qed
qed

lemma next_channel_ok:
  assumes "sched_ok s" "i < 4"
  shows "\<exists>r. next_channel i l s = Some r \<and> (\<forall>a. r = Some a \<longrightarrow> (\<exists>n c. n \<in> set (lcidList (g_dtapScheduler s ! i)) \<and> ln_lcid n = l
    \<and> a \<in> set (channelList n) \<and> chan_heap s a = Some c \<and> pktList c \<noteq> []))"
proof -
  let ?q = "g_dtapScheduler s ! i"
  have d: "distinct (map ln_lcid (lcidList ?q))" using assms by (simp add: sched_ok_def queue_ok_def)
  show ?thesis
  proof (cases "DTAP_CanSend l s")
    case can: True
    show ?thesis
    proof (cases "DTAP_GetLcidNode ?q l")
      case None
      then show ?thesis using can by (simp add: next_channel_def DTAP_PriorityQueuePeek_def)
    next
      case (Some n)
      then have n: "n \<in> set (lcidList ?q)" "ln_lcid n = l" using GetLcidNode_iff [OF d] by auto
      have "\<forall>a \<in> set (channelList n). chan_heap s a \<noteq> None"
        using sched_ok_nodeD(1) [OF assms n(1)] by (auto simp: node_ok_def chan_ok_def)
      from find_chan_safe [OF this, of "\<lambda>c. pktList c \<noteq> []"] show ?thesis
        using can Some n by (auto simp: next_channel_def DTAP_PriorityQueuePeek_def)
    qed
  qed (simp add: next_channel_def)
qed

lemma schedule_lcid_ok:
  assumes "sched_ok s" "i < 4"
  shows "\<exists>b s'. DTAP_ScheduleLcid e k i l s = Some (b, s') \<and> good_end s s' \<and> flow_step\<^sup>*\<^sup>* (flow_of s) (flow_of s')"
  using assms
proof (induction e k i l s rule: DTAP_ScheduleLcid.induct)
  case (1 e k i l s)
  obtain r where r: "next_channel i l s = Some r" "\<forall>a. r = Some a \<longrightarrow> (\<exists>n c. n \<in> set (lcidList (g_dtapScheduler s ! i)) \<and> ln_lcid n = l
    \<and> a \<in> set (channelList n) \<and> chan_heap s a = Some c \<and> pktList c \<noteq> [])"
    using next_channel_ok [OF 1(2,3)] by blast
  show ?case
  proof (cases r)
    case None
    then show ?thesis using r(1) 1(2) by (subst DTAP_ScheduleLcid.simps) (auto simp: good_end_def)
  next
    case (Some a)
    then obtain n c where n: "n \<in> set (lcidList (g_dtapScheduler s ! i))" "ln_lcid n = l"
      "a \<in> set (channelList n)" "chan_heap s a = Some c" "pktList c \<noteq> []" using r(2) by blast
    have can: "DTAP_CanSend l s" using r(1) Some by (auto simp: next_channel_def split: if_splits)
    obtain q where q: "schedule_round (sub e k) i l a s = Some q"
      "case q of Return b s' \<Rightarrow> good_end s s' | Continue s' \<Rightarrow> good_end s s'" using round_ok [OF 1(2,3) n] by blast
    note fl = flow_round [OF q(1) can]
    show ?thesis
    proof (cases q)
      case (Return b s')
      then show ?thesis using r(1) Some q fl by (subst DTAP_ScheduleLcid.simps) simp
    next
      case (Continue s')
      have "\<exists>b t. DTAP_ScheduleLcid e (Suc k) i l s' = Some (b, t) \<and> good_end s' t \<and> flow_step\<^sup>*\<^sup>* (flow_of s') (flow_of t)"
        using 1(1) [of r a q s'] r(1) Some q Continue 1(3) by (simp add: good_end_def)
      then obtain b t where t: "DTAP_ScheduleLcid e (Suc k) i l s' = Some (b, t)" "good_end s' t" "flow_step\<^sup>*\<^sup>* (flow_of s') (flow_of t)" by blast
      have "flow_step\<^sup>*\<^sup>* (flow_of s) (flow_of t)" using fl Continue t(3) by (simp add: rtranclp_trans tranclp_into_rtranclp)
      moreover have "good_end s t" using t(2) q(2) Continue by (simp add: good_end_def)
      ultimately show ?thesis using r(1) Some q(1) Continue t(1) by (subst DTAP_ScheduleLcid.simps) simp
    qed
  qed
qed

end
