(* ===== verification/Dtap_Sched_Run.thy ===== *)
theory Dtap_Sched_Run
  imports Dtap_Sched_Inv "HOL-Library.Multiset"
begin

text \<open>
  Runs of the scheduler and its entry points: from a well-formed state every one of them terminates
  without an invalid access, keeps the state well-formed and the channels of the layers above untouched,
  and hands fragments over only the way the abstract sender \<open>flow_step\<close> allows.
\<close>

section \<open>Reordering links\<close>

definition core :: "DTAP_LcidNode \<Rightarrow> DTAP_LcidNode" where
  "core n = n\<lparr>hasScheduled := False\<rparr>"

lemma core_simps [simp]:
  "ln_lcid (core n) = ln_lcid n" "ln_pktCnt (core n) = ln_pktCnt n" "channelList (core n) = channelList n"
  "node_ok h i (core n) = node_ok h i n"
  by (simp_all add: core_def node_ok_def)

lemma sched_ok_relink:
  assumes ok: "sched_ok s" and i: "i < 4"
    and m: "mset (map core ns) = mset (map core (lcidList (g_dtapScheduler s ! i)))"
  shows "sched_ok (q_upd i (\<lambda>q. q\<lparr>lcidList := ns\<rparr>) s)"
proof -
  let ?ms = "lcidList (g_dtapScheduler s ! i)"
  have len: "length (g_dtapScheduler s) = 4" and q: "queue_ok (chan_heap s) i (g_dtapScheduler s ! i)"
    using ok i by (simp_all add: sched_ok_def)
  have lc: "mset (map ln_lcid ns) = mset (map ln_lcid ?ms)" and cnt: "mset (map ln_pktCnt ns) = mset (map ln_pktCnt ?ms)"
    using arg_cong [OF m, of "image_mset ln_lcid"] arg_cong [OF m, of "image_mset ln_pktCnt"]
    by (simp_all add: multiset.map_comp comp_def)
  have st: "\<exists>k \<in> set ?ms. core k = core n" if "n \<in> set ns" for n
    using that mset_eq_setD [OF m] by (metis (no_types, lifting) image_iff list.set_map)
  have st': "\<exists>k \<in> set ns. core k = core n" if "n \<in> set ?ms" for n
    using that mset_eq_setD [OF m] by (metis (no_types, lifting) image_iff list.set_map)
  have "distinct (map ln_lcid ns)" using q lc unfolding queue_ok_def by (metis mset_eq_imp_distinct_iff)
  moreover have "sum_list (map ln_pktCnt ns) = sum_list (map ln_pktCnt ?ms)" using cnt by (metis sum_mset_sum_list)
  moreover have "node_ok (chan_heap s) i n" if "n \<in> set ns" for n
    using st [OF that] q unfolding queue_ok_def by (metis core_simps(4))
  ultimately have "queue_ok (chan_heap s) i ((g_dtapScheduler s ! i)\<lparr>lcidList := ns\<rparr>)"
    using q by (simp add: queue_ok_def)
  moreover have "heap_ok (q_upd i (\<lambda>q. q\<lparr>lcidList := ns\<rparr>) s)"
    unfolding heap_ok_def
  proof (intro conjI allI impI)
    fix a c assume a: "chan_heap (q_upd i (\<lambda>q. q\<lparr>lcidList := ns\<rparr>) s) a = Some c"
    then show "priority c < 4" using ok by (auto simp: sched_ok_def heap_ok_def)
    assume "pktList c \<noteq> []"
    then have "\<exists>n \<in> set (lcidList (g_dtapScheduler s ! priority c)). ln_lcid n = lcid c \<and> a \<in> set (channelList n)"
      using ok a unfolding sched_ok_def heap_ok_def by simp
    then obtain n where n: "n \<in> set (lcidList (g_dtapScheduler s ! priority c))" "ln_lcid n = lcid c" "a \<in> set (channelList n)"
      by blast
    show "\<exists>n \<in> set (lcidList (g_dtapScheduler (q_upd i (\<lambda>q. q\<lparr>lcidList := ns\<rparr>) s) ! priority c)).
      ln_lcid n = lcid c \<and> a \<in> set (channelList n)"
    proof (cases "priority c = i")
      case True
      then obtain k where "k \<in> set ns" "core k = core n" using st' n(1) by blast
      then show ?thesis using True n i len by (intro bexI [of _ k]) (auto simp: q_upd_def dest: arg_cong [of _ _ ln_lcid] arg_cong [of _ _ channelList])
    next
      case False
      then show ?thesis using n by (auto simp: q_upd_def)
    qed
  qed (use ok in \<open>auto simp: sched_ok_def heap_ok_def\<close>)
  ultimately show ?thesis using ok i by (auto simp: sched_ok_def q_upd_def nth_list_update)
qed

lemma core_ln_upd: "map core (ln_upd l (\<lambda>n. n\<lparr>hasScheduled := b\<rparr>) ns) = map core ns"
  by (induction ns) (auto simp: core_def)

lemma core_rotate: "mset (map core (rotate_links ns)) = mset (map core ns)"
  by (induction ns) (auto simp: rotate_links_def core_def)

lemma data_chans_q_upd [simp]: "data_chans (q_upd i f s) = data_chans s"
  by (rule data_chans_cong) (simp add: q_upd_def)

text \<open>What every run of the scheduler guarantees; the relation is reflexive and transitive.\<close>

definition run_to :: "'a dp_state \<Rightarrow> 'a dp_state \<Rightarrow> bool" where
  "run_to s t \<longleftrightarrow> (sched_ok s \<longrightarrow> sched_ok t) \<and> data_chans t = data_chans s \<and> flow_step\<^sup>*\<^sup>* (flow_of s) (flow_of t)"

lemma run_to_refl [simp]: "run_to s s"
  by (simp add: run_to_def)

lemma run_to_trans [trans]: "run_to s t \<Longrightarrow> run_to t u \<Longrightarrow> run_to s u"
  by (auto simp: run_to_def)

lemma run_to_ok: "run_to s t \<Longrightarrow> sched_ok s \<Longrightarrow> sched_ok t"
  by (simp add: run_to_def)

lemma run_to_relink: "sched_ok s \<Longrightarrow> i < 4 \<Longrightarrow> mset (map core ns) = mset (map core (lcidList (g_dtapScheduler s ! i)))
    \<Longrightarrow> run_to s (q_upd i (\<lambda>q. q\<lparr>lcidList := ns\<rparr>) s)"
  by (simp add: run_to_def sched_ok_relink)

lemma q_upd_const: "q_upd i (\<lambda>q. q\<lparr>lcidList := f (lcidList q)\<rparr>) s = q_upd i (\<lambda>q. q\<lparr>lcidList := f (lcidList (g_dtapScheduler s ! i))\<rparr>) s"
  by (simp add: q_upd_def)

lemma run_to_mark: "sched_ok s \<Longrightarrow> i < 4 \<Longrightarrow> run_to s (node_upd i l (\<lambda>n. n\<lparr>hasScheduled := b\<rparr>) s)"
  unfolding node_upd_def by (subst q_upd_const) (rule run_to_relink; simp add: core_ln_upd del: mset_map)

lemma run_to_rotate: "sched_ok s \<Longrightarrow> i < 4 \<Longrightarrow> run_to s (q_upd i (\<lambda>q. q\<lparr>lcidList := rotate_links (lcidList q)\<rparr>) s)"
  by (subst q_upd_const) (rule run_to_relink; simp add: core_rotate del: mset_map)

lemma schedule_lcid_run: "sched_ok s \<Longrightarrow> i < 4 \<Longrightarrow> \<exists>b t. DTAP_ScheduleLcid e k i l s = Some (b, t) \<and> run_to s t"
  using schedule_lcid_ok [of s i e k l] by (auto simp: run_to_def good_end_def)

lemma schedule_links_run: "sched_ok s \<Longrightarrow> i < 4 \<Longrightarrow> \<exists>b t. schedule_links e k i ls s = Some (b, t) \<and> run_to s t"
proof (induction ls arbitrary: k s)
  case (Cons l ls)
  show ?case
  proof (cases "DTAP_CanSend l s")
    case True
    let ?s1 = "node_upd i l (\<lambda>n. n\<lparr>hasScheduled := True\<rparr>) s"
    have r1: "run_to s ?s1" using Cons.prems run_to_mark by blast
    obtain b t where t: "DTAP_ScheduleLcid (sub e k) 0 i l ?s1 = Some (b, t)" "run_to ?s1 t"
      using schedule_lcid_run [OF run_to_ok [OF r1 Cons.prems(1)] Cons.prems(2), of "sub e k" 0 l] by blast
    have r: "run_to s t" using r1 t(2) by (rule run_to_trans)
    show ?thesis
    proof (cases b)
      case True
      obtain b' u where u: "schedule_links e (Suc k) i ls t = Some (b', u)" "run_to t u"
        using Cons.IH [OF run_to_ok [OF r Cons.prems(1)] Cons.prems(2)] by blast
      show ?thesis using \<open>DTAP_CanSend l s\<close> True t(1) u(1) run_to_trans [OF r u(2)] by simp
    next
      case False
      show ?thesis using \<open>DTAP_CanSend l s\<close> False t(1) r by auto
    qed
  next
    case False
    then show ?thesis using Cons.IH [OF Cons.prems, of "Suc k"] by simp
  qed
qed auto

lemma schedule_priority_run:
  assumes "sched_ok s" "i < 4"
  shows "\<exists>b t. DTAP_SchedulePriority e i s = Some (b, t) \<and> run_to s t"
proof -
  obtain b t where t: "schedule_links e 0 i (map ln_lcid (lcidList (g_dtapScheduler s ! i))) s = Some (b, t)" "run_to s t"
    using schedule_links_run [OF assms] by blast
  from run_to_trans [OF t(2) run_to_rotate [OF run_to_ok [OF t(2) assms(1)] assms(2)]] t(1)
  show ?thesis by (simp add: DTAP_SchedulePriority_def)
qed

lemma run_queues_run: "sched_ok s \<Longrightarrow> \<forall>i \<in> set is. i < 4 \<Longrightarrow> \<exists>t. run_queues e is s = Some t \<and> run_to s t"
proof (induction "is" arbitrary: s)
  case (Cons i "is")
  obtain b t where t: "DTAP_SchedulePriority (sub e i) i s = Some (b, t)" "run_to s t"
    using schedule_priority_run [of s i "sub e i"] Cons.prems by auto
  obtain u where u: "run_queues e is t = Some u" "run_to t u" using Cons.IH [of t] run_to_ok [OF t(2)] Cons.prems by auto
  show ?case
    using Cons.IH [of s] Cons.prems t u run_to_trans [OF t(2) u(2)] by auto
qed simp

lemma scheduler_run: "sched_ok s \<Longrightarrow> \<exists>t. DTAP_SchedulerRun e s = Some t \<and> run_to s t"
  unfolding DTAP_SchedulerRun_def by (rule run_queues_run) auto

section \<open>Taking channels and links away\<close>

text \<open>A channel without packets leaves the list of its link.\<close>

lemma sum_remove1: "a \<in> set as \<Longrightarrow> f a = (0::nat) \<Longrightarrow> sum_list (map f (remove1 a as)) = sum_list (map f as)"
  by (induction as) auto

lemma sched_ok_unlink:
  assumes ok: "sched_ok s" and i: "i < 4" and n: "n \<in> set (lcidList (g_dtapScheduler s ! i))" "ln_lcid n = l"
    and a: "a \<in> set (channelList n)" "chan_heap s a = Some c" "pktList c = []"
  shows "sched_ok (node_upd i l (\<lambda>m. m\<lparr>channelList := remove1 a (channelList m)\<rparr>) s)"
proof -
  let ?f = "\<lambda>m. m\<lparr>channelList := remove1 a (channelList m)\<rparr>" and ?q = "g_dtapScheduler s ! i"
  let ?s = "node_upd i l ?f s"
  note nd = sched_ok_nodeD [OF ok i n(1)]
  have len: "length (g_dtapScheduler s) = 4" using ok by (simp add: sched_ok_def)
  have "sum_list (map (\<lambda>b. length (pkts (chan_heap s) b)) (remove1 a (channelList n))) = ln_pktCnt n"
    using nd(1) sum_remove1 [OF a(1), of "\<lambda>b. length (pkts (chan_heap s) b)"] a by (simp add: node_ok_def pkts_def)
  then have fn: "node_ok (chan_heap s) i (?f n)" using nd(1) by (auto simp: node_ok_def dest: notin_set_remove1)
  have "queue_ok (chan_heap s) i (?q\<lparr>lcidList := ln_upd l ?f (lcidList ?q)\<rparr>)"
  proof -
    have "sum_list (map ln_pktCnt (ln_upd l ?f (lcidList ?q))) = sum_list (map ln_pktCnt (lcidList ?q))"
      using ln_upd_cnt [OF n nd(2), of ?f] by simp
    moreover have "node_ok (chan_heap s) i m" if "m \<in> set (ln_upd l ?f (lcidList ?q))" for m
      using ln_upd_set [OF nd(2) that] fn n nd(2) sched_ok_nodeD(1) [OF ok i]
      by (metis (no_types, lifting) GetLcidNode_iff option.inject)
    ultimately show ?thesis using nd(2,3) ok i ln_upd_lcids [of ?f l "lcidList ?q"]
      by (simp add: queue_ok_def sched_ok_def)
  qed
  then have "\<forall>j < 4. queue_ok (chan_heap s) j (g_dtapScheduler ?s ! j)"
    using ok i len by (auto simp: sched_ok_def node_upd_def q_upd_def nth_list_update)
  moreover have "heap_ok ?s"
    unfolding heap_ok_def
  proof (intro conjI allI impI)
    fix b d assume b: "chan_heap ?s b = Some d"
    then show "priority d < 4" using ok by (simp add: sched_ok_def heap_ok_def node_upd_def)
    assume p: "pktList d \<noteq> []"
    then have "\<exists>k \<in> set (lcidList (g_dtapScheduler s ! priority d)). ln_lcid k = lcid d \<and> b \<in> set (channelList k)"
      using ok b unfolding sched_ok_def heap_ok_def by (simp add: node_upd_def)
    then obtain k where k: "k \<in> set (lcidList (g_dtapScheduler s ! priority d))" "ln_lcid k = lcid d" "b \<in> set (channelList k)" by blast
    have "b \<noteq> a" using b p a by (auto simp: node_upd_def)
    then have "b \<in> set (channelList (?f k))" using k(3) in_set_remove1 by fastforce
    then show "\<exists>k \<in> set (lcidList (g_dtapScheduler ?s ! priority d)). ln_lcid k = lcid d \<and> b \<in> set (channelList k)"
      using k ln_upd_mem [OF k(1), of l ?f] nd(2) i len
      by (intro bexI [of _ "if priority d = i \<and> ln_lcid k = l then ?f k else k"]) (auto simp: node_upd_def q_upd_def nth_list_update)
  qed (use ok in \<open>auto simp: sched_ok_def heap_ok_def node_upd_def\<close>)
  ultimately show ?thesis using ok by (auto simp: sched_ok_def node_upd_def q_upd_def)
qed

lemma ln_del_lcids: "map ln_lcid (ln_del l ns) = remove1 l (map ln_lcid ns)"
  by (induction ns) auto

lemma ln_del_set: "distinct (map ln_lcid ns) \<Longrightarrow> set (ln_del l ns) = {n \<in> set ns. ln_lcid n \<noteq> l}"
  by (induction ns) (auto simp: image_iff)

lemma ln_del_cnt: "n \<in> set ns \<Longrightarrow> ln_lcid n = l \<Longrightarrow> distinct (map ln_lcid ns) \<Longrightarrow> ln_pktCnt n = 0 \<Longrightarrow>
  sum_list (map ln_pktCnt (ln_del l ns)) = sum_list (map ln_pktCnt ns)"
  by (induction ns) (auto simp: image_iff)

lemma sched_ok_del_link:
  assumes ok: "sched_ok s" and i: "i < 4" and n: "n \<in> set (lcidList (g_dtapScheduler s ! i))" "ln_lcid n = l" "channelList n = []"
  shows "sched_ok (q_upd i (\<lambda>q. q\<lparr>lcidList := ln_del l (lcidList q)\<rparr>) s)"
proof -
  let ?q = "g_dtapScheduler s ! i" and ?s = "q_upd i (\<lambda>q. q\<lparr>lcidList := ln_del l (lcidList q)\<rparr>) s"
  note nd = sched_ok_nodeD [OF ok i n(1)]
  have len: "length (g_dtapScheduler s) = 4" using ok by (simp add: sched_ok_def)
  have "ln_pktCnt n = 0" using nd(1) n(3) by (simp add: node_ok_def)
  from ln_del_cnt [OF n(1,2) nd(2) this] have "queue_ok (chan_heap s) i (?q\<lparr>lcidList := ln_del l (lcidList ?q)\<rparr>)"
    using ok i nd(2) by (auto simp: queue_ok_def sched_ok_def ln_del_lcids ln_del_set)
  then have "\<forall>j < 4. queue_ok (chan_heap s) j (g_dtapScheduler ?s ! j)"
    using ok i len by (auto simp: sched_ok_def q_upd_def nth_list_update)
  moreover have "heap_ok ?s"
    unfolding heap_ok_def
  proof (intro conjI allI impI)
    fix b d assume b: "chan_heap ?s b = Some d"
    then show "priority d < 4" using ok by (simp add: sched_ok_def heap_ok_def)
    assume p: "pktList d \<noteq> []"
    then have "\<exists>k \<in> set (lcidList (g_dtapScheduler s ! priority d)). ln_lcid k = lcid d \<and> b \<in> set (channelList k)"
      using ok b unfolding sched_ok_def heap_ok_def by simp
    then obtain k where k: "k \<in> set (lcidList (g_dtapScheduler s ! priority d))" "ln_lcid k = lcid d" "b \<in> set (channelList k)" by blast
    have "\<not> (priority d = i \<and> ln_lcid k = l)" using k n nd(2) GetLcidNode_iff [OF nd(2)] by (metis empty_iff list.set(1) option.inject)
    then show "\<exists>k \<in> set (lcidList (g_dtapScheduler ?s ! priority d)). ln_lcid k = lcid d \<and> b \<in> set (channelList k)"
      using k i len nd(2) by (intro bexI [of _ k]) (auto simp: q_upd_def ln_del_set nth_list_update)
  qed (use ok in \<open>auto simp: sched_ok_def heap_ok_def\<close>)
  ultimately show ?thesis using ok by (auto simp: sched_ok_def q_upd_def)
qed

text \<open>A channel in no list can be freed.\<close>

definition unlisted :: "nat \<Rightarrow> 'a dp_state \<Rightarrow> bool" where
  "unlisted a s \<longleftrightarrow> (\<forall>q \<in> set (g_dtapScheduler s). \<forall>n \<in> set (lcidList q). a \<notin> set (channelList n))"

lemma sched_ok_free:
  assumes "sched_ok s" "unlisted a s"
  shows "sched_ok (s\<lparr>chan_heap := (chan_heap s)(a := None)\<rparr>)"
proof -
  let ?h = "(chan_heap s)(a := None)"
  have "node_ok ?h i n" if "a \<notin> set (channelList n)" "node_ok (chan_heap s) i n" for i n
  proof -
    have "map (\<lambda>b. length (pkts ?h b)) (channelList n) = map (\<lambda>b. length (pkts (chan_heap s) b)) (channelList n)"
      using that(1) by (auto simp: pkts_def)
    moreover have "chan_ok ?h i (ln_lcid n) b" if "b \<in> set (channelList n)" for b
      using that \<open>a \<notin> set (channelList n)\<close> \<open>node_ok (chan_heap s) i n\<close> by (auto simp: node_ok_def chan_ok_def)
    ultimately show ?thesis using that(2) by (simp add: node_ok_def del: fun_upd_apply map_eq_conv)
  qed
  then have "\<forall>j < 4. queue_ok ?h j (g_dtapScheduler s ! j)"
    using assms unfolding sched_ok_def queue_ok_def unlisted_def by (metis nth_mem)
  moreover have "heap_ok (s\<lparr>chan_heap := ?h\<rparr>)" using assms(1) by (auto simp: sched_ok_def heap_ok_def)
  ultimately show ?thesis using assms(1) by (simp add: sched_ok_def)
qed

lemma sched_ok_unique:
  "sched_ok s \<Longrightarrow> chan_heap s a = Some c \<Longrightarrow> chan_heap s b = Some d \<Longrightarrow> priority c = priority d \<Longrightarrow> priority c \<noteq> 0
    \<Longrightarrow> lcid c = lcid d \<Longrightarrow> srcTcid c = srcTcid d \<Longrightarrow> a = b"
  unfolding sched_ok_def heap_ok_def by blast

lemma sched_ok_only_node:
  assumes ok: "sched_ok s" and n: "i < 4" "n \<in> set (lcidList (g_dtapScheduler s ! i))" "a \<in> set (channelList n)"
    and k: "j < 4" "k \<in> set (lcidList (g_dtapScheduler s ! j))" "a \<in> set (channelList k)"
  shows "j = i \<and> k = n"
proof -
  have ch: "chan_ok (chan_heap s) i (ln_lcid n) a" "chan_ok (chan_heap s) j (ln_lcid k) a"
    using sched_ok_nodeD(1) [OF ok] n k by (auto simp: node_ok_def)
  then have "j = i" "ln_lcid k = ln_lcid n" by (auto simp: chan_ok_def)
  then show ?thesis using n(2) k(2) GetLcidNode_iff [OF sched_ok_nodeD(2) [OF ok n(1,2)]] by (metis option.inject)
qed

lemma unlisted_after:
  assumes ok: "sched_ok s" and n: "i < 4" "n \<in> set (lcidList (g_dtapScheduler s ! i))" "ln_lcid n = l" "a \<in> set (channelList n)"
  shows "unlisted a (node_upd i l (\<lambda>m. m\<lparr>channelList := remove1 a (channelList m)\<rparr>) s)"
  unfolding unlisted_def
proof (intro ballI notI)
  fix q k assume q: "q \<in> set (g_dtapScheduler (node_upd i l (\<lambda>m. m\<lparr>channelList := remove1 a (channelList m)\<rparr>) s))"
    and k: "k \<in> set (lcidList q)" "a \<in> set (channelList k)"
  have len: "length (g_dtapScheduler s) = 4" using ok by (simp add: sched_ok_def)
  note nd = sched_ok_nodeD [OF ok n(1,2)]
  obtain j where j: "j < 4" "q = (if j = i then (g_dtapScheduler s ! i)\<lparr>lcidList := ln_upd l (\<lambda>m. m\<lparr>channelList := remove1 a (channelList m)\<rparr>)
      (lcidList (g_dtapScheduler s ! i))\<rparr> else g_dtapScheduler s ! j)"
    using q len by (auto simp: node_upd_def q_upd_def in_set_conv_nth nth_list_update)
  show False
  proof (cases "j = i")
    case True
    then have "k \<in> set (ln_upd l (\<lambda>m. m\<lparr>channelList := remove1 a (channelList m)\<rparr>) (lcidList (g_dtapScheduler s ! i)))"
      using k(1) j(2) by simp
    from ln_upd_set [OF nd(2) this] show False
    proof
      assume "k \<in> set (lcidList (g_dtapScheduler s ! i)) \<and> ln_lcid k \<noteq> l"
      then show False using sched_ok_only_node [OF ok n(1,2,4) n(1)] k(2) n(3) by blast
    next
      assume "\<exists>m \<in> set (lcidList (g_dtapScheduler s ! i)). ln_lcid m = l \<and> k = m\<lparr>channelList := remove1 a (channelList m)\<rparr>"
      then obtain m where m: "m \<in> set (lcidList (g_dtapScheduler s ! i))" "k = m\<lparr>channelList := remove1 a (channelList m)\<rparr>" by blast
      have "distinct (channelList m)" using sched_ok_nodeD(1) [OF ok n(1) m(1)] by (simp add: node_ok_def)
      then show False using m(2) k(2) by simp
    qed
  next
    case False
    then show False using sched_ok_only_node [OF ok n(1,2,4) j(1)] k j(2) by auto
  qed
qed

lemma ln_upd_twice: "(\<And>n. ln_lcid (g n) = ln_lcid n) \<Longrightarrow> ln_upd l f (ln_upd l g ns) = ln_upd l (\<lambda>n. f (g n)) ns"
  by (induction ns) auto

lemma swap_updates:
  "(n::DTAP_LcidNode)\<lparr>ln_pktCnt := y, channelList := x\<rparr> = n\<lparr>channelList := x, ln_pktCnt := y\<rparr>"
  "(q::DTAP_PriorityQueue)\<lparr>q_pktCnt := k, lcidList := ns\<rparr> = q\<lparr>lcidList := ns, q_pktCnt := k\<rparr>"
  "(s::'a dp_state)\<lparr>g_dtapScheduler := g, chan_heap := h\<rparr> = s\<lparr>chan_heap := h, g_dtapScheduler := g\<rparr>"
  by simp_all

text \<open>The packets of one channel are dropped and it leaves the list of its link.\<close>

definition drop_chan :: "nat \<Rightarrow> u16 \<Rightarrow> nat \<Rightarrow> nat \<Rightarrow> 'a dp_state \<Rightarrow> 'a dp_state" where
  "drop_chan i l a cnt s = chan_upd a (\<lambda>c. c\<lparr>pktList := []\<rparr>)
     (q_upd i (\<lambda>q. q\<lparr>q_pktCnt := DTAP_SCHED_SUB (q_pktCnt q) cnt\<rparr>)
       (node_upd i l (\<lambda>n. n\<lparr>channelList := remove1 a (channelList n), ln_pktCnt := DTAP_SCHED_SUB (ln_pktCnt n) cnt\<rparr>) s))"

lemma drop_chan_ok:
  assumes ok: "sched_ok s" and n: "i < 4" "n \<in> set (lcidList (g_dtapScheduler s ! i))" "ln_lcid n = l"
    and a: "a \<in> set (channelList n)" "chan_heap s a = Some c"
  shows "sched_ok (drop_chan i l a (length (pktList c)) s)" "unlisted a (drop_chan i l a (length (pktList c)) s)"
    "data_chans (drop_chan i l a (length (pktList c)) s) = data_chans s"
proof -
  let ?k = "length (pktList c)"
  note nd = sched_ok_nodeD [OF ok n(1,2)]
  have len: "i < length (g_dtapScheduler s)" using ok n by (simp add: sched_ok_def)
  have cnt: "?k \<le> ln_pktCnt n" using node_ok_cnt_le [OF nd(1) a(1)] a by (auto simp: pkts_def)
  let ?g = "\<lambda>n. n\<lparr>ln_pktCnt := DTAP_SCHED_SUB (ln_pktCnt n) ?k\<rparr>" and ?f = "\<lambda>n. n\<lparr>channelList := remove1 a (channelList n)\<rparr>"
  let ?q = "(g_dtapScheduler s ! i)\<lparr>lcidList := ln_upd l (\<lambda>_. ?g n) (lcidList (g_dtapScheduler s ! i)),
    q_pktCnt := DTAP_SCHED_SUB (q_pktCnt (g_dtapScheduler s ! i)) ?k\<rparr>"
  let ?s = "s\<lparr>chan_heap := (chan_heap s)(a \<mapsto> c\<lparr>pktList := []\<rparr>), g_dtapScheduler := (g_dtapScheduler s)[i := ?q]\<rparr>"
  have sA: "sched_ok ?s"
    using nd cnt n by (intro sched_ok_change [OF ok n a, of "c\<lparr>pktList := []\<rparr>" "?g n" ?s ?q])
      (auto simp: node_ok_def DTAP_SCHED_SUB_def)
  have gn: "?g n \<in> set (lcidList (g_dtapScheduler ?s ! i))" "ln_lcid (?g n) = l" "a \<in> set (channelList (?g n))"
    using ln_upd_mem [OF n(2) nd(2), of l "\<lambda>_. ?g n"] n a len by auto
  have ha: "chan_heap ?s a = Some (c\<lparr>pktList := []\<rparr>)" by simp
  have eq: "drop_chan i l a ?k s = node_upd i l ?f ?s"
  proof -
    have "ln_upd l (\<lambda>_. ?g n) (lcidList (g_dtapScheduler s ! i)) = ln_upd l ?g (lcidList (g_dtapScheduler s ! i))"
      by (rule ln_upd_cong [OF n(2,3) nd(2)]) simp
    then show ?thesis using a(2) len
      by (simp add: drop_chan_def chan_upd_def node_upd_def q_upd_def ln_upd_twice swap_updates)
  qed
  show "sched_ok (drop_chan i l a ?k s)" unfolding eq by (rule sched_ok_unlink [OF sA n(1) gn ha]) simp
  show "unlisted a (drop_chan i l a ?k s)" unfolding eq by (rule unlisted_after [OF sA n(1) gn])
  show "data_chans (drop_chan i l a ?k s) = data_chans s"
    unfolding eq by (rule data_chans_put [OF a(2), of _ "[]"]) (simp add: node_upd_def)
qed

text \<open>What remains of a removal: the link node is dropped when it has no channel left.\<close>

lemma del_empty_ok:
  assumes ok: "sched_ok s" and i: "i < 4" and n: "DTAP_GetLcidNode (g_dtapScheduler s ! i) l = Some n"
  defines "t \<equiv> if channelList n = [] then q_upd i (\<lambda>q. q\<lparr>lcidList := ln_del l (lcidList q)\<rparr>) s else s"
  shows "sched_ok t" "data_chans t = data_chans s" "flow_of t = flow_of s" "\<And>j. j \<noteq> i \<Longrightarrow> g_dtapScheduler t ! j = g_dtapScheduler s ! j"
    "unlisted a s \<Longrightarrow> unlisted a t"
proof -
  have d: "distinct (map ln_lcid (lcidList (g_dtapScheduler s ! i)))" and len: "length (g_dtapScheduler s) = 4"
    using ok i by (simp_all add: sched_ok_def queue_ok_def)
  have n': "n \<in> set (lcidList (g_dtapScheduler s ! i))" "ln_lcid n = l" using n GetLcidNode_iff [OF d] by auto
  show "sched_ok t" using sched_ok_del_link [OF ok i n'] ok by (simp add: t_def)
  show "data_chans t = data_chans s" "flow_of t = flow_of s" "\<And>j. j \<noteq> i \<Longrightarrow> g_dtapScheduler t ! j = g_dtapScheduler s ! j"
    by (simp_all add: t_def q_upd_def flow_of_def data_chans_def fun_eq_iff)
  assume u: "unlisted a s"
  show "unlisted a t"
    unfolding unlisted_def
  proof (intro ballI)
    fix q k assume q: "q \<in> set (g_dtapScheduler t)" and k: "k \<in> set (lcidList q)"
    have "q \<in> set (g_dtapScheduler s) \<or> q = (g_dtapScheduler s ! i)\<lparr>lcidList := ln_del l (lcidList (g_dtapScheduler s ! i))\<rparr>"
      using q set_update_subset_insert [of "g_dtapScheduler s" i] by (auto simp: t_def q_upd_def split: if_splits)
    then have "k \<in> set (lcidList q) \<and> q \<in> set (g_dtapScheduler s) \<or> k \<in> set (lcidList (g_dtapScheduler s ! i))"
      using k ln_del_set [OF d, of l] by (elim disjE) simp_all
    moreover have "g_dtapScheduler s ! i \<in> set (g_dtapScheduler s)" using i len by simp
    ultimately show "a \<notin> set (channelList k)" using u unfolding unlisted_def by blast
  qed
qed

lemma down_proc_ok:
  assumes ok: "sched_ok s" and i: "i < 4"
  shows "\<exists>t. DTAP_ChannelDownProc i l tcid s = Some t \<and> sched_ok t \<and> data_chans t = data_chans s \<and> flow_of t = flow_of s
    \<and> (\<forall>j. j \<noteq> i \<longrightarrow> g_dtapScheduler t ! j = g_dtapScheduler s ! j)
    \<and> (\<forall>a c. chan_heap s a = Some c \<longrightarrow> priority c = i \<longrightarrow> i \<noteq> 0 \<longrightarrow> lcid c = l \<longrightarrow> srcTcid c = tcid \<longrightarrow> unlisted a t)"
proof -
  let ?q = "g_dtapScheduler s ! i" and ?P = "\<lambda>c. \<not> (lcid c \<noteq> l \<or> srcTcid c \<noteq> tcid)"
  have d: "distinct (map ln_lcid (lcidList ?q))" and len: "length (g_dtapScheduler s) = 4" and qp: "q_priority ?q = i"
    using ok i by (simp_all add: sched_ok_def queue_ok_def)
  have absent: "unlisted a s" if "chan_heap s a = Some c" "priority c = i" "lcid c = l"
    "\<And>n. n \<in> set (lcidList ?q) \<Longrightarrow> ln_lcid n = l \<Longrightarrow> a \<notin> set (channelList n)" for a c
  proof -
    note notin = that(4) and ch = that(1-3)
    have False if a: "j < 4" "k \<in> set (lcidList (g_dtapScheduler s ! j))" "a \<in> set (channelList k)" for j k
    proof -
      have "chan_ok (chan_heap s) j (ln_lcid k) a" using sched_ok_nodeD(1) [OF ok a(1,2)] a(3) by (simp add: node_ok_def)
      then show False using a notin [of k] ch by (auto simp: chan_ok_def)
    qed
    then show ?thesis using len unfolding unlisted_def in_set_conv_nth by (metis in_set_conv_nth)
  qed
  show ?thesis
  proof (cases "DTAP_GetLcidNode ?q l")
    case None
    have "DTAP_ChannelDownProc i l tcid s = Some s" using None by (simp add: DTAP_ChannelDownProc_def)
    moreover have "unlisted a s" if "chan_heap s a = Some c" "priority c = i" "lcid c = l" for a c
      using absent [OF that] None by (auto simp: GetLcidNode_None)
    ultimately show ?thesis using ok by blast
  next
    case (Some n)
    have n: "n \<in> set (lcidList ?q)" "ln_lcid n = l" using Some GetLcidNode_iff [OF d] by auto
    have nall: "\<forall>a \<in> set (channelList n). chan_heap s a \<noteq> None"
      using sched_ok_nodeD(1) [OF ok i n(1)] by (auto simp: node_ok_def chan_ok_def)
    consider (none) "find_chan (chan_heap s) ?P (channelList n) = Some None" "\<forall>a \<in> set (channelList n). \<forall>c. chan_heap s a = Some c \<longrightarrow> \<not> ?P c"
      | (some) a c where "find_chan (chan_heap s) ?P (channelList n) = Some (Some a)" "a \<in> set (channelList n)" "chan_heap s a = Some c" "?P c"
      using find_chan_safe [OF nall, of ?P] by blast
    then show ?thesis
    proof cases
      case none
      note e = del_empty_ok [OF ok i Some]
      have "unlisted a s" if "chan_heap s a = Some c" "priority c = i" "lcid c = l" "srcTcid c = tcid" for a c
        using that none(2) Some GetLcidNode_iff [OF d, of l] by (intro absent [OF that(1-3)] notI) (simp, metis option.inject)
      then show ?thesis using e none(1) Some by (simp add: DTAP_ChannelDownProc_def)
    next
      case (some a c)
      let ?k = "length (pktList c)"
      let ?D = "drop_chan i l a ?k s"
      let ?t3 = "if i = 0 then ?D\<lparr>chan_heap := (chan_heap ?D)(a := None)\<rparr> else ?D"
      let ?s1 = "?t3\<lparr>g_lcidBufferList := DTAP_DecLcidQueuedPktCnt l ?k (g_lcidBufferList s)\<rparr>"
      note D = drop_chan_ok [OF ok i n some(2,3)]
      have c: "priority c = i" "lcid c = l" using sched_ok_nodeD(1) [OF ok i n(1)] some(2,3) n(2) by (auto simp: node_ok_def chan_ok_def)
      have ok3: "sched_ok ?s1"
      proof -
        have "sched_ok ?t3" using D(1) sched_ok_free [OF D(1,2)] by auto
        then show ?thesis by (simp add: sched_ok_cong [of ?s1 ?t3])
      qed
      have d3: "data_chans ?s1 = data_chans s"
      proof -
        have "data_chans (?D\<lparr>chan_heap := (chan_heap ?D)(a := None)\<rparr>) = data_chans ?D" if "i = 0"
          by (rule ext) (use that c some(3) in \<open>auto simp: data_chans_def drop_chan_def chan_upd_def node_upd_def\<close>)
        moreover have "data_chans ?s1 = data_chans ?t3" by (rule data_chans_cong) simp
        ultimately show ?thesis using D(3) by auto
      qed
      have f3: "flow_of ?s1 = flow_of s"
        by (simp add: flow_of_def drop_chan_def chan_upd_def node_upd_def q_upd_def DTAP_DecLcidQueuedPktCnt_def bn_upd_view link_view_def)
      have u3: "unlisted a ?s1" using D(2) by (simp add: unlisted_def)
      have o3: "\<And>j. j \<noteq> i \<Longrightarrow> g_dtapScheduler ?s1 ! j = g_dtapScheduler s ! j"
        by (simp add: drop_chan_def chan_upd_def node_upd_def q_upd_def)
      have uniq: "b = a" if "chan_heap s b = Some e" "priority e = i" "i \<noteq> 0" "lcid e = l" "srcTcid e = tcid" for b e
        by (rule sched_ok_unique [OF ok that(1) some(3)]) (use that some(4) c in auto)
      obtain n1 where n1: "DTAP_GetLcidNode (g_dtapScheduler ?s1 ! i) l = Some n1"
      proof -
        let ?f = "\<lambda>n. n\<lparr>channelList := remove1 a (channelList n), ln_pktCnt := DTAP_SCHED_SUB (ln_pktCnt n) ?k\<rparr>"
        have "lcidList (g_dtapScheduler ?s1 ! i) = ln_upd l ?f (lcidList ?q)"
          using i len by (simp add: drop_chan_def chan_upd_def node_upd_def q_upd_def)
        moreover have "l \<in> set (map ln_lcid (ln_upd l ?f (lcidList ?q)))"
          using n by (subst ln_upd_lcids) auto
        ultimately have "DTAP_GetLcidNode (g_dtapScheduler ?s1 ! i) l \<noteq> None" by (auto simp: GetLcidNode_None)
        then show thesis using that by blast
      qed
      note e = del_empty_ok [OF ok3 i n1]
      have s1: "(let t1 = s\<lparr>g_lcidBufferList := DTAP_DecLcidQueuedPktCnt l ?k (g_lcidBufferList s)\<rparr>;
                     t2 = node_upd i l (\<lambda>n. n\<lparr>channelList := remove1 a (channelList n), ln_pktCnt := DTAP_SCHED_SUB (ln_pktCnt n) ?k\<rparr>) t1;
                     t3 = q_upd i (\<lambda>q. q\<lparr>q_pktCnt := DTAP_SCHED_SUB (q_pktCnt q) ?k\<rparr>) t2
                 in if q_priority (g_dtapScheduler s ! i) = 0 then t3\<lparr>chan_heap := (chan_heap t3)(a := None)\<rparr>
                    else chan_upd a (\<lambda>c. c\<lparr>pktList := []\<rparr>) t3) = ?s1"
        unfolding qp by (simp add: drop_chan_def chan_upd_def node_upd_def q_upd_def Let_def)
      have "DTAP_ChannelDownProc i l tcid s = Some (if channelList n1 = [] then q_upd i (\<lambda>q. q\<lparr>lcidList := ln_del l (lcidList q)\<rparr>) ?s1 else ?s1)"
        unfolding DTAP_ChannelDownProc_def Some option.case some(1) bind.bind_lunit Let_def some(3) s1 [unfolded Let_def] n1 ..
      then show ?thesis
      proof (intro exI conjI allI impI, assumption)
        fix j assume "j \<noteq> i"
        from trans [OF e(4) o3, OF this this] show "g_dtapScheduler (if channelList n1 = [] then q_upd i (\<lambda>q. q\<lparr>lcidList := ln_del l (lcidList q)\<rparr>) ?s1 else ?s1) ! j
          = g_dtapScheduler s ! j" .
      next
        fix b d assume "chan_heap s b = Some d" "priority d = i" "i \<noteq> 0" "lcid d = l" "srcTcid d = tcid"
        from uniq [OF this] e(5) [OF u3]
        show "unlisted b (if channelList n1 = [] then q_upd i (\<lambda>q. q\<lparr>lcidList := ln_del l (lcidList q)\<rparr>) ?s1 else ?s1)" by (simp only:)
      qed (rule e(1) trans [OF e(2) d3] trans [OF e(3) f3])+
    qed
  qed
qed

definition down_to :: "nat \<Rightarrow> u16 \<Rightarrow> u8 \<Rightarrow> 'a dp_state \<Rightarrow> 'a dp_state \<Rightarrow> bool" where
  "down_to i l tcid s t \<longleftrightarrow> sched_ok t \<and> data_chans t = data_chans s \<and> flow_of t = flow_of s
    \<and> (\<forall>j. j \<noteq> i \<longrightarrow> g_dtapScheduler t ! j = g_dtapScheduler s ! j)
    \<and> (\<forall>a c. chan_heap s a = Some c \<longrightarrow> priority c = i \<longrightarrow> i \<noteq> 0 \<longrightarrow> lcid c = l \<longrightarrow> srcTcid c = tcid \<longrightarrow> unlisted a t)"

lemma down_to_ex: "sched_ok s \<Longrightarrow> i < 4 \<Longrightarrow> \<exists>t. DTAP_ChannelDownProc i l tcid s = Some t \<and> down_to i l tcid s t"
  unfolding down_to_def by (rule down_proc_ok)

lemma down_toD:
  assumes "down_to i l tcid s t"
  shows "sched_ok t" "data_chans t = data_chans s" "flow_of t = flow_of s" "\<And>j. j \<noteq> i \<Longrightarrow> g_dtapScheduler t ! j = g_dtapScheduler s ! j"
    "\<And>a c. chan_heap s a = Some c \<Longrightarrow> i \<noteq> 0 \<Longrightarrow> priority c = i \<Longrightarrow> lcid c = l \<Longrightarrow> srcTcid c = tcid \<Longrightarrow> unlisted a t"
  using assms unfolding down_to_def by blast+

lemma channel_down_ok:
  assumes ok: "sched_ok s"
  shows "\<exists>t. DTAP_ChannelDown l tcid s = Some t \<and> sched_ok t \<and> data_chans t = data_chans s \<and> flow_of t = flow_of s
    \<and> (\<forall>a c. chan_heap s a = Some c \<longrightarrow> priority c \<noteq> 0 \<longrightarrow> lcid c = l \<longrightarrow> srcTcid c = tcid \<longrightarrow> unlisted a t)"
proof -
  obtain s0 where p0: "DTAP_ChannelDownProc 0 l DTAP_FRAGMENT_TCID s = Some s0" "down_to 0 l DTAP_FRAGMENT_TCID s s0"
    using down_to_ex [OF ok, of 0] by auto
  note s0 = down_toD [OF p0(2)]
  obtain s1 where p1: "DTAP_ChannelDownProc 1 l tcid s0 = Some s1" "down_to 1 l tcid s0 s1"
    using down_to_ex [OF s0(1), of 1] by auto
  note s1 = down_toD [OF p1(2)]
  obtain s2 where p2: "DTAP_ChannelDownProc 2 l tcid s1 = Some s2" "down_to 2 l tcid s1 s2"
    using down_to_ex [OF s1(1), of 2] by auto
  note s2 = down_toD [OF p2(2)]
  obtain t where p3: "DTAP_ChannelDownProc 3 l tcid s2 = Some t" "down_to 3 l tcid s2 t"
    using down_to_ex [OF s2(1), of 3] by auto
  note t = down_toD [OF p3(2)]
  have dc: "data_chans s0 = data_chans s" "data_chans s1 = data_chans s" "data_chans s2 = data_chans s" "data_chans t = data_chans s"
    using s0(2) s1(2) s2(2) t(2) by simp_all
  have live: "\<exists>d. chan_heap u a = Some d \<and> priority d = priority c \<and> lcid d = lcid c \<and> srcTcid d = srcTcid c"
    if "chan_heap s a = Some c" "priority c \<noteq> 0" "data_chans u = data_chans s" for a c u
    using fun_cong [OF that(3), of a] that(1,2)
    by (auto simp: data_chans_def split: option.splits if_splits dest!: arg_cong [of _ _ "\<lambda>c. (priority c, lcid c, srcTcid c)"])
  have "unlisted a t" if a: "chan_heap s a = Some c" "priority c \<noteq> 0" "lcid c = l" "srcTcid c = tcid" for a c
  proof -
    have fr: "i < 4 \<Longrightarrow> sched_ok u \<Longrightarrow> unlisted a u \<Longrightarrow> \<forall>n \<in> set (lcidList (g_dtapScheduler u ! i)). a \<notin> set (channelList n)" for u i
      unfolding unlisted_def sched_ok_def by (metis nth_mem)
    obtain d where d: "chan_heap t a = Some d" "priority d = priority c" using live [OF a(1,2) dc(4)] by blast
    have at: "a \<notin> set (channelList n)" if "n \<in> set (lcidList (g_dtapScheduler t ! j))" "j < 4" "j \<noteq> priority c" for j n
      using sched_ok_nodeD(1) [OF t(1) that(2,1)] that(3) d by (auto simp: node_ok_def chan_ok_def)
    have "priority c < 4" using ok a(1) by (simp add: sched_ok_def heap_ok_def)
    then consider "priority c = 1" | "priority c = 2" | "priority c = 3" using a(2) by linarith
    then have "\<forall>n \<in> set (lcidList (g_dtapScheduler t ! priority c)). a \<notin> set (channelList n)"
    proof cases
      case 1
      then have "unlisted a s1" using s1(5) live [OF a(1,2) dc(1)] a by auto
      moreover have "g_dtapScheduler t ! 1 = g_dtapScheduler s1 ! 1" using t(4) [of 1] s2(4) [of 1] by simp
      ultimately show ?thesis using 1 fr [of 1 s1] s1(1) by simp
    next
      case 2
      then have "unlisted a s2" using s2(5) live [OF a(1,2) dc(2)] a by auto
      then show ?thesis using 2 t(4) [of 2] fr [of 2 s2] s2(1) by simp
    next
      case 3
      then have "unlisted a t" using t(5) live [OF a(1,2) dc(3)] a by auto
      then show ?thesis using 3 fr [of 3 t] t(1) by simp
    qed
    moreover have "length (g_dtapScheduler t) = 4" using t(1) by (simp add: sched_ok_def)
    ultimately have "\<forall>j < length (g_dtapScheduler t). \<forall>n \<in> set (lcidList (g_dtapScheduler t ! j)). a \<notin> set (channelList n)"
      using at by metis
    then show ?thesis unfolding unlisted_def by (metis in_set_conv_nth)
  qed
  moreover have "DTAP_ChannelDown l tcid s = Some t" using p0(1) p1(1) p2(1) p3(1) by (simp add: DTAP_ChannelDown_def)
  moreover have "flow_of t = flow_of s" using s0(3) s1(3) s2(3) t(3) by simp
  ultimately show ?thesis using dc t(1) by blast
qed

section \<open>The entry points\<close>

lemma data_chans_live:
  assumes "sched_ok s" "data_chans s a \<noteq> None"
  shows "\<exists>c. chan_heap s a = Some c \<and> priority c \<noteq> 0 \<and> priority c < 4"
  using assms by (auto simp: data_chans_def sched_ok_def heap_ok_def split: option.splits if_splits)

lemma data_send_ok:
  assumes ok: "sched_ok s" and a: "data_chans s a \<noteq> None" and b: "buff_ok b" "DLI_HEADER \<le> SDF_BuffHeadRoom b"
  shows "\<exists>r t. DTAP_DataSendWithPriority e (Some a) (Some b) s = Some (r, t) \<and> sched_ok t \<and> data_chans t = data_chans s
    \<and> (r \<noteq> DTAP_SUCCESS \<longrightarrow> flow_of t = flow_of s)"
proof -
  obtain c where c: "chan_heap s a = Some c" "priority c \<noteq> 0" "priority c < 4" using data_chans_live [OF ok a] by blast
  show ?thesis
  proof (cases "\<not> g_isInited s \<or> q_pktCnt (g_dtapScheduler s ! priority c) \<ge> 10000")
    case True
    then show ?thesis using c ok by (auto simp: DTAP_DataSendWithPriority_def)
  next
    case False
    obtain r s1 where cp: "DTAP_CreatePacket (sub e 0) b s = (r, s1)" by fastforce
    have sq: "same_queues s s1" "flow_of s1 = flow_of s" "\<forall>p. r = Some p \<longrightarrow> pkt_ok (priority c) p"
      using cp b c(2) by (auto simp: DTAP_CreatePacket_def same_queues_def flow_of_def pkt_ok_def split: option.splits)
    have ok1: "sched_ok s1" "data_chans s1 = data_chans s" using same_queues_ok [OF sq(1)] ok by auto
    have c1: "chan_heap s1 a = Some c" using sq(1) c(1) by (simp add: same_queues_def)
    show ?thesis
    proof (cases r)
      case None
      then show ?thesis using False c cp ok1 sq(2) by (auto simp: DTAP_DataSendWithPriority_def)
    next
      case (Some p)
      have u: "only_chan s1 n c a" if "n \<in> set (lcidList (g_dtapScheduler s1 ! priority c))" for n
        by (rule only_chan_data [OF ok1(1) c(3,2) that c1 refl])
      have pp: "\<forall>q \<in> set [p]. pkt_ok (priority c) q" using sq(3) Some by simp
      have i0: "priority c = 0 \<longrightarrow> srcTcid c = DTAP_FRAGMENT_TCID" using c(2) by simp
      from push_ok [OF ok1(1) c(3) c1 refl i0, of "[p]" 1 "sub e 1"] u pp consider
        "DTAP_PriorityQueuePush (sub e 1) (priority c) a 1 s1 = Some (DTAP_TRANS_MALLOC_ERR, s1)"
        | s2 where "DTAP_PriorityQueuePush (sub e 1) (priority c) a 1 s1 = Some (DTAP_SUCCESS, s2)" "chan_heap s2 = chan_heap s1"
          "sched_ok (chan_upd a (\<lambda>d. d\<lparr>pktList := pktList d @ [p]\<rparr>) s2)" by auto
      then show ?thesis
      proof cases
        case 1
        then show ?thesis using False c cp ok1 sq(2) Some by (auto simp: DTAP_DataSendWithPriority_def)
      next
        case (2 s2)
        define s3 where "s3 = chan_upd a (\<lambda>d. d\<lparr>pktList := pktList d @ [p]\<rparr>) s2"
        define s4 where "s4 = (case DTAP_GetLcidBufferNode (g_lcidBufferList s3) (lcid c) of
                    None \<Rightarrow> s3
                  | Some n \<Rightarrow> if sendNotAckPktCnt n \<ge> quota n \<and> g_sendNotAckPktCnt s3 < g_apBufferNum s3 then recalc s3 else s3)"
        have "same_queues s3 s4" by (simp add: s4_def split: option.split)
        from same_queues_ok [OF this] 2(3) have ok4: "sched_ok s4" "data_chans s4 = data_chans s3" by (simp_all add: s3_def)
        have d3: "data_chans s3 = data_chans s1" using data_chans_upd data_chans_cong [OF 2(2)] unfolding s3_def by metis
        obtain t where t: "DTAP_SchedulerRun (sub e 2) s4 = Some t" "run_to s4 t" using scheduler_run [OF ok4(1)] by blast
        have "DTAP_DataSendWithPriority e (Some a) (Some b) s = Some (DTAP_SUCCESS, t)"
          using False c cp Some 2(1) t(1) [unfolded s4_def s3_def] by (simp add: DTAP_DataSendWithPriority_def Let_def)
        then show ?thesis using t(2) ok4 d3 ok1(2) by (auto simp: run_to_def)
      qed
    qed
  qed
qed

lemma send_complete_ok:
  assumes "sched_ok s"
  shows "\<exists>t. DTAP_SendCompleteCbk e h num s = Some t \<and> sched_ok t \<and> data_chans t = data_chans s"
proof (cases "DTAP_GetLcidBufferNode (g_lcidBufferList s) h")
  case (Some n)
  let ?s = "recalc (link_upd h (\<lambda>m. m\<lparr>sendNotAckPktCnt := DTAP_SCHED_SUB (sendNotAckPktCnt m) (unat num)\<rparr>)
            (s\<lparr>g_sendNotAckPktCnt := (if g_sendNotAckPktCnt s > num then g_sendNotAckPktCnt s - num else 0)\<rparr>))"
  have "same_queues s ?s" by (simp add: same_queues_def recalc_def link_upd_def)
  from same_queues_ok [OF this] assms have s: "sched_ok ?s" "data_chans ?s = data_chans s" by simp_all
  from scheduler_run [OF s(1), of e] obtain t where "DTAP_SchedulerRun e ?s = Some t" "run_to ?s t" by blast
  then show ?thesis using Some s by (auto simp: DTAP_SendCompleteCbk_def run_to_def)
qed (use assms in \<open>simp add: DTAP_SendCompleteCbk_def\<close>)

lemma link_events_same:
  "same_queues s (DTAP_DLIDataNumChangecbk isAcb num s)"
  "same_queues s (DTAP_DLIConnectCbk e status p s)"
  "same_queues s (DTAP_DLIDisconnectCbk p s)"
  by (auto simp: DTAP_DLIDataNumChangecbk_def DTAP_SetApBufferNum_def DTAP_DLIConnectCbk_def DTAP_DLIDisconnectCbk_def
      same_queues_def recalc_def Let_def split: option.splits prod.splits)

section \<open>Histories of the scheduler\<close>

text \<open>What the layers around it do to the scheduler, in the order they do it.\<close>

datatype sched_event =
    EvSend nat SDF_Buff
  | EvComplete u16 u8
  | EvDataNum bool u16
  | EvConnect nat "u16 option"
  | EvDisconnect "u16 option"
  | EvChannelDown u16 u8

fun sched_event_step :: "'r env \<Rightarrow> sched_event \<Rightarrow> 'a dp_state \<Rightarrow> 'a dp_state option" where
  "sched_event_step e (EvSend a b) s = map_option snd (DTAP_DataSendWithPriority e (Some a) (Some b) s)"
| "sched_event_step e (EvComplete h n) s = DTAP_SendCompleteCbk e h n s"
| "sched_event_step e (EvDataNum acb n) s = Some (DTAP_DLIDataNumChangecbk acb n s)"
| "sched_event_step e (EvConnect st p) s = Some (DTAP_DLIConnectCbk e st p s)"
| "sched_event_step e (EvDisconnect p) s = Some (DTAP_DLIDisconnectCbk p s)"
| "sched_event_step e (EvChannelDown l tcid) s = DTAP_ChannelDown l tcid s"

fun sched_events :: "'r env \<Rightarrow> nat \<Rightarrow> sched_event list \<Rightarrow> 'a dp_state \<Rightarrow> 'a dp_state option" where
  "sched_events e k [] s = Some s"
| "sched_events e k (ev # evs) s = sched_event_step (sub e k) ev s \<bind> sched_events e (Suc k) evs"

text \<open>A packet is sent on a channel that exists and has room for the link header.\<close>

fun event_ok :: "(nat \<Rightarrow> 'a DTAP_Channel option) \<Rightarrow> sched_event \<Rightarrow> bool" where
  "event_ok dc (EvSend a b) \<longleftrightarrow> dc a \<noteq> None \<and> buff_ok b \<and> DLI_HEADER \<le> SDF_BuffHeadRoom b"
| "event_ok dc ev \<longleftrightarrow> True"

lemma event_step_ok:
  assumes "sched_ok s" "event_ok (data_chans s) ev"
  shows "\<exists>t. sched_event_step e ev s = Some t \<and> sched_ok t \<and> data_chans t = data_chans s"
proof (cases ev)
  case (EvSend a b)
  then show ?thesis using data_send_ok [OF assms(1), of a b e] assms(2) by fastforce
next
  case (EvChannelDown l tcid)
  then show ?thesis using channel_down_ok [OF assms(1)] by fastforce
qed (use assms(1) send_complete_ok [OF assms(1)] in
    \<open>auto simp: link_events_same [THEN same_queues_ok(1)] link_events_same [THEN same_queues_ok(2)]\<close>)

lemma run_to_step:
  assumes "flow_step\<^sup>*\<^sup>* f g"
  shows "\<exists>ds. f_tasks g = f_tasks f @ ds \<and> unat (f_unacked g) = unat (f_unacked f) + length ds \<and> f_bufs g = f_bufs f
    \<and> (ds \<noteq> [] \<longrightarrow> f_unacked g \<le> f_bufs f)
    \<and> list_all2 (\<lambda>(l, q, c) (l', q', c'). l' = l \<and> q' = q \<and> c \<le> c' \<and> c' \<le> max c q) (f_links f) (f_links g)"
  using assms
proof (induction rule: rtranclp_induct)
  case base
  show ?case by (intro exI [of _ "[]"]) (auto simp: list_all2_conv_all_nth split: prod.split)
next
  case (step g h)
  let ?R = "\<lambda>(l :: u16, q :: nat, c :: nat) (l', q', c'). l' = l \<and> q' = q \<and> c \<le> c' \<and> c' \<le> max c q"
  have cnt: "link_room l gs \<Longrightarrow> list_all2 ?R fs gs \<Longrightarrow> list_all2 ?R fs (link_count l gs)" for l fs gs
    by (induction fs gs rule: list_induct2') (auto split: if_splits)
  from step.hyps(2) show ?case
  proof cases
    case (1 l d)
    obtain ds where ds: "f_tasks g = f_tasks f @ ds" "unat (f_unacked g) = unat (f_unacked f) + length ds" "f_bufs g = f_bufs f"
      "list_all2 ?R (f_links f) (f_links g)" using step.IH by auto
    show ?thesis
      using flow_step_counts [OF step.hyps(2)] ds 1 cnt [OF 1(3) ds(4)] by (intro exI [of _ "ds @ [d]"]) auto
  qed
qed

lemma events_ok:
  "sched_ok s \<Longrightarrow> \<forall>ev \<in> set evs. event_ok (data_chans s) ev \<Longrightarrow>
   \<exists>t. sched_events e k evs s = Some t \<and> sched_ok t \<and> data_chans t = data_chans s"
proof (induction evs arbitrary: s k)
  case (Cons ev evs)
  obtain t where t: "sched_event_step (sub e k) ev s = Some t" "sched_ok t" "data_chans t = data_chans s"
    using event_step_ok [of s ev "sub e k"] Cons.prems by auto
  then show ?case using Cons.IH [of t "Suc k"] Cons.prems by auto
qed simp

section \<open>A channel with a packet\<close>

definition demo_buff :: SDF_Buff where
  "demo_buff = \<lparr>buff_addr = 1, dataOff = 8, dataLen = 4, buffLen = 16, buff = replicate 16 0\<rparr>"

definition demo_chan :: "nat DTAP_Channel" where
  "demo_chan = \<lparr>pktList = [\<lparr>pkt_buff = demo_buff, pkt_seq = 0, isSplited = False\<rparr>], priority = DTAP_PRIORITY_NORMAL, ch_type = 0,
     lcid = 7, srcTcid = 1, dstTcid = 1, mode = 0, mtu = 0, mps = 0, castMode = 0, attr = None\<rparr>"

definition demo_sched :: "nat dp_state" where
  "demo_sched = \<lparr>chan_heap = [0 \<mapsto> demo_chan], chan_next = 1,
     g_dtapScheduler = [empty_queue 0, empty_queue 1, empty_queue 2,
       \<lparr>lcidList = [\<lparr>channelList = [0], hasScheduled = False, ln_lcid = 7, ln_priority = 3, ln_pktCnt = 1\<rparr>], q_priority = 3, q_pktCnt = 1\<rparr>],
     g_lcidBufferList = [\<lparr>bn_lcid = 7, quota = 2, lastQuota = 2, sendNotAckPktCnt = 0, queuedPktCnt = 1, windowBytes = 0, lastRateCalcTime = 0\<rparr>],
     g_sendNotAckPktCnt = 0, g_isInited = True, g_pktSeq = 1, g_apBufferNum = 2, dli = dli_start 100\<rparr>"

lemma demo_sched_ok: "sched_ok demo_sched"
proof -
  have q: "queue_ok (chan_heap demo_sched) i (g_dtapScheduler demo_sched ! i)" if "i < 4" for i
  proof -
    have "i = 0 \<or> i = 1 \<or> i = 2 \<or> i = 3" using that by linarith
    then show ?thesis
      by (auto simp: queue_ok_def demo_sched_def empty_queue_def node_ok_def chan_ok_def demo_chan_def pkts_def pkt_ok_def
          demo_buff_def buff_ok_def SDF_BuffHeadRoom_def)
  qed
  have "heap_ok demo_sched" by (auto simp: heap_ok_def demo_sched_def demo_chan_def split: if_splits)
  then show ?thesis using q by (simp add: sched_ok_def demo_sched_def)
qed

lemma demo_events_ok: "\<forall>ev \<in> set [EvSend 0 demo_buff, EvComplete 7 1, EvChannelDown 7 1]. event_ok (data_chans demo_sched) ev"
  by (simp add: data_chans_def demo_sched_def demo_chan_def demo_buff_def buff_ok_def SDF_BuffHeadRoom_def)

section \<open>Properties\<close>

text \<open>
  (C4) Scheduling implements the abstract sender: from a well-formed state a run of the scheduler ends
  without an invalid access in a well-formed state, everything it did to the flow-control counters and
  the data link is a sequence of steps of \<open>flow_step\<close> (a fragment leaves only while the controller has
  a free buffer and the link has quota), and the channels of the layers above change only in their
  pending packets.
\<close>

theorem scheduler_run_refines:
  assumes "sched_ok s"
  shows "\<exists>t. DTAP_SchedulerRun e s = Some t \<and> sched_ok t \<and> data_chans t = data_chans s \<and> flow_step\<^sup>*\<^sup>* (flow_of s) (flow_of t)"
  using scheduler_run [OF assms] assms by (auto simp: run_to_def)

theorem scheduler_run_refines_witness:
  "sched_ok demo_sched \<and> (\<exists>t. DTAP_SchedulerRun (granting_env DTAP_SUCCESS) demo_sched = Some t \<and> sched_ok t)"
  using scheduler_run_refines [OF demo_sched_ok] demo_sched_ok by blast

text \<open>
  (C19) The flow-control counters at their widths: a run appends the fragments it sends to the data
  link's queue, the 8-bit counter of unacknowledged fragments grows by exactly their number and so does
  not wrap, it never ends above the controller's buffers once something was sent, and no link is driven
  above its quota.
\<close>

theorem scheduler_flow_bounds:
  assumes "sched_ok s" "DTAP_SchedulerRun e s = Some t"
  shows "\<exists>ds. dli_tasks (dli t) = dli_tasks (dli s) @ ds \<and> unat (g_sendNotAckPktCnt t) = unat (g_sendNotAckPktCnt s) + length ds
    \<and> g_apBufferNum t = g_apBufferNum s \<and> (ds \<noteq> [] \<longrightarrow> g_sendNotAckPktCnt t \<le> g_apBufferNum s)
    \<and> list_all2 (\<lambda>n m. bn_lcid m = bn_lcid n \<and> quota m = quota n \<and> sendNotAckPktCnt n \<le> sendNotAckPktCnt m
          \<and> sendNotAckPktCnt m \<le> max (sendNotAckPktCnt n) (quota n)) (g_lcidBufferList s) (g_lcidBufferList t)"
proof -
  have "flow_step\<^sup>*\<^sup>* (flow_of s) (flow_of t)" using scheduler_run [OF assms(1), of e] assms(2) by (auto simp: run_to_def)
  from run_to_step [OF this] obtain ds where ds: "f_tasks (flow_of t) = f_tasks (flow_of s) @ ds"
    "unat (f_unacked (flow_of t)) = unat (f_unacked (flow_of s)) + length ds" "f_bufs (flow_of t) = f_bufs (flow_of s)"
    "ds \<noteq> [] \<longrightarrow> f_unacked (flow_of t) \<le> f_bufs (flow_of s)"
    "list_all2 (\<lambda>(l, q, c) (l', q', c'). l' = l \<and> q' = q \<and> c \<le> c' \<and> c' \<le> max c q) (f_links (flow_of s)) (f_links (flow_of t))"
    by blast
  then show ?thesis by (intro exI [of _ ds]) (simp add: flow_of_def list.rel_map link_view_def)
qed

theorem scheduler_flow_bounds_witness:
  "\<exists>t ds. DTAP_SchedulerRun (granting_env DTAP_SUCCESS) demo_sched = Some t \<and> dli_tasks (dli t) = ds
    \<and> unat (g_sendNotAckPktCnt t) = length ds \<and> length ds \<le> 2"
proof -
  obtain t where t: "DTAP_SchedulerRun (granting_env DTAP_SUCCESS) demo_sched = Some t" using scheduler_run [OF demo_sched_ok] by blast
  have d: "dli_tasks (dli demo_sched) = []" "g_sendNotAckPktCnt demo_sched = 0" "g_apBufferNum demo_sched = 2"
    by (simp_all add: demo_sched_def dli_start_def DLI_LayerInfoInit_def DLI_CmdNumSet_def)
  from scheduler_flow_bounds [OF demo_sched_ok t] d t show ?thesis
    by (auto simp: word_le_nat_alt) 
qed

text \<open>
  (C25) The scheduler can be driven by any sequence of packets, acknowledgements, link and buffer changes
  and channel removals: none of them reaches a dangling channel or a buffer access out of range, every
  one of them ends, and the state stays well-formed.
\<close>

theorem scheduler_never_stuck:
  assumes "sched_ok s" "\<forall>ev \<in> set evs. event_ok (data_chans s) ev"
  shows "\<exists>t. sched_events e k evs s = Some t \<and> sched_ok t \<and> data_chans t = data_chans s"
  by (rule events_ok [OF assms])

theorem scheduler_never_stuck_witness:
  "\<exists>t. sched_events (granting_env DTAP_SUCCESS) 0 [EvSend 0 demo_buff, EvComplete 7 1, EvChannelDown 7 1] demo_sched = Some t \<and> sched_ok t"
  using scheduler_never_stuck [OF demo_sched_ok demo_events_ok] by blast

text \<open> After \<open>DTAP_ChannelDown\<close> for a channel's link and tcid no queue refers to the channel any more, so
  freeing it leaves no dangling pointer: the state without the channel is well-formed.
\<close>

theorem channel_down_unlinks:
  assumes "sched_ok s" "chan_heap s a = Some c" "priority c \<noteq> DTAP_PRIORITY_FRAGMENT"
  shows "\<exists>t. DTAP_ChannelDown (lcid c) (srcTcid c) s = Some t \<and> sched_ok t \<and> unlisted a t
    \<and> sched_ok (t\<lparr>chan_heap := (chan_heap t)(a := None)\<rparr>)"
  using channel_down_ok [OF assms(1), of "lcid c" "srcTcid c"] assms(2,3) sched_ok_free by blast

theorem channel_down_unlinks_witness:
  "chan_heap demo_sched 0 = Some demo_chan \<and> (\<exists>t. DTAP_ChannelDown 7 1 demo_sched = Some t \<and> unlisted 0 t)"
proof -
  have c: "chan_heap demo_sched 0 = Some demo_chan" "priority demo_chan \<noteq> DTAP_PRIORITY_FRAGMENT" "lcid demo_chan = 7" "srcTcid demo_chan = 1"
    by (simp_all add: demo_sched_def demo_chan_def)
  from channel_down_unlinks [OF demo_sched_ok c(1,2)] c show ?thesis by auto
qed

end
