(* ===== verification/SDF_Map.thy ===== *)
theory SDF_Map
  imports Prelude
begin

text \<open>
  The map of the data structure library (\<open>sdf_map.c\<close>): a singly linked list of keys and values, newest
  first. The destructor calls of erased keys and values are left to the caller, who owns the values. A map
  pointer that is NULL is the caller's \<open>None\<close>.
\<close>

type_synonym ('k, 'v) SDF_Map = "('k \<times> 'v) list"

fun SDF_MapFind :: "('k, 'v) SDF_Map \<Rightarrow> 'k \<Rightarrow> 'v option" where
  "SDF_MapFind [] key = None"
| "SDF_MapFind ((k, v) # cur) key = (if k = key then Some v else SDF_MapFind cur key)"

definition SDF_MapMoveInsert :: "'r env \<Rightarrow> ('k, 'v) SDF_Map \<Rightarrow> 'k \<Rightarrow> 'v \<Rightarrow> bool \<times> ('k, 'v) SDF_Map" where
  "SDF_MapMoveInsert e m key val =
     (if SDF_MapFind m key \<noteq> None then (False, m)
      else case SDF_MemZalloc e of None \<Rightarrow> (False, m) | Some _ \<Rightarrow> (True, (key, val) # m))"

fun SDF_MapErase :: "('k, 'v) SDF_Map \<Rightarrow> 'k \<Rightarrow> bool \<times> ('k, 'v) SDF_Map" where
  "SDF_MapErase [] key = (False, [])"
| "SDF_MapErase ((k, v) # cur) key =
     (if k = key then (True, cur) else case SDF_MapErase cur key of (ok, cur') \<Rightarrow> (ok, (k, v) # cur'))"

text \<open>A store through the value pointer \<open>SDF_MapFind\<close> returned.\<close>

fun map_store :: "'k \<Rightarrow> 'v \<Rightarrow> ('k, 'v) SDF_Map \<Rightarrow> ('k, 'v) SDF_Map" where
  "map_store key v' [] = []"
| "map_store key v' ((k, v) # cur) = (if k = key then (k, v') # cur else (k, v) # map_store key v' cur)"

definition map_ok :: "('k, 'v) SDF_Map \<Rightarrow> bool" where
  "map_ok m \<longleftrightarrow> distinct (map fst m)"

section \<open>The interface of a map\<close>

text \<open>
  What a client of the map relies on: the result and the effect of every operation are determined by what
  lookups show. Any sequence of insertions and removals then returns the same results and makes the same
  changes as on a mathematical map, where a key is inserted when it is absent and a node can be allocated,
  and a removal reports whether the key was there.
\<close>

datatype ('k, 'v) map_op = MapInsert 'k 'v | MapErase 'k

fun map_spec :: "'r env \<Rightarrow> ('k, 'v) map_op \<Rightarrow> ('k \<rightharpoonup> 'v) \<Rightarrow> bool \<times> ('k \<rightharpoonup> 'v)" where
  "map_spec e (MapInsert k v) f = (if k \<notin> dom f \<and> SDF_MemZalloc e \<noteq> None then (True, f(k \<mapsto> v)) else (False, f))"
| "map_spec e (MapErase k) f = (k \<in> dom f, f(k := None))"

fun map_spec_run :: "('r env \<times> ('k, 'v) map_op) list \<Rightarrow> ('k \<rightharpoonup> 'v) \<Rightarrow> bool list \<times> ('k \<rightharpoonup> 'v)" where
  "map_spec_run [] f = ([], f)"
| "map_spec_run ((e, op) # ops) f = (case map_spec e op f of (b, f1) \<Rightarrow> case map_spec_run ops f1 of (bs, f2) \<Rightarrow> (b # bs, f2))"

locale map_interface =
  fixes ok :: "'m \<Rightarrow> bool"
    and lookup :: "'m \<Rightarrow> 'k \<Rightarrow> 'v option"
    and ins :: "'r env \<Rightarrow> 'm \<Rightarrow> 'k \<Rightarrow> 'v \<Rightarrow> bool \<times> 'm"
    and del :: "'m \<Rightarrow> 'k \<Rightarrow> bool \<times> 'm"
  assumes ins_ok: "ok m \<Longrightarrow> ok (snd (ins e m k v))"
    and del_ok: "ok m \<Longrightarrow> ok (snd (del m k))"
    and ins_lookup: "ok m \<Longrightarrow> lookup (snd (ins e m k v)) = (if fst (ins e m k v) then (lookup m)(k \<mapsto> v) else lookup m)"
    and ins_result: "fst (ins e m k v) \<longleftrightarrow> lookup m k = None \<and> SDF_MemZalloc e \<noteq> None"
    and del_lookup: "ok m \<Longrightarrow> lookup (snd (del m k)) = (lookup m)(k := None)"
    and del_found: "fst (del m k) \<longleftrightarrow> lookup m k \<noteq> None"
begin

fun exec_op :: "'r env \<Rightarrow> ('k, 'v) map_op \<Rightarrow> 'm \<Rightarrow> bool \<times> 'm" where
  "exec_op e (MapInsert k v) m = ins e m k v"
| "exec_op e (MapErase k) m = del m k"

fun run :: "('r env \<times> ('k, 'v) map_op) list \<Rightarrow> 'm \<Rightarrow> bool list \<times> 'm" where
  "run [] m = ([], m)"
| "run ((e, op) # ops) m = (case exec_op e op m of (b, m1) \<Rightarrow> case run ops m1 of (bs, m2) \<Rightarrow> (b # bs, m2))"

lemma exec_refines:
  assumes "ok m" "exec_op e op m = (b, m1)"
  shows "ok m1" "map_spec e op (lookup m) = (b, lookup m1)"
proof -
  have "ok m1 \<and> map_spec e op (lookup m) = (b, lookup m1)"
  proof (cases op)
    case (MapInsert k v)
    then show ?thesis
      using assms ins_ok [OF assms(1), of e k v] ins_lookup [OF assms(1), of e k v] ins_result [of e m k v] by auto
  next
    case (MapErase k)
    then show ?thesis
      using assms del_ok [OF assms(1), of k] del_lookup [OF assms(1), of k] del_found [of m k] by auto
  qed
  then show "ok m1" "map_spec e op (lookup m) = (b, lookup m1)" by blast+
qed

lemma run_refines: "ok m \<Longrightarrow> run ops m = (bs, m') \<Longrightarrow> ok m' \<and> map_spec_run ops (lookup m) = (bs, lookup m')"
proof (induction ops arbitrary: m bs m')
  case (Cons a ops)
  obtain e op where a: "a = (e, op)" by fastforce
  obtain b m1 bs1 where r: "exec_op e op m = (b, m1)" "run ops m1 = (bs1, m')" "bs = b # bs1"
    using Cons.prems(2) a by (auto split: prod.splits)
  show ?case using exec_refines [OF Cons.prems(1) r(1)] Cons.IH [OF _ r(2)] a r(3) by simp
qed auto

end

section \<open>The list is a map\<close>

lemma find_map_of: "SDF_MapFind m k = map_of m k"
  by (induction m k rule: SDF_MapFind.induct) auto

lemma erase_keys: "set (map fst (snd (SDF_MapErase m k))) \<subseteq> set (map fst m)"
proof (induction m k rule: SDF_MapErase.induct)
  case (2 k v cur key)
  then show ?case by (cases "SDF_MapErase cur key") auto
qed simp

lemma erase_lookup: "map_ok m \<Longrightarrow> SDF_MapFind (snd (SDF_MapErase m k)) = (SDF_MapFind m)(k := None)"
proof (induction m k rule: SDF_MapErase.induct)
  case (2 k v cur key)
  have "map_ok cur" "SDF_MapFind cur k = None" using 2(2) by (auto simp: map_ok_def find_map_of map_of_eq_None_iff)
  then show ?case using 2(1) by (auto split: prod.splits)
qed auto

lemma erase_ok: "map_ok m \<Longrightarrow> map_ok (snd (SDF_MapErase m k))"
proof (induction m k rule: SDF_MapErase.induct)
  case (2 k v cur key)
  then show ?case using erase_keys [of cur key] by (fastforce simp: map_ok_def split: prod.splits)
qed simp

interpretation sdf_map: map_interface map_ok SDF_MapFind SDF_MapMoveInsert SDF_MapErase
proof
  fix m :: "('k, 'v) SDF_Map" and e :: "'r env" and k v
  assume "map_ok m"
  then show "map_ok (snd (SDF_MapMoveInsert e m k v))"
    by (auto simp: SDF_MapMoveInsert_def map_ok_def find_map_of map_of_eq_None_iff split: option.splits)
next
  fix m :: "('k, 'v) SDF_Map" and k
  show "fst (SDF_MapErase m k) \<longleftrightarrow> SDF_MapFind m k \<noteq> None"
    by (induction m k rule: SDF_MapErase.induct) (auto split: prod.splits)
qed (auto simp: SDF_MapMoveInsert_def erase_lookup erase_ok split: option.splits if_splits)

lemma map_store_find: "SDF_MapFind (map_store k v' m) key = (if key = k \<and> SDF_MapFind m k \<noteq> None then Some v' else SDF_MapFind m key)"
  by (induction m) (auto split: if_splits)

lemma map_store_keys: "map fst (map_store k v m) = map fst m"
  by (induction m) auto

lemma map_store_ok [simp]: "map_ok (map_store k v m) = map_ok m"
  by (simp add: map_ok_def map_store_keys)

section \<open>Properties\<close>

text \<open>
  (C31) The library map implements a mathematical map: every sequence of insertions and removals, with any
  outcome of the allocations, returns exactly the results and leaves exactly the content of the same
  sequence on a mathematical map, where an insertion succeeds if and only if the key is absent and the
  allocation succeeds, and a removal succeeds if and only if the key is present; every key is stored at
  most once.
\<close>

theorem sdf_map_refines:
  assumes "map_ok m" "sdf_map.run ops m = (bs, m')"
  shows "map_ok m' \<and> map_spec_run ops (SDF_MapFind m) = (bs, SDF_MapFind m')"
  using sdf_map.run_refines [OF assms] .

theorem sdf_map_refines_witness:
  "\<exists>m'. sdf_map.run [(granting_env True, MapInsert 1 10), (granting_env True, MapInsert 1 11), (granting_env True, MapErase 2), (granting_env True, MapErase 2)]
      [(2 :: nat, 20 :: nat)] = ([True, False, True, False], m') \<and> SDF_MapFind m' = [1 \<mapsto> 10]"
proof -
  let ?ops = "[(granting_env True, MapInsert 1 10), (granting_env True, MapInsert 1 11), (granting_env True, MapErase 2), (granting_env True, MapErase 2)]"
  obtain bs m' where r: "sdf_map.run ?ops [(2 :: nat, 20 :: nat)] = (bs, m')" by fastforce
  have "SDF_MapFind [(2 :: nat, 20 :: nat)] = [2 \<mapsto> 20]" by (simp add: fun_eq_iff)
  then have "map_spec_run ?ops (SDF_MapFind [(2 :: nat, 20 :: nat)]) = ([True, False, True, False], [2 \<mapsto> 20, 1 \<mapsto> 10](2 := None))" by simp
  moreover have "[2 \<mapsto> 20, 1 \<mapsto> 10](2 := None) = [1 :: nat \<mapsto> 10 :: nat]" by (simp add: fun_eq_iff)
  ultimately show ?thesis using sdf_map_refines [OF _ r] r by (simp add: map_ok_def)
qed

end
