(* ===== verification/Dtap_Trans.thy ===== *)
theory Dtap_Trans
  imports Dtap_Sched_Run SDF_Map
begin

text \<open>
  What the transport modes share (\<open>dtap_trans.c\<close>, \<open>dtap_channel.h\<close>): the attributes of a channel per
  mode, frame sequence numbers, timers, and the state of the DTAP module the modes work on.
\<close>

section \<open>Sequence numbers\<close>

definition DTAP_IsFrameSeqSmaller :: "u16 \<Rightarrow> u16 \<Rightarrow> bool" where
  "DTAP_IsFrameSeqSmaller own other \<longleftrightarrow> (own - other) AND DTAP_FRAME_SEQ_SIGN_MASK = DTAP_FRAME_SEQ_SIGN_MASK"

definition DTAP_GetNextFrameSeq :: "u16 \<Rightarrow> u16" where
  "DTAP_GetNextFrameSeq seq = (let nextSeq = seq + 1 in if nextSeq > DTAP_FRAME_SEQ_MAX then 0 else nextSeq)"

section \<open>Attributes of a channel\<close>

record DTAP_BasicCacheFrame =
  cf_buff :: SDF_Buff
  cf_info :: DTAP_Data_Info
  cf_recvCb :: "nat option"

record DTAP_Basic_Channel =
  isReady :: bool
  cacheRxBuffs :: "DTAP_BasicCacheFrame list"

record DTAP_TxWindow =
  tw_size :: nat
  nextTxSeq :: u16
  expectedAckSeq :: u16
  txList :: "DTAP_Frame list"

record DTAP_RxWindow =
  rw_size :: nat
  bufferSeq :: u16
  expectedTxSeq :: u16
  maxExpectedTxSeq :: u16
  rxList :: "DTAP_Frame list"

record StreamRxNode =
  sn_sar :: u8
  sn_txSeq :: u16
  sn_buff :: SDF_Buff
  sn_timeStamp :: nat
  sn_pi :: u8
  sn_lcid :: u16
  sn_tcid :: u8

record DTAP_Stream_Channel =
  st_flushTimeout :: nat
  st_reorderTimeout :: nat
  st_crcInit :: u16
  reorderTxSeq :: u16
  expectedSeq :: u16
  maxExpectedSeq :: u16
  frameTxSeq :: u16
  reorderTimerHandle :: int
  st_rxList :: "StreamRxNode list"
  st_recvCb :: "nat option"

record DTAP_ReliableChannel =
  rc_reorderTimeout :: nat
  rc_crcInit :: u16
  rc_retransTimeout :: nat
  rc_rspTimeout :: nat
  maxTxThreshold :: nat
  reorderTimer :: int
  retransTimer :: int
  rspTimer :: int
  isRecvFrame :: bool
  isRxWindowFull :: bool
  reTxSeq :: u16
  txWindow :: DTAP_TxWindow
  nackCnt :: u8
  rxWindow :: DTAP_RxWindow
  frags :: "SDF_Buff option"
  cachePi :: u8
  cacheBuff :: "SDF_Buff option"
  sendPollingCounter :: nat
  isTxWindowFull :: bool
  isDestroyMsgSent :: bool

text \<open>The transparent mode has no attributes: there \<open>attr\<close> stays NULL.\<close>

datatype trans_attr = BasicAttr DTAP_Basic_Channel | StreamAttr DTAP_Stream_Channel | ReliableAttr DTAP_ReliableChannel

type_synonym channel = "trans_attr DTAP_Channel"

abbreviation (input) CM_TRANS_MODE_BASIC :: nat where "CM_TRANS_MODE_BASIC \<equiv> 0"
abbreviation (input) CM_TRANS_MODE_TRANSPARENT :: nat where "CM_TRANS_MODE_TRANSPARENT \<equiv> 1"
abbreviation (input) CM_TRANS_MODE_STREAM :: nat where "CM_TRANS_MODE_STREAM \<equiv> 2"
abbreviation (input) CM_TRANS_MODE_RELIABLE :: nat where "CM_TRANS_MODE_RELIABLE \<equiv> 3"
abbreviation (input) INVALID_TIMER_HANDLE :: int where "INVALID_TIMER_HANDLE \<equiv> - 1"

section \<open>The module\<close>

datatype timer_kind = RspTimer | RetransTimer | ReorderTimer | StreamReorderTimer

text \<open>
  \<open>links\<close> is the map of logical links (NULL before the module is initialised), each with the addresses
  of its channels; the other globals are the callback tables of \<open>dtap.c\<close>. What leaves the module is
  logged: the calls of the receive callbacks, the status callbacks, the requests to release a
  transport channel and the timers started with their timeout. A callback answers with an error code and
  does not call back into the module.
\<close>

record dtap =
  dp :: "trans_attr dp_state"
  g_dtapLogicLinksMap :: "(u16, nat list) SDF_Map option"
  g_dtapRecvCbks :: "(u8 \<times> nat) list"
  g_dtapProtoRecvCbks :: "nat option list"
  g_dtapDataSendCbks :: "nat option"
  g_dtapIsInited :: bool
  ups :: "upcall list"
  status_log :: "(nat \<times> u16 \<times> u8 \<times> nat) list"
  release_log :: "(u16 \<times> u8 \<times> u8) list"
  timer_log :: "(timer_kind \<times> u16 \<times> u8 \<times> nat) list"

definition DTAP_SendFrame :: "'r env \<Rightarrow> nat \<Rightarrow> SDF_Buff option \<Rightarrow> dtap \<Rightarrow> (DTAP_errno \<times> dtap) option" where
  "DTAP_SendFrame e a b d = do {
     (ret, s) \<leftarrow> DTAP_DataSendWithPriority e (Some a) b (dp d);
     Some (if ret \<noteq> DTAP_SUCCESS then DTAP_FRAME_SEND_DLI_SEND_ERR else DTAP_SUCCESS, d\<lparr>dp := s\<rparr>)
   }"

section \<open>Timers\<close>

text \<open>The handle after the call; a timer that cannot be created leaves the handle as it was.\<close>

definition DTAP_TransStartTimer :: "'r env \<Rightarrow> timer_kind \<Rightarrow> channel \<Rightarrow> nat \<Rightarrow> int \<Rightarrow> dtap \<Rightarrow> bool \<times> int \<times> dtap" where
  "DTAP_TransStartTimer e kind c expire timer d =
     (case CP_TimerAdd e of
        None \<Rightarrow> (False, timer, d)
      | Some h \<Rightarrow> (True, h, d\<lparr>timer_log := timer_log d @ [(kind, lcid c, srcTcid c, expire)]\<rparr>))"

definition DTAP_TransStopTimer :: "int \<Rightarrow> int" where
  "DTAP_TransStopTimer timer = (if timer = INVALID_TIMER_HANDLE then timer else INVALID_TIMER_HANDLE)"

definition DTAP_TransRestartTimer :: "'r env \<Rightarrow> timer_kind \<Rightarrow> channel \<Rightarrow> nat \<Rightarrow> int \<Rightarrow> dtap \<Rightarrow> bool \<times> int \<times> dtap" where
  "DTAP_TransRestartTimer e kind c expire timer d =
     DTAP_TransStartTimer e kind c expire (DTAP_TransStopTimer timer) d"

section \<open>Circular order\<close>

text \<open>The number of steps of \<open>DTAP_GetNextFrameSeq\<close> from one sequence number to another.\<close>

abbreviation seq_ok :: "u16 \<Rightarrow> bool" where "seq_ok s \<equiv> unat s < 16384"

definition seq_add :: "u16 \<Rightarrow> nat \<Rightarrow> u16" where
  "seq_add s n = of_nat ((unat s + n) mod 16384)"

definition seq_dist :: "u16 \<Rightarrow> u16 \<Rightarrow> nat" where
  "seq_dist s t = (unat t + 16384 - unat s) mod 16384"

lemma unat_seq_add: "unat (seq_add s n) = (unat s + n) mod 16384"
proof -
  have "(unat s + n) mod 16384 < 65536" by (rule less_trans [OF mod_less_divisor]) simp_all
  then show ?thesis by (simp add: seq_add_def unsigned_of_nat take_bit_eq_mod)
qed

lemma seq_eq_iff: "(s :: u16) = t \<longleftrightarrow> unat s = unat t"
  by (rule word_eq_iff_unsigned)

lemma seq_ok_add [simp]: "seq_ok (seq_add s n)"
  by (simp add: unat_seq_add)

lemma seq_add_0 [simp]: "seq_ok s \<Longrightarrow> seq_add s 0 = s"
  by (simp add: seq_eq_iff unat_seq_add)

lemma seq_add_add [simp]: "seq_add (seq_add s m) n = seq_add s (m + n)"
  by (simp add: seq_eq_iff unat_seq_add mod_add_left_eq add.assoc)

lemma unat_Suc: "unat s < 65535 \<Longrightarrow> unat (s + 1 :: u16) = unat s + 1"
  by (simp add: unat_word_ariths)

lemma DTAP_GetNextFrameSeq_eq: "seq_ok s \<Longrightarrow> DTAP_GetNextFrameSeq s = seq_add s 1"
  by (auto simp: DTAP_GetNextFrameSeq_def Let_def seq_eq_iff unat_seq_add unat_Suc word_less_nat_alt mod_if)

lemma seq_dist_lt [simp]: "seq_dist s t < 16384"
  by (simp add: seq_dist_def)

lemma seq_add_dist: "seq_ok s \<Longrightarrow> seq_ok t \<Longrightarrow> seq_add s (seq_dist s t) = t"
  by (simp add: seq_eq_iff unat_seq_add seq_dist_def mod_add_right_eq)

lemma seq_dist_add: "seq_ok s \<Longrightarrow> seq_dist s (seq_add s n) = n mod 16384"
proof -
  assume "seq_ok s"
  then have "(unat s + n) mod 16384 + 16384 - unat s = (unat s + n) mod 16384 + (16384 - unat s)" by simp
  then have "seq_dist s (seq_add s n) = ((unat s + n) + (16384 - unat s)) mod 16384"
    by (simp only: seq_dist_def unat_seq_add mod_add_left_eq)
  then show ?thesis using \<open>seq_ok s\<close> by simp
qed

text \<open>With 14-bit numbers the sign bit says whether the first is at most half the circle behind the second.\<close>

lemma DTAP_IsFrameSeqSmaller_eq:
  assumes "seq_ok s" "seq_ok t"
  shows "DTAP_IsFrameSeqSmaller s t \<longleftrightarrow> 1 \<le> seq_dist s t \<and> seq_dist s t \<le> 8192"
proof -
  have "DTAP_IsFrameSeqSmaller s t \<longleftrightarrow> bit (s - t) 13"
  proof -
    have "w AND 2 ^ n = 2 ^ n \<longleftrightarrow> bit w n" if "n < 16" for n and w :: u16
      using that by (auto simp: bit_eq_iff [of _ "2 ^ n"] bit_simps)
    from this [of 13 "s - t"] show ?thesis unfolding DTAP_IsFrameSeqSmaller_def by simp
  qed
  also have "\<dots> \<longleftrightarrow> odd (unat (s - t) div 8192)" 
  proof -
    have "bit (s - t) 13 \<longleftrightarrow> bit (unat (s - t)) 13" by (simp add: bit_unsigned_iff)
    then show ?thesis by (simp add: bit_iff_odd)
  qed
  also have "\<dots> \<longleftrightarrow> 1 \<le> seq_dist s t \<and> seq_dist s t \<le> 8192"
  proof (cases "unat t \<le> unat s")
    case True
    define z where "z = unat s - unat t"
    have z: "unat (s - t) = z" "z < 16384" using True assms by (simp_all add: z_def unat_sub_if_size)
    have "seq_dist s t = (if z = 0 then 0 else 16384 - z)"
      using True assms by (auto simp: seq_dist_def z_def le_mod_geq)
    moreover have "z div 8192 = (if z < 8192 then 0 else 1)" using z(2) by (simp add: div_eq_0_iff div_nat_eqI)
    ultimately show ?thesis using z by auto
  next
    case False
    define w where "w = unat t - unat s"
    have w: "unat (s - t) = 65536 - w" "1 \<le> w" "w < 16384" using False assms by (auto simp: w_def unat_sub_if_size word_size)
    have "seq_dist s t = w" using False assms by (simp add: seq_dist_def w_def mod_if)
    moreover have "(65536 - w) div 8192 = (if w \<le> 8192 then 7 else 6)" using w(2,3) by (auto intro!: div_nat_eqI)
    ultimately show ?thesis using w by auto
  qed
  finally show ?thesis .
qed

end
