(* ===== verification/Dtap_Reliable.thy ===== *)
theory Dtap_Reliable
  imports Dtap_Trans
begin

text \<open>
  The reliable transport mode (\<open>dtap_trans_reliable.c\<close>) and the part of \<open>dtap.c\<close> that resends the packet
  cached while the send window was full. An operation works on the attributes \<open>r\<close> of one channel, which
  the caller reads from the channel and stores back, and on the module; the channel itself (address
  \<open>a\<close>, object \<open>c\<close>) only supplies its link, transport identifiers and sizes.
\<close>

abbreviation (input) SEND_POLLING_CNT_THRESHOLD_FACTOR :: nat where "SEND_POLLING_CNT_THRESHOLD_FACTOR \<equiv> 4"
abbreviation (input) MAX_BASE_RETRANS_TIMEOUT :: nat where "MAX_BASE_RETRANS_TIMEOUT \<equiv> 15"

abbreviation tw_upd :: "(DTAP_TxWindow \<Rightarrow> DTAP_TxWindow) \<Rightarrow> DTAP_ReliableChannel \<Rightarrow> DTAP_ReliableChannel" where
  "tw_upd f r \<equiv> r\<lparr>txWindow := f (txWindow r)\<rparr>"

abbreviation rw_upd :: "(DTAP_RxWindow \<Rightarrow> DTAP_RxWindow) \<Rightarrow> DTAP_ReliableChannel \<Rightarrow> DTAP_ReliableChannel" where
  "rw_upd f r \<equiv> r\<lparr>rxWindow := f (rxWindow r)\<rparr>"

section \<open>Acknowledgements and timers\<close>

definition ack_frame :: "DTAP_ReliableChannel \<Rightarrow> bool \<Rightarrow> bool \<Rightarrow> DTAP_Frame" where
  "ack_frame r fBit sBit = zero_frame\<lparr>f_bits := (if fBit then DTAP_FRAME_C_BIT OR DTAP_FRAME_F_BIT else DTAP_FRAME_C_BIT),
     ack_sBit := sBit, ack_reqSeq := (if sBit then expectedTxSeq (rxWindow r) else bufferSeq (rxWindow r))\<rparr>"

definition DTAP_SendAckFrame :: "'r env \<Rightarrow> nat \<Rightarrow> channel \<Rightarrow> DTAP_ReliableChannel \<Rightarrow> bool \<Rightarrow> bool \<Rightarrow> dtap \<Rightarrow> (DTAP_errno \<times> dtap) option" where
  "DTAP_SendAckFrame e a c r fBit sBit d =
     (case DTAP_GetFrameCtx DTAP_FRAME_ACK of
        None \<Rightarrow> Some (DTAP_TRANS_RELIABLE_GET_CTX_ERR, d)
      | Some ctx \<Rightarrow> do {
          (ret, fr) \<leftarrow> buildFrame (sub e 0) ctx ((ack_frame r fBit sBit)\<lparr>f_ctx := ctx\<rparr>) (dstTcid c) (rc_crcInit r);
          if ret \<noteq> DTAP_SUCCESS then Some (ret, d) else DTAP_SendFrame (sub e 1) a (f_buff fr) d
        })"

definition restart_rsp :: "'r env \<Rightarrow> channel \<Rightarrow> DTAP_ReliableChannel \<Rightarrow> dtap \<Rightarrow> DTAP_ReliableChannel \<times> dtap" where
  "restart_rsp e c r d = (case DTAP_TransRestartTimer e RspTimer c (rc_rspTimeout r) (rspTimer r) d of
     (ok, h, d') \<Rightarrow> (r\<lparr>rspTimer := h\<rparr>, d'))"

definition restart_retrans :: "'r env \<Rightarrow> channel \<Rightarrow> nat \<Rightarrow> DTAP_ReliableChannel \<Rightarrow> dtap \<Rightarrow> DTAP_ReliableChannel \<times> dtap" where
  "restart_retrans e c expire r d = (case DTAP_TransRestartTimer e RetransTimer c expire (retransTimer r) d of
     (ok, h, d') \<Rightarrow> (r\<lparr>retransTimer := h\<rparr>, d'))"

definition DTAP_RspTimerExpireProc :: "'r env \<Rightarrow> nat \<Rightarrow> channel \<Rightarrow> DTAP_ReliableChannel \<Rightarrow> dtap \<Rightarrow> dtap option" where
  "DTAP_RspTimerExpireProc e a c r d = do { (ret, d') \<leftarrow> DTAP_SendAckFrame e a c r False False d; Some d' }"

section \<open>Checks on a received frame\<close>

definition DTAP_FindFrameBySeq :: "DTAP_Frame list \<Rightarrow> u16 \<Rightarrow> DTAP_Frame option" where
  "DTAP_FindFrameBySeq fs seq = find (\<lambda>fr. txSeq fr = seq) fs"

definition DTAP_CheckEnhanceFrameTxSeq :: "DTAP_RxWindow \<Rightarrow> u16 \<Rightarrow> bool" where
  "DTAP_CheckEnhanceFrameTxSeq w seq =
     (if DTAP_IsFrameSeqSmaller seq (expectedTxSeq w) then False
      else if seq = expectedTxSeq w then True
      else let boundarySeq = (bufferSeq w + of_nat (rw_size w)) AND DTAP_FRAME_SEQ_MAX in
        if \<not> DTAP_IsFrameSeqSmaller seq boundarySeq then False
        else DTAP_FindFrameBySeq (rxList w) seq = None)"

definition DTAP_CheckEnhanceFrame :: "DTAP_ReliableChannel \<Rightarrow> DTAP_Frame \<Rightarrow> bool option" where
  "DTAP_CheckEnhanceFrame r fr =
     (let frameType = getFrameType (f_ctx fr) in
      if \<not> (DTAP_FRAME_SIMPLEX_AGGR \<le> frameType \<and> frameType \<le> DTAP_FRAME_ACK) then Some False
      else do {
        b \<leftarrow> f_buff fr;
        if CRC16 (rc_crcInit r) (buff_data b) \<noteq> 0 then Some False
        else if frameType = DTAP_FRAME_ACK then Some True
        else Some (DTAP_CheckEnhanceFrameTxSeq (rxWindow r) (txSeq fr))
      })"

text \<open>The connection manager is asked to release the channel, once, if it knows the channel.\<close>

definition DTAP_DynTransChannReleaseReq :: "'r env \<Rightarrow> channel \<Rightarrow> DTAP_ReliableChannel \<Rightarrow> dtap \<Rightarrow> DTAP_ReliableChannel \<times> dtap" where
  "DTAP_DynTransChannReleaseReq e c r d =
     (if isDestroyMsgSent r then (r, d)
      else if \<not> call_dli e then (r, d)
      else (r\<lparr>isDestroyMsgSent := True\<rparr>, d\<lparr>release_log := release_log d @ [(lcid c, srcTcid c, dstTcid c)]\<rparr>))"

definition DTAP_ReorderTimerExpireProc :: "'r env \<Rightarrow> nat \<Rightarrow> channel \<Rightarrow> DTAP_ReliableChannel \<Rightarrow> dtap \<Rightarrow> (DTAP_ReliableChannel \<times> dtap) option" where
  "DTAP_ReorderTimerExpireProc e a c r d =
     (if unat (nackCnt r) \<ge> maxTxThreshold r then Some (DTAP_DynTransChannReleaseReq (sub e 0) c r d)
      else do {
        (ret, d1) \<leftarrow> DTAP_SendAckFrame (sub e 1) a c r False True d;
        if ret \<noteq> DTAP_SUCCESS then Some (r, d1)
        else (case restart_rsp (sub e 2) c r d1 of (r1, d2) \<Rightarrow> Some (r1\<lparr>nackCnt := nackCnt r1 + 1\<rparr>, d2))
      })"

section \<open>Retransmission\<close>

definition DTAP_CalculateRetransTimeout :: "nat \<Rightarrow> nat \<Rightarrow> nat" where
  "DTAP_CalculateRetransTimeout baseTimeout cnt =
     (if cnt = 0 then baseTimeout
      else let safeCount = (if cnt > MAX_BASE_RETRANS_TIMEOUT then MAX_BASE_RETRANS_TIMEOUT else cnt) in
        if baseTimeout > 65535 div 2 ^ safeCount then 65535 else to_u16 (baseTimeout * 2 ^ safeCount))"

text \<open>The P bit is set in the first header byte but one, and the CRC is made to fit again.\<close>

definition DTAP_SetPbitForSendPolling :: "u16 \<Rightarrow> DTAP_Frame \<Rightarrow> DTAP_Frame option" where
  "DTAP_SetPbitForSendPolling crcInit fr = do {
     b \<leftarrow> f_buff fr;
     tb \<leftarrow> mem_read b (dataOff b + 1) 1;
     let oriBits = drop_bit 4 (tb ! 0);
     let newBits = oriBits OR DTAP_FRAME_P_BIT;
     if oriBits = newBits then Some fr
     else do {
       b1 \<leftarrow> mem_write b (dataOff b + 1) [DTAP_SetFrameBit (tb ! 0) newBits];
       (ret, fr1) \<leftarrow> DTAP_ReCalculateCrcValue crcInit (fr\<lparr>f_buff := Some b1\<rparr>);
       if ret = DTAP_SUCCESS then Some fr1
       else do {
         b2 \<leftarrow> mem_write b1 (dataOff b + 1) [DTAP_SetFrameBit (DTAP_SetFrameBit (tb ! 0) newBits) oriBits];
         Some (fr\<lparr>f_buff := Some b2\<rparr>)
       }
     }
   }"

text \<open>A store through the pointer \<open>DTAP_FindFrameBySeq\<close> returned.\<close>

fun fr_upd :: "u16 \<Rightarrow> (DTAP_Frame \<Rightarrow> DTAP_Frame) \<Rightarrow> DTAP_Frame list \<Rightarrow> DTAP_Frame list" where
  "fr_upd seq f [] = []"
| "fr_upd seq f (fr # frs) = (if txSeq fr = seq then f fr # frs else fr # fr_upd seq f frs)"

definition upd_frame :: "u16 \<Rightarrow> (DTAP_Frame \<Rightarrow> DTAP_Frame) \<Rightarrow> DTAP_ReliableChannel \<Rightarrow> DTAP_ReliableChannel" where
  "upd_frame seq f r = tw_upd (\<lambda>w. w\<lparr>txList := fr_upd seq f (txList w)\<rparr>) r"

definition DTAP_RetransEnhanceFrame :: "'r env \<Rightarrow> nat \<Rightarrow> channel \<Rightarrow> DTAP_ReliableChannel \<Rightarrow> dtap
    \<Rightarrow> (DTAP_errno \<times> DTAP_ReliableChannel \<times> dtap) option" where
  "DTAP_RetransEnhanceFrame e a c r d =
     (case DTAP_FindFrameBySeq (txList (txWindow r)) (reTxSeq r) of
        None \<Rightarrow> Some (DTAP_TRANS_RELIABLE_FIND_FRAME_ERR, r, d)
      | Some fr \<Rightarrow>
          if reTxCnt fr \<ge> maxTxThreshold r then
            (case DTAP_DynTransChannReleaseReq (sub e 0) c r d of
               (r1, d1) \<Rightarrow> Some (DTAP_TRANS_RELIABLE_REACH_MAX_RE_TX_CNT_ERR, r1, d1))
          else do {
            fr1 \<leftarrow> DTAP_SetPbitForSendPolling (rc_crcInit r) fr;
            let r1 = upd_frame (reTxSeq r) (\<lambda>_. fr1) r;
            (case SDF_BuffCopy (sub e 1) (f_buff fr1) of
               None \<Rightarrow> Some (DTAP_TRANS_RELIABLE_COPY_BUFF_ERR, r1, d)
             | Some cp \<Rightarrow> do {
                 (ret, d1) \<leftarrow> DTAP_SendFrame (sub e 2) a (Some cp) d;
                 if ret \<noteq> DTAP_SUCCESS then Some (ret, r1, d1)
                 else do {
                   let cnt = (reTxCnt fr1 + 1) mod 256;
                   let r2 = upd_frame (reTxSeq r) (\<lambda>f. f\<lparr>reTxCnt := cnt\<rparr>) r1;
                   let (r3, d2) = (if getFrameType (f_ctx fr1) = DTAP_FRAME_DUPLEX_FRAG then restart_rsp (sub e 3) c r2 d1 else (r2, d1));
                   let (r4, d3) = restart_retrans (sub e 4) c (DTAP_CalculateRetransTimeout (rc_retransTimeout r3) cnt) r3 d2;
                   Some (DTAP_SUCCESS, r4, d3)
                 }
               })
          })"

definition DTAP_RetransTimerExpireProc :: "'r env \<Rightarrow> nat \<Rightarrow> channel \<Rightarrow> DTAP_ReliableChannel \<Rightarrow> dtap \<Rightarrow> (DTAP_ReliableChannel \<times> dtap) option" where
  "DTAP_RetransTimerExpireProc e a c r d =
     (if txList (txWindow r) = [] then Some (r, d)
      else do {
        (ret, r', d') \<leftarrow> DTAP_RetransEnhanceFrame e a c (r\<lparr>reTxSeq := expectedAckSeq (txWindow r)\<rparr>) d;
        Some (r', d')
      })"

section \<open>Sliding windows\<close>

definition frame_reqSeq :: "DTAP_Frame \<Rightarrow> u16" where
  "frame_reqSeq fr = (if getFrameType (f_ctx fr) = DTAP_FRAME_ACK then ack_reqSeq fr else reqSeq fr)"

definition DTAP_SlideTxWindow :: "'r env \<Rightarrow> channel \<Rightarrow> DTAP_Frame \<Rightarrow> DTAP_ReliableChannel \<Rightarrow> dtap \<Rightarrow> DTAP_ReliableChannel \<times> dtap" where
  "DTAP_SlideTxWindow e c fr r d =
     (let q = frame_reqSeq fr in
      if q = DTAP_FRAME_SEQ_INIT then (r, d)
      else let r1 = r\<lparr>sendPollingCounter := 0\<rparr>; w = txWindow r1 in
        if txList w = [] then (r1, d)
        else let r2 = (if DTAP_IsFrameSeqSmaller (reTxSeq r1) q then r1\<lparr>reTxSeq := q\<rparr> else r1) in
          if (DTAP_IsFrameSeqSmaller (expectedAckSeq w) q \<and> DTAP_IsFrameSeqSmaller q (nextTxSeq w)) \<or> q = nextTxSeq w then
            let r3 = tw_upd (\<lambda>w. w\<lparr>expectedAckSeq := q, txList := dropWhile (\<lambda>f. DTAP_IsFrameSeqSmaller (txSeq f) q) (txList w)\<rparr>) r2 in
            if expectedAckSeq (txWindow r3) = nextTxSeq (txWindow r3)
            then (r3\<lparr>retransTimer := DTAP_TransStopTimer (retransTimer r3)\<rparr>, d)
            else restart_retrans e c (rc_retransTimeout r3) r3 d
          else (r2, d))"

definition DTAP_RecvNackFrame :: "'r env \<Rightarrow> nat \<Rightarrow> channel \<Rightarrow> DTAP_Frame \<Rightarrow> DTAP_ReliableChannel \<Rightarrow> dtap
    \<Rightarrow> (DTAP_errno \<times> DTAP_ReliableChannel \<times> dtap) option" where
  "DTAP_RecvNackFrame e a c fr r d =
     (if getFrameType (f_ctx fr) = DTAP_FRAME_ACK \<and> ack_sBit fr then do {
        (ret, r', d') \<leftarrow> DTAP_RetransEnhanceFrame e a c (r\<lparr>reTxSeq := ack_reqSeq fr\<rparr>) d;
        Some (if ret = DTAP_TRANS_RELIABLE_REACH_MAX_RE_TX_CNT_ERR then ret else DTAP_SUCCESS, r', d')
      }
      else Some (DTAP_SUCCESS, r, d))"

text \<open>Insertion before the first frame with a greater number.\<close>

fun insert_frame :: "DTAP_Frame \<Rightarrow> DTAP_Frame list \<Rightarrow> DTAP_Frame list" where
  "insert_frame fr [] = [fr]"
| "insert_frame fr (g # gs) = (if DTAP_IsFrameSeqSmaller (txSeq fr) (txSeq g) then fr # g # gs else g # insert_frame fr gs)"

text \<open>The first number not in the list, searched for in at most \<open>n\<close> steps.\<close>

fun next_missing :: "nat \<Rightarrow> DTAP_Frame list \<Rightarrow> u16 \<Rightarrow> u16 option" where
  "next_missing 0 fs seq = None"
| "next_missing (Suc n) fs seq =
     (if DTAP_FindFrameBySeq fs seq = None then Some seq else next_missing n fs (DTAP_GetNextFrameSeq seq))"

definition DTAP_SlideRxWindow :: "DTAP_Frame \<Rightarrow> DTAP_ReliableChannel \<Rightarrow> DTAP_ReliableChannel" where
  "DTAP_SlideRxWindow fr r =
     (let r1 = rw_upd (\<lambda>w. w\<lparr>rxList := insert_frame fr (rxList w)\<rparr>) (r\<lparr>isRecvFrame := True\<rparr>);
          r2 = (if txSeq fr = expectedTxSeq (rxWindow r1) then
                  (case next_missing (rw_size (rxWindow r1)) (rxList (rxWindow r1)) (DTAP_GetNextFrameSeq (txSeq fr)) of
                     None \<Rightarrow> r1
                   | Some seq \<Rightarrow> (rw_upd (\<lambda>w. w\<lparr>expectedTxSeq := seq\<rparr>) r1)\<lparr>nackCnt := 0\<rparr>)
                else r1)
      in if DTAP_IsFrameSeqSmaller (maxExpectedTxSeq (rxWindow r2)) (txSeq fr) \<or> maxExpectedTxSeq (rxWindow r2) = txSeq fr
         then rw_upd (\<lambda>w. w\<lparr>maxExpectedTxSeq := DTAP_GetNextFrameSeq (txSeq fr)\<rparr>) r2
         else r2)"

definition DTAP_OperateReorderTimer :: "'r env \<Rightarrow> channel \<Rightarrow> DTAP_ReliableChannel \<Rightarrow> dtap \<Rightarrow> DTAP_ReliableChannel \<times> dtap" where
  "DTAP_OperateReorderTimer e c r d =
     (let w = rxWindow r in
      if reorderTimer r = INVALID_TIMER_HANDLE then
        if DTAP_IsFrameSeqSmaller (expectedTxSeq w) (maxExpectedTxSeq w)
        then (case DTAP_TransStartTimer e ReorderTimer c (rc_reorderTimeout r) (reorderTimer r) d of (ok, h, d') \<Rightarrow> (r\<lparr>reorderTimer := h\<rparr>, d'))
        else (r, d)
      else if expectedTxSeq w = maxExpectedTxSeq w then (r\<lparr>reorderTimer := DTAP_TransStopTimer (reorderTimer r)\<rparr>, d)
      else if DTAP_IsFrameSeqSmaller (expectedTxSeq w) (maxExpectedTxSeq w)
      then (case DTAP_TransRestartTimer e ReorderTimer c (rc_reorderTimeout r) (reorderTimer r) d of (ok, h, d') \<Rightarrow> (r\<lparr>reorderTimer := h\<rparr>, d'))
      else (r, d))"

section \<open>Delivery\<close>

definition recv_one :: "dtap_env \<Rightarrow> SDF_Buff list \<Rightarrow> channel \<Rightarrow> nat option \<Rightarrow> DTAP_Frame \<Rightarrow> SDF_Buff option
    \<Rightarrow> (DTAP_errno \<times> SDF_Buff option \<times> DTAP_Frame \<times> upcall list) option" where
  "recv_one e live c recvCb fr fg =
     (let info = \<lparr>info_pi = f_pi fr, info_lcid = lcid c, info_tcid = dstTcid c\<rparr>; ty = getFrameType (f_ctx fr) in
      if ty = DTAP_FRAME_SIMPLEX_AGGR \<or> ty = DTAP_FRAME_DUPLEX_AGGR then do {
        (ret, fr', us) \<leftarrow> DTAP_RecvAggregateFrame e ((case f_buff fr of None \<Rightarrow> [] | Some b \<Rightarrow> [b]) @ live) fr info recvCb;
        Some (ret, fg, fr', us)
      }
      else if ty = DTAP_FRAME_SIMPLEX_FRAG \<or> ty = DTAP_FRAME_DUPLEX_FRAG then DTAP_RecvFragmentFrame e fg fr info recvCb
      else Some (DTAP_SUCCESS, fg, fr, []))"

text \<open>
  The loop of \<open>DTAP_RecvEnhanceFrameInner\<close> on the queue, the lower edge of the window and the fragments
  collected so far; the flag tells that the upper layer was full, and then the frame stays in the queue.
  \<open>live\<close> are the buffers of the caller that are still allocated.
\<close>

fun deliver :: "dtap_env \<Rightarrow> nat \<Rightarrow> SDF_Buff list \<Rightarrow> channel \<Rightarrow> nat option \<Rightarrow> DTAP_Frame list \<Rightarrow> u16 \<Rightarrow> SDF_Buff option
    \<Rightarrow> (DTAP_Frame list \<times> u16 \<times> SDF_Buff option \<times> bool \<times> upcall list) option" where
  "deliver e k live c recvCb [] seq fg = Some ([], seq, fg, False, [])"
| "deliver e k live c recvCb (fr # frs) seq fg =
     (if txSeq fr \<noteq> seq then Some (fr # frs, seq, fg, False, [])
      else do {
        (ret, fg1, fr1, us) \<leftarrow> recv_one (sub e k) live c recvCb fr fg;
        if ret = DTAP_TRANS_RELIABLE_TRANS_CHANNEL_FULL then Some (fr1 # frs, seq, fg1, True, us)
        else do {
          (frs', seq', fg', full, us') \<leftarrow> deliver e (Suc k) live c recvCb frs (DTAP_GetNextFrameSeq seq) fg1;
          Some (frs', seq', fg', full, us @ us')
        }
      })"

definition DTAP_RecvEnhanceFrameInner :: "dtap_env \<Rightarrow> SDF_Buff list \<Rightarrow> channel \<Rightarrow> nat option \<Rightarrow> DTAP_ReliableChannel \<Rightarrow> dtap
    \<Rightarrow> (DTAP_ReliableChannel \<times> dtap) option" where
  "DTAP_RecvEnhanceFrameInner e live c recvCb r d =
     (if isRxWindowFull r then Some (r, d)
      else do {
        (frs, seq, fg, full, us) \<leftarrow> deliver e 0 live c recvCb (rxList (rxWindow r)) (bufferSeq (rxWindow r)) (frags r);
        Some (rw_upd (\<lambda>w. w\<lparr>rxList := frs, bufferSeq := seq\<rparr>) (r\<lparr>frags := fg, isRxWindowFull := full\<rparr>), d\<lparr>ups := ups d @ us\<rparr>)
      })"

definition DTAP_SetTransChannelStatus :: "dtap_env \<Rightarrow> channel \<Rightarrow> DTAP_errno \<Rightarrow> nat option \<Rightarrow> DTAP_ReliableChannel \<Rightarrow> dtap
    \<Rightarrow> (DTAP_ReliableChannel \<times> dtap) option" where
  "DTAP_SetTransChannelStatus e c result recvCb r d =
     (if result = DTAP_SUCCESS then DTAP_RecvEnhanceFrameInner e [] c recvCb (r\<lparr>isRxWindowFull := False\<rparr>) d else Some (r, d))"

section \<open>Sending\<close>

fun pack_loop :: "'r env \<Rightarrow> nat \<Rightarrow> channel \<Rightarrow> u8 \<Rightarrow> u16 \<Rightarrow> u16 \<Rightarrow> u16 \<Rightarrow> DTAP_Frame list \<Rightarrow> (DTAP_errno \<times> DTAP_Frame list) option" where
  "pack_loop e k c pi crcInit ack seq [] = Some (DTAP_SUCCESS, [])"
| "pack_loop e k c pi crcInit ack seq (fr # frs) = do {
     (ret, fr1) \<leftarrow> buildFrame (sub e k) (f_ctx fr) (fr\<lparr>f_bits := DTAP_FRAME_C_BIT, f_pi := pi, txSeq := seq, reqSeq := ack\<rparr>) (dstTcid c) crcInit;
     if ret \<noteq> DTAP_SUCCESS then Some (ret, [])
     else do {
       (ret', frs') \<leftarrow> pack_loop e (Suc k) c pi crcInit ack (DTAP_GetNextFrameSeq seq) frs;
       Some (ret', if ret' = DTAP_SUCCESS then fr1 # frs' else [])
     }
   }"

definition DTAP_PackEnhanceFrames :: "dtap_env \<Rightarrow> channel \<Rightarrow> DTAP_ReliableChannel \<Rightarrow> u8 \<Rightarrow> SDF_Buff option \<Rightarrow> nat
    \<Rightarrow> (DTAP_errno \<times> DTAP_Frame list) option" where
  "DTAP_PackEnhanceFrames e c r pi buf m = do {
     (frs, frameCnt) \<leftarrow> DTAP_FragmentFrame (sub e 0) buf m (if isRecvFrame r then DTAP_FRAME_DUPLEX_FRAG else DTAP_FRAME_SIMPLEX_FRAG);
     if frameCnt = 0 then Some (DTAP_TRANS_RELIABLE_FRAGMENT_ERR, [])
     else if length frs < frameCnt then None
     else pack_loop (sub e 1) 0 c pi (rc_crcInit r) (expectedTxSeq (rxWindow r)) (nextTxSeq (txWindow r)) (take frameCnt frs)
   }"

definition DTAP_TriggerSendPolling :: "DTAP_ReliableChannel \<Rightarrow> bool \<times> DTAP_ReliableChannel" where
  "DTAP_TriggerSendPolling r =
     (if sendPollingCounter r * SEND_POLLING_CNT_THRESHOLD_FACTOR \<ge> tw_size (txWindow r)
      then (True, r\<lparr>sendPollingCounter := 0\<rparr>)
      else (False, r\<lparr>sendPollingCounter := (sendPollingCounter r + 1) mod 256\<rparr>))"

definition DTAP_SetBitForSendPolling :: "u16 \<Rightarrow> DTAP_Frame \<Rightarrow> DTAP_Frame option" where
  "DTAP_SetBitForSendPolling crcInit fr = do {
     b \<leftarrow> f_buff fr;
     tb \<leftarrow> mem_read b (dataOff b + 1) 1;
     b1 \<leftarrow> mem_write b (dataOff b + 1) [DTAP_SetFrameBit (tb ! 0) (drop_bit 4 (tb ! 0) OR DTAP_FRAME_P_BIT)];
     (ret, fr1) \<leftarrow> DTAP_ReCalculateCrcValue crcInit (fr\<lparr>f_buff := Some b1\<rparr>);
     Some fr1
   }"

text \<open>New frames go out one by one and to the end of the send queue, whether or not the send succeeded.\<close>

fun send_new :: "'r env \<Rightarrow> nat \<Rightarrow> nat \<Rightarrow> DTAP_Frame list \<Rightarrow> bool \<Rightarrow> DTAP_ReliableChannel \<Rightarrow> dtap \<Rightarrow> (bool \<times> DTAP_ReliableChannel \<times> dtap) option" where
  "send_new e k a [] reset r d = Some (reset, r, d)"
| "send_new e k a (fr # frs) reset r d = do {
     let (poll, r1) = DTAP_TriggerSendPolling r;
     fr1 \<leftarrow> (if poll then DTAP_SetBitForSendPolling (rc_crcInit r1) fr else Some fr);
     (ret, d1) \<leftarrow> DTAP_SendFrame (sub (sub e k) 1) a (SDF_BuffCopy (sub (sub e k) 0) (f_buff fr1)) d;
     send_new e (Suc k) a frs (reset \<or> ret = DTAP_SUCCESS)
       (tw_upd (\<lambda>w. w\<lparr>nextTxSeq := DTAP_GetNextFrameSeq (nextTxSeq w), txList := txList w @ [fr1]\<rparr>)
          (r1\<lparr>reTxSeq := DTAP_GetNextFrameSeq (reTxSeq r1)\<rparr>)) d1
   }"

definition DTAP_SendEnhanceFrameInner :: "'r env \<Rightarrow> nat \<Rightarrow> channel \<Rightarrow> DTAP_Frame list \<Rightarrow> DTAP_ReliableChannel \<Rightarrow> dtap
    \<Rightarrow> (DTAP_errno \<times> DTAP_ReliableChannel \<times> dtap) option" where
  "DTAP_SendEnhanceFrameInner e a c frs r d =
     (if length frs > DTAP_MAX_FRAGMENT_NUM then Some (DTAP_TRANS_RELIABLE_INVALID_FRAME_NUM, r, d)
      else do {
        (ret, reset, r1, d1) \<leftarrow>
          (if DTAP_IsFrameSeqSmaller (reTxSeq r) (nextTxSeq (txWindow r)) then do {
             (ret, r1, d1) \<leftarrow> DTAP_RetransEnhanceFrame (sub e 0) a c r d;
             if ret = DTAP_TRANS_RELIABLE_REACH_MAX_RE_TX_CNT_ERR then Some (ret, False, r1, d1)
             else Some (DTAP_SUCCESS, ret = DTAP_SUCCESS, r1\<lparr>reTxSeq := nextTxSeq (txWindow r1)\<rparr>, d1)
           }
           else Some (DTAP_SUCCESS, False, r, d));
        if ret \<noteq> DTAP_SUCCESS then Some (ret, r1, d1)
        else do {
          (reset', r2, d2) \<leftarrow> send_new (sub e 1) 0 a frs reset r1 d1;
          let (r3, d3) = (if reset' \<and> isRecvFrame r2 then restart_rsp (sub e 2) c r2 d2 else (r2, d2));
          let (r4, d4) = (if retransTimer r3 = INVALID_TIMER_HANDLE then
              (case DTAP_TransStartTimer (sub e 3) RetransTimer c (rc_retransTimeout r3) (retransTimer r3) d3 of
                 (ok, h, d') \<Rightarrow> (r3\<lparr>retransTimer := h\<rparr>, d'))
            else (r3, d3));
          Some (DTAP_SUCCESS, r4, d4)
        }
      })"

definition enhance_headerLen :: "DTAP_ReliableChannel \<Rightarrow> nat" where
  "enhance_headerLen r = (if isRecvFrame r then DTAP_DUPLEX_FRAG_FRAME_HEADER_LEN else DTAP_SIMPLEX_FRAG_FRAME_HEADER_LEN)"

definition DTAP_SendEnhanceFrame :: "dtap_env \<Rightarrow> nat \<Rightarrow> channel \<Rightarrow> u8 \<Rightarrow> SDF_Buff \<Rightarrow> DTAP_ReliableChannel \<Rightarrow> dtap
    \<Rightarrow> (DTAP_errno \<times> DTAP_ReliableChannel \<times> dtap) option" where
  "DTAP_SendEnhanceFrame e a c pi b r d =
     (if mps c \<le> enhance_headerLen r + DTAP_CRC_LEN then Some (DTAP_TRANS_RELIABLE_INVALID_MPS, r, d)
      else let m = mps c - enhance_headerLen r - DTAP_CRC_LEN; frameCnt = DTAP_GetFragmentFramesNum (dataLen b) m in
        if frameCnt > DTAP_MAX_FRAGMENT_NUM then Some (DTAP_TRANS_RELIABLE_INVALID_FRAME_NUM, r, d)
        else if length (txList (txWindow r)) + frameCnt > tw_size (txWindow r) then
          Some (DTAP_TRANS_RELIABLE_TX_WINDOW_FULL,
            (if cacheBuff r = None then r\<lparr>cacheBuff := SDF_BuffCopy (sub e 0) (Some b), cachePi := pi\<rparr> else r)\<lparr>isTxWindowFull := True\<rparr>, d)
        else let r1 = (if length (txList (txWindow r)) + frameCnt = tw_size (txWindow r) then r\<lparr>isTxWindowFull := True\<rparr> else r) in do {
          (ret, frs) \<leftarrow> DTAP_PackEnhanceFrames (sub e 1) c r1 pi (Some b) m;
          if ret \<noteq> DTAP_SUCCESS then Some (ret, r1, d)
          else if length frs < frameCnt then None
          else do {
            (ret', r2, d2) \<leftarrow> DTAP_SendEnhanceFrameInner (sub e 2) a c (take frameCnt frs) r1 d;
            Some (if ret' = DTAP_SUCCESS \<and> isTxWindowFull r2 then DTAP_TRANS_RELIABLE_TX_WINDOW_FULL else ret', r2, d2)
          }
        })"

section \<open>The cached packet\<close>

definition status_cbk :: "channel \<Rightarrow> nat \<Rightarrow> dtap \<Rightarrow> dtap" where
  "status_cbk c result d = (case g_dtapDataSendCbks d of
     None \<Rightarrow> d | Some cb \<Rightarrow> d\<lparr>status_log := status_log d @ [(cb, lcid c, srcTcid c, result)]\<rparr>)"

definition DTAP_TransSendCacheBuff :: "dtap_env \<Rightarrow> nat \<Rightarrow> channel \<Rightarrow> nat \<Rightarrow> SDF_Buff \<Rightarrow> DTAP_ReliableChannel \<Rightarrow> dtap
    \<Rightarrow> (DTAP_ReliableChannel \<times> dtap) option" where
  "DTAP_TransSendCacheBuff e a c result b r d =
     (let m = sub_u16 (sub_u16 (mps c) (enhance_headerLen r)) DTAP_CRC_LEN; frameCnt = DTAP_GetFragmentFramesNum (dataLen b) m in
      if length (txList (txWindow r)) + frameCnt \<ge> tw_size (txWindow r) then Some (r, d)
      else do {
        (ret, r1, d1) \<leftarrow> DTAP_SendEnhanceFrame e a c (cachePi r) b (r\<lparr>isTxWindowFull := False\<rparr>) d;
        Some (r1\<lparr>cacheBuff := None\<rparr>, status_cbk c result d1)
      })"

definition DTAP_TransChannelStatusChange :: "dtap_env \<Rightarrow> nat \<Rightarrow> channel \<Rightarrow> nat \<Rightarrow> DTAP_ReliableChannel \<Rightarrow> dtap
    \<Rightarrow> (DTAP_ReliableChannel \<times> dtap) option" where
  "DTAP_TransChannelStatusChange e a c result r d =
     (if \<not> isTxWindowFull r then Some (r, d)
      else (case cacheBuff r of
        Some b \<Rightarrow> DTAP_TransSendCacheBuff e a c result b r d
      | None \<Rightarrow> if length (txList (txWindow r)) < tw_size (txWindow r)
                then Some (r\<lparr>isTxWindowFull := False\<rparr>, status_cbk c result d) else Some (r, d)))"

section \<open>Receiving\<close>

definition DTAP_RecvEnhanceFrame :: "dtap_env \<Rightarrow> nat \<Rightarrow> channel \<Rightarrow> DTAP_Frame \<Rightarrow> nat option \<Rightarrow> DTAP_ReliableChannel \<Rightarrow> dtap
    \<Rightarrow> (DTAP_errno \<times> DTAP_ReliableChannel \<times> dtap) option" where
  "DTAP_RecvEnhanceFrame e a c fr recvCb r d = do {
     (ret, r0, d0) \<leftarrow> DTAP_RecvNackFrame (sub e 0) a c fr r d;
     if ret \<noteq> DTAP_SUCCESS then Some (ret, r0, d0)
     else do {
       let (r1, d1) = DTAP_SlideTxWindow (sub e 1) c fr r0 d0;
       if getFrameType (f_ctx fr) = DTAP_FRAME_ACK then do {
         (r2, d2) \<leftarrow> DTAP_TransChannelStatusChange (sub e 2) a c 0 r1 d1;
         Some (DTAP_SUCCESS, r2, d2)
       }
       else (case DTAP_CopyFrame (sub e 3) fr of
         None \<Rightarrow> Some (DTAP_TRANS_RELIABLE_COPY_FRAME_ERR, r1, d1)
       | Some copyFrame \<Rightarrow> do {
           let (r2, d2) = DTAP_OperateReorderTimer (sub e 4) c (DTAP_SlideRxWindow copyFrame r1) d1;
           (r3, d3) \<leftarrow> DTAP_RecvEnhanceFrameInner (sub e 5) (case f_buff fr of None \<Rightarrow> [] | Some b \<Rightarrow> [b]) c recvCb r2 d2;
           (r4, d4) \<leftarrow>
             (if DTAP_CheckFrameBit (f_bits copyFrame) DTAP_FRAME_P_BIT then do {
                (ret, d4) \<leftarrow> DTAP_SendAckFrame (sub e 6) a c r3 True False d3;
                Some (if ret \<noteq> DTAP_SUCCESS then (r3, d4) else restart_rsp (sub e 7) c r3 d4)
              }
              else Some (r3, d3));
           (r5, d5) \<leftarrow> DTAP_TransChannelStatusChange (sub e 8) a c 0 r4 d4;
           Some (DTAP_SUCCESS, r5, d5)
         })
     }
   }"

end
