(* ===== verification/Dtap_Reliable_Tx.thy ===== *)
theory Dtap_Reliable_Tx
  imports Dtap_Reliable
begin

text \<open>
  The sending side of the reliable mode: the send window holds the unacknowledged frames in order,
  acknowledgements remove exactly what they cover, and every operation keeps the window, the frames
  in it and the scheduler below well-formed and never reaches an invalid access.
\<close>

section \<open>The send window\<close>

text \<open>A frame that can be sent again at any time: its buffer is sound, checks and has room for the link header.\<close>

definition tx_frame_ok :: "u16 \<Rightarrow> DTAP_Frame \<Rightarrow> bool" where
  "tx_frame_ok crc fr \<longleftrightarrow> (\<exists>b. f_buff fr = Some b \<and> buff_ok b \<and> DTAP_BASIC_HEADER_LEN + DTAP_CRC_LEN \<le> dataLen b
     \<and> DLI_HEADER \<le> SDF_BuffHeadRoom b \<and> CRC16 crc (buff_data b) = 0)"

text \<open>
  The queue holds exactly the frames from \<open>expectedAckSeq\<close> up to \<open>nextTxSeq\<close>, in order and one each,
  and never more than the window allows.
\<close>

definition tx_ok :: "DTAP_ReliableChannel \<Rightarrow> bool" where
  "tx_ok r \<longleftrightarrow> (let w = txWindow r in seq_ok (expectedAckSeq w)
     \<and> map txSeq (txList w) = map (seq_add (expectedAckSeq w)) [0 ..< length (txList w)]
     \<and> nextTxSeq w = seq_add (expectedAckSeq w) (length (txList w))
     \<and> length (txList w) \<le> tw_size w \<and> tw_size w \<le> 255
     \<and> (\<forall>fr \<in> set (txList w). tx_frame_ok (rc_crcInit r) fr))"

lemma mod_circle: "(x + (16384 + n)) mod 16384 = (x + n) mod (16384::nat)"
  unfolding add.left_commute [of x 16384 n] by (rule mod_add_self1)

lemma tx_ok_cong: "txWindow r' = txWindow r \<Longrightarrow> rc_crcInit r' = rc_crcInit r \<Longrightarrow> tx_ok r' = tx_ok r"
  by (simp add: tx_ok_def)

lemma tx_ok_nth:
  assumes "tx_ok r" "i < length (txList (txWindow r))"
  shows "txSeq (txList (txWindow r) ! i) = seq_add (expectedAckSeq (txWindow r)) i"
proof -
  have "map txSeq (txList (txWindow r)) ! i = map (seq_add (expectedAckSeq (txWindow r))) [0 ..< length (txList (txWindow r))] ! i"
    using assms(1) by (simp add: tx_ok_def Let_def)
  then show ?thesis using assms(2) by simp
qed

text \<open>The frames an acknowledgement covers are the first \<open>k\<close> of the queue.\<close>

lemma dropWhile_seq:
  assumes "seq_ok s" "map txSeq fs = map (seq_add s) [0 ..< length fs]" "k \<le> length fs" "length fs \<le> 255"
  shows "dropWhile (\<lambda>f. DTAP_IsFrameSeqSmaller (txSeq f) (seq_add s k)) fs = drop k fs"
proof -
  have dist: "seq_dist (seq_add s i) (seq_add s k) = k - i" if "i \<le> k" for i
    using seq_dist_add [of "seq_add s i" "k - i"] that assms(3,4) by simp
  have nth: "txSeq (fs ! i) = seq_add s i" if "i < length fs" for i
    using arg_cong [OF assms(2), of "\<lambda>xs. xs ! i"] that by simp
  have t: "\<forall>f \<in> set (take k fs). DTAP_IsFrameSeqSmaller (txSeq f) (seq_add s k)"
  proof
    fix f assume "f \<in> set (take k fs)"
    then obtain i where i: "i < k" "f = fs ! i" using assms(3) by (auto simp: in_set_conv_nth)
    have "1 \<le> k - i" "k - i \<le> 8192" using i(1) assms(3,4) by linarith+
    then show "DTAP_IsFrameSeqSmaller (txSeq f) (seq_add s k)"
      using i assms(3) dist [of i] nth [of i] by (simp add: DTAP_IsFrameSeqSmaller_eq)
  qed
  have h: "drop k fs = [] \<or> \<not> DTAP_IsFrameSeqSmaller (txSeq (hd (drop k fs))) (seq_add s k)"
    using assms(3) dist [of k] by (auto simp: hd_drop_conv_nth nth DTAP_IsFrameSeqSmaller_eq)
  have "dropWhile (\<lambda>f. DTAP_IsFrameSeqSmaller (txSeq f) (seq_add s k)) (take k fs @ drop k fs)
    = dropWhile (\<lambda>f. DTAP_IsFrameSeqSmaller (txSeq f) (seq_add s k)) (drop k fs)"
    using t by (intro dropWhile_append2) auto
  also have "\<dots> = drop k fs" using h by (cases "drop k fs") auto
  finally show ?thesis by simp
qed

text \<open>A number the window test accepts lies inside the window, whatever the peer sent.\<close>

lemma ack_in_window:
  assumes ok: "tx_ok r" and q: "seq_ok q" and ne: "txList (txWindow r) \<noteq> []"
    and acc: "DTAP_IsFrameSeqSmaller (expectedAckSeq (txWindow r)) q \<and> DTAP_IsFrameSeqSmaller q (nextTxSeq (txWindow r)) \<or> q = nextTxSeq (txWindow r)"
  shows "\<exists>k. 1 \<le> k \<and> k \<le> length (txList (txWindow r)) \<and> q = seq_add (expectedAckSeq (txWindow r)) k"
proof -
  let ?s = "expectedAckSeq (txWindow r)" and ?n = "length (txList (txWindow r))"
  have s: "seq_ok ?s" "nextTxSeq (txWindow r) = seq_add ?s ?n" "?n \<le> 255" using ok by (auto simp: tx_ok_def Let_def)
  have n: "1 \<le> ?n" using ne by (cases "txList (txWindow r)") auto
  show ?thesis
  proof (cases "q = nextTxSeq (txWindow r)")
    case True
    then show ?thesis using s n by blast
  next
    case False
    define k where "k = seq_dist ?s q"
    have qk: "q = seq_add ?s k" using seq_add_dist [OF s(1) q] by (simp add: k_def)
    have k: "1 \<le> k" "k \<le> 8192" using acc False DTAP_IsFrameSeqSmaller_eq [OF s(1) q] by (auto simp: k_def)
    have "seq_dist q (seq_add ?s ?n) \<le> 8192" "1 \<le> seq_dist q (seq_add ?s ?n)"
      using acc False DTAP_IsFrameSeqSmaller_eq [OF q, of "seq_add ?s ?n"] s(2) by auto
    moreover have "seq_dist q (seq_add ?s ?n) = (16384 + ?n - k) mod 16384"
    proof -
      have "seq_add q (16384 + ?n - k) = seq_add ?s ?n"
        using k s(1) mod_circle [of "unat ?s" ?n] by (simp add: qk seq_eq_iff unat_seq_add)
      then show ?thesis using seq_dist_add [OF q, of "16384 + ?n - k"] by simp
    qed
    ultimately have m: "(16384 + ?n - k) mod 16384 \<le> 8192" by simp
    have "k \<le> ?n"
    proof (rule ccontr)
      assume "\<not> k \<le> ?n"
      then have "(16384 + ?n - k) mod 16384 = 16384 + ?n - k" by simp
      then show False using m k n by linarith
    qed
    then show ?thesis using k(1) qk by blast
  qed
qed

lemma slide_tx_acked:
  assumes ok: "tx_ok r" and k: "1 \<le> k" "k \<le> length (txList (txWindow r))"
    and w: "txWindow r' = (txWindow r)\<lparr>expectedAckSeq := seq_add (expectedAckSeq (txWindow r)) k,
      txList := drop k (txList (txWindow r))\<rparr>" "rc_crcInit r' = rc_crcInit r"
  shows "tx_ok r'"
proof -
  let ?s = "expectedAckSeq (txWindow r)" and ?fs = "txList (txWindow r)"
  have ok': "map txSeq ?fs = map (seq_add ?s) [0 ..< length ?fs]" using ok by (simp add: tx_ok_def Let_def)
  have "map txSeq (drop k ?fs) = map (seq_add (seq_add ?s k)) [0 ..< length ?fs - k]"
  proof (rule nth_equalityI)
    fix i assume "i < length (map txSeq (drop k ?fs))"
    then show "map txSeq (drop k ?fs) ! i = map (seq_add (seq_add ?s k)) [0 ..< length ?fs - k] ! i"
      using tx_ok_nth [OF ok, of "k + i"] by simp
  qed simp
  then show ?thesis
    using ok k by (auto simp: tx_ok_def Let_def w dest: in_set_dropD)
qed

abbreviation rx_part :: "DTAP_ReliableChannel \<Rightarrow> DTAP_RxWindow \<times> SDF_Buff option \<times> bool \<times> SDF_Buff option" where
  "rx_part r \<equiv> (rxWindow r, frags r, isRxWindowFull r, cacheBuff r)"

definition ack_ok :: "DTAP_Frame \<Rightarrow> bool" where
  "ack_ok fr \<longleftrightarrow> frame_reqSeq fr = DTAP_FRAME_SEQ_INIT \<or> seq_ok (frame_reqSeq fr)"

lemma timer_simps:
  "restart_rsp e c r d = (r', d') \<Longrightarrow> dp d' = dp d \<and> ups d' = ups d \<and> txWindow r' = txWindow r \<and> rc_crcInit r' = rc_crcInit r \<and> rx_part r' = rx_part r"
  "restart_retrans e c x r d = (r', d') \<Longrightarrow> dp d' = dp d \<and> ups d' = ups d \<and> txWindow r' = txWindow r \<and> rc_crcInit r' = rc_crcInit r \<and> rx_part r' = rx_part r"
  by (auto simp: restart_rsp_def restart_retrans_def DTAP_TransRestartTimer_def DTAP_TransStartTimer_def split: option.splits prod.splits)

lemma slide_tx_ok:
  assumes ok: "tx_ok r" "ack_ok fr" and sl: "DTAP_SlideTxWindow e c fr r d = (r', d')"
  shows "tx_ok r'" "dp d' = dp d" "ups d' = ups d" "rx_part r' = rx_part r"
    "\<exists>k \<le> length (txList (txWindow r)). txList (txWindow r') = drop k (txList (txWindow r))"
proof -
  let ?q = "frame_reqSeq fr" and ?w = "txWindow r"
  let ?acc = "DTAP_IsFrameSeqSmaller (expectedAckSeq ?w) ?q \<and> DTAP_IsFrameSeqSmaller ?q (nextTxSeq ?w) \<or> ?q = nextTxSeq ?w"
  have "tx_ok r' \<and> dp d' = dp d \<and> ups d' = ups d \<and> rx_part r' = rx_part r
    \<and> (\<exists>k \<le> length (txList ?w). txList (txWindow r') = drop k (txList ?w))"
  proof (cases "?q = DTAP_FRAME_SEQ_INIT \<or> txList ?w = [] \<or> \<not> ?acc")
    case True
    then have "txWindow r' = ?w \<and> rc_crcInit r' = rc_crcInit r \<and> rx_part r' = rx_part r \<and> d' = d"
      using sl by (auto simp: DTAP_SlideTxWindow_def Let_def split: if_splits)
    then show ?thesis using ok tx_ok_cong [of r' r] by (intro conjI exI [of _ 0]) auto
  next
    case False
    then have f: "?q \<noteq> DTAP_FRAME_SEQ_INIT" "txList ?w \<noteq> []" "?acc" by auto
    have "seq_ok ?q" using ok(2) f(1) by (simp add: ack_ok_def)
    from ack_in_window [OF ok(1) this f(2,3)] obtain k where
      k: "1 \<le> k" "k \<le> length (txList ?w)" "?q = seq_add (expectedAckSeq ?w) k" by blast
    have dw: "dropWhile (\<lambda>f. DTAP_IsFrameSeqSmaller (txSeq f) ?q) (txList ?w) = drop k (txList ?w)"
      unfolding k(3) using ok(1) k(2) by (intro dropWhile_seq) (auto simp: tx_ok_def Let_def)
    define r3 where "r3 = tw_upd (\<lambda>w. w\<lparr>expectedAckSeq := ?q, txList := drop k (txList w)\<rparr>)
      (if DTAP_IsFrameSeqSmaller (reTxSeq r) ?q then r\<lparr>sendPollingCounter := 0, reTxSeq := ?q\<rparr> else r\<lparr>sendPollingCounter := 0\<rparr>)"
    have r3: "txWindow r3 = ?w\<lparr>expectedAckSeq := ?q, txList := drop k (txList ?w)\<rparr>" "rc_crcInit r3 = rc_crcInit r" "rx_part r3 = rx_part r"
      by (simp_all add: r3_def)
    have "(r', d') = (if expectedAckSeq (txWindow r3) = nextTxSeq (txWindow r3)
      then (r3\<lparr>retransTimer := DTAP_TransStopTimer (retransTimer r3)\<rparr>, d) else restart_retrans e c (rc_retransTimeout r3) r3 d)"
      using sl f dw unfolding r3_def by (auto simp: DTAP_SlideTxWindow_def Let_def)
    then have "txWindow r' = txWindow r3 \<and> rc_crcInit r' = rc_crcInit r3 \<and> rx_part r' = rx_part r3 \<and> dp d' = dp d \<and> ups d' = ups d"
      using timer_simps(2) [of e c "rc_retransTimeout r3" r3 d r' d'] by (auto split: if_splits)
    then show ?thesis using r3 slide_tx_acked [OF ok(1) k(1,2), of r'] k(2,3) by auto
  qed
  then show "tx_ok r'" "dp d' = dp d" "ups d' = ups d" "rx_part r' = rx_part r"
    "\<exists>k \<le> length (txList (txWindow r)). txList (txWindow r') = drop k (txList (txWindow r))" by auto
qed

section \<open>The P bit\<close>

lemma write_header_byte:
  assumes "tx_frame_ok crc fr" "f_buff fr = Some b"
  obtains b1 where "mem_write b (dataOff b + 1) [x] = Some b1" "buff_ok b1" "dataLen b1 = dataLen b" "dataOff b1 = dataOff b"
    "mem_read b (dataOff b + 1) 1 = Some [buff_data b ! 1]"
proof -
  have b: "buff_ok b" "1 + length [x] \<le> dataLen b" "1 + 1 \<le> dataLen b" "1 < length (buff_data b)"
    using assms by (auto simp: tx_frame_ok_def)
  obtain b1 where "mem_write b (dataOff b + 1) [x] = Some b1" "buff_ok b1" "dataLen b1 = dataLen b" "dataOff b1 = dataOff b"
    using mem_write_data [OF b(1,2)] by metis
  moreover have "mem_read b (dataOff b + 1) 1 = Some [buff_data b ! 1]"
    using mem_read_data [OF b(1,3)] b(4) by (simp add: take_Suc_conv_app_nth hd_drop_conv_nth take_Suc)
  ultimately show thesis using that by blast
qed

lemma recalc_ok:
  assumes "buff_ok b1" "dataLen b1 = dataLen b" "dataOff b1 = dataOff b" "tx_frame_ok crc fr" "f_buff fr = Some b"
  shows "\<exists>b2. DTAP_ReCalculateCrcValue crc (fr\<lparr>f_buff := Some b1\<rparr>) = Some (DTAP_SUCCESS, fr\<lparr>f_buff := Some b2\<rparr>)
    \<and> tx_frame_ok crc (fr\<lparr>f_buff := Some b2\<rparr>)"
proof -
  have "2 \<le> dataLen b1" using assms by (auto simp: tx_frame_ok_def)
  then obtain b2 where
    "DTAP_ReCalculateCrcValue crc (fr\<lparr>f_buff := Some b1\<rparr>) = Some (DTAP_SUCCESS, fr\<lparr>f_buff := Some b2\<rparr>)"
    "buff_ok b2" "dataLen b2 = dataLen b1" "dataOff b2 = dataOff b1"
    "buff_data b2 = frame_image crc [] (take (dataLen b1 - 2) (buff_data b1))"
    using DTAP_ReCalculateCrcValue_Some [of "fr\<lparr>f_buff := Some b1\<rparr>" b1 crc] assms(1) by auto
  then show ?thesis using assms by (auto simp: tx_frame_ok_def SDF_BuffHeadRoom_def)
qed

lemma set_bit_ok:
  assumes "tx_frame_ok crc fr"
  shows "\<exists>b. DTAP_SetBitForSendPolling crc fr = Some (fr\<lparr>f_buff := Some b\<rparr>) \<and> tx_frame_ok crc (fr\<lparr>f_buff := Some b\<rparr>)"
    and "\<exists>b. DTAP_SetPbitForSendPolling crc fr = Some (fr\<lparr>f_buff := Some b\<rparr>) \<and> tx_frame_ok crc (fr\<lparr>f_buff := Some b\<rparr>)"
proof -
  obtain b where b: "f_buff fr = Some b" using assms by (auto simp: tx_frame_ok_def)
  let ?x = "DTAP_SetFrameBit (buff_data b ! 1) (drop_bit 4 (buff_data b ! 1) OR 4)"
  obtain b1 where b1: "mem_write b (dataOff b + 1) [?x] = Some b1" "buff_ok b1" "dataLen b1 = dataLen b" "dataOff b1 = dataOff b"
    "mem_read b (dataOff b + 1) 1 = Some [buff_data b ! 1]" using write_header_byte [OF assms b] by blast
  obtain b2 where b2: "DTAP_ReCalculateCrcValue crc (fr\<lparr>f_buff := Some b1\<rparr>) = Some (DTAP_SUCCESS, fr\<lparr>f_buff := Some b2\<rparr>)"
    "tx_frame_ok crc (fr\<lparr>f_buff := Some b2\<rparr>)" using recalc_ok [OF b1(2-4) assms b] by blast
  show "\<exists>b. DTAP_SetBitForSendPolling crc fr = Some (fr\<lparr>f_buff := Some b\<rparr>) \<and> tx_frame_ok crc (fr\<lparr>f_buff := Some b\<rparr>)"
    using b b1 b2 by (intro exI [of _ b2]) (simp add: DTAP_SetBitForSendPolling_def)
  have same: "fr = fr\<lparr>f_buff := Some b\<rparr>" using b by simp
  show "\<exists>b. DTAP_SetPbitForSendPolling crc fr = Some (fr\<lparr>f_buff := Some b\<rparr>) \<and> tx_frame_ok crc (fr\<lparr>f_buff := Some b\<rparr>)"
  proof (cases "drop_bit 4 (buff_data b ! 1) = drop_bit 4 (buff_data b ! 1) OR 4")
    case True
    then have "DTAP_SetPbitForSendPolling crc fr = Some fr" using b b1(5) by (simp add: DTAP_SetPbitForSendPolling_def Let_def)
    then show ?thesis using same assms by metis
  next
    case False
    then show ?thesis using b b1 b2 by (intro exI [of _ b2]) (simp add: DTAP_SetPbitForSendPolling_def Let_def)
  qed
qed

section \<open>Fragments for the queue\<close>

lemma frag_loop_safe:
  assumes "DTAP_GetFrameCtx ft = Some c" "i + length (chunks m d) \<le> 128"
  shows "\<exists>r. frag_loop e ft m cnt i d = Some r
    \<and> (\<forall>fs. r = Some fs \<longrightarrow> length fs = length (chunks m d) \<and> (\<forall>f \<in> set fs. \<exists>s x. fragment_of c s x f))"
  using assms(2)
proof (induction "length d" arbitrary: d i rule: less_induct)
  case less
  show ?case
  proof (cases "d = []")
    case True
    then show ?thesis by (simp add: frag_loop.simps)
  next
    case False
    define n where "n = (if m = 0 then length d else if length d < m then length d else m)"
    have n: "0 < n" "n \<le> length d" using False by (auto simp: n_def)
    have ch: "chunks m d = take n d # chunks m (drop n d)"
      using chunks_unfold [OF False, of m] by (simp add: n_def Let_def)
    have i: "i < 128" using less.prems ch by simp
    show ?thesis
    proof (cases "DTAP_CreateFrame (sub (sub e i) 0) ft = None \<or> SDF_BuffNewWithReserve (sub (sub e i) 1) n = None")
      case True
      then show ?thesis using False by (auto simp: frag_loop.simps [of e ft m cnt i d] Let_def n_def split: option.splits)
    next
      case ok: False
      then have fr: "DTAP_CreateFrame (sub (sub e i) 0) ft = Some (zero_frame\<lparr>f_ctx := c\<rparr>)"
        using assms(1) by (auto simp: DTAP_CreateFrame_def split: option.splits)
      obtain b0 where b0: "SDF_BuffNewWithReserve (sub (sub e i) 1) n = Some b0" using ok by blast
      note i0 = SDF_BuffNewWithReserve_SomeD [OF b0]
      obtain off b1 where ap: "SDF_BuffAppend (Some b0) n = Some (off, b1)"
          "\<And>bs. length bs = n \<Longrightarrow> mem_write b1 off bs = append_bytes b0 bs"
        using append_obtain [of n b0] i0 by auto
      have tr: "length (take n d) \<le> SDF_BuffTailRoom b0" using i0 n by simp
      obtain b2 where b2: "append_bytes b0 (take n d) = Some b2" "buff_ok b2" "buff_data b2 = take n d"
          "dataOff b2 = 14" "SDF_BuffTailRoom b2 = 2" "buffLen b2 = n + 16"
        using append_bytes_Some [OF _ tr] i0 n by (metis add_diff_cancel_left' append_Nil length_take min.absorb2)
      have "length (drop n d) < length d" using n by simp
      from less.hyps [OF this, of "Suc i"] less.prems ch
      obtain r where r: "frag_loop e ft m cnt (Suc i) (drop n d) = Some r"
          "\<forall>fs. r = Some fs \<longrightarrow> length fs = length (chunks m (drop n d)) \<and> (\<forall>f \<in> set fs. \<exists>s x. fragment_of c s x f)"
        by auto
      let ?fr = "zero_frame\<lparr>f_ctx := c, f_buff := Some b2, sar := DTAP_GetFragFrameSar cnt (Suc i)\<rparr>"
      have "frag_loop e ft m cnt i d = Some (map_option ((#) ?fr) r)"
        using False fr b0 ap b2(1) r(1) i n
        by (simp add: frag_loop.simps [of e ft m cnt i d] flip: n_def)
      moreover have "fragment_of c (DTAP_GetFragFrameSar cnt (Suc i)) (take n d) ?fr"
        unfolding fragment_of_def using b2 n by (intro exI [of _ b2]) (simp add: SDF_BuffHeadRoom_def)
      ultimately show ?thesis using r(2) ch by (cases r) auto
    qed
  qed
qed

lemma build_offset:
  "DTAP_BuildDuplexFragFrame fr tcid crc = Some (ret, fr') \<Longrightarrow> f_buff fr = Some b \<Longrightarrow> f_buff fr' = Some b' \<Longrightarrow> dataOff b \<le> dataOff b' + 9"
  "DTAP_BuildSimplexFragFrame fr tcid crc = Some (ret, fr') \<Longrightarrow> f_buff fr = Some b \<Longrightarrow> f_buff fr' = Some b' \<Longrightarrow> dataOff b \<le> dataOff b' + 9"
  by (auto simp: DTAP_BuildDuplexFragFrame_def DTAP_BuildSimplexFragFrame_def append_crc_def mem_write_def Let_def
      split: option.splits bind_splits if_splits prod.splits)

lemma build_fragment:
  assumes "fragment_of ctx s x fr" "ctx \<in> {SimplexFragFrameCtx, DuplexFragFrameCtx}"
  shows "\<exists>fr'. buildFrame e (f_ctx fr) (fr\<lparr>f_bits := p, f_pi := q, txSeq := t, reqSeq := u\<rparr>) tcid crc = Some (DTAP_SUCCESS, fr')
    \<and> txSeq fr' = t \<and> tx_frame_ok crc fr'"
proof -
  obtain b where b: "fr = zero_frame\<lparr>f_ctx := ctx, f_buff := Some b, sar := s\<rparr>" "buff_ok b" "dataOff b = 14" "SDF_BuffTailRoom b = 2"
    using assms(1) by (auto simp: fragment_of_def SDF_BuffHeadRoom_def)
  let ?g = "fr\<lparr>f_bits := p, f_pi := q, txSeq := t, reqSeq := u\<rparr>"
  have g: "f_buff ?g = Some b" "9 \<le> SDF_BuffHeadRoom b" "7 \<le> SDF_BuffHeadRoom b" "2 \<le> SDF_BuffTailRoom b"
    using b by (simp_all add: SDF_BuffHeadRoom_def)
  show ?thesis
  proof (cases "ctx = DuplexFragFrameCtx")
    case True
    obtain b' old where "DTAP_BuildDuplexFragFrame ?g tcid crc = Some (DTAP_SUCCESS, ?g\<lparr>f_buff := Some b'\<rparr>)" "buff_ok b'" "dataLen b' = dataLen b + 11"
      "buff_data b' = frame_image crc (DuplexFragHeader ?g tcid (dataLen b) old) (buff_data b)"
      using DTAP_BuildDuplexFragFrame_Some [OF g(1) b(2) g(2,4), of tcid crc] by metis
    moreover from this(1) g(1) have "dataOff b \<le> dataOff b' + 9" by (rule build_offset(1)) simp
    ultimately show ?thesis using True b by (intro exI [of _ "?g\<lparr>f_buff := Some b'\<rparr>"]) (simp add: tx_frame_ok_def SDF_BuffHeadRoom_def)
  next
    case False
    obtain b' old where "DTAP_BuildSimplexFragFrame ?g tcid crc = Some (DTAP_SUCCESS, ?g\<lparr>f_buff := Some b'\<rparr>)" "buff_ok b'" "dataLen b' = dataLen b + 9"
      "buff_data b' = frame_image crc (SimplexFragHeader ?g tcid (dataLen b) old) (buff_data b)"
      using DTAP_BuildSimplexFragFrame_Some [OF g(1) b(2) g(3,4), of tcid crc] by metis
    moreover from this(1) g(1) have "dataOff b \<le> dataOff b' + 9" by (rule build_offset(2)) simp
    ultimately show ?thesis using False assms(2) b
      by (intro exI [of _ "?g\<lparr>f_buff := Some b'\<rparr>"]) (simp add: tx_frame_ok_def SDF_BuffHeadRoom_def)
  qed
qed

lemma pack_ok:
  assumes "\<forall>f \<in> set frs. \<exists>s x. fragment_of ctx s x f" "ctx \<in> {SimplexFragFrameCtx, DuplexFragFrameCtx}" "seq_ok seq"
  shows "\<exists>gs. pack_loop e k c q crc ack seq frs = Some (DTAP_SUCCESS, gs) \<and> length gs = length frs
    \<and> map txSeq gs = map (seq_add seq) [0 ..< length frs] \<and> (\<forall>g \<in> set gs. tx_frame_ok crc g)"
  using assms(1,3)
proof (induction frs arbitrary: k seq)
  case (Cons fr frs)
  obtain s x where "fragment_of ctx s x fr" using Cons.prems by auto
  from build_fragment [OF this assms(2)] obtain fr' where
    fr': "buildFrame (sub e k) (f_ctx fr) (fr\<lparr>f_bits := 2, f_pi := q, txSeq := seq, reqSeq := ack\<rparr>) (dstTcid c) crc = Some (DTAP_SUCCESS, fr')"
    "txSeq fr' = seq" "tx_frame_ok crc fr'" by blast
  obtain gs where gs: "pack_loop e (Suc k) c q crc ack (DTAP_GetNextFrameSeq seq) frs = Some (DTAP_SUCCESS, gs)" "length gs = length frs"
    "map txSeq gs = map (seq_add (seq_add seq 1)) [0 ..< length frs]" "\<forall>g \<in> set gs. tx_frame_ok crc g"
    using Cons.IH [of "seq_add seq 1" "Suc k"] Cons.prems by (auto simp: DTAP_GetNextFrameSeq_eq)
  have "map (seq_add seq) [0 ..< Suc (length frs)] = seq # map (seq_add (seq_add seq 1)) [0 ..< length frs]"
    using Cons.prems(2) by (simp add: upt_conv_Cons map_Suc_upt [symmetric] comp_def del: upt_Suc)
  then show ?case using fr' gs by (intro exI [of _ "fr' # gs"]) (simp del: upt_Suc)
qed simp

section \<open>The port to the scheduler\<close>

text \<open>The channel is alive and the scheduler well-formed; what sending keeps of the module.\<close>

definition port_ok :: "nat \<Rightarrow> dtap \<Rightarrow> bool" where
  "port_ok a d \<longleftrightarrow> sched_ok (dp d) \<and> data_chans (dp d) a \<noteq> None"

definition port_to :: "dtap \<Rightarrow> dtap \<Rightarrow> bool" where
  "port_to d d' \<longleftrightarrow> (sched_ok (dp d) \<longrightarrow> sched_ok (dp d')) \<and> data_chans (dp d') = data_chans (dp d) \<and> ups d' = ups d"

lemma port_to_refl [simp]: "port_to d d"
  by (simp add: port_to_def)

lemma port_to_trans [trans]: "port_to d d' \<Longrightarrow> port_to d' d'' \<Longrightarrow> port_to d d''"
  by (simp add: port_to_def)

lemma port_to_ok: "port_to d d' \<Longrightarrow> port_ok a d \<Longrightarrow> port_ok a d'"
  by (simp add: port_to_def port_ok_def)

lemma port_to_dp: "dp d' = dp d \<Longrightarrow> ups d' = ups d \<Longrightarrow> port_to d d'"
  by (simp add: port_to_def)

lemma send_frame_ok:
  assumes "port_ok a d" "\<And>b'. b = Some b' \<Longrightarrow> buff_ok b' \<and> DLI_HEADER \<le> SDF_BuffHeadRoom b'"
  shows "\<exists>ret d'. DTAP_SendFrame e a b d = Some (ret, d') \<and> port_to d d'"
proof (cases b)
  case None
  then have "\<exists>ret. DTAP_DataSendWithPriority e (Some a) b (dp d) = Some (ret, dp d)" by (simp add: DTAP_DataSendWithPriority_def)
  then obtain ret where "DTAP_DataSendWithPriority e (Some a) b (dp d) = Some (ret, dp d)" by blast
  then have "\<exists>ret'. DTAP_SendFrame e a b d = Some (ret', d)" by (simp add: DTAP_SendFrame_def)
  then show ?thesis using port_to_refl by blast
next
  case (Some b')
  then obtain r t where "DTAP_DataSendWithPriority e (Some a) b (dp d) = Some (r, t)" "sched_ok t" "data_chans t = data_chans (dp d)"
    using data_send_ok [of "dp d" a b' e] assms by (auto simp: port_ok_def)
  moreover from this have "\<exists>ret'. DTAP_SendFrame e a b d = Some (ret', d\<lparr>dp := t\<rparr>)" by (simp add: DTAP_SendFrame_def)
  moreover have "port_to d (d\<lparr>dp := t\<rparr>)" using calculation by (simp add: port_to_def)
  ultimately show ?thesis by blast
qed

lemma send_copy_ok:
  assumes "port_ok a d" "tx_frame_ok crc fr"
  shows "\<exists>ret d'. DTAP_SendFrame e a (SDF_BuffCopy e' (f_buff fr)) d = Some (ret, d') \<and> port_to d d'"
proof (rule send_frame_ok [OF assms(1)])
  fix b' assume "SDF_BuffCopy e' (f_buff fr) = Some b'"
  then show "buff_ok b' \<and> DLI_HEADER \<le> SDF_BuffHeadRoom b'"
    using assms(2) SDF_BuffCopy_Some [of e' _ b'] by (auto simp: tx_frame_ok_def SDF_BuffHeadRoom_def simp del: SDF_BuffCopy.simps)
qed

lemma release_keeps:
  "DTAP_DynTransChannReleaseReq e c r d = (r', d') \<Longrightarrow> port_to d d' \<and> txWindow r' = txWindow r \<and> rc_crcInit r' = rc_crcInit r \<and> rx_part r' = rx_part r"
  by (auto simp: DTAP_DynTransChannReleaseReq_def port_to_def split: if_splits)

lemma fr_upd_seqs: "(\<And>f. txSeq f = seq \<Longrightarrow> txSeq (g f) = seq) \<Longrightarrow> map txSeq (fr_upd seq g frs) = map txSeq frs"
  by (induction frs) simp_all

lemma fr_upd_all: "\<forall>f \<in> set frs. P f \<Longrightarrow> (\<And>f. f \<in> set frs \<Longrightarrow> txSeq f = seq \<Longrightarrow> P (g f)) \<Longrightarrow> \<forall>f \<in> set (fr_upd seq g frs). P f"
  by (induction frs) (simp_all split: if_splits)

lemma tx_ok_upd_frame:
  assumes ok: "tx_ok r" and g: "\<And>f. txSeq f = seq \<Longrightarrow> txSeq (g f) = seq"
    and P: "\<And>f. f \<in> set (txList (txWindow r)) \<Longrightarrow> txSeq f = seq \<Longrightarrow> tx_frame_ok (rc_crcInit r) (g f)"
  shows "tx_ok (upd_frame seq g r)"
proof -
  let ?fs = "txList (txWindow r)"
  have s: "map txSeq (fr_upd seq g ?fs) = map txSeq ?fs" using g by (rule fr_upd_seqs)
  moreover have "length (fr_upd seq g ?fs) = length ?fs" using arg_cong [OF s, of length] by simp
  moreover have "\<forall>f \<in> set (fr_upd seq g ?fs). tx_frame_ok (rc_crcInit r) f"
    by (rule fr_upd_all) (use ok P in \<open>auto simp: tx_ok_def Let_def\<close>)
  ultimately show ?thesis using ok by (simp add: tx_ok_def Let_def upd_frame_def del: map_eq_conv)
qed

lemma upd_frame_simps [simp]:
  "rc_crcInit (upd_frame s g r) = rc_crcInit r" "rx_part (upd_frame s g r) = rx_part r"
  "tw_size (txWindow (upd_frame s g r)) = tw_size (txWindow r)" "reTxSeq (upd_frame s g r) = reTxSeq r" "maxTxThreshold (upd_frame s g r) = maxTxThreshold r"
  by (simp_all add: upd_frame_def)

lemma tx_frame_ok_cnt: "tx_frame_ok crc (f\<lparr>reTxCnt := n\<rparr>) = tx_frame_ok crc f"
  by (simp add: tx_frame_ok_def)

text \<open>What an operation of the sending side guarantees.\<close>

definition tx_to :: "DTAP_ReliableChannel \<Rightarrow> dtap \<Rightarrow> DTAP_ReliableChannel \<Rightarrow> dtap \<Rightarrow> bool" where
  "tx_to r d r' d' \<longleftrightarrow> tx_ok r' \<and> port_to d d' \<and> rx_part r' = rx_part r \<and> rc_crcInit r' = rc_crcInit r
     \<and> tw_size (txWindow r') = tw_size (txWindow r)"

lemma retrans_ok:
  assumes ok: "tx_ok r" "port_ok a d"
  shows "\<exists>ret r' d'. DTAP_RetransEnhanceFrame e a c r d = Some (ret, r', d') \<and> tx_to r d r' d'
    \<and> map txSeq (txList (txWindow r')) = map txSeq (txList (txWindow r)) \<and> nextTxSeq (txWindow r') = nextTxSeq (txWindow r)"
proof (cases "DTAP_FindFrameBySeq (txList (txWindow r)) (reTxSeq r)")
  case None
  then show ?thesis using ok by (simp add: DTAP_RetransEnhanceFrame_def tx_to_def)
next
  case (Some fr)
  then have fr: "fr \<in> set (txList (txWindow r))" "txSeq fr = reTxSeq r" by (auto simp: DTAP_FindFrameBySeq_def find_Some_iff)
  have fok: "tx_frame_ok (rc_crcInit r) fr" using ok(1) fr(1) by (simp add: tx_ok_def Let_def)
  show ?thesis
  proof (cases "reTxCnt fr \<ge> maxTxThreshold r")
    case True
    obtain r1 d1 where "DTAP_DynTransChannReleaseReq (sub e 0) c r d = (r1, d1)" by fastforce
    then show ?thesis using Some True ok(1) release_keeps [of "sub e 0" c r d r1 d1] tx_ok_cong [of r1 r]
      by (auto simp: DTAP_RetransEnhanceFrame_def tx_to_def)
  next
    case False
    obtain b where b: "DTAP_SetPbitForSendPolling (rc_crcInit r) fr = Some (fr\<lparr>f_buff := Some b\<rparr>)" "tx_frame_ok (rc_crcInit r) (fr\<lparr>f_buff := Some b\<rparr>)"
      using set_bit_ok(2) [OF fok] by blast
    let ?g = "fr\<lparr>f_buff := Some b\<rparr>"
    define r1 where "r1 = upd_frame (reTxSeq r) (\<lambda>_. ?g) r"
    have g: "txSeq ?g = reTxSeq r" using fr(2) by simp
    have r1: "tx_ok r1" unfolding r1_def using g b(2) by (intro tx_ok_upd_frame [OF ok(1)]) auto
    have m1: "map txSeq (txList (txWindow r1)) = map txSeq (txList (txWindow r))" "nextTxSeq (txWindow r1) = nextTxSeq (txWindow r)"
      using fr_upd_seqs [of "reTxSeq r" "\<lambda>_. ?g" "txList (txWindow r)"] g by (simp_all add: r1_def upd_frame_def)
    have p1: "rc_crcInit r1 = rc_crcInit r" "rx_part r1 = rx_part r" "tw_size (txWindow r1) = tw_size (txWindow r)"
      by (simp_all add: r1_def)
    show ?thesis
    proof (cases "SDF_BuffCopy (sub e 1) (f_buff ?g)")
      case None
      then show ?thesis using Some False b(1) r1 m1 p1 by (simp add: DTAP_RetransEnhanceFrame_def tx_to_def Let_def flip: r1_def del: SDF_BuffCopy.simps)
    next
      case (Some cp)
      have "buff_ok cp \<and> DLI_HEADER \<le> SDF_BuffHeadRoom cp"
        using b(2) SDF_BuffCopy_Some [of "sub e 1" b cp] Some by (auto simp: tx_frame_ok_def SDF_BuffHeadRoom_def simp del: SDF_BuffCopy.simps)
      then obtain ret d1 where s: "DTAP_SendFrame (sub e 2) a (Some cp) d = Some (ret, d1)" "port_to d d1"
        using send_frame_ok [OF ok(2), of "Some cp" "sub e 2"] by auto
      show ?thesis
      proof (cases "ret = DTAP_SUCCESS")
        case f: False
        show ?thesis using \<open>DTAP_FindFrameBySeq _ _ = Some fr\<close> False b(1) Some s f r1 m1 p1
          by (simp add: DTAP_RetransEnhanceFrame_def tx_to_def Let_def flip: r1_def del: SDF_BuffCopy.simps)
      next
        case True
        define cnt where "cnt = (reTxCnt ?g + 1) mod 256"
        define r2 where "r2 = upd_frame (reTxSeq r) (\<lambda>f. f\<lparr>reTxCnt := cnt\<rparr>) r1"
        have r2: "tx_ok r2" unfolding r2_def using r1
          by (intro tx_ok_upd_frame) (auto simp: tx_frame_ok_cnt tx_ok_def Let_def)
        have m2: "map txSeq (txList (txWindow r2)) = map txSeq (txList (txWindow r1))" "nextTxSeq (txWindow r2) = nextTxSeq (txWindow r1)"
          using fr_upd_seqs [of "reTxSeq r" "\<lambda>f. f\<lparr>reTxCnt := cnt\<rparr>" "txList (txWindow r1)"]
          by (simp_all add: r2_def upd_frame_def)
        have p2: "rc_crcInit r2 = rc_crcInit r1" "rx_part r2 = rx_part r1" "tw_size (txWindow r2) = tw_size (txWindow r1)"
          by (simp_all add: r2_def)
        obtain r3 d2 where t1: "(if getFrameType (f_ctx ?g) = 4 then restart_rsp (sub e 3) c r2 d1 else (r2, d1)) = (r3, d2)" by fastforce
        have k1: "dp d2 = dp d1 \<and> ups d2 = ups d1 \<and> txWindow r3 = txWindow r2 \<and> rc_crcInit r3 = rc_crcInit r2 \<and> rx_part r3 = rx_part r2"
          using t1 timer_simps(1) [of "sub e 3" c r2 d1 r3 d2] by (auto split: if_splits)
        obtain r4 d3 where t2: "restart_retrans (sub e 4) c (DTAP_CalculateRetransTimeout (rc_retransTimeout r3) cnt) r3 d2 = (r4, d3)" by fastforce
        note k2 = timer_simps(2) [OF t2]
        have "DTAP_RetransEnhanceFrame e a c r d = Some (DTAP_SUCCESS, r4, d3)"
          using \<open>DTAP_FindFrameBySeq _ _ = Some fr\<close> False b(1) Some s True t1 [unfolded r2_def cnt_def r1_def] t2 [unfolded cnt_def]
          by (cases "getFrameType (f_ctx fr) = 4") (simp_all add: DTAP_RetransEnhanceFrame_def Let_def del: SDF_BuffCopy.simps)
        moreover have "tx_ok r4" using r2 k1 k2 tx_ok_cong [of r4 r2] by simp
        moreover have "port_to d d3" using s(2) k1 k2 by (simp add: port_to_def)
        ultimately show ?thesis using k1 k2 m1 m2 p1 p2 by (simp add: tx_to_def)
      qed
    qed
  qed
qed


section \<open>Sending new frames\<close>

lemma tx_ok_append:
  assumes "tx_ok r" "tx_frame_ok (rc_crcInit r) fr" "txSeq fr = nextTxSeq (txWindow r)" "length (txList (txWindow r)) < tw_size (txWindow r)"
    and "txWindow r' = (txWindow r)\<lparr>nextTxSeq := DTAP_GetNextFrameSeq (nextTxSeq (txWindow r)), txList := txList (txWindow r) @ [fr]\<rparr>"
    and "rc_crcInit r' = rc_crcInit r"
  shows "tx_ok r'"
  using assms by (auto simp: tx_ok_def Let_def DTAP_GetNextFrameSeq_eq)

lemma polling_keeps: "DTAP_TriggerSendPolling r = (p, r') \<Longrightarrow> txWindow r' = txWindow r \<and> rc_crcInit r' = rc_crcInit r \<and> rx_part r' = rx_part r"
  by (auto simp: DTAP_TriggerSendPolling_def split: if_splits)

lemma send_new_ok:
  assumes "tx_ok r" "port_ok a d" "\<forall>f \<in> set frs. tx_frame_ok (rc_crcInit r) f"
    and "map txSeq frs = map (seq_add (nextTxSeq (txWindow r))) [0 ..< length frs]"
    and "length (txList (txWindow r)) + length frs \<le> tw_size (txWindow r)"
  shows "\<exists>b r' d'. send_new e k a frs reset r d = Some (b, r', d') \<and> tx_to r d r' d'
    \<and> map txSeq (txList (txWindow r')) = map txSeq (txList (txWindow r)) @ map txSeq frs"
  using assms
proof (induction frs arbitrary: k reset r d)
  case Nil
  then show ?case by (simp add: tx_to_def)
next
  case (Cons fr frs)
  obtain p r1 where p: "DTAP_TriggerSendPolling r = (p, r1)" by fastforce
  note k1 = polling_keeps [OF p]
  have fok: "tx_frame_ok (rc_crcInit r1) fr" using Cons.prems(3) k1 by simp
  obtain fr1 where fr1: "(if p then DTAP_SetBitForSendPolling (rc_crcInit r1) fr else Some fr) = Some fr1"
    "tx_frame_ok (rc_crcInit r1) fr1" "txSeq fr1 = txSeq fr"
    using set_bit_ok(1) [OF fok] fok by (cases p) auto
  have sq: "seq_ok (nextTxSeq (txWindow r))" using Cons.prems(1) by (simp add: tx_ok_def Let_def)
  have hd: "txSeq fr = nextTxSeq (txWindow r)" "map txSeq frs = map (seq_add (seq_add (nextTxSeq (txWindow r)) 1)) [0 ..< length frs]"
  proof -
    have "map (seq_add (nextTxSeq (txWindow r))) [0 ..< Suc (length frs)]
      = nextTxSeq (txWindow r) # map (seq_add (seq_add (nextTxSeq (txWindow r)) 1)) [0 ..< length frs]"
      using sq by (simp add: upt_conv_Cons map_Suc_upt [symmetric] comp_def del: upt_Suc)
    then show "txSeq fr = nextTxSeq (txWindow r)" "map txSeq frs = map (seq_add (seq_add (nextTxSeq (txWindow r)) 1)) [0 ..< length frs]"
      using Cons.prems(4) by (simp_all del: upt_Suc)
  qed
  obtain ret d1 where s: "DTAP_SendFrame (sub (sub e k) 1) a (SDF_BuffCopy (sub (sub e k) 0) (f_buff fr1)) d = Some (ret, d1)" "port_to d d1"
    using send_copy_ok [OF Cons.prems(2) fr1(2)] by blast
  define r2 where "r2 = tw_upd (\<lambda>w. w\<lparr>nextTxSeq := DTAP_GetNextFrameSeq (nextTxSeq w), txList := txList w @ [fr1]\<rparr>)
          (r1\<lparr>reTxSeq := DTAP_GetNextFrameSeq (reTxSeq r1)\<rparr>)"
  have w2: "txWindow r2 = (txWindow r)\<lparr>nextTxSeq := DTAP_GetNextFrameSeq (nextTxSeq (txWindow r)), txList := txList (txWindow r) @ [fr1]\<rparr>"
    "rc_crcInit r2 = rc_crcInit r" "rx_part r2 = rx_part r"
    using k1 by (simp_all add: r2_def)
  have ok2: "tx_ok r2"
    by (rule tx_ok_append [OF Cons.prems(1), of fr1]) (use fr1 hd k1 w2 Cons.prems(5) in auto)
  have pre: "port_ok a d1" "\<forall>f \<in> set frs. tx_frame_ok (rc_crcInit r2) f"
    "map txSeq frs = map (seq_add (nextTxSeq (txWindow r2))) [0 ..< length frs]"
    "length (txList (txWindow r2)) + length frs \<le> tw_size (txWindow r2)"
    using port_to_ok [OF s(2) Cons.prems(2)] Cons.prems(3,5) hd(2) w2 sq by (simp_all add: DTAP_GetNextFrameSeq_eq)
  obtain b r' d' where u: "send_new e (Suc k) a frs (reset \<or> ret = DTAP_SUCCESS) r2 d1 = Some (b, r', d')" "tx_to r2 d1 r' d'"
    "map txSeq (txList (txWindow r')) = map txSeq (txList (txWindow r2)) @ map txSeq frs"
    using Cons.IH [OF ok2 pre] by blast
  have "send_new e k a (fr # frs) reset r d = Some (b, r', d')"
    using p fr1(1) s(1) u(1) by (simp add: r2_def del: SDF_BuffCopy.simps)
  moreover have "tx_to r d r' d'" using u(2) w2 port_to_trans [OF s(2)] by (auto simp: tx_to_def)
  ultimately show ?case using u(3) w2(1) fr1(3) by simp
qed

lemma start_timer_keeps: "DTAP_TransStartTimer e kd c x h d = (ok, h', d') \<Longrightarrow> dp d' = dp d \<and> ups d' = ups d"
  by (auto simp: DTAP_TransStartTimer_def split: option.splits)

lemma tx_to_weaken: "tx_to r0 d0 r d \<Longrightarrow> txWindow r' = txWindow r \<Longrightarrow> rc_crcInit r' = rc_crcInit r \<Longrightarrow> rx_part r' = rx_part r \<Longrightarrow> port_to d d' \<Longrightarrow> tx_to r0 d0 r' d'"
  using tx_ok_cong [of r' r] port_to_trans by (auto simp: tx_to_def)

lemma send_inner_ok:
  assumes ok: "tx_ok r" "port_ok a d" and frs: "\<forall>f \<in> set frs. tx_frame_ok (rc_crcInit r) f"
    "map txSeq frs = map (seq_add (nextTxSeq (txWindow r))) [0 ..< length frs]"
    "length (txList (txWindow r)) + length frs \<le> tw_size (txWindow r)" "length frs \<le> 128"
  shows "\<exists>ret r' d'. DTAP_SendEnhanceFrameInner e a c frs r d = Some (ret, r', d') \<and> tx_to r d r' d'
    \<and> map txSeq (txList (txWindow r')) = map txSeq (txList (txWindow r)) @ (if ret = DTAP_SUCCESS then map txSeq frs else [])"
proof -
  define pre where "pre = (if DTAP_IsFrameSeqSmaller (reTxSeq r) (nextTxSeq (txWindow r)) then do {
             (ret, r1, d1) \<leftarrow> DTAP_RetransEnhanceFrame (sub e 0) a c r d;
             if ret = DTAP_TRANS_RELIABLE_REACH_MAX_RE_TX_CNT_ERR then Some (ret, False, r1, d1)
             else Some (DTAP_SUCCESS, ret = DTAP_SUCCESS, r1\<lparr>reTxSeq := nextTxSeq (txWindow r1)\<rparr>, d1)
           }
           else Some (DTAP_SUCCESS, False, r, d))"
  obtain ret reset r1 d1 where pre: "pre = Some (ret, reset, r1, d1)" "tx_to r d r1 d1"
    "map txSeq (txList (txWindow r1)) = map txSeq (txList (txWindow r))" "nextTxSeq (txWindow r1) = nextTxSeq (txWindow r)"
  proof (cases "DTAP_IsFrameSeqSmaller (reTxSeq r) (nextTxSeq (txWindow r))")
    case True
    obtain ret r1 d1 where t: "DTAP_RetransEnhanceFrame (sub e 0) a c r d = Some (ret, r1, d1)" "tx_to r d r1 d1"
      "map txSeq (txList (txWindow r1)) = map txSeq (txList (txWindow r))" "nextTxSeq (txWindow r1) = nextTxSeq (txWindow r)"
      using retrans_ok [OF ok, of "sub e 0" c] by blast
    have "tx_to r d (r1\<lparr>reTxSeq := x\<rparr>) d1" for x by (rule tx_to_weaken [OF t(2)]) simp_all
    then show thesis using that t True
      by (cases "ret = DTAP_TRANS_RELIABLE_REACH_MAX_RE_TX_CNT_ERR") (auto simp: pre_def)
  next
    case False
    then show thesis using that ok by (auto simp: pre_def tx_to_def)
  qed
  have eq: "DTAP_SendEnhanceFrameInner e a c frs r d = pre \<bind> (\<lambda>(ret, reset, r1, d1).
        if ret \<noteq> DTAP_SUCCESS then Some (ret, r1, d1)
        else do {
          (reset', r2, d2) \<leftarrow> send_new (sub e 1) 0 a frs reset r1 d1;
          let (r3, d3) = (if reset' \<and> isRecvFrame r2 then restart_rsp (sub e 2) c r2 d2 else (r2, d2));
          let (r4, d4) = (if retransTimer r3 = INVALID_TIMER_HANDLE then
              (case DTAP_TransStartTimer (sub e 3) RetransTimer c (rc_retransTimeout r3) (retransTimer r3) d3 of
                 (ok, h, d') \<Rightarrow> (r3\<lparr>retransTimer := h\<rparr>, d'))
            else (r3, d3));
          Some (DTAP_SUCCESS, r4, d4)
        })"
    unfolding DTAP_SendEnhanceFrameInner_def pre_def using frs(4) by simp
  show ?thesis
  proof (cases "ret = DTAP_SUCCESS")
    case False
    then show ?thesis using eq pre by auto
  next
    case True
    have lens: "length (txList (txWindow r1)) = length (txList (txWindow r))" using arg_cong [OF pre(3), of length] by simp
    have p1: "tx_ok r1" "port_ok a d1" "\<forall>f \<in> set frs. tx_frame_ok (rc_crcInit r1) f"
      "map txSeq frs = map (seq_add (nextTxSeq (txWindow r1))) [0 ..< length frs]"
      "length (txList (txWindow r1)) + length frs \<le> tw_size (txWindow r1)"
      using pre(2,4) frs ok(2) lens port_to_ok by (auto simp: tx_to_def)
    obtain b r2 d2 where s: "send_new (sub e 1) 0 a frs reset r1 d1 = Some (b, r2, d2)" "tx_to r1 d1 r2 d2"
      "map txSeq (txList (txWindow r2)) = map txSeq (txList (txWindow r1)) @ map txSeq frs" using send_new_ok [OF p1] by blast
    obtain r3 d3 where t3: "(if b \<and> isRecvFrame r2 then restart_rsp (sub e 2) c r2 d2 else (r2, d2)) = (r3, d3)" by fastforce
    have k3: "dp d3 = dp d2 \<and> ups d3 = ups d2 \<and> txWindow r3 = txWindow r2 \<and> rc_crcInit r3 = rc_crcInit r2 \<and> rx_part r3 = rx_part r2"
      using t3 timer_simps(1) [of "sub e 2" c r2 d2 r3 d3] by (auto split: if_splits)
    obtain r4 d4 where t4: "(if retransTimer r3 = -1 then
              (case DTAP_TransStartTimer (sub e 3) RetransTimer c (rc_retransTimeout r3) (retransTimer r3) d3 of
                 (ok, h, d') \<Rightarrow> (r3\<lparr>retransTimer := h\<rparr>, d')) else (r3, d3)) = (r4, d4)" by fastforce
    have k4: "dp d4 = dp d3 \<and> ups d4 = ups d3 \<and> txWindow r4 = txWindow r3 \<and> rc_crcInit r4 = rc_crcInit r3 \<and> rx_part r4 = rx_part r3"
      using t4 by (auto split: if_splits prod.splits dest: start_timer_keeps)
    have "DTAP_SendEnhanceFrameInner e a c frs r d = Some (DTAP_SUCCESS, r4, d4)"
      unfolding eq pre(1) using True s(1) t3 t4 by (simp add: Let_def)
    moreover have "tx_to r d r2 d2" using pre(2) s(2) port_to_trans by (auto simp: tx_to_def)
    then have "tx_to r d r4 d4" by (rule tx_to_weaken) (use k3 k4 in \<open>auto intro: port_to_dp\<close>)
    ultimately show ?thesis using s(3) pre(3) k3 k4 by simp
  qed
qed

lemma fragment_frame_safe:
  assumes "buff_ok b" "0 < dataLen b" "dataLen b \<le> 65535" "0 < m" "DTAP_GetFragmentFramesNum (dataLen b) m \<le> 128"
    and "ctx \<in> {SimplexFragFrameCtx, DuplexFragFrameCtx}"
  shows "\<exists>fs n. DTAP_FragmentFrame e (Some b) m (getFrameType ctx) = Some (fs, n)
    \<and> (n = 0 \<or> n = DTAP_GetFragmentFramesNum (dataLen b) m \<and> length fs = n \<and> (\<forall>f \<in> set fs. \<exists>s x. fragment_of ctx s x f))"
proof -
  let ?n = "DTAP_GetFragmentFramesNum (dataLen b) m"
  have n: "?n = length (chunks m (buff_data b))" using DTAP_GetFragmentFramesNum_chunks assms by blast
  obtain r where r: "frag_loop e (getFrameType ctx) m ?n 0 (buff_data b) = Some r"
    "\<forall>fs. r = Some fs \<longrightarrow> length fs = length (chunks m (buff_data b)) \<and> (\<forall>f \<in> set fs. \<exists>s x. fragment_of ctx s x f)"
    using frag_loop_safe [of "getFrameType ctx" ctx 0 m "buff_data b" e ?n] assms(5) n by auto
  have "DTAP_FragmentFrame e (Some b) m (getFrameType ctx) = Some (case r of None \<Rightarrow> ([], 0) | Some fs \<Rightarrow> (fs, ?n))"
    using r(1) assms(2,5,6) by (auto simp: DTAP_FragmentFrame_def Let_def)
  then show ?thesis using r(2) n by (cases r) auto
qed

lemma frames_num_0: "0 < m \<Longrightarrow> DTAP_GetFragmentFramesNum 0 m = 0"
  by (simp add: DTAP_GetFragmentFramesNum_def to_u16_def)

lemma pack_enhance_ok:
  assumes "tx_ok r" "buff_ok b" "dataLen b \<le> 65535" "0 < m" "DTAP_GetFragmentFramesNum (dataLen b) m \<le> 128"
  shows "\<exists>ret gs. DTAP_PackEnhanceFrames e c r q (Some b) m = Some (ret, gs)
    \<and> (ret = DTAP_SUCCESS \<longrightarrow> length gs = DTAP_GetFragmentFramesNum (dataLen b) m
        \<and> map txSeq gs = map (seq_add (nextTxSeq (txWindow r))) [0 ..< length gs] \<and> (\<forall>g \<in> set gs. tx_frame_ok (rc_crcInit r) g))"
proof (cases "dataLen b = 0")
  case True
  then show ?thesis by (simp add: DTAP_PackEnhanceFrames_def DTAP_FragmentFrame_def)
next
  case False
  define ctx where "ctx = (if isRecvFrame r then DuplexFragFrameCtx else SimplexFragFrameCtx)"
  have cx: "ctx \<in> {SimplexFragFrameCtx, DuplexFragFrameCtx}" "getFrameType ctx = (if isRecvFrame r then 4 else 2)" by (simp_all add: ctx_def)
  obtain fs n where fs: "DTAP_FragmentFrame (sub e 0) (Some b) m (getFrameType ctx) = Some (fs, n)"
    "n = 0 \<or> n = DTAP_GetFragmentFramesNum (dataLen b) m \<and> length fs = n \<and> (\<forall>f \<in> set fs. \<exists>s x. fragment_of ctx s x f)"
    using fragment_frame_safe [OF assms(2) _ assms(3-5) cx(1)] False by blast
  have sq: "seq_ok (nextTxSeq (txWindow r))" using assms(1) by (simp add: tx_ok_def Let_def)
  show ?thesis
  proof (cases "n = 0")
    case True
    then show ?thesis using fs(1) cx(2) by (simp add: DTAP_PackEnhanceFrames_def)
  next
    case n: False
    then obtain gs where "pack_loop (sub e 1) 0 c q (rc_crcInit r) (expectedTxSeq (rxWindow r)) (nextTxSeq (txWindow r)) fs = Some (DTAP_SUCCESS, gs)"
      "length gs = length fs" "map txSeq gs = map (seq_add (nextTxSeq (txWindow r))) [0 ..< length fs]" "\<forall>g \<in> set gs. tx_frame_ok (rc_crcInit r) g"
      using pack_ok [OF _ cx(1) sq, of fs "sub e 1" 0 c q "rc_crcInit r" "expectedTxSeq (rxWindow r)"] fs(2) by blast
    then show ?thesis using fs n cx(2) by (simp add: DTAP_PackEnhanceFrames_def)
  qed
qed

definition cache_ok :: "DTAP_ReliableChannel \<Rightarrow> bool" where
  "cache_ok r \<longleftrightarrow> (\<forall>b. cacheBuff r = Some b \<longrightarrow> buff_ok b \<and> dataLen b \<le> 65535)"

definition rel_to :: "DTAP_ReliableChannel \<Rightarrow> dtap \<Rightarrow> DTAP_ReliableChannel \<Rightarrow> dtap \<Rightarrow> bool" where
  "rel_to r d r' d' \<longleftrightarrow> tx_ok r' \<and> cache_ok r' \<and> port_to d d' \<and> rc_crcInit r' = rc_crcInit r \<and> tw_size (txWindow r') = tw_size (txWindow r)
     \<and> rxWindow r' = rxWindow r \<and> frags r' = frags r \<and> isRxWindowFull r' = isRxWindowFull r"

lemma tx_to_rel: "tx_to r d r' d' \<Longrightarrow> cache_ok r \<Longrightarrow> rel_to r d r' d'"
  by (auto simp: tx_to_def rel_to_def cache_ok_def)

lemma rel_to_trans: "rel_to r d r' d' \<Longrightarrow> rel_to r' d' r'' d'' \<Longrightarrow> rel_to r d r'' d''"
  using port_to_trans by (auto simp: rel_to_def)

lemma send_enhance_ok:
  assumes ok: "tx_ok r" "cache_ok r" "port_ok a d" and b: "buff_ok b" "dataLen b \<le> 65535"
  shows "\<exists>ret r' d'. DTAP_SendEnhanceFrame e a c q b r d = Some (ret, r', d') \<and> rel_to r d r' d'"
proof -
  let ?m = "mps c - enhance_headerLen r - 2"
  let ?n = "DTAP_GetFragmentFramesNum (dataLen b) ?m"
  have self: "rel_to r d r d" using ok by (simp add: rel_to_def)
  consider "mps c \<le> enhance_headerLen r + 2" | "mps c > enhance_headerLen r + 2" "?n > 128"
    | "mps c > enhance_headerLen r + 2" "?n \<le> 128" "length (txList (txWindow r)) + ?n > tw_size (txWindow r)"
    | "mps c > enhance_headerLen r + 2" "?n \<le> 128" "length (txList (txWindow r)) + ?n \<le> tw_size (txWindow r)" by linarith
  then show ?thesis
  proof cases
    case 1
    then show ?thesis using self by (simp add: DTAP_SendEnhanceFrame_def)
  next
    case 2
    then show ?thesis using self by (simp add: DTAP_SendEnhanceFrame_def Let_def)
  next
    case 3
    let ?r = "(if cacheBuff r = None then r\<lparr>cacheBuff := SDF_BuffCopy (sub e 0) (Some b), cachePi := q\<rparr> else r)\<lparr>isTxWindowFull := True\<rparr>"
    have "cache_ok ?r" using ok(2) b SDF_BuffCopy_Some [of "sub e 0" b] by (auto simp: cache_ok_def simp del: SDF_BuffCopy.simps)
    moreover have "tx_ok ?r" using ok(1) tx_ok_cong [of ?r r] by simp
    ultimately have "rel_to r d ?r d" by (simp add: rel_to_def)
    moreover have "DTAP_SendEnhanceFrame e a c q b r d = Some (DTAP_TRANS_RELIABLE_TX_WINDOW_FULL, ?r, d)"
      using 3 by (simp add: DTAP_SendEnhanceFrame_def Let_def del: SDF_BuffCopy.simps)
    ultimately show ?thesis by blast
  next
    case 4
    define r1 where "r1 = (if length (txList (txWindow r)) + ?n = tw_size (txWindow r) then r\<lparr>isTxWindowFull := True\<rparr> else r)"
    have r1: "txWindow r1 = txWindow r" "rc_crcInit r1 = rc_crcInit r" "rx_part r1 = rx_part r" by (simp_all add: r1_def)
    have ok1: "tx_ok r1" "cache_ok r1" using ok r1 tx_ok_cong [of r1 r] by (auto simp: cache_ok_def)
    have s1: "rel_to r d r1 d" using ok1 r1 by (simp add: rel_to_def)
    have m: "0 < ?m" using 4(1) by simp
    obtain ret gs where g: "DTAP_PackEnhanceFrames (sub e 1) c r1 q (Some b) ?m = Some (ret, gs)"
      "ret = DTAP_SUCCESS \<Longrightarrow> length gs = ?n \<and> map txSeq gs = map (seq_add (nextTxSeq (txWindow r1))) [0 ..< length gs] \<and> (\<forall>g \<in> set gs. tx_frame_ok (rc_crcInit r1) g)"
      using pack_enhance_ok [OF ok1(1) b m 4(2)] by blast
    show ?thesis
    proof (cases "ret = DTAP_SUCCESS")
      case False
      then have "DTAP_SendEnhanceFrame e a c q b r d = Some (ret, r1, d)"
        using 4 g(1) by (cases "length (txList (txWindow r)) + ?n = tw_size (txWindow r)") (simp_all add: DTAP_SendEnhanceFrame_def Let_def r1_def)
      then show ?thesis using s1 by blast
    next
      case True
      note gs = g(2) [OF True]
      have "length (txList (txWindow r1)) + length gs \<le> tw_size (txWindow r1)" "length gs \<le> 128" using gs 4 r1 by simp_all
      then obtain ret' r2 d2 where i: "DTAP_SendEnhanceFrameInner (sub e 2) a c gs r1 d = Some (ret', r2, d2)" "tx_to r1 d r2 d2"
        using send_inner_ok [OF ok1(1) ok(3), of gs] gs by blast
      have "rel_to r d r2 d2" using rel_to_trans [OF s1 tx_to_rel [OF i(2) ok1(2)]] .
      moreover have "DTAP_SendEnhanceFrame e a c q b r d
        = Some (if ret' = DTAP_SUCCESS \<and> isTxWindowFull r2 then DTAP_TRANS_RELIABLE_TX_WINDOW_FULL else ret', r2, d2)"
        using 4 g(1) True gs i(1) by (cases "length (txList (txWindow r)) + ?n = tw_size (txWindow r)") (simp_all add: DTAP_SendEnhanceFrame_def Let_def r1_def)
      ultimately show ?thesis by blast
    qed
  qed
qed

lemma status_cbk_keeps: "port_to d (status_cbk c x d)"
  by (simp add: status_cbk_def port_to_def split: option.splits)

lemma status_change_ok:
  assumes ok: "tx_ok r" "cache_ok r" "port_ok a d"
  shows "\<exists>r' d'. DTAP_TransChannelStatusChange e a c x r d = Some (r', d') \<and> rel_to r d r' d'"
proof -
  have self: "rel_to r d r d" using ok by (simp add: rel_to_def)
  show ?thesis
  proof (cases "cacheBuff r")
    case None
    have "rel_to r d (r\<lparr>isTxWindowFull := False\<rparr>) (status_cbk c x d)"
      using ok(1,2) tx_ok_cong [of "r\<lparr>isTxWindowFull := False\<rparr>" r] status_cbk_keeps by (simp add: rel_to_def cache_ok_def)
    then show ?thesis using None self by (auto simp: DTAP_TransChannelStatusChange_def)
  next
    case (Some b)
    have b: "buff_ok b" "dataLen b \<le> 65535" using ok(2) Some by (auto simp: cache_ok_def)
    let ?r = "r\<lparr>isTxWindowFull := False\<rparr>"
    have "tx_ok ?r" "cache_ok ?r" using ok tx_ok_cong [of ?r r] by (simp_all add: cache_ok_def)
    then obtain ret r1 d1 where s: "DTAP_SendEnhanceFrame e a c (cachePi r) b ?r d = Some (ret, r1, d1)" "rel_to ?r d r1 d1"
      using send_enhance_ok [of ?r a d b e c "cachePi r"] ok(3) b by auto
    have "rel_to r d (r1\<lparr>cacheBuff := None\<rparr>) (status_cbk c x d1)"
      using s(2) tx_ok_cong [of "r1\<lparr>cacheBuff := None\<rparr>" r1] status_cbk_keeps port_to_trans by (auto simp: rel_to_def cache_ok_def)
    then show ?thesis using Some s(1) self by (auto simp: DTAP_TransChannelStatusChange_def DTAP_TransSendCacheBuff_def Let_def)
  qed
qed

end
