(* ===== verification/Dtap_Reliable_Rx.thy ===== *)
theory Dtap_Reliable_Rx
  imports Dtap_Reliable_Tx
begin

text \<open>
  The receiving side of the reliable mode: the window test accepts exactly the new frames of the window,
  the queue stays sorted, \<open>expectedTxSeq\<close> is the first missing number, and what arrives, in whatever
  order and however often, is delivered in order and once.
\<close>

section \<open>The receive window\<close>

text \<open>
  \<open>offs\<close> are the distances of the queued frames from \<open>bufferSeq\<close>; \<open>m\<close> is the first distance that is
  missing, and the highest number seen determines \<open>maxExpectedTxSeq\<close>.
\<close>

definition rx_at :: "DTAP_RxWindow \<Rightarrow> nat list \<Rightarrow> nat \<Rightarrow> bool" where
  "rx_at w offs m \<longleftrightarrow> seq_ok (bufferSeq w) \<and> map txSeq (rxList w) = map (seq_add (bufferSeq w)) offs
     \<and> sorted_wrt (<) offs \<and> (\<forall>i \<in> set offs. i < rw_size w) \<and> rw_size w \<le> 255
     \<and> (\<forall>i < m. i \<in> set offs) \<and> m \<notin> set offs \<and> m \<le> rw_size w
     \<and> expectedTxSeq w = seq_add (bufferSeq w) m
     \<and> maxExpectedTxSeq w = seq_add (bufferSeq w) (if offs = [] then 0 else last offs + 1)"

definition rx_ok :: "DTAP_RxWindow \<Rightarrow> bool" where
  "rx_ok w \<longleftrightarrow> (\<exists>offs m. rx_at w offs m)"

lemma seq_add_inj: "seq_ok s \<Longrightarrow> i < 16384 \<Longrightarrow> j < 16384 \<Longrightarrow> seq_add s i = seq_add s j \<longleftrightarrow> i = j"
  by (metis seq_dist_add mod_less)

lemma dist_between:
  assumes "seq_ok s" "i < 16384" "j < 16384"
  shows "seq_dist (seq_add s i) (seq_add s j) = (if i \<le> j then j - i else 16384 + j - i)"
proof (cases "i \<le> j")
  case True
  then have "seq_add s j = seq_add (seq_add s i) (j - i)" by simp
  then show ?thesis using seq_dist_add [of "seq_add s i" "j - i"] True assms by simp
next
  case False
  have "seq_add (seq_add s i) (16384 + j - i) = seq_add s j"
    using False assms(2) mod_circle [of "unat s" j] by (simp add: seq_eq_iff unat_seq_add)
  then show ?thesis using seq_dist_add [of "seq_add s i" "16384 + j - i"] False assms by simp
qed

lemma smaller_offsets:
  assumes "seq_ok s" "i < 16384" "j < 16384"
  shows "DTAP_IsFrameSeqSmaller (seq_add s i) (seq_add s j) \<longleftrightarrow> (if i \<le> j then 1 \<le> j - i \<and> j - i \<le> 8192 else i - j \<ge> 8192)"
  using assms by (auto simp: DTAP_IsFrameSeqSmaller_eq dist_between)

lemma find_frame_iff: "DTAP_FindFrameBySeq fs seq = None \<longleftrightarrow> seq \<notin> txSeq ` set fs"
  by (auto simp: DTAP_FindFrameBySeq_def find_None_iff)

lemma and_seq_max: "x AND DTAP_FRAME_SEQ_MAX = of_nat (unat x mod 16384)"
proof -
  have "x AND 0x3FFF = take_bit 14 x" by (simp add: take_bit_eq_mask mask_eq_exp_minus_1)
  then show ?thesis by (simp add: word_unat_eq_iff unsigned_take_bit_eq take_bit_eq_mod unsigned_of_nat unat_mod_distrib)
qed

lemma boundary_eq: "seq_ok s \<Longrightarrow> n \<le> 255 \<Longrightarrow> (s + of_nat n) AND DTAP_FRAME_SEQ_MAX = seq_add s n"
proof -
  assume a: "seq_ok s" "n \<le> 255"
  then have "unat (s + of_nat n) = unat s + n" by (simp add: unat_word_ariths unsigned_of_nat take_bit_eq_mod)
  then show ?thesis by (simp add: and_seq_max seq_add_def)
qed

text \<open>The test against the reference: inside the window and not there yet.\<close>

lemma check_txSeq_iff:
  assumes w: "rx_at w offs m" and m: "m < rw_size w" and t: "seq_ok t"
  shows "DTAP_CheckEnhanceFrameTxSeq w t \<longleftrightarrow> seq_dist (bufferSeq w) t < rw_size w \<and> t \<notin> txSeq ` set (rxList w)"
proof -
  let ?s = "bufferSeq w" and ?n = "rw_size w"
  define i where "i = seq_dist ?s t"
  have s: "seq_ok ?s" and n: "?n \<le> 255" and ex: "expectedTxSeq w = seq_add ?s m" using w by (auto simp: rx_at_def)
  have ti: "t = seq_add ?s i" "i < 16384" using seq_add_dist [OF s t] by (simp_all add: i_def)
  have mem: "t \<in> txSeq ` set (rxList w) \<longleftrightarrow> i \<in> set offs"
  proof -
    have "txSeq ` set (rxList w) = seq_add ?s ` set offs" using w unfolding rx_at_def by (metis list.set_map)
    moreover have "\<forall>j \<in> set offs. j < 16384" using w n by (force simp: rx_at_def)
    ultimately show ?thesis
    proof (intro iffI)
      assume im: "txSeq ` set (rxList w) = seq_add ?s ` set offs" "\<forall>j \<in> set offs. j < 16384" "t \<in> txSeq ` set (rxList w)"
      then obtain j where "j \<in> set offs" "t = seq_add ?s j" by auto
      then show "i \<in> set offs" using seq_add_inj [OF s ti(2), of j] ti(1) im(2) by simp
    qed (use ti(1) in simp)
  qed
  have bd: "(?s + of_nat ?n) AND DTAP_FRAME_SEQ_MAX = seq_add ?s ?n" by (rule boundary_eq [OF s n])
  have lt: "m < 16384" "?n < 16384" using m n by linarith+
  have sm: "DTAP_IsFrameSeqSmaller t (expectedTxSeq w) \<longleftrightarrow> (if i \<le> m then i < m else i - m \<ge> 8192)"
    unfolding ex ti(1) using smaller_offsets [OF s ti(2) lt(1)] m n by auto
  have sb: "DTAP_IsFrameSeqSmaller t (seq_add ?s ?n) \<longleftrightarrow> (if i \<le> ?n then i < ?n else i - ?n \<ge> 8192)"
    unfolding ti(1) using smaller_offsets [OF s ti(2) lt(2)] n by auto
  have eq: "t = expectedTxSeq w \<longleftrightarrow> i = m" unfolding ex ti(1) using seq_add_inj [OF s ti(2) lt(1)] .
  have lo: "i < m \<Longrightarrow> i \<in> set offs" "m \<notin> set offs" using w by (auto simp: rx_at_def)
  show ?thesis
    unfolding DTAP_CheckEnhanceFrameTxSeq_def Let_def bd sm sb eq find_frame_iff mem i_def [symmetric]
    using lo m n by auto
qed

section \<open>A new frame enters the queue\<close>

fun insert_off :: "nat \<Rightarrow> nat list \<Rightarrow> nat list" where
  "insert_off i [] = [i]"
| "insert_off i (j # js) = (if i < j then i # j # js else j # insert_off i js)"

lemma insert_off_props:
  "set (insert_off i js) = insert i (set js)"
  "sorted_wrt (<) js \<Longrightarrow> i \<notin> set js \<Longrightarrow> sorted_wrt (<) (insert_off i js)"
  "insert_off i js \<noteq> []"
  by (induction js) auto

lemma insert_off_last: "sorted_wrt (<) js \<Longrightarrow> i \<notin> set js \<Longrightarrow> last (insert_off i js) = (if js = [] then i else max i (last js))"
proof (induction js)
  case (Cons j js)
  show ?case
  proof (cases "js = []")
    case False
    have "j < last js" using Cons.prems(1) False by auto
    then have "i < j \<Longrightarrow> i \<le> last js" by simp
    then show ?thesis using Cons.IH Cons.prems False insert_off_props(3) [of i js] by (cases "i < j") (simp_all add: max_def)
  qed (use Cons.prems in auto)
qed simp

lemma insert_frame_offs:
  assumes "seq_ok s" "txSeq fr = seq_add s i" "map txSeq fs = map (seq_add s) js" "\<forall>j \<in> set js. j \<le> 255" "i \<le> 255"
  shows "map txSeq (insert_frame fr fs) = map (seq_add s) (insert_off i js)"
  using assms(3,4)
proof (induction fs arbitrary: js)
  case (Cons f fs)
  then obtain j js' where js: "js = j # js'" "txSeq f = seq_add s j" "map txSeq fs = map (seq_add s) js'" by (cases js) auto
  have j: "i < 16384" "j < 16384" "j \<le> 255" using Cons.prems js assms(5) by auto
  have "DTAP_IsFrameSeqSmaller (txSeq fr) (txSeq f) \<longleftrightarrow> i < j"
    unfolding assms(2) js(2) using smaller_offsets [OF assms(1) j(1,2)] j assms(5) by auto
  then show ?case using Cons js assms(2) by simp
qed (use assms in auto)

text \<open>The search for the next gap ends, because the window has fewer places than steps are allowed.\<close>

lemma next_missing_offs:
  assumes "seq_ok s" "txSeq ` set fs = seq_add s ` set js" "\<forall>j \<in> set js. j < 16384" "k + n < 16384" "\<exists>i \<in> {k ..< k + n}. i \<notin> set js"
  shows "\<exists>m. k \<le> m \<and> m < k + n \<and> (\<forall>i. k \<le> i \<and> i < m \<longrightarrow> i \<in> set js) \<and> m \<notin> set js \<and> next_missing n fs (seq_add s k) = Some (seq_add s m)"
  using assms(4,5)
proof (induction n arbitrary: k)
  case (Suc n)
  have mem: "DTAP_FindFrameBySeq fs (seq_add s k) = None \<longleftrightarrow> k \<notin> set js"
    unfolding find_frame_iff assms(2) using seq_add_inj [OF assms(1)] assms(3) Suc.prems(1) by (auto simp: image_iff)
  show ?case
  proof (cases "k \<in> set js")
    case False
    then show ?thesis using mem by (intro exI [of _ k]) auto
  next
    case True
    have "\<exists>i \<in> {Suc k ..< Suc k + n}. i \<notin> set js"
    proof -
      obtain i where i: "k \<le> i" "i < k + Suc n" "i \<notin> set js" using Suc.prems(2) by auto
      then have "i \<noteq> k" using True by auto
      then show ?thesis using i by (intro bexI [of _ i]) auto
    qed
    then obtain m where m: "Suc k \<le> m" "m < Suc k + n" "\<forall>i. Suc k \<le> i \<and> i < m \<longrightarrow> i \<in> set js" "m \<notin> set js"
      "next_missing n fs (seq_add s (Suc k)) = Some (seq_add s m)"
      using Suc.IH [of "Suc k"] Suc.prems(1) by auto
    have "next_missing (Suc n) fs (seq_add s k) = Some (seq_add s m)"
      using mem True m(5) assms(1) by (auto simp: DTAP_GetNextFrameSeq_eq simp del: not_None_eq)
    moreover have "\<forall>i. k \<le> i \<and> i < m \<longrightarrow> i \<in> set js" using m(3) True by (metis Suc_leI le_neq_implies_less)
    ultimately show ?thesis using m by (intro exI [of _ m]) auto
  qed
qed simp

lemma slide_rx_fields:
  "txWindow (DTAP_SlideRxWindow fr r) = txWindow r" "rc_crcInit (DTAP_SlideRxWindow fr r) = rc_crcInit r"
  "frags (DTAP_SlideRxWindow fr r) = frags r" "isRxWindowFull (DTAP_SlideRxWindow fr r) = isRxWindowFull r"
  "cacheBuff (DTAP_SlideRxWindow fr r) = cacheBuff r"
  "rxList (rxWindow (DTAP_SlideRxWindow fr r)) = insert_frame fr (rxList (rxWindow r))"
  "bufferSeq (rxWindow (DTAP_SlideRxWindow fr r)) = bufferSeq (rxWindow r)"
  "rw_size (rxWindow (DTAP_SlideRxWindow fr r)) = rw_size (rxWindow r)"
  by (simp_all add: DTAP_SlideRxWindow_def Let_def split: option.splits)

lemma slide_rx_max: "maxExpectedTxSeq (rxWindow (DTAP_SlideRxWindow fr r)) =
  (if DTAP_IsFrameSeqSmaller (maxExpectedTxSeq (rxWindow r)) (txSeq fr) \<or> maxExpectedTxSeq (rxWindow r) = txSeq fr
   then DTAP_GetNextFrameSeq (txSeq fr) else maxExpectedTxSeq (rxWindow r))"
  by (auto simp: DTAP_SlideRxWindow_def Let_def split: option.splits)

lemma slide_rx_ok:
  assumes w: "rx_at (rxWindow r) offs m" and m: "m < rw_size (rxWindow r)"
    and t: "txSeq fr = seq_add (bufferSeq (rxWindow r)) i" "i < rw_size (rxWindow r)" "i \<notin> set offs"
  shows "\<exists>m'. rx_at (rxWindow (DTAP_SlideRxWindow fr r)) (insert_off i offs) m' \<and> m \<le> m'"
proof -
  let ?w = "rxWindow r" and ?s = "bufferSeq (rxWindow r)" and ?n = "rw_size (rxWindow r)" and ?js = "insert_off i offs"
  let ?W = "rxWindow (DTAP_SlideRxWindow fr r)"
  have s: "seq_ok ?s" and n: "?n \<le> 255" and lt: "\<forall>j \<in> set offs. j < ?n" and srt: "sorted_wrt (<) offs"
    and lo: "\<forall>j < m. j \<in> set offs" "m \<notin> set offs" and ex: "expectedTxSeq ?w = seq_add ?s m"
    and mx: "maxExpectedTxSeq ?w = seq_add ?s (if offs = [] then 0 else last offs + 1)"
    and mp: "map txSeq (rxList ?w) = map (seq_add ?s) offs" using w by (auto simp: rx_at_def)
  have i: "i \<le> 255" "i < 16384" using t(2) n by linarith+
  have l255: "\<forall>j \<in> set offs. j \<le> 255" using lt n by force
  have mp': "map txSeq (rxList ?W) = map (seq_add ?s) ?js"
    using insert_frame_offs [OF s t(1) mp l255 i(1)] by (simp add: slide_rx_fields)
  have js: "set ?js = insert i (set offs)" "sorted_wrt (<) ?js" "\<forall>j \<in> set ?js. j < ?n"
    using insert_off_props(1,2) srt t lt by auto
  have im: "txSeq fr = expectedTxSeq ?w \<longleftrightarrow> i = m" unfolding t(1) ex using seq_add_inj [OF s i(2), of m] m n by simp
  have "\<exists>m'. m \<le> m' \<and> m' \<le> ?n \<and> (\<forall>j < m'. j \<in> set ?js) \<and> m' \<notin> set ?js \<and> expectedTxSeq ?W = seq_add ?s m'"
  proof (cases "i = m")
    case False
    then have "expectedTxSeq ?W = expectedTxSeq ?w" using im by (simp add: DTAP_SlideRxWindow_def Let_def)
    then show ?thesis using ex lo js(1) False m by (intro exI [of _ m]) auto
  next
    case True
    have im': "txSeq ` set (insert_frame fr (rxList ?w)) = seq_add ?s ` set ?js"
      using mp' by (metis list.set_map slide_rx_fields(6))
    have nn: "?n \<notin> set ?js" using js(3) by auto
    then have "\<exists>m'. Suc m \<le> m' \<and> m' < Suc m + ?n \<and> (\<forall>j. Suc m \<le> j \<and> j < m' \<longrightarrow> j \<in> set ?js) \<and> m' \<notin> set ?js
      \<and> next_missing ?n (insert_frame fr (rxList ?w)) (seq_add ?s (Suc m)) = Some (seq_add ?s m')"
      using m n js(3) by (intro next_missing_offs [OF s im']) (auto intro!: bexI [of _ "?n"])
    then obtain m' where m': "Suc m \<le> m'" "\<forall>j. Suc m \<le> j \<and> j < m' \<longrightarrow> j \<in> set ?js" "m' \<notin> set ?js"
      "next_missing ?n (insert_frame fr (rxList ?w)) (seq_add ?s (Suc m)) = Some (seq_add ?s m')" by blast
    have "m' \<le> ?n" using m'(1,2) m nn by (metis Suc_leI leI)
    moreover have "\<forall>j < m'. j \<in> set ?js" using m'(2) lo(1) js(1) True by (metis insertCI not_less_eq_eq not_less linorder_neqE_nat Suc_leI)
    moreover have "expectedTxSeq ?W = seq_add ?s m'"
    proof -
      have "DTAP_GetNextFrameSeq (txSeq fr) = seq_add ?s (Suc m)" by (simp add: t(1) True DTAP_GetNextFrameSeq_eq)
      moreover have "txSeq fr = expectedTxSeq ?w" using im True by simp
      ultimately show ?thesis using m'(4) by (simp add: DTAP_SlideRxWindow_def Let_def)
    qed
    ultimately show ?thesis using m'(1,3) by (intro exI [of _ m']) auto
  qed
  moreover have "maxExpectedTxSeq ?W = seq_add ?s (last ?js + 1)"
  proof -
    let ?M = "if offs = [] then 0 else last offs + 1"
    have M: "?M \<le> 255" using lt n by (cases "offs = []") (auto simp: Suc_le_eq intro: less_le_trans)
    have sm: "DTAP_IsFrameSeqSmaller (maxExpectedTxSeq ?w) (txSeq fr) \<or> maxExpectedTxSeq ?w = txSeq fr \<longleftrightarrow> ?M \<le> i"
      unfolding mx t(1) using smaller_offsets [OF s, of ?M i] seq_add_inj [OF s, of ?M i] M i by auto
    have W: "maxExpectedTxSeq ?W = (if ?M \<le> i then DTAP_GetNextFrameSeq (txSeq fr) else maxExpectedTxSeq ?w)"
      unfolding slide_rx_max sm ..
    have "last ?js = (if offs = [] then i else max i (last offs))" by (rule insert_off_last [OF srt t(3)])
    moreover have "i \<noteq> last offs" if "offs \<noteq> []" using t(3) that by auto
    ultimately show ?thesis using W mx t(1) by (cases "offs = []") (auto simp: DTAP_GetNextFrameSeq_eq max_def)
  qed
  ultimately show ?thesis
    using s n js mp' insert_off_props(3) [of i offs] by (auto simp: rx_at_def slide_rx_fields)
qed

section \<open>The sender\<close>

text \<open>
  The sender numbers its fragment frames \<open>0, 1, 2, \<dots>\<close>; frame \<open>n\<close> has a segmentation mark and a payload.
  \<open>sent f n\<close> is what the first \<open>n\<close> frames make: the number of complete packets and the part of the packet
  under way.
\<close>

type_synonym piece = "u8 \<times> bytes"

primrec sent :: "(nat \<Rightarrow> piece) \<Rightarrow> nat \<Rightarrow> nat \<times> bytes option" where
  "sent f 0 = (0, None)"
| "sent f (Suc n) = (case sent f n of (k, acc) \<Rightarrow> case f n of (s, b) \<Rightarrow>
     if s = DTAP_SAR_UNSEG then (Suc k, None)
     else if s = DTAP_SAR_FIRST then (k, Some b)
     else if s = DTAP_SAR_MID then (k, map_option (\<lambda>a. a @ b) acc)
     else (Suc k, None))"

text \<open>
  The frames \<open>f\<close> carry the packets \<open>sdu 0, sdu 1, \<dots>\<close> of at most 65535 bytes, each whole or cut into a first,
  any number of middle, and a last piece.
\<close>

definition sends :: "(nat \<Rightarrow> piece) \<Rightarrow> (nat \<Rightarrow> bytes) \<Rightarrow> bool" where
  "sends f sdu \<longleftrightarrow> (\<forall>n. case sent f n of (k, acc) \<Rightarrow> case f n of (s, b) \<Rightarrow>
     (case acc of
        None \<Rightarrow> s = DTAP_SAR_UNSEG \<and> b = sdu k \<or> s = DTAP_SAR_FIRST
      | Some a \<Rightarrow> length (a @ b) \<le> 65535 \<and> (s = DTAP_SAR_MID \<or> s = DTAP_SAR_LAST \<and> a @ b = sdu k)))"

lemma sent_mono: "n \<le> m \<Longrightarrow> fst (sent f n) \<le> fst (sent f m)"
proof (induction m)
  case (Suc m)
  then show ?case by (cases "n = Suc m") (auto simp: le_Suc_eq split: prod.splits)
qed simp

text \<open>Whole packets need no memory to be put together; cut ones do.\<close>

definition rx_memory :: "(nat \<Rightarrow> piece) \<Rightarrow> dtap_env \<Rightarrow> bool" where
  "rx_memory f e \<longleftrightarrow> alloc_ok e \<or> (\<forall>n. fst (f n) = DTAP_SAR_UNSEG)"

lemma rx_memory_sub [simp]: "rx_memory f (sub e k) = rx_memory f e"
  by (simp add: rx_memory_def)

section \<open>Delivery from the queue\<close>

text \<open>A received frame that holds a piece of the sender.\<close>

definition holds_piece :: "piece \<Rightarrow> DTAP_Frame \<Rightarrow> bool" where
  "holds_piece p fr \<longleftrightarrow> carries fr (fst p) (snd p) \<and> f_ctx fr \<in> {SimplexFragFrameCtx, DuplexFragFrameCtx}"

definition never_full :: "dtap_env \<Rightarrow> bool" where
  "never_full e \<longleftrightarrow> (\<forall>p. env_recv e p \<noteq> DTAP_TRANS_RELIABLE_TRANS_CHANNEL_FULL)"

lemma never_full_sub [simp]: "never_full (sub e k) = never_full e"
  by (simp add: never_full_def)

text \<open>The reassembly buffer holds the part of the packet under way.\<close>

definition frags_hold :: "bytes option \<Rightarrow> SDF_Buff option \<Rightarrow> bool" where
  "frags_hold acc fg \<longleftrightarrow> (case acc of None \<Rightarrow> fg = None | Some a \<Rightarrow> \<exists>c. fg = Some c \<and> buff_ok c \<and> buff_data c = a)"

lemma recv_one_piece:
  assumes f: "sends f sdu" and fr: "holds_piece (f n) fr" and e: "never_full e" "rx_memory f e" and fg: "frags_hold (snd (sent f n)) fg"
  shows "\<exists>ret fg' fr' us. recv_one e live c (Some cb) fr fg = Some (ret, fg', fr', us) \<and> ret \<noteq> DTAP_TRANS_RELIABLE_TRANS_CHANNEL_FULL
    \<and> frags_hold (snd (sent f (Suc n))) fg' \<and> map up_data us = map sdu [fst (sent f n) ..< fst (sent f (Suc n))]"
proof -
  let ?info = "\<lparr>info_pi = f_pi fr, info_lcid = lcid c, info_tcid = dstTcid c\<rparr>"
  obtain k acc s b where n: "sent f n = (k, acc)" "f n = (s, b)" by fastforce
  have one: "recv_one e live c (Some cb) fr fg = DTAP_RecvFragmentFrame e fg fr ?info (Some cb)"
    using fr by (auto simp: recv_one_def holds_piece_def)
  have cr: "carries fr s b" using fr n(2) by (simp add: holds_piece_def)
  have nf: "frag_result DTAP_SUCCESS (call_recv (sub e i)) \<noteq> DTAP_TRANS_RELIABLE_TRANS_CHANNEL_FULL" for i
    using e(1) by (simp add: frag_result_def call_recv_def never_full_def)
  have mem: "alloc_ok e" if "s \<noteq> DTAP_SAR_UNSEG" using e(2) that n(2) by (metis rx_memory_def fst_conv)
  have snd: "case acc of None \<Rightarrow> s = DTAP_SAR_UNSEG \<and> b = sdu k \<or> s = DTAP_SAR_FIRST
      | Some a \<Rightarrow> length (a @ b) \<le> 65535 \<and> (s = DTAP_SAR_MID \<or> s = DTAP_SAR_LAST \<and> a @ b = sdu k)"
    using f [unfolded sends_def, rule_format, of n] n by (simp split: option.splits)
  show ?thesis
  proof (cases acc)
    case None
    then have "fg = None" using fg n(1) by (simp add: frags_hold_def)
    then show ?thesis
      using snd None n one nf recv_unseg [of fr b e fg ?info cb] recv_first [of fr b e ?info "Some cb"] cr mem
      by (auto simp: frags_hold_def)
  next
    case (Some a)
    then obtain c' where c': "fg = Some c'" "buff_ok c'" "buff_data c' = a" using fg n(1) by (auto simp: frags_hold_def)
    have s: "s = DTAP_SAR_MID \<or> s = DTAP_SAR_LAST" "dataLen c' + length b \<le> 65535" "s = DTAP_SAR_LAST \<longrightarrow> a @ b = sdu k"
      using snd Some c' length_buff_data [OF c'(2)] by auto
    then have "s \<noteq> DTAP_SAR_UNSEG" by auto
    from recv_next [OF cr s(1) mem [OF this] c'(2) s(2), of ?info cb] obtain b' c'' where
      r: "buff_ok c''" "buff_data c'' = a @ b" "DTAP_RecvFragmentFrame e (Some c') fr ?info (Some cb) =
       (if s = DTAP_SAR_MID then Some (DTAP_SUCCESS, Some c'', fr\<lparr>f_buff := Some b'\<rparr>, [])
        else Some (frag_result DTAP_SUCCESS (call_recv (sub e 1)), None, fr\<lparr>f_buff := Some b'\<rparr>,
          [\<lparr>up_cb = cb, up_info = ?info, up_data = a @ b, up_result = call_recv (sub e 1)\<rparr>]))" using c'(3) by auto
    show ?thesis using s n one nf r c'(1) Some by (auto simp: frags_hold_def)
  qed
qed

text \<open>
  Why cut packets need memory: a first piece that cannot be copied is reported as received and leaves the window, and
  the packet is lost although its frames were acknowledged.
\<close>

lemma first_piece_without_memory:
  assumes "holds_piece (DTAP_SAR_FIRST, b) fr" "SDF_MemZalloc (sub e 0) = None"
  shows "\<exists>fr'. recv_one e live c (Some cb) fr None = Some (DTAP_SUCCESS, None, fr', [])"
proof -
  have cr: "carries fr DTAP_SAR_FIRST b" using assms(1) by (simp add: holds_piece_def)
  obtain off b1 b2 where t: "SDF_BuffTrimPrefix (f_buff fr) (headerLen fr + extensionLen fr) = Some (off, b1)" "SDF_BuffTrimSuffix (Some b1) 2 = Some b2"
    using carries_trim [OF cr] by metis
  have "SDF_BuffCopy (sub e 0) (Some b2) = None" using assms(2) by simp
  then show ?thesis
    using t cr assms(1) by (auto simp: recv_one_def holds_piece_def DTAP_RecvFragmentFrame_def carries_def Let_def simp del: SDF_BuffCopy.simps)
qed

lemma deliver_all:
  assumes "sends f sdu" "never_full e" "rx_memory f e" "seq_ok s"
    and "list_all2 (\<lambda>fr j. txSeq fr = seq_add s j \<and> holds_piece (f (n + j)) fr) frs ([k ..< k + m] @ rest)"
    and "rest = [] \<or> hd rest \<noteq> k + m" "\<forall>j \<in> set rest. j < 16384" "k + m < 16384" "frags_hold (snd (sent f (n + k))) fg"
  shows "\<exists>fg' us. deliver e i live c (Some cb) frs (seq_add s k) fg = Some (drop m frs, seq_add s (k + m), fg', False, us)
    \<and> frags_hold (snd (sent f (n + k + m))) fg' \<and> map up_data us = map sdu [fst (sent f (n + k)) ..< fst (sent f (n + k + m))]"
  using assms(5-9)
proof (induction m arbitrary: frs k i fg)
  case 0
  show ?case
  proof (cases frs)
    case Nil
    then show ?thesis using 0(5) by simp
  next
    case (Cons fr fs)
    then have "rest \<noteq> []" "txSeq fr = seq_add s (hd rest)" "hd rest < 16384" using 0 by (auto simp: list_all2_Cons1)
    then have "txSeq fr \<noteq> seq_add s k" using 0(2,4) seq_add_inj [OF assms(4)] by auto
    then show ?thesis using Cons 0(5) by simp
  qed
next
  case (Suc m)
  have up: "[k ..< k + Suc m] = k # [Suc k ..< Suc k + m]" by (simp add: upt_conv_Cons)
  obtain fr fs where fr: "frs = fr # fs" "txSeq fr = seq_add s k" "holds_piece (f (n + k)) fr"
    "list_all2 (\<lambda>fr j. txSeq fr = seq_add s j \<and> holds_piece (f (n + j)) fr) fs ([Suc k ..< Suc k + m] @ rest)"
    using Suc.prems(1) unfolding up by (auto simp: list_all2_Cons2)
  obtain ret fg1 fr' us where o: "recv_one (sub e i) live c (Some cb) fr fg = Some (ret, fg1, fr', us)" "ret \<noteq> DTAP_TRANS_RELIABLE_TRANS_CHANNEL_FULL"
    "frags_hold (snd (sent f (n + Suc k))) fg1" "map up_data us = map sdu [fst (sent f (n + k)) ..< fst (sent f (n + Suc k))]"
    using recv_one_piece [OF assms(1) fr(3), of "sub e i" fg live c cb] assms(2,3) Suc.prems(5) by (auto simp del: sent.simps)
  obtain fg' us' where d: "deliver e (Suc i) live c (Some cb) fs (seq_add s (Suc k)) fg1 = Some (drop m fs, seq_add s (Suc k + m), fg', False, us')"
    "frags_hold (snd (sent f (n + Suc k + m))) fg'" "map up_data us' = map sdu [fst (sent f (n + Suc k)) ..< fst (sent f (n + Suc k + m))]"
    using Suc.IH [OF fr(4) _ Suc.prems(3) _ o(3), of "Suc i"] Suc.prems(2,4) by auto
  have "[fst (sent f (n + k)) ..< fst (sent f (n + Suc k + m))] =
      [fst (sent f (n + k)) ..< fst (sent f (n + Suc k))] @ [fst (sent f (n + Suc k)) ..< fst (sent f (n + Suc k + m))]"
    using sent_mono [of "n + k" "n + Suc k" f] sent_mono [of "n + Suc k" "n + Suc k + m" f]
    by (metis le_add_diff_inverse le_add1 add_le_cancel_left le_SucI order_refl upt_add_eq_append)
  then show ?case using fr(1,2) o d assms(4) by (simp add: DTAP_GetNextFrameSeq_eq del: upt_Suc sent.simps)
qed

lemma sorted_prefix:
  assumes "sorted_wrt (<) offs" "\<forall>i < m. i \<in> set offs" "m \<notin> set (offs :: nat list)"
  shows "\<exists>rest. offs = [0 ..< m] @ rest \<and> (\<forall>j \<in> set rest. m < j)"
proof -
  have "\<forall>i < m. i + k \<in> set offs \<Longrightarrow> m + k \<notin> set offs \<Longrightarrow> sorted_wrt (<) offs \<Longrightarrow> (\<forall>j \<in> set offs. k \<le> j) \<Longrightarrow>
    \<exists>rest. offs = [k ..< m + k] @ rest \<and> (\<forall>j \<in> set rest. m + k < j)" for k
  proof (induction m arbitrary: k offs)
    case 0
    then have "\<forall>j \<in> set offs. k < j" by (metis add_0 le_neq_implies_less)
    then show ?case by (intro exI [of _ offs]) simp
  next
    case (Suc m)
    obtain j js where js: "offs = j # js" using Suc.prems(1) by (cases offs) auto
    have "k \<in> set offs" using Suc.prems(1) by (metis add_0 zero_less_Suc)
    then have jk: "j = k" using js Suc.prems(3,4) by fastforce
    have "\<forall>i < m. i + Suc k \<in> set js" 
    proof (intro allI impI)
      fix i assume "i < m"
      then have "Suc i + k \<in> set offs" using Suc.prems(1) by (metis Suc_less_eq)
      then show "i + Suc k \<in> set js" using js jk by simp
    qed
    moreover have "m + Suc k \<notin> set js" "sorted_wrt (<) js" "\<forall>i \<in> set js. Suc k \<le> i" using Suc.prems js jk by auto
    ultimately obtain rest where "js = [Suc k ..< m + Suc k] @ rest" "\<forall>j \<in> set rest. m + Suc k < j" using Suc.IH by blast
    then show ?case using js jk by (intro exI [of _ rest]) (simp add: upt_conv_Cons)
  qed
  from this [of 0] assms show ?thesis by auto
qed

lemma insert_frame_rel:
  assumes "list_all2 R fs js" "R fr i" "seq_ok s" "txSeq fr = seq_add s i" "map txSeq fs = map (seq_add s) js" "\<forall>j \<in> set js. j \<le> 255" "i \<le> 255"
  shows "list_all2 R (insert_frame fr fs) (insert_off i js)"
  using assms(1,5,6)
proof (induction fs js rule: list_all2_induct)
  case (Cons f fs j js)
  have j: "i < 16384" "j < 16384" "j \<le> 255" using Cons.prems assms(7) by auto
  have "DTAP_IsFrameSeqSmaller (txSeq fr) (txSeq f) \<longleftrightarrow> i < j"
    using smaller_offsets [OF assms(3) j(1,2)] j assms(4,7) Cons.prems(1) by auto
  then show ?case using Cons assms(2) by simp
qed (use assms in auto)

end
