(* ===== verification/Dtap_Exactly_Once.thy ===== *)
theory Dtap_Exactly_Once
  imports Dtap_Reliable_Rx
begin

text \<open>
  The main theorem of the reliable mode: fragment frames of a sender arrive in any order and any number of
  times, and the receiver hands the packets they carry up in order and exactly once. The receiver of
  \<open>Dtap_Reliable\<close>, with everything \<open>DTAP_RecvEnhanceFrame\<close> does besides (acknowledgements, timers, the packet
  cached for sending), is related step by step to the number of frames taken from the window, the packet
  being put together, and the distances of the frames queued.
\<close>

section \<open>In order and exactly once\<close>

lemma copy_holds:
  assumes "DTAP_CopyFrame e fr = Some fr'" "holds_piece p fr"
  shows "holds_piece p fr'" "txSeq fr' = txSeq fr"
proof -
  obtain b hdr crc where b: "f_buff fr = Some b" "buff_ok b" "buff_data b = hdr @ snd p @ crc" "length crc = 2"
    "length hdr = headerLen fr + extensionLen fr" "buffLen b < 2 ^ 32" "sar fr = fst p"
    "f_ctx fr \<in> {SimplexFragFrameCtx, DuplexFragFrameCtx}"
    using assms(2) by (auto simp: holds_piece_def carries_def)
  obtain b' where b': "SDF_BuffCopy (sub e 1) (Some b) = Some b'" "fr' = fr\<lparr>f_buff := Some b'\<rparr>"
    using assms(1) b(1) by (auto simp: DTAP_CopyFrame_def simp del: SDF_BuffCopy.simps split: option.splits)
  note c = SDF_BuffCopy_Some [OF b'(1)]
  show "holds_piece p fr'" using b b'(2) c by (simp add: holds_piece_def carries_def buff_ok_def) blast
  show "txSeq fr' = txSeq fr" using b'(2) by simp
qed

lemma build_ack_offset: "DTAP_BuildAckFrame e fr tcid crc = Some (DTAP_SUCCESS, fr') \<Longrightarrow> f_buff fr' = Some b \<Longrightarrow> dataOff b = 8"
  by (auto simp: DTAP_BuildAckFrame_def append_crc_def mem_write_def Let_def SDF_BuffHeadRoom_def dest!: SDF_BuffNewWithReserve_SomeD
      split: option.splits bind_splits if_splits prod.splits)

lemma ack_ctx: "DTAP_GetFrameCtx DTAP_FRAME_ACK = Some AckFrameCtx"
  by code_simp

lemma send_ack_ok:
  assumes "port_ok a d"
  shows "\<exists>ret d'. DTAP_SendAckFrame e a c r fBit sBit d = Some (ret, d') \<and> port_to d d'"
proof (cases "SDF_MemZalloc (sub e 0)")
  case None
  then show ?thesis by (simp add: DTAP_SendAckFrame_def ack_ctx DTAP_BuildAckFrame_def SDF_BuffNewWithReserve_def)
next
  case (Some x)
  let ?f = "(ack_frame r fBit sBit)\<lparr>f_ctx := AckFrameCtx\<rparr>"
  obtain b old where b: "DTAP_BuildAckFrame (sub e 0) ?f (dstTcid c) (rc_crcInit r) = Some (DTAP_SUCCESS, ?f\<lparr>f_buff := Some b\<rparr>)" "buff_ok b"
    using DTAP_BuildAckFrame_Some [OF Some] by metis
  have "DLI_HEADER \<le> SDF_BuffHeadRoom b" using build_ack_offset [OF b(1)] by (simp add: SDF_BuffHeadRoom_def)
  then obtain ret d' where "DTAP_SendFrame (sub e 1) a (Some b) d = Some (ret, d')" "port_to d d'"
    using send_frame_ok [OF assms, of "Some b" "sub e 1"] b(2) by auto
  then show ?thesis using b(1) by (simp add: DTAP_SendAckFrame_def ack_ctx)
qed

lemma operate_keeps:
  "DTAP_OperateReorderTimer e c r d = (r', d') \<Longrightarrow> dp d' = dp d \<and> ups d' = ups d \<and> txWindow r' = txWindow r
    \<and> rc_crcInit r' = rc_crcInit r \<and> rx_part r' = rx_part r"
  by (auto simp: DTAP_OperateReorderTimer_def Let_def DTAP_TransRestartTimer_def split: if_splits prod.splits dest: start_timer_keeps)

text \<open>
  The receiver has taken exactly the frames before \<open>n\<close> and queues some of the following ones, each at the
  distance its number says.
\<close>

definition rx_queue :: "(nat \<Rightarrow> piece) \<Rightarrow> nat \<Rightarrow> nat list \<Rightarrow> DTAP_RxWindow \<Rightarrow> bool" where
  "rx_queue f n offs w \<longleftrightarrow> list_all2 (\<lambda>g j. txSeq g = seq_add (seq_add 0 n) j \<and> holds_piece (f (n + j)) g) (rxList w) offs
     \<and> bufferSeq w = seq_add 0 n"

lemma rx_queue_delivered:
  assumes w: "rx_at w ([0 ..< m] @ rest) m" and q: "rx_queue f n ([0 ..< m] @ rest) w" and ne: "[0 ..< m] @ rest \<noteq> []"
    and gap: "\<forall>j \<in> set rest. m < j"
    and w': "w' = w\<lparr>rxList := drop m (rxList w), bufferSeq := seq_add (bufferSeq w) m\<rparr>"
  shows "rx_at w' (map (\<lambda>j. j - m) rest) 0" "rx_queue f (n + m) (map (\<lambda>j. j - m) rest) w'"
proof -
  let ?s = "seq_add 0 n" and ?rest = "map (\<lambda>j. j - m) rest"
  have s: "bufferSeq w = ?s" and l: "list_all2 (\<lambda>g j. txSeq g = seq_add ?s j \<and> holds_piece (f (n + j)) g) (rxList w) ([0 ..< m] @ rest)"
    using q by (auto simp: rx_queue_def)
  have l': "list_all2 (\<lambda>g j. txSeq g = seq_add ?s j \<and> holds_piece (f (n + j)) g) (drop m (rxList w)) rest"
    using list_all2_dropI [OF l, of m] by simp
  then have l2: "list_all2 (\<lambda>g j. txSeq g = seq_add (seq_add 0 (n + m)) j \<and> holds_piece (f (n + m + j)) g) (drop m (rxList w)) ?rest"
    unfolding list_all2_map2 using gap by (elim list.rel_mono_strong) (auto simp: add.assoc)
  then show "rx_queue f (n + m) ?rest w'" using s by (simp add: rx_queue_def w')
  have "map txSeq (drop m (rxList w)) = map (seq_add (seq_add 0 (n + m))) ?rest"
    using l2 by (induction rule: list_all2_induct) auto
  moreover have "sorted_wrt (<) ?rest"
  proof -
    have "sorted_wrt (<) rest" using w by (simp add: rx_at_def sorted_wrt_append)
    then show ?thesis unfolding sorted_wrt_map by (rule sorted_wrt_mono_rel [rotated]) (use gap in auto)
  qed
  moreover have "maxExpectedTxSeq w = seq_add (seq_add 0 (n + m)) (if ?rest = [] then 0 else last ?rest + 1)"
  proof (cases "rest = []")
    case True
    then have "m \<noteq> 0" using ne by auto
    then show ?thesis using w s True by (simp add: rx_at_def)
  next
    case False
    then have "m < last rest" using gap by simp
    then show ?thesis using w s False by (simp add: rx_at_def last_map)
  qed
  moreover have "\<forall>j \<in> set ?rest. j < rw_size w" using w by (auto simp: rx_at_def intro: le_less_trans [OF diff_le_self])
  ultimately show "rx_at w' ?rest 0" using w s gap by (simp add: rx_at_def w') auto
qed

lemma inner_delivers:
  assumes w: "rx_at (rxWindow r) offs m" and q: "rx_queue f n offs (rxWindow r)" and ne: "offs \<noteq> []"
    and nf: "\<not> isRxWindowFull r" "never_full e" and f: "sends f sdu" "rx_memory f e" "frags_hold (snd (sent f n)) (frags r)"
  shows "\<exists>r' d' offs'. DTAP_RecvEnhanceFrameInner e live c (Some cb) r d = Some (r', d')
    \<and> rx_at (rxWindow r') offs' 0 \<and> rx_queue f (n + m) offs' (rxWindow r') \<and> \<not> isRxWindowFull r'
    \<and> rw_size (rxWindow r') = rw_size (rxWindow r) \<and> txWindow r' = txWindow r \<and> rc_crcInit r' = rc_crcInit r \<and> cacheBuff r' = cacheBuff r
    \<and> frags_hold (snd (sent f (n + m))) (frags r') \<and> m \<le> 255
    \<and> dp d' = dp d \<and> map up_data (ups d') = map up_data (ups d) @ map sdu [fst (sent f n) ..< fst (sent f (n + m))]"
proof -
  let ?w = "rxWindow r"
  obtain rest where rest: "offs = [0 ..< m] @ rest" "\<forall>j \<in> set rest. m < j"
    using sorted_prefix [of offs m] w by (auto simp: rx_at_def)
  have s: "seq_ok (seq_add 0 n)" "bufferSeq ?w = seq_add 0 n" using q by (simp_all add: rx_queue_def)
  have "\<forall>j \<in> set rest. j < rw_size ?w" "m \<le> rw_size ?w" "rw_size ?w \<le> 255" using w rest(1) by (auto simp: rx_at_def)
  then have lt: "\<forall>j \<in> set rest. j < 16384" "0 + m < 16384" "m \<le> 255" by force+
  have l: "list_all2 (\<lambda>g j. txSeq g = seq_add (seq_add 0 n) j \<and> holds_piece (f (n + j)) g) (rxList ?w) ([0 ..< 0 + m] @ rest)"
    using q rest(1) by (simp add: rx_queue_def)
  have hd: "rest = [] \<or> hd rest \<noteq> 0 + m" using rest(2) by (cases rest) auto
  obtain fg us where us: "deliver e 0 live c (Some cb) (rxList ?w) (seq_add 0 n) (frags r) = Some (drop m (rxList ?w), seq_add 0 (n + m), fg, False, us)"
    "frags_hold (snd (sent f (n + m))) fg" "map up_data us = map sdu [fst (sent f n) ..< fst (sent f (n + m))]"
    using deliver_all [OF f(1) nf(2) f(2) s(1) l hd lt(1,2), of "frags r" 0 live c cb] s(1) f(3) by auto
  define r' where "r' = rw_upd (\<lambda>w. w\<lparr>rxList := drop m (rxList w), bufferSeq := seq_add 0 (n + m)\<rparr>) (r\<lparr>frags := fg, isRxWindowFull := False\<rparr>)"
  have "DTAP_RecvEnhanceFrameInner e live c (Some cb) r d = Some (r', d\<lparr>ups := ups d @ us\<rparr>)"
    using us(1) nf(1) s(2) by (simp add: DTAP_RecvEnhanceFrameInner_def r'_def)
  moreover note rx_queue_delivered [OF w [unfolded rest(1)] q [unfolded rest(1)] ne [unfolded rest(1)] rest(2)]
  ultimately show ?thesis using us(2,3) s(2) lt(3)
    by (intro exI [of _ r'] exI [of _ "d\<lparr>ups := ups d @ us\<rparr>"] exI [of _ "map (\<lambda>j. j - m) rest"]) (simp add: r'_def)
qed

text \<open>The whole state of the receiving channel.\<close>

definition rx_chan :: "(nat \<Rightarrow> piece) \<Rightarrow> nat \<Rightarrow> nat list \<Rightarrow> DTAP_ReliableChannel \<Rightarrow> bool" where
  "rx_chan f n offs r \<longleftrightarrow> rx_at (rxWindow r) offs 0 \<and> rx_queue f n offs (rxWindow r) \<and> \<not> isRxWindowFull r
     \<and> 0 < rw_size (rxWindow r) \<and> tx_ok r \<and> cache_ok r \<and> frags_hold (snd (sent f n)) (frags r)"

lemma copy_total: "alloc_ok e \<Longrightarrow> holds_piece x fr \<Longrightarrow> DTAP_CopyFrame (sub e k) fr \<noteq> None"
  using alloc_okD [of "sub (sub e k) 0"] alloc_okD [of "sub (sub e k) 1"]
  by (auto simp: DTAP_CopyFrame_def holds_piece_def carries_def split: option.splits)

lemma answer_ok:
  assumes "port_ok a d"
  shows "\<exists>r' d'. (if p then do {
                (ret, d4) \<leftarrow> DTAP_SendAckFrame e a c r True False d;
                Some (if ret \<noteq> DTAP_SUCCESS then (r, d4) else restart_rsp e' c r d4)
              }
              else Some (r, d)) = Some (r', d') \<and> port_to d d' \<and> txWindow r' = txWindow r \<and> rc_crcInit r' = rc_crcInit r \<and> rx_part r' = rx_part r"
proof -
  obtain ret d4 where a: "DTAP_SendAckFrame e a c r True False d = Some (ret, d4)" "port_to d d4" using send_ack_ok [OF assms] by blast
  obtain r5 d5 where t: "restart_rsp e' c r d4 = (r5, d5)" by fastforce
  note k = timer_simps(1) [OF t]
  have "port_to d d5" using a(2) port_to_trans [OF a(2) port_to_dp [of d5 d4]] k by simp
  then show ?thesis using a t k by auto
qed

lemma slide_tx_crc: "DTAP_SlideTxWindow e c fr r d = (r', d') \<Longrightarrow> rc_crcInit r' = rc_crcInit r"
  by (auto simp: DTAP_SlideTxWindow_def Let_def split: if_splits dest!: timer_simps(2))

lemma recv_enhance_step:
  assumes r: "rx_chan f n offs r" and i: "i < rw_size (rxWindow r)" "i \<notin> set offs"
    and fr: "txSeq fr = seq_add 0 (n + i)" "holds_piece (f (n + i)) fr" "ack_ok fr"
    and env: "port_ok a d" "never_full e" "rx_memory f e" and f: "sends f sdu"
  shows "\<exists>ret r' d' k offs'. DTAP_RecvEnhanceFrame e a c fr (Some cb) r d = Some (ret, r', d') \<and> rx_chan f (n + k) offs' r' \<and> port_ok a d'
    \<and> map up_data (ups d') = map up_data (ups d) @ map sdu [fst (sent f n) ..< fst (sent f (n + k))] \<and> k \<le> 255
    \<and> rc_crcInit r' = rc_crcInit r \<and> rw_size (rxWindow r') = rw_size (rxWindow r)
    \<and> (alloc_ok e \<longrightarrow> i = 0 \<longrightarrow> 0 < k)"
proof -
  have ty: "getFrameType (f_ctx fr) \<noteq> DTAP_FRAME_ACK" using fr(2) by (auto simp: holds_piece_def)
  have nack: "DTAP_RecvNackFrame (sub e 0) a c fr r d = Some (DTAP_SUCCESS, r, d)" using ty by (simp add: DTAP_RecvNackFrame_def)
  obtain r1 d1 where s1: "DTAP_SlideTxWindow (sub e 1) c fr r d = (r1, d1)" by fastforce
  have r1: "tx_ok r1" "dp d1 = dp d" "ups d1 = ups d" "rx_part r1 = rx_part r" "rc_crcInit r1 = rc_crcInit r" "cache_ok r1"
    using slide_tx_ok [OF _ fr(3) s1] slide_tx_crc [OF s1] r by (auto simp: rx_chan_def cache_ok_def)
  have p1: "port_ok a d1" using env(1) r1(2) by (simp add: port_ok_def)
  show ?thesis
  proof (cases "DTAP_CopyFrame (sub e 3) fr")
    case None
    then have "DTAP_RecvEnhanceFrame e a c fr (Some cb) r d = Some (DTAP_TRANS_RELIABLE_COPY_FRAME_ERR, r1, d1)"
      using nack s1 ty by (simp add: DTAP_RecvEnhanceFrame_def)
    moreover have "\<not> alloc_ok e" using None copy_total [OF _ fr(2)] by blast
    moreover have "rx_chan f (n + 0) offs r1" using r r1 by (simp add: rx_chan_def)
    ultimately show ?thesis using r1 p1
      by (intro exI [of _ DTAP_TRANS_RELIABLE_COPY_FRAME_ERR] exI [of _ r1] exI [of _ d1] exI [of _ 0] exI [of _ offs]) simp
  next
    case (Some cf)
    note cf = copy_holds [OF Some fr(2)]
    let ?r = "DTAP_SlideRxWindow cf r1"
    have q: "bufferSeq (rxWindow r1) = seq_add 0 n" using r r1(4) by (simp add: rx_chan_def rx_queue_def)
    have t: "txSeq cf = seq_add (bufferSeq (rxWindow r1)) i" using cf(2) fr(1) q by simp
    obtain m where m: "rx_at (rxWindow ?r) (insert_off i offs) m"
      using slide_rx_ok [of r1 offs 0 cf i] r r1(4) t i by (auto simp: rx_chan_def)
    have "i \<le> 255" "\<forall>j \<in> set offs. j \<le> 255" "map txSeq (rxList (rxWindow r1)) = map (seq_add (seq_add 0 n)) offs"
      using r r1(4) i(1) q by (force simp: rx_chan_def rx_at_def)+
    then have qq: "rx_queue f n (insert_off i offs) (rxWindow ?r)"
      using r r1(4) q t cf(1) unfolding rx_queue_def slide_rx_fields
      by (intro conjI insert_frame_rel [where s = "seq_add 0 n"]) (auto simp: rx_chan_def rx_queue_def)
    obtain r2 d2 where o: "DTAP_OperateReorderTimer (sub e 4) c ?r d1 = (r2, d2)" by fastforce
    note r2 = operate_keeps [OF o]
    obtain r3 d3 offs' where r3: "DTAP_RecvEnhanceFrameInner (sub e 5) (case f_buff fr of None \<Rightarrow> [] | Some b \<Rightarrow> [b]) c (Some cb) r2 d2 = Some (r3, d3)"
      "rx_at (rxWindow r3) offs' 0" "rx_queue f (n + m) offs' (rxWindow r3)" "\<not> isRxWindowFull r3"
      "rw_size (rxWindow r3) = rw_size (rxWindow r2)" "txWindow r3 = txWindow r2" "rc_crcInit r3 = rc_crcInit r2" "cacheBuff r3 = cacheBuff r2"
      "dp d3 = dp d2" "map up_data (ups d3) = map up_data (ups d2) @ map sdu [fst (sent f n) ..< fst (sent f (n + m))]"
      "frags_hold (snd (sent f (n + m))) (frags r3)" "m \<le> 255"
      using inner_delivers [of r2 "insert_off i offs" m f n "sub e 5" sdu "case f_buff fr of None \<Rightarrow> [] | Some b \<Rightarrow> [b]" c cb d2]
        m qq r2 insert_off_props(3) env(2,3) f r r1(4) by (auto simp: slide_rx_fields rx_chan_def)
    have ok3: "tx_ok r3" "cache_ok r3" "port_ok a d3"
      using r1(1,6) r2 r3(6-9) p1 tx_ok_cong [of r3 r1] by (simp_all add: slide_rx_fields cache_ok_def port_ok_def)
    define ack where "ack = (if DTAP_CheckFrameBit (f_bits cf) DTAP_FRAME_P_BIT then do {
                (ret, d4) \<leftarrow> DTAP_SendAckFrame (sub e 6) a c r3 True False d3;
                Some (if ret \<noteq> DTAP_SUCCESS then (r3, d4) else restart_rsp (sub e 7) c r3 d4)
              }
              else Some (r3, d3))"
    obtain r4 d4 where r4: "ack = Some (r4, d4)" "port_to d3 d4" "txWindow r4 = txWindow r3" "rc_crcInit r4 = rc_crcInit r3" "rx_part r4 = rx_part r3"
      using answer_ok [OF ok3(3)] unfolding ack_def by blast
    have "tx_ok r4" "cache_ok r4" "port_ok a d4" using ok3 r4 tx_ok_cong [of r4 r3] port_to_ok by (auto simp: cache_ok_def)
    then obtain r5 d5 where r5: "DTAP_TransChannelStatusChange (sub e 8) a c 0 r4 d4 = Some (r5, d5)" "rel_to r4 d4 r5 d5"
      using status_change_ok by blast
    have "DTAP_RecvEnhanceFrame e a c fr (Some cb) r d = Some (DTAP_SUCCESS, r5, d5)"
      using nack s1 ty Some o r3(1) r4(1) r5(1) by (simp add: DTAP_RecvEnhanceFrame_def ack_def)
    moreover have "rx_chan f (n + m) offs' r5"
      using r3(2-5,11) r4(5) r5(2) r2 r1(4) r by (auto simp: rx_chan_def rel_to_def slide_rx_fields)
    moreover have "port_ok a d5" using r5(2) \<open>port_ok a d4\<close> port_to_ok by (auto simp: rel_to_def)
    moreover have "map up_data (ups d5) = map up_data (ups d) @ map sdu [fst (sent f n) ..< fst (sent f (n + m))]"
      using r5(2) r4(2) r3(10) r2 r1(3) by (simp add: rel_to_def port_to_def)
    moreover have "rc_crcInit r5 = rc_crcInit r" "rw_size (rxWindow r5) = rw_size (rxWindow r)"
      using r5(2) r4(4,5) r3(5,7) r2 r1(4,5) by (auto simp: rel_to_def slide_rx_fields)
    moreover have "i = 0 \<Longrightarrow> 0 < m" using m insert_off_props(1) [of i offs] by (cases m) (auto simp: rx_at_def)
    ultimately show ?thesis by (intro exI [of _ DTAP_SUCCESS] exI [of _ r5] exI [of _ d5] exI [of _ m] exI [of _ offs']) (simp add: r3(12))
  qed
qed

text \<open>
  What \<open>dtap.c\<close> does with a received frame of a reliable channel: the check, then, if the frame passes it,
  the receive function of the mode. \<open>arrives\<close> says that the frame is number \<open>i\<close> of the sender: the
  frame checks, its number is \<open>i\<close> on the circle, and its acknowledgement number is one of the 14-bit field.
\<close>

definition rx_step :: "nat \<Rightarrow> channel \<Rightarrow> nat \<Rightarrow> dtap_env \<Rightarrow> DTAP_Frame \<Rightarrow> DTAP_ReliableChannel \<times> dtap \<Rightarrow> (DTAP_ReliableChannel \<times> dtap) option" where
  "rx_step a c cb e fr = (\<lambda>(r, d). do {
     ok \<leftarrow> DTAP_CheckEnhanceFrame r fr;
     if ok then do { (ret, r', d') \<leftarrow> DTAP_RecvEnhanceFrame e a c fr (Some cb) r d; Some (r', d') } else Some (r, d)
   })"

fun rx_run :: "nat \<Rightarrow> channel \<Rightarrow> nat \<Rightarrow> (dtap_env \<times> DTAP_Frame) list \<Rightarrow> DTAP_ReliableChannel \<times> dtap \<Rightarrow> (DTAP_ReliableChannel \<times> dtap) option" where
  "rx_run a c cb [] s = Some s"
| "rx_run a c cb ((e, fr) # arr) s = do { s' \<leftarrow> rx_step a c cb e fr s; rx_run a c cb arr s' }"

definition arrives :: "u16 \<Rightarrow> (nat \<Rightarrow> piece) \<Rightarrow> nat \<Rightarrow> DTAP_Frame \<Rightarrow> bool" where
  "arrives crc f i fr \<longleftrightarrow> txSeq fr = seq_add 0 i \<and> holds_piece (f i) fr \<and> ack_ok fr \<and> CRC16 crc (buff_data (the (f_buff fr))) = 0"

lemma check_arrives:
  assumes r: "rx_chan f n offs r" and fr: "arrives (rc_crcInit r) f i fr" and i: "n \<le> i + 8000" "i < n + 8000"
  shows "DTAP_CheckEnhanceFrame r fr = Some (n \<le> i \<and> i < n + rw_size (rxWindow r) \<and> i - n \<notin> set offs)"
proof -
  let ?w = "rxWindow r"
  have w: "rx_at ?w offs 0" "0 < rw_size ?w" "bufferSeq ?w = seq_add 0 n" "rw_size ?w \<le> 255" "\<forall>j \<in> set offs. j < rw_size ?w"
    "map txSeq (rxList ?w) = map (seq_add (seq_add 0 n)) offs"
    using r by (auto simp: rx_chan_def rx_queue_def rx_at_def)
  obtain b where b: "f_buff fr = Some b" "CRC16 (rc_crcInit r) (buff_data b) = 0" "f_ctx fr \<in> {SimplexFragFrameCtx, DuplexFragFrameCtx}"
    using fr by (auto simp: arrives_def holds_piece_def carries_def)
  have "DTAP_CheckEnhanceFrame r fr = Some (DTAP_CheckEnhanceFrameTxSeq ?w (txSeq fr))"
    using b by (auto simp: DTAP_CheckEnhanceFrame_def Let_def)
  moreover have t: "txSeq fr = seq_add 0 i" using fr by (simp add: arrives_def)
  moreover have "DTAP_CheckEnhanceFrameTxSeq ?w (txSeq fr) \<longleftrightarrow> seq_dist (bufferSeq ?w) (txSeq fr) < rw_size ?w \<and> txSeq fr \<notin> txSeq ` set (rxList ?w)"
    using w t by (intro check_txSeq_iff) auto
  moreover have "\<dots> \<longleftrightarrow> n \<le> i \<and> i < n + rw_size ?w \<and> i - n \<notin> set offs"
  proof (cases "n \<le> i")
    case True
    then have ti: "txSeq fr = seq_add (seq_add 0 n) (i - n)" using t by simp
    have lt: "i - n < 16384" using i by simp
    have "seq_dist (bufferSeq ?w) (txSeq fr) = i - n" unfolding ti w(3) using seq_dist_add [of "seq_add 0 n" "i - n"] lt by simp
    moreover have "txSeq fr \<in> txSeq ` set (rxList ?w) \<longleftrightarrow> i - n \<in> set offs"
    proof -
      have "txSeq ` set (rxList ?w) = seq_add (seq_add 0 n) ` set offs" using w(6) by (metis list.set_map)
      moreover have "\<forall>j \<in> set offs. j < 16384" using w(4,5) by force
      ultimately show ?thesis unfolding ti using seq_add_inj [of "seq_add 0 n"] lt by (auto simp: image_iff)
    qed
    ultimately show ?thesis using True by auto
  next
    case False
    have "txSeq fr = seq_add (seq_add 0 n) (16384 + i - n)"
      using mod_circle [of "n" "i - n"] False i t by (simp add: seq_eq_iff unat_seq_add)
    then have "seq_dist (bufferSeq ?w) (txSeq fr) = 16384 + i - n" unfolding w(3) using seq_dist_add [of "seq_add 0 n" "16384 + i - n"] False i by simp
    then show ?thesis using False i w(4) by auto
  qed
  ultimately show ?thesis by simp
qed

lemma rx_step_once:
  assumes r: "rx_chan f n offs r" "rc_crcInit r = crc" and fr: "arrives crc f i fr" and i: "n \<le> i + 8000" "i < n + 8000"
    and env: "port_ok a d" "never_full e" "rx_memory f e" and f: "sends f sdu"
  shows "\<exists>r' d' k offs'. rx_step a c cb e fr (r, d) = Some (r', d') \<and> rx_chan f (n + k) offs' r' \<and> rc_crcInit r' = crc \<and> port_ok a d'
    \<and> map up_data (ups d') = map up_data (ups d) @ map sdu [fst (sent f n) ..< fst (sent f (n + k))] \<and> k \<le> 255
    \<and> rw_size (rxWindow r') = rw_size (rxWindow r) \<and> (alloc_ok e \<longrightarrow> i = n \<longrightarrow> 0 < k)"
proof (cases "n \<le> i \<and> i < n + rw_size (rxWindow r) \<and> i - n \<notin> set offs")
  case False
  then have "rx_step a c cb e fr (r, d) = Some (r, d)" using check_arrives [OF r(1) fr [folded r(2)] i] by (auto simp: rx_step_def)
  moreover have "i \<noteq> n" using False r by (auto simp: rx_chan_def rx_at_def)
  ultimately show ?thesis using r env by (intro exI [of _ r] exI [of _ d] exI [of _ 0] exI [of _ offs]) simp
next
  case True
  have "i - n < rw_size (rxWindow r)" "i - n \<notin> set offs" "txSeq fr = seq_add 0 (n + (i - n))" "holds_piece (f (n + (i - n))) fr" "ack_ok fr"
    using True fr by (auto simp: arrives_def)
  from recv_enhance_step [OF r(1) this env f, of c cb] obtain ret r' d' k offs' where
    s: "DTAP_RecvEnhanceFrame e a c fr (Some cb) r d = Some (ret, r', d')" "rx_chan f (n + k) offs' r'" "port_ok a d'"
    "map up_data (ups d') = map up_data (ups d) @ map sdu [fst (sent f n) ..< fst (sent f (n + k))]" "k \<le> 255" "rc_crcInit r' = rc_crcInit r" "rw_size (rxWindow r') = rw_size (rxWindow r)"
    "alloc_ok e \<longrightarrow> i - n = 0 \<longrightarrow> 0 < k" by (elim exE conjE) (rule that)
  have "rx_step a c cb e fr (r, d) = Some (r', d')"
    using check_arrives [OF r(1) fr [folded r(2)] i] True s(1) by (simp add: rx_step_def)
  then show ?thesis using s r(2) by (intro exI [of _ r'] exI [of _ d'] exI [of _ k] exI [of _ offs']) simp
qed

text \<open>
  A run of the receiver: frames of the sender arrive in any order, any number of times, none too far (8000
  numbers) from the frame the receiver waits for, the upper layer never answers that it is full, and there is
  memory where cut packets are put together. The run counts the frames that have left the window, the
  distance its lower edge has moved.
\<close>

inductive rx_reach :: "nat \<Rightarrow> channel \<Rightarrow> nat \<Rightarrow> u16 \<Rightarrow> (nat \<Rightarrow> piece) \<Rightarrow> DTAP_ReliableChannel \<times> dtap \<Rightarrow> nat \<Rightarrow> DTAP_ReliableChannel \<times> dtap \<Rightarrow> bool"
  for a c cb crc f s where
  rx_start: "rx_reach a c cb crc f s 0 s"
| rx_arrival: "rx_reach a c cb crc f s n (r, d) \<Longrightarrow> arrives crc f i fr \<Longrightarrow> never_full e \<Longrightarrow> rx_memory f e \<Longrightarrow> n \<le> i + 8000 \<Longrightarrow> i < n + 8000
    \<Longrightarrow> rx_step a c cb e fr (r, d) = Some (r', d')
    \<Longrightarrow> rx_reach a c cb crc f s (n + seq_dist (bufferSeq (rxWindow r)) (bufferSeq (rxWindow r'))) (r', d')"

definition rx_inv :: "nat \<Rightarrow> u16 \<Rightarrow> (nat \<Rightarrow> piece) \<Rightarrow> (nat \<Rightarrow> bytes) \<Rightarrow> nat \<Rightarrow> DTAP_ReliableChannel \<times> dtap \<Rightarrow> bool" where
  "rx_inv a crc f sdu n = (\<lambda>(r, d). (\<exists>offs. rx_chan f n offs r) \<and> rc_crcInit r = crc \<and> port_ok a d
     \<and> map up_data (ups d) = map sdu [0 ..< fst (sent f n)])"

lemma rx_inv_step:
  assumes f: "sends f sdu" and inv: "rx_inv a crc f sdu n (r, d)" and a: "arrives crc f i fr" "never_full e" "rx_memory f e" "n \<le> i + 8000" "i < n + 8000"
  shows "\<exists>r' d' k. rx_step a c cb e fr (r, d) = Some (r', d') \<and> rx_inv a crc f sdu (n + k) (r', d')
    \<and> seq_dist (bufferSeq (rxWindow r)) (bufferSeq (rxWindow r')) = k \<and> (alloc_ok e \<longrightarrow> i = n \<longrightarrow> 0 < k)"
proof -
  obtain offs where r: "rx_chan f n offs r" "rc_crcInit r = crc" "port_ok a d" "map up_data (ups d) = map sdu [0 ..< fst (sent f n)]"
    using inv by (auto simp: rx_inv_def)
  obtain r' d' k offs' where s: "rx_step a c cb e fr (r, d) = Some (r', d')" "rx_chan f (n + k) offs' r'" "rc_crcInit r' = crc" "port_ok a d'"
    "map up_data (ups d') = map up_data (ups d) @ map sdu [fst (sent f n) ..< fst (sent f (n + k))]" "k \<le> 255" "alloc_ok e \<longrightarrow> i = n \<longrightarrow> 0 < k"
    using rx_step_once [OF r(1,2) a(1,4,5) r(3) a(2,3) f, of c cb] by (elim exE conjE) (rule that)
  have "[0 ..< fst (sent f (n + k))] = [0 ..< fst (sent f n)] @ [fst (sent f n) ..< fst (sent f (n + k))]"
    using sent_mono [of n "n + k" f] by (metis le_add1 le_add_diff_inverse upt_add_eq_append zero_le)
  then have "rx_inv a crc f sdu (n + k) (r', d')" using s(2-5) r(4) by (auto simp: rx_inv_def)
  moreover have "seq_dist (bufferSeq (rxWindow r)) (bufferSeq (rxWindow r')) = k"
    using r(1) s(2,6) seq_dist_add [of "seq_add 0 n" k] by (simp add: rx_chan_def rx_queue_def)
  ultimately show ?thesis using s(1,7) by blast
qed

lemma rx_reach_inv: "rx_reach a c cb crc f s n s' \<Longrightarrow> sends f sdu \<Longrightarrow> rx_inv a crc f sdu 0 s \<Longrightarrow> rx_inv a crc f sdu n s'"
proof (induction rule: rx_reach.induct)
  case (rx_arrival n r d i fr e r' d')
  then show ?case using rx_inv_step [OF rx_arrival.prems(1) rx_arrival.IH [OF rx_arrival.prems] rx_arrival.hyps(2-6), of c cb] by auto
qed

text \<open>
  (C1) The reliable mode delivers in order and exactly once. A sender numbers its fragment frames, whole
  packets or packets of at most 65535 bytes cut into pieces. Whatever of these frames arrive at a fresh
  channel, in whatever order, however often and with whatever acknowledgement numbers, none further than 8000
  numbers from the one the receiver waits for, the packets given to the upper layer are at every moment the
  packets \<open>0, 1, 2, \<dots>\<close> of the sender that the frames taken so far complete, none missing, none twice, each as it
  was sent; no arrival makes the receiver access memory it may not; and when the frame it waits for arrives and
  memory can be had, the packets it completes are given up at once. The upper layer must never answer that it
  is full, and memory must not run out while cut packets are put together.
\<close>

theorem reliable_exactly_once:
  assumes "sends f sdu" "rx_chan f 0 [] r0" "rc_crcInit r0 = crc" "port_ok a d0" "ups d0 = []" "rx_reach a c cb crc f (r0, d0) n (r, d)"
  shows "map up_data (ups d) = map sdu [0 ..< fst (sent f n)]
    \<and> (\<forall>i fr e. arrives crc f i fr \<and> never_full e \<and> rx_memory f e \<and> n \<le> i + 8000 \<and> i < n + 8000 \<longrightarrow>
        (\<exists>r' d'. rx_step a c cb e fr (r, d) = Some (r', d') \<and> (alloc_ok e \<longrightarrow> i = n \<longrightarrow> fst (sent f (Suc n)) \<le> length (ups d'))))"
proof -
  have "rx_inv a crc f sdu 0 (r0, d0)" using assms(2-5) by (auto simp: rx_inv_def)
  then have inv: "rx_inv a crc f sdu n (r, d)" using rx_reach_inv [OF assms(6,1)] by simp
  moreover have "\<exists>r' d'. rx_step a c cb e fr (r, d) = Some (r', d') \<and> (alloc_ok e \<longrightarrow> i = n \<longrightarrow> fst (sent f (Suc n)) \<le> length (ups d'))"
    if a: "arrives crc f i fr" "never_full e" "rx_memory f e" "n \<le> i + 8000" "i < n + 8000" for i fr e
  proof -
    obtain r' d' k where s: "rx_step a c cb e fr (r, d) = Some (r', d')" "rx_inv a crc f sdu (n + k) (r', d')" "alloc_ok e \<longrightarrow> i = n \<longrightarrow> 0 < k"
      using rx_inv_step [OF assms(1) inv a, of c cb] by blast
    have "length (ups d') = fst (sent f (n + k))" using s(2) by (auto simp: rx_inv_def dest: arg_cong [of _ _ length])
    then show ?thesis using s(1,3) sent_mono [of "Suc n" "n + k" f] by auto
  qed
  ultimately show ?thesis by (simp add: rx_inv_def)
qed

text \<open>A fresh channel with the default window, the module around it, and the frame of packet 0.\<close>

definition demo_rel :: DTAP_ReliableChannel where
  "demo_rel = \<lparr>rc_reorderTimeout = 10000, rc_crcInit = 0x1234, rc_retransTimeout = 1000, rc_rspTimeout = 1000, maxTxThreshold = 5,
     reorderTimer = -1, retransTimer = -1, rspTimer = 1, isRecvFrame = False, isRxWindowFull = False, reTxSeq = 0,
     txWindow = \<lparr>tw_size = 200, nextTxSeq = 0, expectedAckSeq = 0, txList = []\<rparr>, nackCnt = 0,
     rxWindow = \<lparr>rw_size = 200, bufferSeq = 0, expectedTxSeq = 0, maxExpectedTxSeq = 0, rxList = []\<rparr>, frags = None, cachePi = 0,
     cacheBuff = None, sendPollingCounter = 0, isTxWindowFull = False, isDestroyMsgSent = False\<rparr>"

definition demo_channel :: channel where
  "demo_channel = \<lparr>pktList = [], priority = DTAP_PRIORITY_NORMAL, ch_type = 0, lcid = 7, srcTcid = 0x80, dstTcid = 0x81,
     mode = CM_TRANS_MODE_RELIABLE, mtu = 1000, mps = 251, castMode = 0, attr = Some (ReliableAttr demo_rel)\<rparr>"

definition demo_dtap :: dtap where
  "demo_dtap = \<lparr>dp = \<lparr>chan_heap = [0 \<mapsto> demo_channel], chan_next = 1, g_dtapScheduler = map empty_queue [0, 1, 2, 3],
       g_lcidBufferList = [], g_sendNotAckPktCnt = 0, g_isInited = True, g_pktSeq = 0, g_apBufferNum = 2, dli = dli_start 100\<rparr>,
     g_dtapLogicLinksMap = Some [(7, [0])], g_dtapRecvCbks = [], g_dtapProtoRecvCbks = [], g_dtapDataSendCbks = None, g_dtapIsInited = True,
     ups = [], status_log = [], release_log = [], timer_log = []\<rparr>"

definition demo_rx_frame :: DTAP_Frame where
  "demo_rx_frame = zero_frame\<lparr>f_ctx := SimplexFragFrameCtx, headerLen := 7, reqSeq := DTAP_FRAME_SEQ_INIT,
     f_buff := Some \<lparr>buff_addr = 1, dataOff = 0, dataLen = 11, buffLen = 11, buff = [1, 2, 3, 4, 5, 6, 7, 0xAA, 0xBB, 27, 67]\<rparr>\<rparr>"

text \<open>Packet 1 is cut into two pieces, the others are whole.\<close>

definition demo_pieces :: "nat \<Rightarrow> piece" where
  "demo_pieces n = (if n = 1 then (DTAP_SAR_FIRST, [0xAA]) else if n = 2 then (DTAP_SAR_LAST, [0xBB]) else (DTAP_SAR_UNSEG, [0xAA, 0xBB]))"

lemma demo_sends: "sends demo_pieces (\<lambda>k. [0xAA, 0xBB])"
proof -
  have late: "sent demo_pieces (Suc (Suc (Suc n))) = (Suc (Suc n), None)" for n
    by (induction n) (simp_all add: demo_pieces_def)
  have early: "sent demo_pieces 0 = (0, None)" "sent demo_pieces 1 = (1, None)" "sent demo_pieces 2 = (1, Some [0xAA])"
    by (simp_all add: demo_pieces_def eval_nat_numeral)
  have "case sent demo_pieces n of (k, acc) \<Rightarrow> case demo_pieces n of (s, b) \<Rightarrow>
     (case acc of None \<Rightarrow> s = DTAP_SAR_UNSEG \<and> b = [0xAA, 0xBB] \<or> s = DTAP_SAR_FIRST
      | Some a \<Rightarrow> length (a @ b) \<le> 65535 \<and> (s = DTAP_SAR_MID \<or> s = DTAP_SAR_LAST \<and> a @ b = [0xAA, 0xBB]))" for n
  proof -
    consider "n = 0" | "n = 1" | "n = 2" | m where "n = Suc (Suc (Suc m))" by (metis One_nat_def Suc_1 not0_implies_Suc)
    then show ?thesis by cases (simp_all only: early late, simp_all add: demo_pieces_def)
  qed
  then show ?thesis by (simp only: sends_def) blast
qed

lemma demo_port_ok: "port_ok 0 demo_dtap"
proof -
  have q: "queue_ok (chan_heap (dp demo_dtap)) i (g_dtapScheduler (dp demo_dtap) ! i)" if "i < 4" for i
  proof -
    have "i = 0 \<or> i = 1 \<or> i = 2 \<or> i = 3" using that by linarith
    then show ?thesis by (auto simp: queue_ok_def demo_dtap_def empty_queue_def)
  qed
  have "heap_ok (dp demo_dtap)" by (auto simp: heap_ok_def demo_dtap_def demo_channel_def split: if_splits)
  then show ?thesis using q by (simp add: port_ok_def sched_ok_def demo_dtap_def data_chans_def demo_channel_def)
qed

lemma demo_rx_chan: "rx_chan f 0 [] demo_rel"
  by (simp add: rx_chan_def rx_at_def rx_queue_def tx_ok_def cache_ok_def demo_rel_def Let_def seq_add_def frags_hold_def)

lemma demo_arrives: "arrives 0x1234 demo_pieces 0 demo_rx_frame"
proof -
  have "CRC16 0x1234 [1, 2, 3, 4, 5, 6, 7, 0xAA, 0xBB, 27, 67] = 0" by code_simp
  moreover have "carries demo_rx_frame DTAP_SAR_UNSEG [0xAA, 0xBB]"
    unfolding carries_def demo_rx_frame_def zero_frame_def
    by (simp add: buff_ok_def buff_data_def) (intro exI [of _ "[1, 2, 3, 4, 5, 6, 7]"] exI [of _ "[27, 67]"], simp)
  ultimately show ?thesis
    by (simp add: arrives_def holds_piece_def demo_pieces_def demo_rx_frame_def zero_frame_def ack_ok_def frame_reqSeq_def buff_data_def seq_add_def)
qed

theorem reliable_exactly_once_witness:
  "\<exists>r' d'. rx_step 0 demo_channel 9 (granting_env DTAP_SUCCESS) demo_rx_frame (demo_rel, demo_dtap) = Some (r', d') \<and> ups d' \<noteq> []"
proof -
  have c: "rc_crcInit demo_rel = 0x1234" and u: "ups demo_dtap = []" by (simp_all add: demo_rel_def demo_dtap_def)
  have e: "never_full (granting_env DTAP_SUCCESS)" "rx_memory demo_pieces (granting_env DTAP_SUCCESS)" by (simp_all add: never_full_def rx_memory_def)
  have "fst (sent demo_pieces (Suc 0)) = 1" by (simp add: demo_pieces_def)
  with reliable_exactly_once [OF demo_sends demo_rx_chan c demo_port_ok u rx_start, THEN conjunct2, rule_format, OF conjI [OF demo_arrives conjI [OF e(1) conjI [OF e(2)]]]]
  show ?thesis by fastforce
qed

end
