(* ===== verification/Dtap_Reliable_Props.thy ===== *)
theory Dtap_Reliable_Props
  imports Dtap_Exactly_Once
begin

text \<open>
  Properties of the windows and timers of the reliable mode: what an acknowledgement removes, which frames
  the receive window accepts, how the retransmission timeout grows, and that sending, acknowledgements and
  expiring timers, in any order, keep the send window well-formed and end.
\<close>

section \<open>Acknowledgements\<close>

lemma ack_accept_iff:
  assumes ok: "tx_ok r" and q: "seq_ok q" and ne: "txList (txWindow r) \<noteq> []"
  shows "(DTAP_IsFrameSeqSmaller (expectedAckSeq (txWindow r)) q \<and> DTAP_IsFrameSeqSmaller q (nextTxSeq (txWindow r)) \<or> q = nextTxSeq (txWindow r))
    \<longleftrightarrow> 1 \<le> seq_dist (expectedAckSeq (txWindow r)) q \<and> seq_dist (expectedAckSeq (txWindow r)) q \<le> length (txList (txWindow r))"
    (is "?acc \<longleftrightarrow> _")
proof
  let ?s = "expectedAckSeq (txWindow r)" and ?n = "length (txList (txWindow r))"
  have s: "seq_ok ?s" "nextTxSeq (txWindow r) = seq_add ?s ?n" "?n \<le> 255" using ok by (auto simp: tx_ok_def Let_def)
  {
    assume ?acc
    from ack_in_window [OF ok q ne this] obtain k where "1 \<le> k" "k \<le> ?n" "q = seq_add ?s k" by blast
    then show "1 \<le> seq_dist ?s q \<and> seq_dist ?s q \<le> ?n" using s seq_dist_add [of ?s k] by simp
  next
    assume k: "1 \<le> seq_dist ?s q \<and> seq_dist ?s q \<le> ?n"
    have qk: "q = seq_add ?s (seq_dist ?s q)" using seq_add_dist [OF s(1) q] by simp
    show ?acc
    proof (cases "seq_dist ?s q = ?n")
      case True
      then show ?thesis using qk s(2) by simp
    next
      case False
      then have lt: "seq_dist ?s q < ?n" using k by simp
      have "seq_dist q (seq_add ?s ?n) = ?n - seq_dist ?s q"
        using dist_between [OF s(1), of "seq_dist ?s q" ?n] qk lt s(3) by simp
      then show ?thesis using k lt s q by (simp add: DTAP_IsFrameSeqSmaller_eq) linarith
    qed
  }
qed

text \<open>What an acknowledgement number covers, counted on the circle from the oldest unacknowledged frame.\<close>

definition covered :: "DTAP_TxWindow \<Rightarrow> u16 \<Rightarrow> nat" where
  "covered w q = (if q = DTAP_FRAME_SEQ_INIT \<or> seq_dist (expectedAckSeq w) q > length (txList w) then 0 else seq_dist (expectedAckSeq w) q)"

text \<open> An acknowledgement removes exactly what it covers: whatever 14-bit number a frame acknowledges
  (0xFFFF stands for none), the frames from the oldest unacknowledged one up to that number leave the send
  queue and no other, a number outside the window changes nothing, and the queue again holds the frames from
  \<open>expectedAckSeq\<close> up to \<open>nextTxSeq\<close> in order.
\<close>

theorem reliable_ack_slides:
  assumes ok: "tx_ok r" "ack_ok fr"
  shows "case DTAP_SlideTxWindow e c fr r d of (r', d') \<Rightarrow> txList (txWindow r') = drop (covered (txWindow r) (frame_reqSeq fr)) (txList (txWindow r))
    \<and> nextTxSeq (txWindow r') = nextTxSeq (txWindow r) \<and> tx_ok r' \<and> rxWindow r' = rxWindow r \<and> ups d' = ups d"
proof -
  let ?q = "frame_reqSeq fr" and ?w = "txWindow r"
  obtain r' d' where sl: "DTAP_SlideTxWindow e c fr r d = (r', d')" by fastforce
  have keep: "tx_ok r'" "ups d' = ups d" "rx_part r' = rx_part r" using slide_tx_ok [OF ok sl] by auto
  have next_same: "nextTxSeq (txWindow r') = nextTxSeq ?w"
    using sl by (auto simp: DTAP_SlideTxWindow_def Let_def split: if_splits dest!: timer_simps(2))
  show ?thesis
  proof (cases "?q = DTAP_FRAME_SEQ_INIT \<or> txList ?w = []")
    case True
    then have "txList (txWindow r') = txList ?w" using sl by (auto simp: DTAP_SlideTxWindow_def Let_def split: if_splits)
    then show ?thesis using True sl keep next_same by (auto simp: covered_def)
  next
    case False
    then have q: "seq_ok ?q" "?q \<noteq> DTAP_FRAME_SEQ_INIT" and ne: "txList ?w \<noteq> []" using ok(2) by (auto simp: ack_ok_def)
    note acc = ack_accept_iff [OF ok(1) q(1) ne]
    have s: "seq_ok (expectedAckSeq ?w)" using ok(1) by (simp add: tx_ok_def Let_def)
    have dw: "dropWhile (\<lambda>f. DTAP_IsFrameSeqSmaller (txSeq f) ?q) (txList ?w) = drop (seq_dist (expectedAckSeq ?w) ?q) (txList ?w)"
      if "seq_dist (expectedAckSeq ?w) ?q \<le> length (txList ?w)"
      using dropWhile_seq [OF s _ that] seq_add_dist [OF s q(1)] ok(1) by (simp add: tx_ok_def Let_def)
    have "txList (txWindow r') = (if 1 \<le> seq_dist (expectedAckSeq ?w) ?q \<and> seq_dist (expectedAckSeq ?w) ?q \<le> length (txList ?w)
      then dropWhile (\<lambda>f. DTAP_IsFrameSeqSmaller (txSeq f) ?q) (txList ?w) else txList ?w)"
      unfolding acc [symmetric] using sl q(2) ne by (auto simp: DTAP_SlideTxWindow_def Let_def split: if_splits dest!: timer_simps(2))
    then have "txList (txWindow r') = drop (covered ?w ?q) (txList ?w)"
      using dw q(2) by (cases "seq_dist (expectedAckSeq ?w) ?q = 0") (auto simp: covered_def)
    then show ?thesis using sl keep next_same by simp
  qed
qed

text \<open>Three unacknowledged frames across the end of the number space.\<close>

definition demo_tx_frame :: "u16 \<Rightarrow> DTAP_Frame" where
  "demo_tx_frame s = demo_rx_frame\<lparr>txSeq := s, f_buff := Some \<lparr>buff_addr = 1, dataOff = 5, dataLen = 11, buffLen = 16,
     buff = [0, 0, 0, 0, 0, 1, 2, 3, 4, 5, 6, 7, 0xAA, 0xBB, 27, 67]\<rparr>\<rparr>"

definition demo_tx :: DTAP_ReliableChannel where
  "demo_tx = demo_rel\<lparr>txWindow := \<lparr>tw_size = 200, nextTxSeq = 1, expectedAckSeq = 0x3FFE, txList = map demo_tx_frame [0x3FFE, 0x3FFF, 0]\<rparr>\<rparr>"

lemma demo_tx_ok: "tx_ok demo_tx"
proof -
  have "CRC16 0x1234 [1, 2, 3, 4, 5, 6, 7, 0xAA, 0xBB, 27, 67] = 0" by code_simp
  then have "tx_frame_ok 0x1234 (demo_tx_frame s)" for s
    by (simp add: tx_frame_ok_def demo_tx_frame_def buff_ok_def buff_data_def SDF_BuffHeadRoom_def)
  then show ?thesis
    by (simp add: tx_ok_def demo_tx_def demo_rel_def Let_def upt_rec demo_tx_frame_def [THEN arg_cong [of _ _ txSeq]] seq_add_def)
qed

theorem reliable_ack_slides_witness:
  "txList (txWindow (fst (DTAP_SlideTxWindow (granting_env DTAP_SUCCESS) demo_channel (zero_frame\<lparr>f_ctx := AckFrameCtx, ack_reqSeq := 0\<rparr>) demo_tx demo_dtap)))
    = [demo_tx_frame 0]"
proof -
  let ?fr = "zero_frame\<lparr>f_ctx := AckFrameCtx, ack_reqSeq := 0\<rparr>"
  have "ack_ok ?fr" by (simp add: ack_ok_def frame_reqSeq_def)
  moreover have "covered (txWindow demo_tx) (frame_reqSeq ?fr) = 2" by (simp add: covered_def frame_reqSeq_def demo_tx_def seq_dist_def)
  ultimately show ?thesis
    using reliable_ack_slides [OF demo_tx_ok, of ?fr demo_dtap "granting_env DTAP_SUCCESS" demo_channel] by (auto simp: demo_tx_def split: prod.splits)
qed

section \<open>The receive window\<close>

text \<open> The receive window accepts exactly the new frames: while at least one place of the window is not
  reached by consecutive frames, a 14-bit sequence number passes \<open>DTAP_CheckEnhanceFrameTxSeq\<close> iff it lies in
  the window that starts at \<open>bufferSeq\<close> and is not queued yet.
\<close>

theorem rx_window_test:
  assumes "rx_at w offs m" "m < rw_size w" "seq_ok t"
  shows "DTAP_CheckEnhanceFrameTxSeq w t \<longleftrightarrow> seq_dist (bufferSeq w) t < rw_size w \<and> t \<notin> txSeq ` set (rxList w)"
  using check_txSeq_iff [OF assms] .

theorem rx_window_test_witness:
  "DTAP_CheckEnhanceFrameTxSeq (rxWindow demo_rel) 199 \<and> \<not> DTAP_CheckEnhanceFrameTxSeq (rxWindow demo_rel) 200
    \<and> \<not> DTAP_CheckEnhanceFrameTxSeq (rxWindow demo_rel) 0x3FFF"
proof -
  have w: "rx_at (rxWindow demo_rel) [] 0" using demo_rx_chan by (simp add: rx_chan_def)
  have d: "0 < rw_size (rxWindow demo_rel)" "bufferSeq (rxWindow demo_rel) = 0" "rxList (rxWindow demo_rel) = []" "rw_size (rxWindow demo_rel) = 200"
    by (simp_all add: demo_rel_def)
  show ?thesis
    using rx_window_test [OF w d(1), of 199] rx_window_test [OF w d(1), of 200] rx_window_test [OF w d(1), of "0x3FFF"]
    by (simp add: d seq_dist_def)
qed

text \<open>
  A full window accepts one frame too many: when consecutive frames fill the window, because the upper
  layer is full and takes nothing, the number just behind the window still passes the check (it equals
  \<open>expectedTxSeq\<close>, which is tested before the boundary), so the queue can grow beyond the window size.
\<close>

theorem rx_window_overrun:
  assumes "rx_at w offs (rw_size w)"
  shows "DTAP_CheckEnhanceFrameTxSeq w (expectedTxSeq w) \<and> seq_dist (bufferSeq w) (expectedTxSeq w) = rw_size w \<and> length (rxList w) = rw_size w"
proof -
  let ?n = "rw_size w"
  have w: "expectedTxSeq w = seq_add (bufferSeq w) ?n" "seq_ok (bufferSeq w)" "?n \<le> 255" "\<forall>i < ?n. i \<in> set offs" "\<forall>i \<in> set offs. i < ?n"
    "sorted_wrt (<) offs" "map txSeq (rxList w) = map (seq_add (bufferSeq w)) offs" using assms by (auto simp: rx_at_def)
  have "set offs = {..< ?n}" using w(4,5) by auto
  moreover have "distinct offs" using w(6) strict_sorted_iff by blast
  ultimately have "length offs = ?n" using distinct_card by fastforce
  then have "length (rxList w) = ?n" using arg_cong [OF w(7), of length] by simp
  then show ?thesis using w(1-3) by (simp add: DTAP_CheckEnhanceFrameTxSeq_def seq_dist_add DTAP_IsFrameSeqSmaller_eq seq_dist_def [of x x for x])
qed

text \<open>The smallest full window: one place, and packet 5 waits in it.\<close>

theorem rx_window_overrun_witness:
  "DTAP_CheckEnhanceFrameTxSeq \<lparr>rw_size = 1, bufferSeq = 5, expectedTxSeq = 6, maxExpectedTxSeq = 6, rxList = [zero_frame\<lparr>txSeq := 5\<rparr>]\<rparr> 6"
proof -
  have "rx_at \<lparr>rw_size = 1, bufferSeq = 5, expectedTxSeq = 6, maxExpectedTxSeq = 6, rxList = [zero_frame\<lparr>txSeq := 5\<rparr>]\<rparr> [0] 1"
    by (simp add: rx_at_def seq_add_def)
  then show ?thesis using rx_window_overrun [of "\<lparr>rw_size = 1, bufferSeq = 5, expectedTxSeq = 6, maxExpectedTxSeq = 6, rxList = [zero_frame\<lparr>txSeq := 5\<rparr>]\<rparr>" "[0]"] by simp
qed

section \<open>Timers\<close>

lemma times_sat: "(b > 65535 div k) = (65535 < b * k)" if "0 < k" for b k :: nat
  using that by (simp add: div_less_iff_less_mult)

text \<open>
  The retransmission timeout doubles with every retransmission and saturates: for a 16-bit base it is
  the base times two to the number of retransmissions (at most 15 doublings), cut at 65535, so the 16-bit
  product never wraps.
\<close>

theorem retrans_timeout_saturates:
  assumes "base \<le> 65535"
  shows "DTAP_CalculateRetransTimeout base cnt = min 65535 (base * 2 ^ min cnt 15)"
proof -
  define k where "k = min cnt 15"
  have "DTAP_CalculateRetransTimeout base cnt = (if cnt = 0 then base else if base > 65535 div 2 ^ k then 65535 else to_u16 (base * 2 ^ k))"
    by (simp add: DTAP_CalculateRetransTimeout_def Let_def k_def min_def)
  then show ?thesis using assms times_sat [of "2 ^ k" base] by (auto simp: to_u16_def k_def min_def)
qed

theorem retrans_timeout_saturates_witness:
  "DTAP_CalculateRetransTimeout 1000 3 = 8000 \<and> DTAP_CalculateRetransTimeout 1000 7 = 65535"
  using retrans_timeout_saturates [of 1000 3] retrans_timeout_saturates [of 1000 7] by simp

section \<open>Sending, acknowledgements and timers in any order\<close>

datatype rel_event = RelSend u8 SDF_Buff | RelAck DTAP_Frame | RelRetransTimer | RelReorderTimer | RelRspTimer

fun rel_step :: "nat \<Rightarrow> channel \<Rightarrow> nat option \<Rightarrow> dtap_env \<Rightarrow> rel_event \<Rightarrow> DTAP_ReliableChannel \<times> dtap \<Rightarrow> (DTAP_ReliableChannel \<times> dtap) option" where
  "rel_step a c cb e (RelSend pi b) (r, d) = map_option snd (DTAP_SendEnhanceFrame e a c pi b r d)"
| "rel_step a c cb e (RelAck fr) (r, d) = map_option snd (DTAP_RecvEnhanceFrame e a c fr cb r d)"
| "rel_step a c cb e RelRetransTimer (r, d) = DTAP_RetransTimerExpireProc e a c r d"
| "rel_step a c cb e RelReorderTimer (r, d) = DTAP_ReorderTimerExpireProc e a c r d"
| "rel_step a c cb e RelRspTimer (r, d) = map_option (Pair r) (DTAP_RspTimerExpireProc e a c r d)"

fun rel_run :: "nat \<Rightarrow> channel \<Rightarrow> nat option \<Rightarrow> (dtap_env \<times> rel_event) list \<Rightarrow> DTAP_ReliableChannel \<times> dtap \<Rightarrow> (DTAP_ReliableChannel \<times> dtap) option" where
  "rel_run a c cb [] s = Some s"
| "rel_run a c cb ((e, ev) # evs) s = do { s' \<leftarrow> rel_step a c cb e ev s; rel_run a c cb evs s' }"

fun rel_event_ok :: "rel_event \<Rightarrow> bool" where
  "rel_event_ok (RelSend pi b) \<longleftrightarrow> buff_ok b \<and> dataLen b \<le> 65535"
| "rel_event_ok (RelAck fr) \<longleftrightarrow> f_ctx fr = AckFrameCtx \<and> seq_ok (ack_reqSeq fr)"
| "rel_event_ok _ \<longleftrightarrow> True"

definition rel_inv :: "nat \<Rightarrow> DTAP_ReliableChannel \<times> dtap \<Rightarrow> bool" where
  "rel_inv a = (\<lambda>(r, d). tx_ok r \<and> cache_ok r \<and> port_ok a d)"

lemma rel_to_inv: "rel_inv a (r, d) \<Longrightarrow> rel_to r d r' d' \<Longrightarrow> rel_inv a (r', d')"
  using port_to_ok by (auto simp: rel_inv_def rel_to_def)

lemma rel_to_same: "rel_inv a (r, d) \<Longrightarrow> txWindow r' = txWindow r \<Longrightarrow> rc_crcInit r' = rc_crcInit r \<Longrightarrow> rx_part r' = rx_part r \<Longrightarrow> port_to d d' \<Longrightarrow> rel_to r d r' d'"
  using tx_ok_cong [of r' r] by (auto simp: rel_inv_def rel_to_def cache_ok_def)

lemma retrans_rel:
  assumes "rel_inv a (r, d)"
  shows "\<exists>ret r' d'. DTAP_RetransEnhanceFrame e a c (r\<lparr>reTxSeq := s\<rparr>) d = Some (ret, r', d') \<and> rel_to r d r' d'"
proof -
  have "tx_ok (r\<lparr>reTxSeq := s\<rparr>)" "port_ok a d" "cache_ok (r\<lparr>reTxSeq := s\<rparr>)"
    using assms tx_ok_cong [of "r\<lparr>reTxSeq := s\<rparr>" r] by (auto simp: rel_inv_def cache_ok_def)
  then obtain ret r' d' where "DTAP_RetransEnhanceFrame e a c (r\<lparr>reTxSeq := s\<rparr>) d = Some (ret, r', d')" "rel_to (r\<lparr>reTxSeq := s\<rparr>) d r' d'"
    using retrans_ok tx_to_rel by blast
  then show ?thesis by (auto simp: rel_to_def)
qed

lemma slide_tx_size: "DTAP_SlideTxWindow e c fr r d = (r', d') \<Longrightarrow> tw_size (txWindow r') = tw_size (txWindow r)"
  by (auto simp: DTAP_SlideTxWindow_def Let_def split: if_splits dest!: timer_simps(2))

lemma recv_ack_rel:
  assumes inv: "rel_inv a (r, d)" and fr: "f_ctx fr = AckFrameCtx" "seq_ok (ack_reqSeq fr)"
  shows "\<exists>ret r' d'. DTAP_RecvEnhanceFrame e a c fr cb r d = Some (ret, r', d') \<and> rel_to r d r' d'"
proof -
  have self: "rel_to r d r d" using inv by (simp add: rel_inv_def rel_to_def)
  obtain ret r0 d0 where n: "DTAP_RecvNackFrame (sub e 0) a c fr r d = Some (ret, r0, d0)" "rel_to r d r0 d0"
    using retrans_rel [OF inv, of "sub e 0" c "ack_reqSeq fr"] self fr(1) by (cases "ack_sBit fr") (auto simp: DTAP_RecvNackFrame_def)
  obtain r1 d1 where s: "DTAP_SlideTxWindow (sub e 1) c fr r0 d0 = (r1, d1)" by fastforce
  have "ack_ok fr" using fr by (simp add: ack_ok_def frame_reqSeq_def)
  then have t: "rel_to r0 d0 r1 d1"
    using slide_tx_ok [OF _ _ s] slide_tx_crc [OF s] slide_tx_size [OF s] n(2) by (auto simp: rel_to_def cache_ok_def intro: port_to_dp)
  have i1: "rel_inv a (r1, d1)" using rel_to_inv [OF rel_to_inv [OF inv n(2)] t] .
  then obtain r2 d2 where "DTAP_TransChannelStatusChange (sub e 2) a c 0 r1 d1 = Some (r2, d2)" "rel_to r1 d1 r2 d2"
    using status_change_ok [of r1 a d1 "sub e 2" c 0] by (auto simp: rel_inv_def)
  then show ?thesis using n s fr(1) rel_to_trans [OF n(2) rel_to_trans [OF t]] by (simp add: DTAP_RecvEnhanceFrame_def)
qed

lemma rel_step_ok:
  assumes inv: "rel_inv a (r, d)" and ev: "rel_event_ok ev"
  shows "\<exists>r' d'. rel_step a c cb e ev (r, d) = Some (r', d') \<and> rel_to r d r' d'"
proof (cases ev)
  case (RelSend pi b)
  then show ?thesis using send_enhance_ok [of r a d b e c pi] inv ev by (auto simp: rel_inv_def)
next
  case (RelAck fr)
  then show ?thesis using recv_ack_rel [OF inv, of fr e c cb] ev by auto
next
  case RelRetransTimer
  then show ?thesis using retrans_rel [OF inv, of e c "expectedAckSeq (txWindow r)"] inv
    by (auto simp: DTAP_RetransTimerExpireProc_def rel_inv_def rel_to_def)
next
  case RelReorderTimer
  have p: "port_ok a d" using inv by (simp add: rel_inv_def)
  obtain ret d1 where k: "DTAP_SendAckFrame (sub e 1) a c r False True d = Some (ret, d1)" "port_to d d1" using send_ack_ok [OF p] by blast
  obtain r2 d2 where t: "restart_rsp (sub e 2) c r d1 = (r2, d2)" by fastforce
  obtain r3 d3 where rl: "DTAP_DynTransChannReleaseReq (sub e 0) c r d = (r3, d3)" by fastforce
  have "rel_to r d r3 d3" using release_keeps [OF rl] by (intro rel_to_same [OF inv]) auto
  moreover have "rel_to r d r d1" using k by (intro rel_to_same [OF inv]) auto
  moreover have "rel_to r d (r2\<lparr>nackCnt := x\<rparr>) d2" for x
    using timer_simps(1) [OF t] port_to_trans [OF k(2) port_to_dp [of d2 d1]] by (intro rel_to_same [OF inv]) auto
  ultimately show ?thesis using RelReorderTimer k(1) t rl by (simp add: DTAP_ReorderTimerExpireProc_def)
next
  case RelRspTimer
  have p: "port_ok a d" using inv by (simp add: rel_inv_def)
  obtain ret d1 where "DTAP_SendAckFrame e a c r False False d = Some (ret, d1)" "port_to d d1" using send_ack_ok [OF p] by blast
  then show ?thesis using RelRspTimer rel_to_same [OF inv] by (auto simp: DTAP_RspTimerExpireProc_def)
qed

text \<open>
  (C10) The send side of the reliable mode is safe in every order of events: packets to send, acknowledgements
  and negative acknowledgements with any number, and expiring timers, with any outcome of allocations, link
  transmissions and timer creations, always complete; the send queue keeps the consecutive frames from
  \<open>expectedAckSeq\<close> up to \<open>nextTxSeq\<close>, never more than the window, each with a valid checksum and room for the
  link header; and the receive window and what was delivered do not change.
\<close>

theorem reliable_send_invariant:
  assumes "tx_ok r" "cache_ok r" "port_ok a d" "\<forall>(e, ev) \<in> set evs. rel_event_ok ev"
  shows "\<exists>r' d'. rel_run a c cb evs (r, d) = Some (r', d') \<and> tx_ok r' \<and> cache_ok r' \<and> port_ok a d' \<and> rxWindow r' = rxWindow r
    \<and> tw_size (txWindow r') = tw_size (txWindow r) \<and> ups d' = ups d"
proof -
  have "rel_inv a (r, d) \<Longrightarrow> \<exists>r' d'. rel_run a c cb evs (r, d) = Some (r', d') \<and> rel_inv a (r', d') \<and> rel_to r d r' d'"
    using assms(4)
  proof (induction evs arbitrary: r d)
    case Nil
    then show ?case by (simp add: rel_inv_def rel_to_def)
  next
    case (Cons ev evs)
    obtain e v where ev: "ev = (e, v)" by fastforce
    obtain r1 d1 where s: "rel_step a c cb e v (r, d) = Some (r1, d1)" "rel_to r d r1 d1"
      using rel_step_ok [OF Cons.prems(1), of v c cb e] Cons.prems(2) ev by auto
    obtain r2 d2 where "rel_run a c cb evs (r1, d1) = Some (r2, d2)" "rel_inv a (r2, d2)" "rel_to r1 d1 r2 d2"
      using Cons.IH [OF rel_to_inv [OF Cons.prems(1) s(2)]] Cons.prems(2) by auto
    then show ?case using s ev rel_to_trans [OF s(2)] by auto
  qed
  then show ?thesis using assms(1-3) by (auto simp: rel_inv_def rel_to_def port_to_def)
qed

theorem reliable_send_invariant_witness:
  "\<exists>r' d'. rel_run 0 demo_channel None [(granting_env DTAP_SUCCESS, RelSend 3 (new_buff 1 0 10\<lparr>dataLen := 10\<rparr>)), (granting_env DTAP_SUCCESS, RelRetransTimer),
      (granting_env DTAP_SUCCESS, RelAck (zero_frame\<lparr>f_ctx := AckFrameCtx, ack_sBit := True, ack_reqSeq := 0x3FFF\<rparr>))] (demo_tx, demo_dtap) = Some (r', d') \<and> tx_ok r'"
proof -
  let ?evs = "[(granting_env DTAP_SUCCESS, RelSend 3 (new_buff 1 0 10\<lparr>dataLen := 10\<rparr>)), (granting_env DTAP_SUCCESS, RelRetransTimer),
      (granting_env DTAP_SUCCESS, RelAck (zero_frame\<lparr>f_ctx := AckFrameCtx, ack_sBit := True, ack_reqSeq := 0x3FFF\<rparr>))]"
  have "cache_ok demo_tx" by (simp add: cache_ok_def demo_tx_def demo_rel_def)
  moreover have "\<forall>(e, ev) \<in> set ?evs. rel_event_ok ev" by (simp add: new_buff_def buff_ok_def)
  ultimately show ?thesis using reliable_send_invariant [OF demo_tx_ok _ demo_port_ok, of ?evs demo_channel None] by blast
qed

end
