(* ===== verification/Dtap_Stream.thy ===== *)
theory Dtap_Stream
  imports Dtap_Reliable_Props
begin

text \<open>
  The stream mode (\<open>dtap_trans_stream.c\<close>): frames are numbered, delivered in order, and a frame that
  arrives early waits in a sorted queue until the gap before it closes or the reorder timer expires. An
  operation works on the attributes \<open>st\<close> of one channel, as in the reliable mode.
\<close>

abbreviation (input) DTAP_FRAME_UNICAST :: nat where "DTAP_FRAME_UNICAST \<equiv> 0"
abbreviation (input) DTAP_FRAME_MULTICAST :: nat where "DTAP_FRAME_MULTICAST \<equiv> 1"
abbreviation (input) DTAP_FRAME_BROADCAST :: nat where "DTAP_FRAME_BROADCAST \<equiv> 2"
abbreviation (input) DTAP_STREAM_CACHE_MAX :: nat where "DTAP_STREAM_CACHE_MAX \<equiv> 256"

section \<open>The queue\<close>

definition DTAP_CheckStreamFrame :: "DTAP_Frame \<Rightarrow> bool option" where
  "DTAP_CheckStreamFrame fr = do {
     b \<leftarrow> f_buff fr;
     h \<leftarrow> f_header fr;
     t \<leftarrow> read_u8 [b] h 1;
     Some (hdr_frameType t = DTAP_FRAME_SIMPLEX_FRAG \<or> hdr_frameType t = DTAP_FRAME_SIMPLEX_AGGR)
   }"

definition NewStreamRxNode :: "'r env \<Rightarrow> SDF_Buff \<Rightarrow> StreamRxNode option" where
  "NewStreamRxNode e b =
     (case SDF_MemZalloc (sub e 0) of
        None \<Rightarrow> None
      | Some _ \<Rightarrow> (case SDF_BuffCopy (sub e 1) (Some b) of
          None \<Rightarrow> None
        | Some b' \<Rightarrow> Some \<lparr>sn_sar = 0, sn_txSeq = 0, sn_buff = b', sn_timeStamp = 0, sn_pi = 0, sn_lcid = 0, sn_tcid = 0\<rparr>))"

fun InsertStreamRxNode :: "StreamRxNode \<Rightarrow> StreamRxNode list \<Rightarrow> StreamRxNode list" where
  "InsertStreamRxNode n [] = [n]"
| "InsertStreamRxNode n (cur # ns) =
     (if DTAP_IsFrameSeqSmaller (sn_txSeq n) (sn_txSeq cur) then n # cur # ns else cur # InsertStreamRxNode n ns)"

definition FindStreamRxNode :: "StreamRxNode list \<Rightarrow> u16 \<Rightarrow> StreamRxNode option" where
  "FindStreamRxNode ns seq = find (\<lambda>n. sn_txSeq n = seq) ns"

section \<open>Delivery and the reorder timer\<close>

definition RecvCallback :: "dtap_env \<Rightarrow> channel \<Rightarrow> nat option \<Rightarrow> SDF_Buff \<Rightarrow> u8 \<Rightarrow> upcall list" where
  "RecvCallback e c cb b pi = (case cb of
     None \<Rightarrow> []
   | Some f \<Rightarrow> [\<lparr>up_cb = f, up_info = \<lparr>info_pi = pi, info_lcid = lcid c, info_tcid = srcTcid c\<rparr>, up_data = buff_data b, up_result = call_recv e\<rparr>])"

definition StopReorderTimer :: "DTAP_Stream_Channel \<Rightarrow> DTAP_Stream_Channel" where
  "StopReorderTimer st = (if reorderTimerHandle st \<noteq> INVALID_TIMER_HANDLE then st\<lparr>reorderTimerHandle := INVALID_TIMER_HANDLE\<rparr> else st)"

text \<open>The node that waits longest: its time stamp and number, if it is older than \<open>now\<close>.\<close>

fun oldest :: "StreamRxNode list \<Rightarrow> nat \<Rightarrow> u16 \<Rightarrow> nat \<times> u16" where
  "oldest [] ts seq = (ts, seq)"
| "oldest (n # ns) ts seq = (if sn_timeStamp n < ts then oldest ns (sn_timeStamp n) (sn_txSeq n) else oldest ns ts seq)"

definition StartReorderTimer :: "'r env \<Rightarrow> channel \<Rightarrow> DTAP_Stream_Channel \<Rightarrow> dtap \<Rightarrow> DTAP_Stream_Channel \<times> dtap" where
  "StartReorderTimer e c st d =
     (if expectedSeq st = maxExpectedSeq st then (st, d)
      else let now = DP_GetMonoTimeMs (sub e 0);
               (minTimeStamp, seq) = oldest (st_rxList st) now (reorderTxSeq st);
               diff = now - minTimeStamp;
               expires = (if diff > st_reorderTimeout st then 0 else st_reorderTimeout st - diff);
               st' = st\<lparr>reorderTxSeq := seq\<rparr>
           in case CP_TimerAdd (sub e 1) of
                None \<Rightarrow> (st', d)
              | Some h \<Rightarrow> (st'\<lparr>reorderTimerHandle := h\<rparr>, d\<lparr>timer_log := timer_log d @ [(StreamReorderTimer, lcid c, srcTcid c, expires)]\<rparr>))"

text \<open>The queue, the number expected next and the calls made.\<close>

fun ReportExpectedStreamFrame :: "dtap_env \<Rightarrow> nat \<Rightarrow> channel \<Rightarrow> nat option \<Rightarrow> StreamRxNode list \<Rightarrow> u16 \<Rightarrow> StreamRxNode list \<times> u16 \<times> upcall list" where
  "ReportExpectedStreamFrame e k c cb [] seq = ([], seq, [])"
| "ReportExpectedStreamFrame e k c cb (n # ns) seq =
     (if sn_txSeq n \<noteq> seq then (n # ns, seq, [])
      else case ReportExpectedStreamFrame e (Suc k) c cb ns (DTAP_GetNextFrameSeq seq) of
        (ns', seq', us) \<Rightarrow> (ns', seq', RecvCallback (sub e k) c cb (sn_buff n) (sn_pi n) @ us))"

fun report_before :: "dtap_env \<Rightarrow> nat \<Rightarrow> channel \<Rightarrow> nat option \<Rightarrow> u16 \<Rightarrow> StreamRxNode list \<Rightarrow> u16 \<Rightarrow> StreamRxNode list \<times> u16 \<times> upcall list" where
  "report_before e k c cb bound [] seq = ([], seq, [])"
| "report_before e k c cb bound (n # ns) seq =
     (if \<not> DTAP_IsFrameSeqSmaller (sn_txSeq n) bound then (n # ns, seq, [])
      else case report_before e (Suc k) c cb bound ns (DTAP_GetNextFrameSeq (sn_txSeq n)) of
        (ns', seq', us) \<Rightarrow> (ns', seq', RecvCallback (sub e k) c cb (sn_buff n) (sn_pi n) @ us))"

text \<open>
  The task of the expired reorder timer on the channel it finds. The loop variable is never NULL, so the
  rest always runs; \<open>SDF_DListLast\<close> of an empty list is the list head, which is not a node: reading its
  number is an invalid access.
\<close>

definition reorder_stream :: "dtap_env \<Rightarrow> channel \<Rightarrow> DTAP_Stream_Channel \<Rightarrow> dtap \<Rightarrow> (DTAP_Stream_Channel \<times> dtap) option" where
  "reorder_stream e c st d =
     (let (ns1, seq1, us1) = report_before (sub e 0) 0 c (st_recvCb st) (reorderTxSeq st) (st_rxList st) (expectedSeq st);
          (ns2, seq2, us2) = ReportExpectedStreamFrame (sub e 1) 0 c (st_recvCb st) ns1 seq1
      in case ns2 of
           [] \<Rightarrow> None
         | _ \<Rightarrow> Some (StartReorderTimer (sub e 2) c
             (st\<lparr>reorderTimerHandle := INVALID_TIMER_HANDLE, st_rxList := ns2, expectedSeq := seq2, maxExpectedSeq := sn_txSeq (last ns2) + 1\<rparr>)
             (d\<lparr>ups := ups d @ us1 @ us2\<rparr>)))"

section \<open>Receiving\<close>

definition BuffCheck :: "DTAP_Frame \<Rightarrow> u16 \<Rightarrow> SDF_Buff \<Rightarrow> (DTAP_errno \<times> SDF_Buff) option" where
  "BuffCheck fr crcInit b =
     (if dataOff b + dataLen b < DTAP_CRC_LEN then None
      else do {
        crc \<leftarrow> mem_read b (dataOff b + dataLen b - DTAP_CRC_LEN) 2;
        (case SDF_BuffTrimSuffix (Some b) DTAP_CRC_LEN of
           None \<Rightarrow> Some (DTAP_TRANS_STREAM_RECV_TRIM_SUF_ERR, b)
         | Some b1 \<Rightarrow>
             if DECODE2BYTE_LITTLE (crc ! 0) (crc ! 1) \<noteq> CRC16 crcInit (buff_data b1) then Some (DTAP_TRANS_STREAM_RECV_CRC_ERR, b1)
             else (case SDF_BuffTrimPrefix (Some b1) (headerLen fr) of
               None \<Rightarrow> Some (DTAP_TRANS_STREAM_RECV_TRIM_PRE_ERR, b1)
             | Some (off, b2) \<Rightarrow> Some (DTAP_SUCCESS, b2)))
      })"

definition DTAP_RecvStreamFrame :: "dtap_env \<Rightarrow> channel \<Rightarrow> DTAP_Frame \<Rightarrow> nat option \<Rightarrow> DTAP_Stream_Channel \<Rightarrow> dtap
    \<Rightarrow> (DTAP_errno \<times> DTAP_Stream_Channel \<times> dtap) option" where
  "DTAP_RecvStreamFrame e c fr recvCb st d = do {
     w \<leftarrow> read_header_u16 fr 5;
     let seq = get_field 0 14 w;
     if get_field 14 2 w \<noteq> 0 then Some (DTAP_TRANS_UNSUPPORTED, st, d)
     else let st1 = st\<lparr>st_recvCb := recvCb\<rparr> in
       if length (st_rxList st1) > DTAP_STREAM_CACHE_MAX then Some (DTAP_TRANS_STREAM_RX_FULL, st1, d)
       else do {
         b0 \<leftarrow> f_buff fr;
         (ret, b) \<leftarrow> BuffCheck fr (st_crcInit st1) b0;
         if ret \<noteq> DTAP_SUCCESS then Some (ret, st1, d)
         else if expectedSeq st1 = DTAP_FRAME_SEQ_INIT then
           Some (DTAP_SUCCESS, st1\<lparr>expectedSeq := DTAP_GetNextFrameSeq seq, maxExpectedSeq := DTAP_GetNextFrameSeq seq\<rparr>,
             d\<lparr>ups := ups d @ RecvCallback (sub e 0) c recvCb b (f_pi fr)\<rparr>)
         else if seq = expectedSeq st1 then
           (case ReportExpectedStreamFrame (sub e 1) 0 c recvCb (st_rxList st1) (DTAP_GetNextFrameSeq (expectedSeq st1)) of
              (ns, seq', us) \<Rightarrow>
                (case StartReorderTimer (sub e 2) c (StopReorderTimer (st1\<lparr>st_rxList := ns, expectedSeq := seq'\<rparr>))
                    (d\<lparr>ups := ups d @ RecvCallback (sub e 0) c recvCb b (f_pi fr) @ us\<rparr>) of
                   (st2, d2) \<Rightarrow> Some (DTAP_SUCCESS, st2, d2)))
         else if DTAP_IsFrameSeqSmaller seq (expectedSeq st1) then Some (DTAP_TRANS_STREAM_RECV_DUPLICATED_ERR, st1, d)
         else if FindStreamRxNode (st_rxList st1) seq \<noteq> None then Some (DTAP_TRANS_STREAM_RECV_DUPLICATED_ERR, st1, d)
         else (case NewStreamRxNode (sub e 3) b of
             None \<Rightarrow> Some (DTAP_TRANS_MALLOC_ERR, st1, d)
           | Some n \<Rightarrow>
               (let n' = n\<lparr>sn_sar := 0, sn_txSeq := seq, sn_timeStamp := DP_GetMonoTimeMs (sub e 4), sn_pi := f_pi fr, sn_lcid := lcid c, sn_tcid := srcTcid c\<rparr>;
                    ns = InsertStreamRxNode n' (st_rxList st1);
                    st2 = st1\<lparr>st_rxList := ns, maxExpectedSeq := sn_txSeq (last ns) + 1\<rparr>
                in if reorderTimerHandle st2 = INVALID_TIMER_HANDLE
                   then (case StartReorderTimer (sub e 5) c st2 d of (st3, d3) \<Rightarrow> Some (DTAP_SUCCESS, st3, d3))
                   else Some (DTAP_SUCCESS, st2, d)))
       }
   }"

section \<open>Sending\<close>

definition DTAP_PackStreamFrame :: "u8 \<Rightarrow> u8 \<Rightarrow> SDF_Buff \<Rightarrow> u8 \<Rightarrow> DTAP_Stream_Channel \<Rightarrow> (DTAP_errno \<times> SDF_Buff \<times> DTAP_Stream_Channel) option" where
  "DTAP_PackStreamFrame tcid pi b s st =
     (case SDF_BuffPrepend (Some b) DTAP_SIMPLEX_FRAG_FRAME_HEADER_LEN of
        None \<Rightarrow> Some (DTAP_TRANS_STREAM_PACK_HEADER_ERR, b, st)
      | Some (off, b0) \<Rightarrow> do {
          old \<leftarrow> mem_read b0 off DTAP_SIMPLEX_FRAG_FRAME_HEADER_LEN;
          let st1 = st\<lparr>frameTxSeq := DTAP_GetNextFrameSeq (frameTxSeq st)\<rparr>;
          b1 \<leftarrow> mem_write b0 off
            (BasicHeader_bytes tcid (set_typeBits (old ! 1) DTAP_FRAME_SIMPLEX_FRAG False True False False)
               (of_nat (dataLen b0 - DTAP_BASIC_HEADER_LEN + DTAP_CRC_LEN))
             @ [pi]
             @ ENCODE2BYTE_LITTLE (set_field 14 2 (ucast s) (set_field 0 14 (frameTxSeq st1) (DECODE2BYTE_LITTLE (old ! 5) (old ! 6)))));
          (case SDF_BuffAppend (Some b1) DTAP_CRC_LEN of
             None \<Rightarrow> Some (DTAP_TRANS_STREAM_PACK_CRC_ERR, b1, st1)
           | Some (tail, b2) \<Rightarrow> do {
               b3 \<leftarrow> mem_write b2 tail (ENCODE2BYTE_LITTLE (CRC16 (st_crcInit st1) (buff_data b1)));
               Some (DTAP_SUCCESS, b3, st1)
             })
        })"

definition DTAP_SendStreamFrame :: "'r env \<Rightarrow> nat \<Rightarrow> channel \<Rightarrow> u8 \<Rightarrow> SDF_Buff \<Rightarrow> DTAP_Stream_Channel \<Rightarrow> dtap
    \<Rightarrow> (DTAP_errno \<times> DTAP_Stream_Channel \<times> dtap) option" where
  "DTAP_SendStreamFrame e a c pi b st d =
     (let tcid = (if castMode c = DTAP_FRAME_BROADCAST then srcTcid c else dstTcid c) in
      if dataLen b \<le> mtu c then do {
        (ret, b', st') \<leftarrow> DTAP_PackStreamFrame tcid pi b DTAP_SAR_UNSEG st;
        if ret \<noteq> DTAP_SUCCESS then Some (ret, st', d)
        else do { (ret', d') \<leftarrow> DTAP_SendFrame e a (Some b') d; Some (ret', st', d') }
      }
      else Some (DTAP_TRANS_UNSUPPORTED, st, d))"

section \<open>Sending is safe and the frame checks\<close>

lemma pack_stream:
  assumes "buff_ok b" "12 \<le> SDF_BuffHeadRoom b"
  shows "\<exists>ret b' st'. DTAP_PackStreamFrame tcid pi b s st = Some (ret, b', st') \<and> (ret = DTAP_SUCCESS \<longrightarrow> buff_ok b' \<and> DLI_HEADER \<le> SDF_BuffHeadRoom b')
    \<and> (2 \<le> SDF_BuffTailRoom b \<longrightarrow> ret = DTAP_SUCCESS \<and> st' = st\<lparr>frameTxSeq := DTAP_GetNextFrameSeq (frameTxSeq st)\<rparr>
       \<and> (\<exists>old. buff_data b' = frame_image (st_crcInit st) (SimplexFragHeader (zero_frame\<lparr>f_pi := pi, sar := s, txSeq := DTAP_GetNextFrameSeq (frameTxSeq st)\<rparr>)
            tcid (dataLen b) old) (buff_data b)))"
proof -
  let ?g = "zero_frame\<lparr>f_pi := pi, sar := s, txSeq := DTAP_GetNextFrameSeq (frameTxSeq st)\<rparr>"
  let ?st = "st\<lparr>frameTxSeq := DTAP_GetNextFrameSeq (frameTxSeq st)\<rparr>"
  have "7 \<le> SDF_BuffHeadRoom b" using assms(2) by simp
  from prepend_obtain [OF assms(1) this] obtain off b0 old where p: "SDF_BuffPrepend (Some b) 7 = Some (off, b0)"
    "mem_read b0 off 7 = Some old" "dataLen b0 = dataLen b + 7"
    "\<And>hdr. length hdr = 7 \<Longrightarrow> mem_write b0 off hdr = prepend_bytes b hdr" by metis
  let ?h = "SimplexFragHeader ?g tcid (dataLen b) old"
  have len: "length ?h = 7" by (simp add: SimplexFragHeader_def BasicHeader_bytes_def)
  have "length ?h \<le> SDF_BuffHeadRoom b" using len assms(2) by simp
  from prepend_bytes_Some [OF assms(1) this] obtain b1 where b1: "prepend_bytes b ?h = Some b1" "buff_ok b1" "buff_data b1 = ?h @ buff_data b"
    "dataOff b1 = dataOff b - length ?h" "SDF_BuffTailRoom b1 = SDF_BuffTailRoom b" by metis
  let ?crc = "ENCODE2BYTE_LITTLE (CRC16 (st_crcInit st) (buff_data b1))"
  have "mem_write b0 off ?h = Some b1" using p(4) [OF len] b1(1) by simp
  then have eq: "DTAP_PackStreamFrame tcid pi b s st = (case SDF_BuffAppend (Some b1) 2 of
      None \<Rightarrow> Some (DTAP_TRANS_STREAM_PACK_CRC_ERR, b1, ?st)
    | Some (tail, b2) \<Rightarrow> mem_write b2 tail ?crc \<bind> (\<lambda>b3. Some (DTAP_SUCCESS, b3, ?st)))"
    using p(1-3) unfolding DTAP_PackStreamFrame_def SimplexFragHeader_def
    by (simp add: zero_frame_def DTAP_CheckFrameBit_def Let_def add.commute [of 5] del: SDF_BuffPrepend.simps SDF_BuffAppend.simps cong: option.case_cong)
  show ?thesis
  proof (cases "2 \<le> SDF_BuffTailRoom b")
    case False
    then show ?thesis using eq b1(5) by simp
  next
    case True
    obtain b' where b': "append_bytes b1 ?crc = Some b'" "buff_ok b'" "buff_data b' = buff_data b1 @ ?crc" "dataOff b' = dataOff b1"
      using append_bytes_Some [OF b1(2), of ?crc] True b1(5) by auto
    then have "DTAP_PackStreamFrame tcid pi b s st = Some (DTAP_SUCCESS, b', ?st)"
      unfolding eq by (auto simp: append_bytes_def split: option.splits)
    moreover have "DLI_HEADER \<le> SDF_BuffHeadRoom b'" using b'(4) b1(4) len assms(2) by (simp add: SDF_BuffHeadRoom_def)
    moreover have "buff_data b' = frame_image (st_crcInit st) ?h (buff_data b)" using b'(3) b1(3) by (simp add: frame_image_def)
    ultimately show ?thesis using b'(2) by blast
  qed
qed

lemma send_stream_ok:
  assumes "port_ok a d" "buff_ok b" "12 \<le> SDF_BuffHeadRoom b"
  shows "\<exists>ret st' d'. DTAP_SendStreamFrame e a c pi b st d = Some (ret, st', d') \<and> port_to d d'"
proof -
  let ?t = "if castMode c = DTAP_FRAME_BROADCAST then srcTcid c else dstTcid c"
  obtain ret b' st' where p: "DTAP_PackStreamFrame ?t pi b DTAP_SAR_UNSEG st = Some (ret, b', st')"
    "ret = DTAP_SUCCESS \<longrightarrow> buff_ok b' \<and> DLI_HEADER \<le> SDF_BuffHeadRoom b'" using pack_stream [OF assms(2,3), of ?t pi DTAP_SAR_UNSEG st] by blast
  have "ret = DTAP_SUCCESS \<Longrightarrow> \<exists>r d'. DTAP_SendFrame e a (Some b') d = Some (r, d') \<and> port_to d d'"
    using send_frame_ok [OF assms(1), of "Some b'"] p(2) by blast
  then show ?thesis using p(1) by (cases "ret = DTAP_SUCCESS") (auto simp: DTAP_SendStreamFrame_def Let_def)
qed

section \<open>The receive queue\<close>

lemma buff_check:
  assumes "buff_ok b" "buff_data b = hdr @ x @ ENCODE2BYTE_LITTLE (CRC16 crc (hdr @ x))" "length hdr = headerLen fr"
  shows "\<exists>b2. BuffCheck fr crc b = Some (DTAP_SUCCESS, b2) \<and> buff_ok b2 \<and> buff_data b2 = x \<and> buffLen b2 = buffLen b"
proof -
  let ?c = "ENCODE2BYTE_LITTLE (CRC16 crc (hdr @ x))"
  have dl: "dataLen b = length hdr + length x + 2" using length_buff_data [OF assms(1)] assms(2) by simp
  have "mem_read b (dataOff b + (dataLen b - 2)) 2 = Some ?c"
    using mem_read_data [OF assms(1), of "dataLen b - 2" 2] dl assms(2) by simp
  then have r: "mem_read b (dataOff b + dataLen b - 2) 2 = Some ?c" using dl by simp
  have dec: "DECODE2BYTE_LITTLE (?c ! 0) (?c ! 1) = CRC16 crc (hdr @ x)" by (simp add: ENCODE2BYTE_LITTLE_def decode_encode_little)
  obtain b1 where b1: "SDF_BuffTrimSuffix (Some b) 2 = Some b1" using dl by simp
  note t1 = SDF_BuffTrimSuffix_Some [OF b1 assms(1)]
  have d1: "buff_data b1 = hdr @ x" using t1 assms(2) dl by simp
  obtain off b2 where b2: "SDF_BuffTrimPrefix (Some b1) (length hdr) = Some (off, b2)" using t1 dl by simp
  note t2 = SDF_BuffTrimPrefix_Some [OF b2 t1(1)]
  have "BuffCheck fr crc b = Some (DTAP_SUCCESS, b2)"
    using r dec b1 b2 d1 assms(3) dl by (simp add: BuffCheck_def del: SDF_BuffTrimSuffix.simps SDF_BuffTrimPrefix.simps)
  then show ?thesis using t2 d1 t1 by auto
qed





text \<open>Packet \<open>i\<close> of the sender is in the frame; the frame checks with the initial value of the channel.\<close>

definition stream_arrives :: "u16 \<Rightarrow> (nat \<Rightarrow> bytes) \<Rightarrow> nat \<Rightarrow> DTAP_Frame \<Rightarrow> bool" where
  "stream_arrives crc sdu i fr \<longleftrightarrow> (\<exists>b w hdr. f_buff fr = Some b \<and> buff_ok b \<and> read_header_u16 fr 5 = Some w \<and> get_field 14 2 w = 0
     \<and> get_field 0 14 w = seq_add 0 i \<and> length hdr = headerLen fr \<and> buff_data b = hdr @ sdu i @ ENCODE2BYTE_LITTLE (CRC16 crc (hdr @ sdu i)))"


lemma start_reorder_keeps:
  "StartReorderTimer e c st d = (st', d') \<Longrightarrow> st_rxList st' = st_rxList st \<and> expectedSeq st' = expectedSeq st \<and> maxExpectedSeq st' = maxExpectedSeq st
    \<and> st_crcInit st' = st_crcInit st \<and> st_recvCb st' = st_recvCb st \<and> frameTxSeq st' = frameTxSeq st \<and> dp d' = dp d \<and> ups d' = ups d"
  by (auto simp: StartReorderTimer_def Let_def split: if_splits prod.splits option.splits)

lemma seq_not_init: "seq_add s n \<noteq> DTAP_FRAME_SEQ_INIT"
proof
  assume "seq_add s n = DTAP_FRAME_SEQ_INIT"
  then have "unat (seq_add s n) = 65535" by simp
  then show False using seq_ok_add [of s n] by simp
qed


lemma mod_near: "n \<le> i + 8000 \<Longrightarrow> i < n + 8000 \<Longrightarrow> i mod 16384 = n mod 16384 \<Longrightarrow> i = (n :: nat)"
proof (cases "i \<le> n")
  case True
  assume "n \<le> i + 8000" "i mod 16384 = n mod 16384"
  moreover from this True have "16384 dvd n - i" using mod_eq_dvd_iff_nat [OF True, of 16384] by simp
  ultimately show ?thesis using True by (auto dest: dvd_imp_le)
next
  case False
  assume "i < n + 8000" "i mod 16384 = n mod 16384"
  moreover from this False have "16384 dvd i - n" using mod_eq_dvd_iff_nat [of n i 16384] by simp
  ultimately show ?thesis using False by (auto dest: dvd_imp_le)
qed




section \<open>Properties\<close>






definition demo_stream :: DTAP_Stream_Channel where
  "demo_stream = \<lparr>st_flushTimeout = 1000, st_reorderTimeout = 1000, st_crcInit = 0x1234, reorderTxSeq = 0, expectedSeq = DTAP_FRAME_SEQ_INIT,
     maxExpectedSeq = DTAP_FRAME_SEQ_INIT, frameTxSeq = 0, reorderTimerHandle = INVALID_TIMER_HANDLE, st_rxList = [], st_recvCb = None\<rparr>"

definition demo_stream_frame :: DTAP_Frame where
  "demo_stream_frame = zero_frame\<lparr>f_ctx := SimplexFragFrameCtx, headerLen := 7, f_header := Some (1, 0),
     f_buff := Some \<lparr>buff_addr = 1, dataOff = 0, dataLen = 11, buffLen = 11, buff = [1, 2, 3, 4, 5, 6, 0, 0xAA, 0xBB] @ ENCODE2BYTE_LITTLE (CRC16 0x1234 [1, 2, 3, 4, 5, 6, 0, 0xAA, 0xBB])\<rparr>\<rparr>"

lemma demo_stream_arrives: "stream_arrives 0x1234 (\<lambda>i. [0xAA, 0xBB]) 6 demo_stream_frame"
  unfolding stream_arrives_def
  by (intro exI [of _ "the (f_buff demo_stream_frame)"] exI [of _ 6] exI [of _ "[1, 2, 3, 4, 5, 6, 0]"])
    (simp add: demo_stream_frame_def buff_ok_def buff_data_def zero_frame_def read_header_u16_def read_u16_def ptr_add_def mem_read_def
      ENCODE2BYTE_LITTLE_def DECODE2BYTE_LITTLE_def get_field_def seq_add_def)


text \<open> A gap is never given up: when the frame that waits longest is also the first of the queue and is not
  the expected one, the expired reorder timer hands up nothing and leaves queue and expected number as they
  are, so the frames behind a lost one wait for ever; and once the queue holds more than 256 frames even the
  missing frame is refused, whatever arrives.
\<close>

theorem stream_gap_never_skipped:
  assumes "st_rxList st = n # ns" "reorderTxSeq st = sn_txSeq n" "sn_txSeq n \<noteq> expectedSeq st" "seq_ok (sn_txSeq n)"
  shows "\<exists>st' d'. reorder_stream e c st d = Some (st', d') \<and> st_rxList st' = st_rxList st \<and> expectedSeq st' = expectedSeq st \<and> ups d' = ups d
    \<and> (length (st_rxList st) > 256 \<longrightarrow> (\<forall>fr w cb. read_header_u16 fr 5 = Some w \<longrightarrow>
        (\<exists>ret st'. DTAP_RecvStreamFrame e c fr cb st d = Some (ret, st', d) \<and> ret \<noteq> DTAP_SUCCESS
          \<and> st_rxList st' = st_rxList st \<and> expectedSeq st' = expectedSeq st)))"
proof -
  have "\<not> DTAP_IsFrameSeqSmaller (sn_txSeq n) (reorderTxSeq st)" using assms(2,4) by (simp add: DTAP_IsFrameSeqSmaller_eq seq_dist_def)
  then have b: "report_before (sub e 0) 0 c (st_recvCb st) (reorderTxSeq st) (st_rxList st) (expectedSeq st) = (st_rxList st, expectedSeq st, [])"
    using assms(1) by simp
  obtain st' d' where t: "StartReorderTimer (sub e 2) c (st\<lparr>reorderTimerHandle := INVALID_TIMER_HANDLE, st_rxList := st_rxList st,
      expectedSeq := expectedSeq st, maxExpectedSeq := sn_txSeq (last (st_rxList st)) + 1\<rparr>) (d\<lparr>ups := ups d @ [] @ []\<rparr>) = (st', d')" by fastforce
  have "reorder_stream e c st d = Some (st', d')" using b t assms(1,3) by (simp add: reorder_stream_def)
  moreover have "\<exists>ret st'. DTAP_RecvStreamFrame e c fr cb st d = Some (ret, st', d) \<and> ret \<noteq> DTAP_SUCCESS \<and> st_rxList st' = st_rxList st \<and> expectedSeq st' = expectedSeq st"
    if "length (st_rxList st) > 256" "read_header_u16 fr 5 = Some w" for fr w cb
    using that by (cases "get_field 14 2 w = 0") (simp_all add: DTAP_RecvStreamFrame_def)
  ultimately show ?thesis using start_reorder_keeps [OF t] by auto
qed

theorem stream_gap_never_skipped_witness:
  "\<exists>st' d'. reorder_stream (granting_env DTAP_SUCCESS) demo_channel (demo_stream\<lparr>expectedSeq := 3, reorderTxSeq := 5,
      st_rxList := [\<lparr>sn_sar = 0, sn_txSeq = 5, sn_buff = new_buff 1 0 0, sn_timeStamp = 0, sn_pi = 0, sn_lcid = 7, sn_tcid = 0x80\<rparr>]\<rparr>) demo_dtap
    = Some (st', d') \<and> expectedSeq st' = 3 \<and> length (st_rxList st') = 1"
  using stream_gap_never_skipped [of "demo_stream\<lparr>expectedSeq := 3, reorderTxSeq := 5,
      st_rxList := [\<lparr>sn_sar = 0, sn_txSeq = 5, sn_buff = new_buff 1 0 0, sn_timeStamp = 0, sn_pi = 0, sn_lcid = 7, sn_tcid = 0x80\<rparr>]\<rparr>" _ _
      "granting_env DTAP_SUCCESS" demo_channel demo_dtap] by fastforce

text \<open> The reorder timer runs when nothing is missing: \<open>maxExpectedSeq\<close> is not moved by frames that arrive in
  order, so after the second frame in order the timer is started with an empty queue, and when it expires
  the task reads a sequence number from the list head as if it were a queued frame.
\<close>

theorem stream_idle_timeout:
  assumes "stream_arrives (st_crcInit st) sdu i fr" "expectedSeq st = seq_add 0 i" "maxExpectedSeq st = expectedSeq st" "st_rxList st = []"
    and "CP_TimerAdd (sub (sub e 2) 1) = Some h"
  shows "\<exists>st' d'. DTAP_RecvStreamFrame e c fr (Some cb) st d = Some (DTAP_SUCCESS, st', d') \<and> st_rxList st' = []
    \<and> timer_log d' = timer_log d @ [(StreamReorderTimer, lcid c, srcTcid c, st_reorderTimeout st)] \<and> reorder_stream e' c st' d' = None"
proof -
  obtain b w hdr where f: "f_buff fr = Some b" "buff_ok b" "read_header_u16 fr 5 = Some w" "get_field 14 2 w = 0" "get_field 0 14 w = seq_add 0 i"
    "length hdr = headerLen fr" "buff_data b = hdr @ sdu i @ ENCODE2BYTE_LITTLE (CRC16 (st_crcInit st) (hdr @ sdu i))"
    using assms(1) by (auto simp: stream_arrives_def)
  obtain b2 where b2: "BuffCheck fr (st_crcInit st) b = Some (DTAP_SUCCESS, b2)" using buff_check [OF f(2,7,6)] by blast
  have ne: "seq_add 0 (Suc i) \<noteq> seq_add 0 i" using mod_near [of i "Suc i"] by (auto simp: seq_eq_iff unat_seq_add)
  show ?thesis using f b2 assms(2-5) ne seq_not_init
    by (simp add: DTAP_RecvStreamFrame_def DTAP_GetNextFrameSeq_eq StopReorderTimer_def StartReorderTimer_def reorder_stream_def Let_def)
qed

theorem stream_idle_timeout_witness:
  "\<exists>st' d'. DTAP_RecvStreamFrame (granting_env DTAP_SUCCESS) demo_channel demo_stream_frame (Some 9) (demo_stream\<lparr>expectedSeq := 6, maxExpectedSeq := 6\<rparr>) demo_dtap
    = Some (DTAP_SUCCESS, st', d') \<and> reorder_stream (granting_env DTAP_SUCCESS) demo_channel st' d' = None"
proof -
  let ?st = "demo_stream\<lparr>expectedSeq := 6, maxExpectedSeq := 6\<rparr>"
  have "stream_arrives (st_crcInit ?st) (\<lambda>i. [0xAA, 0xBB]) 6 demo_stream_frame" using demo_stream_arrives by (simp add: demo_stream_def)
  moreover have "expectedSeq ?st = seq_add 0 6" "maxExpectedSeq ?st = expectedSeq ?st" "st_rxList ?st = []" by (simp_all add: demo_stream_def seq_add_def)
  moreover have "CP_TimerAdd (sub (sub (granting_env DTAP_SUCCESS) 2) 1) = Some 1" by (simp add: CP_TimerAdd_def)
  ultimately show ?thesis using stream_idle_timeout by blast
qed

text \<open>
  Stream frames survive the trip: for a packet with the usual room in its buffer, the frame
  \<open>DTAP_PackStreamFrame\<close> builds carries the next 14-bit number and is received by the parser of the peer, whose
  stream receiver then gets exactly the packet.
\<close>

theorem stream_frame_roundtrip:
  assumes "buff_ok b" "12 \<le> SDF_BuffHeadRoom b" "2 \<le> SDF_BuffTailRoom b" "dataLen b \<le> 65530" "seq_ok (frameTxSeq st)"
  shows "\<exists>b' fr. DTAP_PackStreamFrame tcid pi b DTAP_SAR_UNSEG st = Some (DTAP_SUCCESS, b', st\<lparr>frameTxSeq := seq_add (frameTxSeq st) 1\<rparr>)
    \<and> received_as b' (st_crcInit st) SimplexFragFrameCtx (buff_data b) fr \<and> txSeq fr = seq_add (frameTxSeq st) 1 \<and> sar fr = DTAP_SAR_UNSEG \<and> f_pi fr = pi"
proof -
  let ?s = "seq_add (frameTxSeq st) 1"
  obtain b' old where p: "DTAP_PackStreamFrame tcid pi b DTAP_SAR_UNSEG st = Some (DTAP_SUCCESS, b', st\<lparr>frameTxSeq := ?s\<rparr>)" "buff_ok b'"
    "buff_data b' = frame_image (st_crcInit st) (SimplexFragHeader (zero_frame\<lparr>f_pi := pi, sar := DTAP_SAR_UNSEG, txSeq := ?s\<rparr>) tcid (dataLen b) old) (buff_data b)"
    using pack_stream [OF assms(1,2), of tcid pi DTAP_SAR_UNSEG st] assms(3,5) by (auto simp: DTAP_GetNextFrameSeq_eq)
  have l: "length (buff_data b) = dataLen b" by (rule length_buff_data [OF assms(1)])
  have "unat ?s \<le> 16383" using seq_ok_add [of "frameTxSeq st" 1] by linarith
  then have "?s \<le> DTAP_FRAME_SEQ_MAX" by (simp add: word_le_nat_alt)
  then show ?thesis using simplex_image_received [OF p(2) p(3) [folded l]] assms(4) p(1) l by auto
qed

theorem stream_frame_roundtrip_witness:
  "\<exists>b' fr. DTAP_PackStreamFrame 0x80 3 (new_buff 1 14 19) DTAP_SAR_UNSEG (demo_stream\<lparr>frameTxSeq := 0x3FFF\<rparr>)
      = Some (DTAP_SUCCESS, b', demo_stream\<lparr>frameTxSeq := 0\<rparr>) \<and> received_as b' 0x1234 SimplexFragFrameCtx [] fr \<and> txSeq fr = 0"
  using stream_frame_roundtrip [of "new_buff 1 14 19" "demo_stream\<lparr>frameTxSeq := 0x3FFF\<rparr>" "0x80" 3]
  by (auto simp: SDF_BuffHeadRoom_def SDF_BuffTailRoom_def demo_stream_def seq_add_def)

end
