(* ===== verification/Dtap_Basic.thy ===== *)
theory Dtap_Basic
  imports Dtap_Stream
begin

text \<open>
  The basic mode (\<open>dtap_trans_basic.c\<close>), whose frames carry no number and wait in a cache while the channel
  is not ready, and the transparent mode (\<open>dtap_trans_transparent.c\<close>), which passes packets through.
\<close>

abbreviation (input) DTAP_BASIC_MODE_MAX_CACHE_NUM :: nat where "DTAP_BASIC_MODE_MAX_CACHE_NUM \<equiv> 64"

section \<open>Basic mode\<close>

definition DTAP_CreateBasicCacheFrame :: "'r env \<Rightarrow> SDF_Buff \<Rightarrow> DTAP_Data_Info \<Rightarrow> nat option \<Rightarrow> DTAP_BasicCacheFrame option" where
  "DTAP_CreateBasicCacheFrame e b info recvCb =
     (case SDF_MemZalloc (sub e 0) of
        None \<Rightarrow> None
      | Some _ \<Rightarrow> (case SDF_BuffCopy (sub e 1) (Some b) of
          None \<Rightarrow> None
        | Some b' \<Rightarrow> Some \<lparr>cf_buff = b', cf_info = info, cf_recvCb = recvCb\<rparr>))"

text \<open>The loop over the cached frames: the calls made, in order.\<close>

fun flush_cache :: "dtap_env \<Rightarrow> nat \<Rightarrow> DTAP_BasicCacheFrame list \<Rightarrow> upcall list" where
  "flush_cache e k [] = []"
| "flush_cache e k (fr # frs) = snd (call_cb (sub e k) (cf_recvCb fr) (cf_info fr) (cf_buff fr)) @ flush_cache e (Suc k) frs"

definition DTAP_RecvBasicFrameContinue :: "dtap_env \<Rightarrow> DTAP_Basic_Channel \<Rightarrow> dtap \<Rightarrow> DTAP_Basic_Channel \<times> dtap" where
  "DTAP_RecvBasicFrameContinue e basic d =
     (basic\<lparr>cacheRxBuffs := [], isReady := True\<rparr>, d\<lparr>ups := ups d @ flush_cache e 0 (cacheRxBuffs basic)\<rparr>)"

definition DTAP_CheckBasicFrame :: "DTAP_Frame \<Rightarrow> bool option" where
  "DTAP_CheckBasicFrame fr = do {
     b \<leftarrow> f_buff fr;
     h \<leftarrow> f_header fr;
     t \<leftarrow> read_u8 [b] h 1;
     Some (hdr_frameType t = DTAP_FRAME_BASIC)
   }"

definition DTAP_RecvBasicFrame :: "dtap_env \<Rightarrow> channel \<Rightarrow> DTAP_Frame \<Rightarrow> nat option \<Rightarrow> DTAP_Basic_Channel \<Rightarrow> dtap
    \<Rightarrow> DTAP_errno \<times> DTAP_Basic_Channel \<times> dtap" where
  "DTAP_RecvBasicFrame e c fr recvCb basic d =
     (case SDF_BuffTrimPrefix (f_buff fr) (headerLen fr) of
        None \<Rightarrow> (DTAP_TRANS_BASIC_RECV_TRIM_PRE_ERR, basic, d)
      | Some (off, b) \<Rightarrow>
          let info = \<lparr>info_pi = f_pi fr, info_lcid = lcid c, info_tcid = srcTcid c\<rparr> in
          if \<not> isReady basic then
            if length (cacheRxBuffs basic) > DTAP_BASIC_MODE_MAX_CACHE_NUM then (DTAP_TRANS_BASIC_CACHE_OVERFLOW_ERR, basic, d)
            else (case DTAP_CreateBasicCacheFrame (sub e 0) b info recvCb of
                None \<Rightarrow> (DTAP_TRANS_BASIC_CREATE_FRAME_ERR, basic, d)
              | Some cf \<Rightarrow> (DTAP_SUCCESS, basic\<lparr>cacheRxBuffs := cacheRxBuffs basic @ [cf]\<rparr>, d))
          else (DTAP_SUCCESS, basic, d\<lparr>ups := ups d @ snd (call_cb (sub e 1) recvCb info b)\<rparr>))"

definition DTAP_SendBasicFrame :: "'r env \<Rightarrow> nat \<Rightarrow> channel \<Rightarrow> u8 \<Rightarrow> SDF_Buff \<Rightarrow> dtap \<Rightarrow> (DTAP_errno \<times> dtap) option" where
  "DTAP_SendBasicFrame e a c pi b d =
     (case DTAP_GetFrameCtx DTAP_FRAME_BASIC of
        None \<Rightarrow> Some (DTAP_TRANS_BASIC_SEND_GET_CTX_ERR, d)
      | Some ctx \<Rightarrow> do {
          (ret, fr) \<leftarrow> buildFrame (sub e 0) ctx (zero_frame\<lparr>f_pi := pi, f_buff := Some b, f_ctx := ctx\<rparr>) (dstTcid c) 0;
          if ret \<noteq> DTAP_SUCCESS then Some (ret, d) else DTAP_SendFrame (sub e 1) a (f_buff fr) d
        })"

section \<open>Transparent mode\<close>

definition DTAP_SendTransparentFrame :: "'r env \<Rightarrow> nat \<Rightarrow> channel \<Rightarrow> SDF_Buff \<Rightarrow> dtap \<Rightarrow> (DTAP_errno \<times> dtap) option" where
  "DTAP_SendTransparentFrame e a c b d =
     (if dataLen b > mps c then Some (DTAP_TRANS_TRANSPARENT_PACK_EXCEED_MPS, d) else DTAP_SendFrame e a (Some b) d)"

definition DTAP_TransparentTransFrame :: "dtap_env \<Rightarrow> channel \<Rightarrow> SDF_Buff \<Rightarrow> nat option \<Rightarrow> dtap \<Rightarrow> dtap" where
  "DTAP_TransparentTransFrame e c b recvCb d =
     d\<lparr>ups := ups d @ snd (call_cb e recvCb \<lparr>info_pi = 0, info_lcid = lcid c, info_tcid = srcTcid c\<rparr> b)\<rparr>"

section \<open>Sending is safe\<close>

lemma basic_ctx: "DTAP_GetFrameCtx DTAP_FRAME_BASIC = Some g_dtapFrameBasicCtx"
  by code_simp

lemma send_basic_ok:
  assumes "port_ok a d" "buff_ok b" "12 \<le> SDF_BuffHeadRoom b"
  shows "\<exists>ret d'. DTAP_SendBasicFrame e a c pi b d = Some (ret, d') \<and> port_to d d'"
proof -
  let ?n = "if dstTcid c > TCID_FTC_RFU_END then 5 else 4 :: nat"
  let ?g = "zero_frame\<lparr>f_pi := pi, f_buff := Some b, f_ctx := g_dtapFrameBasicCtx\<rparr>"
  have "?n \<le> SDF_BuffHeadRoom b" using assms(3) by simp
  from prepend_obtain [OF assms(2) this] obtain off b0 old where p: "SDF_BuffPrepend (Some b) ?n = Some (off, b0)"
    "mem_read b0 off ?n = Some old" "length old = ?n" "dataLen b0 = dataLen b + ?n"
    "\<And>hdr. length hdr = ?n \<Longrightarrow> mem_write b0 off hdr = prepend_bytes b hdr" by metis
  let ?h = "BasicHeader_bytes (dstTcid c) (set_typeBits (old ! 1) DTAP_FRAME_BASIC False False False False) (of_nat (dataLen b0 - 4))
    @ (if dstTcid c > TCID_FTC_RFU_END then [pi] else [])"
  have len: "length ?h = ?n" by (simp add: BasicHeader_bytes_def)
  then have "length ?h \<le> SDF_BuffHeadRoom b" using assms(3) by simp
  from prepend_bytes_Some [OF assms(2) this] obtain b1 where b1: "prepend_bytes b ?h = Some b1" "buff_ok b1" "dataOff b1 = dataOff b - length ?h" by metis
  have "DTAP_BuildBasicFrame ?g (dstTcid c) = Some (DTAP_SUCCESS, ?g\<lparr>f_buff := Some b1\<rparr>)"
    using p(1,2) p(5) [OF len] b1(1) by (cases "dstTcid c > TCID_FTC_RFU_END") (simp_all add: DTAP_BuildBasicFrame_def Let_def del: SDF_BuffPrepend.simps)
  moreover have "DLI_HEADER \<le> SDF_BuffHeadRoom b1" using b1(3) len assms(3) by (cases "dstTcid c > TCID_FTC_RFU_END") (simp_all add: SDF_BuffHeadRoom_def)
  then obtain ret d' where "DTAP_SendFrame (sub e 1) a (Some b1) d = Some (ret, d')" "port_to d d'"
    using send_frame_ok [OF assms(1), of "Some b1" "sub e 1"] b1(2) by auto
  ultimately show ?thesis by (simp add: DTAP_SendBasicFrame_def basic_ctx)
qed

lemma send_transparent_ok:
  assumes "port_ok a d" "buff_ok b" "12 \<le> SDF_BuffHeadRoom b"
  shows "\<exists>ret d'. DTAP_SendTransparentFrame e a c b d = Some (ret, d') \<and> port_to d d'"
  using send_frame_ok [OF assms(1), of "Some b" e] assms(2,3) by (auto simp: DTAP_SendTransparentFrame_def)

section \<open>Properties\<close>

text \<open>A basic frame with its payload, as the parser leaves it.\<close>

definition basic_arrives :: "bytes \<Rightarrow> DTAP_Frame \<Rightarrow> bool" where
  "basic_arrives x fr \<longleftrightarrow> (\<exists>b hdr. f_buff fr = Some b \<and> buff_ok b \<and> buffLen b < 2 ^ 32 \<and> buff_data b = hdr @ x \<and> length hdr = headerLen fr)"

fun basic_run :: "channel \<Rightarrow> nat \<Rightarrow> (dtap_env \<times> DTAP_Frame) list \<Rightarrow> DTAP_Basic_Channel \<times> dtap \<Rightarrow> DTAP_Basic_Channel \<times> dtap" where
  "basic_run c cb [] s = s"
| "basic_run c cb ((e, fr) # frs) (basic, d) = basic_run c cb frs (snd (DTAP_RecvBasicFrame e c fr (Some cb) basic d))"

lemma basic_trim:
  assumes "basic_arrives x fr"
  shows "\<exists>off b. SDF_BuffTrimPrefix (f_buff fr) (headerLen fr) = Some (off, b) \<and> buff_ok b \<and> buff_data b = x \<and> buffLen b < 2 ^ 32"
proof -
  obtain b hdr where b: "f_buff fr = Some b" "buff_ok b" "buffLen b < 2 ^ 32" "buff_data b = hdr @ x" "length hdr = headerLen fr"
    using assms by (auto simp: basic_arrives_def)
  have "length hdr \<le> dataLen b" using length_buff_data [OF b(2)] b(4) by simp
  then obtain off b1 where t: "SDF_BuffTrimPrefix (Some b) (length hdr) = Some (off, b1)" by simp
  from SDF_BuffTrimPrefix_Some [OF t b(2)] have "buff_ok b1 \<and> buff_data b1 = x \<and> buffLen b1 < 2 ^ 32" using b(3-5) by simp
  then show ?thesis using t unfolding b(1,5) by blast
qed

lemma basic_cached:
  assumes "\<not> isReady basic" "list_all2 (\<lambda>x (e, fr). alloc_ok e \<and> basic_arrives x fr) xs frs" "length (cacheRxBuffs basic) + length xs \<le> 65"
  shows "\<exists>cfs. basic_run c cb frs (basic, d) = (basic\<lparr>cacheRxBuffs := cacheRxBuffs basic @ cfs\<rparr>, d)
    \<and> list_all2 (\<lambda>x cf. buff_data (cf_buff cf) = x \<and> cf_recvCb cf = Some cb) xs cfs"
  using assms(2,1,3)
proof (induction xs frs arbitrary: basic rule: list_all2_induct)
  case (Cons x xs ef frs)
  obtain e fr where ef: "ef = (e, fr)" "alloc_ok e" "basic_arrives x fr" using Cons.hyps(1) by auto
  obtain off b where b: "SDF_BuffTrimPrefix (f_buff fr) (headerLen fr) = Some (off, b)" "buff_data b = x" "buffLen b < 2 ^ 32"
    using basic_trim [OF ef(3)] by blast
  obtain p q where al: "SDF_MemZalloc (sub (sub e 0) 0) = Some p" "SDF_MemZalloc (sub (sub e 0) 1) = Some q"
    using ef(2) alloc_okD [of "sub (sub e 0) 0"] alloc_okD [of "sub (sub e 0) 1"] by auto
  obtain b' where b': "SDF_BuffCopy (sub (sub e 0) 1) (Some b) = Some b'" using al(2) b(3) by (simp add: less_imp_le)
  define cf where "cf = \<lparr>cf_buff = b', cf_info = \<lparr>info_pi = f_pi fr, info_lcid = lcid c, info_tcid = srcTcid c\<rparr>, cf_recvCb = Some cb\<rparr>"
  have s: "DTAP_RecvBasicFrame e c fr (Some cb) basic d = (DTAP_SUCCESS, basic\<lparr>cacheRxBuffs := cacheRxBuffs basic @ [cf]\<rparr>, d)"
    using b(1) b' al(1) Cons.prems by (simp add: DTAP_RecvBasicFrame_def DTAP_CreateBasicCacheFrame_def cf_def Let_def del: SDF_BuffCopy.simps)
  obtain cfs where "basic_run c cb frs (basic\<lparr>cacheRxBuffs := cacheRxBuffs basic @ [cf]\<rparr>, d)
      = (basic\<lparr>cacheRxBuffs := (cacheRxBuffs basic @ [cf]) @ cfs\<rparr>, d)" "list_all2 (\<lambda>x cf. buff_data (cf_buff cf) = x \<and> cf_recvCb cf = Some cb) xs cfs"
    using Cons.IH [of "basic\<lparr>cacheRxBuffs := cacheRxBuffs basic @ [cf]\<rparr>"] Cons.prems by auto
  moreover have "buff_data b' = x" using SDF_BuffCopy_Some(1) [OF b'] b(2) by simp
  ultimately show ?case using s ef(1) by (intro exI [of _ "cf # cfs"]) (simp add: cf_def)
qed simp

lemma flush_all: "list_all2 (\<lambda>x cf. buff_data (cf_buff cf) = x \<and> cf_recvCb cf = Some cb) xs cfs \<Longrightarrow> map up_data (flush_cache e k cfs) = xs"
  by (induction xs cfs arbitrary: k rule: list_all2_induct) (auto simp: call_cb_def)

lemma basic_direct:
  assumes "isReady basic" "list_all2 (\<lambda>x (e, fr). basic_arrives x fr) xs frs"
  shows "\<exists>d'. basic_run c cb frs (basic, d) = (basic, d') \<and> map up_data (ups d') = map up_data (ups d) @ xs"
  using assms(2)
proof (induction xs frs arbitrary: d rule: list_all2_induct)
  case (Cons x xs ef frs)
  obtain e fr where ef: "ef = (e, fr)" "basic_arrives x fr" using Cons.hyps(1) by auto
  obtain off b where b: "SDF_BuffTrimPrefix (f_buff fr) (headerLen fr) = Some (off, b)" "buff_data b = x" using basic_trim [OF ef(2)] by blast
  let ?d = "d\<lparr>ups := ups d @ snd (call_cb (sub e 1) (Some cb) \<lparr>info_pi = f_pi fr, info_lcid = lcid c, info_tcid = srcTcid c\<rparr> b)\<rparr>"
  have "DTAP_RecvBasicFrame e c fr (Some cb) basic d = (DTAP_SUCCESS, basic, ?d)" using b(1) assms(1) by (simp add: DTAP_RecvBasicFrame_def Let_def)
  then show ?case using Cons.IH [of ?d] ef(1) b(2) by (auto simp: call_cb_def)
qed simp

text \<open> The basic mode loses nothing while the channel is not ready: up to 65 packets that arrive before the
  link is up are kept, handed up in order when it comes up, and followed by the later ones, each once (as
  far as memory can be had for the copies).
\<close>

theorem basic_cache_in_order:
  assumes "\<not> isReady basic" "cacheRxBuffs basic = []" "length xs \<le> 65"
    and "list_all2 (\<lambda>x (e, fr). alloc_ok e \<and> basic_arrives x fr) xs before" "list_all2 (\<lambda>x (e, fr). basic_arrives x fr) ys after"
  shows "case basic_run c cb before (basic, d) of (basic1, d1) \<Rightarrow> d1 = d
    \<and> (case basic_run c cb after (DTAP_RecvBasicFrameContinue e basic1 d1) of
         (basic2, d2) \<Rightarrow> map up_data (ups d2) = map up_data (ups d) @ xs @ ys \<and> isReady basic2 \<and> cacheRxBuffs basic2 = [])"
proof -
  obtain cfs where c: "basic_run c cb before (basic, d) = (basic\<lparr>cacheRxBuffs := cfs\<rparr>, d)"
    "list_all2 (\<lambda>x cf. buff_data (cf_buff cf) = x \<and> cf_recvCb cf = Some cb) xs cfs"
    using basic_cached [OF assms(1,4), of c cb d] assms(2,3) by auto
  let ?b = "basic\<lparr>cacheRxBuffs := [], isReady := True\<rparr>" and ?d = "d\<lparr>ups := ups d @ flush_cache e 0 cfs\<rparr>"
  have f: "DTAP_RecvBasicFrameContinue e (basic\<lparr>cacheRxBuffs := cfs\<rparr>) d = (?b, ?d)" by (simp add: DTAP_RecvBasicFrameContinue_def)
  obtain d2 where "basic_run c cb after (?b, ?d) = (?b, d2)" "map up_data (ups d2) = map up_data (ups ?d) @ ys" using basic_direct [OF _ assms(5), of ?b c cb ?d] by auto
  then show ?thesis using c(1) f flush_all [OF c(2)] by simp
qed

definition demo_basic_frame :: DTAP_Frame where
  "demo_basic_frame = zero_frame\<lparr>headerLen := 4, f_buff := Some \<lparr>buff_addr = 1, dataOff = 0, dataLen = 6, buffLen = 6, buff = [10, 0, 2, 0, 7, 8]\<rparr>\<rparr>"

theorem basic_cache_in_order_witness:
  "case basic_run demo_channel 9 [(granting_env DTAP_SUCCESS, demo_basic_frame)] (\<lparr>isReady = False, cacheRxBuffs = []\<rparr>, demo_dtap) of (basic1, d1) \<Rightarrow> d1 = demo_dtap
    \<and> (case basic_run demo_channel 9 [(granting_env DTAP_SUCCESS, demo_basic_frame)] (DTAP_RecvBasicFrameContinue (granting_env DTAP_SUCCESS) basic1 d1) of
         (basic2, d2) \<Rightarrow> map up_data (ups d2) = map up_data (ups demo_dtap) @ [[7, 8]] @ [[7, 8]] \<and> isReady basic2 \<and> cacheRxBuffs basic2 = [])"
proof -
  have "basic_arrives [7, 8] demo_basic_frame"
    unfolding basic_arrives_def demo_basic_frame_def by (simp add: buff_ok_def buff_data_def)
  then show ?thesis by (intro basic_cache_in_order) simp_all
qed

end
