(* ===== verification/Dtap_Recv_Safe.thy ===== *)
theory Dtap_Recv_Safe
  imports Dtap_Basic
begin

text \<open>
  The receive side is safe for every packet that is not an aggregate frame: whatever the peer sends, the
  reliable mode reads and writes only inside its buffers, and the frames it keeps are well-formed. (Queued
  aggregate frames point into a buffer that is gone, as \<open>copied_aggregate_dangles\<close> shows.)
\<close>

section \<open>Collecting fragments\<close>

text \<open>A frame in the receive queue: not an aggregate frame, with a buffer of its own.\<close>

definition queued_ok :: "DTAP_Frame \<Rightarrow> bool" where
  "queued_ok fr \<longleftrightarrow> f_ctx fr \<notin> {SimplexAggrFrameCtx, DuplexAggrFrameCtx} \<and> (\<exists>b. f_buff fr = Some b \<and> buff_ok b)"

definition collected_ok :: "SDF_Buff option \<Rightarrow> bool" where
  "collected_ok fg \<longleftrightarrow> (\<forall>b. fg = Some b \<longrightarrow> buff_ok b)"

lemma collected_simps [simp]: "collected_ok None" "collected_ok (Some b) = buff_ok b"
  by (simp_all add: collected_ok_def)

lemma copy_collected: "buff_ok b \<Longrightarrow> collected_ok (SDF_BuffCopy e (Some b))"
  using SDF_BuffCopy_Some(2) [of e b] by (auto simp: collected_ok_def simp del: SDF_BuffCopy.simps)

text \<open>Without an assumption on the allocator the collector may fail, but never reads or writes outside.\<close>

lemma update_fragment_total:
  assumes "buff_ok c" "buff_ok b"
  shows "\<exists>ret fg. DTAP_UpdateFragmentFrame e c b = Some (ret, fg) \<and> collected_ok fg"
proof (cases "dataLen c + dataLen b > DTAP_MAX_FRAG_TOTAL_LEN \<or> SDF_BuffNewWithReserve e (dataLen c + dataLen b) = None")
  case True
  then show ?thesis by (auto simp: DTAP_UpdateFragmentFrame_def Let_def)
next
  case False
  then obtain n0 where n0: "SDF_BuffNewWithReserve e (dataLen c + dataLen b) = Some n0" by auto
  note k = SDF_BuffNewWithReserve_SomeD [OF n0]
  obtain n2 where n2: "append_bytes n0 (buff_data c) = Some n2" "buff_ok n2" "dataLen n2 = dataLen c" "buffLen n2 = buffLen n0" "dataOff n2 = dataOff n0"
    using append_bytes_Some [of n0 "buff_data c"] k assms(1) by (auto simp: length_buff_data append_bytes_def mem_write_def split: if_splits)
  obtain n4 where n4: "append_bytes n2 (buff_data b) = Some n4" "buff_ok n4"
    using append_bytes_Some [of n2 "buff_data b"] n2 k assms(2) by (auto simp: length_buff_data SDF_BuffTailRoom_def)
  have "DTAP_UpdateFragmentFrame e c b = Some (DTAP_SUCCESS, Some n4)"
    using False n0 n2(1) n4(1) assms
    by (auto simp: DTAP_UpdateFragmentFrame_def Let_def mem_read_window append_bytes_def length_buff_data split: option.splits prod.splits if_splits)
  then show ?thesis using n4(2) by simp
qed

lemma recv_fragment_ok:
  assumes "f_buff fr = Some b0" "buff_ok b0" "collected_ok fg"
  shows "\<exists>ret fg' b us. DTAP_RecvFragmentFrame e fg fr info cb = Some (ret, fg', fr\<lparr>f_buff := Some b\<rparr>, us) \<and> buff_ok b \<and> collected_ok fg'"
proof (cases "SDF_BuffTrimPrefix (Some b0) (headerLen fr + extensionLen fr)")
  case None
  then have "DTAP_RecvFragmentFrame e fg fr info cb = Some (DTAP_ENHANCED_FRAME_TRIM_PREFIX_ERR, fg, fr\<lparr>f_buff := Some b0\<rparr>, [])"
    using assms(1) by (simp add: DTAP_RecvFragmentFrame_def del: SDF_BuffTrimPrefix.simps)
  then show ?thesis using assms(2,3) by blast
next
  case (Some ob)
  obtain off b1 where p: "SDF_BuffTrimPrefix (Some b0) (headerLen fr + extensionLen fr) = Some (off, b1)" using Some by (cases ob) auto
  have b1: "buff_ok b1" using SDF_BuffTrimPrefix_Some(1) [OF p assms(2)] .
  show ?thesis
  proof (cases "SDF_BuffTrimSuffix (Some b1) DTAP_CRC_LEN")
    case None
    then have "DTAP_RecvFragmentFrame e fg fr info cb = Some (DTAP_ENHANCED_FRAME_TRIM_SUFFIX_ERR, fg, fr\<lparr>f_buff := Some b1\<rparr>, [])"
      using assms(1) p by (simp add: DTAP_RecvFragmentFrame_def del: SDF_BuffTrimPrefix.simps SDF_BuffTrimSuffix.simps)
    then show ?thesis using b1 assms(3) by blast
  next
    case (Some b)
    have b: "buff_ok b" using SDF_BuffTrimSuffix_Some(1) [OF Some b1] .
    have u: "\<exists>ret fg'. DTAP_UpdateFragmentFrame (sub e 0) c b = Some (ret, fg') \<and> collected_ok fg'" if "fg = Some c" for c
      using update_fragment_total [of c b "sub e 0"] that assms(3) b by simp
    have "\<exists>ret fg' us. DTAP_RecvFragmentFrame e fg fr info cb = Some (ret, fg', fr\<lparr>f_buff := Some b\<rparr>, us) \<and> collected_ok fg'"
    proof (cases fg)
      case None
      then show ?thesis using assms(1) p Some b copy_collected [OF b, of "sub e 0"]
        by (auto simp: DTAP_RecvFragmentFrame_def Let_def split: prod.splits simp del: SDF_BuffTrimPrefix.simps SDF_BuffTrimSuffix.simps SDF_BuffCopy.simps)
    next
      case fg: (Some c)
      obtain ret fg' where "DTAP_UpdateFragmentFrame (sub e 0) c b = Some (ret, fg')" "collected_ok fg'" using u [OF fg] by blast
      then show ?thesis using assms(1,3) p Some b copy_collected [OF b, of "sub e 0"] fg
        by (auto simp: DTAP_RecvFragmentFrame_def Let_def split: prod.splits option.splits simp del: SDF_BuffTrimPrefix.simps SDF_BuffTrimSuffix.simps SDF_BuffCopy.simps)
    qed
    then show ?thesis using b by blast
  qed
qed

lemma recv_one_ok:
  assumes "queued_ok fr" "collected_ok fg"
  shows "\<exists>ret fg' fr' us. recv_one e live c cb fr fg = Some (ret, fg', fr', us) \<and> collected_ok fg' \<and> queued_ok fr' \<and> txSeq fr' = txSeq fr"
proof -
  obtain b where b: "f_buff fr = Some b" "buff_ok b" "f_ctx fr \<notin> {SimplexAggrFrameCtx, DuplexAggrFrameCtx}" using assms(1) by (auto simp: queued_ok_def)
  let ?info = "\<lparr>info_pi = f_pi fr, info_lcid = lcid c, info_tcid = dstTcid c\<rparr>"
  obtain ret fg' b' us where r: "DTAP_RecvFragmentFrame e fg fr ?info cb = Some (ret, fg', fr\<lparr>f_buff := Some b'\<rparr>, us)" "buff_ok b'" "collected_ok fg'"
    using recv_fragment_ok [OF b(1,2) assms(2)] by blast
  have "queued_ok (fr\<lparr>f_buff := Some b'\<rparr>)" using b(3) r(2) by (simp add: queued_ok_def)
  then show ?thesis using r b(3) assms by (cases "f_ctx fr") (auto simp: recv_one_def Let_def)
qed

lemma deliver_total:
  assumes "\<forall>fr \<in> set frs. queued_ok fr" "collected_ok fg"
  shows "\<exists>frs' seq' fg' full us. deliver e k live c cb frs seq fg = Some (frs', seq', fg', full, us) \<and> (\<forall>fr \<in> set frs'. queued_ok fr) \<and> collected_ok fg'"
  using assms
proof (induction frs arbitrary: k seq fg)
  case (Cons fr frs)
  obtain ret fg1 fr1 us where o: "recv_one (sub e k) live c cb fr fg = Some (ret, fg1, fr1, us)" "collected_ok fg1" "queued_ok fr1"
    using recv_one_ok [of fr fg "sub e k" live c cb] Cons.prems by auto
  obtain frs' seq' fg' full us' where "deliver e (Suc k) live c cb frs (DTAP_GetNextFrameSeq seq) fg1 = Some (frs', seq', fg', full, us')"
    "\<forall>fr \<in> set frs'. queued_ok fr" "collected_ok fg'" using Cons.IH [of fg1 "Suc k" "DTAP_GetNextFrameSeq seq"] Cons.prems(1) o(2) by auto
  then show ?case using o Cons.prems by auto
qed (auto intro: exI [of _ False])

definition rx_frames_ok :: "DTAP_ReliableChannel \<Rightarrow> bool" where
  "rx_frames_ok r \<longleftrightarrow> (\<forall>fr \<in> set (rxList (rxWindow r)). queued_ok fr) \<and> collected_ok (frags r)"

lemma inner_total:
  assumes "rx_frames_ok r"
  shows "\<exists>r' d'. DTAP_RecvEnhanceFrameInner e live c cb r d = Some (r', d') \<and> rx_frames_ok r' \<and> txWindow r' = txWindow r \<and> rc_crcInit r' = rc_crcInit r
    \<and> cacheBuff r' = cacheBuff r \<and> dp d' = dp d"
proof (cases "isRxWindowFull r")
  case False
  have ok: "(\<forall>fr \<in> set (rxList (rxWindow r)). queued_ok fr) \<and> collected_ok (frags r)" using assms by (simp add: rx_frames_ok_def)
  obtain frs seq fg full us where x: "deliver e 0 live c cb (rxList (rxWindow r)) (bufferSeq (rxWindow r)) (frags r) = Some (frs, seq, fg, full, us)"
    "\<forall>fr \<in> set frs. queued_ok fr" "collected_ok fg" using deliver_total [OF conjunct1 [OF ok] conjunct2 [OF ok], of e 0 live c cb "bufferSeq (rxWindow r)"] by (elim exE conjE) (rule that)
  then show ?thesis using False by (simp add: DTAP_RecvEnhanceFrameInner_def rx_frames_ok_def)
qed (use assms in \<open>simp add: DTAP_RecvEnhanceFrameInner_def\<close>)

section \<open>One frame\<close>

lemma insert_frame_set: "set (insert_frame fr frs) = insert fr (set frs)"
  by (induction frs) auto

lemma slide_rx_part:
  assumes "rx_frames_ok r" "queued_ok fr"
  shows "rx_frames_ok (DTAP_SlideRxWindow fr r)" "txWindow (DTAP_SlideRxWindow fr r) = txWindow r" "rc_crcInit (DTAP_SlideRxWindow fr r) = rc_crcInit r"
    "cacheBuff (DTAP_SlideRxWindow fr r) = cacheBuff r"
  using assms by (auto simp: DTAP_SlideRxWindow_def rx_frames_ok_def Let_def insert_frame_set split: option.splits)

lemma rx_frames_part: "rx_part r' = rx_part r \<Longrightarrow> rx_frames_ok r' = rx_frames_ok r"
  by (simp add: rx_frames_ok_def)

lemma copy_queued: "DTAP_CopyFrame e fr = Some fr' \<Longrightarrow> queued_ok fr \<Longrightarrow> queued_ok fr'"
  by (auto simp: DTAP_CopyFrame_def queued_ok_def buff_ok_def split: option.splits if_splits)

text \<open>The state of a reliable channel whatever the peer has sent.\<close>

definition rel_safe :: "nat \<Rightarrow> DTAP_ReliableChannel \<times> dtap \<Rightarrow> bool" where
  "rel_safe a = (\<lambda>(r, d). tx_ok r \<and> cache_ok r \<and> rx_frames_ok r \<and> port_ok a d)"

text \<open>What a handler may do with the rest of the module: nothing but pass packets to the scheduler and to the upper layer.\<close>

abbreviation (input) same_chans :: "dtap \<Rightarrow> dtap \<Rightarrow> bool" where
  "same_chans d d' \<equiv> data_chans (dp d') = data_chans (dp d)"

lemma rel_safe_to: "rel_safe a (r, d) \<Longrightarrow> rel_to r d r' d' \<Longrightarrow> rel_safe a (r', d') \<and> same_chans d d'"
  using port_to_ok by (auto simp: rel_safe_def rel_to_def rx_frames_ok_def port_to_def)

lemma rel_safe_same:
  assumes "rel_safe a (r, d)" "txWindow r' = txWindow r" "rc_crcInit r' = rc_crcInit r" "cacheBuff r' = cacheBuff r" "rx_frames_ok r'"
    "port_ok a d'"
  shows "rel_safe a (r', d')"
  using assms tx_ok_cong [of r' r] by (auto simp: rel_safe_def cache_ok_def)

lemma recv_data_safe:
  assumes s: "rel_safe a (r, d)" and fr: "queued_ok fr" "ack_ok fr" "f_ctx fr \<noteq> AckFrameCtx"
  shows "\<exists>ret r' d'. DTAP_RecvEnhanceFrame e a c fr cb r d = Some (ret, r', d') \<and> rel_safe a (r', d') \<and> same_chans d d'"
proof -
  have ty: "getFrameType (f_ctx fr) \<noteq> DTAP_FRAME_ACK" using fr(3) by (cases "f_ctx fr") auto
  have nack: "DTAP_RecvNackFrame (sub e 0) a c fr r d = Some (DTAP_SUCCESS, r, d)" using ty by (simp add: DTAP_RecvNackFrame_def)
  obtain r1 d1 where s1: "DTAP_SlideTxWindow (sub e 1) c fr r d = (r1, d1)" by fastforce
  have p: "port_ok a d" "tx_ok r" using s by (simp_all add: rel_safe_def)
  note k1 = slide_tx_ok [OF p(2) fr(2) s1]
  have i1: "rel_safe a (r1, d1)"
    using s k1(1-4) rx_frames_part [OF k1(4)] by (auto simp: rel_safe_def cache_ok_def port_ok_def)
  show ?thesis
  proof (cases "DTAP_CopyFrame (sub e 3) fr")
    case None
    then show ?thesis using nack s1 ty i1 k1(2) by (simp add: DTAP_RecvEnhanceFrame_def)
  next
    case (Some cp)
    note q = slide_rx_part [OF _ copy_queued [OF Some fr(1)], of r1]
    obtain r2 d2 where o: "DTAP_OperateReorderTimer (sub e 4) c (DTAP_SlideRxWindow cp r1) d1 = (r2, d2)" by fastforce
    note k2 = operate_keeps [OF o]
    have f1: "rx_frames_ok r1" "port_ok a d1" using i1 by (simp_all add: rel_safe_def)
    have f2: "rx_frames_ok r2" using q(1) [OF f1(1)] k2 rx_frames_part [of r2 "DTAP_SlideRxWindow cp r1"] by simp
    have i2: "rel_safe a (r2, d2)"
      using q(2-4) [OF f1(1)] k2 f1(2) by (intro rel_safe_same [OF i1 _ _ _ f2]) (auto simp: port_ok_def)
    let ?live = "case f_buff fr of None \<Rightarrow> [] | Some b \<Rightarrow> [b]"
    obtain r3 d3 where n: "DTAP_RecvEnhanceFrameInner (sub e 5) ?live c cb r2 d2 = Some (r3, d3)" "rx_frames_ok r3" "txWindow r3 = txWindow r2"
      "rc_crcInit r3 = rc_crcInit r2" "cacheBuff r3 = cacheBuff r2" "dp d3 = dp d2" using inner_total [OF f2] by blast
    have p3: "port_ok a d3" using i2 n(6) by (simp add: rel_safe_def port_ok_def)
    have i3: "rel_safe a (r3, d3)" by (rule rel_safe_same [OF i2 n(3-5,2) p3])
    have d3: "same_chans d d3" using k1(2) k2 n(6) by simp
    define ack where "ack = (if DTAP_CheckFrameBit (f_bits cp) DTAP_FRAME_P_BIT then do {
        (ret, d4) \<leftarrow> DTAP_SendAckFrame (sub e 6) a c r3 True False d3;
        Some (if ret \<noteq> DTAP_SUCCESS then (r3, d4) else restart_rsp (sub e 7) c r3 d4)
      } else Some (r3, d3))"
    have "\<exists>r4 d4. ack = Some (r4, d4) \<and> rel_safe a (r4, d4) \<and> same_chans d3 d4"
    proof (cases "DTAP_CheckFrameBit (f_bits cp) DTAP_FRAME_P_BIT")
      case True
      obtain ret d4 where a4: "DTAP_SendAckFrame (sub e 6) a c r3 True False d3 = Some (ret, d4)" "port_to d3 d4" using send_ack_ok [OF p3] by blast
      have p4: "port_ok a d4" "same_chans d3 d4" using port_to_ok [OF a4(2) p3] a4(2) by (simp_all add: port_to_def)
      obtain r5 d5 where t: "restart_rsp (sub e 7) c r3 d4 = (r5, d5)" by fastforce
      note kt = timer_simps(1) [OF t]
      have "rel_safe a (r5, d5)" using kt p4(1) n(2) rx_frames_part [of r5 r3] by (intro rel_safe_same [OF i3]) (auto simp: port_ok_def)
      moreover have "rel_safe a (r3, d4)" using i3 p4(1) by (simp add: rel_safe_def)
      moreover have "same_chans d3 d5" using kt p4(2) by simp
      ultimately show ?thesis using True a4(1) t p4(2) by (simp add: ack_def)
    qed (use i3 in \<open>simp add: ack_def\<close>)
    then obtain r4 d4 where k: "ack = Some (r4, d4)" "rel_safe a (r4, d4)" "same_chans d3 d4" by blast
    obtain r5 d5 where c5: "DTAP_TransChannelStatusChange (sub e 8) a c 0 r4 d4 = Some (r5, d5)" "rel_to r4 d4 r5 d5"
      using status_change_ok [of r4 a d4 "sub e 8" c 0] k(2) by (auto simp: rel_safe_def)
    have "DTAP_RecvEnhanceFrame e a c fr cb r d = Some (DTAP_SUCCESS, r5, d5)"
      using nack s1 ty Some o n(1) k(1) c5(1) by (simp add: DTAP_RecvEnhanceFrame_def ack_def)
    then show ?thesis using rel_safe_to [OF k(2) c5(2)] k(3) d3 by simp
  qed
qed

lemma recv_enhance_safe:
  assumes s: "rel_safe a (r, d)" and fr: "queued_ok fr" "ack_ok fr" "f_ctx fr = AckFrameCtx \<Longrightarrow> seq_ok (ack_reqSeq fr)"
  shows "\<exists>ret r' d'. DTAP_RecvEnhanceFrame e a c fr cb r d = Some (ret, r', d') \<and> rel_safe a (r', d') \<and> same_chans d d'"
proof (cases "f_ctx fr = AckFrameCtx")
  case True
  have "rel_inv a (r, d)" using s by (simp add: rel_safe_def rel_inv_def)
  then obtain ret r' d' where "DTAP_RecvEnhanceFrame e a c fr cb r d = Some (ret, r', d')" "rel_to r d r' d'"
    using recv_ack_rel [OF _ True fr(3) [OF True]] by blast
  then show ?thesis using rel_safe_to [OF s] by blast
qed (rule recv_data_safe [OF s fr(1,2)])

section \<open>Parsed frames\<close>

lemma get_field_seq_ok [simp]: "seq_ok (get_field 0 14 (w :: u16))"
  by (simp add: get_field_def unsigned_take_bit_eq take_bit_nat_less_exp [of 14, simplified])

text \<open>The numbers a parser reads are 14-bit numbers.\<close>

lemma parse_seq_ok:
  assumes p: "DTAP_ParseFrame t b zero_frame = Some (DTAP_SUCCESS, fr)" and b: "buff_ok b" "4 \<le> dataLen b" "dataLen b \<le> 65539"
  shows "ack_ok fr" "f_ctx fr = AckFrameCtx \<Longrightarrow> seq_ok (ack_reqSeq fr)"
proof -
  obtain c where c: "DTAP_GetFrameCtx t = Some c" "parseFrame c (zero_frame\<lparr>f_buff := Some b, f_header := Some (SDF_DataOffset b), f_ctx := c\<rparr>) = Some (DTAP_SUCCESS, fr)"
    using p by (auto simp: DTAP_ParseFrame_def split: option.splits)
  have "getFrameType (f_ctx fr) = getFrameType c" using DTAP_ParseFrame_safe [OF b, of t] p DTAP_GetFrameCtx_SomeD [OF c(1)] by auto
  then have ctx: "f_ctx fr = c" by (cases c; cases "f_ctx fr") simp_all
  have "c = AckFrameCtx \<Longrightarrow> seq_ok (ack_reqSeq fr)" "c \<noteq> AckFrameCtx \<Longrightarrow> reqSeq fr = DTAP_FRAME_SEQ_INIT \<or> seq_ok (reqSeq fr)"
    using c(2) by (cases c; auto simp: DTAP_ParseSimplexAggrFrame_def DTAP_ParseSimplexFragFrame_def DTAP_ParseDuplexAggrFrame_def
        DTAP_ParseDuplexFragFrame_def DTAP_ParseAckFrame_def DTAP_ParseBasicFrame_def zero_frame_def split: bind_splits if_splits)+
  then show "ack_ok fr" "f_ctx fr = AckFrameCtx \<Longrightarrow> seq_ok (ack_reqSeq fr)"
    unfolding ctx ack_ok_def frame_reqSeq_def by (cases c; simp)+
qed

end
