(* ===== verification/Dtap_Mode.thy ===== *)
theory Dtap_Mode
  imports Dtap_Recv_Safe
begin

text \<open>
  The table of transport modes (\<open>DTAP_TransMode_S\<close> of \<open>dtap_trans.h\<close>, \<open>dtap_trans.c\<close>): what the module calls
  through the function pointers of a channel's mode. The attributes of the channel are read from the
  channel and stored back there. A locale states what the module relies on when it sends, and each of the
  four modes is shown to keep it; a second one extends it by what the modes that receive frames promise.
\<close>

section \<open>The table of modes\<close>

datatype DTAP_TransMode = g_dtapBasicTransMode | g_dtapTransparentMode | g_dtapStreamTransMode | g_dtapReliableTransMode

abbreviation (input) CM_TRANS_MODE_MAX :: nat where "CM_TRANS_MODE_MAX \<equiv> 4"

fun getModeType :: "DTAP_TransMode \<Rightarrow> nat" where
  "getModeType g_dtapBasicTransMode = CM_TRANS_MODE_BASIC"
| "getModeType g_dtapTransparentMode = CM_TRANS_MODE_TRANSPARENT"
| "getModeType g_dtapStreamTransMode = CM_TRANS_MODE_STREAM"
| "getModeType g_dtapReliableTransMode = CM_TRANS_MODE_RELIABLE"

definition DTAP_RegisterTransMode :: "DTAP_TransMode \<Rightarrow> DTAP_TransMode option list \<Rightarrow> DTAP_TransMode option list" where
  "DTAP_RegisterTransMode m t = (if getModeType m < CM_TRANS_MODE_MAX then t[getModeType m := Some m] else t)"

text \<open>The table after \<open>DTAP_Init\<close>, which registers the four modes.\<close>

definition g_dtapTransMode :: "DTAP_TransMode option list" where
  "g_dtapTransMode = fold DTAP_RegisterTransMode
     [g_dtapBasicTransMode, g_dtapTransparentMode, g_dtapStreamTransMode, g_dtapReliableTransMode] (replicate CM_TRANS_MODE_MAX None)"

definition DTAP_GetTransMode :: "nat \<Rightarrow> DTAP_TransMode option" where
  "DTAP_GetTransMode modeType = (if modeType \<ge> CM_TRANS_MODE_MAX then None else g_dtapTransMode ! modeType)"

definition store_attr :: "nat \<Rightarrow> trans_attr \<Rightarrow> dtap \<Rightarrow> dtap" where
  "store_attr a at d = d\<lparr>dp := chan_upd a (\<lambda>c. c\<lparr>attr := Some at\<rparr>) (dp d)\<rparr>"

text \<open>Attributes of another kind than the mode of the channel would be a wrong cast.\<close>

fun as_basic :: "trans_attr option \<Rightarrow> DTAP_Basic_Channel option" where
  "as_basic (Some (BasicAttr x)) = Some x" | "as_basic _ = None"

fun as_stream :: "trans_attr option \<Rightarrow> DTAP_Stream_Channel option" where
  "as_stream (Some (StreamAttr x)) = Some x" | "as_stream _ = None"

fun as_reliable :: "trans_attr option \<Rightarrow> DTAP_ReliableChannel option" where
  "as_reliable (Some (ReliableAttr x)) = Some x" | "as_reliable _ = None"

fun sendFrame :: "DTAP_TransMode \<Rightarrow> dtap_env \<Rightarrow> nat \<Rightarrow> channel \<Rightarrow> u8 \<Rightarrow> SDF_Buff \<Rightarrow> dtap \<Rightarrow> (DTAP_errno \<times> dtap) option" where
  "sendFrame g_dtapBasicTransMode e a c pi b d = DTAP_SendBasicFrame e a c pi b d"
| "sendFrame g_dtapTransparentMode e a c pi b d = DTAP_SendTransparentFrame e a c b d"
| "sendFrame g_dtapStreamTransMode e a c pi b d = do {
     st \<leftarrow> as_stream (attr c);
     (ret, st', d') \<leftarrow> DTAP_SendStreamFrame e a c pi b st d;
     Some (ret, store_attr a (StreamAttr st') d')
   }"
| "sendFrame g_dtapReliableTransMode e a c pi b d = do {
     r \<leftarrow> as_reliable (attr c);
     (ret, r', d') \<leftarrow> DTAP_SendEnhanceFrame e a c pi b r d;
     Some (ret, store_attr a (ReliableAttr r') d')
   }"

text \<open>The transparent mode has neither \<open>checkFrame\<close> nor \<open>recvFrame\<close>: a call would go through a NULL pointer.\<close>

fun checkFrame :: "DTAP_TransMode \<Rightarrow> channel \<Rightarrow> DTAP_Frame \<Rightarrow> bool option" where
  "checkFrame g_dtapBasicTransMode c fr = DTAP_CheckBasicFrame fr"
| "checkFrame g_dtapTransparentMode c fr = None"
| "checkFrame g_dtapStreamTransMode c fr = DTAP_CheckStreamFrame fr"
| "checkFrame g_dtapReliableTransMode c fr = do { r \<leftarrow> as_reliable (attr c); DTAP_CheckEnhanceFrame r fr }"

fun recvFrame :: "DTAP_TransMode \<Rightarrow> dtap_env \<Rightarrow> nat \<Rightarrow> channel \<Rightarrow> DTAP_Frame \<Rightarrow> nat option \<Rightarrow> dtap \<Rightarrow> (DTAP_errno \<times> dtap) option" where
  "recvFrame g_dtapBasicTransMode e a c fr cb d = do {
     basic \<leftarrow> as_basic (attr c);
     (case DTAP_RecvBasicFrame e c fr cb basic d of (ret, basic', d') \<Rightarrow> Some (ret, store_attr a (BasicAttr basic') d'))
   }"
| "recvFrame g_dtapTransparentMode e a c fr cb d = None"
| "recvFrame g_dtapStreamTransMode e a c fr cb d = do {
     st \<leftarrow> as_stream (attr c);
     (ret, st', d') \<leftarrow> DTAP_RecvStreamFrame e c fr cb st d;
     Some (ret, store_attr a (StreamAttr st') d')
   }"
| "recvFrame g_dtapReliableTransMode e a c fr cb d = do {
     r \<leftarrow> as_reliable (attr c);
     (ret, r', d') \<leftarrow> DTAP_RecvEnhanceFrame e a c fr cb r d;
     Some (ret, store_attr a (ReliableAttr r') d')
   }"

text \<open>\<open>transFrame\<close> and \<open>setTransChannelStatus\<close>, where the mode has one.\<close>

fun transFrame :: "DTAP_TransMode \<Rightarrow> (dtap_env \<Rightarrow> channel \<Rightarrow> SDF_Buff \<Rightarrow> nat option \<Rightarrow> dtap \<Rightarrow> dtap) option" where
  "transFrame g_dtapTransparentMode = Some DTAP_TransparentTransFrame"
| "transFrame _ = None"

fun setTransChannelStatus :: "DTAP_TransMode \<Rightarrow> (dtap_env \<Rightarrow> nat \<Rightarrow> channel \<Rightarrow> DTAP_errno \<Rightarrow> nat option \<Rightarrow> dtap \<Rightarrow> dtap option) option" where
  "setTransChannelStatus g_dtapReliableTransMode = Some (\<lambda>e a c result cb d. do {
     r \<leftarrow> as_reliable (attr c);
     (r', d') \<leftarrow> DTAP_SetTransChannelStatus e c result cb r d;
     Some (store_attr a (ReliableAttr r') d')
   })"
| "setTransChannelStatus _ = None"

lemma g_dtapTransMode_eq: "g_dtapTransMode = [Some g_dtapBasicTransMode, Some g_dtapTransparentMode, Some g_dtapStreamTransMode, Some g_dtapReliableTransMode]"
  by code_simp

lemma get_mode_type: "DTAP_GetTransMode t = Some m \<Longrightarrow> t = getModeType m"
  by (auto simp: DTAP_GetTransMode_def g_dtapTransMode_eq nth_Cons split: if_splits nat.splits)

lemma get_mode: "DTAP_GetTransMode (getModeType m) = Some m"
  by (cases m) (simp_all add: DTAP_GetTransMode_def g_dtapTransMode_eq)

section \<open>Storing attributes\<close>

text \<open>The scheduler does not look at the attributes of a channel.\<close>

lemma sched_ok_attr:
  assumes "sched_ok s"
  shows "sched_ok (chan_upd a (\<lambda>c. c\<lparr>attr := x\<rparr>) s)"
proof -
  let ?s = "chan_upd a (\<lambda>c. c\<lparr>attr := x\<rparr>) s"
  have p: "pkts (chan_heap ?s) = pkts (chan_heap s)" by (rule ext) (auto simp: pkts_def chan_upd_def split: option.splits)
  have c: "chan_ok (chan_heap ?s) i l b = chan_ok (chan_heap s) i l b" for i l b
    by (cases "chan_heap s b") (auto simp: chan_ok_def chan_upd_def)
  have "queue_ok (chan_heap ?s) i q = queue_ok (chan_heap s) i q" for i q by (simp add: queue_ok_def node_ok_def p c)
  moreover have "heap_ok ?s"
  proof -
    have h: "heap_ok s" using assms by (simp add: sched_ok_def)
    have v: "\<exists>d. chan_heap s b = Some d \<and> priority d = priority c \<and> lcid d = lcid c \<and> srcTcid d = srcTcid c \<and> pktList d = pktList c"
      if "chan_heap ?s b = Some c" for b c
      using that by (auto simp: chan_upd_def split: if_splits)
    have "b < chan_next s" if "chan_heap ?s b \<noteq> None" for b
      using that h by (auto simp: heap_ok_def chan_upd_def split: if_splits)
    moreover have "b = b'" if t: "chan_heap ?s b = Some c" "chan_heap ?s b' = Some c'" "priority c = priority c'" "priority c \<noteq> DTAP_PRIORITY_FRAGMENT"
      "lcid c = lcid c'" "srcTcid c = srcTcid c'" for b b' c c'
    proof -
      obtain d d' where "chan_heap s b = Some d" "chan_heap s b' = Some d'" "priority d = priority d'" "priority d \<noteq> DTAP_PRIORITY_FRAGMENT"
        "lcid d = lcid d'" "srcTcid d = srcTcid d'" using v [OF t(1)] v [OF t(2)] t(3-6) by auto
      then show ?thesis using h unfolding heap_ok_def by blast
    qed
    moreover have "priority c < DTAP_PRIORITY_MAX \<and> (pktList c \<noteq> [] \<longrightarrow>
        (\<exists>n \<in> set (lcidList (g_dtapScheduler s ! priority c)). ln_lcid n = lcid c \<and> b \<in> set (channelList n)))" if "chan_heap ?s b = Some c" for b c
      using v [OF that] h unfolding heap_ok_def by metis
    moreover have "chan_next ?s = chan_next s" "g_dtapScheduler ?s = g_dtapScheduler s" by (simp_all add: chan_upd_def)
    ultimately show ?thesis unfolding heap_ok_def by presburger
  qed
  ultimately show ?thesis using assms by (simp add: sched_ok_def chan_upd_def)
qed

lemma data_chans_attr: "data_chans (chan_upd a (\<lambda>c. c\<lparr>attr := x\<rparr>) s) = (data_chans s)(a := map_option (\<lambda>c. c\<lparr>attr := x\<rparr>) (data_chans s a))"
  by (rule ext) (auto simp: data_chans_def chan_upd_def split: option.splits)

section \<open>What a mode leaves alone\<close>

definition module_globals :: "dtap \<Rightarrow> (u16, nat list) SDF_Map option \<times> (u8 \<times> nat) list \<times> nat option list \<times> nat option \<times> bool" where
  "module_globals d = (g_dtapLogicLinksMap d, g_dtapRecvCbks d, g_dtapProtoRecvCbks d, g_dtapDataSendCbks d, g_dtapIsInited d)"

lemma globals_upd [simp]:
  "module_globals (d\<lparr>dp := s\<rparr>) = module_globals d" "module_globals (d\<lparr>timer_log := t\<rparr>) = module_globals d"
  "module_globals (d\<lparr>release_log := r\<rparr>) = module_globals d" "module_globals (d\<lparr>ups := u\<rparr>) = module_globals d"
  "module_globals (store_attr a x d) = module_globals d"
  by (simp_all add: module_globals_def store_attr_def)

lemma globals_send_frame: "DTAP_SendFrame e a b d = Some (ret, d') \<Longrightarrow> module_globals d' = module_globals d"
  by (auto simp: DTAP_SendFrame_def split: bind_splits)

lemma globals_timer: "DTAP_TransStartTimer e k c t h d = (ok, h', d') \<Longrightarrow> module_globals d' = module_globals d"
  by (auto simp: DTAP_TransStartTimer_def split: option.splits)

lemma globals_restart: "restart_rsp e c r d = (r', d') \<Longrightarrow> module_globals d' = module_globals d"
  "restart_retrans e c t r d = (r', d') \<Longrightarrow> module_globals d' = module_globals d"
  by (auto simp: restart_rsp_def restart_retrans_def DTAP_TransRestartTimer_def split: prod.splits dest: globals_timer)

lemma globals_release: "DTAP_DynTransChannReleaseReq e c r d = (r', d') \<Longrightarrow> module_globals d' = module_globals d"
  by (auto simp: DTAP_DynTransChannReleaseReq_def split: if_splits)

lemma globals_retrans: "DTAP_RetransEnhanceFrame e a c r d = Some (ret, r', d') \<Longrightarrow> module_globals d' = module_globals d"
  by (auto simp: DTAP_RetransEnhanceFrame_def Let_def split: option.splits bind_splits if_splits prod.splits
      dest!: globals_send_frame globals_restart globals_release)

lemma globals_send_new: "send_new e k a frs reset r d = Some (x, r', d') \<Longrightarrow> module_globals d' = module_globals d"
  by (induction e k a frs reset r d rule: send_new.induct) (auto split: prod.splits bind_splits if_splits dest!: globals_send_frame)

lemma globals_send_inner: "DTAP_SendEnhanceFrameInner e a c frs r d = Some (ret, r', d') \<Longrightarrow> module_globals d' = module_globals d"
  by (auto simp: DTAP_SendEnhanceFrameInner_def Let_def split: bind_splits if_splits prod.splits
      dest!: globals_send_new globals_restart globals_retrans globals_timer)

lemma globals_send_enhance: "DTAP_SendEnhanceFrame e a c pi b r d = Some (ret, r', d') \<Longrightarrow> module_globals d' = module_globals d"
  by (auto simp: DTAP_SendEnhanceFrame_def Let_def split: bind_splits if_splits prod.splits dest!: globals_send_inner)

lemma globals_nack: "DTAP_RecvNackFrame e a c fr r d = Some (ret, r', d') \<Longrightarrow> module_globals d' = module_globals d"
  by (auto simp: DTAP_RecvNackFrame_def split: if_splits bind_splits dest!: globals_retrans)

lemma globals_slide_tx: "DTAP_SlideTxWindow e c fr r d = (r', d') \<Longrightarrow> module_globals d' = module_globals d"
  by (auto simp: DTAP_SlideTxWindow_def Let_def split: if_splits dest!: globals_restart)

lemma globals_status_cbk [simp]: "module_globals (status_cbk c x d) = module_globals d"
  by (simp add: status_cbk_def module_globals_def split: option.splits)

lemma globals_cache: "DTAP_TransSendCacheBuff e a c x b r d = Some (r', d') \<Longrightarrow> module_globals d' = module_globals d"
  by (auto simp: DTAP_TransSendCacheBuff_def Let_def split: if_splits bind_splits dest!: globals_send_enhance)

lemma globals_status: "DTAP_TransChannelStatusChange e a c x r d = Some (r', d') \<Longrightarrow> module_globals d' = module_globals d"
  by (auto simp: DTAP_TransChannelStatusChange_def split: if_splits option.splits dest!: globals_cache)

lemma globals_ack: "DTAP_SendAckFrame e a c r x y d = Some (ret, d') \<Longrightarrow> module_globals d' = module_globals d"
  by (auto simp: DTAP_SendAckFrame_def split: if_splits option.splits bind_splits dest!: globals_send_frame)

lemma globals_reorder: "DTAP_OperateReorderTimer e c r d = (r', d') \<Longrightarrow> module_globals d' = module_globals d"
  by (auto simp: DTAP_OperateReorderTimer_def DTAP_TransRestartTimer_def Let_def split: if_splits prod.splits dest!: globals_timer)

lemma globals_inner: "DTAP_RecvEnhanceFrameInner e live c cb r d = Some (r', d') \<Longrightarrow> module_globals d' = module_globals d"
  by (auto simp: DTAP_RecvEnhanceFrameInner_def split: if_splits bind_splits)

lemma globals_recv_enhance: "DTAP_RecvEnhanceFrame e a c fr cb r d = Some (ret, r', d') \<Longrightarrow> module_globals d' = module_globals d"
  by (auto simp: DTAP_RecvEnhanceFrame_def Let_def split: if_splits option.splits bind_splits prod.splits
      dest!: globals_nack globals_slide_tx globals_status globals_ack globals_reorder globals_inner globals_restart)

section \<open>The contract of a mode\<close>

text \<open>A packet the upper layers may hand over: the room in front is for the frame and the link header.\<close>

definition packet_ok :: "SDF_Buff \<Rightarrow> bool" where
  "packet_ok b \<longleftrightarrow> buff_ok b \<and> dataLen b \<le> 65535 \<and> 12 \<le> SDF_BuffHeadRoom b"

text \<open>
  What a mode may change while it works on the channel at \<open>a\<close>: the packets waiting in the scheduler, which stays
  well-formed, and the attributes of this channel, which keep the invariant of the mode. A send hands
  nothing up.
\<close>

definition kept :: "nat \<Rightarrow> (trans_attr option \<Rightarrow> bool) \<Rightarrow> dtap \<Rightarrow> dtap \<Rightarrow> bool" where
  "kept a I d d' \<longleftrightarrow> sched_ok (dp d') \<and> module_globals d' = module_globals d
     \<and> (\<exists>x. I x \<and> data_chans (dp d') = (data_chans (dp d))(a := map_option (\<lambda>c. c\<lparr>attr := x\<rparr>) (data_chans (dp d) a)))"

definition sent_to :: "nat \<Rightarrow> (trans_attr option \<Rightarrow> bool) \<Rightarrow> dtap \<Rightarrow> dtap \<Rightarrow> bool" where
  "sent_to a I d d' \<longleftrightarrow> kept a I d d' \<and> ups d' = ups d"

locale trans_mode =
  fixes I :: "trans_attr option \<Rightarrow> bool"
    and send :: "dtap_env \<Rightarrow> nat \<Rightarrow> channel \<Rightarrow> u8 \<Rightarrow> SDF_Buff \<Rightarrow> dtap \<Rightarrow> (DTAP_errno \<times> dtap) option"
  assumes send_ok: "port_ok a d \<Longrightarrow> chan_heap (dp d) a = Some c \<Longrightarrow> I (attr c) \<Longrightarrow> packet_ok b \<Longrightarrow>
    \<exists>ret d'. send e a c pi b d = Some (ret, d') \<and> sent_to a I d d'"
begin

text \<open>Packet after packet, the channel looked up again each time.\<close>

fun sends :: "nat \<Rightarrow> (dtap_env \<times> u8 \<times> SDF_Buff) list \<Rightarrow> dtap \<Rightarrow> dtap option" where
  "sends a [] d = Some d"
| "sends a ((e, pi, b) # ps) d = do { c \<leftarrow> chan_heap (dp d) a; (ret, d') \<leftarrow> send e a c pi b d; sends a ps d' }"

lemma kept_port:
  assumes "port_ok a d" "kept a I d d'"
  shows "port_ok a d'" "\<exists>c. chan_heap (dp d') a = Some c \<and> I (attr c)"
proof -
  obtain x where x: "sched_ok (dp d')" "I x" "data_chans (dp d') a = map_option (\<lambda>c. c\<lparr>attr := x\<rparr>) (data_chans (dp d) a)"
    using assms(2) by (auto simp: kept_def)
  moreover obtain c where "data_chans (dp d) a = Some c" using assms(1) by (auto simp: port_ok_def)
  ultimately have c: "data_chans (dp d') a = Some (c\<lparr>attr := x\<rparr>)" by simp
  then show "port_ok a d'" using x(1) by (simp add: port_ok_def)
  from c obtain c0 where c0: "chan_heap (dp d') a = Some c0" "c0\<lparr>pktList := []\<rparr> = c\<lparr>attr := x\<rparr>"
    by (auto simp: data_chans_def split: option.splits if_splits)
  from arg_cong [OF c0(2), of attr] have "attr c0 = x" by simp
  then show "\<exists>c. chan_heap (dp d') a = Some c \<and> I (attr c)" using c0(1) x(2) by auto
qed

lemma sends_ok:
  assumes "port_ok a d" "chan_heap (dp d) a = Some c" "I (attr c)" "\<forall>(e, pi, b) \<in> set ps. packet_ok b"
  shows "\<exists>d'. sends a ps d = Some d' \<and> port_ok a d' \<and> module_globals d' = module_globals d \<and> ups d' = ups d"
  using assms
proof (induction ps arbitrary: d c)
  case (Cons p ps)
  obtain e pi b where p: "p = (e, pi, b)" by (metis prod_cases3)
  obtain ret d1 where s: "send e a c pi b d = Some (ret, d1)" "sent_to a I d d1"
    using send_ok [OF Cons.prems(1-3), of b e pi] Cons.prems(4) p by auto
  then have k: "kept a I d d1" and g: "module_globals d1 = module_globals d" "ups d1 = ups d" by (auto simp: sent_to_def kept_def)
  obtain c1 where c1: "chan_heap (dp d1) a = Some c1" "I (attr c1)" using kept_port(2) [OF Cons.prems(1) k] by blast
  show ?case using Cons.IH [OF kept_port(1) [OF Cons.prems(1) k] c1] Cons.prems(2,4) p s(1) g by auto
qed simp

end

lemma kept_store:
  assumes "sched_ok (dp d')" "data_chans (dp d') = data_chans (dp d)" "module_globals d' = module_globals d" "I (Some x)"
  shows "kept a I d (store_attr a x d')"
proof -
  have "sched_ok (dp (store_attr a x d'))" using assms(1) sched_ok_attr by (auto simp: store_attr_def)
  moreover have "data_chans (dp (store_attr a x d')) = (data_chans (dp d))(a := map_option (\<lambda>c. c\<lparr>attr := Some x\<rparr>) (data_chans (dp d) a))"
    using assms(2) by (simp add: store_attr_def data_chans_attr)
  ultimately show ?thesis using assms(3,4) unfolding kept_def by auto
qed

lemma sent_to_store:
  assumes "port_ok a d" "port_to d d'" "module_globals d' = module_globals d" "I (Some x)"
  shows "sent_to a I d (store_attr a x d')"
  using kept_store [of d' d I x a] assms by (auto simp: sent_to_def port_to_def port_ok_def store_attr_def)

lemma sent_to_same:
  assumes "port_ok a d" "port_to d d'" "module_globals d' = module_globals d" "chan_heap (dp d) a = Some c" "I (attr c)"
  shows "sent_to a I d d'"
proof -
  have "data_chans (dp d) a = Some (c\<lparr>pktList := []\<rparr>)" using assms(1,4) by (auto simp: port_ok_def data_chans_def split: if_splits)
  then have "data_chans (dp d') = (data_chans (dp d))(a := map_option (\<lambda>k. k\<lparr>attr := attr c\<rparr>) (data_chans (dp d) a))"
    using assms(2) by (auto simp: port_to_def)
  moreover have "sched_ok (dp d')" "ups d' = ups d" using assms(1,2) by (auto simp: port_ok_def port_to_def)
  ultimately show ?thesis using assms(3,5) unfolding sent_to_def kept_def by blast
qed

definition basic_inv :: "trans_attr option \<Rightarrow> bool" where "basic_inv x \<longleftrightarrow> as_basic x \<noteq> None"
definition stream_inv :: "trans_attr option \<Rightarrow> bool" where "stream_inv x \<longleftrightarrow> as_stream x \<noteq> None"
definition reliable_inv :: "trans_attr option \<Rightarrow> bool" where
  "reliable_inv x \<longleftrightarrow> (\<exists>r. as_reliable x = Some r \<and> tx_ok r \<and> cache_ok r \<and> rx_frames_ok r)"

interpretation basic_mode: trans_mode basic_inv "sendFrame g_dtapBasicTransMode"
proof
  fix a d c b and e :: dtap_env and pi assume p: "port_ok a d" "chan_heap (dp d) a = Some c" "basic_inv (attr c)" "packet_ok b"
  obtain ret d' where s: "DTAP_SendBasicFrame e a c pi b d = Some (ret, d')" "port_to d d'"
    using send_basic_ok [of a d b e c pi] p(1,4) by (auto simp: packet_ok_def)
  have "module_globals d' = module_globals d" using s(1) by (auto simp: DTAP_SendBasicFrame_def split: option.splits bind_splits if_splits dest!: globals_send_frame)
  then show "\<exists>ret d'. sendFrame g_dtapBasicTransMode e a c pi b d = Some (ret, d') \<and> sent_to a basic_inv d d'"
    using s sent_to_same [OF p(1) s(2)] p(2,3) by simp
qed

interpretation transparent_mode: trans_mode "\<lambda>_. True" "sendFrame g_dtapTransparentMode"
proof
  fix a d c b and e :: dtap_env and pi assume p: "port_ok a d" "chan_heap (dp d) a = Some c" "True" "packet_ok b"
  obtain ret d' where s: "DTAP_SendTransparentFrame e a c b d = Some (ret, d')" "port_to d d'"
    using send_transparent_ok [of a d b e c] p(1,4) by (auto simp: packet_ok_def)
  have "module_globals d' = module_globals d" using s(1) by (auto simp: DTAP_SendTransparentFrame_def split: if_splits dest!: globals_send_frame)
  then show "\<exists>ret d'. sendFrame g_dtapTransparentMode e a c pi b d = Some (ret, d') \<and> sent_to a (\<lambda>_. True) d d'"
    using s sent_to_same [OF p(1) s(2)] p(2,3) by simp
qed

interpretation stream_mode: trans_mode stream_inv "sendFrame g_dtapStreamTransMode"
proof
  fix a d c b and e :: dtap_env and pi assume p: "port_ok a d" "chan_heap (dp d) a = Some c" "stream_inv (attr c)" "packet_ok b"
  obtain st where st: "as_stream (attr c) = Some st" using p(3) by (auto simp: stream_inv_def)
  obtain ret st' d' where s: "DTAP_SendStreamFrame e a c pi b st d = Some (ret, st', d')" "port_to d d'"
    using send_stream_ok [of a d b e c pi st] p(1,4) by (auto simp: packet_ok_def)
  have "module_globals d' = module_globals d" using s(1) by (auto simp: DTAP_SendStreamFrame_def Let_def split: if_splits bind_splits dest!: globals_send_frame)
  then show "\<exists>ret d'. sendFrame g_dtapStreamTransMode e a c pi b d = Some (ret, d') \<and> sent_to a stream_inv d d'"
    using s(1) st sent_to_store [OF p(1) s(2), of stream_inv "StreamAttr st'"] by (simp add: stream_inv_def)
qed

interpretation reliable_mode: trans_mode reliable_inv "sendFrame g_dtapReliableTransMode"
proof
  fix a d c b and e :: dtap_env and pi assume p: "port_ok a d" "chan_heap (dp d) a = Some c" "reliable_inv (attr c)" "packet_ok b"
  obtain r where r: "as_reliable (attr c) = Some r" "tx_ok r" "cache_ok r" "rx_frames_ok r" using p(3) by (auto simp: reliable_inv_def)
  obtain ret r' d' where s: "DTAP_SendEnhanceFrame e a c pi b r d = Some (ret, r', d')" "rel_to r d r' d'"
    using send_enhance_ok [OF r(2,3) p(1), of b e c pi] p(4) by (auto simp: packet_ok_def)
  then have "port_to d d'" "reliable_inv (Some (ReliableAttr r'))" using r(4) by (simp_all add: rel_to_def reliable_inv_def rx_frames_ok_def)
  then show "\<exists>ret d'. sendFrame g_dtapReliableTransMode e a c pi b d = Some (ret, d') \<and> sent_to a reliable_inv d d'"
    using s(1) r(1) sent_to_store [OF p(1), of d' reliable_inv "ReliableAttr r'"] globals_send_enhance [OF s(1)] by simp
qed

section \<open>Receiving\<close>

text \<open>A frame as \<open>DTAP_DataRecvFrame\<close> hands it to the mode of a channel: parsed from a received buffer by the type in its header.\<close>

definition frame_parsed :: "DTAP_Frame \<Rightarrow> bool" where
  "frame_parsed fr \<longleftrightarrow> (\<exists>b. buff_ok b \<and> 4 \<le> dataLen b \<and> dataLen b \<le> 65539
     \<and> DTAP_ParseFrame (hdr_frameType (buff_data b ! 1)) b zero_frame = Some (DTAP_SUCCESS, fr))"

lemma frame_parsedD:
  assumes "frame_parsed fr"
  obtains b where "buff_ok b" "4 \<le> dataLen b" "frame_at fr b" "getFrameType (f_ctx fr) = hdr_frameType (buff_data b ! 1)" "frame_tiles fr b"
    "ack_ok fr" "f_ctx fr = AckFrameCtx \<longrightarrow> seq_ok (ack_reqSeq fr)"
proof -
  obtain b where b: "buff_ok b" "4 \<le> dataLen b" "dataLen b \<le> 65539" "DTAP_ParseFrame (hdr_frameType (buff_data b ! 1)) b zero_frame = Some (DTAP_SUCCESS, fr)"
    using assms by (auto simp: frame_parsed_def)
  have "frame_at fr b" "getFrameType (f_ctx fr) = hdr_frameType (buff_data b ! 1)" "frame_tiles fr b"
    using DTAP_ParseFrame_safe [OF b(1-3), of "hdr_frameType (buff_data b ! 1)"] b(4) by auto
  then show thesis using that b(1,2) parse_seq_ok [OF b(4,1-3)] by blast
qed

locale receiving_mode = trans_mode +
  fixes admits :: "DTAP_Frame \<Rightarrow> bool"
    and check :: "channel \<Rightarrow> DTAP_Frame \<Rightarrow> bool option"
    and recv :: "dtap_env \<Rightarrow> nat \<Rightarrow> channel \<Rightarrow> DTAP_Frame \<Rightarrow> nat option \<Rightarrow> dtap \<Rightarrow> (DTAP_errno \<times> dtap) option"
  assumes check_total: "I (attr c) \<Longrightarrow> frame_parsed fr \<Longrightarrow> check c fr \<noteq> None"
    and recv_ok: "port_ok a d \<Longrightarrow> chan_heap (dp d) a = Some c \<Longrightarrow> I (attr c) \<Longrightarrow> frame_parsed fr \<Longrightarrow> admits fr \<Longrightarrow> check c fr = Some True \<Longrightarrow>
      \<exists>ret d'. recv e a c fr cb d = Some (ret, d') \<and> kept a I d d'"
begin

text \<open>The check and the receive function as the module calls them.\<close>

lemma check_recv:
  assumes "port_ok a d" "chan_heap (dp d) a = Some c" "I (attr c)" "frame_parsed fr" "admits fr"
  shows "\<exists>ok. check c fr = Some ok \<and> (ok \<longrightarrow> (\<exists>ret d'. recv e a c fr cb d = Some (ret, d') \<and> kept a I d d'))"
  using check_total [OF assms(3,4)] recv_ok [OF assms] by auto

end

lemma header_type: "frame_at fr b \<Longrightarrow> 4 \<le> dataLen b \<Longrightarrow> f_header fr = Some (SDF_DataOffset b) \<and> f_buff fr = Some b \<and> read_u8 [b] (SDF_DataOffset b) 1 = Some (buff_data b ! 1)"
  by (simp add: frame_at_def read_u8_data)

interpretation basic_recv: receiving_mode basic_inv "sendFrame g_dtapBasicTransMode" "\<lambda>_. True" "checkFrame g_dtapBasicTransMode" "recvFrame g_dtapBasicTransMode"
proof
  fix c :: channel and fr assume "frame_parsed fr"
  then obtain b where "frame_at fr b" "4 \<le> dataLen b" by (rule frame_parsedD)
  then show "checkFrame g_dtapBasicTransMode c fr \<noteq> None" using header_type [of fr b] by (simp add: DTAP_CheckBasicFrame_def)
next
  fix a d c fr cb and e :: dtap_env assume p: "port_ok a d" "chan_heap (dp d) a = Some c" "basic_inv (attr c)"
  obtain x where x: "as_basic (attr c) = Some x" using p(3) by (auto simp: basic_inv_def)
  obtain ret x' d' where r: "DTAP_RecvBasicFrame e c fr cb x d = (ret, x', d')" by (metis prod_cases3)
  have "dp d' = dp d" "module_globals d' = module_globals d"
    using r by (auto simp: DTAP_RecvBasicFrame_def Let_def split: option.splits if_splits prod.splits)
  then have "kept a basic_inv d (store_attr a (BasicAttr x') d')" using p(1) by (intro kept_store) (auto simp: port_ok_def basic_inv_def)
  then show "\<exists>ret d'. recvFrame g_dtapBasicTransMode e a c fr cb d = Some (ret, d') \<and> kept a basic_inv d d'" using x r by simp
qed

lemma stream_timer_keeps: "StartReorderTimer e c st d = (st', d') \<Longrightarrow> dp d' = dp d \<and> module_globals d' = module_globals d"
  by (auto simp: StartReorderTimer_def Let_def split: if_splits option.splits prod.splits)

lemma buff_check_total:
  assumes "buff_ok b" "2 \<le> dataLen b"
  shows "\<exists>ret b'. BuffCheck fr crc b = Some (ret, b')"
proof -
  have "mem_read b (dataOff b + dataLen b - 2) 2 \<noteq> None" using assms by (auto simp: mem_read_def buff_ok_def)
  then show ?thesis using assms(2) by (auto simp: BuffCheck_def split: option.splits simp del: SDF_BuffTrimPrefix.simps SDF_BuffTrimSuffix.simps)
qed

lemma recv_stream_total:
  assumes fr: "frame_at fr b" "7 \<le> dataLen b"
  shows "\<exists>ret st' d'. DTAP_RecvStreamFrame e c fr cb st d = Some (ret, st', d') \<and> dp d' = dp d \<and> module_globals d' = module_globals d"
proof -
  have r: "\<exists>w. read_header_u16 fr 5 = Some w" using read_header_u16_Some [OF fr(1), of 5] fr(2) by simp
  obtain w where w: "read_header_u16 fr 5 = Some w" using r by blast
  have fb: "f_buff fr = Some b" "buff_ok b" using fr(1) by (simp_all add: frame_at_def)
  obtain ret b' where bc: "BuffCheck fr (st_crcInit st) b = Some (ret, b')" using buff_check_total [OF fb(2)] fr(2) by fastforce
  have "DTAP_RecvStreamFrame e c fr cb st d \<noteq> None"
    using w fb bc by (auto simp: DTAP_RecvStreamFrame_def Let_def split: option.splits prod.splits)
  then obtain ret st' d' where x: "DTAP_RecvStreamFrame e c fr cb st d = Some (ret, st', d')" by auto
  then have "dp d' = dp d \<and> module_globals d' = module_globals d"
    using w fb bc by (auto simp: DTAP_RecvStreamFrame_def Let_def split: option.splits prod.splits if_splits dest!: stream_timer_keeps)
  then show ?thesis using x by blast
qed

interpretation stream_recv: receiving_mode stream_inv "sendFrame g_dtapStreamTransMode" "\<lambda>_. True" "checkFrame g_dtapStreamTransMode" "recvFrame g_dtapStreamTransMode"
proof
  fix c :: channel and fr assume "frame_parsed fr"
  then obtain b where "frame_at fr b" "4 \<le> dataLen b" by (rule frame_parsedD)
  then show "checkFrame g_dtapStreamTransMode c fr \<noteq> None" using header_type [of fr b] by (simp add: DTAP_CheckStreamFrame_def)
next
  fix a d c fr cb and e :: dtap_env assume p: "port_ok a d" "chan_heap (dp d) a = Some c" "stream_inv (attr c)" "frame_parsed fr" "checkFrame g_dtapStreamTransMode c fr = Some True"
  obtain x where x: "as_stream (attr c) = Some x" using p(3) by (auto simp: stream_inv_def)
  obtain b where b: "4 \<le> dataLen b" "frame_at fr b" "getFrameType (f_ctx fr) = hdr_frameType (buff_data b ! 1)" "frame_tiles fr b" using p(4) by (rule frame_parsedD)
  have "f_ctx fr = SimplexFragFrameCtx \<or> f_ctx fr = SimplexAggrFrameCtx"
    using p(5) b(3) header_type [OF b(2,1)] by (cases "f_ctx fr") (auto simp: DTAP_CheckStreamFrame_def)
  then have "7 \<le> dataLen b" using b(4) by (auto simp: frame_tiles_def)
  then obtain ret x' d' where r: "DTAP_RecvStreamFrame e c fr cb x d = Some (ret, x', d')" "dp d' = dp d" "module_globals d' = module_globals d"
    using recv_stream_total [OF b(2)] by blast
  then have "kept a stream_inv d (store_attr a (StreamAttr x') d')" using p(1) by (intro kept_store) (auto simp: port_ok_def stream_inv_def)
  then show "\<exists>ret d'. recvFrame g_dtapStreamTransMode e a c fr cb d = Some (ret, d') \<and> kept a stream_inv d d'" using x r(1) by simp
qed

definition not_aggregate :: "DTAP_Frame \<Rightarrow> bool" where
  "not_aggregate fr \<longleftrightarrow> getFrameType (f_ctx fr) \<noteq> DTAP_FRAME_SIMPLEX_AGGR \<and> getFrameType (f_ctx fr) \<noteq> DTAP_FRAME_DUPLEX_AGGR"

interpretation reliable_recv: receiving_mode reliable_inv "sendFrame g_dtapReliableTransMode" not_aggregate "checkFrame g_dtapReliableTransMode" "recvFrame g_dtapReliableTransMode"
proof
  fix c :: channel and fr assume p: "reliable_inv (attr c)" "frame_parsed fr"
  obtain b where "frame_at fr b" using p(2) by (rule frame_parsedD)
  then show "checkFrame g_dtapReliableTransMode c fr \<noteq> None" using p(1)
    by (auto simp: reliable_inv_def DTAP_CheckEnhanceFrame_def Let_def frame_at_def)
next
  fix a d c fr cb and e :: dtap_env assume p: "port_ok a d" "chan_heap (dp d) a = Some c" "reliable_inv (attr c)" "frame_parsed fr" "not_aggregate fr"
  obtain x where x: "as_reliable (attr c) = Some x" "tx_ok x" "cache_ok x" "rx_frames_ok x" using p(3) by (auto simp: reliable_inv_def)
  obtain b where b: "buff_ok b" "frame_at fr b" "ack_ok fr" "f_ctx fr = AckFrameCtx \<longrightarrow> seq_ok (ack_reqSeq fr)" using p(4) by (rule frame_parsedD)
  have s: "rel_safe a (x, d)" using x p(1) by (simp add: rel_safe_def)
  have "queued_ok fr" using p(5) b(1,2) by (auto simp: queued_ok_def not_aggregate_def frame_at_def)
  from recv_enhance_safe [OF s this b(3), of e c cb] b(4) obtain ret x' d' where
    r: "DTAP_RecvEnhanceFrame e a c fr cb x d = Some (ret, x', d')" "rel_safe a (x', d')" "data_chans (dp d') = data_chans (dp d)" by blast
  have "kept a reliable_inv d (store_attr a (ReliableAttr x') d')"
    using r(2,3) globals_recv_enhance [OF r(1)] by (intro kept_store) (auto simp: rel_safe_def port_ok_def reliable_inv_def)
  then show "\<exists>ret d'. recvFrame g_dtapReliableTransMode e a c fr cb d = Some (ret, d') \<and> kept a reliable_inv d d'" using x(1) r(1) by simp
qed

end
