(* ===== verification/Dtap_Channel.thy ===== *)
theory Dtap_Channel
  imports Dtap_Mode
begin

text \<open>
  Channels and logical links (\<open>dtap_channel.c\<close>): creation and destruction of channels, their lists per link in
  the map of links, and what happens when the connection management reports changed channels or links.
  Freeing a channel removes it from the heap, so that a pointer left behind dangles; the timers stopped and
  the lists freed with it are not visible elsewhere.
\<close>

section \<open>Parameters\<close>

text \<open>
  The reliable and the stream parameters share their storage (a union): the first two fields coincide, the
  third is the retransmission timeout of one and the flush timeout of the other.
\<close>

record CM_TransModeConfig =
  transMode :: nat
  cfg_mtu :: nat
  cfg_mps :: nat
  cfg_reorderTimeout :: nat
  cfg_crcInit :: u16
  cfg_thirdTimeout :: nat
  cfg_rspTimeout :: nat
  cfg_txWindow :: nat
  cfg_maxTxThreshold :: nat

record CM_TransChan =
  tp_castMode :: nat
  tp_lcid :: u16
  tp_srcTcid :: u8
  tp_dstTcid :: u8
  config :: CM_TransModeConfig

abbreviation (input) CM_TCID_SLE_CMTC :: u8 where "CM_TCID_SLE_CMTC \<equiv> 0x02"
abbreviation (input) CM_TCID_SLE_SMTC :: u8 where "CM_TCID_SLE_SMTC \<equiv> 0x0A"
abbreviation (input) CM_TCID_SLE_CUTC :: u8 where "CM_TCID_SLE_CUTC \<equiv> 0x1F"
abbreviation (input) CM_CAP_WND :: nat where "CM_CAP_WND \<equiv> 200"
abbreviation (input) DTAP_STREAM_FLUSH_TIMEOUT :: nat where "DTAP_STREAM_FLUSH_TIMEOUT \<equiv> 1000"
abbreviation (input) DTAP_STREAM_REORDER_TIMEOUT :: nat where "DTAP_STREAM_REORDER_TIMEOUT \<equiv> 1000"
abbreviation (input) DTAP_RELIABLE_REORDER_TIMEOUT :: nat where "DTAP_RELIABLE_REORDER_TIMEOUT \<equiv> 10000"
abbreviation (input) DTAP_RELIABLE_RETRANS_TIMEOUT :: nat where "DTAP_RELIABLE_RETRANS_TIMEOUT \<equiv> 1000"
abbreviation (input) DTAP_RELIABLE_RSP_TIMEOUT :: nat where "DTAP_RELIABLE_RSP_TIMEOUT \<equiv> 1000"
abbreviation (input) CM_TRANS_CHANNEL_STATE_ACTIVATED :: nat where "CM_TRANS_CHANNEL_STATE_ACTIVATED \<equiv> 2"
abbreviation (input) CM_TRANS_CHANNEL_STATE_RELEASED :: nat where "CM_TRANS_CHANNEL_STATE_RELEASED \<equiv> 4"
abbreviation (input) CM_LINK_STATE_CONNECTED :: nat where "CM_LINK_STATE_CONNECTED \<equiv> 0"

section \<open>Lookup\<close>

definition DTAP_LogicLinkFind :: "u16 \<Rightarrow> dtap \<Rightarrow> nat list option" where
  "DTAP_LogicLinkFind l d = (case g_dtapLogicLinksMap d of None \<Rightarrow> None | Some m \<Rightarrow> SDF_MapFind m l)"

definition DTAP_ChannelFind :: "dtap \<Rightarrow> nat list \<Rightarrow> u8 \<Rightarrow> nat option option" where
  "DTAP_ChannelFind d as tcid = find_chan (chan_heap (dp d)) (\<lambda>c. mode c = CM_TRANS_MODE_TRANSPARENT \<or> srcTcid c = tcid) as"

definition DTAP_ChannelSearch :: "u16 \<Rightarrow> u8 \<Rightarrow> dtap \<Rightarrow> nat option option" where
  "DTAP_ChannelSearch l tcid d = (case DTAP_LogicLinkFind l d of None \<Rightarrow> Some None | Some as \<Rightarrow> DTAP_ChannelFind d as tcid)"

section \<open>Creation\<close>

definition DTAP_BasicChannelCreate :: "'r env \<Rightarrow> u8 \<Rightarrow> DTAP_Basic_Channel option" where
  "DTAP_BasicChannelCreate e tcid =
     (case SDF_MemZalloc e of None \<Rightarrow> None | Some _ \<Rightarrow> Some \<lparr>isReady = (tcid \<noteq> CM_TCID_SLE_SMTC), cacheRxBuffs = []\<rparr>)"

definition DTAP_InitTxWindow :: "nat \<Rightarrow> DTAP_TxWindow" where
  "DTAP_InitTxWindow n = \<lparr>tw_size = n, nextTxSeq = 0, expectedAckSeq = 0, txList = []\<rparr>"

definition DTAP_InitRxWindow :: "nat \<Rightarrow> DTAP_RxWindow" where
  "DTAP_InitRxWindow n = \<lparr>rw_size = n, bufferSeq = 0, expectedTxSeq = 0, maxExpectedTxSeq = 0, rxList = []\<rparr>"

definition DTAP_StreamChannelCreate :: "'r env \<Rightarrow> CM_TransModeConfig \<Rightarrow> DTAP_Stream_Channel option" where
  "DTAP_StreamChannelCreate e cfg =
     (case SDF_MemZalloc e of
        None \<Rightarrow> None
      | Some _ \<Rightarrow> Some \<lparr>
          st_flushTimeout = (if cfg_thirdTimeout cfg = 0 \<or> cfg_thirdTimeout cfg > DTAP_STREAM_FLUSH_TIMEOUT
                             then DTAP_STREAM_FLUSH_TIMEOUT else cfg_thirdTimeout cfg),
          st_reorderTimeout = (if cfg_reorderTimeout cfg = 0 \<or> cfg_reorderTimeout cfg > DTAP_STREAM_REORDER_TIMEOUT
                               then DTAP_STREAM_REORDER_TIMEOUT else cfg_reorderTimeout cfg),
          st_crcInit = cfg_crcInit cfg, reorderTxSeq = 0, expectedSeq = DTAP_FRAME_SEQ_INIT, maxExpectedSeq = DTAP_FRAME_SEQ_INIT,
          frameTxSeq = 0, reorderTimerHandle = INVALID_TIMER_HANDLE, st_rxList = [], st_recvCb = None\<rparr>)"

definition SetChannelCastMode :: "nat \<Rightarrow> nat" where
  "SetChannelCastMode cast =
     (if cast = 0 then DTAP_FRAME_UNICAST
      else if cast = 1 \<or> cast = 2 \<or> cast = 3 then DTAP_FRAME_MULTICAST
      else if cast = 4 \<or> cast = 5 then DTAP_FRAME_BROADCAST
      else DTAP_FRAME_UNICAST)"

text \<open>The response timer starts at once; without it there is no channel.\<close>

definition DTAP_ReliableChannelCreate :: "'r env \<Rightarrow> channel \<Rightarrow> CM_TransModeConfig \<Rightarrow> dtap \<Rightarrow> DTAP_ReliableChannel option \<times> dtap" where
  "DTAP_ReliableChannelCreate e c cfg d =
     (case SDF_MemZalloc (sub e 0) of
        None \<Rightarrow> (None, d)
      | Some _ \<Rightarrow>
          let rsp = (if cfg_rspTimeout cfg = 0 then DTAP_RELIABLE_RSP_TIMEOUT else cfg_rspTimeout cfg);
              window = (if cfg_txWindow cfg = 0 then CM_CAP_WND else cfg_txWindow cfg)
          in case DTAP_TransStartTimer (sub e 1) RspTimer c rsp INVALID_TIMER_HANDLE d of
               (ok, h, d1) \<Rightarrow>
                 if \<not> ok then (None, d1)
                 else (Some \<lparr>
                   rc_reorderTimeout = (if cfg_reorderTimeout cfg = 0 then DTAP_RELIABLE_REORDER_TIMEOUT else cfg_reorderTimeout cfg),
                   rc_crcInit = cfg_crcInit cfg,
                   rc_retransTimeout = (if cfg_thirdTimeout cfg = 0 then DTAP_RELIABLE_RETRANS_TIMEOUT else cfg_thirdTimeout cfg),
                   rc_rspTimeout = rsp, maxTxThreshold = cfg_maxTxThreshold cfg,
                   reorderTimer = INVALID_TIMER_HANDLE, retransTimer = INVALID_TIMER_HANDLE, rspTimer = h,
                   isRecvFrame = False, isRxWindowFull = False, reTxSeq = 0, txWindow = DTAP_InitTxWindow window, nackCnt = 0,
                   rxWindow = DTAP_InitRxWindow window, frags = None, cachePi = 0, cacheBuff = None, sendPollingCounter = 0,
                   isTxWindowFull = False, isDestroyMsgSent = False\<rparr>, d1))"

definition channel_priority :: "u8 \<Rightarrow> nat" where
  "channel_priority tcid =
     (if tcid = CM_TCID_SLE_CMTC then DTAP_PRIORITY_CMD
      else if tcid \<le> CM_TCID_SLE_CUTC then DTAP_PRIORITY_HIGH
      else DTAP_PRIORITY_NORMAL)"

text \<open>The channel without its attributes.\<close>

definition new_channel :: "CM_TransChan \<Rightarrow> channel" where
  "new_channel p = \<lparr>pktList = [], priority = channel_priority (tp_srcTcid p), ch_type = 0, lcid = tp_lcid p, srcTcid = tp_srcTcid p,
     dstTcid = tp_dstTcid p, mode = transMode (config p), mtu = cfg_mtu (config p), mps = cfg_mps (config p),
     castMode = SetChannelCastMode (tp_castMode p), attr = None\<rparr>"

text \<open>The attributes by mode: \<open>Some None\<close> where the mode has none, \<open>None\<close> when they cannot be created.\<close>

definition create_attr :: "'r env \<Rightarrow> CM_TransChan \<Rightarrow> dtap \<Rightarrow> trans_attr option option \<times> dtap" where
  "create_attr e p d =
     (let m = transMode (config p) in
      if m = CM_TRANS_MODE_STREAM then (map_option (\<lambda>x. Some (StreamAttr x)) (DTAP_StreamChannelCreate e (config p)), d)
      else if m = CM_TRANS_MODE_RELIABLE then
        (case DTAP_ReliableChannelCreate e (new_channel p) (config p) d of (r, d1) \<Rightarrow> (map_option (\<lambda>x. Some (ReliableAttr x)) r, d1))
      else if m = CM_TRANS_MODE_BASIC then (map_option (\<lambda>x. Some (BasicAttr x)) (DTAP_BasicChannelCreate e (tp_srcTcid p)), d)
      else (Some None, d))"

definition DTAP_ChannelCreate :: "'r env \<Rightarrow> CM_TransChan \<Rightarrow> dtap \<Rightarrow> nat option \<times> dtap" where
  "DTAP_ChannelCreate e p d =
     (case SDF_MemZalloc (sub e 0) of
        None \<Rightarrow> (None, d)
      | Some _ \<Rightarrow>
          (case create_attr (sub e 1) p d of
             (None, d1) \<Rightarrow> (None, d1)
           | (Some x, d1) \<Rightarrow> (Some (chan_next (dp d1)),
               d1\<lparr>dp := (dp d1)\<lparr>chan_heap := (chan_heap (dp d1))(chan_next (dp d1) \<mapsto> (new_channel p)\<lparr>attr := x\<rparr>),
                                 chan_next := chan_next (dp d1) + 1\<rparr>\<rparr>)))"

definition DTAP_ChannelDestroy :: "nat \<Rightarrow> dtap \<Rightarrow> dtap" where
  "DTAP_ChannelDestroy a d = d\<lparr>dp := (dp d)\<lparr>chan_heap := (chan_heap (dp d))(a := None)\<rparr>\<rparr>"

section \<open>Adding and deleting\<close>

text \<open>
  Stores through the link node, and its removal from the map once its list is empty (the destructor of the
  node then has no channels to free).
\<close>

definition set_link :: "u16 \<Rightarrow> nat list \<Rightarrow> dtap \<Rightarrow> dtap" where
  "set_link l as d = d\<lparr>g_dtapLogicLinksMap := map_option (map_store l as) (g_dtapLogicLinksMap d)\<rparr>"

definition erase_link :: "u16 \<Rightarrow> dtap \<Rightarrow> dtap" where
  "erase_link l d = d\<lparr>g_dtapLogicLinksMap := map_option (\<lambda>m. snd (SDF_MapErase m l)) (g_dtapLogicLinksMap d)\<rparr>"

definition close_link :: "u16 \<Rightarrow> nat list \<Rightarrow> dtap \<Rightarrow> dtap" where
  "close_link l as d = (if as = [] then erase_link l d else set_link l as d)"

definition add_to_link :: "'r env \<Rightarrow> CM_TransChan \<Rightarrow> nat list \<Rightarrow> dtap \<Rightarrow> dtap option" where
  "add_to_link e p as d = do {
     old \<leftarrow> DTAP_ChannelFind d as (tp_srcTcid p);
     let (as1, d1) = (case old of None \<Rightarrow> (as, d) | Some a \<Rightarrow> (remove1 a as, DTAP_ChannelDestroy a d));
     (case DTAP_ChannelCreate e p d1 of
        (None, d2) \<Rightarrow> Some (close_link (tp_lcid p) as1 d2)
      | (Some a, d2) \<Rightarrow> Some (set_link (tp_lcid p) (a # as1) d2))
   }"

definition DTAP_ChannelAdd :: "'r env \<Rightarrow> CM_TransChan \<Rightarrow> dtap \<Rightarrow> dtap option" where
  "DTAP_ChannelAdd e p d =
     (case DTAP_LogicLinkFind (tp_lcid p) d of
        Some as \<Rightarrow> add_to_link (sub e 2) p as d
      | None \<Rightarrow>
          (case (SDF_MemZalloc (sub e 0), g_dtapLogicLinksMap d) of
             (Some _, Some m) \<Rightarrow>
               (case SDF_MapMoveInsert (sub e 1) m (tp_lcid p) [] of
                  (False, m') \<Rightarrow> Some d
                | (True, m') \<Rightarrow> add_to_link (sub e 2) p [] (d\<lparr>g_dtapLogicLinksMap := Some m'\<rparr>))
           | _ \<Rightarrow> Some d))"

definition DTAP_ChannelDel :: "CM_TransChan \<Rightarrow> dtap \<Rightarrow> dtap option" where
  "DTAP_ChannelDel p d =
     (case DTAP_LogicLinkFind (tp_lcid p) d of
        None \<Rightarrow> Some d
      | Some as \<Rightarrow> do {
          found \<leftarrow> DTAP_ChannelFind d as (tp_srcTcid p);
          (case found of
             None \<Rightarrow> Some d
           | Some a \<Rightarrow> do {
               s \<leftarrow> DTAP_ChannelDown (tp_lcid p) (tp_srcTcid p) (dp d);
               Some (close_link (tp_lcid p) (remove1 a as) (DTAP_ChannelDestroy a (d\<lparr>dp := s\<rparr>)))
             })
        })"

section \<open>Reports of the connection management\<close>

text \<open>The vector may hold NULL pointers, which are skipped.\<close>

fun DTAP_ChannelsOperate :: "'r env \<Rightarrow> nat \<Rightarrow> ('r env \<Rightarrow> CM_TransChan \<Rightarrow> dtap \<Rightarrow> dtap option) \<Rightarrow> CM_TransChan option list \<Rightarrow> dtap \<Rightarrow> dtap option" where
  "DTAP_ChannelsOperate e k f [] d = Some d"
| "DTAP_ChannelsOperate e k f (None # ps) d = DTAP_ChannelsOperate e (Suc k) f ps d"
| "DTAP_ChannelsOperate e k f (Some p # ps) d = do { d' \<leftarrow> f (sub e k) p d; DTAP_ChannelsOperate e (Suc k) f ps d' }"

definition DTAP_ChannelStateChangeCbk :: "'r env \<Rightarrow> (nat \<times> CM_TransChan option list option) option \<Rightarrow> dtap \<Rightarrow> dtap option" where
  "DTAP_ChannelStateChangeCbk e param d =
     (case param of
        Some (result, Some ps) \<Rightarrow>
          if result = CM_TRANS_CHANNEL_STATE_ACTIVATED then DTAP_ChannelsOperate e 0 DTAP_ChannelAdd ps d
          else if result = CM_TRANS_CHANNEL_STATE_RELEASED then DTAP_ChannelsOperate e 0 (\<lambda>_. DTAP_ChannelDel) ps d
          else Some d
      | _ \<Rightarrow> Some d)"

text \<open>The loop over the channels of a link that came up.\<close>

fun continue_basic :: "dtap_env \<Rightarrow> nat \<Rightarrow> nat list \<Rightarrow> dtap \<Rightarrow> dtap option" where
  "continue_basic e k [] d = Some d"
| "continue_basic e k (a # as) d = do {
     c \<leftarrow> chan_heap (dp d) a;
     if mode c = CM_TRANS_MODE_BASIC then do {
       basic \<leftarrow> as_basic (attr c);
       (case DTAP_RecvBasicFrameContinue (sub e k) basic d of
          (basic', d') \<Rightarrow> continue_basic e (Suc k) as (store_attr a (BasicAttr basic') d'))
     }
     else continue_basic e (Suc k) as d
   }"

definition DTAP_LogicLinkStateChangeCbk :: "dtap_env \<Rightarrow> (nat \<times> u16) option \<Rightarrow> dtap \<Rightarrow> dtap option" where
  "DTAP_LogicLinkStateChangeCbk e param d =
     (case param of
        None \<Rightarrow> Some d
      | Some (result, l) \<Rightarrow>
          if result \<noteq> CM_LINK_STATE_CONNECTED then Some d
          else (case DTAP_LogicLinkFind l d of None \<Rightarrow> Some d | Some as \<Rightarrow> continue_basic e 0 as d))"

text \<open>The task of the stream reorder timer, which finds its channel by link and identifier.\<close>

definition DTAP_ReorderStreamFrameTask :: "dtap_env \<Rightarrow> u16 \<Rightarrow> u8 \<Rightarrow> dtap \<Rightarrow> dtap option" where
  "DTAP_ReorderStreamFrameTask e l tcid d = do {
     found \<leftarrow> DTAP_ChannelSearch l tcid d;
     (case found of
        None \<Rightarrow> Some d
      | Some a \<Rightarrow> do {
          c \<leftarrow> chan_heap (dp d) a;
          if mode c \<noteq> CM_TRANS_MODE_STREAM then Some d
          else do {
            st \<leftarrow> as_stream (attr c);
            (st', d') \<leftarrow> reorder_stream e c st d;
            Some (store_attr a (StreamAttr st') d')
          }
        })
   }"

end
