(* ===== verification/Dtap_Module.thy ===== *)
theory Dtap_Module
  imports Dtap_Channel
begin

text \<open>
  The interface of the DTAP module (\<open>dtap.c\<close>): the tables of receive callbacks, receiving from the data
  link, sending, and starting and stopping the module. Answers of the control plane to registrations are
  arguments.
\<close>

abbreviation (input) DTAP_PI_MAX :: nat where "DTAP_PI_MAX \<equiv> 7"
abbreviation (input) DTAP_MAX_PAYLOAD_LEN :: nat where "DTAP_MAX_PAYLOAD_LEN \<equiv> 32768"

section \<open>Callback tables\<close>

definition DTAP_GetProtoRecvCbk :: "u8 \<Rightarrow> dtap \<Rightarrow> nat option" where
  "DTAP_GetProtoRecvCbk pi d = (if unat pi < DTAP_PI_MAX then g_dtapProtoRecvCbks d ! unat pi else None)"

definition DTAP_RegisterDataSendCbks :: "nat option option \<Rightarrow> dtap \<Rightarrow> dtap" where
  "DTAP_RegisterDataSendCbks cbks d = (case cbks of Some (Some cb) \<Rightarrow> d\<lparr>g_dtapDataSendCbks := Some cb\<rparr> | _ \<Rightarrow> d)"

definition DTAP_UnRegisterDataSendCbks :: "dtap \<Rightarrow> dtap" where
  "DTAP_UnRegisterDataSendCbks d = d\<lparr>g_dtapDataSendCbks := None\<rparr>"

definition DTAP_RegisterProtoRecvCbk :: "u8 \<Rightarrow> nat option \<Rightarrow> dtap \<Rightarrow> DTAP_errno \<times> dtap" where
  "DTAP_RegisterProtoRecvCbk pi cbk d =
     (if \<not> g_dtapIsInited d then (DTAP_MODULE_NOT_INITED_ERR, d)
      else if \<not> unat pi < DTAP_PI_MAX then (DTAP_REGISTER_RECV_CB_INVALID_PI, d)
      else if cbk = None then (DTAP_REGISTER_RECV_CB_NULL_ERR, d)
      else (DTAP_SUCCESS, d\<lparr>g_dtapProtoRecvCbks := (g_dtapProtoRecvCbks d)[unat pi := cbk]\<rparr>))"

definition DTAP_UnregisterProtoRecvCbk :: "u8 \<Rightarrow> dtap \<Rightarrow> DTAP_errno \<times> dtap" where
  "DTAP_UnregisterProtoRecvCbk pi d =
     (if \<not> g_dtapIsInited d then (DTAP_MODULE_NOT_INITED_ERR, d)
      else if \<not> unat pi < DTAP_PI_MAX then (DTAP_REGISTER_RECV_CB_INVALID_PI, d)
      else if g_dtapProtoRecvCbks d ! unat pi = None then (DTAP_REGISTER_RECV_CB_INVALID_PI, d)
      else (DTAP_SUCCESS, d\<lparr>g_dtapProtoRecvCbks := (g_dtapProtoRecvCbks d)[unat pi := None]\<rparr>))"

definition DTAP_ClearDataRecvCbks :: "dtap \<Rightarrow> dtap" where
  "DTAP_ClearDataRecvCbks d = d\<lparr>g_dtapRecvCbks := []\<rparr>"

fun recv_cbk_of :: "u8 \<Rightarrow> (u8 \<times> nat) list \<Rightarrow> nat option" where
  "recv_cbk_of tcid [] = None"
| "recv_cbk_of tcid ((t, cb) # cbs) = (if t = tcid then Some cb else recv_cbk_of tcid cbs)"

definition DTAP_GetDataRecvCbkByTcid :: "u8 \<Rightarrow> dtap \<Rightarrow> nat option" where
  "DTAP_GetDataRecvCbkByTcid tcid d = recv_cbk_of tcid (g_dtapRecvCbks d)"

text \<open>The first entry of an identifier is updated in place.\<close>

fun set_recv_cbk :: "u8 \<Rightarrow> nat \<Rightarrow> (u8 \<times> nat) list \<Rightarrow> (u8 \<times> nat) list option" where
  "set_recv_cbk tcid cb [] = None"
| "set_recv_cbk tcid cb ((t, old) # cbs) = (if t = tcid then Some ((t, cb) # cbs) else map_option (Cons (t, old)) (set_recv_cbk tcid cb cbs))"

definition DTAP_AddDataRecvCbkEntry :: "'r env \<Rightarrow> u8 \<Rightarrow> nat \<Rightarrow> dtap \<Rightarrow> DTAP_errno \<times> dtap" where
  "DTAP_AddDataRecvCbkEntry e tcid cb d =
     (case set_recv_cbk tcid cb (g_dtapRecvCbks d) of
        Some cbs \<Rightarrow> (DTAP_SUCCESS, d\<lparr>g_dtapRecvCbks := cbs\<rparr>)
      | None \<Rightarrow> (case SDF_MemZalloc e of
          None \<Rightarrow> (DTAP_REGISTER_RECV_CB_ALLOC_ERR, d)
        | Some _ \<Rightarrow> (DTAP_SUCCESS, d\<lparr>g_dtapRecvCbks := (tcid, cb) # g_dtapRecvCbks d\<rparr>)))"

fun del_recv_cbk :: "u8 \<Rightarrow> (u8 \<times> nat) list \<Rightarrow> (u8 \<times> nat) list option" where
  "del_recv_cbk tcid [] = None"
| "del_recv_cbk tcid ((t, cb) # cbs) = (if t = tcid then Some cbs else map_option (Cons (t, cb)) (del_recv_cbk tcid cbs))"

definition DTAP_DelDataRecvCbkEntry :: "u8 \<Rightarrow> dtap \<Rightarrow> DTAP_errno \<times> dtap" where
  "DTAP_DelDataRecvCbkEntry tcid d =
     (case del_recv_cbk tcid (g_dtapRecvCbks d) of
        Some cbs \<Rightarrow> (DTAP_SUCCESS, d\<lparr>g_dtapRecvCbks := cbs\<rparr>)
      | None \<Rightarrow> (DTAP_UNREGISTER_RECV_CB_TCID_NOT_EXIST, d))"

definition DTAP_RegisterDataRecvCb :: "'r env \<Rightarrow> u8 \<Rightarrow> nat option \<Rightarrow> dtap \<Rightarrow> DTAP_errno \<times> dtap" where
  "DTAP_RegisterDataRecvCb e tcid cb d =
     (if \<not> g_dtapIsInited d then (DTAP_MODULE_NOT_INITED_ERR, d)
      else (case cb of None \<Rightarrow> (DTAP_REGISTER_RECV_CB_NULL_ERR, d) | Some f \<Rightarrow> DTAP_AddDataRecvCbkEntry e tcid f d))"

definition DTAP_UnregisterDataRecvCb :: "u8 \<Rightarrow> dtap \<Rightarrow> DTAP_errno \<times> dtap" where
  "DTAP_UnregisterDataRecvCb tcid d =
     (if \<not> g_dtapIsInited d then (DTAP_MODULE_NOT_INITED_ERR, d) else DTAP_DelDataRecvCbkEntry tcid d)"

section \<open>Receiving\<close>

definition DTAP_DataRecvFrame :: "dtap_env \<Rightarrow> nat \<Rightarrow> channel \<Rightarrow> DTAP_TransMode \<Rightarrow> SDF_Buff \<Rightarrow> nat option \<Rightarrow> dtap \<Rightarrow> dtap option" where
  "DTAP_DataRecvFrame e a c m b recvCb d =
     (if dataLen b < DTAP_BASIC_HEADER_LEN then Some d
      else do {
        w \<leftarrow> read_u16 [b] (SDF_DataOffset b) 2;
        if dataLen b \<noteq> unat w + DTAP_BASIC_HEADER_LEN then Some d
        else do {
          t \<leftarrow> read_u8 [b] (SDF_DataOffset b) 1;
          (ret, fr) \<leftarrow> DTAP_ParseFrame (hdr_frameType t) b zero_frame;
          if ret \<noteq> DTAP_SUCCESS then Some d
          else if payloadLen fr > mps c then Some d
          else do {
            hdrOk \<leftarrow> checkFrameHeader (f_ctx fr) fr;
            if \<not> hdrOk then Some d
            else do {
              ok \<leftarrow> checkFrame m c fr;
              if \<not> ok then Some d
              else do {
                let cb = (if recvCb \<noteq> None then recvCb else DTAP_GetProtoRecvCbk (f_pi fr) d);
                (ret, d') \<leftarrow> recvFrame m e a c fr cb d;
                Some d'
              }
            }
          }
        }
      })"

definition DTAP_DataRecv :: "dtap_env \<Rightarrow> u16 \<Rightarrow> SDF_Buff option \<Rightarrow> dtap \<Rightarrow> dtap option" where
  "DTAP_DataRecv e l buf d =
     (case buf of
        None \<Rightarrow> Some d
      | Some b \<Rightarrow>
          if dataLen b = 0 then Some d
          else do {
            tcid \<leftarrow> read_u8 [b] (SDF_DataOffset b) 0;
            found \<leftarrow> DTAP_ChannelSearch l tcid d;
            (case found of
               None \<Rightarrow> Some d
             | Some a \<Rightarrow> do {
                 c \<leftarrow> chan_heap (dp d) a;
                 (case DTAP_GetTransMode (mode c) of
                    None \<Rightarrow> Some d
                  | Some m \<Rightarrow>
                      let recvCb = DTAP_GetDataRecvCbkByTcid (srcTcid c) d in
                      (case transFrame m of
                         Some f \<Rightarrow> if dataLen b > mps c then Some d else Some (f e c b recvCb d)
                       | None \<Rightarrow> DTAP_DataRecvFrame e a c m b recvCb d))
               })
          })"

definition DTAP_ChannelSetStatus :: "dtap_env \<Rightarrow> u16 \<Rightarrow> u8 \<Rightarrow> DTAP_errno \<Rightarrow> dtap \<Rightarrow> dtap option" where
  "DTAP_ChannelSetStatus e l tcid result d = do {
     found \<leftarrow> DTAP_ChannelSearch l tcid d;
     (case found of
        None \<Rightarrow> Some d
      | Some a \<Rightarrow> do {
          c \<leftarrow> chan_heap (dp d) a;
          (case DTAP_GetTransMode (mode c) of
             None \<Rightarrow> Some d
           | Some m \<Rightarrow> (case setTransChannelStatus m of
               None \<Rightarrow> Some d
             | Some f \<Rightarrow> f e a c result (DTAP_GetDataRecvCbkByTcid (srcTcid c) d) d))
        })
   }"

section \<open>Sending\<close>

record DTAP_Data =
  dt_pi :: u8
  dt_lcid :: u16
  dt_tcid :: u8
  dt_buff :: "SDF_Buff option"

definition DTAP_DataSend :: "dtap_env \<Rightarrow> DTAP_Data option \<Rightarrow> dtap \<Rightarrow> (DTAP_errno \<times> dtap) option" where
  "DTAP_DataSend e data d =
     (case data of
        None \<Rightarrow> Some (DTAP_TRANS_INVALID_DATA, d)
      | Some x \<Rightarrow> (case dt_buff x of
          None \<Rightarrow> Some (DTAP_TRANS_INVALID_DATA, d)
        | Some b \<Rightarrow>
            if dataLen b = 0 \<or> dataLen b > DTAP_MAX_PAYLOAD_LEN then Some (DTAP_TRANS_INVALID_DATA, d)
            else do {
              found \<leftarrow> DTAP_ChannelSearch (dt_lcid x) (dt_tcid x) d;
              (case found of
                 None \<Rightarrow> Some (DTAP_TRANS_FIND_CHANNEL_ERR, d)
               | Some a \<Rightarrow> do {
                   c \<leftarrow> chan_heap (dp d) a;
                   if dataLen b > mtu c then Some (DTAP_TRANS_EXCEED_MTU_ERR, d)
                   else (case DTAP_GetTransMode (mode c) of
                      None \<Rightarrow> Some (DTAP_TRANS_INVALID_MODULE_TYPE, d)
                    | Some m \<Rightarrow> sendFrame m e a c (dt_pi x) b d)
                 })
            }))"

definition DTAP_CMSignalingDataSendCbk :: "dtap_env \<Rightarrow> u8 \<Rightarrow> u8 \<Rightarrow> u16 \<Rightarrow> SDF_Buff option \<Rightarrow> dtap \<Rightarrow> (DTAP_errno \<times> dtap) option" where
  "DTAP_CMSignalingDataSendCbk e pi tcid l b d = DTAP_DataSend e (Some \<lparr>dt_pi = pi, dt_lcid = l, dt_tcid = tcid, dt_buff = b\<rparr>) d"

definition DTAP_CovertErrorCode :: "DTAP_errno \<Rightarrow> nat" where
  "DTAP_CovertErrorCode result =
     (if result = DTAP_SUCCESS then 0
      else if result = DTAP_TRANS_INVALID_DATA then 3
      else if result = DTAP_TRANS_FIND_CHANNEL_ERR then 4
      else if result = DTAP_TRANS_EXCEED_MTU_ERR then 5
      else if result = DTAP_TRANS_RELIABLE_TX_WINDOW_FULL then 6
      else 1)"

section \<open>Start and stop\<close>

text \<open>
  The answers of the control plane during initialisation: the map constructor (an allocation), the blocking
  post of the scheduler's initialisation, and the error codes (0 for success) of the registrations.
\<close>

record cm_answers =
  ca_map :: bool
  ca_post :: bool
  ca_signaling :: u32
  ca_channelReg :: u32
  ca_linkReg :: u32

datatype init_ret = DtapRet DTAP_errno | CmRet u32

definition DTAP_LogicLinkMapInit :: "cm_answers \<Rightarrow> dtap \<Rightarrow> DTAP_errno \<times> dtap" where
  "DTAP_LogicLinkMapInit ca d =
     (if ca_map ca then (DTAP_SUCCESS, d\<lparr>g_dtapLogicLinksMap := Some []\<rparr>)
      else (DTAP_TRANS_CHANNEL_CREATE_LINK_MAP_ERR, d\<lparr>g_dtapLogicLinksMap := None\<rparr>))"

text \<open>The destructor of the map frees the channels of every link.\<close>

definition DTAP_LogicLinkMapDeInit :: "dtap \<Rightarrow> dtap" where
  "DTAP_LogicLinkMapDeInit d =
     (case g_dtapLogicLinksMap d of
        None \<Rightarrow> d
      | Some m \<Rightarrow> (fold DTAP_ChannelDestroy (concat (map snd m)) d)\<lparr>g_dtapLogicLinksMap := None\<rparr>)"

definition scheduler_deinit :: "cm_answers \<Rightarrow> dtap \<Rightarrow> dtap" where
  "scheduler_deinit ca d = (if ca_post ca then d\<lparr>dp := DTAP_SchedulerDeinitInner (dp d)\<rparr> else d)"

definition DTAP_ChannelInit :: "cm_answers \<Rightarrow> dtap \<Rightarrow> init_ret \<times> dtap" where
  "DTAP_ChannelInit ca d =
     (case DTAP_LogicLinkMapInit ca d of (ret, d1) \<Rightarrow>
        if ret \<noteq> DTAP_SUCCESS then (DtapRet ret, d1)
        else if \<not> ca_post ca then (DtapRet DTAP_TRANS_CP_POST_ERR, DTAP_LogicLinkMapDeInit d1)
        else let d2 = d1\<lparr>dp := DTAP_SchedulerInitInner (dp d1)\<rparr> in
          if ca_channelReg ca \<noteq> 0 then (CmRet (ca_channelReg ca), DTAP_LogicLinkMapDeInit (scheduler_deinit ca d2))
          else if ca_linkReg ca \<noteq> 0 then (CmRet (ca_linkReg ca), DTAP_LogicLinkMapDeInit (scheduler_deinit ca d2))
          else (DtapRet DTAP_SUCCESS, d2))"

definition DTAP_ChannelDeInit :: "cm_answers \<Rightarrow> dtap \<Rightarrow> dtap" where
  "DTAP_ChannelDeInit ca d = DTAP_LogicLinkMapDeInit (scheduler_deinit ca d)"

text \<open>The callback of the connection management, registered for its channel.\<close>

abbreviation (input) TCID_SLE_CMTC :: u8 where "TCID_SLE_CMTC \<equiv> 0x02"

definition DTAP_Init :: "'r env \<Rightarrow> cm_answers \<Rightarrow> nat \<Rightarrow> dtap \<Rightarrow> init_ret \<times> dtap" where
  "DTAP_Init e ca cm_cb d =
     (if g_dtapIsInited d then (DtapRet DTAP_MODULE_DUP_INITED_ERR, d)
      else let d1 = d\<lparr>g_dtapIsInited := True, g_dtapRecvCbks := []\<rparr> in
        if ca_signaling ca \<noteq> 0 then (CmRet (ca_signaling ca), d1\<lparr>g_dtapIsInited := False\<rparr>)
        else (case DTAP_RegisterDataRecvCb e TCID_SLE_CMTC (Some cm_cb) d1 of (ret, d2) \<Rightarrow>
          if ret \<noteq> DTAP_SUCCESS then (DtapRet ret, d2\<lparr>g_dtapIsInited := False\<rparr>)
          else (case DTAP_ChannelInit ca d2 of (ret', d3) \<Rightarrow>
            if ret' \<noteq> DtapRet DTAP_SUCCESS then (ret', DTAP_ClearDataRecvCbks (d3\<lparr>g_dtapIsInited := False\<rparr>))
            else (DtapRet DTAP_SUCCESS, d3))))"

definition DTAP_DeInit :: "cm_answers \<Rightarrow> dtap \<Rightarrow> dtap" where
  "DTAP_DeInit ca d =
     (if \<not> g_dtapIsInited d then d
      else (DTAP_ClearDataRecvCbks (DTAP_ChannelDeInit ca d))\<lparr>g_dtapIsInited := False\<rparr>)"

end
