(* ===== verification/Dtap_Module_Inv.thy ===== *)
theory Dtap_Module_Inv
  imports Dtap_Module
begin

text \<open>
  The invariant of the whole module: the scheduler is well-formed, the map of links and the channels in the
  heap agree, and every channel has the attributes its mode expects. Every operation that works on channels
  keeps it, with one exception that is stated as such.
\<close>

section \<open>The invariant\<close>

definition chan_attr_ok :: "channel \<Rightarrow> bool" where
  "chan_attr_ok c \<longleftrightarrow> (mode c = CM_TRANS_MODE_BASIC \<longrightarrow> basic_inv (attr c)) \<and> (mode c = CM_TRANS_MODE_STREAM \<longrightarrow> stream_inv (attr c))
     \<and> (mode c = CM_TRANS_MODE_RELIABLE \<longrightarrow> reliable_inv (attr c))"

definition module_ok :: "dtap \<Rightarrow> bool" where
  "module_ok d \<longleftrightarrow> sched_ok (dp d) \<and> (\<forall>m. g_dtapLogicLinksMap d = Some m \<longrightarrow> map_ok m)
     \<and> (\<forall>l as. DTAP_LogicLinkFind l d = Some as \<longrightarrow> distinct as
          \<and> (\<forall>a \<in> set as. \<exists>c. data_chans (dp d) a = Some c \<and> lcid c = l \<and> chan_attr_ok c))
     \<and> (\<forall>a c. data_chans (dp d) a = Some c \<longrightarrow> (\<exists>as. DTAP_LogicLinkFind (lcid c) d = Some as \<and> a \<in> set as))"

lemma data_chan_heap:
  "data_chans s a = Some c0 \<longleftrightarrow> (\<exists>c. chan_heap s a = Some c \<and> priority c \<noteq> DTAP_PRIORITY_FRAGMENT \<and> c0 = c\<lparr>pktList := []\<rparr>)"
  by (auto simp: data_chans_def split: option.splits if_splits)

lemma chan_attr_ok_pkts [simp]: "chan_attr_ok (c\<lparr>pktList := ps\<rparr>) = chan_attr_ok c"
  by (simp add: chan_attr_ok_def)

lemma module_okD:
  assumes "module_ok d" "DTAP_LogicLinkFind l d = Some as" "a \<in> set as"
  shows "port_ok a d" "\<exists>c. chan_heap (dp d) a = Some c \<and> lcid c = l \<and> chan_attr_ok c \<and> priority c \<noteq> 0"
proof -
  obtain c where "data_chans (dp d) a = Some c" "lcid c = l" "chan_attr_ok c" "sched_ok (dp d)"
    using assms unfolding module_ok_def by blast
  then show "port_ok a d" "\<exists>c. chan_heap (dp d) a = Some c \<and> lcid c = l \<and> chan_attr_ok c \<and> priority c \<noteq> 0"
    by (auto simp: port_ok_def data_chan_heap)
qed

lemma find_chan_total:
  assumes "\<forall>a \<in> set as. h a \<noteq> None"
  shows "\<exists>r. find_chan h P as = Some r \<and> (case r of None \<Rightarrow> \<forall>a \<in> set as. \<forall>c. h a = Some c \<longrightarrow> \<not> P c
    | Some a \<Rightarrow> a \<in> set as \<and> (\<exists>c. h a = Some c \<and> P c))"
  using assms by (induction as) (auto split: option.splits)

lemma search_total:
  assumes "module_ok d"
  shows "\<exists>r. DTAP_ChannelSearch l tcid d = Some r \<and> (\<forall>a. r = Some a \<longrightarrow> port_ok a d \<and> (\<exists>as. DTAP_LogicLinkFind l d = Some as \<and> a \<in> set as)
    \<and> (\<exists>c. chan_heap (dp d) a = Some c \<and> lcid c = l \<and> chan_attr_ok c \<and> (mode c = CM_TRANS_MODE_TRANSPARENT \<or> srcTcid c = tcid)))"
proof (cases "DTAP_LogicLinkFind l d")
  case (Some as)
  let ?P = "\<lambda>c. mode c = CM_TRANS_MODE_TRANSPARENT \<or> srcTcid c = tcid"
  have "\<forall>a \<in> set as. chan_heap (dp d) a \<noteq> None" using module_okD(2) [OF assms Some] by fastforce
  from find_chan_total [OF this, of ?P] obtain r where r: "DTAP_ChannelFind d as tcid = Some r"
    "case r of None \<Rightarrow> \<forall>a \<in> set as. \<forall>c. chan_heap (dp d) a = Some c \<longrightarrow> \<not> ?P c
      | Some a \<Rightarrow> a \<in> set as \<and> (\<exists>c. chan_heap (dp d) a = Some c \<and> ?P c)" by (auto simp: DTAP_ChannelFind_def)
  have "port_ok a d \<and> a \<in> set as \<and> (\<exists>c. chan_heap (dp d) a = Some c \<and> lcid c = l \<and> chan_attr_ok c \<and> ?P c)" if "r = Some a" for a
    using r(2) that module_okD [OF assms Some, of a] by auto
  then show ?thesis using r(1) Some by (simp add: DTAP_ChannelSearch_def)
qed (simp add: DTAP_ChannelSearch_def)

section \<open>Sending\<close>

text \<open>Changing the attributes of a channel within the invariant of its mode.\<close>

lemma module_ok_attr:
  assumes d: "module_ok d" and s: "sched_ok (dp d')" "g_dtapLogicLinksMap d' = g_dtapLogicLinksMap d"
    and x: "data_chans (dp d') = (data_chans (dp d))(a := map_option (\<lambda>c. c\<lparr>attr := x\<rparr>) (data_chans (dp d) a))"
    and c: "chan_heap (dp d) a = Some c" "chan_attr_ok (c\<lparr>attr := x\<rparr>)"
  shows "module_ok d'"
proof -
  have l: "DTAP_LogicLinkFind k d' = DTAP_LogicLinkFind k d" for k using s(2) by (simp add: DTAP_LogicLinkFind_def)
  have a: "chan_attr_ok (c'\<lparr>attr := x\<rparr>)" if "data_chans (dp d) a = Some c'" for c'
    using that c by (auto simp: data_chan_heap chan_attr_ok_def)
  have f: "\<exists>c'. data_chans (dp d') b = Some c' \<and> lcid c' = k \<and> chan_attr_ok c'"
    if "\<exists>c0. data_chans (dp d) b = Some c0 \<and> lcid c0 = k \<and> chan_attr_ok c0" for b k
    using that a x by (cases "b = a") auto
  have g: "\<exists>c0. data_chans (dp d) b = Some c0 \<and> lcid c0 = lcid c'" if "data_chans (dp d') b = Some c'" for b c'
    using that x by (auto split: if_splits)
  have "distinct as \<and> (\<forall>b \<in> set as. \<exists>c. data_chans (dp d') b = Some c \<and> lcid c = k \<and> chan_attr_ok c)" if "DTAP_LogicLinkFind k d = Some as" for k as
    using d that f unfolding module_ok_def by blast
  moreover have "\<exists>as. DTAP_LogicLinkFind (lcid c') d = Some as \<and> b \<in> set as" if t: "data_chans (dp d') b = Some c'" for b c'
  proof -
    obtain c0 where "data_chans (dp d) b = Some c0" "lcid c0 = lcid c'" using g [OF t] by blast
    then show ?thesis using d unfolding module_ok_def by metis
  qed
  ultimately show ?thesis using s d unfolding module_ok_def l by presburger
qed

lemma kept_module_ok:
  assumes "module_ok d" "chan_heap (dp d) a = Some c" "kept a I d d'" "\<And>x. I x \<Longrightarrow> chan_attr_ok (c\<lparr>attr := x\<rparr>)"
  shows "module_ok d'"
proof -
  obtain x where x: "sched_ok (dp d')" "I x" "module_globals d' = module_globals d"
    "data_chans (dp d') = (data_chans (dp d))(a := map_option (\<lambda>c. c\<lparr>attr := x\<rparr>) (data_chans (dp d) a))" using assms(3) by (auto simp: kept_def)
  then show ?thesis by (intro module_ok_attr [OF assms(1) x(1) _ x(4) assms(2) assms(4) [OF x(2)]]) (simp add: module_globals_def)
qed

context trans_mode
begin

lemma send_module_ok:
  assumes "module_ok d" "port_ok a d" "chan_heap (dp d) a = Some c" "I (attr c)" "packet_ok b" "\<And>x. I x \<Longrightarrow> chan_attr_ok (c\<lparr>attr := x\<rparr>)"
  shows "\<exists>ret d'. send e a c pi b d = Some (ret, d') \<and> module_ok d' \<and> module_globals d' = module_globals d \<and> ups d' = ups d"
proof -
  obtain ret d' where s: "send e a c pi b d = Some (ret, d')" "sent_to a I d d'" using send_ok [OF assms(2-5)] by blast
  then have "kept a I d d'" "module_globals d' = module_globals d" "ups d' = ups d" by (auto simp: sent_to_def kept_def)
  then show ?thesis using s(1) kept_module_ok [OF assms(1,3) _ assms(6)] by blast
qed

end

context receiving_mode
begin

lemma recv_module_ok:
  assumes "module_ok d" "port_ok a d" "chan_heap (dp d) a = Some c" "I (attr c)" "frame_parsed fr" "admits fr" "\<And>x. I x \<Longrightarrow> chan_attr_ok (c\<lparr>attr := x\<rparr>)"
  shows "\<exists>ok. check c fr = Some ok \<and> (ok \<longrightarrow> (\<exists>ret d'. recv e a c fr cb d = Some (ret, d') \<and> module_ok d' \<and> module_globals d' = module_globals d))"
  using check_recv [OF assms(2-6), of e cb] kept_module_ok [OF assms(1,3) _ assms(7)] unfolding kept_def by metis

end

lemma send_frame_module_ok:
  assumes "module_ok d" "port_ok a d" "chan_heap (dp d) a = Some c" "chan_attr_ok c" "packet_ok b" "DTAP_GetTransMode (mode c) = Some m"
  shows "\<exists>ret d'. sendFrame m e a c pi b d = Some (ret, d') \<and> module_ok d' \<and> module_globals d' = module_globals d \<and> ups d' = ups d"
proof (cases m)
  case g_dtapBasicTransMode
  then show ?thesis using basic_mode.send_module_ok [OF assms(1-3) _ assms(5)] assms(4) get_mode_type [OF assms(6)] by (simp add: chan_attr_ok_def)
next
  case g_dtapTransparentMode
  then show ?thesis using transparent_mode.send_module_ok [OF assms(1-3) _ assms(5)] assms(4) get_mode_type [OF assms(6)] by (simp add: chan_attr_ok_def)
next
  case g_dtapStreamTransMode
  then show ?thesis using stream_mode.send_module_ok [OF assms(1-3) _ assms(5)] assms(4) get_mode_type [OF assms(6)] by (simp add: chan_attr_ok_def)
next
  case g_dtapReliableTransMode
  then show ?thesis using reliable_mode.send_module_ok [OF assms(1-3) _ assms(5)] assms(4) get_mode_type [OF assms(6)] by (simp add: chan_attr_ok_def)
qed

lemma data_send_module_ok:
  assumes "module_ok d" "\<forall>x b. data = Some x \<longrightarrow> dt_buff x = Some b \<longrightarrow> buff_ok b \<and> 12 \<le> SDF_BuffHeadRoom b"
  shows "\<exists>ret d'. DTAP_DataSend e data d = Some (ret, d') \<and> module_ok d' \<and> module_globals d' = module_globals d \<and> ups d' = ups d"
proof (cases "\<exists>x b. data = Some x \<and> dt_buff x = Some b \<and> dataLen b \<noteq> 0 \<and> dataLen b \<le> DTAP_MAX_PAYLOAD_LEN")
  case True
  then obtain x b where x: "data = Some x" "dt_buff x = Some b" "dataLen b \<noteq> 0" "dataLen b \<le> DTAP_MAX_PAYLOAD_LEN" by blast
  obtain r where r: "DTAP_ChannelSearch (dt_lcid x) (dt_tcid x) d = Some r"
    "\<forall>a. r = Some a \<longrightarrow> port_ok a d \<and> (\<exists>c. chan_heap (dp d) a = Some c \<and> chan_attr_ok c)"
    using search_total [OF assms(1), of "dt_lcid x" "dt_tcid x"] by blast
  have p: "packet_ok b" using assms(2) x by (simp add: packet_ok_def)
  show ?thesis
  proof (cases r)
    case (Some a)
    obtain c where c: "port_ok a d" "chan_heap (dp d) a = Some c" "chan_attr_ok c" using r(2) Some by blast
    show ?thesis
    proof (cases "DTAP_GetTransMode (mode c)")
      case None
      then show ?thesis using x r(1) Some c assms(1) by (simp add: DTAP_DataSend_def)
    next
      case (Some m)
      then show ?thesis using send_frame_module_ok [OF assms(1) c p Some, of e "dt_pi x"] x r(1) \<open>r = Some a\<close> c(2) assms(1) by (simp add: DTAP_DataSend_def)
    qed
  qed (use x r(1) assms(1) in \<open>simp add: DTAP_DataSend_def\<close>)
next
  case False
  then show ?thesis using assms(1) by (auto simp: DTAP_DataSend_def split: option.splits)
qed

section \<open>Receiving\<close>

lemma recv_frame_module_ok:
  assumes "module_ok d" "port_ok a d" "chan_heap (dp d) a = Some c" "chan_attr_ok c" "DTAP_GetTransMode (mode c) = Some m" "transFrame m = None"
    and "frame_parsed fr" "m = g_dtapReliableTransMode \<Longrightarrow> not_aggregate fr"
  shows "\<exists>ok. checkFrame m c fr = Some ok \<and> (ok \<longrightarrow> (\<exists>ret d'. recvFrame m e a c fr cb d = Some (ret, d') \<and> module_ok d' \<and> module_globals d' = module_globals d))"
proof (cases m)
  case g_dtapBasicTransMode
  then show ?thesis using basic_recv.recv_module_ok [OF assms(1-3) _ assms(7)] assms(4) get_mode_type [OF assms(5)] by (simp add: chan_attr_ok_def)
next
  case g_dtapStreamTransMode
  then show ?thesis using stream_recv.recv_module_ok [OF assms(1-3) _ assms(7)] assms(4) get_mode_type [OF assms(5)] by (simp add: chan_attr_ok_def)
next
  case g_dtapReliableTransMode
  then show ?thesis using reliable_recv.recv_module_ok [OF assms(1-3) _ assms(7,8)] assms(4) get_mode_type [OF assms(5)] by (simp add: chan_attr_ok_def)
qed (use assms(6) in simp)

lemma data_recv_frame_ok:
  assumes d: "module_ok d" "port_ok a d" "chan_heap (dp d) a = Some c" "chan_attr_ok c" "DTAP_GetTransMode (mode c) = Some m" "transFrame m = None"
    and b: "buff_ok b" "m = g_dtapReliableTransMode \<Longrightarrow> 4 \<le> dataLen b \<Longrightarrow> hdr_frameType (buff_data b ! 1) \<notin> {DTAP_FRAME_SIMPLEX_AGGR, DTAP_FRAME_DUPLEX_AGGR}"
  shows "\<exists>d'. DTAP_DataRecvFrame e a c m b cb d = Some d' \<and> module_ok d' \<and> module_globals d' = module_globals d"
proof (cases "4 \<le> dataLen b \<and> dataLen b = unat (DECODE2BYTE_LITTLE (buff_data b ! 2) (buff_data b ! 3)) + 4")
  case False
  then show ?thesis using d(1) b(1) by (auto simp: DTAP_DataRecvFrame_def read_u16_data)
next
  case True
  let ?t = "hdr_frameType (buff_data b ! 1)"
  have len: "4 \<le> dataLen b" "dataLen b \<le> 65539" using True unsigned_less [of "DECODE2BYTE_LITTLE (buff_data b ! 2) (buff_data b ! 3)", where ?'a = nat] by simp_all
  have rd: "read_u16 [b] (SDF_DataOffset b) 2 = Some (DECODE2BYTE_LITTLE (buff_data b ! 2) (buff_data b ! 3))" "read_u8 [b] (SDF_DataOffset b) 1 = Some (buff_data b ! 1)"
    using len(1) b(1) by (simp_all add: read_u16_data read_u8_data numeral_3_eq_3)
  obtain ret fr where p: "DTAP_ParseFrame ?t b zero_frame = Some (ret, fr)" "ret = DTAP_SUCCESS \<longrightarrow> frame_at fr b \<and> getFrameType (f_ctx fr) = ?t"
    using DTAP_ParseFrame_safe [OF b(1) len, of ?t] by blast
  show ?thesis
  proof (cases "ret = DTAP_SUCCESS")
    case False
    then show ?thesis using d(1) True rd p(1) by (simp add: DTAP_DataRecvFrame_def)
  next
    case ok: True
    have fp: "frame_parsed fr" using p(1) ok b(1) len by (auto simp: frame_parsed_def)
    have na: "not_aggregate fr" if "m = g_dtapReliableTransMode" using b(2) [OF that len(1)] p(2) ok by (simp add: not_aggregate_def)
    have at: "frame_at fr b" using p(2) ok by simp
    obtain h where h: "checkFrameHeader (f_ctx fr) fr = Some h"
      using header_type [OF at len(1)] by (cases "f_ctx fr") (auto simp: DTAP_CheckBasicFrameHeader_def DTAP_CheckEnhanceFrameHeader_def)
    let ?cb = "if cb \<noteq> None then cb else DTAP_GetProtoRecvCbk (f_pi fr) d"
    obtain k where k: "checkFrame m c fr = Some k" "k \<longrightarrow> (\<exists>ret d'. recvFrame m e a c fr ?cb d = Some (ret, d') \<and> module_ok d' \<and> module_globals d' = module_globals d)"
      using recv_frame_module_ok [OF d fp na, of e ?cb] by blast
    show ?thesis
    proof (cases "payloadLen fr > mps c \<or> \<not> h \<or> \<not> k")
      case True
      then show ?thesis using \<open>4 \<le> dataLen b \<and> _\<close> d(1) rd p(1) ok h k(1) by (auto simp: DTAP_DataRecvFrame_def)
    next
      case False
      then obtain r' d' where "recvFrame m e a c fr ?cb d = Some (r', d')" "module_ok d'" "module_globals d' = module_globals d" using k(2) by blast
      then show ?thesis using False True rd p(1) ok h k(1) by (simp add: DTAP_DataRecvFrame_def)
    qed
  qed
qed

text \<open>The packets for which reception is shown to be safe: everything but aggregate frames on reliable channels.\<close>

definition no_reliable_aggregate :: "u16 \<Rightarrow> SDF_Buff \<Rightarrow> dtap \<Rightarrow> bool" where
  "no_reliable_aggregate l b d \<longleftrightarrow> hdr_frameType (buff_data b ! 1) \<in> {DTAP_FRAME_SIMPLEX_AGGR, DTAP_FRAME_DUPLEX_AGGR} \<longrightarrow>
     (case DTAP_ChannelSearch l (buff_data b ! 0) d of
        Some (Some a) \<Rightarrow> (case chan_heap (dp d) a of Some c \<Rightarrow> mode c \<noteq> CM_TRANS_MODE_RELIABLE | None \<Rightarrow> True)
      | _ \<Rightarrow> True)"

lemma data_recv_ok:
  assumes "module_ok d" "\<And>b. buf = Some b \<Longrightarrow> buff_ok b \<and> no_reliable_aggregate l b d"
  shows "\<exists>d'. DTAP_DataRecv e l buf d = Some d' \<and> module_ok d' \<and> module_globals d' = module_globals d"
proof (cases "\<exists>b. buf = Some b \<and> dataLen b \<noteq> 0")
  case False
  then show ?thesis using assms(1) by (auto simp: DTAP_DataRecv_def split: option.splits)
next
  case True
  then obtain b where b: "buf = Some b" "dataLen b \<noteq> 0" "buff_ok b" "no_reliable_aggregate l b d" using assms(2) by blast
  have rd: "read_u8 [b] (SDF_DataOffset b) 0 = Some (buff_data b ! 0)" using b(2,3) by (simp add: read_u8_data)
  obtain r where r: "DTAP_ChannelSearch l (buff_data b ! 0) d = Some r"
    "\<forall>a. r = Some a \<longrightarrow> port_ok a d \<and> (\<exists>c. chan_heap (dp d) a = Some c \<and> chan_attr_ok c)"
    using search_total [OF assms(1), of l "buff_data b ! 0"] by blast
  show ?thesis
  proof (cases r)
    case None
    then show ?thesis using b rd r(1) assms(1) by (simp add: DTAP_DataRecv_def)
  next
    case (Some a)
    then obtain c where c: "port_ok a d" "chan_heap (dp d) a = Some c" "chan_attr_ok c" using r(2) by blast
    show ?thesis
    proof (cases "DTAP_GetTransMode (mode c)")
      case None
      then show ?thesis using b rd r(1) Some c(2) assms(1) by (simp add: DTAP_DataRecv_def)
    next
      case m: (Some m)
      show ?thesis
      proof (cases "transFrame m")
        case None
        have "hdr_frameType (buff_data b ! 1) \<notin> {DTAP_FRAME_SIMPLEX_AGGR, DTAP_FRAME_DUPLEX_AGGR}" if "m = g_dtapReliableTransMode"
          using b(4) r(1) Some c(2) get_mode_type [OF m] that by (auto simp: no_reliable_aggregate_def)
        then obtain d' where "DTAP_DataRecvFrame e a c m b (DTAP_GetDataRecvCbkByTcid (srcTcid c) d) d = Some d'" "module_ok d'" "module_globals d' = module_globals d"
          using data_recv_frame_ok [OF assms(1) c m None b(3)] by blast
        then show ?thesis using b rd r(1) Some c(2) m None by (simp add: DTAP_DataRecv_def)
      next
        case f: (Some f)
        then have "f = DTAP_TransparentTransFrame" by (cases m) auto
        moreover have "module_ok (d\<lparr>ups := us\<rparr>)" for us using assms(1) by (simp add: module_ok_def DTAP_LogicLinkFind_def)
        ultimately show ?thesis using b rd r(1) Some c(2) m f assms(1) by (simp add: DTAP_DataRecv_def DTAP_TransparentTransFrame_def)
      qed
    qed
  qed
qed

lemma set_status_ok:
  assumes "module_ok d"
  shows "\<exists>d'. DTAP_ChannelSetStatus e l tcid result d = Some d' \<and> module_ok d' \<and> module_globals d' = module_globals d"
proof -
  obtain r where r: "DTAP_ChannelSearch l tcid d = Some r"
    "\<forall>a. r = Some a \<longrightarrow> port_ok a d \<and> (\<exists>c. chan_heap (dp d) a = Some c \<and> chan_attr_ok c)" using search_total [OF assms, of l tcid] by blast
  show ?thesis
  proof (cases "\<exists>a c. r = Some a \<and> chan_heap (dp d) a = Some c \<and> DTAP_GetTransMode (mode c) = Some g_dtapReliableTransMode")
    case True
    then obtain a c where c: "r = Some a" "chan_heap (dp d) a = Some c" "DTAP_GetTransMode (mode c) = Some g_dtapReliableTransMode" by blast
    have m: "mode c = CM_TRANS_MODE_RELIABLE" using get_mode_type [OF c(3)] by simp
    have ok: "port_ok a d" "reliable_inv (attr c)" using r(2) c(1,2) m by (auto simp: chan_attr_ok_def)
    obtain x where x: "as_reliable (attr c) = Some x" "tx_ok x" "cache_ok x" "rx_frames_ok x" using ok(2) by (auto simp: reliable_inv_def)
    let ?cb = "DTAP_GetDataRecvCbkByTcid (srcTcid c) d"
    obtain x' d' where s: "DTAP_SetTransChannelStatus e c result ?cb x d = Some (x', d')" "reliable_inv (Some (ReliableAttr x'))" "dp d' = dp d" "module_globals d' = module_globals d"
    proof (cases "result = DTAP_SUCCESS")
      case True
      let ?x = "x\<lparr>isRxWindowFull := False\<rparr>"
      obtain x' d' where i: "DTAP_RecvEnhanceFrameInner e [] c ?cb ?x d = Some (x', d')" "rx_frames_ok x'" "txWindow x' = txWindow ?x"
        "rc_crcInit x' = rc_crcInit ?x" "cacheBuff x' = cacheBuff ?x" "dp d' = dp d"
        using inner_total [of ?x] x(4) unfolding rx_frames_ok_def by fastforce
      then have "reliable_inv (Some (ReliableAttr x'))" using x tx_ok_cong [of x' x] by (simp add: reliable_inv_def cache_ok_def)
      then show thesis using that True i globals_inner [OF i(1)] by (simp add: DTAP_SetTransChannelStatus_def)
    qed (use that x in \<open>auto simp: DTAP_SetTransChannelStatus_def reliable_inv_def\<close>)
    have "kept a reliable_inv d (store_attr a (ReliableAttr x') d')" using s(2-4) ok(1) by (intro kept_store) (auto simp: port_ok_def)
    then have "module_ok (store_attr a (ReliableAttr x') d')" using m by (intro kept_module_ok [OF assms c(2)]) (auto simp: chan_attr_ok_def)
    then show ?thesis using r(1) c x(1) s(1,4) by (simp add: DTAP_ChannelSetStatus_def)
  next
    case False
    have "setTransChannelStatus m = None" if "m \<noteq> g_dtapReliableTransMode" for m using that by (cases m) auto
    then have "DTAP_ChannelSetStatus e l tcid result d = Some d" using r False by (auto simp: DTAP_ChannelSetStatus_def split: option.splits)
    then show ?thesis using assms by simp
  qed
qed

section \<open>Links\<close>

lemma find_set_link: "DTAP_LogicLinkFind k (set_link l as d) = (if k = l \<and> DTAP_LogicLinkFind l d \<noteq> None then Some as else DTAP_LogicLinkFind k d)"
  by (auto simp: DTAP_LogicLinkFind_def set_link_def map_store_find split: option.splits)

lemma find_erase_link:
  "(\<And>m. g_dtapLogicLinksMap d = Some m \<Longrightarrow> map_ok m) \<Longrightarrow> DTAP_LogicLinkFind k (erase_link l d) = (if k = l then None else DTAP_LogicLinkFind k d)"
  by (auto simp: DTAP_LogicLinkFind_def erase_link_def erase_lookup split: option.splits)

lemma find_close_link:
  assumes "\<And>m. g_dtapLogicLinksMap d = Some m \<Longrightarrow> map_ok m" "DTAP_LogicLinkFind l d \<noteq> None"
  shows "DTAP_LogicLinkFind k (close_link l as d) = (if k = l then (if as = [] then None else Some as) else DTAP_LogicLinkFind k d)"
  using assms(2) find_erase_link [OF assms(1)] by (auto simp: close_link_def find_set_link)

lemma link_simps [simp]:
  "dp (set_link l as d) = dp d" "dp (erase_link l d) = dp d" "dp (close_link l as d) = dp d"
  "ups (set_link l as d) = ups d" "ups (close_link l as d) = ups d"
  by (simp_all add: set_link_def erase_link_def close_link_def)

lemma link_map_ok:
  assumes "\<And>m. g_dtapLogicLinksMap d = Some m \<Longrightarrow> map_ok m"
  shows "g_dtapLogicLinksMap (set_link l as d) = Some m \<Longrightarrow> map_ok m" "g_dtapLogicLinksMap (close_link l as d) = Some m \<Longrightarrow> map_ok m"
  using assms by (auto simp: set_link_def erase_link_def close_link_def erase_ok split: if_splits)

text \<open>
  A new state of one link: its list \<open>as\<close> names exactly the channels of the link, and nothing else changed.
\<close>

lemma module_ok_link:
  assumes d: "module_ok d" and s: "sched_ok (dp d')" "\<And>m. g_dtapLogicLinksMap d' = Some m \<Longrightarrow> map_ok m"
    and find: "\<And>k. k \<noteq> l \<Longrightarrow> DTAP_LogicLinkFind k d' = DTAP_LogicLinkFind k d"
      "DTAP_LogicLinkFind l d' = Some as \<or> DTAP_LogicLinkFind l d' = None \<and> as = []"
    and as: "distinct as" "\<And>a. a \<in> set as \<Longrightarrow> \<exists>c. data_chans (dp d') a = Some c \<and> lcid c = l \<and> chan_attr_ok c"
    and other: "\<And>a c. data_chans (dp d) a = Some c \<Longrightarrow> lcid c \<noteq> l \<Longrightarrow> data_chans (dp d') a = Some c"
      "\<And>a c. data_chans (dp d') a = Some c \<Longrightarrow> lcid c \<noteq> l \<Longrightarrow> data_chans (dp d) a = Some c"
      "\<And>a c. data_chans (dp d') a = Some c \<Longrightarrow> lcid c = l \<Longrightarrow> a \<in> set as"
  shows "module_ok d'"
proof -
  have "distinct bs \<and> (\<forall>a \<in> set bs. \<exists>c. data_chans (dp d') a = Some c \<and> lcid c = k \<and> chan_attr_ok c)" if k: "DTAP_LogicLinkFind k d' = Some bs" for k bs
  proof (cases "k = l")
    case True
    then show ?thesis using k find(2) as by auto
  next
    case False
    then have "distinct bs \<and> (\<forall>a \<in> set bs. \<exists>c. data_chans (dp d) a = Some c \<and> lcid c = k \<and> chan_attr_ok c)"
      using k find(1) d unfolding module_ok_def by metis
    then show ?thesis using other(1) False by blast
  qed
  moreover have "\<exists>bs. DTAP_LogicLinkFind (lcid c) d' = Some bs \<and> a \<in> set bs" if "data_chans (dp d') a = Some c" for a c
  proof (cases "lcid c = l")
    case True
    then show ?thesis using other(3) [OF that] find(2) by auto
  next
    case False
    then have "data_chans (dp d) a = Some c" using other(2) that by blast
    then show ?thesis using d find(1) [OF False] unfolding module_ok_def by metis
  qed
  ultimately show ?thesis using s unfolding module_ok_def by blast
qed

section \<open>Adding a channel\<close>

lemma sched_ok_new_chan:
  assumes ok: "sched_ok s" and c: "pktList c = []" "priority c < DTAP_PRIORITY_MAX"
    and new: "\<And>b c'. chan_heap s b = Some c' \<Longrightarrow> priority c' = priority c \<Longrightarrow> lcid c' = lcid c \<Longrightarrow> srcTcid c' \<noteq> srcTcid c"
  shows "sched_ok (s\<lparr>chan_heap := (chan_heap s)(chan_next s \<mapsto> c), chan_next := chan_next s + 1\<rparr>)"
proof -
  let ?s = "s\<lparr>chan_heap := (chan_heap s)(chan_next s \<mapsto> c), chan_next := chan_next s + 1\<rparr>"
  have fresh: "chan_heap s (chan_next s) = None" and lt: "\<And>a. chan_heap s a \<noteq> None \<Longrightarrow> a < chan_next s" and h: "heap_ok s"
    using ok unfolding sched_ok_def heap_ok_def by blast+
  have nin: "chan_next s \<notin> set (channelList n)" if "node_ok (chan_heap s) j n" for j n
    using that fresh by (auto simp: node_ok_def chan_ok_def)
  have "node_ok (chan_heap ?s) j n" if "node_ok (chan_heap s) j n" for j n
    using that nin [OF that] pkt_sum_other [of "chan_next s" "channelList n" "chan_heap s" c]
    by (auto simp: node_ok_def chan_ok_def simp del: fun_upd_apply) (auto)
  then have "queue_ok (chan_heap ?s) j (g_dtapScheduler s ! j)" if "queue_ok (chan_heap s) j (g_dtapScheduler s ! j)" for j
    using that by (auto simp: queue_ok_def)
  moreover have "heap_ok ?s"
    unfolding heap_ok_def
  proof (intro conjI allI impI)
    fix a assume "chan_heap ?s a \<noteq> None"
    then show "a < chan_next ?s" using lt [of a] by (auto split: if_splits)
  next
    fix a b x y
    assume *: "chan_heap ?s a = Some x" "chan_heap ?s b = Some y" "priority x = priority y" "priority x \<noteq> DTAP_PRIORITY_FRAGMENT"
      "lcid x = lcid y" "srcTcid x = srcTcid y"
    show "a = b"
    proof (cases "a = chan_next s \<or> b = chan_next s")
      case True
      then show ?thesis using * new [of a x] new [of b y] by (auto split: if_splits)
    next
      case False
      then have "chan_heap s a = Some x" "chan_heap s b = Some y" using *(1,2) by auto
      then show ?thesis using h *(3-6) unfolding heap_ok_def by blast
    qed
  next
    fix a x assume a: "chan_heap ?s a = Some x"
    show "priority x < DTAP_PRIORITY_MAX" using a h c(2) by (auto simp: heap_ok_def split: if_splits)
    assume "pktList x \<noteq> []"
    then have "chan_heap s a = Some x" using a c(1) by (auto split: if_splits)
    then show "\<exists>n \<in> set (lcidList (g_dtapScheduler ?s ! priority x)). ln_lcid n = lcid x \<and> a \<in> set (channelList n)"
      using h \<open>pktList x \<noteq> []\<close> unfolding heap_ok_def by simp
  qed
  ultimately show ?thesis using ok by (simp add: sched_ok_def)
qed

lemma create_attr_keeps:
  assumes "create_attr e p d = (x, d1)"
  shows "dp d1 = dp d" "module_globals d1 = module_globals d" "ups d1 = ups d"
  using assms by (auto simp: create_attr_def DTAP_ReliableChannelCreate_def DTAP_TransStartTimer_def Let_def split: if_splits prod.splits option.splits)

lemma create_attr_ok:
  assumes "create_attr e p d = (Some x, d1)" "cfg_txWindow (config p) \<le> 255"
  shows "chan_attr_ok ((new_channel p)\<lparr>attr := x\<rparr>)"
  using assms by (auto simp: create_attr_def chan_attr_ok_def new_channel_def Let_def basic_inv_def stream_inv_def reliable_inv_def
      DTAP_ReliableChannelCreate_def tx_ok_def cache_ok_def rx_frames_ok_def DTAP_InitTxWindow_def DTAP_InitRxWindow_def split: if_splits prod.splits option.splits)

lemma new_channel_simps [simp]:
  "pktList (new_channel p) = []" "lcid (new_channel p) = tp_lcid p" "srcTcid (new_channel p) = tp_srcTcid p" "mode (new_channel p) = transMode (config p)"
  "0 < priority (new_channel p)" "priority (new_channel p) < 4"
  by (simp_all add: new_channel_def channel_priority_def)

text \<open>The state after a successful creation, described through what the module sees.\<close>

lemma create_obtain:
  assumes "DTAP_ChannelCreate e p d = (r, d')"
  shows "module_globals d' = module_globals d" "ups d' = ups d" "r = None \<Longrightarrow> dp d' = dp d"
    "r = Some a \<Longrightarrow> a = chan_next (dp d) \<and> (\<exists>x. (cfg_txWindow (config p) \<le> 255 \<longrightarrow> chan_attr_ok ((new_channel p)\<lparr>attr := x\<rparr>))
      \<and> dp d' = (dp d)\<lparr>chan_heap := (chan_heap (dp d))(a \<mapsto> (new_channel p)\<lparr>attr := x\<rparr>), chan_next := a + 1\<rparr>)"
proof -
  obtain y d1 where y: "create_attr (sub e 1) p d = (y, d1)" by fastforce
  note k = create_attr_keeps [OF y]
  have ok: "chan_attr_ok ((new_channel p)\<lparr>attr := x\<rparr>)" if "y = Some x" "cfg_txWindow (config p) \<le> 255" for x
    using create_attr_ok [of "sub e 1" p d x d1] y that by simp
  show "module_globals d' = module_globals d" "ups d' = ups d" "r = None \<Longrightarrow> dp d' = dp d"
    using assms y k by (auto simp: DTAP_ChannelCreate_def split: option.splits)
  assume "r = Some a"
  then obtain x where x: "y = Some x" "a = chan_next (dp d)"
    "dp d' = (dp d)\<lparr>chan_heap := (chan_heap (dp d))(a \<mapsto> (new_channel p)\<lparr>attr := x\<rparr>), chan_next := a + 1\<rparr>"
    using assms y k(1) by (auto simp: DTAP_ChannelCreate_def split: option.splits)
  then show "a = chan_next (dp d) \<and> (\<exists>x. (cfg_txWindow (config p) \<le> 255 \<longrightarrow> chan_attr_ok ((new_channel p)\<lparr>attr := x\<rparr>))
      \<and> dp d' = (dp d)\<lparr>chan_heap := (chan_heap (dp d))(a \<mapsto> (new_channel p)\<lparr>attr := x\<rparr>), chan_next := a + 1\<rparr>)"
    using ok by blast
qed

lemma globals_map: "module_globals d' = module_globals d \<Longrightarrow> g_dtapLogicLinksMap d' = g_dtapLogicLinksMap d"
  by (simp add: module_globals_def)

lemma find_globals: "module_globals d' = module_globals d \<Longrightarrow> DTAP_LogicLinkFind l d' = DTAP_LogicLinkFind l d"
  by (simp add: module_globals_def DTAP_LogicLinkFind_def)

lemma module_link_list:
  assumes "module_ok d" "DTAP_LogicLinkFind l d = Some as"
  shows "distinct as" "a \<in> set as \<Longrightarrow> \<exists>c. data_chans (dp d) a = Some c \<and> lcid c = l \<and> chan_attr_ok c"
    "data_chans (dp d) a = Some c \<Longrightarrow> lcid c = l \<Longrightarrow> a \<in> set as" "g_dtapLogicLinksMap d = Some m \<Longrightarrow> map_ok m" "sched_ok (dp d)"
proof -
  show "distinct as" "a \<in> set as \<Longrightarrow> \<exists>c. data_chans (dp d) a = Some c \<and> lcid c = l \<and> chan_attr_ok c"
    "g_dtapLogicLinksMap d = Some m \<Longrightarrow> map_ok m" "sched_ok (dp d)"
    using assms unfolding module_ok_def by blast+
  assume "data_chans (dp d) a = Some c" "lcid c = l"
  then obtain bs where "DTAP_LogicLinkFind l d = Some bs" "a \<in> set bs" using assms(1) unfolding module_ok_def by blast
  then show "a \<in> set as" using assms(2) by simp
qed

lemma channel_find_none:
  assumes "DTAP_ChannelFind d as tcid = Some None" "a \<in> set as" "chan_heap (dp d) a = Some c"
  shows "srcTcid c \<noteq> tcid"
proof -
  have "find_chan h P bs = Some None \<Longrightarrow> a \<in> set bs \<Longrightarrow> h a = Some c \<Longrightarrow> \<not> P c" for h P bs
    by (induction bs) (auto split: option.splits if_splits)
  then show ?thesis using assms unfolding DTAP_ChannelFind_def by blast
qed

lemma data_chans_new:
  assumes "dp d' = (dp d)\<lparr>chan_heap := (chan_heap (dp d))(a \<mapsto> c), chan_next := n\<rparr>" "pktList c = []" "0 < priority c"
  shows "data_chans (dp d') = (data_chans (dp d))(a \<mapsto> c)"
  by (rule ext) (use assms in \<open>auto simp: data_chans_def\<close>)

lemma add_to_link_ok:
  assumes d: "module_ok d" and l: "DTAP_LogicLinkFind (tp_lcid p) d = Some as" and none: "DTAP_ChannelFind d as (tp_srcTcid p) = Some None"
    and w: "cfg_txWindow (config p) \<le> 255"
  shows "\<exists>d'. add_to_link e p as d = Some d' \<and> module_ok d' \<and> ups d' = ups d"
proof -
  note m = module_link_list [OF d l]
  obtain r d1 where r: "DTAP_ChannelCreate e p d = (r, d1)" by fastforce
  note c = create_obtain [OF r]
  note fg = find_globals [OF c(1)] and gm = globals_map [OF c(1)]
  have mo: "g_dtapLogicLinksMap d1 = Some x \<Longrightarrow> map_ok x" for x using m(4) gm by simp
  show ?thesis
  proof (cases r)
    case None
    have dp1: "dp d1 = dp d" using c(3) None by simp
    have mc: "g_dtapLogicLinksMap (close_link (tp_lcid p) as d1) = Some x \<Longrightarrow> map_ok x" for x by (rule link_map_ok(2) [OF mo])
    have "module_ok (close_link (tp_lcid p) as d1)"
      using m find_close_link [of d1 "tp_lcid p" _ as] mo l
      by (intro module_ok_link [OF d, where l = "tp_lcid p" and as = as]) (auto simp: dp1 fg intro: mc)
    then show ?thesis using r None none c(2) by (simp add: add_to_link_def)
  next
    case (Some a)
    obtain x where x: "a = chan_next (dp d)" "chan_attr_ok ((new_channel p)\<lparr>attr := x\<rparr>)"
      "dp d1 = (dp d)\<lparr>chan_heap := (chan_heap (dp d))(a \<mapsto> (new_channel p)\<lparr>attr := x\<rparr>), chan_next := a + 1\<rparr>"
      using c(4) [OF Some] w by blast
    let ?c = "(new_channel p)\<lparr>attr := x\<rparr>"
    have dc: "data_chans (dp d1) = (data_chans (dp d))(a \<mapsto> ?c)" by (rule data_chans_new [OF x(3)]) simp_all
    have "chan_heap (dp d) a = None" using m(5) x(1) unfolding sched_ok_def heap_ok_def by blast
    then have fresh: "data_chans (dp d) a = None" by (simp add: data_chans_def)
    then have a: "a \<notin> set as" using m(2) by fastforce
    have "srcTcid c' \<noteq> tp_srcTcid p" if "chan_heap (dp d) b = Some c'" "priority c' = priority ?c" "lcid c' = tp_lcid p" for b c'
    proof -
      have "priority c' \<noteq> DTAP_PRIORITY_FRAGMENT" using that(2) new_channel_simps(5) [of p] by simp
      then have "data_chans (dp d) b = Some (c'\<lparr>pktList := []\<rparr>)" using that(1) by (auto simp: data_chan_heap)
      then have "b \<in> set as" using m(3) that(3) by auto
      then show ?thesis using channel_find_none [OF none _ that(1)] by blast
    qed
    then have s1: "sched_ok (dp d1)" unfolding x(3) x(1) by (intro sched_ok_new_chan [OF m(5)]) auto
    have ms: "g_dtapLogicLinksMap (set_link (tp_lcid p) (a # as) d1) = Some x \<Longrightarrow> map_ok x" for x by (rule link_map_ok(1) [OF mo])
    have "module_ok (set_link (tp_lcid p) (a # as) d1)"
    proof (rule module_ok_link [OF d, where l = "tp_lcid p" and as = "a # as"])
      show "distinct (a # as)" using m(1) a by simp
      show "\<exists>c. data_chans (dp (set_link (tp_lcid p) (a # as) d1)) b = Some c \<and> lcid c = tp_lcid p \<and> chan_attr_ok c" if "b \<in> set (a # as)" for b
        using that m(2) [of b] a x(2) dc by (cases "b = a") auto
      show "b \<in> set (a # as)" if "data_chans (dp (set_link (tp_lcid p) (a # as) d1)) b = Some c" "lcid c = tp_lcid p" for b c
        using that m(3) [of b c] dc by (auto split: if_splits)
    qed (use s1 l dc fresh fg in \<open>auto simp: find_set_link intro: ms split: if_splits\<close>)
    then show ?thesis using r Some none c(2) by (simp add: add_to_link_def)
  qed
qed

lemma channel_add_ok:
  assumes d: "module_ok d" and none: "DTAP_ChannelSearch (tp_lcid p) (tp_srcTcid p) d = Some None" and w: "cfg_txWindow (config p) \<le> 255"
  shows "\<exists>d'. DTAP_ChannelAdd e p d = Some d' \<and> module_ok d' \<and> ups d' = ups d"
proof (cases "DTAP_LogicLinkFind (tp_lcid p) d")
  case (Some as)
  then show ?thesis using add_to_link_ok [OF d Some _ w, of "sub e 2"] none by (simp add: DTAP_ChannelAdd_def DTAP_ChannelSearch_def)
next
  case None
  note new = this
  show ?thesis
  proof (cases "\<exists>x m m'. SDF_MemZalloc (sub e 0) = Some x \<and> g_dtapLogicLinksMap d = Some m \<and> SDF_MapMoveInsert (sub e 1) m (tp_lcid p) [] = (True, m')")
    case True
    then obtain x m m' where m: "SDF_MemZalloc (sub e 0) = Some x" "g_dtapLogicLinksMap d = Some m" "SDF_MapMoveInsert (sub e 1) m (tp_lcid p) [] = (True, m')" by blast
    define d0 where "d0 = d\<lparr>g_dtapLogicLinksMap := Some m'\<rparr>"
    have m': "m' = (tp_lcid p, []) # m" "SDF_MapFind m (tp_lcid p) = None" using m(3) by (auto simp: SDF_MapMoveInsert_def split: if_splits option.splits)
    have mo: "map_ok m'" using d m(2) m' by (auto simp: module_ok_def map_ok_def find_map_of map_of_eq_None_iff)
    have f: "DTAP_LogicLinkFind k d0 = (if k = tp_lcid p then Some [] else DTAP_LogicLinkFind k d)" for k
      using m(2) m' by (simp add: d0_def DTAP_LogicLinkFind_def)
    have nolink: "lcid c \<noteq> tp_lcid p" if "data_chans (dp d) a = Some c" for a c
      using d that new unfolding module_ok_def by (metis option.distinct(1))
    have "module_ok d0"
      using nolink d mo f by (intro module_ok_link [OF d, where l = "tp_lcid p" and as = "[]"]) (auto simp: d0_def module_ok_def)
    then obtain d' where "add_to_link (sub e 2) p [] d0 = Some d'" "module_ok d'" "ups d' = ups d0"
      using add_to_link_ok [of d0 p "[]" "sub e 2"] f w by (auto simp: DTAP_ChannelFind_def)
    then show ?thesis using new m by (simp add: DTAP_ChannelAdd_def d0_def)
  next
    case False
    then have "DTAP_ChannelAdd e p d = Some d" using new by (auto simp: DTAP_ChannelAdd_def split: option.splits prod.splits bool.splits)
    then show ?thesis using d by simp
  qed
qed

section \<open>Removing a channel\<close>

lemma channel_del_ok:
  assumes d: "module_ok d" and own: "\<And>a c. DTAP_ChannelSearch (tp_lcid p) (tp_srcTcid p) d = Some (Some a) \<Longrightarrow> chan_heap (dp d) a = Some c \<Longrightarrow> srcTcid c = tp_srcTcid p"
  shows "\<exists>d'. DTAP_ChannelDel p d = Some d' \<and> module_ok d' \<and> ups d' = ups d"
proof (cases "DTAP_LogicLinkFind (tp_lcid p) d")
  case None
  then show ?thesis using d by (simp add: DTAP_ChannelDel_def)
next
  case (Some as)
  note l = this
  note m = module_link_list [OF d l]
  obtain r where r: "DTAP_ChannelFind d as (tp_srcTcid p) = Some r"
    "\<forall>a. r = Some a \<longrightarrow> port_ok a d \<and> a \<in> set as \<and> (\<exists>c. chan_heap (dp d) a = Some c \<and> lcid c = tp_lcid p)"
    using search_total [OF d, of "tp_lcid p" "tp_srcTcid p"] l by (auto simp: DTAP_ChannelSearch_def)
  show ?thesis
  proof (cases r)
    case None
    then show ?thesis using d l r(1) by (simp add: DTAP_ChannelDel_def)
  next
    case (Some a)
    obtain c where c: "a \<in> set as" "chan_heap (dp d) a = Some c" "lcid c = tp_lcid p" "priority c \<noteq> 0"
      using r(2) Some module_okD(2) [OF d l, of a] by auto
    have t: "srcTcid c = tp_srcTcid p" using own [OF _ c(2)] l r(1) Some by (simp add: DTAP_ChannelSearch_def)
    obtain s where s: "DTAP_ChannelDown (tp_lcid p) (tp_srcTcid p) (dp d) = Some s" "sched_ok s" "data_chans s = data_chans (dp d)" "unlisted a s"
      using channel_down_ok [OF m(5), of "tp_lcid p" "tp_srcTcid p"] c(2-4) t by blast
    define d1 where "d1 = DTAP_ChannelDestroy a (d\<lparr>dp := s\<rparr>)"
    have s1: "sched_ok (dp d1)" using sched_ok_free [OF s(2,4)] by (simp add: d1_def DTAP_ChannelDestroy_def)
    have dc: "data_chans (dp d1) = (data_chans (dp d))(a := None)"
      using s(3) by (auto simp: d1_def DTAP_ChannelDestroy_def data_chans_def fun_eq_iff split: option.splits)
    have g: "module_globals d1 = module_globals d" "ups d1 = ups d" by (simp_all add: d1_def DTAP_ChannelDestroy_def)
    note fg = find_globals [OF g(1)] and gm = globals_map [OF g(1)]
    have mo: "g_dtapLogicLinksMap d1 = Some x \<Longrightarrow> map_ok x" for x using m(4) gm by simp
    have mc: "g_dtapLogicLinksMap (close_link (tp_lcid p) (remove1 a as) d1) = Some x \<Longrightarrow> map_ok x" for x by (rule link_map_ok(2) [OF mo])
    have fc: "DTAP_LogicLinkFind k (close_link (tp_lcid p) (remove1 a as) d1)
        = (if k = tp_lcid p then (if remove1 a as = [] then None else Some (remove1 a as)) else DTAP_LogicLinkFind k d)" for k
      using find_close_link [of d1 "tp_lcid p" k "remove1 a as"] mo l fg by simp
    have ra: "set (remove1 a as) = set as - {a}" using m(1) by simp
    have al: "\<exists>c0. data_chans (dp d) a = Some c0 \<and> lcid c0 = tp_lcid p" using m(2) [OF c(1)] by blast
    have "module_ok (close_link (tp_lcid p) (remove1 a as) d1)"
      using m(1-3) s1 al by (intro module_ok_link [OF d, where l = "tp_lcid p" and as = "remove1 a as"])
        (auto simp: fc dc ra intro: mc split: if_splits)
    then show ?thesis using l r(1) Some s(1) g(2) by (simp add: DTAP_ChannelDel_def d1_def)
  qed
qed

section \<open>A link comes up\<close>

lemma module_live:
  assumes "module_ok d" "data_chans (dp d) a \<noteq> None"
  shows "\<exists>c. chan_heap (dp d) a = Some c \<and> chan_attr_ok c"
proof -
  obtain c0 as where "data_chans (dp d) a = Some c0" "DTAP_LogicLinkFind (lcid c0) d = Some as" "a \<in> set as"
    using assms unfolding module_ok_def by blast
  then show ?thesis using module_okD(2) [OF assms(1)] by blast
qed

lemma continue_basic_ok:
  assumes "module_ok d" "\<forall>a \<in> set as. data_chans (dp d) a \<noteq> None"
  shows "\<exists>d'. continue_basic e k as d = Some d' \<and> module_ok d' \<and> module_globals d' = module_globals d"
  using assms
proof (induction as arbitrary: k d)
  case (Cons a as)
  obtain c where c: "chan_heap (dp d) a = Some c" "chan_attr_ok c" using module_live [OF Cons.prems(1)] Cons.prems(2) by auto
  show ?case
  proof (cases "mode c = CM_TRANS_MODE_BASIC")
    case False
    then show ?thesis using Cons.IH [OF Cons.prems(1), of "Suc k"] Cons.prems(2) c(1) by simp
  next
    case True
    then obtain basic where b: "as_basic (attr c) = Some basic" using c(2) by (auto simp: chan_attr_ok_def basic_inv_def)
    obtain basic' d1 where r: "DTAP_RecvBasicFrameContinue (sub e k) basic d = (basic', d1)" by fastforce
    have d1: "dp d1 = dp d" "module_globals d1 = module_globals d" using r by (auto simp: DTAP_RecvBasicFrameContinue_def)
    let ?d = "store_attr a (BasicAttr basic') d1"
    have dc: "data_chans (dp ?d) = (data_chans (dp d))(a := map_option (\<lambda>c. c\<lparr>attr := Some (BasicAttr basic')\<rparr>) (data_chans (dp d) a))"
      by (simp add: store_attr_def data_chans_attr d1(1))
    have "sched_ok (dp ?d)" using Cons.prems(1) sched_ok_attr by (auto simp: store_attr_def d1(1) module_ok_def)
    moreover have "chan_attr_ok (c\<lparr>attr := Some (BasicAttr basic')\<rparr>)" using True by (simp add: chan_attr_ok_def basic_inv_def)
    ultimately have "module_ok ?d" using globals_map [of ?d d] d1(2) by (intro module_ok_attr [OF Cons.prems(1) _ _ dc c(1)]) simp_all
    moreover have "\<forall>b \<in> set as. data_chans (dp ?d) b \<noteq> None" using Cons.prems(2) unfolding dc by auto
    ultimately show ?thesis using Cons.IH [of ?d "Suc k"] c(1) True b r d1(2) by simp
  qed
qed simp

lemma link_state_ok:
  assumes "module_ok d"
  shows "\<exists>d'. DTAP_LogicLinkStateChangeCbk e param d = Some d' \<and> module_ok d' \<and> module_globals d' = module_globals d"
proof (cases "\<exists>l as. param = Some (CM_LINK_STATE_CONNECTED, l) \<and> DTAP_LogicLinkFind l d = Some as")
  case True
  then obtain l as where l: "param = Some (CM_LINK_STATE_CONNECTED, l)" "DTAP_LogicLinkFind l d = Some as" by blast
  have "\<forall>a \<in> set as. data_chans (dp d) a \<noteq> None" using module_link_list(2) [OF assms l(2)] by fastforce
  then show ?thesis using continue_basic_ok [OF assms, of as e 0] l by (simp add: DTAP_LogicLinkStateChangeCbk_def)
next
  case False
  then have "DTAP_LogicLinkStateChangeCbk e param d = Some d" by (auto simp: DTAP_LogicLinkStateChangeCbk_def split: option.splits)
  then show ?thesis using assms by simp
qed

end
