(* ===== verification/Dtap_Module_Props.thy ===== *)
theory Dtap_Module_Props
  imports Dtap_Module_Inv
begin

text \<open>
  Histories of the whole module and its properties: from a successful initialisation on, whatever the
  layers around it do and in whatever order, no operation touches memory that is not its own.
\<close>

section \<open>Timers\<close>

text \<open>The callback of a timer of a reliable channel, with the channel pointer it was created with.\<close>

definition reliable_timer :: "dtap_env \<Rightarrow> rel_event \<Rightarrow> nat \<Rightarrow> dtap \<Rightarrow> dtap option" where
  "reliable_timer e ev a d = do {
     c \<leftarrow> chan_heap (dp d) a;
     r \<leftarrow> as_reliable (attr c);
     (r', d') \<leftarrow> rel_step a c None e ev (r, d);
     Some (store_attr a (ReliableAttr r') d')
   }"

lemma globals_timers:
  assumes "rel_step a c cb e ev (r, d) = Some (r', d')" "ev \<in> {RelRetransTimer, RelReorderTimer, RelRspTimer}"
  shows "module_globals d' = module_globals d"
  using assms by (auto simp: DTAP_RetransTimerExpireProc_def DTAP_ReorderTimerExpireProc_def DTAP_RspTimerExpireProc_def
      split: if_splits bind_splits prod.splits dest!: globals_retrans globals_release globals_ack globals_restart)

lemma reliable_timer_ok:
  assumes d: "module_ok d" and c: "data_chans (dp d) a = Some c0" "mode c0 = CM_TRANS_MODE_RELIABLE" and ev: "ev \<in> {RelRetransTimer, RelReorderTimer, RelRspTimer}"
  shows "\<exists>d'. reliable_timer e ev a d = Some d' \<and> module_ok d' \<and> module_globals d' = module_globals d"
proof -
  obtain c where h: "chan_heap (dp d) a = Some c" "chan_attr_ok c" using module_live [OF d] c(1) by blast
  have m: "mode c = CM_TRANS_MODE_RELIABLE" using c h(1) by (auto simp: data_chan_heap)
  have p: "port_ok a d" using d c(1) by (simp add: port_ok_def module_ok_def)
  obtain r where r: "as_reliable (attr c) = Some r" "tx_ok r" "cache_ok r" "rx_frames_ok r" using h(2) m by (auto simp: chan_attr_ok_def reliable_inv_def)
  have inv: "rel_inv a (r, d)" "rel_event_ok ev" using r p ev by (auto simp: rel_inv_def)
  obtain r' d' where s: "rel_step a c None e ev (r, d) = Some (r', d')" "rel_to r d r' d'" using rel_step_ok [OF inv] by blast
  have "reliable_inv (Some (ReliableAttr r'))" using s(2) r(4) by (simp add: reliable_inv_def rel_to_def rx_frames_ok_def)
  then have "kept a reliable_inv d (store_attr a (ReliableAttr r') d')"
    using s(2) p globals_timers [OF s(1) ev] by (intro kept_store) (auto simp: rel_to_def port_to_def port_ok_def)
  then have "module_ok (store_attr a (ReliableAttr r') d')" using m by (intro kept_module_ok [OF d h(1)]) (auto simp: chan_attr_ok_def)
  then show ?thesis using h(1) r(1) s(1) globals_timers [OF s(1) ev] by (simp add: reliable_timer_def)
qed

text \<open>
  The queue of a stream channel the reorder timer leaves: the frames before \<open>reorderTxSeq\<close> go up, then those that
  follow without a gap.
\<close>

fun drop_run :: "u16 \<Rightarrow> StreamRxNode list \<Rightarrow> StreamRxNode list" where
  "drop_run seq [] = []"
| "drop_run seq (n # ns) = (if sn_txSeq n = seq then drop_run (DTAP_GetNextFrameSeq seq) ns else n # ns)"

definition timer_leaves :: "DTAP_Stream_Channel \<Rightarrow> StreamRxNode list" where
  "timer_leaves st =
     (let old = (\<lambda>n. DTAP_IsFrameSeqSmaller (sn_txSeq n) (reorderTxSeq st));
          gone = takeWhile old (st_rxList st)
      in drop_run (if gone = [] then expectedSeq st else DTAP_GetNextFrameSeq (sn_txSeq (last gone))) (dropWhile old (st_rxList st)))"

definition frames_wait :: "channel \<Rightarrow> bool" where
  "frames_wait c \<longleftrightarrow> (\<forall>st. as_stream (attr c) = Some st \<longrightarrow> timer_leaves st \<noteq> [])"

lemma report_before_eq:
  "fst (report_before e k c cb bound ns seq) = dropWhile (\<lambda>n. DTAP_IsFrameSeqSmaller (sn_txSeq n) bound) ns"
  "fst (snd (report_before e k c cb bound ns seq)) = (let gone = takeWhile (\<lambda>n. DTAP_IsFrameSeqSmaller (sn_txSeq n) bound) ns in
     if gone = [] then seq else DTAP_GetNextFrameSeq (sn_txSeq (last gone)))"
  by (induction ns arbitrary: k seq) (simp_all add: Let_def case_prod_beta)

lemma report_expected_eq: "fst (ReportExpectedStreamFrame e k c cb ns seq) = drop_run seq ns"
  by (induction ns arbitrary: k seq) (simp_all add: case_prod_beta)

lemma reorder_stream_total:
  assumes "timer_leaves st \<noteq> []"
  shows "\<exists>st' d'. reorder_stream e c st d = Some (st', d') \<and> dp d' = dp d \<and> module_globals d' = module_globals d"
proof -
  obtain ns1 seq1 us1 where 1: "report_before (sub e 0) 0 c (st_recvCb st) (reorderTxSeq st) (st_rxList st) (expectedSeq st) = (ns1, seq1, us1)"
    by (metis prod.collapse)
  obtain ns2 seq2 us2 where 2: "ReportExpectedStreamFrame (sub e 1) 0 c (st_recvCb st) ns1 seq1 = (ns2, seq2, us2)" by (metis prod.collapse)
  have "ns2 = timer_leaves st"
    using report_expected_eq [of "sub e 1" 0 c "st_recvCb st" ns1 seq1] report_before_eq [of "sub e 0" 0 c "st_recvCb st" "reorderTxSeq st" "st_rxList st" "expectedSeq st"]
    unfolding 1 2 by (simp add: timer_leaves_def Let_def)
  then obtain n ns where n: "ns2 = n # ns" using assms by (metis neq_Nil_conv)
  let ?st = "st\<lparr>reorderTimerHandle := INVALID_TIMER_HANDLE, st_rxList := ns2, expectedSeq := seq2, maxExpectedSeq := sn_txSeq (last ns2) + 1\<rparr>"
  let ?d = "d\<lparr>ups := ups d @ us1 @ us2\<rparr>"
  obtain st' d' where s: "StartReorderTimer (sub e 2) c ?st ?d = (st', d')" by fastforce
  have "dp d' = dp d \<and> module_globals d' = module_globals d"
    using s by (auto simp: StartReorderTimer_def Let_def split: if_splits prod.splits option.splits)
  moreover have "reorder_stream e c st d = Some (st', d')" using s n 1 2 by (simp add: reorder_stream_def)
  ultimately show ?thesis by blast
qed

lemma stream_timer_ok:
  assumes d: "module_ok d" and w: "\<And>a c. DTAP_ChannelSearch l tcid d = Some (Some a) \<Longrightarrow> chan_heap (dp d) a = Some c \<Longrightarrow> mode c = CM_TRANS_MODE_STREAM \<Longrightarrow> frames_wait c"
  shows "\<exists>d'. DTAP_ReorderStreamFrameTask e l tcid d = Some d' \<and> module_ok d'"
proof -
  obtain r where r: "DTAP_ChannelSearch l tcid d = Some r" "\<And>a. r = Some a \<Longrightarrow> port_ok a d \<and> (\<exists>c. chan_heap (dp d) a = Some c \<and> chan_attr_ok c)"
    using search_total [OF d, of l tcid] by blast
  show ?thesis
  proof (cases r)
    case (Some a)
    then obtain c where c: "port_ok a d" "chan_heap (dp d) a = Some c" "chan_attr_ok c" using r(2) by blast
    show ?thesis
    proof (cases "mode c = CM_TRANS_MODE_STREAM")
      case True
      then obtain st where st: "as_stream (attr c) = Some st" using c(3) by (auto simp: chan_attr_ok_def stream_inv_def)
      then have "timer_leaves st \<noteq> []" using w [of a c] r(1) Some c(2) True by (auto simp: frames_wait_def)
      then obtain st' d' where s: "reorder_stream e c st d = Some (st', d')" "dp d' = dp d" "module_globals d' = module_globals d"
        using reorder_stream_total by blast
      have "kept a stream_inv d (store_attr a (StreamAttr st') d')" using s(2,3) c(1) by (intro kept_store) (auto simp: port_ok_def stream_inv_def)
      then have "module_ok (store_attr a (StreamAttr st') d')" using True by (intro kept_module_ok [OF d c(2)]) (auto simp: chan_attr_ok_def)
      then show ?thesis using r(1) Some c(2) True st s(1) by (simp add: DTAP_ReorderStreamFrameTask_def)
    qed (use d r(1) Some c(2) in \<open>simp add: DTAP_ReorderStreamFrameTask_def\<close>)
  qed (use d r(1) in \<open>simp add: DTAP_ReorderStreamFrameTask_def\<close>)
qed

section \<open>Histories\<close>

datatype module_event =
    ModAdd CM_TransChan
  | ModDel CM_TransChan
  | ModSend "DTAP_Data option"
  | ModRecv u16 "SDF_Buff option"
  | ModStatus u16 u8 DTAP_errno
  | ModLink "(nat \<times> u16) option"
  | ModTimer rel_event nat
  | ModStreamTimer u16 u8
  | ModSched sched_event
  | ModRegister u8 "nat option"

fun module_step :: "dtap_env \<Rightarrow> module_event \<Rightarrow> dtap \<Rightarrow> dtap option" where
  "module_step e (ModAdd p) d = DTAP_ChannelStateChangeCbk e (Some (CM_TRANS_CHANNEL_STATE_ACTIVATED, Some [Some p])) d"
| "module_step e (ModDel p) d = DTAP_ChannelStateChangeCbk e (Some (CM_TRANS_CHANNEL_STATE_RELEASED, Some [Some p])) d"
| "module_step e (ModSend x) d = map_option snd (DTAP_DataSend e x d)"
| "module_step e (ModRecv l b) d = DTAP_DataRecv e l b d"
| "module_step e (ModStatus l tcid res) d = DTAP_ChannelSetStatus e l tcid res d"
| "module_step e (ModLink p) d = DTAP_LogicLinkStateChangeCbk e p d"
| "module_step e (ModTimer ev a) d = reliable_timer e ev a d"
| "module_step e (ModStreamTimer l tcid) d = DTAP_ReorderStreamFrameTask e l tcid d"
| "module_step e (ModSched ev) d = map_option (\<lambda>s. d\<lparr>dp := s\<rparr>) (sched_event_step e ev (dp d))"
| "module_step e (ModRegister tcid cb) d = Some (snd (DTAP_RegisterDataRecvCb e tcid cb d))"

text \<open>
  What the events keep to: a channel is activated only while no channel answers to its identifier and is
  released under its own identifier, its window is an 8-bit number, a packet comes in a well-formed
  buffer with 12 bytes of room for the headers, no aggregate frames arrive on reliable channels, the timers
  of a reliable channel fire while the channel lives, and a stream reorder timer leaves frames in the queue
  of the channel it finds (\<open>stream_idle_timeout\<close> shows what happens when it empties the queue).
\<close>

fun module_event_ok :: "module_event \<Rightarrow> dtap \<Rightarrow> bool" where
  "module_event_ok (ModAdd p) d \<longleftrightarrow> DTAP_ChannelSearch (tp_lcid p) (tp_srcTcid p) d = Some None \<and> cfg_txWindow (config p) \<le> 255"
| "module_event_ok (ModDel p) d \<longleftrightarrow> (case DTAP_ChannelSearch (tp_lcid p) (tp_srcTcid p) d of
     Some (Some a) \<Rightarrow> map_option srcTcid (chan_heap (dp d) a) = Some (tp_srcTcid p) | _ \<Rightarrow> True)"
| "module_event_ok (ModSend x) d \<longleftrightarrow> (case x of None \<Rightarrow> True | Some y \<Rightarrow>
     (case dt_buff y of None \<Rightarrow> True | Some b \<Rightarrow> buff_ok b \<and> 12 \<le> SDF_BuffHeadRoom b))"
| "module_event_ok (ModRecv l x) d \<longleftrightarrow> (case x of None \<Rightarrow> True | Some b \<Rightarrow> buff_ok b \<and> no_reliable_aggregate l b d)"
| "module_event_ok (ModTimer ev a) d \<longleftrightarrow> ev \<in> {RelRetransTimer, RelReorderTimer, RelRspTimer}
     \<and> map_option mode (data_chans (dp d) a) = Some CM_TRANS_MODE_RELIABLE"
| "module_event_ok (ModStreamTimer l tcid) d \<longleftrightarrow> (case DTAP_ChannelSearch l tcid d of
     Some (Some a) \<Rightarrow> (case chan_heap (dp d) a of Some c \<Rightarrow> mode c = CM_TRANS_MODE_STREAM \<longrightarrow> frames_wait c | None \<Rightarrow> True) | _ \<Rightarrow> True)"
| "module_event_ok (ModSched ev) d \<longleftrightarrow> event_ok (data_chans (dp d)) ev"
| "module_event_ok _ d \<longleftrightarrow> True"

lemma module_ok_sched: "module_ok d \<Longrightarrow> sched_ok s \<Longrightarrow> data_chans s = data_chans (dp d) \<Longrightarrow> module_ok (d\<lparr>dp := s\<rparr>)"
  by (simp add: module_ok_def DTAP_LogicLinkFind_def)

lemma module_ok_register: "module_ok d \<Longrightarrow> module_ok (snd (DTAP_RegisterDataRecvCb e tcid cb d))"
  by (auto simp: module_ok_def DTAP_LogicLinkFind_def DTAP_RegisterDataRecvCb_def DTAP_AddDataRecvCbkEntry_def split: option.splits)

lemma module_step_ok:
  assumes "module_ok d" "module_event_ok ev d"
  shows "\<exists>d'. module_step e ev d = Some d' \<and> module_ok d'"
proof (cases ev)
  case (ModAdd p)
  then show ?thesis using channel_add_ok [OF assms(1), of p "sub e 0"] assms(2) by (auto simp: DTAP_ChannelStateChangeCbk_def)
next
  case (ModDel p)
  then show ?thesis using channel_del_ok [OF assms(1), of p] assms(2) by (fastforce simp: DTAP_ChannelStateChangeCbk_def)
next
  case (ModSend x)
  then show ?thesis using data_send_module_ok [OF assms(1), of x e] assms(2) by fastforce
next
  case (ModRecv l b)
  then show ?thesis using data_recv_ok [OF assms(1), of b l e] assms(2) by fastforce
next
  case (ModStatus l tcid res)
  then show ?thesis using set_status_ok [OF assms(1), of e l tcid res] by auto
next
  case (ModLink p)
  then show ?thesis using link_state_ok [OF assms(1), of e p] by auto
next
  case (ModTimer t a)
  then show ?thesis using reliable_timer_ok [OF assms(1), of a _ t e] assms(2) by auto
next
  case (ModStreamTimer l tcid)
  have "frames_wait c" if "DTAP_ChannelSearch l tcid d = Some (Some a)" "chan_heap (dp d) a = Some c" "mode c = CM_TRANS_MODE_STREAM" for a c
    using that assms(2) ModStreamTimer by simp
  then show ?thesis using stream_timer_ok [OF assms(1), of l tcid e] ModStreamTimer by simp
next
  case (ModSched v)
  obtain s where "sched_event_step e v (dp d) = Some s" "sched_ok s" "data_chans s = data_chans (dp d)"
    using event_step_ok [of "dp d" v e] assms ModSched by (auto simp: module_ok_def)
  then show ?thesis using ModSched module_ok_sched [OF assms(1)] by simp
next
  case (ModRegister tcid cb)
  then show ?thesis using module_ok_register [OF assms(1)] by simp
qed

inductive module_reach :: "dtap \<Rightarrow> dtap \<Rightarrow> bool" where
  start: "module_reach d d"
| event: "module_reach d d1 \<Longrightarrow> module_event_ok ev d1 \<Longrightarrow> module_step e ev d1 = Some d2 \<Longrightarrow> module_reach d d2"

lemma module_reach_ok: "module_reach d d' \<Longrightarrow> module_ok d \<Longrightarrow> module_ok d'"
proof (induction rule: module_reach.induct)
  case (event d d1 ev e d2)
  then show ?case using module_step_ok [of d1 ev e] by auto
qed

text \<open>The module as it is loaded, before the first initialisation.\<close>

definition dtap_unused :: "dtap \<Rightarrow> bool" where
  "dtap_unused d \<longleftrightarrow> chan_heap (dp d) = Map.empty \<and> \<not> g_isInited (dp d) \<and> \<not> g_dtapIsInited d"

lemma init_module_ok:
  assumes "dtap_unused d0" "DTAP_Init e ca cb d0 = (DtapRet DTAP_SUCCESS, d)"
  shows "module_ok d"
proof -
  have d: "g_dtapLogicLinksMap d = Some []" "dp d = DTAP_SchedulerInitInner (dp d0)"
    using assms by (auto simp: dtap_unused_def DTAP_Init_def DTAP_ChannelInit_def DTAP_LogicLinkMapInit_def DTAP_RegisterDataRecvCb_def
        DTAP_AddDataRecvCbkEntry_def Let_def split: if_splits prod.splits option.splits)
  then have s: "chan_heap (dp d) = Map.empty" "g_dtapScheduler (dp d) = map empty_queue [0 ..< DTAP_PRIORITY_MAX]"
    using assms(1) by (simp_all add: dtap_unused_def DTAP_SchedulerInitInner_def)
  then have "sched_ok (dp d)" by (simp add: sched_ok_def heap_ok_def queue_ok_def empty_queue_def del: upt_Suc)
  then show ?thesis using d(1) s(1) by (simp add: module_ok_def map_ok_def DTAP_LogicLinkFind_def data_chans_def)
qed

section \<open>Properties\<close>

text \<open>
  (C2) The module as a whole is safe: after a successful \<open>DTAP_Init\<close>, for every order of activated and released
  channels, packets to send, received packets with any content, status changes, expiring timers of the
  reliable and of the stream mode, and events of the data link, with any outcome of allocations, timer
  creations and transmissions, every further operation completes without an invalid memory access, and the
  links, the channels, their attributes and the queues of the scheduler stay consistent. Excepted are: an
  activation while a channel already answers to the identifier, which frees the channel and leaves its
  packets in the scheduler, a release that finds a channel of another identifier, aggregate frames on reliable channels
  (\<open>copied_aggregate_dangles\<close>), and a stream reorder timer that finds or leaves an empty queue
  (\<open>stream_idle_timeout\<close>). Packets to send come in well-formed buffers with 12 bytes of room in front,
  windows are at most 255, and the timers of a reliable channel end with it.
\<close>

theorem module_never_stuck:
  assumes "dtap_unused d0" "DTAP_Init e0 ca cb d0 = (DtapRet DTAP_SUCCESS, d)" "module_reach d d'" "module_event_ok ev d'"
  shows "module_ok d' \<and> (\<exists>d''. module_step e ev d' = Some d'' \<and> module_ok d'')"
  using module_step_ok module_reach_ok [OF assms(3) init_module_ok [OF assms(1,2)]] assms(4) by blast

definition demo_unused :: dtap where
  "demo_unused = demo_dtap\<lparr>dp := (dp demo_dtap)\<lparr>chan_heap := Map.empty, g_isInited := False\<rparr>, g_dtapLogicLinksMap := None, g_dtapIsInited := False\<rparr>"

definition demo_answers :: cm_answers where
  "demo_answers = \<lparr>ca_map = True, ca_post = True, ca_signaling = 0, ca_channelReg = 0, ca_linkReg = 0\<rparr>"

definition demo_config :: CM_TransChan where
  "demo_config = \<lparr>tp_castMode = 0, tp_lcid = 7, tp_srcTcid = 0x80, tp_dstTcid = 0x81, config = \<lparr>transMode = CM_TRANS_MODE_RELIABLE,
     cfg_mtu = 1000, cfg_mps = 251, cfg_reorderTimeout = 0, cfg_crcInit = 0x1234, cfg_thirdTimeout = 0, cfg_rspTimeout = 0, cfg_txWindow = 0, cfg_maxTxThreshold = 5\<rparr>\<rparr>"

definition demo_noise :: SDF_Buff where
  "demo_noise = \<lparr>buff_addr = 1, dataOff = 0, dataLen = 6, buffLen = 6, buff = [0x80, 0x24, 2, 0, 9, 9]\<rparr>"

theorem module_never_stuck_witness:
  "\<exists>d d'. DTAP_Init (granting_env DTAP_SUCCESS) demo_answers 3 demo_unused = (DtapRet DTAP_SUCCESS, d)
    \<and> DTAP_ChannelStateChangeCbk (granting_env DTAP_SUCCESS) (Some (2, Some [Some demo_config])) d = Some d'
    \<and> DTAP_DataRecv (granting_env DTAP_SUCCESS) 7 (Some demo_noise) d' \<noteq> None"
proof -
  let ?e = "granting_env DTAP_SUCCESS"
  obtain x where x: "SDF_MemZalloc ?e = Some x" using alloc_okD [of ?e] by auto
  define d where "d = snd (DTAP_Init ?e demo_answers 3 demo_unused)"
  have u: "dtap_unused demo_unused" by (simp add: dtap_unused_def demo_unused_def)
  have i: "DTAP_Init ?e demo_answers 3 demo_unused = (DtapRet DTAP_SUCCESS, d)"
    using x by (simp add: d_def DTAP_Init_def demo_unused_def demo_answers_def DTAP_RegisterDataRecvCb_def DTAP_AddDataRecvCbkEntry_def
        DTAP_ChannelInit_def DTAP_LogicLinkMapInit_def Let_def)
  have "g_dtapLogicLinksMap d = Some []"
    using x by (simp add: d_def DTAP_Init_def demo_unused_def demo_answers_def DTAP_RegisterDataRecvCb_def DTAP_AddDataRecvCbkEntry_def
        DTAP_ChannelInit_def DTAP_LogicLinkMapInit_def Let_def)
  then have a: "module_event_ok (ModAdd demo_config) d" by (simp add: DTAP_ChannelSearch_def DTAP_LogicLinkFind_def demo_config_def)
  obtain d' where s: "module_step ?e (ModAdd demo_config) d = Some d'" using module_never_stuck [OF u i module_reach.start a, of ?e] by blast
  have "module_event_ok (ModRecv 7 (Some demo_noise)) d'"
    by (simp add: no_reliable_aggregate_def demo_noise_def buff_ok_def buff_data_def hdr_frameType_def get_field_def)
  from module_never_stuck [OF u i module_reach.event [OF module_reach.start a s] this, of ?e]
  have "DTAP_DataRecv ?e 7 (Some demo_noise) d' \<noteq> None" by auto
  then show ?thesis using i s by auto
qed

text \<open>
  Channels are created well-formed for every configuration: the identifiers and sizes are those asked for, the priority follows
  from the identifier, the attributes are those of the mode, timeouts of zero are replaced and the stream timeouts are cut at their
  maximum, and a reliable channel starts in the state from which packets are delivered in order and exactly
  once, with a window of one to 255 frames.
\<close>

theorem channel_create_type:
  assumes "DTAP_ChannelCreate e p d = (Some a, d')" "cfg_txWindow (config p) \<le> 255"
  shows "\<exists>c. chan_heap (dp d') a = Some c \<and> lcid c = tp_lcid p \<and> srcTcid c = tp_srcTcid p \<and> dstTcid c = tp_dstTcid p \<and> mtu c = cfg_mtu (config p) \<and> mps c = cfg_mps (config p) \<and> pktList c = []
    \<and> priority c = (if tp_srcTcid p = CM_TCID_SLE_CMTC then DTAP_PRIORITY_CMD else if tp_srcTcid p \<le> CM_TCID_SLE_CUTC then DTAP_PRIORITY_HIGH else DTAP_PRIORITY_NORMAL)
    \<and> (case attr c of
         None \<Rightarrow> mode c \<notin> {CM_TRANS_MODE_BASIC, CM_TRANS_MODE_STREAM, CM_TRANS_MODE_RELIABLE}
       | Some (BasicAttr x) \<Rightarrow> mode c = CM_TRANS_MODE_BASIC \<and> cacheRxBuffs x = [] \<and> (isReady x \<longleftrightarrow> srcTcid c \<noteq> CM_TCID_SLE_SMTC)
       | Some (StreamAttr x) \<Rightarrow> mode c = CM_TRANS_MODE_STREAM \<and> st_flushTimeout x \<in> {1..1000} \<and> st_reorderTimeout x \<in> {1..1000}
           \<and> expectedSeq x = DTAP_FRAME_SEQ_INIT \<and> st_rxList x = []
       | Some (ReliableAttr r) \<Rightarrow> mode c = CM_TRANS_MODE_RELIABLE \<and> (\<forall>sdu. rx_chan sdu 0 [] r) \<and> tw_size (txWindow r) \<in> {1..255}
           \<and> 0 < rc_retransTimeout r \<and> 0 < rc_rspTimeout r \<and> 0 < rc_reorderTimeout r)"
proof -
  obtain x d1 where x: "create_attr (sub e 1) p d = (Some x, d1)" "chan_heap (dp d') a = Some ((new_channel p)\<lparr>attr := x\<rparr>)"
    using assms(1) by (auto simp: DTAP_ChannelCreate_def split: option.splits prod.splits)
  have r0: "rx_chan sdu 0 [] r" if "rxWindow r = DTAP_InitRxWindow w" "txWindow r = DTAP_InitTxWindow w" "\<not> isRxWindowFull r" "cacheBuff r = None" "frags r = None" "0 < w" "w \<le> 255" for sdu r w
    using that by (simp add: rx_chan_def rx_at_def rx_queue_def tx_ok_def cache_ok_def DTAP_InitRxWindow_def DTAP_InitTxWindow_def frags_hold_def)
  have "case x of
         None \<Rightarrow> transMode (config p) \<notin> {CM_TRANS_MODE_BASIC, CM_TRANS_MODE_STREAM, CM_TRANS_MODE_RELIABLE}
       | Some (BasicAttr x) \<Rightarrow> transMode (config p) = CM_TRANS_MODE_BASIC \<and> cacheRxBuffs x = [] \<and> (isReady x \<longleftrightarrow> tp_srcTcid p \<noteq> CM_TCID_SLE_SMTC)
       | Some (StreamAttr x) \<Rightarrow> transMode (config p) = CM_TRANS_MODE_STREAM \<and> st_flushTimeout x \<in> {1..1000} \<and> st_reorderTimeout x \<in> {1..1000}
           \<and> expectedSeq x = DTAP_FRAME_SEQ_INIT \<and> st_rxList x = []
       | Some (ReliableAttr r) \<Rightarrow> transMode (config p) = CM_TRANS_MODE_RELIABLE \<and> (\<forall>sdu. rx_chan sdu 0 [] r) \<and> tw_size (txWindow r) \<in> {1..255}
           \<and> 0 < rc_retransTimeout r \<and> 0 < rc_rspTimeout r \<and> 0 < rc_reorderTimeout r"
    using x(1) assms(2)
    by (auto simp: create_attr_def DTAP_BasicChannelCreate_def DTAP_StreamChannelCreate_def DTAP_ReliableChannelCreate_def Let_def DTAP_InitTxWindow_def
        intro!: r0 split: if_splits option.splits prod.splits)
  moreover have "priority (new_channel p) = (if tp_srcTcid p = CM_TCID_SLE_CMTC then DTAP_PRIORITY_CMD else if tp_srcTcid p \<le> CM_TCID_SLE_CUTC then DTAP_PRIORITY_HIGH else DTAP_PRIORITY_NORMAL)"
      "dstTcid (new_channel p) = tp_dstTcid p" "mtu (new_channel p) = cfg_mtu (config p)" "mps (new_channel p) = cfg_mps (config p)"
    by (simp_all add: new_channel_def channel_priority_def)
  ultimately show ?thesis using x(2) by (intro exI [of _ "(new_channel p)\<lparr>attr := x\<rparr>"]) (simp split: option.splits trans_attr.splits)
qed

theorem channel_create_type_witness:
  "\<exists>a d' c r. DTAP_ChannelCreate (granting_env DTAP_SUCCESS) demo_config demo_unused = (Some a, d') \<and> chan_heap (dp d') a = Some c
    \<and> priority c = DTAP_PRIORITY_NORMAL \<and> attr c = Some (ReliableAttr r) \<and> tw_size (txWindow r) = 200"
proof -
  let ?e = "granting_env DTAP_SUCCESS"
  obtain x y z where al: "SDF_MemZalloc (sub ?e 0) = Some x" "SDF_MemZalloc (sub (sub ?e 1) 0) = Some y"
    using alloc_okD [of "sub ?e 0"] alloc_okD [of "sub (sub ?e 1) 0"] by auto
  obtain a d' where c: "DTAP_ChannelCreate ?e demo_config demo_unused = (Some a, d')" "\<exists>c r. chan_heap (dp d') a = Some c \<and> attr c = Some (ReliableAttr r) \<and> tw_size (txWindow r) = 200"
    using al by (simp add: DTAP_ChannelCreate_def create_attr_def demo_config_def DTAP_ReliableChannelCreate_def DTAP_TransStartTimer_def CP_TimerAdd_def
        DTAP_InitTxWindow_def Let_def)
  have "cfg_txWindow (config demo_config) \<le> 255" by (simp add: demo_config_def)
  from channel_create_type [OF c(1) this] show ?thesis using c by (auto simp: demo_config_def)
qed

text \<open>
  (C34) Activating a channel that exists already leaves a dangling pointer: \<open>DTAP_ChannelAdd\<close> frees the old channel
  without taking it out of the scheduler, so a queue that listed it still does, and when the channel is the
  next one of its link with a packet waiting, the scheduler reads the freed channel.
\<close>

theorem channel_readd_dangles:
  assumes d: "module_ok d" and a: "DTAP_ChannelSearch (tp_lcid p) (tp_srcTcid p) d = Some (Some a)"
    and n: "i < DTAP_PRIORITY_MAX" "n \<in> set (lcidList (g_dtapScheduler (dp d) ! i))" "channelList n = a # as" "ln_pktCnt n \<noteq> 0"
  shows "\<exists>d'. DTAP_ChannelAdd e p d = Some d' \<and> chan_heap (dp d') a = None \<and> n \<in> set (lcidList (g_dtapScheduler (dp d') ! i))
    \<and> DTAP_PriorityQueuePeek i (ln_lcid n) (dp d') = None"
proof -
  obtain bs where l: "DTAP_LogicLinkFind (tp_lcid p) d = Some bs" "DTAP_ChannelFind d bs (tp_srcTcid p) = Some (Some a)"
    using a by (auto simp: DTAP_ChannelSearch_def split: option.splits)
  have live: "chan_heap (dp d) a \<noteq> None" and s: "sched_ok (dp d)"
    using search_total [OF d, of "tp_lcid p" "tp_srcTcid p"] a d by (auto simp: module_ok_def)
  then have lt: "a < chan_next (dp d)" unfolding sched_ok_def heap_ok_def by blast
  let ?d = "DTAP_ChannelDestroy a d"
  obtain r d2 where r: "DTAP_ChannelCreate (sub e 2) p ?d = (r, d2)" by fastforce
  note c = create_obtain [OF r]
  have "chan_heap (dp d2) a = None" "g_dtapScheduler (dp d2) = g_dtapScheduler (dp d)"
    using c(3,4) lt by (cases r; auto simp: DTAP_ChannelDestroy_def)+
  moreover obtain d' where "DTAP_ChannelAdd e p d = Some d'" "dp d' = dp d2"
    using l r by (cases r) (auto simp: DTAP_ChannelAdd_def add_to_link_def)
  moreover have "DTAP_GetLcidNode (g_dtapScheduler (dp d) ! i) (ln_lcid n) = Some n"
  proof -
    have "distinct (map ln_lcid (lcidList (g_dtapScheduler (dp d) ! i)))" using s n(1) by (auto simp: sched_ok_def queue_ok_def)
    moreover have "distinct (map ln_lcid ns) \<Longrightarrow> n \<in> set ns \<Longrightarrow> find (\<lambda>m. ln_lcid m = ln_lcid n) ns = Some n" for ns by (induction ns) auto
    ultimately show ?thesis using n(2) by (simp add: DTAP_GetLcidNode_def)
  qed
  ultimately show ?thesis using n by (auto simp: DTAP_PriorityQueuePeek_def)
qed

definition demo_waiting :: dtap where
  "demo_waiting = demo_dtap\<lparr>dp := (dp demo_dtap)\<lparr>
     chan_heap := [0 \<mapsto> demo_channel\<lparr>pktList := [\<lparr>pkt_buff = demo_buff, pkt_seq = 0, isSplited = False\<rparr>]\<rparr>],
     g_dtapScheduler := [empty_queue 0, empty_queue 1, empty_queue 2,
       \<lparr>lcidList = [\<lparr>channelList = [0], hasScheduled = False, ln_lcid = 7, ln_priority = 3, ln_pktCnt = 1\<rparr>], q_priority = 3, q_pktCnt = 1\<rparr>]\<rparr>\<rparr>"

lemma demo_waiting_ok: "module_ok demo_waiting"
proof -
  let ?s = "dp demo_waiting"
  have q: "queue_ok (chan_heap ?s) i (g_dtapScheduler ?s ! i)" if "i < 4" for i
  proof -
    have "i = 0 \<or> i = 1 \<or> i = 2 \<or> i = 3" using that by linarith
    then show ?thesis
      by (auto simp: queue_ok_def demo_waiting_def empty_queue_def node_ok_def chan_ok_def demo_channel_def pkts_def pkt_ok_def
          demo_buff_def buff_ok_def SDF_BuffHeadRoom_def)
  qed
  have "heap_ok ?s" by (auto simp: heap_ok_def demo_waiting_def demo_dtap_def demo_channel_def split: if_splits)
  then have "sched_ok ?s" using q by (simp add: sched_ok_def demo_waiting_def)
  moreover have "reliable_inv (Some (ReliableAttr demo_rel))"
    by (simp add: reliable_inv_def tx_ok_def cache_ok_def rx_frames_ok_def demo_rel_def)
  ultimately show ?thesis
    by (auto simp: module_ok_def map_ok_def DTAP_LogicLinkFind_def demo_waiting_def demo_dtap_def data_chans_def demo_channel_def chan_attr_ok_def split: if_splits)
qed

theorem channel_readd_dangles_witness:
  "\<exists>d'. DTAP_ChannelAdd (granting_env DTAP_SUCCESS) demo_config demo_waiting = Some d' \<and> DTAP_PriorityQueuePeek DTAP_PRIORITY_NORMAL 7 (dp d') = None"
proof -
  have "DTAP_ChannelSearch (tp_lcid demo_config) (tp_srcTcid demo_config) demo_waiting = Some (Some 0)"
    by (simp add: DTAP_ChannelSearch_def DTAP_LogicLinkFind_def DTAP_ChannelFind_def demo_config_def demo_waiting_def demo_dtap_def demo_channel_def)
  from channel_readd_dangles [OF demo_waiting_ok this, of 3 "\<lparr>channelList = [0], hasScheduled = False, ln_lcid = 7, ln_priority = 3, ln_pktCnt = 1\<rparr>" "[]"]
  show ?thesis by (simp add: demo_waiting_def) blast
qed

text \<open>
  (C26) Packets of the basic mode arrive: what \<open>DTAP_SendBasicFrame\<close> passes to the scheduler for a channel whose peer
  identifier is \<open>tcid\<close>, whatever else the sender's state is, makes \<open>DTAP_DataRecv\<close> on the peer call the callback
  registered for the receiving channel exactly once, with the packet unchanged, its link and channel, and the
  protocol identifier for channels that carry one.
\<close>

theorem basic_end_to_end:
  assumes rx: "DTAP_ChannelSearch l tcid d = Some (Some a)" "chan_heap (dp d) a = Some c" "mode c = CM_TRANS_MODE_BASIC"
      "attr c = Some (BasicAttr basic)" "isReady basic" "DTAP_GetDataRecvCbkByTcid (srcTcid c) d = Some cb"
    and b: "buff_ok b" "12 \<le> SDF_BuffHeadRoom b" "dataLen b \<le> mps c" "dataLen b \<le> 65534"
  shows "\<exists>b'. (\<forall>(e0 :: dtap_env) a0 c0 d0. dstTcid c0 = tcid \<longrightarrow> DTAP_SendBasicFrame e0 a0 c0 pi b d0 = DTAP_SendFrame (sub e0 1) a0 (Some b') d0)
    \<and> (\<exists>d' res. DTAP_DataRecv e l (Some b') d = Some d' \<and> ups d' = ups d @ [\<lparr>up_cb = cb,
         up_info = \<lparr>info_pi = (if tcid \<le> TCID_FTC_RFU_END then DTAP_PI_NONE else pi), info_lcid = lcid c, info_tcid = srcTcid c\<rparr>,
         up_data = buff_data b, up_result = res\<rparr>])"
proof -
  let ?g = "zero_frame\<lparr>f_pi := pi, f_buff := Some b, f_ctx := g_dtapFrameBasicCtx\<rparr>"
  have gb: "f_buff ?g = Some b" and hr: "5 \<le> SDF_BuffHeadRoom b" using b(2) by simp_all
  obtain b' old where b': "DTAP_BuildBasicFrame ?g tcid = Some (DTAP_SUCCESS, ?g\<lparr>f_buff := Some b'\<rparr>)" "buff_ok b'"
    "buff_data b' = BasicFrameHeader ?g tcid (dataLen b) old @ buff_data b"
    using DTAP_BuildBasicFrame_Some [OF gb b(1) hr, of tcid] by metis
  have send: "DTAP_SendBasicFrame e0 a0 c0 pi b d0 = DTAP_SendFrame (sub e0 1) a0 (Some b') d0" if "dstTcid c0 = tcid" for e0 :: dtap_env and a0 c0 d0
    using b'(1) that by (simp add: DTAP_SendBasicFrame_def basic_ctx)
  obtain fr where fr: "DTAP_ParseFrame (hdr_frameType (buff_data b' ! 1)) b' zero_frame = Some (DTAP_SUCCESS, fr)" "f_ctx fr = g_dtapFrameBasicCtx"
    "checkFrameHeader (f_ctx fr) fr = Some True" "f_pi fr = (if tcid \<le> TCID_FTC_RFU_END then DTAP_PI_NONE else pi)" "payloadLen fr = dataLen b"
    "drop (headerLen fr) (buff_data b') = buff_data b" "unat (DECODE2BYTE_LITTLE (buff_data b' ! 2) (buff_data b' ! 3)) + 4 = dataLen b'"
    using basic_image_received [OF b'(2), of ?g tcid "buff_data b" old] b'(3) b(1,4) by (auto simp: length_buff_data)
  have t0: "buff_data b' ! 0 = tcid" using b'(3) by (simp add: BasicFrameHeader_def BasicHeader_bytes_def)
  have len: "4 \<le> dataLen b'" "dataLen b' \<le> 65539" using fr(7) unsigned_less [of "DECODE2BYTE_LITTLE (buff_data b' ! 2) (buff_data b' ! 3)", where ?'a = nat] by auto
  have rd: "read_u8 [b'] (SDF_DataOffset b') 0 = Some tcid" "read_u8 [b'] (SDF_DataOffset b') 1 = Some (buff_data b' ! 1)"
    "read_u16 [b'] (SDF_DataOffset b') 2 = Some (DECODE2BYTE_LITTLE (buff_data b' ! 2) (buff_data b' ! 3))"
    using len(1) b'(2) t0 by (simp_all add: read_u16_data read_u8_data numeral_3_eq_3)
  have at: "frame_at fr b'" "getFrameType (f_ctx fr) = hdr_frameType (buff_data b' ! 1)" "frame_tiles fr b'"
    using DTAP_ParseFrame_safe [OF b'(2) len, of "hdr_frameType (buff_data b' ! 1)"] fr(1) by auto
  have ck: "DTAP_CheckBasicFrame fr = Some True"
    using header_type [OF at(1) len(1)] at(2) fr(2) by (simp add: DTAP_CheckBasicFrame_def)
  have "headerLen fr \<le> dataLen b'" using at(3) fr(2) by (simp add: frame_tiles_def)
  then obtain off b1 where t: "SDF_BuffTrimPrefix (Some b') (headerLen fr) = Some (off, b1)" by simp
  have b1: "buff_data b1 = buff_data b" using SDF_BuffTrimPrefix_Some(2) [OF t b'(2)] fr(6) by simp
  let ?info = "\<lparr>info_pi = f_pi fr, info_lcid = lcid c, info_tcid = srcTcid c\<rparr>"
  have rb: "DTAP_RecvBasicFrame e c fr (Some cb) basic d = (DTAP_SUCCESS, basic, d\<lparr>ups := ups d @ snd (call_cb (sub e 1) (Some cb) ?info b1)\<rparr>)"
    using t at(1) rx(5) by (simp add: DTAP_RecvBasicFrame_def frame_at_def Let_def del: SDF_BuffTrimPrefix.simps)
  have "DTAP_GetTransMode (mode c) = Some g_dtapBasicTransMode" using rx(3) get_mode [of g_dtapBasicTransMode] by simp
  then have "DTAP_DataRecv e l (Some b') d = Some (store_attr a (BasicAttr basic) (d\<lparr>ups := ups d @ snd (call_cb (sub e 1) (Some cb) ?info b1)\<rparr>))"
    using rx rd len(1) fr(1,3,5,7) b(3) ck rb by (simp add: DTAP_DataRecv_def DTAP_DataRecvFrame_def)
  then show ?thesis using send b1 fr(4) by (intro exI [of _ b'] conjI) (auto simp: store_attr_def call_cb_def)
qed

definition demo_basic_channel :: channel where
  "demo_basic_channel = demo_channel\<lparr>mode := CM_TRANS_MODE_BASIC, attr := Some (BasicAttr \<lparr>isReady = True, cacheRxBuffs = []\<rparr>)\<rparr>"

definition demo_basic_module :: dtap where
  "demo_basic_module = demo_dtap\<lparr>dp := (dp demo_dtap)\<lparr>chan_heap := [0 \<mapsto> demo_basic_channel]\<rparr>, g_dtapRecvCbks := [(0x80, 9)]\<rparr>"

definition demo_packet :: SDF_Buff where
  "demo_packet = \<lparr>buff_addr = 1, dataOff = 14, dataLen = 2, buffLen = 18, buff = replicate 14 0 @ [7, 8, 0, 0]\<rparr>"

theorem basic_end_to_end_witness:
  "\<exists>b' d'. DTAP_SendBasicFrame (granting_env DTAP_SUCCESS) 0 (demo_channel\<lparr>dstTcid := 0x80\<rparr>) 5 demo_packet demo_dtap
      = DTAP_SendFrame (sub (granting_env DTAP_SUCCESS) 1) 0 (Some b') demo_dtap
    \<and> DTAP_DataRecv (granting_env DTAP_SUCCESS) 7 (Some b') demo_basic_module = Some d' \<and> map up_data (ups d') = [[7, 8]]"
proof -
  have rx: "DTAP_ChannelSearch 7 0x80 demo_basic_module = Some (Some 0)" "chan_heap (dp demo_basic_module) 0 = Some demo_basic_channel"
    "DTAP_GetDataRecvCbkByTcid (srcTcid demo_basic_channel) demo_basic_module = Some 9"
    by (simp_all add: DTAP_ChannelSearch_def DTAP_LogicLinkFind_def DTAP_ChannelFind_def DTAP_GetDataRecvCbkByTcid_def demo_basic_module_def demo_basic_channel_def
        demo_dtap_def demo_channel_def)
  have "buff_ok demo_packet" "12 \<le> SDF_BuffHeadRoom demo_packet" "dataLen demo_packet \<le> mps demo_basic_channel" "dataLen demo_packet \<le> 65534" "buff_data demo_packet = [7, 8]" "ups demo_basic_module = []"
    by (simp_all add: demo_packet_def buff_ok_def SDF_BuffHeadRoom_def buff_data_def demo_basic_module_def demo_dtap_def demo_basic_channel_def demo_channel_def)
  moreover have "mode demo_basic_channel = CM_TRANS_MODE_BASIC" "attr demo_basic_channel = Some (BasicAttr \<lparr>isReady = True, cacheRxBuffs = []\<rparr>)"
    by (simp_all add: demo_basic_channel_def)
  ultimately obtain b' d' res where "\<forall>(e0 :: dtap_env) a0 c0 d0. dstTcid c0 = 0x80 \<longrightarrow> DTAP_SendBasicFrame e0 a0 c0 5 demo_packet d0 = DTAP_SendFrame (sub e0 1) a0 (Some b') d0"
    "DTAP_DataRecv (granting_env DTAP_SUCCESS) 7 (Some b') demo_basic_module = Some d'" "map up_data (ups d') = [[7, 8]]"
    using basic_end_to_end [OF rx(1,2) _ _ _ rx(3), of "\<lparr>isReady = True, cacheRxBuffs = []\<rparr>" demo_packet 5 "granting_env DTAP_SUCCESS"] by force
  then show ?thesis by (intro exI [of _ b'] exI [of _ d']) simp
qed

end
