(* ===== verification/Cm_Codec.thy ===== *)
theory Cm_Codec
  imports Dtap_Channel
begin

text \<open>
  The signalling messages of the connection management for transport channels: packing and parsing of the
  establish request with its mode parameters, service index and ports (\<open>cm_signaling_trans_channel.c\<close>,
  \<open>cm_signaling_struct.h\<close>), and the head of every signalling message (\<open>cm_signaling_cap.c\<close>). The lemmas show that
  parsing never reads outside the message, that packing fills exactly the memory it allocates, and that what
  one side packs the other parses to the same request.
\<close>

section \<open>Results\<close>

text \<open>\<open>CM_SDF_ERR\<close> and \<open>CM_DTAP_ERR\<close> stand for error codes passed through from the timer service and from DTAP.\<close>

datatype CM_errno = CM_SUCCESS | CM_FAIL | CM_INVALID_PARAM_ERR | CM_MEM_ERR | CM_NOT_INITED | CM_NOT_FOUND
  | CM_NULL_POINTER | CM_MAP_INSERT_ERR | CM_SDF_ERR | CM_DTAP_ERR

section \<open>Structures\<close>

record CM_SignalingPortConfig =
  pc_srcPort :: u16
  pc_dstPort :: u16
  pc_aid :: u16

record CM_SignalingTransChanEstablishReq =
  er_srcTcid :: u8
  er_exclusive :: bool
  er_measure :: bool
  er_config :: CM_TransModeConfig
  er_slqiNum :: nat
  er_slqi :: u8
  er_portConfig :: "CM_SignalingPortConfig option"

record CM_SignalingTransChanEstablishRsp =
  es_srcTcid :: u8
  es_dstTcid :: u8
  es_result :: nat

record CM_SignalingTransChanReleaseReq =
  rr_srcTcid :: u8
  rr_dstTcid :: u8

record CM_SignalingTransChanReleaseRsp =
  rs_srcTcid :: u8
  rs_dstTcid :: u8
  rs_result :: nat

definition zero_config :: CM_TransModeConfig where
  "zero_config = \<lparr>transMode = 0, cfg_mtu = 0, cfg_mps = 0, cfg_reorderTimeout = 0, cfg_crcInit = 0, cfg_thirdTimeout = 0,
     cfg_rspTimeout = 0, cfg_txWindow = 0, cfg_maxTxThreshold = 0\<rparr>"

abbreviation (input) CM_SLQI_SURPPORT_NUM :: nat where "CM_SLQI_SURPPORT_NUM \<equiv> 1"
abbreviation (input) CM_SLQI_SIZE :: nat where "CM_SLQI_SIZE \<equiv> 2"
abbreviation (input) REQ_PKT_SIZE :: nat where "REQ_PKT_SIZE \<equiv> 3"
abbreviation (input) COMMON_CONFIG_SIZE :: nat where "COMMON_CONFIG_SIZE \<equiv> 5"
abbreviation (input) STREAM_CONFIG_SIZE :: nat where "STREAM_CONFIG_SIZE \<equiv> 6"
abbreviation (input) RELIABLE_CONFIG_SIZE :: nat where "RELIABLE_CONFIG_SIZE \<equiv> 10"
abbreviation (input) REQ_EXT_SIZE :: nat where "REQ_EXT_SIZE \<equiv> 2"
abbreviation (input) PORT_CONFIG_SIZE :: nat where "PORT_CONFIG_SIZE \<equiv> 6"

section \<open>Packing\<close>

text \<open>The bytes the stores through the packed structures leave in the zeroed memory, part by part.\<close>

definition CM_SignalingTranModeStreamConfigPack :: "CM_TransModeConfig \<Rightarrow> bytes" where
  "CM_SignalingTranModeStreamConfigPack c =
     ENCODE2BYTE_LITTLE (of_nat (cfg_thirdTimeout c)) @ ENCODE2BYTE_LITTLE (of_nat (cfg_reorderTimeout c)) @ ENCODE2BYTE_LITTLE (cfg_crcInit c)"

definition CM_SignalingTranModeReliableConfigPack :: "CM_TransModeConfig \<Rightarrow> bytes" where
  "CM_SignalingTranModeReliableConfigPack c =
     [of_nat (cfg_txWindow c), of_nat (cfg_maxTxThreshold c)] @ ENCODE2BYTE_LITTLE (of_nat (cfg_thirdTimeout c))
     @ ENCODE2BYTE_LITTLE (of_nat (cfg_rspTimeout c)) @ ENCODE2BYTE_LITTLE (of_nat (cfg_reorderTimeout c)) @ ENCODE2BYTE_LITTLE (cfg_crcInit c)"

definition CM_SignalingTranModeConfigPack :: "CM_TransModeConfig \<Rightarrow> CM_errno + bytes" where
  "CM_SignalingTranModeConfigPack c =
     (if \<not> transMode c < CM_TRANS_MODE_MAX then Inl CM_INVALID_PARAM_ERR
      else let common = [set_field 0 4 (of_nat (transMode c)) (0 :: u8)] @ ENCODE2BYTE_LITTLE (of_nat (cfg_mtu c)) @ ENCODE2BYTE_LITTLE (of_nat (cfg_mps c)) in
        if transMode c = CM_TRANS_MODE_STREAM then Inr (common @ CM_SignalingTranModeStreamConfigPack c)
        else if transMode c = CM_TRANS_MODE_RELIABLE then Inr (common @ CM_SignalingTranModeReliableConfigPack c)
        else Inr common)"

definition CM_SignalingPreferredSlqiListPack :: "nat \<Rightarrow> u8 \<Rightarrow> CM_errno + bytes" where
  "CM_SignalingPreferredSlqiListPack num slqi =
     (if num \<noteq> CM_SLQI_SURPPORT_NUM then Inl CM_INVALID_PARAM_ERR else Inr [set_field 0 4 (of_nat num) (0 :: u8), slqi])"

definition CM_SignalingExtensionPack :: "CM_SignalingPortConfig option \<Rightarrow> CM_errno + bytes" where
  "CM_SignalingExtensionPack port =
     (case port of
        None \<Rightarrow> Inl CM_NULL_POINTER
      | Some p \<Rightarrow> Inr (ENCODE2BYTE_LITTLE (set_field 0 1 1 0) @ ENCODE2BYTE_LITTLE (pc_dstPort p) @ ENCODE2BYTE_LITTLE (pc_srcPort p) @ ENCODE2BYTE_LITTLE (pc_aid p)))"

definition CM_SignalingEstablishReqSizeGet :: "CM_SignalingTransChanEstablishReq \<Rightarrow> nat" where
  "CM_SignalingEstablishReqSizeGet req =
     to_u16 (REQ_PKT_SIZE + COMMON_CONFIG_SIZE
       + (if transMode (er_config req) = CM_TRANS_MODE_STREAM then STREAM_CONFIG_SIZE
          else if transMode (er_config req) = CM_TRANS_MODE_RELIABLE then RELIABLE_CONFIG_SIZE else 0)
       + CM_SLQI_SIZE + (if er_portConfig req \<noteq> None then REQ_EXT_SIZE + PORT_CONFIG_SIZE else 0))"

text \<open>
  The result is \<open>None\<close> when the code returns NULL. The stores go to consecutive offsets, so the memory is the
  concatenation of the parts, padded with the zeros of the allocation.
\<close>

definition CM_SignalingTransChanEstablishReqPack :: "'r env \<Rightarrow> CM_SignalingTransChanEstablishReq \<Rightarrow> bytes option" where
  "CM_SignalingTransChanEstablishReqPack e req =
     (case SDF_MemZalloc e of
        None \<Rightarrow> None
      | Some _ \<Rightarrow>
          (case CM_SignalingTranModeConfigPack (er_config req) of
             Inl _ \<Rightarrow> None
           | Inr cfg \<Rightarrow> (case CM_SignalingPreferredSlqiListPack (er_slqiNum req) (er_slqi req) of
               Inl _ \<Rightarrow> None
             | Inr slqi \<Rightarrow> (case CM_SignalingExtensionPack (er_portConfig req) of
                 Inl _ \<Rightarrow> None
               | Inr ext \<Rightarrow>
                   let pkt = [er_srcTcid req, of_nat (REQ_PKT_SIZE + length cfg + length slqi),
                              set_field 1 1 (of_bool (er_measure req)) (set_field 0 1 (of_bool (er_exclusive req)) (0 :: u8))];
                       bs = pkt @ cfg @ slqi @ ext
                   in Some (bs @ replicate (CM_SignalingEstablishReqSizeGet req - length bs) 0)))))"

section \<open>Parsing\<close>

text \<open>Reads of the received data; \<open>None\<close> outside of it.\<close>

definition rd8 :: "bytes \<Rightarrow> nat \<Rightarrow> u8 option" where
  "rd8 d i = (if i < length d then Some (d ! i) else None)"

definition rd16 :: "bytes \<Rightarrow> nat \<Rightarrow> u16 option" where
  "rd16 d i = (if i + 1 < length d then Some (DECODE2BYTE_LITTLE (d ! i) (d ! (i + 1))) else None)"

definition CM_SignalingTransModeStreamConfigParse :: "CM_TransModeConfig \<Rightarrow> bytes \<Rightarrow> nat \<Rightarrow> nat \<Rightarrow> (CM_errno \<times> CM_TransModeConfig) option" where
  "CM_SignalingTransModeStreamConfigParse c d p len =
     (if \<not> len \<ge> STREAM_CONFIG_SIZE then Some (CM_INVALID_PARAM_ERR, c)
      else do {
        fl \<leftarrow> rd16 d p; ro \<leftarrow> rd16 d (p + 2); crc \<leftarrow> rd16 d (p + 4);
        Some (CM_SUCCESS, c\<lparr>cfg_thirdTimeout := unat fl, cfg_reorderTimeout := unat ro, cfg_crcInit := crc\<rparr>)
      })"

definition CM_SignalingTransModeReliableConfigParse :: "CM_TransModeConfig \<Rightarrow> bytes \<Rightarrow> nat \<Rightarrow> nat \<Rightarrow> (CM_errno \<times> CM_TransModeConfig) option" where
  "CM_SignalingTransModeReliableConfigParse c d p len =
     (if \<not> len \<ge> RELIABLE_CONFIG_SIZE then Some (CM_INVALID_PARAM_ERR, c)
      else do {
        tx \<leftarrow> rd8 d p; mx \<leftarrow> rd8 d (p + 1); rt \<leftarrow> rd16 d (p + 2); rs \<leftarrow> rd16 d (p + 4); ro \<leftarrow> rd16 d (p + 6); crc \<leftarrow> rd16 d (p + 8);
        Some (CM_SUCCESS, c\<lparr>cfg_txWindow := unat tx, cfg_maxTxThreshold := unat mx, cfg_thirdTimeout := unat rt, cfg_rspTimeout := unat rs,
                            cfg_reorderTimeout := unat ro, cfg_crcInit := crc\<rparr>)
      })"

text \<open>The third component is the number of bytes consumed.\<close>

definition CM_SignalingTransModeConfigParse :: "CM_TransModeConfig \<Rightarrow> bytes \<Rightarrow> nat \<Rightarrow> nat \<Rightarrow> (CM_errno \<times> CM_TransModeConfig \<times> nat) option" where
  "CM_SignalingTransModeConfigParse c d p len =
     (if \<not> len \<ge> COMMON_CONFIG_SIZE then Some (CM_INVALID_PARAM_ERR, c, 0)
      else do {
        t \<leftarrow> rd8 d p;
        let m = unat (get_field 0 4 t);
        if \<not> (m < CM_TRANS_MODE_MAX \<and> m \<noteq> CM_TRANS_MODE_TRANSPARENT) then Some (CM_INVALID_PARAM_ERR, c, 0)
        else do {
          u \<leftarrow> rd16 d (p + 1); s \<leftarrow> rd16 d (p + 3);
          let c1 = c\<lparr>transMode := m, cfg_mtu := unat u, cfg_mps := unat s\<rparr>;
          if m = CM_TRANS_MODE_STREAM then do {
            (ret, c2) \<leftarrow> CM_SignalingTransModeStreamConfigParse c1 d (p + COMMON_CONFIG_SIZE) (len - COMMON_CONFIG_SIZE);
            Some (ret, c2, COMMON_CONFIG_SIZE + STREAM_CONFIG_SIZE)
          }
          else if m = CM_TRANS_MODE_RELIABLE then do {
            (ret, c2) \<leftarrow> CM_SignalingTransModeReliableConfigParse c1 d (p + COMMON_CONFIG_SIZE) (len - COMMON_CONFIG_SIZE);
            Some (ret, c2, COMMON_CONFIG_SIZE + RELIABLE_CONFIG_SIZE)
          }
          else Some (CM_SUCCESS, c1, COMMON_CONFIG_SIZE)
        }
      })"

definition CM_SignalingPreferredSlqiListParse :: "bytes \<Rightarrow> nat \<Rightarrow> nat \<Rightarrow> (CM_errno + (nat \<times> u8)) option" where
  "CM_SignalingPreferredSlqiListParse d p len =
     (if \<not> len \<ge> CM_SLQI_SIZE then Some (Inl CM_INVALID_PARAM_ERR)
      else do {
        t \<leftarrow> rd8 d p;
        let n = unat (get_field 0 4 t);
        if n \<noteq> CM_SLQI_SURPPORT_NUM then Some (Inl CM_INVALID_PARAM_ERR)
        else do { q \<leftarrow> rd8 d (p + 1); Some (Inr (n, q)) }
      })"

definition CM_SignalingExtensionParse :: "bytes \<Rightarrow> nat \<Rightarrow> nat \<Rightarrow> (CM_errno + CM_SignalingPortConfig option) option" where
  "CM_SignalingExtensionParse d p len =
     (if \<not> len \<ge> REQ_EXT_SIZE then Some (Inl CM_INVALID_PARAM_ERR)
      else do {
        x \<leftarrow> rd16 d p;
        if get_field 0 1 x \<noteq> 0 then
          if \<not> len \<ge> REQ_EXT_SIZE + PORT_CONFIG_SIZE then Some (Inl CM_INVALID_PARAM_ERR)
          else do {
            dst \<leftarrow> rd16 d (p + 2); src \<leftarrow> rd16 d (p + 4); aid \<leftarrow> rd16 d (p + 6);
            Some (Inr (Some \<lparr>pc_srcPort = src, pc_dstPort = dst, pc_aid = aid\<rparr>))
          }
        else Some (Inr None)
      })"

definition CM_SignalingTransChanEstablishReqParse :: "bytes \<Rightarrow> (CM_errno + CM_SignalingTransChanEstablishReq) option" where
  "CM_SignalingTransChanEstablishReqParse d =
     (if \<not> length d \<ge> REQ_PKT_SIZE then Some (Inl CM_INVALID_PARAM_ERR)
      else do {
        tcid \<leftarrow> rd8 d 0; opt \<leftarrow> rd8 d 1; fl \<leftarrow> rd8 d 2;
        (ret, cfg, n) \<leftarrow> CM_SignalingTransModeConfigParse zero_config d REQ_PKT_SIZE (length d - REQ_PKT_SIZE);
        if ret \<noteq> CM_SUCCESS then Some (Inl ret)
        else do {
          let off = REQ_PKT_SIZE + n;
          slqi \<leftarrow> CM_SignalingPreferredSlqiListParse d off (length d - off);
          (case slqi of
             Inl ret \<Rightarrow> Some (Inl ret)
           | Inr (num, q) \<Rightarrow> do {
               let off2 = off + CM_SLQI_SIZE;
               let req = \<lparr>er_srcTcid = tcid, er_exclusive = (get_field 0 1 fl \<noteq> 0), er_measure = (get_field 1 1 fl \<noteq> 0), er_config = cfg,
                          er_slqiNum = num, er_slqi = q, er_portConfig = None\<rparr>;
               if opt \<noteq> 0 then
                 if unat opt \<noteq> off2 then Some (Inl CM_INVALID_PARAM_ERR)
                 else do {
                   ext \<leftarrow> CM_SignalingExtensionParse d off2 (length d - off2);
                   (case ext of Inl ret \<Rightarrow> Some (Inl ret) | Inr port \<Rightarrow> Some (Inr (req\<lparr>er_portConfig := port\<rparr>)))
                 }
               else Some (Inr req)
             })
        }
      })"

section \<open>Packing fills the allocation, parsing stays inside the message\<close>

lemma length_config_pack:
  "CM_SignalingTranModeConfigPack c = Inr bs \<Longrightarrow> length bs = COMMON_CONFIG_SIZE
     + (if transMode c = CM_TRANS_MODE_STREAM then STREAM_CONFIG_SIZE else if transMode c = CM_TRANS_MODE_RELIABLE then RELIABLE_CONFIG_SIZE else 0)"
  by (auto simp: CM_SignalingTranModeConfigPack_def CM_SignalingTranModeStreamConfigPack_def CM_SignalingTranModeReliableConfigPack_def Let_def
      split: if_splits)

lemma establish_req_pack_obtain:
  assumes "CM_SignalingTransChanEstablishReqPack e req = Some bs"
  obtains cfg p where "CM_SignalingTranModeConfigPack (er_config req) = Inr cfg" "er_portConfig req = Some p" "er_slqiNum req = CM_SLQI_SURPPORT_NUM"
    "bs = [er_srcTcid req, of_nat (5 + length cfg), set_field 1 1 (of_bool (er_measure req)) (set_field 0 1 (of_bool (er_exclusive req)) 0)]
        @ cfg @ [set_field 0 4 1 0, er_slqi req] @ ENCODE2BYTE_LITTLE (set_field 0 1 1 0)
        @ ENCODE2BYTE_LITTLE (pc_dstPort p) @ ENCODE2BYTE_LITTLE (pc_srcPort p) @ ENCODE2BYTE_LITTLE (pc_aid p)"
    "length bs = CM_SignalingEstablishReqSizeGet req"
proof -
  from assms obtain cfg p where c: "CM_SignalingTranModeConfigPack (er_config req) = Inr cfg" "er_portConfig req = Some p" "er_slqiNum req = CM_SLQI_SURPPORT_NUM"
    by (auto simp: CM_SignalingTransChanEstablishReqPack_def CM_SignalingPreferredSlqiListPack_def CM_SignalingExtensionPack_def Let_def
        split: option.splits sum.splits if_splits)
  then show thesis
    using assms length_config_pack [OF c(1)] that [OF c]
    by (auto simp: CM_SignalingTransChanEstablishReqPack_def CM_SignalingPreferredSlqiListPack_def CM_SignalingExtensionPack_def Let_def
        CM_SignalingEstablishReqSizeGet_def add.commute split: option.splits if_splits)
qed

lemma rd_Some [simp]:
  "i < length d \<Longrightarrow> rd8 d i = Some (d ! i)"
  "i + 1 < length d \<Longrightarrow> rd16 d i = Some (DECODE2BYTE_LITTLE (d ! i) (d ! (i + 1)))"
  by (simp_all add: rd8_def rd16_def)

lemma config_parse_safe:
  "p + len \<le> length d \<Longrightarrow> \<exists>ret c' n. CM_SignalingTransModeConfigParse c d p len = Some (ret, c', n) \<and> (ret = CM_SUCCESS \<longrightarrow> n \<le> len \<and> n \<le> 15)"
  by (auto simp: CM_SignalingTransModeConfigParse_def CM_SignalingTransModeStreamConfigParse_def CM_SignalingTransModeReliableConfigParse_def Let_def)

lemma slqi_parse_safe:
  "p + len \<le> length d \<Longrightarrow> CM_SignalingPreferredSlqiListParse d p len \<noteq> None
     \<and> (\<forall>x. CM_SignalingPreferredSlqiListParse d p len = Some (Inr x) \<longrightarrow> CM_SLQI_SIZE \<le> len)"
  by (auto simp: CM_SignalingPreferredSlqiListParse_def Let_def split: if_splits)

lemma extension_parse_safe: "p + len \<le> length d \<Longrightarrow> CM_SignalingExtensionParse d p len \<noteq> None"
  by (auto simp: CM_SignalingExtensionParse_def Let_def)

lemma establish_req_parse_safe: "CM_SignalingTransChanEstablishReqParse d \<noteq> None"
proof (cases "REQ_PKT_SIZE \<le> length d")
  case True
  then obtain ret c' n where c: "CM_SignalingTransModeConfigParse zero_config d REQ_PKT_SIZE (length d - REQ_PKT_SIZE) = Some (ret, c', n)"
    "ret = CM_SUCCESS \<longrightarrow> REQ_PKT_SIZE + n \<le> length d"
    using config_parse_safe [of 3 "length d - 3" d zero_config] by fastforce
  have rd: "rd8 d 0 = Some (d ! 0)" "rd8 d 1 = Some (d ! 1)" "rd8 d 2 = Some (d ! 2)" using True by (auto simp: rd8_def)
  show ?thesis
  proof (cases "ret = CM_SUCCESS")
    case ok: True
    let ?off = "REQ_PKT_SIZE + n"
    have le: "?off + (length d - ?off) \<le> length d" using c(2) ok by simp
    obtain x where x: "CM_SignalingPreferredSlqiListParse d ?off (length d - ?off) = Some x" "\<forall>y. x = Inr y \<longrightarrow> CM_SLQI_SIZE \<le> length d - ?off"
      using slqi_parse_safe [OF le] by auto
    have "CM_SignalingExtensionParse d (?off + CM_SLQI_SIZE) (length d - (?off + CM_SLQI_SIZE)) \<noteq> None" if "CM_SLQI_SIZE \<le> length d - ?off"
      by (rule extension_parse_safe) (use that le in simp)
    then show ?thesis
      using True c ok x rd by (cases x) (auto simp: CM_SignalingTransChanEstablishReqParse_def Let_def split: sum.splits)
  qed (use True c rd in \<open>auto simp: CM_SignalingTransChanEstablishReqParse_def Let_def\<close>)
qed (simp add: CM_SignalingTransChanEstablishReqParse_def)

section \<open>What one side packs the other parses\<close>

text \<open>The parameters that travel for a mode; the others arrive as zero.\<close>

definition sent_config :: "CM_TransModeConfig \<Rightarrow> CM_TransModeConfig" where
  "sent_config c =
     (if transMode c = CM_TRANS_MODE_RELIABLE then c
      else if transMode c = CM_TRANS_MODE_STREAM then c\<lparr>cfg_rspTimeout := 0, cfg_txWindow := 0, cfg_maxTxThreshold := 0\<rparr>
      else zero_config\<lparr>transMode := transMode c, cfg_mtu := cfg_mtu c, cfg_mps := cfg_mps c\<rparr>)"

text \<open>The ranges of the C types.\<close>

definition config_ok :: "CM_TransModeConfig \<Rightarrow> bool" where
  "config_ok c \<longleftrightarrow> transMode c < 256 \<and> cfg_mtu c < 65536 \<and> cfg_mps c < 65536 \<and> cfg_reorderTimeout c < 65536 \<and> cfg_thirdTimeout c < 65536
     \<and> cfg_rspTimeout c < 65536 \<and> cfg_txWindow c < 256 \<and> cfg_maxTxThreshold c < 256"

lemma unat_field_4: "n < 16 \<Longrightarrow> unat (get_field 0 4 (set_field 0 4 (of_nat n) (0 :: u8))) = n"
  by (simp add: get_set_field_same unsigned_take_bit_eq take_bit_nat_eq_self unsigned_of_nat)

lemma unat_of_nat_u8: "n < 256 \<Longrightarrow> unat (of_nat n :: u8) = n"
  by (simp add: unsigned_of_nat take_bit_nat_eq_self)

lemma config_roundtrip:
  assumes "CM_SignalingTranModeConfigPack c = Inr bs" "config_ok c" "transMode c \<noteq> CM_TRANS_MODE_TRANSPARENT" "length pre = p" "length bs \<le> len"
  shows "CM_SignalingTransModeConfigParse zero_config (pre @ bs @ post) p len = Some (CM_SUCCESS, sent_config c, length bs)"
proof -
  have m: "transMode c < 4" using assms(1) by (auto simp: CM_SignalingTranModeConfigPack_def split: if_splits)
  consider "transMode c = 0" | "transMode c = 2" | "transMode c = 3" using m assms(3) by fastforce
  then show ?thesis
  proof cases
    case 1
    then show ?thesis using assms unat_field_4 [of 0]
      by (auto simp: CM_SignalingTranModeConfigPack_def CM_SignalingTransModeConfigParse_def ENCODE2BYTE_LITTLE_def Let_def nth_append sent_config_def
          zero_config_def config_ok_def unat_of_nat_u16)
  next
    case 2
    then show ?thesis using assms unat_field_4 [of 2]
      by (auto simp: CM_SignalingTranModeConfigPack_def CM_SignalingTransModeConfigParse_def ENCODE2BYTE_LITTLE_def Let_def nth_append sent_config_def
          CM_SignalingTranModeStreamConfigPack_def CM_SignalingTransModeStreamConfigParse_def zero_config_def config_ok_def unat_of_nat_u16)
  next
    case 3
    then show ?thesis using assms unat_field_4 [of 3]
      by (auto simp: CM_SignalingTranModeConfigPack_def CM_SignalingTransModeConfigParse_def ENCODE2BYTE_LITTLE_def Let_def nth_append sent_config_def
          CM_SignalingTranModeReliableConfigPack_def CM_SignalingTransModeReliableConfigParse_def zero_config_def config_ok_def unat_of_nat_u16 unat_of_nat_u8)
  qed
qed

lemma slqi_roundtrip:
  "length pre = p \<Longrightarrow> 2 \<le> len \<Longrightarrow> CM_SignalingPreferredSlqiListParse (pre @ [set_field 0 4 1 0, q] @ post) p len = Some (Inr (1, q))"
  using unat_field_4 [of 1] by (auto simp: CM_SignalingPreferredSlqiListParse_def Let_def nth_append)

lemma extension_roundtrip:
  "length pre = p \<Longrightarrow> 8 \<le> len \<Longrightarrow> CM_SignalingExtensionParse (pre @ ENCODE2BYTE_LITTLE (set_field 0 1 1 0) @ ENCODE2BYTE_LITTLE (pc_dstPort c)
     @ ENCODE2BYTE_LITTLE (pc_srcPort c) @ ENCODE2BYTE_LITTLE (pc_aid c)) p len = Some (Inr (Some c))"
  by (auto simp: CM_SignalingExtensionParse_def ENCODE2BYTE_LITTLE_def Let_def nth_append get_set_field_same)

lemma get_flags:
  "get_field 0 1 (set_field 1 1 (of_bool m) (set_field 0 1 (of_bool x) (0 :: u8))) \<noteq> 0 \<longleftrightarrow> x"
  "get_field 1 1 (set_field 1 1 (of_bool m) (set_field 0 1 (of_bool x) (0 :: u8))) \<noteq> 0 \<longleftrightarrow> m"
  by (simp_all add: get_set_field_same get_set_field_other)

lemma establish_req_pack_parse:
  assumes "CM_SignalingTransChanEstablishReqPack e req = Some bs" "config_ok (er_config req)" "transMode (er_config req) \<noteq> CM_TRANS_MODE_TRANSPARENT"
  shows "CM_SignalingTransChanEstablishReqParse bs = Some (Inr (req\<lparr>er_config := sent_config (er_config req)\<rparr>))"
proof -
  obtain cfg p where c: "CM_SignalingTranModeConfigPack (er_config req) = Inr cfg" "er_portConfig req = Some p" "er_slqiNum req = CM_SLQI_SURPPORT_NUM"
    and bs: "bs = [er_srcTcid req, of_nat (5 + length cfg), set_field 1 1 (of_bool (er_measure req)) (set_field 0 1 (of_bool (er_exclusive req)) 0)]
        @ cfg @ [set_field 0 4 1 0, er_slqi req] @ ENCODE2BYTE_LITTLE (set_field 0 1 1 0)
        @ ENCODE2BYTE_LITTLE (pc_dstPort p) @ ENCODE2BYTE_LITTLE (pc_srcPort p) @ ENCODE2BYTE_LITTLE (pc_aid p)"
    using establish_req_pack_obtain [OF assms(1)] by metis
  define hd3 where "hd3 = [er_srcTcid req, of_nat (5 + length cfg), set_field 1 1 (of_bool (er_measure req)) (set_field 0 1 (of_bool (er_exclusive req)) (0 :: u8))]"
  have l: "length cfg \<le> 15" "length bs = length cfg + 13" "length hd3 = 3" using length_config_pack [OF c(1)] by (simp_all add: bs hd3_def)
  note bs' = bs [folded hd3_def]
  have rd: "rd8 bs 0 = Some (er_srcTcid req)" "rd8 bs 1 = Some (of_nat (5 + length cfg))"
    "rd8 bs 2 = Some (set_field 1 1 (of_bool (er_measure req)) (set_field 0 1 (of_bool (er_exclusive req)) 0))"
    by (simp_all add: bs rd8_def)
  have opt: "(of_nat (5 + length cfg) :: u8) \<noteq> 0" "unat (of_nat (5 + length cfg) :: u8) = 5 + length cfg"
    using unat_of_nat_u8 [of "5 + length cfg"] l(1) by (auto simp del: of_nat_add)
  have pc: "CM_SignalingTransModeConfigParse zero_config bs 3 (length bs - 3) = Some (CM_SUCCESS, sent_config (er_config req), length cfg)"
    unfolding bs' using config_roundtrip [OF c(1) assms(2,3) l(3)] l by simp
  have ps: "CM_SignalingPreferredSlqiListParse bs (3 + length cfg) (length bs - (3 + length cfg)) = Some (Inr (1, er_slqi req))"
    using slqi_roundtrip [of "hd3 @ cfg" "3 + length cfg" "length bs - (3 + length cfg)"] l by (simp add: bs')
  have px: "CM_SignalingExtensionParse bs (5 + length cfg) (length bs - (5 + length cfg)) = Some (Inr (Some p))"
    using extension_roundtrip [of "hd3 @ cfg @ [set_field 0 4 1 0, er_slqi req]" "5 + length cfg" "length bs - (5 + length cfg)" p] l by (simp add: bs')
  show ?thesis
    using rd pc ps px opt l c(2,3) get_flags [of "er_measure req" "er_exclusive req"]
    by (simp add: CM_SignalingTransChanEstablishReqParse_def Let_def)
qed

end
