(* ===== verification/Cm_Signaling.thy ===== *)
theory Cm_Signaling
  imports Cm_Codec
begin

text \<open>
  Sending signalling messages and waiting for their answers (\<open>cm_signaling_manage.c\<close>, the sending half of
  \<open>cm_signaling_trans_channel.c\<close>, and the head of the messages from \<open>cm_signaling_cap.c\<close>). A request is kept in a map
  under its 8-bit identifier together with a timer, until its answer arrives, its link goes down or the timer
  expires. The data plane below is the environment: it accepts or refuses a message; the accepted ones are
  logged.
\<close>

section \<open>The head of a message\<close>

abbreviation (input) SIGNALING_HEAD_SIZE :: nat where "SIGNALING_HEAD_SIZE \<equiv> 4"
abbreviation (input) TC_CONNECT_REQ :: u8 where "TC_CONNECT_REQ \<equiv> 0x10"
abbreviation (input) TC_CONNECT_RSP :: u8 where "TC_CONNECT_RSP \<equiv> 0x11"
abbreviation (input) TC_DISCONNECT_REQ :: u8 where "TC_DISCONNECT_REQ \<equiv> 0x12"
abbreviation (input) TC_DISCONNECT_RSP :: u8 where "TC_DISCONNECT_RSP \<equiv> 0x13"

definition CM_CreateSignalingBuff :: "'r env \<Rightarrow> u8 \<Rightarrow> u8 \<Rightarrow> bytes \<Rightarrow> SDF_Buff option" where
  "CM_CreateSignalingBuff e code identifier data =
     (case SDF_BuffNewWithReserve e (SIGNALING_HEAD_SIZE + length data) of
        None \<Rightarrow> None
      | Some b \<Rightarrow> append_bytes b ([code, identifier] @ ENCODE2BYTE_LITTLE (of_nat (length data)) @ data))"

text \<open>Code, identifier and data; the inner \<open>None\<close> is a rejected message, the outer an invalid access.\<close>

definition CM_ParseSignalingBuff :: "SDF_Buff \<Rightarrow> (u8 \<times> u8 \<times> bytes) option option" where
  "CM_ParseSignalingBuff b =
     (if dataLen b < SIGNALING_HEAD_SIZE then Some None
      else do {
        h \<leftarrow> mem_read b (dataOff b) SIGNALING_HEAD_SIZE;
        if unat (DECODE2BYTE_LITTLE (h ! 2) (h ! 3)) \<noteq> dataLen b - SIGNALING_HEAD_SIZE then Some None
        else do {
          d \<leftarrow> mem_read b (dataOff b + SIGNALING_HEAD_SIZE) (dataLen b - SIGNALING_HEAD_SIZE);
          Some (Some (h ! 0, h ! 1, d))
        }
      })"

lemma create_signaling_ok:
  assumes "CM_CreateSignalingBuff e code i data = Some b"
  shows "buff_ok b \<and> buff_data b = [code, i] @ ENCODE2BYTE_LITTLE (of_nat (length data)) @ data \<and> SDF_BuffHeadRoom b = 14"
proof -
  obtain b0 where b0: "SDF_BuffNewWithReserve e (4 + length data) = Some b0"
    using assms by (auto simp: CM_CreateSignalingBuff_def split: option.splits)
  note p = SDF_BuffNewWithReserve_SomeD [OF b0]
  obtain b' where "append_bytes b0 ([code, i] @ ENCODE2BYTE_LITTLE (of_nat (length data)) @ data) = Some b'" "buff_ok b'"
    "buff_data b' = buff_data b0 @ ([code, i] @ ENCODE2BYTE_LITTLE (of_nat (length data)) @ data)" "dataOff b' = dataOff b0"
    by (rule append_bytes_Some [of b0 "[code, i] @ ENCODE2BYTE_LITTLE (of_nat (length data)) @ data"]) (use p in auto)
  then show ?thesis using assms b0 p by (simp add: CM_CreateSignalingBuff_def SDF_BuffHeadRoom_def)
qed

lemma create_signaling_Some: "alloc_ok e \<Longrightarrow> \<exists>b. CM_CreateSignalingBuff e code i data = Some b"
proof -
  assume "alloc_ok e"
  then obtain b0 where b0: "SDF_BuffNewWithReserve e (4 + length data) = Some b0" by (auto simp: SDF_BuffNewWithReserve_def dest!: alloc_okD)
  note p = SDF_BuffNewWithReserve_SomeD [OF b0]
  show ?thesis
    by (rule append_bytes_Some [of b0 "[code, i] @ ENCODE2BYTE_LITTLE (of_nat (length data)) @ data"])
      (use p b0 in \<open>auto simp: CM_CreateSignalingBuff_def\<close>)
qed

lemma parse_signaling_safe: "buff_ok b \<Longrightarrow> CM_ParseSignalingBuff b \<noteq> None"
  using mem_read_data [of b 0 4] mem_read_data [of b 4 "dataLen b - 4"] by (auto simp: CM_ParseSignalingBuff_def)

lemma parse_signaling:
  assumes "buff_ok b" "buff_data b = [code, i] @ ENCODE2BYTE_LITTLE (of_nat (length data)) @ data" "length data < 65536"
  shows "CM_ParseSignalingBuff b = Some (Some (code, i, data))"
proof -
  have l: "dataLen b = length data + 4" using length_buff_data [OF assms(1)] assms(2) by simp
  then show ?thesis
    using mem_read_data [OF assms(1), of 0 4] mem_read_data [OF assms(1), of 4 "length data"] assms(2,3)
    by (auto simp: CM_ParseSignalingBuff_def ENCODE2BYTE_LITTLE_def unat_of_nat_u16)
qed

section \<open>The cache of requests\<close>

record CM_SignalingTransChanTimoutArgs =
  ta_lcid :: u16
  ta_srcTcid :: u8
  ta_dstTcid :: u8

datatype CM_SignalingTimeoutCbk = CM_SignalingTransChanEstablishReqTimeout | CM_SignalingTransChanReleaseReqTimeout

record CM_CachedSignaling =
  cs_lcid :: u16
  cs_id :: u8
  cs_code :: u8
  cs_args :: CM_SignalingTransChanTimoutArgs
  cs_timer :: int
  cs_cbk :: CM_SignalingTimeoutCbk

record signaling =
  g_identifier :: u8
  g_cachedSignalings :: "(u8, CM_CachedSignaling) SDF_Map option"
  g_sendFunc :: bool
  sig_out :: "(u16 \<times> SDF_Buff) list"

definition CM_GetIdentifier :: "signaling \<Rightarrow> u8 \<times> signaling" where
  "CM_GetIdentifier s = (g_identifier s, s\<lparr>g_identifier := g_identifier s + 1\<rparr>)"

definition CM_SignalingCacheClearByLcid :: "u16 \<Rightarrow> signaling \<Rightarrow> signaling" where
  "CM_SignalingCacheClearByLcid l s = s\<lparr>g_cachedSignalings := map_option (filter (\<lambda>(k, c). cs_lcid c \<noteq> l)) (g_cachedSignalings s)\<rparr>"

definition CM_SignalingCacheInsert :: "'r env \<Rightarrow> u16 \<Rightarrow> u8 \<Rightarrow> u8 \<Rightarrow> CM_SignalingTransChanTimoutArgs \<Rightarrow> CM_SignalingTimeoutCbk \<Rightarrow> signaling
    \<Rightarrow> CM_errno \<times> signaling" where
  "CM_SignalingCacheInsert e l i code args cbk s =
     (case g_cachedSignalings s of
        None \<Rightarrow> (CM_NULL_POINTER, s)
      | Some m \<Rightarrow>
          (case SDF_MemZalloc (sub e 0) of
             None \<Rightarrow> (CM_MEM_ERR, s)
           | Some _ \<Rightarrow> (case CP_TimerAdd (sub e 1) of
               None \<Rightarrow> (CM_SDF_ERR, s)
             | Some t \<Rightarrow>
                 (case SDF_MapMoveInsert (sub e 2) m i \<lparr>cs_lcid = l, cs_id = i, cs_code = code, cs_args = args, cs_timer = t, cs_cbk = cbk\<rparr> of
                    (ok, m') \<Rightarrow> if \<not> ok then (CM_MAP_INSERT_ERR, s) else (CM_SUCCESS, s\<lparr>g_cachedSignalings := Some m'\<rparr>)))))"

text \<open>The comparison is made in \<open>int\<close>, without wrap-around.\<close>

definition CM_SignalingCacheRemove :: "u8 \<Rightarrow> u8 \<Rightarrow> signaling \<Rightarrow> signaling" where
  "CM_SignalingCacheRemove i code s =
     (case g_cachedSignalings s of
        None \<Rightarrow> s
      | Some m \<Rightarrow> (case SDF_MapFind m i of
          None \<Rightarrow> s
        | Some c \<Rightarrow> if unat (cs_code c) + 1 = unat code then s\<lparr>g_cachedSignalings := Some (snd (SDF_MapErase m i))\<rparr> else s))"

definition CM_SignalingCacheInit :: "'r env \<Rightarrow> signaling \<Rightarrow> CM_errno \<times> signaling" where
  "CM_SignalingCacheInit e s =
     (case SDF_MemZalloc e of
        None \<Rightarrow> (CM_MEM_ERR, s\<lparr>g_cachedSignalings := None\<rparr>)
      | Some _ \<Rightarrow> (CM_SUCCESS, s\<lparr>g_cachedSignalings := Some []\<rparr>))"

definition CM_SignalingCacheDeinit :: "signaling \<Rightarrow> signaling" where
  "CM_SignalingCacheDeinit s = s\<lparr>g_cachedSignalings := None\<rparr>"

definition CM_SignalingRegisterCbk :: "bool \<Rightarrow> signaling \<Rightarrow> signaling" where
  "CM_SignalingRegisterCbk f s = s\<lparr>g_sendFunc := f\<rparr>"

section \<open>Sending\<close>

definition CM_SendBuffToDtap :: "'r env \<Rightarrow> u16 \<Rightarrow> SDF_Buff \<Rightarrow> signaling \<Rightarrow> CM_errno \<times> signaling" where
  "CM_SendBuffToDtap e l b s =
     (if \<not> g_sendFunc s then (CM_INVALID_PARAM_ERR, s)
      else if call_dli e then (CM_SUCCESS, s\<lparr>sig_out := sig_out s @ [(l, b)]\<rparr>)
      else (CM_DTAP_ERR, s))"

text \<open>The steps the two request functions share, from the allocation of the timeout arguments on.\<close>

definition send_request :: "'r env \<Rightarrow> u16 \<Rightarrow> u8 \<Rightarrow> CM_SignalingTransChanTimoutArgs \<Rightarrow> CM_SignalingTimeoutCbk \<Rightarrow> bytes \<Rightarrow> signaling \<Rightarrow> CM_errno \<times> signaling" where
  "send_request e l code args cbk data s =
     (case SDF_MemZalloc (sub e 0) of
        None \<Rightarrow> (CM_MEM_ERR, s)
      | Some _ \<Rightarrow>
          (case CM_GetIdentifier s of (i, s1) \<Rightarrow>
            (case CM_SignalingCacheInsert (sub e 1) l i code args cbk s1 of (ret, s2) \<Rightarrow>
               if ret \<noteq> CM_SUCCESS then (ret, s2)
               else (case CM_CreateSignalingBuff (sub e 2) code i data of
                 None \<Rightarrow> (CM_MEM_ERR, CM_SignalingCacheRemove i code s2)
               | Some b \<Rightarrow>
                   (case CM_SendBuffToDtap (sub e 3) l b s2 of (ret, s3) \<Rightarrow>
                      if ret \<noteq> CM_SUCCESS then (ret, CM_SignalingCacheRemove i code s3) else (CM_SUCCESS, s3))))))"

definition CM_SignalingTransChanEstablishReqSend :: "'r env \<Rightarrow> u16 \<Rightarrow> CM_SignalingTransChanEstablishReq \<Rightarrow> signaling \<Rightarrow> CM_errno \<times> signaling" where
  "CM_SignalingTransChanEstablishReqSend e l req s =
     (case CM_SignalingTransChanEstablishReqPack (sub e 0) req of
        None \<Rightarrow> (CM_INVALID_PARAM_ERR, s)
      | Some data \<Rightarrow> send_request (sub e 1) l TC_CONNECT_REQ \<lparr>ta_lcid = l, ta_srcTcid = er_srcTcid req, ta_dstTcid = 0\<rparr>
                       CM_SignalingTransChanEstablishReqTimeout data s)"

definition CM_SignalingTransChanReleaseReqSend :: "'r env \<Rightarrow> u16 \<Rightarrow> CM_SignalingTransChanReleaseReq \<Rightarrow> signaling \<Rightarrow> CM_errno \<times> signaling" where
  "CM_SignalingTransChanReleaseReqSend e l req s =
     send_request e l TC_DISCONNECT_REQ \<lparr>ta_lcid = l, ta_srcTcid = rr_srcTcid req, ta_dstTcid = rr_dstTcid req\<rparr>
       CM_SignalingTransChanReleaseReqTimeout [rr_srcTcid req, rr_dstTcid req] s"

text \<open>Answers are not cached.\<close>

definition send_response :: "'r env \<Rightarrow> u16 \<Rightarrow> u8 \<Rightarrow> u8 \<Rightarrow> bytes \<Rightarrow> signaling \<Rightarrow> CM_errno \<times> signaling" where
  "send_response e l code reqId data s =
     (case CM_CreateSignalingBuff (sub e 0) code reqId data of
        None \<Rightarrow> (CM_MEM_ERR, s)
      | Some b \<Rightarrow> CM_SendBuffToDtap (sub e 1) l b s)"

definition CM_SignalingTransChanEstablishRspSend :: "'r env \<Rightarrow> u16 \<Rightarrow> u8 \<Rightarrow> CM_SignalingTransChanEstablishRsp \<Rightarrow> signaling \<Rightarrow> CM_errno \<times> signaling" where
  "CM_SignalingTransChanEstablishRspSend e l reqId rsp s =
     send_response e l TC_CONNECT_RSP reqId [es_srcTcid rsp, es_dstTcid rsp, of_nat (es_result rsp), 0] s"

definition CM_SignalingTransChanReleaseRspSend :: "'r env \<Rightarrow> u16 \<Rightarrow> u8 \<Rightarrow> CM_SignalingTransChanReleaseRsp \<Rightarrow> signaling \<Rightarrow> CM_errno \<times> signaling" where
  "CM_SignalingTransChanReleaseRspSend e l reqId rsp s =
     send_response e l TC_DISCONNECT_RSP reqId [rs_srcTcid rsp, rs_dstTcid rsp, of_nat (rs_result rsp)] s"

end
