(* ===== verification/Cm_Channel.thy ===== *)
theory Cm_Channel
  imports Cm_Signaling
begin

text \<open>
  The connection management's view of transport channels: the list of logical links (\<open>sle_logic_link_mgr.c\<close>),
  the pools of channel identifiers (\<open>cm_dyn_tcid.c\<close>), the vectors that carry reports (\<open>sdf_vector.c\<close>) and the lists
  of fixed and dynamic channels with the reports to the data plane (\<open>cm_trans_channel_mgr.c\<close>). A channel node
  carries its address, so that a pointer to it is that address.
\<close>

section \<open>Vectors\<close>

text \<open>A vector is its elements and its capacity; it grows by doubling, and an element that finds no room is dropped.\<close>

record 'a SDF_Vector =
  v_elems :: "'a list"
  v_capacity :: nat

definition SDF_CreateVector :: "'r env \<Rightarrow> 'a SDF_Vector option" where
  "SDF_CreateVector e =
     (case SDF_MemZalloc (sub e 0) of
        None \<Rightarrow> None
      | Some _ \<Rightarrow> (case SDF_MemZalloc (sub e 1) of None \<Rightarrow> None | Some _ \<Rightarrow> Some \<lparr>v_elems = [], v_capacity = 8\<rparr>))"

definition VectorGrow :: "'r env \<Rightarrow> 'a SDF_Vector \<Rightarrow> bool \<times> 'a SDF_Vector" where
  "VectorGrow e v = (case SDF_MemZalloc e of None \<Rightarrow> (False, v) | Some _ \<Rightarrow> (True, v\<lparr>v_capacity := v_capacity v * 2\<rparr>))"

definition SDF_VectorEmplaceBack :: "'r env \<Rightarrow> 'a SDF_Vector \<Rightarrow> 'a \<Rightarrow> bool \<times> 'a SDF_Vector" where
  "SDF_VectorEmplaceBack e v x =
     (case (if v_capacity v = length (v_elems v) then VectorGrow e v else (True, v)) of
        (ok, v1) \<Rightarrow> if \<not> ok then (False, v1) else (True, v1\<lparr>v_elems := v_elems v1 @ [x]\<rparr>))"

text \<open>The loop that collects elements, whose results the callers ignore.\<close>

fun emplace_all :: "'r env \<Rightarrow> nat \<Rightarrow> 'a list \<Rightarrow> 'a SDF_Vector \<Rightarrow> 'a SDF_Vector" where
  "emplace_all e k [] v = v"
| "emplace_all e k (x # xs) v = emplace_all e (Suc k) xs (snd (SDF_VectorEmplaceBack (sub e k) v x))"

lemma emplace_back_ok: "alloc_ok e \<Longrightarrow> v_elems (snd (SDF_VectorEmplaceBack e v x)) = v_elems v @ [x]"
  by (auto simp: SDF_VectorEmplaceBack_def VectorGrow_def dest!: alloc_okD)

lemma emplace_all_ok: "alloc_ok e \<Longrightarrow> v_elems (emplace_all e k xs v) = v_elems v @ xs"
  by (induction e k xs v rule: emplace_all.induct) (simp_all add: emplace_back_ok)

lemma create_vector_ok: "alloc_ok e \<Longrightarrow> SDF_CreateVector e = Some \<lparr>v_elems = [], v_capacity = 8\<rparr>"
  using alloc_okD [of "sub e 0"] alloc_okD [of "sub e 1"] by (auto simp: SDF_CreateVector_def)

lemma emplace_back_cases: "snd (SDF_VectorEmplaceBack e v x) = v \<or> v_elems (snd (SDF_VectorEmplaceBack e v x)) = v_elems v @ [x]"
  by (auto simp: SDF_VectorEmplaceBack_def VectorGrow_def split: option.splits)

section \<open>Links\<close>

record SLE_Addr =
  sa_type :: u8
  sa_addr :: bytes

record SleLogicLink =
  ll_lcid :: u16
  ll_rmtAddr :: SLE_Addr
  ll_status :: nat
  ll_companyId :: u16
  ll_devType :: nat
  ll_mtu :: u16
  ll_rxWnd :: u8
  ll_supportTransMode :: u16
  ll_protocolVersion :: u16
  ll_exchangeVersion :: u16

abbreviation (input) CM_INVALID_LCID :: u16 where "CM_INVALID_LCID \<equiv> 0xFFFF"
abbreviation (input) CM_INVALID_VERSION :: u16 where "CM_INVALID_VERSION \<equiv> 0xFFFF"

text \<open>The node of a new link.\<close>

definition new_link :: "SLE_Addr \<Rightarrow> SleLogicLink" where
  "new_link a = \<lparr>ll_lcid = CM_INVALID_LCID, ll_rmtAddr = a, ll_status = 0, ll_companyId = 0, ll_devType = 0, ll_mtu = 0, ll_rxWnd = 0,
     ll_supportTransMode = 0, ll_protocolVersion = CM_INVALID_VERSION, ll_exchangeVersion = CM_INVALID_VERSION\<rparr>"

section \<open>Identifiers\<close>

abbreviation (input) CM_TRANS_INVALID_TCID :: u8 where "CM_TRANS_INVALID_TCID \<equiv> 0"
abbreviation (input) CM_TCID_UC_BEGIN :: u8 where "CM_TCID_UC_BEGIN \<equiv> 0x80"
abbreviation (input) CM_TCID_UC_END :: u8 where "CM_TCID_UC_END \<equiv> 0xDF"
abbreviation (input) CM_DYN_UNICAST_TCID_SIZE_MAX :: nat where "CM_DYN_UNICAST_TCID_SIZE_MAX \<equiv> 96"
abbreviation (input) CM_ACCESS_TRANS_MODE_UNICAST :: nat where "CM_ACCESS_TRANS_MODE_UNICAST \<equiv> 0"
abbreviation (input) CM_ACCESS_TRANS_MODE_MAX :: nat where "CM_ACCESS_TRANS_MODE_MAX \<equiv> 6"

definition CM_TRANS_CHANNEL_IS_FIXED :: "u8 \<Rightarrow> bool" where
  "CM_TRANS_CHANNEL_IS_FIXED tcid \<longleftrightarrow> tcid \<ge> 0x01 \<and> tcid \<le> CM_TCID_SLE_CUTC"

definition CM_TRANS_CHANNEL_IS_DYNAMIC :: "u8 \<Rightarrow> bool" where
  "CM_TRANS_CHANNEL_IS_DYNAMIC tcid \<longleftrightarrow> tcid \<ge> 0x20 \<and> tcid \<le> 0xFF"

record CM_DynTcidPool =
  pool_lcid :: u16
  unicastTcidUsed :: "bool list"

definition CM_DynTransGetTcidPool :: "CM_DynTcidPool list \<Rightarrow> u16 \<Rightarrow> CM_DynTcidPool option" where
  "CM_DynTransGetTcidPool ps l = find (\<lambda>p. pool_lcid p = l) ps"

text \<open>A store through the pool pointer.\<close>

fun pool_upd :: "u16 \<Rightarrow> (CM_DynTcidPool \<Rightarrow> CM_DynTcidPool) \<Rightarrow> CM_DynTcidPool list \<Rightarrow> CM_DynTcidPool list" where
  "pool_upd l f [] = []"
| "pool_upd l f (p # ps) = (if pool_lcid p = l then f p # ps else p # pool_upd l f ps)"

fun pool_del :: "u16 \<Rightarrow> CM_DynTcidPool list \<Rightarrow> CM_DynTcidPool list" where
  "pool_del l [] = []"
| "pool_del l (p # ps) = (if pool_lcid p = l then ps else p # pool_del l ps)"

definition CM_DynTcidActivatePool :: "'r env \<Rightarrow> u16 \<Rightarrow> CM_DynTcidPool list \<Rightarrow> CM_errno \<times> CM_DynTcidPool list" where
  "CM_DynTcidActivatePool e l ps =
     (if CM_DynTransGetTcidPool ps l \<noteq> None then (CM_SUCCESS, ps)
      else (case SDF_MemZalloc e of
        None \<Rightarrow> (CM_MEM_ERR, ps)
      | Some _ \<Rightarrow> (CM_SUCCESS, ps @ [\<lparr>pool_lcid = l, unicastTcidUsed = replicate CM_DYN_UNICAST_TCID_SIZE_MAX False\<rparr>])))"

definition CM_DynTcidDestroyPool :: "u16 \<Rightarrow> CM_DynTcidPool list \<Rightarrow> CM_errno \<times> CM_DynTcidPool list" where
  "CM_DynTcidDestroyPool l ps = (if CM_DynTransGetTcidPool ps l = None then (CM_SUCCESS, ps) else (CM_SUCCESS, pool_del l ps))"

text \<open>The search for the first free place.\<close>

fun first_free :: "nat \<Rightarrow> bool list \<Rightarrow> nat option" where
  "first_free i [] = None"
| "first_free i (u # us) = (if \<not> u then Some i else first_free (Suc i) us)"

definition CM_DynAllocateUnicastTcid :: "CM_DynTcidPool \<Rightarrow> u8 \<Rightarrow> u8 \<Rightarrow> u8 \<times> CM_DynTcidPool" where
  "CM_DynAllocateUnicastTcid node lo hi =
     (case first_free 0 (take (unat hi - unat lo + 1) (unicastTcidUsed node)) of
        None \<Rightarrow> (CM_TRANS_INVALID_TCID, node)
      | Some i \<Rightarrow> (of_nat i + lo, node\<lparr>unicastTcidUsed := (unicastTcidUsed node)[i := True]\<rparr>))"

definition CM_DynReturnAllocatedUnicastTcid :: "CM_DynTcidPool \<Rightarrow> u8 \<Rightarrow> u8 \<Rightarrow> u8 \<Rightarrow> CM_errno \<times> CM_DynTcidPool" where
  "CM_DynReturnAllocatedUnicastTcid node tcid lo hi =
     (if tcid < lo \<or> tcid > hi \<or> unat tcid - unat lo \<ge> CM_DYN_UNICAST_TCID_SIZE_MAX then (CM_FAIL, node)
      else if \<not> unicastTcidUsed node ! (unat tcid - unat lo) then (CM_FAIL, node)
      else (CM_SUCCESS, node\<lparr>unicastTcidUsed := (unicastTcidUsed node)[unat tcid - unat lo := False]\<rparr>))"

definition CM_DynTcidAllocate :: "u16 \<Rightarrow> nat \<Rightarrow> CM_DynTcidPool list \<Rightarrow> u8 \<times> CM_DynTcidPool list" where
  "CM_DynTcidAllocate l m ps =
     (case CM_DynTransGetTcidPool ps l of
        None \<Rightarrow> (CM_TRANS_INVALID_TCID, ps)
      | Some node \<Rightarrow>
          if m = CM_ACCESS_TRANS_MODE_UNICAST
          then (case CM_DynAllocateUnicastTcid node CM_TCID_UC_BEGIN CM_TCID_UC_END of (tcid, node') \<Rightarrow> (tcid, pool_upd l (\<lambda>_. node') ps))
          else (CM_TRANS_INVALID_TCID, ps))"

definition CM_DynTcidRelease :: "u16 \<Rightarrow> u8 \<Rightarrow> nat \<Rightarrow> CM_DynTcidPool list \<Rightarrow> CM_errno \<times> CM_DynTcidPool list" where
  "CM_DynTcidRelease l tcid m ps =
     (case CM_DynTransGetTcidPool ps l of
        None \<Rightarrow> (CM_FAIL, ps)
      | Some node \<Rightarrow>
          if m = CM_ACCESS_TRANS_MODE_UNICAST
          then (case CM_DynReturnAllocatedUnicastTcid node tcid CM_TCID_UC_BEGIN CM_TCID_UC_END of (ret, node') \<Rightarrow> (ret, pool_upd l (\<lambda>_. node') ps))
          else (CM_FAIL, ps))"

section \<open>Channels\<close>

record SleTransLcidParam =
  tl_version :: nat
  tl_localIndex :: nat
  tl_config :: CM_TransModeConfig
  tl_castMode :: nat
  tl_channelMode :: nat
  tl_direction :: nat
  tl_aid :: u16
  tl_exclusive :: bool
  tl_srcPort :: u16
  tl_dstPort :: u16
  tl_slqi :: u8
  tl_frameType :: nat

record SleTransLcid =
  nd_addr :: nat
  nd_lcid :: u16
  nd_rmtAddr :: SLE_Addr
  nd_state :: nat
  nd_params :: "SleTransLcidParam option"
  nd_local :: u8
  nd_remote :: u8

record CM_DynTransChanParam =
  dc_version :: nat
  dc_localIndex :: nat
  dc_lcid :: u16
  dc_reqId :: u8
  dc_localTcid :: u8
  dc_remoteTcid :: u8
  dc_srcPort :: u16
  dc_dstPort :: u16
  dc_config :: CM_TransModeConfig
  dc_channelMode :: nat
  dc_direction :: nat
  dc_aid :: u16
  dc_slqi :: u8
  dc_exclusive :: bool
  dc_measure :: bool
  dc_expectedTransportMode :: nat
  dc_result :: nat
  dc_state :: nat
  dc_frameType :: nat

definition zero_param :: CM_DynTransChanParam where
  "zero_param = \<lparr>dc_version = 0, dc_localIndex = 0, dc_lcid = 0, dc_reqId = 0, dc_localTcid = 0, dc_remoteTcid = 0, dc_srcPort = 0, dc_dstPort = 0,
     dc_config = zero_config, dc_channelMode = 0, dc_direction = 0, dc_aid = 0, dc_slqi = 0, dc_exclusive = False, dc_measure = False,
     dc_expectedTransportMode = 0, dc_result = 0, dc_state = 0, dc_frameType = 0\<rparr>"

abbreviation (input) CM_TRANS_CHANNEL_STATE_INIT :: nat where "CM_TRANS_CHANNEL_STATE_INIT \<equiv> 0"
abbreviation (input) CM_TRANS_CHANNEL_STATE_ACTIVATING :: nat where "CM_TRANS_CHANNEL_STATE_ACTIVATING \<equiv> 1"
abbreviation (input) CM_TRANS_CHANNEL_STATE_RELEASING :: nat where "CM_TRANS_CHANNEL_STATE_RELEASING \<equiv> 3"

text \<open>
  The lists of the module, whether the data plane has registered its callback, and the reports it was given:
  the new state and the channels.
\<close>

record chan_mgr =
  g_deviceLinkListHead :: "SleLogicLink list"
  g_fixedTransListHead :: "SleTransLcid list"
  g_dynTransListHead :: "SleTransLcid list"
  node_next :: nat
  g_transChannelCbk :: bool
  reports :: "(nat \<times> CM_TransChan list) list"

definition SleLogicLinkGetByLcid :: "u16 \<Rightarrow> chan_mgr \<Rightarrow> SleLogicLink option" where
  "SleLogicLinkGetByLcid l s = find (\<lambda>n. ll_lcid n = l) (g_deviceLinkListHead s)"

definition SleLogicLinkGetByAddr :: "SLE_Addr \<Rightarrow> chan_mgr \<Rightarrow> SleLogicLink option" where
  "SleLogicLinkGetByAddr a s = find (\<lambda>n. ll_rmtAddr n = a) (g_deviceLinkListHead s)"

definition SleLogicLinkGetConnectedSize :: "chan_mgr \<Rightarrow> nat" where
  "SleLogicLinkGetConnectedSize s = length (filter (\<lambda>n. ll_status n = CM_LINK_STATE_CONNECTED) (g_deviceLinkListHead s))"

definition SleLogicLinkAdd :: "'r env \<Rightarrow> SLE_Addr \<Rightarrow> chan_mgr \<Rightarrow> bool \<times> chan_mgr" where
  "SleLogicLinkAdd e a s =
     (case SDF_MemZalloc e of
        None \<Rightarrow> (False, s)
      | Some _ \<Rightarrow> (True, s\<lparr>g_deviceLinkListHead := g_deviceLinkListHead s @ [new_link a]\<rparr>))"

definition SleLogicLinkGetByStatus :: "nat \<Rightarrow> chan_mgr \<Rightarrow> SleLogicLink option" where
  "SleLogicLinkGetByStatus st s = find (\<lambda>n. ll_status n = st) (g_deviceLinkListHead s)"

definition SleLogicLinkDeInit :: "chan_mgr \<Rightarrow> chan_mgr" where
  "SleLogicLinkDeInit s = s\<lparr>g_deviceLinkListHead := []\<rparr>"

definition SleLogicLinkInit :: "chan_mgr \<Rightarrow> chan_mgr" where
  "SleLogicLinkInit s = (let s1 = (if length (g_deviceLinkListHead s) \<noteq> 0 then SleLogicLinkDeInit s else s) in s1\<lparr>g_deviceLinkListHead := []\<rparr>)"

text \<open>The node is one that a lookup returned, so it is the first of its value.\<close>

definition SleLogicLinkRemove :: "SleLogicLink \<Rightarrow> chan_mgr \<Rightarrow> chan_mgr" where
  "SleLogicLinkRemove n s = s\<lparr>g_deviceLinkListHead := remove1 n (g_deviceLinkListHead s)\<rparr>"

definition CM_TransChannelMgrInit :: "chan_mgr \<Rightarrow> chan_mgr" where
  "CM_TransChannelMgrInit s = s\<lparr>g_fixedTransListHead := [], g_dynTransListHead := []\<rparr>"

definition CM_TransChannelMgrDeInit :: "chan_mgr \<Rightarrow> chan_mgr" where
  "CM_TransChannelMgrDeInit s = s\<lparr>g_fixedTransListHead := [], g_dynTransListHead := []\<rparr>"

text \<open>A store through the pointer that the lookup of a link returns.\<close>

fun link_store :: "u16 \<Rightarrow> (SleLogicLink \<Rightarrow> SleLogicLink) \<Rightarrow> SleLogicLink list \<Rightarrow> SleLogicLink list" where
  "link_store l f [] = []"
| "link_store l f (n # ns) = (if ll_lcid n = l then f n # ns else n # link_store l f ns)"

definition link_upd :: "u16 \<Rightarrow> (SleLogicLink \<Rightarrow> SleLogicLink) \<Rightarrow> chan_mgr \<Rightarrow> chan_mgr" where
  "link_upd l f s = s\<lparr>g_deviceLinkListHead := link_store l f (g_deviceLinkListHead s)\<rparr>"

definition CM_RegTransChannelCbk :: "bool \<Rightarrow> chan_mgr \<Rightarrow> CM_errno \<times> chan_mgr" where
  "CM_RegTransChannelCbk cbk s = (CM_SUCCESS, s\<lparr>g_transChannelCbk := cbk\<rparr>)"

definition CM_UnRegTransChannelCbk :: "chan_mgr \<Rightarrow> chan_mgr" where
  "CM_UnRegTransChannelCbk s = s\<lparr>g_transChannelCbk := False\<rparr>"

definition CM_IsExistFixedTransChannelByLcid :: "u16 \<Rightarrow> chan_mgr \<Rightarrow> bool" where
  "CM_IsExistFixedTransChannelByLcid l s = list_ex (\<lambda>n. nd_lcid n = l) (g_fixedTransListHead s)"

definition CM_IsExistDynamicTransChannelByLcid :: "u16 \<Rightarrow> chan_mgr \<Rightarrow> bool" where
  "CM_IsExistDynamicTransChannelByLcid l s = list_ex (\<lambda>n. nd_lcid n = l) (g_dynTransListHead s)"

definition CM_FindFixedTransChannelByLcid :: "'r env \<Rightarrow> u16 \<Rightarrow> SleTransLcid SDF_Vector \<Rightarrow> chan_mgr \<Rightarrow> CM_errno \<times> SleTransLcid SDF_Vector" where
  "CM_FindFixedTransChannelByLcid e l v s =
     (let v1 = emplace_all e 0 (filter (\<lambda>n. nd_lcid n = l) (g_fixedTransListHead s)) v in (if v_elems v1 = [] then CM_NOT_FOUND else CM_SUCCESS, v1))"

definition CM_FindDynTransChannelByLcid :: "'r env \<Rightarrow> u16 \<Rightarrow> SleTransLcid SDF_Vector \<Rightarrow> chan_mgr \<Rightarrow> CM_errno \<times> SleTransLcid SDF_Vector" where
  "CM_FindDynTransChannelByLcid e l v s =
     (let v1 = emplace_all e 0 (filter (\<lambda>n. nd_lcid n = l) (g_dynTransListHead s)) v in (if v_elems v1 = [] then CM_NOT_FOUND else CM_SUCCESS, v1))"

definition CM_FindTransChannelByLocalTcid :: "u16 \<Rightarrow> u8 \<Rightarrow> chan_mgr \<Rightarrow> SleTransLcid option" where
  "CM_FindTransChannelByLocalTcid l tcid s =
     find (\<lambda>n. nd_lcid n = l \<and> nd_local n = tcid) (if CM_TRANS_CHANNEL_IS_FIXED tcid then g_fixedTransListHead s else g_dynTransListHead s)"

definition CM_FindTransChannelByRemoteTcid :: "u16 \<Rightarrow> u8 \<Rightarrow> chan_mgr \<Rightarrow> SleTransLcid option" where
  "CM_FindTransChannelByRemoteTcid l tcid s =
     find (\<lambda>n. nd_lcid n = l \<and> nd_remote n = tcid) (if CM_TRANS_CHANNEL_IS_FIXED tcid then g_fixedTransListHead s else g_dynTransListHead s)"

definition CM_AllocTransChannelNode :: "'r env \<Rightarrow> u16 \<Rightarrow> SLE_Addr \<Rightarrow> SleTransLcidParam option \<Rightarrow> u8 \<Rightarrow> u8 \<Rightarrow> chan_mgr \<Rightarrow> SleTransLcid option" where
  "CM_AllocTransChannelNode e l a params local remote s =
     (case SDF_MemZalloc (sub e 0) of
        None \<Rightarrow> None
      | Some _ \<Rightarrow>
          if params \<noteq> None \<and> SDF_MemZalloc (sub e 1) = None then None
          else Some \<lparr>nd_addr = node_next s, nd_lcid = l, nd_rmtAddr = a, nd_state = 0, nd_params = params, nd_local = local, nd_remote = remote\<rparr>)"

definition CM_AllocTransChannel :: "'r env \<Rightarrow> u16 \<Rightarrow> SleTransLcidParam option \<Rightarrow> u8 \<Rightarrow> u8 \<Rightarrow> nat \<Rightarrow> chan_mgr \<Rightarrow> SleTransLcid option \<times> chan_mgr" where
  "CM_AllocTransChannel e l params local remote st s =
     (case SleLogicLinkGetByLcid l s of
        None \<Rightarrow> (None, s)
      | Some sll \<Rightarrow> (case CM_AllocTransChannelNode e l (ll_rmtAddr sll) params local remote s of
          None \<Rightarrow> (None, s)
        | Some n0 \<Rightarrow>
            let n = n0\<lparr>nd_state := st\<rparr>; s1 = s\<lparr>node_next := node_next s + 1\<rparr> in
            (Some n, if CM_TRANS_CHANNEL_IS_FIXED local then s1\<lparr>g_fixedTransListHead := g_fixedTransListHead s1 @ [n]\<rparr>
                     else s1\<lparr>g_dynTransListHead := g_dynTransListHead s1 @ [n]\<rparr>)))"

section \<open>Reports\<close>

definition default_config :: CM_TransModeConfig where
  "default_config = zero_config\<lparr>transMode := CM_TRANS_MODE_BASIC, cfg_mtu := 65535, cfg_mps := 65535\<rparr>"

definition fixed_chan :: "SleTransLcid \<Rightarrow> CM_TransChan" where
  "fixed_chan n = \<lparr>tp_castMode = CM_ACCESS_TRANS_MODE_UNICAST, tp_lcid = nd_lcid n, tp_srcTcid = nd_local n, tp_dstTcid = nd_remote n,
     config = (case nd_params n of None \<Rightarrow> default_config | Some p \<Rightarrow> tl_config p)\<rparr>"

definition dyn_chan :: "SleTransLcid \<Rightarrow> CM_TransChan" where
  "dyn_chan n = \<lparr>tp_castMode = (case nd_params n of None \<Rightarrow> 0 | Some p \<Rightarrow> tl_castMode p), tp_lcid = nd_lcid n, tp_srcTcid = nd_local n,
     tp_dstTcid = nd_remote n, config = (case nd_params n of None \<Rightarrow> default_config | Some p \<Rightarrow> tl_config p)\<rparr>"

text \<open>The loop of the fixed channels; \<open>None\<close> when the memory for a channel is missing.\<close>

fun fixed_chans :: "'r env \<Rightarrow> nat \<Rightarrow> SleTransLcid list \<Rightarrow> CM_TransChan SDF_Vector \<Rightarrow> CM_TransChan SDF_Vector option" where
  "fixed_chans e k [] v = Some v"
| "fixed_chans e k (n # ns) v =
     (case SDF_MemZalloc (sub (sub e k) 0) of
        None \<Rightarrow> None
      | Some _ \<Rightarrow> fixed_chans e (Suc k) ns (snd (SDF_VectorEmplaceBack (sub (sub e k) 1) v (fixed_chan n))))"

definition CM_FixedTransChannelChangeCbk :: "'r env \<Rightarrow> u16 \<Rightarrow> nat \<Rightarrow> chan_mgr \<Rightarrow> CM_errno \<times> chan_mgr" where
  "CM_FixedTransChannelChangeCbk e l st s =
     (if \<not> g_transChannelCbk s then (CM_SUCCESS, s)
      else (case SDF_CreateVector (sub e 0) of
        None \<Rightarrow> (CM_FAIL, s)
      | Some v \<Rightarrow> (case fixed_chans (sub e 1) 0 (filter (\<lambda>n. nd_lcid n = l) (g_fixedTransListHead s)) v of
          None \<Rightarrow> (CM_FAIL, s)
        | Some v1 \<Rightarrow> (CM_SUCCESS, s\<lparr>reports := reports s @ [(st, v_elems v1)]\<rparr>))))"

definition CM_DynTransChannelChangeCbk :: "'r env \<Rightarrow> SleTransLcid \<Rightarrow> nat \<Rightarrow> chan_mgr \<Rightarrow> chan_mgr" where
  "CM_DynTransChannelChangeCbk e n st s =
     (if \<not> g_transChannelCbk s then s
      else (case SDF_CreateVector (sub e 0) of
        None \<Rightarrow> s
      | Some v \<Rightarrow> (case SDF_MemZalloc (sub e 1) of
          None \<Rightarrow> s
        | Some _ \<Rightarrow> s\<lparr>reports := reports s @ [(st, v_elems (snd (SDF_VectorEmplaceBack (sub e 2) v (dyn_chan n))))]\<rparr>)))"

section \<open>Activation and release\<close>

text \<open>Unlinking and freeing a node takes it out of its list.\<close>

definition CM_TransChannelDestroyOneNode :: "SleTransLcid \<Rightarrow> SleTransLcid list \<Rightarrow> SleTransLcid list" where
  "CM_TransChannelDestroyOneNode n ns = filter (\<lambda>m. nd_addr m \<noteq> nd_addr n) ns"

definition CM_TransChannelDestroyListNode :: "SleTransLcid list \<Rightarrow> SleTransLcid list \<Rightarrow> SleTransLcid list" where
  "CM_TransChannelDestroyListNode v ns = fold CM_TransChannelDestroyOneNode v ns"

definition CM_ReleaseFixedTransChannel :: "'r env \<Rightarrow> u16 \<Rightarrow> chan_mgr \<Rightarrow> chan_mgr" where
  "CM_ReleaseFixedTransChannel e l s =
     (case SDF_CreateVector (sub e 0) of
        None \<Rightarrow> s
      | Some v \<Rightarrow> (case CM_FindFixedTransChannelByLcid (sub e 1) l v s of (ret, v1) \<Rightarrow>
          if ret \<noteq> CM_SUCCESS then s
          else (case CM_FixedTransChannelChangeCbk (sub e 2) l CM_TRANS_CHANNEL_STATE_RELEASED s of (_, s1) \<Rightarrow>
            s1\<lparr>g_fixedTransListHead := CM_TransChannelDestroyListNode (v_elems v1) (g_fixedTransListHead s1)\<rparr>)))"

definition g_TransFixedChannels :: "u8 list" where
  "g_TransFixedChannels = [CM_TCID_SLE_CMTC, CM_TCID_SLE_SMTC, CM_TCID_SLE_CUTC]"

fun alloc_fixed :: "'r env \<Rightarrow> nat \<Rightarrow> u16 \<Rightarrow> SleTransLcidParam option \<Rightarrow> u8 list \<Rightarrow> chan_mgr \<Rightarrow> bool \<times> chan_mgr" where
  "alloc_fixed e k l params [] s = (True, s)"
| "alloc_fixed e k l params (t # ts) s =
     (case CM_AllocTransChannel (sub e k) l params t t CM_TRANS_CHANNEL_STATE_ACTIVATED s of
        (None, s1) \<Rightarrow> (False, s1)
      | (Some _, s1) \<Rightarrow> alloc_fixed e (Suc k) l params ts s1)"

definition CM_ActivateFixedTransChannel :: "'r env \<Rightarrow> u16 \<Rightarrow> SleTransLcidParam option \<Rightarrow> chan_mgr \<Rightarrow> CM_errno \<times> chan_mgr" where
  "CM_ActivateFixedTransChannel e l params s =
     (if CM_IsExistFixedTransChannelByLcid l s then (CM_FAIL, s)
      else (case alloc_fixed (sub e 0) 0 l params g_TransFixedChannels s of (ok, s1) \<Rightarrow>
        if \<not> ok then (CM_FAIL, CM_ReleaseFixedTransChannel (sub e 1) l s1)
        else (CM_SUCCESS, snd (CM_FixedTransChannelChangeCbk (sub e 2) l CM_TRANS_CHANNEL_STATE_ACTIVATED s1))))"

definition CM_ActivateDynamicTransChannel :: "'r env \<Rightarrow> u16 \<Rightarrow> CM_DynTransChanParam \<Rightarrow> chan_mgr \<Rightarrow> SleTransLcid option \<times> chan_mgr" where
  "CM_ActivateDynamicTransChannel e l p s =
     (if dc_localTcid p = CM_TRANS_INVALID_TCID then (None, s)
      else let tp = \<lparr>tl_version = dc_version p, tl_localIndex = dc_localIndex p, tl_config = dc_config p, tl_castMode = 0,
                     tl_channelMode = dc_channelMode p, tl_direction = dc_direction p, tl_aid = dc_aid p, tl_exclusive = True,
                     tl_srcPort = dc_srcPort p, tl_dstPort = dc_dstPort p, tl_slqi = dc_slqi p, tl_frameType = dc_frameType p\<rparr>
        in case CM_AllocTransChannel (sub e 0) l (Some tp) (dc_localTcid p) (dc_remoteTcid p) (dc_state p) s of
             (None, s1) \<Rightarrow> (None, s1)
           | (Some n, s1) \<Rightarrow>
               (Some n, if dc_state p = CM_TRANS_CHANNEL_STATE_ACTIVATED then CM_DynTransChannelChangeCbk (sub e 1) n (dc_state p) s1 else s1))"

text \<open>Stores through a node pointer.\<close>

definition node_upd :: "nat \<Rightarrow> (SleTransLcid \<Rightarrow> SleTransLcid) \<Rightarrow> chan_mgr \<Rightarrow> chan_mgr" where
  "node_upd a f s = s\<lparr>g_dynTransListHead := map (\<lambda>n. if nd_addr n = a then f n else n) (g_dynTransListHead s)\<rparr>"

definition CM_DynamicTransChannelSetTcidAndChangeCbk :: "'r env \<Rightarrow> SleTransLcid \<Rightarrow> u8 \<Rightarrow> nat \<Rightarrow> chan_mgr \<Rightarrow> SleTransLcid \<times> chan_mgr" where
  "CM_DynamicTransChannelSetTcidAndChangeCbk e n remote st s =
     (let n1 = n\<lparr>nd_state := st, nd_remote := remote\<rparr>; s1 = node_upd (nd_addr n) (\<lambda>_. n1) s in
      (n1, if st = CM_TRANS_CHANNEL_STATE_ACTIVATED then CM_DynTransChannelChangeCbk e n1 st s1 else s1))"

definition CM_DynTransChannelFreeListNode :: "'r env \<Rightarrow> SleTransLcid \<Rightarrow> chan_mgr \<Rightarrow> chan_mgr" where
  "CM_DynTransChannelFreeListNode e n s =
     (let s1 = CM_DynTransChannelChangeCbk e n CM_TRANS_CHANNEL_STATE_RELEASED s in
      s1\<lparr>g_dynTransListHead := CM_TransChannelDestroyOneNode n (g_dynTransListHead s1)\<rparr>)"

definition CM_ReleaseDynamicTransChannelByLocalTcid :: "'r env \<Rightarrow> SleTransLcid \<Rightarrow> chan_mgr \<Rightarrow> chan_mgr" where
  "CM_ReleaseDynamicTransChannelByLocalTcid e n s = CM_DynTransChannelFreeListNode e n s"

definition CM_ReleaseDynamicTransChannelByRemoteTcid :: "'r env \<Rightarrow> SleTransLcid \<Rightarrow> chan_mgr \<Rightarrow> chan_mgr" where
  "CM_ReleaseDynamicTransChannelByRemoteTcid e n s = CM_DynTransChannelFreeListNode e n s"

end
