(* ===== verification/Cm_Cap.thy ===== *)
theory Cm_Cap
  imports Cm_Channel
begin

text \<open>
  The capability exchange of the connection management (\<open>cm_signaling_cap.c\<close>, \<open>cm_signaling_version.c\<close>): the query a
  side sends when a link comes up, the answer of its peer from a table of getters, and the table of setters that
  reads the answer into the link. The lemmas show that reading never leaves the message and that every answer
  is read back as the peer's values.
\<close>

definition DECODE4BYTE_LITTLE :: "u8 \<Rightarrow> u8 \<Rightarrow> u8 \<Rightarrow> u8 \<Rightarrow> u32" where
  "DECODE4BYTE_LITTLE b0 b1 b2 b3 = ucast b0 OR push_bit 8 (ucast b1) OR push_bit 16 (ucast b2) OR push_bit 24 (ucast b3)"

definition ENCODE4BYTE_LITTLE :: "u32 \<Rightarrow> bytes" where
  "ENCODE4BYTE_LITTLE d = [ucast d, ucast (drop_bit 8 d), ucast (drop_bit 16 d), ucast (drop_bit 24 d)]"

abbreviation (input) CAPABILITY_REQ :: u8 where "CAPABILITY_REQ \<equiv> 0x1"
abbreviation (input) CAPABILITY_RSP :: u8 where "CAPABILITY_RSP \<equiv> 0x2"
abbreviation (input) CM_SIGNAL_RELAY_CAPABILITY :: nat where "CM_SIGNAL_RELAY_CAPABILITY \<equiv> 0"
abbreviation (input) CM_SIGNAL_TRANS_MODE :: nat where "CM_SIGNAL_TRANS_MODE \<equiv> 1"
abbreviation (input) CM_SIGNAL_MEASURE_CAPABILITY :: nat where "CM_SIGNAL_MEASURE_CAPABILITY \<equiv> 2"
abbreviation (input) CM_SIGNAL_ACCESS_SLE :: nat where "CM_SIGNAL_ACCESS_SLE \<equiv> 3"
abbreviation (input) CM_SIGNAL_ACCESS_SLB :: nat where "CM_SIGNAL_ACCESS_SLB \<equiv> 4"
abbreviation (input) CM_SIGNAL_MTU :: nat where "CM_SIGNAL_MTU \<equiv> 5"
abbreviation (input) CM_SIGNAL_MPS :: nat where "CM_SIGNAL_MPS \<equiv> 6"
abbreviation (input) CM_SIGNAL_VERSION :: nat where "CM_SIGNAL_VERSION \<equiv> 7"
abbreviation (input) CM_SIGNAL_WND :: nat where "CM_SIGNAL_WND \<equiv> 8"
abbreviation (input) CM_CAPABILITY_RSP_LEN :: nat where "CM_CAPABILITY_RSP_LEN \<equiv> 100"
abbreviation (input) SLE_ADDR_LEN :: nat where "SLE_ADDR_LEN \<equiv> 6"
abbreviation (input) CM_DEVTYPE_UNKNOWN :: nat where "CM_DEVTYPE_UNKNOWN \<equiv> 0"
abbreviation (input) CM_DEVTYPE_OLD :: nat where "CM_DEVTYPE_OLD \<equiv> 1"
abbreviation (input) CM_DEVTYPE_THIRD_PARTY :: nat where "CM_DEVTYPE_THIRD_PARTY \<equiv> 2"
abbreviation (input) CM_DEVTYPE_NEW :: nat where "CM_DEVTYPE_NEW \<equiv> 3"

definition cap_bit :: "nat \<Rightarrow> u32" where
  "cap_bit k = push_bit k 1"

section \<open>The attributes of a link\<close>

definition CM_SetLinkProtocolVersion :: "u16 \<Rightarrow> u16 \<Rightarrow> chan_mgr \<Rightarrow> chan_mgr" where
  "CM_SetLinkProtocolVersion l v c = (if SleLogicLinkGetByLcid l c = None then c else link_upd l (\<lambda>n. n\<lparr>ll_protocolVersion := v\<rparr>) c)"

definition CM_SetLinkRxWindow :: "u16 \<Rightarrow> u8 \<Rightarrow> chan_mgr \<Rightarrow> chan_mgr" where
  "CM_SetLinkRxWindow l w c = (if SleLogicLinkGetByLcid l c = None then c else link_upd l (\<lambda>n. n\<lparr>ll_rxWnd := w\<rparr>) c)"

text \<open>The modes arrive as bits: reliable, flow and bypass.\<close>

definition CM_SetLinkTransMode :: "u16 \<Rightarrow> u16 \<Rightarrow> chan_mgr \<Rightarrow> chan_mgr" where
  "CM_SetLinkTransMode l m c =
     (if SleLogicLinkGetByLcid l c = None then c
      else link_upd l (\<lambda>n. n\<lparr>ll_supportTransMode :=
        (get_field 0 1 m AND 1) OR push_bit 1 (get_field 1 1 m AND 1) OR push_bit 2 (get_field 2 1 m AND 1)\<rparr>) c)"

definition CM_SetLinkMtu :: "u16 \<Rightarrow> u16 \<Rightarrow> chan_mgr \<Rightarrow> chan_mgr" where
  "CM_SetLinkMtu l m c = (if SleLogicLinkGetByLcid l c = None then c else link_upd l (\<lambda>n. n\<lparr>ll_mtu := m\<rparr>) c)"

definition CM_SetLinkExchangeVersion :: "u16 \<Rightarrow> u16 \<Rightarrow> chan_mgr \<Rightarrow> chan_mgr" where
  "CM_SetLinkExchangeVersion l v c = (if SleLogicLinkGetByLcid l c = None then c else link_upd l (\<lambda>n. n\<lparr>ll_exchangeVersion := v\<rparr>) c)"

text \<open>The three company identifiers of the vendor.\<close>

definition own_company :: "u16 \<Rightarrow> bool" where
  "own_company i \<longleftrightarrow> i = 0x006C \<or> i = 0x0009 \<or> i = 0x007C"

definition CM_GetDeviceLinkDeviceType :: "u16 \<Rightarrow> chan_mgr \<Rightarrow> nat \<times> chan_mgr" where
  "CM_GetDeviceLinkDeviceType l c =
     (case SleLogicLinkGetByLcid l c of
        None \<Rightarrow> (CM_DEVTYPE_UNKNOWN, c)
      | Some n \<Rightarrow>
          if ll_devType n \<noteq> CM_DEVTYPE_UNKNOWN then (ll_devType n, c)
          else if \<not> own_company (ll_companyId n) then (CM_DEVTYPE_THIRD_PARTY, link_upd l (\<lambda>n. n\<lparr>ll_devType := CM_DEVTYPE_THIRD_PARTY\<rparr>) c)
          else (CM_DEVTYPE_OLD, c))"

definition CM_SetDeviceLinkDeviceType :: "u16 \<Rightarrow> bool \<Rightarrow> chan_mgr \<Rightarrow> chan_mgr" where
  "CM_SetDeviceLinkDeviceType l hasVerBit c =
     (case SleLogicLinkGetByLcid l c of
        None \<Rightarrow> c
      | Some n \<Rightarrow>
          if ll_devType n \<ge> CM_DEVTYPE_OLD then c
          else if \<not> own_company (ll_companyId n) then link_upd l (\<lambda>n. n\<lparr>ll_devType := CM_DEVTYPE_THIRD_PARTY\<rparr>) c
          else if hasVerBit \<or> ll_protocolVersion n \<noteq> CM_INVALID_VERSION then link_upd l (\<lambda>n. n\<lparr>ll_devType := CM_DEVTYPE_NEW\<rparr>) c
          else link_upd l (\<lambda>n. n\<lparr>ll_devType := CM_DEVTYPE_OLD\<rparr>) c)"

record CM_CapInfo =
  ci_rxWnd :: u8
  ci_supportTransMode :: u16
  ci_mtu :: u16

definition CM_GetLogicLinkCapInfo :: "SLE_Addr \<Rightarrow> chan_mgr \<Rightarrow> CM_errno + CM_CapInfo" where
  "CM_GetLogicLinkCapInfo a c =
     (case SleLogicLinkGetByAddr a c of
        None \<Rightarrow> Inl CM_NOT_FOUND
      | Some n \<Rightarrow> Inr \<lparr>ci_rxWnd = ll_rxWnd n, ci_supportTransMode = ll_supportTransMode n, ci_mtu = ll_mtu n\<rparr>)"

section \<open>Reading an answer\<close>

record CM_CapabilityValue =
  cv_capBitMap :: u32
  cv_transMode :: u16
  cv_mtu :: u16
  cv_mps :: u16
  cv_version :: u16
  cv_wnd :: u8
  cv_accessSle :: bytes
  cv_accessSlb :: bytes

definition zero_value :: CM_CapabilityValue where
  "zero_value = \<lparr>cv_capBitMap = 0, cv_transMode = 0, cv_mtu = 0, cv_mps = 0, cv_version = 0, cv_wnd = 0,
     cv_accessSle = replicate 6 0, cv_accessSlb = replicate 6 0\<rparr>"

text \<open>
  A setter gets the received data, the position to read at and the bytes left. Its result is the number of bytes
  read and the new value, \<open>Some None\<close> for the error value; the outer \<open>None\<close> is a read outside the data.
\<close>

type_synonym set_cap = "bytes \<Rightarrow> nat \<Rightarrow> nat \<Rightarrow> CM_CapabilityValue \<Rightarrow> (nat \<times> CM_CapabilityValue) option option"

definition SetRelayCapability :: set_cap where
  "SetRelayCapability d p len v = Some (Some (0, v))"

definition SetTransModeCapability :: set_cap where
  "SetTransModeCapability d p len v = (if len < 2 then Some None else do { t \<leftarrow> rd16 d p; Some (Some (2, v\<lparr>cv_transMode := t\<rparr>)) })"

definition SetMeasurementCapability :: set_cap where
  "SetMeasurementCapability d p len v = Some (Some (0, v))"

definition rd_block :: "bytes \<Rightarrow> nat \<Rightarrow> nat \<Rightarrow> bytes option" where
  "rd_block d p n = (if p + n \<le> length d then Some (take n (drop p d)) else None)"

definition SetAccessSleCapability :: set_cap where
  "SetAccessSleCapability d p len v = (if len < 6 then Some None else do { t \<leftarrow> rd_block d p 6; Some (Some (6, v\<lparr>cv_accessSle := t\<rparr>)) })"

definition SetAccessSlbCapability :: set_cap where
  "SetAccessSlbCapability d p len v = (if len < 6 then Some None else do { t \<leftarrow> rd_block d p 6; Some (Some (6, v\<lparr>cv_accessSlb := t\<rparr>)) })"

definition SetMtuCapability :: set_cap where
  "SetMtuCapability d p len v = (if len < 2 then Some None else do { t \<leftarrow> rd16 d p; Some (Some (2, v\<lparr>cv_mtu := t\<rparr>)) })"

definition SetMpsCapability :: set_cap where
  "SetMpsCapability d p len v = (if len < 2 then Some None else do { t \<leftarrow> rd16 d p; Some (Some (2, v\<lparr>cv_mps := t\<rparr>)) })"

definition SetVersionCapability :: set_cap where
  "SetVersionCapability d p len v = (if len < 2 then Some None else do { t \<leftarrow> rd16 d p; Some (Some (2, v\<lparr>cv_version := t\<rparr>)) })"

definition SetRxWindowCapability :: set_cap where
  "SetRxWindowCapability d p len v = (if len < 1 then Some None else do { t \<leftarrow> rd8 d p; Some (Some (1, v\<lparr>cv_wnd := t\<rparr>)) })"

definition g_localSetCap :: "(u32 \<times> set_cap) list" where
  "g_localSetCap =
     [(cap_bit CM_SIGNAL_RELAY_CAPABILITY, SetRelayCapability), (cap_bit CM_SIGNAL_TRANS_MODE, SetTransModeCapability),
      (cap_bit CM_SIGNAL_MEASURE_CAPABILITY, SetMeasurementCapability), (cap_bit CM_SIGNAL_ACCESS_SLE, SetAccessSleCapability),
      (cap_bit CM_SIGNAL_ACCESS_SLB, SetAccessSlbCapability), (cap_bit CM_SIGNAL_MTU, SetMtuCapability), (cap_bit CM_SIGNAL_MPS, SetMpsCapability),
      (cap_bit CM_SIGNAL_VERSION, SetVersionCapability), (cap_bit CM_SIGNAL_WND, SetRxWindowCapability)]"

text \<open>The loop over the table: position, bytes left, bits taken and value are its state.\<close>

fun set_caps :: "(u32 \<times> set_cap) list \<Rightarrow> u32 \<Rightarrow> bytes \<Rightarrow> nat \<Rightarrow> nat \<Rightarrow> u32 \<Rightarrow> CM_CapabilityValue \<Rightarrow> (nat \<times> u32 \<times> CM_CapabilityValue) option option" where
  "set_caps [] cap d p left bits v = Some (Some (p, bits, v))"
| "set_caps ((flag, f) # fs) cap d p left bits v =
     (if flag AND cap \<noteq> 0 then do {
        r \<leftarrow> f d p left v;
        (case r of
           None \<Rightarrow> Some None
         | Some (n, v1) \<Rightarrow> if left < n then Some None else set_caps fs cap d (p + n) (left - n) (bits OR flag) v1)
      }
      else set_caps fs cap d p left bits v)"

text \<open>The value read, or \<open>Some None\<close> where the function returns 0.\<close>

definition SetCapabilityInfo :: "bytes \<Rightarrow> CM_CapabilityValue \<Rightarrow> (nat \<times> CM_CapabilityValue) option option" where
  "SetCapabilityInfo d v = do {
     b0 \<leftarrow> rd8 d 0; b1 \<leftarrow> rd8 d 1; b2 \<leftarrow> rd8 d 2; b3 \<leftarrow> rd8 d 3;
     r \<leftarrow> set_caps g_localSetCap (DECODE4BYTE_LITTLE b0 b1 b2 b3) d 4 (length d - 4) 0 v;
     (case r of None \<Rightarrow> Some None | Some (p, bits, v1) \<Rightarrow> Some (Some (p, v1\<lparr>cv_capBitMap := bits\<rparr>)))
   }"

definition CM_ProcessRspSignalingCapability :: "u16 \<Rightarrow> bytes \<Rightarrow> chan_mgr \<Rightarrow> (CM_errno \<times> chan_mgr) option" where
  "CM_ProcessRspSignalingCapability l data c =
     (if length data < 4 then Some (CM_INVALID_PARAM_ERR, c)
      else do {
        r \<leftarrow> SetCapabilityInfo data zero_value;
        (case r of
           None \<Rightarrow> Some (CM_FAIL, c)
         | Some (_, v) \<Rightarrow>
             let c1 = (if cv_version v = 0 then CM_SetDeviceLinkDeviceType l False c
                       else CM_SetDeviceLinkDeviceType l True (CM_SetLinkProtocolVersion l (cv_version v) c));
                 c2 = CM_SetLinkTransMode l (cv_transMode v) c1;
                 c3 = (if cv_wnd v \<noteq> 0 then CM_SetLinkRxWindow l (cv_wnd v) c2 else c2);
                 c4 = (if cv_mtu v \<noteq> 0 then CM_SetLinkMtu l (cv_mtu v) c3 else c3)
             in Some (CM_SUCCESS, c4))
      })"

section \<open>Answering a query\<close>

record CM_LocalSupportInfo =
  li_cap :: u32
  li_transMode :: u16
  li_defaultVersion :: u16
  li_mtu :: u16
  li_mps :: u16
  li_wnd :: u8

definition g_localInfo :: CM_LocalSupportInfo where
  "g_localInfo = \<lparr>li_cap = cap_bit CM_SIGNAL_TRANS_MODE OR cap_bit CM_SIGNAL_ACCESS_SLE OR cap_bit CM_SIGNAL_MTU OR cap_bit CM_SIGNAL_MPS
       OR cap_bit CM_SIGNAL_VERSION OR cap_bit CM_SIGNAL_WND,
     li_transMode = set_field 2 1 0 (set_field 1 1 1 (set_field 0 1 1 0)), li_defaultVersion = 0x0101, li_mtu = 4096, li_mps = 1500, li_wnd = 200\<rparr>"

text \<open>
  A getter gets the address of this device and the room left, and gives the bytes it writes; writing none is its
  error value.
\<close>

type_synonym get_cap = "bytes option \<Rightarrow> nat \<Rightarrow> bytes"

definition GetRelayCapability :: get_cap where
  "GetRelayCapability a len = []"

definition GetTransModeCapability :: get_cap where
  "GetTransModeCapability a len = (if len < 2 then [] else ENCODE2BYTE_LITTLE (li_transMode g_localInfo))"

definition GetMeasurementCapability :: get_cap where
  "GetMeasurementCapability a len = []"

definition GetAccessSleCapability :: get_cap where
  "GetAccessSleCapability a len = (case a of None \<Rightarrow> [] | Some x \<Rightarrow> if len < SLE_ADDR_LEN then [] else take SLE_ADDR_LEN x)"

definition GetAccessSlbCapability :: get_cap where
  "GetAccessSlbCapability a len = []"

definition GetMtuCapability :: get_cap where
  "GetMtuCapability a len = (if len < 2 then [] else ENCODE2BYTE_LITTLE (li_mtu g_localInfo))"

definition GetMpsCapability :: get_cap where
  "GetMpsCapability a len = (if len < 2 then [] else ENCODE2BYTE_LITTLE (li_mps g_localInfo))"

definition GetVersionCapability :: get_cap where
  "GetVersionCapability a len = (if len < 2 then [] else ENCODE2BYTE_LITTLE (li_defaultVersion g_localInfo))"

definition GetRxWindowCapability :: get_cap where
  "GetRxWindowCapability a len = (if len < 1 then [] else [li_wnd g_localInfo])"

definition g_localGetCap :: "(u32 \<times> get_cap) list" where
  "g_localGetCap =
     [(cap_bit CM_SIGNAL_RELAY_CAPABILITY, GetRelayCapability), (cap_bit CM_SIGNAL_TRANS_MODE, GetTransModeCapability),
      (cap_bit CM_SIGNAL_MEASURE_CAPABILITY, GetMeasurementCapability), (cap_bit CM_SIGNAL_ACCESS_SLE, GetAccessSleCapability),
      (cap_bit CM_SIGNAL_ACCESS_SLB, GetAccessSlbCapability), (cap_bit CM_SIGNAL_MTU, GetMtuCapability), (cap_bit CM_SIGNAL_MPS, GetMpsCapability),
      (cap_bit CM_SIGNAL_VERSION, GetVersionCapability), (cap_bit CM_SIGNAL_WND, GetRxWindowCapability)]"

fun get_caps :: "(u32 \<times> get_cap) list \<Rightarrow> bytes option \<Rightarrow> u32 \<Rightarrow> nat \<Rightarrow> bytes \<Rightarrow> bytes option" where
  "get_caps [] a cap left acc = Some acc"
| "get_caps ((flag, f) # fs) a cap left acc =
     (if flag AND cap \<noteq> 0
      then (let bs = f a left in if left < length bs \<or> length bs = 0 then None else get_caps fs a cap (left - length bs) (acc @ bs))
      else get_caps fs a cap left acc)"

definition GetCapabilityInfo :: "bytes option \<Rightarrow> u32 \<Rightarrow> nat \<Rightarrow> bytes option" where
  "GetCapabilityInfo a cap len =
     (let rspCap = cap AND li_cap g_localInfo in get_caps g_localGetCap a rspCap (len - 4) (ENCODE4BYTE_LITTLE rspCap))"

definition CM_ProcessReqSignalingCapability :: "'r env \<Rightarrow> bytes option \<Rightarrow> u16 \<Rightarrow> u8 \<Rightarrow> bytes \<Rightarrow> chan_mgr \<times> signaling \<Rightarrow> (CM_errno \<times> chan_mgr \<times> signaling) option" where
  "CM_ProcessReqSignalingCapability e a l i data s =
     (if length data < 4 then Some (CM_INVALID_PARAM_ERR, s)
      else do {
        b0 \<leftarrow> rd8 data 0; b1 \<leftarrow> rd8 data 1; b2 \<leftarrow> rd8 data 2; b3 \<leftarrow> rd8 data 3;
        let cap = DECODE4BYTE_LITTLE b0 b1 b2 b3;
        let c = (if cap_bit CM_SIGNAL_VERSION AND cap \<noteq> 0 then CM_SetDeviceLinkDeviceType l True (fst s) else fst s);
        (case GetCapabilityInfo a cap CM_CAPABILITY_RSP_LEN of
           None \<Rightarrow> Some (CM_FAIL, c, snd s)
         | Some tmp \<Rightarrow>
             (case CM_CreateSignalingBuff (sub e 0) CAPABILITY_RSP i tmp of
                None \<Rightarrow> Some (CM_MEM_ERR, c, snd s)
              | Some b \<Rightarrow> (case CM_SendBuffToDtap (sub e 1) l b (snd s) of (ret, sg) \<Rightarrow> Some (ret, c, sg))))
      })"

section \<open>The query\<close>

definition CM_SendReqSignalingCapability :: "'r env \<Rightarrow> u16 \<Rightarrow> u32 \<Rightarrow> signaling \<Rightarrow> CM_errno \<times> signaling" where
  "CM_SendReqSignalingCapability e l cap s =
     (case CM_GetIdentifier s of (i, s1) \<Rightarrow>
       (case CM_CreateSignalingBuff (sub e 0) CAPABILITY_REQ i (ENCODE4BYTE_LITTLE cap) of
          None \<Rightarrow> (CM_MEM_ERR, s1)
        | Some b \<Rightarrow> CM_SendBuffToDtap (sub e 1) l b s1))"

text \<open>All nine capabilities are asked for.\<close>

definition CM_SleAccessLinkEstablishQuery :: "'r env \<Rightarrow> u16 \<Rightarrow> signaling \<Rightarrow> signaling" where
  "CM_SleAccessLinkEstablishQuery e l s =
     snd (CM_SendReqSignalingCapability e l (cap_bit CM_SIGNAL_RELAY_CAPABILITY OR cap_bit CM_SIGNAL_TRANS_MODE OR cap_bit CM_SIGNAL_MEASURE_CAPABILITY
       OR cap_bit CM_SIGNAL_ACCESS_SLB OR cap_bit CM_SIGNAL_ACCESS_SLE OR cap_bit CM_SIGNAL_VERSION OR cap_bit CM_SIGNAL_MPS OR cap_bit CM_SIGNAL_MTU
       OR cap_bit CM_SIGNAL_WND) s)"

section \<open>Reading stays inside the message\<close>

lemma set_cap_safe:
  assumes "(flag, f) \<in> set g_localSetCap" "p + len \<le> length d"
  shows "\<exists>r. f d p len v = Some r \<and> (\<forall>n v1. r = Some (n, v1) \<longrightarrow> n \<le> len)"
  using assms
  by (auto simp: g_localSetCap_def SetRelayCapability_def SetTransModeCapability_def SetMeasurementCapability_def SetAccessSleCapability_def
      SetAccessSlbCapability_def SetMtuCapability_def SetMpsCapability_def SetVersionCapability_def SetRxWindowCapability_def rd_block_def)

lemma set_caps_safe:
  assumes "p + left \<le> length d" "set fs \<subseteq> set g_localSetCap"
  shows "set_caps fs cap d p left bits v \<noteq> None"
  using assms
proof (induction fs cap d p left bits v rule: set_caps.induct)
  case (2 flag f fs cap d p left bits v)
  show ?case
  proof (cases "flag AND cap \<noteq> 0")
    case True
    obtain r where r: "f d p left v = Some r" "\<forall>n v1. r = Some (n, v1) \<longrightarrow> n \<le> left"
      using set_cap_safe [of flag f p left d v] 2(3,4) by auto
    show ?thesis
    proof (cases r)
      case (Some y)
      then obtain n v1 where y: "r = Some (n, v1)" by (cases y) auto
      then show ?thesis using 2(1) [OF True, of r "(n, v1)" n v1] 2 r True by auto
    qed (use r True in simp)
  qed (use 2 in auto)
qed simp

lemma SetCapabilityInfo_safe: "4 \<le> length d \<Longrightarrow> SetCapabilityInfo d v \<noteq> None"
  using set_caps_safe [of 4 "length d - 4" d g_localSetCap "DECODE4BYTE_LITTLE (d ! 0) (d ! 1) (d ! 2) (d ! 3)" 0 v]
  by (auto simp: SetCapabilityInfo_def rd8_def split: option.splits)

lemma cap_rsp_safe: "CM_ProcessRspSignalingCapability l data c \<noteq> None"
  using SetCapabilityInfo_safe [of data zero_value] by (auto simp: CM_ProcessRspSignalingCapability_def Let_def split: option.splits)

lemma cap_req_safe: "CM_ProcessReqSignalingCapability e a l i data s \<noteq> None"
  by (auto simp: CM_ProcessReqSignalingCapability_def rd8_def Let_def split: option.splits prod.splits)

section \<open>Every answer is read back\<close>

lemma decode_encode_4: "DECODE4BYTE_LITTLE (ucast d) (ucast (drop_bit 8 d)) (ucast (drop_bit 16 d)) (ucast (drop_bit 24 d)) = d"
proof (rule bit_eqI)
  fix n
  assume "possible_bit TYPE(u32) n"
  then show "bit (DECODE4BYTE_LITTLE (ucast d) (ucast (drop_bit 8 d)) (ucast (drop_bit 16 d)) (ucast (drop_bit 24 d))) n = bit d n"
    using le_add_diff_inverse [of 24 n] le_add_diff_inverse [of 16 n] by (cases "24 \<le> n"; cases "16 \<le> n") (auto simp: DECODE4BYTE_LITTLE_def bit_simps)
qed

lemma bit_cap_bit: "bit (cap_bit j) k \<longleftrightarrow> k = j \<and> k < 32"
  by (auto simp: cap_bit_def bit_simps)

lemma cap_bit_and: "k < 32 \<Longrightarrow> cap_bit k AND x \<noteq> 0 \<longleftrightarrow> bit x k"
proof -
  assume "k < 32"
  then have "bit (cap_bit k AND x) n \<longleftrightarrow> n = k \<and> bit x k" for n by (auto simp: cap_bit_def bit_simps)
  then show ?thesis by (metis bit_0_eq bot_apply bot_bool_def bit_eqI)
qed

definition cap_value :: "u32 \<Rightarrow> bytes \<Rightarrow> CM_CapabilityValue" where
  "cap_value cap a = zero_value\<lparr>cv_capBitMap := cap AND li_cap g_localInfo, cv_transMode := (if bit cap CM_SIGNAL_TRANS_MODE then 3 else 0),
     cv_accessSle := (if bit cap CM_SIGNAL_ACCESS_SLE then a else replicate 6 0), cv_mtu := (if bit cap CM_SIGNAL_MTU then 4096 else 0),
     cv_mps := (if bit cap CM_SIGNAL_MPS then 1500 else 0), cv_version := (if bit cap CM_SIGNAL_VERSION then 0x0101 else 0),
     cv_wnd := (if bit cap CM_SIGNAL_WND then 200 else 0)\<rparr>"

lemma local_trans_mode: "li_transMode g_localInfo = 3"
  by (simp add: g_localInfo_def set_field_def)

lemma local_cap_bits: "bit (li_cap g_localInfo) k \<longleftrightarrow> k \<in> {1, 3, 5, 6, 7, 8}"
  by (auto simp: g_localInfo_def bit_cap_bit bit_or_iff)


lemma rsp_bit: "k < 32 \<Longrightarrow> cap_bit k AND (cap AND li_cap g_localInfo) \<noteq> 0 \<longleftrightarrow> bit cap k \<and> k \<in> {1, 3, 5, 6, 7, 8}"
  using cap_bit_and [of k "cap AND li_cap g_localInfo"] by (simp add: bit_and_iff local_cap_bits)

lemma rsp_split:
  "cap AND li_cap g_localInfo = (if bit cap 1 then cap_bit 1 else 0) OR (if bit cap 3 then cap_bit 3 else 0) OR (if bit cap 5 then cap_bit 5 else 0)
     OR (if bit cap 6 then cap_bit 6 else 0) OR (if bit cap 7 then cap_bit 7 else 0) OR (if bit cap 8 then cap_bit 8 else 0)"
  by (rule bit_eqI) (auto simp: bit_and_iff local_cap_bits bit_or_iff bit_cap_bit)

lemmas get_defs = GetTransModeCapability_def GetAccessSleCapability_def GetMtuCapability_def GetMpsCapability_def
  GetVersionCapability_def GetRxWindowCapability_def

lemmas set_defs = SetTransModeCapability_def SetAccessSleCapability_def SetMtuCapability_def SetMpsCapability_def
  SetVersionCapability_def SetRxWindowCapability_def

lemma GetCapabilityInfo_bytes:
  assumes "length a = 6"
  shows "GetCapabilityInfo (Some a) cap 100 = Some (ENCODE4BYTE_LITTLE (cap AND li_cap g_localInfo)
    @ (if bit cap 1 then ENCODE2BYTE_LITTLE 3 else []) @ (if bit cap 3 then a else []) @ (if bit cap 5 then ENCODE2BYTE_LITTLE 4096 else [])
    @ (if bit cap 6 then ENCODE2BYTE_LITTLE 1500 else []) @ (if bit cap 7 then ENCODE2BYTE_LITTLE 0x0101 else []) @ (if bit cap 8 then [200] else []))"
proof -
  have ne: "a \<noteq> []" "ENCODE2BYTE_LITTLE x \<noteq> []" for x using assms by (auto simp: ENCODE2BYTE_LITTLE_def)
  show ?thesis
  using assms ne rsp_bit [of 0 cap] rsp_bit [of 1 cap] rsp_bit [of 2 cap] rsp_bit [of 3 cap] rsp_bit [of 4 cap] rsp_bit [of 5 cap] rsp_bit [of 6 cap]
    rsp_bit [of 7 cap] rsp_bit [of 8 cap] local_trans_mode
  by (simp add: GetCapabilityInfo_def g_localGetCap_def get_defs Let_def g_localInfo_def)
qed

text \<open>
  A table of setters with, for each, the bytes it reads and the update it makes, read the concatenation of the
  bytes of the capabilities present.
\<close>

type_synonym cap_entry = "u32 \<times> set_cap \<times> bytes \<times> (CM_CapabilityValue \<Rightarrow> CM_CapabilityValue)"

fun reads :: "cap_entry \<Rightarrow> bool" where
  "reads (flag, f, bs, u) \<longleftrightarrow> (\<forall>pre post v. f (pre @ bs @ post) (length pre) (length (bs @ post)) v = Some (Some (length bs, u v)))"

fun cap_bytes :: "u32 \<Rightarrow> cap_entry \<Rightarrow> bytes" where
  "cap_bytes cap (flag, f, bs, u) = (if flag AND cap \<noteq> 0 then bs else [])"

fun cap_flags :: "u32 \<Rightarrow> cap_entry \<Rightarrow> u32 \<Rightarrow> u32" where
  "cap_flags cap (flag, f, bs, u) x = x OR (if flag AND cap \<noteq> 0 then flag else 0)"

fun cap_upd :: "u32 \<Rightarrow> cap_entry \<Rightarrow> CM_CapabilityValue \<Rightarrow> CM_CapabilityValue" where
  "cap_upd cap (flag, f, bs, u) v = (if flag AND cap \<noteq> 0 then u v else v)"

lemma set_caps_reads:
  assumes "\<forall>t \<in> set ts. reads t"
  shows "set_caps (map (\<lambda>(flag, f, _, _). (flag, f)) ts) cap (pre @ concat (map (cap_bytes cap) ts)) (length pre)
      (length (concat (map (cap_bytes cap) ts))) bits v
    = Some (Some (length (pre @ concat (map (cap_bytes cap) ts)), fold (cap_flags cap) ts bits, fold (cap_upd cap) ts v))"
  using assms
proof (induction ts arbitrary: pre bits v)
  case (Cons t ts)
  obtain flag f bs u where t: "t = (flag, f, bs, u)" by (cases t)
  have r: "f (pre @ bs @ post) (length pre) (length bs + length post) v = Some (Some (length bs, u v))" for post using Cons(2) by (simp add: t)
  show ?case using Cons(1) [of "pre @ cap_bytes cap t" "cap_flags cap t bits" "cap_upd cap t v"] Cons(2) r
    by (cases "flag AND cap \<noteq> 0") (simp_all add: t)
qed simp

lemma length_cap_bytes: "length (concat (map (cap_bytes cap) ts)) \<le> sum_list (map (\<lambda>(_, _, bs, _). length bs) ts)"
  by (induction ts) auto

lemma if_upd:
  "(if b then v\<lparr>cv_transMode := x\<rparr> else v) = v\<lparr>cv_transMode := if b then x else cv_transMode v\<rparr>"
  "(if b then v\<lparr>cv_accessSle := y\<rparr> else v) = v\<lparr>cv_accessSle := if b then y else cv_accessSle v\<rparr>"
  "(if b then v\<lparr>cv_mtu := x\<rparr> else v) = v\<lparr>cv_mtu := if b then x else cv_mtu v\<rparr>"
  "(if b then v\<lparr>cv_mps := x\<rparr> else v) = v\<lparr>cv_mps := if b then x else cv_mps v\<rparr>"
  "(if b then v\<lparr>cv_version := x\<rparr> else v) = v\<lparr>cv_version := if b then x else cv_version v\<rparr>"
  "(if b then v\<lparr>cv_wnd := z\<rparr> else v) = v\<lparr>cv_wnd := if b then z else cv_wnd v\<rparr>"
  by simp_all

definition cap_table :: "bytes \<Rightarrow> cap_entry list" where
  "cap_table a =
     [(cap_bit CM_SIGNAL_RELAY_CAPABILITY, SetRelayCapability, [], id),
      (cap_bit CM_SIGNAL_TRANS_MODE, SetTransModeCapability, ENCODE2BYTE_LITTLE 3, \<lambda>v. v\<lparr>cv_transMode := 3\<rparr>),
      (cap_bit CM_SIGNAL_MEASURE_CAPABILITY, SetMeasurementCapability, [], id),
      (cap_bit CM_SIGNAL_ACCESS_SLE, SetAccessSleCapability, a, \<lambda>v. v\<lparr>cv_accessSle := a\<rparr>),
      (cap_bit CM_SIGNAL_ACCESS_SLB, SetAccessSlbCapability, a, \<lambda>v. v\<lparr>cv_accessSlb := a\<rparr>),
      (cap_bit CM_SIGNAL_MTU, SetMtuCapability, ENCODE2BYTE_LITTLE 4096, \<lambda>v. v\<lparr>cv_mtu := 4096\<rparr>),
      (cap_bit CM_SIGNAL_MPS, SetMpsCapability, ENCODE2BYTE_LITTLE 1500, \<lambda>v. v\<lparr>cv_mps := 1500\<rparr>),
      (cap_bit CM_SIGNAL_VERSION, SetVersionCapability, ENCODE2BYTE_LITTLE 0x0101, \<lambda>v. v\<lparr>cv_version := 0x0101\<rparr>),
      (cap_bit CM_SIGNAL_WND, SetRxWindowCapability, [200], \<lambda>v. v\<lparr>cv_wnd := 200\<rparr>)]"

lemma rd16_encode: "rd16 (pre @ ENCODE2BYTE_LITTLE x @ post) (length pre) = Some x"
  by (simp add: rd16_def nth_append ENCODE2BYTE_LITTLE_def)

lemma cap_table_reads: "length a = 6 \<Longrightarrow> \<forall>t \<in> set (cap_table a). reads t"
  by (auto simp: cap_table_def SetRelayCapability_def SetMeasurementCapability_def SetAccessSlbCapability_def set_defs rd16_encode rd_block_def rd8_def nth_append)

lemma SetCapabilityInfo_encoded:
  "SetCapabilityInfo (ENCODE4BYTE_LITTLE r @ bs) v = do {
     x \<leftarrow> set_caps g_localSetCap r (ENCODE4BYTE_LITTLE r @ bs) 4 (length bs) 0 v;
     (case x of None \<Rightarrow> Some None | Some (p, bits, v1) \<Rightarrow> Some (Some (p, v1\<lparr>cv_capBitMap := bits\<rparr>)))
   }"
  by (simp add: SetCapabilityInfo_def ENCODE4BYTE_LITTLE_def rd8_def decode_encode_4)

lemma length_encode_4 [simp]: "length (ENCODE4BYTE_LITTLE r) = 4"
  by (simp add: ENCODE4BYTE_LITTLE_def)

lemma cap_exchange:
  assumes "length a = 6"
  shows "\<exists>bs. GetCapabilityInfo (Some a) cap 100 = Some bs \<and> SetCapabilityInfo bs zero_value = Some (Some (length bs, cap_value cap a)) \<and> 4 \<le> length bs \<and> length bs \<le> 25"
proof -
  let ?r = "cap AND li_cap g_localInfo"
  let ?bs = "concat (map (cap_bytes ?r) (cap_table a))"
  note bits = rsp_bit [of 0 cap] rsp_bit [of 1 cap] rsp_bit [of 2 cap] rsp_bit [of 3 cap] rsp_bit [of 4 cap] rsp_bit [of 5 cap] rsp_bit [of 6 cap]
    rsp_bit [of 7 cap] rsp_bit [of 8 cap]
  have get: "GetCapabilityInfo (Some a) cap 100 = Some (ENCODE4BYTE_LITTLE ?r @ ?bs)"
    unfolding GetCapabilityInfo_bytes [OF assms] using bits by (simp add: cap_table_def)
  have tab: "map (\<lambda>(flag, f, _, _). (flag, f)) (cap_table a) = g_localSetCap" by (simp add: cap_table_def g_localSetCap_def)
  have fl: "fold (cap_flags ?r) (cap_table a) 0 = ?r"
    using bits rsp_split [of cap] by (simp add: cap_table_def or.assoc)
  have "(fold (cap_upd ?r) (cap_table a) zero_value)\<lparr>cv_capBitMap := ?r\<rparr> = cap_value cap a"
    using bits by (simp add: cap_table_def cap_value_def zero_value_def if_upd del: if_split)
  then have "SetCapabilityInfo (ENCODE4BYTE_LITTLE ?r @ ?bs) zero_value = Some (Some (length (ENCODE4BYTE_LITTLE ?r @ ?bs), cap_value cap a))"
    using set_caps_reads [OF cap_table_reads [OF assms], of ?r "ENCODE4BYTE_LITTLE ?r" 0 zero_value] tab fl
    by (simp add: SetCapabilityInfo_encoded)
  moreover have "length ?bs \<le> 21" using length_cap_bytes [of ?r "cap_table a"] assms by (simp add: cap_table_def)
  ultimately show ?thesis using get by auto
qed

end
