(* ===== verification/Cm_Dyn.thy ===== *)
theory Cm_Dyn
  imports Cm_Cap
begin

text \<open>
  Dynamic transport channels: the event handlers of their state machine (\<open>cm_dyn_trans_chan_state_mgr.c\<close>), the
  requests of the upper layers, the callbacks of the signalling and of the links (\<open>cm_dyn_trans_channel_mgr.c\<close>),
  and the receiving half of the signalling (\<open>cm_signaling_trans_channel.c\<close>, \<open>cm_signaling_internal.c\<close>). Calls of the
  registered upper-layer callbacks are logged; the environment decides the answer of the admission callback
  and whether the data plane accepts a message.
\<close>

section \<open>State\<close>

record dyn_cbks =
  establishRspCbk :: bool
  releaseRspCbk :: bool
  statusIndicationCbk :: bool
  establishedCheckCbk :: bool

text \<open>The structures passed to the three callbacks; a field a callback's structure does not have is zero.\<close>

record dyn_rsp =
  rp_version :: nat
  rp_localIndex :: nat
  rp_lcid :: u16
  rp_transMode :: nat
  rp_srcTcid :: u8
  rp_dstTcid :: u8
  rp_srcPort :: u16
  rp_dstPort :: u16
  rp_aid :: u16
  rp_slqi :: u8
  rp_result :: nat
  rp_mtu :: nat
  rp_frameType :: nat
  rp_addr :: SLE_Addr

datatype dyn_note = NoteEstablishRsp dyn_rsp | NoteReleaseRsp dyn_rsp | NoteStatusIndication bool dyn_rsp

record cm_state =
  chan :: chan_mgr
  sig :: signaling
  g_cmDynTransPoolListHead :: "CM_DynTcidPool list"
  g_cmDynTcidIsInited :: bool
  g_channelCbks :: dyn_cbks
  g_signalingTransChanCbks :: bool
  g_cmIsRegistered :: bool
  g_publicAddress :: bytes
  upper_log :: "dyn_note list"

type_synonym cm_env = "bool env"

abbreviation (input) CM_RESULT_ESTABLISH_SUCCESS :: nat where "CM_RESULT_ESTABLISH_SUCCESS \<equiv> 0"
abbreviation (input) CM_RESULT_INSUFFICIENT_RESOURCE :: nat where "CM_RESULT_INSUFFICIENT_RESOURCE \<equiv> 1"
abbreviation (input) CM_RESULT_UNSUPPORTED_MTU_SIZE :: nat where "CM_RESULT_UNSUPPORTED_MTU_SIZE \<equiv> 2"
abbreviation (input) CM_RESULT_ESTABLISH_TIMEOUT :: nat where "CM_RESULT_ESTABLISH_TIMEOUT \<equiv> 5"
abbreviation (input) CM_RESULT_RELEASE_SUCCESS :: nat where "CM_RESULT_RELEASE_SUCCESS \<equiv> 0"
abbreviation (input) CM_RESULT_RELEASE_TIMEOUT :: nat where "CM_RESULT_RELEASE_TIMEOUT \<equiv> 1"
abbreviation (input) CM_DYN_TRANS_CHAN_ESTABLISH_SUCCESS :: nat where "CM_DYN_TRANS_CHAN_ESTABLISH_SUCCESS \<equiv> 0"
abbreviation (input) CM_DYN_TRANS_CHAN_ESTABLISH_FAIL :: nat where "CM_DYN_TRANS_CHAN_ESTABLISH_FAIL \<equiv> 1"
abbreviation (input) CM_DYN_TRANS_CHAN_ESTABLISH_TIMEOUT :: nat where "CM_DYN_TRANS_CHAN_ESTABLISH_TIMEOUT \<equiv> 60"
abbreviation (input) CM_DYN_TRANS_CHAN_RELEASE_SUCCESS :: nat where "CM_DYN_TRANS_CHAN_RELEASE_SUCCESS \<equiv> 0"
abbreviation (input) CM_DYN_TRANS_CHAN_RELEASE_FAIL :: nat where "CM_DYN_TRANS_CHAN_RELEASE_FAIL \<equiv> 1"
abbreviation (input) CM_DYN_TRANS_CHAN_RELEASE_TIMEOUT :: nat where "CM_DYN_TRANS_CHAN_RELEASE_TIMEOUT \<equiv> 60"
abbreviation (input) CM_DYN_TRANS_CHAN_STATUS_INDICATION_NORMAL :: nat where "CM_DYN_TRANS_CHAN_STATUS_INDICATION_NORMAL \<equiv> 0"
abbreviation (input) CM_DYN_TRANS_CHAN_STATUS_INDICATION_DICONNECTED :: nat where "CM_DYN_TRANS_CHAN_STATUS_INDICATION_DICONNECTED \<equiv> 2"
abbreviation (input) CM_TRANS_INVALID_AID :: u16 where "CM_TRANS_INVALID_AID \<equiv> 3999"
abbreviation (input) CM_CAP_MIN_MTU :: nat where "CM_CAP_MIN_MTU \<equiv> 32"
abbreviation (input) CM_LINK_STATE_DISCONNECTED :: nat where "CM_LINK_STATE_DISCONNECTED \<equiv> 2"
abbreviation (input) CM_TRANS_CHANNEL_SLQI_MAX :: nat where "CM_TRANS_CHANNEL_SLQI_MAX \<equiv> 2"

section \<open>Identifier pools\<close>

definition CM_DynTcidInit :: "cm_state \<Rightarrow> cm_state" where
  "CM_DynTcidInit s = (if g_cmDynTcidIsInited s then s else s\<lparr>g_cmDynTransPoolListHead := [], g_cmDynTcidIsInited := True\<rparr>)"

definition CM_DynTcidDeInit :: "cm_state \<Rightarrow> cm_state" where
  "CM_DynTcidDeInit s =
     (if \<not> g_cmDynTcidIsInited s then s
      else s\<lparr>g_cmDynTransPoolListHead := fold (\<lambda>p ps. snd (CM_DynTcidDestroyPool (pool_lcid p) ps)) (g_cmDynTransPoolListHead s) (g_cmDynTransPoolListHead s),
             g_cmDynTcidIsInited := False\<rparr>)"

text \<open>Taking and returning an identifier of the state's pools.\<close>

definition tcid_alloc :: "u16 \<Rightarrow> nat \<Rightarrow> cm_state \<Rightarrow> u8 \<times> cm_state" where
  "tcid_alloc l m s = (case CM_DynTcidAllocate l m (g_cmDynTransPoolListHead s) of (t, ps) \<Rightarrow> (t, s\<lparr>g_cmDynTransPoolListHead := ps\<rparr>))"

definition tcid_release :: "u16 \<Rightarrow> u8 \<Rightarrow> nat \<Rightarrow> cm_state \<Rightarrow> CM_errno \<times> cm_state" where
  "tcid_release l t m s = (case CM_DynTcidRelease l t m (g_cmDynTransPoolListHead s) of (ret, ps) \<Rightarrow> (ret, s\<lparr>g_cmDynTransPoolListHead := ps\<rparr>))"

definition chan_upd :: "(chan_mgr \<Rightarrow> chan_mgr) \<Rightarrow> cm_state \<Rightarrow> cm_state" where
  "chan_upd f s = s\<lparr>chan := f (chan s)\<rparr>"

section \<open>Upper-layer callbacks\<close>

definition CM_DynTransChanEstablishRspCbk :: "SleTransLcid \<Rightarrow> nat \<Rightarrow> cm_state \<Rightarrow> cm_state" where
  "CM_DynTransChanEstablishRspCbk n result s =
     (if \<not> establishRspCbk (g_channelCbks s) then s
      else (case nd_params n of
        None \<Rightarrow> s
      | Some p \<Rightarrow> s\<lparr>upper_log := upper_log s @ [NoteEstablishRsp \<lparr>rp_version = tl_version p, rp_localIndex = tl_localIndex p, rp_lcid = nd_lcid n,
          rp_transMode = transMode (tl_config p), rp_srcTcid = nd_local n, rp_dstTcid = nd_remote n, rp_srcPort = tl_srcPort p, rp_dstPort = tl_dstPort p,
          rp_aid = tl_aid p, rp_slqi = tl_slqi p, rp_result = result, rp_mtu = cfg_mtu (tl_config p), rp_frameType = tl_frameType p, rp_addr = nd_rmtAddr n\<rparr>]\<rparr>))"

definition CM_DynTransChanReleaseRspCbk :: "SleTransLcid \<Rightarrow> nat \<Rightarrow> cm_state \<Rightarrow> cm_state" where
  "CM_DynTransChanReleaseRspCbk n result s =
     (if \<not> releaseRspCbk (g_channelCbks s) then s
      else (case nd_params n of
        None \<Rightarrow> s
      | Some p \<Rightarrow> s\<lparr>upper_log := upper_log s @ [NoteReleaseRsp \<lparr>rp_version = tl_version p, rp_localIndex = tl_localIndex p, rp_lcid = nd_lcid n,
          rp_transMode = 0, rp_srcTcid = nd_local n, rp_dstTcid = nd_remote n, rp_srcPort = tl_srcPort p, rp_dstPort = tl_dstPort p,
          rp_aid = 0, rp_slqi = tl_slqi p, rp_result = result, rp_mtu = 0, rp_frameType = tl_frameType p, rp_addr = nd_rmtAddr n\<rparr>]\<rparr>))"

definition CM_DynTransChanStatusIndicationCbk :: "SleTransLcid \<Rightarrow> bool \<Rightarrow> nat \<Rightarrow> cm_state \<Rightarrow> cm_state" where
  "CM_DynTransChanStatusIndicationCbk n added result s =
     (if \<not> statusIndicationCbk (g_channelCbks s) then s
      else (case nd_params n of
        None \<Rightarrow> s
      | Some p \<Rightarrow> s\<lparr>upper_log := upper_log s @ [NoteStatusIndication added \<lparr>rp_version = tl_version p, rp_localIndex = tl_localIndex p, rp_lcid = nd_lcid n,
          rp_transMode = transMode (tl_config p), rp_srcTcid = nd_local n, rp_dstTcid = nd_remote n, rp_srcPort = tl_srcPort p, rp_dstPort = tl_dstPort p,
          rp_aid = 0, rp_slqi = tl_slqi p, rp_result = result, rp_mtu = cfg_mtu (tl_config p), rp_frameType = 0, rp_addr = nd_rmtAddr n\<rparr>]\<rparr>))"

section \<open>Handlers\<close>

definition establish_req :: "CM_DynTransChanParam \<Rightarrow> u8 \<Rightarrow> CM_SignalingTransChanEstablishReq" where
  "establish_req p tcid = \<lparr>er_srcTcid = tcid, er_exclusive = dc_exclusive p, er_measure = dc_measure p, er_config = dc_config p, er_slqiNum = 1,
     er_slqi = dc_slqi p, er_portConfig = Some \<lparr>pc_srcPort = dc_srcPort p, pc_dstPort = dc_dstPort p, pc_aid = dc_aid p\<rparr>\<rparr>"

definition CM_DynTransChanActiveEstablishingReqHandler :: "cm_env \<Rightarrow> nat \<Rightarrow> CM_DynTransChanParam \<Rightarrow> nat \<Rightarrow> cm_state \<Rightarrow> CM_errno \<times> cm_state" where
  "CM_DynTransChanActiveEstablishingReqHandler e cur p nxt s =
     (case tcid_alloc (dc_lcid p) (dc_expectedTransportMode p) s of (tcid, s1) \<Rightarrow>
        if tcid = CM_TRANS_INVALID_TCID then (CM_FAIL, s1)
        else (case CM_ActivateDynamicTransChannel (sub e 0) (dc_lcid p) (p\<lparr>dc_localTcid := tcid, dc_remoteTcid := CM_TRANS_INVALID_TCID, dc_state := nxt\<rparr>) (chan s1) of
          (None, ch) \<Rightarrow> (CM_FAIL, snd (tcid_release (dc_lcid p) tcid (dc_expectedTransportMode p) (s1\<lparr>chan := ch\<rparr>)))
        | (Some n, ch) \<Rightarrow>
            (case CM_SignalingTransChanEstablishReqSend (sub e 1) (dc_lcid p) (establish_req p tcid) (sig s1) of (ret, sg) \<Rightarrow>
               let s2 = s1\<lparr>chan := ch, sig := sg\<rparr> in
               if ret \<noteq> CM_SUCCESS
               then (CM_FAIL, snd (tcid_release (dc_lcid p) tcid (dc_expectedTransportMode p) (chan_upd (CM_ReleaseDynamicTransChannelByLocalTcid (sub e 2) n) s2)))
               else (CM_SUCCESS, s2))))"

definition CM_DynTransChanActiveEstablishedRspHandler :: "cm_env \<Rightarrow> nat \<Rightarrow> CM_DynTransChanParam \<Rightarrow> nat \<Rightarrow> cm_state \<Rightarrow> CM_errno \<times> cm_state" where
  "CM_DynTransChanActiveEstablishedRspHandler e cur p nxt s =
     (if dc_result p \<noteq> CM_RESULT_ESTABLISH_SUCCESS then (CM_FAIL, s)
      else (case CM_FindTransChannelByLocalTcid (dc_lcid p) (dc_localTcid p) (chan s) of
        None \<Rightarrow> (CM_FAIL, s)
      | Some n \<Rightarrow> (case CM_DynamicTransChannelSetTcidAndChangeCbk (sub e 0) n (dc_remoteTcid p) nxt (chan s) of (n1, ch) \<Rightarrow>
          (CM_SUCCESS, CM_DynTransChanEstablishRspCbk n1 CM_DYN_TRANS_CHAN_ESTABLISH_SUCCESS (s\<lparr>chan := ch\<rparr>)))))"

text \<open>Releasing a node and returning its identifier, which three handlers end with.\<close>

definition release_node :: "cm_env \<Rightarrow> SleTransLcid \<Rightarrow> CM_DynTransChanParam \<Rightarrow> cm_state \<Rightarrow> CM_errno \<times> cm_state" where
  "release_node e n p s =
     (case tcid_release (dc_lcid p) (dc_localTcid p) (dc_expectedTransportMode p) (chan_upd (CM_ReleaseDynamicTransChannelByLocalTcid e n) s) of
        (ret, s1) \<Rightarrow> (if ret \<noteq> CM_SUCCESS then CM_FAIL else CM_SUCCESS, s1))"

definition CM_DynTransChanActiveEstablishingFailRspHandler :: "cm_env \<Rightarrow> nat \<Rightarrow> CM_DynTransChanParam \<Rightarrow> nat \<Rightarrow> cm_state \<Rightarrow> CM_errno \<times> cm_state" where
  "CM_DynTransChanActiveEstablishingFailRspHandler e cur p nxt s =
     (if dc_result p = CM_RESULT_ESTABLISH_SUCCESS then (CM_FAIL, s)
      else (case CM_FindTransChannelByLocalTcid (dc_lcid p) (dc_localTcid p) (chan s) of
        None \<Rightarrow> (CM_FAIL, s)
      | Some n \<Rightarrow> release_node e n p (CM_DynTransChanEstablishRspCbk n
          (if dc_result p = CM_RESULT_ESTABLISH_TIMEOUT then CM_DYN_TRANS_CHAN_ESTABLISH_TIMEOUT else CM_DYN_TRANS_CHAN_ESTABLISH_FAIL) s)))"

definition CM_DynTransChanActiveReleasingHandler :: "cm_env \<Rightarrow> nat \<Rightarrow> CM_DynTransChanParam \<Rightarrow> nat \<Rightarrow> cm_state \<Rightarrow> CM_errno \<times> cm_state" where
  "CM_DynTransChanActiveReleasingHandler e cur p nxt s =
     (case CM_FindTransChannelByLocalTcid (dc_lcid p) (dc_localTcid p) (chan s) of
        None \<Rightarrow> (CM_FAIL, s)
      | Some n \<Rightarrow>
          let s1 = chan_upd (node_upd (nd_addr n) (\<lambda>m. m\<lparr>nd_state := nxt\<rparr>)) s in
          (case CM_SignalingTransChanReleaseReqSend (sub e 0) (dc_lcid p) \<lparr>rr_srcTcid = dc_localTcid p, rr_dstTcid = nd_remote n\<rparr> (sig s1) of (ret, sg) \<Rightarrow>
             let s2 = s1\<lparr>sig := sg\<rparr> in
             if ret \<noteq> CM_SUCCESS then (CM_FAIL, chan_upd (node_upd (nd_addr n) (\<lambda>m. m\<lparr>nd_state := cur\<rparr>)) s2) else (CM_SUCCESS, s2)))"

definition CM_DynTransChanActiveReleasedRspHandler :: "cm_env \<Rightarrow> nat \<Rightarrow> CM_DynTransChanParam \<Rightarrow> nat \<Rightarrow> cm_state \<Rightarrow> CM_errno \<times> cm_state" where
  "CM_DynTransChanActiveReleasedRspHandler e cur p nxt s =
     (case CM_FindTransChannelByLocalTcid (dc_lcid p) (dc_localTcid p) (chan s) of
        None \<Rightarrow> (CM_FAIL, s)
      | Some n \<Rightarrow> release_node e n p (CM_DynTransChanReleaseRspCbk n CM_DYN_TRANS_CHAN_RELEASE_SUCCESS s))"

definition CM_DynTransChanActiveReleasingFailRspHandler :: "cm_env \<Rightarrow> nat \<Rightarrow> CM_DynTransChanParam \<Rightarrow> nat \<Rightarrow> cm_state \<Rightarrow> CM_errno \<times> cm_state" where
  "CM_DynTransChanActiveReleasingFailRspHandler e cur p nxt s =
     (case CM_FindTransChannelByLocalTcid (dc_lcid p) (dc_localTcid p) (chan s) of
        None \<Rightarrow> (CM_FAIL, s)
      | Some n \<Rightarrow> release_node e n p (CM_DynTransChanReleaseRspCbk n
          (if dc_result p = CM_RESULT_RELEASE_TIMEOUT then CM_DYN_TRANS_CHAN_RELEASE_TIMEOUT else CM_DYN_TRANS_CHAN_RELEASE_FAIL) s))"

definition CM_DynTransChanExpectionReleaseHandler :: "cm_env \<Rightarrow> u16 \<Rightarrow> u8 \<Rightarrow> u8 \<Rightarrow> cm_state \<Rightarrow> cm_state" where
  "CM_DynTransChanExpectionReleaseHandler e l local remote s =
     s\<lparr>sig := snd (CM_SignalingTransChanReleaseReqSend e l \<lparr>rr_srcTcid = local, rr_dstTcid = remote\<rparr> (sig s))\<rparr>"

definition CM_DynTransChanPassiveReleasedReqHandler :: "cm_env \<Rightarrow> nat \<Rightarrow> CM_DynTransChanParam \<Rightarrow> nat \<Rightarrow> cm_state \<Rightarrow> CM_errno \<times> cm_state" where
  "CM_DynTransChanPassiveReleasedReqHandler e cur p nxt s =
     (case CM_FindTransChannelByRemoteTcid (dc_lcid p) (dc_remoteTcid p) (chan s) of
        None \<Rightarrow> (CM_FAIL, s)
      | Some n \<Rightarrow>
          let s1 = CM_DynTransChanStatusIndicationCbk n False CM_DYN_TRANS_CHAN_STATUS_INDICATION_DICONNECTED s;
              s2 = snd (tcid_release (nd_lcid n) (nd_local n) (dc_expectedTransportMode p) s1);
              s3 = chan_upd (CM_ReleaseDynamicTransChannelByRemoteTcid (sub e 0) n) s2
          in case CM_SignalingTransChanReleaseRspSend (sub e 1) (nd_lcid n) (dc_reqId p)
               \<lparr>rs_srcTcid = nd_remote n, rs_dstTcid = nd_local n, rs_result = CM_RESULT_RELEASE_SUCCESS\<rparr> (sig s3) of (ret, sg) \<Rightarrow>
               if ret \<noteq> CM_SUCCESS then (CM_FAIL, CM_DynTransChanExpectionReleaseHandler (sub e 2) (nd_lcid n) (nd_local n) (nd_remote n) (s3\<lparr>sig := sg\<rparr>))
               else (CM_SUCCESS, s3\<lparr>sig := sg\<rparr>))"

definition CM_DynTransChannelEstablishedCheck :: "cm_env \<Rightarrow> cm_state \<Rightarrow> bool" where
  "CM_DynTransChannelEstablishedCheck e s = (if \<not> establishedCheckCbk (g_channelCbks s) then True else call_recv e)"

definition CM_DynTransChannelMtuCheck :: "nat \<Rightarrow> bool" where
  "CM_DynTransChannelMtuCheck m \<longleftrightarrow> m \<ge> CM_CAP_MIN_MTU"

definition CM_DynTransChanSendEstablishedErrResp :: "cm_env \<Rightarrow> CM_DynTransChanParam \<Rightarrow> nat \<Rightarrow> cm_state \<Rightarrow> cm_state" where
  "CM_DynTransChanSendEstablishedErrResp e p result s =
     s\<lparr>sig := snd (CM_SignalingTransChanEstablishRspSend e (dc_lcid p) (dc_reqId p)
          \<lparr>es_srcTcid = dc_remoteTcid p, es_dstTcid = CM_TRANS_INVALID_TCID, es_result = result\<rparr> (sig s))\<rparr>"

definition CM_DynTransChanPassiveEstablishedReqHandler :: "cm_env \<Rightarrow> nat \<Rightarrow> CM_DynTransChanParam \<Rightarrow> nat \<Rightarrow> cm_state \<Rightarrow> CM_errno \<times> cm_state" where
  "CM_DynTransChanPassiveEstablishedReqHandler e cur p nxt s =
     (if \<not> CM_DynTransChannelMtuCheck (cfg_mtu (dc_config p)) then (CM_FAIL, CM_DynTransChanSendEstablishedErrResp (sub e 0) p CM_RESULT_UNSUPPORTED_MTU_SIZE s)
      else if \<not> CM_DynTransChannelEstablishedCheck (sub e 1) s then (CM_FAIL, CM_DynTransChanSendEstablishedErrResp (sub e 0) p CM_RESULT_INSUFFICIENT_RESOURCE s)
      else (case tcid_alloc (dc_lcid p) (dc_expectedTransportMode p) s of (tcid, s1) \<Rightarrow>
        if tcid = CM_TRANS_INVALID_TCID then (CM_FAIL, s1)
        else (case CM_ActivateDynamicTransChannel (sub e 2) (dc_lcid p) (p\<lparr>dc_localTcid := tcid, dc_state := nxt\<rparr>) (chan s1) of
          (None, ch) \<Rightarrow> (CM_FAIL, snd (tcid_release (dc_lcid p) tcid (dc_expectedTransportMode p) (s1\<lparr>chan := ch\<rparr>)))
        | (Some n, ch) \<Rightarrow>
            (case CM_SignalingTransChanEstablishRspSend (sub e 3) (dc_lcid p) (dc_reqId p)
                 \<lparr>es_srcTcid = dc_remoteTcid p, es_dstTcid = tcid, es_result = CM_RESULT_ESTABLISH_SUCCESS\<rparr> (sig s1) of (ret, sg) \<Rightarrow>
               let s2 = s1\<lparr>chan := ch, sig := sg\<rparr> in
               if ret \<noteq> CM_SUCCESS
               then (CM_FAIL, snd (tcid_release (dc_lcid p) tcid (dc_expectedTransportMode p) (chan_upd (CM_ReleaseDynamicTransChannelByLocalTcid (sub e 4) n) s2)))
               else (CM_SUCCESS, CM_DynTransChanStatusIndicationCbk n True CM_DYN_TRANS_CHAN_STATUS_INDICATION_NORMAL s2)))))"

section \<open>The event table\<close>

type_synonym dyn_handler = "cm_env \<Rightarrow> nat \<Rightarrow> CM_DynTransChanParam \<Rightarrow> nat \<Rightarrow> cm_state \<Rightarrow> CM_errno \<times> cm_state"

abbreviation (input) EV_ACTIVE_ESTABLISHING_REQ :: nat where "EV_ACTIVE_ESTABLISHING_REQ \<equiv> 0"
abbreviation (input) EV_ACTIVE_ESTABLISHED_RSP :: nat where "EV_ACTIVE_ESTABLISHED_RSP \<equiv> 1"
abbreviation (input) EV_ACTIVE_ESTABLISHING_FAIL_RSP :: nat where "EV_ACTIVE_ESTABLISHING_FAIL_RSP \<equiv> 2"
abbreviation (input) EV_ACTIVE_RELEASING_REQ :: nat where "EV_ACTIVE_RELEASING_REQ \<equiv> 3"
abbreviation (input) EV_ACTIVE_RELEASED_RSP :: nat where "EV_ACTIVE_RELEASED_RSP \<equiv> 4"
abbreviation (input) EV_ACTIVE_RELEASING_FAIL_RSP :: nat where "EV_ACTIVE_RELEASING_FAIL_RSP \<equiv> 5"
abbreviation (input) EV_PASSIVE_RELEASED_REQ :: nat where "EV_PASSIVE_RELEASED_REQ \<equiv> 6"
abbreviation (input) EV_PASSIVE_ESTABLISHED_REQ :: nat where "EV_PASSIVE_ESTABLISHED_REQ \<equiv> 7"

text \<open>Current state, event, next state and handler of every entry.\<close>

definition g_dynTransChanEvents :: "(nat \<times> nat \<times> nat \<times> dyn_handler) list" where
  "g_dynTransChanEvents =
     [(CM_TRANS_CHANNEL_STATE_INIT, EV_ACTIVE_ESTABLISHING_REQ, CM_TRANS_CHANNEL_STATE_ACTIVATING, CM_DynTransChanActiveEstablishingReqHandler),
      (CM_TRANS_CHANNEL_STATE_ACTIVATING, EV_ACTIVE_ESTABLISHED_RSP, CM_TRANS_CHANNEL_STATE_ACTIVATED, CM_DynTransChanActiveEstablishedRspHandler),
      (CM_TRANS_CHANNEL_STATE_ACTIVATING, EV_ACTIVE_ESTABLISHING_FAIL_RSP, CM_TRANS_CHANNEL_STATE_RELEASED, CM_DynTransChanActiveEstablishingFailRspHandler),
      (CM_TRANS_CHANNEL_STATE_ACTIVATED, EV_ACTIVE_RELEASING_REQ, CM_TRANS_CHANNEL_STATE_RELEASING, CM_DynTransChanActiveReleasingHandler),
      (CM_TRANS_CHANNEL_STATE_RELEASING, EV_ACTIVE_RELEASED_RSP, CM_TRANS_CHANNEL_STATE_RELEASED, CM_DynTransChanActiveReleasedRspHandler),
      (CM_TRANS_CHANNEL_STATE_RELEASING, EV_ACTIVE_RELEASING_FAIL_RSP, CM_TRANS_CHANNEL_STATE_RELEASED, CM_DynTransChanActiveReleasingFailRspHandler),
      (CM_TRANS_CHANNEL_STATE_ACTIVATED, EV_PASSIVE_RELEASED_REQ, CM_TRANS_CHANNEL_STATE_RELEASED, CM_DynTransChanPassiveReleasedReqHandler),
      (CM_TRANS_CHANNEL_STATE_INIT, EV_PASSIVE_ESTABLISHED_REQ, CM_TRANS_CHANNEL_STATE_ACTIVATED, CM_DynTransChanPassiveEstablishedReqHandler)]"

text \<open>The entry is selected by its position alone; the state of the channel is not compared with the entry's.\<close>

definition CM_DynTransChanPostEventAndHandler :: "cm_env \<Rightarrow> nat \<Rightarrow> CM_DynTransChanParam \<Rightarrow> cm_state \<Rightarrow> CM_errno \<times> cm_state" where
  "CM_DynTransChanPostEventAndHandler e event p s =
     (if \<not> event < length g_dynTransChanEvents then (CM_FAIL, s)
      else (case g_dynTransChanEvents ! event of (cur, _, nxt, f) \<Rightarrow> f e cur p nxt s))"

section \<open>Link down\<close>

fun CM_DynTransChannelNotifyAllDisconnected :: "cm_env \<Rightarrow> nat \<Rightarrow> SleTransLcid list \<Rightarrow> cm_state \<Rightarrow> cm_state" where
  "CM_DynTransChannelNotifyAllDisconnected e k [] s = s"
| "CM_DynTransChannelNotifyAllDisconnected e k (n # ns) s =
     (let release = chan_upd (CM_ReleaseDynamicTransChannelByLocalTcid (sub e k) n) in
      CM_DynTransChannelNotifyAllDisconnected e (Suc k) ns
        (if nd_state n = CM_TRANS_CHANNEL_STATE_RELEASED then s
         else if nd_state n = CM_TRANS_CHANNEL_STATE_ACTIVATING \<or> nd_state n = CM_TRANS_CHANNEL_STATE_INIT
         then release (CM_DynTransChanEstablishRspCbk n CM_DYN_TRANS_CHAN_ESTABLISH_FAIL s)
         else if nd_state n = CM_TRANS_CHANNEL_STATE_ACTIVATED \<or> nd_state n = CM_TRANS_CHANNEL_STATE_RELEASING
         then release (CM_DynTransChanStatusIndicationCbk n False CM_DYN_TRANS_CHAN_STATUS_INDICATION_DICONNECTED s)
         else s))"

definition CM_DynTransChannReleaseAllNode :: "cm_env \<Rightarrow> u16 \<Rightarrow> cm_state \<Rightarrow> cm_state" where
  "CM_DynTransChannReleaseAllNode e l s =
     (case SDF_CreateVector (sub e 0) of
        None \<Rightarrow> s
      | Some v \<Rightarrow> (case CM_FindDynTransChannelByLcid (sub e 1) l v (chan s) of (ret, v1) \<Rightarrow>
          if ret \<noteq> CM_SUCCESS then s else CM_DynTransChannelNotifyAllDisconnected (sub e 2) 0 (v_elems v1) s))"

section \<open>Requests of the upper layers\<close>

definition CM_DynTransChanGetTransportMode :: "u8 \<Rightarrow> nat" where
  "CM_DynTransChanGetTransportMode tcid =
     (if tcid \<ge> CM_TCID_UC_BEGIN \<and> tcid \<le> CM_TCID_UC_END then CM_ACCESS_TRANS_MODE_UNICAST else CM_ACCESS_TRANS_MODE_MAX)"

record CM_DynTransChannelEstablishParamReq =
  eq_version :: nat
  eq_localIndex :: nat
  eq_addr :: SLE_Addr
  eq_srcPort :: u16
  eq_dstPort :: u16
  eq_config :: CM_TransModeConfig
  eq_slqi :: u8
  eq_expectedTransportMode :: nat
  eq_frameType :: nat

record CM_DynTransChannelReleaseParamReq =
  rq_addr :: SLE_Addr
  rq_srcTcid :: u8
  rq_dstTcid :: u8

definition CM_DynTransChannelCreate :: "cm_env \<Rightarrow> CM_DynTransChannelEstablishParamReq \<Rightarrow> cm_state \<Rightarrow> CM_errno \<times> cm_state" where
  "CM_DynTransChannelCreate e q s =
     (case SleLogicLinkGetByAddr (eq_addr q) (chan s) of
        None \<Rightarrow> (CM_FAIL, s)
      | Some ll \<Rightarrow>
          (case CM_DynTransChanPostEventAndHandler e EV_ACTIVE_ESTABLISHING_REQ
             (zero_param\<lparr>dc_version := eq_version q, dc_localIndex := eq_localIndex q, dc_lcid := ll_lcid ll, dc_srcPort := eq_srcPort q,
                dc_dstPort := eq_dstPort q, dc_localTcid := CM_TRANS_INVALID_TCID, dc_remoteTcid := CM_TRANS_INVALID_TCID, dc_aid := CM_TRANS_INVALID_AID,
                dc_exclusive := True, dc_slqi := eq_slqi q, dc_expectedTransportMode := eq_expectedTransportMode q,
                dc_state := CM_TRANS_CHANNEL_STATE_INIT, dc_frameType := eq_frameType q, dc_config := eq_config q\<rparr>) s of
             (ret, s1) \<Rightarrow> (if ret \<noteq> CM_SUCCESS then CM_FAIL else ret, s1)))"

definition CM_DynTransChannelEstablishReq :: "cm_env \<Rightarrow> CM_DynTransChannelEstablishParamReq option \<Rightarrow> cm_state \<Rightarrow> CM_errno \<times> cm_state" where
  "CM_DynTransChannelEstablishReq e param s =
     (if \<not> g_cmIsRegistered s then (CM_FAIL, s)
      else (case param of
        None \<Rightarrow> (CM_INVALID_PARAM_ERR, s)
      | Some q \<Rightarrow>
          if \<not> (eq_expectedTransportMode q = CM_ACCESS_TRANS_MODE_UNICAST \<and> transMode (eq_config q) < CM_TRANS_MODE_MAX) then (CM_INVALID_PARAM_ERR, s)
          else if \<not> unat (eq_slqi q) < CM_TRANS_CHANNEL_SLQI_MAX then (CM_INVALID_PARAM_ERR, s)
          else (case CM_DynTransChannelCreate e q s of (ret, s1) \<Rightarrow> (if ret \<noteq> CM_SUCCESS then CM_FAIL else CM_SUCCESS, s1))))"

definition CM_DynTransChannelReleaseReq :: "cm_env \<Rightarrow> CM_DynTransChannelReleaseParamReq option \<Rightarrow> cm_state \<Rightarrow> CM_errno \<times> cm_state" where
  "CM_DynTransChannelReleaseReq e param s =
     (if \<not> g_cmIsRegistered s then (CM_FAIL, s)
      else (case param of
        None \<Rightarrow> (CM_INVALID_PARAM_ERR, s)
      | Some q \<Rightarrow>
          if \<not> CM_TRANS_CHANNEL_IS_DYNAMIC (rq_srcTcid q) then (CM_INVALID_PARAM_ERR, s)
          else (case SleLogicLinkGetByAddr (rq_addr q) (chan s) of
            None \<Rightarrow> (CM_FAIL, s)
          | Some ll \<Rightarrow> (case CM_DynTransChanPostEventAndHandler e EV_ACTIVE_RELEASING_REQ
                (zero_param\<lparr>dc_lcid := ll_lcid ll, dc_localTcid := rq_srcTcid q, dc_remoteTcid := rq_dstTcid q\<rparr>) s of
              (ret, s1) \<Rightarrow> (if ret \<noteq> CM_SUCCESS then CM_FAIL else CM_SUCCESS, s1)))))"

section \<open>Callbacks of the signalling\<close>

definition CM_DynTransChannelEstablishReqCbk :: "cm_env \<Rightarrow> u16 \<Rightarrow> u8 \<Rightarrow> CM_SignalingTransChanEstablishReq \<Rightarrow> cm_state \<Rightarrow> cm_state" where
  "CM_DynTransChannelEstablishReqCbk e l reqId req s =
     (if \<not> CM_TRANS_CHANNEL_IS_DYNAMIC (er_srcTcid req) then s
      else if CM_FindTransChannelByRemoteTcid l (er_srcTcid req) (chan s) \<noteq> None then s
      else let p = zero_param\<lparr>dc_lcid := l, dc_remoteTcid := er_srcTcid req, dc_result := CM_RESULT_ESTABLISH_SUCCESS,
                     dc_expectedTransportMode := CM_DynTransChanGetTransportMode (er_srcTcid req), dc_reqId := reqId, dc_slqi := er_slqi req\<rparr>;
               p1 = (case er_portConfig req of None \<Rightarrow> p
                     | Some pc \<Rightarrow> p\<lparr>dc_srcPort := pc_dstPort pc, dc_dstPort := pc_srcPort pc, dc_aid := pc_aid pc\<rparr>)
           in snd (CM_DynTransChanPostEventAndHandler e EV_PASSIVE_ESTABLISHED_REQ (p1\<lparr>dc_config := er_config req\<rparr>) s))"

definition CM_DynTransChannelEstablishRspCbk :: "cm_env \<Rightarrow> u16 \<Rightarrow> CM_SignalingTransChanEstablishRsp \<Rightarrow> cm_state \<Rightarrow> cm_state" where
  "CM_DynTransChannelEstablishRspCbk e l rsp s =
     (if \<not> CM_TRANS_CHANNEL_IS_DYNAMIC (es_srcTcid rsp) then s
      else if es_result rsp = CM_RESULT_ESTABLISH_SUCCESS \<and> \<not> CM_TRANS_CHANNEL_IS_DYNAMIC (es_dstTcid rsp) then s
      else let p = zero_param\<lparr>dc_lcid := l, dc_localTcid := es_srcTcid rsp, dc_remoteTcid := es_dstTcid rsp, dc_result := es_result rsp,
                     dc_expectedTransportMode := CM_DynTransChanGetTransportMode (es_srcTcid rsp)\<rparr>
           in case CM_FindTransChannelByLocalTcid l (es_srcTcid rsp) (chan s) of
                None \<Rightarrow> s
              | Some n \<Rightarrow>
                  if nd_state n \<noteq> CM_TRANS_CHANNEL_STATE_ACTIVATING then s
                  else if es_result rsp = CM_RESULT_ESTABLISH_SUCCESS then snd (CM_DynTransChanPostEventAndHandler e EV_ACTIVE_ESTABLISHED_RSP p s)
                  else snd (CM_DynTransChanPostEventAndHandler e EV_ACTIVE_ESTABLISHING_FAIL_RSP p s))"

definition CM_DynTransChannelReleaseReqCbk :: "cm_env \<Rightarrow> u16 \<Rightarrow> u8 \<Rightarrow> CM_SignalingTransChanReleaseReq \<Rightarrow> cm_state \<Rightarrow> cm_state" where
  "CM_DynTransChannelReleaseReqCbk e l reqId req s =
     (if \<not> CM_TRANS_CHANNEL_IS_DYNAMIC (rr_srcTcid req) then s
      else snd (CM_DynTransChanPostEventAndHandler e EV_PASSIVE_RELEASED_REQ
        (zero_param\<lparr>dc_lcid := l, dc_remoteTcid := rr_srcTcid req, dc_localTcid := rr_dstTcid req, dc_result := CM_RESULT_ESTABLISH_SUCCESS,
           dc_expectedTransportMode := CM_DynTransChanGetTransportMode (rr_srcTcid req), dc_reqId := reqId\<rparr>) s))"

definition CM_DynTransChannelReleaseRspCbk :: "cm_env \<Rightarrow> u16 \<Rightarrow> CM_SignalingTransChanReleaseRsp \<Rightarrow> cm_state \<Rightarrow> cm_state" where
  "CM_DynTransChannelReleaseRspCbk e l rsp s =
     (if \<not> CM_TRANS_CHANNEL_IS_DYNAMIC (rs_srcTcid rsp) then s
      else snd (CM_DynTransChanPostEventAndHandler e
        (if rs_result rsp = CM_RESULT_RELEASE_SUCCESS then EV_ACTIVE_RELEASED_RSP else EV_ACTIVE_RELEASING_FAIL_RSP)
        (zero_param\<lparr>dc_lcid := l, dc_result := rs_result rsp, dc_localTcid := rs_srcTcid rsp, dc_remoteTcid := rs_dstTcid rsp,
           dc_expectedTransportMode := CM_DynTransChanGetTransportMode (rs_srcTcid rsp)\<rparr>) s))"

definition CM_DynTransLogicLinkCbk :: "cm_env \<Rightarrow> nat \<Rightarrow> u16 \<Rightarrow> cm_state \<Rightarrow> cm_state" where
  "CM_DynTransLogicLinkCbk e result l s =
     (if result = CM_LINK_STATE_CONNECTED
      then s\<lparr>g_cmDynTransPoolListHead := snd (CM_DynTcidActivatePool e l (g_cmDynTransPoolListHead s))\<rparr>
      else if result = CM_LINK_STATE_DISCONNECTED
      then let s1 = CM_DynTransChannReleaseAllNode e l s in s1\<lparr>g_cmDynTransPoolListHead := snd (CM_DynTcidDestroyPool l (g_cmDynTransPoolListHead s1))\<rparr>
      else s)"

section \<open>Registration\<close>

definition CM_DynTransChannStateMgrRegCbks :: "dyn_cbks \<Rightarrow> cm_state \<Rightarrow> cm_state" where
  "CM_DynTransChannStateMgrRegCbks cbks s = (CM_DynTcidInit s)\<lparr>g_channelCbks := cbks\<rparr>"

definition CM_DynTransChannStateMgrUnRegCbks :: "cm_state \<Rightarrow> cm_state" where
  "CM_DynTransChannStateMgrUnRegCbks s =
     CM_DynTcidDeInit (s\<lparr>g_channelCbks := \<lparr>establishRspCbk = False, releaseRspCbk = False, statusIndicationCbk = False, establishedCheckCbk = False\<rparr>\<rparr>)"

text \<open>The argument says whether all four callbacks are given; the only caller gives those of the dynamic channels.\<close>

definition CM_SignalingTransChanCbksRegister :: "bool \<Rightarrow> cm_state \<Rightarrow> CM_errno \<times> cm_state" where
  "CM_SignalingTransChanCbksRegister cbks s = (if \<not> cbks then (CM_NULL_POINTER, s) else (CM_SUCCESS, s\<lparr>g_signalingTransChanCbks := True\<rparr>))"

definition CM_SignalingTransChanCbksUnregister :: "cm_state \<Rightarrow> cm_state" where
  "CM_SignalingTransChanCbksUnregister s = s\<lparr>g_signalingTransChanCbks := False\<rparr>"

text \<open>
  The environment says whether the link management is initialised: \<open>CM_RegLogicLinkListener\<close> refuses with
  \<open>CM_NOT_INITED\<close> when it is not.
\<close>

definition CM_RegDynTransChannelCbks :: "cm_env \<Rightarrow> dyn_cbks option \<Rightarrow> cm_state \<Rightarrow> CM_errno \<times> cm_state" where
  "CM_RegDynTransChannelCbks e cbks s =
     (if g_cmIsRegistered s then (CM_FAIL, s)
      else (case cbks of
        None \<Rightarrow> (CM_INVALID_PARAM_ERR, s)
      | Some c \<Rightarrow>
          if \<not> (establishRspCbk c \<and> releaseRspCbk c \<and> statusIndicationCbk c) then (CM_INVALID_PARAM_ERR, s)
          else let s1 = CM_DynTransChannStateMgrRegCbks c s in
            if \<not> call_dli e then (CM_NOT_INITED, s1)
            else (case CM_SignalingTransChanCbksRegister True s1 of
                (ret, s2) \<Rightarrow> if ret \<noteq> CM_SUCCESS then (CM_FAIL, s2) else (CM_SUCCESS, s2\<lparr>g_cmIsRegistered := True\<rparr>))))"

declare CM_SignalingTransChanCbksRegister_def [simp]

definition CM_UnRegDynTransChannelCbks :: "cm_state \<Rightarrow> cm_state" where
  "CM_UnRegDynTransChannelCbks s = (if \<not> g_cmIsRegistered s then s else (CM_DynTransChannStateMgrUnRegCbks s)\<lparr>g_cmIsRegistered := False\<rparr>)"

section \<open>Received messages and timeouts\<close>

definition CM_SignalingTransChanEstablishReqProc :: "cm_env \<Rightarrow> u16 \<Rightarrow> u8 \<Rightarrow> bytes \<Rightarrow> cm_state \<Rightarrow> cm_state option" where
  "CM_SignalingTransChanEstablishReqProc e l i data s = do {
     r \<leftarrow> CM_SignalingTransChanEstablishReqParse data;
     (case r of
        Inl _ \<Rightarrow> Some s
      | Inr req \<Rightarrow> Some (if g_signalingTransChanCbks s then CM_DynTransChannelEstablishReqCbk e l i req s else s))
   }"

definition CM_SignalingTransChanEstablishRspProc :: "cm_env \<Rightarrow> u16 \<Rightarrow> u8 \<Rightarrow> bytes \<Rightarrow> cm_state \<Rightarrow> cm_state option" where
  "CM_SignalingTransChanEstablishRspProc e l i data s =
     (if \<not> length data \<ge> 4 then Some s
      else do {
        src \<leftarrow> rd8 data 0; dst \<leftarrow> rd8 data 1; res \<leftarrow> rd8 data 2;
        Some (if g_signalingTransChanCbks s
              then CM_DynTransChannelEstablishRspCbk e l \<lparr>es_srcTcid = src, es_dstTcid = dst, es_result = unat res\<rparr> s else s)
      })"

definition CM_SignalingTransChanReleaseReqProc :: "cm_env \<Rightarrow> u16 \<Rightarrow> u8 \<Rightarrow> bytes \<Rightarrow> cm_state \<Rightarrow> cm_state option" where
  "CM_SignalingTransChanReleaseReqProc e l i data s =
     (if \<not> length data \<ge> 2 then Some s
      else do {
        src \<leftarrow> rd8 data 0; dst \<leftarrow> rd8 data 1;
        Some (if g_signalingTransChanCbks s then CM_DynTransChannelReleaseReqCbk e l i \<lparr>rr_srcTcid = src, rr_dstTcid = dst\<rparr> s else s)
      })"

definition CM_SignalingTransChanReleaseRspProc :: "cm_env \<Rightarrow> u16 \<Rightarrow> u8 \<Rightarrow> bytes \<Rightarrow> cm_state \<Rightarrow> cm_state option" where
  "CM_SignalingTransChanReleaseRspProc e l i data s =
     (if \<not> length data \<ge> 3 then Some s
      else do {
        src \<leftarrow> rd8 data 0; dst \<leftarrow> rd8 data 1; res \<leftarrow> rd8 data 2;
        Some (if g_signalingTransChanCbks s
              then CM_DynTransChannelReleaseRspCbk e l \<lparr>rs_srcTcid = src, rs_dstTcid = dst, rs_result = unat res\<rparr> s else s)
      })"

text \<open>The two handlers of the capability exchange on the whole state.\<close>

definition cap_req_proc :: "cm_env \<Rightarrow> u16 \<Rightarrow> u8 \<Rightarrow> bytes \<Rightarrow> cm_state \<Rightarrow> cm_state option" where
  "cap_req_proc e l i data s = do {
     (_, c, sg) \<leftarrow> CM_ProcessReqSignalingCapability e (Some (g_publicAddress s)) l i data (chan s, sig s);
     Some (s\<lparr>chan := c, sig := sg\<rparr>)
   }"

definition cap_rsp_proc :: "cm_env \<Rightarrow> u16 \<Rightarrow> u8 \<Rightarrow> bytes \<Rightarrow> cm_state \<Rightarrow> cm_state option" where
  "cap_rsp_proc e l i data s = do { (_, c) \<leftarrow> CM_ProcessRspSignalingCapability l data (chan s); Some (s\<lparr>chan := c\<rparr>) }"

definition g_signalings :: "(u8 \<times> (cm_env \<Rightarrow> u16 \<Rightarrow> u8 \<Rightarrow> bytes \<Rightarrow> cm_state \<Rightarrow> cm_state option)) list" where
  "g_signalings =
     [(CAPABILITY_REQ, cap_req_proc), (CAPABILITY_RSP, cap_rsp_proc), (TC_CONNECT_REQ, CM_SignalingTransChanEstablishReqProc),
      (TC_CONNECT_RSP, CM_SignalingTransChanEstablishRspProc), (TC_DISCONNECT_REQ, CM_SignalingTransChanReleaseReqProc),
      (TC_DISCONNECT_RSP, CM_SignalingTransChanReleaseRspProc)]"

definition CM_SignalingGetManagerHandler :: "u8 \<Rightarrow> (cm_env \<Rightarrow> u16 \<Rightarrow> u8 \<Rightarrow> bytes \<Rightarrow> cm_state \<Rightarrow> cm_state option) option" where
  "CM_SignalingGetManagerHandler code = map_option snd (find (\<lambda>x. fst x = code) g_signalings)"

definition CM_RecvSignalingData :: "cm_env \<Rightarrow> u16 \<Rightarrow> SDF_Buff \<Rightarrow> cm_state \<Rightarrow> cm_state option" where
  "CM_RecvSignalingData e l b s =
     (if dataLen b < 1 then Some s
      else do {
        h \<leftarrow> mem_read b (dataOff b) 1;
        let code = h ! 0;
        (case CM_SignalingGetManagerHandler code of
           None \<Rightarrow> Some s
         | Some handle \<Rightarrow> do {
             head \<leftarrow> CM_ParseSignalingBuff b;
             (case head of
                None \<Rightarrow> Some s
              | Some (_, i, data) \<Rightarrow> do {
                  s1 \<leftarrow> handle e l i data s;
                  Some (s1\<lparr>sig := CM_SignalingCacheRemove i code (sig s1)\<rparr>)
                })
           })
      })"

definition signaling_timeout :: "cm_env \<Rightarrow> CM_CachedSignaling \<Rightarrow> cm_state \<Rightarrow> cm_state" where
  "signaling_timeout e c s =
     (if \<not> g_signalingTransChanCbks s then s
      else let a = cs_args c in
        (case cs_cbk c of
           CM_SignalingTransChanEstablishReqTimeout \<Rightarrow>
             CM_DynTransChannelEstablishRspCbk e (ta_lcid a) \<lparr>es_srcTcid = ta_srcTcid a, es_dstTcid = ta_dstTcid a, es_result = CM_RESULT_ESTABLISH_TIMEOUT\<rparr> s
         | CM_SignalingTransChanReleaseReqTimeout \<Rightarrow>
             CM_DynTransChannelReleaseRspCbk e (ta_lcid a) \<lparr>rs_srcTcid = ta_srcTcid a, rs_dstTcid = ta_dstTcid a, rs_result = CM_RESULT_RELEASE_TIMEOUT\<rparr> s))"

text \<open>The timer of the cached request \<open>i\<close> expires; without such a request there is no timer.\<close>

definition CM_SignalingTimeoutCbkInner :: "cm_env \<Rightarrow> u8 \<Rightarrow> cm_state \<Rightarrow> cm_state" where
  "CM_SignalingTimeoutCbkInner e i s =
     (case g_cachedSignalings (sig s) of
        None \<Rightarrow> s
      | Some m \<Rightarrow> (case SDF_MapFind m i of
          None \<Rightarrow> s
        | Some c \<Rightarrow>
            let s1 = signaling_timeout e c s in
            s1\<lparr>sig := (sig s1)\<lparr>g_cachedSignalings := map_option (\<lambda>m. snd (SDF_MapErase m i)) (g_cachedSignalings (sig s1))\<rparr>\<rparr>))"

definition CM_SignalingLogicLinkCbk :: "cm_env \<Rightarrow> nat \<Rightarrow> u16 \<Rightarrow> cm_state \<Rightarrow> cm_state" where
  "CM_SignalingLogicLinkCbk e result l s =
     (if result = CM_LINK_STATE_CONNECTED then s\<lparr>sig := CM_SleAccessLinkEstablishQuery e l (sig s)\<rparr>
      else if result = CM_LINK_STATE_DISCONNECTED then s\<lparr>sig := CM_SignalingCacheClearByLcid l (sig s)\<rparr>
      else s)"

text \<open>The environment says whether the link management is initialised.\<close>

definition CM_SignalingInit :: "cm_env \<Rightarrow> signaling \<Rightarrow> CM_errno \<times> signaling" where
  "CM_SignalingInit e s = (if \<not> call_dli (sub e 0) then (CM_NOT_INITED, s) else CM_SignalingCacheInit (sub e 1) s)"

definition CM_SignalingDeInit :: "signaling \<Rightarrow> signaling" where
  "CM_SignalingDeInit s = CM_SignalingCacheDeinit s"

definition CM_SetSendSignalingDataCbk :: "bool \<Rightarrow> signaling \<Rightarrow> signaling" where
  "CM_SetSendSignalingDataCbk f s = CM_SignalingRegisterCbk f s"

end
