(* ===== verification/Cm_Pool.thy ===== *)
theory Cm_Pool
  imports Cm_Channel
begin

text \<open>
  What the pools of channel identifiers (\<open>cm_dyn_tcid.c\<close>) promise: an interface of identifier pools with the
  lemmas a holder of identifiers needs, and the pools of the connection management as an instance of it.
\<close>

section \<open>The interface\<close>

text \<open>
  Identifiers are used per link. An allocation gives out an unused one, a return frees at most the returned
  one, and a link's pool takes all identifiers of the link with it.
\<close>

locale id_pools =
  fixes ok :: "'p \<Rightarrow> bool"
    and used :: "'p \<Rightarrow> ('l \<times> 't) set"
    and none :: 't
    and alloc :: "'l \<Rightarrow> 'm \<Rightarrow> 'p \<Rightarrow> 't \<times> 'p"
    and release :: "'l \<Rightarrow> 't \<Rightarrow> 'm \<Rightarrow> 'p \<Rightarrow> 'x \<times> 'p"
    and activate :: "'r env \<Rightarrow> 'l \<Rightarrow> 'p \<Rightarrow> 'x \<times> 'p"
    and destroy :: "'l \<Rightarrow> 'p \<Rightarrow> 'x \<times> 'p"
  assumes alloc_none: "ok p \<Longrightarrow> alloc l m p = (none, p') \<Longrightarrow> p' = p"
    and alloc_fresh: "ok p \<Longrightarrow> alloc l m p = (t, p') \<Longrightarrow> t \<noteq> none \<Longrightarrow> ok p' \<and> (l, t) \<notin> used p \<and> used p' = insert (l, t) (used p)"
    and release_used: "ok p \<Longrightarrow> release l t m p = (x, p') \<Longrightarrow> ok p' \<and> used p - {(l, t)} \<subseteq> used p' \<and> used p' \<subseteq> used p"
    and activate_used: "ok p \<Longrightarrow> activate e l p = (x, p') \<Longrightarrow> ok p' \<and> used p' = used p"
    and destroy_used: "ok p \<Longrightarrow> destroy l p = (x, p') \<Longrightarrow> ok p' \<and> used p' = used p - {l} \<times> UNIV"
begin

text \<open>A list of identifiers held by different owners, all of them in use.\<close>

definition held :: "'p \<Rightarrow> ('l \<times> 't) list \<Rightarrow> bool" where
  "held p ks \<longleftrightarrow> ok p \<and> distinct ks \<and> set ks \<subseteq> used p"

lemma held_sub: "held p ks \<Longrightarrow> distinct ks' \<Longrightarrow> set ks' \<subseteq> set ks \<Longrightarrow> held p ks'"
  by (auto simp: held_def)

lemma held_alloc: "held p ks \<Longrightarrow> alloc l m p = (t, p') \<Longrightarrow> t \<noteq> none \<Longrightarrow> held p' (ks @ [(l, t)])"
  using alloc_fresh [of p l m t p'] by (auto simp: held_def)

lemma held_alloc_any: "held p ks \<Longrightarrow> held (snd (alloc l m p)) ks"
  using alloc_fresh [of p l m "fst (alloc l m p)" "snd (alloc l m p)"] alloc_none [of p l m "snd (alloc l m p)"]
  by (cases "fst (alloc l m p) = none") (auto simp: held_def prod_eq_iff)

lemma held_release: "held p ks \<Longrightarrow> (l, t) \<notin> set ks' \<Longrightarrow> distinct ks' \<Longrightarrow> set ks' \<subseteq> set ks \<Longrightarrow> held (snd (release l t m p)) ks'"
  using release_used [of p l t m "fst (release l t m p)" "snd (release l t m p)"] by (auto simp: held_def)

lemma held_activate: "held p ks \<Longrightarrow> held (snd (activate e l p)) ks"
  using activate_used [of p e l "fst (activate e l p)" "snd (activate e l p)"] by (auto simp: held_def)

lemma held_destroy: "held p ks \<Longrightarrow> distinct ks' \<Longrightarrow> set ks' \<subseteq> set ks - {l} \<times> UNIV \<Longrightarrow> held (snd (destroy l p)) ks'"
  using destroy_used [of p l "fst (destroy l p)" "snd (destroy l p)"] by (auto simp: held_def)

end

section \<open>The pools of the connection management\<close>

definition uc_tcid :: "u8 \<Rightarrow> bool" where
  "uc_tcid t \<longleftrightarrow> CM_TCID_UC_BEGIN \<le> t \<and> t \<le> CM_TCID_UC_END"

definition pools_ok :: "CM_DynTcidPool list \<Rightarrow> bool" where
  "pools_ok ps \<longleftrightarrow> distinct (map pool_lcid ps) \<and> (\<forall>p \<in> set ps. length (unicastTcidUsed p) = CM_DYN_UNICAST_TCID_SIZE_MAX)"

definition pools_used :: "CM_DynTcidPool list \<Rightarrow> (u16 \<times> u8) set" where
  "pools_used ps = {(l, t). uc_tcid t \<and> (case CM_DynTransGetTcidPool ps l of None \<Rightarrow> False | Some p \<Rightarrow> unicastTcidUsed p ! (unat t - 128))}"

lemma uc_tcid_unat: "uc_tcid t \<longleftrightarrow> 128 \<le> unat t \<and> unat t \<le> 223"
  by (simp add: uc_tcid_def word_le_nat_alt)

lemma get_pool_Some: "CM_DynTransGetTcidPool ps l = Some p \<Longrightarrow> p \<in> set ps \<and> pool_lcid p = l"
  by (auto simp: CM_DynTransGetTcidPool_def find_Some_iff)

lemma get_pool_Cons: "CM_DynTransGetTcidPool (p # ps) l = (if pool_lcid p = l then Some p else CM_DynTransGetTcidPool ps l)"
  by (simp add: CM_DynTransGetTcidPool_def)

lemma get_pool_upd:
  "pool_lcid (f p) = l \<Longrightarrow> CM_DynTransGetTcidPool ps l = Some p \<Longrightarrow>
     CM_DynTransGetTcidPool (pool_upd l f ps) l' = (if l' = l then Some (f p) else CM_DynTransGetTcidPool ps l')"
  by (induction ps) (auto simp: get_pool_Cons CM_DynTransGetTcidPool_def split: if_splits)

text \<open>Changing the flag of one identifier changes what is used by this identifier.\<close>

lemma used_upd:
  assumes "CM_DynTransGetTcidPool ps l = Some p" "length (unicastTcidUsed p) = 96" "pool_lcid p = l" "uc_tcid t"
  shows "(l', t') \<in> pools_used (pool_upd l (\<lambda>_. p\<lparr>unicastTcidUsed := (unicastTcidUsed p)[unat t - 128 := b]\<rparr>) ps) \<longleftrightarrow>
    (if l' = l \<and> t' = t then b else (l', t') \<in> pools_used ps)"
proof (cases "l' = l")
  case True
  have g: "CM_DynTransGetTcidPool (pool_upd l (\<lambda>_. p\<lparr>unicastTcidUsed := (unicastTcidUsed p)[unat t - 128 := b]\<rparr>) ps) l
      = Some (p\<lparr>unicastTcidUsed := (unicastTcidUsed p)[unat t - 128 := b]\<rparr>)"
    using assms(3) get_pool_upd [OF _ assms(1), of "\<lambda>_. p\<lparr>unicastTcidUsed := (unicastTcidUsed p)[unat t - 128 := b]\<rparr>" l] by simp
  have i: "unat t - 128 < 96" using assms(4) by (auto simp: uc_tcid_unat)
  have "uc_tcid t' \<Longrightarrow> unat t' - 128 = unat t - 128 \<longleftrightarrow> t' = t" using assms(4) by (auto simp: uc_tcid_unat intro!: word_unat_eq_iff [THEN iffD2])
  then show ?thesis using assms True i by (auto simp: pools_used_def g nth_list_update)
next
  case False
  then show ?thesis using assms(3) get_pool_upd [OF _ assms(1), of "\<lambda>_. p\<lparr>unicastTcidUsed := (unicastTcidUsed p)[unat t - 128 := b]\<rparr>" l']
    by (simp add: pools_used_def)
qed

lemma pools_ok_upd:
  assumes "pools_ok ps" "CM_DynTransGetTcidPool ps l = Some p" "pool_lcid (f p) = l" "length (unicastTcidUsed (f p)) = 96"
  shows "pools_ok (pool_upd l f ps)"
proof -
  have "map pool_lcid (pool_upd l f ps) = map pool_lcid ps" using assms(2,3) by (induction ps) (auto simp: get_pool_Cons split: if_splits)
  moreover have "set (pool_upd l f ps) \<subseteq> insert (f p) (set ps)" using assms(2) by (induction ps) (auto simp: get_pool_Cons split: if_splits)
  ultimately show ?thesis using assms(1,4) by (auto simp: pools_ok_def)
qed

lemma pools_del:
  assumes "pools_ok ps"
  shows "pools_ok (pool_del l ps) \<and> CM_DynTransGetTcidPool (pool_del l ps) l' = (if l' = l then None else CM_DynTransGetTcidPool ps l')"
proof -
  have s: "set (pool_del l ps) \<subseteq> set ps" by (induction ps) auto
  have "distinct (map pool_lcid ps) \<Longrightarrow> distinct (map pool_lcid (pool_del l ps)) \<and>
      CM_DynTransGetTcidPool (pool_del l ps) l' = (if l' = l then None else CM_DynTransGetTcidPool ps l')"
  proof (induction ps)
    case (Cons p ps)
    have "set (pool_del l ps) \<subseteq> set ps" for ps by (induction ps) auto
    then show ?case using Cons by (auto simp: get_pool_Cons CM_DynTransGetTcidPool_def find_None_iff image_iff)
  qed (simp add: CM_DynTransGetTcidPool_def)
  then show ?thesis using assms s by (auto simp: pools_ok_def)
qed

lemma get_pool_append:
  "CM_DynTransGetTcidPool (ps @ qs) l = (case CM_DynTransGetTcidPool ps l of None \<Rightarrow> CM_DynTransGetTcidPool qs l | Some p \<Rightarrow> Some p)"
  by (induction ps) (auto simp: CM_DynTransGetTcidPool_def)

lemma get_pool_None: "CM_DynTransGetTcidPool ps l = None \<longleftrightarrow> l \<notin> pool_lcid ` set ps"
  by (auto simp: CM_DynTransGetTcidPool_def find_None_iff)

lemma get_pool_Nil: "CM_DynTransGetTcidPool [] l = None"
  by (simp add: CM_DynTransGetTcidPool_def)

lemma first_free_Some: "first_free i us = Some j \<Longrightarrow> i \<le> j \<and> j - i < length us \<and> \<not> us ! (j - i) \<and> (\<forall>k < j - i. us ! k)"
proof (induction i us rule: first_free.induct)
  case (2 i u us)
  show ?case
  proof (cases u)
    case True
    then have s: "Suc i \<le> j" "j - Suc i < length us" "\<not> us ! (j - Suc i)" "\<forall>k < j - Suc i. us ! k" using 2 by auto
    have "j - i = Suc (j - Suc i)" using s(1) by simp
    then show ?thesis using s True by (auto simp: nth_Cons split: nat.splits)
  qed (use 2 in auto)
qed simp

lemma first_free_None: "first_free i us = None \<longleftrightarrow> (\<forall>k < length us. us ! k)"
  by (induction i us rule: first_free.induct) (auto simp: nth_Cons less_Suc_eq_0_disj split: nat.splits)

lemma uc_of_nat: "i < 96 \<Longrightarrow> unat (of_nat i + 0x80 :: u8) = i + 128"
  by (simp add: unat_word_ariths unsigned_of_nat take_bit_nat_eq_self)

text \<open>An allocation gives out the lowest free identifier of the link, and none only when there is no pool or all 96 are in use.\<close>

lemma alloc_unicast:
  assumes "pools_ok ps" "CM_DynTcidAllocate l CM_ACCESS_TRANS_MODE_UNICAST ps = (t, ps')" "t \<noteq> CM_TRANS_INVALID_TCID"
  shows "pools_ok ps' \<and> uc_tcid t \<and> (l, t) \<notin> pools_used ps \<and> pools_used ps' = insert (l, t) (pools_used ps)
    \<and> (\<forall>t'. uc_tcid t' \<and> t' < t \<longrightarrow> (l, t') \<in> pools_used ps)"
proof -
  obtain p where p: "CM_DynTransGetTcidPool ps l = Some p" using assms(2,3) by (auto simp: CM_DynTcidAllocate_def split: option.splits)
  have len: "length (unicastTcidUsed p) = 96" "pool_lcid p = l" using get_pool_Some [OF p] assms(1) by (auto simp: pools_ok_def)
  obtain i where i: "first_free 0 (unicastTcidUsed p) = Some i" "t = of_nat i + 0x80"
    and ps': "ps' = pool_upd l (\<lambda>_. p\<lparr>unicastTcidUsed := (unicastTcidUsed p)[i := True]\<rparr>) ps"
    using assms(2,3) p len by (auto simp: CM_DynTcidAllocate_def CM_DynAllocateUnicastTcid_def split: option.splits)
  have ff: "i < 96" "\<not> unicastTcidUsed p ! i" "\<forall>k < i. unicastTcidUsed p ! k" using first_free_Some [OF i(1)] len by auto
  have u: "unat t = i + 128" using uc_of_nat [OF ff(1)] i(2) by simp
  have t: "uc_tcid t" using u ff(1) by (simp add: uc_tcid_unat)
  have i': "i = unat t - 128" using u by simp
  have "x \<in> pools_used ps' \<longleftrightarrow> x \<in> insert (l, t) (pools_used ps)" for x
    using used_upd [OF p len t, of "fst x" "snd x" True] by (cases x) (auto simp: ps' i')
  then have "pools_used ps' = insert (l, t) (pools_used ps)" by blast
  moreover have "pools_ok ps'" unfolding ps' by (rule pools_ok_upd [OF assms(1) p]) (use len in simp_all)
  moreover have "(l, t') \<in> pools_used ps" if "uc_tcid t'" "t' < t" for t'
    using that ff(3) u p by (auto simp: pools_used_def uc_tcid_unat word_less_nat_alt)
  ultimately show ?thesis using t ff(2) u p by (auto simp: pools_used_def)
qed

lemma alloc_unicast_none:
  assumes "pools_ok ps" "CM_DynTcidAllocate l CM_ACCESS_TRANS_MODE_UNICAST ps = (CM_TRANS_INVALID_TCID, ps')"
  shows "ps' = ps \<and> (CM_DynTransGetTcidPool ps l = None \<or> (\<forall>t. uc_tcid t \<longrightarrow> (l, t) \<in> pools_used ps))"
proof (cases "CM_DynTransGetTcidPool ps l")
  case (Some p)
  have len: "length (unicastTcidUsed p) = 96" "pool_lcid p = l" using get_pool_Some [OF Some] assms(1) by (auto simp: pools_ok_def)
  have n: "first_free 0 (unicastTcidUsed p) = None"
  proof (rule ccontr)
    assume "first_free 0 (unicastTcidUsed p) \<noteq> None"
    then obtain i where i: "first_free 0 (unicastTcidUsed p) = Some i" by auto
    then have "unat (of_nat i + 0x80 :: u8) = i + 128" using first_free_Some [OF i] len uc_of_nat by auto
    moreover have "(of_nat i + 0x80 :: u8) = 0" using assms(2) Some len i by (auto simp: CM_DynTcidAllocate_def CM_DynAllocateUnicastTcid_def)
    ultimately show False by (simp del: unat_eq_zero)
  qed
  have "pool_upd l (\<lambda>_. p) ps = ps" using Some by (induction ps) (auto simp: get_pool_Cons split: if_splits)
  then have "ps' = ps" using assms(2) Some n len by (auto simp: CM_DynTcidAllocate_def CM_DynAllocateUnicastTcid_def)
  moreover have "(l, t) \<in> pools_used ps" if "uc_tcid t" for t
    using that n first_free_None [of 0 "unicastTcidUsed p"] len Some by (auto simp: pools_used_def uc_tcid_unat)
  ultimately show ?thesis by blast
qed (use assms in \<open>auto simp: CM_DynTcidAllocate_def\<close>)

lemma alloc_mode: "m \<noteq> CM_ACCESS_TRANS_MODE_UNICAST \<Longrightarrow> CM_DynTcidAllocate l m ps = (CM_TRANS_INVALID_TCID, ps)"
  by (auto simp: CM_DynTcidAllocate_def split: option.splits)

text \<open>A return frees exactly the identifier when it is in use and otherwise changes nothing.\<close>

lemma release_pools:
  assumes "pools_ok ps"
  shows "case CM_DynTcidRelease l t m ps of (ret, ps') \<Rightarrow> pools_ok ps' \<and>
    (if m = CM_ACCESS_TRANS_MODE_UNICAST \<and> (l, t) \<in> pools_used ps then ret = CM_SUCCESS \<and> pools_used ps' = pools_used ps - {(l, t)}
     else ret = CM_FAIL \<and> ps' = ps)"
proof (cases "CM_DynTransGetTcidPool ps l")
  case None
  then show ?thesis using assms by (auto simp: CM_DynTcidRelease_def pools_used_def)
next
  case (Some p)
  have len: "length (unicastTcidUsed p) = 96" "pool_lcid p = l" using get_pool_Some [OF Some] assms(1) by (auto simp: pools_ok_def)
  have id: "pool_upd l (\<lambda>_. p) ps = ps" using Some by (induction ps) (auto simp: get_pool_Cons split: if_splits)
  show ?thesis
  proof (cases "m = CM_ACCESS_TRANS_MODE_UNICAST \<and> (l, t) \<in> pools_used ps")
    case True
    then have t: "128 \<le> unat t" "unat t \<le> 223" "unicastTcidUsed p ! (unat t - 128)" using Some by (auto simp: pools_used_def uc_tcid_unat)
    define q where "q = p\<lparr>unicastTcidUsed := (unicastTcidUsed p)[unat t - 128 := False]\<rparr>"
    have r: "CM_DynTcidRelease l t m ps = (CM_SUCCESS, pool_upd l (\<lambda>_. q) ps)"
      using True t Some by (simp add: CM_DynTcidRelease_def CM_DynReturnAllocatedUnicastTcid_def q_def word_less_nat_alt)
    have "x \<in> pools_used (pool_upd l (\<lambda>_. q) ps) \<longleftrightarrow> x \<in> pools_used ps - {(l, t)}" for x
      using used_upd [OF Some len, of t "fst x" "snd x" False] t by (cases x) (auto simp: q_def uc_tcid_unat)
    then have "pools_used (pool_upd l (\<lambda>_. q) ps) = pools_used ps - {(l, t)}" by blast
    moreover have "pools_ok (pool_upd l (\<lambda>_. q) ps)" by (rule pools_ok_upd [OF assms Some]) (use len in \<open>simp_all add: q_def\<close>)
    ultimately show ?thesis using True r by simp
  next
    case False
    then have "CM_DynTcidRelease l t m ps = (CM_FAIL, ps)"
      using Some len id by (auto simp: CM_DynTcidRelease_def CM_DynReturnAllocatedUnicastTcid_def pools_used_def uc_tcid_unat word_less_nat_alt not_less)
    then show ?thesis using False assms by simp
  qed
qed

interpretation tcid: id_pools pools_ok pools_used CM_TRANS_INVALID_TCID CM_DynTcidAllocate CM_DynTcidRelease CM_DynTcidActivatePool CM_DynTcidDestroyPool
proof
  fix l :: u16 and m p t and p' :: "CM_DynTcidPool list"
  assume "pools_ok p" "CM_DynTcidAllocate l m p = (t, p')" "t \<noteq> CM_TRANS_INVALID_TCID"
  then show "pools_ok p' \<and> (l, t) \<notin> pools_used p \<and> pools_used p' = insert (l, t) (pools_used p)"
    using alloc_unicast [of p l t p'] alloc_mode [of m l p] by (cases "m = CM_ACCESS_TRANS_MODE_UNICAST") auto
next
  fix l :: u16 and t m p x and p' :: "CM_DynTcidPool list"
  assume "pools_ok p" "CM_DynTcidRelease l t m p = (x, p')"
  then show "pools_ok p' \<and> pools_used p - {(l, t)} \<subseteq> pools_used p' \<and> pools_used p' \<subseteq> pools_used p"
    using release_pools [of p m l t] by (auto split: if_splits)
next
  fix e :: "'r env" and l :: u16 and p x and p' :: "CM_DynTcidPool list"
  assume "pools_ok p" "CM_DynTcidActivatePool e l p = (x, p')"
  then show "pools_ok p' \<and> pools_used p' = pools_used p"
    using get_pool_None [of p l]
    by (cases "CM_DynTransGetTcidPool p l")
      (auto simp: CM_DynTcidActivatePool_def pools_ok_def pools_used_def uc_tcid_unat get_pool_append get_pool_Cons get_pool_Nil split: option.splits if_splits)
next
  fix l :: u16 and p x and p' :: "CM_DynTcidPool list"
  assume "pools_ok p" "CM_DynTcidDestroyPool l p = (x, p')"
  then show "pools_ok p' \<and> pools_used p' = pools_used p - {l} \<times> UNIV"
    using pools_del [of p l] by (auto simp: CM_DynTcidDestroyPool_def pools_used_def split: option.splits if_splits)
next
  fix l :: u16 and m p and p' :: "CM_DynTcidPool list"
  assume "pools_ok p" "CM_DynTcidAllocate l m p = (CM_TRANS_INVALID_TCID, p')"
  then show "p' = p" using alloc_unicast_none [of p l p'] alloc_mode [of m l p] by (cases "m = CM_ACCESS_TRANS_MODE_UNICAST") auto
qed

end
