(* ===== verification/Cm_Dyn_Inv.thy ===== *)
theory Cm_Dyn_Inv
  imports Cm_Dyn Cm_Pool
begin

text \<open>
  The dynamic transport channels as a state machine: the invariant that every channel of a link holds its own
  identifier of the link's pool, the abstract view of the channels of all links as a map from link and
  identifier to state and remote identifier, and the refinement of every operation to a step of that view.
\<close>

section \<open>The invariant and the abstract view\<close>

definition keys :: "SleTransLcid list \<Rightarrow> (u16 \<times> u8) list" where
  "keys ns = map (\<lambda>n. (nd_lcid n, nd_local n)) ns"

definition chans :: "SleTransLcid list \<Rightarrow> (u16 \<times> u8) \<rightharpoonup> (nat \<times> u8)" where
  "chans ns = map_of (map (\<lambda>n. ((nd_lcid n, nd_local n), (nd_state n, nd_remote n))) ns)"

abbreviation dyn :: "cm_state \<Rightarrow> SleTransLcid list" where "dyn s \<equiv> g_dynTransListHead (chan s)"

abbreviation view :: "cm_state \<Rightarrow> (u16 \<times> u8) \<rightharpoonup> (nat \<times> u8)" where "view s \<equiv> chans (dyn s)"

definition nodes_ok :: "SleTransLcid list \<Rightarrow> nat \<Rightarrow> bool" where
  "nodes_ok ns a \<longleftrightarrow> distinct (map nd_addr ns) \<and> (\<forall>n \<in> set ns. nd_addr n < a \<and> nd_state n \<in> {1, 2, 3})"

definition dyn_inv :: "cm_state \<Rightarrow> bool" where
  "dyn_inv s \<longleftrightarrow> tcid.held (g_cmDynTransPoolListHead s) (keys (dyn s)) \<and> nodes_ok (dyn s) (node_next (chan s))"

text \<open>The steps of a link's channels.\<close>

inductive chan_step :: "u16 \<Rightarrow> ((u16 \<times> u8) \<rightharpoonup> (nat \<times> u8)) \<Rightarrow> ((u16 \<times> u8) \<rightharpoonup> (nat \<times> u8)) \<Rightarrow> bool" for l where
  stay: "chan_step l m m"
| requested: "m (l, t) = None \<Longrightarrow> uc_tcid t \<Longrightarrow> chan_step l m (m((l, t) \<mapsto> (CM_TRANS_CHANNEL_STATE_ACTIVATING, CM_TRANS_INVALID_TCID)))"
| accepted: "m (l, t) = None \<Longrightarrow> uc_tcid t \<Longrightarrow> CM_TRANS_CHANNEL_IS_DYNAMIC r \<Longrightarrow> chan_step l m (m((l, t) \<mapsto> (CM_TRANS_CHANNEL_STATE_ACTIVATED, r)))"
| established: "m (l, t) = Some (CM_TRANS_CHANNEL_STATE_ACTIVATING, r0) \<Longrightarrow> CM_TRANS_CHANNEL_IS_DYNAMIC r \<Longrightarrow>
    chan_step l m (m((l, t) \<mapsto> (CM_TRANS_CHANNEL_STATE_ACTIVATED, r)))"
| releasing: "m (l, t) = Some (st, r) \<Longrightarrow> chan_step l m (m((l, t) \<mapsto> (CM_TRANS_CHANNEL_STATE_RELEASING, r)))"
| not_released: "m (l, t) = Some (st, r) \<Longrightarrow> chan_step l m (m((l, t) \<mapsto> (CM_TRANS_CHANNEL_STATE_ACTIVATED, r)))"
| closed: "m (l, t) = Some x \<Longrightarrow> chan_step l m (m((l, t) := None))"
| link_down: "chan_step l m (m |` {k. fst k \<noteq> l})"

section \<open>Lists of channels\<close>

lemma keys_append: "keys (ns @ [n]) = keys ns @ [(nd_lcid n, nd_local n)]"
  by (simp add: keys_def)

lemma chans_Some: "distinct (keys ns) \<Longrightarrow> n \<in> set ns \<Longrightarrow> chans ns (nd_lcid n, nd_local n) = Some (nd_state n, nd_remote n)"
  by (auto simp: chans_def keys_def o_def intro!: map_of_is_SomeI)

lemma chans_None: "chans ns k = None \<longleftrightarrow> k \<notin> set (keys ns)"
  by (simp add: chans_def keys_def map_of_eq_None_iff image_image)

lemma chans_append:
  "(nd_lcid n, nd_local n) \<notin> set (keys ns) \<Longrightarrow> chans (ns @ [n]) = (chans ns)((nd_lcid n, nd_local n) \<mapsto> (nd_state n, nd_remote n))"
  using chans_None [of ns "(nd_lcid n, nd_local n)"] by (intro ext) (auto simp: chans_def map_add_def split: option.splits)

lemma chans_filter: "chans (filter (\<lambda>n. P (nd_lcid n, nd_local n)) ns) = chans ns |` {k. P k}"
  by (rule ext, induction ns) (auto simp: chans_def restrict_map_def)

lemma filter_addr:
  assumes "distinct (map nd_addr ns)" "distinct (keys ns)" "n \<in> set ns"
  shows "filter (\<lambda>m. nd_addr m \<noteq> nd_addr n) ns = filter (\<lambda>m. (nd_lcid m, nd_local m) \<noteq> (nd_lcid n, nd_local n)) ns"
proof (rule filter_cong [OF refl])
  fix m
  assume "m \<in> set ns"
  then show "(nd_addr m \<noteq> nd_addr n) = ((nd_lcid m, nd_local m) \<noteq> (nd_lcid n, nd_local n))"
    using assms by (auto simp: distinct_map keys_def inj_on_def)
qed

lemma chans_free:
  assumes "distinct (map nd_addr ns)" "distinct (keys ns)" "n \<in> set ns"
  shows "chans (filter (\<lambda>m. nd_addr m \<noteq> nd_addr n) ns) = (chans ns)((nd_lcid n, nd_local n) := None)"
  unfolding filter_addr [OF assms] chans_filter [of "\<lambda>k. k \<noteq> (nd_lcid n, nd_local n)"] by (auto simp: restrict_map_def)

lemma keys_filter: "distinct (keys ns) \<Longrightarrow> distinct (keys (filter P ns)) \<and> set (keys (filter P ns)) \<subseteq> set (keys ns)"
  by (auto simp: keys_def distinct_map_filter)

lemma keys_free:
  assumes "distinct (map nd_addr ns)" "distinct (keys ns)" "n \<in> set ns"
  shows "(nd_lcid n, nd_local n) \<notin> set (keys (filter (\<lambda>m. nd_addr m \<noteq> nd_addr n) ns))"
  unfolding filter_addr [OF assms] by (auto simp: keys_def)

lemma chans_upd:
  assumes "distinct (map nd_addr ns)" "distinct (keys ns)" "n \<in> set ns" "nd_lcid (f n) = nd_lcid n" "nd_local (f n) = nd_local n"
  shows "chans (map (\<lambda>m. if nd_addr m = nd_addr n then f m else m) ns) = (chans ns)((nd_lcid n, nd_local n) \<mapsto> (nd_state (f n), nd_remote (f n)))"
    and "keys (map (\<lambda>m. if nd_addr m = nd_addr n then f m else m) ns) = keys ns"
proof -
  have eq: "nd_addr m = nd_addr n \<longleftrightarrow> m = n" if "m \<in> set ns" for m using that assms(1,3) by (auto simp: distinct_map inj_on_def)
  then have m: "map (\<lambda>m. if nd_addr m = nd_addr n then f m else m) ns = map (\<lambda>m. if m = n then f n else m) ns" by (intro map_cong) auto
  show k: "keys (map (\<lambda>m. if nd_addr m = nd_addr n then f m else m) ns) = keys ns" unfolding m keys_def using assms(4,5) by auto
  show "chans (map (\<lambda>m. if nd_addr m = nd_addr n then f m else m) ns) = (chans ns)((nd_lcid n, nd_local n) \<mapsto> (nd_state (f n), nd_remote (f n)))"
  proof
    fix k
    let ?ns = "map (\<lambda>m. if m = n then f n else m) ns"
    have d: "distinct (keys ?ns)" using k assms(2) m by simp
    show "chans (map (\<lambda>m. if nd_addr m = nd_addr n then f m else m) ns) k = ((chans ns)((nd_lcid n, nd_local n) \<mapsto> (nd_state (f n), nd_remote (f n)))) k"
    proof (cases "k \<in> set (keys ns)")
      case False
      then show ?thesis using chans_None [of "map (\<lambda>m. if nd_addr m = nd_addr n then f m else m) ns" k] chans_None [of ns k] k assms(3)
        by (auto simp: keys_def)
    next
      case True
      then obtain m where mm: "m \<in> set ns" "k = (nd_lcid m, nd_local m)" by (auto simp: keys_def)
      show ?thesis
      proof (cases "m = n")
        case True
        have "f n \<in> set ?ns" using assms(3) by force
        then show ?thesis using chans_Some [OF d, of "f n"] True mm assms(4,5) by (simp add: m)
      next
        case False
        then have "k \<noteq> (nd_lcid n, nd_local n)" using mm assms(2,3) by (auto simp: keys_def distinct_map inj_on_def)
        moreover have "m \<in> set ?ns" using mm False by force
        ultimately show ?thesis using chans_Some [OF d, of m] chans_Some [OF assms(2), of m] mm by (auto simp: m)
      qed
    qed
  qed
qed

lemma dyn_inv_dist: "dyn_inv s \<Longrightarrow> distinct (map nd_addr (dyn s)) \<and> distinct (keys (dyn s))"
  by (auto simp: dyn_inv_def nodes_ok_def tcid.held_def)

lemma find_local: "CM_TRANS_CHANNEL_IS_DYNAMIC t \<Longrightarrow> CM_FindTransChannelByLocalTcid l t c = Some n \<Longrightarrow>
    n \<in> set (g_dynTransListHead c) \<and> nd_lcid n = l \<and> nd_local n = t"
  by (auto simp: CM_FindTransChannelByLocalTcid_def CM_TRANS_CHANNEL_IS_DYNAMIC_def CM_TRANS_CHANNEL_IS_FIXED_def find_Some_iff word_le_nat_alt split: if_splits)

lemma find_remote: "CM_TRANS_CHANNEL_IS_DYNAMIC t \<Longrightarrow> CM_FindTransChannelByRemoteTcid l t c = Some n \<Longrightarrow>
    n \<in> set (g_dynTransListHead c) \<and> nd_lcid n = l \<and> nd_remote n = t"
  by (auto simp: CM_FindTransChannelByRemoteTcid_def CM_TRANS_CHANNEL_IS_DYNAMIC_def CM_TRANS_CHANNEL_IS_FIXED_def find_Some_iff word_le_nat_alt split: if_splits)

section \<open>What the parts of the handlers change\<close>

abbreviation pools :: "cm_state \<Rightarrow> CM_DynTcidPool list" where "pools s \<equiv> g_cmDynTransPoolListHead s"

lemma change_cbk [simp]:
  "g_dynTransListHead (CM_DynTransChannelChangeCbk e n st c) = g_dynTransListHead c"
  "node_next (CM_DynTransChannelChangeCbk e n st c) = node_next c"
  by (auto simp: CM_DynTransChannelChangeCbk_def split: option.splits)

lemma upper_cbks [simp]:
  "chan (CM_DynTransChanEstablishRspCbk n r s) = chan s" "pools (CM_DynTransChanEstablishRspCbk n r s) = pools s"
  "chan (CM_DynTransChanReleaseRspCbk n r s) = chan s" "pools (CM_DynTransChanReleaseRspCbk n r s) = pools s"
  "chan (CM_DynTransChanStatusIndicationCbk n a r s) = chan s" "pools (CM_DynTransChanStatusIndicationCbk n a r s) = pools s"
  by (auto simp: CM_DynTransChanEstablishRspCbk_def CM_DynTransChanReleaseRspCbk_def CM_DynTransChanStatusIndicationCbk_def split: option.splits)

lemma tcid_release_simps [simp]:
  "chan (snd (tcid_release l t m s)) = chan s" "pools (snd (tcid_release l t m s)) = snd (CM_DynTcidRelease l t m (pools s))"
  "sig (snd (tcid_release l t m s)) = sig s"
  by (simp_all add: tcid_release_def split: prod.splits)

lemma tcid_alloc_simps: "tcid_alloc l m s = (t, s1) \<Longrightarrow> CM_DynTcidAllocate l m (pools s) = (t, pools s1) \<and> chan s1 = chan s \<and> s1 = s\<lparr>g_cmDynTransPoolListHead := pools s1\<rparr>"
  by (auto simp: tcid_alloc_def split: prod.splits)

lemma free_node [simp]:
  "g_dynTransListHead (CM_ReleaseDynamicTransChannelByLocalTcid e n c) = filter (\<lambda>m. nd_addr m \<noteq> nd_addr n) (g_dynTransListHead c)"
  "node_next (CM_ReleaseDynamicTransChannelByLocalTcid e n c) = node_next c"
  "g_dynTransListHead (CM_ReleaseDynamicTransChannelByRemoteTcid e n c) = filter (\<lambda>m. nd_addr m \<noteq> nd_addr n) (g_dynTransListHead c)"
  "node_next (CM_ReleaseDynamicTransChannelByRemoteTcid e n c) = node_next c"
  by (simp_all add: CM_ReleaseDynamicTransChannelByLocalTcid_def CM_ReleaseDynamicTransChannelByRemoteTcid_def CM_DynTransChannelFreeListNode_def
      CM_TransChannelDestroyOneNode_def Let_def)

lemma chan_upd_simps [simp]: "chan (chan_upd f s) = f (chan s)" "pools (chan_upd f s) = pools s" "sig (chan_upd f s) = sig s"
  by (simp_all add: chan_upd_def)

lemma node_upd_simps [simp]:
  "g_dynTransListHead (node_upd a f c) = map (\<lambda>n. if nd_addr n = a then f n else n) (g_dynTransListHead c)" "node_next (node_upd a f c) = node_next c"
  by (simp_all add: node_upd_def)

lemma activate_None: "CM_ActivateDynamicTransChannel e l p c = (None, c') \<Longrightarrow> c' = c"
  by (auto simp: CM_ActivateDynamicTransChannel_def CM_AllocTransChannel_def Let_def split: option.splits if_splits)

lemma activate_Some:
  assumes "CM_ActivateDynamicTransChannel e l p c = (Some n, c')" "uc_tcid (dc_localTcid p)"
  shows "g_dynTransListHead c' = g_dynTransListHead c @ [n]" "node_next c' = Suc (node_next c)" "nd_addr n = node_next c" "nd_lcid n = l"
    "nd_local n = dc_localTcid p" "nd_remote n = dc_remoteTcid p" "nd_state n = dc_state p"
proof -
  have "\<not> CM_TRANS_CHANNEL_IS_FIXED (dc_localTcid p)" using assms(2) by (auto simp: CM_TRANS_CHANNEL_IS_FIXED_def uc_tcid_def word_le_nat_alt)
  then show "g_dynTransListHead c' = g_dynTransListHead c @ [n]" "node_next c' = Suc (node_next c)" "nd_addr n = node_next c" "nd_lcid n = l"
    "nd_local n = dc_localTcid p" "nd_remote n = dc_remoteTcid p" "nd_state n = dc_state p"
    using assms(1)
    by (auto simp: CM_ActivateDynamicTransChannel_def CM_AllocTransChannel_def CM_AllocTransChannelNode_def Let_def split: option.splits if_splits)
qed

section \<open>Each kind of change keeps the invariant and is a step\<close>

lemma inv_same: "dyn_inv s \<Longrightarrow> chan s' = chan s \<Longrightarrow> pools s' = pools s \<Longrightarrow> dyn_inv s' \<and> view s' = view s"
  by (simp add: dyn_inv_def)

lemma inv_free:
  assumes "dyn_inv s" "n \<in> set (dyn s)" "dyn s' = filter (\<lambda>m. nd_addr m \<noteq> nd_addr n) (dyn s)" "node_next (chan s') = node_next (chan s)"
    "pools s' = snd (CM_DynTcidRelease (nd_lcid n) (nd_local n) m (pools s))"
  shows "dyn_inv s' \<and> chan_step (nd_lcid n) (view s) (view s')"
proof -
  note d = dyn_inv_dist [OF assms(1), THEN conjunct1] dyn_inv_dist [OF assms(1), THEN conjunct2]
  have "tcid.held (pools s') (keys (dyn s'))"
    unfolding assms(3,5) using assms(1) keys_free [OF d assms(2)] keys_filter [OF d(2), of "\<lambda>m. nd_addr m \<noteq> nd_addr n"]
    by (intro tcid.held_release [of _ "keys (dyn s)"]) (auto simp: dyn_inv_def)
  moreover have "nodes_ok (dyn s') (node_next (chan s'))" using assms(1,3,4) by (auto simp: dyn_inv_def nodes_ok_def distinct_map_filter)
  moreover have "chan_step (nd_lcid n) (view s) ((view s)((nd_lcid n, nd_local n) := None))"
    by (rule chan_step.closed [of "view s"]) (rule chans_Some [OF d(2) assms(2)])
  ultimately show ?thesis using chans_free [OF d assms(2)] assms(3) by (simp add: dyn_inv_def)
qed

lemma inv_add:
  assumes "dyn_inv s" "CM_DynTcidAllocate l m (pools s) = (t, pools s')" "t \<noteq> CM_TRANS_INVALID_TCID" "dyn s' = dyn s @ [n]"
    "node_next (chan s') = Suc (node_next (chan s))" "nd_addr n = node_next (chan s)" "nd_lcid n = l" "nd_local n = t" "nd_state n \<in> {1, 2, 3}"
  shows "dyn_inv s' \<and> view s (l, t) = None \<and> view s' = (view s)((l, t) \<mapsto> (nd_state n, nd_remote n))"
proof -
  have h: "tcid.held (pools s') (keys (dyn s'))"
    unfolding assms(4) keys_append assms(7,8) by (rule tcid.held_alloc [OF _ assms(2,3)]) (use assms(1) in \<open>simp add: dyn_inv_def\<close>)
  then have k: "(l, t) \<notin> set (keys (dyn s))" unfolding assms(4) keys_append assms(7,8) by (simp add: tcid.held_def)
  have "nodes_ok (dyn s') (node_next (chan s'))" using assms(1,4-6,9) by (auto simp: dyn_inv_def nodes_ok_def)
  then show ?thesis using h k chans_append [of n "dyn s"] assms(4,7,8) by (auto simp: dyn_inv_def chans_None)
qed

text \<open>An identifier allocated and returned without a channel left behind.\<close>

lemma inv_undo:
  assumes "dyn_inv s" "CM_DynTcidAllocate l m (pools s) = (t, ps)" "t \<noteq> CM_TRANS_INVALID_TCID" "dyn s' = dyn s"
    "node_next (chan s') \<ge> node_next (chan s)" "pools s' = snd (CM_DynTcidRelease l t m' ps)"
  shows "dyn_inv s' \<and> view s' = view s"
proof -
  have h: "tcid.held ps (keys (dyn s) @ [(l, t)])" by (rule tcid.held_alloc [OF _ assms(2,3)]) (use assms(1) in \<open>simp add: dyn_inv_def\<close>)
  have "tcid.held (pools s') (keys (dyn s'))" unfolding assms(4,6) by (rule tcid.held_release [OF h]) (use h in \<open>auto simp: tcid.held_def\<close>)
  then show ?thesis using assms(1,4,5) by (auto simp: dyn_inv_def nodes_ok_def)
qed

lemma inv_upd:
  assumes "dyn_inv s" "n \<in> set (dyn s)" "dyn s' = map (\<lambda>m. if nd_addr m = nd_addr n then f m else m) (dyn s)" "node_next (chan s') = node_next (chan s)"
    "pools s' = pools s" "nd_lcid (f n) = nd_lcid n" "nd_local (f n) = nd_local n" "nd_addr (f n) = nd_addr n" "nd_state (f n) \<in> {1, 2, 3}"
  shows "dyn_inv s' \<and> view s' = (view s)((nd_lcid n, nd_local n) \<mapsto> (nd_state (f n), nd_remote (f n)))"
proof -
  note d = dyn_inv_dist [OF assms(1), THEN conjunct1] dyn_inv_dist [OF assms(1), THEN conjunct2]
  have eq: "nd_addr m = nd_addr n \<longleftrightarrow> m = n" if "m \<in> set (dyn s)" for m using that d(1) assms(2) by (auto simp: distinct_map inj_on_def)
  have "map nd_addr (dyn s') = map nd_addr (dyn s)" unfolding assms(3) using eq assms(8) by auto
  moreover have "nd_addr m < node_next (chan s) \<and> nd_state m \<in> {1, 2, 3}" if "m \<in> set (dyn s')" for m
    using that assms(1-3,8,9) eq by (auto simp: dyn_inv_def nodes_ok_def split: if_splits)
  ultimately have "nodes_ok (dyn s') (node_next (chan s'))" using d(1) assms(4) by (simp add: nodes_ok_def)
  then show ?thesis using assms(1,3,5) chans_upd [of "dyn s" n f, OF d assms(2,6,7)] by (simp add: dyn_inv_def)
qed

section \<open>The handlers\<close>

definition refines :: "u16 \<Rightarrow> cm_state \<Rightarrow> cm_state \<Rightarrow> bool" where
  "refines l s s' \<longleftrightarrow> dyn_inv s' \<and> chan_step l (view s) (view s')"

lemma refines_same: "dyn_inv s \<Longrightarrow> chan s' = chan s \<Longrightarrow> pools s' = pools s \<Longrightarrow> refines l s s'"
  using inv_same [of s s'] by (auto simp: refines_def intro: chan_step.stay)

lemma refines_refl: "dyn_inv s \<Longrightarrow> refines l s s"
  by (rule refines_same) auto

lemma refines_undo:
  assumes "dyn_inv s" "CM_DynTcidAllocate l m (pools s) = (t, ps)" "t \<noteq> CM_TRANS_INVALID_TCID" "dyn s' = dyn s"
    "node_next (chan s') \<ge> node_next (chan s)" "pools s' = snd (CM_DynTcidRelease l t m' ps)"
  shows "refines l s s'"
  using inv_undo [OF assms] by (auto simp: refines_def intro: chan_step.stay)

lemma alloc_uc: "dyn_inv s \<Longrightarrow> CM_DynTcidAllocate l m (pools s) = (t, ps) \<Longrightarrow> t \<noteq> CM_TRANS_INVALID_TCID \<Longrightarrow> uc_tcid t"
  using alloc_unicast [of "pools s" l t ps] alloc_mode [of m l "pools s"]
  by (cases "m = CM_ACCESS_TRANS_MODE_UNICAST") (auto simp: dyn_inv_def tcid.held_def)

lemma filter_new: "dyn_inv s \<Longrightarrow> nd_addr n = node_next (chan s) \<Longrightarrow> filter (\<lambda>m. nd_addr m \<noteq> nd_addr n) (dyn s @ [n]) = dyn s"
  by (auto simp: dyn_inv_def nodes_ok_def filter_id_conv)

text \<open>
  The frame of the two handlers that create a channel: an identifier is allocated, a node activated and a
  message sent; when the node cannot be created or the message not be sent, everything is undone.
\<close>

lemma create_refines:
  assumes "dyn_inv s" "tcid_alloc l m s = (t, s1)" "CM_ActivateDynamicTransChannel e l p (chan s1) = (r, ch)" "dc_localTcid p = t"
    and step: "dc_state p = CM_TRANS_CHANNEL_STATE_ACTIVATING \<and> dc_remoteTcid p = CM_TRANS_INVALID_TCID
      \<or> dc_state p = CM_TRANS_CHANNEL_STATE_ACTIVATED \<and> CM_TRANS_CHANNEL_IS_DYNAMIC (dc_remoteTcid p)"
    and no_id: "t = CM_TRANS_INVALID_TCID \<Longrightarrow> s' = s1"
    and no_node: "t \<noteq> CM_TRANS_INVALID_TCID \<Longrightarrow> r = None \<Longrightarrow> chan s' = ch \<and> pools s' = snd (CM_DynTcidRelease l t m (pools s1))"
    and node: "\<And>n. t \<noteq> CM_TRANS_INVALID_TCID \<Longrightarrow> r = Some n \<Longrightarrow> chan s' = ch \<and> pools s' = pools s1
      \<or> dyn s' = filter (\<lambda>m. nd_addr m \<noteq> nd_addr n) (g_dynTransListHead ch) \<and> node_next (chan s') = node_next ch
        \<and> pools s' = snd (CM_DynTcidRelease l t m (pools s1))"
  shows "refines l s s'"
proof (cases "t = CM_TRANS_INVALID_TCID")
  case True
  then have "pools s1 = pools s" using tcid_alloc_simps [OF assms(2)] tcid.alloc_none [of "pools s"] assms(1) by (auto simp: dyn_inv_def tcid.held_def)
  then show ?thesis using True tcid_alloc_simps [OF assms(2)] refines_same [OF assms(1), of s1] no_id by simp
next
  case False
  note A = tcid_alloc_simps [OF assms(2), THEN conjunct1] tcid_alloc_simps [OF assms(2), THEN conjunct2, THEN conjunct1]
  have uc: "uc_tcid t" by (rule alloc_uc [OF assms(1) A(1) False])
  show ?thesis
  proof (cases r)
    case None
    then have "ch = chan s" using activate_None assms(3) A(2) by metis
    then show ?thesis using no_node [OF False None] by (intro refines_undo [OF assms(1) A(1) False]) auto
  next
    case (Some n)
    note N = activate_Some [OF assms(3) [unfolded Some], unfolded assms(4), OF uc]
    from node [OF False Some] show ?thesis
    proof
      assume s': "chan s' = ch \<and> pools s' = pools s1"
      have "dyn_inv s' \<and> view s (l, t) = None \<and> view s' = (view s)((l, t) \<mapsto> (nd_state n, nd_remote n))"
        by (rule inv_add [OF assms(1) _ False]) (use A N s' step in auto)
      then show ?thesis using step N uc by (auto simp: refines_def intro: chan_step.requested [simplified] chan_step.accepted)
    next
      assume "dyn s' = filter (\<lambda>m. nd_addr m \<noteq> nd_addr n) (g_dynTransListHead ch) \<and> node_next (chan s') = node_next ch
        \<and> pools s' = snd (CM_DynTcidRelease l t m (pools s1))"
      then show ?thesis using filter_new [OF assms(1), of n] N A(2) by (intro refines_undo [OF assms(1) A(1) False]) auto
    qed
  qed
qed

lemma establishing_refines:
  assumes "dyn_inv s"
  shows "refines (dc_lcid p) s (snd (CM_DynTransChanActiveEstablishingReqHandler e cur p CM_TRANS_CHANNEL_STATE_ACTIVATING s))"
proof -
  obtain t s1 where a: "tcid_alloc (dc_lcid p) (dc_expectedTransportMode p) s = (t, s1)" by fastforce
  let ?p = "p\<lparr>dc_localTcid := t, dc_remoteTcid := CM_TRANS_INVALID_TCID, dc_state := CM_TRANS_CHANNEL_STATE_ACTIVATING\<rparr>"
  obtain r ch where act: "CM_ActivateDynamicTransChannel (sub e 0) (dc_lcid p) ?p (chan s1) = (r, ch)" by fastforce
  show ?thesis
    by (rule create_refines [OF assms a act])
      (use a act in \<open>auto simp: CM_DynTransChanActiveEstablishingReqHandler_def Let_def split: prod.splits\<close>)
qed

lemma accept_refines:
  assumes "dyn_inv s" "CM_TRANS_CHANNEL_IS_DYNAMIC (dc_remoteTcid p)"
  shows "refines (dc_lcid p) s (snd (CM_DynTransChanPassiveEstablishedReqHandler e cur p CM_TRANS_CHANNEL_STATE_ACTIVATED s))"
proof (cases "CM_DynTransChannelMtuCheck (cfg_mtu (dc_config p)) \<and> CM_DynTransChannelEstablishedCheck (sub e 1) s")
  case False
  have "refines (dc_lcid p) s (CM_DynTransChanSendEstablishedErrResp (sub e 0) p r s)" for r
    by (rule refines_same [OF assms(1)]) (simp_all add: CM_DynTransChanSendEstablishedErrResp_def)
  then show ?thesis using False by (auto simp: CM_DynTransChanPassiveEstablishedReqHandler_def)
next
  case True
  obtain t s1 where a: "tcid_alloc (dc_lcid p) (dc_expectedTransportMode p) s = (t, s1)" by fastforce
  let ?p = "p\<lparr>dc_localTcid := t, dc_state := CM_TRANS_CHANNEL_STATE_ACTIVATED\<rparr>"
  obtain r ch where act: "CM_ActivateDynamicTransChannel (sub e 2) (dc_lcid p) ?p (chan s1) = (r, ch)" by fastforce
  show ?thesis
    by (rule create_refines [OF assms(1) a act])
      (use True a act assms(2) in \<open>auto simp: CM_DynTransChanPassiveEstablishedReqHandler_def Let_def split: prod.splits\<close>)
qed

lemma established_refines:
  assumes "dyn_inv s" "CM_TRANS_CHANNEL_IS_DYNAMIC (dc_localTcid p)" "CM_TRANS_CHANNEL_IS_DYNAMIC (dc_remoteTcid p)"
    "\<And>n. CM_FindTransChannelByLocalTcid (dc_lcid p) (dc_localTcid p) (chan s) = Some n \<Longrightarrow> nd_state n = CM_TRANS_CHANNEL_STATE_ACTIVATING"
  shows "refines (dc_lcid p) s (snd (CM_DynTransChanActiveEstablishedRspHandler e cur p CM_TRANS_CHANNEL_STATE_ACTIVATED s))"
proof (cases "dc_result p = CM_RESULT_ESTABLISH_SUCCESS \<and> CM_FindTransChannelByLocalTcid (dc_lcid p) (dc_localTcid p) (chan s) \<noteq> None")
  case True
  then obtain n where n: "CM_FindTransChannelByLocalTcid (dc_lcid p) (dc_localTcid p) (chan s) = Some n" by auto
  note N = find_local [OF assms(2) n] and st = assms(4) [OF n]
  let ?s = "snd (CM_DynTransChanActiveEstablishedRspHandler e cur p CM_TRANS_CHANNEL_STATE_ACTIVATED s)"
  have "dyn_inv ?s \<and> view ?s = (view s)((nd_lcid n, nd_local n) \<mapsto> (2, dc_remoteTcid p))"
    using inv_upd [of s n ?s "\<lambda>_. n\<lparr>nd_state := 2, nd_remote := dc_remoteTcid p\<rparr>"] assms(1) N n True
    by (auto simp: CM_DynTransChanActiveEstablishedRspHandler_def CM_DynamicTransChannelSetTcidAndChangeCbk_def Let_def)
  moreover have "view s (dc_lcid p, dc_localTcid p) = Some (CM_TRANS_CHANNEL_STATE_ACTIVATING, nd_remote n)"
    using chans_Some [of "dyn s" n] dyn_inv_dist [OF assms(1)] N st by auto
  ultimately show ?thesis using N assms(3) by (auto simp: refines_def intro: chan_step.established)
qed (use refines_refl [OF assms(1)] in \<open>auto simp: CM_DynTransChanActiveEstablishedRspHandler_def split: option.splits\<close>)

lemma snd_release_node:
  "snd (release_node e n p s) = snd (tcid_release (dc_lcid p) (dc_localTcid p) (dc_expectedTransportMode p)
     (chan_upd (CM_ReleaseDynamicTransChannelByLocalTcid e n) s))"
  by (simp add: release_node_def split: prod.splits)

lemma release_node_refines:
  assumes "dyn_inv s" "n \<in> set (dyn s)" "nd_lcid n = dc_lcid p" "nd_local n = dc_localTcid p" "chan s1 = chan s" "pools s1 = pools s"
  shows "refines (dc_lcid p) s (snd (release_node e n p s1))"
  using inv_free [OF assms(1,2), of "snd (release_node e n p s1)" "dc_expectedTransportMode p"] assms by (auto simp: refines_def snd_release_node)

lemma local_release_refines:
  assumes "dyn_inv s" "CM_TRANS_CHANNEL_IS_DYNAMIC (dc_localTcid p)"
  shows "refines (dc_lcid p) s (snd (CM_DynTransChanActiveEstablishingFailRspHandler e cur p nxt s))"
    and "refines (dc_lcid p) s (snd (CM_DynTransChanActiveReleasedRspHandler e cur p nxt s))"
    and "refines (dc_lcid p) s (snd (CM_DynTransChanActiveReleasingFailRspHandler e cur p nxt s))"
  using release_node_refines [OF assms(1)] find_local [OF assms(2)] refines_refl [OF assms(1)]
  by (auto simp: CM_DynTransChanActiveEstablishingFailRspHandler_def CM_DynTransChanActiveReleasedRspHandler_def
      CM_DynTransChanActiveReleasingFailRspHandler_def split: option.splits)

lemma releasing_refines:
  assumes "dyn_inv s" "CM_TRANS_CHANNEL_IS_DYNAMIC (dc_localTcid p)"
  shows "refines (dc_lcid p) s (snd (CM_DynTransChanActiveReleasingHandler e CM_TRANS_CHANNEL_STATE_ACTIVATED p CM_TRANS_CHANNEL_STATE_RELEASING s))"
proof (cases "CM_FindTransChannelByLocalTcid (dc_lcid p) (dc_localTcid p) (chan s)")
  case (Some n)
  note N = find_local [OF assms(2) Some]
  have v: "view s (dc_lcid p, dc_localTcid p) = Some (nd_state n, nd_remote n)" using chans_Some [of "dyn s" n] dyn_inv_dist [OF assms(1)] N by auto
  let ?s = "snd (CM_DynTransChanActiveReleasingHandler e CM_TRANS_CHANNEL_STATE_ACTIVATED p CM_TRANS_CHANNEL_STATE_RELEASING s)"
  let ?s1 = "chan_upd (node_upd (nd_addr n) (\<lambda>m. m\<lparr>nd_state := CM_TRANS_CHANNEL_STATE_RELEASING\<rparr>)) s"
  obtain ret sg where snd: "CM_SignalingTransChanReleaseReqSend (sub e 0) (dc_lcid p) \<lparr>rr_srcTcid = dc_localTcid p, rr_dstTcid = nd_remote n\<rparr> (sig ?s1) = (ret, sg)"
    by fastforce
  show ?thesis
  proof (cases "ret = CM_SUCCESS")
    case True
    have "dyn_inv ?s \<and> view ?s = (view s)((nd_lcid n, nd_local n) \<mapsto> (3, nd_remote n))"
      using inv_upd [of s n ?s "\<lambda>m. m\<lparr>nd_state := 3\<rparr>"] assms(1) N Some snd True by (auto simp: CM_DynTransChanActiveReleasingHandler_def Let_def)
    then show ?thesis using N v by (auto simp: refines_def intro: chan_step.releasing)
  next
    case False
    have "dyn ?s = map (\<lambda>m. if nd_addr m = nd_addr n then m\<lparr>nd_state := 2\<rparr> else m) (dyn s)"
      and "node_next (chan ?s) = node_next (chan s)" "pools ?s = pools s"
      using Some snd False by (auto simp: CM_DynTransChanActiveReleasingHandler_def Let_def)
    then have "dyn_inv ?s \<and> view ?s = (view s)((nd_lcid n, nd_local n) \<mapsto> (2, nd_remote n))"
      using inv_upd [of s n ?s "\<lambda>m. m\<lparr>nd_state := 2\<rparr>"] assms(1) N by auto
    then show ?thesis using N v by (auto simp: refines_def intro: chan_step.not_released)
  qed
qed (use refines_refl [OF assms(1)] in \<open>auto simp: CM_DynTransChanActiveReleasingHandler_def\<close>)

lemma passive_release_refines:
  assumes "dyn_inv s" "CM_TRANS_CHANNEL_IS_DYNAMIC (dc_remoteTcid p)"
  shows "refines (dc_lcid p) s (snd (CM_DynTransChanPassiveReleasedReqHandler e cur p nxt s))"
proof (cases "CM_FindTransChannelByRemoteTcid (dc_lcid p) (dc_remoteTcid p) (chan s)")
  case (Some n)
  note N = find_remote [OF assms(2) Some]
  let ?s = "snd (CM_DynTransChanPassiveReleasedReqHandler e cur p nxt s)"
  have "dyn ?s = filter (\<lambda>m. nd_addr m \<noteq> nd_addr n) (dyn s) \<and> node_next (chan ?s) = node_next (chan s)
      \<and> pools ?s = snd (CM_DynTcidRelease (nd_lcid n) (nd_local n) (dc_expectedTransportMode p) (pools s))"
    using Some by (simp add: CM_DynTransChanPassiveReleasedReqHandler_def CM_DynTransChanExpectionReleaseHandler_def Let_def split: prod.splits)
  then show ?thesis using inv_free [OF assms(1), of n ?s "dc_expectedTransportMode p"] N by (auto simp: refines_def)
qed (use refines_refl [OF assms(1)] in \<open>auto simp: CM_DynTransChanPassiveReleasedReqHandler_def\<close>)

text \<open>The entries of the event table.\<close>

lemma post_event:
  "CM_DynTransChanPostEventAndHandler e EV_ACTIVE_ESTABLISHING_REQ p s = CM_DynTransChanActiveEstablishingReqHandler e CM_TRANS_CHANNEL_STATE_INIT p CM_TRANS_CHANNEL_STATE_ACTIVATING s"
  "CM_DynTransChanPostEventAndHandler e EV_ACTIVE_ESTABLISHED_RSP p s = CM_DynTransChanActiveEstablishedRspHandler e CM_TRANS_CHANNEL_STATE_ACTIVATING p CM_TRANS_CHANNEL_STATE_ACTIVATED s"
  "CM_DynTransChanPostEventAndHandler e EV_ACTIVE_ESTABLISHING_FAIL_RSP p s = CM_DynTransChanActiveEstablishingFailRspHandler e CM_TRANS_CHANNEL_STATE_ACTIVATING p CM_TRANS_CHANNEL_STATE_RELEASED s"
  "CM_DynTransChanPostEventAndHandler e EV_ACTIVE_RELEASING_REQ p s = CM_DynTransChanActiveReleasingHandler e CM_TRANS_CHANNEL_STATE_ACTIVATED p CM_TRANS_CHANNEL_STATE_RELEASING s"
  "CM_DynTransChanPostEventAndHandler e EV_ACTIVE_RELEASED_RSP p s = CM_DynTransChanActiveReleasedRspHandler e CM_TRANS_CHANNEL_STATE_RELEASING p CM_TRANS_CHANNEL_STATE_RELEASED s"
  "CM_DynTransChanPostEventAndHandler e EV_ACTIVE_RELEASING_FAIL_RSP p s = CM_DynTransChanActiveReleasingFailRspHandler e CM_TRANS_CHANNEL_STATE_RELEASING p CM_TRANS_CHANNEL_STATE_RELEASED s"
  "CM_DynTransChanPostEventAndHandler e EV_PASSIVE_RELEASED_REQ p s = CM_DynTransChanPassiveReleasedReqHandler e CM_TRANS_CHANNEL_STATE_ACTIVATED p CM_TRANS_CHANNEL_STATE_RELEASED s"
  "CM_DynTransChanPostEventAndHandler e EV_PASSIVE_ESTABLISHED_REQ p s = CM_DynTransChanPassiveEstablishedReqHandler e CM_TRANS_CHANNEL_STATE_INIT p CM_TRANS_CHANNEL_STATE_ACTIVATED s"
  by (simp_all add: CM_DynTransChanPostEventAndHandler_def g_dynTransChanEvents_def)

section \<open>Link down\<close>

lemma notify_all:
  "\<forall>n \<in> set ns. nd_state n \<in> {1, 2, 3} \<Longrightarrow>
     dyn (CM_DynTransChannelNotifyAllDisconnected e k ns s) = filter (\<lambda>m. nd_addr m \<notin> nd_addr ` set ns) (dyn s)
     \<and> node_next (chan (CM_DynTransChannelNotifyAllDisconnected e k ns s)) = node_next (chan s)
     \<and> pools (CM_DynTransChannelNotifyAllDisconnected e k ns s) = pools s"
  by (induction e k ns s rule: CM_DynTransChannelNotifyAllDisconnected.induct) (auto simp: Let_def intro!: filter_cong)

text \<open>Memory is needed where a link with channels goes down, for the list of its channels.\<close>

definition link_memory :: "cm_env \<Rightarrow> u16 \<Rightarrow> cm_state \<Rightarrow> bool" where
  "link_memory e l s \<longleftrightarrow> alloc_ok e \<or> (\<forall>n \<in> set (dyn s). nd_lcid n \<noteq> l)"

lemma link_down_state:
  assumes "dyn_inv s" "link_memory e l s"
  shows "dyn (CM_DynTransChannReleaseAllNode e l s) = filter (\<lambda>n. nd_lcid n \<noteq> l) (dyn s)"
    "node_next (chan (CM_DynTransChannReleaseAllNode e l s)) = node_next (chan s)" "pools (CM_DynTransChannReleaseAllNode e l s) = pools s"
proof -
  let ?ns = "filter (\<lambda>n. nd_lcid n = l) (dyn s)"
  have r: "CM_DynTransChannReleaseAllNode e l s = (if ?ns = [] then s else CM_DynTransChannelNotifyAllDisconnected (sub e 2) 0 ?ns s)"
  proof (cases "alloc_ok e")
    case True
    then show ?thesis by (simp add: CM_DynTransChannReleaseAllNode_def create_vector_ok CM_FindDynTransChannelByLcid_def emplace_all_ok Let_def)
  next
    case False
    then have "?ns = []" using assms(2) by (simp add: link_memory_def)
    then show ?thesis by (auto simp: CM_DynTransChannReleaseAllNode_def CM_FindDynTransChannelByLcid_def SDF_CreateVector_def Let_def split: option.splits)
  qed
  have st: "\<forall>n \<in> set ?ns. nd_state n \<in> {1, 2, 3}" using assms(1) by (auto simp: dyn_inv_def nodes_ok_def)
  have "nd_addr m \<in> nd_addr ` set ?ns \<longleftrightarrow> nd_lcid m = l" if "m \<in> set (dyn s)" for m
    using that dyn_inv_dist [OF assms(1)] by (auto simp: distinct_map inj_on_def)
  then have "filter (\<lambda>m. nd_addr m \<notin> nd_addr ` set ?ns) (dyn s) = filter (\<lambda>n. nd_lcid n \<noteq> l) (dyn s)" by (intro filter_cong) auto
  moreover have "?ns = [] \<Longrightarrow> filter (\<lambda>n. nd_lcid n \<noteq> l) (dyn s) = dyn s" by (auto simp: filter_empty_conv filter_id_conv)
  ultimately show "dyn (CM_DynTransChannReleaseAllNode e l s) = filter (\<lambda>n. nd_lcid n \<noteq> l) (dyn s)"
    "node_next (chan (CM_DynTransChannReleaseAllNode e l s)) = node_next (chan s)" "pools (CM_DynTransChannReleaseAllNode e l s) = pools s"
    using notify_all [OF st, of "sub e 2" 0 s] r by simp_all
qed

lemma link_refines:
  assumes "dyn_inv s" "result = CM_LINK_STATE_DISCONNECTED \<longrightarrow> link_memory e l s"
  shows "refines l s (CM_DynTransLogicLinkCbk e result l s)"
proof -
  consider "result = CM_LINK_STATE_CONNECTED" | "result = CM_LINK_STATE_DISCONNECTED" | "result \<noteq> CM_LINK_STATE_CONNECTED" "result \<noteq> CM_LINK_STATE_DISCONNECTED" by blast
  then show ?thesis
  proof cases
    case 1
    then show ?thesis using assms(1) tcid.held_activate [of "pools s" "keys (dyn s)" e l]
      by (auto simp: CM_DynTransLogicLinkCbk_def refines_def dyn_inv_def intro: chan_step.stay)
  next
    case 2
    note d = link_down_state [OF assms(1), of e l]
    let ?s = "CM_DynTransLogicLinkCbk e result l s"
    have s: "dyn ?s = filter (\<lambda>n. nd_lcid n \<noteq> l) (dyn s)" "node_next (chan ?s) = node_next (chan s)"
      "pools ?s = snd (CM_DynTcidDestroyPool l (pools s))"
      using d assms(2) 2 by (simp_all add: CM_DynTransLogicLinkCbk_def Let_def)
    have "set (keys (dyn ?s)) \<subseteq> set (keys (dyn s)) - {l} \<times> UNIV" by (auto simp: s(1) keys_def)
    then have "tcid.held (pools ?s) (keys (dyn ?s))"
      unfolding s(3) using assms(1) keys_filter [of "dyn s" "\<lambda>n. nd_lcid n \<noteq> l"] dyn_inv_dist [OF assms(1)]
      by (intro tcid.held_destroy) (auto simp: dyn_inv_def s(1))
    moreover have "nodes_ok (dyn ?s) (node_next (chan ?s))" using assms(1) by (auto simp: s(1,2) dyn_inv_def nodes_ok_def distinct_map_filter)
    moreover have "view ?s = view s |` {k. fst k \<noteq> l}" using chans_filter [of "\<lambda>k. fst k \<noteq> l" "dyn s"] by (simp add: s(1))
    ultimately show ?thesis by (simp add: refines_def dyn_inv_def chan_step.link_down)
  next
    case 3
    then show ?thesis using refines_refl [OF assms(1)] by (simp add: CM_DynTransLogicLinkCbk_def)
  qed
qed

section \<open>Requests, messages and timeouts\<close>

lemma establish_req_refines:
  assumes "dyn_inv s"
  shows "\<exists>l. refines l s (snd (CM_DynTransChannelEstablishReq e q s))"
  using establishing_refines [OF assms] refines_refl [OF assms]
  by (fastforce simp: CM_DynTransChannelEstablishReq_def CM_DynTransChannelCreate_def post_event snd_def split: option.splits prod.splits)

lemma release_req_refines:
  assumes "dyn_inv s"
  shows "\<exists>l. refines l s (snd (CM_DynTransChannelReleaseReq e q s))"
proof (cases "g_cmIsRegistered s \<and> q \<noteq> None \<and> CM_TRANS_CHANNEL_IS_DYNAMIC (rq_srcTcid (the q)) \<and> SleLogicLinkGetByAddr (rq_addr (the q)) (chan s) \<noteq> None")
  case True
  then obtain r ll where q: "q = Some r" "CM_TRANS_CHANNEL_IS_DYNAMIC (rq_srcTcid r)" "SleLogicLinkGetByAddr (rq_addr r) (chan s) = Some ll" "g_cmIsRegistered s" by auto
  let ?p = "zero_param\<lparr>dc_lcid := ll_lcid ll, dc_localTcid := rq_srcTcid r, dc_remoteTcid := rq_dstTcid r\<rparr>"
  have "snd (CM_DynTransChannelReleaseReq e q s) = snd (CM_DynTransChanActiveReleasingHandler e CM_TRANS_CHANNEL_STATE_ACTIVATED ?p CM_TRANS_CHANNEL_STATE_RELEASING s)"
    using q by (simp add: CM_DynTransChannelReleaseReq_def post_event split: prod.splits)
  then show ?thesis using releasing_refines [OF assms, of ?p e] q(2) by auto
qed (use refines_refl [OF assms] in \<open>auto simp: CM_DynTransChannelReleaseReq_def split: option.splits\<close>)

lemma cbk_refines:
  assumes "dyn_inv s"
  shows "refines l s (CM_DynTransChannelEstablishReqCbk e l i req s)"
    and "refines l s (CM_DynTransChannelReleaseReqCbk e l i rel s)"
    and "refines l s (CM_DynTransChannelReleaseRspCbk e l relrsp s)"
proof -
  show "refines l s (CM_DynTransChannelEstablishReqCbk e l i req s)"
  proof (cases "CM_TRANS_CHANNEL_IS_DYNAMIC (er_srcTcid req) \<and> CM_FindTransChannelByRemoteTcid l (er_srcTcid req) (chan s) = None")
    case True
    define p where "p = (let p = zero_param\<lparr>dc_lcid := l, dc_remoteTcid := er_srcTcid req, dc_result := CM_RESULT_ESTABLISH_SUCCESS,
           dc_expectedTransportMode := CM_DynTransChanGetTransportMode (er_srcTcid req), dc_reqId := i, dc_slqi := er_slqi req\<rparr>;
         p1 = (case er_portConfig req of None \<Rightarrow> p | Some pc \<Rightarrow> p\<lparr>dc_srcPort := pc_dstPort pc, dc_dstPort := pc_srcPort pc, dc_aid := pc_aid pc\<rparr>)
       in p1\<lparr>dc_config := er_config req\<rparr>)"
    have "dc_lcid p = l" "dc_remoteTcid p = er_srcTcid req" by (auto simp: p_def Let_def split: option.splits)
    moreover have "CM_DynTransChannelEstablishReqCbk e l i req s = snd (CM_DynTransChanPassiveEstablishedReqHandler e CM_TRANS_CHANNEL_STATE_INIT p CM_TRANS_CHANNEL_STATE_ACTIVATED s)"
      using True by (simp add: CM_DynTransChannelEstablishReqCbk_def post_event p_def Let_def)
    ultimately show ?thesis using accept_refines [OF assms, of p e] True by auto
  qed (use refines_refl [OF assms] in \<open>auto simp: CM_DynTransChannelEstablishReqCbk_def\<close>)
next
  let ?p = "zero_param\<lparr>dc_lcid := l, dc_remoteTcid := rr_srcTcid rel, dc_localTcid := rr_dstTcid rel, dc_result := CM_RESULT_ESTABLISH_SUCCESS,
           dc_expectedTransportMode := CM_DynTransChanGetTransportMode (rr_srcTcid rel), dc_reqId := i\<rparr>"
  show "refines l s (CM_DynTransChannelReleaseReqCbk e l i rel s)"
    using passive_release_refines [OF assms, of ?p e] refines_refl [OF assms] by (auto simp: CM_DynTransChannelReleaseReqCbk_def post_event)
next
  let ?p = "zero_param\<lparr>dc_lcid := l, dc_result := rs_result relrsp, dc_localTcid := rs_srcTcid relrsp, dc_remoteTcid := rs_dstTcid relrsp,
           dc_expectedTransportMode := CM_DynTransChanGetTransportMode (rs_srcTcid relrsp)\<rparr>"
  show "refines l s (CM_DynTransChannelReleaseRspCbk e l relrsp s)"
    using local_release_refines(2,3) [OF assms, of ?p e] refines_refl [OF assms] by (auto simp: CM_DynTransChannelReleaseRspCbk_def post_event)
qed

lemma establish_rsp_cbk_refines:
  assumes "dyn_inv s"
  shows "refines l s (CM_DynTransChannelEstablishRspCbk e l rsp s)"
proof -
  let ?p = "zero_param\<lparr>dc_lcid := l, dc_localTcid := es_srcTcid rsp, dc_remoteTcid := es_dstTcid rsp, dc_result := es_result rsp,
       dc_expectedTransportMode := CM_DynTransChanGetTransportMode (es_srcTcid rsp)\<rparr>"
  show ?thesis
    using established_refines [OF assms, of ?p e] local_release_refines(1) [OF assms, of ?p e] refines_refl [OF assms]
    by (auto simp: CM_DynTransChannelEstablishRspCbk_def post_event post_event(2) [unfolded One_nat_def] Let_def split: option.splits)
qed

text \<open>Changes of the cached requests do not concern the channels.\<close>

lemma refines_sig: "refines l s s' \<Longrightarrow> refines l s (s'\<lparr>sig := x\<rparr>)"
  by (simp add: refines_def dyn_inv_def)

text \<open>The capability exchange changes links only.\<close>

lemma link_upd_simps [simp]:
  "g_dynTransListHead (link_upd l f c) = g_dynTransListHead c" "node_next (link_upd l f c) = node_next c"
  by (simp_all add: link_upd_def)

lemma cap_setters [simp]:
  "g_dynTransListHead (CM_SetLinkProtocolVersion l x c) = g_dynTransListHead c" "node_next (CM_SetLinkProtocolVersion l x c) = node_next c"
  "g_dynTransListHead (CM_SetLinkRxWindow l y c) = g_dynTransListHead c" "node_next (CM_SetLinkRxWindow l y c) = node_next c"
  "g_dynTransListHead (CM_SetLinkTransMode l x c) = g_dynTransListHead c" "node_next (CM_SetLinkTransMode l x c) = node_next c"
  "g_dynTransListHead (CM_SetLinkMtu l x c) = g_dynTransListHead c" "node_next (CM_SetLinkMtu l x c) = node_next c"
  "g_dynTransListHead (CM_SetDeviceLinkDeviceType l b c) = g_dynTransListHead c" "node_next (CM_SetDeviceLinkDeviceType l b c) = node_next c"
  by (auto simp: CM_SetLinkProtocolVersion_def CM_SetLinkRxWindow_def CM_SetLinkTransMode_def CM_SetLinkMtu_def CM_SetDeviceLinkDeviceType_def split: option.splits)

lemma refines_links:
  assumes "dyn_inv s" "dyn s' = dyn s" "node_next (chan s') = node_next (chan s)" "pools s' = pools s"
  shows "refines l s s'"
  using refines_refl [OF assms(1), of l] assms by (simp add: refines_def dyn_inv_def)

lemma handler_cases:
  assumes "CM_SignalingGetManagerHandler code = Some h"
  obtains "h = cap_req_proc" | "h = cap_rsp_proc" | "h = CM_SignalingTransChanEstablishReqProc" | "h = CM_SignalingTransChanEstablishRspProc"
    | "h = CM_SignalingTransChanReleaseReqProc" | "h = CM_SignalingTransChanReleaseRspProc"
  using assms by (auto simp: CM_SignalingGetManagerHandler_def g_signalings_def split: if_splits)

lemma handler_refines:
  assumes "dyn_inv s" "CM_SignalingGetManagerHandler code = Some h" "h e l i data s = Some s1"
  shows "refines l s s1"
  using handler_cases [OF assms(2)]
proof cases
  case 1
  then show ?thesis using assms(3)
    by (intro refines_links [OF assms(1)]) (auto simp: cap_req_proc_def CM_ProcessReqSignalingCapability_def Let_def
        split: bind_splits option.splits prod.splits if_splits)
next
  case 2
  then show ?thesis using assms(3)
    by (intro refines_links [OF assms(1)]) (auto simp: cap_rsp_proc_def CM_ProcessRspSignalingCapability_def Let_def
        split: bind_splits option.splits prod.splits if_splits)
qed (use assms(3) cbk_refines [OF assms(1)] establish_rsp_cbk_refines [OF assms(1)] refines_refl [OF assms(1)] in
    \<open>auto simp: CM_SignalingTransChanEstablishReqProc_def CM_SignalingTransChanEstablishRspProc_def CM_SignalingTransChanReleaseReqProc_def
        CM_SignalingTransChanReleaseRspProc_def split: bind_splits sum.splits if_splits\<close>)

lemma handler_total:
  assumes "CM_SignalingGetManagerHandler code = Some h"
  shows "h e l i data s \<noteq> None"
  using handler_cases [OF assms] establish_req_parse_safe [of data] cap_rsp_safe [of l data "chan s"]
    cap_req_safe [of e "Some (g_publicAddress s)" l i data "(chan s, sig s)"]
  by cases (auto simp: cap_req_proc_def cap_rsp_proc_def CM_SignalingTransChanEstablishReqProc_def CM_SignalingTransChanEstablishRspProc_def
      CM_SignalingTransChanReleaseReqProc_def CM_SignalingTransChanReleaseRspProc_def rd8_def split: sum.splits)

lemma recv_refines:
  assumes "dyn_inv s" "CM_RecvSignalingData e l b s = Some s'"
  shows "refines l s s'"
  using assms(2) handler_refines [OF assms(1)] refines_refl [OF assms(1)]
  by (auto simp: CM_RecvSignalingData_def Let_def intro!: refines_sig split: bind_splits option.splits if_splits)

lemma recv_total: "buff_ok b \<Longrightarrow> CM_RecvSignalingData e l b s \<noteq> None"
proof -
  assume b: "buff_ok b"
  obtain h where "CM_ParseSignalingBuff b = Some h" using parse_signaling_safe [OF b] by auto
  moreover have "\<not> dataLen b < 1 \<Longrightarrow> mem_read b (dataOff b) 1 \<noteq> None" using mem_read_data [OF b, of 0 1] by auto
  ultimately show ?thesis using handler_total
    by (cases h) (auto simp: CM_RecvSignalingData_def Let_def simp del: not_None_eq split: bind_splits option.splits)
qed

lemma timeout_refines:
  assumes "dyn_inv s"
  shows "\<exists>l. refines l s (CM_SignalingTimeoutCbkInner e i s)"
proof (cases "\<exists>m c. g_cachedSignalings (sig s) = Some m \<and> SDF_MapFind m i = Some c")
  case True
  then obtain m c where c: "g_cachedSignalings (sig s) = Some m" "SDF_MapFind m i = Some c" by auto
  have "refines (ta_lcid (cs_args c)) s (signaling_timeout e c s)"
    using cbk_refines(3) [OF assms] establish_rsp_cbk_refines [OF assms] refines_refl [OF assms]
    by (auto simp: signaling_timeout_def Let_def split: CM_SignalingTimeoutCbk.splits)
  then show ?thesis using c by (auto simp: CM_SignalingTimeoutCbkInner_def Let_def intro!: exI refines_sig)
next
  case False
  then have "CM_SignalingTimeoutCbkInner e i s = s" by (auto simp: CM_SignalingTimeoutCbkInner_def split: option.splits)
  then show ?thesis using refines_refl [OF assms] by auto
qed

section \<open>The module as a transition system\<close>

text \<open>
  Everything that happens to the module: requests of the upper layers, received messages, expired timers, links
  that come up or go down, changes the link management makes to its list of links, and the registration and
  unregistration of the upper layer, which create and destroy the pools of identifiers.
\<close>

datatype cm_event = EvEstablish "CM_DynTransChannelEstablishParamReq option" | EvRelease "CM_DynTransChannelReleaseParamReq option"
  | EvReceive u16 SDF_Buff | EvTimeout u8 | EvLink nat u16 | EvSignalingLink nat u16 | EvLinks "SleLogicLink list"
  | EvRegister "dyn_cbks option" | EvUnregister

fun cm_step :: "cm_env \<Rightarrow> cm_event \<Rightarrow> cm_state \<Rightarrow> cm_state option" where
  "cm_step e (EvEstablish q) s = Some (snd (CM_DynTransChannelEstablishReq e q s))"
| "cm_step e (EvRelease q) s = Some (snd (CM_DynTransChannelReleaseReq e q s))"
| "cm_step e (EvReceive l b) s = CM_RecvSignalingData e l b s"
| "cm_step e (EvTimeout i) s = Some (CM_SignalingTimeoutCbkInner e i s)"
| "cm_step e (EvLink result l) s = Some (CM_DynTransLogicLinkCbk e result l s)"
| "cm_step e (EvSignalingLink result l) s = Some (CM_SignalingLogicLinkCbk e result l s)"
| "cm_step e (EvLinks ls) s = Some (s\<lparr>chan := (chan s)\<lparr>g_deviceLinkListHead := ls\<rparr>\<rparr>)"
| "cm_step e (EvRegister cbks) s = Some (snd (CM_RegDynTransChannelCbks e cbks s))"
| "cm_step e EvUnregister s = Some (CM_UnRegDynTransChannelCbks s)"

text \<open>
  What is asked of an event: a received buffer is well formed; a link with channels does not go down without memory
  for the list of its channels (it would keep them while its pool is destroyed: lemma \<open>link_down_without_memory\<close>);
  and the upper layer registers and unregisters only while there is no channel (both discard the pools and keep the
  channels: lemma \<open>unregister_keeps_channels\<close>).
\<close>

fun event_ok :: "cm_env \<Rightarrow> cm_event \<Rightarrow> cm_state \<Rightarrow> bool" where
  "event_ok e (EvReceive l b) s \<longleftrightarrow> buff_ok b"
| "event_ok e (EvLink result l) s \<longleftrightarrow> (result = CM_LINK_STATE_DISCONNECTED \<longrightarrow> link_memory e l s)"
| "event_ok e (EvRegister cbks) s \<longleftrightarrow> dyn s = []"
| "event_ok e EvUnregister s \<longleftrightarrow> dyn s = []"
| "event_ok e _ s \<longleftrightarrow> True"

text \<open>Destroying pools one after the other leaves none of their identifiers marked.\<close>

lemma destroy_all:
  assumes "pools_ok qs"
  shows "pools_ok (fold (\<lambda>p ps. snd (CM_DynTcidDestroyPool (pool_lcid p) ps)) ps qs)
    \<and> pools_used (fold (\<lambda>p ps. snd (CM_DynTcidDestroyPool (pool_lcid p) ps)) ps qs) = pools_used qs - pool_lcid ` set ps \<times> UNIV"
  using assms
proof (induction ps arbitrary: qs)
  case (Cons p ps)
  have "pools_ok (snd (CM_DynTcidDestroyPool (pool_lcid p) qs)) \<and> pools_used (snd (CM_DynTcidDestroyPool (pool_lcid p) qs)) = pools_used qs - {pool_lcid p} \<times> UNIV"
    using tcid.destroy_used [OF Cons.prems] by (metis prod.collapse)
  then show ?case using Cons.IH by auto
qed simp

lemma registration_refines:
  assumes "dyn_inv s" "dyn s = []"
  shows "refines l s (snd (CM_RegDynTransChannelCbks e cbks s))" "refines l s (CM_UnRegDynTransChannelCbks s)"
proof -
  have p: "pools_ok (pools s)" "pools_ok []" using assms(1) by (simp_all add: dyn_inv_def tcid.held_def pools_ok_def)
  have v: "refines l s s'" if "chan s' = chan s" "pools_ok (pools s')" for s'
    using that assms(2) by (auto simp: refines_def dyn_inv_def tcid.held_def keys_def nodes_ok_def intro: chan_step.stay)
  show "refines l s (snd (CM_RegDynTransChannelCbks e cbks s))"
    by (rule v) (auto simp: CM_RegDynTransChannelCbks_def CM_DynTransChannStateMgrRegCbks_def CM_DynTcidInit_def Let_def p split: option.splits)
  show "refines l s (CM_UnRegDynTransChannelCbks s)"
    by (rule v) (auto simp: CM_UnRegDynTransChannelCbks_def CM_DynTransChannStateMgrUnRegCbks_def CM_DynTcidDeInit_def p destroy_all)
qed

lemma step_refines:
  assumes "dyn_inv s" "event_ok e ev s"
  shows "\<exists>s' l. cm_step e ev s = Some s' \<and> refines l s s' \<and> (\<forall>l' b. ev = EvReceive l' b \<longrightarrow> l = l') \<and> (\<forall>r l'. ev = EvLink r l' \<longrightarrow> l = l')"
proof (cases ev)
  case (EvReceive l b)
  then show ?thesis using recv_refines [OF assms(1), of e l b] recv_total [of b e l s] assms(2) by auto
next
  case (EvSignalingLink result l)
  then show ?thesis using refines_sig [OF refines_refl [OF assms(1)]] refines_refl [OF assms(1)] by (auto simp: CM_SignalingLogicLinkCbk_def)
next
  case (EvLinks ls)
  have "refines 0 s (s\<lparr>chan := (chan s)\<lparr>g_deviceLinkListHead := ls\<rparr>\<rparr>)"
    using refines_refl [OF assms(1), of 0] by (simp add: refines_def dyn_inv_def)
  then show ?thesis using EvLinks by auto
qed (use establish_req_refines [OF assms(1)] release_req_refines [OF assms(1)] timeout_refines [OF assms(1)] link_refines [OF assms(1)]
      registration_refines [OF assms(1)] assms(2) in auto)

inductive cm_reach :: "cm_state \<Rightarrow> cm_state \<Rightarrow> bool" for s0 where
  reach_init: "cm_reach s0 s0"
| reach_step: "cm_reach s0 s \<Longrightarrow> event_ok e ev s \<Longrightarrow> cm_step e ev s = Some s' \<Longrightarrow> cm_reach s0 s'"

lemma reach_inv: "cm_reach s0 s \<Longrightarrow> dyn_inv s0 \<Longrightarrow> dyn_inv s"
proof (induction rule: cm_reach.induct)
  case (reach_step s e ev s')
  then show ?case using step_refines [of s e ev] by (auto simp: refines_def)
qed simp

end
