(* ===== verification/Cm_Handshake.thy ===== *)
theory Cm_Handshake
  imports Cm_Dyn_Inv
begin

text \<open>
  Two sides of a link: the establish request of one side, sent by its connection management and received by
  the other's, and the answer on its way back. The lemmas evaluate each half when memory, timers and the data
  plane are available; together they show that both sides end with the same channel.
\<close>

section \<open>An environment without failures\<close>

definition env_good :: "cm_env \<Rightarrow> bool" where
  "env_good e \<longleftrightarrow> alloc_ok e \<and> (\<forall>p. env_timer e p \<noteq> None) \<and> (\<forall>p. env_dli e p) \<and> (\<forall>p. env_recv e p)"

lemma env_good_sub [simp]: "env_good (sub e k) = env_good e"
  by (simp add: env_good_def)

lemma env_good_granting: "env_good (granting_env True)"
  by (simp add: env_good_def)

lemma env_goodD: "env_good e \<Longrightarrow> alloc_ok e \<and> call_dli e \<and> call_recv e \<and> (\<exists>t. CP_TimerAdd e = Some t) \<and> (\<exists>a. SDF_MemZalloc e = Some a)"
  by (auto simp: env_good_def call_dli_def call_recv_def CP_TimerAdd_def alloc_okD)

section \<open>Sending\<close>

lemma send_request_ok:
  assumes "env_good e" "g_sendFunc s" "g_cachedSignalings s = Some m" "SDF_MapFind m (g_identifier s) = None"
  shows "\<exists>t b. send_request e l code args cbk data s = (CM_SUCCESS, s\<lparr>g_identifier := g_identifier s + 1,
      g_cachedSignalings := Some ((g_identifier s, \<lparr>cs_lcid = l, cs_id = g_identifier s, cs_code = code, cs_args = args, cs_timer = t, cs_cbk = cbk\<rparr>) # m),
      sig_out := sig_out s @ [(l, b)]\<rparr>)
    \<and> buff_ok b \<and> buff_data b = [code, g_identifier s] @ ENCODE2BYTE_LITTLE (of_nat (length data)) @ data"
proof -
  obtain b where b: "CM_CreateSignalingBuff (sub e 2) code (g_identifier s) data = Some b"
    using create_signaling_Some [of "sub e 2" code "g_identifier s" data] env_goodD [OF assms(1)] by auto
  obtain tm where tm: "CP_TimerAdd (sub (sub e 1) 1) = Some tm" using env_goodD [of "sub (sub e 1) 1"] assms(1) by auto
  show ?thesis
    using create_signaling_ok [OF b] b tm assms env_goodD [of "sub e 0"] env_goodD [of "sub e 3"] env_goodD [of "sub (sub e 1) 0"]
      env_goodD [of "sub (sub e 1) 2"]
    by (intro exI [of _ tm] exI [of _ b]) (auto simp: send_request_def CM_GetIdentifier_def CM_SignalingCacheInsert_def SDF_MapMoveInsert_def CM_SendBuffToDtap_def)
qed

lemma send_response_ok:
  assumes "env_good e" "g_sendFunc s"
  shows "\<exists>b. send_response e l code i data s = (CM_SUCCESS, s\<lparr>sig_out := sig_out s @ [(l, b)]\<rparr>)
    \<and> buff_ok b \<and> buff_data b = [code, i] @ ENCODE2BYTE_LITTLE (of_nat (length data)) @ data"
proof -
  obtain b where b: "CM_CreateSignalingBuff (sub e 0) code i data = Some b"
    using create_signaling_Some [of "sub e 0" code i data] env_goodD [OF assms(1)] by auto
  show ?thesis
    using create_signaling_ok [OF b] b assms env_goodD [of "sub e 1"] by (auto simp: send_response_def CM_SendBuffToDtap_def)
qed

lemma establish_pack_ok:
  assumes "alloc_ok e" "transMode c < CM_TRANS_MODE_MAX" "er_config req = c" "er_slqiNum req = 1" "er_portConfig req = Some pc"
  obtains bs where "CM_SignalingTransChanEstablishReqPack e req = Some bs" "length bs < 65536"
proof -
  have "\<exists>bs. CM_SignalingTransChanEstablishReqPack e req = Some bs"
    using assms alloc_okD [OF assms(1)]
    by (auto simp: CM_SignalingTransChanEstablishReqPack_def CM_SignalingTranModeConfigPack_def CM_SignalingPreferredSlqiListPack_def
        CM_SignalingExtensionPack_def Let_def)
  then obtain bs where bs: "CM_SignalingTransChanEstablishReqPack e req = Some bs" ..
  then have "length bs = CM_SignalingEstablishReqSizeGet req" by (rule establish_req_pack_obtain)
  then show thesis using that [OF bs] by (simp add: CM_SignalingEstablishReqSizeGet_def)
qed

section \<open>Creating a channel\<close>

lemma change_cbk_ok:
  assumes "alloc_ok e"
  shows "CM_DynTransChannelChangeCbk e n st c = (if g_transChannelCbk c then c\<lparr>reports := reports c @ [(st, [dyn_chan n])]\<rparr> else c)"
  using assms alloc_okD [of "sub e 1"] by (auto simp: CM_DynTransChannelChangeCbk_def create_vector_ok emplace_back_ok)

definition node_of :: "u16 \<Rightarrow> CM_DynTransChanParam \<Rightarrow> SLE_Addr \<Rightarrow> nat \<Rightarrow> SleTransLcid" where
  "node_of l p a k = \<lparr>nd_addr = k, nd_lcid = l, nd_rmtAddr = a, nd_state = dc_state p,
     nd_params = Some \<lparr>tl_version = dc_version p, tl_localIndex = dc_localIndex p, tl_config = dc_config p, tl_castMode = 0,
       tl_channelMode = dc_channelMode p, tl_direction = dc_direction p, tl_aid = dc_aid p, tl_exclusive = True,
       tl_srcPort = dc_srcPort p, tl_dstPort = dc_dstPort p, tl_slqi = dc_slqi p, tl_frameType = dc_frameType p\<rparr>,
     nd_local = dc_localTcid p, nd_remote = dc_remoteTcid p\<rparr>"

lemma activate_ok:
  assumes "alloc_ok e" "SleLogicLinkGetByLcid l c = Some sll" "uc_tcid (dc_localTcid p)"
  shows "CM_ActivateDynamicTransChannel e l p c = (Some (node_of l p (ll_rmtAddr sll) (node_next c)),
    (if dc_state p = CM_TRANS_CHANNEL_STATE_ACTIVATED then CM_DynTransChannelChangeCbk (sub e 1) (node_of l p (ll_rmtAddr sll) (node_next c)) (dc_state p) else id)
      (c\<lparr>node_next := node_next c + 1, g_dynTransListHead := g_dynTransListHead c @ [node_of l p (ll_rmtAddr sll) (node_next c)]\<rparr>))"
proof -
  have "dc_localTcid p \<noteq> 0" "\<not> CM_TRANS_CHANNEL_IS_FIXED (dc_localTcid p)" using assms(3)
    by (auto simp: CM_TRANS_CHANNEL_IS_FIXED_def uc_tcid_def word_le_nat_alt)
  then show ?thesis
    using assms(1,2) alloc_okD [of "sub (sub e 0) 0"] alloc_okD [of "sub (sub e 0) 1"]
    by (auto simp: CM_ActivateDynamicTransChannel_def CM_AllocTransChannel_def CM_AllocTransChannelNode_def node_of_def Let_def)
qed

section \<open>The three moves\<close>

text \<open>A module in operation whose next request identifier is not waiting for an answer.\<close>

definition ready :: "cm_state \<Rightarrow> (u8, CM_CachedSignaling) SDF_Map \<Rightarrow> bool" where
  "ready s m \<longleftrightarrow> dyn_inv s \<and> g_cmIsRegistered s \<and> g_signalingTransChanCbks s \<and> g_sendFunc (sig s) \<and> g_transChannelCbk (chan s)
     \<and> g_cachedSignalings (sig s) = Some m \<and> SDF_MapFind m (g_identifier (sig s)) = None"

text \<open>What the request asks for.\<close>

definition request_ok :: "CM_DynTransChannelEstablishParamReq \<Rightarrow> bool" where
  "request_ok q \<longleftrightarrow> eq_expectedTransportMode q = CM_ACCESS_TRANS_MODE_UNICAST \<and> transMode (eq_config q) < CM_TRANS_MODE_MAX
     \<and> transMode (eq_config q) \<noteq> CM_TRANS_MODE_TRANSPARENT \<and> unat (eq_slqi q) < CM_TRANS_CHANNEL_SLQI_MAX \<and> config_ok (eq_config q)
     \<and> CM_CAP_MIN_MTU \<le> cfg_mtu (eq_config q)"

definition request_param :: "CM_DynTransChannelEstablishParamReq \<Rightarrow> u16 \<Rightarrow> CM_DynTransChanParam" where
  "request_param q l = zero_param\<lparr>dc_version := eq_version q, dc_localIndex := eq_localIndex q, dc_lcid := l, dc_srcPort := eq_srcPort q,
     dc_dstPort := eq_dstPort q, dc_localTcid := CM_TRANS_INVALID_TCID, dc_remoteTcid := CM_TRANS_INVALID_TCID, dc_aid := CM_TRANS_INVALID_AID,
     dc_exclusive := True, dc_slqi := eq_slqi q, dc_expectedTransportMode := eq_expectedTransportMode q,
     dc_state := CM_TRANS_CHANNEL_STATE_INIT, dc_frameType := eq_frameType q, dc_config := eq_config q\<rparr>"

lemma link_by_addr: "SleLogicLinkGetByAddr a c = Some ll \<Longrightarrow> \<exists>sll. SleLogicLinkGetByLcid (ll_lcid ll) c = Some sll"
proof -
  assume "SleLogicLinkGetByAddr a c = Some ll"
  then have "ll \<in> set (g_deviceLinkListHead c)" by (auto simp: SleLogicLinkGetByAddr_def find_Some_iff)
  then have "SleLogicLinkGetByLcid (ll_lcid ll) c \<noteq> None" unfolding SleLogicLinkGetByLcid_def find_None_iff by auto
  then show ?thesis by simp
qed

lemma initiate:
  assumes "ready s m" "env_good e" "request_ok q" "SleLogicLinkGetByAddr (eq_addr q) (chan s) = Some ll"
    "CM_DynTcidAllocate (ll_lcid ll) CM_ACCESS_TRANS_MODE_UNICAST (pools s) = (t, ps)" "t \<noteq> CM_TRANS_INVALID_TCID"
  shows "\<exists>s1 n c b data. CM_DynTransChannelEstablishReq e (Some q) s = (CM_SUCCESS, s1)
    \<and> s1 = s\<lparr>g_cmDynTransPoolListHead := ps,
          chan := (chan s)\<lparr>node_next := node_next (chan s) + 1, g_dynTransListHead := dyn s @ [n]\<rparr>,
          sig := (sig s)\<lparr>g_identifier := g_identifier (sig s) + 1, g_cachedSignalings := Some ((g_identifier (sig s), c) # m),
                         sig_out := sig_out (sig s) @ [(ll_lcid ll, b)]\<rparr>\<rparr>
    \<and> nd_addr n = node_next (chan s) \<and> nd_lcid n = ll_lcid ll \<and> nd_local n = t \<and> nd_remote n = CM_TRANS_INVALID_TCID
    \<and> nd_state n = CM_TRANS_CHANNEL_STATE_ACTIVATING \<and> map_option tl_config (nd_params n) = Some (eq_config q) \<and> map_option tl_castMode (nd_params n) = Some 0
    \<and> cs_code c = TC_CONNECT_REQ \<and> buff_ok b
    \<and> buff_data b = [TC_CONNECT_REQ, g_identifier (sig s)] @ ENCODE2BYTE_LITTLE (of_nat (length data)) @ data \<and> length data < 65536
    \<and> CM_SignalingTransChanEstablishReqParse data = Some (Inr ((establish_req (request_param q (ll_lcid ll)) t)\<lparr>er_config := sent_config (eq_config q)\<rparr>))"
proof -
  let ?p = "request_param q (ll_lcid ll)"
  note inv = assms(1) [unfolded ready_def, THEN conjunct1] and E = env_goodD [OF assms(2)]
  have uc: "uc_tcid t" by (rule alloc_uc [OF inv assms(5,6)])
  obtain sll where sll: "SleLogicLinkGetByLcid (ll_lcid ll) (chan s) = Some sll" using link_by_addr [OF assms(4)] by auto
  define n where "n = node_of (ll_lcid ll) (?p\<lparr>dc_localTcid := t, dc_remoteTcid := CM_TRANS_INVALID_TCID, dc_state := CM_TRANS_CHANNEL_STATE_ACTIVATING\<rparr>)
    (ll_rmtAddr sll) (node_next (chan s))"
  have act: "CM_ActivateDynamicTransChannel (sub e 0) (ll_lcid ll) (?p\<lparr>dc_localTcid := t, dc_remoteTcid := CM_TRANS_INVALID_TCID, dc_state := CM_TRANS_CHANNEL_STATE_ACTIVATING\<rparr>) (chan s)
      = (Some n, (chan s)\<lparr>node_next := node_next (chan s) + 1, g_dynTransListHead := dyn s @ [n]\<rparr>)"
    using activate_ok [OF _ sll, of "sub e 0" "?p\<lparr>dc_localTcid := t, dc_remoteTcid := CM_TRANS_INVALID_TCID, dc_state := CM_TRANS_CHANNEL_STATE_ACTIVATING\<rparr>"] E uc
    by (simp add: n_def)
  obtain data where data: "CM_SignalingTransChanEstablishReqPack (sub (sub e 1) 0) (establish_req ?p t) = Some data" "length data < 65536"
    by (rule establish_pack_ok [of "sub (sub e 1) 0" "eq_config q" "establish_req ?p t"]) (use E assms(3) in \<open>auto simp: request_ok_def establish_req_def request_param_def\<close>)
  have parse: "CM_SignalingTransChanEstablishReqParse data = Some (Inr ((establish_req ?p t)\<lparr>er_config := sent_config (eq_config q)\<rparr>))"
    using establish_req_pack_parse [OF data(1)] assms(3) by (simp add: request_ok_def establish_req_def request_param_def)
  obtain tm b where b: "send_request (sub (sub e 1) 1) (ll_lcid ll) TC_CONNECT_REQ \<lparr>ta_lcid = ll_lcid ll, ta_srcTcid = t, ta_dstTcid = 0\<rparr>
      CM_SignalingTransChanEstablishReqTimeout data (sig s) = (CM_SUCCESS, (sig s)\<lparr>g_identifier := g_identifier (sig s) + 1,
      g_cachedSignalings := Some ((g_identifier (sig s), \<lparr>cs_lcid = ll_lcid ll, cs_id = g_identifier (sig s), cs_code = TC_CONNECT_REQ,
        cs_args = \<lparr>ta_lcid = ll_lcid ll, ta_srcTcid = t, ta_dstTcid = 0\<rparr>, cs_timer = tm, cs_cbk = CM_SignalingTransChanEstablishReqTimeout\<rparr>) # m),
      sig_out := sig_out (sig s) @ [(ll_lcid ll, b)]\<rparr>)"
    "buff_ok b" "buff_data b = [TC_CONNECT_REQ, g_identifier (sig s)] @ ENCODE2BYTE_LITTLE (of_nat (length data)) @ data"
    using send_request_ok [of "sub (sub e 1) 1" "sig s" m "ll_lcid ll" TC_CONNECT_REQ "\<lparr>ta_lcid = ll_lcid ll, ta_srcTcid = t, ta_dstTcid = 0\<rparr>"
      CM_SignalingTransChanEstablishReqTimeout data] assms(1,2) by (auto simp: ready_def)
  have "CM_DynTransChannelEstablishReq e (Some q) s = (CM_SUCCESS, s\<lparr>g_cmDynTransPoolListHead := ps,
      chan := (chan s)\<lparr>node_next := node_next (chan s) + 1, g_dynTransListHead := dyn s @ [n]\<rparr>,
      sig := snd (send_request (sub (sub e 1) 1) (ll_lcid ll) TC_CONNECT_REQ \<lparr>ta_lcid = ll_lcid ll, ta_srcTcid = t, ta_dstTcid = 0\<rparr>
      CM_SignalingTransChanEstablishReqTimeout data (sig s))\<rparr>)"
    using assms(1,3-6) act data(1) b(1)
    by (simp add: CM_DynTransChannelEstablishReq_def ready_def request_ok_def CM_DynTransChannelCreate_def post_event tcid_alloc_def
        CM_DynTransChanActiveEstablishingReqHandler_def request_param_def CM_SignalingTransChanEstablishReqSend_def establish_req_def)
  then show ?thesis using b parse data(2) unfolding n_def node_of_def request_param_def by (intro exI conjI) (auto simp: zero_param_def)
qed

lemma recv_signaling:
  assumes "buff_ok b" "buff_data b = [code, i] @ ENCODE2BYTE_LITTLE (of_nat (length data)) @ data" "length data < 65536"
    "CM_SignalingGetManagerHandler code = Some h"
  shows "CM_RecvSignalingData e l b s = do { s1 \<leftarrow> h e l i data s; Some (s1\<lparr>sig := CM_SignalingCacheRemove i code (sig s1)\<rparr>) }"
proof -
  have "dataLen b = length data + 4" using length_buff_data [OF assms(1)] assms(2) by simp
  then have "\<not> dataLen b < 1" "mem_read b (dataOff b) 1 = Some [code]" using mem_read_data [OF assms(1), of 0 1] assms(2) by auto
  then show ?thesis using parse_signaling [OF assms(1-3)] assms(4) by (simp add: CM_RecvSignalingData_def)
qed

lemma handlers:
  "CM_SignalingGetManagerHandler CAPABILITY_REQ = Some cap_req_proc"
  "CM_SignalingGetManagerHandler CAPABILITY_RSP = Some cap_rsp_proc"
  "CM_SignalingGetManagerHandler TC_CONNECT_REQ = Some CM_SignalingTransChanEstablishReqProc"
  "CM_SignalingGetManagerHandler TC_CONNECT_RSP = Some CM_SignalingTransChanEstablishRspProc"
  "CM_SignalingGetManagerHandler TC_DISCONNECT_REQ = Some CM_SignalingTransChanReleaseReqProc"
  "CM_SignalingGetManagerHandler TC_DISCONNECT_RSP = Some CM_SignalingTransChanReleaseRspProc"
  by (simp_all add: CM_SignalingGetManagerHandler_def g_signalings_def)

text \<open>The answering side: the request is accepted, answered, and the new channel reported.\<close>

lemma respond:
  assumes "ready s m" "env_good e" "buff_ok b" "buff_data b = [TC_CONNECT_REQ, i] @ ENCODE2BYTE_LITTLE (of_nat (length data)) @ data" "length data < 65536"
    "CM_SignalingTransChanEstablishReqParse data = Some (Inr req)" "uc_tcid (er_srcTcid req)" "CM_CAP_MIN_MTU \<le> cfg_mtu (er_config req)"
    "CM_FindTransChannelByRemoteTcid l (er_srcTcid req) (chan s) = None" "SleLogicLinkGetByLcid l (chan s) = Some sll"
    "CM_DynTcidAllocate l CM_ACCESS_TRANS_MODE_UNICAST (pools s) = (t, ps)" "t \<noteq> CM_TRANS_INVALID_TCID"
  shows "\<exists>s1 b'. CM_RecvSignalingData e l b s = Some s1 \<and> view s1 = (view s)((l, t) \<mapsto> (CM_TRANS_CHANNEL_STATE_ACTIVATED, er_srcTcid req))
    \<and> sig_out (sig s1) = sig_out (sig s) @ [(l, b')] \<and> buff_ok b'
    \<and> buff_data b' = [TC_CONNECT_RSP, i] @ ENCODE2BYTE_LITTLE (of_nat 4) @ [er_srcTcid req, t, 0, 0]
    \<and> reports (chan s1) = reports (chan s) @ [(CM_TRANS_CHANNEL_STATE_ACTIVATED,
        [\<lparr>tp_castMode = 0, tp_lcid = l, tp_srcTcid = t, tp_dstTcid = er_srcTcid req, config = er_config req\<rparr>])]"
proof -
  have rd: "dyn_inv s" "g_signalingTransChanCbks s" "g_sendFunc (sig s)" "g_transChannelCbk (chan s)" using assms(1) by (auto simp: ready_def)
  note E = env_goodD [OF assms(2)]
  have uc: "uc_tcid t" by (rule alloc_uc [OF rd(1) assms(11,12)])
  have dy: "CM_TRANS_CHANNEL_IS_DYNAMIC (er_srcTcid req)" "CM_DynTransChanGetTransportMode (er_srcTcid req) = CM_ACCESS_TRANS_MODE_UNICAST"
    using assms(7) by (auto simp: uc_tcid_def CM_TRANS_CHANNEL_IS_DYNAMIC_def CM_DynTransChanGetTransportMode_def word_le_nat_alt)
  define p where "p = (let p = zero_param\<lparr>dc_lcid := l, dc_remoteTcid := er_srcTcid req, dc_result := CM_RESULT_ESTABLISH_SUCCESS,
           dc_expectedTransportMode := CM_DynTransChanGetTransportMode (er_srcTcid req), dc_reqId := i, dc_slqi := er_slqi req\<rparr>;
         p1 = (case er_portConfig req of None \<Rightarrow> p | Some pc \<Rightarrow> p\<lparr>dc_srcPort := pc_dstPort pc, dc_dstPort := pc_srcPort pc, dc_aid := pc_aid pc\<rparr>)
       in p1\<lparr>dc_config := er_config req\<rparr>)"
  have P: "dc_lcid p = l" "dc_remoteTcid p = er_srcTcid req" "dc_expectedTransportMode p = CM_ACCESS_TRANS_MODE_UNICAST" "dc_reqId p = i" "dc_config p = er_config req"
    using dy(2) by (auto simp: p_def Let_def split: option.splits)
  let ?p = "p\<lparr>dc_localTcid := t, dc_state := CM_TRANS_CHANNEL_STATE_ACTIVATED\<rparr>"
  define n where "n = node_of l ?p (ll_rmtAddr sll) (node_next (chan s))"
  define c where "c = (chan s)\<lparr>node_next := node_next (chan s) + 1, g_dynTransListHead := dyn s @ [n], reports := reports (chan s) @ [(CM_TRANS_CHANNEL_STATE_ACTIVATED, [dyn_chan n])]\<rparr>"
  have act: "CM_ActivateDynamicTransChannel (sub e 2) l ?p (chan s) = (Some n, c)"
    using activate_ok [OF _ assms(10), of "sub e 2" ?p] E uc change_cbk_ok [of "sub (sub e 2) 1"] rd(4) by (simp add: n_def c_def)
  obtain b' where b': "send_response (sub e 3) l TC_CONNECT_RSP i [er_srcTcid req, t, 0, 0] (sig s) = (CM_SUCCESS, (sig s)\<lparr>sig_out := sig_out (sig s) @ [(l, b')]\<rparr>)"
    "buff_ok b'" "buff_data b' = [TC_CONNECT_RSP, i] @ ENCODE2BYTE_LITTLE (of_nat 4) @ [er_srcTcid req, t, 0, 0]"
    using send_response_ok [of "sub e 3" "sig s" l TC_CONNECT_RSP i "[er_srcTcid req, t, 0, 0]"] assms(2) rd(3) by auto
  have ck: "CM_DynTransChannelMtuCheck (cfg_mtu (dc_config p))" "CM_DynTransChannelEstablishedCheck (sub e 1) s"
    using assms(8) P(5) env_goodD [of "sub e 1"] assms(2) by (auto simp: CM_DynTransChannelMtuCheck_def CM_DynTransChannelEstablishedCheck_def)
  define s1 where "s1 = CM_DynTransChanStatusIndicationCbk n True CM_DYN_TRANS_CHAN_STATUS_INDICATION_NORMAL
      (s\<lparr>g_cmDynTransPoolListHead := ps, chan := c, sig := (sig s)\<lparr>sig_out := sig_out (sig s) @ [(l, b')]\<rparr>\<rparr>)"
  have "CM_DynTransChanPassiveEstablishedReqHandler e CM_TRANS_CHANNEL_STATE_INIT p CM_TRANS_CHANNEL_STATE_ACTIVATED s = (CM_SUCCESS, s1)"
    using ck P assms(11,12) act b'(1)
    by (simp add: CM_DynTransChanPassiveEstablishedReqHandler_def tcid_alloc_def CM_SignalingTransChanEstablishRspSend_def s1_def)
  then have "CM_DynTransChannelEstablishReqCbk e l i req s = s1"
    using dy assms(9) by (simp add: CM_DynTransChannelEstablishReqCbk_def post_event p_def Let_def)
  then have rc: "CM_RecvSignalingData e l b s = Some (s1\<lparr>sig := CM_SignalingCacheRemove i TC_CONNECT_REQ (sig s1)\<rparr>)"
    using recv_signaling [OF assms(3-5) handlers(3), of e l s] assms(6) rd(2) by (simp add: CM_SignalingTransChanEstablishReqProc_def)
  have sg: "sig s1 = (sig s)\<lparr>sig_out := sig_out (sig s) @ [(l, b')]\<rparr>" "chan s1 = c" "pools s1 = ps"
    by (auto simp: s1_def CM_DynTransChanStatusIndicationCbk_def split: option.splits)
  have "sig_out (CM_SignalingCacheRemove i TC_CONNECT_REQ (sig s1)) = sig_out (sig s) @ [(l, b')]"
    by (auto simp: CM_SignalingCacheRemove_def sg(1) split: option.splits)
  moreover have "view s1 = (view s)((l, t) \<mapsto> (nd_state n, nd_remote n))"
    using inv_add [OF rd(1) _ assms(12), of l 0 s1 n] assms(11) by (simp add: sg c_def n_def node_of_def)
  moreover have "dyn_chan n = \<lparr>tp_castMode = 0, tp_lcid = l, tp_srcTcid = t, tp_dstTcid = er_srcTcid req, config = er_config req\<rparr>"
    by (simp add: dyn_chan_def n_def node_of_def P)
  ultimately show ?thesis using rc b'(2,3) P by (intro exI conjI) (auto simp: sg c_def n_def node_of_def)
qed

text \<open>The requesting side when the answer arrives: the channel is active, the request no longer waits.\<close>

lemma find_local_new:
  "uc_tcid t \<Longrightarrow> (l, t) \<notin> set (keys (g_dynTransListHead c)) \<Longrightarrow> nd_lcid n = l \<Longrightarrow> nd_local n = t \<Longrightarrow>
     CM_FindTransChannelByLocalTcid l t (c\<lparr>node_next := k, g_dynTransListHead := g_dynTransListHead c @ [n]\<rparr>) = Some n"
proof -
  assume a: "uc_tcid t" "(l, t) \<notin> set (keys (g_dynTransListHead c))" "nd_lcid n = l" "nd_local n = t"
  have "\<not> CM_TRANS_CHANNEL_IS_FIXED t" using a(1) by (auto simp: CM_TRANS_CHANNEL_IS_FIXED_def uc_tcid_def word_le_nat_alt)
  moreover have "find (\<lambda>n. nd_lcid n = l \<and> nd_local n = t) (ns @ [n]) = Some n" if "(l, t) \<notin> set (keys ns)" for ns
    using that a(3,4) by (induction ns) (auto simp: keys_def)
  ultimately show ?thesis using a(2) by (simp add: CM_FindTransChannelByLocalTcid_def)
qed

lemma complete:
  assumes "dyn_inv s" "g_signalingTransChanCbks s" "g_transChannelCbk (chan s)" "env_good e" "buff_ok b"
    "buff_data b = [TC_CONNECT_RSP, i] @ ENCODE2BYTE_LITTLE (of_nat 4) @ [t, r, 0, 0]" "uc_tcid t" "uc_tcid r"
    "CM_FindTransChannelByLocalTcid l t (chan s) = Some n" "nd_state n = CM_TRANS_CHANNEL_STATE_ACTIVATING"
    "map_option tl_config (nd_params n) = Some cfg" "map_option tl_castMode (nd_params n) = Some 0"
    "g_cachedSignalings (sig s) = Some ((i, c) # m)" "cs_code c = TC_CONNECT_REQ"
  shows "\<exists>s1. CM_RecvSignalingData e l b s = Some s1 \<and> view s1 = (view s)((l, t) \<mapsto> (CM_TRANS_CHANNEL_STATE_ACTIVATED, r))
    \<and> g_cachedSignalings (sig s1) = Some m
    \<and> reports (chan s1) = reports (chan s) @ [(CM_TRANS_CHANNEL_STATE_ACTIVATED,
        [\<lparr>tp_castMode = 0, tp_lcid = l, tp_srcTcid = t, tp_dstTcid = r, config = cfg\<rparr>])]"
proof -
  have dy: "CM_TRANS_CHANNEL_IS_DYNAMIC t" "CM_TRANS_CHANNEL_IS_DYNAMIC r"
    using assms(7,8) by (auto simp: uc_tcid_def CM_TRANS_CHANNEL_IS_DYNAMIC_def word_le_nat_alt)
  note N = find_local [OF dy(1) assms(9)] and E = env_goodD [OF assms(4)]
  define n1 where "n1 = n\<lparr>nd_state := CM_TRANS_CHANNEL_STATE_ACTIVATED, nd_remote := r\<rparr>"
  define s1 where "s1 = CM_DynTransChanEstablishRspCbk n1 CM_DYN_TRANS_CHAN_ESTABLISH_SUCCESS
     (s\<lparr>chan := (node_upd (nd_addr n) (\<lambda>_. n1) (chan s))\<lparr>reports := reports (chan s) @ [(CM_TRANS_CHANNEL_STATE_ACTIVATED, [dyn_chan n1])]\<rparr>\<rparr>)"
  have "CM_DynTransChannelEstablishRspCbk e l \<lparr>es_srcTcid = t, es_dstTcid = r, es_result = 0\<rparr> s = s1"
    using dy assms(3,9,10) E
    by (simp add: CM_DynTransChannelEstablishRspCbk_def post_event post_event(2) [unfolded One_nat_def] Let_def CM_DynTransChanActiveEstablishedRspHandler_def
        CM_DynamicTransChannelSetTcidAndChangeCbk_def change_cbk_ok s1_def n1_def node_upd_def)
  then have rc: "CM_RecvSignalingData e l b s = Some (s1\<lparr>sig := CM_SignalingCacheRemove i TC_CONNECT_RSP (sig s1)\<rparr>)"
    using recv_signaling [OF assms(5) _ _ handlers(4), of i "[t, r, 0, 0]" e l s] assms(2,6) by (simp add: CM_SignalingTransChanEstablishRspProc_def rd8_def)
  have sg: "sig s1 = sig s" "chan s1 = (node_upd (nd_addr n) (\<lambda>_. n1) (chan s))\<lparr>reports := reports (chan s) @ [(CM_TRANS_CHANNEL_STATE_ACTIVATED, [dyn_chan n1])]\<rparr>"
    "pools s1 = pools s"
    by (auto simp: s1_def CM_DynTransChanEstablishRspCbk_def split: option.splits)
  have "view s1 = (view s)((l, t) \<mapsto> (2, r))" using inv_upd [OF assms(1), of n s1 "\<lambda>_. n1"] N by (simp add: sg n1_def)
  moreover have "dyn_chan n1 = \<lparr>tp_castMode = 0, tp_lcid = l, tp_srcTcid = t, tp_dstTcid = r, config = cfg\<rparr>"
    using assms(11,12) N by (auto simp: dyn_chan_def n1_def)
  moreover have "g_cachedSignalings (CM_SignalingCacheRemove i TC_CONNECT_RSP (sig s1)) = Some m"
    using assms(13,14) by (simp add: CM_SignalingCacheRemove_def sg(1))
  ultimately show ?thesis using rc by (intro exI conjI) (auto simp: sg)
qed

end
