(* ===== verification/Cm_Props.thy ===== *)
theory Cm_Props
  imports Cm_Handshake
begin

text \<open>
  The properties of the connection management: what the requests, the messages and the timers of two sides
  achieve, what holds in every reachable state, and where the code departs from what it means to do.
\<close>

section \<open>A module in operation\<close>

text \<open>The state after registration and after a link to the device \<open>a\<close> with the handle \<open>l\<close> has come up.\<close>

definition cm_blank :: cm_state where
  "cm_blank = \<lparr>chan = \<lparr>g_deviceLinkListHead = [], g_fixedTransListHead = [], g_dynTransListHead = [], node_next = 0, g_transChannelCbk = True, reports = []\<rparr>,
     sig = \<lparr>g_identifier = 0, g_cachedSignalings = Some [], g_sendFunc = True, sig_out = []\<rparr>, g_cmDynTransPoolListHead = [], g_cmDynTcidIsInited = False,
     g_channelCbks = \<lparr>establishRspCbk = False, releaseRspCbk = False, statusIndicationCbk = False, establishedCheckCbk = False\<rparr>,
     g_signalingTransChanCbks = False, g_cmIsRegistered = False, g_publicAddress = [1, 2, 3, 4, 5, 6], upper_log = []\<rparr>"

definition all_cbks :: dyn_cbks where
  "all_cbks = \<lparr>establishRspCbk = True, releaseRspCbk = True, statusIndicationCbk = True, establishedCheckCbk = False\<rparr>"

definition cm_registered :: cm_state where
  "cm_registered = snd (CM_RegDynTransChannelCbks (granting_env True) (Some all_cbks) cm_blank)"

definition peer_addr :: "u8 \<Rightarrow> SLE_Addr" where
  "peer_addr k = \<lparr>sa_type = 0, sa_addr = [k, 0, 0, 0, 0, 0]\<rparr>"

definition cm_linked :: "u16 \<Rightarrow> u8 \<Rightarrow> cm_state" where
  "cm_linked l k = CM_DynTransLogicLinkCbk (granting_env True) CM_LINK_STATE_CONNECTED l
     (cm_registered\<lparr>chan := (chan cm_registered)\<lparr>g_deviceLinkListHead := [(new_link (peer_addr k))\<lparr>ll_lcid := l, ll_companyId := 9\<rparr>]\<rparr>\<rparr>)"

lemma reg_inv:
  assumes "CM_RegDynTransChannelCbks e cbks s0 = (CM_SUCCESS, s)" "dyn s0 = []" "\<not> g_cmDynTcidIsInited s0"
  shows "dyn_inv s"
  using assms by (auto simp: CM_RegDynTransChannelCbks_def CM_DynTransChannStateMgrRegCbks_def CM_DynTcidInit_def Let_def dyn_inv_def keys_def
      nodes_ok_def tcid.held_def pools_ok_def split: option.splits if_splits)

lemma registered_ok: "CM_RegDynTransChannelCbks (granting_env True) (Some all_cbks) cm_blank = (CM_SUCCESS, cm_registered)"
  by (simp add: cm_registered_def CM_RegDynTransChannelCbks_def all_cbks_def call_dli_def Let_def cm_blank_def)

lemma linked_unfold:
  "cm_linked l k = \<lparr>chan = \<lparr>g_deviceLinkListHead = [(new_link (peer_addr k))\<lparr>ll_lcid := l, ll_companyId := 9\<rparr>], g_fixedTransListHead = [], g_dynTransListHead = [],
       node_next = 0, g_transChannelCbk = True, reports = []\<rparr>,
     sig = \<lparr>g_identifier = 0, g_cachedSignalings = Some [], g_sendFunc = True, sig_out = []\<rparr>,
     g_cmDynTransPoolListHead = [\<lparr>pool_lcid = l, unicastTcidUsed = replicate 96 False\<rparr>], g_cmDynTcidIsInited = True,
     g_channelCbks = all_cbks, g_signalingTransChanCbks = True, g_cmIsRegistered = True, g_publicAddress = [1, 2, 3, 4, 5, 6], upper_log = []\<rparr>"
  using alloc_okD [OF alloc_ok_granting [of True]]
  by (auto simp: cm_linked_def cm_registered_def CM_RegDynTransChannelCbks_def all_cbks_def call_dli_def Let_def CM_DynTransChannStateMgrRegCbks_def
      CM_DynTcidInit_def cm_blank_def CM_DynTransLogicLinkCbk_def CM_DynTcidActivatePool_def CM_DynTransGetTcidPool_def)

lemma linked_inv: "dyn_inv (cm_linked l k)"
  by (simp add: linked_unfold dyn_inv_def keys_def nodes_ok_def tcid.held_def pools_ok_def)

lemma linked_ready: "ready (cm_linked l k) []"
  using linked_inv [of l k] by (simp add: ready_def linked_unfold)

lemma linked_alloc: "CM_DynTcidAllocate l 0 (pools (cm_linked l k)) = (0x80, [\<lparr>pool_lcid = l, unicastTcidUsed = True # replicate 95 False\<rparr>])"
proof -
  have r: "replicate 96 False = False # replicate 95 False" by (simp add: numeral_eq_Suc)
  show ?thesis
    by (simp add: linked_unfold CM_DynTcidAllocate_def CM_DynTransGetTcidPool_def CM_DynAllocateUnicastTcid_def r)
qed

lemma linked_links:
  "SleLogicLinkGetByAddr (peer_addr k) (chan (cm_linked l k)) = Some ((new_link (peer_addr k))\<lparr>ll_lcid := l, ll_companyId := 9\<rparr>)"
  "SleLogicLinkGetByLcid l (chan (cm_linked l k)) = Some ((new_link (peer_addr k))\<lparr>ll_lcid := l, ll_companyId := 9\<rparr>)"
  by (simp_all add: linked_unfold SleLogicLinkGetByAddr_def SleLogicLinkGetByLcid_def new_link_def)

definition basic_request :: "u8 \<Rightarrow> CM_DynTransChannelEstablishParamReq" where
  "basic_request k = \<lparr>eq_version = 1, eq_localIndex = 0, eq_addr = peer_addr k, eq_srcPort = 5, eq_dstPort = 6,
     eq_config = zero_config\<lparr>cfg_mtu := 512, cfg_mps := 512\<rparr>, eq_slqi = 1, eq_expectedTransportMode = 0, eq_frameType = 0\<rparr>"

lemma basic_request_ok: "request_ok (basic_request k)" "eq_addr (basic_request k) = peer_addr k"
  by (simp_all add: request_ok_def basic_request_def config_ok_def zero_config_def)

section \<open>Properties\<close>

text \<open>
  The handshake of two sides (C6). When the requesting side has a link to the peer and a free identifier,
  and the answering side a link, a free identifier and no channel under the identifier of the request, the request
  succeeds and sends one message; received by the peer it creates an active channel there and one answer; received
  by the requesting side the answer makes its channel active and ends the wait for it. Each side then knows its
  channel under its own identifier with the other's as remote identifier, and each reports it to its data plane,
  with the mode parameters of the request (as far as they travel for the mode).
\<close>

theorem channel_handshake:
  assumes "ready sA mA" "ready sB mB" "env_good eA" "env_good eB" "env_good eA'" "request_ok q"
    and "SleLogicLinkGetByAddr (eq_addr q) (chan sA) = Some ll" "CM_DynTcidAllocate (ll_lcid ll) CM_ACCESS_TRANS_MODE_UNICAST (pools sA) = (tA, psA)" "tA \<noteq> CM_TRANS_INVALID_TCID"
    and "SleLogicLinkGetByLcid lB (chan sB) = Some llB" "CM_DynTcidAllocate lB CM_ACCESS_TRANS_MODE_UNICAST (pools sB) = (tB, psB)" "tB \<noteq> CM_TRANS_INVALID_TCID"
    and "CM_FindTransChannelByRemoteTcid lB tA (chan sB) = None"
  shows "\<exists>sA1 sB1 sA2 b b'. CM_DynTransChannelEstablishReq eA (Some q) sA = (CM_SUCCESS, sA1) \<and> sig_out (sig sA1) = sig_out (sig sA) @ [(ll_lcid ll, b)]
    \<and> CM_RecvSignalingData eB lB b sB = Some sB1 \<and> sig_out (sig sB1) = sig_out (sig sB) @ [(lB, b')]
    \<and> CM_RecvSignalingData eA' (ll_lcid ll) b' sA1 = Some sA2
    \<and> view sA2 = (view sA)((ll_lcid ll, tA) \<mapsto> (CM_TRANS_CHANNEL_STATE_ACTIVATED, tB))
    \<and> view sB1 = (view sB)((lB, tB) \<mapsto> (CM_TRANS_CHANNEL_STATE_ACTIVATED, tA))
    \<and> g_cachedSignalings (sig sA2) = g_cachedSignalings (sig sA)
    \<and> reports (chan sA2) = reports (chan sA) @ [(CM_TRANS_CHANNEL_STATE_ACTIVATED,
        [\<lparr>tp_castMode = 0, tp_lcid = ll_lcid ll, tp_srcTcid = tA, tp_dstTcid = tB, config = eq_config q\<rparr>])]
    \<and> reports (chan sB1) = reports (chan sB) @ [(CM_TRANS_CHANNEL_STATE_ACTIVATED,
        [\<lparr>tp_castMode = 0, tp_lcid = lB, tp_srcTcid = tB, tp_dstTcid = tA, config = sent_config (eq_config q)\<rparr>])]"
proof -
  note inv = assms(1) [unfolded ready_def, THEN conjunct1] assms(2) [unfolded ready_def, THEN conjunct1]
  have uc: "uc_tcid tA" "uc_tcid tB" using alloc_uc [OF inv(1) assms(8,9)] alloc_uc [OF inv(2) assms(11,12)] by auto
  obtain sA1 n c b data where A: "CM_DynTransChannelEstablishReq eA (Some q) sA = (CM_SUCCESS, sA1)"
    and sA1: "sA1 = sA\<lparr>g_cmDynTransPoolListHead := psA, chan := (chan sA)\<lparr>node_next := node_next (chan sA) + 1, g_dynTransListHead := dyn sA @ [n]\<rparr>,
          sig := (sig sA)\<lparr>g_identifier := g_identifier (sig sA) + 1, g_cachedSignalings := Some ((g_identifier (sig sA), c) # mA),
                         sig_out := sig_out (sig sA) @ [(ll_lcid ll, b)]\<rparr>\<rparr>"
    and n: "nd_addr n = node_next (chan sA)" "nd_lcid n = ll_lcid ll" "nd_local n = tA" "nd_remote n = CM_TRANS_INVALID_TCID"
      "nd_state n = CM_TRANS_CHANNEL_STATE_ACTIVATING" "map_option tl_config (nd_params n) = Some (eq_config q)" "map_option tl_castMode (nd_params n) = Some 0"
    and c: "cs_code c = TC_CONNECT_REQ" "buff_ok b" "buff_data b = [TC_CONNECT_REQ, g_identifier (sig sA)] @ ENCODE2BYTE_LITTLE (of_nat (length data)) @ data"
      "length data < 65536" "CM_SignalingTransChanEstablishReqParse data = Some (Inr ((establish_req (request_param q (ll_lcid ll)) tA)\<lparr>er_config := sent_config (eq_config q)\<rparr>))"
    using initiate [OF assms(1,3,6,7,8,9)] by auto
  have req: "er_srcTcid (establish_req (request_param q (ll_lcid ll)) tA) = tA" by (simp add: establish_req_def)
  have mtu: "CM_CAP_MIN_MTU \<le> cfg_mtu (sent_config (eq_config q))" using assms(6) by (simp add: request_ok_def sent_config_def)
  obtain sB1 b' where B: "CM_RecvSignalingData eB lB b sB = Some sB1" "view sB1 = (view sB)((lB, tB) \<mapsto> (CM_TRANS_CHANNEL_STATE_ACTIVATED, tA))"
    "sig_out (sig sB1) = sig_out (sig sB) @ [(lB, b')]" "buff_ok b'"
    "buff_data b' = [TC_CONNECT_RSP, g_identifier (sig sA)] @ ENCODE2BYTE_LITTLE (of_nat 4) @ [tA, tB, 0, 0]"
    "reports (chan sB1) = reports (chan sB) @ [(CM_TRANS_CHANNEL_STATE_ACTIVATED,
        [\<lparr>tp_castMode = 0, tp_lcid = lB, tp_srcTcid = tB, tp_dstTcid = tA, config = sent_config (eq_config q)\<rparr>])]"
    using respond [OF assms(2,4) c(2,3,4,5) _ _ _ assms(10,11,12)] req mtu uc(1) assms(13) by auto
  have iA: "dyn_inv sA1 \<and> view sA (ll_lcid ll, tA) = None \<and> view sA1 = (view sA)((ll_lcid ll, tA) \<mapsto> (nd_state n, nd_remote n))"
    by (rule inv_add [OF inv(1) _ assms(9)]) (use assms(8) n in \<open>simp_all add: sA1\<close>)
  have fnd: "CM_FindTransChannelByLocalTcid (ll_lcid ll) tA (chan sA1) = Some n"
    using find_local_new [OF uc(1), of "ll_lcid ll" "chan sA" n] iA n by (simp add: sA1 chans_None)
  obtain sA2 where C: "CM_RecvSignalingData eA' (ll_lcid ll) b' sA1 = Some sA2" "view sA2 = (view sA1)((ll_lcid ll, tA) \<mapsto> (CM_TRANS_CHANNEL_STATE_ACTIVATED, tB))"
    "g_cachedSignalings (sig sA2) = Some mA" "reports (chan sA2) = reports (chan sA1) @ [(CM_TRANS_CHANNEL_STATE_ACTIVATED,
        [\<lparr>tp_castMode = 0, tp_lcid = ll_lcid ll, tp_srcTcid = tA, tp_dstTcid = tB, config = eq_config q\<rparr>])]"
    using complete [OF _ _ _ assms(5) B(4,5) uc fnd n(5-7) _ c(1), of mA] iA assms(1) by (auto simp: sA1 ready_def)
  show ?thesis using A B C iA assms(1) by (intro exI conjI) (auto simp: sA1 ready_def)
qed

theorem channel_handshake_witness:
  "\<exists>sA1 sB1 sA2 b b'. CM_DynTransChannelEstablishReq (granting_env True) (Some (basic_request 7)) (cm_linked 1 7) = (CM_SUCCESS, sA1)
    \<and> CM_RecvSignalingData (granting_env True) 4 b (cm_linked 4 8) = Some sB1 \<and> CM_RecvSignalingData (granting_env True) 1 b' sA1 = Some sA2
    \<and> view sA2 = (view (cm_linked 1 7))((1, 0x80) \<mapsto> (CM_TRANS_CHANNEL_STATE_ACTIVATED, 0x80))
    \<and> view sB1 = (view (cm_linked 4 8))((4, 0x80) \<mapsto> (CM_TRANS_CHANNEL_STATE_ACTIVATED, 0x80))"
proof -
  have f: "CM_FindTransChannelByRemoteTcid 4 0x80 (chan (cm_linked 4 8)) = None" by (simp add: linked_unfold CM_FindTransChannelByRemoteTcid_def)
  let ?ll = "(new_link (peer_addr 7))\<lparr>ll_lcid := 1, ll_companyId := 9\<rparr>" and ?llB = "(new_link (peer_addr 8))\<lparr>ll_lcid := 4, ll_companyId := 9\<rparr>"
  have l: "SleLogicLinkGetByAddr (eq_addr (basic_request 7)) (chan (cm_linked 1 7)) = Some ?ll"
    "CM_DynTcidAllocate (ll_lcid ?ll) 0 (pools (cm_linked 1 7)) = (0x80, [\<lparr>pool_lcid = 1, unicastTcidUsed = True # replicate 95 False\<rparr>])"
    using linked_links(1) [of 7 1] linked_alloc [of 1 7] by (simp_all add: basic_request_ok(2))
  show ?thesis
    using channel_handshake [OF linked_ready [of 1 7] linked_ready [of 4 8] env_good_granting env_good_granting env_good_granting basic_request_ok(1) l _
        linked_links(2) [where l = 4 and k = 8] linked_alloc [where l = 4 and k = 8] _ f]
    by auto
qed


text \<open>
  Every dynamic channel owns its identifier (C9). In every state reached from a successful registration, by any
  sequence of requests, received messages, expired timers, link changes, and registrations and unregistrations
  made while there is no channel, in which no link with channels goes down without memory for the list of its
  channels, no two channels of a link have the same local identifier, every local identifier lies in the unicast
  range and is marked as used in the pool of its link, so that no allocation can give it out a second time. The two
  exceptions are proved to break this: \<open>link_down_without_memory\<close> and \<open>unregister_keeps_channels\<close>.
\<close>

theorem channels_own_identifiers:
  assumes "CM_RegDynTransChannelCbks e0 cbks s0 = (CM_SUCCESS, s1)" "dyn s0 = []" "\<not> g_cmDynTcidIsInited s0" "cm_reach s1 s"
  shows "distinct (map (\<lambda>n. (nd_lcid n, nd_local n)) (dyn s)) \<and> (\<forall>n \<in> set (dyn s). CM_TCID_UC_BEGIN \<le> nd_local n \<and> nd_local n \<le> CM_TCID_UC_END
    \<and> (\<exists>p. CM_DynTransGetTcidPool (pools s) (nd_lcid n) = Some p \<and> unicastTcidUsed p ! (unat (nd_local n) - 128)))"
proof -
  have "dyn_inv s" by (rule reach_inv [OF assms(4) reg_inv [OF assms(1-3)]])
  then have "distinct (keys (dyn s))" "set (keys (dyn s)) \<subseteq> pools_used (pools s)" by (auto simp: dyn_inv_def tcid.held_def)
  then show ?thesis by (auto simp: keys_def pools_used_def uc_tcid_def split: option.splits)
qed

text \<open>A state with one requested channel that is reached from registration.\<close>

lemma demo_reach:
  obtains s where "cm_reach cm_registered s" "dyn s \<noteq> []" "view s = (view (cm_linked 1 7))((1, 0x80) \<mapsto> (CM_TRANS_CHANNEL_STATE_ACTIVATING, 0))"
proof -
  have "cm_reach cm_registered (cm_registered\<lparr>chan := (chan cm_registered)\<lparr>g_deviceLinkListHead := [(new_link (peer_addr 7))\<lparr>ll_lcid := 1, ll_companyId := 9\<rparr>]\<rparr>\<rparr>)"
    by (rule reach_step [where ev = "EvLinks [(new_link (peer_addr 7))\<lparr>ll_lcid := 1, ll_companyId := 9\<rparr>]", OF reach_init]) simp_all
  then have r: "cm_reach cm_registered (cm_linked 1 7)"
    by (rule reach_step [where ev = "EvLink CM_LINK_STATE_CONNECTED 1" and e = "granting_env True"]) (simp_all add: cm_linked_def)
  let ?ll = "(new_link (peer_addr 7))\<lparr>ll_lcid := 1, ll_companyId := 9\<rparr>"
  have l: "SleLogicLinkGetByAddr (eq_addr (basic_request 7)) (chan (cm_linked 1 7)) = Some ?ll"
    "CM_DynTcidAllocate (ll_lcid ?ll) 0 (pools (cm_linked 1 7)) = (0x80, [\<lparr>pool_lcid = 1, unicastTcidUsed = True # replicate 95 False\<rparr>])"
    using linked_links(1) [of 7 1] linked_alloc [of 1 7] by (simp_all add: basic_request_ok(2))
  obtain s n where s: "CM_DynTransChannelEstablishReq (granting_env True) (Some (basic_request 7)) (cm_linked 1 7) = (CM_SUCCESS, s)"
    "dyn s = dyn (cm_linked 1 7) @ [n]" "nd_lcid n = 1" "nd_local n = 0x80" "nd_remote n = 0" "nd_state n = CM_TRANS_CHANNEL_STATE_ACTIVATING"
    using initiate [OF linked_ready env_good_granting basic_request_ok(1) l] by auto
  have "cm_reach cm_registered s" by (rule reach_step [where ev = "EvEstablish (Some (basic_request 7))" and e = "granting_env True", OF r]) (simp_all add: s(1))
  then show thesis using that s chans_append [of n "dyn (cm_linked 1 7)"] by (simp add: linked_unfold keys_def)
qed

theorem channels_own_identifiers_witness:
  "\<exists>s. cm_reach cm_registered s \<and> dyn s \<noteq> [] \<and> distinct (map (\<lambda>n. (nd_lcid n, nd_local n)) (dyn s))
    \<and> (\<forall>n \<in> set (dyn s). CM_TCID_UC_BEGIN \<le> nd_local n \<and> nd_local n \<le> CM_TCID_UC_END)"
proof -
  obtain s where s: "cm_reach cm_registered s" "dyn s \<noteq> []" by (rule demo_reach)
  have "dyn cm_blank = []" "\<not> g_cmDynTcidIsInited cm_blank" by (simp_all add: cm_blank_def)
  then show ?thesis using channels_own_identifiers [OF registered_ok _ _ s(1)] s by blast
qed

text \<open>
  Refinement of the channel map (C12). Every event, in every state reached as above, other than a link with channels
  that goes down without memory for their list and a registration or unregistration while there are channels, is
  carried out without an access outside the received data and changes the abstract map of channels, from link and
  local identifier to state and remote identifier, by one step of one link: a new channel under a free identifier,
  a confirmed one, one under release or back from it, one removed, or all of a link that went down. A received
  message and a link change concern the channels of their link only.
\<close>

theorem channel_events_refine:
  assumes "CM_RegDynTransChannelCbks e0 cbks s0 = (CM_SUCCESS, s1)" "dyn s0 = []" "\<not> g_cmDynTcidIsInited s0" "cm_reach s1 s" "event_ok e ev s"
  shows "\<exists>s' l. cm_step e ev s = Some s' \<and> chan_step l (view s) (view s') \<and> (\<forall>l' b. ev = EvReceive l' b \<longrightarrow> l = l') \<and> (\<forall>r l'. ev = EvLink r l' \<longrightarrow> l = l')"
  using step_refines [OF reach_inv [OF assms(4) reg_inv [OF assms(1-3)]] assms(5)] by (auto simp: refines_def)

theorem channel_events_refine_witness:
  "\<exists>s s' l. cm_reach cm_registered s \<and> dyn s \<noteq> [] \<and> cm_step (granting_env True) (EvTimeout 0) s = Some s' \<and> chan_step l (view s) (view s')"
proof -
  obtain s where s: "cm_reach cm_registered s" "dyn s \<noteq> []" by (rule demo_reach)
  have "dyn cm_blank = []" "\<not> g_cmDynTcidIsInited cm_blank" by (simp_all add: cm_blank_def)
  then show ?thesis using channel_events_refine [OF registered_ok _ _ s(1), of "granting_env True" "EvTimeout 0"] s by auto
qed

text \<open>
  Allocation of identifiers (C29). On well-formed pools an allocation for a link gives out the lowest free
  identifier of the unicast range and marks exactly this one; it fails, and changes nothing, only if the link has
  no pool or all identifiers of the range are in use. Returning the identifier undoes the allocation, and
  returning one that is not in use fails and changes nothing.
\<close>

theorem identifier_allocation:
  assumes "pools_ok ps" "CM_DynTcidAllocate l CM_ACCESS_TRANS_MODE_UNICAST ps = (t, ps')"
  shows "if t = CM_TRANS_INVALID_TCID then ps' = ps \<and> (CM_DynTransGetTcidPool ps l = None \<or> (\<forall>t'. uc_tcid t' \<longrightarrow> (l, t') \<in> pools_used ps))
    else pools_ok ps' \<and> uc_tcid t \<and> (l, t) \<notin> pools_used ps \<and> (\<forall>t'. uc_tcid t' \<and> t' < t \<longrightarrow> (l, t') \<in> pools_used ps)
      \<and> pools_used ps' = insert (l, t) (pools_used ps)
      \<and> (\<exists>qs. CM_DynTcidRelease l t CM_ACCESS_TRANS_MODE_UNICAST ps' = (CM_SUCCESS, qs) \<and> pools_used qs = pools_used ps)
      \<and> CM_DynTcidRelease l t CM_ACCESS_TRANS_MODE_UNICAST ps = (CM_FAIL, ps)"
  using alloc_unicast_none [of ps l ps'] alloc_unicast [of ps l t ps'] assms
    release_pools [of ps' CM_ACCESS_TRANS_MODE_UNICAST l t] release_pools [of ps CM_ACCESS_TRANS_MODE_UNICAST l t]
  by (auto split: prod.splits)

theorem identifier_allocation_witness:
  "pools_ok (pools (cm_linked 1 7)) \<and> (1, 0x80) \<notin> pools_used (pools (cm_linked 1 7))
    \<and> pools_used (snd (CM_DynTcidAllocate 1 0 (pools (cm_linked 1 7)))) = insert (1, 0x80) (pools_used (pools (cm_linked 1 7)))"
proof -
  have "pools_ok (pools (cm_linked 1 7))" using linked_inv [of 1 7] by (simp add: dyn_inv_def tcid.held_def)
  then show ?thesis using identifier_allocation [OF _ linked_alloc [of 1 7]] linked_alloc [of 1 7] by simp
qed

section \<open>The capability exchange\<close>

lemma get_link_upd:
  assumes "\<And>n. ll_lcid (f n) = ll_lcid n"
  shows "SleLogicLinkGetByLcid l (link_upd l f c) = map_option f (SleLogicLinkGetByLcid l c)"
proof -
  have "find (\<lambda>n. ll_lcid n = l) (link_store l f ns) = map_option f (find (\<lambda>n. ll_lcid n = l) ns)" for ns
    using assms by (induction ns) auto
  then show ?thesis by (simp add: SleLogicLinkGetByLcid_def link_upd_def)
qed

text \<open>What the answer of a peer with all its capabilities makes of a link.\<close>

definition exchanged :: "SleLogicLink \<Rightarrow> SleLogicLink" where
  "exchanged n = n\<lparr>ll_protocolVersion := 0x0101, ll_supportTransMode := 3, ll_rxWnd := 200, ll_mtu := 4096,
     ll_devType := (if ll_devType n \<ge> CM_DEVTYPE_OLD then ll_devType n else if own_company (ll_companyId n) then CM_DEVTYPE_NEW else CM_DEVTYPE_THIRD_PARTY)\<rparr>"

definition all_caps :: u32 where
  "all_caps = cap_bit CM_SIGNAL_RELAY_CAPABILITY OR cap_bit CM_SIGNAL_TRANS_MODE OR cap_bit CM_SIGNAL_MEASURE_CAPABILITY
       OR cap_bit CM_SIGNAL_ACCESS_SLB OR cap_bit CM_SIGNAL_ACCESS_SLE OR cap_bit CM_SIGNAL_VERSION OR cap_bit CM_SIGNAL_MPS OR cap_bit CM_SIGNAL_MTU
       OR cap_bit CM_SIGNAL_WND"

lemma all_caps_value:
  "cv_transMode (cap_value all_caps a) = 3" "cv_mtu (cap_value all_caps a) = 4096" "cv_version (cap_value all_caps a) = 0x0101" "cv_wnd (cap_value all_caps a) = 200"
  by (simp_all add: cap_value_def all_caps_def bit_or_iff bit_cap_bit)

lemma all_caps_version: "cap_bit CM_SIGNAL_VERSION AND all_caps \<noteq> 0"
  using cap_bit_and [of 7 all_caps] by (simp add: all_caps_def bit_or_iff bit_cap_bit)

lemma query_all: "CM_SleAccessLinkEstablishQuery e l s = snd (CM_SendReqSignalingCapability e l all_caps s)"
  unfolding CM_SleAccessLinkEstablishQuery_def all_caps_def ..

lemma process_rsp:
  assumes "SetCapabilityInfo data zero_value = Some (Some (len, v))" "4 \<le> length data" "SleLogicLinkGetByLcid l c = Some n"
    "cv_transMode v = 3" "cv_mtu v = 4096" "cv_version v = 0x0101" "cv_wnd v = 200"
  shows "\<exists>c'. CM_ProcessRspSignalingCapability l data c = Some (CM_SUCCESS, c') \<and> SleLogicLinkGetByLcid l c' = Some (exchanged n)"
proof -
  have bits: "(get_field 0 1 (3 :: u16) AND 1) OR push_bit 1 (get_field 1 1 (3 :: u16) AND 1) OR push_bit 2 (get_field 2 1 (3 :: u16) AND 1) = 3"
    by (simp add: get_field_def)
  have p: "CM_ProcessRspSignalingCapability l data c = Some (CM_SUCCESS, CM_SetLinkMtu l 4096 (CM_SetLinkRxWindow l 200 (CM_SetLinkTransMode l 3
      (CM_SetDeviceLinkDeviceType l True (CM_SetLinkProtocolVersion l 0x0101 c)))))"
    using assms by (simp add: CM_ProcessRspSignalingCapability_def Let_def)
  have v: "SleLogicLinkGetByLcid l (CM_SetLinkProtocolVersion l 0x0101 c) = Some (n\<lparr>ll_protocolVersion := 0x0101\<rparr>)"
    using assms(3) by (simp add: CM_SetLinkProtocolVersion_def get_link_upd)
  obtain dt where dt: "SleLogicLinkGetByLcid l (CM_SetDeviceLinkDeviceType l True (CM_SetLinkProtocolVersion l 0x0101 c)) = Some (n\<lparr>ll_protocolVersion := 0x0101, ll_devType := dt\<rparr>)"
    "dt = (if ll_devType n \<ge> CM_DEVTYPE_OLD then ll_devType n else if own_company (ll_companyId n) then CM_DEVTYPE_NEW else CM_DEVTYPE_THIRD_PARTY)"
    using v by (auto simp: CM_SetDeviceLinkDeviceType_def get_link_upd)
  show ?thesis
    using p dt bits by (simp add: CM_SetLinkTransMode_def CM_SetLinkRxWindow_def CM_SetLinkMtu_def get_link_upd exchanged_def)
qed

text \<open>
  The capability exchange of two sides (C28). When a link comes up, the side that is told sends one query; the
  peer answers it with one message, whatever else its state; and the answer sets, on the link it arrives on, the
  protocol version, the supported modes, the window and the largest unit the peer has, and settles what kind of
  device the peer is.
\<close>

theorem capability_exchange:
  assumes "g_sendFunc (sig sA)" "g_sendFunc (sig sB)" "length (g_publicAddress sB) = 6" "env_good eA" "env_good eB"
    and "SleLogicLinkGetByLcid l (chan sA) = Some n"
  shows "\<exists>b sB1 b' sA2. sig_out (sig (CM_SignalingLogicLinkCbk eA CM_LINK_STATE_CONNECTED l sA)) = sig_out (sig sA) @ [(l, b)]
    \<and> CM_RecvSignalingData eB lB b sB = Some sB1 \<and> sig_out (sig sB1) = sig_out (sig sB) @ [(lB, b')]
    \<and> CM_RecvSignalingData eA' l b' (CM_SignalingLogicLinkCbk eA CM_LINK_STATE_CONNECTED l sA) = Some sA2
    \<and> SleLogicLinkGetByLcid l (chan sA2) = Some (exchanged n)"
proof -
  let ?sA1 = "CM_SignalingLogicLinkCbk eA CM_LINK_STATE_CONNECTED l sA"
  obtain b where b: "CM_CreateSignalingBuff (sub eA 0) CAPABILITY_REQ (g_identifier (sig sA)) (ENCODE4BYTE_LITTLE all_caps) = Some b"
    using create_signaling_Some [of "sub eA 0" CAPABILITY_REQ "g_identifier (sig sA)" "ENCODE4BYTE_LITTLE all_caps"] env_goodD [OF assms(4)] by auto
  note B = create_signaling_ok [OF b]
  have A: "sig_out (sig ?sA1) = sig_out (sig sA) @ [(l, b)]" "chan ?sA1 = chan sA"
    using b assms(1) env_goodD [of "sub eA 1"] assms(4)
    by (simp_all add: CM_SignalingLogicLinkCbk_def query_all CM_SendReqSignalingCapability_def CM_GetIdentifier_def CM_SendBuffToDtap_def)
  obtain bs where bs: "GetCapabilityInfo (Some (g_publicAddress sB)) all_caps 100 = Some bs"
    "SetCapabilityInfo bs zero_value = Some (Some (length bs, cap_value all_caps (g_publicAddress sB)))" "4 \<le> length bs" "length bs \<le> 25"
    using cap_exchange [OF assms(3), of all_caps] by auto
  obtain b' where b': "CM_CreateSignalingBuff (sub eB 0) CAPABILITY_RSP (g_identifier (sig sA)) bs = Some b'"
    using create_signaling_Some [of "sub eB 0" CAPABILITY_RSP "g_identifier (sig sA)" bs] env_goodD [OF assms(5)] by auto
  note B' = create_signaling_ok [OF b']
  have rq: "\<exists>c. cap_req_proc eB lB (g_identifier (sig sA)) (ENCODE4BYTE_LITTLE all_caps) sB = Some (sB\<lparr>chan := c, sig := (sig sB)\<lparr>sig_out := sig_out (sig sB) @ [(lB, b')]\<rparr>\<rparr>)"
    using bs(1) b' assms(2,5) env_goodD [of "sub eB 1"] decode_encode_4 [of all_caps] all_caps_version
    by (auto simp: cap_req_proc_def CM_ProcessReqSignalingCapability_def ENCODE4BYTE_LITTLE_def rd8_def Let_def CM_SendBuffToDtap_def)
  then obtain c where "CM_RecvSignalingData eB lB b sB = Some (sB\<lparr>chan := c, sig := CM_SignalingCacheRemove (g_identifier (sig sA)) CAPABILITY_REQ
      ((sig sB)\<lparr>sig_out := sig_out (sig sB) @ [(lB, b')]\<rparr>)\<rparr>)"
    using recv_signaling [OF _ _ _ handlers(1), of b "g_identifier (sig sA)" "ENCODE4BYTE_LITTLE all_caps" eB lB sB] B by auto
  moreover have "sig_out (CM_SignalingCacheRemove i code sg) = sig_out sg" for i code sg by (auto simp: CM_SignalingCacheRemove_def split: option.splits)
  moreover obtain c' where c': "CM_ProcessRspSignalingCapability l bs (chan sA) = Some (CM_SUCCESS, c')" "SleLogicLinkGetByLcid l c' = Some (exchanged n)"
    using process_rsp [OF bs(2,3) assms(6)] all_caps_value by auto
  have "cap_rsp_proc eA' l (g_identifier (sig sA)) bs ?sA1 = Some (?sA1\<lparr>chan := c'\<rparr>)" by (simp add: cap_rsp_proc_def A(2) c')
  then have "CM_RecvSignalingData eA' l b' ?sA1 = Some (?sA1\<lparr>chan := c', sig := CM_SignalingCacheRemove (g_identifier (sig sA)) CAPABILITY_RSP (sig ?sA1)\<rparr>)"
    using recv_signaling [OF _ _ _ handlers(2), of b' "g_identifier (sig sA)" bs eA' l ?sA1] B' bs(4) by auto
  ultimately show ?thesis using A c'(2) by (intro exI conjI) auto
qed

theorem capability_exchange_witness:
  "\<exists>b sB1 b' sA2. CM_RecvSignalingData (granting_env True) 4 b (cm_linked 4 8) = Some sB1
    \<and> CM_RecvSignalingData (granting_env True) 1 b' (CM_SignalingLogicLinkCbk (granting_env True) CM_LINK_STATE_CONNECTED 1 (cm_linked 1 7)) = Some sA2
    \<and> SleLogicLinkGetByLcid 1 (chan sA2) = Some (exchanged ((new_link (peer_addr 7))\<lparr>ll_lcid := 1, ll_companyId := 9\<rparr>))"
proof -
  have "g_sendFunc (sig (cm_linked 1 7))" "g_sendFunc (sig (cm_linked 4 8))" "length (g_publicAddress (cm_linked 4 8)) = 6" by (simp_all add: linked_unfold)
  then show ?thesis
    using capability_exchange [OF _ _ _ env_good_granting env_good_granting linked_links(2) [where l = 1 and k = 7], of "cm_linked 4 8" 4 "granting_env True"] by auto
qed

end
