(* ===== verification/Cm_Failures.thy ===== *)
theory Cm_Failures
  imports Cm_Props
begin

text \<open>
  Failures of the connection management: what a refused message leaves behind, which messages the handlers
  accept although nothing waits for them, and which identifiers are lost. Each statement is about the code as it
  is and shows a departure from what it means to do.
\<close>

section \<open>A refused request\<close>

text \<open>Memory and timers are available, the data plane refuses every message.\<close>

definition env_refusing :: "cm_env \<Rightarrow> bool" where
  "env_refusing e \<longleftrightarrow> alloc_ok e \<and> (\<forall>p. env_timer e p \<noteq> None) \<and> (\<forall>p. \<not> env_dli e p)"

lemma env_refusing_sub [simp]: "env_refusing (sub e k) = env_refusing e"
  by (simp add: env_refusing_def)

lemma env_refusingD: "env_refusing e \<Longrightarrow> alloc_ok e \<and> \<not> call_dli e \<and> (\<exists>t. CP_TimerAdd e = Some t) \<and> (\<exists>a. SDF_MemZalloc e = Some a)"
  by (auto simp: env_refusing_def call_dli_def CP_TimerAdd_def alloc_okD)

text \<open>The removal after the failed send looks for a request whose answer the request itself would be.\<close>

lemma send_request_refused:
  assumes "env_refusing e" "g_sendFunc s" "g_cachedSignalings s = Some m" "SDF_MapFind m (g_identifier s) = None"
  shows "\<exists>t. send_request e l code args cbk data s = (CM_DTAP_ERR, s\<lparr>g_identifier := g_identifier s + 1,
      g_cachedSignalings := Some ((g_identifier s, \<lparr>cs_lcid = l, cs_id = g_identifier s, cs_code = code, cs_args = args, cs_timer = t, cs_cbk = cbk\<rparr>) # m)\<rparr>)"
proof -
  obtain b where b: "CM_CreateSignalingBuff (sub e 2) code (g_identifier s) data = Some b"
    using create_signaling_Some [of "sub e 2" code "g_identifier s" data] env_refusingD [OF assms(1)] by auto
  obtain tm where tm: "CP_TimerAdd (sub (sub e 1) 1) = Some tm" using env_refusingD [of "sub (sub e 1) 1"] assms(1) by auto
  show ?thesis
    using b tm assms env_refusingD [of "sub e 0"] env_refusingD [of "sub e 3"] env_refusingD [of "sub (sub e 1) 0"] env_refusingD [of "sub (sub e 1) 2"]
    by (intro exI [of _ tm])
      (auto simp: send_request_def CM_GetIdentifier_def CM_SignalingCacheInsert_def SDF_MapMoveInsert_def CM_SendBuffToDtap_def CM_SignalingCacheRemove_def)
qed

lemma initiate_refused:
  assumes "ready s m" "env_refusing e" "request_ok q" "SleLogicLinkGetByAddr (eq_addr q) (chan s) = Some ll"
    "CM_DynTcidAllocate (ll_lcid ll) CM_ACCESS_TRANS_MODE_UNICAST (pools s) = (t, ps)" "t \<noteq> CM_TRANS_INVALID_TCID"
  shows "\<exists>s1 r c. CM_DynTransChannelEstablishReq e (Some q) s = (CM_FAIL, s1)
    \<and> s1 = s\<lparr>g_cmDynTransPoolListHead := snd (CM_DynTcidRelease (ll_lcid ll) t CM_ACCESS_TRANS_MODE_UNICAST ps),
          chan := (chan s)\<lparr>node_next := node_next (chan s) + 1, reports := r\<rparr>,
          sig := (sig s)\<lparr>g_identifier := g_identifier (sig s) + 1, g_cachedSignalings := Some ((g_identifier (sig s), c) # m)\<rparr>\<rparr>
    \<and> cs_args c = \<lparr>ta_lcid = ll_lcid ll, ta_srcTcid = t, ta_dstTcid = 0\<rparr> \<and> cs_cbk c = CM_SignalingTransChanEstablishReqTimeout"
proof -
  let ?p = "request_param q (ll_lcid ll)"
  let ?q = "?p\<lparr>dc_localTcid := t, dc_remoteTcid := CM_TRANS_INVALID_TCID, dc_state := CM_TRANS_CHANNEL_STATE_ACTIVATING\<rparr>"
  note inv = assms(1) [unfolded ready_def, THEN conjunct1] and E = env_refusingD [OF assms(2)]
  have uc: "uc_tcid t" by (rule alloc_uc [OF inv assms(5,6)])
  obtain sll where sll: "SleLogicLinkGetByLcid (ll_lcid ll) (chan s) = Some sll" using link_by_addr [OF assms(4)] by auto
  define n where "n = node_of (ll_lcid ll) ?q (ll_rmtAddr sll) (node_next (chan s))"
  have act: "CM_ActivateDynamicTransChannel (sub e 0) (ll_lcid ll) ?q (chan s) = (Some n, (chan s)\<lparr>node_next := node_next (chan s) + 1, g_dynTransListHead := dyn s @ [n]\<rparr>)"
    using activate_ok [OF _ sll, of "sub e 0" ?q] E uc by (simp add: n_def)
  obtain data where data: "CM_SignalingTransChanEstablishReqPack (sub (sub e 1) 0) (establish_req ?p t) = Some data"
    by (rule establish_pack_ok [of "sub (sub e 1) 0" "eq_config q" "establish_req ?p t"]) (use E assms(3) in \<open>auto simp: request_ok_def establish_req_def request_param_def\<close>)
  obtain tm where b: "send_request (sub (sub e 1) 1) (ll_lcid ll) TC_CONNECT_REQ \<lparr>ta_lcid = ll_lcid ll, ta_srcTcid = t, ta_dstTcid = 0\<rparr>
      CM_SignalingTransChanEstablishReqTimeout data (sig s) = (CM_DTAP_ERR, (sig s)\<lparr>g_identifier := g_identifier (sig s) + 1,
      g_cachedSignalings := Some ((g_identifier (sig s), \<lparr>cs_lcid = ll_lcid ll, cs_id = g_identifier (sig s), cs_code = TC_CONNECT_REQ,
        cs_args = \<lparr>ta_lcid = ll_lcid ll, ta_srcTcid = t, ta_dstTcid = 0\<rparr>, cs_timer = tm, cs_cbk = CM_SignalingTransChanEstablishReqTimeout\<rparr>) # m)\<rparr>)"
    using send_request_refused [of "sub (sub e 1) 1" "sig s" m "ll_lcid ll" TC_CONNECT_REQ "\<lparr>ta_lcid = ll_lcid ll, ta_srcTcid = t, ta_dstTcid = 0\<rparr>"
      CM_SignalingTransChanEstablishReqTimeout data] assms(1,2) by (auto simp: ready_def)
  have f: "filter (\<lambda>m. nd_addr m \<noteq> nd_addr n) (dyn s @ [n]) = dyn s" by (rule filter_new [OF inv]) (simp add: n_def node_of_def)
  have "\<exists>r. CM_ReleaseDynamicTransChannelByLocalTcid (sub e 2) n ((chan s)\<lparr>node_next := node_next (chan s) + 1, g_dynTransListHead := dyn s @ [n]\<rparr>)
      = (chan s)\<lparr>node_next := node_next (chan s) + 1, reports := r\<rparr>"
    using f E assms(1) by (auto simp: ready_def CM_ReleaseDynamicTransChannelByLocalTcid_def CM_DynTransChannelFreeListNode_def CM_TransChannelDestroyOneNode_def change_cbk_ok Let_def)
  then obtain r where r: "CM_ReleaseDynamicTransChannelByLocalTcid (sub e 2) n ((chan s)\<lparr>node_next := node_next (chan s) + 1, g_dynTransListHead := dyn s @ [n]\<rparr>)
      = (chan s)\<lparr>node_next := node_next (chan s) + 1, reports := r\<rparr>" ..
  have "CM_DynTransChannelEstablishReq e (Some q) s = (CM_FAIL, snd (tcid_release (ll_lcid ll) t CM_ACCESS_TRANS_MODE_UNICAST
      (chan_upd (CM_ReleaseDynamicTransChannelByLocalTcid (sub e 2) n) (s\<lparr>g_cmDynTransPoolListHead := ps,
      chan := (chan s)\<lparr>node_next := node_next (chan s) + 1, g_dynTransListHead := dyn s @ [n]\<rparr>,
      sig := snd (send_request (sub (sub e 1) 1) (ll_lcid ll) TC_CONNECT_REQ \<lparr>ta_lcid = ll_lcid ll, ta_srcTcid = t, ta_dstTcid = 0\<rparr>
      CM_SignalingTransChanEstablishReqTimeout data (sig s))\<rparr>))))"
    using assms(1,3-6) act data(1) b(1)
    by (simp add: CM_DynTransChannelEstablishReq_def ready_def request_ok_def CM_DynTransChannelCreate_def post_event tcid_alloc_def
        CM_DynTransChanActiveEstablishingReqHandler_def request_param_def CM_SignalingTransChanEstablishReqSend_def establish_req_def)
  then have F: "CM_DynTransChannelEstablishReq e (Some q) s = (CM_FAIL, s\<lparr>g_cmDynTransPoolListHead := snd (CM_DynTcidRelease (ll_lcid ll) t CM_ACCESS_TRANS_MODE_UNICAST ps),
          chan := (chan s)\<lparr>node_next := node_next (chan s) + 1, reports := r\<rparr>,
          sig := (sig s)\<lparr>g_identifier := g_identifier (sig s) + 1, g_cachedSignalings := Some ((g_identifier (sig s),
            \<lparr>cs_lcid = ll_lcid ll, cs_id = g_identifier (sig s), cs_code = TC_CONNECT_REQ,
             cs_args = \<lparr>ta_lcid = ll_lcid ll, ta_srcTcid = t, ta_dstTcid = 0\<rparr>, cs_timer = tm, cs_cbk = CM_SignalingTransChanEstablishReqTimeout\<rparr>) # m)\<rparr>\<rparr>)"
    using b r by (simp add: tcid_release_def chan_upd_def split: prod.splits)
  show ?thesis by (rule exI, rule exI [of _ r], rule exI, rule conjI, rule F, rule conjI, rule refl) simp
qed

lemma alloc_again:
  assumes "pools_ok ps0" "CM_DynTcidAllocate l CM_ACCESS_TRANS_MODE_UNICAST ps0 = (t, ps)" "t \<noteq> CM_TRANS_INVALID_TCID"
  shows "\<exists>qs. CM_DynTcidAllocate l CM_ACCESS_TRANS_MODE_UNICAST (snd (CM_DynTcidRelease l t CM_ACCESS_TRANS_MODE_UNICAST ps)) = (t, qs)"
proof -
  let ?ps = "snd (CM_DynTcidRelease l t CM_ACCESS_TRANS_MODE_UNICAST ps)"
  note a = alloc_unicast [OF assms]
  have u: "pools_ok ?ps" "pools_used ?ps = pools_used ps0" using release_pools [of ps CM_ACCESS_TRANS_MODE_UNICAST l t] a by (auto split: prod.splits)
  obtain t' qs where al: "CM_DynTcidAllocate l CM_ACCESS_TRANS_MODE_UNICAST ?ps = (t', qs)" by fastforce
  have "CM_DynTransGetTcidPool ps0 l \<noteq> None" using assms(2,3) by (auto simp: CM_DynTcidAllocate_def split: option.splits)
  then have "CM_DynTransGetTcidPool ps l \<noteq> None" using a by (fastforce simp: pools_used_def split: option.splits)
  then have ex: "CM_DynTransGetTcidPool ?ps l \<noteq> None"
    by (auto simp: CM_DynTcidRelease_def CM_DynReturnAllocatedUnicastTcid_def get_pool_upd get_pool_Some split: option.splits dest!: get_pool_Some)
  then have "t' \<noteq> CM_TRANS_INVALID_TCID" using alloc_unicast_none [OF u(1), of l qs] al a u(2) by auto
  then have "uc_tcid t'" "(l, t') \<notin> pools_used ps0" "\<not> t < t'" "\<not> t' < t" using alloc_unicast [OF u(1) al] a u(2) by auto
  then show ?thesis using al by (auto simp: not_less)
qed


lemma timeout_view:
  assumes "dyn_inv s" "g_signalingTransChanCbks s" "uc_tcid t" "CM_FindTransChannelByLocalTcid l t (chan s) = Some n" "nd_state n = CM_TRANS_CHANNEL_STATE_ACTIVATING"
    "g_cachedSignalings (sig s) = Some m" "SDF_MapFind m i = Some c" "cs_args c = \<lparr>ta_lcid = l, ta_srcTcid = t, ta_dstTcid = 0\<rparr>"
    "cs_cbk c = CM_SignalingTransChanEstablishReqTimeout"
  shows "view (CM_SignalingTimeoutCbkInner e i s) = (view s)((l, t) := None)"
proof -
  have dy: "CM_TRANS_CHANNEL_IS_DYNAMIC t" using assms(3) by (auto simp: uc_tcid_def CM_TRANS_CHANNEL_IS_DYNAMIC_def word_le_nat_alt)
  note N = find_local [OF dy assms(4)] and d = dyn_inv_dist [OF assms(1)]
  have "dyn (CM_SignalingTimeoutCbkInner e i s) = filter (\<lambda>m. nd_addr m \<noteq> nd_addr n) (dyn s)"
    using assms dy
    by (simp add: CM_SignalingTimeoutCbkInner_def signaling_timeout_def Let_def CM_DynTransChannelEstablishRspCbk_def post_event
        CM_DynTransChanActiveEstablishingFailRspHandler_def snd_release_node)
  then show ?thesis using chans_free [of "dyn s" n] N d by auto
qed

section \<open>Properties about failures\<close>

text \<open>
  A refused request leaves its timer behind (C35). The removal of the waiting request after a failed send compares
  the codes of a request and its answer and so never finds the request. When the data plane refuses the first
  request, the channel and its identifier are released, but the request keeps waiting; a second request on the link
  then gets the same identifier, and when the timer of the first expires it closes the channel of the second.
\<close>

theorem stale_timer_closes_channel:
  assumes "ready s m" "SDF_MapFind m (g_identifier (sig s) + 1) = None" "env_refusing e" "env_good e'" "request_ok q"
    and "SleLogicLinkGetByAddr (eq_addr q) (chan s) = Some ll" "CM_DynTcidAllocate (ll_lcid ll) CM_ACCESS_TRANS_MODE_UNICAST (pools s) = (t, ps)" "t \<noteq> CM_TRANS_INVALID_TCID"
  shows "\<exists>s1 s2. CM_DynTransChannelEstablishReq e (Some q) s = (CM_FAIL, s1) \<and> view s1 = view s
    \<and> CM_DynTransChannelEstablishReq e' (Some q) s1 = (CM_SUCCESS, s2) \<and> view s2 = (view s)((ll_lcid ll, t) \<mapsto> (CM_TRANS_CHANNEL_STATE_ACTIVATING, CM_TRANS_INVALID_TCID))
    \<and> view (CM_SignalingTimeoutCbkInner e'' (g_identifier (sig s)) s2) = view s"
proof -
  note inv = assms(1) [unfolded ready_def, THEN conjunct1]
  obtain s1 r c where s1: "CM_DynTransChannelEstablishReq e (Some q) s = (CM_FAIL, s1)"
    "s1 = s\<lparr>g_cmDynTransPoolListHead := snd (CM_DynTcidRelease (ll_lcid ll) t CM_ACCESS_TRANS_MODE_UNICAST ps),
          chan := (chan s)\<lparr>node_next := node_next (chan s) + 1, reports := r\<rparr>,
          sig := (sig s)\<lparr>g_identifier := g_identifier (sig s) + 1, g_cachedSignalings := Some ((g_identifier (sig s), c) # m)\<rparr>\<rparr>"
    "cs_args c = \<lparr>ta_lcid = ll_lcid ll, ta_srcTcid = t, ta_dstTcid = 0\<rparr>" "cs_cbk c = CM_SignalingTransChanEstablishReqTimeout"
    using initiate_refused [OF assms(1,3,5-8)] by auto
  have "dyn_inv s1" using establish_req_refines [OF inv, of e "Some q"] s1(1) by (auto simp: refines_def)
  then have rd: "ready s1 ((g_identifier (sig s), c) # m)" using assms(1,2) by (auto simp: ready_def s1(2))
  obtain qs where al: "CM_DynTcidAllocate (ll_lcid ll) CM_ACCESS_TRANS_MODE_UNICAST (pools s1) = (t, qs)"
    using alloc_again [OF _ assms(7,8)] inv by (auto simp: s1(2) dyn_inv_def tcid.held_def)
  have lk: "SleLogicLinkGetByAddr (eq_addr q) (chan s1) = Some ll" using assms(6) by (simp add: s1(2) SleLogicLinkGetByAddr_def)
  obtain s2 n c2 b where s2: "CM_DynTransChannelEstablishReq e' (Some q) s1 = (CM_SUCCESS, s2)"
    "s2 = s1\<lparr>g_cmDynTransPoolListHead := qs, chan := (chan s1)\<lparr>node_next := node_next (chan s1) + 1, g_dynTransListHead := dyn s1 @ [n]\<rparr>,
          sig := (sig s1)\<lparr>g_identifier := g_identifier (sig s1) + 1, g_cachedSignalings := Some ((g_identifier (sig s1), c2) # (g_identifier (sig s), c) # m),
                         sig_out := sig_out (sig s1) @ [(ll_lcid ll, b)]\<rparr>\<rparr>"
    "nd_addr n = node_next (chan s1)" "nd_lcid n = ll_lcid ll" "nd_local n = t" "nd_remote n = CM_TRANS_INVALID_TCID" "nd_state n = CM_TRANS_CHANNEL_STATE_ACTIVATING"
    using initiate [OF rd assms(4,5) lk al assms(8)] by auto
  have uc: "uc_tcid t" by (rule alloc_uc [OF inv assms(7,8)])
  have i2: "dyn_inv s2 \<and> view s1 (ll_lcid ll, t) = None \<and> view s2 = (view s1)((ll_lcid ll, t) \<mapsto> (nd_state n, nd_remote n))"
    by (rule inv_add [OF \<open>dyn_inv s1\<close> _ assms(8)]) (use al s2 in simp_all)
  have v: "view s1 = view s" by (simp add: s1(2))
  have "CM_FindTransChannelByLocalTcid (ll_lcid ll) t (chan s2) = Some n"
    using find_local_new [OF uc, of "ll_lcid ll" "chan s1" n] i2 s2 by (simp add: chans_None)
  then have "view (CM_SignalingTimeoutCbkInner e'' (g_identifier (sig s)) s2) = (view s2)((ll_lcid ll, t) := None)"
    using timeout_view [OF conjunct1 [OF i2] _ uc, of "ll_lcid ll" n _ "g_identifier (sig s)" c e''] assms(1) s1 s2 by (auto simp: ready_def)
  then show ?thesis using s1(1) s2 i2 v by (intro exI conjI) auto
qed


definition refusing_env :: cm_env where
  "refusing_env = (granting_env True)\<lparr>env_dli := \<lambda>_. False\<rparr>"

lemma env_refusing_env: "env_refusing refusing_env"
  by (simp add: env_refusing_def refusing_env_def alloc_ok_def granting_env_def)

lemma linked_request:
  "SleLogicLinkGetByAddr (eq_addr (basic_request k)) (chan (cm_linked l k)) = Some ((new_link (peer_addr k))\<lparr>ll_lcid := l, ll_companyId := 9\<rparr>)"
  "CM_DynTcidAllocate (ll_lcid ((new_link (peer_addr k))\<lparr>ll_lcid := l, ll_companyId := 9\<rparr>)) 0 (pools (cm_linked l k))
     = (0x80, [\<lparr>pool_lcid = l, unicastTcidUsed = True # replicate 95 False\<rparr>])"
  using linked_links(1) [of k l] linked_alloc [of l k] by (simp_all add: basic_request_ok(2))

theorem stale_timer_closes_channel_witness:
  "\<exists>s1 s2. CM_DynTransChannelEstablishReq refusing_env (Some (basic_request 7)) (cm_linked 1 7) = (CM_FAIL, s1)
    \<and> CM_DynTransChannelEstablishReq (granting_env True) (Some (basic_request 7)) s1 = (CM_SUCCESS, s2)
    \<and> view s2 = (view (cm_linked 1 7))((1, 0x80) \<mapsto> (CM_TRANS_CHANNEL_STATE_ACTIVATING, 0))
    \<and> view (CM_SignalingTimeoutCbkInner (granting_env True) 0 s2) = view (cm_linked 1 7)"
proof -
  have "SDF_MapFind [] (g_identifier (sig (cm_linked 1 7)) + 1) = None" "g_identifier (sig (cm_linked 1 7)) = 0" by (simp_all add: linked_unfold)
  then show ?thesis
    using stale_timer_closes_channel [OF linked_ready [of 1 7] _ env_refusing_env env_good_granting basic_request_ok(1) linked_request [where k = 7 and l = 1], of "granting_env True"]
    by auto
qed

text \<open>
  Answers nobody waits for. The event table names the state every event belongs to, but the lookup of the
  handler ignores it: a release response that names a local identifier closes its channel in whatever state it is,
  also when no release was asked for and no request waits for this answer.
\<close>

theorem unsolicited_release_closes:
  assumes "dyn_inv s" "n \<in> set (dyn s)" "g_signalingTransChanCbks s" "buff_ok b"
    and "buff_data b = [TC_DISCONNECT_RSP, i] @ ENCODE2BYTE_LITTLE (of_nat 3) @ [nd_local n, r, x]"
  shows "\<exists>s1. CM_RecvSignalingData e (nd_lcid n) b s = Some s1 \<and> view s1 = (view s)((nd_lcid n, nd_local n) := None)"
proof -
  note d = dyn_inv_dist [OF assms(1)]
  have "uc_tcid (nd_local n)" using assms(1,2) by (fastforce simp: dyn_inv_def tcid.held_def keys_def pools_used_def)
  then have dy: "CM_TRANS_CHANNEL_IS_DYNAMIC (nd_local n)" by (auto simp: uc_tcid_def CM_TRANS_CHANNEL_IS_DYNAMIC_def word_le_nat_alt)
  have f: "CM_FindTransChannelByLocalTcid (nd_lcid n) (nd_local n) (chan s) = Some n"
  proof (cases "CM_FindTransChannelByLocalTcid (nd_lcid n) (nd_local n) (chan s)")
    case None
    then show ?thesis using dy assms(2)
      by (auto simp: CM_FindTransChannelByLocalTcid_def CM_TRANS_CHANNEL_IS_FIXED_def CM_TRANS_CHANNEL_IS_DYNAMIC_def word_le_nat_alt find_None_iff split: if_splits)
  next
    case (Some m)
    then show ?thesis using find_local [OF dy Some] d assms(2) by (auto simp: keys_def distinct_map inj_on_def)
  qed
  let ?rsp = "\<lparr>rs_srcTcid = nd_local n, rs_dstTcid = r, rs_result = unat x\<rparr>"
  have "dyn (CM_DynTransChannelReleaseRspCbk e (nd_lcid n) ?rsp s) = filter (\<lambda>m. nd_addr m \<noteq> nd_addr n) (dyn s)"
    using f dy by (simp add: CM_DynTransChannelReleaseRspCbk_def post_event CM_DynTransChanActiveReleasedRspHandler_def
        CM_DynTransChanActiveReleasingFailRspHandler_def snd_release_node)
  then have "view (CM_DynTransChannelReleaseRspCbk e (nd_lcid n) ?rsp s) = (view s)((nd_lcid n, nd_local n) := None)"
    using chans_free [of "dyn s" n] assms(2) d by auto
  then show ?thesis
    using recv_signaling [OF assms(4) _ _ handlers(6), of i "[nd_local n, r, x]" e "nd_lcid n" s] assms(3,5)
    by (simp add: CM_SignalingTransChanReleaseRspProc_def rd8_def)
qed


text \<open>A requested channel and a message, for the witnesses.\<close>

lemma demo_channel:
  obtains s n where "dyn_inv s" "n \<in> set (dyn s)" "nd_lcid n = 1" "nd_local n = 0x80" "g_signalingTransChanCbks s" "nd_state n = CM_TRANS_CHANNEL_STATE_ACTIVATING"
    "CM_DynTransChannelEstablishReq (granting_env True) (Some (basic_request 7)) (cm_linked 1 7) = (CM_SUCCESS, s)" "dyn s = [n]"
proof -
  obtain s n ps where s: "CM_DynTransChannelEstablishReq (granting_env True) (Some (basic_request 7)) (cm_linked 1 7) = (CM_SUCCESS, s)"
    "dyn s = dyn (cm_linked 1 7) @ [n]" "nd_lcid n = 1" "nd_local n = 0x80" "nd_state n = CM_TRANS_CHANNEL_STATE_ACTIVATING" "g_signalingTransChanCbks s"
    using initiate [OF linked_ready env_good_granting basic_request_ok(1) linked_request [where k = 7 and l = 1]] by (auto simp: linked_unfold)
  have "dyn_inv s" using establish_req_refines [OF linked_inv [of 1 7], of "granting_env True" "Some (basic_request 7)"] s(1) by (auto simp: refines_def)
  then show thesis using that s by (simp add: linked_unfold)
qed

lemma demo_message: obtains b where "buff_ok b" "buff_data b = [code, i] @ ENCODE2BYTE_LITTLE (of_nat (length data)) @ data"
proof -
  obtain b where "CM_CreateSignalingBuff (granting_env True) code i data = Some b" using create_signaling_Some [of "granting_env True" code i data] by auto
  then show thesis using that create_signaling_ok by blast
qed

theorem unsolicited_release_closes_witness:
  "\<exists>s n b s1. n \<in> set (dyn s) \<and> nd_state n = CM_TRANS_CHANNEL_STATE_ACTIVATING \<and> CM_RecvSignalingData (granting_env True) 1 b s = Some s1
    \<and> view s1 = (view s)((1, 0x80) := None)"
proof -
  obtain s n where s: "dyn_inv s" "n \<in> set (dyn s)" "nd_lcid n = 1" "nd_local n = 0x80" "g_signalingTransChanCbks s" "nd_state n = CM_TRANS_CHANNEL_STATE_ACTIVATING"
    by (rule demo_channel)
  obtain b where b: "buff_ok b" "buff_data b = [TC_DISCONNECT_RSP, 9] @ ENCODE2BYTE_LITTLE (of_nat 3) @ [nd_local n, 0, 0]"
    by (rule demo_message [of TC_DISCONNECT_RSP 9 "[nd_local n, 0, 0]"]) simp
  show ?thesis using unsolicited_release_closes [OF s(1,2,5) b, of "granting_env True"] s by auto
qed

text \<open>
  An identifier that is never returned (C36). A response may name any dynamic identifier as the remote one, also
  one outside the unicast range. When the peer later releases such a channel, the way to return the local
  identifier is chosen by the remote one: nothing is returned, the channel is gone, and its identifier stays in use
  until the link goes down.
\<close>

theorem passive_release_leaks_identifier:
  assumes "dyn_inv s" "g_signalingTransChanCbks s" "CM_FindTransChannelByRemoteTcid l r (chan s) = Some n" "CM_TRANS_CHANNEL_IS_DYNAMIC r" "\<not> uc_tcid r" "buff_ok b"
    and "buff_data b = [TC_DISCONNECT_REQ, i] @ ENCODE2BYTE_LITTLE (of_nat 2) @ [r, x]"
  shows "\<exists>s1. CM_RecvSignalingData e l b s = Some s1 \<and> view s1 = (view s)((l, nd_local n) := None) \<and> (l, nd_local n) \<in> pools_used (pools s1)"
proof -
  note d = dyn_inv_dist [OF assms(1)] and N = find_remote [OF assms(4,3)]
  have u: "(l, nd_local n) \<in> pools_used (pools s)" using assms(1) N by (fastforce simp: dyn_inv_def tcid.held_def keys_def)
  have m: "CM_DynTransChanGetTransportMode r = CM_ACCESS_TRANS_MODE_MAX" using assms(5) by (auto simp: uc_tcid_def CM_DynTransChanGetTransportMode_def)
  let ?s = "CM_DynTransChannelReleaseReqCbk e l i \<lparr>rr_srcTcid = r, rr_dstTcid = x\<rparr> s"
  have "dyn ?s = filter (\<lambda>m. nd_addr m \<noteq> nd_addr n) (dyn s) \<and> pools ?s = snd (CM_DynTcidRelease (nd_lcid n) (nd_local n) CM_ACCESS_TRANS_MODE_MAX (pools s))"
    using assms(3,4) m by (simp add: CM_DynTransChannelReleaseReqCbk_def post_event CM_DynTransChanPassiveReleasedReqHandler_def
        CM_DynTransChanExpectionReleaseHandler_def Let_def split: prod.splits)
  moreover have "snd (CM_DynTcidRelease (nd_lcid n) (nd_local n) CM_ACCESS_TRANS_MODE_MAX (pools s)) = pools s"
    by (auto simp: CM_DynTcidRelease_def split: option.splits)
  ultimately have v: "view ?s = (view s)((l, nd_local n) := None)" "pools ?s = pools s" using chans_free [of "dyn s" n] N d by auto
  show ?thesis
    using recv_signaling [OF assms(6) _ _ handlers(5), of i "[r, x]" e l s] assms(2,7) v u by (simp add: CM_SignalingTransChanReleaseReqProc_def rd8_def)
qed

theorem passive_release_leaks_identifier_witness:
  "\<exists>s b s1. view s (1, 0x80) = Some (CM_TRANS_CHANNEL_STATE_ACTIVATED, 0x20) \<and> CM_RecvSignalingData (granting_env True) 1 b s = Some s1 \<and> view s1 (1, 0x80) = None
    \<and> (1, 0x80) \<in> pools_used (pools s1)"
proof -
  obtain s0 n where s0: "dyn_inv s0" "n \<in> set (dyn s0)" "nd_lcid n = 1" "nd_local n = 0x80" "g_signalingTransChanCbks s0" "nd_state n = CM_TRANS_CHANNEL_STATE_ACTIVATING" "dyn s0 = [n]"
    by (rule demo_channel)
  let ?n = "n\<lparr>nd_state := CM_TRANS_CHANNEL_STATE_ACTIVATED, nd_remote := 0x20\<rparr>"
  let ?s = "s0\<lparr>chan := (chan s0)\<lparr>g_dynTransListHead := [?n]\<rparr>\<rparr>"
  have i: "dyn_inv ?s \<and> view ?s = (view s0)((nd_lcid n, nd_local n) \<mapsto> (2, 0x20))" using inv_upd [OF s0(1,2), of ?s "\<lambda>_. ?n"] s0 by simp
  have f: "CM_FindTransChannelByRemoteTcid 1 0x20 (chan ?s) = Some ?n" using s0 by (simp add: CM_FindTransChannelByRemoteTcid_def CM_TRANS_CHANNEL_IS_FIXED_def)
  obtain b where b: "buff_ok b" "buff_data b = [TC_DISCONNECT_REQ, 9] @ ENCODE2BYTE_LITTLE (of_nat 2) @ [0x20, 0]" by (rule demo_message [of TC_DISCONNECT_REQ 9 "[0x20, 0]"]) simp
  have "CM_TRANS_CHANNEL_IS_DYNAMIC 0x20" "\<not> uc_tcid 0x20" by (simp_all add: CM_TRANS_CHANNEL_IS_DYNAMIC_def uc_tcid_def)
  then show ?thesis using passive_release_leaks_identifier [OF conjunct1 [OF i] _ f _ _ b, of "granting_env True"] s0 i
    by - (rule exI [of _ ?s], rule exI [of _ b], auto)
qed


section \<open>Further departures\<close>

text \<open>Without memory for the list of its channels, a link that goes down keeps them while its pool is destroyed.\<close>

lemma link_down_without_memory:
  assumes "dyn_inv s" "SDF_CreateVector (sub e 0) = (None :: SleTransLcid SDF_Vector option)" "n \<in> set (dyn s)"
  shows "n \<in> set (dyn (CM_DynTransLogicLinkCbk e CM_LINK_STATE_DISCONNECTED (nd_lcid n) s))
    \<and> (nd_lcid n, nd_local n) \<notin> pools_used (pools (CM_DynTransLogicLinkCbk e CM_LINK_STATE_DISCONNECTED (nd_lcid n) s))"
proof -
  have "pools_ok (pools s)" using assms(1) by (simp add: dyn_inv_def tcid.held_def)
  then have "pools_used (snd (CM_DynTcidDestroyPool (nd_lcid n) (pools s))) = pools_used (pools s) - {nd_lcid n} \<times> UNIV"
    using tcid.destroy_used [of "pools s" "nd_lcid n" "fst (CM_DynTcidDestroyPool (nd_lcid n) (pools s))"] by (metis prod.collapse)
  then show ?thesis using assms(2,3) by (simp add: CM_DynTransLogicLinkCbk_def CM_DynTransChannReleaseAllNode_def Let_def)
qed

text \<open>
  Unregistering destroys the pools and keeps the channels: a channel that is open while the upper layer
  unregisters stays in the list, and its identifier is no longer marked as used.
\<close>

lemma unregister_keeps_channels:
  assumes "dyn_inv s" "g_cmIsRegistered s" "g_cmDynTcidIsInited s" "n \<in> set (dyn s)"
  shows "n \<in> set (dyn (CM_UnRegDynTransChannelCbks s)) \<and> pools_used (pools (CM_UnRegDynTransChannelCbks s)) = {}"
proof -
  have p: "pools_ok (pools s)" using assms(1) by (simp add: dyn_inv_def tcid.held_def)
  have "pools_used (pools s) \<subseteq> pool_lcid ` set (pools s) \<times> UNIV"
    by (auto simp: pools_used_def CM_DynTransGetTcidPool_def find_Some_iff split: option.splits)
  then show ?thesis
    using assms(2-4) destroy_all [OF p, of "pools s"]
    by (auto simp: CM_UnRegDynTransChannelCbks_def CM_DynTransChannStateMgrUnRegCbks_def CM_DynTcidDeInit_def)
qed

text \<open>An answer from any link ends the wait of the request with its identifier, whichever link that was sent on.\<close>

lemma foreign_response_ends_wait:
  assumes "g_cachedSignalings (sig s) = Some m" "SDF_MapFind m i = Some c" "cs_code c = TC_CONNECT_REQ" "buff_ok b"
    and "buff_data b = [TC_CONNECT_RSP, i] @ ENCODE2BYTE_LITTLE (of_nat 4) @ [0, 0, 0, 0]"
  shows "CM_RecvSignalingData e l b s = Some (s\<lparr>sig := (sig s)\<lparr>g_cachedSignalings := Some (snd (SDF_MapErase m i))\<rparr>\<rparr>)"
proof -
  have "CM_SignalingTransChanEstablishRspProc e l i [0, 0, 0, 0] s = Some s"
    by (simp add: CM_SignalingTransChanEstablishRspProc_def rd8_def CM_DynTransChannelEstablishRspCbk_def CM_TRANS_CHANNEL_IS_DYNAMIC_def)
  then show ?thesis
    using recv_signaling [OF assms(4) _ _ handlers(4), of i "[0, 0, 0, 0]" e l s] assms by (simp add: CM_SignalingCacheRemove_def)
qed

text \<open>
  A release request that cannot be sent puts the channel back into the state the event table names, active,
  also one that was still waiting for its establishment and has no remote identifier.
\<close>

lemma refused_release_activates:
  assumes "ready s m" "env_refusing e" "SleLogicLinkGetByAddr (rq_addr q) (chan s) = Some ll" "uc_tcid (rq_srcTcid q)"
    "CM_FindTransChannelByLocalTcid (ll_lcid ll) (rq_srcTcid q) (chan s) = Some n"
  shows "\<exists>s1. CM_DynTransChannelReleaseReq e (Some q) s = (CM_FAIL, s1)
    \<and> view s1 = (view s)((ll_lcid ll, rq_srcTcid q) \<mapsto> (CM_TRANS_CHANNEL_STATE_ACTIVATED, nd_remote n))"
proof -
  have dy: "CM_TRANS_CHANNEL_IS_DYNAMIC (rq_srcTcid q)" using assms(4) by (auto simp: uc_tcid_def CM_TRANS_CHANNEL_IS_DYNAMIC_def word_le_nat_alt)
  note N = find_local [OF dy assms(5)]
  have rd: "dyn_inv s" "g_cmIsRegistered s" "g_sendFunc (sig s)" "g_cachedSignalings (sig s) = Some m" "SDF_MapFind m (g_identifier (sig s)) = None"
    using assms(1) by (auto simp: ready_def)
  let ?s = "snd (CM_DynTransChannelReleaseReq e (Some q) s)"
  have r: "fst (CM_DynTransChannelReleaseReq e (Some q) s) = CM_FAIL"
    "dyn ?s = map (\<lambda>m. if nd_addr m = nd_addr n then m\<lparr>nd_state := CM_TRANS_CHANNEL_STATE_ACTIVATED\<rparr> else m) (dyn s)"
    "node_next (chan ?s) = node_next (chan s)" "pools ?s = pools s"
    using send_request_refused [of "sub e 0" "sig s" m "ll_lcid ll" TC_DISCONNECT_REQ "\<lparr>ta_lcid = ll_lcid ll, ta_srcTcid = rq_srcTcid q, ta_dstTcid = nd_remote n\<rparr>"
        CM_SignalingTransChanReleaseReqTimeout "[rq_srcTcid q, nd_remote n]"] rd assms(2,3,5) dy
    by (auto simp: CM_DynTransChannelReleaseReq_def post_event CM_DynTransChanActiveReleasingHandler_def Let_def CM_SignalingTransChanReleaseReqSend_def)
  then have "view ?s = (view s)((nd_lcid n, nd_local n) \<mapsto> (2, nd_remote n))" using inv_upd [OF rd(1), of n ?s "\<lambda>m. m\<lparr>nd_state := 2\<rparr>"] N by auto
  then show ?thesis using r(1) N by (intro exI [of _ ?s]) (auto simp: prod_eq_iff)
qed

end
