(* ===== verification/Cm_Listener.thy ===== *)
theory Cm_Listener
  imports Cm_Failures
begin

text \<open>
  The listeners of link changes (\<open>cm_logic_link_listener_mgr.c\<close>): modules register callbacks under their number, and
  a link that comes up or goes down is announced to them in a fixed order. The state the callbacks work on is a
  parameter; with the callbacks of the signalling and of the dynamic channels registered, a link that goes down
  leaves nothing of it behind in the connection management.
\<close>

section \<open>The table\<close>

record link_state =
  ls_lcid :: u16
  ls_result :: nat
  ls_connCompleteType :: nat

record ('s, 'f, 'u) CM_LogicLinkCbks =
  lk_moduleId :: nat
  lk_logicLinkCbk :: "(link_state \<Rightarrow> 's \<Rightarrow> 's) option"
  lk_remoteFeaturesCbk :: "('f \<Rightarrow> 's \<Rightarrow> 's) option"
  lk_connUpdateParamCbk :: "('u \<Rightarrow> 's \<Rightarrow> 's) option"

abbreviation (input) CM_MODULE_CM_SIGNALING :: nat where "CM_MODULE_CM_SIGNALING \<equiv> 1"
abbreviation (input) CM_MODULE_DTAP :: nat where "CM_MODULE_DTAP \<equiv> 2"
abbreviation (input) CM_MODULE_CM_DYNTRANS :: nat where "CM_MODULE_CM_DYNTRANS \<equiv> 6"
abbreviation (input) CM_MODULE_ID_MAX :: nat where "CM_MODULE_ID_MAX \<equiv> 9"
abbreviation (input) CM_CONN_COMPLETE_SCAN :: nat where "CM_CONN_COMPLETE_SCAN \<equiv> 0"

definition no_cbks :: "('s, 'f, 'u) CM_LogicLinkCbks" where
  "no_cbks = \<lparr>lk_moduleId = 0, lk_logicLinkCbk = None, lk_remoteFeaturesCbk = None, lk_connUpdateParamCbk = None\<rparr>"

text \<open>The table as it is at the start.\<close>

definition g_logicLinkCbks0 :: "('s, 'f, 'u) CM_LogicLinkCbks list" where
  "g_logicLinkCbks0 = replicate CM_MODULE_ID_MAX no_cbks"

definition CM_RegLogicLinkCbks :: "('s, 'f, 'u) CM_LogicLinkCbks \<Rightarrow> ('s, 'f, 'u) CM_LogicLinkCbks list \<Rightarrow> CM_errno \<times> ('s, 'f, 'u) CM_LogicLinkCbks list" where
  "CM_RegLogicLinkCbks cbks tab = (if lk_moduleId cbks < length tab then (CM_SUCCESS, tab[lk_moduleId cbks := cbks]) else (CM_FAIL, tab))"

definition CM_UnRegLogicLinkCbks :: "nat \<Rightarrow> ('s, 'f, 'u) CM_LogicLinkCbks list \<Rightarrow> CM_errno \<times> ('s, 'f, 'u) CM_LogicLinkCbks list" where
  "CM_UnRegLogicLinkCbks m tab = (if m \<ge> CM_MODULE_ID_MAX then (CM_FAIL, tab) else (CM_SUCCESS, tab[m := no_cbks]))"

section \<open>Announcements\<close>

definition CM_ExecLogicLinkModuleCbks :: "('s, 'f, 'u) CM_LogicLinkCbks list \<Rightarrow> nat \<Rightarrow> link_state \<Rightarrow> 's \<Rightarrow> 's" where
  "CM_ExecLogicLinkModuleCbks tab m st s =
     (if m \<ge> CM_MODULE_ID_MAX then s else (case lk_logicLinkCbk (tab ! m) of None \<Rightarrow> s | Some f \<Rightarrow> f st s))"

definition CM_NotifyLogicLinkDtapCbks :: "('s, 'f, 'u) CM_LogicLinkCbks list \<Rightarrow> link_state \<Rightarrow> 's \<Rightarrow> 's" where
  "CM_NotifyLogicLinkDtapCbks tab st s = (if ls_result st \<noteq> CM_LINK_STATE_CONNECTED then s else CM_ExecLogicLinkModuleCbks tab CM_MODULE_DTAP st s)"

text \<open>
  The loops over the table; \<open>collab\<close> is the last call, \<open>CM_ConcurrentConnNotifyLinkCollabResult\<close>, which hands the
  result of a connection to a function another library registered.
\<close>

definition CM_NotifyLogicLinkCbks :: "('s \<Rightarrow> 's) \<Rightarrow> ('s, 'f, 'u) CM_LogicLinkCbks list \<Rightarrow> link_state \<Rightarrow> 's \<Rightarrow> 's" where
  "CM_NotifyLogicLinkCbks collab tab st s =
     (let s1 = (if ls_result st = CM_LINK_STATE_CONNECTED
                then CM_NotifyLogicLinkDtapCbks tab st
                       (fold (\<lambda>m. if m = CM_MODULE_DTAP then id else CM_ExecLogicLinkModuleCbks tab m st) [0..<length tab] s)
                else if ls_result st = CM_LINK_STATE_DISCONNECTED
                then fold (\<lambda>m. CM_ExecLogicLinkModuleCbks tab m st) (rev [0..<length tab]) s
                else s)
      in if ls_connCompleteType st = CM_CONN_COMPLETE_SCAN \<and> (ls_result st = CM_LINK_STATE_CONNECTED \<or> ls_result st = CM_LINK_STATE_DISCONNECTED)
         then collab s1 else s1)"

definition CM_ExecLogicLinkRemoteFeaturesCbks :: "('s, 'f, 'u) CM_LogicLinkCbks list \<Rightarrow> 'f \<Rightarrow> 's \<Rightarrow> 's" where
  "CM_ExecLogicLinkRemoteFeaturesCbks tab p s = fold (\<lambda>c. case lk_remoteFeaturesCbk c of None \<Rightarrow> id | Some f \<Rightarrow> f p) tab s"

definition CM_ExecLogicLinkConnUpdateParamCbks :: "('s, 'f, 'u) CM_LogicLinkCbks list \<Rightarrow> 'u \<Rightarrow> 's \<Rightarrow> 's" where
  "CM_ExecLogicLinkConnUpdateParamCbks tab p s = fold (\<lambda>c. case lk_connUpdateParamCbk c of None \<Rightarrow> id | Some f \<Rightarrow> f p) tab s"

section \<open>The order of the announcements\<close>

lemma nine: "[0..<9] = [0, 1, 2, 3, 4, 5, 6, 7, 8 :: nat]"
  by (simp add: upt_rec)

definition last_call :: "('s \<Rightarrow> 's) \<Rightarrow> link_state \<Rightarrow> 's \<Rightarrow> 's" where
  "last_call collab st = (if ls_connCompleteType st = CM_CONN_COMPLETE_SCAN then collab else id)"

lemma notify_connected:
  assumes "length tab = CM_MODULE_ID_MAX" "ls_result st = CM_LINK_STATE_CONNECTED"
  shows "CM_NotifyLogicLinkCbks collab tab st s = last_call collab st (fold (\<lambda>m. CM_ExecLogicLinkModuleCbks tab m st) [0, 1, 3, 4, 5, 6, 7, 8, 2] s)"
  using assms by (simp add: CM_NotifyLogicLinkCbks_def CM_NotifyLogicLinkDtapCbks_def nine last_call_def)

lemma notify_disconnected:
  assumes "length tab = CM_MODULE_ID_MAX" "ls_result st = CM_LINK_STATE_DISCONNECTED"
  shows "CM_NotifyLogicLinkCbks collab tab st s = last_call collab st (fold (\<lambda>m. CM_ExecLogicLinkModuleCbks tab m st) [8, 7, 6, 5, 4, 3, 2, 1, 0] s)"
  using assms by (simp add: CM_NotifyLogicLinkCbks_def nine last_call_def)

section \<open>The connection management as a listener\<close>

text \<open>The two registrations the connection management makes for itself.\<close>

definition cm_listeners :: "cm_env \<Rightarrow> (cm_state, unit, unit) CM_LogicLinkCbks list" where
  "cm_listeners e =
     (let sig_cbks = no_cbks\<lparr>lk_moduleId := CM_MODULE_CM_SIGNALING, lk_logicLinkCbk := Some (\<lambda>st. CM_SignalingLogicLinkCbk (sub e 0) (ls_result st) (ls_lcid st))\<rparr>;
          dyn_cbks = no_cbks\<lparr>lk_moduleId := CM_MODULE_CM_DYNTRANS, lk_logicLinkCbk := Some (\<lambda>st. CM_DynTransLogicLinkCbk (sub e 1) (ls_result st) (ls_lcid st))\<rparr>
      in snd (CM_RegLogicLinkCbks dyn_cbks (snd (CM_RegLogicLinkCbks sig_cbks g_logicLinkCbks0))))"

lemma cm_listeners_exec:
  "length (cm_listeners e) = 9"
  "CM_ExecLogicLinkModuleCbks (cm_listeners e) m st s =
     (if m = CM_MODULE_CM_SIGNALING then CM_SignalingLogicLinkCbk (sub e 0) (ls_result st) (ls_lcid st) s
      else if m = CM_MODULE_CM_DYNTRANS then CM_DynTransLogicLinkCbk (sub e 1) (ls_result st) (ls_lcid st) s else s)"
  by (auto simp: cm_listeners_def CM_RegLogicLinkCbks_def g_logicLinkCbks0_def CM_ExecLogicLinkModuleCbks_def no_cbks_def Let_def nth_list_update)

lemma cm_link_down:
  assumes "ls_result st = CM_LINK_STATE_DISCONNECTED"
  shows "CM_NotifyLogicLinkCbks collab (cm_listeners e) st s = last_call collab st
    (CM_SignalingLogicLinkCbk (sub e 0) (ls_result st) (ls_lcid st) (CM_DynTransLogicLinkCbk (sub e 1) (ls_result st) (ls_lcid st) s))"
  unfolding notify_disconnected [OF cm_listeners_exec(1) assms] by (simp add: cm_listeners_exec(2))

text \<open>
  What is left of a link that went down (C27). When its end is announced to the registered modules, and there is
  memory for the list of its channels, then in the state \<open>t\<close> after the last module no channel of the link remains,
  no request of the link waits for an answer and its identifiers are free again, while the channels, the waiting
  requests and the identifiers of every other link are as before. What follows \<open>t\<close> is at most the call to the
  concurrent connections, made when the announcement carries the connection type 0, as the announcement of a
  disconnection does. Without that memory the channels stay (lemma \<open>link_down_without_memory\<close>).
\<close>

theorem link_down_leaves_nothing:
  assumes "dyn_inv s" "alloc_ok e" "ls_result st = CM_LINK_STATE_DISCONNECTED"
    and "s' = CM_NotifyLogicLinkCbks collab (cm_listeners e) st s"
  shows "\<exists>t. s' = (if ls_connCompleteType st = CM_CONN_COMPLETE_SCAN then collab t else t)
    \<and> dyn t = filter (\<lambda>n. nd_lcid n \<noteq> ls_lcid st) (dyn s)
    \<and> g_cachedSignalings (sig t) = map_option (filter (\<lambda>(i, c). cs_lcid c \<noteq> ls_lcid st)) (g_cachedSignalings (sig s))
    \<and> pools_used (pools t) = pools_used (pools s) - {ls_lcid st} \<times> UNIV \<and> CM_DynTransGetTcidPool (pools t) (ls_lcid st) = None \<and> dyn_inv t"
proof -
  let ?s = "CM_DynTransLogicLinkCbk (sub e 1) (ls_result st) (ls_lcid st) s"
  have m: "link_memory (sub e 1) (ls_lcid st) s" using assms(2) by (simp add: link_memory_def)
  note d = link_down_state [OF assms(1) m]
  have sg: "sig (CM_DynTransChannelNotifyAllDisconnected e' k ns s0) = sig s0" for e' k ns s0
    by (induction e' k ns s0 rule: CM_DynTransChannelNotifyAllDisconnected.induct)
      (auto simp: Let_def CM_DynTransChanEstablishRspCbk_def CM_DynTransChanStatusIndicationCbk_def split: option.splits)
  have s: "dyn ?s = filter (\<lambda>n. nd_lcid n \<noteq> ls_lcid st) (dyn s)" "pools ?s = snd (CM_DynTcidDestroyPool (ls_lcid st) (pools s))" "sig ?s = sig s"
    using d assms(2,3) by (auto simp: CM_DynTransLogicLinkCbk_def Let_def CM_DynTransChannReleaseAllNode_def sg split: option.splits prod.splits)
  have p: "pools_ok (pools s)" using assms(1) by (simp add: dyn_inv_def tcid.held_def)
  have u: "pools_used (pools ?s) = pools_used (pools s) - {ls_lcid st} \<times> UNIV"
    using tcid.destroy_used [OF p, of "ls_lcid st" "fst (CM_DynTcidDestroyPool (ls_lcid st) (pools s))"] s(2) by (metis prod.collapse)
  have g: "CM_DynTransGetTcidPool (pools ?s) (ls_lcid st) = None" using s(2) pools_del [OF p, of "ls_lcid st" "ls_lcid st"] by (auto simp: CM_DynTcidDestroyPool_def)
  have i: "dyn_inv ?s" using link_refines [OF assms(1), of "ls_result st" "sub e 1" "ls_lcid st"] m by (simp add: refines_def)
  have "s' = last_call collab st (?s\<lparr>sig := CM_SignalingCacheClearByLcid (ls_lcid st) (sig ?s)\<rparr>)"
    unfolding assms(4) cm_link_down [OF assms(3)] using assms(3) by (simp add: CM_SignalingLogicLinkCbk_def)
  then show ?thesis
    using s u g i by (intro exI [of _ "?s\<lparr>sig := CM_SignalingCacheClearByLcid (ls_lcid st) (sig ?s)\<rparr>"])
      (simp add: CM_SignalingCacheClearByLcid_def dyn_inv_def last_call_def)
qed

theorem link_down_leaves_nothing_witness:
  "\<exists>s s'. dyn s \<noteq> [] \<and> s' = CM_NotifyLogicLinkCbks id (cm_listeners (granting_env True)) \<lparr>ls_lcid = 1, ls_result = CM_LINK_STATE_DISCONNECTED, ls_connCompleteType = 0\<rparr> s
    \<and> dyn s' = [] \<and> CM_DynTransGetTcidPool (pools s') 1 = None"
proof -
  obtain s n where s: "dyn_inv s" "nd_lcid n = 1" "dyn s = [n]" by (rule demo_channel)
  let ?st = "\<lparr>ls_lcid = 1, ls_result = CM_LINK_STATE_DISCONNECTED, ls_connCompleteType = 0\<rparr>"
  let ?s' = "CM_NotifyLogicLinkCbks id (cm_listeners (granting_env True)) ?st s"
  have "dyn ?s' = filter (\<lambda>n. nd_lcid n \<noteq> 1) (dyn s) \<and> CM_DynTransGetTcidPool (pools ?s') 1 = None"
    using link_down_leaves_nothing [OF s(1) alloc_ok_granting [of True], of ?st ?s' id] by simp
  then show ?thesis using s(2,3) by (intro exI [of _ s] exI [of _ ?s']) simp
qed

end
