(* ===== verification/Devd_Kmp.thy ===== *)
theory Devd_Kmp
  imports Cm_Cap
begin

text \<open>
  The search for a byte pattern in an advertisement (\<open>devd_report_parse.c\<close>), which decides how the advertisement is
  parsed. The table of the pattern and the search are the loops of the source; a read or a store outside an array and
  a loop that does not end are \<open>None\<close>. Both end inside their arrays, and the search finds what the plain search from
  left to right finds.
\<close>

section \<open>The code\<close>

text \<open>Elements of an array of table entries.\<close>

definition rd_lps :: "nat list \<Rightarrow> nat \<Rightarrow> nat option" where
  "rd_lps lps k = (if k < length lps then Some (lps ! k) else None)"

definition wr_lps :: "nat list \<Rightarrow> nat \<Rightarrow> nat \<Rightarrow> nat list option" where
  "wr_lps lps k v = (if k < length lps then Some (lps[k := v]) else None)"

partial_function (option) lps_loop :: "bytes \<Rightarrow> nat \<Rightarrow> nat list \<Rightarrow> nat \<Rightarrow> nat \<Rightarrow> nat list option" where
  "lps_loop pat patLen lps len i =
     (if i < patLen
      then do {
        a \<leftarrow> rd8 pat i;
        b \<leftarrow> rd8 pat len;
        if a = b then do { lps' \<leftarrow> wr_lps lps i (len + 1); lps_loop pat patLen lps' (len + 1) (i + 1) }
        else if len \<noteq> 0 then do { l \<leftarrow> rd_lps lps (len - 1); lps_loop pat patLen lps l i }
        else do { lps' \<leftarrow> wr_lps lps i 0; lps_loop pat patLen lps' len (i + 1) }
      }
      else Some lps)"

definition BuildLpsTable :: "bytes \<Rightarrow> nat \<Rightarrow> nat list \<Rightarrow> nat list option" where
  "BuildLpsTable pat patLen lps =
     (if patLen = 0 then Some lps else do { lps' \<leftarrow> wr_lps lps 0 0; lps_loop pat patLen lps' 0 1 })"

abbreviation (input) NO_POS :: int where "NO_POS \<equiv> -1"

partial_function (option) kmp_loop :: "bytes \<Rightarrow> nat \<Rightarrow> bytes \<Rightarrow> nat \<Rightarrow> nat list \<Rightarrow> nat \<Rightarrow> nat \<Rightarrow> int option" where
  "kmp_loop data dLen pat patLen lps i j =
     (if i < dLen
      then do {
        a \<leftarrow> rd8 pat j;
        b \<leftarrow> rd8 data i;
        let i1 = (if a = b then i + 1 else i);
        let j1 = (if a = b then j + 1 else j);
        if j1 = patLen then Some (int (i1 - j1))
        else if i1 < dLen then do {
          a1 \<leftarrow> rd8 pat j1;
          b1 \<leftarrow> rd8 data i1;
          if a1 \<noteq> b1
          then if j1 \<noteq> 0 then do { l \<leftarrow> rd_lps lps (j1 - 1); kmp_loop data dLen pat patLen lps i1 l }
               else kmp_loop data dLen pat patLen lps (i1 + 1) j1
          else kmp_loop data dLen pat patLen lps i1 j1
        }
        else kmp_loop data dLen pat patLen lps i1 j1
      }
      else Some NO_POS)"

definition KmpSearch :: "'r env \<Rightarrow> bytes \<Rightarrow> nat \<Rightarrow> bytes \<Rightarrow> nat \<Rightarrow> nat \<Rightarrow> int option" where
  "KmpSearch e data dLen pat patLen startPos =
     (if patLen = 0 then Some 0
      else if dLen < patLen then Some NO_POS
      else if startPos \<ge> dLen then Some NO_POS
      else (case SDF_MemZalloc e of
        None \<Rightarrow> Some NO_POS
      | Some _ \<Rightarrow> do {
          lps \<leftarrow> BuildLpsTable pat patLen (replicate patLen 0);
          kmp_loop data dLen pat patLen lps startPos 0
        }))"

definition KmpSearchSimple :: "'r env \<Rightarrow> bytes \<Rightarrow> nat \<Rightarrow> bytes \<Rightarrow> nat \<Rightarrow> int option" where
  "KmpSearchSimple e data dLen pat patLen = KmpSearch e data dLen pat patLen 0"

section \<open>Borders\<close>

text \<open>The first \<open>j\<close> elements of \<open>p\<close> are the last \<open>j\<close> of the first \<open>i\<close> elements of \<open>t\<close>.\<close>

definition overlap :: "'a list \<Rightarrow> 'a list \<Rightarrow> nat \<Rightarrow> nat \<Rightarrow> bool" where
  "overlap t p i j \<longleftrightarrow> j \<le> i \<and> i \<le> length t \<and> j \<le> length p \<and> (\<forall>x<j. p ! x = t ! (i - j + x))"

lemma overlap_0 [simp]: "overlap t p i 0 \<longleftrightarrow> i \<le> length t"
  by (simp add: overlap_def)

lemma overlap_Suc: "overlap t p (Suc i) (Suc j) \<longleftrightarrow> overlap t p i j \<and> i < length t \<and> j < length p \<and> p ! j = t ! i"
  by (auto simp: overlap_def less_Suc_eq)

lemma overlap_inner:
  assumes "overlap t p i j" "m \<le> j"
  shows "overlap t p i m \<longleftrightarrow> overlap p p j m"
proof -
  have "p ! (j - m + x) = t ! (i - m + x)" if "x < m" for x
  proof -
    have "p ! (j - m + x) = t ! (i - j + (j - m + x))" using assms that by (auto simp: overlap_def)
    moreover have "i - j + (j - m + x) = i - m + x" using assms by (auto simp: overlap_def)
    ultimately show ?thesis by simp
  qed
  then show ?thesis using assms by (auto simp: overlap_def)
qed

text \<open>The longest proper border of the first \<open>n\<close> elements.\<close>

definition max_border :: "'a list \<Rightarrow> nat \<Rightarrow> nat \<Rightarrow> bool" where
  "max_border p n l \<longleftrightarrow> l < n \<and> overlap p p n l \<and> (\<forall>m. l < m \<and> m < n \<longrightarrow> \<not> overlap p p n m)"

definition table_ok :: "'a list \<Rightarrow> nat list \<Rightarrow> nat \<Rightarrow> bool" where
  "table_ok p lps n \<longleftrightarrow> length lps = length p \<and> (\<forall>k<n. max_border p (Suc k) (lps ! k))"

lemma table_okD: "table_ok p lps n \<Longrightarrow> 0 < k \<Longrightarrow> k \<le> n \<Longrightarrow> max_border p k (lps ! (k - 1))"
  by (cases k) (auto simp: table_ok_def)

lemma table_ok_store: "table_ok p lps i \<Longrightarrow> max_border p (Suc i) v \<Longrightarrow> table_ok p (lps[i := v]) (Suc i)"
  by (auto simp: table_ok_def less_Suc_eq nth_list_update max_border_def overlap_def)

section \<open>The table\<close>

definition lps_inv :: "bytes \<Rightarrow> nat list \<Rightarrow> nat \<Rightarrow> nat \<Rightarrow> bool" where
  "lps_inv p lps len i \<longleftrightarrow> table_ok p lps i \<and> i \<le> length p \<and> len < i \<and> overlap p p i len
     \<and> (\<forall>m. len < m \<and> m < i \<longrightarrow> \<not> overlap p p (Suc i) (Suc m))"

lemma border_next:
  assumes "lps_inv p lps len i" "i < length p" "p ! i = p ! len"
  shows "max_border p (Suc i) (Suc len)"
proof -
  have "\<not> overlap p p (Suc i) m" if "Suc len < m" "m < Suc i" for m
    using assms(1) that by (cases m) (auto simp: lps_inv_def)
  then show ?thesis using assms by (auto simp: max_border_def overlap_Suc lps_inv_def)
qed

lemma border_none:
  assumes "lps_inv p lps 0 i" "i < length p" "p ! i \<noteq> p ! 0"
  shows "max_border p (Suc i) 0"
proof -
  have "\<not> overlap p p (Suc i) m" if "0 < m" "m < Suc i" for m
  proof -
    obtain m' where m: "m = Suc m'" using \<open>0 < m\<close> by (cases m) auto
    show ?thesis using assms that unfolding m by (cases "m' = 0") (auto simp: lps_inv_def overlap_Suc)
  qed
  then show ?thesis using assms by (auto simp: max_border_def lps_inv_def)
qed

lemma inv_next:
  assumes "lps_inv p lps len i" "i < length p" "max_border p (Suc i) v"
  shows "lps_inv p (lps[i := v]) v (Suc i)"
proof -
  have "\<not> overlap p p (Suc (Suc i)) (Suc m)" if "v < m" "m < Suc i" for m
    using assms(3) that by (auto simp: overlap_Suc max_border_def)
  then show ?thesis using assms table_ok_store [of p lps i v] by (auto simp: lps_inv_def max_border_def)
qed

lemma inv_shorter:
  assumes "lps_inv p lps len i" "i < length p" "len \<noteq> 0" "p ! i \<noteq> p ! len"
  shows "lps_inv p lps (lps ! (len - 1)) i" "lps ! (len - 1) < len"
proof -
  let ?l = "lps ! (len - 1)"
  have b: "max_border p len ?l" using table_okD [of p lps i len] assms by (auto simp: lps_inv_def)
  have o: "overlap p p i len" "len < i" using assms(1) by (auto simp: lps_inv_def)
  have "\<not> overlap p p (Suc i) (Suc m)" if "?l < m" "m < i" for m
  proof (cases m len rule: linorder_cases)
    case less
    then have "\<not> overlap p p i m" using overlap_inner [OF o(1), of m] b that(1) by (auto simp: max_border_def)
    then show ?thesis by (simp add: overlap_Suc)
  qed (use assms that in \<open>auto simp: overlap_Suc lps_inv_def\<close>)
  moreover have "overlap p p i ?l" using overlap_inner [OF o(1), of ?l] b by (auto simp: max_border_def)
  ultimately show "lps_inv p lps ?l i" "?l < len" using assms b o by (auto simp: lps_inv_def max_border_def)
qed

lemma lps_loop_ok:
  assumes "lps_inv p lps len i"
  shows "\<exists>lps'. lps_loop p (length p) lps len i = Some lps' \<and> table_ok p lps' (length p)"
  using assms
proof (induction "2 * (length p - i) + len" arbitrary: lps len i rule: less_induct)
  case less
  note L = less.prems [unfolded lps_inv_def] and D = lps_loop.simps [of p "length p" lps len i]
  show ?case
  proof (cases "i < length p")
    case False
    then show ?thesis using L D by (auto simp: table_ok_def)
  next
    case True
    have r: "rd8 p i = Some (p ! i)" "rd8 p len = Some (p ! len)" "length lps = length p" using True L by (auto simp: rd8_def table_ok_def)
    consider "p ! i = p ! len" | "p ! i \<noteq> p ! len" "len \<noteq> 0" | "p ! i \<noteq> p ! len" "len = 0" by blast
    then show ?thesis
    proof cases
      case 1
      have "lps_inv p (lps[i := Suc len]) (Suc len) (Suc i)" using inv_next border_next less.prems True 1 by blast
      then show ?thesis using less.hyps [of "Suc i" "Suc len"] D r True 1 by (simp add: wr_lps_def)
    next
      case 2
      have "rd_lps lps (len - 1) = Some (lps ! (len - 1))" using True L r(3) by (simp add: rd_lps_def less_imp_diff_less)
      then show ?thesis using less.hyps [of i "lps ! (len - 1)"] inv_shorter [OF less.prems True] D r True 2 by simp
    next
      case 3
      have "lps_inv p (lps[i := 0]) 0 (Suc i)" using inv_next border_none less.prems True 3 by blast
      then show ?thesis using less.hyps [of "Suc i" 0] D r True 3 by (simp add: wr_lps_def)
    qed
  qed
qed

lemma BuildLpsTable_ok:
  assumes "p \<noteq> []"
  shows "\<exists>lps. BuildLpsTable p (length p) (replicate (length p) 0) = Some lps \<and> table_ok p lps (length p)"
proof -
  have "max_border p (Suc 0) 0" using assms by (auto simp: max_border_def Suc_le_eq)
  then have "table_ok p ((replicate (length p) 0)[0 := 0]) 1" using assms by (auto simp: table_ok_def nth_list_update)
  then have "lps_inv p ((replicate (length p) 0)[0 := 0]) 0 1" using assms by (auto simp: lps_inv_def Suc_le_eq)
  then show ?thesis using lps_loop_ok assms by (simp add: BuildLpsTable_def wr_lps_def)
qed

section \<open>The search\<close>

text \<open>The plain search from left to right.\<close>

definition match_at :: "bytes \<Rightarrow> bytes \<Rightarrow> nat \<Rightarrow> bool" where
  "match_at d p k \<longleftrightarrow> take (length p) (drop k d) = p"

definition first_match :: "bytes \<Rightarrow> bytes \<Rightarrow> nat \<Rightarrow> nat option" where
  "first_match d p s = find (match_at d p) [s..<Suc (length d)]"

lemma match_at_nth: "p \<noteq> [] \<Longrightarrow> match_at d p k \<longleftrightarrow> k + length p \<le> length d \<and> (\<forall>x<length p. p ! x = d ! (k + x))"
proof
  assume "p \<noteq> []" and m: "match_at d p k"
  then have "length (take (length p) (drop k d)) = length p" by (simp add: match_at_def)
  then have l: "k + length p \<le> length d" using \<open>p \<noteq> []\<close> by (cases "k \<le> length d") auto
  have "p ! x = d ! (k + x)" if "x < length p" for x
    using m that l nth_take [of x "length p" "drop k d"] by (simp add: match_at_def)
  then show "k + length p \<le> length d \<and> (\<forall>x<length p. p ! x = d ! (k + x))" using l by blast
next
  assume "k + length p \<le> length d \<and> (\<forall>x<length p. p ! x = d ! (k + x))"
  then show "match_at d p k" unfolding match_at_def by (intro nth_equalityI) auto
qed

lemma match_overlap:
  assumes "match_at d p k" "p \<noteq> []" "m \<le> length p"
  shows "overlap d p (k + m) m"
  using assms by (auto simp: match_at_nth overlap_def)

definition kmp_inv :: "bytes \<Rightarrow> bytes \<Rightarrow> nat \<Rightarrow> nat \<Rightarrow> nat \<Rightarrow> bool" where
  "kmp_inv d p s i j \<longleftrightarrow> overlap d p i j \<and> j < length p \<and> s + j \<le> i \<and> (\<forall>k. s \<le> k \<and> k + j < i \<longrightarrow> \<not> match_at d p k)"

lemma kmp_shift:
  assumes "kmp_inv d p s i j" "i < length d" "p ! j \<noteq> d ! i" "j \<noteq> 0" "max_border p j l"
  shows "kmp_inv d p s i l"
proof -
  have o: "overlap d p i j" "j < length p" "s + j \<le> i" using assms(1) by (auto simp: kmp_inv_def)
  have "\<not> match_at d p k" if k: "s \<le> k" "k + l < i" for k
  proof
    assume M: "match_at d p k"
    have "i \<le> k + j" using assms(1) M k(1) by (auto simp: kmp_inv_def)
    then obtain m where m: "i = k + m" "l < m" "m \<le> j" using k(2) by (metis add_less_cancel_left le_add_diff_inverse less_or_eq_imp_le nat_add_left_cancel_le add_lessD1)
    show False
    proof (cases "m = j")
      case True
      then show ?thesis using match_overlap [OF M, of "Suc m"] o(2) m assms(3) by (cases p) (auto simp: overlap_Suc)
    next
      case False
      then show ?thesis using match_overlap [OF M, of m] overlap_inner [OF o(1), of m] o(2) m assms(5) by (cases p) (auto simp: max_border_def)
    qed
  qed
  moreover have "overlap d p i l" using overlap_inner [OF o(1), of l] assms(5) by (auto simp: max_border_def)
  ultimately show ?thesis using o assms(5) by (auto simp: kmp_inv_def max_border_def)
qed

lemma kmp_skip:
  assumes "kmp_inv d p s i 0" "i < length d" "p ! 0 \<noteq> d ! i"
  shows "kmp_inv d p s (Suc i) 0"
  using assms match_at_nth [of p d i] by (auto simp: kmp_inv_def less_Suc_eq)

lemma kmp_step:
  assumes "kmp_inv d p s i j" "i < length d" "p ! j = d ! i"
  shows "if Suc j = length p then match_at d p (i - j) \<and> s \<le> i - j \<and> (\<forall>k. s \<le> k \<and> k < i - j \<longrightarrow> \<not> match_at d p k)
    else kmp_inv d p s (Suc i) (Suc j)"
proof -
  have o: "overlap d p (Suc i) (Suc j)" "j \<le> i" using assms by (auto simp: kmp_inv_def overlap_Suc)
  moreover have "p ! x = d ! (i - j + x)" if "x < Suc j" for x
    using o(1) that unfolding overlap_def by simp
  then have "match_at d p (i - j)" if "Suc j = length p"
    using o assms(2) that by (subst match_at_nth) auto
  ultimately show ?thesis using assms(1) by (auto simp: kmp_inv_def)
qed

definition kmp_result :: "bytes \<Rightarrow> bytes \<Rightarrow> nat \<Rightarrow> int" where
  "kmp_result d p s = (case first_match d p s of None \<Rightarrow> NO_POS | Some k \<Rightarrow> int k)"

lemma kmp_resultI:
  assumes "match_at d p k" "s \<le> k" "\<And>k'. s \<le> k' \<Longrightarrow> k' < k \<Longrightarrow> \<not> match_at d p k'" "p \<noteq> []"
  shows "kmp_result d p s = int k"
proof -
  have "k \<le> length d" using assms(1,4) by (simp add: match_at_nth)
  then have "[s..<Suc (length d)] = [s..<k] @ k # [Suc k..<Suc (length d)]"
    using assms(2) by (metis le_imp_less_Suc upt_add_eq_append upt_conv_Cons le_add_diff_inverse less_imp_le)
  moreover have "find (match_at d p) [s..<k] = None" using assms(3) by (auto simp: find_None_iff)
  moreover have "find P (xs @ ys) = (case find P xs of None \<Rightarrow> find P ys | Some x \<Rightarrow> Some x)" for P and xs ys :: "nat list"
    by (induction xs) auto
  ultimately show ?thesis using assms(1) by (simp add: kmp_result_def first_match_def)
qed

lemma kmp_result_none: "(\<And>k. s \<le> k \<Longrightarrow> \<not> match_at d p k) \<Longrightarrow> kmp_result d p s = NO_POS"
proof -
  assume "\<And>k. s \<le> k \<Longrightarrow> \<not> match_at d p k"
  then have "find (match_at d p) [s..<Suc (length d)] = None" by (auto simp: find_None_iff)
  then show ?thesis by (simp add: kmp_result_def first_match_def)
qed

lemma kmp_loop_ok:
  assumes "kmp_inv d p s i j" "table_ok p lps (length p)"
  shows "kmp_loop d (length d) p (length p) lps i j = Some (kmp_result d p s)"
  using assms(1)
proof (induction "2 * (length d - i) + j" arbitrary: i j rule: less_induct)
  case less
  note D = kmp_loop.simps [of d "length d" p "length p" lps i j]
  have L: "i \<le> length d" "j < length p" "p \<noteq> []" "length lps = length p" using less.prems assms(2) by (auto simp: kmp_inv_def overlap_def table_ok_def)
  text \<open>The second half of the body, where the pattern is shifted.\<close>
  have S: "(if i' < length d then do {
          a1 \<leftarrow> rd8 p j';
          b1 \<leftarrow> rd8 d i';
          if a1 \<noteq> b1
          then if j' \<noteq> 0 then do { l \<leftarrow> rd_lps lps (j' - 1); kmp_loop d (length d) p (length p) lps i' l }
               else kmp_loop d (length d) p (length p) lps (i' + 1) j'
          else kmp_loop d (length d) p (length p) lps i' j'
        } else kmp_loop d (length d) p (length p) lps i' j') = Some (kmp_result d p s)"
    if K: "kmp_inv d p s i' j'" and M: "2 * (length d - i') + j' < 2 * (length d - i) + j \<or> i' < length d \<and> p ! j' \<noteq> d ! i' \<and> i' = i \<and> j' = j" for i' j'
  proof -
    have k: "j' < length p" "i' \<le> length d" using K by (auto simp: kmp_inv_def overlap_def)
    show ?thesis
    proof (cases "i' < length d \<and> p ! j' \<noteq> d ! i'")
      case True
      then have r: "rd8 p j' = Some (p ! j')" "rd8 d i' = Some (d ! i')" using k by (auto simp: rd8_def)
      show ?thesis
      proof (cases "j' = 0")
        case True
        then show ?thesis using less.hyps [of "Suc i'" 0] kmp_skip [of d p s i'] K M r \<open>i' < length d \<and> p ! j' \<noteq> d ! i'\<close> by auto
      next
        case False
        have b: "max_border p j' (lps ! (j' - 1))" using table_okD [OF assms(2), of j'] k False by simp
        then have "lps ! (j' - 1) < j'" by (simp add: max_border_def)
        then show ?thesis using less.hyps [of i' "lps ! (j' - 1)"] kmp_shift [OF K _ _ False b] M r True k L(4) False by (auto simp: rd_lps_def)
      qed
    next
      case False
      then have "2 * (length d - i') + j' < 2 * (length d - i) + j" using M by blast
      then show ?thesis using less.hyps [of i' j'] K False k by (auto simp: rd8_def)
    qed
  qed
  show ?case
  proof (cases "i < length d")
    case False
    have "\<not> match_at d p k" if "s \<le> k" for k
      using less.prems False that match_at_nth [OF L(3), of d k] L by (cases "k + j < i") (auto simp: kmp_inv_def)
    then show ?thesis using D False by (simp add: kmp_result_none)
  next
    case True
    then have r: "rd8 p j = Some (p ! j)" "rd8 d i = Some (d ! i)" using L by (auto simp: rd8_def)
    show ?thesis
    proof (cases "p ! j = d ! i")
      case eq: True
      note st = kmp_step [OF less.prems True eq]
      show ?thesis
      proof (cases "Suc j = length p")
        case True
        then have "kmp_result d p s = int (i - j)" using kmp_resultI [of d p "i - j" s] st L(3) by auto
        then show ?thesis using D r eq True \<open>i < length d\<close> by (simp add: Let_def)
      next
        case False
        then have K: "kmp_inv d p s (i + 1) (j + 1)" using st by simp
        have "2 * (length d - (i + 1)) + (j + 1) < 2 * (length d - i) + j" using True by simp
        then show ?thesis using S [OF K] False True eq by (subst D) (simp add: Let_def r split: if_split_asm)
      qed
    next
      case False
      then show ?thesis using S [OF less.prems] True L(2) by (subst D) (simp add: Let_def r split: if_split_asm)
    qed
  qed
qed

lemma kmp_search:
  assumes "p \<noteq> []"
  shows "KmpSearch e d (length d) p (length p) s = Some (if SDF_MemZalloc e = None then NO_POS else kmp_result d p s)"
proof -
  have n: "\<not> match_at d p k" if "length d < length p \<or> length d \<le> s" "s \<le> k" for k
    using that assms match_at_nth [OF assms, of d k] length_greater_0_conv [of p] by linarith
  obtain lps where t: "BuildLpsTable p (length p) (replicate (length p) 0) = Some lps" "table_ok p lps (length p)"
    using BuildLpsTable_ok [OF assms] by auto
  have i: "kmp_inv d p s s 0" if "s < length d" using that assms by (auto simp: kmp_inv_def)
  show ?thesis
    using t kmp_loop_ok [OF i t(2)] assms kmp_result_none [of s d p] n by (auto simp: KmpSearch_def split: option.splits)
qed

text \<open>
  The fast search (C23). For every pattern, every data, every start and every outcome of the allocation the search
  ends, stays inside the data, the pattern and the table, and returns 0 for the empty pattern, -1 when there is no
  memory for the table, and otherwise exactly the position the plain search from left to right finds, or -1 if there
  is none.
\<close>

theorem kmp_search_correct:
  "KmpSearch e d (length d) p (length p) s =
     Some (if p = [] then 0
           else if SDF_MemZalloc e = None then NO_POS
           else (case first_match d p s of None \<Rightarrow> NO_POS | Some k \<Rightarrow> int k))"
proof (cases "p = []")
  case False
  then show ?thesis using kmp_search [OF False, of e d s] by (simp add: kmp_result_def)
qed (simp add: KmpSearch_def)

lemma kmp_search_example: "KmpSearch (granting_env True) [1, 2, 1, 2, 1, 3, 1] 7 [1, 2, 1, 3] 4 0 = Some 2"
  using kmp_search [of "[1, 2, 1, 3]" "granting_env True" "[1, 2, 1, 2, 1, 3, 1]" 0]
  by (simp add: kmp_result_def first_match_def match_at_def upt_rec eval_nat_numeral)

end
