(* ===== verification/Devd_Report.thy ===== *)
theory Devd_Report
  imports Devd_Kmp
begin

text \<open>
  Parsing of advertisements (\<open>devd_report_parse.c\<close>): the cache of advertisements that wait for their scan response,
  the two parsers of type-length-value data and the result they fill. A read outside the received data is \<open>None\<close>; a
  pointer that may be null is an option.
\<close>

section \<open>Data\<close>

record NLSTK_VariableData =
  vd_len :: nat
  vd_data :: "bytes option"

record NLSTK_DevdAdvServiceData =
  sd_uuid :: bytes
  sd_len :: nat
  sd_data :: bytes

record NLSTK_DevdAdvManufacturerData =
  md_manufacturerId :: u16
  md_len :: nat
  md_data :: bytes

record NLSTK_DevdAdvResult =
  ar_addr :: SLE_Addr
  ar_rssi :: u8
  ar_txPower :: u8
  ar_frameType :: u8
  ar_discoveryLevel :: u8
  ar_isConnectable :: bool
  ar_isPencil :: bool
  localName :: NLSTK_VariableData
  meshInfo :: NLSTK_VariableData
  serviceDataList :: "NLSTK_DevdAdvServiceData SDF_Vector"
  serviceUuids :: "bytes SDF_Vector"
  manufacturerDataList :: "NLSTK_DevdAdvManufacturerData SDF_Vector"
  advData :: NLSTK_VariableData

record AdvDataCache =
  ac_addr :: SLE_Addr
  ac_len :: nat
  ac_data :: bytes

record NLSTK_DevdAdvReportInfo =
  ri_addr :: SLE_Addr
  ri_rssi :: u8
  ri_eventType :: u8
  ri_primFrameType :: u8
  ri_dataLength :: u8
  ri_data :: bytes

abbreviation (input) MAX_ADV_DATA_LEN :: nat where "MAX_ADV_DATA_LEN \<equiv> 510"
abbreviation (input) MIN_ADV_DATA_LEN :: nat where "MIN_ADV_DATA_LEN \<equiv> 2"
abbreviation (input) SERVICE_UUID_LEN_16 :: nat where "SERVICE_UUID_LEN_16 \<equiv> 2"
abbreviation (input) SERVICE_UUID_LEN_128 :: nat where "SERVICE_UUID_LEN_128 \<equiv> 16"
abbreviation (input) MAX_DEVICE_CACHE :: nat where "MAX_DEVICE_CACHE \<equiv> 7"
abbreviation (input) ADV_FRAME_TYPE_1 :: u8 where "ADV_FRAME_TYPE_1 \<equiv> 0"
abbreviation (input) ADV_FRAME_TYPE_4 :: u8 where "ADV_FRAME_TYPE_4 \<equiv> 1"

definition g_baseUuid :: bytes where
  "g_baseUuid = [0x37, 0xBE, 0xA8, 0x80, 0xFC, 0x70, 0x11, 0xEA, 0xB7, 0x20, 0x00, 0x00, 0x00, 0x00, 0x00, 0x00]"

definition g_disUuid :: bytes where
  "g_disUuid = [0x37, 0xBE, 0xA8, 0x80, 0xFC, 0x70, 0x11, 0xEA, 0xB7, 0x20, 0x00, 0x00, 0x00, 0x00, 0x06, 0x09]"

definition g_pencilAdvertstingData1 :: bytes where
  "g_pencilAdvertstingData1 = [0x03, 0x19, 0xC7, 0x03, 0x0F, 0x16, 0xEE, 0xFD]"

definition g_pencilAdvertstingData2 :: bytes where
  "g_pencilAdvertstingData2 = [0x12, 0x09, 0x48, 0x55, 0x41, 0x57, 0x45, 0x49, 0x20, 0x4D, 0x2D, 0x50, 0x65, 0x6E, 0x63, 0x69, 0x6C, 0x20, 0x33]"

section \<open>The cache\<close>

definition FindAdvDataCache :: "SLE_Addr \<Rightarrow> AdvDataCache list \<Rightarrow> AdvDataCache option" where
  "FindAdvDataCache a cs = find (\<lambda>c. ac_addr c = a) cs"

text \<open>A store through the pointer a search returns, and the removal of its entry.\<close>

fun cache_upd :: "SLE_Addr \<Rightarrow> (AdvDataCache \<Rightarrow> AdvDataCache) \<Rightarrow> AdvDataCache list \<Rightarrow> AdvDataCache list" where
  "cache_upd a f [] = []"
| "cache_upd a f (c # cs) = (if ac_addr c = a then f c # cs else c # cache_upd a f cs)"

fun cache_del :: "SLE_Addr \<Rightarrow> AdvDataCache list \<Rightarrow> AdvDataCache list" where
  "cache_del a [] = []"
| "cache_del a (c # cs) = (if ac_addr c = a then cs else c # cache_del a cs)"

text \<open>The result is the entry, or none, and the list.\<close>

definition AddAdvDataCache :: "'r env \<Rightarrow> SLE_Addr \<Rightarrow> bytes \<Rightarrow> nat \<Rightarrow> AdvDataCache list \<Rightarrow> (AdvDataCache option \<times> AdvDataCache list) option" where
  "AddAdvDataCache e a d dLen cs =
     (if dLen = 0 then Some (None, cs)
      else (case FindAdvDataCache a cs of
        None \<Rightarrow>
          (case SDF_MemZalloc (sub e 0) of
             None \<Rightarrow> Some (None, cs)
           | Some _ \<Rightarrow>
               let cs1 = (if length cs \<ge> MAX_DEVICE_CACHE then butlast cs else cs) in
               (case SDF_MemZalloc (sub e 1) of
                  None \<Rightarrow> Some (None, cs1)
                | Some _ \<Rightarrow> do {
                    t \<leftarrow> rd_block d 0 dLen;
                    let c = \<lparr>ac_addr = a, ac_len = dLen, ac_data = t\<rparr>;
                    Some (Some c, c # cs1)
                  }))
      | Some c0 \<Rightarrow>
          (case SDF_MemZalloc (sub e 1) of
             None \<Rightarrow> Some (None, cache_del a cs)
           | Some _ \<Rightarrow> do {
               t \<leftarrow> rd_block d 0 dLen;
               let c = \<lparr>ac_addr = a, ac_len = dLen, ac_data = t\<rparr>;
               Some (Some c, cache_upd a (\<lambda>_. c) cs)
             })))"

definition AppendAdvDataCache :: "'r env \<Rightarrow> SLE_Addr \<Rightarrow> bytes \<Rightarrow> nat \<Rightarrow> AdvDataCache list \<Rightarrow> (AdvDataCache option \<times> AdvDataCache list) option" where
  "AppendAdvDataCache e a d dLen cs =
     (case FindAdvDataCache a cs of
        None \<Rightarrow> if dLen = 0 then Some (None, cs) else AddAdvDataCache (sub e 0) a d dLen cs
      | Some c \<Rightarrow>
          if dLen = 0 then Some (Some c, cs)
          else (case SDF_MemZalloc (sub e 1) of
             None \<Rightarrow> Some (None, cache_del a cs)
           | Some _ \<Rightarrow> do {
               t0 \<leftarrow> rd_block (ac_data c) 0 (ac_len c);
               t \<leftarrow> rd_block d 0 dLen;
               let c1 = c\<lparr>ac_len := to_u16 (ac_len c + dLen), ac_data := t0 @ t\<rparr>;
               Some (Some c1, cache_upd a (\<lambda>_. c1) cs)
             }))"

definition ClearAdvDataCache :: "SLE_Addr \<Rightarrow> AdvDataCache list \<Rightarrow> AdvDataCache list" where
  "ClearAdvDataCache a cs = (if FindAdvDataCache a cs = None then cs else cache_del a cs)"

section \<open>The fields of the result\<close>

definition SetDiscoveryLevel :: "nat \<Rightarrow> bytes \<Rightarrow> nat \<Rightarrow> NLSTK_DevdAdvResult \<Rightarrow> NLSTK_DevdAdvResult option" where
  "SetDiscoveryLevel len d p r = (if \<not> len = 1 then Some r else do { x \<leftarrow> rd8 d p; Some (r\<lparr>ar_discoveryLevel := x\<rparr>) })"

definition AddServiceData :: "'r env \<Rightarrow> NLSTK_DevdAdvServiceData \<Rightarrow> NLSTK_DevdAdvResult \<Rightarrow> bool \<times> NLSTK_DevdAdvResult" where
  "AddServiceData e sd r =
     (if list_ex (\<lambda>t. sd_uuid t = sd_uuid sd) (v_elems (serviceDataList r)) then (False, r)
      else (case SDF_VectorEmplaceBack e (serviceDataList r) sd of (ok, v) \<Rightarrow> (ok, r\<lparr>serviceDataList := v\<rparr>)))"

text \<open>A 16-bit identifier takes the place of the last two bytes of the base, in reverse order.\<close>

definition read_uuid :: "bytes \<Rightarrow> nat \<Rightarrow> nat \<Rightarrow> bytes option" where
  "read_uuid d p uuidLen =
     (if uuidLen = SERVICE_UUID_LEN_16 then do { x \<leftarrow> rd8 d p; y \<leftarrow> rd8 d (p + 1); Some (g_baseUuid[15 := x, 14 := y]) }
      else rd_block d p SERVICE_UUID_LEN_128)"

definition SetServiceData :: "'r env \<Rightarrow> nat \<Rightarrow> bytes \<Rightarrow> nat \<Rightarrow> nat \<Rightarrow> NLSTK_DevdAdvResult \<Rightarrow> NLSTK_DevdAdvResult option" where
  "SetServiceData e len d p uuidLen r =
     (if \<not> len > uuidLen then Some r
      else (case SDF_MemZalloc (sub e 0) of
        None \<Rightarrow> Some r
      | Some _ \<Rightarrow> do {
          u \<leftarrow> read_uuid d p uuidLen;
          t \<leftarrow> rd_block d (p + uuidLen) (len - uuidLen);
          Some (snd (AddServiceData (sub e 1) \<lparr>sd_uuid = u, sd_len = len - uuidLen, sd_data = t\<rparr> r))
        }))"

definition AddServiceUuid :: "'r env \<Rightarrow> bytes \<Rightarrow> NLSTK_DevdAdvResult \<Rightarrow> bool \<times> NLSTK_DevdAdvResult" where
  "AddServiceUuid e u r =
     (if list_ex (\<lambda>t. t = u) (v_elems (serviceUuids r)) then (False, r)
      else (case SDF_VectorEmplaceBack e (serviceUuids r) u of (ok, v) \<Rightarrow> (ok, r\<lparr>serviceUuids := v\<rparr>)))"

fun set_uuids :: "'r env \<Rightarrow> nat \<Rightarrow> nat \<Rightarrow> bytes \<Rightarrow> nat \<Rightarrow> nat \<Rightarrow> NLSTK_DevdAdvResult \<Rightarrow> NLSTK_DevdAdvResult option" where
  "set_uuids e k 0 d p uuidLen r = Some r"
| "set_uuids e k (Suc n) d p uuidLen r =
     (case SDF_MemZalloc (sub (sub e k) 0) of
        None \<Rightarrow> Some r
      | Some _ \<Rightarrow> do { u \<leftarrow> read_uuid d p uuidLen; set_uuids e (Suc k) n d (p + uuidLen) uuidLen (snd (AddServiceUuid (sub (sub e k) 1) u r)) })"

definition SetServiceUuid :: "'r env \<Rightarrow> nat \<Rightarrow> bytes \<Rightarrow> nat \<Rightarrow> nat \<Rightarrow> NLSTK_DevdAdvResult \<Rightarrow> NLSTK_DevdAdvResult option" where
  "SetServiceUuid e len d p uuidLen r = (if \<not> len mod uuidLen = 0 then Some r else set_uuids e 0 (len div uuidLen) d p uuidLen r)"

text \<open>Without memory the old name is gone and the old length stays.\<close>

definition SetLocalName :: "'r env \<Rightarrow> nat \<Rightarrow> bytes \<Rightarrow> nat \<Rightarrow> NLSTK_DevdAdvResult \<Rightarrow> NLSTK_DevdAdvResult option" where
  "SetLocalName e len d p r =
     (if \<not> len > 0 then Some r
      else (case SDF_MemZalloc e of
        None \<Rightarrow> Some (r\<lparr>localName := (localName r)\<lparr>vd_data := None\<rparr>\<rparr>)
      | Some _ \<Rightarrow> do { t \<leftarrow> rd_block d p len; Some (r\<lparr>localName := \<lparr>vd_len = len, vd_data = Some t\<rparr>\<rparr>) }))"

definition SetTxPower :: "nat \<Rightarrow> bytes \<Rightarrow> nat \<Rightarrow> NLSTK_DevdAdvResult \<Rightarrow> NLSTK_DevdAdvResult option" where
  "SetTxPower len d p r = (if \<not> len = 1 then Some r else do { x \<leftarrow> rd8 d p; Some (r\<lparr>ar_txPower := x\<rparr>) })"

definition SetMeshInfo :: "'r env \<Rightarrow> nat \<Rightarrow> bytes \<Rightarrow> nat \<Rightarrow> NLSTK_DevdAdvResult \<Rightarrow> NLSTK_DevdAdvResult option" where
  "SetMeshInfo e len d p r =
     (if \<not> len > 0 then Some r
      else (case SDF_MemZalloc e of
        None \<Rightarrow> Some (r\<lparr>meshInfo := (meshInfo r)\<lparr>vd_data := None\<rparr>\<rparr>)
      | Some _ \<Rightarrow> do { t \<leftarrow> rd_block d p len; Some (r\<lparr>meshInfo := \<lparr>vd_len = len, vd_data = Some t\<rparr>\<rparr>) }))"

definition AddManufacturerData :: "'r env \<Rightarrow> NLSTK_DevdAdvManufacturerData \<Rightarrow> NLSTK_DevdAdvResult \<Rightarrow> bool \<times> NLSTK_DevdAdvResult" where
  "AddManufacturerData e md r =
     (if list_ex (\<lambda>t. md_manufacturerId t = md_manufacturerId md) (v_elems (manufacturerDataList r)) then (False, r)
      else (case SDF_VectorEmplaceBack e (manufacturerDataList r) md of (ok, v) \<Rightarrow> (ok, r\<lparr>manufacturerDataList := v\<rparr>)))"

text \<open>The identifier is copied as it lies in memory, low byte first.\<close>

definition SetManufacturerData :: "'r env \<Rightarrow> nat \<Rightarrow> bytes \<Rightarrow> nat \<Rightarrow> NLSTK_DevdAdvResult \<Rightarrow> NLSTK_DevdAdvResult option" where
  "SetManufacturerData e len d p r =
     (if \<not> len > 2 then Some r
      else (case SDF_MemZalloc (sub e 0) of
        None \<Rightarrow> Some r
      | Some _ \<Rightarrow> do {
          i \<leftarrow> rd16 d p;
          t \<leftarrow> rd_block d (p + 2) (len - 2);
          Some (snd (AddManufacturerData (sub e 1) \<lparr>md_manufacturerId = i, md_len = len - 2, md_data = t\<rparr> r))
        }))"

section \<open>The parsers\<close>

definition BuildAdvData :: "'r env \<Rightarrow> u8 \<Rightarrow> nat \<Rightarrow> bytes \<Rightarrow> nat \<Rightarrow> NLSTK_DevdAdvResult \<Rightarrow> NLSTK_DevdAdvResult option" where
  "BuildAdvData e type len d p r =
     (if len = 0 then Some r
      else if type = 0x01 then SetDiscoveryLevel len d p r
      else if type = 0x03 then SetServiceData e len d p SERVICE_UUID_LEN_16 r
      else if type = 0x04 then SetServiceData e len d p SERVICE_UUID_LEN_128 r
      else if type = 0x05 \<or> type = 0x07 then SetServiceUuid e len d p SERVICE_UUID_LEN_16 r
      else if type = 0x0A \<or> type = 0x0B then SetLocalName e len d p r
      else if type = 0x0C then SetTxPower len d p r
      else if type = 0x10 then SetMeshInfo e len d p r
      else if type = 0xFF then SetManufacturerData e len d p r
      else Some r)"

text \<open>The loop over the device information; a name ends it.\<close>

function dis_loop :: "'r env \<Rightarrow> bytes \<Rightarrow> nat \<Rightarrow> nat \<Rightarrow> NLSTK_DevdAdvResult \<Rightarrow> NLSTK_DevdAdvResult option" where
  "dis_loop e d dLen i r =
     (if i + 2 < dLen
      then do {
        type \<leftarrow> rd8 d i;
        l \<leftarrow> rd8 d (i + 1);
        let len = unat l;
        if len = 0 \<or> i + 2 + len > dLen then Some r
        else if type = 0x06 then
          (let r1 = (if vd_data (localName r) \<noteq> None then r\<lparr>localName := (localName r)\<lparr>vd_len := 0\<rparr>\<rparr> else r) in
           (case SDF_MemZalloc e of
              None \<Rightarrow> Some (r1\<lparr>localName := (localName r1)\<lparr>vd_data := None\<rparr>\<rparr>)
            | Some _ \<Rightarrow> do { t \<leftarrow> rd_block d (i + 2) len; Some (r1\<lparr>localName := \<lparr>vd_len = len, vd_data = Some t\<rparr>\<rparr>) }))
        else dis_loop e d dLen (i + 2 + len) r
      }
      else Some r)"
  by pat_completeness auto
termination by (relation "measure (\<lambda>(e, d, dLen, i, r). dLen - i)") auto

definition DevdParseDisName :: "'r env \<Rightarrow> NLSTK_DevdAdvResult \<Rightarrow> NLSTK_DevdAdvResult option" where
  "DevdParseDisName e r =
     (case find (\<lambda>sd. sd_uuid sd = g_disUuid) (v_elems (serviceDataList r)) of
        None \<Rightarrow> Some r
      | Some sd \<Rightarrow> if sd_len sd = 0 then Some r else dis_loop e (sd_data sd) (sd_len sd) 0 r)"

function parse_loop :: "'r env \<Rightarrow> nat \<Rightarrow> bytes \<Rightarrow> nat \<Rightarrow> nat \<Rightarrow> NLSTK_DevdAdvResult \<Rightarrow> NLSTK_DevdAdvResult option" where
  "parse_loop e k d dLen pos r =
     (if pos < dLen
      then if pos + MIN_ADV_DATA_LEN > dLen then Some r
        else do {
          type \<leftarrow> rd8 d pos;
          l \<leftarrow> rd8 d (pos + 1);
          if pos + MIN_ADV_DATA_LEN + unat l > dLen then Some r
          else do {
            r1 \<leftarrow> BuildAdvData (sub e k) type (unat l) d (pos + MIN_ADV_DATA_LEN) r;
            parse_loop e (Suc k) d dLen (pos + MIN_ADV_DATA_LEN + unat l) r1
          }
        }
      else Some r)"
  by pat_completeness auto
termination by (relation "measure (\<lambda>(e, k, d, dLen, pos, r). dLen - pos)") auto

definition DevdParseAdvReport :: "'r env \<Rightarrow> NLSTK_DevdAdvResult \<Rightarrow> bytes \<Rightarrow> nat \<Rightarrow> (bool \<times> NLSTK_DevdAdvResult) option" where
  "DevdParseAdvReport e r d dLen =
     (if \<not> dLen \<le> MAX_ADV_DATA_LEN then Some (False, r)
      else do { r1 \<leftarrow> parse_loop (sub e 0) 0 d dLen 0 r; r2 \<leftarrow> DevdParseDisName (sub e 1) r1; Some (True, r2) })"

definition BuildAdvDataOld :: "'r env \<Rightarrow> u8 \<Rightarrow> nat \<Rightarrow> bytes \<Rightarrow> nat \<Rightarrow> NLSTK_DevdAdvResult \<Rightarrow> NLSTK_DevdAdvResult option" where
  "BuildAdvDataOld e type len d p r =
     (if len = 0 then Some r
      else if type = 0x01 then SetDiscoveryLevel len d p r
      else if type = 0x16 then SetServiceData e len d p SERVICE_UUID_LEN_16 r
      else if type = 0x21 then SetServiceData e len d p SERVICE_UUID_LEN_128 r
      else if type = 0x02 \<or> type = 0x03 then SetServiceUuid e len d p SERVICE_UUID_LEN_16 r
      else if type = 0x06 \<or> type = 0x07 then SetServiceUuid e len d p SERVICE_UUID_LEN_128 r
      else if type = 0x08 \<or> type = 0x09 then SetLocalName e len d p r
      else if type = 0x0A then SetTxPower len d p r
      else if type = 0x19 then Some r
      else if type = 0xFF then SetManufacturerData e len d p r
      else Some r)"

text \<open>In the old format the length comes first and counts the type.\<close>

function old_loop :: "'r env \<Rightarrow> nat \<Rightarrow> bytes \<Rightarrow> nat \<Rightarrow> nat \<Rightarrow> NLSTK_DevdAdvResult \<Rightarrow> (bool \<times> NLSTK_DevdAdvResult) option" where
  "old_loop e k d dLen pos r =
     (if pos < dLen
      then if pos + MIN_ADV_DATA_LEN > dLen then Some (True, r)
        else do {
          l \<leftarrow> rd8 d pos;
          if \<not> l \<noteq> 0 then Some (False, r)
          else if pos + 1 + unat l > dLen then Some (True, r)
          else do {
            type \<leftarrow> rd8 d (pos + 1);
            if unat l > 1
            then do {
              r1 \<leftarrow> BuildAdvDataOld (sub e k) type (unat l - 1) d (pos + 2) r;
              old_loop e (Suc k) d dLen (pos + 2 + (unat l - 1)) r1
            }
            else old_loop e (Suc k) d dLen (pos + 2) r
          }
        }
      else Some (True, r))"
  by pat_completeness auto
termination by (relation "measure (\<lambda>(e, k, d, dLen, pos, r). dLen - pos)") auto

definition DevdParseAdvReportOld :: "'r env \<Rightarrow> NLSTK_DevdAdvResult \<Rightarrow> bytes \<Rightarrow> nat \<Rightarrow> (bool \<times> NLSTK_DevdAdvResult) option" where
  "DevdParseAdvReportOld e r d dLen = (if \<not> dLen \<le> MAX_ADV_DATA_LEN then Some (False, r) else old_loop e 0 d dLen 0 r)"

section \<open>Reports\<close>

definition CreateAdvResult :: "'r env \<Rightarrow> NLSTK_DevdAdvResult option" where
  "CreateAdvResult e =
     (case SDF_MemZalloc (sub e 0) of
        None \<Rightarrow> None
      | Some _ \<Rightarrow> (case SDF_CreateVector (sub e 1) of
          None \<Rightarrow> None
        | Some v1 \<Rightarrow> (case SDF_CreateVector (sub e 2) of
            None \<Rightarrow> None
          | Some v2 \<Rightarrow> (case SDF_CreateVector (sub e 3) of
              None \<Rightarrow> None
            | Some v3 \<Rightarrow> Some \<lparr>ar_addr = \<lparr>sa_type = 0, sa_addr = replicate SLE_ADDR_LEN 0\<rparr>, ar_rssi = 0, ar_txPower = 0, ar_frameType = 0,
                ar_discoveryLevel = 0, ar_isConnectable = False, ar_isPencil = False, localName = \<lparr>vd_len = 0, vd_data = None\<rparr>,
                meshInfo = \<lparr>vd_len = 0, vd_data = None\<rparr>, serviceDataList = v1, serviceUuids = v2, manufacturerDataList = v3,
                advData = \<lparr>vd_len = 0, vd_data = None\<rparr>\<rparr>))))"

text \<open>Whether one of the two patterns of the pencil occurs; the second search is made only if the first fails.\<close>

definition is_pencil :: "'r env \<Rightarrow> AdvDataCache \<Rightarrow> bool option" where
  "is_pencil e c = do {
     i \<leftarrow> KmpSearchSimple (sub e 0) (ac_data c) (ac_len c) g_pencilAdvertstingData1 (length g_pencilAdvertstingData1);
     if i \<noteq> -1 then Some True
     else do {
       j \<leftarrow> KmpSearchSimple (sub e 1) (ac_data c) (ac_len c) g_pencilAdvertstingData2 (length g_pencilAdvertstingData2);
       Some (j \<noteq> -1)
     }
   }"

definition DevdGetParsedAdvResult :: "'r env \<Rightarrow> u8 \<Rightarrow> u8 \<Rightarrow> u8 \<Rightarrow> SLE_Addr \<Rightarrow> AdvDataCache \<Rightarrow> NLSTK_DevdAdvResult option option" where
  "DevdGetParsedAdvResult e advType frameType rssi a c =
     (case CreateAdvResult (sub e 0) of
        None \<Rightarrow> Some None
      | Some r0 \<Rightarrow> do {
          let r = r0\<lparr>ar_addr := a, ar_rssi := rssi, ar_frameType := frameType, ar_isConnectable := bit advType 0\<rparr>;
          pencil \<leftarrow> is_pencil (sub e 1) c;
          (ok, r1) \<leftarrow> (if pencil then DevdParseAdvReportOld (sub e 2) (r\<lparr>ar_isPencil := True\<rparr>) (ac_data c) (ac_len c)
                       else DevdParseAdvReport (sub e 2) r (ac_data c) (ac_len c));
          if \<not> ok then Some None
          else if ac_len c = 0 then Some None
          else (case SDF_MemZalloc (sub e 3) of
            None \<Rightarrow> Some None
          | Some _ \<Rightarrow> do { t \<leftarrow> rd_block (ac_data c) 0 (ac_len c); Some (Some (r1\<lparr>advData := \<lparr>vd_len = ac_len c, vd_data = Some t\<rparr>\<rparr>)) })
        })"

definition DevdAdvDataReport :: "'r env \<Rightarrow> NLSTK_DevdAdvReportInfo \<Rightarrow> AdvDataCache list \<Rightarrow> (NLSTK_DevdAdvResult option \<times> AdvDataCache list) option" where
  "DevdAdvDataReport e rp cs =
     (let advType = ri_eventType rp; frameType = ri_primFrameType rp; a = ri_addr rp; isScannable = bit advType 1; isScanRsp = bit advType 3 in
      if frameType = ADV_FRAME_TYPE_1 \<and> (isScannable \<or> isScanRsp) then
        if \<not> isScanRsp then do { (_, cs1) \<leftarrow> AddAdvDataCache (sub e 0) a (ri_data rp) (unat (ri_dataLength rp)) cs; Some (None, cs1) }
        else do {
          (c, cs1) \<leftarrow> AppendAdvDataCache (sub e 0) a (ri_data rp) (unat (ri_dataLength rp)) cs;
          (case c of
             None \<Rightarrow> Some (None, cs1)
           | Some c \<Rightarrow> do {
               r \<leftarrow> DevdGetParsedAdvResult (sub e 1) advType frameType (ri_rssi rp) a c;
               Some (r, ClearAdvDataCache a cs1)
             })
        }
      else if ri_dataLength rp = 0 then Some (None, cs)
      else (case SDF_MemZalloc (sub e 0) of
        None \<Rightarrow> Some (None, cs)
      | Some _ \<Rightarrow> (case SDF_MemZalloc (sub e 1) of
          None \<Rightarrow> Some (None, cs)
        | Some _ \<Rightarrow> do {
            t \<leftarrow> rd_block (ri_data rp) 0 (unat (ri_dataLength rp));
            r \<leftarrow> DevdGetParsedAdvResult (sub e 2) advType frameType (ri_rssi rp) a \<lparr>ac_addr = a, ac_len = unat (ri_dataLength rp), ac_data = t\<rparr>;
            Some (r, cs)
          })))"

definition DevdDataCacheInit :: "AdvDataCache list" where
  "DevdDataCacheInit = []"

definition DevdDataCacheDeInit :: "AdvDataCache list \<Rightarrow> AdvDataCache list" where
  "DevdDataCacheDeInit cs = []"

end
