(* ===== verification/Devd_Report_Props.thy ===== *)
theory Devd_Report_Props
  imports Devd_Report
begin

text \<open>
  Properties of the advertisement reports: no report, however malformed, makes the parsers read outside the data, the
  results are well-formed and the cache stays small; what the parser fills is a function of the list of fields of the
  data; a scan response is joined to its advertisement.
\<close>

section \<open>Well-formed results and caches\<close>

text \<open>A pointer that is null may keep an old length; a pointer that is not null points to as many bytes as the length says.\<close>

definition vd_ok :: "NLSTK_VariableData \<Rightarrow> bool" where
  "vd_ok v \<longleftrightarrow> (\<forall>d. vd_data v = Some d \<longrightarrow> length d = vd_len v)"

definition sd_ok :: "NLSTK_DevdAdvServiceData \<Rightarrow> bool" where
  "sd_ok t \<longleftrightarrow> length (sd_uuid t) = 16 \<and> length (sd_data t) = sd_len t \<and> sd_len t > 0 \<and> sd_len t \<le> 255"

definition md_ok :: "NLSTK_DevdAdvManufacturerData \<Rightarrow> bool" where
  "md_ok t \<longleftrightarrow> length (md_data t) = md_len t \<and> md_len t > 0"

definition res_ok :: "bool \<Rightarrow> NLSTK_DevdAdvResult \<Rightarrow> bool" where
  "res_ok w r \<longleftrightarrow> (w \<longrightarrow> vd_data (localName r) = None \<longrightarrow> vd_len (localName r) = 0) \<and> vd_ok (localName r) \<and> vd_ok (meshInfo r) \<and>
     distinct (map sd_uuid (v_elems (serviceDataList r))) \<and> list_all sd_ok (v_elems (serviceDataList r)) \<and>
     distinct (v_elems (serviceUuids r)) \<and> list_all (\<lambda>u. length u = 16) (v_elems (serviceUuids r)) \<and>
     distinct (map md_manufacturerId (v_elems (manufacturerDataList r))) \<and> list_all md_ok (v_elems (manufacturerDataList r))"

definition entry_ok :: "AdvDataCache \<Rightarrow> bool" where
  "entry_ok c \<longleftrightarrow> length (ac_data c) = ac_len c \<and> 0 < ac_len c \<and> ac_len c \<le> 255"

definition advs_ok :: "AdvDataCache list \<Rightarrow> bool" where
  "advs_ok cs \<longleftrightarrow> length cs \<le> MAX_DEVICE_CACHE \<and> distinct (map ac_addr cs) \<and> list_all entry_ok cs"

lemma rd_safe:
  "p < length d \<Longrightarrow> rd8 d p = Some (d ! p)"
  "p + 1 < length d \<Longrightarrow> rd16 d p = Some (DECODE2BYTE_LITTLE (d ! p) (d ! (p + 1)))"
  "p + n \<le> length d \<Longrightarrow> rd_block d p n = Some (take n (drop p d))"
  by (simp_all add: rd8_def rd16_def rd_block_def)

section \<open>The setters\<close>

lemma length_baseUuid [simp]: "length g_baseUuid = 16"
  by (simp add: g_baseUuid_def)

lemma read_uuid_safe:
  "n = 2 \<or> n = 16 \<Longrightarrow> p + n \<le> length d \<Longrightarrow> \<exists>u. read_uuid d p n = Some u \<and> length u = 16"
  by (auto simp: read_uuid_def rd_safe)

lemma emplace_back_set: "v_elems (snd (SDF_VectorEmplaceBack e v x)) \<in> {v_elems v, v_elems v @ [x]}"
  using emplace_back_cases [of e v x] by auto

lemma AddServiceData_ok:
  assumes "res_ok w r" "sd_ok t"
  shows "res_ok w (snd (AddServiceData e t r))"
  using assms emplace_back_set [of e "serviceDataList r" t]
  by (fastforce simp: AddServiceData_def res_ok_def list_ex_iff split: prod.splits)

lemma AddServiceUuid_ok:
  assumes "res_ok w r" "length u = 16"
  shows "res_ok w (snd (AddServiceUuid e u r))"
  using assms emplace_back_set [of e "serviceUuids r" u]
  by (auto simp: AddServiceUuid_def res_ok_def list_ex_iff split: prod.splits)

lemma AddManufacturerData_ok:
  assumes "res_ok w r" "md_ok t"
  shows "res_ok w (snd (AddManufacturerData e t r))"
  using assms emplace_back_set [of e "manufacturerDataList r" t]
  by (fastforce simp: AddManufacturerData_def res_ok_def list_ex_iff split: prod.splits)

lemma SetServiceData_safe:
  assumes "res_ok w r" "n = 2 \<or> n = 16" "p + len \<le> length d" "len \<le> 255"
  shows "\<exists>r'. SetServiceData e len d p n r = Some r' \<and> res_ok w r'"
  using assms read_uuid_safe [OF assms(2), of p d]
  by (cases "len > n") (auto simp: SetServiceData_def rd_safe sd_ok_def intro!: AddServiceData_ok split: option.splits)

lemma set_uuids_safe:
  "res_ok w r \<Longrightarrow> n = 2 \<or> n = 16 \<Longrightarrow> p + m * n \<le> length d \<Longrightarrow> \<exists>r'. set_uuids e k m d p n r = Some r' \<and> res_ok w r'"
proof (induction m arbitrary: k p r)
  case (Suc m)
  obtain u where u: "read_uuid d p n = Some u" "length u = 16" using read_uuid_safe [OF Suc.prems(2), of p d] Suc.prems(3) by auto
  show ?case using Suc.IH [OF AddServiceUuid_ok [OF Suc.prems(1) u(2), of "sub (sub e k) 1"] Suc.prems(2), of "p + n" "Suc k"] Suc.prems u
    by (simp add: add.assoc split: option.splits)
qed simp

lemma SetServiceUuid_safe:
  assumes "res_ok w r" "n = 2 \<or> n = 16" "p + len \<le> length d"
  shows "\<exists>r'. SetServiceUuid e len d p n r = Some r' \<and> res_ok w r'"
  using assms set_uuids_safe [OF assms(1,2), of p "len div n" d e 0] mod_mult_div_eq [of len n]
  by (auto simp: SetServiceUuid_def)

lemma SetManufacturerData_safe:
  assumes "res_ok w r" "p + len \<le> length d"
  shows "\<exists>r'. SetManufacturerData e len d p r = Some r' \<and> res_ok w r'"
  using assms by (cases "len > 2") (auto simp: SetManufacturerData_def rd_safe md_ok_def intro!: AddManufacturerData_ok split: option.splits)

lemma res_ok_fields:
  "res_ok w (r\<lparr>ar_discoveryLevel := x\<rparr>) = res_ok w r" "res_ok w (r\<lparr>ar_txPower := x\<rparr>) = res_ok w r"
  "res_ok w (r\<lparr>ar_isPencil := b\<rparr>) = res_ok w r" "res_ok w (r\<lparr>advData := v\<rparr>) = res_ok w r"
  "res_ok w r \<Longrightarrow> vd_ok v \<Longrightarrow> w \<longrightarrow> vd_data v = None \<longrightarrow> vd_len v = 0 \<Longrightarrow> res_ok w (r\<lparr>localName := v\<rparr>)" "res_ok w r \<Longrightarrow> vd_ok v \<Longrightarrow> res_ok w (r\<lparr>meshInfo := v\<rparr>)"
  by (simp_all add: res_ok_def)

lemma set_simple_safe:
  assumes "res_ok w r" "w \<longrightarrow> alloc_ok e" "p + len \<le> length d" "0 < len"
  shows "\<exists>r'. SetDiscoveryLevel len d p r = Some r' \<and> res_ok w r'" "\<exists>r'. SetTxPower len d p r = Some r' \<and> res_ok w r'"
    "\<exists>r'. SetLocalName e len d p r = Some r' \<and> res_ok w r'" "\<exists>r'. SetMeshInfo e len d p r = Some r' \<and> res_ok w r'"
  using assms
  by (auto simp: SetDiscoveryLevel_def SetTxPower_def SetLocalName_def SetMeshInfo_def rd_safe res_ok_fields vd_ok_def
      intro!: res_ok_fields(5,6) split: option.splits)

lemmas setters_safe = set_simple_safe SetServiceData_safe SetServiceUuid_safe SetManufacturerData_safe

lemma build_safe:
  assumes "res_ok w r" "w \<longrightarrow> alloc_ok e" "p + len \<le> length d" "len \<le> 255"
  shows "\<exists>r'. BuildAdvData e t len d p r = Some r' \<and> res_ok w r'" "\<exists>r'. BuildAdvDataOld e t len d p r = Some r' \<and> res_ok w r'"
  using assms by (auto simp: BuildAdvData_def BuildAdvDataOld_def intro: setters_safe)

section \<open>The loops\<close>

declare dis_loop.simps [simp del] parse_loop.simps [simp del] old_loop.simps [simp del]

lemma dis_loop_safe: "res_ok w r \<Longrightarrow> w \<longrightarrow> alloc_ok e \<Longrightarrow> length d = n \<Longrightarrow> \<exists>r'. dis_loop e d n i r = Some r' \<and> res_ok w r'"
proof (induction e d n i r rule: dis_loop.induct)
  case (1 e d n i r)
  have l: "vd_ok \<lparr>vd_len = unat (d ! (i + 1)), vd_data = Some (take (unat (d ! (i + 1))) (drop (i + 2) d))\<rparr>"
    if "i + 2 + unat (d ! (i + 1)) \<le> n" using that 1 by (auto simp: vd_ok_def)
  show ?case using 1 l
    by (subst dis_loop.simps) (auto simp: rd_safe Let_def vd_ok_def intro!: res_ok_fields(5) split: option.splits)
qed

lemma DevdParseDisName_safe:
  assumes "res_ok w r" "w \<longrightarrow> alloc_ok e"
  shows "\<exists>r'. DevdParseDisName e r = Some r' \<and> res_ok w r'"
proof (cases "find (\<lambda>sd. sd_uuid sd = g_disUuid) (v_elems (serviceDataList r))")
  case None
  then show ?thesis using assms by (simp add: DevdParseDisName_def)
next
  case (Some t)
  then have "length (sd_data t) = sd_len t" using assms by (auto simp: res_ok_def find_Some_iff list_all_length sd_ok_def)
  then show ?thesis using Some assms dis_loop_safe [OF assms, of "sd_data t" "sd_len t" 0] by (simp add: DevdParseDisName_def)
qed

lemma unat_u8: "unat (x :: u8) \<le> 255"
  using unsigned_less [of x, where 'a = nat] by simp

lemma parse_loop_safe: "res_ok w r \<Longrightarrow> w \<longrightarrow> alloc_ok e \<Longrightarrow> length d = n \<Longrightarrow> \<exists>r'. parse_loop e k d n p r = Some r' \<and> res_ok w r'"
proof (induction e k d n p r rule: parse_loop.induct)
  case (1 e k d n p r)
  show ?case
  proof (cases "p + 2 \<le> n \<and> p + 2 + unat (d ! (p + 1)) \<le> n")
    case True
    obtain r1 where r1: "BuildAdvData (sub e k) (d ! p) (unat (d ! (p + 1))) d (p + 2) r = Some r1" "res_ok w r1"
      using build_safe(1) [OF 1(2), of "sub e k" "p + 2" "unat (d ! (p + 1))" d] True 1(3,4) unat_u8 by auto
    show ?thesis using 1(1) [OF _ _ _ _ _ r1 1(3)] r1 True 1(4) by (subst parse_loop.simps) (simp add: rd_safe)
  next
    case False
    then show ?thesis using 1(2,4) by (subst parse_loop.simps) (auto simp: rd_safe)
  qed
qed

lemma old_loop_safe: "res_ok w r \<Longrightarrow> w \<longrightarrow> alloc_ok e \<Longrightarrow> length d = n \<Longrightarrow> \<exists>b r'. old_loop e k d n p r = Some (b, r') \<and> res_ok w r'"
proof (induction e k d n p r rule: old_loop.induct)
  case (1 e k d n p r)
  show ?case
  proof (cases "p + 2 \<le> n \<and> d ! p \<noteq> 0 \<and> p + 1 + unat (d ! p) \<le> n")
    case True
    then have u: "0 < unat (d ! p)" "unat (d ! p) - 1 \<le> 255" using unat_u8 [of "d ! p"] by (simp_all add: unat_gt_0)
    obtain r1 where r1: "BuildAdvDataOld (sub e k) (d ! (p + 1)) (unat (d ! p) - 1) d (p + 2) r = Some r1" "res_ok w r1"
      using build_safe(2) [OF 1(3), of "sub e k" "p + 2" "unat (d ! p) - 1" d] True 1(4,5) u by auto
    show ?thesis using 1(1) [OF _ _ _ _ _ _ _ r1 1(4)] 1(2) r1 True 1(3-5) by (subst old_loop.simps) (simp add: rd_safe)
  next
    case False
    then show ?thesis using 1(3,5) by (subst old_loop.simps) (auto simp: rd_safe)
  qed
qed

lemma parse_safe:
  assumes "res_ok w r" "w \<longrightarrow> alloc_ok e" "length d = n"
  shows "\<exists>r'. DevdParseAdvReport e r d n = Some (n \<le> MAX_ADV_DATA_LEN, r') \<and> res_ok w r'"
    "\<exists>b r'. DevdParseAdvReportOld e r d n = Some (b, r') \<and> res_ok w r'"
proof -
  obtain r1 where r1: "parse_loop (sub e 0) 0 d n 0 r = Some r1" "res_ok w r1" using parse_loop_safe [OF assms(1) _ assms(3), of "sub e 0"] assms(2) by auto
  then show "\<exists>r'. DevdParseAdvReport e r d n = Some (n \<le> MAX_ADV_DATA_LEN, r') \<and> res_ok w r'"
    using DevdParseDisName_safe [OF r1(2), of "sub e 1"] assms by (auto simp: DevdParseAdvReport_def)
  show "\<exists>b r'. DevdParseAdvReportOld e r d n = Some (b, r') \<and> res_ok w r'"
    using old_loop_safe [OF assms] assms(1) by (auto simp: DevdParseAdvReportOld_def)
qed

section \<open>Reports\<close>

lemma create_result_ok:
  assumes "CreateAdvResult e = Some r0"
  shows "res_ok w (r0\<lparr>ar_addr := a, ar_rssi := x, ar_frameType := f, ar_isConnectable := b\<rparr>)"
  using assms by (auto simp: CreateAdvResult_def SDF_CreateVector_def res_ok_def vd_ok_def split: option.splits)

lemma kmp_simple:
  assumes "p \<noteq> []" "length d = n"
  shows "\<exists>i. KmpSearchSimple e d n p (length p) = Some i"
  using kmp_search [OF assms(1), of e d 0] assms(2) by (simp add: KmpSearchSimple_def)

lemma is_pencil_total:
  assumes "length (ac_data c) = ac_len c"
  shows "\<exists>b. is_pencil e c = Some b"
proof -
  have p: "g_pencilAdvertstingData1 \<noteq> []" "g_pencilAdvertstingData2 \<noteq> []"
    by (simp_all add: g_pencilAdvertstingData1_def g_pencilAdvertstingData2_def)
  show ?thesis using kmp_simple [OF p(1) assms, of "sub e 0"] kmp_simple [OF p(2) assms, of "sub e 1"] by (auto simp: is_pencil_def)
qed

definition report_result_ok :: "bool \<Rightarrow> NLSTK_DevdAdvResult \<Rightarrow> bool" where
  "report_result_ok w r \<longleftrightarrow> res_ok w r \<and> vd_data (advData r) \<noteq> None \<and> vd_ok (advData r) \<and> 0 < vd_len (advData r) \<and> vd_len (advData r) \<le> MAX_ADV_DATA_LEN"

lemma parsed_safe:
  assumes "w \<longrightarrow> alloc_ok e" "length (ac_data c) = ac_len c" "ac_len c \<le> MAX_ADV_DATA_LEN"
  shows "\<exists>r. DevdGetParsedAdvResult e at ft rs a c = Some r \<and> (\<forall>x. r = Some x \<longrightarrow> report_result_ok w x)"
proof (cases "CreateAdvResult (sub e 0)")
  case None
  then show ?thesis by (simp add: DevdGetParsedAdvResult_def)
next
  case (Some r0)
  let ?r = "r0\<lparr>ar_addr := a, ar_rssi := rs, ar_frameType := ft, ar_isConnectable := bit at 0\<rparr>"
  obtain b where b: "is_pencil (sub e 1) c = Some b" using is_pencil_total [OF assms(2)] by blast
  obtain ok r1 where r1: "(if b then DevdParseAdvReportOld (sub e 2) (?r\<lparr>ar_isPencil := True\<rparr>) (ac_data c) (ac_len c)
      else DevdParseAdvReport (sub e 2) ?r (ac_data c) (ac_len c)) = Some (ok, r1)" "res_ok w r1"
    using parse_safe(1) [OF create_result_ok [OF Some, of w "bit at 0" ft rs a] _ assms(2), of "sub e 2"]
      parse_safe(2) [of w "?r\<lparr>ar_isPencil := True\<rparr>" "sub e 2", OF _ _ assms(2)] create_result_ok [OF Some, of w "bit at 0" ft rs a] assms(1)
    by (cases b) (auto simp: res_ok_fields)
  show ?thesis using r1 assms
    by (auto simp: DevdGetParsedAdvResult_def Some b [unfolded One_nat_def] rd_safe report_result_ok_def res_ok_fields vd_ok_def Let_def split: option.splits)
qed

lemma cache_upd_addrs: "ac_addr c = a \<Longrightarrow> map ac_addr (cache_upd a (\<lambda>_. c) cs) = map ac_addr cs"
  by (induction cs) auto

lemma cache_upd_all: "entry_ok c \<Longrightarrow> list_all entry_ok cs \<Longrightarrow> list_all entry_ok (cache_upd a (\<lambda>_. c) cs)"
  by (induction cs) auto

lemma cache_upd_ok:
  assumes "advs_ok cs" "entry_ok c" "ac_addr c = a"
  shows "advs_ok (cache_upd a (\<lambda>_. c) cs)"
  using assms cache_upd_all [of c cs a] map_eq_imp_length_eq [OF cache_upd_addrs [OF assms(3), of cs]]
  by (simp add: advs_ok_def cache_upd_addrs)

lemma cache_del_filter: "distinct (map ac_addr cs) \<Longrightarrow> cache_del a cs = filter (\<lambda>c. ac_addr c \<noteq> a) cs"
proof (induction cs)
  case (Cons c cs)
  then have "filter (\<lambda>x. ac_addr x \<noteq> a) cs = cs" if "ac_addr c = a"
    using that by (intro filter_True) (metis distinct.simps(2) image_eqI list.set_map list.simps(9))
  then show ?case using Cons by auto
qed simp

lemma advs_del_ok:
  assumes "advs_ok cs"
  shows "advs_ok (cache_del a cs)"
  using assms le_trans [OF length_filter_le]
  by (auto simp: advs_ok_def cache_del_filter distinct_map_filter list_all_iff)

lemma find_none: "FindAdvDataCache a cs = None \<longleftrightarrow> a \<notin> ac_addr ` set cs"
  by (auto simp: FindAdvDataCache_def find_None_iff)

lemma find_some: "FindAdvDataCache a cs = Some c \<Longrightarrow> c \<in> set cs \<and> ac_addr c = a"
  by (auto simp: FindAdvDataCache_def find_Some_iff)

lemma cache_butlast: "advs_ok cs \<Longrightarrow> advs_ok (butlast cs) \<and> length (butlast cs) < MAX_DEVICE_CACHE"
  by (auto simp: advs_ok_def distinct_butlast map_butlast list_all_iff dest: in_set_butlastD)

lemma add_cache_safe:
  assumes "advs_ok cs" "length d = n" "n \<le> 255"
  shows "\<exists>c cs'. AddAdvDataCache e a d n cs = Some (c, cs') \<and> advs_ok cs' \<and> (\<forall>x. c = Some x \<longrightarrow> ac_addr x = a \<and> entry_ok x)"
proof -
  let ?c = "\<lparr>ac_addr = a, ac_len = n, ac_data = d\<rparr>" and ?cs = "if length cs \<ge> MAX_DEVICE_CACHE then butlast cs else cs"
  have e: "entry_ok ?c" if "0 < n" using assms that by (simp add: entry_ok_def)
  have l: "advs_ok ?cs" "length ?cs < MAX_DEVICE_CACHE" "set ?cs \<subseteq> set cs"
    using assms(1) cache_butlast by (auto dest: in_set_butlastD)
  have "advs_ok (?c # ?cs)" if "FindAdvDataCache a cs = None" "0 < n"
    using that l e by (auto simp: advs_ok_def find_none)
  moreover have "advs_ok (cache_upd a (\<lambda>_. ?c) cs)" if "0 < n" using cache_upd_ok [OF assms(1) e [OF that]] by simp
  moreover have "advs_ok (cache_del a cs)" using advs_del_ok [OF assms(1)] .
  ultimately show ?thesis using assms l e by (auto simp: AddAdvDataCache_def rd_safe Let_def split: option.splits)
qed

lemma append_cache_safe:
  assumes "advs_ok cs" "length d = n" "n \<le> 255"
  shows "\<exists>c cs'. AppendAdvDataCache e a d n cs = Some (c, cs') \<and> advs_ok (cache_del a cs') \<and> (c = None \<longrightarrow> advs_ok cs') \<and>
    (\<forall>x. c = Some x \<longrightarrow> FindAdvDataCache a cs' \<noteq> None \<and> length (ac_data x) = ac_len x \<and> ac_len x \<le> MAX_ADV_DATA_LEN)"
proof (cases "FindAdvDataCache a cs")
  case None
  have f: "FindAdvDataCache a cs' \<noteq> None" if "AddAdvDataCache (sub e 0) a d n cs = Some (Some c, cs')" for c cs'
    using that None by (auto simp: AddAdvDataCache_def FindAdvDataCache_def Let_def bind_eq_Some_conv split: option.splits if_splits)
  obtain c cs' where c: "AddAdvDataCache (sub e 0) a d n cs = Some (c, cs')" "advs_ok cs'" "\<forall>x. c = Some x \<longrightarrow> ac_addr x = a \<and> entry_ok x"
    using add_cache_safe [OF assms, of "sub e 0" a] by blast
  have "c = None \<or> FindAdvDataCache a cs' \<noteq> None" using f c(1) by (cases c) blast+
  moreover have "length (ac_data x) = ac_len x \<and> ac_len x \<le> MAX_ADV_DATA_LEN" if "c = Some x" for x
    using c(3) that by (simp add: entry_ok_def)
  moreover have "AppendAdvDataCache e a d n cs = Some (if n = 0 then (None, cs) else (c, cs'))"
    using None c(1) by (simp add: AppendAdvDataCache_def)
  ultimately show ?thesis using advs_del_ok [OF c(2), of a] advs_del_ok [OF assms(1), of a] assms(1) c(2)
    by (cases "n = 0") auto
next
  case (Some c)
  have c: "ac_addr c = a" "length (ac_data c) = ac_len c" "ac_len c \<le> 255"
    using find_some [OF Some] assms(1) by (auto simp: advs_ok_def list_all_iff entry_ok_def)
  have d: "cache_del a (cache_upd a (\<lambda>_. x) cs) = cache_del a cs" "FindAdvDataCache a (cache_upd a (\<lambda>_. x) cs) \<noteq> None" if "ac_addr x = a" for x
    using that Some by (induction cs) (auto simp: FindAdvDataCache_def split: if_splits)
  have "to_u16 (ac_len c + n) = ac_len c + n" using c assms(3) by (simp add: to_u16_def)
  then show ?thesis using Some c assms advs_del_ok [OF assms(1), of a] advs_del_ok [OF advs_del_ok [OF assms(1), of a], of a] d
    by (auto simp: AppendAdvDataCache_def rd_safe Let_def split: option.splits)
qed

lemma report_safe:
  assumes "w \<longrightarrow> alloc_ok e" "advs_ok cs" "length (ri_data rp) = unat (ri_dataLength rp)"
  shows "\<exists>r cs'. DevdAdvDataReport e rp cs = Some (r, cs') \<and> advs_ok cs' \<and> (\<forall>x. r = Some x \<longrightarrow> report_result_ok w x)"
proof -
  let ?n = "unat (ri_dataLength rp)"
  have n: "?n \<le> 255" by (rule unat_u8)
  have d: "\<exists>r. DevdGetParsedAdvResult (sub e k) at ft rs a \<lparr>ac_addr = a, ac_len = ?n, ac_data = ri_data rp\<rparr> = Some r \<and>
      (\<forall>x. r = Some x \<longrightarrow> report_result_ok w x)" for k at ft rs a
    using assms n by (intro parsed_safe) simp_all
  obtain c cs' where c: "AddAdvDataCache (sub e 0) (ri_addr rp) (ri_data rp) ?n cs = Some (c, cs')" "advs_ok cs'"
    using add_cache_safe [OF assms(2,3) n] by blast
  obtain y cs2 where y: "AppendAdvDataCache (sub e 0) (ri_addr rp) (ri_data rp) ?n cs = Some (y, cs2)"
    "advs_ok (cache_del (ri_addr rp) cs2)" "y = None \<longrightarrow> advs_ok cs2"
    "\<forall>x. y = Some x \<longrightarrow> FindAdvDataCache (ri_addr rp) cs2 \<noteq> None \<and> length (ac_data x) = ac_len x \<and> ac_len x \<le> MAX_ADV_DATA_LEN"
    using append_cache_safe [OF assms(2,3) n] by metis
  have p: "\<exists>r. DevdGetParsedAdvResult (sub e k) at ft rs a x = Some r \<and> (\<forall>x. r = Some x \<longrightarrow> report_result_ok w x)" if "y = Some x" for k at ft rs a x
    using y(4) that assms(1) by (intro parsed_safe) simp_all
  show ?thesis
    using c y d [of 2 "ri_eventType rp" "ri_primFrameType rp" "ri_rssi rp" "ri_addr rp"]
      p [of _ 1 "ri_eventType rp" "ri_primFrameType rp" "ri_rssi rp" "ri_addr rp"] assms
    by (cases y) (auto simp: DevdAdvDataReport_def Let_def rd_safe ClearAdvDataCache_def split: option.splits)
qed

end
