(* ===== verification/Devd_Report_Spec.thy ===== *)
theory Devd_Report_Spec
  imports Devd_Report_Props
begin

text \<open>
  What the parser of advertisements promises, as a function of the list of fields of the data, and the refinement
  lemma of the parser loops. For a field that may occur once the last one counts; of the lists the first entry under
  each key.
\<close>

section \<open>Specification\<close>

text \<open>The type-length-value fields; a field that does not fit ends the list.\<close>

fun adv_fields :: "bytes \<Rightarrow> (u8 \<times> bytes) list" where
  "adv_fields (t # l # r) = (if unat l \<le> length r then (t, take (unat l) r) # adv_fields (drop (unat l) r) else [])"
| "adv_fields _ = []"

definition tlv :: "u8 \<times> bytes \<Rightarrow> bytes" where
  "tlv f = fst f # of_nat (length (snd f)) # snd f"

text \<open>Of the elements with the same key the first.\<close>

fun firsts :: "('a \<Rightarrow> 'b) \<Rightarrow> 'a list \<Rightarrow> 'a list" where
  "firsts k [] = []"
| "firsts k (x # xs) = x # filter (\<lambda>y. k y \<noteq> k x) (firsts k xs)"

text \<open>The value of the last field of some types whose value has an accepted length.\<close>

definition last_value :: "u8 set \<Rightarrow> (nat \<Rightarrow> bool) \<Rightarrow> (u8 \<times> bytes) list \<Rightarrow> bytes option" where
  "last_value ts ok fs = (let gs = filter (\<lambda>(t, v). t \<in> ts \<and> ok (length v)) fs in if gs = [] then None else Some (snd (last gs)))"

record adv =
  adv_from :: SLE_Addr
  adv_level :: u8
  adv_tx :: u8
  adv_name :: "bytes option"
  adv_mesh :: "bytes option"
  adv_services :: "(bytes \<times> bytes) list"
  adv_uuids :: "bytes list"
  adv_makers :: "(u16 \<times> bytes) list"

definition uuid16 :: "u8 \<Rightarrow> u8 \<Rightarrow> bytes" where
  "uuid16 x y = g_baseUuid[15 := x, 14 := y]"

fun uuids16 :: "bytes \<Rightarrow> bytes list" where
  "uuids16 (x # y # r) = uuid16 x y # uuids16 r"
| "uuids16 _ = []"

definition services_of :: "u8 \<times> bytes \<Rightarrow> (bytes \<times> bytes) list" where
  "services_of f = (case f of (t, v) \<Rightarrow>
     if t = 3 \<and> length v > 2 then [(uuid16 (v ! 0) (v ! 1), drop 2 v)]
     else if t = 4 \<and> length v > 16 then [(take 16 v, drop 16 v)] else [])"

definition uuids_of :: "u8 \<times> bytes \<Rightarrow> bytes list" where
  "uuids_of f = (case f of (t, v) \<Rightarrow> if (t = 5 \<or> t = 7) \<and> even (length v) then uuids16 v else [])"

definition makers_of :: "u8 \<times> bytes \<Rightarrow> (u16 \<times> bytes) list" where
  "makers_of f = (case f of (t, v) \<Rightarrow> if t = 0xFF \<and> length v > 2 then [(DECODE2BYTE_LITTLE (v ! 0) (v ! 1), drop 2 v)] else [])"

definition adv_of :: "SLE_Addr \<Rightarrow> (u8 \<times> bytes) list \<Rightarrow> adv" where
  "adv_of a fs = \<lparr>adv_from = a, adv_level = (case last_value {1} (\<lambda>n. n = 1) fs of None \<Rightarrow> 0 | Some v \<Rightarrow> hd v),
     adv_tx = (case last_value {0x0C} (\<lambda>n. n = 1) fs of None \<Rightarrow> 0 | Some v \<Rightarrow> hd v),
     adv_name = last_value {0x0A, 0x0B} (\<lambda>n. n > 0) fs, adv_mesh = last_value {0x10} (\<lambda>n. n > 0) fs,
     adv_services = firsts fst (concat (map services_of fs)), adv_uuids = firsts id (concat (map uuids_of fs)),
     adv_makers = firsts fst (concat (map makers_of fs))\<rparr>"

text \<open>The device information, one of the services, may carry a name, which then replaces the name of the advertisement.\<close>

definition dis_name :: "bytes \<Rightarrow> bytes option" where
  "dis_name d = map_of (takeWhile (\<lambda>(t, v). v \<noteq> []) (adv_fields d)) 0x06"

definition adv_named :: "adv \<Rightarrow> adv" where
  "adv_named a = (case Option.bind (map_of (adv_services a) g_disUuid) dis_name of None \<Rightarrow> a | Some n \<Rightarrow> a\<lparr>adv_name := Some n\<rparr>)"

definition adv_view :: "NLSTK_DevdAdvResult \<Rightarrow> adv" where
  "adv_view r = \<lparr>adv_from = ar_addr r, adv_level = ar_discoveryLevel r, adv_tx = ar_txPower r, adv_name = vd_data (localName r), adv_mesh = vd_data (meshInfo r),
     adv_services = map (\<lambda>t. (sd_uuid t, sd_data t)) (v_elems (serviceDataList r)), adv_uuids = v_elems (serviceUuids r),
     adv_makers = map (\<lambda>t. (md_manufacturerId t, md_data t)) (v_elems (manufacturerDataList r))\<rparr>"

section \<open>One field\<close>

definition add_new :: "('a \<Rightarrow> 'b) \<Rightarrow> 'a \<Rightarrow> 'a list \<Rightarrow> 'a list" where
  "add_new k x xs = (if k x \<in> k ` set xs then xs else xs @ [x])"

definition adv_put :: "u8 \<times> bytes \<Rightarrow> adv \<Rightarrow> adv" where
  "adv_put f a = (case f of (t, v) \<Rightarrow>
     a\<lparr>adv_level := (if t = 1 \<and> length v = 1 then hd v else adv_level a), adv_tx := (if t = 0x0C \<and> length v = 1 then hd v else adv_tx a),
       adv_name := (if (t = 0x0A \<or> t = 0x0B) \<and> v \<noteq> [] then Some v else adv_name a),
       adv_mesh := (if t = 0x10 \<and> v \<noteq> [] then Some v else adv_mesh a),
       adv_services := fold (add_new fst) (services_of f) (adv_services a), adv_uuids := fold (add_new id) (uuids_of f) (adv_uuids a),
       adv_makers := fold (add_new fst) (makers_of f) (adv_makers a)\<rparr>)"

lemma firsts_snoc: "firsts k (xs @ [x]) = add_new k x (firsts k xs)"
proof (induction xs)
  case (Cons y xs)
  have "k x \<in> k ` set (firsts k (y # xs)) \<longleftrightarrow> k x = k y \<or> k x \<in> k ` set (firsts k xs)"
    by (auto simp: image_iff)
  then show ?case using Cons by (auto simp: add_new_def)
qed (simp add: add_new_def)

lemma firsts_append: "firsts k (xs @ ys) = fold (add_new k) ys (firsts k xs)"
proof (induction ys arbitrary: xs)
  case (Cons y ys)
  show ?case using Cons [of "xs @ [y]"] by (simp add: firsts_snoc)
qed simp

lemma last_value_snoc: "last_value ts ok (fs @ [(t, v)]) = (if t \<in> ts \<and> ok (length v) then Some v else last_value ts ok fs)"
  by (auto simp: last_value_def Let_def)

lemma adv_of_fold: "adv_of a fs = fold adv_put fs \<lparr>adv_from = a, adv_level = 0, adv_tx = 0, adv_name = None, adv_mesh = None, adv_services = [], adv_uuids = [], adv_makers = []\<rparr>"
proof (induction fs rule: rev_induct)
  case Nil
  show ?case by (simp add: adv_of_def last_value_def)
next
  case (snoc f fs)
  obtain t v where f: "f = (t, v)" by fastforce
  have "adv_of a (fs @ [f]) = adv_put f (adv_of a fs)"
    by (simp add: adv_of_def adv_put_def f last_value_snoc firsts_append)
  then show ?case using snoc by simp
qed

section \<open>Refinement\<close>

lemma add_views:
  assumes "alloc_ok e"
  shows "adv_view (snd (AddServiceData e t r)) = (adv_view r)\<lparr>adv_services := add_new fst (sd_uuid t, sd_data t) (adv_services (adv_view r))\<rparr>"
    "adv_view (snd (AddServiceUuid e u r)) = (adv_view r)\<lparr>adv_uuids := add_new id u (adv_uuids (adv_view r))\<rparr>"
    "adv_view (snd (AddManufacturerData e m r)) = (adv_view r)\<lparr>adv_makers := add_new fst (md_manufacturerId m, md_data m) (adv_makers (adv_view r))\<rparr>"
  using emplace_back_ok [OF assms, of "serviceDataList r" t] emplace_back_ok [OF assms, of "serviceUuids r" u]
    emplace_back_ok [OF assms, of "manufacturerDataList r" m]
  by (auto simp: AddServiceData_def AddServiceUuid_def AddManufacturerData_def adv_view_def add_new_def list_ex_iff image_iff split: prod.splits)

text \<open>The value of a field as it lies in the data.\<close>

definition at_pos :: "bytes \<Rightarrow> nat \<Rightarrow> bytes \<Rightarrow> bool" where
  "at_pos d p v \<longleftrightarrow> p + length v \<le> length d \<and> take (length v) (drop p d) = v"

lemma at_pos_nth: "at_pos d p v \<Longrightarrow> i < length v \<Longrightarrow> p + i < length d \<and> d ! (p + i) = v ! i"
  by (metis (no_types, lifting) add_less_cancel_left at_pos_def le_trans nth_drop nth_take order_less_le_trans add_leD1)

lemma at_pos_part:
  assumes "at_pos d p v" "k + n \<le> length v"
  shows "rd_block d (p + k) n = Some (take n (drop k v))"
proof -
  have "drop k v = take (length v - k) (drop (p + k) d)"
    using assms(1) drop_take [of k "length v" "drop p d"] by (simp add: at_pos_def add.commute)
  then show ?thesis using assms by (simp add: rd_block_def at_pos_def min_absorb2)
qed

lemma at_pos_rd:
  "at_pos d p v \<Longrightarrow> i < length v \<Longrightarrow> rd8 d (p + i) = Some (v ! i)"
  "at_pos d p v \<Longrightarrow> 1 < length v \<Longrightarrow> rd16 d p = Some (DECODE2BYTE_LITTLE (v ! 0) (v ! 1))"
  using at_pos_nth [of d p v i] at_pos_nth [of d p v 0] at_pos_nth [of d p v 1] by (cases v; auto simp: rd8_def rd16_def)+

lemma at_pos_all: "at_pos d p v \<Longrightarrow> rd_block d p (length v) = Some v"
  by (simp add: at_pos_def rd_block_def)

lemma read_uuid_at:
  "at_pos d p v \<Longrightarrow> 1 < length v \<Longrightarrow> read_uuid d p 2 = Some (uuid16 (v ! 0) (v ! 1))"
  "at_pos d p v \<Longrightarrow> 16 \<le> length v \<Longrightarrow> read_uuid d p 16 = Some (take 16 v)"
  using at_pos_rd(1) [of d p v 0] at_pos_rd(1) [of d p v 1] at_pos_part [of d p v 0 16]
  by (cases v; auto simp: read_uuid_def uuid16_def)+

lemma SetServiceData_view:
  assumes "alloc_ok e" "at_pos d p v" "n = 2 \<or> n = 16"
  shows "\<exists>r'. SetServiceData e (length v) d p n r = Some r' \<and>
    adv_view r' = (adv_view r)\<lparr>adv_services := fold (add_new fst) (services_of (if n = 2 then 3 else 4, v)) (adv_services (adv_view r))\<rparr>"
proof (cases "length v > n")
  case True
  have r: "read_uuid d p n = Some (if n = 2 then uuid16 (v ! 0) (v ! 1) else take 16 v)" using read_uuid_at [OF assms(2)] assms(3) True by auto
  have b: "rd_block d (p + n) (length v - n) = Some (drop n v)" using at_pos_part [OF assms(2), of n "length v - n"] True by simp
  show ?thesis using assms(3) True alloc_okD [of "sub e 0"] assms(1) r b
    by (auto simp: SetServiceData_def add_views services_of_def)
next
  case False
  then show ?thesis using assms(3) by (auto simp: SetServiceData_def services_of_def)
qed

lemma set_uuids_view:
  assumes "alloc_ok e"
  shows "at_pos d p v \<Longrightarrow> length v = 2 * m \<Longrightarrow> \<exists>r'. set_uuids e k m d p 2 r = Some r' \<and>
    adv_view r' = (adv_view r)\<lparr>adv_uuids := fold (add_new id) (uuids16 v) (adv_uuids (adv_view r))\<rparr>"
proof (induction m arbitrary: k p v r)
  case (Suc m)
  obtain x y w where v: "v = x # y # w" using Suc.prems(2) by (cases v; cases "tl v") auto
  have w: "at_pos d (p + 2) w" "length w = 2 * m"
    using Suc.prems at_pos_part [OF Suc.prems(1), of 2 "2 * m"] by (auto simp: v at_pos_def rd_block_def)
  show ?case
    using Suc.IH [OF w, of "Suc k" "snd (AddServiceUuid (sub (sub e k) 1) (uuid16 x y) r)"] read_uuid_at(1) [OF Suc.prems(1)] v
      alloc_okD [of "sub (sub e k) 0"] assms
    by (auto simp: add_views id_def)
qed simp

lemma adv_view_upd:
  "adv_view (r\<lparr>ar_discoveryLevel := x\<rparr>) = (adv_view r)\<lparr>adv_level := x\<rparr>" "adv_view (r\<lparr>ar_txPower := x\<rparr>) = (adv_view r)\<lparr>adv_tx := x\<rparr>"
  "adv_view (r\<lparr>localName := w\<rparr>) = (adv_view r)\<lparr>adv_name := vd_data w\<rparr>" "adv_view (r\<lparr>meshInfo := w\<rparr>) = (adv_view r)\<lparr>adv_mesh := vd_data w\<rparr>"
  "adv_view (r\<lparr>advData := w\<rparr>) = adv_view r" "adv_view (r\<lparr>ar_isPencil := b\<rparr>) = adv_view r"
  by (simp_all add: adv_view_def)

lemma build_view:
  assumes "alloc_ok e" "at_pos d p v"
  shows "\<exists>r'. BuildAdvData e t (length v) d p r = Some r' \<and> adv_view r' = adv_put (t, v) (adv_view r)"
proof -
  consider "v = []" | "v \<noteq> []" "t = 3" | "v \<noteq> []" "t = 4" | "v \<noteq> []" "t = 5 \<or> t = 7" | "v \<noteq> []" "t \<noteq> 3" "t \<noteq> 4" "t \<noteq> 5" "t \<noteq> 7" by blast
  then show ?thesis
  proof cases
    case 1
    then show ?thesis by (simp add: BuildAdvData_def adv_put_def services_of_def uuids_of_def makers_of_def)
  next
    case 2
    then show ?thesis using SetServiceData_view [OF assms, of 2 r] by (auto simp: BuildAdvData_def adv_put_def uuids_of_def makers_of_def)
  next
    case 3
    then show ?thesis using SetServiceData_view [OF assms, of 16 r] by (auto simp: BuildAdvData_def adv_put_def uuids_of_def makers_of_def)
  next
    case 4
    have s: "BuildAdvData e t (length v) d p r = (if odd (length v) then Some r else set_uuids e 0 (length v div 2) d p 2 r)"
      using 4 even_iff_mod_2_eq_zero [of "length v"] by (elim disjE) (simp_all add: BuildAdvData_def SetServiceUuid_def)
    have "adv_put (t, v) (adv_view r) = (if odd (length v) then adv_view r else (adv_view r)\<lparr>adv_uuids := fold (add_new id) (uuids16 v) (adv_uuids (adv_view r))\<rparr>)"
      using 4 by (elim disjE) (simp_all add: adv_put_def services_of_def makers_of_def uuids_of_def)
    then show ?thesis using set_uuids_view [OF assms, of "length v div 2" 0 r] s by (cases "odd (length v)") auto
  next
    case 5
    have b: "length v > 2 \<Longrightarrow> rd_block d (p + 2) (length v - 2) = Some (drop 2 v)" using at_pos_part [OF assms(2), of 2 "length v - 2"] by simp
    then show ?thesis using 5 alloc_okD [OF assms(1)] alloc_okD [of "sub e 0"] assms(1) at_pos_all [OF assms(2)] at_pos_rd(1) [OF assms(2), of 0] at_pos_rd(2) [OF assms(2)]
      by (auto simp: BuildAdvData_def SetDiscoveryLevel_def SetTxPower_def SetLocalName_def SetMeshInfo_def SetManufacturerData_def
          adv_put_def services_of_def uuids_of_def makers_of_def add_views adv_view_upd hd_conv_nth)
  qed
qed

lemma drop_two: "p + 2 \<le> length d \<Longrightarrow> drop p d = d ! p # d ! (p + 1) # drop (p + 2) d"
  by (simp add: Cons_nth_drop_Suc)

lemma at_pos_take: "p + n \<le> length d \<Longrightarrow> at_pos d p (take n (drop p d))"
  by (simp add: at_pos_def min_absorb2)

lemma adv_fields_drop:
  "adv_fields (drop p d) = (if p + 2 \<le> length d \<and> p + 2 + unat (d ! (p + 1)) \<le> length d
     then (d ! p, take (unat (d ! (p + 1))) (drop (p + 2) d)) # adv_fields (drop (p + 2 + unat (d ! (p + 1))) d) else [])"
proof (cases "p + 2 \<le> length d")
  case True
  then show ?thesis by (subst drop_two [OF True]) (auto simp: add.commute add.left_commute)
next
  case False
  then have "length (drop p d) < 2" by simp
  then have "adv_fields (drop p d) = []" by (cases "drop p d" rule: adv_fields.cases) auto
  then show ?thesis using False by simp
qed

lemma parse_loop_view:
  "alloc_ok e \<Longrightarrow> length d = n \<Longrightarrow> \<exists>r'. parse_loop e k d n p r = Some r' \<and> adv_view r' = fold adv_put (adv_fields (drop p d)) (adv_view r)"
proof (induction e k d n p r rule: parse_loop.induct)
  case (1 e k d n p r)
  show ?case
  proof (cases "p + 2 \<le> n \<and> p + 2 + unat (d ! (p + 1)) \<le> n")
    case True
    let ?v = "take (unat (d ! (p + 1))) (drop (p + 2) d)"
    have a: "at_pos d (p + 2) ?v" "length ?v = unat (d ! (p + 1))" using at_pos_take [of "p + 2" "unat (d ! (p + 1))" d] True 1(3) by auto
    obtain r1 where r1: "BuildAdvData (sub e k) (d ! p) (unat (d ! (p + 1))) d (p + 2) r = Some r1" "adv_view r1 = adv_put (d ! p, ?v) (adv_view r)"
      using build_view [OF _ a(1), of "sub e k" "d ! p" r] a(2) 1(2) by auto
    show ?thesis using 1(1) [OF _ _ _ _ _ r1(1) 1(2,3)] r1 True 1(3) adv_fields_drop [of p d]
      by (subst parse_loop.simps) (simp add: rd_safe)
  next
    case False
    then show ?thesis using 1(2,3) adv_fields_drop [of p d] by (subst parse_loop.simps) (auto simp: rd_safe)
  qed
qed

lemma dis_loop_view:
  "alloc_ok e \<Longrightarrow> length d = n \<Longrightarrow> \<exists>r'. dis_loop e d n i r = Some r' \<and>
     adv_view r' = (case map_of (takeWhile (\<lambda>(t, v). v \<noteq> []) (adv_fields (drop i d))) 0x06 of None \<Rightarrow> adv_view r | Some v \<Rightarrow> (adv_view r)\<lparr>adv_name := Some v\<rparr>)"
proof (induction e d n i r rule: dis_loop.induct)
  case (1 e d n i r)
  let ?l = "unat (d ! (i + 1))"
  show ?case
  proof (cases "i + 2 < n \<and> ?l \<noteq> 0 \<and> i + 2 + ?l \<le> n")
    case True
    have f: "adv_fields (drop i d) = (d ! i, take ?l (drop (i + 2) d)) # adv_fields (drop (i + 2 + ?l) d)" "take ?l (drop (i + 2) d) \<noteq> []"
      using adv_fields_drop [of i d] True 1(3) by auto
    obtain a where a: "SDF_MemZalloc e = Some a" using alloc_okD [OF 1(2)] by blast
    show ?thesis
    proof (cases "d ! i = 6")
      case six: True
      then show ?thesis using True 1(3) a f by (subst dis_loop.simps) (simp add: rd_safe Let_def adv_view_upd)
    next
      case False
      have "\<exists>r'. dis_loop e d n (i + 2 + ?l) r = Some r' \<and> adv_view r' = (case map_of (takeWhile (\<lambda>(t, v). v \<noteq> []) (adv_fields (drop (i + 2 + ?l) d))) 0x06 of
          None \<Rightarrow> adv_view r | Some v \<Rightarrow> (adv_view r)\<lparr>adv_name := Some v\<rparr>)"
        using True False 1(3) by (intro 1(1) [OF _ _ _ refl _ _ 1(2,3)]) (auto simp: rd_safe)
      then show ?thesis using True False 1(3) f by (subst dis_loop.simps) (simp add: rd_safe Let_def)
    qed
  next
    case False
    have "takeWhile (\<lambda>(t, v). v \<noteq> []) (adv_fields (drop i d)) = []"
      using False 1(3) by (subst adv_fields_drop) (auto simp: unat_gt_0)
    moreover have "dis_loop e d n i r = Some r" using False 1(3) by (subst dis_loop.simps) (auto simp: rd_safe Let_def)
    ultimately show ?thesis by simp
  qed
qed

lemma map_of_find: "map_of (map (\<lambda>t. (f t, g t)) xs) k = map_option g (find (\<lambda>t. f t = k) xs)"
  by (induction xs) auto

lemma dis_view:
  assumes "alloc_ok e" "res_ok w r"
  shows "\<exists>r'. DevdParseDisName e r = Some r' \<and> adv_view r' = adv_named (adv_view r)"
proof -
  have m: "map_of (adv_services (adv_view r)) g_disUuid = map_option sd_data (find (\<lambda>t. sd_uuid t = g_disUuid) (v_elems (serviceDataList r)))"
    by (simp add: adv_view_def map_of_find)
  show ?thesis
  proof (cases "find (\<lambda>t. sd_uuid t = g_disUuid) (v_elems (serviceDataList r))")
    case None
    then show ?thesis using m by (simp add: DevdParseDisName_def adv_named_def)
  next
    case (Some t)
    then have "length (sd_data t) = sd_len t" "sd_len t \<noteq> 0" using assms(2) by (auto simp: res_ok_def find_Some_iff list_all_length sd_ok_def)
    then show ?thesis using Some m dis_loop_view [OF assms(1), of "sd_data t" "sd_len t" 0 r]
      by (simp add: DevdParseDisName_def adv_named_def dis_name_def split: option.splits)
  qed
qed

definition no_adv :: "SLE_Addr \<Rightarrow> adv" where
  "no_adv a = \<lparr>adv_from = a, adv_level = 0, adv_tx = 0, adv_name = None, adv_mesh = None, adv_services = [], adv_uuids = [], adv_makers = []\<rparr>"

lemma parse_refines:
  assumes "alloc_ok e" "res_ok w r" "adv_view r = no_adv a" "length d = n" "n \<le> MAX_ADV_DATA_LEN"
  shows "\<exists>r'. DevdParseAdvReport e r d n = Some (True, r') \<and> adv_view r' = adv_named (adv_of a (adv_fields d))"
proof -
  obtain r1 where r1: "parse_loop (sub e 0) 0 d n 0 r = Some r1" "adv_view r1 = adv_of a (adv_fields d)"
    using parse_loop_view [of "sub e 0" d n 0 0 r] assms by (auto simp: adv_of_fold no_adv_def)
  moreover have "res_ok w r1" using parse_loop_safe [OF assms(2) _ assms(4), of "sub e 0" 0 0] assms(1) r1(1) by auto
  ultimately show ?thesis using dis_view [of "sub e 1" w r1] assms by (auto simp: DevdParseAdvReport_def)
qed

lemma fields_tlv:
  assumes "list_all (\<lambda>f. length (snd f) \<le> 255) fs"
  shows "adv_fields (concat (map tlv fs)) = fs"
  using assms
proof (induction fs)
  case (Cons f fs)
  then have "unat (of_nat (length (snd f)) :: u8) = length (snd f)" by (intro unat_of_nat_u8) simp
  then show ?case using Cons by (simp add: tlv_def)
qed simp

section \<open>Sequences of reports\<close>

definition report_wf :: "NLSTK_DevdAdvReportInfo \<Rightarrow> bool" where
  "report_wf rp \<longleftrightarrow> length (ri_data rp) = unat (ri_dataLength rp)"

fun run_reports :: "'r env \<Rightarrow> nat \<Rightarrow> NLSTK_DevdAdvReportInfo list \<Rightarrow> AdvDataCache list \<Rightarrow> (NLSTK_DevdAdvResult option list \<times> AdvDataCache list) option" where
  "run_reports e k [] cs = Some ([], cs)"
| "run_reports e k (rp # rps) cs = do { (r, cs1) \<leftarrow> DevdAdvDataReport (sub e k) rp cs; (rs, cs2) \<leftarrow> run_reports e (Suc k) rps cs1; Some (r # rs, cs2) }"

lemma run_safe:
  "w \<longrightarrow> alloc_ok e \<Longrightarrow> advs_ok cs \<Longrightarrow> list_all report_wf rps \<Longrightarrow> \<exists>rs cs'. run_reports e k rps cs = Some (rs, cs') \<and> length rs = length rps \<and> advs_ok cs' \<and>
     (\<forall>r. Some r \<in> set rs \<longrightarrow> report_result_ok w r)"
proof (induction rps arbitrary: cs k)
  case (Cons rp rps)
  obtain r cs1 where r: "DevdAdvDataReport (sub e k) rp cs = Some (r, cs1)" "advs_ok cs1" "\<forall>x. r = Some x \<longrightarrow> report_result_ok w x"
    using report_safe [OF _ Cons.prems(2), of w "sub e k" rp] Cons.prems(1,3) by (auto simp: report_wf_def)
  show ?case using Cons.IH [OF Cons.prems(1) r(2), of "Suc k"] Cons.prems(3) r by auto
qed simp

text \<open>
  No report is dangerous (C14). From the start of the module on, every sequence of advertisement reports, whatever bytes
  they carry, whichever flags they have and whichever allocations fail, is handled without a read outside the received
  data; at most seven advertisements wait for their responses, and every result has one entry per service, identifier
  and manufacturer with lengths that match the data. When no allocation fails, a name pointer is null only with length 0.
\<close>

theorem reports_safe:
  assumes "list_all report_wf rps"
  shows "\<exists>rs cs. run_reports e 0 rps DevdDataCacheInit = Some (rs, cs) \<and> length rs = length rps \<and> advs_ok cs \<and>
    (\<forall>r. Some r \<in> set rs \<longrightarrow> report_result_ok (alloc_ok e) r)"
  using run_safe [of "alloc_ok e" e "[]" rps 0] assms by (simp add: DevdDataCacheInit_def advs_ok_def)

definition demo_addr :: "u8 \<Rightarrow> SLE_Addr" where
  "demo_addr x = \<lparr>sa_type = 0, sa_addr = [x, 0, 0, 0, 0, 0]\<rparr>"

definition demo_report :: "u8 \<Rightarrow> u8 \<Rightarrow> bytes \<Rightarrow> NLSTK_DevdAdvReportInfo" where
  "demo_report x ev d = \<lparr>ri_addr = demo_addr x, ri_rssi = 0xC4, ri_eventType = ev, ri_primFrameType = 0, ri_dataLength = of_nat (length d), ri_data = d\<rparr>"

theorem reports_safe_witness:
  "\<exists>rs cs. run_reports (granting_env True) 0 [demo_report 1 2 [0xFF, 9], demo_report 1 8 [1]] DevdDataCacheInit = Some (rs, cs) \<and> length rs = 2 \<and> advs_ok cs"
  using reports_safe [of "[demo_report 1 2 [0xFF, 9], demo_report 1 8 [1]]" "granting_env True"]
  by (fastforce simp: report_wf_def demo_report_def)

section \<open>Advertisement and scan response\<close>

lemma first_del: "c \<in> set (take n cs) \<Longrightarrow> ac_addr c \<noteq> b \<Longrightarrow> c \<in> set (take n (cache_del b cs))"
proof (induction cs arbitrary: n)
  case (Cons x cs)
  have "c \<in> set (take n cs)" if "c \<in> set (take (n - 1) cs)" using that set_take_subset_set_take [of "n - 1" n cs] by auto
  then show ?case using Cons by (cases n) auto
qed simp

lemma first_upd: "c \<in> set (take n cs) \<Longrightarrow> ac_addr c \<noteq> b \<Longrightarrow> c \<in> set (take n (cache_upd b f cs))"
proof (induction cs arbitrary: n)
  case (Cons x cs)
  then show ?case by (cases n) auto
qed simp

lemma first_more: "c \<in> set (take n cs) \<Longrightarrow> n \<le> m \<Longrightarrow> c \<in> set (take m cs)"
  using set_take_subset_set_take [of n m cs] by auto

lemma add_keeps:
  assumes "AddAdvDataCache e b d n cs = Some (x, cs')" "c \<in> set (take i cs)" "ac_addr c \<noteq> b" "i < MAX_DEVICE_CACHE" "length cs \<le> MAX_DEVICE_CACHE"
  shows "c \<in> set (take (Suc i) cs')"
proof -
  have "c \<in> set (take i (butlast cs))" if "length cs \<ge> MAX_DEVICE_CACHE" using that assms by (simp add: take_butlast)
  then show ?thesis
    using assms first_del [OF assms(2,3)] first_upd [OF assms(2,3)] first_more [of c i _ "Suc i"]
    by (auto simp: AddAdvDataCache_def Let_def bind_eq_Some_conv split: option.splits if_splits)
qed

lemma report_keeps:
  assumes "DevdAdvDataReport e rp cs = Some (r, cs')" "c \<in> set (take i cs)" "ac_addr c \<noteq> ri_addr rp" "i < MAX_DEVICE_CACHE" "length cs \<le> MAX_DEVICE_CACHE"
  shows "c \<in> set (take (Suc i) cs')"
proof -
  have d: "c \<in> set (take (Suc i) (ClearAdvDataCache (ri_addr rp) xs))" if "c \<in> set (take (Suc i) xs)" for xs
    using that first_del assms(3) by (simp add: ClearAdvDataCache_def)
  have a: "c \<in> set (take (Suc i) xs)" if "AppendAdvDataCache e (ri_addr rp) d n cs = Some (y, xs)" for e :: "'a env" and d n y xs
    using that add_keeps [OF _ assms(2-5)] first_del [OF assms(2,3)] first_upd [OF assms(2,3)] first_more [of c i _ "Suc i"] assms(2)
    by (auto simp: AppendAdvDataCache_def Let_def bind_eq_Some_conv split: option.splits if_splits)
  show ?thesis using assms(1) add_keeps [OF _ assms(2-5)] a d first_more [OF assms(2), of "Suc i"]
    by (auto simp: DevdAdvDataReport_def Let_def bind_eq_Some_conv split: option.splits if_splits)
qed

definition no_pencil :: "bytes \<Rightarrow> bool" where
  "no_pencil d \<longleftrightarrow> first_match d g_pencilAdvertstingData1 0 = None \<and> first_match d g_pencilAdvertstingData2 0 = None"

lemma not_pencil:
  assumes "alloc_ok e" "no_pencil (ac_data c)" "length (ac_data c) = ac_len c"
  shows "is_pencil e c = Some False"
proof -
  have p: "g_pencilAdvertstingData1 \<noteq> []" "g_pencilAdvertstingData2 \<noteq> []"
    by (simp_all add: g_pencilAdvertstingData1_def g_pencilAdvertstingData2_def)
  have a: "SDF_MemZalloc (sub e k) \<noteq> None" for k using assms(1) by simp
  show ?thesis using kmp_search [OF p(1), of "sub e 0" "ac_data c" 0] kmp_search [OF p(2), of "sub e 1" "ac_data c" 0] a assms(2,3)
    by (simp add: is_pencil_def KmpSearchSimple_def no_pencil_def kmp_result_def)
qed

lemma parsed_view:
  assumes "alloc_ok e" "no_pencil (ac_data c)" "length (ac_data c) = ac_len c" "0 < ac_len c" "ac_len c \<le> MAX_ADV_DATA_LEN"
  shows "\<exists>r. DevdGetParsedAdvResult e at ft rs a c = Some (Some r) \<and> adv_view r = adv_named (adv_of a (adv_fields (ac_data c))) \<and>
    vd_data (advData r) = Some (ac_data c)"
proof -
  obtain r0 where r0: "CreateAdvResult (sub e 0) = Some r0"
    using alloc_okD [of "sub (sub e 0) 0"] assms(1) by (auto simp: CreateAdvResult_def create_vector_ok)
  let ?r = "r0\<lparr>ar_addr := a, ar_rssi := rs, ar_frameType := ft, ar_isConnectable := bit at 0\<rparr>"
  have v: "adv_view ?r = no_adv a"
    using r0 by (auto simp: CreateAdvResult_def SDF_CreateVector_def adv_view_def no_adv_def split: option.splits)
  obtain r1 where r1: "DevdParseAdvReport (sub e 2) ?r (ac_data c) (ac_len c) = Some (True, r1)" "adv_view r1 = adv_named (adv_of a (adv_fields (ac_data c)))"
    using parse_refines [of "sub e 2" False ?r a "ac_data c" "ac_len c"] v create_result_ok [OF r0] assms by auto
  show ?thesis using r1 assms r0 not_pencil [of "sub e 1" c] alloc_okD [of "sub e 3"]
    by (auto simp: DevdGetParsedAdvResult_def rd_safe adv_view_upd)
qed

lemma take_find:
  assumes "advs_ok cs" "c \<in> set (take n cs)"
  shows "FindAdvDataCache (ac_addr c) cs = Some c"
proof -
  have c: "c \<in> set cs" "distinct (map ac_addr cs)" using assms by (auto simp: advs_ok_def dest: in_set_takeD)
  then obtain c' where "FindAdvDataCache (ac_addr c) cs = Some c'" by (cases "FindAdvDataCache (ac_addr c) cs") (auto simp: find_none)
  then show ?thesis using find_some [of "ac_addr c" cs c'] c by (auto simp: distinct_map dest: inj_onD)
qed

lemma run_keeps:
  "run_reports e k rps cs = Some (rs, cs') \<Longrightarrow> c \<in> set (take i cs) \<Longrightarrow> \<forall>rp\<in>set rps. ri_addr rp \<noteq> ac_addr c \<Longrightarrow> list_all report_wf rps \<Longrightarrow>
     advs_ok cs \<Longrightarrow> i + length rps \<le> MAX_DEVICE_CACHE \<Longrightarrow> c \<in> set (take (i + length rps) cs')"
proof (induction rps arbitrary: cs k rs i)
  case (Cons rp rps)
  obtain r cs1 rs1 where r: "DevdAdvDataReport (sub e k) rp cs = Some (r, cs1)" "run_reports e (Suc k) rps cs1 = Some (rs1, cs')"
    using Cons.prems(1) by (auto simp: bind_eq_Some_conv)
  have "c \<in> set (take (Suc i) cs1)" "advs_ok cs1"
    using report_keeps [OF r(1) Cons.prems(2)] Cons.prems report_safe [of False "sub e k" cs rp] r(1) by (auto simp: report_wf_def advs_ok_def)
  then show ?case using Cons.IH [OF r(2), of "Suc i"] Cons.prems by auto
qed simp

lemma run_append:
  "run_reports e k (xs @ ys) cs = do { (rs, cs1) \<leftarrow> run_reports e k xs cs; (rs', cs2) \<leftarrow> run_reports e (k + length xs) ys cs1; Some (rs @ rs', cs2) }"
  by (induction xs arbitrary: k cs) (auto split: Option.bind_split)

definition is_adv :: "NLSTK_DevdAdvReportInfo \<Rightarrow> bool" where
  "is_adv p \<longleftrightarrow> report_wf p \<and> ri_primFrameType p = ADV_FRAME_TYPE_1 \<and> bit (ri_eventType p) 1 \<and> \<not> bit (ri_eventType p) 3 \<and> ri_dataLength p \<noteq> 0"

definition is_rsp :: "NLSTK_DevdAdvReportInfo \<Rightarrow> bool" where
  "is_rsp q \<longleftrightarrow> report_wf q \<and> ri_primFrameType q = ADV_FRAME_TYPE_1 \<and> bit (ri_eventType q) 3"

abbreviation (input) entry_of :: "NLSTK_DevdAdvReportInfo \<Rightarrow> AdvDataCache" where
  "entry_of p \<equiv> \<lparr>ac_addr = ri_addr p, ac_len = unat (ri_dataLength p), ac_data = ri_data p\<rparr>"

lemma adv_step:
  assumes "alloc_ok e" "is_adv p" "FindAdvDataCache (ri_addr p) cs = None"
  shows "\<exists>cs1. DevdAdvDataReport e p cs = Some (None, entry_of p # cs1)"
  using assms alloc_okD [of "sub (sub e 0) 0"] alloc_okD [of "sub (sub e 0) 1"]
  by (auto simp: DevdAdvDataReport_def AddAdvDataCache_def is_adv_def report_wf_def rd_safe Let_def unat_eq_zero)

lemma rsp_step:
  assumes "alloc_ok e" "advs_ok cs" "c \<in> set (take n cs)" "is_rsp q" "ri_addr q = ac_addr c" "no_pencil (ac_data c @ ri_data q)"
  shows "\<exists>r cs'. DevdAdvDataReport e q cs = Some (Some r, cs') \<and> FindAdvDataCache (ac_addr c) cs' = None \<and>
    adv_view r = adv_named (adv_of (ac_addr c) (adv_fields (ac_data c @ ri_data q))) \<and> vd_data (advData r) = Some (ac_data c @ ri_data q)"
proof -
  let ?a = "ac_addr c" and ?n = "unat (ri_dataLength q)"
  let ?c = "c\<lparr>ac_len := ac_len c + ?n, ac_data := ac_data c @ ri_data q\<rparr>"
  have f: "FindAdvDataCache ?a cs = Some c" using take_find [OF assms(2,3)] .
  have c: "length (ac_data c) = ac_len c" "0 < ac_len c" "ac_len c \<le> 255" "?n \<le> 255" "length (ri_data q) = ?n"
    using find_some [OF f] assms(2,4) unsigned_less [of "ri_dataLength q", where 'a = nat]
    by (auto simp: advs_ok_def list_all_iff entry_ok_def is_rsp_def report_wf_def)
  let ?cs = "if ?n = 0 then cs else cache_upd ?a (\<lambda>_. ?c) cs"
  have "c\<lparr>ac_data := ac_data c @ ri_data q\<rparr> = c" if "?n = 0" using that c by simp
  then have ap: "AppendAdvDataCache (sub e 0) ?a (ri_data q) ?n cs = Some (Some ?c, ?cs)"
    using f c alloc_okD [of "sub (sub e 0) 1"] assms(1) by (auto simp: AppendAdvDataCache_def rd_safe Let_def to_u16_def)
  have d: "distinct (map ac_addr ?cs)" using assms(2) cache_upd_addrs [of ?c ?a cs] by (auto simp: advs_ok_def)
  have "FindAdvDataCache ?a (ClearAdvDataCache ?a ?cs) = None"
    using d by (auto simp: ClearAdvDataCache_def cache_del_filter find_none)
  moreover obtain r where "DevdGetParsedAdvResult (sub e 1) (ri_eventType q) (ri_primFrameType q) (ri_rssi q) ?a ?c = Some (Some r)"
    "adv_view r = adv_named (adv_of ?a (adv_fields (ac_data c @ ri_data q)))" "vd_data (advData r) = Some (ac_data c @ ri_data q)"
    using parsed_view [of "sub e 1" ?c "ri_eventType q" "ri_primFrameType q" "ri_rssi q" ?a] assms c by auto
  ultimately show ?thesis using ap assms(4,5) by (auto simp: DevdAdvDataReport_def is_rsp_def Let_def)
qed

text \<open>Bytes that end where a field ends: the fields that follow are read from the next byte on.\<close>

definition whole_fields :: "bytes \<Rightarrow> bool" where
  "whole_fields d \<longleftrightarrow> concat (map tlv (adv_fields d)) = d"

lemma adv_fields_length: "f \<in> set (adv_fields d) \<Longrightarrow> length (snd f) \<le> 255"
proof (induction d rule: adv_fields.induct)
  case (1 t l r)
  then show ?case using unsigned_less [of l, where 'a = nat] by (auto split: if_splits)
qed simp_all

lemma fields_append:
  assumes "\<forall>f \<in> set fs. length (snd f) \<le> 255"
  shows "adv_fields (concat (map tlv fs) @ q) = fs @ adv_fields q"
  using assms
proof (induction fs)
  case (Cons f fs)
  then have "unat (of_nat (length (snd f)) :: u8) = length (snd f)" by (simp add: unat_of_nat)
  then show ?case using Cons by (cases f) (simp add: tlv_def)
qed simp

lemma whole_fields_append: "whole_fields d \<Longrightarrow> adv_fields (d @ q) = adv_fields d @ adv_fields q"
  using fields_append [of "adv_fields d" q] adv_fields_length by (auto simp: whole_fields_def)

text \<open>
  A scan response completes its advertisement (C13). The first part of a two-part advertisement, of a device whose bytes do
  not contain one of the two patterns that select the parser of the older pencil format, waits in the cache while up to six
  reports of other devices come in; when the scan response of its sender arrives, the result describes exactly the fields
  of the joined bytes: the last name, level and power, the first entry per service and manufacturer, the name of the
  device information where there is one. Where the first part ends with a complete field, these are the fields of the first
  part followed by those of the response. The sender has then left the cache.
\<close>

theorem scan_response_joined:
  assumes "alloc_ok e" "advs_ok cs" "FindAdvDataCache (ri_addr p) cs = None" "is_adv p" "is_rsp q" "ri_addr q = ri_addr p"
    and "list_all report_wf os" "\<forall>x\<in>set os. ri_addr x \<noteq> ri_addr p" "length os \<le> 6" "no_pencil (ri_data p @ ri_data q)"
  shows "\<exists>rs r cs'. run_reports e 0 (p # os @ [q]) cs = Some (rs @ [Some r], cs') \<and> FindAdvDataCache (ri_addr p) cs' = None \<and>
    adv_view r = adv_named (adv_of (ri_addr p) (adv_fields (ri_data p @ ri_data q))) \<and> vd_data (advData r) = Some (ri_data p @ ri_data q) \<and>
    (whole_fields (ri_data p) \<longrightarrow> adv_view r = adv_named (adv_of (ri_addr p) (adv_fields (ri_data p) @ adv_fields (ri_data q))))"
proof -
  obtain cs1 where 1: "DevdAdvDataReport (sub e 0) p cs = Some (None, entry_of p # cs1)" using adv_step [of "sub e 0" p cs] assms by auto
  have ok: "advs_ok (entry_of p # cs1)" using report_safe [OF _ assms(2), of False "sub e 0" p] 1 assms(4) by (auto simp: is_adv_def report_wf_def)
  obtain rs cs2 where 2: "run_reports e 1 os (entry_of p # cs1) = Some (rs, cs2)" "advs_ok cs2"
    using run_safe [OF _ ok assms(7), of False e 1] by auto
  have "entry_of p \<in> set (take 7 cs2)"
    using run_keeps [OF 2(1), of "entry_of p" 1] assms ok first_more [of "entry_of p" "1 + length os" cs2 7] by auto
  then show ?thesis
    using rsp_step [of "sub e (Suc (length os))" cs2 "entry_of p" 7 q] 1 2 assms whole_fields_append [of "ri_data p" "ri_data q"] by (auto simp: run_append)
qed

definition demo_first :: NLSTK_DevdAdvReportInfo where
  "demo_first = demo_report 1 2 (concat (map tlv [(0x01, [2]), (0x0A, [65]), (0x03, [7, 6, 9])]))"

definition demo_second :: NLSTK_DevdAdvReportInfo where
  "demo_second = demo_report 1 8 (concat (map tlv [(0x0B, [65, 66]), (0xFF, [0x7D, 2, 5])]))"

lemma demo_pair:
  "is_adv demo_first" "is_rsp demo_second" "ri_addr demo_first = demo_addr 1" "ri_addr demo_second = demo_addr 1"
  "no_pencil (ri_data demo_first @ ri_data demo_second)"
  by (simp_all add: demo_first_def demo_second_def demo_report_def is_adv_def is_rsp_def report_wf_def tlv_def bit_numeral_rec
      no_pencil_def first_match_def match_at_def g_pencilAdvertstingData1_def g_pencilAdvertstingData2_def upt_rec)

theorem scan_response_joined_witness:
  "\<exists>rs r cs. run_reports (granting_env True) 0 [demo_first, demo_report 2 2 [1, 1, 5], demo_second] [] = Some (rs @ [Some r], cs) \<and>
    adv_name (adv_view r) = Some [65, 66] \<and> adv_level (adv_view r) = 2"
proof -
  have e: "adv_named (adv_of (demo_addr 1) (adv_fields (ri_data demo_first @ ri_data demo_second))) =
      adv_named (adv_of (demo_addr 1) [(0x01, [2]), (0x0A, [65]), (0x03, [7, 6, 9]), (0x0B, [65, 66]), (0xFF, [0x7D, 2, 5])])"
    by (simp add: demo_first_def demo_second_def demo_report_def tlv_def)
  have n: "adv_name (adv_named (adv_of (demo_addr 1) [(0x01, [2]), (0x0A, [65]), (0x03, [7, 6, 9]), (0x0B, [65, 66]), (0xFF, [0x7D, 2, 5])])) = Some [65, 66]"
    "adv_level (adv_named (adv_of (demo_addr 1) [(0x01, [2]), (0x0A, [65]), (0x03, [7, 6, 9]), (0x0B, [65, 66]), (0xFF, [0x7D, 2, 5])])) = 2"
    by (simp_all add: adv_named_def adv_of_def last_value_def services_of_def makers_of_def uuids_of_def uuid16_def g_baseUuid_def g_disUuid_def)
  show ?thesis
    using scan_response_joined [of "granting_env True" "[]" demo_first demo_second "[demo_report 2 2 [1, 1, 5]]"] demo_pair e n
    by (fastforce simp: advs_ok_def FindAdvDataCache_def report_wf_def demo_report_def demo_addr_def)
qed

end
