(* ===== verification/Devd_Filter.thy ===== *)
theory Devd_Filter
  imports Devd_Report_Spec
begin

text \<open>
  Scan filters (\<open>devd_scan_filter.c\<close>) and the helpers of the scanners (\<open>devd_scan_util.c\<close>): whether an advertisement
  passes the filters of a scanner, the legality check and the copies of filters, and the choice of the scan parameters.
  A read through a null pointer or outside its block and a product that does not fit an \<open>int\<close> are \<open>None\<close>.
\<close>

section \<open>Data\<close>

record NLSTK_DevdScanFilter =
  hasAddr :: bool
  fl_addr :: SLE_Addr
  fl_name :: NLSTK_VariableData
  hasServiceUuid :: bool
  serviceUuid :: bytes
  hasServiceUuidMask :: bool
  serviceUuidMask :: bytes
  hasSolicitationUuid :: bool
  serviceSolicitationUuid :: bytes
  hasSolicitationUuidMask :: bool
  serviceSolicitationUuidMask :: bytes
  fl_serviceData :: NLSTK_VariableData
  fl_serviceDataMask :: NLSTK_VariableData
  fl_manufacturerId :: u16
  fl_manufacturerData :: NLSTK_VariableData
  fl_manufacturerDataMask :: NLSTK_VariableData
  hasRssiThreshold :: bool
  rssiThreshold :: u8
  isSensorHubChannel :: bool
  advIndReport :: bool
  meshInfoReport :: bool
  filterIndex :: u8
  fl_action :: u8
  isNoFilter :: bool

record NLSTK_DevdScanSetting =
  reportDelayMillis :: int
  ss_duration :: int
  scanMode :: int
  ss_legacy :: bool
  ss_phy :: int
  ss_frameType :: u8

record timespec =
  tv_sec :: int
  tv_nsec :: int

record NLSTK_DevdScanSettingInner =
  si_window :: nat
  si_interval :: nat
  si_setting :: NLSTK_DevdScanSetting
  expireTime :: timespec
  hasDuration :: bool

record NLSTK_DevdScanner =
  scannerId :: nat
  sc_moduleId :: nat
  scanSetting :: NLSTK_DevdScanSettingInner
  frame4ScanSetting :: NLSTK_DevdScanSettingInner
  sc_filters :: "NLSTK_DevdScanFilter SDF_Vector option"

section \<open>Matching\<close>

text \<open>Reads through a pointer that may be null.\<close>

definition vd_rd :: "NLSTK_VariableData \<Rightarrow> nat \<Rightarrow> u8 option" where
  "vd_rd v i = do { d \<leftarrow> vd_data v; rd8 d i }"

definition vd_block :: "NLSTK_VariableData \<Rightarrow> nat \<Rightarrow> bytes option" where
  "vd_block v n = do { d \<leftarrow> vd_data v; rd_block d 0 n }"

definition MatchAddr :: "NLSTK_DevdAdvResult \<Rightarrow> NLSTK_DevdScanFilter \<Rightarrow> bool" where
  "MatchAddr r f = (if \<not> hasAddr f then True else ar_addr r = fl_addr f)"

definition MatchName :: "NLSTK_DevdAdvResult \<Rightarrow> NLSTK_DevdScanFilter \<Rightarrow> bool option" where
  "MatchName r f =
     (if vd_len (fl_name f) = 0 then Some True
      else if vd_len (localName r) = 0 then Some False
      else if vd_len (localName r) = vd_len (fl_name f)
      then do { x \<leftarrow> vd_block (localName r) (vd_len (fl_name f)); y \<leftarrow> vd_block (fl_name f) (vd_len (fl_name f)); Some (x = y) }
      else Some False)"

fun uuid_mask_loop :: "bytes \<Rightarrow> bytes \<Rightarrow> bytes \<Rightarrow> nat \<Rightarrow> nat \<Rightarrow> bool option" where
  "uuid_mask_loop u fu m i 0 = Some True"
| "uuid_mask_loop u fu m i (Suc n) = do {
     x \<leftarrow> rd8 u i; y \<leftarrow> rd8 fu i; k \<leftarrow> rd8 m i;
     if (x AND k) \<noteq> (y AND k) then Some False else uuid_mask_loop u fu m (Suc i) n
   }"

definition MatchServiceUuidWithMask :: "bytes \<Rightarrow> bytes \<Rightarrow> bytes \<Rightarrow> nat \<Rightarrow> bool option" where
  "MatchServiceUuidWithMask u fu m len = uuid_mask_loop u fu m 0 len"

fun uuid_loop :: "NLSTK_DevdScanFilter \<Rightarrow> bytes list \<Rightarrow> bool option" where
  "uuid_loop f [] = Some False"
| "uuid_loop f (u # us) =
     (if hasServiceUuidMask f
      then do { b \<leftarrow> MatchServiceUuidWithMask u (serviceUuid f) (serviceUuidMask f) SERVICE_UUID_LEN_128; if b then Some True else uuid_loop f us }
      else if u = serviceUuid f then Some True else uuid_loop f us)"

definition MatchServiceUuid :: "NLSTK_DevdAdvResult \<Rightarrow> NLSTK_DevdScanFilter \<Rightarrow> bool option" where
  "MatchServiceUuid r f =
     (if \<not> hasServiceUuid f then Some True
      else if v_elems (serviceUuids r) = [] then Some False
      else uuid_loop f (v_elems (serviceUuids r)))"

fun plain_loop :: "NLSTK_VariableData \<Rightarrow> NLSTK_VariableData \<Rightarrow> nat \<Rightarrow> nat \<Rightarrow> bool option" where
  "plain_loop v fv i 0 = Some True"
| "plain_loop v fv i (Suc n) = do { x \<leftarrow> vd_rd v i; y \<leftarrow> vd_rd fv i; if x \<noteq> y then Some False else plain_loop v fv (Suc i) n }"

fun mask_loop :: "NLSTK_VariableData \<Rightarrow> NLSTK_VariableData \<Rightarrow> NLSTK_VariableData \<Rightarrow> nat \<Rightarrow> nat \<Rightarrow> bool option" where
  "mask_loop v fv m i 0 = Some True"
| "mask_loop v fv m i (Suc n) = do {
     x \<leftarrow> vd_rd v i; k \<leftarrow> vd_rd m i; y \<leftarrow> vd_rd fv i;
     if (x AND k) \<noteq> (y AND k) then Some False else mask_loop v fv m (Suc i) n
   }"

definition MatchDataWithMask :: "NLSTK_VariableData \<Rightarrow> NLSTK_VariableData \<Rightarrow> NLSTK_VariableData \<Rightarrow> bool option" where
  "MatchDataWithMask v fv m =
     (if vd_len v < vd_len fv then Some False
      else if vd_len m \<noteq> vd_len fv then plain_loop v fv 0 (vd_len fv)
      else mask_loop v fv m 0 (vd_len fv))"

fun uuid_len_loop :: "bytes \<Rightarrow> nat \<Rightarrow> nat \<Rightarrow> nat option" where
  "uuid_len_loop u i 0 = Some SERVICE_UUID_LEN_16"
| "uuid_len_loop u i (Suc n) = do { x \<leftarrow> rd8 u i; y \<leftarrow> rd8 g_baseUuid i; if x \<noteq> y then Some SERVICE_UUID_LEN_128 else uuid_len_loop u (Suc i) n }"

definition GetUuidLen :: "bytes \<Rightarrow> nat option" where
  "GetUuidLen u = uuid_len_loop u 0 (SERVICE_UUID_LEN_128 - SERVICE_UUID_LEN_16)"

text \<open>The service data as it was sent, identifier first.\<close>

definition ParseServiceData :: "NLSTK_DevdAdvServiceData \<Rightarrow> nat \<Rightarrow> bytes option" where
  "ParseServiceData sd uuidLen = do {
     h \<leftarrow> (if uuidLen = SERVICE_UUID_LEN_16 then do { x \<leftarrow> rd8 (sd_uuid sd) 15; y \<leftarrow> rd8 (sd_uuid sd) 14; Some [x, y] }
           else rd_block (sd_uuid sd) 0 SERVICE_UUID_LEN_128);
     t \<leftarrow> rd_block (sd_data sd) 0 (sd_len sd);
     Some (h @ t)
   }"

fun service_loop :: "'r env \<Rightarrow> nat \<Rightarrow> NLSTK_DevdScanFilter \<Rightarrow> NLSTK_DevdAdvServiceData list \<Rightarrow> bool option" where
  "service_loop e k f [] = Some False"
| "service_loop e k f (sd # sds) = do {
     uuidLen \<leftarrow> GetUuidLen (sd_uuid sd);
     (case SDF_MemZalloc (sub e k) of
        None \<Rightarrow> Some False
      | Some _ \<Rightarrow> do {
          d \<leftarrow> ParseServiceData sd uuidLen;
          b \<leftarrow> MatchDataWithMask \<lparr>vd_len = to_u16 (sd_len sd + uuidLen), vd_data = Some d\<rparr> (fl_serviceData f) (fl_serviceDataMask f);
          if b then Some True else service_loop e (Suc k) f sds
        })
   }"

definition MatchServiceData :: "'r env \<Rightarrow> NLSTK_DevdAdvResult \<Rightarrow> NLSTK_DevdScanFilter \<Rightarrow> bool option" where
  "MatchServiceData e r f =
     (if vd_len (fl_serviceData f) = 0 then Some True
      else if v_elems (serviceDataList r) = [] then Some False
      else service_loop e 0 f (v_elems (serviceDataList r)))"

fun maker_loop :: "NLSTK_DevdScanFilter \<Rightarrow> NLSTK_DevdAdvManufacturerData list \<Rightarrow> bool option" where
  "maker_loop f [] = Some False"
| "maker_loop f (md # mds) =
     (if md_manufacturerId md \<noteq> fl_manufacturerId f then maker_loop f mds
      else if md_len md = 0 then Some True
      else MatchDataWithMask \<lparr>vd_len = md_len md, vd_data = Some (md_data md)\<rparr> (fl_manufacturerData f) (fl_manufacturerDataMask f))"

definition MatchManufacturerData :: "NLSTK_DevdAdvResult \<Rightarrow> NLSTK_DevdScanFilter \<Rightarrow> bool option" where
  "MatchManufacturerData r f =
     (if fl_manufacturerId f = 0 then Some True
      else if v_elems (manufacturerDataList r) = [] then Some False
      else maker_loop f (v_elems (manufacturerDataList r)))"

text \<open>Signal strengths are signed bytes.\<close>

definition MatchRssi :: "NLSTK_DevdAdvResult \<Rightarrow> NLSTK_DevdScanFilter \<Rightarrow> bool" where
  "MatchRssi r f = (if \<not> hasRssiThreshold f then True else sint (ar_rssi r) \<ge> sint (rssiThreshold f))"

definition MatchMeshInfo :: "NLSTK_DevdAdvResult \<Rightarrow> NLSTK_DevdScanFilter \<Rightarrow> bool" where
  "MatchMeshInfo r f = (if \<not> meshInfoReport f then True else vd_len (meshInfo r) \<noteq> 0)"

definition matchRules :: "'r env \<Rightarrow> (NLSTK_DevdAdvResult \<Rightarrow> NLSTK_DevdScanFilter \<Rightarrow> bool option) list" where
  "matchRules e = [\<lambda>r f. Some (MatchAddr r f), MatchName, MatchServiceUuid, MatchServiceData e, MatchManufacturerData,
     \<lambda>r f. Some (MatchRssi r f), \<lambda>r f. Some (MatchMeshInfo r f)]"

fun rules_loop :: "(NLSTK_DevdAdvResult \<Rightarrow> NLSTK_DevdScanFilter \<Rightarrow> bool option) list \<Rightarrow> NLSTK_DevdAdvResult \<Rightarrow> NLSTK_DevdScanFilter \<Rightarrow> bool option" where
  "rules_loop [] r f = Some True"
| "rules_loop (m # ms) r f = do { b \<leftarrow> m r f; if \<not> b then Some False else rules_loop ms r f }"

definition IsMatchFilter :: "'r env \<Rightarrow> NLSTK_DevdAdvResult \<Rightarrow> NLSTK_DevdScanFilter \<Rightarrow> bool option" where
  "IsMatchFilter e r f = rules_loop (matchRules e) r f"

fun filters_loop :: "'r env \<Rightarrow> nat \<Rightarrow> NLSTK_DevdAdvResult \<Rightarrow> NLSTK_DevdScanFilter list \<Rightarrow> bool option" where
  "filters_loop e k r [] = Some False"
| "filters_loop e k r (f # fs) =
     (if isNoFilter f then Some True
      else if advIndReport f \<and> ar_frameType r \<noteq> ADV_FRAME_TYPE_4 then Some False
      else if \<not> advIndReport f \<and> ar_frameType r \<noteq> ADV_FRAME_TYPE_1 then Some False
      else do { b \<leftarrow> IsMatchFilter (sub e k) r f; if b then Some True else filters_loop e (Suc k) r fs })"

definition DevdIsMatchFilters :: "'r env \<Rightarrow> NLSTK_DevdAdvResult \<Rightarrow> NLSTK_DevdScanFilter SDF_Vector option \<Rightarrow> bool option" where
  "DevdIsMatchFilters e r filters = (case filters of None \<Rightarrow> Some False | Some v \<Rightarrow> filters_loop e 0 r (v_elems v))"

section \<open>Helpers of the scanners\<close>

text \<open>The product of two 16-bit numbers is computed as an \<open>int\<close>.\<close>

definition mul_int :: "nat \<Rightarrow> nat \<Rightarrow> nat option" where
  "mul_int a b = (if a * b < 2 ^ 31 then Some (a * b) else None)"

text \<open>Whether the setting of the next scanner replaces the target; the operands are computed only if the source reaches them.\<close>

definition better_setting :: "NLSTK_DevdScanSettingInner \<Rightarrow> NLSTK_DevdScanSettingInner \<Rightarrow> bool option" where
  "better_setting target s = do {
     x \<leftarrow> mul_int (si_window target) (si_interval s);
     y \<leftarrow> mul_int (si_interval target) (si_window s);
     Some (x < y \<or> x = y \<and> si_interval target > si_interval s)
   }"

fun fetch_loop :: "(NLSTK_DevdScanner \<Rightarrow> NLSTK_DevdScanSettingInner) \<Rightarrow> NLSTK_DevdScanSettingInner \<Rightarrow> NLSTK_DevdScanner list \<Rightarrow> NLSTK_DevdScanSettingInner option" where
  "fetch_loop g target [] = Some target"
| "fetch_loop g target (s # ss) = do { b \<leftarrow> better_setting target (g s); fetch_loop g (if b then g s else target) ss }"

definition FetchFrame1TargetScanSettings :: "NLSTK_DevdScanner SDF_Vector \<Rightarrow> NLSTK_DevdScanSettingInner option option" where
  "FetchFrame1TargetScanSettings v =
     (case v_elems v of [] \<Rightarrow> Some None | s # ss \<Rightarrow> do { t \<leftarrow> fetch_loop scanSetting (scanSetting s) ss; Some (Some t) })"

definition FetchFrame4TargetScanSettings :: "NLSTK_DevdScanner SDF_Vector \<Rightarrow> NLSTK_DevdScanSettingInner option option" where
  "FetchFrame4TargetScanSettings v =
     (case v_elems v of [] \<Rightarrow> Some None | s # ss \<Rightarrow> do { t \<leftarrow> fetch_loop frame4ScanSetting (frame4ScanSetting s) ss; Some (Some t) })"

definition vd_legal :: "NLSTK_VariableData \<Rightarrow> bool" where
  "vd_legal v \<longleftrightarrow> (vd_len v \<noteq> 0 \<longleftrightarrow> vd_data v \<noteq> None)"

definition CheckFiltersLegal :: "NLSTK_DevdScanFilter list option \<Rightarrow> nat \<Rightarrow> bool option" where
  "CheckFiltersLegal filters filtersNum =
     (if filtersNum = 0 then Some True
      else (case filters of
        None \<Rightarrow> Some False
      | Some fs \<Rightarrow>
          if filtersNum \<le> length fs
          then Some (list_all (\<lambda>f. vd_legal (fl_name f) \<and> vd_legal (fl_serviceData f) \<and> vd_legal (fl_serviceDataMask f) \<and>
            vd_legal (fl_manufacturerData f) \<and> vd_legal (fl_manufacturerDataMask f)) (take filtersNum fs))
          else None))"

text \<open>A copy of the bytes a pointer points to; the result is none without memory.\<close>

definition CopyMemoryField :: "'r env \<Rightarrow> NLSTK_VariableData \<Rightarrow> bytes option option" where
  "CopyMemoryField e v = (case SDF_MemZalloc e of None \<Rightarrow> Some None | Some _ \<Rightarrow> do { t \<leftarrow> vd_block v (vd_len v); Some (Some t) })"

definition copy_field :: "'r env \<Rightarrow> NLSTK_VariableData \<Rightarrow> NLSTK_VariableData option option" where
  "copy_field e v =
     (if vd_len v \<noteq> 0
      then do { t \<leftarrow> CopyMemoryField e v; Some (case t of None \<Rightarrow> None | Some b \<Rightarrow> Some (v\<lparr>vd_data := Some b\<rparr>)) }
      else Some (Some (v\<lparr>vd_data := None\<rparr>)))"

definition MallocAndCopyFilter :: "'r env \<Rightarrow> NLSTK_DevdScanFilter \<Rightarrow> NLSTK_DevdScanFilter option option" where
  "MallocAndCopyFilter e f =
     (case SDF_MemZalloc (sub e 0) of
        None \<Rightarrow> Some None
      | Some _ \<Rightarrow> do {
          a \<leftarrow> copy_field (sub e 1) (fl_name f);
          (case a of None \<Rightarrow> Some None | Some a \<Rightarrow> do {
            b \<leftarrow> copy_field (sub e 2) (fl_serviceData f);
            (case b of None \<Rightarrow> Some None | Some b \<Rightarrow> do {
              c \<leftarrow> copy_field (sub e 3) (fl_serviceDataMask f);
              (case c of None \<Rightarrow> Some None | Some c \<Rightarrow> do {
                d \<leftarrow> copy_field (sub e 4) (fl_manufacturerData f);
                (case d of None \<Rightarrow> Some None | Some d \<Rightarrow> do {
                  m \<leftarrow> copy_field (sub e 5) (fl_manufacturerDataMask f);
                  (case m of None \<Rightarrow> Some None | Some m \<Rightarrow>
                    Some (Some (f\<lparr>fl_name := a, fl_serviceData := b, fl_serviceDataMask := c, fl_manufacturerData := d, fl_manufacturerDataMask := m\<rparr>)))
                })
              })
            })
          })
        })"

fun copy_loop :: "'r env \<Rightarrow> nat \<Rightarrow> NLSTK_DevdScanFilter list \<Rightarrow> NLSTK_DevdScanFilter SDF_Vector \<Rightarrow> NLSTK_DevdScanFilter SDF_Vector option option" where
  "copy_loop e k [] v = Some (Some v)"
| "copy_loop e k (f # fs) v = do {
     c \<leftarrow> MallocAndCopyFilter (sub (sub e k) 0) f;
     (case c of
        None \<Rightarrow> Some None
      | Some c \<Rightarrow> (case SDF_VectorEmplaceBack (sub (sub e k) 1) v c of (ok, v1) \<Rightarrow> if \<not> ok then Some None else copy_loop e (Suc k) fs v1))
   }"

definition no_filter :: NLSTK_DevdScanFilter where
  "no_filter =
     (let z = \<lparr>vd_len = 0, vd_data = None\<rparr>; u = replicate SERVICE_UUID_LEN_128 0 in
      \<lparr>hasAddr = False, fl_addr = \<lparr>sa_type = 0, sa_addr = replicate SLE_ADDR_LEN 0\<rparr>, fl_name = z, hasServiceUuid = False, serviceUuid = u,
       hasServiceUuidMask = False, serviceUuidMask = u, hasSolicitationUuid = False, serviceSolicitationUuid = u, hasSolicitationUuidMask = False,
       serviceSolicitationUuidMask = u, fl_serviceData = z, fl_serviceDataMask = z, fl_manufacturerId = 0, fl_manufacturerData = z,
       fl_manufacturerDataMask = z, hasRssiThreshold = False, rssiThreshold = 0, isSensorHubChannel = False, advIndReport = False,
       meshInfoReport = False, filterIndex = 0, fl_action = 0, isNoFilter = True\<rparr>)"

definition DevdConvertFiltersToVector :: "'r env \<Rightarrow> NLSTK_DevdScanFilter list \<Rightarrow> nat \<Rightarrow> NLSTK_DevdScanFilter SDF_Vector option option" where
  "DevdConvertFiltersToVector e fs filtersNum =
     (case SDF_CreateVector (sub e 0) of
        None \<Rightarrow> Some None
      | Some v \<Rightarrow>
          if filtersNum = 0
          then (case SDF_MemZalloc (sub e 1) of
             None \<Rightarrow> Some None
           | Some _ \<Rightarrow> (case SDF_VectorEmplaceBack (sub e 2) v no_filter of (ok, v1) \<Rightarrow> Some (if \<not> ok then None else Some v1)))
          else if filtersNum \<le> length fs then copy_loop (sub e 1) 0 (take filtersNum fs) v
          else None)"

definition DevdCloneFiltersVector :: "'r env \<Rightarrow> NLSTK_DevdScanFilter SDF_Vector option \<Rightarrow> NLSTK_DevdScanFilter SDF_Vector option option" where
  "DevdCloneFiltersVector e filters =
     (case filters of
        None \<Rightarrow> Some None
      | Some w \<Rightarrow> (case SDF_CreateVector (sub e 0) of None \<Rightarrow> Some None | Some v \<Rightarrow> copy_loop (sub e 1) 0 (v_elems w) v))"

end
