(* ===== verification/Devd_Scan.thy ===== *)
theory Devd_Scan
  imports Devd_Filter
begin

text \<open>
  The scan control of device discovery: the commands to the controller (\<open>devd_scan.c\<close>, the scan functions of
  \<open>nlstk_devd_api.c\<close>), the state machine of the scan (\<open>devd_scan_stm.c\<close> on \<open>sdf_stm.c\<close>), the modules and scanners
  (\<open>devd_scan_manager.c\<close>) and the tasks of the interface (\<open>devd_scan_api.c\<close>, \<open>nlstk_scan_api.c\<close>). All of it runs on one
  worker thread; what it posts to that thread, hands to the controller and reports to the modules is kept in the state.
\<close>

section \<open>Data\<close>

datatype NLSTK_Errcode =
  NLSTK_ERRCODE_SUCCESS | NLSTK_ERRCODE_FAIL | NLSTK_ERRCODE_TIMEOUT | NLSTK_ERRCODE_PARAM_ERR | NLSTK_ERRCODE_POINTER_NULL |
  NLSTK_ERRCODE_MALLOC_FAIL | NLSTK_ERRCODE_TASK_FAIL

datatype NLSTK_DevdScanStmEvent =
  DEVD_POTIENTIAL_UPDATE | DEVD_START_OK | DEVD_START_ERR | DEVD_STOP_OK | DEVD_STOP_ERR | DEVD_INTERNAL_TIMEOUT

text \<open>The four states of the machine, and those an optional module may add under a number of its own.\<close>

datatype NLSTK_DevdScanState = DEVD_STATE_STOPPED | DEVD_STATE_STARTING | DEVD_STATE_STARTED | DEVD_STATE_STOPPING | DEVD_STATE_USER nat

record NLSTK_DevdSleScanParamsNoPhy =
  scanType :: u8
  scanInterval :: nat
  scanWindow :: nat

record NLSTK_DevdSleScanParams =
  localAddrType :: u8
  scanFilterPolicy :: u8
  sp_frameType :: u8
  sp_params :: "NLSTK_DevdSleScanParamsNoPhy list"

datatype DevdSleStatus = DEVD_SLE_STATUS_IDLE | DEVD_SLE_STATUS_SET_SCAN_PARAMS | DEVD_SLE_STATUS_SET_SCAN_ENABLE2DISABLE | DEVD_SLE_STATUS_SET_SCAN_DISABLE2ENABLE

text \<open>A module and which of its callbacks are set.\<close>

record NLSTK_DevdScanModule =
  sm_used :: bool
  onStartOrStopEvent :: bool
  onScanCallback :: bool

text \<open>The tasks the scan control posts, and the commands it hands to the controller.\<close>

datatype scan_task =
    TaskSetScanParam NLSTK_DevdSleScanParams
  | TaskEnableScan bool
  | TaskRegScanEventCbk bool
  | TaskStartScan nat NLSTK_DevdScanSetting "NLSTK_DevdScanFilter SDF_Vector option"
  | TaskStopScan nat
  | TaskStopAllScan

datatype scan_cmd = CmdSetScanParam NLSTK_DevdSleScanParams | CmdEnableScan bool

record scan =
  g_scanStm :: bool
  stm_current :: "NLSTK_DevdScanState option"
  scanners :: "NLSTK_DevdScanner SDF_Vector"
  scanModule :: "NLSTK_DevdScanModule list"
  currentScanSetting :: NLSTK_DevdScanSettingInner
  inflightScanSetting :: NLSTK_DevdScanSettingInner
  currentFrame4ScanSetting :: NLSTK_DevdScanSettingInner
  inflightFrame4ScanSetting :: NLSTK_DevdScanSettingInner
  internalTimer :: int
  durationTimer :: int
  scanCbk :: bool
  sm_status :: DevdSleStatus
  scanParams :: "NLSTK_DevdSleScanParams option"
  tmpScanParams :: "NLSTK_DevdSleScanParams option"
  g_advDataCacheList :: "AdvDataCache list"
  scan_tasks :: "scan_task list"
  scan_cmds :: "scan_cmd list"
  scan_events :: "(nat \<times> NLSTK_Errcode \<times> bool) list"
  scan_reports :: "(nat \<times> nat list \<times> NLSTK_DevdAdvResult) list"

text \<open>The functions that modules outside the repository may register; a null pointer is \<open>None\<close>.\<close>

record 's scan_ext =
  collabScanStmInit :: "('s \<Rightarrow> 's) option"
  collabScanStmDeInit :: "('s \<Rightarrow> 's) option"
  createStartCollabState :: "bool option"
  createStopCollabState :: "bool option"
  notifyScanCollabResult :: "(bool \<Rightarrow> 's \<Rightarrow> 's) option"
  isNeedStartScanCollabReqAndTransState :: "('s \<Rightarrow> bool \<times> 's) option"
  isNeedTryStopScanCollab :: "('s \<Rightarrow> bool \<times> 's) option"
  isNeedStopScanCollabReqAndTransState :: "('s \<Rightarrow> bool \<times> 's) option"
  collabGetScannerMaxNum :: "nat option"
  user_exit :: "nat \<Rightarrow> 's \<Rightarrow> 's"
  user_dispatch :: "nat \<Rightarrow> NLSTK_DevdScanStmEvent \<Rightarrow> 's \<Rightarrow> 's"
  devdAddChipFilters :: "(nat \<Rightarrow> NLSTK_DevdScanSetting \<Rightarrow> 's \<Rightarrow> 's) option"
  devdDeleteChipFilters :: "(nat \<Rightarrow> 's \<Rightarrow> 's) option"
  devdIsSupportScanFilter :: "bool option"
  devdSetScanfilterSwitch :: "('s \<Rightarrow> 's) option"

definition no_ext :: "'s scan_ext" where
  "no_ext = \<lparr>collabScanStmInit = None, collabScanStmDeInit = None, createStartCollabState = None, createStopCollabState = None, notifyScanCollabResult = None, isNeedStartScanCollabReqAndTransState = None, isNeedTryStopScanCollab = None,
     isNeedStopScanCollabReqAndTransState = None, collabGetScannerMaxNum = None, user_exit = (\<lambda>_ s. s), user_dispatch = (\<lambda>_ _ s. s),
     devdAddChipFilters = None, devdDeleteChipFilters = None, devdIsSupportScanFilter = None, devdSetScanfilterSwitch = None\<rparr>"

abbreviation (input) DEVD_MAX_MODULE_ID :: nat where "DEVD_MAX_MODULE_ID \<equiv> 5"
abbreviation (input) DEVD_INVALID_SCANNER_ID :: nat where "DEVD_INVALID_SCANNER_ID \<equiv> 0"
abbreviation (input) NLSTK_DEVD_MULTI_SCAN_MAX_NUM :: nat where "NLSTK_DEVD_MULTI_SCAN_MAX_NUM \<equiv> 1024"
abbreviation (input) NLSTK_DEVD_TIMER_NO_USED_HANDLE :: int where "NLSTK_DEVD_TIMER_NO_USED_HANDLE \<equiv> - 1"
abbreviation (input) UINT16_MAX :: nat where "UINT16_MAX \<equiv> 65535"

definition zero_setting :: NLSTK_DevdScanSettingInner where
  "zero_setting = \<lparr>si_window = 0, si_interval = 0, si_setting = \<lparr>reportDelayMillis = 0, ss_duration = 0, scanMode = 0, ss_legacy = False, ss_phy = 0, ss_frameType = 0\<rparr>,
     expireTime = \<lparr>tv_sec = 0, tv_nsec = 0\<rparr>, hasDuration = False\<rparr>"

definition ResetScanSetting :: "NLSTK_DevdScanSettingInner \<Rightarrow> NLSTK_DevdScanSettingInner" where
  "ResetScanSetting s = zero_setting\<lparr>si_interval := UINT16_MAX\<rparr>"

section \<open>Commands to the controller\<close>

text \<open>Posting a task may fail; the environment says so.\<close>

definition SchedulePostTask :: "'r env \<Rightarrow> scan_task \<Rightarrow> scan \<Rightarrow> bool \<times> scan" where
  "SchedulePostTask e t s = (if call_dli e then (True, s\<lparr>scan_tasks := scan_tasks s @ [t]\<rparr>) else (False, s))"

definition DLI_GetPhyCountByFrameType :: "u8 \<Rightarrow> nat" where
  "DLI_GetPhyCountByFrameType f = (if f AND 1 \<noteq> 0 then 1 else 0) + (if f AND 2 \<noteq> 0 then 1 else 0)"

definition copy_params :: "NLSTK_DevdSleScanParams \<Rightarrow> NLSTK_DevdSleScanParams option" where
  "copy_params p = (let n = DLI_GetPhyCountByFrameType (sp_frameType p) in if n \<le> length (sp_params p) then Some (p\<lparr>sp_params := take n (sp_params p)\<rparr>) else None)"

definition NLSTK_DevdSleStartScan :: "'r env \<Rightarrow> NLSTK_DevdSleScanParams \<Rightarrow> scan \<Rightarrow> (NLSTK_Errcode \<times> scan) option" where
  "NLSTK_DevdSleStartScan e p s =
     (case SDF_MemZalloc (sub e 0) of
        None \<Rightarrow> Some (NLSTK_ERRCODE_POINTER_NULL, s)
      | Some _ \<Rightarrow> do {
          q \<leftarrow> copy_params p;
          if localAddrType q \<ge> 7 \<or> scanFilterPolicy q > 3 \<or> sp_frameType q > 3 then Some (NLSTK_ERRCODE_PARAM_ERR, s)
          else if list_ex (\<lambda>x. scanType x > 1 \<or> scanInterval x < 4 \<or> scanWindow x < 4) (sp_params q) then Some (NLSTK_ERRCODE_PARAM_ERR, s)
          else (case SchedulePostTask (sub e 1) (TaskSetScanParam q) s of
            (ok, s1) \<Rightarrow> Some (if \<not> ok then NLSTK_ERRCODE_TASK_FAIL else NLSTK_ERRCODE_SUCCESS, s1))
        })"

definition NLSTK_DevdSleEnableScan :: "'r env \<Rightarrow> bool \<Rightarrow> scan \<Rightarrow> NLSTK_Errcode \<times> scan" where
  "NLSTK_DevdSleEnableScan e en s =
     (case SDF_MemZalloc (sub e 0) of
        None \<Rightarrow> (NLSTK_ERRCODE_POINTER_NULL, s)
      | Some _ \<Rightarrow> (case SchedulePostTask (sub e 1) (TaskEnableScan en) s of
          (ok, s1) \<Rightarrow> (if \<not> ok then NLSTK_ERRCODE_TASK_FAIL else NLSTK_ERRCODE_SUCCESS, s1)))"

definition NLSTK_DevdRegScanEventCbk :: "'r env \<Rightarrow> bool \<Rightarrow> scan \<Rightarrow> NLSTK_Errcode \<times> scan" where
  "NLSTK_DevdRegScanEventCbk e b s =
     (case SDF_MemZalloc (sub e 0) of
        None \<Rightarrow> (NLSTK_ERRCODE_POINTER_NULL, s)
      | Some _ \<Rightarrow> (case SchedulePostTask (sub e 1) (TaskRegScanEventCbk b) s of
          (ok, s1) \<Rightarrow> (if \<not> ok then NLSTK_ERRCODE_TASK_FAIL else NLSTK_ERRCODE_SUCCESS, s1)))"

text \<open>What DLI answers to a command is ignored; if it refuses one, the controller never sees it.\<close>

definition hand_cmd :: "'r env \<Rightarrow> scan_cmd \<Rightarrow> scan \<Rightarrow> scan" where
  "hand_cmd e c s = (if call_dli e then s\<lparr>scan_cmds := scan_cmds s @ [c]\<rparr> else s)"

definition SleSetScanParamToDLI :: "'r env \<Rightarrow> NLSTK_DevdSleScanParams \<Rightarrow> scan \<Rightarrow> scan option" where
  "SleSetScanParamToDLI e p s =
     (case SDF_MemZalloc (sub e 0) of
        None \<Rightarrow> Some s
      | Some _ \<Rightarrow> do {
          q \<leftarrow> copy_params p;
          let s1 = s\<lparr>tmpScanParams := None\<rparr>;
          (case SDF_MemZalloc (sub e 1) of
             None \<Rightarrow> Some s1
           | Some _ \<Rightarrow> Some (hand_cmd (sub e 2) (CmdSetScanParam q) (s1\<lparr>sm_status := DEVD_SLE_STATUS_SET_SCAN_PARAMS, tmpScanParams := Some q\<rparr>)))
        })"

definition DevdSleSetScanParam :: "'r env \<Rightarrow> NLSTK_DevdSleScanParams \<Rightarrow> scan \<Rightarrow> scan option" where
  "DevdSleSetScanParam e p s = (if sm_status s \<noteq> DEVD_SLE_STATUS_IDLE then Some s else SleSetScanParamToDLI e p s)"

definition SleUpdateEnableScan :: "'r env \<Rightarrow> bool \<Rightarrow> scan \<Rightarrow> scan" where
  "SleUpdateEnableScan e en s =
     hand_cmd e (CmdEnableScan en) (s\<lparr>sm_status := (if en then DEVD_SLE_STATUS_SET_SCAN_DISABLE2ENABLE else DEVD_SLE_STATUS_SET_SCAN_ENABLE2DISABLE)\<rparr>)"

definition DevdSleEnableScan :: "'r env \<Rightarrow> bool \<Rightarrow> scan \<Rightarrow> scan" where
  "DevdSleEnableScan e en s = (if sm_status s \<noteq> DEVD_SLE_STATUS_IDLE then s else SleUpdateEnableScan e en s)"

definition DevdRegScanEventCbk :: "bool \<Rightarrow> scan \<Rightarrow> scan" where
  "DevdRegScanEventCbk b s = s\<lparr>scanCbk := b\<rparr>"

section \<open>The state machine\<close>

definition notify_modules :: "NLSTK_Errcode \<Rightarrow> bool \<Rightarrow> scan \<Rightarrow> scan" where
  "notify_modules ret isStart s =
     s\<lparr>scan_events := scan_events s @ map (\<lambda>i. (i, ret, isStart)) (filter (\<lambda>i. sm_used (scanModule s ! i) \<and> onStartOrStopEvent (scanModule s ! i)) [0..<DEVD_MAX_MODULE_ID])\<rparr>"

definition StartScanTimer :: "'r env \<Rightarrow> scan \<Rightarrow> bool \<times> scan" where
  "StartScanTimer e s =
     (if internalTimer s \<noteq> NLSTK_DEVD_TIMER_NO_USED_HANDLE then (False, s)
      else (case CP_TimerAdd e of None \<Rightarrow> (False, s) | Some h \<Rightarrow> (True, s\<lparr>internalTimer := h\<rparr>)))"

definition StopScanTimer :: "scan \<Rightarrow> scan" where
  "StopScanTimer s = (if internalTimer s \<noteq> NLSTK_DEVD_TIMER_NO_USED_HANDLE then s\<lparr>internalTimer := NLSTK_DEVD_TIMER_NO_USED_HANDLE\<rparr> else s)"

definition call_collab :: "(scan \<Rightarrow> bool \<times> scan) option \<Rightarrow> scan \<Rightarrow> bool \<times> scan" where
  "call_collab f s = (case f of None \<Rightarrow> (False, s) | Some g \<Rightarrow> g s)"

definition state_exit :: "scan scan_ext \<Rightarrow> scan \<Rightarrow> scan" where
  "state_exit x s =
     (case stm_current s of
        Some DEVD_STATE_STARTING \<Rightarrow> StopScanTimer s
      | Some DEVD_STATE_STOPPING \<Rightarrow> StopScanTimer s
      | Some (DEVD_STATE_USER n) \<Rightarrow> user_exit x n s
      | _ \<Rightarrow> s)"

definition StoppedEntry :: "scan scan_ext \<Rightarrow> scan \<Rightarrow> scan" where
  "StoppedEntry x s =
     (let s1 = (case notifyScanCollabResult x of None \<Rightarrow> s | Some g \<Rightarrow> g True s) in
      s1\<lparr>inflightScanSetting := ResetScanSetting (inflightScanSetting s1), inflightFrame4ScanSetting := ResetScanSetting (inflightFrame4ScanSetting s1),
         currentScanSetting := ResetScanSetting (currentScanSetting s1), currentFrame4ScanSetting := ResetScanSetting (currentFrame4ScanSetting s1)\<rparr>)"

definition StartedEntry :: "scan scan_ext \<Rightarrow> scan \<Rightarrow> scan" where
  "StartedEntry x s = (case notifyScanCollabResult x of None \<Rightarrow> s | Some g \<Rightarrow> g False s)"

text \<open>The transition of the machine: exit of the current state, change, entry of the new one.\<close>

definition goto :: "scan scan_ext \<Rightarrow> NLSTK_DevdScanState \<Rightarrow> scan \<Rightarrow> scan" where
  "goto x t s = (state_exit x s)\<lparr>stm_current := Some t\<rparr>"

definition to_stopped :: "scan scan_ext \<Rightarrow> scan \<Rightarrow> scan" where
  "to_stopped x s = StoppedEntry x (goto x DEVD_STATE_STOPPED s)"

definition to_started :: "scan scan_ext \<Rightarrow> scan \<Rightarrow> scan" where
  "to_started x s = StartedEntry x (goto x DEVD_STATE_STARTED s)"

definition one_param :: "u8 \<Rightarrow> NLSTK_DevdScanSettingInner \<Rightarrow> NLSTK_DevdSleScanParamsNoPhy list" where
  "one_param t i = (if si_window i \<noteq> 0 then [\<lparr>scanType = t, scanInterval = si_interval i, scanWindow = si_window i\<rparr>] else [])"

definition BuildScanParams :: "'r env \<Rightarrow> scan \<Rightarrow> NLSTK_DevdSleScanParams option" where
  "BuildScanParams e s =
     (let w1 = si_window (inflightScanSetting s) \<noteq> 0; w4 = si_window (inflightFrame4ScanSetting s) \<noteq> 0;
          frameType = (if w1 \<and> w4 then 3 else if w1 then 1 else if w4 then 2 else 0) in
      (case SDF_MemZalloc e of
         None \<Rightarrow> None
       | Some _ \<Rightarrow> Some \<lparr>localAddrType = 0, scanFilterPolicy = 0, sp_frameType = frameType,
           sp_params = one_param 1 (inflightScanSetting s) @ one_param 0 (inflightFrame4ScanSetting s)\<rparr>))"

definition StartingEntry :: "scan scan_ext \<Rightarrow> 'r env \<Rightarrow> scan \<Rightarrow> scan option" where
  "StartingEntry x e s =
     (let s1 = snd (StartScanTimer (sub e 0) s) in
      (case BuildScanParams (sub e 1) s1 of
         None \<Rightarrow> Some (to_stopped x (notify_modules NLSTK_ERRCODE_FAIL True s1))
       | Some p \<Rightarrow>
           if si_window (inflightScanSetting s1) = 0 \<and> si_window (inflightFrame4ScanSetting s1) = 0 then Some s1
           else do {
             (ret, s2) \<leftarrow> NLSTK_DevdSleStartScan (sub e 2) p s1;
             Some (if ret \<noteq> NLSTK_ERRCODE_SUCCESS then to_stopped x (notify_modules NLSTK_ERRCODE_FAIL True s2) else s2)
           }))"

definition StoppingEntry :: "scan scan_ext \<Rightarrow> 'r env \<Rightarrow> scan \<Rightarrow> scan" where
  "StoppingEntry x e s =
     (case NLSTK_DevdSleEnableScan (sub e 1) False (snd (StartScanTimer (sub e 0) s)) of
        (ret, s1) \<Rightarrow> if ret \<noteq> NLSTK_ERRCODE_SUCCESS then to_started x s1 else s1)"

definition to_starting :: "scan scan_ext \<Rightarrow> 'r env \<Rightarrow> scan \<Rightarrow> scan option" where
  "to_starting x e s = StartingEntry x e (goto x DEVD_STATE_STARTING s)"

definition to_stopping :: "scan scan_ext \<Rightarrow> 'r env \<Rightarrow> scan \<Rightarrow> scan" where
  "to_stopping x e s = StoppingEntry x e (goto x DEVD_STATE_STOPPING s)"

definition ScanSettingsEqual :: "NLSTK_DevdScanSettingInner \<Rightarrow> NLSTK_DevdScanSettingInner \<Rightarrow> bool" where
  "ScanSettingsEqual l r \<longleftrightarrow> si_window l = si_window r \<and> si_interval l = si_interval r"

text \<open>The wanted setting of a frame type in the stopped state: the best one if it listens at all.\<close>

definition wanted :: "NLSTK_DevdScanSettingInner option \<Rightarrow> NLSTK_DevdScanSettingInner" where
  "wanted t = (case t of None \<Rightarrow> zero_setting\<lparr>si_interval := UINT16_MAX\<rparr> | Some i \<Rightarrow> if si_window i \<noteq> 0 then i else zero_setting\<lparr>si_interval := UINT16_MAX\<rparr>)"

definition no_window :: "NLSTK_DevdScanSettingInner option \<Rightarrow> bool" where
  "no_window t = (case t of None \<Rightarrow> True | Some i \<Rightarrow> si_window i = 0)"

definition StoppedDispatch :: "scan scan_ext \<Rightarrow> 'r env \<Rightarrow> NLSTK_DevdScanStmEvent \<Rightarrow> scan \<Rightarrow> scan option" where
  "StoppedDispatch x e what s =
     (case what of
        DEVD_POTIENTIAL_UPDATE \<Rightarrow> do {
          t1 \<leftarrow> FetchFrame1TargetScanSettings (scanners s);
          t4 \<leftarrow> FetchFrame4TargetScanSettings (scanners s);
          if no_window t1 \<and> no_window t4 then Some s
          else (case call_collab (isNeedStartScanCollabReqAndTransState x) s of
            (b, s1) \<Rightarrow>
              if b then Some s1
              else
                let s2 = (if \<not> ScanSettingsEqual (wanted t1) (currentScanSetting s1) then s1\<lparr>inflightScanSetting := wanted t1\<rparr> else s1);
                    s3 = (if \<not> ScanSettingsEqual (wanted t4) (currentFrame4ScanSetting s2) then s2\<lparr>inflightFrame4ScanSetting := wanted t4\<rparr> else s2) in
                to_starting x e s3)
        }
      | _ \<Rightarrow> Some s)"

definition StartedDispatch :: "scan scan_ext \<Rightarrow> 'r env \<Rightarrow> NLSTK_DevdScanStmEvent \<Rightarrow> scan \<Rightarrow> scan option" where
  "StartedDispatch x e what s =
     (case what of
        DEVD_POTIENTIAL_UPDATE \<Rightarrow> do {
          t1 \<leftarrow> FetchFrame1TargetScanSettings (scanners s);
          t4 \<leftarrow> FetchFrame4TargetScanSettings (scanners s);
          (case (t1, t4) of
             (Some t1, Some t4) \<Rightarrow>
               (let same1 = ScanSettingsEqual t1 (currentScanSetting s); same4 = ScanSettingsEqual t4 (currentFrame4ScanSetting s);
                    (b0, s0) = (if same1 \<and> same4 then call_collab (isNeedTryStopScanCollab x) s else (True, s)) in
                if \<not> b0 then Some s0
                else (case call_collab (isNeedStopScanCollabReqAndTransState x) s0 of
                  (b, s1) \<Rightarrow>
                    if b then Some s1
                    else
                      let s2 = (if \<not> ScanSettingsEqual t1 (currentScanSetting s1) then s1\<lparr>inflightScanSetting := ResetScanSetting (inflightScanSetting s1)\<rparr> else s1);
                          s3 = (if \<not> ScanSettingsEqual t4 (currentFrame4ScanSetting s2) then s2\<lparr>inflightFrame4ScanSetting := ResetScanSetting (inflightFrame4ScanSetting s2)\<rparr> else s2) in
                      Some (to_stopping x e s3)))
           | _ \<Rightarrow> Some (to_stopping x e s))
        }
      | _ \<Rightarrow> Some s)"

text \<open>The message \<open>DEVD_POTIENTIAL_UPDATE\<close> in whatever state the machine is in; the two transient states ignore it.\<close>

definition process_update :: "scan scan_ext \<Rightarrow> 'r env \<Rightarrow> scan \<Rightarrow> scan option" where
  "process_update x e s =
     (case stm_current s of
        Some DEVD_STATE_STOPPED \<Rightarrow> StoppedDispatch x e DEVD_POTIENTIAL_UPDATE s
      | Some DEVD_STATE_STARTED \<Rightarrow> StartedDispatch x e DEVD_POTIENTIAL_UPDATE s
      | Some (DEVD_STATE_USER n) \<Rightarrow> Some (user_dispatch x n DEVD_POTIENTIAL_UPDATE s)
      | _ \<Rightarrow> Some s)"

definition StartingDispatch :: "scan scan_ext \<Rightarrow> 'r env \<Rightarrow> NLSTK_DevdScanStmEvent \<Rightarrow> scan \<Rightarrow> scan option" where
  "StartingDispatch x e what s =
     (case what of
        DEVD_START_OK \<Rightarrow>
          process_update x e (to_started x (notify_modules NLSTK_ERRCODE_SUCCESS True (s\<lparr>currentScanSetting := inflightScanSetting s, currentFrame4ScanSetting := inflightFrame4ScanSetting s\<rparr>)))
      | DEVD_START_ERR \<Rightarrow> Some (to_stopped x (notify_modules NLSTK_ERRCODE_FAIL True s))
      | DEVD_INTERNAL_TIMEOUT \<Rightarrow> Some (to_stopped x (notify_modules NLSTK_ERRCODE_TIMEOUT True s))
      | _ \<Rightarrow> Some s)"

definition StoppingDispatch :: "scan scan_ext \<Rightarrow> 'r env \<Rightarrow> NLSTK_DevdScanStmEvent \<Rightarrow> scan \<Rightarrow> scan option" where
  "StoppingDispatch x e what s =
     (case what of
        DEVD_STOP_OK \<Rightarrow> process_update x e (to_stopped x (notify_modules NLSTK_ERRCODE_SUCCESS False s))
      | DEVD_STOP_ERR \<Rightarrow> Some (to_started x (notify_modules NLSTK_ERRCODE_FAIL False s))
      | DEVD_INTERNAL_TIMEOUT \<Rightarrow> process_update x e (to_stopped x (notify_modules NLSTK_ERRCODE_TIMEOUT False s))
      | _ \<Rightarrow> Some s)"

definition StateMachineProcessMessage :: "scan scan_ext \<Rightarrow> 'r env \<Rightarrow> NLSTK_DevdScanStmEvent \<Rightarrow> scan \<Rightarrow> scan option" where
  "StateMachineProcessMessage x e what s =
     (case stm_current s of
        None \<Rightarrow> Some s
      | Some DEVD_STATE_STOPPED \<Rightarrow> StoppedDispatch x e what s
      | Some DEVD_STATE_STARTING \<Rightarrow> StartingDispatch x e what s
      | Some DEVD_STATE_STARTED \<Rightarrow> StartedDispatch x e what s
      | Some DEVD_STATE_STOPPING \<Rightarrow> StoppingDispatch x e what s
      | Some (DEVD_STATE_USER n) \<Rightarrow> Some (user_dispatch x n what s))"

definition InternalTimeout :: "scan scan_ext \<Rightarrow> 'r env \<Rightarrow> scan \<Rightarrow> scan option" where
  "InternalTimeout x e s = StateMachineProcessMessage x e DEVD_INTERNAL_TIMEOUT s"

section \<open>Answers of the controller\<close>

datatype scan_msg = DEVD_CBK_EVENT_ENABLE_SCAN | DEVD_CBK_EVENT_DISABLE_SCAN

abbreviation (input) DLI_SUCCESS_CODE :: nat where "DLI_SUCCESS_CODE \<equiv> 0"

definition ScanCbk :: "scan scan_ext \<Rightarrow> 'r env \<Rightarrow> scan_msg \<Rightarrow> nat \<Rightarrow> scan \<Rightarrow> scan option" where
  "ScanCbk x e msg result s =
     (if \<not> g_scanStm s then Some s
      else (case msg of
        DEVD_CBK_EVENT_ENABLE_SCAN \<Rightarrow> StateMachineProcessMessage x e (if result = DLI_SUCCESS_CODE then DEVD_START_OK else DEVD_START_ERR) s
      | DEVD_CBK_EVENT_DISABLE_SCAN \<Rightarrow> StateMachineProcessMessage x e (if result = DLI_SUCCESS_CODE then DEVD_STOP_OK else DEVD_STOP_ERR) s))"

definition DevdSleSetScanParamCbk :: "scan scan_ext \<Rightarrow> 'r env \<Rightarrow> nat \<Rightarrow> scan \<Rightarrow> scan option" where
  "DevdSleSetScanParamCbk x e status s =
     (if status = DLI_SUCCESS_CODE
      then Some (DevdSleEnableScan e True (s\<lparr>scanParams := tmpScanParams s, tmpScanParams := None, sm_status := DEVD_SLE_STATUS_IDLE\<rparr>))
      else
        let s1 = s\<lparr>tmpScanParams := None\<rparr> in
        if scanCbk s1
        then if \<not> status \<le> 255 then Some s1
          else do { s2 \<leftarrow> ScanCbk x e DEVD_CBK_EVENT_ENABLE_SCAN status s1; Some (s2\<lparr>sm_status := DEVD_SLE_STATUS_IDLE\<rparr>) }
        else Some (s1\<lparr>sm_status := DEVD_SLE_STATUS_IDLE\<rparr>))"

definition DevdSleEnableScanCbk :: "scan scan_ext \<Rightarrow> 'r env \<Rightarrow> nat \<Rightarrow> scan \<Rightarrow> scan option" where
  "DevdSleEnableScanCbk x e status s =
     (let msg = (if status = DLI_SUCCESS_CODE \<and> sm_status s = DEVD_SLE_STATUS_SET_SCAN_DISABLE2ENABLE then DEVD_CBK_EVENT_ENABLE_SCAN else DEVD_CBK_EVENT_DISABLE_SCAN) in
      do {
        s1 \<leftarrow> (if scanCbk s then ScanCbk x e msg (status mod 256) s else Some s);
        Some (s1\<lparr>sm_status := DEVD_SLE_STATUS_IDLE\<rparr>)
      })"

section \<open>Modules and scanners\<close>

definition SDF_VectorFindFirst :: "('a \<Rightarrow> bool) \<Rightarrow> 'a SDF_Vector \<Rightarrow> nat option" where
  "SDF_VectorFindFirst P v = find (\<lambda>i. P (v_elems v ! i)) [0..<length (v_elems v)]"

definition SDF_VectorRemove :: "nat \<Rightarrow> 'a SDF_Vector \<Rightarrow> 'a SDF_Vector" where
  "SDF_VectorRemove i v = (if i \<ge> length (v_elems v) then v else v\<lparr>v_elems := take i (v_elems v) @ drop (Suc i) (v_elems v)\<rparr>)"

definition CompScannerId :: "nat \<Rightarrow> NLSTK_DevdScanner \<Rightarrow> bool" where
  "CompScannerId i sc \<longleftrightarrow> scannerId sc = i"

definition CompModuleId :: "nat \<Rightarrow> NLSTK_DevdScanner \<Rightarrow> bool" where
  "CompModuleId m sc \<longleftrightarrow> sc_moduleId sc = m"

text \<open>A store through the pointer to the scanner at an index.\<close>

definition scanner_upd :: "nat \<Rightarrow> (NLSTK_DevdScanner \<Rightarrow> NLSTK_DevdScanner) \<Rightarrow> scan \<Rightarrow> scan" where
  "scanner_upd i f s = s\<lparr>scanners := (scanners s)\<lparr>v_elems := (v_elems (scanners s))[i := f (v_elems (scanners s) ! i)]\<rparr>\<rparr>"

fun first_unused :: "NLSTK_DevdScanModule list \<Rightarrow> nat option" where
  "first_unused [] = None"
| "first_unused (m # ms) = (if \<not> sm_used m then Some 0 else map_option Suc (first_unused ms))"

definition DevdCreateScanModule :: "bool \<Rightarrow> bool \<Rightarrow> scan \<Rightarrow> nat \<times> scan" where
  "DevdCreateScanModule ev cb s =
     (if \<not> g_scanStm s then (DEVD_MAX_MODULE_ID, s)
      else (case first_unused (scanModule s) of
        None \<Rightarrow> (DEVD_MAX_MODULE_ID, s)
      | Some i \<Rightarrow> (i, s\<lparr>scanModule := (scanModule s)[i := \<lparr>sm_used = True, onStartOrStopEvent = ev, onScanCallback = cb\<rparr>]\<rparr>)))"

function remove_scanners :: "nat \<Rightarrow> NLSTK_DevdScanner SDF_Vector \<Rightarrow> NLSTK_DevdScanner SDF_Vector" where
  "remove_scanners m v = (case SDF_VectorFindFirst (CompModuleId m) v of None \<Rightarrow> v | Some i \<Rightarrow> remove_scanners m (SDF_VectorRemove i v))"
  by pat_completeness auto
termination
  by (relation "measure (\<lambda>(m, v). length (v_elems v))") (auto simp: SDF_VectorFindFirst_def SDF_VectorRemove_def find_Some_iff)

definition DevdRemoveScanModule :: "nat \<Rightarrow> scan \<Rightarrow> scan" where
  "DevdRemoveScanModule m s =
     (if \<not> m < DEVD_MAX_MODULE_ID then s
      else if \<not> g_scanStm s then s
      else s\<lparr>scanModule := (scanModule s)[m := \<lparr>sm_used = False, onStartOrStopEvent = False, onScanCallback = False\<rparr>], scanners := remove_scanners m (scanners s)\<rparr>)"

definition new_scanner :: "nat \<Rightarrow> nat \<Rightarrow> NLSTK_DevdScanner" where
  "new_scanner i m = \<lparr>scannerId = i, sc_moduleId = m, scanSetting = ResetScanSetting zero_setting, frame4ScanSetting = ResetScanSetting zero_setting, sc_filters = None\<rparr>"

definition DevdCreateScanner :: "scan scan_ext \<Rightarrow> 'r env \<Rightarrow> nat \<Rightarrow> scan \<Rightarrow> nat \<times> scan" where
  "DevdCreateScanner x e m s =
     (if \<not> g_scanStm s then (DEVD_INVALID_SCANNER_ID, s)
      else if \<not> (m < DEVD_MAX_MODULE_ID \<and> sm_used (scanModule s ! m)) then (DEVD_INVALID_SCANNER_ID, s)
      else
        let maxNum = (case collabGetScannerMaxNum x of None \<Rightarrow> NLSTK_DEVD_MULTI_SCAN_MAX_NUM | Some n \<Rightarrow> n) in
        (case find (\<lambda>i. SDF_VectorFindFirst (CompScannerId i) (scanners s) = None) [1..<Suc maxNum] of
           None \<Rightarrow> (DEVD_INVALID_SCANNER_ID, s)
         | Some i \<Rightarrow>
             (case SDF_MemZalloc (sub e 0) of
                None \<Rightarrow> (DEVD_INVALID_SCANNER_ID, s)
              | Some _ \<Rightarrow> (case SDF_VectorEmplaceBack (sub e 1) (scanners s) (new_scanner i m) of
                  (ok, v) \<Rightarrow> if \<not> ok then (DEVD_INVALID_SCANNER_ID, s\<lparr>scanners := v\<rparr>) else (i, s\<lparr>scanners := v\<rparr>)))))"

definition DevdAddFilters :: "scan scan_ext \<Rightarrow> nat \<Rightarrow> NLSTK_DevdScanSetting \<Rightarrow> NLSTK_DevdScanFilter SDF_Vector \<Rightarrow> scan \<Rightarrow> scan" where
  "DevdAddFilters x i st fs s =
     (let s1 = scanner_upd i (\<lambda>sc. sc\<lparr>sc_filters := Some fs\<rparr>) s in
      case devdAddChipFilters x of None \<Rightarrow> s1 | Some g \<Rightarrow> g i st s1)"

definition DevdDeleteFilters :: "scan scan_ext \<Rightarrow> nat \<Rightarrow> scan \<Rightarrow> scan" where
  "DevdDeleteFilters x i s =
     (if sc_filters (v_elems (scanners s) ! i) = None then s
      else scanner_upd i (\<lambda>sc. sc\<lparr>sc_filters := None\<rparr>) (case devdDeleteChipFilters x of None \<Rightarrow> s | Some g \<Rightarrow> g i s))"

definition DevdDestroyScanner :: "scan scan_ext \<Rightarrow> nat \<Rightarrow> scan \<Rightarrow> scan" where
  "DevdDestroyScanner x i s =
     (if i = DEVD_INVALID_SCANNER_ID then s
      else if \<not> g_scanStm s then s
      else (case SDF_VectorFindFirst (CompScannerId i) (scanners s) of
        None \<Rightarrow> s
      | Some k \<Rightarrow> let s1 = DevdDeleteFilters x k s in s1\<lparr>scanners := SDF_VectorRemove k (scanners s1)\<rparr>))"

section \<open>Scan modes\<close>

text \<open>Window and interval of a scan mode, for batched and for immediate reports.\<close>

definition set_duty :: "bool \<Rightarrow> nat \<times> nat \<Rightarrow> nat \<times> nat \<Rightarrow> NLSTK_DevdScanSettingInner \<Rightarrow> NLSTK_DevdScanSettingInner" where
  "set_duty allMatches b d i = (if allMatches then i\<lparr>si_interval := snd b, si_window := fst b\<rparr> else i\<lparr>si_interval := snd d, si_window := fst d\<rparr>)"

definition SetLowPowerDuration :: "NLSTK_DevdScanSettingInner \<Rightarrow> bool \<Rightarrow> NLSTK_DevdScanSettingInner" where
  "SetLowPowerDuration i b = set_duty b (500, 45000) (900, 9000) i"

definition SetBalancedDuration :: "NLSTK_DevdScanSettingInner \<Rightarrow> bool \<Rightarrow> NLSTK_DevdScanSettingInner" where
  "SetBalancedDuration i b = set_duty b (1000, 45000) (1024, 4096) i"

definition SetFullScanDuration :: "NLSTK_DevdScanSettingInner \<Rightarrow> bool \<Rightarrow> NLSTK_DevdScanSettingInner" where
  "SetFullScanDuration i b = set_duty b (1248, 45000) (2048, 4096) i"

definition SetLowLatencyDuration :: "NLSTK_DevdScanSettingInner \<Rightarrow> bool \<Rightarrow> NLSTK_DevdScanSettingInner" where
  "SetLowLatencyDuration i b = set_duty b (1500, 45000) (4096, 4096) i"

definition SetDutyCycle2Duration :: "NLSTK_DevdScanSettingInner \<Rightarrow> bool \<Rightarrow> NLSTK_DevdScanSettingInner" where
  "SetDutyCycle2Duration i b = set_duty b (60, 3000) (60, 3000) i"

definition SetDutyCycle10LowDuration :: "NLSTK_DevdScanSettingInner \<Rightarrow> bool \<Rightarrow> NLSTK_DevdScanSettingInner" where
  "SetDutyCycle10LowDuration i b = set_duty b (30, 300) (30, 300) i"

definition SetDutyCycle10Duration :: "NLSTK_DevdScanSettingInner \<Rightarrow> bool \<Rightarrow> NLSTK_DevdScanSettingInner" where
  "SetDutyCycle10Duration i b = set_duty b (60, 600) (60, 600) i"

definition SetDutyCycle25Duration :: "NLSTK_DevdScanSettingInner \<Rightarrow> bool \<Rightarrow> NLSTK_DevdScanSettingInner" where
  "SetDutyCycle25Duration i b = set_duty b (60, 240) (60, 240) i"

definition SetDutyCycle50LowDuration :: "NLSTK_DevdScanSettingInner \<Rightarrow> bool \<Rightarrow> NLSTK_DevdScanSettingInner" where
  "SetDutyCycle50LowDuration i b = set_duty b (100, 200) (100, 200) i"

definition SetDutyCycle50Duration :: "NLSTK_DevdScanSettingInner \<Rightarrow> bool \<Rightarrow> NLSTK_DevdScanSettingInner" where
  "SetDutyCycle50Duration i b = set_duty b (240, 480) (240, 480) i"

definition SetDutyCycle50HighDuration :: "NLSTK_DevdScanSettingInner \<Rightarrow> bool \<Rightarrow> NLSTK_DevdScanSettingInner" where
  "SetDutyCycle50HighDuration i b = set_duty b (480, 960) (480, 960) i"

definition SetDutyCycle100LowDuration :: "NLSTK_DevdScanSettingInner \<Rightarrow> bool \<Rightarrow> NLSTK_DevdScanSettingInner" where
  "SetDutyCycle100LowDuration i b = set_duty b (240, 240) (240, 240) i"

definition SetDutyCycle100Duration :: "NLSTK_DevdScanSettingInner \<Rightarrow> bool \<Rightarrow> NLSTK_DevdScanSettingInner" where
  "SetDutyCycle100Duration i b = set_duty b (1000, 1000) (1000, 1000) i"

definition SetScanMode :: "int \<Rightarrow> bool \<Rightarrow> NLSTK_DevdScanSettingInner \<Rightarrow> NLSTK_DevdScanSettingInner" where
  "SetScanMode m b i =
     (if m = 0x00 then SetLowPowerDuration i b
      else if m = 0x01 then SetBalancedDuration i b
      else if m = 0x02 then SetLowLatencyDuration i b
      else if m = 0x03 then SetDutyCycle2Duration i b
      else if m = 0x0D then SetDutyCycle10LowDuration i b
      else if m = 0x04 then SetDutyCycle10Duration i b
      else if m = 0x05 then SetDutyCycle25Duration i b
      else if m = 0x07 then SetDutyCycle50LowDuration i b
      else if m = 0x08 then SetDutyCycle50Duration i b
      else if m = 0x09 then SetDutyCycle50HighDuration i b
      else if m = 0x0A then SetDutyCycle100LowDuration i b
      else if m = 0x06 then SetDutyCycle100Duration i b
      else if m = 0x0B then SetFullScanDuration i b
      else i)"

section \<open>Durations\<close>

text \<open>The clock is an answer of the environment, in nanoseconds, and may fail.\<close>

definition clock_gettime :: "'r env \<Rightarrow> timespec option" where
  "clock_gettime e = (if call_dli e then Some \<lparr>tv_sec = int (env_time e (env_path e)) div 1000000000, tv_nsec = int (env_time e (env_path e)) mod 1000000000\<rparr> else None)"

definition SetScanDuration :: "'r env \<Rightarrow> int \<Rightarrow> NLSTK_DevdScanSettingInner \<Rightarrow> bool \<times> NLSTK_DevdScanSettingInner" where
  "SetScanDuration e d i =
     (case clock_gettime e of
        None \<Rightarrow> (False, i\<lparr>hasDuration := True\<rparr>)
      | Some t \<Rightarrow> (True, i\<lparr>hasDuration := True, expireTime := t\<lparr>tv_sec := tv_sec t + d\<rparr>\<rparr>))"

text \<open>Division that truncates towards zero.\<close>

definition tdiv :: "int \<Rightarrow> int \<Rightarrow> int" where
  "tdiv a b = (if a \<ge> 0 then a div b else - ((- a) div b))"

definition TimespecDiff :: "timespec \<Rightarrow> timespec \<Rightarrow> int" where
  "TimespecDiff t1 t2 = max 0 ((tv_sec t2 - tv_sec t1) * 1000 + tdiv (tv_nsec t2 - tv_nsec t1) 1000000 + 1)"

definition later :: "timespec \<Rightarrow> timespec \<Rightarrow> bool" where
  "later a b \<longleftrightarrow> tv_sec a > tv_sec b \<or> tv_sec a = tv_sec b \<and> tv_nsec a > tv_nsec b"

definition min_ts :: "NLSTK_DevdScanSettingInner \<Rightarrow> timespec option \<Rightarrow> timespec option" where
  "min_ts i m = (if hasDuration i then (case m of None \<Rightarrow> Some (expireTime i) | Some t \<Rightarrow> if later t (expireTime i) then Some (expireTime i) else m) else m)"

definition next_expiry :: "NLSTK_DevdScanner list \<Rightarrow> timespec option" where
  "next_expiry scs = fold (\<lambda>sc m. min_ts (frame4ScanSetting sc) (min_ts (scanSetting sc) m)) scs None"

definition StopDurationTimer :: "scan \<Rightarrow> scan" where
  "StopDurationTimer s = (if durationTimer s \<noteq> NLSTK_DEVD_TIMER_NO_USED_HANDLE then s\<lparr>durationTimer := NLSTK_DEVD_TIMER_NO_USED_HANDLE\<rparr> else s)"

definition StartDurationTimer :: "'r env \<Rightarrow> scan \<Rightarrow> bool \<times> scan" where
  "StartDurationTimer e s = (case CP_TimerAdd e of None \<Rightarrow> (False, s) | Some h \<Rightarrow> (True, s\<lparr>durationTimer := h\<rparr>))"

definition clear_expired :: "timespec \<Rightarrow> NLSTK_DevdScanSettingInner \<Rightarrow> NLSTK_DevdScanSettingInner" where
  "clear_expired now i = (if hasDuration i \<and> later now (expireTime i) then ResetScanSetting i else i)"

definition ClearExpiredParam :: "scan scan_ext \<Rightarrow> 'r env \<Rightarrow> scan \<Rightarrow> scan option" where
  "ClearExpiredParam x e s =
     (if \<not> g_scanStm s then Some s
      else (case clock_gettime (sub e 0) of
        None \<Rightarrow> Some s
      | Some now \<Rightarrow> StateMachineProcessMessage x (sub e 1) DEVD_POTIENTIAL_UPDATE
          (s\<lparr>scanners := (scanners s)\<lparr>v_elems := map (\<lambda>sc. sc\<lparr>scanSetting := clear_expired now (scanSetting sc), frame4ScanSetting := clear_expired now (frame4ScanSetting sc)\<rparr>) (v_elems (scanners s))\<rparr>\<rparr>)))"

text \<open>
  The timer of the next expiry; a time that has passed already is handled at once, which calls the function again.
\<close>

partial_function (option) UpdateExpireTimer :: "scan scan_ext \<Rightarrow> 'r env \<Rightarrow> bool \<Rightarrow> scan \<Rightarrow> scan option" where
  "UpdateExpireTimer x e timeout s =
     (let s1 = (if \<not> timeout then StopDurationTimer s else s) in
      case next_expiry (v_elems (scanners s)) of
        None \<Rightarrow> Some s1
      | Some t \<Rightarrow> (case clock_gettime (sub e 0) of
          None \<Rightarrow> Some s1
        | Some now \<Rightarrow>
            if TimespecDiff now t = 0
            then if \<not> g_scanStm s1 then Some s1 else do { s2 \<leftarrow> ClearExpiredParam x (sub e 1) s1; UpdateExpireTimer x (sub e 2) True s2 }
            else Some (snd (StartDurationTimer (sub e 1) s1))))"

definition DurationTimeout :: "scan scan_ext \<Rightarrow> 'r env \<Rightarrow> scan \<Rightarrow> scan option" where
  "DurationTimeout x e s = (if \<not> g_scanStm s then Some s else do { s1 \<leftarrow> ClearExpiredParam x (sub e 0) s; UpdateExpireTimer x (sub e 1) True s1 })"

section \<open>Parameters of a scanner\<close>

definition reset_settings :: "NLSTK_DevdScanner \<Rightarrow> NLSTK_DevdScanner" where
  "reset_settings sc = sc\<lparr>scanSetting := ResetScanSetting (scanSetting sc), frame4ScanSetting := ResetScanSetting (frame4ScanSetting sc)\<rparr>"

text \<open>The part that the two frame types share: the setting is stored, then the mode, then the end of the scan.\<close>

definition store_setting :: "scan scan_ext \<Rightarrow> 'r env \<Rightarrow> NLSTK_DevdScanSetting \<Rightarrow> NLSTK_DevdScanSettingInner \<Rightarrow> (NLSTK_DevdScanSettingInner \<Rightarrow> scan \<Rightarrow> scan) \<Rightarrow> scan \<Rightarrow> (NLSTK_Errcode \<times> scan) option" where
  "store_setting x e st i put s =
     (let i1 = SetScanMode (scanMode st) (reportDelayMillis st > 0) (i\<lparr>si_setting := st\<rparr>) in
      if ss_duration st > 0
      then (case SetScanDuration (sub e 0) (ss_duration st) i1 of
        (ok, i2) \<Rightarrow>
          if \<not> ok then Some (NLSTK_ERRCODE_FAIL, put i2 s)
          else do { s1 \<leftarrow> UpdateExpireTimer x (sub e 1) False (put i2 s); Some (NLSTK_ERRCODE_SUCCESS, s1) })
      else Some (NLSTK_ERRCODE_SUCCESS, put i1 s))"

definition DevdAddScanParam :: "scan scan_ext \<Rightarrow> 'r env \<Rightarrow> nat \<Rightarrow> NLSTK_DevdScanSetting \<Rightarrow> NLSTK_DevdScanFilter SDF_Vector option \<Rightarrow> scan \<Rightarrow> (NLSTK_Errcode \<times> scan) option" where
  "DevdAddScanParam x e i st fs s =
     (if i = DEVD_INVALID_SCANNER_ID then Some (NLSTK_ERRCODE_PARAM_ERR, s)
      else if \<not> g_scanStm s then Some (NLSTK_ERRCODE_POINTER_NULL, s)
      else if fs = None then Some (NLSTK_ERRCODE_POINTER_NULL, s)
      else (case SDF_VectorFindFirst (CompScannerId i) (scanners s) of
        None \<Rightarrow> Some (NLSTK_ERRCODE_PARAM_ERR, s)
      | Some k \<Rightarrow> do {
          clone \<leftarrow> DevdCloneFiltersVector (sub e 0) fs;
          (case clone of
             None \<Rightarrow> Some (NLSTK_ERRCODE_MALLOC_FAIL, s)
           | Some c \<Rightarrow>
               let s1 = DevdAddFilters x k st c s in
               if scanMode st = 0x0C then Some (NLSTK_ERRCODE_SUCCESS, scanner_upd k reset_settings s1)
               else if ss_frameType st = 1 then
                 store_setting x (sub e 1) st (scanSetting (v_elems (scanners s1) ! k)) (\<lambda>j. scanner_upd k (\<lambda>sc. sc\<lparr>scanSetting := j\<rparr>)) s1
               else if ss_frameType st = 2 then
                 store_setting x (sub e 1) st (frame4ScanSetting (v_elems (scanners s1) ! k)) (\<lambda>j. scanner_upd k (\<lambda>sc. sc\<lparr>frame4ScanSetting := j\<rparr>)) s1
               else Some (NLSTK_ERRCODE_PARAM_ERR, s1))
        }))"

definition DevdRemoveScanParam :: "scan scan_ext \<Rightarrow> 'r env \<Rightarrow> nat \<Rightarrow> scan \<Rightarrow> (NLSTK_Errcode \<times> scan) option" where
  "DevdRemoveScanParam x e i s =
     (if i = DEVD_INVALID_SCANNER_ID then Some (NLSTK_ERRCODE_PARAM_ERR, s)
      else if \<not> g_scanStm s then Some (NLSTK_ERRCODE_POINTER_NULL, s)
      else (case SDF_VectorFindFirst (CompScannerId i) (scanners s) of
        None \<Rightarrow> Some (NLSTK_ERRCODE_PARAM_ERR, s)
      | Some k \<Rightarrow> do { s1 \<leftarrow> UpdateExpireTimer x e False (DevdDeleteFilters x k (scanner_upd k reset_settings s)); Some (NLSTK_ERRCODE_SUCCESS, s1) }))"

definition DevdRemoveAllScanParam :: "scan scan_ext \<Rightarrow> 'r env \<Rightarrow> scan \<Rightarrow> scan option" where
  "DevdRemoveAllScanParam x e s =
     (if \<not> g_scanStm s then Some s
      else
        let s1 = s\<lparr>scanners := (scanners s)\<lparr>v_elems := map (\<lambda>sc. (reset_settings sc)\<lparr>sc_filters := None\<rparr>) (v_elems (scanners s))\<rparr>\<rparr>;
            s2 = (if devdIsSupportScanFilter x = Some True then (case devdSetScanfilterSwitch x of None \<Rightarrow> s1 | Some g \<Rightarrow> g s1) else s1) in
        UpdateExpireTimer x e False s2)"

section \<open>Reports\<close>

definition AddReportScannner :: "'r env \<Rightarrow> nat SDF_Vector option \<Rightarrow> nat \<Rightarrow> bool \<times> nat SDF_Vector option" where
  "AddReportScannner e v i =
     (case (case v of None \<Rightarrow> SDF_CreateVector (sub e 0) | Some w \<Rightarrow> Some w) of
        None \<Rightarrow> (False, None)
      | Some w \<Rightarrow> (case SDF_MemZalloc (sub e 1) of
          None \<Rightarrow> (False, Some w)
        | Some _ \<Rightarrow> (case SDF_VectorEmplaceBack (sub e 2) w i of (ok, w1) \<Rightarrow> (ok, Some w1))))"

text \<open>The scanners whose filters match, collected per module; none is the result when the memory runs out.\<close>

fun report_loop :: "'r env \<Rightarrow> nat \<Rightarrow> NLSTK_DevdAdvResult \<Rightarrow> NLSTK_DevdScanner list \<Rightarrow> nat SDF_Vector option list \<Rightarrow> nat SDF_Vector option list option option" where
  "report_loop e k r [] vs = Some (Some vs)"
| "report_loop e k r (sc # scs) vs = do {
     b \<leftarrow> DevdIsMatchFilters (sub (sub e k) 0) r (sc_filters sc);
     if b \<and> sc_moduleId sc < DEVD_MAX_MODULE_ID
     then (case AddReportScannner (sub (sub e k) 1) (vs ! sc_moduleId sc) (scannerId sc) of
       (ok, v) \<Rightarrow> if ok then report_loop e (Suc k) r scs (vs[sc_moduleId sc := v]) else Some None)
     else report_loop e (Suc k) r scs vs
   }"

definition report_calls :: "NLSTK_DevdScanModule list \<Rightarrow> NLSTK_DevdAdvResult \<Rightarrow> nat SDF_Vector option list \<Rightarrow> (nat \<times> nat list \<times> NLSTK_DevdAdvResult) list" where
  "report_calls ms r vs = concat (map (\<lambda>i. case vs ! i of None \<Rightarrow> [] | Some v \<Rightarrow> if onScanCallback (ms ! i) then [(i, v_elems v, r)] else []) [0..<DEVD_MAX_MODULE_ID])"

definition ReportCbk :: "'r env \<Rightarrow> NLSTK_DevdAdvReportInfo \<Rightarrow> scan \<Rightarrow> scan option" where
  "ReportCbk e rp s = do {
     (r, cs) \<leftarrow> DevdAdvDataReport (sub e 0) rp (g_advDataCacheList s);
     let s1 = s\<lparr>g_advDataCacheList := cs\<rparr>;
     (case r of
        None \<Rightarrow> Some s1
      | Some r \<Rightarrow>
          if \<not> g_scanStm s1 then Some s1
          else do {
            vs \<leftarrow> report_loop (sub e 1) 0 r (v_elems (scanners s1)) (replicate DEVD_MAX_MODULE_ID None);
            (case vs of
               None \<Rightarrow> Some s1
             | Some vs \<Rightarrow> Some (s1\<lparr>scan_reports := scan_reports s1 @ report_calls (scanModule s1) r vs\<rparr>))
          })
   }"

text \<open>
  The event of the controller: 22 bytes of header, then the data. The length must agree with the size of the event; of the
  header only what the parser of advertisements reads is kept.
\<close>

definition DevdSleScanReportCbkCheck :: "(bytes option \<times> nat) option \<Rightarrow> bool" where
  "DevdSleScanReportCbkCheck c = (case c of None \<Rightarrow> False | Some (p, n) \<Rightarrow> p \<noteq> None \<and> \<not> n < 22)"

definition adv_report :: "bytes \<Rightarrow> nat \<Rightarrow> NLSTK_DevdAdvReportInfo option" where
  "adv_report p n = do {
     ev \<leftarrow> rd8 p 0; ty \<leftarrow> rd8 p 1; a \<leftarrow> rd_block p 2 SLE_ADDR_LEN; ft \<leftarrow> rd8 p 15; rs \<leftarrow> rd8 p 20; len \<leftarrow> rd8 p 21; d \<leftarrow> rd_block p 22 n;
     Some \<lparr>ri_addr = \<lparr>sa_type = ty, sa_addr = a\<rparr>, ri_rssi = rs, ri_eventType = ev AND 0x1F, ri_primFrameType = ft, ri_dataLength = len, ri_data = d\<rparr>
   }"

definition DevdSleScanReportCbk :: "'r env \<Rightarrow> (bytes option \<times> nat) option \<Rightarrow> scan \<Rightarrow> scan option" where
  "DevdSleScanReportCbk e cmdRes s =
     (if \<not> DevdSleScanReportCbkCheck cmdRes then Some s
      else (case cmdRes of
        Some (Some p, n) \<Rightarrow> do {
          len \<leftarrow> rd8 p 21;
          if \<not> unat len = n - 22 then Some s
          else (case SDF_MemZalloc (sub e 0) of
            None \<Rightarrow> Some s
          | Some _ \<Rightarrow> do { rp \<leftarrow> adv_report p (unat len); if scanCbk s then ReportCbk (sub e 1) rp s else Some s })
        }
      | _ \<Rightarrow> Some s))"

section \<open>Tasks and interface\<close>

definition DevdDeregScanModule :: "scan scan_ext \<Rightarrow> 'r env \<Rightarrow> nat \<Rightarrow> scan \<Rightarrow> scan option" where
  "DevdDeregScanModule x e m s =
     (let s1 = DevdRemoveScanModule m s in if \<not> g_scanStm s1 then Some s1 else StateMachineProcessMessage x e DEVD_POTIENTIAL_UPDATE s1)"

definition DevdRemoveScannerId :: "scan scan_ext \<Rightarrow> 'r env \<Rightarrow> nat \<Rightarrow> scan \<Rightarrow> scan option" where
  "DevdRemoveScannerId x e i s =
     (let s1 = DevdDestroyScanner x i s in if \<not> g_scanStm s1 then Some s1 else StateMachineProcessMessage x e DEVD_POTIENTIAL_UPDATE s1)"

definition DevdStartScan :: "scan scan_ext \<Rightarrow> 'r env \<Rightarrow> nat \<Rightarrow> NLSTK_DevdScanSetting \<Rightarrow> NLSTK_DevdScanFilter SDF_Vector option \<Rightarrow> scan \<Rightarrow> scan option" where
  "DevdStartScan x e i st fs s = do {
     (ret, s1) \<leftarrow> DevdAddScanParam x (sub e 0) i st fs s;
     if ret \<noteq> NLSTK_ERRCODE_SUCCESS then Some s1
     else if \<not> g_scanStm s1 then Some s1
     else StateMachineProcessMessage x (sub e 1) DEVD_POTIENTIAL_UPDATE s1
   }"

definition DevdStopScan :: "scan scan_ext \<Rightarrow> 'r env \<Rightarrow> nat \<Rightarrow> scan \<Rightarrow> scan option" where
  "DevdStopScan x e i s = do {
     (ret, s1) \<leftarrow> DevdRemoveScanParam x (sub e 0) i s;
     if ret \<noteq> NLSTK_ERRCODE_SUCCESS then Some s1
     else if \<not> g_scanStm s1 then Some s1
     else StateMachineProcessMessage x (sub e 1) DEVD_POTIENTIAL_UPDATE s1
   }"

definition DevdStopAllScan :: "scan scan_ext \<Rightarrow> 'r env \<Rightarrow> scan \<Rightarrow> scan option" where
  "DevdStopAllScan x e s = do {
     s1 \<leftarrow> DevdRemoveAllScanParam x (sub e 0) s;
     if \<not> g_scanStm s1 then Some s1
     else StateMachineProcessMessage x (sub e 1) DEVD_POTIENTIAL_UPDATE
       (if stm_current s1 = Some DEVD_STATE_STOPPED then notify_modules NLSTK_ERRCODE_SUCCESS False s1 else s1)
   }"

definition NLSTK_DevdStartScan :: "'r env \<Rightarrow> nat \<Rightarrow> NLSTK_DevdScanSetting \<Rightarrow> NLSTK_DevdScanFilter list option \<Rightarrow> nat \<Rightarrow> scan \<Rightarrow> (NLSTK_Errcode \<times> scan) option" where
  "NLSTK_DevdStartScan e i st fs n s =
     (if i = DEVD_INVALID_SCANNER_ID then Some (NLSTK_ERRCODE_PARAM_ERR, s)
      else do {
        ok \<leftarrow> CheckFiltersLegal fs n;
        if \<not> ok then Some (NLSTK_ERRCODE_PARAM_ERR, s)
        else (case SDF_MemZalloc (sub e 0) of
          None \<Rightarrow> Some (NLSTK_ERRCODE_MALLOC_FAIL, s)
        | Some _ \<Rightarrow> do {
            v \<leftarrow> DevdConvertFiltersToVector (sub e 1) (case fs of None \<Rightarrow> [] | Some l \<Rightarrow> l) n;
            (case SchedulePostTask (sub e 2) (TaskStartScan i st v) s of
              (ok, s1) \<Rightarrow> Some (if ok then NLSTK_ERRCODE_SUCCESS else NLSTK_ERRCODE_TASK_FAIL, s1))
          })
      })"

definition NLSTK_DevdStopScan :: "'r env \<Rightarrow> nat \<Rightarrow> scan \<Rightarrow> NLSTK_Errcode \<times> scan" where
  "NLSTK_DevdStopScan e i s =
     (if i = DEVD_INVALID_SCANNER_ID then (NLSTK_ERRCODE_PARAM_ERR, s)
      else (case SDF_MemZalloc (sub e 0) of
        None \<Rightarrow> (NLSTK_ERRCODE_MALLOC_FAIL, s)
      | Some _ \<Rightarrow> (case SchedulePostTask (sub e 1) (TaskStopScan i) s of (ok, s1) \<Rightarrow> (if ok then NLSTK_ERRCODE_SUCCESS else NLSTK_ERRCODE_TASK_FAIL, s1))))"

definition NLSTK_DevdStopAllScan :: "'r env \<Rightarrow> scan \<Rightarrow> NLSTK_Errcode \<times> scan" where
  "NLSTK_DevdStopAllScan e s =
     (case SchedulePostTask e TaskStopAllScan s of (ok, s1) \<Rightarrow> (if ok then NLSTK_ERRCODE_SUCCESS else NLSTK_ERRCODE_TASK_FAIL, s1))"

text \<open>One task of the worker thread.\<close>

definition run_task :: "scan scan_ext \<Rightarrow> 'r env \<Rightarrow> scan_task \<Rightarrow> scan \<Rightarrow> scan option" where
  "run_task x e t s =
     (case t of
        TaskSetScanParam p \<Rightarrow> DevdSleSetScanParam e p s
      | TaskEnableScan en \<Rightarrow> Some (DevdSleEnableScan e en s)
      | TaskRegScanEventCbk b \<Rightarrow> Some (DevdRegScanEventCbk b s)
      | TaskStartScan i st fs \<Rightarrow> DevdStartScan x e i st fs s
      | TaskStopScan i \<Rightarrow> DevdStopScan x e i s
      | TaskStopAllScan \<Rightarrow> DevdStopAllScan x e s)"

section \<open>Start\<close>

definition DevdScanManagerCtor :: "'r env \<Rightarrow> scan \<Rightarrow> scan option" where
  "DevdScanManagerCtor e s =
     (case SDF_MemZalloc (sub e 0) of
        None \<Rightarrow> None
      | Some _ \<Rightarrow> (case SDF_CreateVector (sub e 1) of
          None \<Rightarrow> None
        | Some v \<Rightarrow>
            let z = ResetScanSetting zero_setting in
            Some (s\<lparr>scanners := v, scanModule := replicate DEVD_MAX_MODULE_ID \<lparr>sm_used = False, onStartOrStopEvent = False, onScanCallback = False\<rparr>,
              internalTimer := NLSTK_DEVD_TIMER_NO_USED_HANDLE, durationTimer := NLSTK_DEVD_TIMER_NO_USED_HANDLE, currentScanSetting := z, inflightScanSetting := z,
              currentFrame4ScanSetting := z, inflightFrame4ScanSetting := z\<rparr>)))"

definition StateCtor :: "'r env \<Rightarrow> bool" where
  "StateCtor e \<longleftrightarrow> SDF_MemZalloc (sub e 0) \<noteq> None \<and> SDF_MemZalloc (sub e 1) \<noteq> None"

text \<open>The two optional states are made both or not at all.\<close>

definition DevdStateMachineCtor :: "scan scan_ext \<Rightarrow> 'r env \<Rightarrow> scan \<Rightarrow> scan option" where
  "DevdStateMachineCtor x e s =
     (case DevdScanManagerCtor (sub e 0) s of
        None \<Rightarrow> None
      | Some s1 \<Rightarrow> (case SDF_MemZalloc (sub e 1) of
          None \<Rightarrow> None
        | Some _ \<Rightarrow>
            let s2 = (case collabScanStmInit x of None \<Rightarrow> s1 | Some g \<Rightarrow> g s1) in
            if StateCtor (sub e 2) \<and> StateCtor (sub e 3) \<and> StateCtor (sub e 4) \<and> StateCtor (sub e 5) \<and>
              (createStartCollabState x = Some True \<longleftrightarrow> createStopCollabState x = Some True)
            then Some (to_stopped x (s2\<lparr>stm_current := None\<rparr>)) else None))"

text \<open>The machine, its timers and the scanners are released; what was posted still runs.\<close>

definition DevdStateMachineDtor :: "scan scan_ext \<Rightarrow> scan \<Rightarrow> scan" where
  "DevdStateMachineDtor x s =
     (let s1 = (case collabScanStmDeInit x of None \<Rightarrow> s | Some g \<Rightarrow> g s) in
      if \<not> g_scanStm s1 then s1
      else s1\<lparr>stm_current := None, internalTimer := NLSTK_DEVD_TIMER_NO_USED_HANDLE, durationTimer := NLSTK_DEVD_TIMER_NO_USED_HANDLE, scanners := (scanners s1)\<lparr>v_elems := []\<rparr>\<rparr>)"

text \<open>
  A machine left from an earlier start is destroyed first. The registrations with the collaboration library
  (\<open>COLLAB_StmDevdScanInit\<close> and \<open>COLLAB_StmDevdScanInitAfterReg\<close>, whose results are only logged) hand it
  functions of this module and receive those of the extension, which is the parameter \<open>x\<close>.
\<close>

definition DevdScanManagerInit :: "scan scan_ext \<Rightarrow> 'r env \<Rightarrow> scan \<Rightarrow> NLSTK_Errcode \<times> scan" where
  "DevdScanManagerInit x e s =
     (let s0 = (if g_scanStm s then DevdStateMachineDtor x s else s) in
      case DevdStateMachineCtor x (sub e 0) s0 of
        None \<Rightarrow> (NLSTK_ERRCODE_POINTER_NULL, s0\<lparr>g_scanStm := False\<rparr>)
      | Some s1 \<Rightarrow> (case NLSTK_DevdRegScanEventCbk (sub e 1) True (s1\<lparr>g_scanStm := True\<rparr>) of
          (ret, s2) \<Rightarrow> (ret, if ret \<noteq> NLSTK_ERRCODE_SUCCESS then (DevdStateMachineDtor x s2)\<lparr>g_scanStm := False\<rparr> else s2)))"

definition DevdScanInit :: "scan scan_ext \<Rightarrow> 'r env \<Rightarrow> scan \<Rightarrow> NLSTK_Errcode \<times> scan" where
  "DevdScanInit x e s = DevdScanManagerInit x e (s\<lparr>g_advDataCacheList := DevdDataCacheInit\<rparr>)"

section \<open>Stop\<close>

definition DevdScanManagerDeInit :: "scan scan_ext \<Rightarrow> 'r env \<Rightarrow> scan \<Rightarrow> scan" where
  "DevdScanManagerDeInit x e s =
     (let s1 = snd (NLSTK_DevdRegScanEventCbk (sub e 0) False s); s2 = snd (NLSTK_DevdSleEnableScan (sub e 1) False s1) in
      (DevdStateMachineDtor x s2)\<lparr>g_scanStm := False\<rparr>)"

definition DevdScanDeInit :: "scan scan_ext \<Rightarrow> 'r env \<Rightarrow> scan \<Rightarrow> scan" where
  "DevdScanDeInit x e s = DevdScanManagerDeInit x e (s\<lparr>g_advDataCacheList := DevdDataCacheDeInit (g_advDataCacheList s)\<rparr>)"

end
