(* ===== verification/Devd_Filter_Props.thy ===== *)
theory Devd_Filter_Props
  imports Complex_Main Devd_Filter
begin

text \<open>
  What the filters accept, as a predicate on the advertisement, and that the matching code decides it; two places where the
  code does not do what the filters say; the choice of the scan parameters; copies of filters.
\<close>

section \<open>Specification\<close>

definition vd_bytes :: "NLSTK_VariableData \<Rightarrow> bytes" where
  "vd_bytes v = (case vd_data v of None \<Rightarrow> [] | Some d \<Rightarrow> d)"

text \<open>A pointer with its length: null exactly for length 0, and as many bytes as the length says.\<close>

definition vd_whole :: "NLSTK_VariableData \<Rightarrow> bool" where
  "vd_whole v \<longleftrightarrow> vd_ok v \<and> vd_legal v"

definition filter_wf :: "NLSTK_DevdScanFilter \<Rightarrow> bool" where
  "filter_wf f \<longleftrightarrow> vd_whole (fl_name f) \<and> vd_whole (fl_serviceData f) \<and> vd_whole (fl_serviceDataMask f) \<and>
     vd_whole (fl_manufacturerData f) \<and> vd_whole (fl_manufacturerDataMask f) \<and> length (serviceUuid f) = 16 \<and> length (serviceUuidMask f) = 16"

text \<open>The data begins with the pattern, in the bits of the mask; a mask of another length than the pattern does not count.\<close>

definition covers :: "bytes \<Rightarrow> bytes \<Rightarrow> bytes \<Rightarrow> bool" where
  "covers d p m \<longleftrightarrow> length p \<le> length d \<and> (\<forall>i<length p. d ! i AND (if length m = length p then m ! i else 0xFF) = p ! i AND (if length m = length p then m ! i else 0xFF))"

definition sent_service :: "NLSTK_DevdAdvServiceData \<Rightarrow> bytes" where
  "sent_service t = (if take 14 (sd_uuid t) = take 14 g_baseUuid then [sd_uuid t ! 15, sd_uuid t ! 14] else sd_uuid t) @ sd_data t"

definition filter_accepts :: "NLSTK_DevdScanFilter \<Rightarrow> NLSTK_DevdAdvResult \<Rightarrow> bool" where
  "filter_accepts f r \<longleftrightarrow>
     (hasAddr f \<longrightarrow> ar_addr r = fl_addr f) \<and>
     (vd_bytes (fl_name f) \<noteq> [] \<longrightarrow> vd_bytes (localName r) = vd_bytes (fl_name f)) \<and>
     (hasServiceUuid f \<longrightarrow> (\<exists>u\<in>set (v_elems (serviceUuids r)). if hasServiceUuidMask f then covers u (serviceUuid f) (serviceUuidMask f) else u = serviceUuid f)) \<and>
     (vd_bytes (fl_serviceData f) \<noteq> [] \<longrightarrow> (\<exists>t\<in>set (v_elems (serviceDataList r)). covers (sent_service t) (vd_bytes (fl_serviceData f)) (vd_bytes (fl_serviceDataMask f)))) \<and>
     (fl_manufacturerId f \<noteq> 0 \<longrightarrow> (\<exists>t\<in>set (v_elems (manufacturerDataList r)). md_manufacturerId t = fl_manufacturerId f \<and>
        covers (md_data t) (vd_bytes (fl_manufacturerData f)) (vd_bytes (fl_manufacturerDataMask f)))) \<and>
     (hasRssiThreshold f \<longrightarrow> sint (rssiThreshold f) \<le> sint (ar_rssi r)) \<and>
     (meshInfoReport f \<longrightarrow> vd_len (meshInfo r) \<noteq> 0)"

definition frame_fits :: "NLSTK_DevdScanFilter \<Rightarrow> NLSTK_DevdAdvResult \<Rightarrow> bool" where
  "frame_fits f r \<longleftrightarrow> ar_frameType r = (if advIndReport f then ADV_FRAME_TYPE_4 else ADV_FRAME_TYPE_1)"

section \<open>The loops\<close>

lemma vd_wholeD:
  assumes "vd_whole v"
  shows "length (vd_bytes v) = vd_len v" "i < vd_len v \<Longrightarrow> vd_rd v i = Some (vd_bytes v ! i)" "0 < vd_len v \<Longrightarrow> vd_block v (vd_len v) = Some (vd_bytes v)"
    "vd_bytes v = [] \<longleftrightarrow> vd_len v = 0"
  using assms by (auto simp: vd_whole_def vd_ok_def vd_legal_def vd_bytes_def vd_rd_def vd_block_def rd8_def rd_block_def split: option.splits)

lemma plain_loop_eq:
  "vd_whole v \<Longrightarrow> vd_whole w \<Longrightarrow> i + n \<le> vd_len v \<Longrightarrow> i + n \<le> vd_len w \<Longrightarrow>
     plain_loop v w i n = Some (\<forall>j<n. vd_bytes v ! (i + j) = vd_bytes w ! (i + j))"
proof (induction n arbitrary: i)
  case (Suc n)
  then show ?case using vd_wholeD(2) [of v i] vd_wholeD(2) [of w i] by (auto simp: All_less_Suc2)
qed simp

lemma mask_loop_eq:
  "vd_whole v \<Longrightarrow> vd_whole w \<Longrightarrow> vd_whole m \<Longrightarrow> i + n \<le> vd_len v \<Longrightarrow> i + n \<le> vd_len w \<Longrightarrow> i + n \<le> vd_len m \<Longrightarrow>
     mask_loop v w m i n = Some (\<forall>j<n. vd_bytes v ! (i + j) AND vd_bytes m ! (i + j) = vd_bytes w ! (i + j) AND vd_bytes m ! (i + j))"
proof (induction n arbitrary: i)
  case (Suc n)
  then show ?case using vd_wholeD(2) [of v i] vd_wholeD(2) [of w i] vd_wholeD(2) [of m i] by (auto simp: All_less_Suc2)
qed simp

lemma uuid_mask_loop_eq:
  "i + n \<le> length u \<Longrightarrow> i + n \<le> length w \<Longrightarrow> i + n \<le> length m \<Longrightarrow>
     uuid_mask_loop u w m i n = Some (\<forall>j<n. u ! (i + j) AND m ! (i + j) = w ! (i + j) AND m ! (i + j))"
  by (induction n arbitrary: i) (auto simp: All_less_Suc2 rd8_def)

lemma uuid_len_loop_eq:
  "i + n \<le> length u \<Longrightarrow> i + n \<le> 16 \<Longrightarrow> uuid_len_loop u i n = Some (if \<forall>j<n. u ! (i + j) = g_baseUuid ! (i + j) then 2 else 16)"
  by (induction n arbitrary: i) (auto simp: All_less_Suc2 rd8_def)

lemma MatchDataWithMask_eq:
  assumes "vd_whole v" "vd_whole w" "vd_whole m"
  shows "MatchDataWithMask v w m = Some (covers (vd_bytes v) (vd_bytes w) (vd_bytes m))"
proof -
  have "(255 :: u8) = - 1" by simp
  then have "x AND 255 = x" for x :: u8 by (simp only: and.right_neutral)
  then show ?thesis using assms vd_wholeD(1) [of v] vd_wholeD(1) [of w] vd_wholeD(1) [of m]
    by (auto simp: MatchDataWithMask_def covers_def plain_loop_eq mask_loop_eq)
qed

lemma GetUuidLen_eq: "length u = 16 \<Longrightarrow> GetUuidLen u = Some (if take 14 u = take 14 g_baseUuid then 2 else 16)"
  by (simp add: GetUuidLen_def uuid_len_loop_eq list_eq_iff_nth_eq)

lemma ParseServiceData_eq:
  assumes "sd_ok t"
  shows "\<exists>n. GetUuidLen (sd_uuid t) = Some n \<and> ParseServiceData t n = Some (sent_service t) \<and> to_u16 (sd_len t + n) = length (sent_service t)"
  using assms by (auto simp: sd_ok_def GetUuidLen_eq ParseServiceData_def sent_service_def rd8_def rd_block_def to_u16_def)

section \<open>The rules\<close>

lemma MatchName_eq:
  assumes "filter_wf f" "res_ok True r"
  shows "MatchName r f = Some (vd_bytes (fl_name f) \<noteq> [] \<longrightarrow> vd_bytes (localName r) = vd_bytes (fl_name f))"
proof -
  have n: "vd_whole (fl_name f)" using assms(1) by (simp add: filter_wf_def)
  have l: "length (vd_bytes (localName r)) = vd_len (localName r)" "0 < vd_len (localName r) \<Longrightarrow> vd_block (localName r) (vd_len (localName r)) = Some (vd_bytes (localName r))"
    using assms(2) by (auto simp: res_ok_def vd_ok_def vd_bytes_def vd_block_def rd_block_def split: option.splits)
  show ?thesis using vd_wholeD [OF n] l by (auto simp: MatchName_def)
qed

lemma uuid_loop_eq:
  "length (serviceUuid f) = 16 \<Longrightarrow> length (serviceUuidMask f) = 16 \<Longrightarrow> \<forall>u\<in>set us. length u = 16 \<Longrightarrow>
     uuid_loop f us = Some (\<exists>u\<in>set us. if hasServiceUuidMask f then covers u (serviceUuid f) (serviceUuidMask f) else u = serviceUuid f)"
  by (induction us) (auto simp: MatchServiceUuidWithMask_def uuid_mask_loop_eq covers_def)

lemma service_loop_eq:
  assumes "filter_wf f" "alloc_ok e"
  shows "\<forall>t\<in>set ts. sd_ok t \<Longrightarrow>
    service_loop e k f ts = Some (\<exists>t\<in>set ts. covers (sent_service t) (vd_bytes (fl_serviceData f)) (vd_bytes (fl_serviceDataMask f)))"
proof (induction ts arbitrary: k)
  case (Cons t ts)
  obtain n where n: "GetUuidLen (sd_uuid t) = Some n" "ParseServiceData t n = Some (sent_service t)" "to_u16 (sd_len t + n) = length (sent_service t)"
    using ParseServiceData_eq [of t] Cons.prems by auto
  have "vd_whole \<lparr>vd_len = length (sent_service t), vd_data = Some (sent_service t)\<rparr>"
    by (auto simp: vd_whole_def vd_ok_def vd_legal_def sent_service_def) (metis Cons.prems length_0_conv list.set_intros(1) not_less_zero sd_ok_def zero_neq_numeral)
  then show ?case using Cons n alloc_okD [of "sub e k"] assms by (auto simp: MatchDataWithMask_eq filter_wf_def vd_bytes_def)
qed simp

lemma maker_loop_eq:
  assumes "filter_wf f"
  shows "\<forall>t\<in>set ts. md_ok t \<Longrightarrow> distinct (map md_manufacturerId ts) \<Longrightarrow>
    maker_loop f ts = Some (\<exists>t\<in>set ts. md_manufacturerId t = fl_manufacturerId f \<and> covers (md_data t) (vd_bytes (fl_manufacturerData f)) (vd_bytes (fl_manufacturerDataMask f)))"
proof (induction ts)
  case (Cons t ts)
  have w: "vd_whole \<lparr>vd_len = md_len t, vd_data = Some (md_data t)\<rparr>" using Cons.prems by (simp add: vd_whole_def vd_ok_def vd_legal_def md_ok_def)
  have "md_manufacturerId x \<noteq> fl_manufacturerId f" if "md_manufacturerId t = fl_manufacturerId f" "x \<in> set ts" for x
    using that Cons.prems(2) by (metis distinct.simps(2) image_eqI list.set_map list.simps(9))
  moreover have "md_len t \<noteq> 0" using Cons.prems by (simp add: md_ok_def)
  ultimately show ?case using Cons MatchDataWithMask_eq [OF w] assms by (auto simp: filter_wf_def vd_bytes_def)
qed simp

lemma IsMatchFilter_eq:
  assumes "alloc_ok e" "filter_wf f" "res_ok True r"
  shows "IsMatchFilter e r f = Some (filter_accepts f r)"
proof -
  have u: "MatchServiceUuid r f = Some (hasServiceUuid f \<longrightarrow> (\<exists>u\<in>set (v_elems (serviceUuids r)). if hasServiceUuidMask f then covers u (serviceUuid f) (serviceUuidMask f) else u = serviceUuid f))"
    using assms uuid_loop_eq [of f "v_elems (serviceUuids r)"] by (auto simp: MatchServiceUuid_def filter_wf_def res_ok_def list_all_iff)
  have s: "MatchServiceData e r f = Some (vd_bytes (fl_serviceData f) \<noteq> [] \<longrightarrow> (\<exists>t\<in>set (v_elems (serviceDataList r)). covers (sent_service t) (vd_bytes (fl_serviceData f)) (vd_bytes (fl_serviceDataMask f))))"
    using assms service_loop_eq [OF assms(2,1), of "v_elems (serviceDataList r)" 0] vd_wholeD(4) [of "fl_serviceData f"]
    by (auto simp: MatchServiceData_def filter_wf_def res_ok_def list_all_iff)
  have m: "MatchManufacturerData r f = Some (fl_manufacturerId f \<noteq> 0 \<longrightarrow> (\<exists>t\<in>set (v_elems (manufacturerDataList r)). md_manufacturerId t = fl_manufacturerId f \<and>
      covers (md_data t) (vd_bytes (fl_manufacturerData f)) (vd_bytes (fl_manufacturerDataMask f))))"
    using assms maker_loop_eq [OF assms(2), of "v_elems (manufacturerDataList r)"] by (auto simp: MatchManufacturerData_def res_ok_def list_all_iff)
  show ?thesis unfolding IsMatchFilter_def matchRules_def rules_loop.simps MatchName_eq [OF assms(2,3)] u s m MatchAddr_def MatchRssi_def MatchMeshInfo_def filter_accepts_def
    by simp
qed

lemma filters_loop_eq:
  assumes "alloc_ok e" "res_ok True r"
  shows "list_all filter_wf fs \<Longrightarrow> filters_loop e k r fs = Some (\<exists>f\<in>set fs. (isNoFilter f \<or> frame_fits f r \<and> filter_accepts f r) \<and>
    (\<forall>g\<in>set (takeWhile (\<lambda>g. g \<noteq> f) fs). frame_fits g r))"
proof (induction fs arbitrary: k)
  case (Cons f fs)
  have m: "IsMatchFilter (sub e k) r f = Some (filter_accepts f r)" using IsMatchFilter_eq [of "sub e k" f r] assms Cons.prems by simp
  have fit: "frame_fits f r \<longleftrightarrow> \<not> (advIndReport f \<and> ar_frameType r \<noteq> 1) \<and> \<not> (\<not> advIndReport f \<and> ar_frameType r \<noteq> 0)"
    by (auto simp: frame_fits_def)
  show ?case
  proof (cases "isNoFilter f \<or> \<not> frame_fits f r")
    case True
    then show ?thesis using fit by (auto split: if_splits)
  next
    case False
    then have "filters_loop e k r (f # fs) = (if filter_accepts f r then Some True else filters_loop e (Suc k) r fs)" using fit m by auto
    then show ?thesis using False Cons by auto
  qed
qed simp

text \<open>
  The filters decide what they describe (C20). For an advertisement parsed without a failed allocation and filters of one
  frame type the match is decided, with no read outside the data, and it is true exactly if the frame type fits and one of
  the filters accepts the advertisement: address, name, an identifier and service data under their masks, the data of the
  manufacturer, signal strength and mesh information.
\<close>

theorem filters_decide:
  assumes "alloc_ok e" "report_result_ok True r" "list_all filter_wf (v_elems v)"
    and "\<forall>f\<in>set (v_elems v). \<not> isNoFilter f \<and> advIndReport f = b"
  shows "DevdIsMatchFilters e r (Some v) = Some (\<exists>f\<in>set (v_elems v). frame_fits f r \<and> filter_accepts f r)"
proof -
  have u: "frame_fits g r" if "frame_fits f r" "f \<in> set (v_elems v)" "g \<in> set (v_elems v)" for f g
    using that assms(4) by (simp add: frame_fits_def)
  have "res_ok True r" using assms(2) by (simp add: report_result_ok_def)
  then show ?thesis using filters_loop_eq [OF assms(1) _ assms(3), of r 0] assms(4) u
    by (auto simp: DevdIsMatchFilters_def dest!: set_takeWhileD)
qed

definition demo_result :: NLSTK_DevdAdvResult where
  "demo_result = \<lparr>ar_addr = demo_addr 1, ar_rssi = 0xC4, ar_txPower = 0, ar_frameType = 0, ar_discoveryLevel = 1, ar_isConnectable = True,
     ar_isPencil = False, localName = \<lparr>vd_len = 2, vd_data = Some [65, 66]\<rparr>, meshInfo = \<lparr>vd_len = 0, vd_data = None\<rparr>,
     serviceDataList = \<lparr>v_elems = [], v_capacity = 8\<rparr>, serviceUuids = \<lparr>v_elems = [], v_capacity = 8\<rparr>,
     manufacturerDataList = \<lparr>v_elems = [\<lparr>md_manufacturerId = 0x27D, md_len = 2, md_data = [5, 6]\<rparr>], v_capacity = 8\<rparr>, advData = \<lparr>vd_len = 1, vd_data = Some [0]\<rparr>\<rparr>"

definition demo_filter :: NLSTK_DevdScanFilter where
  "demo_filter = no_filter\<lparr>isNoFilter := False, fl_name := \<lparr>vd_len = 2, vd_data = Some [65, 66]\<rparr>, hasRssiThreshold := True, rssiThreshold := 0xBA,
     fl_manufacturerId := 0x27D, fl_manufacturerData := \<lparr>vd_len = 1, vd_data = Some [4]\<rparr>, fl_manufacturerDataMask := \<lparr>vd_len = 1, vd_data = Some [0xFE]\<rparr>\<rparr>"

lemma demo_filter_ok: "filter_wf demo_filter" "filter_accepts demo_filter demo_result" "report_result_ok True demo_result" "frame_fits demo_filter demo_result"
  "\<not> isNoFilter demo_filter" "\<not> advIndReport demo_filter"
  by (simp_all add: demo_filter_def demo_result_def no_filter_def filter_wf_def vd_whole_def vd_ok_def vd_legal_def filter_accepts_def vd_bytes_def covers_def
      report_result_ok_def res_ok_def md_ok_def frame_fits_def Let_def)

theorem filters_decide_witness: "DevdIsMatchFilters (granting_env True) demo_result (Some \<lparr>v_elems = [demo_filter], v_capacity = 8\<rparr>) = Some True"
  using filters_decide [of "granting_env True" demo_result "\<lparr>v_elems = [demo_filter], v_capacity = 8\<rparr>" False] demo_filter_ok by simp

section \<open>Two defects\<close>

text \<open>
  A filter for the other frame type hides the filters behind it. With two filters, of which the second accepts an
  advertisement and the first asks for the other frame type, the match fails; in the other order it succeeds.
\<close>

theorem wrong_frame_stops:
  assumes "alloc_ok e" "res_ok True r" "filter_wf f" "filter_wf g" "\<not> isNoFilter f" "\<not> frame_fits f r" "frame_fits g r" "filter_accepts g r"
  shows "DevdIsMatchFilters e r (Some \<lparr>v_elems = [f, g], v_capacity = n\<rparr>) = Some False \<and> DevdIsMatchFilters e r (Some \<lparr>v_elems = [g, f], v_capacity = n\<rparr>) = Some True"
  using filters_loop_eq [OF assms(1,2), of "[f, g]" 0] filters_loop_eq [OF assms(1,2), of "[g, f]" 0] assms
  by (auto simp: DevdIsMatchFilters_def simp del: filters_loop.simps)

theorem wrong_frame_stops_witness:
  "DevdIsMatchFilters (granting_env True) demo_result (Some \<lparr>v_elems = [demo_filter\<lparr>advIndReport := True\<rparr>, demo_filter], v_capacity = 8\<rparr>) = Some False"
proof -
  have "filter_wf (demo_filter\<lparr>advIndReport := True\<rparr>)" "\<not> frame_fits (demo_filter\<lparr>advIndReport := True\<rparr>) demo_result"
    using demo_filter_ok(1) by (simp_all add: filter_wf_def frame_fits_def demo_result_def)
  then show ?thesis
    using wrong_frame_stops [of "granting_env True" demo_result "demo_filter\<lparr>advIndReport := True\<rparr>" demo_filter 8] demo_filter_ok
    by (simp add: report_result_ok_def)
qed

text \<open>
  A name lost to a failed allocation is compared all the same (C37). When a second name of an advertisement finds no memory,
  its old length stays beside the null pointer, and every filter with a name of that length makes the match read through
  the null pointer.
\<close>

theorem stale_name_is_read:
  assumes "0 < n" "p + n \<le> length d" "SDF_MemZalloc e1 \<noteq> None" "0 < m" "SDF_MemZalloc e2 = None" "vd_len (fl_name f) = n"
  shows "\<exists>r1 r2. SetLocalName e1 n d p r = Some r1 \<and> SetLocalName e2 m d q r1 = Some r2 \<and> MatchName r2 f = None"
  using assms by (auto simp: SetLocalName_def rd_safe MatchName_def vd_block_def)

theorem stale_name_is_read_witness:
  "\<exists>r1 r2. SetLocalName (granting_env True) 2 [65, 66, 67] 0 demo_result = Some r1 \<and>
     SetLocalName ((granting_env True)\<lparr>env_alloc := (\<lambda>_. None)\<rparr>) 1 [65, 66, 67] 2 r1 = Some r2 \<and> MatchName r2 demo_filter = None"
  using stale_name_is_read [of 2 0 "[65, 66, 67]" "granting_env True" 1 "(granting_env True)\<lparr>env_alloc := (\<lambda>_. None)\<rparr>" demo_filter demo_result 2]
  by (simp add: demo_filter_def SDF_MemZalloc_def granting_env_def)

section \<open>The scan parameters\<close>

text \<open>What a setting may hold: the windows of the scan modes are at most 4096 slots, the interval is never 0.\<close>

definition setting_ok :: "NLSTK_DevdScanSettingInner \<Rightarrow> bool" where
  "setting_ok s \<longleftrightarrow> si_window s \<le> 4096 \<and> 0 < si_interval s \<and> si_interval s \<le> 65535"

definition duty :: "NLSTK_DevdScanSettingInner \<Rightarrow> real" where
  "duty s = of_nat (si_window s) / of_nat (si_interval s)"

text \<open>At least as good: a higher share of time, or the same share in shorter intervals.\<close>

definition at_least :: "NLSTK_DevdScanSettingInner \<Rightarrow> NLSTK_DevdScanSettingInner \<Rightarrow> bool" where
  "at_least t s \<longleftrightarrow> duty s < duty t \<or> duty s = duty t \<and> si_interval t \<le> si_interval s"

lemma better_setting_eq:
  assumes "setting_ok t" "setting_ok s"
  shows "better_setting t s = Some (\<not> at_least t s)"
proof -
  have b: "w * i < 2 ^ 31" if "w \<le> 4096" "i \<le> 65535" for w i :: nat
    using mult_le_mono [OF that] by simp
  have p: "real (si_interval t) > 0" "real (si_interval s) > 0" using assms by (simp_all add: setting_ok_def)
  have r: "x / a < y / b \<longleftrightarrow> x * b < a * y" "x / a = y / b \<longleftrightarrow> x * b = a * y" if "0 < a" "0 < b" for x y a b :: real
    using that by (simp_all add: field_simps)
  have "duty t < duty s \<longleftrightarrow> real (si_window t * si_interval s) < real (si_interval t * si_window s)"
    "duty t = duty s \<longleftrightarrow> real (si_window t * si_interval s) = real (si_interval t * si_window s)"
    using r [OF p] by (simp_all add: duty_def)
  then have q: "duty t < duty s \<longleftrightarrow> si_window t * si_interval s < si_interval t * si_window s"
    "duty t = duty s \<longleftrightarrow> si_window t * si_interval s = si_interval t * si_window s"
    by (simp_all only: of_nat_less_iff of_nat_eq_iff)
  have "better_setting t s = Some (si_window t * si_interval s < si_interval t * si_window s \<or>
      si_window t * si_interval s = si_interval t * si_window s \<and> si_interval s < si_interval t)"
    using assms b [of "si_window t" "si_interval s"] b [of "si_window s" "si_interval t"]
    by (simp add: better_setting_def mul_int_def setting_ok_def mult.commute [of "si_interval t"])
  also have "\<dots> = Some (\<not> at_least t s)" unfolding q [symmetric] at_least_def by (simp add: not_less not_le) linarith
  finally show ?thesis .
qed

lemma at_least_trans: "at_least a b \<Longrightarrow> at_least b c \<Longrightarrow> at_least a c"
  by (auto simp: at_least_def)

lemma at_least_total: "\<not> at_least a b \<Longrightarrow> at_least b a"
  by (auto simp: at_least_def)

lemma fetch_loop_best:
  "setting_ok t \<Longrightarrow> \<forall>s\<in>set ss. setting_ok (g s) \<Longrightarrow> \<exists>b. fetch_loop g t ss = Some b \<and> b \<in> insert t (g ` set ss) \<and> at_least b t \<and> (\<forall>s\<in>set ss. at_least b (g s))"
proof (induction ss arbitrary: t)
  case (Cons s ss)
  let ?t = "if \<not> at_least t (g s) then g s else t"
  have "at_least ?t t" "at_least ?t (g s)" "setting_ok ?t" using at_least_total [of t "g s"] Cons.prems by (auto simp: at_least_def)
  moreover then obtain b where "fetch_loop g ?t ss = Some b" "b \<in> insert ?t (g ` set ss)" "at_least b ?t" "\<forall>s\<in>set ss. at_least b (g s)"
    using Cons.IH [of ?t] Cons.prems by auto
  ultimately show ?case using better_setting_eq [of t "g s"] Cons.prems at_least_trans [of b ?t] by (auto split: if_splits)
qed (simp add: at_least_def)

text \<open>
  The best parameters are chosen (C22). For scanners with settings of the scan modes both searches return, without an
  overflow of the products, a setting of one of the scanners that has the highest share of time in which it listens, and
  among those the shortest interval.
\<close>

theorem best_setting:
  assumes "v_elems v \<noteq> []" "\<forall>s\<in>set (v_elems v). setting_ok (scanSetting s) \<and> setting_ok (frame4ScanSetting s)"
  shows "\<exists>a b. FetchFrame1TargetScanSettings v = Some (Some a) \<and> a \<in> scanSetting ` set (v_elems v) \<and> (\<forall>s\<in>set (v_elems v). at_least a (scanSetting s)) \<and>
    FetchFrame4TargetScanSettings v = Some (Some b) \<and> b \<in> frame4ScanSetting ` set (v_elems v) \<and> (\<forall>s\<in>set (v_elems v). at_least b (frame4ScanSetting s))"
proof -
  obtain s ss where v: "v_elems v = s # ss" using assms(1) by (cases "v_elems v") auto
  obtain a b where "fetch_loop scanSetting (scanSetting s) ss = Some a" "a \<in> insert (scanSetting s) (scanSetting ` set ss)" "at_least a (scanSetting s)"
    "\<forall>x\<in>set ss. at_least a (scanSetting x)" "fetch_loop frame4ScanSetting (frame4ScanSetting s) ss = Some b"
    "b \<in> insert (frame4ScanSetting s) (frame4ScanSetting ` set ss)" "at_least b (frame4ScanSetting s)" "\<forall>x\<in>set ss. at_least b (frame4ScanSetting x)"
    using fetch_loop_best [of "scanSetting s" ss scanSetting] fetch_loop_best [of "frame4ScanSetting s" ss frame4ScanSetting] assms(2) v by auto
  then show ?thesis by (simp add: v FetchFrame1TargetScanSettings_def FetchFrame4TargetScanSettings_def)
qed

definition demo_scanner :: "nat \<Rightarrow> nat \<Rightarrow> nat \<Rightarrow> NLSTK_DevdScanner" where
  "demo_scanner i w n =
     (let s = \<lparr>si_window = w, si_interval = n, si_setting = \<lparr>reportDelayMillis = 0, ss_duration = 0, scanMode = 0, ss_legacy = False, ss_phy = 0, ss_frameType = 1\<rparr>,
        expireTime = \<lparr>tv_sec = 0, tv_nsec = 0\<rparr>, hasDuration = False\<rparr> in
      \<lparr>scannerId = i, sc_moduleId = 0, scanSetting = s, frame4ScanSetting = s\<lparr>si_window := 0, si_interval := 65535\<rparr>, sc_filters = None\<rparr>)"

theorem best_setting_witness:
  "\<exists>a. FetchFrame1TargetScanSettings \<lparr>v_elems = [demo_scanner 1 900 9000, demo_scanner 2 2048 4096, demo_scanner 3 240 480], v_capacity = 8\<rparr> = Some (Some a) \<and> si_interval a = 480"
proof -
  let ?v = "\<lparr>v_elems = [demo_scanner 1 900 9000, demo_scanner 2 2048 4096, demo_scanner 3 240 480], v_capacity = 8\<rparr>"
  obtain a where a: "FetchFrame1TargetScanSettings ?v = Some (Some a)" "a \<in> scanSetting ` set (v_elems ?v)" "\<forall>s\<in>set (v_elems ?v). at_least a (scanSetting s)"
    using best_setting [of ?v] by (auto simp: demo_scanner_def Let_def setting_ok_def)
  then show ?thesis by (auto simp: demo_scanner_def Let_def at_least_def duty_def)
qed

section \<open>Copies\<close>

lemma copy_field_whole: "vd_whole v \<Longrightarrow> copy_field e v \<in> {Some None, Some (Some v)} \<and> (alloc_ok e \<longrightarrow> copy_field e v = Some (Some v))"
  using vd_wholeD [of v] alloc_okD [of e]
  by (auto simp: copy_field_def CopyMemoryField_def vd_whole_def vd_legal_def vd_bytes_def split: option.splits)

lemma copy_filter:
  assumes "filter_wf f"
  shows "MallocAndCopyFilter e f \<in> {Some None, Some (Some f)} \<and> (alloc_ok e \<longrightarrow> MallocAndCopyFilter e f = Some (Some f))"
proof -
  have w: "vd_whole (fl_name f)" "vd_whole (fl_serviceData f)" "vd_whole (fl_serviceDataMask f)" "vd_whole (fl_manufacturerData f)" "vd_whole (fl_manufacturerDataMask f)"
    using assms by (simp_all add: filter_wf_def)
  have c: "copy_field (sub e 1) (fl_name f) = Some None \<or> copy_field (sub e 1) (fl_name f) = Some (Some (fl_name f))"
    "copy_field (sub e 2) (fl_serviceData f) = Some None \<or> copy_field (sub e 2) (fl_serviceData f) = Some (Some (fl_serviceData f))"
    "copy_field (sub e 3) (fl_serviceDataMask f) = Some None \<or> copy_field (sub e 3) (fl_serviceDataMask f) = Some (Some (fl_serviceDataMask f))"
    "copy_field (sub e 4) (fl_manufacturerData f) = Some None \<or> copy_field (sub e 4) (fl_manufacturerData f) = Some (Some (fl_manufacturerData f))"
    "copy_field (sub e 5) (fl_manufacturerDataMask f) = Some None \<or> copy_field (sub e 5) (fl_manufacturerDataMask f) = Some (Some (fl_manufacturerDataMask f))"
    using w [THEN copy_field_whole] by blast+
  have a: "MallocAndCopyFilter e f = Some (Some f)" if "alloc_ok e"
    using that alloc_okD [of "sub e 0"] by (auto simp: MallocAndCopyFilter_def copy_field_whole [THEN conjunct2, rule_format] w)
  have "MallocAndCopyFilter e f = Some None \<or> MallocAndCopyFilter e f = Some (Some f)"
    using c by (cases "SDF_MemZalloc (sub e 0)") (elim disjE; simp add: MallocAndCopyFilter_def)+
  then show ?thesis using a by blast
qed

lemma copy_loop_copies:
  "list_all filter_wf fs \<Longrightarrow> \<exists>c. copy_loop e k fs v = Some c \<and> (\<forall>w. c = Some w \<longrightarrow> v_elems w = v_elems v @ fs) \<and> (alloc_ok e \<longrightarrow> c \<noteq> None)"
proof (induction fs arbitrary: k v)
  case (Cons f fs)
  obtain ok v1 where v1: "SDF_VectorEmplaceBack (sub (sub e k) 1) v f = (ok, v1)" by fastforce
  have e: "ok \<Longrightarrow> v_elems v1 = v_elems v @ [f]" "alloc_ok e \<Longrightarrow> ok"
    using v1 alloc_okD [of "sub (sub e k) 1"] by (auto simp: SDF_VectorEmplaceBack_def VectorGrow_def split: option.splits if_splits)
  have c: "MallocAndCopyFilter (sub (sub e k) 0) f \<in> {Some None, Some (Some f)}" "alloc_ok e \<Longrightarrow> MallocAndCopyFilter (sub (sub e k) 0) f = Some (Some f)"
    using copy_filter [of f "sub (sub e k) 0"] Cons.prems by auto
  show ?case
  proof (cases "MallocAndCopyFilter (sub (sub e k) 0) f = Some (Some f) \<and> ok")
    case True
    then have "copy_loop e k (f # fs) v = copy_loop e (Suc k) fs v1" using v1 by simp
    then show ?thesis using Cons.IH [of "Suc k" v1] Cons.prems e(1) True by auto
  next
    case False
    then have "copy_loop e k (f # fs) v = Some None" using v1 c(1) by auto
    then show ?thesis using False c(2) e(2) by auto
  qed
qed simp

lemma clone_copies:
  assumes "list_all filter_wf (v_elems v)"
  shows "\<exists>c. DevdCloneFiltersVector e (Some v) = Some c \<and> (\<forall>w. c = Some w \<longrightarrow> v_elems w = v_elems v) \<and> (alloc_ok e \<longrightarrow> c \<noteq> None)"
proof -
  let ?c = "SDF_CreateVector (sub e 0) :: NLSTK_DevdScanFilter SDF_Vector option"
  have "?c = None \<or> ?c = Some \<lparr>v_elems = [], v_capacity = 8\<rparr>" by (simp add: SDF_CreateVector_def split: option.splits)
  moreover have "alloc_ok e \<Longrightarrow> ?c \<noteq> None" by (simp add: create_vector_ok)
  ultimately show ?thesis using copy_loop_copies [OF assms, of "sub e 1" 0 "\<lparr>v_elems = [], v_capacity = 8\<rparr>"]
    by (elim disjE) (auto simp: DevdCloneFiltersVector_def)
qed

end
