(* ===== verification/Devd_Scan_Inv.thy ===== *)
theory Devd_Scan_Inv
  imports Devd_Scan Devd_Filter_Props
begin

text \<open>
  The invariant of the scan control, for a build in which no module outside the repository has registered functions, and
  that every event keeps it: requests of the modules, tasks, answers of the controller with any status, timers and reports.
\<close>

section \<open>Invariant\<close>

text \<open>A setting that does not listen, and the settings the scan modes give.\<close>

definition idle :: "NLSTK_DevdScanSettingInner \<Rightarrow> bool" where
  "idle i \<longleftrightarrow> si_window i = 0 \<and> si_interval i = 65535"

definition mode_ok :: "NLSTK_DevdScanSettingInner \<Rightarrow> bool" where
  "mode_ok i \<longleftrightarrow> idle i \<or> 4 \<le> si_window i \<and> si_window i \<le> 4096 \<and> si_window i \<le> si_interval i \<and> si_interval i \<le> 45000"

definition time_ok :: "NLSTK_DevdScanSettingInner \<Rightarrow> bool" where
  "time_ok i \<longleftrightarrow> 0 \<le> tv_nsec (expireTime i) \<and> tv_nsec (expireTime i) < 1000000000"

definition scanner_ok :: "NLSTK_DevdScanner \<Rightarrow> bool" where
  "scanner_ok sc \<longleftrightarrow> mode_ok (scanSetting sc) \<and> mode_ok (frame4ScanSetting sc) \<and> time_ok (scanSetting sc) \<and> time_ok (frame4ScanSetting sc) \<and>
     1 \<le> scannerId sc \<and> scannerId sc \<le> 1024 \<and> sc_moduleId sc < 5 \<and> (\<forall>v. sc_filters sc = Some v \<longrightarrow> list_all filter_wf (v_elems v))"

definition scanners_ok :: "NLSTK_DevdScanner SDF_Vector \<Rightarrow> bool" where
  "scanners_ok v \<longleftrightarrow> distinct (map scannerId (v_elems v)) \<and> list_all scanner_ok (v_elems v)"

fun task_ok :: "scan_task \<Rightarrow> bool" where
  "task_ok (TaskSetScanParam p) = (DLI_GetPhyCountByFrameType (sp_frameType p) \<le> length (sp_params p))"
| "task_ok (TaskStartScan i st fs) = (\<forall>v. fs = Some v \<longrightarrow> list_all filter_wf (v_elems v))"
| "task_ok _ = True"

definition listens :: "NLSTK_DevdScanSettingInner \<Rightarrow> NLSTK_DevdScanSettingInner \<Rightarrow> bool" where
  "listens i j \<longleftrightarrow> mode_ok i \<and> mode_ok j \<and> (si_window i \<noteq> 0 \<or> si_window j \<noteq> 0)"

text \<open>What the state of the machine says about the settings and the timer.\<close>

definition stm_ok :: "scan \<Rightarrow> bool" where
  "stm_ok s \<longleftrightarrow>
     (case stm_current s of
        Some DEVD_STATE_STOPPED \<Rightarrow> idle (currentScanSetting s) \<and> idle (currentFrame4ScanSetting s) \<and> idle (inflightScanSetting s) \<and> idle (inflightFrame4ScanSetting s) \<and> internalTimer s = - 1
      | Some DEVD_STATE_STARTING \<Rightarrow> listens (inflightScanSetting s) (inflightFrame4ScanSetting s)
      | Some DEVD_STATE_STARTED \<Rightarrow> listens (currentScanSetting s) (currentFrame4ScanSetting s) \<and> internalTimer s = - 1
      | Some DEVD_STATE_STOPPING \<Rightarrow> listens (currentScanSetting s) (currentFrame4ScanSetting s)
      | _ \<Rightarrow> False)"

definition scan_inv :: "scan \<Rightarrow> bool" where
  "scan_inv s \<longleftrightarrow> g_scanStm s \<and> length (scanModule s) = 5 \<and> scanners_ok (scanners s) \<and> list_all task_ok (scan_tasks s) \<and> advs_ok (g_advDataCacheList s) \<and> stm_ok s"

text \<open>Steps of the machine leave the scanners, the modules, the cache and the commands alone and post legal tasks.\<close>

definition machine_step :: "scan \<Rightarrow> scan \<Rightarrow> bool" where
  "machine_step s s' \<longleftrightarrow> g_scanStm s' = g_scanStm s \<and> scanModule s' = scanModule s \<and> scanners s' = scanners s \<and> g_advDataCacheList s' = g_advDataCacheList s \<and>
     scan_reports s' = scan_reports s \<and> scan_cmds s' = scan_cmds s \<and> sm_status s' = sm_status s \<and> (list_all task_ok (scan_tasks s) \<longrightarrow> list_all task_ok (scan_tasks s'))"

lemma machine_step_refl: "machine_step s s"
  by (simp add: machine_step_def)

lemma machine_step_trans: "machine_step a b \<Longrightarrow> machine_step b c \<Longrightarrow> machine_step a c"
  by (auto simp: machine_step_def)

lemma machine_step_inv: "machine_step s s' \<Longrightarrow> scan_inv s \<Longrightarrow> stm_ok s' \<Longrightarrow> scan_inv s'"
  by (auto simp: machine_step_def scan_inv_def)

section \<open>Steps of the machine\<close>

lemma reset_idle [simp]: "idle (ResetScanSetting i)" "mode_ok (ResetScanSetting i)" "time_ok (ResetScanSetting i)" "hasDuration (ResetScanSetting i) = False"
  by (simp_all add: ResetScanSetting_def idle_def mode_ok_def zero_setting_def time_ok_def)

lemma no_ext_simps [simp]:
  "collabScanStmInit no_ext = None" "collabScanStmDeInit no_ext = None" "createStartCollabState no_ext = None" "createStopCollabState no_ext = None"
  "notifyScanCollabResult no_ext = None" "isNeedStartScanCollabReqAndTransState no_ext = None" "isNeedTryStopScanCollab no_ext = None"
  "isNeedStopScanCollabReqAndTransState no_ext = None" "collabGetScannerMaxNum no_ext = None" "devdAddChipFilters no_ext = None"
  "devdDeleteChipFilters no_ext = None" "devdIsSupportScanFilter no_ext = None" "user_exit no_ext n s = s" "user_dispatch no_ext n w s = s"
  "call_collab None s = (False, s)"
  by (simp_all add: no_ext_def call_collab_def)

lemma stm_ok_cong:
  assumes "stm_current s' = stm_current s" "currentScanSetting s' = currentScanSetting s" "currentFrame4ScanSetting s' = currentFrame4ScanSetting s"
    "inflightScanSetting s' = inflightScanSetting s" "inflightFrame4ScanSetting s' = inflightFrame4ScanSetting s" "internalTimer s' = internalTimer s"
  shows "stm_ok s' = stm_ok s"
  by (simp only: stm_ok_def assms)

lemma stm_ok_upd [simp]:
  "stm_ok (s\<lparr>scan_events := v\<rparr>) = stm_ok s" "stm_ok (s\<lparr>scan_tasks := ts\<rparr>) = stm_ok s" "stm_ok (s\<lparr>scan_cmds := cs\<rparr>) = stm_ok s" "stm_ok (s\<lparr>sm_status := st\<rparr>) = stm_ok s"
  "stm_ok (s\<lparr>scanParams := p\<rparr>) = stm_ok s" "stm_ok (s\<lparr>tmpScanParams := p\<rparr>) = stm_ok s" "stm_ok (s\<lparr>scanners := w\<rparr>) = stm_ok s" "stm_ok (s\<lparr>scanModule := m\<rparr>) = stm_ok s"
  "stm_ok (s\<lparr>durationTimer := d\<rparr>) = stm_ok s" "stm_ok (s\<lparr>scanCbk := b\<rparr>) = stm_ok s" "stm_ok (s\<lparr>g_advDataCacheList := a\<rparr>) = stm_ok s" "stm_ok (s\<lparr>scan_reports := rs\<rparr>) = stm_ok s"
  by (rule stm_ok_cong; simp)+

lemma stm_cases:
  assumes "stm_ok s"
  obtains (stopped) "stm_current s = Some DEVD_STATE_STOPPED" | (starting) "stm_current s = Some DEVD_STATE_STARTING"
    | (started) "stm_current s = Some DEVD_STATE_STARTED" | (stopping) "stm_current s = Some DEVD_STATE_STOPPING"
  using assms by (auto simp: stm_ok_def split: option.splits NLSTK_DevdScanState.splits)

lemma stop_timer: "StopScanTimer s = s\<lparr>internalTimer := - 1\<rparr>"
  by (simp add: StopScanTimer_def)

lemma state_exit_eq:
  "state_exit no_ext s = (if stm_current s = Some DEVD_STATE_STARTING \<or> stm_current s = Some DEVD_STATE_STOPPING then s\<lparr>internalTimer := - 1\<rparr> else s)"
  by (auto simp: state_exit_def stop_timer split: option.splits NLSTK_DevdScanState.splits)

lemmas to_defs = to_stopped_def to_started_def goto_def state_exit_eq StoppedEntry_def StartedEntry_def Let_def

lemma to_stopped_ok:
  assumes "stm_ok s"
  shows "machine_step s (to_stopped no_ext s) \<and> stm_ok (to_stopped no_ext s) \<and> stm_current (to_stopped no_ext s) = Some DEVD_STATE_STOPPED"
  using assms by (auto simp: to_defs machine_step_def stm_ok_def split: option.splits NLSTK_DevdScanState.splits if_splits)

lemma to_started_ok:
  assumes "listens (currentScanSetting s) (currentFrame4ScanSetting s)" "stm_current s = Some DEVD_STATE_STARTING \<or> stm_current s = Some DEVD_STATE_STOPPING"
  shows "machine_step s (to_started no_ext s) \<and> stm_ok (to_started no_ext s) \<and> stm_current (to_started no_ext s) = Some DEVD_STATE_STARTED"
  using assms by (auto simp: to_defs machine_step_def stm_ok_def)

lemma notify_step: "machine_step s (notify_modules r b s)" "stm_ok (notify_modules r b s) = stm_ok s" "stm_current (notify_modules r b s) = stm_current s"
  by (auto simp: notify_modules_def machine_step_def)

lemma timer_step:
  "machine_step s (snd (StartScanTimer e s))" "stm_current s = Some DEVD_STATE_STARTING \<or> stm_current s = Some DEVD_STATE_STOPPING \<Longrightarrow> stm_ok (snd (StartScanTimer e s)) = stm_ok s"
  "stm_current (snd (StartScanTimer e s)) = stm_current s"
  by (auto simp: StartScanTimer_def machine_step_def stm_ok_def split: option.splits)

lemma post_step: "task_ok t \<Longrightarrow> SchedulePostTask e t s = (b, s') \<Longrightarrow> machine_step s s' \<and> stm_ok s' = stm_ok s \<and> stm_current s' = stm_current s"
  by (auto simp: SchedulePostTask_def machine_step_def split: if_splits)

lemma enable_step: "NLSTK_DevdSleEnableScan e b s = (r, s') \<Longrightarrow> machine_step s s' \<and> stm_ok s' = stm_ok s \<and> stm_current s' = stm_current s"
  by (auto simp: NLSTK_DevdSleEnableScan_def machine_step_refl dest!: post_step [rotated] split: option.splits prod.splits if_splits)

lemma build_params_ok:
  assumes "BuildScanParams e s = Some p"
  shows "copy_params p = Some p \<and> DLI_GetPhyCountByFrameType (sp_frameType p) \<le> length (sp_params p)"
  using assms
  by (cases "si_window (inflightScanSetting s) = 0"; cases "si_window (inflightFrame4ScanSetting s) = 0")
    (auto simp: BuildScanParams_def copy_params_def DLI_GetPhyCountByFrameType_def one_param_def Let_def split: option.splits)

lemma start_scan_step:
  assumes "copy_params p = Some p" "DLI_GetPhyCountByFrameType (sp_frameType p) \<le> length (sp_params p)"
  shows "\<exists>r s'. NLSTK_DevdSleStartScan e p s = Some (r, s') \<and> machine_step s s' \<and> stm_ok s' = stm_ok s \<and> stm_current s' = stm_current s"
proof -
  obtain b s1 where p: "SchedulePostTask (sub e 1) (TaskSetScanParam p) s = (b, s1)" by fastforce
  have "task_ok (TaskSetScanParam p)" using assms by simp
  from post_step [OF this p] show ?thesis using assms p by (auto simp: NLSTK_DevdSleStartScan_def machine_step_refl split: option.splits)
qed

lemma to_starting_ok:
  assumes "stm_current s = Some DEVD_STATE_STOPPED" "listens (inflightScanSetting s) (inflightFrame4ScanSetting s)"
  shows "\<exists>s'. to_starting no_ext e s = Some s' \<and> machine_step s s' \<and> stm_ok s'"
proof -
  let ?s0 = "goto no_ext DEVD_STATE_STARTING s"
  let ?s1 = "snd (StartScanTimer (sub e 0) ?s0)"
  have 0: "machine_step s ?s0" "stm_ok ?s0" "stm_current ?s0 = Some DEVD_STATE_STARTING" using assms by (auto simp: goto_def state_exit_eq machine_step_def stm_ok_def)
  have 1: "machine_step s ?s1" "stm_ok ?s1" "stm_current ?s1 = Some DEVD_STATE_STARTING" using 0 timer_step [where s = "?s0" and e = "sub e 0"] machine_step_trans by auto
  have f: "machine_step s (to_stopped no_ext (notify_modules r b s2)) \<and> stm_ok (to_stopped no_ext (notify_modules r b s2))" if "machine_step s s2" "stm_ok s2" for r b s2
    using that to_stopped_ok [of "notify_modules r b s2"] notify_step [where s = s2 and r = r and b = b] machine_step_trans by metis
  have w: "\<not> (si_window (inflightScanSetting ?s1) = 0 \<and> si_window (inflightFrame4ScanSetting ?s1) = 0)"
    using 1(2,3) by (auto simp: stm_ok_def listens_def)
  show ?thesis
  proof (cases "BuildScanParams (sub e 1) ?s1")
    case None
    then show ?thesis using f [OF 1(1,2)] by (simp add: to_starting_def StartingEntry_def Let_def)
  next
    case (Some p)
    obtain r s2 where r: "NLSTK_DevdSleStartScan (sub e 2) p ?s1 = Some (r, s2)" "machine_step ?s1 s2" "stm_ok s2"
      using start_scan_step [of p "sub e 2" ?s1] build_params_ok [OF Some] 1 by auto
    then show ?thesis using Some w f [of s2] machine_step_trans [OF 1(1) r(2)] by (auto simp: to_starting_def StartingEntry_def Let_def)
  qed
qed

lemma to_stopping_ok:
  assumes "stm_current s = Some DEVD_STATE_STARTED" "listens (currentScanSetting s) (currentFrame4ScanSetting s)"
  shows "machine_step s (to_stopping no_ext e s) \<and> stm_ok (to_stopping no_ext e s)"
proof -
  let ?s0 = "goto no_ext DEVD_STATE_STOPPING s"
  let ?s1 = "snd (StartScanTimer (sub e 0) ?s0)"
  have 0: "machine_step s ?s0" "stm_ok ?s0" "stm_current ?s0 = Some DEVD_STATE_STOPPING" using assms by (auto simp: goto_def state_exit_eq machine_step_def stm_ok_def)
  have 1: "machine_step s ?s1" "stm_ok ?s1" "stm_current ?s1 = Some DEVD_STATE_STOPPING" using 0 timer_step [where s = "?s0" and e = "sub e 0"] machine_step_trans by auto
  obtain r s2 where r: "NLSTK_DevdSleEnableScan (sub e 1) False ?s1 = (r, s2)" by fastforce
  have 2: "machine_step s s2" "stm_ok s2" "stm_current s2 = Some DEVD_STATE_STOPPING" using enable_step [OF r] 1 machine_step_trans by auto
  have "listens (currentScanSetting s2) (currentFrame4ScanSetting s2)" using 2 by (simp add: stm_ok_def)
  then have "machine_step s2 (to_started no_ext s2) \<and> stm_ok (to_started no_ext s2)" using to_started_ok [of s2] 2 by blast
  then show ?thesis using r 2 machine_step_trans [OF 2(1)] by (auto simp: to_stopping_def StoppingEntry_def)
qed

section \<open>Messages\<close>

lemma mode_setting: "mode_ok i \<Longrightarrow> setting_ok i"
  by (auto simp: mode_ok_def setting_ok_def idle_def)

lemma scanners_fetch:
  assumes "scanners_ok v"
  shows "\<exists>a b. FetchFrame1TargetScanSettings v = Some a \<and> FetchFrame4TargetScanSettings v = Some b \<and> (a = None \<longleftrightarrow> v_elems v = []) \<and> (b = None \<longleftrightarrow> v_elems v = []) \<and>
    (\<forall>i. a = Some i \<or> b = Some i \<longrightarrow> mode_ok i)"
proof (cases "v_elems v")
  case Nil
  then show ?thesis by (simp add: FetchFrame1TargetScanSettings_def FetchFrame4TargetScanSettings_def)
next
  case (Cons sc scs)
  have m: "mode_ok (scanSetting x) \<and> mode_ok (frame4ScanSetting x)" if "x \<in> set (v_elems v)" for x
    using assms that by (auto simp: scanners_ok_def list_all_iff scanner_ok_def)
  obtain a b where "fetch_loop scanSetting (scanSetting sc) scs = Some a" "a \<in> scanSetting ` set (v_elems v)"
    "fetch_loop frame4ScanSetting (frame4ScanSetting sc) scs = Some b" "b \<in> frame4ScanSetting ` set (v_elems v)"
    using fetch_loop_best [of "scanSetting sc" scs scanSetting] fetch_loop_best [of "frame4ScanSetting sc" scs frame4ScanSetting] m mode_setting Cons by fastforce
  then show ?thesis using m Cons by (auto simp: FetchFrame1TargetScanSettings_def FetchFrame4TargetScanSettings_def)
qed

lemma stopped_update_ok:
  assumes "stm_ok s" "scanners_ok (scanners s)" "stm_current s = Some DEVD_STATE_STOPPED"
  shows "\<exists>s'. StoppedDispatch no_ext e DEVD_POTIENTIAL_UPDATE s = Some s' \<and> machine_step s s' \<and> stm_ok s'"
proof -
  obtain a b where f: "FetchFrame1TargetScanSettings (scanners s) = Some a" "FetchFrame4TargetScanSettings (scanners s) = Some b" "\<forall>i. a = Some i \<or> b = Some i \<longrightarrow> mode_ok i"
    using scanners_fetch [OF assms(2)] by blast
  have i: "idle (currentScanSetting s)" "idle (currentFrame4ScanSetting s)" "idle (inflightScanSetting s)" "idle (inflightFrame4ScanSetting s)"
    using assms(1,3) by (auto simp: stm_ok_def)
  let ?a = "if \<not> ScanSettingsEqual (wanted a) (currentScanSetting s) then s\<lparr>inflightScanSetting := wanted a\<rparr> else s"
  let ?s = "if \<not> ScanSettingsEqual (wanted b) (currentFrame4ScanSetting ?a) then ?a\<lparr>inflightFrame4ScanSetting := wanted b\<rparr> else ?a"
  have w: "mode_ok (wanted a)" "mode_ok (wanted b)" using f(3) by (auto simp: wanted_def idle_def mode_ok_def zero_setting_def split: option.splits)
  show ?thesis
  proof (cases "no_window a \<and> no_window b")
    case True
    then show ?thesis using assms(1) f by (simp add: StoppedDispatch_def machine_step_refl)
  next
    case False
    then have "listens (inflightScanSetting ?s) (inflightFrame4ScanSetting ?s)"
      using w i by (auto simp: listens_def ScanSettingsEqual_def idle_def mode_ok_def no_window_def wanted_def zero_setting_def split: option.splits if_splits)
    moreover have "stm_current ?s = Some DEVD_STATE_STOPPED" "machine_step s ?s" using assms(3) by (simp_all add: machine_step_def)
    ultimately obtain s' where "to_starting no_ext e ?s = Some s'" "machine_step s s'" "stm_ok s'" using to_starting_ok [of ?s e] machine_step_trans by blast
    moreover have "StoppedDispatch no_ext e DEVD_POTIENTIAL_UPDATE s = to_starting no_ext e ?s" using f False by (auto simp: StoppedDispatch_def Let_def)
    ultimately show ?thesis by simp
  qed
qed

lemma started_update_ok:
  assumes "stm_ok s" "scanners_ok (scanners s)" "stm_current s = Some DEVD_STATE_STARTED"
  shows "\<exists>s'. StartedDispatch no_ext e DEVD_POTIENTIAL_UPDATE s = Some s' \<and> machine_step s s' \<and> stm_ok s'"
proof -
  obtain a b where f: "FetchFrame1TargetScanSettings (scanners s) = Some a" "FetchFrame4TargetScanSettings (scanners s) = Some b" "a = None \<longleftrightarrow> b = None"
    using scanners_fetch [OF assms(2)] by auto
  have l: "listens (currentScanSetting s) (currentFrame4ScanSetting s)" using assms(1,3) by (simp add: stm_ok_def)
  have t: "machine_step s (to_stopping no_ext e t) \<and> stm_ok (to_stopping no_ext e t)"
    if "machine_step s t" "stm_current t = stm_current s" "currentScanSetting t = currentScanSetting s" "currentFrame4ScanSetting t = currentFrame4ScanSetting s" for t
    using that to_stopping_ok [of t e] assms(3) l machine_step_trans by metis
  show ?thesis
  proof (cases a)
    case None
    then show ?thesis using f t [OF machine_step_refl] by (simp add: StartedDispatch_def)
  next
    case (Some i)
    then obtain j where b: "b = Some j" using f(3) by auto
    let ?r1 = "if \<not> ScanSettingsEqual i (currentScanSetting s) then s\<lparr>inflightScanSetting := ResetScanSetting (inflightScanSetting s)\<rparr> else s"
    let ?r = "if \<not> ScanSettingsEqual j (currentFrame4ScanSetting ?r1) then ?r1\<lparr>inflightFrame4ScanSetting := ResetScanSetting (inflightFrame4ScanSetting ?r1)\<rparr> else ?r1"
    have "machine_step s (to_stopping no_ext e ?r) \<and> stm_ok (to_stopping no_ext e ?r)" by (rule t) (simp_all add: machine_step_def)
    then show ?thesis using f Some b assms(1) by (simp add: StartedDispatch_def Let_def machine_step_refl)
  qed
qed

lemma update_ok:
  assumes "stm_ok s" "scanners_ok (scanners s)"
  shows "\<exists>s'. process_update no_ext e s = Some s' \<and> machine_step s s' \<and> stm_ok s'"
  using assms(1)
  by (cases rule: stm_cases) (use stopped_update_ok [OF assms] started_update_ok [OF assms] assms(1) in \<open>simp_all add: process_update_def machine_step_refl\<close>)

lemma update_after:
  assumes "stm_ok t" "machine_step s t" "scanners_ok (scanners s)"
  shows "\<exists>s'. process_update no_ext e t = Some s' \<and> machine_step s s' \<and> stm_ok s'"
  using update_ok [of t e] assms machine_step_trans [OF assms(2)] by (auto simp: machine_step_def)

lemma stop_after_notify:
  assumes "stm_ok s"
  shows "machine_step s (to_stopped no_ext (notify_modules r b s)) \<and> stm_ok (to_stopped no_ext (notify_modules r b s))"
  using to_stopped_ok [of "notify_modules r b s"] notify_step [where s = s and r = r and b = b] assms machine_step_trans by metis

lemma starting_ok:
  assumes "stm_ok s" "scanners_ok (scanners s)" "stm_current s = Some DEVD_STATE_STARTING"
  shows "\<exists>s'. StartingDispatch no_ext e what s = Some s' \<and> machine_step s s' \<and> stm_ok s'"
proof -
  let ?s = "s\<lparr>currentScanSetting := inflightScanSetting s, currentFrame4ScanSetting := inflightFrame4ScanSetting s\<rparr>"
  let ?n = "notify_modules NLSTK_ERRCODE_SUCCESS True ?s"
  have "machine_step s ?n" by (simp add: notify_modules_def machine_step_def)
  moreover have "listens (currentScanSetting ?n) (currentFrame4ScanSetting ?n)" "stm_current ?n = Some DEVD_STATE_STARTING"
    using assms(1,3) by (simp_all add: stm_ok_def notify_modules_def)
  ultimately have "stm_ok (to_started no_ext ?n) \<and> machine_step s (to_started no_ext ?n)" using to_started_ok [of ?n] machine_step_trans [of s ?n] by blast
  then show ?thesis using update_after [OF _ _ assms(2), of "to_started no_ext ?n" e] stop_after_notify [OF assms(1)] assms(1)
    by (cases what) (simp_all add: StartingDispatch_def machine_step_refl)
qed

lemma stopping_ok:
  assumes "stm_ok s" "scanners_ok (scanners s)" "stm_current s = Some DEVD_STATE_STOPPING"
  shows "\<exists>s'. StoppingDispatch no_ext e what s = Some s' \<and> machine_step s s' \<and> stm_ok s'"
proof -
  let ?n = "notify_modules NLSTK_ERRCODE_FAIL False s"
  have "machine_step s ?n" "listens (currentScanSetting ?n) (currentFrame4ScanSetting ?n)" "stm_current ?n = Some DEVD_STATE_STOPPING"
    using assms(1,3) by (simp_all add: stm_ok_def notify_modules_def machine_step_def)
  then have "stm_ok (to_started no_ext ?n) \<and> machine_step s (to_started no_ext ?n)" using to_started_ok [of ?n] machine_step_trans [of s ?n] by blast
  moreover have "\<exists>s'. process_update no_ext e (to_stopped no_ext (notify_modules r False s)) = Some s' \<and> machine_step s s' \<and> stm_ok s'" for r
    using update_after [OF _ _ assms(2), of _ e] stop_after_notify [OF assms(1)] by blast
  ultimately show ?thesis using assms(1) by (cases what) (simp_all add: StoppingDispatch_def machine_step_refl)
qed

lemma message_ok:
  assumes "stm_ok s" "scanners_ok (scanners s)"
  shows "\<exists>s'. StateMachineProcessMessage no_ext e what s = Some s' \<and> machine_step s s' \<and> stm_ok s'"
proof -
  have "StoppedDispatch no_ext e what s = Some s" "StartedDispatch no_ext e what s = Some s" if "what \<noteq> DEVD_POTIENTIAL_UPDATE"
    using that by (cases what; simp add: StoppedDispatch_def StartedDispatch_def)+
  note quiet = this
  show ?thesis using assms(1)
  proof (cases rule: stm_cases)
    case stopped
    then show ?thesis using stopped_update_ok [OF assms stopped, of e] quiet assms(1) by (cases "what = DEVD_POTIENTIAL_UPDATE") (simp_all add: StateMachineProcessMessage_def machine_step_refl)
  next
    case started
    then show ?thesis using started_update_ok [OF assms started, of e] quiet assms(1) by (cases "what = DEVD_POTIENTIAL_UPDATE") (simp_all add: StateMachineProcessMessage_def machine_step_refl)
  qed (use starting_ok [OF assms, of e what] stopping_ok [OF assms, of e what] in \<open>simp_all add: StateMachineProcessMessage_def\<close>)
qed

corollary message_inv: "scan_inv s \<Longrightarrow> \<exists>s'. StateMachineProcessMessage no_ext e what s = Some s' \<and> machine_step s s' \<and> scan_inv s'"
  using message_ok [of s e what] machine_step_inv by (auto simp: scan_inv_def machine_step_def)

end
