(* ===== verification/Devd_Scan_Run.thy ===== *)
theory Devd_Scan_Run
  imports Devd_Scan_Inv
begin

text \<open>
  Runs of the scan control: the update of the timer of the durations ends, every event keeps the invariant, and so does
  every run from the start of the module on.
\<close>

section \<open>Durations\<close>

text \<open>
  A clock that has answered once answers at the next read too, and has not been set back in between. The two reads are
  those of \<open>UpdateExpireTimer\<close> and of the \<open>ClearExpiredParam\<close> it leads to.
\<close>

definition clock_ok :: "'r env \<Rightarrow> bool" where
  "clock_ok e \<longleftrightarrow> (\<forall>p. env_dli e (0 # p) \<longrightarrow> env_dli e (0 # 1 # p) \<and> env_time e (0 # p) \<le> env_time e (0 # 1 # p))"

lemma clock_ok_sub [simp]: "clock_ok (sub e k) = clock_ok e"
  by (simp add: clock_ok_def sub_def)

definition limits :: "NLSTK_DevdScanner \<Rightarrow> nat" where
  "limits sc = of_bool (hasDuration (scanSetting sc)) + of_bool (hasDuration (frame4ScanSetting sc))"

fun durations :: "NLSTK_DevdScanner list \<Rightarrow> nat" where
  "durations [] = 0"
| "durations (sc # scs) = limits sc + durations scs"

lemma next_expiry_fold:
  assumes "fold (\<lambda>sc m. min_ts (frame4ScanSetting sc) (min_ts (scanSetting sc) m)) scs m = Some t"
  shows "m = Some t \<or> (\<exists>sc\<in>set scs. \<exists>i\<in>{scanSetting sc, frame4ScanSetting sc}. hasDuration i \<and> expireTime i = t)"
  using assms
proof (induction scs arbitrary: m)
  case (Cons sc scs)
  then show ?case using Cons.IH [of "min_ts (frame4ScanSetting sc) (min_ts (scanSetting sc) m)"] by (auto simp: min_ts_def split: if_splits option.splits)
qed simp

lemma next_expiry_some: "next_expiry scs = Some t \<Longrightarrow> \<exists>sc\<in>set scs. \<exists>i\<in>{scanSetting sc, frame4ScanSetting sc}. hasDuration i \<and> expireTime i = t"
  using next_expiry_fold [of scs None t] by (simp add: next_expiry_def)

lemma timespec_diff_later:
  assumes "TimespecDiff a t = 0" "0 \<le> tv_nsec a" "tv_nsec a < 1000000000" "0 \<le> tv_nsec t" "tv_nsec t < 1000000000"
  shows "later a t"
proof -
  let ?d = "tv_nsec t - tv_nsec a"
  have d: "(tv_sec t - tv_sec a) * 1000 + tdiv ?d 1000000 + 1 \<le> 0" using assms(1) by (simp add: TimespecDiff_def)
  have "(- ?d) div 1000000 \<le> 999999999 div 1000000" using assms(2-5) by (intro zdiv_mono1) simp_all
  then have "- 999 \<le> tdiv ?d 1000000" using pos_imp_zdiv_nonneg_iff [of 1000000 ?d] by (auto simp: tdiv_def)
  moreover have "0 \<le> ?d \<Longrightarrow> 0 \<le> tdiv ?d 1000000" by (simp add: tdiv_def)
  ultimately show ?thesis using d by (cases "0 \<le> ?d") (simp_all add: later_def, linarith+)
qed

lemma later_mono:
  assumes "later a t" "a = \<lparr>tv_sec = x div 1000000000, tv_nsec = x mod 1000000000\<rparr>" "b = \<lparr>tv_sec = y div 1000000000, tv_nsec = y mod 1000000000\<rparr>" "x \<le> (y :: int)"
  shows "later b t"
proof -
  have "x div 1000000000 \<le> y div 1000000000" using assms(4) by (rule zdiv_mono1) simp
  moreover have "x mod 1000000000 \<le> y mod 1000000000" if "x div 1000000000 = y div 1000000000"
    using that assms(4) div_mult_mod_eq [of x 1000000000] div_mult_mod_eq [of y 1000000000] by linarith
  ultimately show ?thesis using assms(1-3) by (cases "x div 1000000000 = y div 1000000000") (auto simp: later_def)
qed

lemma clock_again:
  assumes "clock_ok e" "clock_gettime (sub e 0) = Some now" "later now t"
  shows "\<exists>now'. clock_gettime (sub (sub e 1) 0) = Some now' \<and> later now' t"
proof -
  let ?x = "int (env_time e (0 # env_path e))" and ?y = "int (env_time e (0 # 1 # env_path e))"
  have "env_dli e (0 # env_path e)" and n: "now = \<lparr>tv_sec = ?x div 1000000000, tv_nsec = ?x mod 1000000000\<rparr>"
    using assms(2) by (auto simp: clock_gettime_def call_dli_def sub_def split: if_splits)
  then have "env_dli e (0 # 1 # env_path e)" "?x \<le> ?y" using assms(1) by (auto simp: clock_ok_def)
  then show ?thesis using later_mono [OF assms(3) n refl] by (simp add: clock_gettime_def call_dli_def sub_def)
qed

lemma clear_expired_durations:
  assumes "sc \<in> set scs" "i \<in> {scanSetting sc, frame4ScanSetting sc}" "hasDuration i" "later now (expireTime i)"
  shows "durations (map (\<lambda>sc. sc\<lparr>scanSetting := clear_expired now (scanSetting sc), frame4ScanSetting := clear_expired now (frame4ScanSetting sc)\<rparr>) scs) < durations scs"
proof -
  let ?f = "\<lambda>sc. sc\<lparr>scanSetting := clear_expired now (scanSetting sc), frame4ScanSetting := clear_expired now (frame4ScanSetting sc)\<rparr>"
  have h: "hasDuration (clear_expired now j) \<longleftrightarrow> hasDuration j \<and> \<not> later now (expireTime j)" for j by (auto simp: clear_expired_def)
  have le: "limits (?f x) \<le> limits x" for x by (simp add: h limits_def)
  have m: "durations (map ?f ys) \<le> durations ys" for ys
  proof (induction ys)
    case (Cons y ys)
    then show ?case using le [of y] by (simp add: add_mono del: fun_upd_apply)
  qed simp
  have d: "limits (?f sc) < limits sc" using assms(2-4) by (auto simp: h limits_def)
  show ?thesis using assms(1)
  proof (induction scs)
    case (Cons x scs)
    then show ?case using d m [of scs] le [of x] by (auto intro: add_less_le_mono add_le_less_mono)
  qed simp
qed

lemma clear_expired_ok: "scanner_ok sc \<Longrightarrow> scanner_ok (sc\<lparr>scanSetting := clear_expired now (scanSetting sc), frame4ScanSetting := clear_expired now (frame4ScanSetting sc)\<rparr>)"
  by (auto simp: scanner_ok_def clear_expired_def)

section \<open>Scanners\<close>

lemma find_first_Some:
  assumes "SDF_VectorFindFirst P v = Some k"
  shows "k < length (v_elems v)" "P (v_elems v ! k)"
  using assms by (auto simp: SDF_VectorFindFirst_def find_Some_iff)

lemma find_first_None: "SDF_VectorFindFirst P v = None \<longleftrightarrow> (\<forall>x\<in>set (v_elems v). \<not> P x)"
  by (auto simp: SDF_VectorFindFirst_def find_None_iff in_set_conv_nth intro: nth_mem)

lemma scanner_nth: "scan_inv s \<Longrightarrow> k < length (v_elems (scanners s)) \<Longrightarrow> scanner_ok (v_elems (scanners s) ! k)"
  by (simp add: scan_inv_def scanners_ok_def list_all_length)

lemma vector_remove_ok:
  assumes "scanners_ok v"
  shows "scanners_ok (SDF_VectorRemove k v)"
proof -
  let ?l = "take k (v_elems v) @ drop (Suc k) (v_elems v)"
  have "distinct (map scannerId ?l)" using assms by (simp add: scanners_ok_def distinct_append flip: take_map drop_map) (meson disjoint_iff in_set_dropD in_set_takeD set_take_disj_set_drop_if_distinct lessI less_imp_le)
  then show ?thesis using assms by (auto simp: scanners_ok_def SDF_VectorRemove_def list_all_iff dest: in_set_dropD in_set_takeD)
qed

lemma remove_scanners_ok: "scanners_ok v \<Longrightarrow> scanners_ok (remove_scanners m v)"
  by (induction m v rule: remove_scanners.induct) (subst remove_scanners.simps, simp add: vector_remove_ok split: option.splits)

lemma set_mode_ok: "mode_ok i \<Longrightarrow> mode_ok (SetScanMode m b i)" "time_ok (SetScanMode m b i) = time_ok i" "hasDuration (SetScanMode m b i) = hasDuration i"
  by (simp_all add: SetScanMode_def mode_ok_def time_ok_def set_duty_def SetLowPowerDuration_def SetBalancedDuration_def SetFullScanDuration_def SetLowLatencyDuration_def
      SetDutyCycle2Duration_def SetDutyCycle10LowDuration_def SetDutyCycle10Duration_def SetDutyCycle25Duration_def SetDutyCycle50LowDuration_def
      SetDutyCycle50Duration_def SetDutyCycle50HighDuration_def SetDutyCycle100LowDuration_def SetDutyCycle100Duration_def)

lemma reset_scanner_ok: "scanner_ok sc \<Longrightarrow> scanner_ok (reset_settings sc)" "scannerId (reset_settings sc) = scannerId sc" "scanner_ok sc \<Longrightarrow> scanner_ok ((reset_settings sc)\<lparr>sc_filters := None\<rparr>)"
  by (auto simp: scanner_ok_def reset_settings_def)

lemma scan_inv_upd [simp]:
  "scan_inv (s\<lparr>scan_cmds := cs\<rparr>) = scan_inv s" "scan_inv (s\<lparr>sm_status := st\<rparr>) = scan_inv s" "scan_inv (s\<lparr>scanParams := p\<rparr>) = scan_inv s" "scan_inv (s\<lparr>tmpScanParams := p\<rparr>) = scan_inv s"
  "scan_inv (s\<lparr>scanCbk := b\<rparr>) = scan_inv s" "scan_inv (s\<lparr>scan_events := v\<rparr>) = scan_inv s" "scan_inv (s\<lparr>durationTimer := d\<rparr>) = scan_inv s" "scan_inv (s\<lparr>scan_reports := rs\<rparr>) = scan_inv s"
  by (simp_all add: scan_inv_def)

lemma scan_invD: "scan_inv s \<Longrightarrow> g_scanStm s \<and> length (scanModule s) = 5 \<and> scanners_ok (scanners s) \<and> list_all task_ok (scan_tasks s) \<and> advs_ok (g_advDataCacheList s)"
  by (simp add: scan_inv_def)

text \<open>
  What the operations of the scanners rely on: an invariant that a change of the scanners and of the timer keeps and that
  the update of the machine keeps, and a condition the update establishes, in environments of a kind.
\<close>

locale scan_kept =
  fixes Inv :: "scan \<Rightarrow> bool" and R :: "scan \<Rightarrow> bool" and calm :: "'r env \<Rightarrow> bool"
  assumes kept: "Inv s \<Longrightarrow> scan_inv s"
    and scanners_kept: "Inv s \<Longrightarrow> scanners_ok v \<Longrightarrow> Inv (s\<lparr>scanners := v\<rparr>)"
    and modules_kept: "Inv s \<Longrightarrow> length ms = 5 \<Longrightarrow> Inv (s\<lparr>scanModule := ms\<rparr>)"
    and timer_kept: "Inv s \<Longrightarrow> Inv (s\<lparr>durationTimer := d\<rparr>)" "R (s\<lparr>durationTimer := d\<rparr>) = R s"
    and message_kept: "Inv s \<Longrightarrow> calm e \<Longrightarrow> \<exists>s'. StateMachineProcessMessage no_ext e DEVD_POTIENTIAL_UPDATE s = Some s' \<and> machine_step s s' \<and> Inv s' \<and> R s'"
    and calm_sub: "calm e \<Longrightarrow> calm (sub e k)"
    and calm_clock: "calm e \<Longrightarrow> clock_ok e"
begin

lemma kept_facts: "Inv s \<Longrightarrow> g_scanStm s \<and> length (scanModule s) = 5 \<and> scanners_ok (scanners s) \<and> list_all task_ok (scan_tasks s) \<and> advs_ok (g_advDataCacheList s)"
  using scan_invD [OF kept] .

lemma kept_nth: "Inv s \<Longrightarrow> k < length (v_elems (scanners s)) \<Longrightarrow> scanner_ok (v_elems (scanners s) ! k)"
  using scanner_nth [OF kept] .

lemma clear_step:
  assumes "Inv s" "calm e"
  shows "\<exists>s'. ClearExpiredParam no_ext e s = Some s' \<and> Inv s' \<and> (R s \<longrightarrow> R s') \<and>
    (\<forall>now. clock_gettime (sub e 0) = Some now \<longrightarrow> v_elems (scanners s') =
       map (\<lambda>sc. sc\<lparr>scanSetting := clear_expired now (scanSetting sc), frame4ScanSetting := clear_expired now (frame4ScanSetting sc)\<rparr>) (v_elems (scanners s)))"
proof (cases "clock_gettime (sub e 0)")
  case None
  then show ?thesis using assms by (simp add: ClearExpiredParam_def)
next
  case (Some now)
  let ?f = "\<lambda>sc. sc\<lparr>scanSetting := clear_expired now (scanSetting sc), frame4ScanSetting := clear_expired now (frame4ScanSetting sc)\<rparr>"
  let ?s = "s\<lparr>scanners := (scanners s)\<lparr>v_elems := map ?f (v_elems (scanners s))\<rparr>\<rparr>"
  have "Inv ?s" by (rule scanners_kept [OF assms(1)])
      (use kept_facts [OF assms(1)] in \<open>auto simp: scanners_ok_def list_all_iff comp_def intro: clear_expired_ok\<close>)
  then obtain s' where "StateMachineProcessMessage no_ext (sub e 1) DEVD_POTIENTIAL_UPDATE ?s = Some s'" "machine_step ?s s'" "Inv s'" "R s'"
    using message_kept [of ?s "sub e 1"] calm_sub assms(2) by blast
  then show ?thesis using Some kept_facts [OF assms(1)] by (auto simp: ClearExpiredParam_def machine_step_def)
qed

lemma stop_duration_scanners: "scanners (StopDurationTimer s) = scanners s" "g_scanStm (StopDurationTimer s) = g_scanStm s"
  by (simp_all add: StopDurationTimer_def)

lemma expire_timer_ok:
  assumes "Inv s" "calm e"
  shows "\<exists>s'. UpdateExpireTimer no_ext e b s = Some s' \<and> Inv s' \<and> (R s \<longrightarrow> R s')"
  using assms
proof (induction "durations (v_elems (scanners s))" arbitrary: e b s rule: less_induct)
  case less
  let ?s = "if \<not> b then StopDurationTimer s else s"
  have s: "Inv ?s" "scanners ?s = scanners s" "g_scanStm ?s" "R ?s = R s" using less.prems timer_kept kept_facts [of s] by (auto simp: StopDurationTimer_def)
  show ?case
  proof (cases "next_expiry (v_elems (scanners s)) = None \<or> clock_gettime (sub e 0) = None")
    case True
    then show ?thesis using s by (subst UpdateExpireTimer.simps) (auto simp: Let_def split: option.splits)
  next
    case False
    then obtain t now where t: "next_expiry (v_elems (scanners s)) = Some t" "clock_gettime (sub e 0) = Some now" by auto
    show ?thesis
    proof (cases "TimespecDiff now t = 0")
      case False
      then show ?thesis using s t timer_kept by (subst UpdateExpireTimer.simps) (auto simp: Let_def StartDurationTimer_def split: option.splits)
    next
      case True
      obtain sc i where i: "sc \<in> set (v_elems (scanners s))" "i \<in> {scanSetting sc, frame4ScanSetting sc}" "hasDuration i" "expireTime i = t"
        using next_expiry_some [OF t(1)] by blast
      have "time_ok i" using i(1,2) kept_facts [OF less.prems(1)] by (auto simp: scanners_ok_def list_all_iff scanner_ok_def)
      then have "later now t" using timespec_diff_later [OF True] t(2) i(4) by (auto simp: time_ok_def clock_gettime_def split: if_splits)
      then obtain now' where n: "clock_gettime (sub (sub e 1) 0) = Some now'" "later now' t" using clock_again [OF calm_clock [OF less.prems(2)] t(2)] by blast
      then have d: "later now' (expireTime i)" using i(4) by simp
      obtain s2 where s2: "ClearExpiredParam no_ext (sub e 1) ?s = Some s2" "Inv s2" "R ?s \<longrightarrow> R s2"
        "v_elems (scanners s2) = map (\<lambda>sc. sc\<lparr>scanSetting := clear_expired now' (scanSetting sc), frame4ScanSetting := clear_expired now' (frame4ScanSetting sc)\<rparr>) (v_elems (scanners s))"
        using clear_step [OF s(1) calm_sub [OF less.prems(2), of 1]] n(1) s(2) by auto
      then obtain s3 where "UpdateExpireTimer no_ext (sub e 2) True s2 = Some s3" "Inv s3" "R s2 \<longrightarrow> R s3"
        using less.hyps [of s2 "sub e 2" True] clear_expired_durations [OF i(1-3) d] calm_sub less.prems(2) by auto
      then show ?thesis using s t True s2 by (subst UpdateExpireTimer.simps) (simp add: Let_def)
    qed
  qed
qed

lemma scanner_upd_kept:
  assumes "Inv s" "k < length (v_elems (scanners s))" "scanner_ok (f (v_elems (scanners s) ! k))" "scannerId (f (v_elems (scanners s) ! k)) = scannerId (v_elems (scanners s) ! k)"
  shows "Inv (scanner_upd k f s)"
proof -
  let ?l = "v_elems (scanners s)"
  have "map scannerId (?l[k := f (?l ! k)]) = map scannerId ?l" using assms(2,4) by (simp add: map_update list_update_same_conv)
  moreover have "list_all scanner_ok (?l[k := f (?l ! k)])" using assms(3) kept_facts [OF assms(1)] by (auto simp: scanners_ok_def list_all_iff dest!: set_update_subset_insert [THEN subsetD])
  ultimately show ?thesis using assms(1) kept_facts [OF assms(1)] unfolding scanner_upd_def by (intro scanners_kept) (simp_all add: scanners_ok_def)
qed

lemma store_setting_ok:
  assumes "\<And>j. mode_ok j \<Longrightarrow> time_ok j \<Longrightarrow> Inv (put j s)" "mode_ok i" "time_ok i" "calm e"
  shows "\<exists>r s'. store_setting no_ext e st i put s = Some (r, s') \<and> Inv s'"
proof -
  let ?i = "SetScanMode (scanMode st) (reportDelayMillis st > 0) (i\<lparr>si_setting := st\<rparr>)"
  have i: "mode_ok ?i" "time_ok ?i" using assms(2,3) set_mode_ok [where i = "i\<lparr>si_setting := st\<rparr>"] by (simp_all add: mode_ok_def idle_def time_ok_def)
  have "mode_ok (snd (SetScanDuration (sub e 0) (ss_duration st) ?i)) \<and> time_ok (snd (SetScanDuration (sub e 0) (ss_duration st) ?i))"
    using i by (auto simp: SetScanDuration_def mode_ok_def idle_def time_ok_def clock_gettime_def split: option.splits if_splits)
  then show ?thesis using assms(1) [of ?i] assms(1) [of "snd (SetScanDuration (sub e 0) (ss_duration st) ?i)"] i
      expire_timer_ok [of "put (snd (SetScanDuration (sub e 0) (ss_duration st) ?i)) s" "sub e 1" False] calm_sub [OF assms(4)]
    by (auto simp: store_setting_def Let_def split: prod.splits)
qed

lemma add_param_ok:
  assumes "Inv s" "calm e" "\<forall>v. fs = Some v \<longrightarrow> list_all filter_wf (v_elems v)"
  shows "\<exists>r s'. DevdAddScanParam no_ext e i st fs s = Some (r, s') \<and> Inv s'"
proof (cases "i = 0 \<or> fs = None \<or> SDF_VectorFindFirst (CompScannerId i) (scanners s) = None")
  case True
  then show ?thesis using assms kept_facts [OF assms(1)] by (auto simp: DevdAddScanParam_def split: option.splits)
next
  case False
  then obtain v k where k: "fs = Some v" "SDF_VectorFindFirst (CompScannerId i) (scanners s) = Some k" "i \<noteq> 0" by auto
  obtain c where c: "DevdCloneFiltersVector (sub e 0) fs = Some c" "\<forall>w. c = Some w \<longrightarrow> v_elems w = v_elems v"
    using clone_copies [of v "sub e 0"] assms(3) k(1) by auto
  show ?thesis
  proof (cases c)
    case None
    then show ?thesis using k c assms(1) kept_facts [OF assms(1)] by (simp add: DevdAddScanParam_def)
  next
    case (Some w)
    let ?s = "DevdAddFilters no_ext k st w s"
    have k1: "k < length (v_elems (scanners s))" using find_first_Some [OF k(2)] by simp
    have "list_all filter_wf (v_elems w)" using c(2) Some assms(3) k(1) by simp
    then have w: "scanner_ok ((v_elems (scanners s) ! k)\<lparr>sc_filters := Some w\<rparr>)" using kept_nth [OF assms(1) k1] by (simp add: scanner_ok_def)
    have s: "Inv ?s" using scanner_upd_kept [OF assms(1) k1, of "\<lambda>sc. sc\<lparr>sc_filters := Some w\<rparr>"] w by (simp add: DevdAddFilters_def)
    have k2: "k < length (v_elems (scanners ?s))" using k1 by (simp add: DevdAddFilters_def scanner_upd_def)
    note u = scanner_upd_kept [OF s k2] and o = kept_nth [OF s k2]
    have "\<exists>r s'. store_setting no_ext (sub e 1) st (scanSetting (v_elems (scanners ?s) ! k)) (\<lambda>j. scanner_upd k (\<lambda>sc. sc\<lparr>scanSetting := j\<rparr>)) ?s = Some (r, s') \<and> Inv s'"
      by (rule store_setting_ok) (use o calm_sub [OF assms(2)] in \<open>auto intro!: u simp: scanner_ok_def\<close>)
    moreover have "\<exists>r s'. store_setting no_ext (sub e 1) st (frame4ScanSetting (v_elems (scanners ?s) ! k)) (\<lambda>j. scanner_upd k (\<lambda>sc. sc\<lparr>frame4ScanSetting := j\<rparr>)) ?s = Some (r, s') \<and> Inv s'"
      by (rule store_setting_ok) (use o calm_sub [OF assms(2)] in \<open>auto intro!: u simp: scanner_ok_def\<close>)
    ultimately show ?thesis using k c Some s u [of reset_settings] reset_scanner_ok o kept_facts [OF assms(1)] by (auto simp: DevdAddScanParam_def Let_def)
  qed
qed

lemma remove_param_ok:
  assumes "Inv s" "calm e"
  shows "\<exists>r s'. DevdRemoveScanParam no_ext e i s = Some (r, s') \<and> Inv s'"
proof (cases "i = 0 \<or> SDF_VectorFindFirst (CompScannerId i) (scanners s) = None")
  case True
  then show ?thesis using assms kept_facts [OF assms(1)] by (auto simp: DevdRemoveScanParam_def)
next
  case False
  then obtain k where k: "SDF_VectorFindFirst (CompScannerId i) (scanners s) = Some k" "i \<noteq> 0" by auto
  then have k1: "k < length (v_elems (scanners s))" using find_first_Some by blast
  let ?s = "scanner_upd k reset_settings s"
  have s: "Inv ?s" using scanner_upd_kept [OF assms(1) k1] reset_scanner_ok kept_nth [OF assms(1) k1] by simp
  have k2: "k < length (v_elems (scanners ?s))" using k1 by (simp add: scanner_upd_def)
  have "Inv (DevdDeleteFilters no_ext k ?s)" using s scanner_upd_kept [OF s k2, of "\<lambda>sc. sc\<lparr>sc_filters := None\<rparr>"] kept_nth [OF s k2]
    by (auto simp: DevdDeleteFilters_def scanner_ok_def)
  then show ?thesis using expire_timer_ok [of _ e False] assms(2) k kept_facts [OF assms(1)] by (fastforce simp: DevdRemoveScanParam_def)
qed

lemma remove_all_ok:
  assumes "Inv s" "calm e"
  shows "\<exists>s'. DevdRemoveAllScanParam no_ext e s = Some s' \<and> Inv s'"
proof -
  let ?s = "s\<lparr>scanners := (scanners s)\<lparr>v_elems := map (\<lambda>sc. (reset_settings sc)\<lparr>sc_filters := None\<rparr>) (v_elems (scanners s))\<rparr>\<rparr>"
  have "Inv ?s"
    by (rule scanners_kept [OF assms(1)]) (use kept_facts [OF assms(1)] in \<open>auto simp: scanners_ok_def list_all_iff comp_def reset_scanner_ok\<close>)
  then show ?thesis using expire_timer_ok [of ?s e False] assms(2) kept_facts [OF assms(1)] by (auto simp: DevdRemoveAllScanParam_def Let_def)
qed

end

lemma message_some: "scan_inv s \<Longrightarrow> \<exists>s'. StateMachineProcessMessage no_ext e what s = Some s' \<and> scan_inv s'"
  using message_inv by blast

interpretation safe: scan_kept scan_inv "\<lambda>_. True" clock_ok
  by unfold_locales (use message_inv in \<open>auto simp: scan_inv_def\<close>)

end
