(* ===== verification/Devd_Scan_Events.thy ===== *)
theory Devd_Scan_Events
  imports Devd_Scan_Run
begin

text \<open>
  The events of the scan control as one step function, and that no run of them leaves the invariant: requests of the
  modules, tasks in their order, answers of the controller to its commands in their order and with any status, timers that
  fire at any time, and reports.
\<close>

section \<open>Events\<close>

datatype scan_event =
    RegModule bool bool
  | DeregModule nat
  | CreateScanner nat
  | RemoveScanner nat
  | StartScan nat NLSTK_DevdScanSetting "NLSTK_DevdScanFilter list option" nat
  | StopScan nat
  | StopAllScan
  | RunTask
  | Answer nat
  | TimeoutOfStart
  | TimeoutOfDuration
  | Report bytes

text \<open>The head of the tasks is run; the controller answers the oldest command.\<close>

definition scan_step :: "'r env \<Rightarrow> scan_event \<Rightarrow> scan \<Rightarrow> scan option" where
  "scan_step e ev s =
     (case ev of
        RegModule b c \<Rightarrow> Some (snd (DevdCreateScanModule b c s))
      | DeregModule m \<Rightarrow> DevdDeregScanModule no_ext e m s
      | CreateScanner m \<Rightarrow> Some (snd (DevdCreateScanner no_ext e m s))
      | RemoveScanner i \<Rightarrow> DevdRemoveScannerId no_ext e i s
      | StartScan i st fs n \<Rightarrow> map_option snd (NLSTK_DevdStartScan e i st fs n s)
      | StopScan i \<Rightarrow> Some (snd (NLSTK_DevdStopScan e i s))
      | StopAllScan \<Rightarrow> Some (snd (NLSTK_DevdStopAllScan e s))
      | RunTask \<Rightarrow> (case scan_tasks s of [] \<Rightarrow> Some s | t # ts \<Rightarrow> run_task no_ext e t (s\<lparr>scan_tasks := ts\<rparr>))
      | Answer status \<Rightarrow>
          (case scan_cmds s of
             [] \<Rightarrow> Some s
           | CmdSetScanParam p # cs \<Rightarrow> DevdSleSetScanParamCbk no_ext e status (s\<lparr>scan_cmds := cs\<rparr>)
           | CmdEnableScan b # cs \<Rightarrow> DevdSleEnableScanCbk no_ext e status (s\<lparr>scan_cmds := cs\<rparr>))
      | TimeoutOfStart \<Rightarrow> InternalTimeout no_ext e s
      | TimeoutOfDuration \<Rightarrow> DurationTimeout no_ext e s
      | Report d \<Rightarrow> DevdSleScanReportCbk e (Some (Some d, length d)) s)"

text \<open>
  Every event has an environment of its own. Allocations, timers, posts and commands may fail in it; the clock is not set
  back between two reads, and only a report needs memory; its bytes are arbitrary. The caller's filters are as long as they say.
\<close>

fun event_wf :: "'r env \<times> scan_event \<Rightarrow> bool" where
  "event_wf (e, StartScan i st fs n) = (clock_ok e \<and> (n = 0 \<or> (\<forall>l. fs = Some l \<longrightarrow> n \<le> length l \<and> list_all filter_wf (take n l))))"
| "event_wf (e, Report d) = alloc_ok e"
| "event_wf (e, ev) = clock_ok e"

fun run_scan :: "('r env \<times> scan_event) list \<Rightarrow> scan \<Rightarrow> scan option" where
  "run_scan [] s = Some s"
| "run_scan ((e, ev) # evs) s = do { s1 \<leftarrow> scan_step e ev s; run_scan evs s1 }"

section \<open>Every event keeps the invariant\<close>

lemma first_unused_less: "first_unused ms = Some i \<Longrightarrow> i < length ms"
  by (induction ms arbitrary: i) (auto split: if_splits)

lemma new_scanner_ok:
  assumes "find (\<lambda>i. SDF_VectorFindFirst (CompScannerId i) v = None) [1..<Suc 1024] = Some i" "m < 5"
  shows "scanner_ok (new_scanner i m)" "i \<notin> scannerId ` set (v_elems v)"
  using assms by (auto simp: find_Some_iff scanner_ok_def new_scanner_def find_first_None CompScannerId_def nth_append simp del: upt_Suc)

context scan_kept
begin

lemma create_module_ok: "Inv s \<Longrightarrow> Inv (snd (DevdCreateScanModule b c s))"
  using first_unused_less [of "scanModule s"] kept_facts [of s] modules_kept by (auto simp: DevdCreateScanModule_def split: option.splits)

lemma dereg_module_ok:
  assumes "Inv s" "calm e"
  shows "\<exists>s'. DevdDeregScanModule no_ext e m s = Some s' \<and> Inv s' \<and> R s'"
proof -
  have "Inv ((s\<lparr>scanModule := ms\<rparr>)\<lparr>scanners := remove_scanners m (scanners s)\<rparr>)" if "length ms = 5" for ms
    using scanners_kept [OF modules_kept [OF assms(1) that] remove_scanners_ok] kept_facts [OF assms(1)] by simp
  then have i: "Inv (DevdRemoveScanModule m s)" using assms(1) kept_facts [OF assms(1)] by (auto simp: DevdRemoveScanModule_def)
  then show ?thesis using message_kept [OF i assms(2)] kept_facts [OF i] by (auto simp: DevdDeregScanModule_def Let_def)
qed

lemma create_scanner_ok:
  assumes "Inv s"
  shows "Inv (snd (DevdCreateScanner no_ext e m s))"
proof -
  have *: "Inv (s\<lparr>scanners := v\<rparr>)"
    if "find (\<lambda>i. SDF_VectorFindFirst (CompScannerId i) (scanners s) = None) [1..<Suc 1024] = Some i" "m < 5"
      "SDF_VectorEmplaceBack (sub e 1) (scanners s) (new_scanner i m) = (ok, v)" for i ok v
  proof (rule scanners_kept [OF assms])
    have "v_elems v \<in> {v_elems (scanners s), v_elems (scanners s) @ [new_scanner i m]}" using emplace_back_set [of "sub e 1" "scanners s" "new_scanner i m"] that(3) by simp
    then show "scanners_ok v" using new_scanner_ok [OF that(1,2)] kept_facts [OF assms] by (auto simp: scanners_ok_def new_scanner_def)
  qed
  show ?thesis using assms * by (auto simp: DevdCreateScanner_def Let_def split: option.splits prod.splits simp del: upt_Suc)
qed

lemma remove_scanner_ok:
  assumes "Inv s" "calm e"
  shows "\<exists>s'. DevdRemoveScannerId no_ext e i s = Some s' \<and> Inv s' \<and> R s'"
proof -
  have i: "Inv (DevdDestroyScanner no_ext i s)"
  proof (cases "i = 0 \<or> SDF_VectorFindFirst (CompScannerId i) (scanners s) = None")
    case False
    then obtain k where k: "i \<noteq> 0" "SDF_VectorFindFirst (CompScannerId i) (scanners s) = Some k" by auto
    then have k1: "k < length (v_elems (scanners s))" using find_first_Some by blast
    let ?s = "DevdDeleteFilters no_ext k s"
    have "Inv ?s" using assms(1) scanner_upd_kept [OF assms(1) k1, of "\<lambda>sc. sc\<lparr>sc_filters := None\<rparr>"] kept_nth [OF assms(1) k1]
      by (auto simp: DevdDeleteFilters_def scanner_ok_def)
    then have "Inv (?s\<lparr>scanners := SDF_VectorRemove k (scanners ?s)\<rparr>)" using scanners_kept [of ?s] vector_remove_ok kept_facts [of ?s] by blast
    then show ?thesis using k kept_facts [OF assms(1)] by (auto simp: DevdDestroyScanner_def Let_def)
  qed (use assms in \<open>auto simp: DevdDestroyScanner_def\<close>)
  then show ?thesis using message_kept [OF i assms(2)] kept_facts [OF i] by (auto simp: DevdRemoveScannerId_def Let_def)
qed

text \<open>A start or stop runs the update last, unless the parameters are refused.\<close>

lemma start_task_ok:
  assumes "Inv s" "calm e" "\<forall>v. fs = Some v \<longrightarrow> list_all filter_wf (v_elems v)"
  shows "\<exists>r s1 s'. DevdAddScanParam no_ext (sub e 0) i st fs s = Some (r, s1) \<and> DevdStartScan no_ext e i st fs s = Some s' \<and> Inv s' \<and> (if r = NLSTK_ERRCODE_SUCCESS then R s' else s' = s1)"
proof -
  obtain r s1 where s1: "DevdAddScanParam no_ext (sub e 0) i st fs s = Some (r, s1)" "Inv s1" using add_param_ok [OF assms(1) calm_sub [OF assms(2)] assms(3)] by blast
  then show ?thesis using message_kept [OF s1(2) calm_sub [OF assms(2), of 1]] kept_facts [OF s1(2)] by (auto simp: DevdStartScan_def)
qed

lemma stop_task_ok:
  assumes "Inv s" "calm e"
  shows "\<exists>s'. DevdStopScan no_ext e i s = Some s' \<and> Inv s' \<and> (s' = s \<or> R s')"
proof -
  obtain r s1 where s1: "DevdRemoveScanParam no_ext (sub e 0) i s = Some (r, s1)" "Inv s1" using remove_param_ok [OF assms(1) calm_sub [OF assms(2)]] by blast
  moreover have "r \<noteq> NLSTK_ERRCODE_SUCCESS \<Longrightarrow> s1 = s" using s1(1) by (auto simp: DevdRemoveScanParam_def split: if_splits option.splits bind_splits)
  ultimately show ?thesis using message_kept [OF s1(2) calm_sub [OF assms(2), of 1]] kept_facts [OF s1(2)] by (auto simp: DevdStopScan_def)
qed

lemma stop_all_task_ok:
  assumes "Inv s" "calm e" and events: "\<And>t v. Inv t \<Longrightarrow> Inv (t\<lparr>scan_events := v\<rparr>)"
  shows "\<exists>s'. DevdStopAllScan no_ext e s = Some s' \<and> Inv s' \<and> R s'"
proof -
  obtain s1 where s1: "DevdRemoveAllScanParam no_ext (sub e 0) s = Some s1" "Inv s1" using remove_all_ok [OF assms(1) calm_sub [OF assms(2)]] by blast
  let ?s = "if stm_current s1 = Some DEVD_STATE_STOPPED then notify_modules NLSTK_ERRCODE_SUCCESS False s1 else s1"
  have "Inv ?s" using s1(2) events by (simp add: notify_modules_def)
  then show ?thesis using s1 message_kept [OF _ calm_sub [OF assms(2), of 1], of ?s] kept_facts [OF s1(2)] by (auto simp: DevdStopAllScan_def)
qed

lemma duration_timeout_ok:
  assumes "Inv s" "calm e"
  shows "\<exists>s'. DurationTimeout no_ext e s = Some s' \<and> Inv s' \<and> (R s \<longrightarrow> R s')"
proof -
  obtain s1 where s1: "ClearExpiredParam no_ext (sub e 0) s = Some s1" "Inv s1" "R s \<longrightarrow> R s1" using clear_step [OF assms(1) calm_sub [OF assms(2)]] by blast
  then show ?thesis using expire_timer_ok [OF s1(2) calm_sub [OF assms(2), of 1], of True] kept_facts [OF assms(1)] by (auto simp: DurationTimeout_def)
qed

end

lemma post_inv: "scan_inv s \<Longrightarrow> task_ok t \<Longrightarrow> SchedulePostTask e t s = (ok, s') \<Longrightarrow> scan_inv s'"
  using post_step [of t e s ok s'] machine_step_inv scan_inv_def by metis

lemma convert_wf:
  assumes "n = 0 \<or> n \<le> length l \<and> list_all filter_wf (take n l)"
  shows "\<exists>c. DevdConvertFiltersToVector e l n = Some c \<and> (\<forall>w. c = Some w \<longrightarrow> list_all filter_wf (v_elems w))"
proof (cases "SDF_CreateVector (sub e 0) :: NLSTK_DevdScanFilter SDF_Vector option")
  case None
  then show ?thesis by (simp add: DevdConvertFiltersToVector_def)
next
  case (Some v)
  then have v: "v_elems v = []" by (auto simp: SDF_CreateVector_def split: option.splits)
  show ?thesis
  proof (cases "n = 0")
    case True
    have "filter_wf no_filter" by (simp add: filter_wf_def no_filter_def vd_whole_def vd_ok_def vd_legal_def Let_def)
    then show ?thesis using True Some v emplace_back_set [of "sub e 2" v no_filter] by (auto simp: DevdConvertFiltersToVector_def split: option.splits prod.splits)
  next
    case False
    then show ?thesis using assms Some v copy_loop_copies [of "take n l" "sub e 1" 0 v] by (auto simp: DevdConvertFiltersToVector_def)
  qed
qed

lemma start_request_ok:
  assumes "scan_inv s" "event_wf (e, StartScan i st fs n)"
  shows "\<exists>r s'. NLSTK_DevdStartScan e i st fs n s = Some (r, s') \<and> scan_inv s'"
proof (cases "i = 0 \<or> CheckFiltersLegal fs n = Some False \<or> SDF_MemZalloc (sub e 0) = None")
  case True
  then show ?thesis using assms by (auto simp: NLSTK_DevdStartScan_def CheckFiltersLegal_def split: option.splits)
next
  case False
  then have l: "CheckFiltersLegal fs n = Some True" and n: "n = 0 \<or> (\<exists>l. fs = Some l \<and> n \<le> length l \<and> list_all filter_wf (take n l))"
    using assms(2) by (auto simp: CheckFiltersLegal_def split: option.splits if_splits)
  obtain c where c: "DevdConvertFiltersToVector (sub e 1) (case fs of None \<Rightarrow> [] | Some l \<Rightarrow> l) n = Some c" "\<forall>w. c = Some w \<longrightarrow> list_all filter_wf (v_elems w)"
    using convert_wf [of n "case fs of None \<Rightarrow> [] | Some l \<Rightarrow> l" "sub e 1"] n by fastforce
  show ?thesis using False l c post_inv [OF assms(1), of "TaskStartScan i st c" "sub e 2"] by (auto simp: NLSTK_DevdStartScan_def split: option.splits prod.splits)
qed

lemma hand_inv [simp]: "scan_inv (hand_cmd e c s) = scan_inv s"
  by (simp add: hand_cmd_def)

lemma set_param_ok: "scan_inv s \<Longrightarrow> task_ok (TaskSetScanParam p) \<Longrightarrow> \<exists>s'. DevdSleSetScanParam e p s = Some s' \<and> scan_inv s'"
  by (auto simp: DevdSleSetScanParam_def SleSetScanParamToDLI_def copy_params_def Let_def split: option.splits)

lemma enable_inv [simp]: "scan_inv (DevdSleEnableScan e b s) = scan_inv s"
  by (simp add: DevdSleEnableScan_def SleUpdateEnableScan_def)

lemma run_task_ok:
  assumes "scan_inv s" "task_ok t" "clock_ok e"
  shows "\<exists>s'. run_task no_ext e t s = Some s' \<and> scan_inv s'"
proof (cases t)
  case (TaskSetScanParam p)
  then show ?thesis using set_param_ok [of s p e] assms by (simp add: run_task_def)
next
  case (TaskStartScan i st fs)
  then show ?thesis using safe.start_task_ok [OF assms(1,3), of fs i st] assms(2) by (auto simp: run_task_def)
next
  case (TaskStopScan i)
  then show ?thesis using safe.stop_task_ok [OF assms(1,3), of i] by (simp add: run_task_def)
next
  case TaskStopAllScan
  then show ?thesis using safe.stop_all_task_ok [OF assms(1,3)] by (simp add: run_task_def)
qed (use assms in \<open>auto simp: run_task_def DevdRegScanEventCbk_def\<close>)

lemma scan_cbk_ok: "scan_inv s \<Longrightarrow> \<exists>s'. ScanCbk no_ext e msg r s = Some s' \<and> scan_inv s'"
  using message_some [of s e] by (auto simp: ScanCbk_def split: scan_msg.splits)

lemma param_answer_ok:
  assumes "scan_inv s"
  shows "\<exists>s'. DevdSleSetScanParamCbk no_ext e st s = Some s' \<and> scan_inv s'"
proof -
  have "scan_inv (s\<lparr>tmpScanParams := None\<rparr>)" using assms by simp
  from scan_cbk_ok [OF this, of e DEVD_CBK_EVENT_ENABLE_SCAN st] show ?thesis using assms
    by (auto simp: DevdSleSetScanParamCbk_def Let_def)
qed

lemma enable_answer_ok:
  assumes "scan_inv s"
  shows "\<exists>s'. DevdSleEnableScanCbk no_ext e st s = Some s' \<and> scan_inv s'"
proof -
  let ?m = "if st = 0 \<and> sm_status s = DEVD_SLE_STATUS_SET_SCAN_DISABLE2ENABLE then DEVD_CBK_EVENT_ENABLE_SCAN else DEVD_CBK_EVENT_DISABLE_SCAN"
  obtain s' where "ScanCbk no_ext e ?m (st mod 256) s = Some s'" "scan_inv s'" using scan_cbk_ok [OF assms] by blast
  then show ?thesis using assms by (simp add: DevdSleEnableScanCbk_def Let_def)
qed

lemma match_total:
  assumes "alloc_ok e" "report_result_ok True r" "scanner_ok sc"
  shows "\<exists>b. DevdIsMatchFilters (sub e k) r (sc_filters sc) = Some b"
  using assms filters_loop_eq [of "sub e k" r] by (auto simp: DevdIsMatchFilters_def scanner_ok_def report_result_ok_def split: option.splits)

lemma report_loop_total:
  assumes "alloc_ok e" "report_result_ok True r"
  shows "list_all scanner_ok scs \<Longrightarrow> \<exists>o'. report_loop e k r scs vs = Some o'"
proof (induction scs arbitrary: k vs)
  case (Cons sc scs)
  obtain b where "DevdIsMatchFilters (sub (sub e k) 0) r (sc_filters sc) = Some b" using match_total [of "sub e k" r sc 0] assms Cons.prems by auto
  then show ?case using Cons.IH Cons.prems by (auto split: prod.splits)
qed simp

lemma report_event_ok:
  assumes "scan_inv s" "alloc_ok e" "report_wf rp"
  shows "\<exists>s'. ReportCbk e rp s = Some s' \<and> scan_inv s'"
proof -
  obtain r cs where r: "DevdAdvDataReport (sub e 0) rp (g_advDataCacheList s) = Some (r, cs)" "advs_ok cs" "\<forall>x. r = Some x \<longrightarrow> report_result_ok True x"
    using report_safe [of True "sub e 0" "g_advDataCacheList s" rp] assms by (auto simp: scan_inv_def report_wf_def)
  have i: "scan_inv (s\<lparr>g_advDataCacheList := cs\<rparr>)" using assms(1) r(2) by (simp add: scan_inv_def)
  show ?thesis
  proof (cases r)
    case None
    then show ?thesis using r i by (simp add: ReportCbk_def)
  next
    case (Some x)
    have "list_all scanner_ok (v_elems (scanners s))" using scan_invD [OF assms(1)] by (simp add: scanners_ok_def)
    then obtain o' where "report_loop (sub e 1) 0 x (v_elems (scanners s)) (replicate 5 None) = Some o'"
      using report_loop_total [of "sub e 1" x "v_elems (scanners s)" 0] r(3) Some assms(2) by fastforce
    then show ?thesis using r(1) Some i scan_invD [OF assms(1)] by (auto simp: ReportCbk_def Let_def split: option.splits)
  qed
qed

lemma adv_report_ok:
  assumes "22 + n \<le> length p" "rd8 p 21 = Some len" "unat len = n"
  shows "\<exists>rp. adv_report p n = Some rp \<and> report_wf rp"
proof -
  have "p \<noteq> []" using assms(1) by auto
  then show ?thesis using assms by (auto simp: adv_report_def rd_safe report_wf_def)
qed

lemma scan_report_ok:
  assumes "scan_inv s" "alloc_ok e"
  shows "\<exists>s'. DevdSleScanReportCbk e (Some (Some d, length d)) s = Some s' \<and> scan_inv s'"
proof (cases "22 \<le> length d \<and> unat (d ! 21) = length d - 22")
  case True
  then obtain rp where rp: "adv_report d (unat (d ! 21)) = Some rp" "report_wf rp" using adv_report_ok [of "unat (d ! 21)" d "d ! 21"] by (auto simp: rd_safe)
  then show ?thesis using True report_event_ok [OF assms(1), of "sub e 1" rp] assms
    by (auto simp: DevdSleScanReportCbk_def DevdSleScanReportCbkCheck_def rd_safe split: option.splits)
qed (use assms in \<open>auto simp: DevdSleScanReportCbk_def DevdSleScanReportCbkCheck_def rd_safe\<close>)

lemma step_ok:
  assumes "scan_inv s" "event_wf (e, ev)"
  shows "\<exists>s'. scan_step e ev s = Some s' \<and> scan_inv s'"
proof (cases ev)
  case RunTask
  have "scan_inv (s\<lparr>scan_tasks := ts\<rparr>)" "task_ok t" if "scan_tasks s = t # ts" for t ts using assms(1) that by (simp_all add: scan_inv_def)
  then show ?thesis using RunTask assms run_task_ok by (cases "scan_tasks s") (auto simp: scan_step_def)
next
  case (Answer st)
  have "\<exists>s'. DevdSleSetScanParamCbk no_ext e st (s\<lparr>scan_cmds := cs\<rparr>) = Some s' \<and> scan_inv s'"
    "\<exists>s'. DevdSleEnableScanCbk no_ext e st (s\<lparr>scan_cmds := cs\<rparr>) = Some s' \<and> scan_inv s'" for cs
    using assms(1) by (simp_all add: param_answer_ok enable_answer_ok)
  then show ?thesis using Answer assms(1) by (auto simp: scan_step_def split: list.splits scan_cmd.splits)
next
  case (StartScan i st fs n)
  then show ?thesis using start_request_ok [of s e i st fs n] assms by (auto simp: scan_step_def)
next
  case (StopScan i)
  then show ?thesis using assms(1) post_inv [OF assms(1), of "TaskStopScan i" "sub e 1"] by (auto simp: scan_step_def NLSTK_DevdStopScan_def split: option.splits prod.splits)
next
  case StopAllScan
  then show ?thesis using post_inv [OF assms(1), of TaskStopAllScan e] by (auto simp: scan_step_def NLSTK_DevdStopAllScan_def split: prod.splits)
next
  case TimeoutOfDuration
  then show ?thesis using safe.duration_timeout_ok [of s e] assms by (auto simp: scan_step_def)
qed (use assms safe.create_module_ok safe.dereg_module_ok safe.create_scanner_ok safe.remove_scanner_ok message_some scan_report_ok in \<open>auto simp: scan_step_def InternalTimeout_def\<close>)

lemma scan_run_ok: "scan_inv s \<Longrightarrow> list_all event_wf evs \<Longrightarrow> \<exists>s'. run_scan evs s = Some s' \<and> scan_inv s'"
proof (induction evs arbitrary: s)
  case (Cons x evs)
  then show ?case using step_ok [of s "fst x" "snd x"] by (cases x) auto
qed simp

lemma init_ok:
  assumes "DevdScanInit no_ext e s0 = (NLSTK_ERRCODE_SUCCESS, s)" "scan_tasks s0 = []"
  shows "scan_inv s"
proof -
  let ?s0 = "s0\<lparr>g_advDataCacheList := DevdDataCacheInit\<rparr>"
  define t where "t = (if g_scanStm ?s0 then DevdStateMachineDtor no_ext ?s0 else ?s0)"
  have t: "scan_tasks t = []" "g_advDataCacheList t = DevdDataCacheInit" using assms(2) by (simp_all add: t_def DevdStateMachineDtor_def)
  obtain s1 where s1: "DevdStateMachineCtor no_ext (sub e 0) t = Some s1"
    "NLSTK_DevdRegScanEventCbk (sub e 1) True (s1\<lparr>g_scanStm := True\<rparr>) = (NLSTK_ERRCODE_SUCCESS, s)"
    using assms(1) unfolding t_def by (auto simp: DevdScanInit_def DevdScanManagerInit_def Let_def split: option.splits prod.splits if_splits)
  have "scan_inv (s1\<lparr>g_scanStm := True\<rparr>)"
    using s1(1) t by (auto simp: DevdStateMachineCtor_def DevdScanManagerCtor_def SDF_CreateVector_def DevdDataCacheInit_def to_defs scan_inv_def scanners_ok_def advs_ok_def
        stm_ok_def Let_def split: option.splits if_splits)
  then show ?thesis using s1(2) post_inv [of "s1\<lparr>g_scanStm := True\<rparr>" "TaskRegScanEventCbk True"] by (auto simp: NLSTK_DevdRegScanEventCbk_def split: option.splits prod.splits if_splits)
qed

text \<open>
  Scanning is always under control (C8). After a successful start of the module every sequence of events is handled:
  requests of the modules, tasks, answers of the controller with any status, timers firing at any time and reports of any bytes, with
  allocations, timers, posts and commands failing anywhere except during reports, as long as the clock of the system is not
  set back between two reads within one step. Nothing is read outside the data, no
  product of window and interval overflows, the update of the expiry timer ends, and the invariant holds: numbers of
  scanners are unique and between 1 and 1024, every setting is one of the scan modes or does not listen, and the state of
  the machine agrees with the settings and the timer.
\<close>

theorem scan_never_stuck:
  assumes "DevdScanInit no_ext e s0 = (NLSTK_ERRCODE_SUCCESS, s)" "scan_tasks s0 = []" "list_all event_wf evs"
  shows "\<exists>s'. run_scan evs s = Some s' \<and> scan_inv s'"
  using scan_run_ok [OF init_ok [OF assms(1,2)] assms(3)] .

definition scan0 :: scan where
  "scan0 = \<lparr>g_scanStm = False, stm_current = None, scanners = \<lparr>v_elems = [], v_capacity = 0\<rparr>, scanModule = [], currentScanSetting = zero_setting,
     inflightScanSetting = zero_setting, currentFrame4ScanSetting = zero_setting, inflightFrame4ScanSetting = zero_setting, internalTimer = 0, durationTimer = 0, scanCbk = False,
     sm_status = DEVD_SLE_STATUS_IDLE, scanParams = None, tmpScanParams = None, g_advDataCacheList = [], scan_tasks = [], scan_cmds = [], scan_events = [], scan_reports = []\<rparr>"

definition demo_setting :: "int \<Rightarrow> int \<Rightarrow> NLSTK_DevdScanSetting" where
  "demo_setting m d = \<lparr>reportDelayMillis = 0, ss_duration = d, scanMode = m, ss_legacy = False, ss_phy = 0, ss_frameType = 1\<rparr>"

definition demo_events :: "(bool env \<times> scan_event) list" where
  "demo_events = map (Pair (granting_env True)) [RunTask, RegModule True True, CreateScanner 0, StartScan 1 (demo_setting 1 5) None 0, RunTask, RunTask, Answer 0, Answer 0,
     Report (replicate 21 0 @ [2, 0xFF, 9]), StopScan 1, RunTask, RunTask, Answer 0]"

definition demo_start :: scan where
  "demo_start = snd (DevdScanInit no_ext (granting_env True) scan0)"

lemma demo_start_ok: "DevdScanInit no_ext (granting_env True) scan0 = (NLSTK_ERRCODE_SUCCESS, demo_start)"
proof -
  have "fst (DevdScanInit no_ext (granting_env True) scan0) = NLSTK_ERRCODE_SUCCESS"
    by (simp add: DevdScanInit_def DevdScanManagerInit_def DevdStateMachineCtor_def DevdScanManagerCtor_def StateCtor_def SDF_CreateVector_def NLSTK_DevdRegScanEventCbk_def
        SchedulePostTask_def SDF_MemZalloc_def call_dli_def sub_def granting_env_def Let_def)
  then show ?thesis by (simp add: demo_start_def prod_eq_iff)
qed

lemma clock_granting [simp]: "clock_ok (granting_env r)"
  by (simp add: clock_ok_def granting_env_def)

theorem scan_never_stuck_witness: "\<exists>s'. run_scan demo_events demo_start = Some s' \<and> scan_inv s'"
  by (rule scan_never_stuck [OF demo_start_ok]) (simp_all add: scan0_def demo_events_def)

end
