(* ===== verification/Devd_Scan_Live.thy ===== *)
theory Devd_Scan_Live
  imports Devd_Scan_Events
begin

text \<open>
  The scan control reaches what the scanners ask for. In runs without faults the machine, the tasks, the commands and the
  status of the command in flight are always in one of seven combinations; when the tasks are run and the commands
  answered, every such state comes to rest with the controller set to the best parameters, or not scanning when no scanner
  listens.
\<close>

section \<open>Phases\<close>

definition calm_env :: "'r env \<Rightarrow> bool" where
  "calm_env e \<longleftrightarrow> alloc_ok e \<and> clock_ok e \<and> (\<forall>p. env_dli e p)"

lemma calm_env_sub [simp]: "calm_env (sub e k) = calm_env e"
  by (simp add: calm_env_def clock_ok_sub [unfolded clock_ok_def] sub_def clock_ok_def alloc_ok_def)

lemma calm_envD: "calm_env e \<Longrightarrow> alloc_ok e \<and> clock_ok e \<and> call_dli e \<and> (\<exists>a. SDF_MemZalloc e = Some a)"
  using alloc_okD [of e] by (auto simp: calm_env_def call_dli_def)

fun is_ctl :: "scan_task \<Rightarrow> bool" where
  "is_ctl (TaskSetScanParam p) = True"
| "is_ctl (TaskEnableScan b) = True"
| "is_ctl _ = False"

definition ctl :: "scan \<Rightarrow> scan_task list" where
  "ctl s = filter is_ctl (scan_tasks s)"

definition users :: "scan \<Rightarrow> scan_task list" where
  "users s = filter (\<lambda>t. \<not> is_ctl t) (scan_tasks s)"

text \<open>The parameters of the controller for two settings.\<close>

definition params_of :: "NLSTK_DevdScanSettingInner \<Rightarrow> NLSTK_DevdScanSettingInner \<Rightarrow> NLSTK_DevdSleScanParams" where
  "params_of i j = \<lparr>localAddrType = 0, scanFilterPolicy = 0,
     sp_frameType = (if si_window i \<noteq> 0 \<and> si_window j \<noteq> 0 then 3 else if si_window i \<noteq> 0 then 1 else if si_window j \<noteq> 0 then 2 else 0),
     sp_params = one_param 1 i @ one_param 0 j\<rparr>"

fun phase_of :: "NLSTK_DevdScanState option \<Rightarrow> scan \<Rightarrow> bool" where
  "phase_of (Some DEVD_STATE_STOPPED) s = (ctl s = [] \<and> scan_cmds s = [] \<and> sm_status s = DEVD_SLE_STATUS_IDLE)"
| "phase_of (Some DEVD_STATE_STARTING) s =
     (let p = params_of (inflightScanSetting s) (inflightFrame4ScanSetting s) in
      ctl s = [TaskSetScanParam p] \<and> scan_cmds s = [] \<and> sm_status s = DEVD_SLE_STATUS_IDLE \<or>
      ctl s = [] \<and> scan_cmds s = [CmdSetScanParam p] \<and> sm_status s = DEVD_SLE_STATUS_SET_SCAN_PARAMS \<and> tmpScanParams s = Some p \<or>
      ctl s = [] \<and> scan_cmds s = [CmdEnableScan True] \<and> sm_status s = DEVD_SLE_STATUS_SET_SCAN_DISABLE2ENABLE \<and> scanParams s = Some p)"
| "phase_of (Some DEVD_STATE_STARTED) s =
     (ctl s = [] \<and> scan_cmds s = [] \<and> sm_status s = DEVD_SLE_STATUS_IDLE \<and> scanParams s = Some (params_of (currentScanSetting s) (currentFrame4ScanSetting s)))"
| "phase_of (Some DEVD_STATE_STOPPING) s =
     (ctl s = [TaskEnableScan False] \<and> scan_cmds s = [] \<and> sm_status s = DEVD_SLE_STATUS_IDLE \<or>
      ctl s = [] \<and> scan_cmds s = [CmdEnableScan False] \<and> sm_status s = DEVD_SLE_STATUS_SET_SCAN_ENABLE2DISABLE)"
| "phase_of _ s = False"

text \<open>The callback of the state machine is registered before the first command.\<close>

definition reg_ok :: "scan \<Rightarrow> bool" where
  "reg_ok s \<longleftrightarrow> TaskRegScanEventCbk False \<notin> set (scan_tasks s) \<and> (scanCbk s \<or> (\<exists>ts. scan_tasks s = TaskRegScanEventCbk True # ts \<and> scan_cmds s = []))"

definition live :: "scan \<Rightarrow> bool" where
  "live s \<longleftrightarrow> scan_inv s \<and> phase_of (stm_current s) s \<and> reg_ok s"

text \<open>Nothing is left to do in a state that does not wait for the controller.\<close>

definition at_rest :: "scan \<Rightarrow> bool" where
  "at_rest s \<longleftrightarrow> (\<exists>a b. FetchFrame1TargetScanSettings (scanners s) = Some a \<and> FetchFrame4TargetScanSettings (scanners s) = Some b \<and>
     (stm_current s = Some DEVD_STATE_STOPPED \<longrightarrow> no_window a \<and> no_window b) \<and>
     (stm_current s = Some DEVD_STATE_STARTED \<longrightarrow>
        (\<exists>i j. a = Some i \<and> b = Some j \<and> ScanSettingsEqual i (currentScanSetting s) \<and> ScanSettingsEqual j (currentFrame4ScanSetting s))))"

text \<open>The start under way is for the settings wanted now.\<close>

definition fresh :: "scan \<Rightarrow> bool" where
  "fresh s \<longleftrightarrow> (\<exists>i j. FetchFrame1TargetScanSettings (scanners s) = Some (Some i) \<and> FetchFrame4TargetScanSettings (scanners s) = Some (Some j) \<and>
     ScanSettingsEqual i (inflightScanSetting s) \<and> ScanSettingsEqual j (inflightFrame4ScanSetting s))"

section \<open>The controller\<close>

text \<open>
  What the controller on the other side of the commands does: it has been set to parameters, and it scans or does not. A
  command it answers with success has been obeyed.
\<close>

record controller =
  ctl_scanning :: bool
  ctl_params :: "NLSTK_DevdSleScanParams option"

fun obey :: "scan_cmd \<Rightarrow> controller \<Rightarrow> controller" where
  "obey (CmdSetScanParam p) k = k\<lparr>ctl_params := Some p\<rparr>"
| "obey (CmdEnableScan b) k = k\<lparr>ctl_scanning := b\<rparr>"

definition joint_step :: "'r env \<Rightarrow> scan_event \<Rightarrow> scan \<times> controller \<Rightarrow> (scan \<times> controller) option" where
  "joint_step e ev = (\<lambda>(s, k). do {
     s' \<leftarrow> scan_step e ev s;
     Some (s', case ev of Answer st \<Rightarrow> (case scan_cmds s of c # cs \<Rightarrow> if st = 0 then obey c k else k | [] \<Rightarrow> k) | _ \<Rightarrow> k)
   })"

fun joint_run :: "('r env \<times> scan_event) list \<Rightarrow> scan \<times> controller \<Rightarrow> (scan \<times> controller) option" where
  "joint_run [] x = Some x"
| "joint_run ((e, ev) # evs) x = do { x1 \<leftarrow> joint_step e ev x; joint_run evs x1 }"

text \<open>
  What the host takes the controller to do: it scans while the machine is started or stopping, with the recorded
  parameters once the machine is started or about to start it.
\<close>

definition believes_on :: "scan \<Rightarrow> bool" where
  "believes_on s \<longleftrightarrow> stm_current s = Some DEVD_STATE_STARTED \<or> stm_current s = Some DEVD_STATE_STOPPING"

definition believes_params :: "scan \<Rightarrow> bool" where
  "believes_params s \<longleftrightarrow> stm_current s = Some DEVD_STATE_STARTED \<or> scan_cmds s = [CmdEnableScan True]"

definition agrees :: "controller \<Rightarrow> scan \<Rightarrow> bool" where
  "agrees k s \<longleftrightarrow> (ctl_scanning k \<longleftrightarrow> believes_on s) \<and> (believes_params s \<longrightarrow> ctl_params k = scanParams s)"

lemma agrees_cong:
  "stm_current s' = stm_current s \<Longrightarrow> scan_cmds s' = scan_cmds s \<Longrightarrow> scanParams s' = scanParams s \<Longrightarrow> agrees k s' = agrees k s"
  by (simp add: agrees_def believes_on_def believes_params_def)

lemma agrees_upd [simp]:
  "agrees k (s\<lparr>scanners := v\<rparr>) = agrees k s" "agrees k (s\<lparr>durationTimer := d\<rparr>) = agrees k s" "agrees k (s\<lparr>scanModule := ms\<rparr>) = agrees k s"
  "agrees k (s\<lparr>scan_events := es\<rparr>) = agrees k s" "agrees k (s\<lparr>g_advDataCacheList := cs\<rparr>) = agrees k s" "agrees k (s\<lparr>scan_reports := rs\<rparr>) = agrees k s"
  "agrees k (s\<lparr>scan_tasks := ts\<rparr>) = agrees k s" "agrees k (s\<lparr>scanCbk := b\<rparr>) = agrees k s"
  by (rule agrees_cong; simp)+

section \<open>Messages without faults\<close>

text \<open>What a message of the machine changes: settings, timer and events, and it may post one task.\<close>

definition posts :: "scan_task list \<Rightarrow> scan \<Rightarrow> scan \<Rightarrow> bool" where
  "posts ts s s' \<longleftrightarrow> scan_tasks s' = scan_tasks s @ ts \<and> scan_cmds s' = scan_cmds s \<and> sm_status s' = sm_status s \<and> scanParams s' = scanParams s \<and>
     tmpScanParams s' = tmpScanParams s \<and> scanCbk s' = scanCbk s \<and> scanners s' = scanners s"

lemma posts_ctl: "posts ts s s' \<Longrightarrow> ctl s' = ctl s @ filter is_ctl ts"
  by (simp add: posts_def ctl_def)

lemma posts_users: "posts ts s s' \<Longrightarrow> list_all is_ctl ts \<Longrightarrow> users s' = users s"
  by (auto simp: posts_def users_def list_all_iff)

lemma build_params: "calm_env e \<Longrightarrow> BuildScanParams e s = Some (params_of (inflightScanSetting s) (inflightFrame4ScanSetting s))"
  using calm_envD [of e] by (auto simp: BuildScanParams_def params_of_def Let_def)

lemma start_scan_calm:
  assumes "calm_env e" "listens i j"
  shows "NLSTK_DevdSleStartScan e (params_of i j) s = Some (NLSTK_ERRCODE_SUCCESS, s\<lparr>scan_tasks := scan_tasks s @ [TaskSetScanParam (params_of i j)]\<rparr>)"
proof -
  have "calm_env (sub e 0)" "calm_env (sub e 1)" using assms(1) by simp_all
  then obtain a where a: "SDF_MemZalloc (sub e 0) = Some a" "call_dli (sub e 1)" using calm_envD by blast
  have "BuildScanParams (granting_env True) (undefined\<lparr>inflightScanSetting := i, inflightFrame4ScanSetting := j\<rparr>) = Some (params_of i j)"
    by (simp add: BuildScanParams_def params_of_def Let_def SDF_MemZalloc_def granting_env_def)
  then have c: "copy_params (params_of i j) = Some (params_of i j)" using build_params_ok by blast
  have w: "4 \<le> si_window k \<and> 4 \<le> si_interval k" if "mode_ok k" "si_window k \<noteq> 0" for k using that by (auto simp: mode_ok_def idle_def)
  have "\<not> list_ex (\<lambda>x. scanType x > 1 \<or> scanInterval x < 4 \<or> scanWindow x < 4) (sp_params (params_of i j))"
    using assms(2) w [of i] w [of j] by (auto simp: params_of_def one_param_def listens_def)
  moreover have "\<not> (localAddrType (params_of i j) \<ge> 7 \<or> scanFilterPolicy (params_of i j) > 3 \<or> sp_frameType (params_of i j) > 3)" by (simp add: params_of_def)
  ultimately show ?thesis using a c by (simp add: NLSTK_DevdSleStartScan_def SchedulePostTask_def)
qed

lemma enable_calm: "calm_env e \<Longrightarrow> NLSTK_DevdSleEnableScan e b s = (NLSTK_ERRCODE_SUCCESS, s\<lparr>scan_tasks := scan_tasks s @ [TaskEnableScan b]\<rparr>)"
  using calm_envD [of "sub e 0"] calm_envD [of "sub e 1"] by (auto simp: NLSTK_DevdSleEnableScan_def SchedulePostTask_def)

lemma timer_posts: "posts [] s (snd (StartScanTimer e s))" "stm_current (snd (StartScanTimer e s)) = stm_current s"
  "inflightScanSetting (snd (StartScanTimer e s)) = inflightScanSetting s" "inflightFrame4ScanSetting (snd (StartScanTimer e s)) = inflightFrame4ScanSetting s"
  by (simp_all add: StartScanTimer_def posts_def split: option.splits)

lemma to_starting_calm:
  assumes "calm_env e" "stm_current s = Some DEVD_STATE_STOPPED" "listens (inflightScanSetting s) (inflightFrame4ScanSetting s)"
  shows "\<exists>s'. to_starting no_ext e s = Some s' \<and> posts [TaskSetScanParam (params_of (inflightScanSetting s) (inflightFrame4ScanSetting s))] s s' \<and>
    stm_current s' = Some DEVD_STATE_STARTING \<and> inflightScanSetting s' = inflightScanSetting s \<and> inflightFrame4ScanSetting s' = inflightFrame4ScanSetting s"
proof -
  let ?s0 = "goto no_ext DEVD_STATE_STARTING s"
  let ?s1 = "snd (StartScanTimer (sub e 0) ?s0)"
  let ?p = "params_of (inflightScanSetting s) (inflightFrame4ScanSetting s)"
  have 0: "posts [] s ?s0" "inflightScanSetting ?s0 = inflightScanSetting s" "inflightFrame4ScanSetting ?s0 = inflightFrame4ScanSetting s" "stm_current ?s0 = Some DEVD_STATE_STARTING"
    using assms(2) by (simp_all add: goto_def state_exit_eq posts_def)
  have 1: "posts [] s ?s1" "inflightScanSetting ?s1 = inflightScanSetting s" "inflightFrame4ScanSetting ?s1 = inflightFrame4ScanSetting s" "stm_current ?s1 = Some DEVD_STATE_STARTING"
    using 0 timer_posts [where s = ?s0 and e = "sub e 0"] by (simp_all add: posts_def)
  have "to_starting no_ext e s = Some (?s1\<lparr>scan_tasks := scan_tasks ?s1 @ [TaskSetScanParam ?p]\<rparr>)"
    using build_params [of "sub e 1" ?s1] start_scan_calm [OF _ assms(3), of "sub e 2" ?s1] assms(1,3) 1
    by (auto simp: to_starting_def StartingEntry_def Let_def listens_def)
  then show ?thesis using 1 by (simp add: posts_def)
qed

lemma to_stopping_calm:
  assumes "calm_env e" "stm_current s = Some DEVD_STATE_STARTED"
  shows "posts [TaskEnableScan False] s (to_stopping no_ext e s) \<and> stm_current (to_stopping no_ext e s) = Some DEVD_STATE_STOPPING"
proof -
  let ?s0 = "goto no_ext DEVD_STATE_STOPPING s"
  let ?s1 = "snd (StartScanTimer (sub e 0) ?s0)"
  have "posts [] s ?s1" "stm_current ?s1 = Some DEVD_STATE_STOPPING"
    using assms(2) timer_posts [where s = ?s0 and e = "sub e 0"] by (simp_all add: goto_def state_exit_eq posts_def)
  moreover have "to_stopping no_ext e s = ?s1\<lparr>scan_tasks := scan_tasks ?s1 @ [TaskEnableScan False]\<rparr>"
    using enable_calm [of "sub e 1" False ?s1] assms(1) by (simp add: to_stopping_def StoppingEntry_def)
  ultimately show ?thesis by (simp add: posts_def)
qed

lemma same_wanted: "mode_ok i \<Longrightarrow> ScanSettingsEqual i (wanted (Some i))"
  by (auto simp: ScanSettingsEqual_def wanted_def mode_ok_def idle_def zero_setting_def)

lemma idle_equal: "idle i \<Longrightarrow> ScanSettingsEqual k i \<Longrightarrow> idle j \<Longrightarrow> ScanSettingsEqual k j"
  by (simp add: idle_def ScanSettingsEqual_def)

text \<open>The update in the stopped state: nothing to do, or the start of a fresh scan.\<close>

lemma stopped_update_calm:
  assumes "calm_env e" "stm_ok s" "scanners_ok (scanners s)" "stm_current s = Some DEVD_STATE_STOPPED"
  shows "\<exists>s'. StoppedDispatch no_ext e DEVD_POTIENTIAL_UPDATE s = Some s' \<and>
    (s' = s \<and> at_rest s \<or> posts [TaskSetScanParam (params_of (inflightScanSetting s') (inflightFrame4ScanSetting s'))] s s' \<and> stm_current s' = Some DEVD_STATE_STARTING \<and> fresh s')"
proof -
  obtain a b where f: "FetchFrame1TargetScanSettings (scanners s) = Some a" "FetchFrame4TargetScanSettings (scanners s) = Some b"
    "a = None \<longleftrightarrow> b = None" "\<forall>i. a = Some i \<or> b = Some i \<longrightarrow> mode_ok i"
    using scanners_fetch [OF assms(3)] by metis
  show ?thesis
  proof (cases "no_window a \<and> no_window b")
    case True
    then have "StoppedDispatch no_ext e DEVD_POTIENTIAL_UPDATE s = Some s" "at_rest s" using f assms(4) by (simp_all add: StoppedDispatch_def at_rest_def)
    then show ?thesis by blast
  next
    case False
    then obtain i j where ij: "a = Some i" "b = Some j" "mode_ok i" "mode_ok j" using f(3,4) by (auto simp: no_window_def split: option.splits)
    have idl: "idle (currentScanSetting s)" "idle (currentFrame4ScanSetting s)" "idle (inflightScanSetting s)" "idle (inflightFrame4ScanSetting s)"
      using assms(2,4) by (simp_all add: stm_ok_def)
    let ?a = "if \<not> ScanSettingsEqual (wanted a) (currentScanSetting s) then s\<lparr>inflightScanSetting := wanted a\<rparr> else s"
    let ?s = "if \<not> ScanSettingsEqual (wanted b) (currentFrame4ScanSetting ?a) then ?a\<lparr>inflightFrame4ScanSetting := wanted b\<rparr> else ?a"
    define t where "t = ?s"
    have q: "ScanSettingsEqual i (inflightScanSetting t)" "ScanSettingsEqual j (inflightFrame4ScanSetting t)"
      using same_wanted [OF ij(3)] same_wanted [OF ij(4)] idl ij(1,2) by (auto simp: ScanSettingsEqual_def idle_def t_def)
    have m: "mode_ok (inflightScanSetting t)" "mode_ok (inflightFrame4ScanSetting t)" using q ij by (auto simp: ScanSettingsEqual_def mode_ok_def idle_def)
    have "listens (inflightScanSetting t) (inflightFrame4ScanSetting t)" using m q False ij(1,2) by (auto simp: listens_def ScanSettingsEqual_def no_window_def)
    moreover have s: "posts [] s t" "stm_current t = Some DEVD_STATE_STOPPED" using assms(4) by (simp_all add: posts_def t_def)
    ultimately obtain s' where s': "to_starting no_ext e t = Some s'" "posts [TaskSetScanParam (params_of (inflightScanSetting t) (inflightFrame4ScanSetting t))] t s'"
      "stm_current s' = Some DEVD_STATE_STARTING" "inflightScanSetting s' = inflightScanSetting t" "inflightFrame4ScanSetting s' = inflightFrame4ScanSetting t"
      using to_starting_calm [OF assms(1), of t] by blast
    have "StoppedDispatch no_ext e DEVD_POTIENTIAL_UPDATE s = to_starting no_ext e t" using f False by (auto simp: StoppedDispatch_def Let_def t_def)
    moreover have "fresh s'" using s' s(1) q f ij by (simp add: fresh_def posts_def)
    ultimately show ?thesis using s' s(1) by (simp add: posts_def)
  qed
qed

lemma started_update_calm:
  assumes "calm_env e" "scanners_ok (scanners s)" "stm_current s = Some DEVD_STATE_STARTED"
  shows "\<exists>s'. StartedDispatch no_ext e DEVD_POTIENTIAL_UPDATE s = Some s' \<and> (s' = s \<and> at_rest s \<or> posts [TaskEnableScan False] s s' \<and> stm_current s' = Some DEVD_STATE_STOPPING \<and> \<not> at_rest s)"
proof -
  obtain a b where f: "FetchFrame1TargetScanSettings (scanners s) = Some a" "FetchFrame4TargetScanSettings (scanners s) = Some b" "a = None \<longleftrightarrow> b = None"
    using scanners_fetch [OF assms(2)] by metis
  have t: "posts [TaskEnableScan False] s (to_stopping no_ext e t) \<and> stm_current (to_stopping no_ext e t) = Some DEVD_STATE_STOPPING" if "posts [] s t" "stm_current t = stm_current s" for t
    using to_stopping_calm [OF assms(1), of t] that assms(3) by (simp add: posts_def)
  show ?thesis
  proof (cases a)
    case None
    then show ?thesis using f t [of s] assms(3) by (simp add: StartedDispatch_def posts_def at_rest_def)
  next
    case (Some i)
    then obtain j where b: "b = Some j" using f(3) by auto
    let ?r1 = "if \<not> ScanSettingsEqual i (currentScanSetting s) then s\<lparr>inflightScanSetting := ResetScanSetting (inflightScanSetting s)\<rparr> else s"
    let ?r = "if \<not> ScanSettingsEqual j (currentFrame4ScanSetting ?r1) then ?r1\<lparr>inflightFrame4ScanSetting := ResetScanSetting (inflightFrame4ScanSetting ?r1)\<rparr> else ?r1"
    have u: "posts [TaskEnableScan False] s (to_stopping no_ext e ?r) \<and> stm_current (to_stopping no_ext e ?r) = Some DEVD_STATE_STOPPING" by (rule t) (simp_all add: posts_def)
    show ?thesis
    proof (cases "ScanSettingsEqual i (currentScanSetting s) \<and> ScanSettingsEqual j (currentFrame4ScanSetting s)")
      case True
      then have "StartedDispatch no_ext e DEVD_POTIENTIAL_UPDATE s = Some s" "at_rest s" using f Some b assms(3) by (simp_all add: StartedDispatch_def at_rest_def)
      then show ?thesis by blast
    next
      case False
      have "StartedDispatch no_ext e DEVD_POTIENTIAL_UPDATE s = Some (to_stopping no_ext e ?r)" using f Some b False by (auto simp: StartedDispatch_def Let_def)
      moreover have "\<not> at_rest s" using False f Some b assms(3) by (simp add: at_rest_def)
      ultimately show ?thesis using u by blast
    qed
  qed
qed

lemma transient_rest:
  assumes "scan_inv s" "stm_current s = Some DEVD_STATE_STARTING \<or> stm_current s = Some DEVD_STATE_STOPPING"
  shows "at_rest s"
  using scanners_fetch [of "scanners s"] assms by (auto simp: at_rest_def scan_inv_def)

lemma posts_reg: "reg_ok s \<Longrightarrow> posts ts s s' \<Longrightarrow> list_all is_ctl ts \<Longrightarrow> reg_ok s'"
  by (auto simp: reg_ok_def posts_def list_all_iff)

lemma live_upd [simp]:
  "ctl (s\<lparr>scanners := v\<rparr>) = ctl s" "ctl (s\<lparr>durationTimer := d\<rparr>) = ctl s" "ctl (s\<lparr>scanModule := ms\<rparr>) = ctl s" "ctl (s\<lparr>scan_events := es\<rparr>) = ctl s"
  "ctl (s\<lparr>g_advDataCacheList := cs\<rparr>) = ctl s" "ctl (s\<lparr>scan_reports := rs\<rparr>) = ctl s"
  by (simp_all add: ctl_def)

lemma phase_cong:
  assumes "ctl s' = ctl s" "scan_cmds s' = scan_cmds s" "sm_status s' = sm_status s" "scanParams s' = scanParams s" "tmpScanParams s' = tmpScanParams s"
    "currentScanSetting s' = currentScanSetting s" "currentFrame4ScanSetting s' = currentFrame4ScanSetting s"
    "inflightScanSetting s' = inflightScanSetting s" "inflightFrame4ScanSetting s' = inflightFrame4ScanSetting s"
  shows "phase_of c s' = phase_of c s"
  using assms by (cases "(c, s)" rule: phase_of.cases) (simp_all add: assms)

lemma phase_upd [simp]:
  "phase_of c (s\<lparr>scanners := v\<rparr>) = phase_of c s" "phase_of c (s\<lparr>durationTimer := d\<rparr>) = phase_of c s" "phase_of c (s\<lparr>scanModule := ms\<rparr>) = phase_of c s"
  "phase_of c (s\<lparr>scan_events := es\<rparr>) = phase_of c s" "phase_of c (s\<lparr>g_advDataCacheList := cs\<rparr>) = phase_of c s" "phase_of c (s\<lparr>scan_reports := rs\<rparr>) = phase_of c s"
  by (rule phase_cong; simp)+

lemma live_stopped: "live s \<Longrightarrow> stm_current s = Some DEVD_STATE_STOPPED \<Longrightarrow> ctl s = [] \<and> scan_cmds s = [] \<and> sm_status s = DEVD_SLE_STATUS_IDLE"
  by (simp add: live_def)

lemma live_started:
  "live s \<Longrightarrow> stm_current s = Some DEVD_STATE_STARTED \<Longrightarrow> ctl s = [] \<and> scan_cmds s = [] \<and> sm_status s = DEVD_SLE_STATUS_IDLE \<and>
     scanParams s = Some (params_of (currentScanSetting s) (currentFrame4ScanSetting s))"
  by (simp add: live_def)

lemma update_live:
  assumes "live s" "calm_env e" "agrees k s"
  shows "\<exists>s'. StateMachineProcessMessage no_ext e DEVD_POTIENTIAL_UPDATE s = Some s' \<and> machine_step s s' \<and> live s' \<and> users s' = users s \<and> agrees k s' \<and> at_rest s'"
proof -
  have i: "scan_inv s" "stm_ok s" "scanners_ok (scanners s)" "reg_ok s" using assms(1) by (auto simp: live_def scan_inv_def)
  obtain s' where s': "StateMachineProcessMessage no_ext e DEVD_POTIENTIAL_UPDATE s = Some s'" "machine_step s s'" "scan_inv s'" using message_inv [OF i(1)] by blast
  have "live s' \<and> at_rest s' \<and> users s' = users s \<and> agrees k s'" using i(2)
  proof (cases rule: stm_cases)
    case stopped
    then show ?thesis using stopped_update_calm [OF assms(2) i(2,3) stopped] s' live_stopped [OF assms(1)] assms(1,3) transient_rest [OF s'(3)] posts_reg [OF i(4)] posts_users [of _ s s']
      by (auto simp: StateMachineProcessMessage_def live_def posts_ctl) (auto simp: posts_def agrees_def believes_on_def believes_params_def)
  next
    case started
    then show ?thesis using started_update_calm [OF assms(2) i(3) started] s' live_started [OF assms(1)] assms(1,3) transient_rest [OF s'(3)] posts_reg [OF i(4)] posts_users [of _ s s']
      by (auto simp: StateMachineProcessMessage_def live_def posts_ctl) (auto simp: posts_def agrees_def believes_on_def believes_params_def)
  qed (use s' assms(1,3) transient_rest [OF i(1)] in \<open>simp_all add: StateMachineProcessMessage_def StartingDispatch_def StoppingDispatch_def\<close>)
  then show ?thesis using s' by blast
qed

lemma reg_upd [simp]:
  "reg_ok (s\<lparr>scanners := v\<rparr>) = reg_ok s" "reg_ok (s\<lparr>durationTimer := d\<rparr>) = reg_ok s" "reg_ok (s\<lparr>scanModule := ms\<rparr>) = reg_ok s"
  "reg_ok (s\<lparr>scan_events := es\<rparr>) = reg_ok s" "reg_ok (s\<lparr>g_advDataCacheList := cs\<rparr>) = reg_ok s" "reg_ok (s\<lparr>scan_reports := rs\<rparr>) = reg_ok s"
  by (simp_all add: reg_ok_def)

lemma rest_upd [simp]: "at_rest (s\<lparr>durationTimer := d\<rparr>) = at_rest s" "at_rest (s\<lparr>scanModule := ms\<rparr>) = at_rest s" "at_rest (s\<lparr>g_advDataCacheList := cs\<rparr>) = at_rest s"
  "at_rest (s\<lparr>scan_reports := rs\<rparr>) = at_rest s" "at_rest (s\<lparr>scan_tasks := ts\<rparr>) = at_rest s" "at_rest (s\<lparr>scan_cmds := ks\<rparr>) = at_rest s" "at_rest (s\<lparr>sm_status := st\<rparr>) = at_rest s"
  by (simp_all add: at_rest_def)

lemma users_upd [simp]: "users (s\<lparr>scanners := v\<rparr>) = users s" "users (s\<lparr>durationTimer := d\<rparr>) = users s" "users (s\<lparr>scanModule := ms\<rparr>) = users s" "users (s\<lparr>scan_events := es\<rparr>) = users s"
  by (simp_all add: users_def)

interpretation lively: scan_kept "\<lambda>s. live s \<and> users s = us \<and> agrees k s" at_rest calm_env for us k
  by unfold_locales (auto simp add: update_live calm_envD, auto simp add: live_def scan_inv_def)

section \<open>Events without faults\<close>

lemma fetch_cong:
  assumes "map scanSetting (v_elems v) = map scanSetting (v_elems w)" "map frame4ScanSetting (v_elems v) = map frame4ScanSetting (v_elems w)"
  shows "FetchFrame1TargetScanSettings v = FetchFrame1TargetScanSettings w" "FetchFrame4TargetScanSettings v = FetchFrame4TargetScanSettings w"
proof -
  have l: "fetch_loop g t xs = fetch_loop g t ys" if "map g xs = map g ys" for g t xs and ys :: "NLSTK_DevdScanner list"
    using that
  proof (induction xs arbitrary: ys t)
    case (Cons x xs)
    then obtain y ys' where y: "ys = y # ys'" "g x = g y" "map g xs = map g ys'" by auto
    then show ?case using Cons.IH [OF y(3)] by (simp cong: if_cong)
  qed simp
  show "FetchFrame1TargetScanSettings v = FetchFrame1TargetScanSettings w" "FetchFrame4TargetScanSettings v = FetchFrame4TargetScanSettings w"
    using assms l [of scanSetting "tl (v_elems v)" "tl (v_elems w)"] l [of frame4ScanSetting "tl (v_elems v)" "tl (v_elems w)"]
    by (cases "v_elems v"; cases "v_elems w"; simp add: FetchFrame1TargetScanSettings_def FetchFrame4TargetScanSettings_def)+
qed

lemma rest_filters: "k < length (v_elems (scanners s)) \<Longrightarrow> at_rest (scanner_upd k (\<lambda>sc. sc\<lparr>sc_filters := x\<rparr>) s) = at_rest s"
  using fetch_cong [of "scanners (scanner_upd k (\<lambda>sc. sc\<lparr>sc_filters := x\<rparr>) s)" "scanners s"]
  by (simp add: at_rest_def scanner_upd_def map_update list_update_same_conv)

text \<open>Parameters that are refused leave the settings as they are.\<close>

lemma refused_rest:
  assumes "DevdAddScanParam no_ext e i st fs s = Some (r, s1)" "r \<noteq> NLSTK_ERRCODE_SUCCESS" "calm_env e" "at_rest s"
  shows "at_rest s1"
proof -
  have "\<exists>t. clock_gettime (sub (sub e 1) 0) = Some t" using calm_envD [of "sub (sub e 1) 0"] assms(3) by (simp add: clock_gettime_def)
  then have n: "store_setting no_ext (sub e 1) x y put z \<noteq> Some (r, s1)" for x y z and put
    using assms(2) by (auto simp: store_setting_def SetScanDuration_def Let_def split: if_splits bind_splits)
  show ?thesis using assms(1,2,4) n find_first_Some(1) [of "CompScannerId i" "scanners s"]
    by (auto simp: DevdAddScanParam_def Let_def DevdAddFilters_def rest_filters split: if_splits option.splits bind_splits)
qed

end
