(* ===== verification/Devd_Scan_Converge.thy ===== *)
theory Devd_Scan_Converge
  imports Devd_Scan_Live
begin

text \<open>
  The scan control comes to rest: when its tasks are run and its commands are answered, every state of a run without faults
  reaches one in which the controller does what the scanners ask for.
\<close>

section \<open>Progress\<close>

text \<open>The steps that are left until the machine rests, if no module asks for anything new.\<close>

definition weight :: "scan \<Rightarrow> nat" where
  "weight s =
     (case stm_current s of
        Some DEVD_STATE_STARTING \<Rightarrow> (if fresh s then 0 else 5) + (case scan_cmds s of [] \<Rightarrow> 3 | CmdSetScanParam p # cs \<Rightarrow> 2 | _ \<Rightarrow> 1)
      | Some DEVD_STATE_STOPPING \<Rightarrow> (if scan_cmds s = [] then 5 else 4)
      | _ \<Rightarrow> 0)"

definition quiet :: "controller \<Rightarrow> scan \<Rightarrow> bool" where
  "quiet k s \<longleftrightarrow> live s \<and> at_rest s \<and> agrees k s"

lemmas agrees_defs = agrees_def believes_on_def believes_params_def

lemma params_copy: "copy_params (params_of i j) = Some (params_of i j)"
proof -
  have "BuildScanParams (granting_env True) (undefined\<lparr>inflightScanSetting := i, inflightFrame4ScanSetting := j\<rparr>) = Some (params_of i j)"
    by (simp add: BuildScanParams_def params_of_def Let_def SDF_MemZalloc_def granting_env_def)
  then show ?thesis using build_params_ok by blast
qed

lemma calm_wf: "calm_env e \<Longrightarrow> event_wf (e, RunTask)" "calm_env e \<Longrightarrow> event_wf (e, Answer st)"
  by (simp_all add: calm_env_def)

lemma phase_ctl:
  assumes "live s" "ctl s = t # ts"
  shows "ts = [] \<and> scan_cmds s = [] \<and> sm_status s = DEVD_SLE_STATUS_IDLE \<and>
    (stm_current s = Some DEVD_STATE_STARTING \<and> t = TaskSetScanParam (params_of (inflightScanSetting s) (inflightFrame4ScanSetting s)) \<or>
     stm_current s = Some DEVD_STATE_STOPPING \<and> t = TaskEnableScan False)"
  using assms by (cases "(stm_current s, s)" rule: phase_of.cases) (auto simp: live_def Let_def)

lemma phase_cmd:
  assumes "live s" "scan_cmds s = c # cs"
  shows "cs = [] \<and> ctl s = [] \<and> scanCbk s \<and>
    (stm_current s = Some DEVD_STATE_STARTING \<and> c = CmdSetScanParam (params_of (inflightScanSetting s) (inflightFrame4ScanSetting s)) \<and>
       tmpScanParams s = Some (params_of (inflightScanSetting s) (inflightFrame4ScanSetting s)) \<or>
     stm_current s = Some DEVD_STATE_STARTING \<and> c = CmdEnableScan True \<and> sm_status s = DEVD_SLE_STATUS_SET_SCAN_DISABLE2ENABLE \<and>
       scanParams s = Some (params_of (inflightScanSetting s) (inflightFrame4ScanSetting s)) \<or>
     stm_current s = Some DEVD_STATE_STOPPING \<and> c = CmdEnableScan False \<and> sm_status s = DEVD_SLE_STATUS_SET_SCAN_ENABLE2DISABLE)"
  using assms by (cases "(stm_current s, s)" rule: phase_of.cases) (auto simp: live_def Let_def reg_ok_def)

lemma ctl_task_step:
  assumes "live s" "calm_env e" "scan_tasks s = t # ts" "is_ctl t" "agrees k s"
  shows "\<exists>s'. scan_step e RunTask s = Some s' \<and> quiet k s' \<and> users s' = users s \<and> weight s' < weight s"
proof -
  have c: "ctl s = t # filter is_ctl ts" using assms(3,4) by (simp add: ctl_def)
  note ph = phase_ctl [OF assms(1) c]
  have r: "scanCbk s" "TaskRegScanEventCbk False \<notin> set ts" "scan_inv s" using assms(1,3,4) by (auto simp: live_def reg_ok_def)
  obtain s' where s': "scan_step e RunTask s = Some s'" "scan_inv s'" using step_ok [OF r(3) calm_wf(1) [OF assms(2)]] by blast
  have m: "\<exists>a. SDF_MemZalloc (sub e 0) = Some a" "\<exists>a. SDF_MemZalloc (sub e 1) = Some a" "call_dli (sub e 2)" "call_dli e"
    using assms(2) calm_envD [of "sub e 0"] calm_envD [of "sub e 1"] calm_envD [of "sub e 2"] calm_envD [of e] by simp_all
  from ph show ?thesis
  proof (elim conjE disjE)
    let ?p = "params_of (inflightScanSetting s) (inflightFrame4ScanSetting s)"
    assume a: "stm_current s = Some DEVD_STATE_STARTING" "t = TaskSetScanParam ?p" "filter is_ctl ts = []" "scan_cmds s = []" "sm_status s = DEVD_SLE_STATUS_IDLE"
    have "s' = s\<lparr>scan_tasks := ts, tmpScanParams := Some ?p, sm_status := DEVD_SLE_STATUS_SET_SCAN_PARAMS, scan_cmds := [CmdSetScanParam ?p]\<rparr>"
      using s'(1) a m assms(3) by (auto simp: scan_step_def run_task_def DevdSleSetScanParam_def SleSetScanParamToDLI_def params_copy hand_cmd_def)
    then show ?thesis using s' a r assms(3,5) transient_rest [OF s'(2)] by (auto simp: quiet_def live_def ctl_def users_def reg_ok_def Let_def weight_def fresh_def agrees_defs)
  next
    assume a: "stm_current s = Some DEVD_STATE_STOPPING" "t = TaskEnableScan False" "filter is_ctl ts = []" "scan_cmds s = []" "sm_status s = DEVD_SLE_STATUS_IDLE"
    have "s' = s\<lparr>scan_tasks := ts, sm_status := DEVD_SLE_STATUS_SET_SCAN_ENABLE2DISABLE, scan_cmds := [CmdEnableScan False]\<rparr>"
      using s'(1) a m assms(3) by (auto simp: scan_step_def run_task_def DevdSleEnableScan_def SleUpdateEnableScan_def hand_cmd_def)
    then show ?thesis using s' a r assms(3,5) transient_rest [OF s'(2)] by (auto simp: quiet_def live_def ctl_def users_def reg_ok_def weight_def agrees_defs)
  qed
qed

lemma param_answer_step:
  assumes "live s" "calm_env e" "scan_cmds s = CmdSetScanParam p # cs" "agrees k s"
  shows "\<exists>s'. scan_step e (Answer 0) s = Some s' \<and> quiet (obey (CmdSetScanParam p) k) s' \<and> users s' = users s \<and> weight s' < weight s"
proof -
  have ph: "cs = []" "ctl s = []" "scanCbk s" "stm_current s = Some DEVD_STATE_STARTING" "p = params_of (inflightScanSetting s) (inflightFrame4ScanSetting s)" "tmpScanParams s = Some p"
    using phase_cmd [OF assms(1,3)] by auto
  have r: "TaskRegScanEventCbk False \<notin> set (scan_tasks s)" "scan_inv s" using assms(1) by (auto simp: live_def reg_ok_def)
  obtain s' where s': "scan_step e (Answer 0) s = Some s'" "scan_inv s'" using step_ok [OF r(2) calm_wf(2) [OF assms(2)]] by blast
  have "s' = s\<lparr>scan_cmds := [CmdEnableScan True], scanParams := Some p, tmpScanParams := None, sm_status := DEVD_SLE_STATUS_SET_SCAN_DISABLE2ENABLE\<rparr>"
    using s'(1) ph(1,6) calm_envD [OF assms(2)] assms(3)
    by (auto simp: scan_step_def DevdSleSetScanParamCbk_def DevdSleEnableScan_def SleUpdateEnableScan_def hand_cmd_def)
  then show ?thesis using s' ph r assms(3,4) transient_rest [OF s'(2)] by (auto simp: quiet_def live_def ctl_def users_def reg_ok_def Let_def weight_def fresh_def agrees_defs)
qed

text \<open>The scan is on: the machine stays in the started state if the settings are still wanted, and stops otherwise.\<close>

lemma enabled_step:
  assumes "live s" "calm_env e" "scan_cmds s = CmdEnableScan True # cs" "agrees k s"
  shows "\<exists>s'. scan_step e (Answer 0) s = Some s' \<and> quiet (obey (CmdEnableScan True) k) s' \<and> users s' = users s \<and> weight s' < weight s"
proof -
  let ?p = "params_of (inflightScanSetting s) (inflightFrame4ScanSetting s)"
  have ph: "cs = []" "ctl s = []" "scanCbk s" "stm_current s = Some DEVD_STATE_STARTING" "sm_status s = DEVD_SLE_STATUS_SET_SCAN_DISABLE2ENABLE" "scanParams s = Some ?p"
    using phase_cmd [OF assms(1,3)] by auto
  have r: "reg_ok s" "scan_inv s" "scanners_ok (scanners s)" "g_scanStm s" using assms(1) by (auto simp: live_def scan_inv_def)
  let ?s0 = "s\<lparr>scan_cmds := []\<rparr>"
  define t where "t = to_started no_ext (notify_modules NLSTK_ERRCODE_SUCCESS True (?s0\<lparr>currentScanSetting := inflightScanSetting s, currentFrame4ScanSetting := inflightFrame4ScanSetting s\<rparr>))"
  have t: "posts [] ?s0 t" "stm_current t = Some DEVD_STATE_STARTED" "currentScanSetting t = inflightScanSetting s" "currentFrame4ScanSetting t = inflightFrame4ScanSetting s"
    by (simp_all add: t_def to_defs notify_modules_def posts_def)
  have rest: "at_rest t" if "fresh s" using that t by (auto simp: fresh_def at_rest_def posts_def)
  obtain u where u: "StartedDispatch no_ext e DEVD_POTIENTIAL_UPDATE t = Some u"
    "u = t \<and> at_rest t \<or> posts [TaskEnableScan False] t u \<and> stm_current u = Some DEVD_STATE_STOPPING \<and> \<not> at_rest t"
    using started_update_calm [OF assms(2) _ t(2)] r(3) t(1) by (auto simp: posts_def)
  obtain s' where s': "scan_step e (Answer 0) s = Some s'" "scan_inv s'" using step_ok [OF r(2) calm_wf(2) [OF assms(2)]] by blast
  have "s' = u\<lparr>sm_status := DEVD_SLE_STATUS_IDLE\<rparr>"
    using s'(1) ph u(1) r(4) t(2) assms(3)
    by (simp add: scan_step_def DevdSleEnableScanCbk_def ScanCbk_def StateMachineProcessMessage_def StartingDispatch_def process_update_def flip: t_def)
  then show ?thesis using u(2) s' ph r(1) rest t transient_rest [OF s'(2)] posts_ctl [of _ t u] posts_users [of _ t u] assms(3,4)
    by (auto simp: quiet_def live_def weight_def posts_def ctl_def users_def reg_ok_def agrees_defs)
qed

text \<open>The scan is off: it stays off if no scanner listens, and starts afresh otherwise.\<close>

lemma disabled_step:
  assumes "live s" "calm_env e" "scan_cmds s = CmdEnableScan False # cs" "agrees k s"
  shows "\<exists>s'. scan_step e (Answer 0) s = Some s' \<and> quiet (obey (CmdEnableScan False) k) s' \<and> users s' = users s \<and> weight s' < weight s"
proof -
  have ph: "cs = []" "ctl s = []" "scanCbk s" "stm_current s = Some DEVD_STATE_STOPPING" "sm_status s = DEVD_SLE_STATUS_SET_SCAN_ENABLE2DISABLE"
    using phase_cmd [OF assms(1,3)] by auto
  have r: "reg_ok s" "scan_inv s" "scanners_ok (scanners s)" "g_scanStm s" "stm_ok s" using assms(1) by (auto simp: live_def scan_inv_def)
  let ?s0 = "s\<lparr>scan_cmds := []\<rparr>"
  define t where "t = to_stopped no_ext (notify_modules NLSTK_ERRCODE_SUCCESS False ?s0)"
  have t: "posts [] ?s0 t" "stm_current t = Some DEVD_STATE_STOPPED" by (simp_all add: t_def to_defs notify_modules_def posts_def)
  have "stm_ok ?s0" using r(5) by simp
  then have k: "stm_ok t" using stop_after_notify unfolding t_def by blast
  obtain u where u: "StoppedDispatch no_ext e DEVD_POTIENTIAL_UPDATE t = Some u"
    "u = t \<and> at_rest t \<or> posts [TaskSetScanParam (params_of (inflightScanSetting u) (inflightFrame4ScanSetting u))] t u \<and> stm_current u = Some DEVD_STATE_STARTING \<and> fresh u"
    using stopped_update_calm [OF assms(2) k _ t(2)] r(3) t(1) by (auto simp: posts_def)
  obtain s' where s': "scan_step e (Answer 0) s = Some s'" "scan_inv s'" using step_ok [OF r(2) calm_wf(2) [OF assms(2)]] by blast
  have "s' = u\<lparr>sm_status := DEVD_SLE_STATUS_IDLE\<rparr>"
    using s'(1) ph u(1) r(4) t(2) assms(3)
    by (simp add: scan_step_def DevdSleEnableScanCbk_def ScanCbk_def StateMachineProcessMessage_def StoppingDispatch_def process_update_def flip: t_def)
  then show ?thesis using u(2) s' ph r(1) t transient_rest [OF s'(2)] posts_ctl [of _ t u] posts_users [of _ t u] assms(3,4)
    by (auto simp: quiet_def live_def weight_def posts_def ctl_def users_def reg_ok_def Let_def fresh_def agrees_defs)
qed

section \<open>Requests\<close>

lemma user_task_step:
  assumes "quiet k s" "calm_env e" "scan_tasks s = t # ts" "\<not> is_ctl t"
  shows "\<exists>s'. scan_step e RunTask s = Some s' \<and> quiet k s' \<and> users s = t # users s'"
proof -
  let ?s = "s\<lparr>scan_tasks := ts\<rparr>"
  have l: "live s" "at_rest s" "agrees k s" using assms(1) by (simp_all add: quiet_def)
  have u: "users s = t # users ?s" "ctl ?s = ctl s" using assms(3,4) by (simp_all add: users_def ctl_def)
  have ph: "phase_of (stm_current ?s) ?s" using l(1) u(2) by (subst phase_cong [of _ s]) (simp_all add: live_def)
  have i: "scan_inv ?s" "task_ok t" using l(1) assms(3) by (auto simp: live_def scan_inv_def)
  have step: "scan_step e RunTask s = run_task no_ext e t ?s" using assms(3) by (simp add: scan_step_def)
  show ?thesis
  proof (cases "\<exists>b. t = TaskRegScanEventCbk b")
    case True
    have "phase_of (stm_current s) (?s\<lparr>scanCbk := True\<rparr>)" using ph by (subst phase_cong [of _ ?s]) (simp_all add: ctl_def)
    then show ?thesis using True step i l u assms(3) by (auto simp: run_task_def DevdRegScanEventCbk_def quiet_def live_def reg_ok_def at_rest_def users_def)
  next
    case False
    then have lv: "live ?s \<and> users ?s = users ?s \<and> agrees k ?s" using ph i(1) l(1,3) assms(3) by (auto simp: live_def reg_ok_def)
    have rest: "at_rest ?s" using l(2) by simp
    have fin: ?thesis if "run_task no_ext e t ?s = Some s'" "live s' \<and> users s' = users ?s \<and> agrees k s'" "at_rest s'" for s' using that step u(1) by (auto simp: quiet_def)
    show ?thesis
    proof (cases t)
      case (TaskStartScan j st fs)
      obtain r s1 s' where s': "DevdAddScanParam no_ext (sub e 0) j st fs ?s = Some (r, s1)" "DevdStartScan no_ext e j st fs ?s = Some s'"
        "live s' \<and> users s' = users ?s \<and> agrees k s'" "if r = NLSTK_ERRCODE_SUCCESS then at_rest s' else s' = s1"
        using lively.start_task_ok [OF lv assms(2), of fs j st] i(2) TaskStartScan by auto
      then have "at_rest s'" using refused_rest [OF s'(1)] assms(2) rest by (auto split: if_splits)
      then show ?thesis using fin s' TaskStartScan by (simp add: run_task_def)
    next
      case (TaskStopScan j)
      then show ?thesis using lively.stop_task_ok [OF lv assms(2), of j] rest fin by (auto simp: run_task_def)
    next
      case TaskStopAllScan
      have "live (s1\<lparr>scan_events := v\<rparr>) \<and> users (s1\<lparr>scan_events := v\<rparr>) = users ?s \<and> agrees k (s1\<lparr>scan_events := v\<rparr>)"
        if "live s1 \<and> users s1 = users ?s \<and> agrees k s1" for s1 v using that by (simp add: live_def)
      then show ?thesis using lively.stop_all_task_ok [OF lv assms(2)] TaskStopAllScan fin by (auto simp: run_task_def)
    qed (use False assms(4) in auto)
  qed
qed

lemma quiet_post:
  assumes "quiet k s" "task_ok t" "\<not> is_ctl t" "t \<noteq> TaskRegScanEventCbk False" "SchedulePostTask e t s = (ok, s')"
  shows "quiet k s'"
proof -
  let ?s = "s\<lparr>scan_tasks := scan_tasks s @ [t]\<rparr>"
  have "ctl ?s = ctl s" using assms(3) by (simp add: ctl_def)
  then have "phase_of (stm_current s) ?s = phase_of (stm_current s) s" by (rule phase_cong) simp_all
  then have "quiet k ?s" using assms(1,2,4) by (auto simp: quiet_def live_def scan_inv_def reg_ok_def)
  then show ?thesis using assms(1,5) by (auto simp: SchedulePostTask_def split: if_splits)
qed

lemma fetch_append:
  "fetch_loop g t (xs @ [y]) = do { b \<leftarrow> fetch_loop g t xs; c \<leftarrow> better_setting b (g y); Some (if c then g y else b) }"
  by (induction xs arbitrary: t) (auto cong: if_cong split: bind_splits)

lemma fetch_idle:
  assumes "setting_ok t" "\<forall>s\<in>set xs. setting_ok (g s)" "idle (g y)"
  shows "fetch_loop g t (xs @ [y]) = fetch_loop g t xs"
proof -
  obtain b where b: "fetch_loop g t xs = Some b" "b \<in> insert t (g ` set xs)" using fetch_loop_best [of t xs g] assms(1,2) by blast
  then have "setting_ok b" using assms(1,2) by auto
  moreover have "setting_ok (g y)" using assms(3) by (simp add: idle_def setting_ok_def)
  moreover have "at_least b (g y)" using assms(3) \<open>setting_ok b\<close> by (auto simp: at_least_def duty_def idle_def setting_ok_def)
  ultimately show ?thesis using better_setting_eq [of b "g y"] b(1) by (simp add: fetch_append)
qed

lemma rest_new:
  assumes "scan_inv s" "at_rest s" "v_elems v = v_elems (scanners s) @ [new_scanner i m]"
  shows "at_rest (s\<lparr>scanners := v\<rparr>)"
proof (cases "v_elems (scanners s)")
  case Nil
  then show ?thesis using assms(2,3)
    by (auto simp: at_rest_def FetchFrame1TargetScanSettings_def FetchFrame4TargetScanSettings_def no_window_def new_scanner_def ResetScanSetting_def zero_setting_def)
next
  case (Cons sc scs)
  have m: "setting_ok (scanSetting x) \<and> setting_ok (frame4ScanSetting x)" if "x \<in> set (v_elems (scanners s))" for x
    using scan_invD [OF assms(1)] that mode_setting by (auto simp: scanners_ok_def list_all_iff scanner_ok_def)
  have "fetch_loop g t (scs @ [new_scanner i m]) = fetch_loop g t scs" if "g = scanSetting \<or> g = frame4ScanSetting" "setting_ok t" for g t
    using that m Cons by (intro fetch_idle) (auto simp: new_scanner_def)
  then have "FetchFrame1TargetScanSettings v = FetchFrame1TargetScanSettings (scanners s)" "FetchFrame4TargetScanSettings v = FetchFrame4TargetScanSettings (scanners s)"
    using assms(3) Cons m by (simp_all add: FetchFrame1TargetScanSettings_def FetchFrame4TargetScanSettings_def)
  then show ?thesis using assms(2) by (simp add: at_rest_def)
qed

section \<open>Runs without faults\<close>

text \<open>Every command is accepted and answered with success before the timer of the machine fires.\<close>

fun calm_event :: "'r env \<times> scan_event \<Rightarrow> bool" where
  "calm_event (e, Answer st) = (calm_env e \<and> st = 0)"
| "calm_event (e, TimeoutOfStart) = False"
| "calm_event (e, ev) = (calm_env e \<and> event_wf (e, ev))"

lemma answer_step:
  assumes "live s" "calm_env e" "scan_cmds s = c # cs" "agrees k s"
  shows "\<exists>s'. scan_step e (Answer 0) s = Some s' \<and> quiet (obey c k) s' \<and> users s' = users s \<and> weight s' < weight s"
proof (cases c)
  case (CmdSetScanParam p)
  then show ?thesis using param_answer_step assms by blast
next
  case (CmdEnableScan b)
  then show ?thesis using enabled_step [OF assms(1,2)] disabled_step [OF assms(1,2)] assms(3,4) by (cases b) auto
qed

lemma create_scanner_quiet:
  assumes "quiet k s" "calm_env e"
  shows "quiet k (snd (DevdCreateScanner no_ext e m s))"
proof -
  have "live (snd (DevdCreateScanner no_ext e m s)) \<and> agrees k (snd (DevdCreateScanner no_ext e m s))"
    using lively.create_scanner_ok [of s "users s" k e m] assms(1) by (simp add: quiet_def)
  moreover have "at_rest (snd (DevdCreateScanner no_ext e m s))"
    using assms rest_new [of s] emplace_back_ok [of "sub e 1" "scanners s"] calm_envD [of "sub e 1"]
    by (auto simp: DevdCreateScanner_def Let_def quiet_def live_def split: option.splits prod.splits simp del: upt_Suc) (metis calm_envD calm_env_sub snd_conv)+
  ultimately show ?thesis by (simp add: quiet_def)
qed

lemma report_kept: "ReportCbk e rp s = Some s' \<Longrightarrow> \<exists>cs rs. s' = s\<lparr>g_advDataCacheList := cs, scan_reports := rs\<rparr>"
  by (cases s) (auto simp: ReportCbk_def Let_def split: bind_splits option.splits if_splits)

lemma scan_report_kept: "DevdSleScanReportCbk e c s = Some s' \<Longrightarrow> \<exists>cs rs. s' = s\<lparr>g_advDataCacheList := cs, scan_reports := rs\<rparr>"
  by (cases s) (auto simp: DevdSleScanReportCbk_def split: bind_splits option.splits if_splits prod.splits dest!: report_kept)

lemma report_quiet: "quiet k s \<Longrightarrow> DevdSleScanReportCbk e c s = Some s' \<Longrightarrow> scan_inv s' \<Longrightarrow> quiet k s'"
  by (drule scan_report_kept) (auto simp: quiet_def live_def)

lemma start_request_quiet:
  assumes "quiet k s" "event_wf (e, StartScan i st fs n)" "NLSTK_DevdStartScan e i st fs n s = Some (r, s')"
  shows "quiet k s'"
proof -
  have "list_all filter_wf (v_elems v)" if "DevdConvertFiltersToVector (sub e 1) (case fs of None \<Rightarrow> [] | Some l \<Rightarrow> l) n = Some (Some v)" "CheckFiltersLegal fs n = Some True" for v
    using convert_wf [of n "case fs of None \<Rightarrow> [] | Some l \<Rightarrow> l" "sub e 1"] that assms(2) by (auto simp: CheckFiltersLegal_def split: option.splits if_splits)
  then show ?thesis using assms(1,3) quiet_post [OF assms(1), of "TaskStartScan i st _"]
    by (auto simp: NLSTK_DevdStartScan_def split: if_splits bind_splits option.splits prod.splits)
qed

lemma quiet_step:
  assumes "quiet k s" "calm_event (e, ev)"
  shows "\<exists>s' k'. joint_step e ev (s, k) = Some (s', k') \<and> quiet k' s'"
proof -
  have l: "live s \<and> users s = users s \<and> agrees k s" "at_rest s" "scan_inv s" using assms(1) by (auto simp: quiet_def live_def)
  note steps = joint_step_def scan_step_def
  show ?thesis
  proof (cases ev)
    case (RegModule b c)
    then show ?thesis using lively.create_module_ok [OF l(1), of b c] l(2) by (auto simp: steps quiet_def DevdCreateScanModule_def split: option.splits)
  next
    case (DeregModule m)
    then show ?thesis using lively.dereg_module_ok [OF l(1), of e m] assms(2) by (auto simp: steps quiet_def)
  next
    case (CreateScanner m)
    then show ?thesis using create_scanner_quiet [OF assms(1), of e m] assms(2) by (simp add: steps)
  next
    case (RemoveScanner i)
    then show ?thesis using lively.remove_scanner_ok [OF l(1), of e i] assms(2) by (auto simp: steps quiet_def)
  next
    case (StartScan i st fs n)
    then show ?thesis using start_request_ok [OF l(3), of e i st fs n] start_request_quiet [OF assms(1), of e i st fs n] assms(2) by (auto simp: steps)
  next
    case (StopScan i)
    then show ?thesis using assms(1) quiet_post [OF assms(1), of "TaskStopScan i" "sub e 1"] by (auto simp: steps NLSTK_DevdStopScan_def split: option.splits prod.splits)
  next
    case StopAllScan
    then show ?thesis using quiet_post [OF assms(1), of TaskStopAllScan e] by (auto simp: steps NLSTK_DevdStopAllScan_def split: prod.splits)
  next
    case RunTask
    then show ?thesis using ctl_task_step [of s e] user_task_step [OF assms(1), of e] l assms by (cases "scan_tasks s"; cases "is_ctl (hd (scan_tasks s))") (fastforce simp: steps)+
  next
    case (Answer st)
    show ?thesis
    proof (cases "scan_cmds s")
      case (Cons c cs)
      then show ?thesis using answer_step [of s e c cs k] l(1) assms(2) Answer by (auto simp: joint_step_def)
    qed (use Answer assms in \<open>simp add: steps\<close>)
  next
    case TimeoutOfDuration
    then show ?thesis using lively.duration_timeout_ok [OF l(1), of e] l(2) assms(2) by (auto simp: steps quiet_def)
  next
    case (Report d)
    then show ?thesis using scan_report_ok [OF l(3), of e d] report_quiet [OF assms(1), of e] assms(2) by (auto simp: steps)
  qed (use assms(2) in simp)
qed

lemma quiet_run: "quiet k s \<Longrightarrow> list_all calm_event evs \<Longrightarrow> \<exists>s' k'. joint_run evs (s, k) = Some (s', k') \<and> quiet k' s'"
proof (induction evs arbitrary: s k)
  case (Cons x evs)
  then show ?case using quiet_step [of k s "fst x" "snd x"] by (cases x) fastforce
qed simp

lemma init_quiet:
  assumes "DevdScanInit no_ext e s0 = (NLSTK_ERRCODE_SUCCESS, s)" "scan_tasks s0 = []" "scan_cmds s0 = []" "sm_status s0 = DEVD_SLE_STATUS_IDLE" "\<not> ctl_scanning k"
  shows "quiet k s"
proof -
  have "stm_current s = Some DEVD_STATE_STOPPED" "scan_tasks s = [TaskRegScanEventCbk True]" "scan_cmds s = []" "sm_status s = DEVD_SLE_STATUS_IDLE" "v_elems (scanners s) = []"
    using assms
    by (auto simp: DevdScanInit_def DevdScanManagerInit_def DevdStateMachineDtor_def DevdStateMachineCtor_def DevdScanManagerCtor_def SDF_CreateVector_def to_defs NLSTK_DevdRegScanEventCbk_def SchedulePostTask_def
        Let_def split: option.splits prod.splits if_splits)
  then show ?thesis using init_ok [OF assms(1,2)] assms(5)
    by (simp add: agrees_defs quiet_def live_def reg_ok_def ctl_def at_rest_def FetchFrame1TargetScanSettings_def FetchFrame4TargetScanSettings_def no_window_def)
qed

section \<open>Coming to rest\<close>

text \<open>The worker runs its tasks and the controller obeys and answers; each step has an environment of its own.\<close>

definition coop_step :: "'r env \<Rightarrow> scan \<times> controller \<Rightarrow> (scan \<times> controller) option" where
  "coop_step e x = joint_step e (if scan_tasks (fst x) \<noteq> [] then RunTask else Answer 0) x"

fun coop_run :: "(nat \<Rightarrow> 'r env) \<Rightarrow> nat \<Rightarrow> scan \<times> controller \<Rightarrow> (scan \<times> controller) option" where
  "coop_run E 0 x = Some x"
| "coop_run E (Suc n) x = do { x1 \<leftarrow> coop_step (E 0) x; coop_run (\<lambda>k. E (Suc k)) n x1 }"

lemma coop_rests:
  assumes "quiet k s" "\<forall>n. calm_env (E n)"
  shows "\<exists>n s' k'. coop_run E n (s, k) = Some (s', k') \<and> quiet k' s' \<and> scan_tasks s' = [] \<and> scan_cmds s' = []"
  using assms
proof (induction "(length (users s), weight s)" arbitrary: s k E rule: wf_induct_rule [OF wf_lex_prod [OF wf_less_than wf_less_than]])
  case (1 s k E)
  show ?case
  proof (cases "scan_tasks s = [] \<and> scan_cmds s = []")
    case True
    then show ?thesis using 1(2) by (intro exI [of _ 0]) simp
  next
    case False
    have e: "calm_env (E 0)" using 1(3) by blast
    have "\<exists>s1 k1. coop_step (E 0) (s, k) = Some (s1, k1) \<and> quiet k1 s1 \<and> (length (users s1) < length (users s) \<or> users s1 = users s \<and> weight s1 < weight s)"
    proof (cases "scan_tasks s")
      case Nil
      then show ?thesis using answer_step [of s "E 0" _ _ k] False 1(2) e by (cases "scan_cmds s") (auto simp: coop_step_def joint_step_def quiet_def)
    next
      case (Cons t ts)
      then show ?thesis using ctl_task_step [OF _ e Cons, of k] user_task_step [OF 1(2) e Cons] 1(2)
        by (cases "is_ctl t") (auto simp: coop_step_def joint_step_def quiet_def)
    qed
    then obtain s1 k1 where s1: "coop_step (E 0) (s, k) = Some (s1, k1)" "quiet k1 s1" "((length (users s1), weight s1), (length (users s), weight s)) \<in> less_than <*lex*> less_than" by auto
    obtain n s' k' where "coop_run (\<lambda>k. E (Suc k)) n (s1, k1) = Some (s', k')" "quiet k' s'" "scan_tasks s' = []" "scan_cmds s' = []" using 1(1) [OF s1(3,2), of "\<lambda>k. E (Suc k)"] 1(3) by auto
    then show ?thesis using s1(1) by (intro exI [of _ "Suc n"]) simp
  qed
qed

text \<open>
  Nothing is under way; the controller scans exactly if some scanner listens, and then with the parameters built from the
  best settings of the scanners; the machine records the same.
\<close>

definition settled :: "scan \<times> controller \<Rightarrow> bool" where
  "settled = (\<lambda>(s, k). scan_tasks s = [] \<and> scan_cmds s = [] \<and> sm_status s = DEVD_SLE_STATUS_IDLE \<and>
     (\<exists>a b. FetchFrame1TargetScanSettings (scanners s) = Some a \<and> FetchFrame4TargetScanSettings (scanners s) = Some b \<and>
        (if no_window a \<and> no_window b then stm_current s = Some DEVD_STATE_STOPPED \<and> \<not> ctl_scanning k
         else stm_current s = Some DEVD_STATE_STARTED \<and> ctl_scanning k \<and>
           (\<exists>i j. a = Some i \<and> b = Some j \<and> scanParams s = Some (params_of i j) \<and> ctl_params k = Some (params_of i j)))))"

lemma params_equal: "ScanSettingsEqual i i' \<Longrightarrow> ScanSettingsEqual j j' \<Longrightarrow> params_of i j = params_of i' j'"
  by (simp add: ScanSettingsEqual_def params_of_def one_param_def)

lemma quiet_settled:
  assumes "quiet k s" "scan_tasks s = []" "scan_cmds s = []"
  shows "settled (s, k)"
proof -
  have l: "live s" "stm_ok s" "agrees k s" using assms(1) by (auto simp: quiet_def live_def scan_inv_def)
  obtain a b where f: "FetchFrame1TargetScanSettings (scanners s) = Some a" "FetchFrame4TargetScanSettings (scanners s) = Some b"
    "stm_current s = Some DEVD_STATE_STOPPED \<longrightarrow> no_window a \<and> no_window b"
    "stm_current s = Some DEVD_STATE_STARTED \<longrightarrow> (\<exists>i j. a = Some i \<and> b = Some j \<and> ScanSettingsEqual i (currentScanSetting s) \<and> ScanSettingsEqual j (currentFrame4ScanSetting s))"
    using assms(1) by (auto simp: quiet_def at_rest_def)
  show ?thesis using l(2)
  proof (cases rule: stm_cases)
    case stopped
    then show ?thesis using f live_stopped [OF l(1)] l(3) assms by (simp add: settled_def agrees_defs)
  next
    case started
    have "listens (currentScanSetting s) (currentFrame4ScanSetting s)" using started l(2) by (simp add: stm_ok_def)
    then have "\<not> (no_window a \<and> no_window b)" using f(4) started by (auto simp: no_window_def listens_def ScanSettingsEqual_def)
    then show ?thesis using started f(1,2,4) live_started [OF l(1) started] l(3) assms(2,3) params_equal by (auto simp: settled_def agrees_defs)
  qed (use l(1) assms(2,3) in \<open>simp_all add: live_def ctl_def Let_def\<close>)
qed

text \<open>
  The scan settles on what the modules ask for (C3). After a successful start, with a controller that does not scan, and any
  run of requests, tasks, answers, ends of durations and reports in which no allocation, post or command fails, the clock is
  not set back between two reads of a step, and the controller obeys every command and answers with success in time, the
  worker's tasks and the controller's answers lead, in finitely many steps, to a state in which nothing is under way. There
  the controller does not scan if no scanner listens, and otherwise it scans with the parameters built from the best
  settings of the scanners; the state machine is stopped or started accordingly.
\<close>

theorem scan_converges:
  assumes "DevdScanInit no_ext e s0 = (NLSTK_ERRCODE_SUCCESS, s)" "scan_tasks s0 = []" "scan_cmds s0 = []" "sm_status s0 = DEVD_SLE_STATUS_IDLE"
    and "\<not> ctl_scanning k0" "list_all calm_event evs" "\<forall>n. calm_env (E n)"
  shows "\<exists>x1 n x2. joint_run evs (s, k0) = Some x1 \<and> coop_run E n x1 = Some x2 \<and> settled x2"
proof -
  obtain s1 k1 where s1: "joint_run evs (s, k0) = Some (s1, k1)" "quiet k1 s1" using quiet_run [OF init_quiet [OF assms(1-5)] assms(6)] by blast
  then show ?thesis using coop_rests [OF s1(2) assms(7)] quiet_settled by blast
qed

definition demo_requests :: "(bool env \<times> scan_event) list" where
  "demo_requests = map (Pair (granting_env True)) [RegModule True True, CreateScanner 0, StartScan 1 (demo_setting 1 5) None 0, RunTask, RunTask, RunTask, StopScan 1, Answer 0]"

theorem scan_converges_witness:
  "\<exists>x1 n x2. joint_run demo_requests (demo_start, \<lparr>ctl_scanning = False, ctl_params = None\<rparr>) = Some x1 \<and> coop_run (\<lambda>_. granting_env True) n x1 = Some x2 \<and> settled x2"
proof -
  have "calm_env (granting_env True)" by (simp add: calm_env_def)
  then show ?thesis by (intro scan_converges [OF demo_start_ok]) (simp_all add: scan0_def demo_requests_def)
qed

end
