(* ===== verification/Devd_Scan_Faults.thy ===== *)
theory Devd_Scan_Faults
  imports Devd_Scan_Converge
begin

text \<open>
  Faults of the scan control: a command the layer below refuses blocks scanning, a start the controller refuses is
  not heard of, a start that is confirmed late leaves the controller scanning, and a scan without an end inherits the end of
  the scan before it. Before that, where a report goes.
\<close>

section \<open>Reports\<close>

text \<open>What the filters of a scanner say of an advertisement.\<close>

definition scanner_accepts :: "NLSTK_DevdScanner \<Rightarrow> NLSTK_DevdAdvResult \<Rightarrow> bool" where
  "scanner_accepts sc r \<longleftrightarrow>
     (case sc_filters sc of
        None \<Rightarrow> False
      | Some v \<Rightarrow> \<exists>f\<in>set (v_elems v). (isNoFilter f \<or> frame_fits f r \<and> filter_accepts f r) \<and> (\<forall>g\<in>set (takeWhile (\<lambda>g. g \<noteq> f) (v_elems v)). frame_fits g r))"

definition accepting :: "NLSTK_DevdScanner list \<Rightarrow> NLSTK_DevdAdvResult \<Rightarrow> nat \<Rightarrow> nat list" where
  "accepting scs r m = map scannerId (filter (\<lambda>sc. sc_moduleId sc = m \<and> scanner_accepts sc r) scs)"

lemma match_eq:
  assumes "alloc_ok e" "report_result_ok True r" "scanner_ok sc"
  shows "DevdIsMatchFilters e r (sc_filters sc) = Some (scanner_accepts sc r)"
  using assms filters_loop_eq [of e r] by (auto simp: DevdIsMatchFilters_def scanner_ok_def report_result_ok_def scanner_accepts_def split: option.splits)

definition ids :: "nat SDF_Vector option \<Rightarrow> nat list" where
  "ids v = (case v of None \<Rightarrow> [] | Some w \<Rightarrow> v_elems w)"

lemma add_report_ok:
  assumes "alloc_ok e" "\<forall>w. v = Some w \<longrightarrow> v_elems w \<noteq> []"
  shows "\<exists>w. AddReportScannner e v i = (True, Some w) \<and> v_elems w = ids v @ [i]"
proof -
  obtain a where a: "SDF_MemZalloc (sub e 1) = Some a" using alloc_okD [of "sub e 1"] assms(1) by auto
  let ?u = "case v of None \<Rightarrow> \<lparr>v_elems = [], v_capacity = 8\<rparr> | Some w \<Rightarrow> w"
  have "(case v of None \<Rightarrow> SDF_CreateVector (sub e 0) | Some w \<Rightarrow> Some w) = Some ?u" using assms(1) by (cases v) (simp_all add: create_vector_ok)
  moreover have "fst (SDF_VectorEmplaceBack (sub e 2) ?u i)" "v_elems (snd (SDF_VectorEmplaceBack (sub e 2) ?u i)) = v_elems ?u @ [i]"
    using emplace_back_ok [of "sub e 2" ?u i] assms(1) alloc_okD [of "sub e 2"] by (auto simp: SDF_VectorEmplaceBack_def VectorGrow_def)
  moreover have "v_elems ?u = ids v" by (simp add: ids_def split: option.splits)
  ultimately show ?thesis using a by (auto simp: AddReportScannner_def split: prod.splits)
qed

lemma report_loop_eq:
  assumes "alloc_ok e" "report_result_ok True r"
  shows "list_all scanner_ok scs \<Longrightarrow> length vs = 5 \<Longrightarrow> \<forall>m<5. \<forall>w. vs ! m = Some w \<longrightarrow> v_elems w \<noteq> [] \<Longrightarrow>
    \<exists>ws. report_loop e k r scs vs = Some (Some ws) \<and> (\<forall>m<5. ids (ws ! m) = ids (vs ! m) @ accepting scs r m \<and> (\<forall>w. ws ! m = Some w \<longrightarrow> v_elems w \<noteq> []))"
proof (induction scs arbitrary: k vs)
  case (Cons sc scs)
  have m: "DevdIsMatchFilters (sub (sub e k) 0) r (sc_filters sc) = Some (scanner_accepts sc r)" "sc_moduleId sc < 5"
    using match_eq [of "sub (sub e k) 0" r sc] assms Cons.prems(1) by (simp_all add: scanner_ok_def)
  show ?case
  proof (cases "scanner_accepts sc r")
    case False
    then show ?thesis using m Cons by (simp add: accepting_def)
  next
    case True
    obtain w where w: "AddReportScannner (sub (sub e k) 1) (vs ! sc_moduleId sc) (scannerId sc) = (True, Some w)" "v_elems w = ids (vs ! sc_moduleId sc) @ [scannerId sc]"
      using add_report_ok [of "sub (sub e k) 1" "vs ! sc_moduleId sc" "scannerId sc"] assms(1) m(2) Cons.prems(3) by auto
    let ?vs = "vs[sc_moduleId sc := Some w]"
    have "length ?vs = 5" "\<forall>m<5. \<forall>u. ?vs ! m = Some u \<longrightarrow> v_elems u \<noteq> []" using Cons.prems(2,3) w(2) m(2) by (auto simp: nth_list_update split: if_splits)
    from Cons.IH [OF _ this, of "Suc k"] Cons.prems(1) obtain ws where
      ws: "report_loop e (Suc k) r scs ?vs = Some (Some ws)" "\<forall>m<5. ids (ws ! m) = ids (?vs ! m) @ accepting scs r m \<and> (\<forall>w. ws ! m = Some w \<longrightarrow> v_elems w \<noteq> [])" by auto
    have "ids (?vs ! j) = ids (vs ! j) @ (if j = sc_moduleId sc then [scannerId sc] else [])" if "j < 5" for j
      using that Cons.prems(2) w(2) by (auto simp: nth_list_update ids_def)
    then have "report_loop e k r (sc # scs) vs = Some (Some ws)" "\<forall>j<5. ids (ws ! j) = ids (vs ! j) @ accepting (sc # scs) r j"
      using m w True ws by (auto simp: accepting_def)
    then show ?thesis using ws(2) by auto
  qed
qed (simp add: accepting_def)

text \<open>
  A report reaches the modules that look for it (C21). When memory suffices, the result of a report is handed once to every
  module that has a callback and at least one accepting scanner, in the order of the modules, with the numbers of exactly
  those scanners of the module whose filters accept the advertisement, in the order of their creation; nothing else changes
  but the cache.
\<close>

theorem reports_reach_modules:
  assumes "scan_inv s" "alloc_ok e" "report_wf rp" "DevdAdvDataReport (sub e 0) rp (g_advDataCacheList s) = Some (Some r, cs)"
  shows "ReportCbk e rp s = Some (s\<lparr>g_advDataCacheList := cs, scan_reports := scan_reports s @
    map (\<lambda>m. (m, accepting (v_elems (scanners s)) r m, r)) (filter (\<lambda>m. onScanCallback (scanModule s ! m) \<and> accepting (v_elems (scanners s)) r m \<noteq> []) [0..<5])\<rparr>)"
proof -
  let ?scs = "v_elems (scanners s)"
  have r: "report_result_ok True r" using report_safe [of True "sub e 0" "g_advDataCacheList s" rp] assms by (auto simp: scan_inv_def report_wf_def)
  have sc: "list_all scanner_ok ?scs" "g_scanStm s" using scan_invD [OF assms(1)] by (simp_all add: scanners_ok_def)
  obtain ws where ws: "report_loop (sub e 1) 0 r ?scs (replicate 5 None) = Some (Some ws)" "\<forall>m<5. ids (ws ! m) = accepting ?scs r m \<and> (\<forall>w. ws ! m = Some w \<longrightarrow> v_elems w \<noteq> [])"
    using report_loop_eq [of "sub e 1" r ?scs "replicate 5 None" 0] assms(2) r sc(1) by (auto simp: ids_def)
  have one: "(case ws ! m of None \<Rightarrow> [] | Some v \<Rightarrow> if onScanCallback (scanModule s ! m) then [(m, v_elems v, r)] else []) =
      (if onScanCallback (scanModule s ! m) \<and> accepting ?scs r m \<noteq> [] then [(m, accepting ?scs r m, r)] else [])" if "m < 5" for m
    using ws(2) that by (cases "ws ! m") (auto simp: ids_def)
  have all: "concat (map (\<lambda>m. if P m then [g m] else []) xs) = map g (filter P xs)" for P and g :: "nat \<Rightarrow> nat \<times> nat list \<times> NLSTK_DevdAdvResult" and xs
    by (induction xs) auto
  have "report_calls (scanModule s) r ws = map (\<lambda>m. (m, accepting ?scs r m, r)) (filter (\<lambda>m. onScanCallback (scanModule s ! m) \<and> accepting ?scs r m \<noteq> []) [0..<5])"
    unfolding report_calls_def all [symmetric] by (intro arg_cong [where f = concat] map_cong refl) (simp add: one)
  then show ?thesis using assms(4) sc(2) ws(1) by (simp add: ReportCbk_def Let_def)
qed

definition demo_filters :: "NLSTK_DevdScanFilter SDF_Vector" where
  "demo_filters = \<lparr>v_elems = [no_filter], v_capacity = 8\<rparr>"

definition demo_two :: scan where
  "demo_two = demo_start\<lparr>scanModule := \<lparr>sm_used = True, onStartOrStopEvent = True, onScanCallback = True\<rparr> # tl (scanModule demo_start),
     scanners := \<lparr>v_elems = [(new_scanner 1 0)\<lparr>sc_filters := Some demo_filters\<rparr>, new_scanner 2 0, (new_scanner 3 0)\<lparr>sc_filters := Some demo_filters\<rparr>], v_capacity = 8\<rparr>\<rparr>"

lemma demo_start_inv: "scan_inv demo_start" "g_advDataCacheList demo_start = []"
  using init_ok [OF demo_start_ok]
  by (simp_all add: scan0_def demo_start_def DevdScanInit_def DevdScanManagerInit_def DevdStateMachineCtor_def DevdScanManagerCtor_def StateCtor_def SDF_CreateVector_def
      NLSTK_DevdRegScanEventCbk_def SchedulePostTask_def SDF_MemZalloc_def call_dli_def sub_def granting_env_def Let_def to_defs DevdDataCacheInit_def)

lemma demo_two_inv: "scan_inv demo_two"
  using scan_invD [OF demo_start_inv(1)] demo_start_inv(1)
  by (auto simp: demo_two_def scan_inv_def scanners_ok_def scanner_ok_def new_scanner_def demo_filters_def filter_wf_def no_filter_def vd_whole_def vd_ok_def vd_legal_def Let_def)

theorem reports_reach_modules_witness:
  "\<exists>r cs. DevdAdvDataReport (sub (granting_env True) 0) (demo_report 1 0 [1, 1, 2]) [] = Some (Some r, cs) \<and>
     map_option scan_reports (ReportCbk (granting_env True) (demo_report 1 0 [1, 1, 2]) demo_two) = Some (scan_reports demo_two @ [(0, [1, 3], r)])"
proof -
  let ?e = "granting_env True" and ?rp = "demo_report 1 0 [1, 1, 2]"
  have "\<exists>r. DevdGetParsedAdvResult (sub (sub ?e 0) 2) 0 0 0xC4 (demo_addr 1) \<lparr>ac_addr = demo_addr 1, ac_len = 3, ac_data = [1, 1, 2]\<rparr> = Some (Some r)"
    using parsed_view [of "sub (sub ?e 0) 2" "\<lparr>ac_addr = demo_addr 1, ac_len = 3, ac_data = [1, 1, 2]\<rparr>"]
    by (fastforce simp: no_pencil_def first_match_def match_at_def g_pencilAdvertstingData1_def g_pencilAdvertstingData2_def upt_rec)
  then have "\<exists>r cs. DevdAdvDataReport (sub ?e 0) ?rp [] = Some (Some r, cs)"
    by (auto simp: DevdAdvDataReport_def demo_report_def Let_def rd_block_def SDF_MemZalloc_def sub_def granting_env_def)
  then obtain r cs where r: "DevdAdvDataReport (sub ?e 0) ?rp [] = Some (Some r, cs)" by blast
  have acc: "accepting (v_elems (scanners demo_two)) r m = (if m = 0 then [1, 3] else [])" for m
    by (simp add: accepting_def demo_two_def new_scanner_def scanner_accepts_def demo_filters_def no_filter_def Let_def)
  have "g_advDataCacheList demo_two = []" "onScanCallback (scanModule demo_two ! 0)" "report_wf ?rp" by (simp_all add: demo_two_def demo_start_inv(2) report_wf_def demo_report_def)
  then show ?thesis using reports_reach_modules [OF demo_two_inv, of ?e ?rp r cs] r by (simp add: acc upt_rec)
qed

section \<open>Faults\<close>

text \<open>Scanning is blocked: the module waits for an answer to a command the controller never got.\<close>

definition blocked :: "DevdSleStatus \<Rightarrow> scan \<Rightarrow> bool" where
  "blocked st s \<longleftrightarrow> scan_inv s \<and> scan_cmds s = [] \<and> sm_status s = st"

lemma blocked_message: "blocked st s \<Longrightarrow> \<exists>s'. StateMachineProcessMessage no_ext e what s = Some s' \<and> machine_step s s' \<and> blocked st s'"
  using message_inv [of s e what] by (auto simp: blocked_def machine_step_def)

interpretation stuck: scan_kept "blocked st" "\<lambda>_. True" clock_ok for st
  by unfold_locales (simp_all add: blocked_message, simp_all add: blocked_def scan_inv_def)

lemma blocked_task:
  assumes "blocked st s" "st \<noteq> DEVD_SLE_STATUS_IDLE" "task_ok t" "clock_ok e"
  shows "\<exists>s'. run_task no_ext e t s = Some s' \<and> blocked st s'"
proof (cases t)
  case (TaskStartScan i p fs)
  then show ?thesis using stuck.start_task_ok [OF assms(1,4), of fs i p] assms(3) by (auto simp: run_task_def)
next
  case (TaskStopScan i)
  then show ?thesis using stuck.stop_task_ok [OF assms(1,4), of i] by (simp add: run_task_def)
next
  case TaskStopAllScan
  then show ?thesis using stuck.stop_all_task_ok [OF assms(1,4)] by (simp add: run_task_def blocked_def)
qed (use assms in \<open>auto simp: run_task_def DevdRegScanEventCbk_def DevdSleSetScanParam_def DevdSleEnableScan_def blocked_def\<close>)

lemma blocked_post: "blocked st s \<Longrightarrow> task_ok t \<Longrightarrow> SchedulePostTask e t s = (ok, s') \<Longrightarrow> blocked st s'"
  using post_inv [of s t e ok s'] by (auto simp: blocked_def SchedulePostTask_def split: if_splits)

lemma blocked_step:
  assumes "blocked st s" "st \<noteq> DEVD_SLE_STATUS_IDLE" "event_wf (e, ev)"
  shows "\<exists>s'. scan_step e ev s = Some s' \<and> blocked st s'"
proof -
  have i: "scan_inv s" using assms(1) by (simp add: blocked_def)
  obtain s' where s': "scan_step e ev s = Some s'" "scan_inv s'" using step_ok [OF i assms(3)] by blast
  show ?thesis
  proof (cases ev)
    case RunTask
    have "blocked st (s\<lparr>scan_tasks := ts\<rparr>)" "task_ok t" if "scan_tasks s = t # ts" for t ts using assms(1) that by (simp_all add: blocked_def scan_inv_def)
    then show ?thesis using RunTask assms blocked_task by (cases "scan_tasks s") (auto simp: scan_step_def)
  next
    case (StartScan k p fs n)
    then have "scan_cmds s' = scan_cmds s \<and> sm_status s' = sm_status s"
      using s'(1) by (auto simp: scan_step_def NLSTK_DevdStartScan_def SchedulePostTask_def split: if_splits bind_splits option.splits prod.splits)
    then show ?thesis using s' assms(1) by (simp add: blocked_def)
  next
    case (StopScan k)
    then show ?thesis using assms(1) blocked_post [OF assms(1), of "TaskStopScan k" "sub e 1"] by (auto simp: scan_step_def NLSTK_DevdStopScan_def split: option.splits prod.splits)
  next
    case StopAllScan
    then show ?thesis using blocked_post [OF assms(1), of TaskStopAllScan e] by (auto simp: scan_step_def NLSTK_DevdStopAllScan_def split: prod.splits)
  next
    case (Report d)
    then have "scan_cmds s' = scan_cmds s \<and> sm_status s' = sm_status s" using s'(1) by (auto simp: scan_step_def dest!: scan_report_kept)
    then show ?thesis using s' assms(1) by (simp add: blocked_def)
  next
    case TimeoutOfStart
    then show ?thesis using message_inv [OF i, of e DEVD_INTERNAL_TIMEOUT] assms(1) by (auto simp: scan_step_def InternalTimeout_def blocked_def machine_step_def)
  next
    case TimeoutOfDuration
    then show ?thesis using stuck.duration_timeout_ok [OF assms(1), of e] assms(3) by (auto simp: scan_step_def)
  next
    case (Answer k)
    then show ?thesis using assms(1) by (simp add: scan_step_def blocked_def)
  next
    case (DeregModule m)
    then show ?thesis using stuck.dereg_module_ok [OF assms(1), of e m] assms(3) by (simp add: scan_step_def)
  next
    case (RemoveScanner k)
    then show ?thesis using stuck.remove_scanner_ok [OF assms(1), of e k] assms(3) by (simp add: scan_step_def)
  qed (use assms(1) stuck.create_module_ok stuck.create_scanner_ok in \<open>simp_all add: scan_step_def\<close>)
qed

lemma blocked_run: "blocked st s \<Longrightarrow> st \<noteq> DEVD_SLE_STATUS_IDLE \<Longrightarrow> list_all event_wf evs \<Longrightarrow> \<exists>s'. run_scan evs s = Some s' \<and> blocked st s'"
proof (induction evs arbitrary: s)
  case (Cons x evs)
  then show ?case using blocked_step [of st s "fst x" "snd x"] by (cases x) auto
qed simp

text \<open>
  A refused command blocks scanning (C38). If the layer below refuses the command that switches the scan on or off, the
  module still waits for its answer: whatever the modules request afterwards, whichever tasks run, timers fire and reports
  arrive, no further command is handed down, until the stack is enabled anew.
\<close>

theorem refused_command_blocks:
  assumes "scan_inv s" "scan_cmds s = []" "sm_status s = DEVD_SLE_STATUS_IDLE" "scan_tasks s = TaskEnableScan b # ts" "\<not> call_dli e" "list_all event_wf evs"
  shows "\<exists>s1 s2. scan_step e RunTask s = Some s1 \<and> run_scan evs s1 = Some s2 \<and> scan_cmds s2 = [] \<and> sm_status s2 \<noteq> DEVD_SLE_STATUS_IDLE"
proof -
  let ?st = "if b then DEVD_SLE_STATUS_SET_SCAN_DISABLE2ENABLE else DEVD_SLE_STATUS_SET_SCAN_ENABLE2DISABLE"
  let ?s = "s\<lparr>scan_tasks := ts, sm_status := ?st\<rparr>"
  have "scan_step e RunTask s = Some ?s" using assms(2-5) by (simp add: scan_step_def run_task_def DevdSleEnableScan_def SleUpdateEnableScan_def hand_cmd_def)
  moreover have "blocked ?st ?s" using assms(1,2,4) by (simp add: blocked_def scan_inv_def)
  ultimately show ?thesis using blocked_run [of ?st ?s evs] assms(6) by (auto simp: blocked_def)
qed

definition demo_refusing :: "bool env" where
  "demo_refusing = (granting_env True)\<lparr>env_dli := (\<lambda>_. False)\<rparr>"

lemma demo_start_idle: "scan_cmds demo_start = []" "sm_status demo_start = DEVD_SLE_STATUS_IDLE" "stm_current demo_start = Some DEVD_STATE_STOPPED"
  by (simp_all add: scan0_def demo_start_def DevdScanInit_def DevdScanManagerInit_def DevdStateMachineCtor_def DevdScanManagerCtor_def StateCtor_def SDF_CreateVector_def
      NLSTK_DevdRegScanEventCbk_def SchedulePostTask_def SDF_MemZalloc_def call_dli_def sub_def granting_env_def Let_def to_defs)

theorem refused_command_blocks_witness:
  "\<exists>s1 s2. scan_step demo_refusing RunTask (demo_start\<lparr>scan_tasks := [TaskEnableScan False]\<rparr>) = Some s1 \<and> run_scan demo_events s1 = Some s2 \<and> scan_cmds s2 = [] \<and>
     sm_status s2 \<noteq> DEVD_SLE_STATUS_IDLE"
proof (rule refused_command_blocks [where b = False and ts = "[]"])
  show "scan_inv (demo_start\<lparr>scan_tasks := [TaskEnableScan False]\<rparr>)" using demo_start_inv(1) by (simp add: scan_inv_def)
  show "list_all event_wf demo_events" by (simp add: demo_events_def)
qed (simp_all add: demo_start_idle demo_refusing_def call_dli_def)

text \<open>
  A refused start is not heard of. When the controller refuses to switch the scan on, whatever code it gives, the
  machine is sent the message of a scan that is off, which it ignores while it is starting: it goes on waiting, no module
  is told and only the status of the command is reset. A refusal of the parameters in contrast stops the machine and tells
  every module.
\<close>

theorem refused_start_unheard:
  assumes "g_scanStm s" "stm_current s = Some DEVD_STATE_STARTING" "scanCbk s" "st \<noteq> 0"
  shows "DevdSleEnableScanCbk no_ext e st s = Some (s\<lparr>sm_status := DEVD_SLE_STATUS_IDLE\<rparr>) \<and>
    (st \<le> 255 \<longrightarrow> DevdSleSetScanParamCbk no_ext e st s = Some ((to_stopped no_ext (notify_modules NLSTK_ERRCODE_FAIL True (s\<lparr>tmpScanParams := None\<rparr>)))\<lparr>sm_status := DEVD_SLE_STATUS_IDLE\<rparr>))"
  using assms by (simp add: DevdSleEnableScanCbk_def DevdSleSetScanParamCbk_def ScanCbk_def StateMachineProcessMessage_def StartingDispatch_def Let_def)

theorem refused_start_unheard_witness:
  "map_option stm_current (DevdSleEnableScanCbk no_ext (granting_env True) 7 (scan0\<lparr>g_scanStm := True, stm_current := Some DEVD_STATE_STARTING, scanCbk := True\<rparr>)) = Some (Some DEVD_STATE_STARTING)"
  using refused_start_unheard [of "scan0\<lparr>g_scanStm := True, stm_current := Some DEVD_STATE_STARTING, scanCbk := True\<rparr>" 7 "granting_env True"] by simp

text \<open>
  A start that is confirmed late leaves the controller scanning (C39). When the timer of the machine fires while the command
  that switches the scan on is under way, the machine goes to the stopped state and the modules are told of a timeout; the
  confirmation that comes then is ignored. Nothing is posted that would switch the scan off again, and the machine counts
  as stopped with no command under way.
\<close>

theorem late_start_ignored:
  assumes "scan_inv s" "stm_current s = Some DEVD_STATE_STARTING" "scanCbk s" "sm_status s = DEVD_SLE_STATUS_SET_SCAN_DISABLE2ENABLE" "scan_cmds s = [CmdEnableScan True]"
  shows "\<exists>s1 s2. scan_step e TimeoutOfStart s = Some s1 \<and> scan_step e' (Answer 0) s1 = Some s2 \<and> stm_current s2 = Some DEVD_STATE_STOPPED \<and>
    scan_cmds s2 = [] \<and> sm_status s2 = DEVD_SLE_STATUS_IDLE \<and> scan_tasks s2 = scan_tasks s \<and> scan_events s2 = scan_events (notify_modules NLSTK_ERRCODE_TIMEOUT True s)"
proof -
  define t where "t = to_stopped no_ext (notify_modules NLSTK_ERRCODE_TIMEOUT True s)"
  have t: "stm_current t = Some DEVD_STATE_STOPPED" "scan_cmds t = scan_cmds s" "sm_status t = sm_status s" "scanCbk t = scanCbk s" "g_scanStm t = g_scanStm s" "scan_tasks t = scan_tasks s"
    "scan_events t = scan_events (notify_modules NLSTK_ERRCODE_TIMEOUT True s)"
    by (simp_all add: t_def to_defs notify_modules_def)
  have "scan_step e TimeoutOfStart s = Some t" using assms(2) by (simp add: scan_step_def InternalTimeout_def StateMachineProcessMessage_def StartingDispatch_def t_def)
  moreover have "scan_step e' (Answer 0) t = Some (t\<lparr>scan_cmds := [], sm_status := DEVD_SLE_STATUS_IDLE\<rparr>)"
    using t assms(3-5) scan_invD [OF assms(1)] by (simp add: scan_step_def DevdSleEnableScanCbk_def ScanCbk_def StateMachineProcessMessage_def StoppedDispatch_def)
  ultimately show ?thesis using t by simp
qed

definition demo_starting :: scan where
  "demo_starting = demo_start\<lparr>stm_current := Some DEVD_STATE_STARTING, inflightScanSetting := zero_setting\<lparr>si_window := 900, si_interval := 9000\<rparr>, scanCbk := True,
     sm_status := DEVD_SLE_STATUS_SET_SCAN_DISABLE2ENABLE, scan_cmds := [CmdEnableScan True], scan_tasks := []\<rparr>"

theorem late_start_ignored_witness:
  "\<exists>s1 s2. scan_step demo_refusing TimeoutOfStart demo_starting = Some s1 \<and> scan_step demo_refusing (Answer 0) s1 = Some s2 \<and> stm_current s2 = Some DEVD_STATE_STOPPED \<and> scan_tasks s2 = []"
proof -
  have "idle (inflightFrame4ScanSetting demo_start)" using demo_start_inv(1) demo_start_idle(3) by (simp add: scan_inv_def stm_ok_def)
  then have "scan_inv demo_starting" using demo_start_inv(1) by (simp add: scan_inv_def demo_starting_def stm_ok_def listens_def mode_ok_def idle_def zero_setting_def)
  from late_start_ignored [OF this, of demo_refusing demo_refusing] show ?thesis by (auto simp: demo_starting_def)
qed

lemma set_mode_time: "expireTime (SetScanMode m b i) = expireTime i"
  by (simp add: SetScanMode_def set_duty_def SetLowPowerDuration_def SetBalancedDuration_def SetFullScanDuration_def SetLowLatencyDuration_def
      SetDutyCycle2Duration_def SetDutyCycle10LowDuration_def SetDutyCycle10Duration_def SetDutyCycle25Duration_def SetDutyCycle50LowDuration_def
      SetDutyCycle50Duration_def SetDutyCycle50HighDuration_def SetDutyCycle100LowDuration_def SetDutyCycle100Duration_def)

text \<open>
  A scan without an end inherits the end of the scan before it (C40). A scanner that has been started for some seconds and is
  started again without a duration keeps the old end: the request succeeds, and as soon as the old end has passed the new
  setting is cleared like an expired one.
\<close>

theorem old_end_inherited:
  assumes "scan_inv s" "alloc_ok e" "i \<noteq> 0" "SDF_VectorFindFirst (CompScannerId i) (scanners s) = Some k" "hasDuration (scanSetting (v_elems (scanners s) ! k))"
    and "ss_duration st \<le> 0" "scanMode st \<noteq> 0x0C" "ss_frameType st = 1" "list_all filter_wf (v_elems v)"
  shows "\<exists>s' j. DevdAddScanParam no_ext e i st (Some v) s = Some (NLSTK_ERRCODE_SUCCESS, s') \<and> scanSetting (v_elems (scanners s') ! k) = j \<and> hasDuration j \<and>
    expireTime j = expireTime (scanSetting (v_elems (scanners s) ! k)) \<and> (\<forall>now. later now (expireTime j) \<longrightarrow> idle (clear_expired now j))"
proof -
  have k: "k < length (v_elems (scanners s))" using find_first_Some(1) [OF assms(4)] .
  obtain c where "DevdCloneFiltersVector (sub e 0) (Some v) = Some (Some c)" using clone_copies [OF assms(9), of "sub e 0"] assms(2) by auto
  then show ?thesis using assms(3-8) k scan_invD [OF assms(1)]
    by (simp add: DevdAddScanParam_def DevdAddFilters_def store_setting_def scanner_upd_def Let_def set_mode_ok set_mode_time clear_expired_def)
qed

definition demo_ending :: scan where
  "demo_ending = demo_two\<lparr>scanners := \<lparr>v_elems = [(new_scanner 1 0)\<lparr>scanSetting := (ResetScanSetting zero_setting)\<lparr>hasDuration := True, expireTime := \<lparr>tv_sec = 9, tv_nsec = 0\<rparr>\<rparr>\<rparr>], v_capacity = 8\<rparr>\<rparr>"

theorem old_end_inherited_witness:
  "\<exists>s'. DevdAddScanParam no_ext (granting_env True) 1 (demo_setting 1 0) (Some demo_filters) demo_ending = Some (NLSTK_ERRCODE_SUCCESS, s') \<and>
     hasDuration (scanSetting (v_elems (scanners s') ! 0)) \<and> tv_sec (expireTime (scanSetting (v_elems (scanners s') ! 0))) = 9"
proof -
  have "scan_inv demo_ending" using demo_two_inv
    by (simp add: demo_ending_def scan_inv_def scanners_ok_def scanner_ok_def new_scanner_def mode_ok_def idle_def time_ok_def ResetScanSetting_def zero_setting_def)
  moreover have "SDF_VectorFindFirst (CompScannerId 1) (scanners demo_ending) = Some 0" by (simp add: SDF_VectorFindFirst_def demo_ending_def CompScannerId_def new_scanner_def)
  ultimately show ?thesis
    using old_end_inherited [of demo_ending "granting_env True" 1 0 "demo_setting 1 0" demo_filters]
    by (auto simp: demo_ending_def demo_setting_def demo_filters_def filter_wf_def no_filter_def vd_whole_def vd_ok_def vd_legal_def Let_def)
qed

end
