(* ===== verification/Spec2Isabelle.thy ===== *)
theory Spec2Isabelle
  imports Dli_Cmd Dtap_Module_Props Cm_Listener Devd_Scan_Faults
begin

text \<open>
  Verification of the data plane of the NearLink stack (\<open>src/services/stack/src\<close>), of the part of its connection
  management that creates and releases the channels of the data plane, and of the scanning half of its device discovery.

  \<^bold>\<open>The program.\<close> The stack carries packets of applications over the SLE radio. Its data plane is the module DTAP
  (\<open>dp/dtap\<close>) on top of the data link interface DLI (\<open>dli/layer\<close>), with the buffers, maps and codecs of \<open>sdf\<close> and
  \<open>utils\<close> below. A client calls \<open>DTAP_DataSend\<close> with a packet for a channel (a link \<open>lcid\<close> and an identifier \<open>tcid\<close>);
  the transport mode of the channel (basic, transparent, stream or reliable) puts it into one or more frames;
  the scheduler queues the frames by priority, link and channel, cuts them into link fragments and hands these
  to DLI within the buffer quota of the link; DLI writes the link headers and passes them to the driver. In the
  other direction DLI collects link fragments, \<open>DTAP_DataRecv\<close> finds the channel, parses and checks the frame,
  and the mode delivers its content to the registered receiver. The connection management creates and
  releases the channels by callbacks; timers of the modes trigger acknowledgements, retransmissions and
  reordering. DLI also carries the commands to the controller and its events.

  The connection management (\<open>cp/bsl/sle/cm\<close>) keeps the list of links and, per link, the channels. A module above asks
  for a channel (\<open>CM_DynTransChannelEstablishReq\<close>): a local identifier is taken from the pool of the link, a node is
  added to the list, and a request is sent as a signalling message over a fixed channel of DTAP, with a timer until
  its answer. The peer takes an identifier of its own, activates its node, reports the channel to its data plane
  and answers; the answer activates the first node. Releasing is a second pair of messages. A link that comes up or
  goes down is announced to the registered modules in a fixed order; the signalling then asks the peer for its
  capabilities, and the dynamic channels create or clear what belongs to the link.

  The device discovery (\<open>cp/bsl/sle/devd\<close>) scans for advertisements. Modules register, hand over scan parameters and
  name filters, and start and stop scanning. One scanner serves them all: a state machine sends the parameters and
  the enable and disable commands to the controller, waits for the answer of each, restarts scanning when the best
  setting of the running modules changes, and ends the scans whose time is over by one timer. A report of the
  controller is decoded from its bytes, a scan response is joined to the advertisement it belongs
  to, and the result goes to each module whose filters it passes; names are searched with Knuth, Morris and Pratt.

  \<^bold>\<open>Theories and sources.\<close>
  \<^item> \<open>Prelude\<close>: integer types, truncations, the environment, shared lemmas and the collections of simplification rules.
  \<^item> \<open>Byte_Codec\<close>: \<open>byte_codec.h\<close>, \<open>crc16.c\<close>. \<open>SDF_Buff\<close>: \<open>sdf_buff.c\<close>, with the interface \<open>window_buffer\<close> of a buffer
    whose data window moves inside its storage. \<open>SDF_Map\<close>: \<open>sdf_map.c\<close>, with the interface \<open>map_interface\<close>: content and results
    of every operation.
  \<^item> \<open>Dtap_Types\<close>, \<open>Dtap_Frame\<close>: error codes, frame structure, pointers into buffers, bit fields, parsers, header checks
    and builders (\<open>dtap_frame.c\<close>, \<open>dtap_frame_basic.c\<close>, second half of \<open>dtap_frame_enhance.c\<close>).
  \<^item> \<open>Dtap_Frag\<close>: fragmentation and aggregation (first half of \<open>dtap_frame_enhance.c\<close>).
  \<^item> \<open>Dli_Layer\<close>, \<open>Dli_Cmd\<close>: data path and command queue of \<open>dli_layer.c\<close>, \<open>dli_layer_utils.c\<close>, \<open>dli_layer_config.c\<close>,
    \<open>dli_layer_callback.c\<close> and the event entry of \<open>dli_event.c\<close>.
  \<^item> \<open>Dtap_Quota\<close>, \<open>Dtap_Scheduler\<close>: \<open>dtap_scheduler.c\<close>. \<open>Dtap_Sched_Inv\<close>, \<open>Dtap_Sched_Run\<close>: its invariant and its runs.
  \<^item> \<open>Dtap_Trans\<close>, \<open>Dtap_Reliable\<close>: \<open>dtap_trans.c\<close>, \<open>dtap_trans_reliable.c\<close> and the end of \<open>dtap.c\<close>; \<open>Dtap_Reliable_Tx\<close>,
    \<open>Dtap_Reliable_Rx\<close>, \<open>Dtap_Exactly_Once\<close>, \<open>Dtap_Reliable_Props\<close>, \<open>Dtap_Recv_Safe\<close>: its proofs.
  \<^item> \<open>Dtap_Stream\<close>, \<open>Dtap_Basic\<close>: \<open>dtap_trans_stream.c\<close>, \<open>dtap_trans_basic.c\<close>, \<open>dtap_trans_transparent.c\<close>.
  \<^item> \<open>Dtap_Mode\<close>: the table of modes, the contract \<open>trans_mode\<close> of sending and its extension \<open>receiving_mode\<close>, interpreted
    on the operation tables of the four modes.
  \<^item> \<open>Dtap_Channel\<close>, \<open>Dtap_Module\<close>: \<open>dtap_channel.c\<close> and \<open>dtap.c\<close>; \<open>Dtap_Module_Inv\<close>, \<open>Dtap_Module_Props\<close>: invariant and
    histories of the whole module.

  \<^item> \<open>Cm_Codec\<close>, \<open>Cm_Signaling\<close>: the channel messages and the table of requests that wait for an answer
    (\<open>cm_signaling_trans_channel.c\<close>, \<open>cm_signaling_manage.c\<close>). \<open>Cm_Cap\<close>: the capability exchange (\<open>cm_signaling_cap.c\<close>,
    \<open>cm_signaling_version.c\<close>, \<open>cm_signaling_internal.c\<close>).
  \<^item> \<open>Cm_Channel\<close>: links, identifiers and channel lists (\<open>sle_logic_link_mgr.c\<close>, \<open>cm_dyn_tcid.c\<close>, \<open>cm_trans_channel_mgr.c\<close>,
    \<open>sdf_vector.c\<close>). \<open>Cm_Pool\<close>: the interface \<open>id_pools\<close> of the identifier pools, interpreted on \<open>cm_dyn_tcid.c\<close>.
  \<^item> \<open>Cm_Dyn\<close>: the event table of the dynamic channels, its handlers, the requests and the dispatch of messages
    (\<open>cm_dyn_trans_chan_state_mgr.c\<close>, \<open>cm_dyn_trans_channel_mgr.c\<close>). \<open>Cm_Dyn_Inv\<close>: its invariant, the abstract map of channels
    and the refinement of every event. \<open>Cm_Handshake\<close>, \<open>Cm_Props\<close>: two sides together. \<open>Cm_Failures\<close>: departures of the
    code from its intention. \<open>Cm_Listener\<close>: \<open>cm_logic_link_listener_mgr.c\<close> and the end of a link.

  \<^item> \<open>Devd_Kmp\<close>: the string search of \<open>devd_report_parse.c\<close>. \<open>Devd_Report\<close>: the parsers of reports and the cache of advertisements
    that wait for their scan response (\<open>devd_report_parse.c\<close>); \<open>Devd_Report_Props\<close>, \<open>Devd_Report_Spec\<close>: its invariant
    and what a report does to the cache.
  \<^item> \<open>Devd_Filter\<close>: the filters and the advertisement data they read (\<open>devd_scan_filter.c\<close>, \<open>devd_scan_util.c\<close>); \<open>Devd_Filter_Props\<close>:
    their meaning and the choice of the setting.
  \<^item> \<open>Devd_Scan\<close>: modules, parameters, timer, state machine, commands and reports of the scanner (\<open>devd_scan.c\<close>,
    \<open>devd_scan_manager.c\<close>, \<open>devd_scan_stm.c\<close>, \<open>devd_scan_api.c\<close>, \<open>nlstk_scan_api.c\<close>). \<open>Devd_Scan_Inv\<close>: its invariant. \<open>Devd_Scan_Run\<close>: the end of the expiry loop and the
    interface \<open>scan_kept\<close>, by which a predicate kept by the state machine and by the edits of the module list is kept by
    every operation; it is interpreted on the invariant (\<open>safe\<close>), on the liveness predicate (\<open>lively\<close>) and on the blocked
    scanner (\<open>stuck\<close>). \<open>Devd_Scan_Events\<close>: histories. \<open>Devd_Scan_Live\<close>, \<open>Devd_Scan_Converge\<close>: the controller, which obeys
    and answers commands, and convergence of host and controller together. \<open>Devd_Scan_Faults\<close>: who gets a report, and departures from the intention.

  \<^bold>\<open>State and errors.\<close> A C structure is a record with the fields of the source, a list head is the list of its
  elements, a pointer into a buffer is the buffer and an offset. Channels are cells of a heap, since the map of
  links and the queues of the scheduler share them; freeing one removes the cell. A function returns \<open>None\<close> when the
  code would access memory out of range, freed or of the wrong type; error codes are values of \<open>DTAP_errno\<close>. So
  a theorem that a call equals \<open>Some\<close> something includes that it ends and is free of invalid accesses. Fields of 8
  and 16 bits that take part in wrap-around are words; lengths are numbers, truncated where the code narrows
  them. The module records its calls of receivers, status callbacks, release requests and timers in logs. The nodes of the
  channel lists of the connection management carry their address, so that a pointer to a node is its address.

  \<^bold>\<open>Environment.\<close> Results of the allocator, the timers, the clock, the driver and the receivers of the upper layers are
  answers of a record \<open>env\<close>, looked up under the path of the dynamic call, so that no two calls share an answer; a
  theorem for every environment holds for every combination of answers. Where a theorem needs memory to be
  available it says so (\<open>alloc_ok\<close>). Operations run one at a time on the worker thread, as the code arranges it by
  posting tasks. In \<open>Dli_Cmd\<close> two threads interleave: the thread of the layer goes through its send loop one test,
  transmission or payment at a time, and the callbacks of the control plane run between any two of these steps.

  \<^bold>\<open>Loops.\<close> No definition has fuel. The loops are structural recursions or functions with a measure: the fragment loops
  by the bytes left, the scheduler loop by the free buffers of the controller, and
  the scan for the next missing sequence number by the length of the queue plus one.

  \<^bold>\<open>What the theorems show.\<close>
  \<^item> Codecs and frames: the table driven checksum is the polynomial one and detects every changed byte; what
    the builders write, the parsers of the peer accept and return unchanged; no parser reads outside its buffer.
  \<^item> Fragmentation, aggregation and DLI: cutting, transmitting and joining is the identity; the collectors stay
    inside their buffers for every input; the command queue is first in first out under every interleaving of the
    steps of the send loop, while its credits can wrap.
  \<^item> Scheduler: the quotas are the exact largest-remainder distribution; every run is a run of an abstract
    flow-controlled sender, ends, and keeps counters, queues and channels consistent; removed channels leave no
    pointer behind.
  \<^item> Modes: the reliable mode delivers whole and cut packets in order and exactly once, while the upper layer takes
    them and memory lasts, and keeps its send window; the stream mode
    delivers in order; the basic mode loses nothing before the link is up.
  \<^item> Module: from initialisation on every history of calls, packets, timers and reports, the four events with known
    defects named there apart, ends without an invalid access and keeps the module well-formed; created channels have the attributes of their mode; a packet sent
    on a basic channel reaches the receiver of the peer unchanged.
  \<^item> Connection management: from a registration on, as long as no link with channels goes down without memory and no
    registration changes while there are channels, a channel owns its identifier and every event is a step of the
    abstract map of channels on one link; a handshake leaves both sides with the same channel, the capability
    exchange sets what the peer supports, identifiers are given out lowest first and returned exactly, and with
    memory a link that goes down leaves nothing behind.
  \<^item> Device discovery: every history of requests, answers, reports and timers ends without an invalid access; once
    the requests stop and the controller answers, host and controller, which obeys the commands it is handed, reach a state
    in which the controller scans exactly if a module listens, with the best setting; a scan response is joined to the bytes of the advertisement it belongs to, unless these select the parser
    of the older format; a module gets a report exactly
    when it is scanning and its filters accept it; the string search finds the first occurrence and always ends.
    The hypotheses name what the clock and the controller do: time is not set back between two reads of a step and does not overflow, timers and
    memory are available, and each command gets one answer.
  \<^item> Defects of the code are stated as theorems about the model: retries of aggregate and fragment frames after
    a busy receiver, the stale payload pointer of copied frames, the overrun of the receive window, the stream
    reorder timer, the credits of commands, the first fragment that finds no memory, the dangling channel after a
    second activation, the timer of a request that was never sent,
    answers nobody asked for, identifiers that are never returned, channels that outlive their pools, and a scanner that waits forever after a refused
    command, ignores a late start, reads a stale name or keeps the end time of an earlier scan.

  \<^bold>\<open>Not modelled.\<close> The rest of the control plane (establishment of links and concurrent connections, isochronous and
  broadcast links, security, advertising and the start of device discovery, ranging, quality of service, SSAP, profiles and audio), whose calls into the
  modelled parts are the arguments of the modelled operations; the functions registered with the scanner from outside
  (collaboration and filtering in the chip) and the blocking calls of its interface;
  the encoders of single commands and decoders of single events of DLI, which copy parameters; the driver, threads,
  locks, memory and logs of the platform, which appear as the environment; the C++ services, bindings and
  parcels above the stack. Freed memory is modelled for channels only; that other objects are freed exactly once
  is not shown. Pointer links of the intrusive lists are not modelled below the level of the list of elements.
\<close>

end
